(* ===== verification/Prelude.thy ===== *)
theory Prelude
  imports Main "HOL-Library.Char_ord" "HOL-Library.List_Lexorder"
begin

text \<open>
  Shared vocabulary of the development: the errors the Python code raises, results as sums,
  the string predicates the validators use, aware and naive datetimes, and the generic
  induction over runs of a component.

  A Python \<open>str\<close> is a HOL \<open>string\<close>: one \<open>char\<close> per code point, so only code points below 256
  occur, \<open>length\<close> is Python's \<open>len\<close>, and list order (\<open>List_Lexorder\<close>) is Python's string order.
  A Python \<open>int\<close> is an \<open>int\<close>. Timestamps are microseconds since the Unix epoch, in UTC.
\<close>

subsection \<open>Errors and results\<close>

text \<open>
  One constructor per exception class the modelled code raises, with the constant part of its
  message. \<open>DataError\<close> and \<open>IntegrityError\<close> are what asyncpg raises when PostgreSQL refuses a
  value (a number outside its column's type) or a constraint. A body run inside
  \<open>connection.transaction()\<close> that raises leaves the database as it was: the models return
  \<open>Inl\<close> without a new state, which is that rollback.
\<close>

datatype py_error =
    ValueError string
  | TypeError string
  | RuntimeError string
  | KeyError string
  | MessageIdentityConflict string
  | SourceBudgetExceeded string
  | DataError string
  | IntegrityError string
  | OverflowError string
  | HandlerError string
  | CancelledError string
  | CanaryAdmissionError string
  | OperatorControlRefused string
  | OperatorControlUnavailable string
  | ArithmeticError string

text \<open>\<open>str(exc)\<close>, and the errors that \<open>except Exception\<close> catches (not a task's cancellation).\<close>

primrec error_text :: "py_error \<Rightarrow> string" where
  "error_text (ValueError s) = s"
| "error_text (TypeError s) = s"
| "error_text (RuntimeError s) = s"
| "error_text (KeyError s) = s"
| "error_text (MessageIdentityConflict s) = s"
| "error_text (SourceBudgetExceeded s) = s"
| "error_text (DataError s) = s"
| "error_text (IntegrityError s) = s"
| "error_text (OverflowError s) = s"
| "error_text (HandlerError s) = s"
| "error_text (CancelledError s) = s"
| "error_text (CanaryAdmissionError s) = s"
| "error_text (OperatorControlRefused s) = s"
| "error_text (OperatorControlUnavailable s) = s"
| "error_text (ArithmeticError s) = s"

definition is_exception :: "py_error \<Rightarrow> bool" where
  "is_exception e = (case e of CancelledError s \<Rightarrow> False | _ \<Rightarrow> True)"

type_synonym 'a res = "py_error + 'a"

type_synonym timestamp = int

text \<open>\<open>returned\<close> collects how the steps of an operation that returned a value must have gone.\<close>

named_theorems returned

definition rbind :: "'a res \<Rightarrow> ('a \<Rightarrow> 'b res) \<Rightarrow> 'b res" where
  "rbind m k = (case m of Inl e \<Rightarrow> Inl e | Inr x \<Rightarrow> k x)"

lemma rbind_Inl [simp]: "rbind (Inl e) k = Inl e"
  by (simp add: rbind_def)

lemma rbind_Inr [simp]: "rbind (Inr x) k = k x"
  by (simp add: rbind_def)

lemma rbind_eq_Inr [returned]: "rbind m k = Inr y \<longleftrightarrow> (\<exists>x. m = Inr x \<and> k x = Inr y)"
  by (cases m) auto

lemma case_prod_eq_Inr [returned]: "(case p of (a, b) \<Rightarrow> f a b) = Inr y \<longleftrightarrow> f (fst p) (snd p) = Inr y"
  by (simp add: case_prod_beta)

lemma if_Inl_eq_Inr [simp]: "(if b then Inl e else m) = Inr y \<longleftrightarrow> \<not> b \<and> m = Inr y"
  by simp

lemma case_option_eq_Inr [returned]:
  "(case x of None \<Rightarrow> Inl e | Some a \<Rightarrow> f a) = Inr y \<longleftrightarrow> (\<exists>a. x = Some a \<and> f a = Inr y)"
  by (cases x) auto

subsection \<open>Strings\<close>

text \<open>\<open>str.strip()\<close> removes the characters for which \<open>str.isspace()\<close> holds from both ends.\<close>

definition py_space :: "char \<Rightarrow> bool" where
  "py_space c \<longleftrightarrow> (let n = of_char c :: nat in
     (9 \<le> n \<and> n \<le> 13) \<or> (28 \<le> n \<and> n \<le> 32) \<or> n = 133 \<or> n = 160)"

definition lstrip :: "string \<Rightarrow> string" where
  "lstrip s = dropWhile py_space s"

definition strip :: "string \<Rightarrow> string" where
  "strip s = rev (lstrip (rev (lstrip s)))"

text \<open>\<open>not value.strip()\<close>: the string is empty or all white space.\<close>

definition blank :: "string \<Rightarrow> bool" where
  "blank s \<longleftrightarrow> strip s = []"

definition py_digit :: "char \<Rightarrow> bool" where
  "py_digit c \<longleftrightarrow> (let n = of_char c :: nat in 48 \<le> n \<and> n \<le> 57)"

definition lower_hex :: "char \<Rightarrow> bool" where
  "lower_hex c \<longleftrightarrow> (let n = of_char c :: nat in (48 \<le> n \<and> n \<le> 57) \<or> (97 \<le> n \<and> n \<le> 102))"

text \<open>Evaluated on the bits of a character, which is what \<open>code_simp\<close> does quickly.\<close>

lemma py_digit_bits [code]:
  "py_digit (Char b0 b1 b2 b3 b4 b5 b6 b7) = (\<not> b7 \<and> \<not> b6 \<and> b5 \<and> b4 \<and> (b3 \<longrightarrow> \<not> b1 \<and> \<not> b2))"
  by (cases b0; cases b1; cases b2; cases b3; cases b4; cases b5; cases b6; cases b7; simp add: py_digit_def)

lemma lower_hex_bits [code]:
  "lower_hex (Char b0 b1 b2 b3 b4 b5 b6 b7) = (\<not> b7 \<and> b5 \<and>
     (if b6 then \<not> b4 \<and> \<not> b3 \<and> (b0 \<or> b1 \<or> b2) \<and> \<not> (b0 \<and> b1 \<and> b2) else b4 \<and> (b3 \<longrightarrow> \<not> b1 \<and> \<not> b2)))"
  by (cases b0; cases b1; cases b2; cases b3; cases b4; cases b5; cases b6; cases b7; simp add: lower_hex_def)

definition control_char :: "char \<Rightarrow> bool" where
  "control_char c \<longleftrightarrow> (of_char c :: nat) < 32"

lemma control_char_bits [code]: "control_char (Char b0 b1 b2 b3 b4 b5 b6 b7) = (\<not> b5 \<and> \<not> b6 \<and> \<not> b7)"
  by (cases b0; cases b1; cases b2; cases b3; cases b4; cases b5; cases b6; cases b7; simp add: control_char_def)

lemma py_space_bits [code]:
  "py_space (Char b0 b1 b2 b3 b4 b5 b6 b7) = (\<not> b6 \<and>
     (if b7 then \<not> b4 \<and> \<not> b3 \<and> \<not> b1 \<and> (if b5 then \<not> b2 \<and> \<not> b0 else b2 \<and> b0)
      else if b5 then \<not> b4 \<and> \<not> b3 \<and> \<not> b2 \<and> \<not> b1 \<and> \<not> b0
      else if b4 then b3 \<and> b2 else b3 \<and> (if b2 then \<not> b1 else b0 \<or> b1)))"
  by (cases b0; cases b1; cases b2; cases b3; cases b4; cases b5; cases b6; cases b7; simp add: py_space_def)

text \<open>\<open>re.fullmatch("[0-9a-f]{64}", s)\<close>\<close>

definition sha256_hex :: "string \<Rightarrow> bool" where
  "sha256_hex s \<longleftrightarrow> length s = 64 \<and> list_all lower_hex s"

text \<open>\<open>int(s)\<close> of a string of ASCII digits.\<close>

definition digit_value :: "char \<Rightarrow> int" where
  "digit_value c = int (of_char c) - 48"

definition decimal_value :: "string \<Rightarrow> int" where
  "decimal_value s = fold (\<lambda>c n. 10 * n + digit_value c) s 0"

lemma decimal_value_snoc: "decimal_value (s @ [c]) = 10 * decimal_value s + digit_value c"
  by (simp add: decimal_value_def)

text \<open>\<open>btrim(text) = ''\<close> in SQL: nothing but spaces.\<close>

definition spaces_only :: "string \<Rightarrow> bool" where
  "spaces_only s \<longleftrightarrow> list_all (\<lambda>c. c = CHR '' '') s"

lemma Ball_dropWhile: "(\<forall>x\<in>set (dropWhile P s). P x) \<longleftrightarrow> (\<forall>x\<in>set s. P x)"
  by (induction s) auto

lemma blank_iff: "blank s \<longleftrightarrow> list_all py_space s"
  by (simp add: blank_def strip_def lstrip_def Ball_dropWhile list_all_iff)

lemma blank_strip [simp]: "blank (strip s) = blank s"
  by (simp add: blank_iff strip_def lstrip_def Ball_dropWhile list_all_iff)

lemma strip_not_spaces: "strip s \<noteq> [] \<Longrightarrow> \<not> spaces_only (strip s)"
proof -
  assume "strip s \<noteq> []"
  then have "\<not> blank (strip s)" unfolding blank_strip by (simp add: blank_def)
  moreover have "py_space (CHR '' '')" by (simp add: py_space_def)
  ultimately show ?thesis unfolding blank_iff spaces_only_def list_all_iff by metis
qed

subsection \<open>Datetimes\<close>

text \<open>
  A \<open>datetime\<close> is naive (no \<open>tzinfo\<close>) or aware; \<open>astimezone(UTC)\<close> of an aware value is the
  instant it denotes. \<open>civil\<close> is the proleptic Gregorian date of a day number (days since
  1970-01-01), and \<open>month_start\<close> is \<open>date(t.year, t.month, 1)\<close> of an instant.
\<close>

datatype pydatetime = Naive int | Aware timestamp

type_synonym date = "int \<times> int \<times> int"

definition us_per_day :: int where
  "us_per_day = 86400000000"

definition civil :: "int \<Rightarrow> date" where
  "civil n =
     (let z = n + 719468;
          era = z div 146097;
          doe = z mod 146097;
          yoe = (doe - doe div 1460 + doe div 36524 - doe div 146096) div 365;
          doy = doe - (365 * yoe + yoe div 4 - yoe div 100);
          mp = (5 * doy + 2) div 153;
          m = (if mp < 10 then mp + 3 else mp - 9)
      in (yoe + era * 400 + (if m \<le> 2 then 1 else 0), m, doy - (153 * mp + 2) div 5 + 1))"

definition utc_date :: "timestamp \<Rightarrow> date" where
  "utc_date t = civil (t div us_per_day)"

definition month_start :: "timestamp \<Rightarrow> date" where
  "month_start t = (case utc_date t of (y, m, d) \<Rightarrow> (y, m, 1))"

subsection \<open>Runs\<close>

text \<open>
  A transaction body yields an error, and the database keeps its state, or a value and the
  state that commits. \<open>settle\<close> is the state after the attempt.
\<close>

definition settle :: "'s \<Rightarrow> ('a \<times> 's) res \<Rightarrow> 's" where
  "settle s r = (case r of Inl e \<Rightarrow> s | Inr (x, s') \<Rightarrow> s')"

lemma settle_Inl [simp]: "settle s (Inl e) = s"
  by (simp add: settle_def)

lemma settle_Inr [simp]: "settle s (Inr (x, s')) = s'"
  by (simp add: settle_def)

lemma settle_cases:
  assumes "P s" and "\<And>x s'. r = Inr (x, s') \<Longrightarrow> P s'"
  shows "P (settle s r)"
  using assms by (auto simp: settle_def split: sum.splits)

text \<open>
  The interface every component offers its clients: operations that keep an invariant, and
  relate the states before and after by a preorder (nothing committed is lost, a cursor never
  goes back). Runs of operations then do the same.
\<close>

locale invariant_system =
  fixes step :: "'op \<Rightarrow> 's \<Rightarrow> 's"
    and guard :: "'op \<Rightarrow> bool"
    and inv :: "'s \<Rightarrow> bool"
  assumes step_inv: "guard op \<Longrightarrow> inv s \<Longrightarrow> inv (step op s)"
begin

lemma run_inv: "list_all guard ops \<Longrightarrow> inv s \<Longrightarrow> inv (fold step ops s)"
  by (induction ops arbitrary: s) (auto intro: step_inv)

end

locale monotone_system = invariant_system step "\<lambda>_. True" inv
  for step :: "'op \<Rightarrow> 's \<Rightarrow> 's" and inv :: "'s \<Rightarrow> bool" +
  fixes le :: "'s \<Rightarrow> 's \<Rightarrow> bool"
  assumes le_refl: "le s s"
    and le_trans: "le s t \<Longrightarrow> le t u \<Longrightarrow> le s u"
    and step_le: "inv s \<Longrightarrow> le s (step op s)"
begin

lemma reach_inv: "inv s \<Longrightarrow> inv (fold step ops s)"
  by (rule run_inv) (simp_all add: list_all_iff)

lemma run_le: "inv s \<Longrightarrow> le s (fold step ops s)"
proof (induction ops arbitrary: s)
  case Nil
  then show ?case by (simp add: le_refl)
next
  case (Cons op ops)
  then have "le s (step op s)" and "inv (step op s)"
    by (auto intro: step_le step_inv)
  with Cons.IH [of "step op s"] show ?case by (auto intro: le_trans)
qed

end

text \<open>
  A component refines an abstract machine when every step of it is matched by steps of the machine;
  its runs are then runs of the machine.
\<close>

locale refinement = invariant_system step guard inv
  for step :: "'op \<Rightarrow> 's \<Rightarrow> 's" and guard :: "'op \<Rightarrow> bool" and inv :: "'s \<Rightarrow> bool" +
  fixes abs :: "'s \<Rightarrow> 'a"
    and spec :: "'a \<Rightarrow> 'a \<Rightarrow> bool"
  assumes step_refines: "guard op \<Longrightarrow> inv s \<Longrightarrow> spec\<^sup>*\<^sup>* (abs s) (abs (step op s))"
begin

lemma run_refines: "list_all guard ops \<Longrightarrow> inv s \<Longrightarrow> spec\<^sup>*\<^sup>* (abs s) (abs (fold step ops s))"
proof (induction ops arbitrary: s)
  case (Cons op ops)
  then have "spec\<^sup>*\<^sup>* (abs s) (abs (step op s))" and "inv (step op s)"
    by (auto intro: step_refines step_inv)
  with Cons.IH [of "step op s"] Cons.prems(1) show ?case by (auto intro: rtranclp_trans)
qed simp

end

end
