(* ===== verification/SqlTable.thy ===== *)
theory SqlTable
  imports Prelude
begin

text \<open>
  PostgreSQL tables as the repositories use them. A table is the list of its rows in insertion
  order; a statement's \<open>WHERE\<close> clause is a predicate on rows. \<open>select_one\<close> is \<open>fetchrow\<close> on a
  unique key, \<open>update_where\<close> an \<open>UPDATE\<close> with \<open>affected\<close> the row count of its command tag, \<open>insert_row\<close> an
  \<open>INSERT\<close> of a row whose key is known to be free, \<open>sum_where\<close> is \<open>COALESCE(sum(..),0)\<close>, and
  \<open>unique_by\<close> says a primary key or unique index holds. Row locks and advisory locks make each
  modelled transaction run alone on the rows it touches, so a transaction is one function of
  the table.
\<close>

definition select_one :: "('r \<Rightarrow> bool) \<Rightarrow> 'r list \<Rightarrow> 'r option" where
  "select_one P t = List.find P t"

definition update_where :: "('r \<Rightarrow> bool) \<Rightarrow> ('r \<Rightarrow> 'r) \<Rightarrow> 'r list \<Rightarrow> 'r list" where
  "update_where P f t = map (\<lambda>r. if P r then f r else r) t"

definition affected :: "('r \<Rightarrow> bool) \<Rightarrow> 'r list \<Rightarrow> nat" where
  "affected P t = length (filter P t)"

definition insert_row :: "'r \<Rightarrow> 'r list \<Rightarrow> 'r list" where
  "insert_row r t = t @ [r]"

definition sum_where :: "('r \<Rightarrow> int) \<Rightarrow> ('r \<Rightarrow> bool) \<Rightarrow> 'r list \<Rightarrow> int" where
  "sum_where f P t = sum_list (map f (filter P t))"

definition count_where :: "('r \<Rightarrow> bool) \<Rightarrow> 'r list \<Rightarrow> int" where
  "count_where P t = int (length (filter P t))"

definition unique_by :: "('r \<Rightarrow> 'k) \<Rightarrow> 'r list \<Rightarrow> bool" where
  "unique_by key t \<longleftrightarrow> distinct (map key t)"

text \<open>Column ranges: INTEGER is 32 bits signed, BIGINT 64 bits signed.\<close>

definition int4 :: "int \<Rightarrow> bool" where
  "int4 n \<longleftrightarrow> - 2147483648 \<le> n \<and> n \<le> 2147483647"

definition int8 :: "int \<Rightarrow> bool" where
  "int8 n \<longleftrightarrow> - 9223372036854775808 \<le> n \<and> n \<le> 9223372036854775807"

subsection \<open>Lookup\<close>

lemma select_one_Nil [simp]: "select_one P [] = None"
  by (simp add: select_one_def)

lemma select_one_Cons [simp]: "select_one P (r # t) = (if P r then Some r else select_one P t)"
  by (simp add: select_one_def)

lemma select_one_SomeD: "select_one P t = Some r \<Longrightarrow> r \<in> set t \<and> P r"
  by (induction t) (auto split: if_splits)

lemma select_one_None_iff: "select_one P t = None \<longleftrightarrow> (\<forall>r\<in>set t. \<not> P r)"
  by (induction t) auto

lemma select_one_append:
  "select_one P (t @ u) = (case select_one P t of None \<Rightarrow> select_one P u | Some r \<Rightarrow> Some r)"
  by (induction t) auto

lemma select_one_insert:
  "select_one P (insert_row r t) =
     (case select_one P t of None \<Rightarrow> if P r then Some r else None | Some q \<Rightarrow> Some q)"
  by (simp add: insert_row_def select_one_append split: option.split)

lemma select_one_update:
  assumes "\<And>r. P r \<Longrightarrow> Q (f r) = Q r"
  shows "select_one Q (update_where P f t) =
    map_option (\<lambda>r. if P r then f r else r) (select_one Q t)"
  using assms by (induction t) (auto simp: update_where_def)

lemma select_one_cong:
  "(\<And>r. r \<in> set t \<Longrightarrow> P r = Q r) \<Longrightarrow> select_one P t = select_one Q t"
  by (induction t) auto

subsection \<open>Keys\<close>

lemma unique_by_Nil [simp]: "unique_by key []"
  by (simp add: unique_by_def)

lemma unique_by_insert [simp]:
  "unique_by key (insert_row r t) \<longleftrightarrow> unique_by key t \<and> key r \<notin> key ` set t"
  by (auto simp: unique_by_def insert_row_def)

lemma unique_by_update:
  assumes "\<And>r. P r \<Longrightarrow> key (f r) = key r"
  shows "unique_by key (update_where P f t) \<longleftrightarrow> unique_by key t"
proof -
  have "map key (update_where P f t) = map key t"
    using assms by (simp add: update_where_def)
  then show ?thesis by (simp add: unique_by_def)
qed

lemma keys_update_where:
  assumes "\<And>r. P r \<Longrightarrow> key (f r) = key r"
  shows "key ` set (update_where P f t) = key ` set t"
proof -
  have "map key (update_where P f t) = map key t"
    using assms by (simp add: update_where_def)
  then show ?thesis by (metis set_map)
qed

lemma unique_by_eq:
  "unique_by key t \<Longrightarrow> r \<in> set t \<Longrightarrow> q \<in> set t \<Longrightarrow> key r = key q \<Longrightarrow> r = q"
  by (auto simp: unique_by_def distinct_map dest: inj_onD)

lemma select_one_unique:
  assumes "unique_by key t" and "r \<in> set t"
  shows "select_one (\<lambda>q. key q = key r) t = Some r"
proof (cases "select_one (\<lambda>q. key q = key r) t")
  case None
  with assms(2) show ?thesis by (auto simp: select_one_None_iff)
next
  case (Some q)
  then have "q \<in> set t" and "key q = key r" by (auto dest: select_one_SomeD)
  with assms Some show ?thesis by (auto dest: unique_by_eq)
qed

lemma filter_unique:
  assumes "unique_by key t" and "r \<in> set t"
  shows "filter (\<lambda>q. key q = key r) t = [r]"
  using assms
proof (induction t)
  case (Cons a t)
  then have a: "key a \<notin> key ` set t" "unique_by key t" by (auto simp: unique_by_def)
  show ?case
  proof (cases "r = a")
    case True
    have "filter (\<lambda>q. key q = key r) t = []"
      using a(1) True by (force simp: filter_empty_conv image_iff)
    then show ?thesis by (simp add: True)
  next
    case False
    then have "r \<in> set t" using Cons.prems(2) by simp
    then have "key a \<noteq> key r" using imageI [of r "set t" key] a(1) by auto
    with Cons.IH [OF a(2) \<open>r \<in> set t\<close>] show ?thesis by simp
  qed
qed simp

lemma affected_unique:
  assumes "unique_by key t" and "\<And>r. P r \<Longrightarrow> key r = k"
  shows "affected P t \<le> 1"
  using assms(1)
proof (induction t)
  case Nil
  then show ?case by (simp add: affected_def)
next
  case (Cons a t)
  then have IH: "affected P t \<le> 1" and nin: "key a \<notin> key ` set t"
    by (auto simp: unique_by_def)
  show ?case
  proof (cases "P a")
    case True
    have "\<not> P r" if "r \<in> set t" for r
      using that nin assms(2) True by (metis imageI)
    then have "affected P t = 0" by (simp add: affected_def filter_empty_conv)
    with True show ?thesis by (simp add: affected_def)
  next
    case False
    with IH show ?thesis by (simp add: affected_def)
  qed
qed

lemma affected_zero: "affected P t = 0 \<longleftrightarrow> (\<forall>r\<in>set t. \<not> P r)"
  by (simp add: affected_def filter_empty_conv)

lemma update_where_none: "(\<forall>r\<in>set t. \<not> P r) \<Longrightarrow> update_where P f t = t"
  by (simp add: update_where_def map_idI)

lemma set_update_where:
  "r \<in> set (update_where P f t) \<longleftrightarrow> (\<exists>q\<in>set t. r = (if P q then f q else q))"
  by (auto simp: update_where_def)

lemma updated_row_mem: "r \<in> set t \<Longrightarrow> P r \<Longrightarrow> f r \<in> set (update_where P f t)"
  by (auto simp: update_where_def)

lemma set_insert_row [simp]: "set (insert_row r t) = insert r (set t)"
  by (auto simp: insert_row_def)

lemma all_update_where:
  assumes "\<forall>r\<in>set t. C r" and "\<And>r. r \<in> set t \<Longrightarrow> P r \<Longrightarrow> C r \<Longrightarrow> C (f r)"
  shows "\<forall>r\<in>set (update_where P f t). C r"
  using assms by (auto simp: set_update_where)

subsection \<open>Aggregates\<close>

lemma sum_where_Nil [simp]: "sum_where f P [] = 0"
  by (simp add: sum_where_def)

lemma sum_where_Cons [simp]:
  "sum_where f P (r # t) = (if P r then f r else 0) + sum_where f P t"
  by (simp add: sum_where_def)

lemma sum_where_insert [simp]:
  "sum_where f P (insert_row r t) = sum_where f P t + (if P r then f r else 0)"
  by (simp add: sum_where_def insert_row_def)

lemma sum_where_nonneg: "(\<forall>r\<in>set t. P r \<longrightarrow> 0 \<le> f r) \<Longrightarrow> 0 \<le> sum_where f P t"
  by (induction t) auto

lemma sum_where_subset:
  assumes "\<And>r. r \<in> set t \<Longrightarrow> 0 \<le> f r" and "\<And>r. r \<in> set t \<Longrightarrow> P r \<Longrightarrow> Q r"
  shows "sum_where f P t \<le> sum_where f Q t"
  using assms
proof (induction t)
  case (Cons a t)
  then have "sum_where f P t \<le> sum_where f Q t" "0 \<le> f a" "P a \<longrightarrow> Q a" by simp_all
  then show ?case by simp
qed simp

lemma sum_where_update_le:
  assumes "\<And>r. r \<in> set t \<Longrightarrow> P r \<Longrightarrow> (if Q (g r) then f (g r) else 0) \<le> (if Q r then f r else 0)"
  shows "sum_where f Q (update_where P g t) \<le> sum_where f Q t"
  using assms
proof (induction t)
  case Nil
  then show ?case by (simp add: update_where_def)
next
  case (Cons a t)
  then have "sum_where f Q (update_where P g t) \<le> sum_where f Q t" by simp
  moreover have "(if Q (if P a then g a else a) then f (if P a then g a else a) else 0)
      \<le> (if Q a then f a else 0)"
    using Cons.prems[of a] by auto
  ultimately show ?case by (simp add: update_where_def)
qed

text \<open>An \<open>UPDATE\<close> of the one row with its key changes a sum by that row's change.\<close>

lemma sum_where_update_eq:
  assumes "unique_by key t" and "row \<in> set t"
  shows "sum_where f Q (update_where (\<lambda>r. key r = key row) g t) =
    sum_where f Q t - (if Q row then f row else 0) + (if Q (g row) then f (g row) else 0)"
  using assms
proof (induction t)
  case Nil
  then show ?case by simp
next
  case (Cons a t)
  let ?u = "update_where (\<lambda>r. key r = key row) g"
  show ?case
  proof (cases "row = a")
    case True
    have "key r \<noteq> key row" if "r \<in> set t" for r
      using imageI [OF that, of key] Cons.prems(1) True by (auto simp: unique_by_def)
    then have "?u t = t" by (intro update_where_none) blast
    then show ?thesis by (simp add: True update_where_def)
  next
    case False
    then have "row \<in> set t" and "key a \<noteq> key row" and "unique_by key t"
      using Cons.prems by (auto simp: unique_by_def)
    with Cons.IH show ?thesis by (simp add: update_where_def)
  qed
qed

lemma count_where_insert [simp]:
  "count_where P (insert_row r t) = count_where P t + (if P r then 1 else 0)"
  by (simp add: count_where_def insert_row_def)

lemma count_where_nonneg [simp]: "0 \<le> count_where P t"
  by (simp add: count_where_def)

lemma count_where_mono:
  "(\<And>r. r \<in> set t \<Longrightarrow> P r \<Longrightarrow> Q r) \<Longrightarrow> count_where P t \<le> count_where Q t"
  by (induction t) (auto simp: count_where_def)

subsection \<open>Progress of a table\<close>

text \<open>Every row of \<open>t\<close> lives on in \<open>u\<close> as a row that \<open>le\<close> allows.\<close>

definition table_le :: "('r \<Rightarrow> 'r \<Rightarrow> bool) \<Rightarrow> 'r list \<Rightarrow> 'r list \<Rightarrow> bool" where
  "table_le le t u \<longleftrightarrow> (\<forall>r\<in>set t. \<exists>q\<in>set u. le r q)"

lemma table_leD: "table_le le t u \<Longrightarrow> r \<in> set t \<Longrightarrow> \<exists>q\<in>set u. le r q"
  by (simp add: table_le_def)

lemma table_le_refl: "(\<And>r. le r r) \<Longrightarrow> table_le le t t"
  by (auto simp: table_le_def)

lemma table_le_trans:
  assumes "\<And>a b c. le a b \<Longrightarrow> le b c \<Longrightarrow> le a c" and "table_le le t u" and "table_le le u v"
  shows "table_le le t v"
  unfolding table_le_def
proof
  fix r assume "r \<in> set t"
  then obtain q where "q \<in> set u" "le r q" using assms(2) by (auto simp: table_le_def)
  moreover from this obtain p where "p \<in> set v" "le q p"
    using assms(3) by (auto simp: table_le_def)
  ultimately show "\<exists>p\<in>set v. le r p" using assms(1) by blast
qed

lemma table_le_insert: "(\<And>r. le r r) \<Longrightarrow> table_le le t (insert_row r t)"
  by (auto simp: table_le_def)

lemma table_le_update:
  assumes "\<And>r. le r r" and "\<And>r. r \<in> set t \<Longrightarrow> P r \<Longrightarrow> le r (f r)"
  shows "table_le le t (update_where P f t)"
  unfolding table_le_def
proof
  fix r assume r: "r \<in> set t"
  then have "(if P r then f r else r) \<in> set (update_where P f t)"
    by (auto simp: update_where_def)
  moreover have "le r (if P r then f r else r)" using assms r by simp
  ultimately show "\<exists>q\<in>set (update_where P f t). le r q" by blast
qed

end
