(* ===== verification/SourceState.thy ===== *)
theory SourceState
  imports SqlTable
begin

text \<open>
  \<open>kairos_persistence/source_state.py\<close> with the tables of migrations 005 and 013: paid-source
  cursors, monthly usage reservations and the one immutable campaign budget per provider.
  \<open>ledger\<close> is the three tables; each method of \<open>SourceStateRepository\<close> is one function from the
  repository's campaign identity, the arguments, the transaction's \<open>now()\<close> and the ledger to an
  error or the result with the ledger that commits.
\<close>

subsection \<open>Data\<close>

definition max_cursor :: int where
  "max_cursor = 2 ^ 64 - 1"

definition max_bigint :: int where
  "max_bigint = 2 ^ 63 - 1"

definition qualification_campaign_id :: string where
  "qualification_campaign_id = ''kairos-dev-qualification-v1''"

definition campaign_provider_caps :: "string \<rightharpoonup> int" where
  "campaign_provider_caps =
     [''openai'' \<mapsto> 12000000, ''deepseek'' \<mapsto> 1000000, ''x'' \<mapsto> 2000000]"

definition provider_source :: "string \<Rightarrow> string" where
  "provider_source source =
     (if source = ''x'' \<or> source = ''x-api'' \<or> source = ''x_api'' then ''x'' else source)"

definition provider_sources :: "string \<Rightarrow> string list" where
  "provider_sources source = (if source = ''x'' then [''x'', ''x-api'', ''x_api''] else [source])"

record campaign_source_usage =
  cu_campaign_id :: string
  cu_source :: string
  cu_budget_microusd :: int
  cu_historical_cost_microusd :: int
  cu_committed_cost_microusd :: int
  cu_reserved_cost_microusd :: int

definition campaign_budgeted_cost_microusd :: "campaign_source_usage \<Rightarrow> int" where
  "campaign_budgeted_cost_microusd u =
     cu_historical_cost_microusd u + cu_committed_cost_microusd u + cu_reserved_cost_microusd u"

datatype usage_status = RESERVED | COMMITTED | RELEASED

record usage_reservation =
  ur_service :: string
  ur_source :: string
  ur_reservation_id :: string
  ur_billing_month :: date
  ur_reserved_units :: int
  ur_unit_cost_microusd :: int
  ur_status :: usage_status
  ur_actual_units :: "int option"

definition reservation_reserved_cost :: "usage_reservation \<Rightarrow> int" where
  "reservation_reserved_cost u = ur_reserved_units u * ur_unit_cost_microusd u"

definition reservation_actual_cost :: "usage_reservation \<Rightarrow> int option" where
  "reservation_actual_cost u =
     (case ur_actual_units u of None \<Rightarrow> None | Some n \<Rightarrow> Some (n * ur_unit_cost_microusd u))"

record source_cursor =
  sc_service :: string
  sc_source :: string
  sc_cursor_key :: string
  sc_cursor_value :: string
  sc_updated_at :: timestamp

record monthly_source_usage =
  mu_service :: string
  mu_source :: string
  mu_billing_month :: date
  mu_committed_units :: int
  mu_committed_cost_microusd :: int
  mu_reserved_units :: int
  mu_reserved_cost_microusd :: int

definition monthly_budgeted_cost_microusd :: "monthly_source_usage \<Rightarrow> int" where
  "monthly_budgeted_cost_microusd u = mu_committed_cost_microusd u + mu_reserved_cost_microusd u"

text \<open>The rows of \<open>source_cursors\<close>, \<open>source_usage_reservations\<close> and \<open>campaign_source_budgets\<close>.\<close>

record cursor_row =
  cr_service :: string
  cr_source :: string
  cr_cursor_key :: string
  cr_cursor_value :: string
  cr_cursor_numeric :: int
  cr_updated_at :: timestamp

record usage_row =
  us_service :: string
  us_source :: string
  us_reservation_id :: string
  us_billing_month :: date
  us_reserved_units :: int
  us_unit_cost_microusd :: int
  us_reserved_cost_microusd :: int
  us_actual_units :: "int option"
  us_actual_cost_microusd :: "int option"
  us_status :: usage_status
  us_reserved_at :: timestamp
  us_finalized_at :: "timestamp option"

record campaign_row =
  cb_source :: string
  cb_campaign_id :: string
  cb_budget_microusd :: int
  cb_historical_cost_microusd :: int
  cb_historical_evidence_sha256 :: string
  cb_registered_at :: timestamp

record ledger =
  cursors :: "cursor_row list"
  reservations :: "usage_row list"
  campaigns :: "campaign_row list"

definition cursor_id :: "cursor_row \<Rightarrow> string \<times> string \<times> string" where
  "cursor_id r = (cr_service r, cr_source r, cr_cursor_key r)"

definition usage_id :: "usage_row \<Rightarrow> string \<times> string \<times> string" where
  "usage_id r = (us_service r, us_source r, us_reservation_id r)"

definition cursor_of_row :: "cursor_row \<Rightarrow> source_cursor" where
  "cursor_of_row r = \<lparr>sc_service = cr_service r, sc_source = cr_source r,
     sc_cursor_key = cr_cursor_key r, sc_cursor_value = cr_cursor_value r,
     sc_updated_at = cr_updated_at r\<rparr>"

definition reservation_of_row :: "usage_row \<Rightarrow> usage_reservation" where
  "reservation_of_row r = \<lparr>ur_service = us_service r, ur_source = us_source r,
     ur_reservation_id = us_reservation_id r, ur_billing_month = us_billing_month r,
     ur_reserved_units = us_reserved_units r, ur_unit_cost_microusd = us_unit_cost_microusd r,
     ur_status = us_status r, ur_actual_units = us_actual_units r\<rparr>"

subsection \<open>Validators\<close>

definition source_repository :: "string option \<Rightarrow> string option res" where
  "source_repository campaign_id =
     (if campaign_id = None \<or> campaign_id = Some qualification_campaign_id then Inr campaign_id
      else Inl (ValueError ''unknown qualification campaign''))"

definition identity3 ::
  "string \<Rightarrow> string \<Rightarrow> string \<Rightarrow> (string \<times> string \<times> string) res" where
  "identity3 service source key =
     (let a = strip service; b = strip source; c = strip key
      in if a = [] \<or> b = [] \<or> c = []
         then Inl (ValueError ''service, source and key must not be empty'')
         else if length a > 255 \<or> length b > 255 \<or> length c > 255
         then Inl (ValueError ''source state identity values must not exceed 255 characters'')
         else Inr (a, b, c))"

definition cursor_value :: "string \<Rightarrow> (string \<times> int) res" where
  "cursor_value value =
     (if value = [] \<or> \<not> list_all py_digit value
      then Inl (ValueError ''source cursor must be an unsigned decimal string'')
      else if value \<noteq> ''0'' \<and> hd value = CHR ''0''
      then Inl (ValueError ''source cursor must use canonical decimal form'')
      else let numeric = decimal_value value
           in if numeric > max_cursor
              then Inl (ValueError ''source cursor exceeds unsigned 64-bit range'')
              else Inr (value, numeric))"

definition positive_int :: "int \<Rightarrow> unit res" where
  "positive_int value =
     (if value \<le> 0 then Inl (ValueError '' must be a positive integer'') else Inr ())"

definition nonnegative_int :: "int \<Rightarrow> unit res" where
  "nonnegative_int value =
     (if value < 0 then Inl (ValueError '' must be a non-negative integer'') else Inr ())"

definition usage_cost :: "int \<Rightarrow> int \<Rightarrow> int res" where
  "usage_cost units unit_cost_microusd =
     (let cost = units * unit_cost_microusd
      in if cost > max_bigint
         then Inl (ValueError ''source usage cost exceeds PostgreSQL BIGINT range'')
         else Inr cost)"

definition aware_utc :: "pydatetime \<Rightarrow> timestamp res" where
  "aware_utc value = (case value of
       Naive t \<Rightarrow> Inl (ValueError ''source usage timestamp must be timezone-aware'')
     | Aware t \<Rightarrow> Inr t)"

subsection \<open>Campaign adoption\<close>

definition register_campaign ::
  "string option \<Rightarrow> string \<Rightarrow> int \<Rightarrow> int \<Rightarrow> string \<Rightarrow> timestamp \<Rightarrow> ledger \<Rightarrow> (unit \<times> ledger) res" where
  "register_campaign repo source0 budget historical evidence now L =
     (case repo of
        None \<Rightarrow> Inl (ValueError ''campaign identity is required for registration'')
      | Some campaign_id \<Rightarrow>
     (let source = provider_source source0 in
     rbind (positive_int budget) (\<lambda>_.
     rbind (nonnegative_int historical) (\<lambda>_.
     if (case campaign_provider_caps source of None \<Rightarrow> True | Some cap \<Rightarrow> budget > cap)
     then Inl (ValueError ''campaign provider budget exceeds the registered ceiling'')
     else if historical > max_bigint
     then Inl (ValueError ''historical cost exceeds PostgreSQL BIGINT range'')
     else if \<not> sha256_hex evidence
     then Inl (ValueError ''historical evidence must be a lowercase SHA-256'')
     else case select_one (\<lambda>r. cb_source r = source) (campaigns L) of
        Some row \<Rightarrow>
          if (cb_campaign_id row, cb_budget_microusd row, cb_historical_cost_microusd row,
              cb_historical_evidence_sha256 row) \<noteq> (campaign_id, budget, historical, evidence)
          then Inl (MessageIdentityConflict ''campaign adoption cannot be replaced or reset'')
          else Inr ((), L)
      | None \<Rightarrow>
          if spaces_only campaign_id
          then Inl (IntegrityError ''campaign_source_budgets_campaign_id_check'')
          else Inr ((), L\<lparr>campaigns := insert_row
             \<lparr>cb_source = source, cb_campaign_id = campaign_id, cb_budget_microusd = budget,
              cb_historical_cost_microusd = historical, cb_historical_evidence_sha256 = evidence,
              cb_registered_at = now\<rparr> (campaigns L)\<rparr>)))))"

text \<open>
  What a reservation costs in a budget sum:
  \<open>CASE status WHEN 'COMMITTED' THEN actual_cost WHEN 'RESERVED' THEN reserved_cost ELSE 0 END\<close>.
  (SQL's \<open>sum\<close> skips a NULL; a COMMITTED row's actual cost is never NULL.)
\<close>

definition row_cost :: "usage_row \<Rightarrow> int" where
  "row_cost r = (case us_status r of
       COMMITTED \<Rightarrow> (case us_actual_cost_microusd r of None \<Rightarrow> 0 | Some c \<Rightarrow> c)
     | RESERVED \<Rightarrow> us_reserved_cost_microusd r
     | RELEASED \<Rightarrow> 0)"

definition provider_spend :: "string \<Rightarrow> ledger \<Rightarrow> int" where
  "provider_spend provider L =
     sum_where row_cost (\<lambda>r. us_source r \<in> set (provider_sources provider)) (reservations L)"

definition monthly_spend :: "string \<Rightarrow> string \<Rightarrow> date \<Rightarrow> ledger \<Rightarrow> int" where
  "monthly_spend service source month L =
     sum_where row_cost
       (\<lambda>r. us_service r = service \<and> us_source r = source \<and> us_billing_month r = month)
       (reservations L)"

definition campaign_usage ::
  "string option \<Rightarrow> string \<Rightarrow> ledger \<Rightarrow> campaign_source_usage res" where
  "campaign_usage repo source0 L =
     (let source = provider_source source0;
          mine = (\<lambda>r. us_source r \<in> set (provider_sources source))
      in case select_one (\<lambda>r. cb_source r = source) (campaigns L) of
        None \<Rightarrow> Inl (SourceBudgetExceeded ''durable campaign adoption is required before paid calls'')
      | Some row \<Rightarrow>
          if repo \<noteq> None \<and> Some (cb_campaign_id row) \<noteq> repo
          then Inl (SourceBudgetExceeded ''durable campaign adoption is required before paid calls'')
          else Inr \<lparr>cu_campaign_id = cb_campaign_id row, cu_source = source,
            cu_budget_microusd = cb_budget_microusd row,
            cu_historical_cost_microusd = cb_historical_cost_microusd row,
            cu_committed_cost_microusd =
              sum_where row_cost (\<lambda>r. mine r \<and> us_status r = COMMITTED) (reservations L),
            cu_reserved_cost_microusd =
              sum_where row_cost (\<lambda>r. mine r \<and> us_status r = RESERVED) (reservations L)\<rparr>)"

subsection \<open>Cursors\<close>

definition get_cursor ::
  "string \<Rightarrow> string \<Rightarrow> string \<Rightarrow> ledger \<Rightarrow> source_cursor option res" where
  "get_cursor service source key L =
     rbind (identity3 service source key) (\<lambda>ident.
       Inr (map_option cursor_of_row (select_one (\<lambda>r. cursor_id r = ident) (cursors L))))"

definition advanced_cursor :: "string \<Rightarrow> int \<Rightarrow> timestamp \<Rightarrow> cursor_row \<Rightarrow> cursor_row" where
  "advanced_cursor v n now r =
     r\<lparr>cr_cursor_value := v, cr_cursor_numeric := n, cr_updated_at := now\<rparr>"

definition fresh_cursor ::
  "string \<times> string \<times> string \<Rightarrow> string \<Rightarrow> int \<Rightarrow> timestamp \<Rightarrow> cursor_row" where
  "fresh_cursor ident v n now = \<lparr>cr_service = fst ident, cr_source = fst (snd ident),
     cr_cursor_key = snd (snd ident), cr_cursor_value = v, cr_cursor_numeric = n,
     cr_updated_at = now\<rparr>"

definition advance_cursor ::
  "string \<Rightarrow> string \<Rightarrow> string \<Rightarrow> string \<Rightarrow> timestamp \<Rightarrow> ledger \<Rightarrow> (bool \<times> ledger) res" where
  "advance_cursor service source key value now L =
     rbind (identity3 service source key) (\<lambda>ident.
     rbind (cursor_value value) (\<lambda>(normalized, numeric).
     case select_one (\<lambda>r. cursor_id r = ident) (cursors L) of
       Some row \<Rightarrow>
         if numeric < cr_cursor_numeric row
         then Inl (ValueError ''source cursor regression'')
         else if numeric = cr_cursor_numeric row
         then if cr_cursor_value row \<noteq> normalized
              then Inl (MessageIdentityConflict ''equal source cursor has a different representation'')
              else Inr (False, L)
         else Inr (True, L\<lparr>cursors := update_where (\<lambda>r. cursor_id r = ident)
                (advanced_cursor normalized numeric now) (cursors L)\<rparr>)
     | None \<Rightarrow> Inr (True, L\<lparr>cursors :=
           insert_row (fresh_cursor ident normalized numeric now) (cursors L)\<rparr>)))"

subsection \<open>Reservations\<close>

record reserve_request =
  rq_service :: string
  rq_source :: string
  rq_reservation_id :: string
  rq_reserved_units :: int
  rq_unit_cost_microusd :: int
  rq_monthly_budget_microusd :: int
  rq_requested_at :: "pydatetime option"

text \<open>
  The \<open>INSERT\<close> refuses units outside the INTEGER column; \<open>usage_cost\<close> has already bounded the
  BIGINT columns.
\<close>

definition fresh_usage ::
  "string \<times> string \<times> string \<Rightarrow> date \<Rightarrow> int \<Rightarrow> int \<Rightarrow> timestamp \<Rightarrow> usage_row" where
  "fresh_usage ident month units unit_cost requested =
     \<lparr>us_service = fst ident, us_source = fst (snd ident), us_reservation_id = snd (snd ident),
      us_billing_month = month, us_reserved_units = units,
      us_unit_cost_microusd = unit_cost, us_reserved_cost_microusd = units * unit_cost,
      us_actual_units = None, us_actual_cost_microusd = None, us_status = RESERVED,
      us_reserved_at = requested, us_finalized_at = None\<rparr>"

definition insert_usage ::
  "string \<times> string \<times> string \<Rightarrow> date \<Rightarrow> int \<Rightarrow> int \<Rightarrow> timestamp \<Rightarrow> ledger
     \<Rightarrow> (usage_reservation \<times> ledger) res" where
  "insert_usage ident month units unit_cost requested L =
     (if \<not> int4 units then Inl (DataError ''value out of int32 range'')
      else let row = fresh_usage ident month units unit_cost requested
           in Inr (reservation_of_row row, L\<lparr>reservations := insert_row row (reservations L)\<rparr>))"

text \<open>The body of \<open>reserve_usage\<close>'s transaction, once the arguments are validated.\<close>

definition reserve_usage_tx ::
  "string option \<Rightarrow> string \<times> string \<times> string \<Rightarrow> date \<Rightarrow> int \<Rightarrow> timestamp \<Rightarrow> reserve_request \<Rightarrow> ledger
     \<Rightarrow> (usage_reservation \<times> ledger) res" where
  "reserve_usage_tx repo ident month reserved_cost requested q L =
     (let provider = provider_source (fst (snd ident));
          campaign = select_one (\<lambda>r. cb_source r = provider) (campaigns L)
      in if repo \<noteq> None \<and> (campaign = None \<or> map_option cb_campaign_id campaign \<noteq> repo)
         then Inl (SourceBudgetExceeded ''durable campaign adoption is required before paid calls'')
         else case select_one (\<lambda>r. usage_id r = ident) (reservations L) of
           Some existing \<Rightarrow>
             let reservation = reservation_of_row existing
             in if (campaign = None \<and> ur_billing_month reservation \<noteq> month)
                 \<or> ur_reserved_units reservation \<noteq> rq_reserved_units q
                 \<or> ur_unit_cost_microusd reservation \<noteq> rq_unit_cost_microusd q
                then Inl (MessageIdentityConflict
                       ''source usage reservation was reused with different content'')
                else Inr (reservation, L)
         | None \<Rightarrow>
            (case campaign of
               Some c \<Rightarrow>
                 let budgeted = provider_spend provider L + cb_historical_cost_microusd c;
                     limit = min (rq_monthly_budget_microusd q) (cb_budget_microusd c)
                 in if budgeted + reserved_cost > limit
                    then Inl (SourceBudgetExceeded
                           ''cumulative campaign provider budget would be exceeded'')
                    else insert_usage ident month (rq_reserved_units q) (rq_unit_cost_microusd q)
                           requested L
             | None \<Rightarrow>
                 if monthly_spend (fst ident) (fst (snd ident)) month L + reserved_cost
                      > rq_monthly_budget_microusd q
                 then Inl (SourceBudgetExceeded
                        ''monthly budget would be exceeded by the requested reservation'')
                 else insert_usage ident month (rq_reserved_units q) (rq_unit_cost_microusd q)
                        requested L))"

definition reserve_usage ::
  "string option \<Rightarrow> reserve_request \<Rightarrow> timestamp \<Rightarrow> ledger \<Rightarrow> (usage_reservation \<times> ledger) res" where
  "reserve_usage repo q now L =
     rbind (identity3 (rq_service q) (rq_source q) (rq_reservation_id q)) (\<lambda>ident.
     rbind (positive_int (rq_reserved_units q)) (\<lambda>_.
     rbind (nonnegative_int (rq_unit_cost_microusd q)) (\<lambda>_.
     rbind (nonnegative_int (rq_monthly_budget_microusd q)) (\<lambda>_.
     rbind (usage_cost (rq_reserved_units q) (rq_unit_cost_microusd q)) (\<lambda>reserved_cost.
     rbind (aware_utc (case rq_requested_at q of None \<Rightarrow> Aware now | Some t \<Rightarrow> t)) (\<lambda>requested.
     reserve_usage_tx repo ident (month_start requested) reserved_cost requested q L))))))"

text \<open>The \<open>UPDATE\<close>s of a commit and a release.\<close>

definition committed_row :: "int \<Rightarrow> timestamp \<Rightarrow> usage_row \<Rightarrow> usage_row" where
  "committed_row n now r = r\<lparr>us_status := COMMITTED, us_actual_units := Some n,
     us_actual_cost_microusd := Some (n * us_unit_cost_microusd r), us_finalized_at := Some now\<rparr>"

definition released_row :: "timestamp \<Rightarrow> usage_row \<Rightarrow> usage_row" where
  "released_row now r = r\<lparr>us_status := RELEASED, us_finalized_at := Some now\<rparr>"

definition commit_usage ::
  "string \<Rightarrow> string \<Rightarrow> string \<Rightarrow> int \<Rightarrow> timestamp \<Rightarrow> ledger \<Rightarrow> (usage_reservation \<times> ledger) res" where
  "commit_usage service source rid actual_units now L =
     rbind (identity3 service source rid) (\<lambda>ident.
     rbind (nonnegative_int actual_units) (\<lambda>_.
     case select_one (\<lambda>r. usage_id r = ident) (reservations L) of
       None \<Rightarrow> Inl (KeyError ''source usage reservation does not exist'')
     | Some row \<Rightarrow>
         if actual_units > us_reserved_units row
         then Inl (ValueError ''actual_units exceeds the durable reservation'')
         else if us_status row = RELEASED
         then Inl (RuntimeError ''released source usage cannot be committed'')
         else if us_status row = COMMITTED
         then if us_actual_units row \<noteq> Some actual_units
              then Inl (MessageIdentityConflict ''committed source usage was reused with a new amount'')
              else Inr (reservation_of_row row, L)
         else Inr (reservation_of_row (committed_row actual_units now row),
                L\<lparr>reservations := update_where (\<lambda>r. usage_id r = ident)
                     (committed_row actual_units now) (reservations L)\<rparr>)))"

definition release_usage ::
  "string \<Rightarrow> string \<Rightarrow> string \<Rightarrow> timestamp \<Rightarrow> ledger \<Rightarrow> (usage_reservation \<times> ledger) res" where
  "release_usage service source rid now L =
     rbind (identity3 service source rid) (\<lambda>ident.
     case select_one (\<lambda>r. usage_id r = ident) (reservations L) of
       None \<Rightarrow> Inl (KeyError ''source usage reservation does not exist'')
     | Some row \<Rightarrow>
         if us_status row = COMMITTED
         then Inl (RuntimeError ''committed source usage cannot be released'')
         else if us_status row = RELEASED
         then Inr (reservation_of_row row, L)
         else Inr (reservation_of_row (released_row now row),
                L\<lparr>reservations := update_where (\<lambda>r. usage_id r = ident)
                     (released_row now) (reservations L)\<rparr>))"

definition monthly_usage ::
  "string \<Rightarrow> string \<Rightarrow> pydatetime option \<Rightarrow> timestamp \<Rightarrow> ledger \<Rightarrow> monthly_source_usage res" where
  "monthly_usage service0 source0 at_time now L =
     rbind (identity3 service0 source0 ''monthly'') (\<lambda>(service, source, unused).
     rbind (aware_utc (case at_time of None \<Rightarrow> Aware now | Some t \<Rightarrow> t)) (\<lambda>instant.
     let month = month_start instant;
         mine = (\<lambda>st r. us_service r = service \<and> us_source r = source
                   \<and> us_billing_month r = month \<and> us_status r = st);
         cu = sum_where (\<lambda>r. case us_actual_units r of None \<Rightarrow> 0 | Some n \<Rightarrow> n)
                (mine COMMITTED) (reservations L);
         cc = sum_where row_cost (mine COMMITTED) (reservations L);
         ru = sum_where us_reserved_units (mine RESERVED) (reservations L);
         rc = sum_where row_cost (mine RESERVED) (reservations L)
     in if \<not> (int8 cu \<and> int8 cc \<and> int8 ru \<and> int8 rc)
        then Inl (DataError ''bigint out of range'')
        else Inr \<lparr>mu_service = service, mu_source = source, mu_billing_month = month,
               mu_committed_units = cu, mu_committed_cost_microusd = cc,
               mu_reserved_units = ru, mu_reserved_cost_microusd = rc\<rparr>))"

subsection \<open>Runs of the ledger\<close>

datatype ledger_op =
    RegisterOp "string option" string int int string timestamp
  | AdvanceOp string string string string timestamp
  | ReserveOp "string option" reserve_request timestamp
  | CommitOp string string string int timestamp
  | ReleaseOp string string string timestamp

fun ledger_step :: "ledger_op \<Rightarrow> ledger \<Rightarrow> ledger" where
  "ledger_step (RegisterOp repo source budget hist evidence now) L =
     settle L (register_campaign repo source budget hist evidence now L)"
| "ledger_step (AdvanceOp service source key v now) L =
     settle L (advance_cursor service source key v now L)"
| "ledger_step (ReserveOp repo q now) L = settle L (reserve_usage repo q now L)"
| "ledger_step (CommitOp service source rid n now) L =
     settle L (commit_usage service source rid n now L)"
| "ledger_step (ReleaseOp service source rid now) L =
     settle L (release_usage service source rid now L)"

subsection \<open>What the tables promise: the CHECK constraints of migrations 005 and 013\<close>

text \<open>
  \<open>cursor_value ~ '^(0|[1-9][0-9]{0,19})$'\<close> and \<open>NUMERIC(20, 0)\<close> bound a cursor to twenty digits; the columns
  of type BIGINT and INTEGER bound the rest.
\<close>

definition cursor_check :: "cursor_row \<Rightarrow> bool" where
  "cursor_check r \<longleftrightarrow>
     \<not> spaces_only (cr_service r) \<and> \<not> spaces_only (cr_source r) \<and> \<not> spaces_only (cr_cursor_key r) \<and>
     (cr_cursor_value r = ''0'' \<or>
       (cr_cursor_value r \<noteq> [] \<and> hd (cr_cursor_value r) \<noteq> CHR ''0'' \<and> length (cr_cursor_value r) \<le> 20)) \<and>
     list_all py_digit (cr_cursor_value r) \<and> 0 \<le> cr_cursor_numeric r \<and> cr_cursor_numeric r < 10 ^ 20 \<and>
     decimal_value (cr_cursor_value r) = cr_cursor_numeric r"

definition usage_check :: "usage_row \<Rightarrow> bool" where
  "usage_check r \<longleftrightarrow>
     \<not> spaces_only (us_service r) \<and> \<not> spaces_only (us_source r) \<and> \<not> spaces_only (us_reservation_id r) \<and>
     0 < us_reserved_units r \<and> int4 (us_reserved_units r) \<and> 0 \<le> us_unit_cost_microusd r \<and>
     us_reserved_cost_microusd r = us_reserved_units r * us_unit_cost_microusd r \<and>
     us_reserved_cost_microusd r \<le> max_bigint \<and>
     (case us_status r of
        RESERVED \<Rightarrow> us_actual_units r = None \<and> us_actual_cost_microusd r = None
          \<and> us_finalized_at r = None
      | COMMITTED \<Rightarrow> (\<exists>n. us_actual_units r = Some n \<and> 0 \<le> n \<and> n \<le> us_reserved_units r
          \<and> us_actual_cost_microusd r = Some (n * us_unit_cost_microusd r))
          \<and> us_finalized_at r \<noteq> None
      | RELEASED \<Rightarrow> us_actual_units r = None \<and> us_actual_cost_microusd r = None
          \<and> us_finalized_at r \<noteq> None)"

definition campaign_check :: "campaign_row \<Rightarrow> bool" where
  "campaign_check c \<longleftrightarrow>
     \<not> spaces_only (cb_campaign_id c) \<and>
     0 < cb_budget_microusd c \<and> 0 \<le> cb_historical_cost_microusd c \<and>
     cb_historical_cost_microusd c \<le> max_bigint \<and>
     sha256_hex (cb_historical_evidence_sha256 c) \<and>
     (\<exists>cap. campaign_provider_caps (cb_source c) = Some cap \<and> cb_budget_microusd c \<le> cap)"

definition ledger_ok :: "ledger \<Rightarrow> bool" where
  "ledger_ok L \<longleftrightarrow>
     unique_by cursor_id (cursors L) \<and> (\<forall>r\<in>set (cursors L). cursor_check r) \<and>
     unique_by usage_id (reservations L) \<and> (\<forall>r\<in>set (reservations L). usage_check r) \<and>
     unique_by cb_source (campaigns L) \<and> (\<forall>c\<in>set (campaigns L). campaign_check c)"

subsection \<open>Outcomes of the operations\<close>

lemma identity3_Inr:
  "identity3 a b c = Inr ident \<longleftrightarrow>
     ident = (strip a, strip b, strip c) \<and> strip a \<noteq> [] \<and> strip b \<noteq> [] \<and> strip c \<noteq> [] \<and>
     length (strip a) \<le> 255 \<and> length (strip b) \<le> 255 \<and> length (strip c) \<le> 255"
  by (auto simp: identity3_def Let_def)

lemma positive_int_Inr [simp]: "positive_int n = Inr u \<longleftrightarrow> 0 < n"
  by (auto simp: positive_int_def)

lemma nonnegative_int_Inr [simp]: "nonnegative_int n = Inr u \<longleftrightarrow> 0 \<le> n"
  by (auto simp: nonnegative_int_def)

lemma usage_cost_Inr: "usage_cost n u = Inr c \<longleftrightarrow> c = n * u \<and> n * u \<le> max_bigint"
  by (auto simp: usage_cost_def Let_def)

lemma cursor_value_Inr:
  "cursor_value v = Inr (w, n) \<longleftrightarrow>
     w = v \<and> n = decimal_value v \<and> v \<noteq> [] \<and> list_all py_digit v \<and>
     (v = ''0'' \<or> hd v \<noteq> CHR ''0'') \<and> decimal_value v \<le> max_cursor"
  by (auto simp: cursor_value_def Let_def split: if_splits)

lemma insert_usage_Inr:
  "insert_usage ident month units unit_cost requested L = Inr (u, L') \<longleftrightarrow>
     int4 units \<and> u = reservation_of_row (fresh_usage ident month units unit_cost requested) \<and>
     L' = L\<lparr>reservations := insert_row (fresh_usage ident month units unit_cost requested)
             (reservations L)\<rparr>"
  by (auto simp: insert_usage_def Let_def)

text \<open>
  A successful reservation either found its own earlier row and changed nothing, or inserted a
  fresh row under a free key that the budget in force allows.
\<close>

definition budget_allows ::
  "string \<times> string \<times> string \<Rightarrow> date \<Rightarrow> int \<Rightarrow> int \<Rightarrow> ledger \<Rightarrow> bool" where
  "budget_allows ident month cost monthly_budget L \<longleftrightarrow>
     (let provider = provider_source (fst (snd ident)) in
      case select_one (\<lambda>r. cb_source r = provider) (campaigns L) of
        Some c \<Rightarrow> provider_spend provider L + cb_historical_cost_microusd c + cost
          \<le> min monthly_budget (cb_budget_microusd c)
      | None \<Rightarrow> monthly_spend (fst ident) (fst (snd ident)) month L + cost \<le> monthly_budget)"

definition request_id :: "reserve_request \<Rightarrow> string \<times> string \<times> string" where
  "request_id q = (strip (rq_service q), strip (rq_source q), strip (rq_reservation_id q))"

lemma reserve_usage_tx_outcome:
  assumes "reserve_usage_tx repo ident month (rq_reserved_units q * rq_unit_cost_microusd q)
             requested q L = Inr (u, L')"
  obtains
    (replay) row where "L' = L"
      and "select_one (\<lambda>r. usage_id r = ident) (reservations L) = Some row"
      and "u = reservation_of_row row"
      and "us_reserved_units row = rq_reserved_units q"
      and "us_unit_cost_microusd row = rq_unit_cost_microusd q"
  | (fresh) row where
      "row = fresh_usage ident month (rq_reserved_units q) (rq_unit_cost_microusd q) requested"
      and "select_one (\<lambda>r. usage_id r = ident) (reservations L) = None"
      and "int4 (rq_reserved_units q)"
      and "budget_allows ident month (rq_reserved_units q * rq_unit_cost_microusd q)
             (rq_monthly_budget_microusd q) L"
      and "L' = L\<lparr>reservations := insert_row row (reservations L)\<rparr>"
      and "u = reservation_of_row row"
proof (cases "select_one (\<lambda>r. usage_id r = ident) (reservations L)")
  case (Some row)
  with assms have "L' = L" "u = reservation_of_row row"
    "us_reserved_units row = rq_reserved_units q"
    "us_unit_cost_microusd row = rq_unit_cost_microusd q"
    by (auto simp: reserve_usage_tx_def reservation_of_row_def Let_def split: if_splits)
  then show thesis using Some by (intro replay)
next
  case None
  with assms show thesis
    by (cases "select_one (\<lambda>r. cb_source r = provider_source (fst (snd ident))) (campaigns L)")
      (auto simp: reserve_usage_tx_def budget_allows_def insert_usage_Inr Let_def
        split: if_splits intro!: fresh)
qed

text \<open>The row a successful validation lets \<open>reserve_usage\<close> insert.\<close>

definition request_row :: "reserve_request \<Rightarrow> timestamp \<Rightarrow> usage_row" where
  "request_row q requested = fresh_usage (request_id q) (month_start requested)
     (rq_reserved_units q) (rq_unit_cost_microusd q) requested"

lemma reserve_usage_outcome:
  assumes "reserve_usage repo q now L = Inr (u, L')"
  obtains
    (replay) row where "L' = L"
      and "select_one (\<lambda>r. usage_id r = request_id q) (reservations L) = Some row"
      and "u = reservation_of_row row"
      and "us_reserved_units row = rq_reserved_units q"
      and "us_unit_cost_microusd row = rq_unit_cost_microusd q"
  | (fresh) requested where
      "select_one (\<lambda>r. usage_id r = request_id q) (reservations L) = None"
      and "usage_check (request_row q requested)"
      and "budget_allows (request_id q) (month_start requested)
             (rq_reserved_units q * rq_unit_cost_microusd q) (rq_monthly_budget_microusd q) L"
      and "L' = L\<lparr>reservations := insert_row (request_row q requested) (reservations L)\<rparr>"
      and "u = reservation_of_row (request_row q requested)"
proof -
  obtain requested where nonempty: "strip (rq_service q) \<noteq> []" "strip (rq_source q) \<noteq> []"
      "strip (rq_reservation_id q) \<noteq> []"
    and nums: "0 < rq_reserved_units q" "0 \<le> rq_unit_cost_microusd q"
      "rq_reserved_units q * rq_unit_cost_microusd q \<le> max_bigint"
    and tx: "reserve_usage_tx repo (request_id q) (month_start requested)
      (rq_reserved_units q * rq_unit_cost_microusd q) requested q L = Inr (u, L')"
    using assms by (auto simp: reserve_usage_def rbind_eq_Inr identity3_Inr usage_cost_Inr request_id_def)
  from tx show thesis
  proof (cases rule: reserve_usage_tx_outcome)
    case (replay row)
    then show thesis by (rule that(1))
  next
    case (fresh row)
    with nonempty nums have "usage_check (request_row q requested)"
      by (simp add: request_row_def fresh_usage_def usage_check_def request_id_def strip_not_spaces)
    with fresh show thesis by (intro that(2)) (simp_all add: request_row_def)
  qed
qed

lemma commit_usage_outcome:
  assumes "commit_usage service source rid n now L = Inr (u, L')"
  obtains
    (replay) row where "L' = L" and "row \<in> set (reservations L)" and "us_status row = COMMITTED"
      and "us_actual_units row = Some n" and "u = reservation_of_row row"
  | (commit) row where "row \<in> set (reservations L)" and "us_status row = RESERVED"
      and "0 \<le> n" and "n \<le> us_reserved_units row"
      and "u = reservation_of_row (committed_row n now row)"
      and "L' = L\<lparr>reservations := update_where (\<lambda>r. usage_id r = usage_id row)
             (committed_row n now) (reservations L)\<rparr>"
proof -
  obtain row ident where "0 \<le> n"
    and sel: "select_one (\<lambda>r. usage_id r = ident) (reservations L) = Some row"
    and body: "(if n > us_reserved_units row
         then Inl (ValueError ''actual_units exceeds the durable reservation'')
         else if us_status row = RELEASED
         then Inl (RuntimeError ''released source usage cannot be committed'')
         else if us_status row = COMMITTED
         then if us_actual_units row \<noteq> Some n
              then Inl (MessageIdentityConflict ''committed source usage was reused with a new amount'')
              else Inr (reservation_of_row row, L)
         else Inr (reservation_of_row (committed_row n now row),
                L\<lparr>reservations := update_where (\<lambda>r. usage_id r = ident)
                     (committed_row n now) (reservations L)\<rparr>)) = Inr (u, L')"
    using assms unfolding commit_usage_def rbind_eq_Inr nonnegative_int_Inr case_option_eq_Inr
    by blast
  from sel have row: "row \<in> set (reservations L)" "usage_id row = ident"
    by (auto dest: select_one_SomeD)
  show thesis
  proof (cases "us_status row")
    case COMMITTED
    with body row show thesis by (intro replay[of row]) (auto split: if_splits)
  next
    case RESERVED
    with body row \<open>0 \<le> n\<close> show thesis by (intro commit[of row]) (auto split: if_splits)
  next
    case RELEASED
    with body show thesis by (auto split: if_splits)
  qed
qed

lemma release_usage_outcome:
  assumes "release_usage service source rid now L = Inr (u, L')"
  obtains
    (replay) row where "L' = L" and "row \<in> set (reservations L)" and "us_status row = RELEASED"
      and "u = reservation_of_row row"
  | (release) row where "row \<in> set (reservations L)" and "us_status row = RESERVED"
      and "u = reservation_of_row (released_row now row)"
      and "L' = L\<lparr>reservations := update_where (\<lambda>r. usage_id r = usage_id row)
             (released_row now) (reservations L)\<rparr>"
proof -
  obtain row ident where
    sel: "select_one (\<lambda>r. usage_id r = ident) (reservations L) = Some row"
    and body: "(if us_status row = COMMITTED
         then Inl (RuntimeError ''committed source usage cannot be released'')
         else if us_status row = RELEASED
         then Inr (reservation_of_row row, L)
         else Inr (reservation_of_row (released_row now row),
                L\<lparr>reservations := update_where (\<lambda>r. usage_id r = ident)
                     (released_row now) (reservations L)\<rparr>)) = Inr (u, L')"
    using assms unfolding release_usage_def rbind_eq_Inr case_option_eq_Inr by blast
  from sel have row: "row \<in> set (reservations L)" "usage_id row = ident"
    by (auto dest: select_one_SomeD)
  show thesis
  proof (cases "us_status row")
    case RELEASED
    with body row show thesis by (intro replay[of row]) auto
  next
    case RESERVED
    with body row show thesis by (intro release[of row]) auto
  next
    case COMMITTED
    with body show thesis by simp
  qed
qed

lemma register_campaign_outcome:
  assumes "register_campaign repo source budget hist evidence now L = Inr (u, L')"
  obtains
    (replay) row where "L' = L" and "row \<in> set (campaigns L)"
      and "cb_source row = provider_source source" and "cb_budget_microusd row = budget"
      and "cb_historical_cost_microusd row = hist"
  | (fresh) row where "L' = L\<lparr>campaigns := insert_row row (campaigns L)\<rparr>"
      and "campaign_check row" and "cb_source row = provider_source source"
      and "select_one (\<lambda>r. cb_source r = cb_source row) (campaigns L) = None"
proof (cases "select_one (\<lambda>r. cb_source r = provider_source source) (campaigns L)")
  case (Some row)
  with assms show thesis
    by (intro replay[of row])
      (auto simp: register_campaign_def rbind_eq_Inr Let_def dest: select_one_SomeD
        split: option.splits if_splits)
next
  case None
  with assms show thesis
    unfolding register_campaign_def
    by (auto simp: rbind_eq_Inr Let_def campaign_check_def split: option.splits if_splits
        intro!: fresh)
qed

lemma advance_cursor_outcome:
  assumes "advance_cursor service source key v now L = Inr (b, L')"
  obtains
    (same) row where "L' = L" and "\<not> b" and "row \<in> set (cursors L)"
      and "cr_cursor_numeric row = decimal_value v" and "cr_cursor_value row = v"
  | (advance) row where "b" and "row \<in> set (cursors L)"
      and "cr_cursor_numeric row < decimal_value v" and "cursor_value v = Inr (v, decimal_value v)"
      and "L' = L\<lparr>cursors := update_where (\<lambda>r. cursor_id r = cursor_id row)
             (advanced_cursor v (decimal_value v) now) (cursors L)\<rparr>"
  | (fresh) ident where "b" and "identity3 service source key = Inr ident"
      and "select_one (\<lambda>r. cursor_id r = ident) (cursors L) = None"
      and "cursor_value v = Inr (v, decimal_value v)"
      and "L' = L\<lparr>cursors := insert_row (fresh_cursor ident v (decimal_value v) now) (cursors L)\<rparr>"
proof -
  obtain ident where ident: "identity3 service source key = Inr ident"
    and v: "cursor_value v = Inr (v, decimal_value v)"
    using assms unfolding advance_cursor_def rbind_eq_Inr
    by (auto simp: cursor_value_Inr split: prod.splits)
  show thesis
  proof (cases "select_one (\<lambda>r. cursor_id r = ident) (cursors L)")
    case None
    with assms ident v show thesis
      by (intro fresh[of ident])
        (cases ident, auto simp: advance_cursor_def)+
  next
    case (Some row)
    then have row: "row \<in> set (cursors L)" "cursor_id row = ident"
      by (auto dest: select_one_SomeD)
    consider "decimal_value v = cr_cursor_numeric row" | "decimal_value v > cr_cursor_numeric row"
      using assms ident v Some by (auto simp: advance_cursor_def split: if_splits)
    then show thesis
    proof cases
      case 1
      with assms ident v Some row show thesis
        by (intro same[of row]) (auto simp: advance_cursor_def split: if_splits)
    next
      case 2
      with assms ident v Some row show thesis
        by (intro advance[of row])
          (auto simp: advance_cursor_def split: if_splits)
    qed
  qed
qed

subsection \<open>The tables keep their constraints\<close>

lemma usage_id_updates [simp]:
  "usage_id (committed_row n now r) = usage_id r"
  "usage_id (released_row now r) = usage_id r"
  by (simp_all add: usage_id_def committed_row_def released_row_def)

lemma usage_check_committed:
  "usage_check r \<Longrightarrow> us_status r = RESERVED \<Longrightarrow> 0 \<le> n \<Longrightarrow> n \<le> us_reserved_units r
    \<Longrightarrow> usage_check (committed_row n now r)"
  by (simp add: usage_check_def committed_row_def)

lemma usage_check_released:
  "usage_check r \<Longrightarrow> us_status r = RESERVED \<Longrightarrow> usage_check (released_row now r)"
  by (simp add: usage_check_def released_row_def)

lemma digit_value_bounds: "py_digit c \<Longrightarrow> 0 \<le> digit_value c \<and> digit_value c \<le> 9"
  by (simp add: py_digit_def digit_value_def Let_def)

lemma digit_value_inj: "digit_value c = digit_value d \<Longrightarrow> c = d"
  by (simp add: digit_value_def)

lemma decimal_value_pos:
  "list_all py_digit s \<Longrightarrow> s \<noteq> [] \<Longrightarrow> hd s \<noteq> CHR ''0'' \<Longrightarrow> 0 < decimal_value s"
proof (induction s rule: rev_induct)
  case (snoc c s)
  show ?case
  proof (cases "s = []")
    case True
    have "digit_value c \<noteq> digit_value (CHR ''0'')"
      using snoc.prems(3) True digit_value_inj by auto
    then have "digit_value c \<noteq> 0" by (simp add: digit_value_def)
    with snoc.prems True digit_value_bounds [of c] show ?thesis
      by (simp add: decimal_value_def)
  next
    case False
    with snoc.prems have "0 < decimal_value s" by (intro snoc.IH) auto
    with snoc.prems digit_value_bounds [of c] show ?thesis by (simp add: decimal_value_snoc)
  qed
qed simp

lemma decimal_value_lower:
  "list_all py_digit s \<Longrightarrow> s \<noteq> [] \<Longrightarrow> hd s \<noteq> CHR ''0'' \<Longrightarrow> 10 ^ (length s - 1) \<le> decimal_value s"
proof (induction s rule: rev_induct)
  case (snoc c s)
  show ?case
  proof (cases "s = []")
    case True
    with decimal_value_pos [OF snoc.prems] show ?thesis by simp
  next
    case False
    then have "10 ^ length s = 10 * (10 ^ (length s - 1) :: int)"
      by (metis length_greater_0_conv power_eq_if nat_neq_iff)
    moreover from False snoc.prems have "10 ^ (length s - 1) \<le> decimal_value s"
      by (intro snoc.IH) auto
    ultimately show ?thesis
      using snoc.prems digit_value_bounds [of c] by (simp add: decimal_value_snoc)
  qed
qed simp

text \<open>Below \<open>_MAX_CURSOR\<close> a canonical value has at most twenty digits.\<close>

lemma cursor_value_length:
  assumes "cursor_value v = Inr (w, n)"
  shows "length v \<le> 20" and "n < 10 ^ 20"
proof -
  have v: "v \<noteq> []" "list_all py_digit v" "v = ''0'' \<or> hd v \<noteq> CHR ''0''" "n = decimal_value v" "decimal_value v \<le> max_cursor"
    using assms by (simp_all add: cursor_value_Inr)
  have m: "max_cursor < 10 ^ 20" by (simp add: max_cursor_def)
  with v(4,5) show "n < 10 ^ 20" by linarith
  show "length v \<le> 20"
  proof (rule ccontr)
    assume "\<not> length v \<le> 20"
    then have "20 \<le> length v - 1" and "v \<noteq> ''0''" by auto
    then have "(10::int) ^ 20 \<le> 10 ^ (length v - 1)" by (intro power_increasing) auto
    also have "\<dots> \<le> decimal_value v" using v \<open>v \<noteq> ''0''\<close> by (intro decimal_value_lower) auto
    finally show False using v(5) m by linarith
  qed
qed

lemma cursor_check_fresh:
  assumes "identity3 service source key = Inr ident" and "cursor_value v = Inr (v, decimal_value v)"
    and "0 \<le> decimal_value v"
  shows "cursor_check (fresh_cursor ident v (decimal_value v) now)"
  using assms cursor_value_length [OF assms(2)]
  by (auto simp: cursor_check_def fresh_cursor_def identity3_Inr cursor_value_Inr strip_not_spaces)

lemma decimal_fold_nonneg:
  "list_all py_digit s \<Longrightarrow> 0 \<le> n \<Longrightarrow> 0 \<le> fold (\<lambda>c n. 10 * n + digit_value c) s n"
  by (induction s arbitrary: n) (auto simp: digit_value_def py_digit_def Let_def)

lemma decimal_value_nonneg: "list_all py_digit s \<Longrightarrow> 0 \<le> decimal_value s"
  by (simp add: decimal_value_def decimal_fold_nonneg)

lemma request_row_id [simp]: "usage_id (request_row q t) = request_id q"
  by (simp add: request_row_def request_id_def fresh_usage_def usage_id_def)

lemma keep_reservations:
  assumes "ledger_ok L" and "row \<in> set (reservations L)"
    and "\<And>r. usage_id (f r) = usage_id r"
    and "usage_check (f row)"
  shows "ledger_ok (L\<lparr>reservations :=
           update_where (\<lambda>r. usage_id r = usage_id row) f (reservations L)\<rparr>)"
proof -
  have "usage_check (f r)" if "r \<in> set (reservations L)" "usage_id r = usage_id row" for r
  proof -
    have "r = row"
      using assms(1,2) that by (auto simp: ledger_ok_def dest: unique_by_eq)
    with assms(4) show ?thesis by simp
  qed
  with assms(1,3) show ?thesis
    by (auto simp: ledger_ok_def unique_by_update set_update_where)
qed

lemma keep_cursors:
  assumes "ledger_ok L" and "row \<in> set (cursors L)"
    and "cursor_value v = Inr (v, decimal_value v)"
  shows "ledger_ok (L\<lparr>cursors := update_where (\<lambda>r. cursor_id r = cursor_id row)
           (advanced_cursor v (decimal_value v) now) (cursors L)\<rparr>)"
proof -
  have "cursor_check (advanced_cursor v (decimal_value v) now r)" if "cursor_check r" for r
    using that assms(3) cursor_value_length [OF assms(3)]
    by (auto simp: cursor_check_def advanced_cursor_def cursor_value_Inr decimal_value_nonneg)
  moreover have "cursor_id (advanced_cursor v (decimal_value v) now r) = cursor_id r" for r
    by (simp add: cursor_id_def advanced_cursor_def)
  ultimately show ?thesis
    using assms(1) by (auto simp: ledger_ok_def unique_by_update set_update_where)
qed

lemma ledger_step_ok: "ledger_ok L \<Longrightarrow> ledger_ok (ledger_step op L)"
proof (cases op)
  case (RegisterOp repo source budget hist evidence now)
  assume "ledger_ok L"
  then show ?thesis unfolding RegisterOp ledger_step.simps
    by (rule settle_cases)
      (erule register_campaign_outcome,
       insert \<open>ledger_ok L\<close>, auto simp: ledger_ok_def select_one_None_iff)
next
  case (AdvanceOp service source key v now)
  assume ok: "ledger_ok L"
  then show ?thesis unfolding AdvanceOp ledger_step.simps
  proof (rule settle_cases)
    fix b L' assume "advance_cursor service source key v now L = Inr (b, L')"
    then show "ledger_ok L'"
    proof (cases rule: advance_cursor_outcome)
      case (fresh ident)
      then have "cursor_check (fresh_cursor ident v (decimal_value v) now)"
        by (auto intro!: cursor_check_fresh simp: decimal_value_nonneg cursor_value_Inr)
      moreover have "cursor_id (fresh_cursor ident v (decimal_value v) now) = ident"
        by (simp add: cursor_id_def fresh_cursor_def)
      ultimately show ?thesis
        using fresh ok by (auto simp: ledger_ok_def select_one_None_iff)
    qed (use ok in \<open>auto intro: keep_cursors\<close>)
  qed
next
  case (ReserveOp repo q now)
  assume ok: "ledger_ok L"
  then show ?thesis unfolding ReserveOp ledger_step.simps
  proof (rule settle_cases)
    fix u L' assume "reserve_usage repo q now L = Inr (u, L')"
    then show "ledger_ok L'"
      by (cases rule: reserve_usage_outcome)
        (use ok in \<open>auto simp: ledger_ok_def select_one_None_iff\<close>)
  qed
next
  case (CommitOp service source rid n now)
  assume ok: "ledger_ok L"
  then show ?thesis unfolding CommitOp ledger_step.simps
  proof (rule settle_cases)
    fix u L' assume "commit_usage service source rid n now L = Inr (u, L')"
    then show "ledger_ok L'"
    proof (cases rule: commit_usage_outcome)
      case (commit row)
      then have "usage_check (committed_row n now row)"
        using ok by (auto simp: ledger_ok_def intro: usage_check_committed)
      with commit ok show ?thesis by (auto intro: keep_reservations)
    qed (use ok in auto)
  qed
next
  case (ReleaseOp service source rid now)
  assume ok: "ledger_ok L"
  then show ?thesis unfolding ReleaseOp ledger_step.simps
  proof (rule settle_cases)
    fix u L' assume "release_usage service source rid now L = Inr (u, L')"
    then show "ledger_ok L'"
    proof (cases rule: release_usage_outcome)
      case (release row)
      then have "usage_check (released_row now row)"
        using ok by (auto simp: ledger_ok_def intro: usage_check_released)
      with release ok show ?thesis by (auto intro: keep_reservations)
    qed (use ok in auto)
  qed
qed

subsection \<open>Nothing settled is undone\<close>

text \<open>
  A reservation keeps its identity, month, units and prices for ever and moves only from
  \<open>RESERVED\<close> to a final status; a cursor's number never decreases; a campaign binding stays.
\<close>

definition usage_le :: "usage_row \<Rightarrow> usage_row \<Rightarrow> bool" where
  "usage_le r r' \<longleftrightarrow> r' = r \<or>
     (us_status r = RESERVED \<and> us_status r' \<noteq> RESERVED \<and> usage_id r' = usage_id r \<and>
      us_billing_month r' = us_billing_month r \<and> us_reserved_units r' = us_reserved_units r \<and>
      us_unit_cost_microusd r' = us_unit_cost_microusd r)"

definition cursor_le :: "cursor_row \<Rightarrow> cursor_row \<Rightarrow> bool" where
  "cursor_le r r' \<longleftrightarrow> cursor_id r' = cursor_id r \<and> cr_cursor_numeric r \<le> cr_cursor_numeric r'"

definition ledger_le :: "ledger \<Rightarrow> ledger \<Rightarrow> bool" where
  "ledger_le L L' \<longleftrightarrow>
     table_le usage_le (reservations L) (reservations L') \<and>
     table_le cursor_le (cursors L) (cursors L') \<and>
     table_le (=) (campaigns L) (campaigns L')"

lemma usage_le_refl [simp]: "usage_le r r"
  by (simp add: usage_le_def)

lemma usage_le_trans: "usage_le r s \<Longrightarrow> usage_le s t \<Longrightarrow> usage_le r t"
  by (auto simp: usage_le_def)

lemma cursor_le_refl [simp]: "cursor_le r r"
  by (simp add: cursor_le_def)

lemma cursor_le_trans: "cursor_le r s \<Longrightarrow> cursor_le s t \<Longrightarrow> cursor_le r t"
  by (auto simp: cursor_le_def)

lemmas progress_intros = table_le_refl table_le_insert

lemma ledger_le_refl: "ledger_le L L"
  by (simp add: ledger_le_def progress_intros)

lemma ledger_le_trans: "ledger_le L M \<Longrightarrow> ledger_le M N \<Longrightarrow> ledger_le L N"
  unfolding ledger_le_def
  using table_le_trans [of usage_le] table_le_trans [of cursor_le] table_le_trans [of "(=)"]
  by (metis cursor_le_trans usage_le_trans)

lemma ledger_le_update_usage:
  assumes "ledger_ok L" and "row \<in> set (reservations L)" and "usage_le row (f row)"
  shows "ledger_le L (L\<lparr>reservations :=
           update_where (\<lambda>r. usage_id r = usage_id row) f (reservations L)\<rparr>)"
proof -
  have "usage_le r (f r)" if "r \<in> set (reservations L)" "usage_id r = usage_id row" for r
  proof -
    from assms(1,2) that have "r = row" by (auto simp: ledger_ok_def dest: unique_by_eq)
    with assms(3) show ?thesis by simp
  qed
  then show ?thesis
    by (simp add: ledger_le_def progress_intros table_le_update)
qed

lemma ledger_le_advance:
  assumes "ledger_ok L" and "row \<in> set (cursors L)" and "cr_cursor_numeric row < n"
  shows "ledger_le L (L\<lparr>cursors := update_where (\<lambda>r. cursor_id r = cursor_id row)
           (advanced_cursor v n now) (cursors L)\<rparr>)"
proof -
  have "cursor_le r (advanced_cursor v n now r)"
    if "r \<in> set (cursors L)" "cursor_id r = cursor_id row" for r
  proof -
    from assms(1,2) that have "r = row" by (auto simp: ledger_ok_def dest: unique_by_eq)
    with assms(3) show ?thesis by (simp add: cursor_le_def cursor_id_def advanced_cursor_def)
  qed
  then show ?thesis
    by (simp add: ledger_le_def progress_intros table_le_update)
qed

lemma ledger_step_le: "ledger_ok L \<Longrightarrow> ledger_le L (ledger_step op L)"
proof (cases op)
  case (RegisterOp repo source budget hist evidence now)
  show ?thesis unfolding RegisterOp ledger_step.simps
  proof (rule settle_cases)
    fix u L' assume "register_campaign repo source budget hist evidence now L = Inr (u, L')"
    then show "ledger_le L L'"
      by (cases rule: register_campaign_outcome) (simp_all add: ledger_le_def progress_intros)
  qed (rule ledger_le_refl)
next
  case (AdvanceOp service source key v now)
  assume ok: "ledger_ok L"
  show ?thesis unfolding AdvanceOp ledger_step.simps
  proof (rule settle_cases)
    fix b L' assume "advance_cursor service source key v now L = Inr (b, L')"
    then show "ledger_le L L'"
    proof (cases rule: advance_cursor_outcome)
      case (advance row)
      then show ?thesis using ok by (simp add: ledger_le_advance)
    qed (simp_all add: ledger_le_def progress_intros)
  qed (rule ledger_le_refl)
next
  case (ReserveOp repo q now)
  show ?thesis unfolding ReserveOp ledger_step.simps
  proof (rule settle_cases)
    fix u L' assume "reserve_usage repo q now L = Inr (u, L')"
    then show "ledger_le L L'"
      by (cases rule: reserve_usage_outcome) (simp_all add: ledger_le_def progress_intros)
  qed (rule ledger_le_refl)
next
  case (CommitOp service source rid n now)
  assume ok: "ledger_ok L"
  show ?thesis unfolding CommitOp ledger_step.simps
  proof (rule settle_cases)
    fix u L' assume "commit_usage service source rid n now L = Inr (u, L')"
    then show "ledger_le L L'"
    proof (cases rule: commit_usage_outcome)
      case (commit row)
      then have "usage_le row (committed_row n now row)"
        by (simp add: usage_le_def) (simp add: committed_row_def)
      with commit ok show ?thesis by (auto intro: ledger_le_update_usage)
    qed (simp add: ledger_le_refl)
  qed (rule ledger_le_refl)
next
  case (ReleaseOp service source rid now)
  assume ok: "ledger_ok L"
  show ?thesis unfolding ReleaseOp ledger_step.simps
  proof (rule settle_cases)
    fix u L' assume "release_usage service source rid now L = Inr (u, L')"
    then show "ledger_le L L'"
    proof (cases rule: release_usage_outcome)
      case (release row)
      then have "usage_le row (released_row now row)"
        by (simp add: usage_le_def) (simp add: released_row_def)
      with release ok show ?thesis by (auto intro: ledger_le_update_usage)
    qed (simp add: ledger_le_refl)
  qed (rule ledger_le_refl)
qed

interpretation ledger: monotone_system ledger_step ledger_ok ledger_le
  by unfold_locales
    (auto intro: ledger_step_ok ledger_le_refl ledger_le_trans ledger_step_le)

subsection \<open>Budgets\<close>

lemma row_cost_nonneg: "usage_check r \<Longrightarrow> 0 \<le> row_cost r"
  by (auto simp: usage_check_def row_cost_def split: usage_status.splits)

lemma row_cost_committed:
  "usage_check r \<Longrightarrow> us_status r = RESERVED \<Longrightarrow> n \<le> us_reserved_units r
    \<Longrightarrow> row_cost (committed_row n now r) \<le> row_cost r"
  by (auto simp: usage_check_def row_cost_def committed_row_def intro: mult_right_mono)

lemma row_cost_released: "usage_check r \<Longrightarrow> row_cost (released_row now r) \<le> row_cost r"
  using row_cost_nonneg [of r] by (simp add: row_cost_def released_row_def)

text \<open>
  Settling a reservation never raises a budget sum, whatever columns fixed at insertion select
  the rows of the sum.
\<close>

definition budget_key :: "usage_row \<Rightarrow> string \<times> string \<times> date" where
  "budget_key r = (us_service r, us_source r, us_billing_month r)"

lemma budget_key_updates [simp]:
  "budget_key (committed_row n now r) = budget_key r"
  "budget_key (released_row now r) = budget_key r"
  by (simp_all add: budget_key_def committed_row_def released_row_def)

lemma spend_update_le:
  assumes "ledger_ok L" and "row \<in> set (reservations L)"
    and "\<And>r. budget_key (f r) = budget_key r" and "row_cost (f row) \<le> row_cost row"
  shows "sum_where row_cost (\<lambda>r. Q (budget_key r))
           (update_where (\<lambda>r. usage_id r = usage_id row) f (reservations L))
         \<le> sum_where row_cost (\<lambda>r. Q (budget_key r)) (reservations L)"
proof (rule sum_where_update_le)
  fix r assume "r \<in> set (reservations L)" "usage_id r = usage_id row"
  with assms(1,2) have "r = row" by (auto simp: ledger_ok_def dest: unique_by_eq)
  with assms(3,4) show "(if Q (budget_key (f r)) then row_cost (f r) else 0)
      \<le> (if Q (budget_key r) then row_cost r else 0)"
    by simp
qed

definition spend :: "(string \<times> string \<times> date \<Rightarrow> bool) \<Rightarrow> ledger \<Rightarrow> int" where
  "spend Q L = sum_where row_cost (\<lambda>r. Q (budget_key r)) (reservations L)"

lemma provider_spend_eq:
  "provider_spend p L = spend (\<lambda>k. fst (snd k) \<in> set (provider_sources p)) L"
  by (simp add: provider_spend_def spend_def budget_key_def)

lemma monthly_spend_eq: "monthly_spend sv src m L = spend (\<lambda>k. k = (sv, src, m)) L"
  by (simp add: monthly_spend_def spend_def budget_key_def)

text \<open>One operation raises a spend only by inserting the row of a reservation a budget allows.\<close>

lemma ledger_step_spend:
  assumes "ledger_ok L"
  shows "spend Q (ledger_step op L) \<le> spend Q L \<or>
    (\<exists>repo q now t. op = ReserveOp repo q now \<and>
       Q (budget_key (request_row q t)) \<and>
       budget_allows (request_id q) (month_start t)
         (rq_reserved_units q * rq_unit_cost_microusd q) (rq_monthly_budget_microusd q) L \<and>
       spend Q (ledger_step op L) =
         spend Q L + rq_reserved_units q * rq_unit_cost_microusd q)"
proof (cases op)
  case (RegisterOp repo source budget hist evidence now)
  have "spend Q (ledger_step op L) \<le> spend Q L"
    unfolding RegisterOp ledger_step.simps
    by (rule settle_cases, simp, erule register_campaign_outcome) (simp_all add: spend_def)
  then show ?thesis ..
next
  case (AdvanceOp service source key v now)
  have "spend Q (ledger_step op L) \<le> spend Q L"
    unfolding AdvanceOp ledger_step.simps
    by (rule settle_cases, simp, erule advance_cursor_outcome) (simp_all add: spend_def)
  then show ?thesis ..
next
  case (ReserveOp repo q now)
  show ?thesis
  proof (cases "reserve_usage repo q now L")
    case (Inr res)
    obtain u L' where res: "res = (u, L')" by (cases res)
    have step: "ledger_step op L = L'" by (simp add: ReserveOp Inr res)
    from Inr [unfolded res] show ?thesis
    proof (cases rule: reserve_usage_outcome)
      case (fresh t)
      have "row_cost (request_row q t) = rq_reserved_units q * rq_unit_cost_microusd q"
        by (simp add: request_row_def fresh_usage_def row_cost_def)
      with fresh step ReserveOp show ?thesis by (auto simp: spend_def)
    qed (simp add: step)
  qed (simp add: ReserveOp)
next
  case (CommitOp service source rid n now)
  have "spend Q (ledger_step op L) \<le> spend Q L"
    unfolding CommitOp ledger_step.simps
  proof (rule settle_cases)
    fix u L' assume "commit_usage service source rid n now L = Inr (u, L')"
    then show "spend Q L' \<le> spend Q L"
    proof (cases rule: commit_usage_outcome)
      case (commit row)
      with assms have "row_cost (committed_row n now row) \<le> row_cost row"
        by (auto simp: ledger_ok_def intro: row_cost_committed)
      with commit assms show ?thesis by (simp add: spend_def spend_update_le)
    qed simp
  qed simp
  then show ?thesis ..
next
  case (ReleaseOp service source rid now)
  have "spend Q (ledger_step op L) \<le> spend Q L"
    unfolding ReleaseOp ledger_step.simps
  proof (rule settle_cases)
    fix u L' assume "release_usage service source rid now L = Inr (u, L')"
    then show "spend Q L' \<le> spend Q L"
    proof (cases rule: release_usage_outcome)
      case (release row)
      with assms have "row_cost (released_row now row) \<le> row_cost row"
        by (auto simp: ledger_ok_def intro: row_cost_released)
      with release assms show ?thesis by (simp add: spend_def spend_update_le)
    qed simp
  qed simp
  then show ?thesis ..
qed

lemma spend_mono:
  "ledger_ok L \<Longrightarrow> (\<And>k. P k \<Longrightarrow> Q k) \<Longrightarrow> spend P L \<le> spend Q L"
  unfolding spend_def by (rule sum_where_subset) (auto simp: ledger_ok_def row_cost_nonneg)

lemma campaign_selected:
  assumes "ledger_ok L" and "c \<in> set (campaigns L)"
  shows "select_one (\<lambda>r. cb_source r = cb_source c) (campaigns L) = Some c"
  using assms by (intro select_one_unique) (auto simp: ledger_ok_def)

lemma campaign_sources:
  assumes "campaign_check c"
  shows "s \<in> set (provider_sources (cb_source c)) \<longleftrightarrow> provider_source s = cb_source c"
proof -
  have "cb_source c = ''openai'' \<or> cb_source c = ''deepseek'' \<or> cb_source c = ''x''"
    using assms by (auto simp: campaign_check_def campaign_provider_caps_def split: if_splits)
  then show ?thesis by (auto simp: provider_sources_def provider_source_def)
qed

definition campaign_within :: "campaign_row \<Rightarrow> ledger \<Rightarrow> bool" where
  "campaign_within c L \<longleftrightarrow> ledger_ok L \<and> c \<in> set (campaigns L) \<and>
     provider_spend (cb_source c) L + cb_historical_cost_microusd c \<le> cb_budget_microusd c"

lemma campaign_within_step:
  assumes "campaign_within c L"
  shows "campaign_within c (ledger_step op L)"
proof -
  have ok: "ledger_ok L" and c: "c \<in> set (campaigns L)" and chk: "campaign_check c"
    and le: "provider_spend (cb_source c) L + cb_historical_cost_microusd c \<le> cb_budget_microusd c"
    using assms by (auto simp: campaign_within_def ledger_ok_def)
  from ok have "ledger_ok (ledger_step op L)" by (rule ledger_step_ok)
  moreover from ledger_step_le [OF ok] c have "c \<in> set (campaigns (ledger_step op L))"
    by (auto simp: ledger_le_def dest: table_leD)
  moreover have "provider_spend (cb_source c) (ledger_step op L) + cb_historical_cost_microusd c
      \<le> cb_budget_microusd c"
    using ledger_step_spend [OF ok, of "\<lambda>k. fst (snd k) \<in> set (provider_sources (cb_source c))" op]
      le campaign_selected [OF ok c]
    by (auto simp: provider_spend_eq budget_allows_def campaign_sources [OF chk] budget_key_def
        request_row_def fresh_usage_def Let_def)
  ultimately show ?thesis by (simp add: campaign_within_def)
qed

interpretation campaign: invariant_system ledger_step "\<lambda>_. True" "campaign_within c" for c
  by unfold_locales (rule campaign_within_step)

text \<open>The monthly cap of one service and source, when every request for it names at most \<open>cap\<close>.\<close>

definition asks_at_most :: "int \<Rightarrow> string \<Rightarrow> string \<Rightarrow> ledger_op \<Rightarrow> bool" where
  "asks_at_most cap service source op \<longleftrightarrow> (case op of
       ReserveOp repo q now \<Rightarrow> strip (rq_service q) = service \<and> strip (rq_source q) = source \<longrightarrow>
         rq_monthly_budget_microusd q \<le> cap
     | _ \<Rightarrow> True)"

definition monthly_within :: "int \<Rightarrow> string \<Rightarrow> string \<Rightarrow> date \<Rightarrow> ledger \<Rightarrow> bool" where
  "monthly_within cap service source month L \<longleftrightarrow>
     ledger_ok L \<and> monthly_spend service source month L \<le> cap"

lemma budget_allows_monthly:
  assumes "ledger_ok L" and "budget_allows ident month cost cap L"
  shows "monthly_spend (fst ident) (fst (snd ident)) month L + cost \<le> cap"
proof (cases "select_one (\<lambda>r. cb_source r = provider_source (fst (snd ident))) (campaigns L)")
  case None
  with assms show ?thesis by (simp add: budget_allows_def)
next
  case (Some c)
  then have c: "c \<in> set (campaigns L)" "cb_source c = provider_source (fst (snd ident))"
    by (auto dest: select_one_SomeD)
  with assms have chk: "campaign_check c" by (simp add: ledger_ok_def)
  have "monthly_spend (fst ident) (fst (snd ident)) month L \<le> provider_spend (cb_source c) L"
    unfolding monthly_spend_eq provider_spend_eq
    by (rule spend_mono [OF assms(1)], simp only: campaign_sources [OF chk])
      (use c in simp)
  with assms(2) Some chk c(2) show ?thesis
    by (simp add: budget_allows_def campaign_check_def Let_def)
qed

lemma monthly_within_step:
  assumes "asks_at_most cap service source op" and "monthly_within cap service source month L"
  shows "monthly_within cap service source month (ledger_step op L)"
proof -
  have ok: "ledger_ok L" and le: "monthly_spend service source month L \<le> cap"
    using assms by (auto simp: monthly_within_def)
  have "monthly_spend service source month (ledger_step op L) \<le> cap"
    using ledger_step_spend [OF ok, of "\<lambda>k. k = (service, source, month)" op]
  proof (elim disjE exE conjE)
    fix repo q now t
    assume op: "op = ReserveOp repo q now"
      and key: "budget_key (request_row q t) = (service, source, month)"
      and allows: "budget_allows (request_id q) (month_start t)
         (rq_reserved_units q * rq_unit_cost_microusd q) (rq_monthly_budget_microusd q) L"
      and eq: "spend (\<lambda>k. k = (service, source, month)) (ledger_step op L) =
         spend (\<lambda>k. k = (service, source, month)) L + rq_reserved_units q * rq_unit_cost_microusd q"
    from key have k: "strip (rq_service q) = service" "strip (rq_source q) = source" "month_start t = month"
      by (simp_all add: budget_key_def request_row_def fresh_usage_def request_id_def)
    have "rq_monthly_budget_microusd q \<le> cap"
      using assms(1) op k by (simp add: asks_at_most_def)
    with budget_allows_monthly [OF ok allows] k eq show ?thesis
      by (simp add: monthly_spend_eq request_id_def)
  qed (use le in \<open>simp add: monthly_spend_eq\<close>)
  with ok show ?thesis by (simp add: monthly_within_def ledger_step_ok)
qed

interpretation monthly: invariant_system ledger_step "asks_at_most cap service source"
    "monthly_within cap service source month" for cap service source month
  by unfold_locales (rule monthly_within_step)

subsection \<open>Replays\<close>

lemma usage_row_found:
  assumes "ledger_ok L" and "r \<in> set (reservations L)"
  shows "select_one (\<lambda>q. usage_id q = usage_id r) (reservations L) = Some r"
  using assms by (intro select_one_unique) (auto simp: ledger_ok_def)

lemma usage_le_immutable:
  assumes "usage_le r r'"
  shows "usage_id r' = usage_id r" and "us_billing_month r' = us_billing_month r"
    and "us_reserved_units r' = us_reserved_units r"
    and "us_unit_cost_microusd r' = us_unit_cost_microusd r"
  using assms by (auto simp: usage_le_def)

lemma campaign_kept:
  assumes "ledger_ok L" and "ledger_ok L'" and "ledger_le L L'"
    and "select_one (\<lambda>r. cb_source r = p) (campaigns L) = Some c"
  shows "select_one (\<lambda>r. cb_source r = p) (campaigns L') = Some c"
proof -
  from assms(4) have "c \<in> set (campaigns L)" "cb_source c = p" by (auto dest: select_one_SomeD)
  with assms(3) have "c \<in> set (campaigns L')" by (auto simp: ledger_le_def dest: table_leD)
  from campaign_selected [OF assms(2) this] \<open>cb_source c = p\<close> show ?thesis by simp
qed

lemma reserve_usage_valid:
  assumes "reserve_usage repo0 q now0 L0 = Inr x" and "rq_requested_at q = Some (Aware t)"
  shows "reserve_usage repo q now L = reserve_usage_tx repo (request_id q) (month_start t)
           (rq_reserved_units q * rq_unit_cost_microusd q) t q L"
proof -
  have "identity3 (rq_service q) (rq_source q) (rq_reservation_id q) = Inr (request_id q)"
    "positive_int (rq_reserved_units q) = Inr ()"
    "nonnegative_int (rq_unit_cost_microusd q) = Inr ()"
    "nonnegative_int (rq_monthly_budget_microusd q) = Inr ()"
    "usage_cost (rq_reserved_units q) (rq_unit_cost_microusd q)
      = Inr (rq_reserved_units q * rq_unit_cost_microusd q)"
    using assms(1)
    by (auto simp: reserve_usage_def rbind_eq_Inr identity3_Inr usage_cost_Inr request_id_def)
  with assms(2) show ?thesis
    by (simp add: reserve_usage_def aware_utc_def positive_int_def nonnegative_int_def)
qed

text \<open>A request that succeeded is answered from its row in any later ledger.\<close>

lemma reserve_again:
  assumes ok: "ledger_ok L2" "ledger_ok L" and le: "ledger_le L L2"
    and row: "row \<in> set (reservations L)" "usage_id row = request_id q"
      "us_reserved_units row = rq_reserved_units q"
      "us_unit_cost_microusd row = rq_unit_cost_microusd q"
    and month: "select_one (\<lambda>r. cb_source r = provider_source (fst (snd (request_id q)))) (campaigns L)
        = None \<Longrightarrow> us_billing_month row = month_start t"
    and bound: "repo \<noteq> None \<Longrightarrow>
      map_option cb_campaign_id (select_one (\<lambda>r. cb_source r = provider_source (fst (snd (request_id q))))
        (campaigns L)) = repo"
    and requested: "rq_requested_at q = Some (Aware t)"
    and valid: "reserve_usage repo0 q now0 L0 = Inr x"
  shows "\<exists>u. reserve_usage repo q now L2 = Inr (u, L2) \<and> ur_reserved_units u = rq_reserved_units q"
proof -
  obtain r2 where r2: "r2 \<in> set (reservations L2)" "usage_le row r2"
    using le row(1) by (auto simp: ledger_le_def dest: table_leD)
  have found: "select_one (\<lambda>r. usage_id r = request_id q) (reservations L2) = Some r2"
    using usage_row_found [OF ok(1) r2(1)] usage_le_immutable(1) [OF r2(2)] row(2) by simp
  have same: "us_reserved_units r2 = rq_reserved_units q"
      "us_unit_cost_microusd r2 = rq_unit_cost_microusd q"
      "us_billing_month r2 = us_billing_month row"
    using usage_le_immutable [OF r2(2)] row by simp_all
  let ?sel = "\<lambda>M. select_one (\<lambda>r. cb_source r = provider_source (fst (snd (request_id q)))) (campaigns M)"
  have camp: "?sel L2 = ?sel L" if "?sel L \<noteq> None"
    using campaign_kept [OF ok(2,1) le] that by force
  have "?sel L2 = None \<Longrightarrow> ?sel L = None" using camp by force
  then have month2: "?sel L2 = None \<Longrightarrow> us_billing_month r2 = month_start t"
    using month same(3) by simp
  have bound2: "repo = None \<or> (?sel L2 \<noteq> None \<and> map_option cb_campaign_id (?sel L2) = repo)"
    using bound camp by (cases repo; cases "?sel L") auto
  have "reserve_usage repo q now L2 =
      reserve_usage_tx repo (request_id q) (month_start t)
        (rq_reserved_units q * rq_unit_cost_microusd q) t q L2"
    using valid requested by (rule reserve_usage_valid)
  also have "\<dots> = Inr (reservation_of_row r2, L2)"
    using bound2 month2 found same
    by (auto simp: reserve_usage_tx_def reservation_of_row_def Let_def)
  finally show ?thesis using same by (simp add: reservation_of_row_def)
qed

lemma reserve_usage_row:
  assumes "ledger_ok L" and "reserve_usage repo q now L = Inr (u, L1)"
    and "rq_requested_at q = Some (Aware t)"
  obtains row where "row \<in> set (reservations L1)" and "usage_id row = request_id q"
    and "us_reserved_units row = rq_reserved_units q"
    and "us_unit_cost_microusd row = rq_unit_cost_microusd q"
    and "select_one (\<lambda>r. cb_source r = provider_source (fst (snd (request_id q)))) (campaigns L1)
        = None \<Longrightarrow> us_billing_month row = month_start t"
    and "repo \<noteq> None \<Longrightarrow>
      map_option cb_campaign_id (select_one (\<lambda>r. cb_source r = provider_source (fst (snd (request_id q))))
        (campaigns L1)) = repo"
proof -
  have tx: "reserve_usage_tx repo (request_id q) (month_start t)
      (rq_reserved_units q * rq_unit_cost_microusd q) t q L = Inr (u, L1)"
    using assms(2) reserve_usage_valid [OF assms(2,3), of repo now L] by simp
  have bound: "repo \<noteq> None \<Longrightarrow>
      map_option cb_campaign_id (select_one (\<lambda>r. cb_source r = provider_source (fst (snd (request_id q))))
        (campaigns L)) = repo"
    using tx by (auto simp: reserve_usage_tx_def Let_def split: if_splits)
  show thesis using tx
  proof (cases rule: reserve_usage_tx_outcome)
    case (replay row)
    then have row: "row \<in> set (reservations L)" "usage_id row = request_id q"
      by (auto dest: select_one_SomeD)
    have "us_billing_month row = month_start t"
      if "select_one (\<lambda>r. cb_source r = provider_source (fst (snd (request_id q)))) (campaigns L) = None"
      using tx replay(2) that
      by (auto simp: reserve_usage_tx_def reservation_of_row_def Let_def split: if_splits)
    with replay row bound show thesis by (intro that) auto
  next
    case (fresh row)
    with bound show thesis
      by (intro that[of row]) (auto simp: fresh_usage_def usage_id_def)
  qed
qed

subsection \<open>Canonical decimals\<close>

text \<open>
  Two canonical decimal strings with one value are one string, so the stored representation of
  a cursor is determined by its number.
\<close>

definition canonical_decimal :: "string \<Rightarrow> bool" where
  "canonical_decimal s \<longleftrightarrow>
     s \<noteq> [] \<and> list_all py_digit s \<and> (s = ''0'' \<or> hd s \<noteq> CHR ''0'')"

lemma decimal_value_inj:
  assumes "list_all py_digit s" "list_all py_digit t" "length s = length t"
    and "decimal_value s = decimal_value t"
  shows "s = t"
  using assms(3,1,2,4)
proof (induction s t rule: rev_induct2)
  case (4 x xs y ys)
  then have d: "0 \<le> digit_value x" "digit_value x \<le> 9" "0 \<le> digit_value y" "digit_value y \<le> 9"
    by (auto dest: digit_value_bounds)
  have "10 * decimal_value xs + digit_value x = 10 * decimal_value ys + digit_value y"
    using 4 by (simp add: decimal_value_snoc)
  with d have "decimal_value xs = decimal_value ys" "digit_value x = digit_value y"
    by presburger+
  with 4 show ?case by (auto dest: digit_value_inj)
qed simp_all

lemma decimal_value_upper: "list_all py_digit s \<Longrightarrow> decimal_value s < 10 ^ length s"
proof (induction s rule: rev_induct)
  case Nil
  then show ?case by (simp add: decimal_value_def)
next
  case (snoc c s)
  then show ?case using digit_value_bounds [of c] by (simp add: decimal_value_snoc)
qed

lemma canonical_shorter:
  assumes "canonical_decimal s" "canonical_decimal t" "length s < length t"
  shows "decimal_value s < decimal_value t"
proof -
  have "t \<noteq> ''0''" using assms(1,3) by (auto simp: canonical_decimal_def)
  then have "10 ^ (length t - 1) \<le> decimal_value t"
    using assms(2) by (intro decimal_value_lower) (auto simp: canonical_decimal_def)
  moreover have "decimal_value s < 10 ^ length s"
    using assms(1) by (intro decimal_value_upper) (auto simp: canonical_decimal_def)
  moreover have "(10::int) ^ length s \<le> 10 ^ (length t - 1)"
    using assms(3) by (intro power_increasing) auto
  ultimately show ?thesis by linarith
qed

lemma canonical_decimal_unique:
  assumes "canonical_decimal s" "canonical_decimal t" "decimal_value s = decimal_value t"
  shows "s = t"
proof -
  have "length s = length t"
    using canonical_shorter [of s t] canonical_shorter [of t s] assms
    by (metis less_irrefl nat_neq_iff)
  with assms show ?thesis by (auto simp: canonical_decimal_def intro: decimal_value_inj)
qed

section \<open>Properties\<close>

text \<open>
  C11. The cumulative campaign cap holds for ever: once a provider's campaign is registered and
  its spend (committed and reserved reservations of every alias of the provider, plus the
  historical debt) is within the budget, no sequence of ledger operations by any repository
  takes it over the budget, and the campaign binding itself is never replaced.
\<close>

theorem campaign_budget_never_exceeded:
  assumes "ledger_ok L" and "c \<in> set (campaigns L)"
    and "provider_spend (cb_source c) L + cb_historical_cost_microusd c \<le> cb_budget_microusd c"
  shows "c \<in> set (campaigns (fold ledger_step ops L)) \<and>
    provider_spend (cb_source c) (fold ledger_step ops L) + cb_historical_cost_microusd c
      \<le> cb_budget_microusd c"
proof -
  have "campaign_within c (fold ledger_step ops L)"
    by (rule campaign.run_inv) (use assms in \<open>simp_all add: campaign_within_def list_all_iff\<close>)
  then show ?thesis by (simp add: campaign_within_def)
qed

text \<open>
  The monthly cap: if every reservation request for one service and source names a budget
  of at most \<open>cap\<close>, no sequence of operations takes the month's committed and reserved cost of
  that service and source over \<open>cap\<close>, whether or not a campaign is registered on the way.
\<close>

theorem monthly_budget_never_exceeded:
  assumes "ledger_ok L" and "monthly_spend service source month L \<le> cap"
    and "list_all (asks_at_most cap service source) ops"
  shows "monthly_spend service source month (fold ledger_step ops L) \<le> cap"
proof -
  have "monthly_within cap service source month (fold ledger_step ops L)"
    by (rule monthly.run_inv [OF assms(3)]) (use assms in \<open>simp add: monthly_within_def\<close>)
  then show ?thesis by (simp add: monthly_within_def)
qed

text \<open>
  A reservation is idempotent: when a request with an explicit timestamp has succeeded,
  repeating it after any further operations returns the durable reservation and leaves the
  ledger as it is, so a retry is never charged twice.
\<close>

theorem reserve_usage_replay:
  assumes "ledger_ok L" and "rq_requested_at q = Some (Aware t)"
    and "reserve_usage repo q now L = Inr (u, L1)"
  shows "\<exists>u'. reserve_usage repo q now' (fold ledger_step ops L1)
           = Inr (u', fold ledger_step ops L1) \<and> ur_reserved_units u' = rq_reserved_units q"
proof -
  have "ledger_step (ReserveOp repo q now) L = L1" using assms(3) by simp
  then have ok: "ledger_ok L1" using ledger_step_ok [OF assms(1)] by metis
  from assms(1,3,2) show ?thesis
  proof (rule reserve_usage_row)
    fix row
    assume "row \<in> set (reservations L1)" "usage_id row = request_id q"
      "us_reserved_units row = rq_reserved_units q"
      "us_unit_cost_microusd row = rq_unit_cost_microusd q"
      "select_one (\<lambda>r. cb_source r = provider_source (fst (snd (request_id q)))) (campaigns L1)
         = None \<Longrightarrow> us_billing_month row = month_start t"
      "repo \<noteq> None \<Longrightarrow> map_option cb_campaign_id
         (select_one (\<lambda>r. cb_source r = provider_source (fst (snd (request_id q)))) (campaigns L1)) = repo"
    then show ?thesis
      by (rule reserve_again [OF ledger.reach_inv [OF ok] ok ledger.run_le [OF ok]
            _ _ _ _ _ _ assms(2,3)])
  qed
qed

text \<open>
  Cursors are monotone: a cursor that can be read keeps being readable, with a number at
  least as large, after any sequence of operations.
\<close>

theorem cursor_never_regresses:
  assumes "ledger_ok L" and "get_cursor service source key L = Inr (Some c)"
  shows "\<exists>c'. get_cursor service source key (fold ledger_step ops L) = Inr (Some c') \<and>
    decimal_value (sc_cursor_value c) \<le> decimal_value (sc_cursor_value c')"
proof -
  let ?M = "fold ledger_step ops L"
  obtain ident r where ident: "identity3 service source key = Inr ident"
    and r: "select_one (\<lambda>r. cursor_id r = ident) (cursors L) = Some r" "c = cursor_of_row r"
    using assms(2) by (auto simp: get_cursor_def rbind_eq_Inr)
  have r_in: "r \<in> set (cursors L)" "cursor_id r = ident"
    using r(1) by (auto dest: select_one_SomeD)
  have okM: "ledger_ok ?M" and le: "ledger_le L ?M"
    using assms(1) by (rule ledger.reach_inv, rule ledger.run_le)
  obtain r' where r': "r' \<in> set (cursors ?M)" "cursor_le r r'"
    using le r_in by (auto simp: ledger_le_def dest: table_leD)
  have "select_one (\<lambda>q. cursor_id q = cursor_id r') (cursors ?M) = Some r'"
    using okM r'(1) by (intro select_one_unique) (auto simp: ledger_ok_def)
  then have "get_cursor service source key ?M = Inr (Some (cursor_of_row r'))"
    using ident r_in r'(2) by (simp add: get_cursor_def cursor_le_def)
  moreover have "decimal_value (cr_cursor_value r) = cr_cursor_numeric r"
    "decimal_value (cr_cursor_value r') = cr_cursor_numeric r'"
    using assms(1) okM r_in r'(1) by (auto simp: ledger_ok_def cursor_check_def)
  ultimately show ?thesis
    using r(2) r'(2) by (simp add: cursor_of_row_def cursor_le_def)
qed

text \<open>
  The branch of \<open>advance_cursor\<close> that reports two representations of one cursor number is
  dead: with the table's constraints, and the canonical form the argument is checked for, an
  equal number always has the equal text.
\<close>

theorem advance_cursor_no_conflict:
  assumes "ledger_ok L"
  shows "advance_cursor service source key v now L \<noteq> Inl (MessageIdentityConflict msg)"
proof
  assume conflict: "advance_cursor service source key v now L = Inl (MessageIdentityConflict msg)"
  obtain ident where ident: "identity3 service source key = Inr ident"
    using conflict
    by (cases "identity3 service source key")
      (auto simp: advance_cursor_def identity3_def Let_def split: if_splits)
  have v: "cursor_value v = Inr (v, decimal_value v)"
    using conflict ident
    by (auto simp: advance_cursor_def cursor_value_def Let_def split: if_splits)
  obtain r where r: "select_one (\<lambda>r. cursor_id r = ident) (cursors L) = Some r"
      "decimal_value v = cr_cursor_numeric r" "cr_cursor_value r \<noteq> v"
    using conflict ident v
    by (cases "select_one (\<lambda>r. cursor_id r = ident) (cursors L)")
      (auto simp: advance_cursor_def split: if_splits)
  then have "cursor_check r" using assms by (auto simp: ledger_ok_def dest: select_one_SomeD)
  then have "canonical_decimal (cr_cursor_value r)" "decimal_value (cr_cursor_value r) = decimal_value v"
    using r(2) by (auto simp: cursor_check_def canonical_decimal_def)
  moreover have "canonical_decimal v" using v by (auto simp: canonical_decimal_def cursor_value_Inr)
  ultimately show False using r(3) by (auto dest: canonical_decimal_unique)
qed

text \<open>
  A settled reservation is final: a row that is committed or released stays in the ledger
  unchanged, whatever operations follow, and a committed one never costs more than was reserved.
\<close>

theorem settled_usage_final:
  assumes "ledger_ok L" and "r \<in> set (reservations L)" and "us_status r \<noteq> RESERVED"
  shows "r \<in> set (reservations (fold ledger_step ops L)) \<and>
    row_cost r \<le> us_reserved_cost_microusd r"
proof -
  obtain r' where "r' \<in> set (reservations (fold ledger_step ops L))" "usage_le r r'"
    using ledger.run_le [OF assms(1), of ops] assms(2)
    by (auto simp: ledger_le_def dest: table_leD)
  moreover have "usage_check r" using assms by (simp add: ledger_ok_def)
  then have "row_cost r \<le> us_reserved_cost_microusd r"
    by (cases "us_status r") (auto simp: usage_check_def row_cost_def intro: mult_right_mono)
  ultimately show ?thesis using assms(3) by (auto simp: usage_le_def)
qed

text \<open>
  C12. Every operation keeps the tables' primary keys and CHECK constraints (migrations 005 and 013):
  identifiers that are more than spaces, cursors in canonical decimal form of at most twenty digits that are
  equal to their \<open>NUMERIC(20, 0)\<close> column, costs that are units times unit cost within BIGINT, the columns each
  status of a reservation requires, and budgets of known providers under their caps. The validators of the code
  establish them, so its rows are never refused; only the id of a campaign is left to the constraint itself
  (the constructor of the repository admits one id).
\<close>

theorem ledger_constraints_kept:
  assumes "ledger_ok L"
  shows "ledger_ok (fold ledger_step ops L)"
  using assms by (rule ledger.reach_inv)

subsection \<open>Witnesses\<close>

definition sample_campaign :: campaign_row where
  "sample_campaign = \<lparr>cb_source = ''openai'', cb_campaign_id = qualification_campaign_id,
     cb_budget_microusd = 1000, cb_historical_cost_microusd = 100,
     cb_historical_evidence_sha256 = replicate 64 (CHR ''a''), cb_registered_at = 0\<rparr>"

definition sample_ledger :: ledger where
  "sample_ledger = \<lparr>cursors = [], reservations = [], campaigns = [sample_campaign]\<rparr>"

definition sample_request :: "string \<Rightarrow> int \<Rightarrow> reserve_request" where
  "sample_request rid units = \<lparr>rq_service = ''kairos-llm-v1'', rq_source = ''openai'',
     rq_reservation_id = rid, rq_reserved_units = units, rq_unit_cost_microusd = 1,
     rq_monthly_budget_microusd = 2000, rq_requested_at = Some (Aware 1700000000000000)\<rparr>"

lemma sample_ledger_ok: "ledger_ok sample_ledger"
  by (simp add: ledger_ok_def spaces_only_def qualification_campaign_id_def sample_ledger_def sample_campaign_def campaign_check_def
      campaign_provider_caps_def max_bigint_def unique_by_def sha256_hex_def list_all_iff
      lower_hex_def)

text \<open>Reserve 600 of the remaining 900, be refused another 400, commit 500 of the 600.\<close>

definition sample_run :: "ledger_op list" where
  "sample_run = [ReserveOp (Some qualification_campaign_id) (sample_request ''a'' 600) 0,
     ReserveOp None (sample_request ''b'' 400) 0,
     CommitOp ''kairos-llm-v1'' ''openai'' ''a'' 500 5,
     AdvanceOp ''x-feed'' ''x'' ''since'' ''41'' 6,
     AdvanceOp ''x-feed'' ''x'' ''since'' ''42'' 7,
     AdvanceOp ''x-feed'' ''x'' ''since'' ''40'' 8]"

definition settled_ledger :: ledger where
  "settled_ledger = fold ledger_step sample_run sample_ledger"

lemma settled_ledger_ok: "ledger_ok settled_ledger"
  by (simp add: settled_ledger_def ledger.reach_inv sample_ledger_ok)

theorem campaign_budget_never_exceeded_witness:
  "provider_spend ''openai'' settled_ledger = 500 \<and>
   provider_spend ''openai'' settled_ledger + 100 \<le> 1000"
proof -
  have "provider_spend (cb_source sample_campaign) (fold ledger_step sample_run sample_ledger)
      + cb_historical_cost_microusd sample_campaign \<le> cb_budget_microusd sample_campaign"
    using campaign_budget_never_exceeded [OF sample_ledger_ok, of sample_campaign sample_run]
    by (simp add: sample_ledger_def sample_campaign_def provider_spend_def)
  moreover have "provider_spend ''openai'' settled_ledger = 500"
    by code_simp
  ultimately show ?thesis
    by (simp add: settled_ledger_def sample_campaign_def)
qed

theorem monthly_budget_never_exceeded_witness:
  "monthly_spend ''kairos-llm-v1'' ''openai'' (2023, 11, 1) settled_ledger = 500 \<and>
   monthly_spend ''kairos-llm-v1'' ''openai'' (2023, 11, 1) settled_ledger \<le> 2000"
proof -
  have "list_all (asks_at_most 2000 ''kairos-llm-v1'' ''openai'') sample_run"
    by (simp add: sample_run_def asks_at_most_def sample_request_def)
  moreover have "monthly_spend ''kairos-llm-v1'' ''openai'' (2023, 11, 1) sample_ledger \<le> 2000"
    by (simp add: sample_ledger_def monthly_spend_def)
  ultimately have "monthly_spend ''kairos-llm-v1'' ''openai'' (2023, 11, 1) settled_ledger \<le> 2000"
    unfolding settled_ledger_def using monthly_budget_never_exceeded sample_ledger_ok by blast
  moreover have "monthly_spend ''kairos-llm-v1'' ''openai'' (2023, 11, 1) settled_ledger = 500"
    by code_simp
  ultimately show ?thesis by simp
qed

definition reserved_ledger :: ledger where
  "reserved_ledger = ledger_step (ReserveOp None (sample_request ''a'' 600) 0) sample_ledger"

lemma reserved_ledger_result:
  "\<exists>u. reserve_usage None (sample_request ''a'' 600) 0 sample_ledger = Inr (u, reserved_ledger)"
proof -
  have "\<not> isl (reserve_usage None (sample_request ''a'' 600) 0 sample_ledger)" by code_simp
  then show ?thesis
    by (cases "reserve_usage None (sample_request ''a'' 600) 0 sample_ledger")
      (auto simp: reserved_ledger_def)
qed

theorem reserve_usage_replay_witness:
  "\<exists>u'. reserve_usage None (sample_request ''a'' 600) 9
      (fold ledger_step [CommitOp ''kairos-llm-v1'' ''openai'' ''a'' 500 5] reserved_ledger)
    = Inr (u', fold ledger_step [CommitOp ''kairos-llm-v1'' ''openai'' ''a'' 500 5] reserved_ledger)
    \<and> ur_reserved_units u' = 600"
proof -
  obtain u where "reserve_usage None (sample_request ''a'' 600) 0 sample_ledger = Inr (u, reserved_ledger)"
    using reserved_ledger_result by blast
  moreover have "rq_requested_at (sample_request ''a'' 600) = Some (Aware 1700000000000000)"
    "rq_reserved_units (sample_request ''a'' 600) = 600"
    by (simp_all add: sample_request_def)
  ultimately show ?thesis
    using reserve_usage_replay [OF sample_ledger_ok] by metis
qed

lemma decimal_42: "decimal_value ''42'' = 42"
  by code_simp

theorem cursor_never_regresses_witness:
  "\<exists>c'. get_cursor ''x-feed'' ''x'' ''since''
      (fold ledger_step [AdvanceOp ''x-feed'' ''x'' ''since'' ''43'' 9] settled_ledger) = Inr (Some c') \<and>
    42 \<le> decimal_value (sc_cursor_value c')"
proof -
  have "get_cursor ''x-feed'' ''x'' ''since'' settled_ledger =
      Inr (Some \<lparr>sc_service = ''x-feed'', sc_source = ''x'', sc_cursor_key = ''since'',
        sc_cursor_value = ''42'', sc_updated_at = 7\<rparr>)"
    by code_simp
  from cursor_never_regresses [OF settled_ledger_ok this, of "[AdvanceOp ''x-feed'' ''x'' ''since'' ''43'' 9]"]
  show ?thesis by (simp add: decimal_42 del: fold_simps)
qed

theorem advance_cursor_no_conflict_witness:
  "advance_cursor ''x-feed'' ''x'' ''since'' ''42'' 9 settled_ledger = Inr (False, settled_ledger) \<and>
   advance_cursor ''x-feed'' ''x'' ''since'' ''42'' 9 settled_ledger \<noteq>
     Inl (MessageIdentityConflict ''equal source cursor has a different representation'')"
proof -
  have "advance_cursor ''x-feed'' ''x'' ''since'' ''42'' 9 settled_ledger = Inr (False, settled_ledger)"
    by code_simp
  then show ?thesis using advance_cursor_no_conflict [OF settled_ledger_ok] by blast
qed

definition settled_row :: usage_row where
  "settled_row = committed_row 500 5
     (fresh_usage (''kairos-llm-v1'', ''openai'', ''a'') (2023, 11, 1) 600 1 1700000000000000)"

theorem settled_usage_final_witness:
  "settled_row \<in> set (reservations
     (fold ledger_step [ReleaseOp ''kairos-llm-v1'' ''openai'' ''a'' 9] settled_ledger)) \<and>
   row_cost settled_row \<le> us_reserved_cost_microusd settled_row"
proof -
  have "reservations settled_ledger = [settled_row]" by code_simp
  then have "settled_row \<in> set (reservations settled_ledger)" by simp
  moreover have "us_status settled_row \<noteq> RESERVED"
    by (simp add: settled_row_def committed_row_def)
  ultimately show ?thesis using settled_usage_final [OF settled_ledger_ok] by blast
qed

theorem ledger_constraints_kept_witness:
  "ledger_ok (fold ledger_step sample_run sample_ledger)"
  by (rule ledger_constraints_kept [OF sample_ledger_ok])

end
