(* ===== verification/UsageBudget.thy ===== *)
theory UsageBudget
  imports SourceState
begin

text \<open>
  \<open>kairos_persistence/usage_budget.py\<close>: the adapters through which the LLM services reserve and
  settle paid calls. \<open>_CostRepository\<close> is the locale \<open>cost_repository\<close>; \<open>DurableLLMUsageBudget\<close> takes
  its repository from a factory, so its operations are functions of the repository's methods and
  of the outcome \<open>started\<close> of \<open>runtime.start()\<close>. \<open>_campaign_repository\<close> makes both adapters use
  \<open>SourceStateRepository\<close> under the shared campaign identity.
\<close>

definition llm_budget_service :: string where
  "llm_budget_service = ''kairos-llm-v1''"

text \<open>The request both adapters send: one reserved unit is one microdollar, at the current time.\<close>

definition llm_request :: "string \<Rightarrow> string \<Rightarrow> int \<Rightarrow> int \<Rightarrow> reserve_request" where
  "llm_request provider reservation_id reserved_microusd monthly_budget_microusd =
     \<lparr>rq_service = llm_budget_service, rq_source = provider, rq_reservation_id = reservation_id,
      rq_reserved_units = reserved_microusd, rq_unit_cost_microusd = 1,
      rq_monthly_budget_microusd = monthly_budget_microusd, rq_requested_at = None\<rparr>"

type_synonym ('r, 's) reserve_method = "reserve_request \<Rightarrow> timestamp \<Rightarrow> 's \<Rightarrow> ('r \<times> 's) res"

type_synonym ('r, 's) commit_method =
  "string \<Rightarrow> string \<Rightarrow> string \<Rightarrow> int \<Rightarrow> timestamp \<Rightarrow> 's \<Rightarrow> ('r \<times> 's) res"

definition durable_llm_reserve ::
  "('r, 's) reserve_method \<Rightarrow> unit res \<Rightarrow> string \<Rightarrow> string \<Rightarrow> int \<Rightarrow> int \<Rightarrow> timestamp \<Rightarrow> 's
     \<Rightarrow> (unit \<times> 's) res" where
  "durable_llm_reserve reserve started provider rid reserved_microusd budget now s =
     rbind started (\<lambda>_.
     rbind (reserve (llm_request provider rid reserved_microusd budget) now s) (\<lambda>(u, s').
       Inr ((), s')))"

definition durable_llm_commit ::
  "('r, 's) commit_method \<Rightarrow> unit res \<Rightarrow> string \<Rightarrow> string \<Rightarrow> int \<Rightarrow> timestamp \<Rightarrow> 's \<Rightarrow> (unit \<times> 's) res" where
  "durable_llm_commit commit started provider rid actual_microusd now s =
     rbind started (\<lambda>_.
     rbind (commit llm_budget_service provider rid actual_microusd now s) (\<lambda>(u, s').
       Inr ((), s')))"

text \<open>
  \<open>CampaignLLMUsageBudget\<close>: its constructor refuses a repository without the shared identity, and
  its operations call the repository directly.
\<close>

definition campaign_llm_budget :: "string option \<Rightarrow> string option res" where
  "campaign_llm_budget repo =
     (if repo \<noteq> Some qualification_campaign_id
      then Inl (ValueError ''LLM qualification requires the shared campaign identity'')
      else Inr repo)"

definition campaign_llm_reserve ::
  "string option \<Rightarrow> string \<Rightarrow> string \<Rightarrow> int \<Rightarrow> int \<Rightarrow> timestamp \<Rightarrow> ledger \<Rightarrow> (unit \<times> ledger) res" where
  "campaign_llm_reserve repo provider rid reserved_microusd budget now L =
     rbind (reserve_usage repo (llm_request provider rid reserved_microusd budget) now L) (\<lambda>(u, L').
       Inr ((), L'))"

definition campaign_llm_commit ::
  "string \<Rightarrow> string \<Rightarrow> int \<Rightarrow> timestamp \<Rightarrow> ledger \<Rightarrow> (unit \<times> ledger) res" where
  "campaign_llm_commit provider rid actual_microusd now L =
     rbind (commit_usage llm_budget_service provider rid actual_microusd now L) (\<lambda>(u, L').
       Inr ((), L'))"

text \<open>The default factory: \<open>SourceStateRepository(pool, campaign_id=QUALIFICATION_CAMPAIGN_ID)\<close>.\<close>

definition shared_llm_reserve ::
  "unit res \<Rightarrow> string \<Rightarrow> string \<Rightarrow> int \<Rightarrow> int \<Rightarrow> timestamp \<Rightarrow> ledger \<Rightarrow> (unit \<times> ledger) res" where
  "shared_llm_reserve = durable_llm_reserve (reserve_usage (Some qualification_campaign_id))"

definition shared_llm_commit ::
  "unit res \<Rightarrow> string \<Rightarrow> string \<Rightarrow> int \<Rightarrow> timestamp \<Rightarrow> ledger \<Rightarrow> (unit \<times> ledger) res" where
  "shared_llm_commit = durable_llm_commit commit_usage"

subsection \<open>What the adapters need of a cost repository\<close>

text \<open>
  \<open>charge\<close> is what a reservation costs its provider now and at what unit price; \<open>total\<close> is the
  provider's whole charge.
\<close>

locale cost_repository =
  fixes reserve :: "('r, 's) reserve_method"
    and commit :: "('r, 's) commit_method"
    and ok :: "'s \<Rightarrow> bool"
    and charge :: "string \<Rightarrow> string \<Rightarrow> string \<Rightarrow> 's \<Rightarrow> (int \<times> int) option"
    and total :: "string \<Rightarrow> 's \<Rightarrow> int"
  assumes reserve_ok: "ok s \<Longrightarrow> reserve q now s = Inr (u, s') \<Longrightarrow> ok s'"
    and reserve_new: "ok s \<Longrightarrow> reserve q now s = Inr (u, s')
      \<Longrightarrow> charge (rq_service q) (rq_source q) (rq_reservation_id q) s = None
      \<Longrightarrow> charge (rq_service q) (rq_source q) (rq_reservation_id q) s' =
            Some (rq_reserved_units q * rq_unit_cost_microusd q, rq_unit_cost_microusd q) \<and>
          total (rq_source q) s' = total (rq_source q) s + rq_reserved_units q * rq_unit_cost_microusd q"
    and commit_settles: "ok s \<Longrightarrow> commit service source rid n now s = Inr (u, s')
      \<Longrightarrow> charge service source rid s = Some (c, price)
      \<Longrightarrow> charge service source rid s' = Some (n * price, price) \<and> 0 \<le> n \<and> n * price \<le> c \<and>
          total source s' = total source s - c + n * price"
begin

lemma charge_settles:
  assumes "ok s" and "charge llm_budget_service provider rid s = None"
    and "durable_llm_reserve reserve st provider rid reserved budget now s = Inr (x, s1)"
    and "durable_llm_commit commit st2 provider rid actual now2 s1 = Inr (y, s2)"
  shows "total provider s1 = total provider s + reserved \<and>
    total provider s2 = total provider s + actual \<and> 0 \<le> actual \<and> actual \<le> reserved"
proof -
  let ?q = "llm_request provider rid reserved budget"
  obtain u where r: "reserve ?q now s = Inr (u, s1)"
    using assms(3) by (auto simp: durable_llm_reserve_def rbind_eq_Inr)
  obtain v where c: "commit llm_budget_service provider rid actual now2 s1 = Inr (v, s2)"
    using assms(4) by (auto simp: durable_llm_commit_def rbind_eq_Inr)
  have "charge llm_budget_service provider rid s1 = Some (reserved, 1)"
    and "total provider s1 = total provider s + reserved"
    using reserve_new [OF assms(1) r] assms(2) by (simp_all add: llm_request_def)
  with commit_settles [OF reserve_ok [OF assms(1) r] c] show ?thesis by auto
qed

end

subsection \<open>The source-state repository is one\<close>

definition usage_charge :: "string \<Rightarrow> string \<Rightarrow> string \<Rightarrow> ledger \<Rightarrow> (int \<times> int) option" where
  "usage_charge service source rid L =
     map_option (\<lambda>r. (row_cost r, us_unit_cost_microusd r))
       (select_one (\<lambda>r. usage_id r = (strip service, strip source, strip rid)) (reservations L))"

definition usage_total :: "string \<Rightarrow> ledger \<Rightarrow> int" where
  "usage_total source L = provider_spend (provider_source (strip source)) L"

lemma source_of_provider: "source \<in> set (provider_sources (provider_source source))"
  by (auto simp: provider_sources_def provider_source_def)

lemma usage_selected:
  assumes "ledger_ok L" and "r \<in> set (reservations L)"
    and "usage_id r = (strip service, strip source, strip rid)"
  shows "usage_charge service source rid L = Some (row_cost r, us_unit_cost_microusd r)"
  using usage_row_found [OF assms(1,2)] assms(3) by (simp add: usage_charge_def)

lemma commit_usage_row:
  assumes "ledger_ok L" and "commit_usage service source rid n now L = Inr (u, L')"
  obtains row where "row \<in> set (reservations L)"
    and "usage_id row = (strip service, strip source, strip rid)" and "0 \<le> n" and "n \<le> us_reserved_units row"
    and "us_status row \<noteq> RELEASED" and "us_status row = COMMITTED \<Longrightarrow> us_actual_units row = Some n \<and> L' = L"
    and "us_status row = RESERVED \<Longrightarrow>
      L' = L\<lparr>reservations := update_where (\<lambda>r. usage_id r = usage_id row) (committed_row n now) (reservations L)\<rparr>"
proof -
  let ?ident = "(strip service, strip source, strip rid)"
  obtain row where "0 \<le> n"
    and sel: "select_one (\<lambda>r. usage_id r = ?ident) (reservations L) = Some row"
    and body: "n \<le> us_reserved_units row" "us_status row \<noteq> RELEASED"
      "us_status row = COMMITTED \<Longrightarrow> us_actual_units row = Some n \<and> L' = L"
      "us_status row = RESERVED \<Longrightarrow> L' = L\<lparr>reservations := update_where (\<lambda>r. usage_id r = ?ident)
          (committed_row n now) (reservations L)\<rparr>"
    using assms(2) unfolding commit_usage_def rbind_eq_Inr nonnegative_int_Inr case_option_eq_Inr identity3_Inr
    by (auto split: if_splits)
  with sel that [of row] show thesis by (auto dest: select_one_SomeD)
qed

interpretation shared_ledger:
  cost_repository "reserve_usage (Some qualification_campaign_id)" commit_usage ledger_ok
    usage_charge usage_total
proof
  fix L L' u q now
  assume ok: "ledger_ok L" and r: "reserve_usage (Some qualification_campaign_id) q now L = Inr (u, L')"
  show "ledger_ok L'"
    using ledger_step_ok [OF ok, of "ReserveOp (Some qualification_campaign_id) q now"] r by simp
  assume new: "usage_charge (rq_service q) (rq_source q) (rq_reservation_id q) L = None"
  from r show "usage_charge (rq_service q) (rq_source q) (rq_reservation_id q) L' =
        Some (rq_reserved_units q * rq_unit_cost_microusd q, rq_unit_cost_microusd q) \<and>
      usage_total (rq_source q) L' =
        usage_total (rq_source q) L + rq_reserved_units q * rq_unit_cost_microusd q"
  proof (cases rule: reserve_usage_outcome)
    case (replay row)
    with new show ?thesis by (simp add: usage_charge_def request_id_def)
  next
    case (fresh t)
    have "row_cost (request_row q t) = rq_reserved_units q * rq_unit_cost_microusd q"
      "us_unit_cost_microusd (request_row q t) = rq_unit_cost_microusd q"
      "us_source (request_row q t) = strip (rq_source q)"
      by (simp_all add: request_row_def fresh_usage_def row_cost_def request_id_def)
    with fresh(1,4) show ?thesis
      by (simp add: usage_charge_def usage_total_def provider_spend_def select_one_insert
          source_of_provider request_id_def [symmetric])
  qed
next
  fix L L' u service source rid n now c price
  assume ok: "ledger_ok L" and commit: "commit_usage service source rid n now L = Inr (u, L')"
    and charged: "usage_charge service source rid L = Some (c, price)"
  from ok commit show "usage_charge service source rid L' = Some (n * price, price) \<and>
      0 \<le> n \<and> n * price \<le> c \<and> usage_total source L' = usage_total source L - c + n * price"
  proof (rule commit_usage_row)
    fix row
    assume row: "row \<in> set (reservations L)"
      "usage_id row = (strip service, strip source, strip rid)" "0 \<le> n" "n \<le> us_reserved_units row"
      "us_status row \<noteq> RELEASED" "us_status row = COMMITTED \<Longrightarrow> us_actual_units row = Some n \<and> L' = L"
      "us_status row = RESERVED \<Longrightarrow>
        L' = L\<lparr>reservations := update_where (\<lambda>r. usage_id r = usage_id row) (committed_row n now) (reservations L)\<rparr>"
    have c: "c = row_cost row" "price = us_unit_cost_microusd row"
      using usage_selected [OF ok row(1,2)] charged by simp_all
    have check: "usage_check row" using ok row(1) by (simp add: ledger_ok_def)
    show ?thesis
    proof (cases "us_status row")
      case RESERVED
      have cost: "row_cost (committed_row n now row) = n * price"
        "us_unit_cost_microusd (committed_row n now row) = price"
        "us_source (committed_row n now row) = strip source" "us_source row = strip source"
        using c row(2) by (simp_all add: committed_row_def row_cost_def usage_id_def)
      have "n * price \<le> c"
        using row_cost_committed [OF check RESERVED row(4), of now] cost(1) c(1) by simp
      moreover have "usage_total source L' = usage_total source L - c + n * price"
        using sum_where_update_eq [of usage_id "reservations L" row row_cost
            "\<lambda>r. us_source r \<in> set (provider_sources (provider_source (strip source)))" "committed_row n now"]
          ok row(1,7) RESERVED cost c source_of_provider
        by (simp add: usage_total_def provider_spend_def ledger_ok_def)
      moreover have "usage_charge service source rid L' = Some (n * price, price)"
        using row RESERVED cost usage_row_found [OF ok row(1)]
        by (simp add: usage_charge_def select_one_update)
      ultimately show ?thesis using row(3) by blast
    next
      case COMMITTED
      with row(3,6) check c charged show ?thesis
        by (auto simp: usage_check_def row_cost_def)
    qed (use row(5) in simp)
  qed
qed

section \<open>Properties\<close>

text \<open>
  One reserved unit is one microdollar of the provider's shared cap: a new reservation made
  through the durable LLM budget raises the provider's charge in the ledger by exactly the amount
  reserved, and settling it leaves exactly the actual cost charged, which never exceeds the
  reservation.
\<close>

theorem llm_reservation_settles:
  assumes "ledger_ok L" and "usage_charge llm_budget_service provider rid L = None"
    and "shared_llm_reserve started provider rid reserved budget now L = Inr (x, L1)"
    and "shared_llm_commit started2 provider rid actual now2 L1 = Inr (y, L2)"
  shows "usage_total provider L1 = usage_total provider L + reserved \<and>
    usage_total provider L2 = usage_total provider L + actual \<and> 0 \<le> actual \<and> actual \<le> reserved"
  using assms unfolding shared_llm_reserve_def shared_llm_commit_def
  by (rule shared_ledger.charge_settles)

text \<open>
  The probe adapter and the durable adapter share one cap: with the shared campaign identity
  they make the same transition of the ledger, and neither reserves anything without an adopted
  campaign for the provider, within whose budget the charge then stays.
\<close>

theorem llm_adapters_share_campaign:
  assumes "campaign_llm_budget repo = Inr repo" and "ledger_ok L"
    and "usage_charge llm_budget_service provider rid L = None"
    and "campaign_llm_reserve repo provider rid reserved budget now L = Inr (x, L1)"
  shows "shared_llm_reserve (Inr ()) provider rid reserved budget now L = Inr (x, L1) \<and>
    (\<exists>c\<in>set (campaigns L). cb_source c = provider_source (strip provider) \<and>
       usage_total provider L1 + cb_historical_cost_microusd c \<le> min budget (cb_budget_microusd c))"
proof
  let ?q = "llm_request provider rid reserved budget"
  have repo: "repo = Some qualification_campaign_id"
    using assms(1) by (simp add: campaign_llm_budget_def split: if_splits)
  show same: "shared_llm_reserve (Inr ()) provider rid reserved budget now L = Inr (x, L1)"
    using assms(4) repo by (simp add: shared_llm_reserve_def durable_llm_reserve_def campaign_llm_reserve_def)
  obtain u where r: "reserve_usage (Some qualification_campaign_id) ?q now L = Inr (u, L1)"
    using assms(4) repo by (auto simp: campaign_llm_reserve_def rbind_eq_Inr)
  have total: "usage_total provider L1 = usage_total provider L + reserved"
    using shared_ledger.reserve_new [OF assms(2) r] assms(3) by (simp add: llm_request_def)
  have id: "request_id ?q = (strip llm_budget_service, strip provider, strip rid)"
    by (simp add: request_id_def llm_request_def)
  from r have "select_one (\<lambda>c. cb_source c = provider_source (strip provider)) (campaigns L) \<noteq> None"
    unfolding reserve_usage_def rbind_eq_Inr
    by (auto simp: reserve_usage_tx_def identity3_Inr llm_request_def Let_def split: if_splits)
  then obtain c where c: "select_one (\<lambda>c. cb_source c = provider_source (strip provider)) (campaigns L) = Some c"
    by blast
  from r show "\<exists>c\<in>set (campaigns L). cb_source c = provider_source (strip provider) \<and>
       usage_total provider L1 + cb_historical_cost_microusd c \<le> min budget (cb_budget_microusd c)"
  proof (cases rule: reserve_usage_outcome)
    case (replay row)
    with assms(3) id show ?thesis by (simp add: usage_charge_def)
  next
    case (fresh t)
    from fresh(3) c id total have "usage_total provider L1 + cb_historical_cost_microusd c
        \<le> min budget (cb_budget_microusd c)"
      by (simp add: budget_allows_def usage_total_def llm_request_def Let_def)
    with c show ?thesis by (auto dest: select_one_SomeD)
  qed
qed

definition llm_ledger :: ledger where
  "llm_ledger = settle sample_ledger (shared_llm_reserve (Inr ()) ''openai'' ''call-1'' 500 9000 7 sample_ledger)"

lemma llm_ledger_result:
  "shared_llm_reserve (Inr ()) ''openai'' ''call-1'' 500 9000 7 sample_ledger = Inr ((), llm_ledger)"
  by code_simp

theorem llm_reservation_settles_witness:
  "\<exists>L2. shared_llm_commit (Inr ()) ''openai'' ''call-1'' 120 8 llm_ledger = Inr ((), L2) \<and>
     usage_total ''openai'' L2 = usage_total ''openai'' sample_ledger + 120"
proof -
  have "\<not> isl (shared_llm_commit (Inr ()) ''openai'' ''call-1'' 120 8 llm_ledger)" by code_simp
  then obtain L2 where L2: "shared_llm_commit (Inr ()) ''openai'' ''call-1'' 120 8 llm_ledger = Inr ((), L2)"
    by (cases "shared_llm_commit (Inr ()) ''openai'' ''call-1'' 120 8 llm_ledger") auto
  have "usage_charge llm_budget_service ''openai'' ''call-1'' sample_ledger = None" by code_simp
  from llm_reservation_settles [OF sample_ledger_ok this llm_ledger_result L2] L2 show ?thesis by simp
qed

theorem llm_adapters_share_campaign_witness:
  "\<exists>c\<in>set (campaigns sample_ledger). cb_source c = ''openai'' \<and>
     usage_total ''openai'' llm_ledger + cb_historical_cost_microusd c \<le> min 9000 (cb_budget_microusd c)"
proof -
  have c: "campaign_llm_budget (Some qualification_campaign_id) = Inr (Some qualification_campaign_id)"
    by code_simp
  have n: "usage_charge llm_budget_service ''openai'' ''call-1'' sample_ledger = None" by code_simp
  have r: "campaign_llm_reserve (Some qualification_campaign_id) ''openai'' ''call-1'' 500 9000 7 sample_ledger
      = Inr ((), llm_ledger)"
    by code_simp
  have "provider_source (strip ''openai'') = ''openai''" by code_simp
  with llm_adapters_share_campaign [OF c sample_ledger_ok n r] show ?thesis by simp
qed

end
