(* ===== verification/MutationBudget.thy ===== *)
theory MutationBudget
  imports SqlTable
begin

text \<open>
  \<open>kairos_persistence/mutation_budget.py\<close> with the tables of migration 011: a sliding-window
  limit on the mutations sent to one venue account. \<open>reserve_mutation\<close> is
  \<open>ExecutionMutationBudgetRepository.reserve\<close>; its two clock arguments are the values
  \<open>clock_timestamp()\<close> returns when the window is counted and when the row is inserted, and the
  advisory lock of the scope makes the whole transaction one step.
\<close>

subsection \<open>Data\<close>

definition default_mutation_capacity :: int where
  "default_mutation_capacity = 30"

definition default_mutation_window_ms :: int where
  "default_mutation_window_ms = 60000"

definition default_compensation_reserve :: int where
  "default_compensation_reserve = 4"

type_synonym venue_scope = "string \<times> string \<times> string"

record mutation_reservation =
  mv_scope :: venue_scope
  mv_effect_id :: string
  mv_operation :: string
  mv_compensation :: bool
  mv_occurred_at :: "timestamp option"
  mv_granted :: bool
  mv_replay :: bool
  mv_remaining :: int

record scope_row =
  ms_scope :: venue_scope
  ms_capacity :: int
  ms_window_ms :: int
  ms_compensation_reserve :: int

record mutation_row =
  mr_scope :: venue_scope
  mr_effect_id :: string
  mr_operation :: string
  mr_compensation :: bool
  mr_occurred_at :: timestamp

record mutation_db =
  scopes :: "scope_row list"
  mutations :: "mutation_row list"

record mutation_request =
  mq_environment :: string
  mq_account_id :: string
  mq_exchange :: string
  mq_effect_id :: string
  mq_operation :: string
  mq_compensation :: bool
  mq_capacity :: int
  mq_window_ms :: int
  mq_compensation_reserve :: int

definition mutation_key :: "mutation_row \<Rightarrow> venue_scope \<times> string" where
  "mutation_key r = (mr_scope r, mr_effect_id r)"

definition mq_scope :: "mutation_request \<Rightarrow> venue_scope" where
  "mq_scope q = (mq_environment q, mq_account_id q, mq_exchange q)"

subsection \<open>The operation\<close>

definition normalized_identifier :: "string \<Rightarrow> string res" where
  "normalized_identifier value =
     (if value = [] \<or> value \<noteq> strip value
      then Inl (ValueError '' must be a normalized non-empty string'') else Inr value)"

text \<open>
  \<open>_used\<close>: rows of the scope with \<open>occurred_at > clock_timestamp() - window_ms\<close> milliseconds.
\<close>

definition used_slots :: "venue_scope \<Rightarrow> int \<Rightarrow> timestamp \<Rightarrow> mutation_row list \<Rightarrow> int" where
  "used_slots sc window_ms clock t =
     count_where (\<lambda>r. mr_scope r = sc \<and> mr_occurred_at r > clock - window_ms * 1000) t"

definition validate_mutation :: "mutation_request \<Rightarrow> unit res" where
  "validate_mutation q =
     rbind (normalized_identifier (mq_environment q)) (\<lambda>_.
     rbind (normalized_identifier (mq_account_id q)) (\<lambda>_.
     rbind (normalized_identifier (mq_exchange q)) (\<lambda>_.
     rbind (normalized_identifier (mq_effect_id q)) (\<lambda>_.
     rbind (normalized_identifier (mq_operation q)) (\<lambda>_.
     if length (mq_effect_id q) > 256 \<or> length (mq_operation q) > 64
     then Inl (ValueError ''effect_id/operation exceed their maximum length'')
     else if mq_capacity q \<le> 0 \<or> mq_capacity q > default_mutation_capacity
     then Inl (ValueError ''capacity must be an integer in [1, 30]'')
     else if mq_window_ms q < default_mutation_window_ms
     then Inl (ValueError ''window_ms must be an integer of at least 60000'')
     else if mq_compensation_reserve q < default_compensation_reserve
        \<or> mq_compensation_reserve q \<ge> mq_capacity q
     then Inl (ValueError ''compensation_reserve must be at least 4 and below capacity'')
     else Inr ())))))"

definition requested_scope_row :: "mutation_request \<Rightarrow> scope_row" where
  "requested_scope_row q = \<lparr>ms_scope = mq_scope q, ms_capacity = mq_capacity q,
     ms_window_ms = mq_window_ms q, ms_compensation_reserve = mq_compensation_reserve q\<rparr>"

text \<open>\<open>INSERT .. ON CONFLICT DO NOTHING\<close> of the scope's configuration.\<close>

definition ensure_scope :: "mutation_request \<Rightarrow> mutation_db \<Rightarrow> mutation_db" where
  "ensure_scope q d =
     (case select_one (\<lambda>r. ms_scope r = mq_scope q) (scopes d) of
        Some r \<Rightarrow> d
      | None \<Rightarrow> d\<lparr>scopes := insert_row (requested_scope_row q) (scopes d)\<rparr>)"

definition mutation_result ::
  "mutation_request \<Rightarrow> timestamp option \<Rightarrow> bool \<Rightarrow> bool \<Rightarrow> int \<Rightarrow> mutation_reservation" where
  "mutation_result q occurred granted replay remaining =
     \<lparr>mv_scope = mq_scope q, mv_effect_id = mq_effect_id q, mv_operation = mq_operation q,
      mv_compensation = mq_compensation q, mv_occurred_at = occurred, mv_granted = granted,
      mv_replay = replay, mv_remaining = remaining\<rparr>"

definition requested_mutation_row :: "mutation_request \<Rightarrow> timestamp \<Rightarrow> mutation_row" where
  "requested_mutation_row q t = \<lparr>mr_scope = mq_scope q, mr_effect_id = mq_effect_id q,
     mr_operation = mq_operation q, mr_compensation = mq_compensation q, mr_occurred_at = t\<rparr>"

definition reserve_slot ::
  "mutation_request \<Rightarrow> timestamp \<Rightarrow> timestamp \<Rightarrow> mutation_db
     \<Rightarrow> (mutation_reservation \<times> mutation_db) res" where
  "reserve_slot q t_count t_insert d =
     (let used = used_slots (mq_scope q) (mq_window_ms q) t_count (mutations d);
          remaining_before = max (mq_capacity q - used) 0
      in case select_one (\<lambda>r. mutation_key r = (mq_scope q, mq_effect_id q)) (mutations d) of
        Some existing \<Rightarrow>
          if mr_operation existing \<noteq> mq_operation q \<or> mr_compensation existing \<noteq> mq_compensation q
          then Inl (ValueError ''effect_id was reused with different mutation semantics'')
          else Inr (mutation_result q (Some (mr_occurred_at existing)) True True remaining_before, d)
      | None \<Rightarrow>
          let minimum_before = (if mq_compensation q then 1 else mq_compensation_reserve q + 1)
          in if remaining_before < minimum_before
             then Inr (mutation_result q None False False remaining_before, d)
             else Inr (mutation_result q (Some t_insert) True False (remaining_before - 1),
                    d\<lparr>mutations := insert_row (requested_mutation_row q t_insert) (mutations d)\<rparr>))"

definition reserve_mutation ::
  "mutation_request \<Rightarrow> timestamp \<Rightarrow> timestamp \<Rightarrow> mutation_db
     \<Rightarrow> (mutation_reservation \<times> mutation_db) res" where
  "reserve_mutation q t_count t_insert d0 =
     rbind (validate_mutation q) (\<lambda>_.
     if \<not> int4 (mq_window_ms q) then Inl (DataError ''value out of int32 range'')
     else let d = ensure_scope q d0 in
       case select_one (\<lambda>r. ms_scope r = mq_scope q) (scopes d) of
         None \<Rightarrow> Inl (RuntimeError ''mutation budget scope disappeared while locked'')
       | Some configured \<Rightarrow>
           if ms_capacity configured \<noteq> mq_capacity q \<or> ms_window_ms configured \<noteq> mq_window_ms q
              \<or> ms_compensation_reserve configured \<noteq> mq_compensation_reserve q
           then Inl (ValueError ''mutation budget configuration conflicts with durable scope'')
           else reserve_slot q t_count t_insert d)"

subsection \<open>Runs\<close>

text \<open>One call: its request and its two clock readings.\<close>

type_synonym mutation_op = "mutation_request \<times> timestamp \<times> timestamp"

definition mutation_step :: "mutation_op \<Rightarrow> mutation_db \<Rightarrow> mutation_db" where
  "mutation_step op d = (case op of (q, t_count, t_insert) \<Rightarrow>
     settle d (reserve_mutation q t_count t_insert d))"

text \<open>Within one serialized call the clock does not go back.\<close>

definition clock_forward :: "mutation_op \<Rightarrow> bool" where
  "clock_forward op \<longleftrightarrow> (case op of (q, t_count, t_insert) \<Rightarrow> t_count \<le> t_insert)"

text \<open>Mutations of a scope in the half-open window of \<open>window_ms\<close> milliseconds that ends at \<open>t\<close>.\<close>

definition in_window :: "venue_scope \<Rightarrow> int \<Rightarrow> timestamp \<Rightarrow> mutation_row list \<Rightarrow> int" where
  "in_window sc window_ms t rows =
     count_where (\<lambda>r. mr_scope r = sc \<and> t - window_ms * 1000 < mr_occurred_at r
        \<and> mr_occurred_at r \<le> t) rows"

definition scope_check :: "scope_row \<Rightarrow> bool" where
  "scope_check s \<longleftrightarrow> 0 < ms_capacity s \<and> ms_capacity s \<le> 30 \<and> 60000 \<le> ms_window_ms s \<and>
     4 \<le> ms_compensation_reserve s \<and> ms_compensation_reserve s < ms_capacity s"

definition mutation_db_ok :: "mutation_db \<Rightarrow> bool" where
  "mutation_db_ok d \<longleftrightarrow>
     unique_by ms_scope (scopes d) \<and> (\<forall>s\<in>set (scopes d). scope_check s) \<and>
     unique_by mutation_key (mutations d) \<and>
     (\<forall>r\<in>set (mutations d). \<exists>s\<in>set (scopes d). ms_scope s = mr_scope r) \<and>
     (\<forall>s\<in>set (scopes d). \<forall>t. in_window (ms_scope s) (ms_window_ms s) t (mutations d) \<le> ms_capacity s)"

lemma ensure_scope_mutations [simp]: "mutations (ensure_scope q d) = mutations d"
  by (simp add: ensure_scope_def split: option.splits)

lemma reserve_mutation_slot:
  assumes "reserve_mutation q tc ti d = Inr (v, d')"
  shows "scope_check (requested_scope_row q)"
    and "requested_scope_row q \<in> set (scopes (ensure_scope q d))"
    and "reserve_slot q tc ti (ensure_scope q d) = Inr (v, d')"
proof -
  obtain s where s: "select_one (\<lambda>r. ms_scope r = mq_scope q) (scopes (ensure_scope q d)) = Some s"
    and valid: "validate_mutation q = Inr ()"
    and body: "(if ms_capacity s \<noteq> mq_capacity q \<or> ms_window_ms s \<noteq> mq_window_ms q
          \<or> ms_compensation_reserve s \<noteq> mq_compensation_reserve q
        then Inl (ValueError ''mutation budget configuration conflicts with durable scope'')
        else reserve_slot q tc ti (ensure_scope q d)) = Inr (v, d')"
    using assms unfolding reserve_mutation_def rbind_eq_Inr Let_def if_Inl_eq_Inr
      case_option_eq_Inr by auto
  from valid show "scope_check (requested_scope_row q)"
    by (auto simp: validate_mutation_def rbind_eq_Inr scope_check_def requested_scope_row_def
        default_mutation_capacity_def default_mutation_window_ms_def
        default_compensation_reserve_def split: if_splits)
  from body show "reserve_slot q tc ti (ensure_scope q d) = Inr (v, d')"
    by (auto split: if_splits)
  have "s = requested_scope_row q"
    using body s by (auto simp: requested_scope_row_def dest!: select_one_SomeD split: if_splits)
  with s show "requested_scope_row q \<in> set (scopes (ensure_scope q d))"
    by (auto dest: select_one_SomeD)
qed

lemma ensure_scope_ok:
  assumes "mutation_db_ok d" and "scope_check (requested_scope_row q)"
  shows "mutation_db_ok (ensure_scope q d)"
proof (cases "select_one (\<lambda>r. ms_scope r = mq_scope q) (scopes d)")
  case None
  then have fresh: "\<forall>r\<in>set (scopes d). ms_scope r \<noteq> mq_scope q"
    by (simp add: select_one_None_iff)
  then have "\<forall>r\<in>set (mutations d). mr_scope r \<noteq> mq_scope q"
    using assms(1) by (auto simp: mutation_db_ok_def)
  then have "in_window (mq_scope q) w t (mutations d) = 0" for w t
    by (simp add: in_window_def count_where_def filter_empty_conv)
  moreover have "ms_scope (requested_scope_row q) = mq_scope q"
    by (simp add: requested_scope_row_def)
  ultimately show ?thesis
    using assms None fresh
    by (auto simp: ensure_scope_def mutation_db_ok_def scope_check_def)
qed (use assms in \<open>simp add: ensure_scope_def\<close>)

lemma reserve_slot_outcome:
  assumes "reserve_slot q tc ti d = Inr (v, d')"
  obtains
    (replay) row where "d' = d" and "row \<in> set (mutations d)"
      and "mutation_key row = (mq_scope q, mq_effect_id q)"
      and "mr_operation row = mq_operation q" and "mr_compensation row = mq_compensation q"
      and "mv_granted v" and "mv_replay v" and "mv_occurred_at v = Some (mr_occurred_at row)"
  | (denied) "d' = d" and "\<not> mv_granted v"
      and "mq_capacity q - used_slots (mq_scope q) (mq_window_ms q) tc (mutations d)
        < (if mq_compensation q then 1 else mq_compensation_reserve q + 1)"
  | (granted) "d' = d\<lparr>mutations := insert_row (requested_mutation_row q ti) (mutations d)\<rparr>"
      and "mv_granted v" and "\<not> mv_replay v"
      and "select_one (\<lambda>r. mutation_key r = (mq_scope q, mq_effect_id q)) (mutations d) = None"
      and "max 0 (if mq_compensation q then 1 else mq_compensation_reserve q + 1)
        \<le> max 0 (mq_capacity q - used_slots (mq_scope q) (mq_window_ms q) tc (mutations d))"
proof (cases "select_one (\<lambda>r. mutation_key r = (mq_scope q, mq_effect_id q)) (mutations d)")
  case (Some row)
  with assms show thesis
    by (intro replay[of row])
      (auto simp: reserve_slot_def mutation_result_def Let_def dest: select_one_SomeD split: if_splits)
next
  case None
  show thesis
  proof (cases "max (mq_capacity q - used_slots (mq_scope q) (mq_window_ms q) tc (mutations d)) 0
      < (if mq_compensation q then 1 else mq_compensation_reserve q + 1)")
    case True
    with assms None show thesis
      by (intro denied) (auto simp: reserve_slot_def mutation_result_def Let_def split: if_splits)
  next
    case False
    with assms None show thesis
      by (intro granted) (auto simp: reserve_slot_def mutation_result_def Let_def max.commute
          split: if_splits)
  qed
qed

lemma in_window_le_used:
  assumes "t_count \<le> t_insert" and "t_insert \<le> t"
  shows "in_window sc w t rows \<le> used_slots sc w t_count rows"
  unfolding in_window_def used_slots_def using assms by (intro count_where_mono) auto

lemma insert_mutation_ok:
  assumes ok: "mutation_db_ok d" and scope: "requested_scope_row q \<in> set (scopes d)"
    and "tc \<le> ti"
    and free: "select_one (\<lambda>r. mutation_key r = (mq_scope q, mq_effect_id q)) (mutations d) = None"
    and room: "used_slots (mq_scope q) (mq_window_ms q) tc (mutations d) < mq_capacity q"
  shows "mutation_db_ok (d\<lparr>mutations := insert_row (requested_mutation_row q ti) (mutations d)\<rparr>)"
proof -
  let ?rows = "insert_row (requested_mutation_row q ti) (mutations d)"
  have "in_window (ms_scope s) (ms_window_ms s) t ?rows \<le> ms_capacity s"
    if s: "s \<in> set (scopes d)" for s t
  proof -
    have old: "in_window (ms_scope s) (ms_window_ms s) t (mutations d) \<le> ms_capacity s"
      using ok s by (simp add: mutation_db_ok_def)
    show ?thesis
    proof (cases "ms_scope s = mq_scope q \<and> ti \<le> t")
      case False
      with old show ?thesis by (auto simp: in_window_def requested_mutation_row_def)
    next
      case True
      then have "s = requested_scope_row q"
        using ok s scope
        by (intro unique_by_eq[of ms_scope "scopes d"])
          (auto simp: mutation_db_ok_def requested_scope_row_def)
      with True room in_window_le_used [OF \<open>tc \<le> ti\<close>, of t "mq_scope q" "mq_window_ms q" "mutations d"]
      have "in_window (ms_scope s) (ms_window_ms s) t (mutations d) + 1 \<le> ms_capacity s"
        by (simp add: requested_scope_row_def)
      with old show ?thesis by (simp add: in_window_def)
    qed
  qed
  moreover have "mutation_key (requested_mutation_row q ti) = (mq_scope q, mq_effect_id q)"
    "mr_scope (requested_mutation_row q ti) = ms_scope (requested_scope_row q)"
    by (simp_all add: mutation_key_def requested_mutation_row_def requested_scope_row_def)
  ultimately show ?thesis
    using ok free scope by (auto simp: mutation_db_ok_def select_one_None_iff)
qed

lemma reserve_mutation_ok:
  assumes "mutation_db_ok d" and "tc \<le> ti" and "reserve_mutation q tc ti d = Inr (v, d')"
  shows "mutation_db_ok d'"
proof -
  have ok: "mutation_db_ok (ensure_scope q d)"
    using assms(1) reserve_mutation_slot(1) [OF assms(3)] by (rule ensure_scope_ok)
  from reserve_mutation_slot(3) [OF assms(3)] show ?thesis
  proof (cases rule: reserve_slot_outcome)
    case granted
    have "0 < mq_compensation_reserve q"
      using reserve_mutation_slot(1) [OF assms(3)] by (simp add: scope_check_def requested_scope_row_def)
    with granted(5) have "used_slots (mq_scope q) (mq_window_ms q) tc (mutations (ensure_scope q d))
        < mq_capacity q"
      by (auto split: if_splits)
    then show ?thesis
      using insert_mutation_ok [OF ok reserve_mutation_slot(2) [OF assms(3)] assms(2)] granted(1,4)
      by simp
  qed (use ok in auto)
qed

lemma mutation_step_ok:
  "clock_forward op \<Longrightarrow> mutation_db_ok d \<Longrightarrow> mutation_db_ok (mutation_step op d)"
  unfolding mutation_step_def
  by (cases op, simp add: clock_forward_def, rule settle_cases) (auto intro: reserve_mutation_ok)

interpretation mutation_window: invariant_system mutation_step clock_forward mutation_db_ok
  by unfold_locales (rule mutation_step_ok)

text \<open>Rows are never changed or deleted.\<close>

definition mutation_le :: "mutation_db \<Rightarrow> mutation_db \<Rightarrow> bool" where
  "mutation_le d d' \<longleftrightarrow> table_le (=) (scopes d) (scopes d') \<and> table_le (=) (mutations d) (mutations d')"

definition mutation_keys_ok :: "mutation_db \<Rightarrow> bool" where
  "mutation_keys_ok d \<longleftrightarrow> unique_by ms_scope (scopes d) \<and> unique_by mutation_key (mutations d)"

lemma mutation_le_refl: "mutation_le d d"
  by (simp add: mutation_le_def table_le_refl)

lemma mutation_le_trans: "mutation_le d e \<Longrightarrow> mutation_le e f \<Longrightarrow> mutation_le d f"
  unfolding mutation_le_def using table_le_trans [of "(=)"] by (metis (full_types))

lemma ensure_scope_le: "mutation_le d (ensure_scope q d)"
  by (auto simp: mutation_le_def ensure_scope_def table_le_refl table_le_insert split: option.split)

lemma ensure_scope_keys: "mutation_keys_ok d \<Longrightarrow> mutation_keys_ok (ensure_scope q d)"
  by (auto simp: mutation_keys_ok_def ensure_scope_def requested_scope_row_def select_one_None_iff
      split: option.split)

lemma reserve_mutation_progress:
  assumes "mutation_keys_ok d" and "reserve_mutation q tc ti d = Inr (v, d')"
  shows "mutation_keys_ok d' \<and> mutation_le d d'"
  using reserve_mutation_slot(3) [OF assms(2)]
proof (cases rule: reserve_slot_outcome)
  case granted
  then have "mutation_le (ensure_scope q d) d'"
    by (simp add: mutation_le_def table_le_refl table_le_insert)
  moreover have "mutation_keys_ok d'"
    using granted ensure_scope_keys [OF assms(1), of q]
    by (auto simp: mutation_keys_ok_def select_one_None_iff mutation_key_def
        requested_mutation_row_def)
  ultimately show ?thesis using mutation_le_trans [OF ensure_scope_le] by blast
qed (use assms in \<open>auto simp: ensure_scope_keys ensure_scope_le\<close>)

interpretation mutation_log: monotone_system mutation_step mutation_keys_ok mutation_le
proof
  show "mutation_keys_ok d \<Longrightarrow> mutation_keys_ok (mutation_step op d)" for op d
    unfolding mutation_step_def
    by (cases op, simp, rule settle_cases) (auto dest: reserve_mutation_progress)
  show "mutation_keys_ok d \<Longrightarrow> mutation_le d (mutation_step op d)" for op d
    unfolding mutation_step_def
    by (cases op, simp, rule settle_cases)
      (auto simp: mutation_le_refl dest: reserve_mutation_progress)
qed (auto intro: mutation_le_refl mutation_le_trans)

section \<open>Properties\<close>

text \<open>
  C13. The rate limit is a true sliding window: whatever requests are served, at no instant do
  the mutations of one venue account within the preceding \<open>window_ms\<close> milliseconds outnumber the
  capacity configured for it.
\<close>

theorem mutation_window_bounded:
  assumes "mutation_db_ok d" and "list_all clock_forward ops"
    and "s \<in> set (scopes (fold mutation_step ops d))"
  shows "in_window (ms_scope s) (ms_window_ms s) t (mutations (fold mutation_step ops d))
    \<le> ms_capacity s"
  using mutation_window.run_inv [OF assms(2,1)] assms(3) by (simp add: mutation_db_ok_def)

text \<open>
  The compensation reserve: a fresh ordinary mutation is granted only if the slots kept for
  compensations stay free after it, and a compensation is denied only when the window is full.
\<close>

theorem compensation_reserve_kept:
  assumes "reserve_mutation q t_count t_insert d = Inr (v, d')" and "t_count \<le> t_insert"
    and "\<not> mv_replay v"
  shows "if mv_granted v
    then used_slots (mq_scope q) (mq_window_ms q) t_count (mutations d')
           + (if mq_compensation q then 0 else mq_compensation_reserve q) \<le> mq_capacity q
    else mq_compensation q \<longrightarrow>
           mq_capacity q \<le> used_slots (mq_scope q) (mq_window_ms q) t_count (mutations d')"
  using reserve_mutation_slot(3) [OF assms(1)]
proof (cases rule: reserve_slot_outcome)
  case granted
  have win: "60000 \<le> mq_window_ms q" "4 \<le> mq_compensation_reserve q"
    using reserve_mutation_slot(1) [OF assms(1)] by (simp_all add: scope_check_def requested_scope_row_def)
  have "used_slots (mq_scope q) (mq_window_ms q) t_count (mutations d') =
      used_slots (mq_scope q) (mq_window_ms q) t_count (mutations d) + 1"
    using granted(1) assms(2) win by (simp add: used_slots_def requested_mutation_row_def)
  with granted win show ?thesis by (auto split: if_splits)
qed (use assms(3) in auto)

text \<open>
  A granted effect is replayed, not charged again: after any further requests, repeating
  the request that was granted is granted as a replay with the original timestamp and leaves
  the database as it is.
\<close>

theorem granted_mutation_replays:
  assumes "mutation_keys_ok d" and "reserve_mutation q t_count t_insert d = Inr (v, d')"
    and "mv_granted v"
  shows "\<exists>v'. reserve_mutation q t_count' t_insert' (fold mutation_step ops d')
           = Inr (v', fold mutation_step ops d') \<and>
         mv_granted v' \<and> mv_replay v' \<and> mv_occurred_at v' = mv_occurred_at v"
proof -
  let ?e = "fold mutation_step ops d'"
  have keys: "mutation_keys_ok d'" "mutation_keys_ok ?e" and le: "mutation_le d' ?e"
    using reserve_mutation_progress [OF assms(1,2)] mutation_log.reach_inv mutation_log.run_le
    by auto
  obtain row where row: "row \<in> set (mutations d')" "mutation_key row = (mq_scope q, mq_effect_id q)"
      "mr_operation row = mq_operation q" "mr_compensation row = mq_compensation q"
      "mv_occurred_at v = Some (mr_occurred_at row)"
    using reserve_mutation_slot(3) [OF assms(2)]
  proof (cases rule: reserve_slot_outcome)
    case granted
    have "mv_occurred_at v = Some t_insert"
      using reserve_mutation_slot(3) [OF assms(2)] granted(2-4)
      by (auto simp: reserve_slot_def mutation_result_def Let_def split: if_splits)
    with granted that [of "requested_mutation_row q t_insert"] show ?thesis
      by (simp add: mutation_key_def requested_mutation_row_def)
  qed (use assms(3) that in auto)
  have "row \<in> set (mutations ?e)"
    using le row(1) by (auto simp: mutation_le_def dest: table_leD)
  then have found: "select_one (\<lambda>r. mutation_key r = (mq_scope q, mq_effect_id q)) (mutations ?e) = Some row"
    using select_one_unique [of mutation_key "mutations ?e" row] keys(2) row(2)
    by (simp add: mutation_keys_ok_def)
  have "requested_scope_row q \<in> set (scopes d')"
    using reserve_mutation_slot(3) [OF assms(2)] reserve_mutation_slot(2) [OF assms(2)]
    by (cases rule: reserve_slot_outcome) simp_all
  then have "requested_scope_row q \<in> set (scopes ?e)"
    using le by (auto simp: mutation_le_def dest: table_leD)
  then have scope: "select_one (\<lambda>r. ms_scope r = mq_scope q) (scopes ?e) = Some (requested_scope_row q)"
    using select_one_unique [of ms_scope "scopes ?e" "requested_scope_row q"] keys(2)
    by (simp add: mutation_keys_ok_def requested_scope_row_def)
  have "validate_mutation q = Inr ()" "int4 (mq_window_ms q)"
    using assms(2) by (auto simp: reserve_mutation_def rbind_eq_Inr split: if_splits)
  then show ?thesis
    using found scope row
    by (simp add: reserve_mutation_def ensure_scope_def reserve_slot_def requested_scope_row_def
        mutation_result_def Let_def)
qed

subsection \<open>Witnesses\<close>

definition sample_mutation :: "string \<Rightarrow> bool \<Rightarrow> mutation_request" where
  "sample_mutation effect reserved = \<lparr>mq_environment = ''PAPER'', mq_account_id = ''acct'',
     mq_exchange = ''evedex'', mq_effect_id = effect, mq_operation = ''place'',
     mq_compensation = reserved, mq_capacity = 6, mq_window_ms = 60000, mq_compensation_reserve = 4\<rparr>"

definition empty_mutations :: mutation_db where
  "empty_mutations = \<lparr>scopes = [], mutations = []\<rparr>"

text \<open>Two ordinary mutations, a third that the reserve refuses, and a compensation.\<close>

definition sample_mutations :: "mutation_op list" where
  "sample_mutations = [(sample_mutation ''e1'' False, 10, 11), (sample_mutation ''e2'' False, 12, 13),
     (sample_mutation ''e3'' False, 14, 15), (sample_mutation ''c1'' True, 16, 17)]"

lemma empty_mutations_ok: "mutation_db_ok empty_mutations" "mutation_keys_ok empty_mutations"
  by (simp_all add: empty_mutations_def mutation_db_ok_def mutation_keys_ok_def)

theorem mutation_window_bounded_witness:
  "in_window (''PAPER'', ''acct'', ''evedex'') 60000 20
      (mutations (fold mutation_step sample_mutations empty_mutations)) = 3 \<and>
   in_window (''PAPER'', ''acct'', ''evedex'') 60000 20
      (mutations (fold mutation_step sample_mutations empty_mutations)) \<le> 6"
proof -
  let ?s = "requested_scope_row (sample_mutation ''e1'' False)"
  have "list_all clock_forward sample_mutations"
    by (simp add: sample_mutations_def clock_forward_def)
  moreover have "scopes (fold mutation_step sample_mutations empty_mutations) = [?s]"
    by code_simp
  ultimately have "in_window (ms_scope ?s) (ms_window_ms ?s) 20
      (mutations (fold mutation_step sample_mutations empty_mutations)) \<le> ms_capacity ?s"
    by (intro mutation_window_bounded [OF empty_mutations_ok(1)]) simp_all
  moreover have "in_window (''PAPER'', ''acct'', ''evedex'') 60000 20
      (mutations (fold mutation_step sample_mutations empty_mutations)) = 3"
    by code_simp
  ultimately show ?thesis
    by (simp add: requested_scope_row_def sample_mutation_def mq_scope_def)
qed

definition two_mutations :: mutation_db where
  "two_mutations = fold mutation_step (take 2 sample_mutations) empty_mutations"

theorem compensation_reserve_kept_witness:
  "\<exists>v d'. reserve_mutation (sample_mutation ''c1'' True) 16 17 two_mutations = Inr (v, d') \<and>
     mv_granted v \<and>
     used_slots (''PAPER'', ''acct'', ''evedex'') 60000 16 (mutations d') + 0 \<le> 6"
proof -
  have "case reserve_mutation (sample_mutation ''c1'' True) 16 17 two_mutations of
      Inl e \<Rightarrow> False | Inr (v, d') \<Rightarrow> mv_granted v \<and> \<not> mv_replay v"
    by code_simp
  then obtain v d' where r: "reserve_mutation (sample_mutation ''c1'' True) 16 17 two_mutations = Inr (v, d')"
    and v: "mv_granted v" "\<not> mv_replay v"
    by (auto split: sum.splits)
  with compensation_reserve_kept [OF r _ v(2)] show ?thesis
    by (auto simp: sample_mutation_def mq_scope_def)
qed

theorem granted_mutation_replays_witness:
  "\<exists>v'. reserve_mutation (sample_mutation ''e1'' False) 99 99
      (fold mutation_step [(sample_mutation ''e2'' False, 12, 13)]
        (mutation_step (sample_mutation ''e1'' False, 10, 11) empty_mutations)) =
     Inr (v', fold mutation_step [(sample_mutation ''e2'' False, 12, 13)]
        (mutation_step (sample_mutation ''e1'' False, 10, 11) empty_mutations)) \<and>
     mv_replay v' \<and> mv_occurred_at v' = Some 11"
proof -
  have "case reserve_mutation (sample_mutation ''e1'' False) 10 11 empty_mutations of
      Inl e \<Rightarrow> False | Inr (v, d') \<Rightarrow> mv_granted v \<and> mv_occurred_at v = Some 11"
    by code_simp
  then obtain v d' where r: "reserve_mutation (sample_mutation ''e1'' False) 10 11 empty_mutations = Inr (v, d')"
    and v: "mv_granted v" "mv_occurred_at v = Some 11"
    by (auto split: sum.splits)
  then have "mutation_step (sample_mutation ''e1'' False, 10, 11) empty_mutations = d'"
    by (simp add: mutation_step_def)
  with granted_mutation_replays [OF empty_mutations_ok(2) r v(1)] v(2) show ?thesis by metis
qed

end
