(* ===== verification/NewsProcessing.thy ===== *)
theory NewsProcessing
  imports SqlTable
begin

text \<open>
  \<open>kairos_persistence/news_processing.py\<close> with the table and trigger of migration 028: permanent
  claims on news events, taken before any model call. \<open>claim_batch\<close> and \<open>complete_batch\<close> are the
  two methods of \<open>NewsProcessingRepository\<close>; \<open>clk\<close> is the value of \<open>clock_timestamp()\<close> in the
  statement.
\<close>

subsection \<open>Data\<close>

datatype news_state = NEWS_CLAIMED | NEWS_COMPLETED

record news_row =
  nw_scope_key :: string
  nw_event_key :: string
  nw_attempt_id :: string
  nw_state :: news_state
  nw_claimed_at :: timestamp
  nw_completed_at :: "timestamp option"

definition news_max_batch :: nat where
  "news_max_batch = 1000"

definition news_key :: "news_row \<Rightarrow> string \<times> string" where
  "news_key r = (nw_scope_key r, nw_event_key r)"

definition news_digest :: "string \<Rightarrow> string res" where
  "news_digest value =
     (if sha256_hex value then Inr value
      else Inl (ValueError ''news processing identity must be a canonical SHA-256''))"

definition news_keys :: "string list \<Rightarrow> string list res" where
  "news_keys values =
     (if length values > news_max_batch
      then Inl (ValueError ''news processing requires a bounded tuple of event keys'')
      else if \<not> list_all sha256_hex values
      then Inl (ValueError ''news processing identity must be a canonical SHA-256'')
      else if \<not> distinct values
      then Inl (ValueError ''news processing event keys must be unique'')
      else Inr (sort values))"

subsection \<open>Operations\<close>

definition claimed_news :: "string \<Rightarrow> string \<Rightarrow> timestamp \<Rightarrow> string \<Rightarrow> news_row" where
  "claimed_news scope_key attempt_id clk event_key = \<lparr>nw_scope_key = scope_key,
     nw_event_key = event_key, nw_attempt_id = attempt_id, nw_state = NEWS_CLAIMED,
     nw_claimed_at = clk, nw_completed_at = None\<rparr>"

definition completed_news :: "timestamp \<Rightarrow> news_row \<Rightarrow> news_row" where
  "completed_news clk r = r\<lparr>nw_state := NEWS_COMPLETED, nw_completed_at := Some clk\<rparr>"

text \<open>
  \<open>INSERT .. SELECT .. FROM unnest(keys) ON CONFLICT DO NOTHING RETURNING event_key\<close>: the keys
  without a row in the scope, each inserted.
\<close>

definition free_news :: "string \<Rightarrow> string list \<Rightarrow> news_row list \<Rightarrow> string list" where
  "free_news scope_key keys t = filter (\<lambda>k. (scope_key, k) \<notin> set (map news_key t)) keys"

definition claim_batch ::
  "string \<Rightarrow> string list \<Rightarrow> string \<Rightarrow> timestamp \<Rightarrow> news_row list \<Rightarrow> (string list \<times> news_row list) res" where
  "claim_batch scope_key event_keys attempt_id clk t =
     rbind (news_digest scope_key) (\<lambda>_.
     rbind (news_digest attempt_id) (\<lambda>_.
     rbind (news_keys event_keys) (\<lambda>keys.
     if keys = [] then Inr ([], t)
     else let claimed = sort (free_news scope_key keys t)
          in if \<not> distinct claimed \<or> \<not> set claimed \<subseteq> set keys
             then Inl (RuntimeError ''news claim result does not match the requested batch'')
             else Inr (claimed, t @ map (claimed_news scope_key attempt_id clk)
                                      (free_news scope_key keys t)))))"

definition complete_batch ::
  "string \<Rightarrow> string list \<Rightarrow> string \<Rightarrow> timestamp \<Rightarrow> news_row list \<Rightarrow> (unit \<times> news_row list) res" where
  "complete_batch scope_key event_keys attempt_id clk t =
     rbind (news_digest scope_key) (\<lambda>_.
     rbind (news_digest attempt_id) (\<lambda>_.
     rbind (news_keys event_keys) (\<lambda>keys.
     if keys = [] then Inr ((), t)
     else let rows = sort_key nw_event_key
                (filter (\<lambda>r. nw_scope_key r = scope_key \<and> nw_event_key r \<in> set keys) t)
          in if map nw_event_key rows \<noteq> keys \<or> \<not> list_all (\<lambda>r. nw_attempt_id r = attempt_id) rows
             then Inl (ValueError ''news completion requires every exact owned claim'')
             else let pending = map nw_event_key (filter (\<lambda>r. nw_state r = NEWS_CLAIMED) rows);
                      hit = (\<lambda>r. nw_scope_key r = scope_key \<and> nw_event_key r \<in> set pending
                               \<and> nw_attempt_id r = attempt_id \<and> nw_state r = NEWS_CLAIMED)
                  in if pending = [] then Inr ((), t)
                     else if sort (map nw_event_key (filter hit t)) \<noteq> pending
                     then Inl (RuntimeError
                            ''news completion was not confirmed for the complete owned batch'')
                     else Inr ((), update_where hit (completed_news clk) t))))"

datatype news_op =
    ClaimNews string "string list" string timestamp
  | CompleteNews string "string list" string timestamp

fun news_step :: "news_op \<Rightarrow> news_row list \<Rightarrow> news_row list" where
  "news_step (ClaimNews sc ks a clk) t = settle t (claim_batch sc ks a clk t)"
| "news_step (CompleteNews sc ks a clk) t = settle t (complete_batch sc ks a clk t)"

text \<open>The \<open>BEFORE UPDATE\<close> trigger \<open>news_processing_preserve_claim\<close>, and the table's CHECK.\<close>

definition preserve_claim :: "news_row \<Rightarrow> news_row \<Rightarrow> bool" where
  "preserve_claim old new \<longleftrightarrow>
     nw_scope_key new = nw_scope_key old \<and> nw_event_key new = nw_event_key old \<and>
     nw_attempt_id new = nw_attempt_id old \<and> nw_claimed_at new = nw_claimed_at old \<and>
     nw_state old = NEWS_CLAIMED \<and> nw_state new = NEWS_COMPLETED"

definition news_check :: "news_row \<Rightarrow> bool" where
  "news_check r \<longleftrightarrow> sha256_hex (nw_scope_key r) \<and> sha256_hex (nw_event_key r) \<and>
     sha256_hex (nw_attempt_id r) \<and> (nw_state r = NEWS_CLAIMED \<longleftrightarrow> nw_completed_at r = None)"

definition news_ok :: "news_row list \<Rightarrow> bool" where
  "news_ok t \<longleftrightarrow> unique_by news_key t \<and> (\<forall>r\<in>set t. news_check r)"

definition news_le :: "news_row \<Rightarrow> news_row \<Rightarrow> bool" where
  "news_le r r' \<longleftrightarrow> r' = r \<or> preserve_claim r r'"

subsection \<open>Invariants\<close>

lemma news_le_refl [simp]: "news_le r r"
  by (simp add: news_le_def)

lemma news_le_trans: "news_le a b \<Longrightarrow> news_le b c \<Longrightarrow> news_le a c"
  by (auto simp: news_le_def preserve_claim_def)

lemma news_keys_Inr:
  "news_keys values = Inr keys \<longleftrightarrow>
     length values \<le> news_max_batch \<and> list_all sha256_hex values \<and> distinct values \<and> keys = sort values"
  by (auto simp: news_keys_def)

lemma news_digest_Inr [simp]: "news_digest v = Inr w \<longleftrightarrow> sha256_hex v \<and> w = v"
  by (auto simp: news_digest_def)

lemma claim_batch_outcome:
  assumes "claim_batch sc ks a clk t = Inr (got, t')"
  shows "sha256_hex sc" and "sha256_hex a" and "list_all sha256_hex ks" and "distinct ks"
    and "set got = {k \<in> set ks. (sc, k) \<notin> news_key ` set t}"
    and "t' = t @ map (claimed_news sc a clk) (free_news sc (sort ks) t)"
proof -
  have valid: "sha256_hex sc" "sha256_hex a" "list_all sha256_hex ks" "distinct ks"
    and body: "(if sort ks = [] then Inr ([], t)
     else let claimed = sort (free_news sc (sort ks) t)
          in if \<not> distinct claimed \<or> \<not> set claimed \<subseteq> set (sort ks)
             then Inl (RuntimeError ''news claim result does not match the requested batch'')
             else Inr (claimed, t @ map (claimed_news sc a clk) (free_news sc (sort ks) t)))
     = Inr (got, t')"
    using assms unfolding claim_batch_def rbind_eq_Inr news_keys_Inr news_digest_Inr by auto
  from valid show "sha256_hex sc" "sha256_hex a" "list_all sha256_hex ks" "distinct ks" .
  from body show "set got = {k \<in> set ks. (sc, k) \<notin> news_key ` set t}"
    and "t' = t @ map (claimed_news sc a clk) (free_news sc (sort ks) t)"
    by (auto simp: free_news_def Let_def split: if_splits dest!: arg_cong [where f = set])
qed

lemma claim_batch_ok:
  assumes "news_ok t" and "claim_batch sc ks a clk t = Inr (got, t')"
  shows "news_ok t' \<and> table_le news_le t t'"
proof -
  note o = claim_batch_outcome [OF assms(2)]
  let ?free = "free_news sc (sort ks) t"
  have keys: "map (news_key \<circ> claimed_news sc a clk) ?free = map (Pair sc) ?free"
    by (simp add: news_key_def claimed_news_def)
  have "distinct ?free" using o(4) by (simp add: free_news_def)
  then have "distinct (map (Pair sc) ?free)" by (simp add: distinct_map inj_on_def)
  then have "unique_by news_key t'"
    using assms(1) unfolding o(6) news_ok_def unique_by_def map_append map_map keys distinct_append
    by (auto simp: free_news_def)
  moreover have "news_check (claimed_news sc a clk k)" if "k \<in> set ?free" for k
    using that o(1-3) by (auto simp: news_check_def claimed_news_def free_news_def list_all_iff)
  ultimately have "news_ok t'"
    using assms(1) o(6) by (auto simp: news_ok_def)
  moreover have "table_le news_le t t'"
    unfolding o(6) table_le_def using news_le_refl by fastforce
  ultimately show ?thesis ..
qed

text \<open>A completion either found every owned claim completed already or completes the open ones.\<close>

lemma complete_batch_outcome:
  assumes "complete_batch sc ks a clk t = Inr (u, t')"
  shows "\<forall>k\<in>set ks. \<exists>r\<in>set t. news_key r = (sc, k) \<and> nw_attempt_id r = a"
    and "t' = update_where (\<lambda>r. nw_scope_key r = sc \<and> nw_event_key r \<in> set ks
           \<and> nw_attempt_id r = a \<and> nw_state r = NEWS_CLAIMED) (completed_news clk) t"
proof -
  define mine where "mine = (\<lambda>r::news_row. nw_scope_key r = sc \<and> nw_event_key r \<in> set ks)"
  define rows where "rows = sort_key nw_event_key (filter mine t)"
  define pending where "pending = map nw_event_key (filter (\<lambda>r. nw_state r = NEWS_CLAIMED) rows)"
  define hit where "hit = (\<lambda>r::news_row. nw_scope_key r = sc \<and> nw_event_key r \<in> set pending
       \<and> nw_attempt_id r = a \<and> nw_state r = NEWS_CLAIMED)"
  have rows: "set rows = {r \<in> set t. mine r}" by (auto simp: rows_def)
  have body: "if sort ks = [] then t' = t
     else map nw_event_key rows = sort ks \<and> (\<forall>r\<in>set rows. nw_attempt_id r = a) \<and>
       (if pending = [] then t' = t else t' = update_where hit (completed_news clk) t)"
    using assms
    unfolding complete_batch_def rbind_eq_Inr news_keys_Inr news_digest_Inr
    by (auto simp: Let_def rows_def mine_def pending_def hit_def list_all_iff split: if_splits)
  show "\<forall>k\<in>set ks. \<exists>r\<in>set t. news_key r = (sc, k) \<and> nw_attempt_id r = a"
  proof
    fix k assume k: "k \<in> set ks"
    then have "sort ks \<noteq> []" by (metis empty_iff list.set(1) set_sort)
    with body have b: "map nw_event_key rows = sort ks" "\<forall>r\<in>set rows. nw_attempt_id r = a" by auto
    from b(1) k have "k \<in> nw_event_key ` set rows" by (metis list.set_map set_sort)
    with b(2) rows show "\<exists>r\<in>set t. news_key r = (sc, k) \<and> nw_attempt_id r = a"
      by (auto simp: mine_def news_key_def)
  qed
  let ?P = "\<lambda>r. nw_scope_key r = sc \<and> nw_event_key r \<in> set ks
           \<and> nw_attempt_id r = a \<and> nw_state r = NEWS_CLAIMED"
  have pend: "set pending = nw_event_key ` {q \<in> set t. mine q \<and> nw_state q = NEWS_CLAIMED}"
    by (simp add: pending_def rows conj_assoc)
  have "hit r = ?P r" if "r \<in> set t" for r
  proof
    assume "?P r"
    with that have "r \<in> {q \<in> set t. mine q \<and> nw_state q = NEWS_CLAIMED}" by (simp add: mine_def)
    then have "nw_event_key r \<in> set pending" unfolding pend by (rule imageI)
    with \<open>?P r\<close> show "hit r" by (simp add: hit_def)
  qed (auto simp: hit_def pend mine_def)
  then have same: "update_where hit (completed_news clk) t = update_where ?P (completed_news clk) t"
    by (simp add: update_where_def)
  have none: "update_where ?P (completed_news clk) t = t" if "sort ks = [] \<or> pending = []"
  proof (rule update_where_none)
    have "set ks = {} \<or> (\<forall>r\<in>set rows. nw_state r \<noteq> NEWS_CLAIMED)"
      using that by (auto simp: pending_def filter_empty_conv dest: arg_cong [where f = set])
    then show "\<forall>r\<in>set t. \<not> ?P r" using rows by (auto simp: mine_def)
  qed
  show "t' = update_where ?P (completed_news clk) t"
  proof (cases "sort ks = [] \<or> pending = []")
    case True
    with body have "t' = t" by presburger
    with none [OF True] show ?thesis by simp
  next
    case False
    with body have "t' = update_where hit (completed_news clk) t" by presburger
    with same show ?thesis by simp
  qed
qed

lemma complete_batch_ok:
  assumes "news_ok t" and "complete_batch sc ks a clk t = Inr (u, t')"
  shows "news_ok t' \<and> table_le news_le t t'"
proof -
  have "news_check (completed_news clk r)" if "news_check r" for r
    using that by (simp add: news_check_def completed_news_def)
  moreover have "news_key (completed_news clk r) = news_key r" for r
    by (simp add: news_key_def completed_news_def)
  moreover have "news_le r (completed_news clk r)" if "nw_state r = NEWS_CLAIMED" for r
    using that by (simp add: news_le_def preserve_claim_def completed_news_def)
  ultimately show ?thesis
    using assms(1) unfolding complete_batch_outcome(2) [OF assms(2)]
    by (auto simp: news_ok_def unique_by_update set_update_where intro!: table_le_update)
qed

interpretation news: monotone_system news_step news_ok "table_le news_le"
proof
  show "news_ok t \<Longrightarrow> news_ok (news_step op t)" for op t
    by (cases op; simp; rule settle_cases; auto dest: claim_batch_ok complete_batch_ok)
  show "news_ok t \<Longrightarrow> table_le news_le t (news_step op t)" for op t
    by (cases op; simp; rule settle_cases;
        auto simp: table_le_refl dest: claim_batch_ok complete_batch_ok)
qed (auto intro: table_le_refl table_le_trans [OF news_le_trans])

section \<open>Properties\<close>

text \<open>
  C14. A news event is claimed at most once: a key that one successful \<open>claim_batch\<close> returned is
  returned by no later \<open>claim_batch\<close> of the scope, whichever attempt asks and whatever claims and
  completions happened in between.
\<close>

theorem news_claimed_at_most_once:
  assumes "news_ok t" and "claim_batch sc ks a clk t = Inr (got, t1)" and "k \<in> set got"
    and "claim_batch sc ks' a' clk' (fold news_step ops t1) = Inr (got', t2)"
  shows "k \<notin> set got'"
proof -
  have ok: "news_ok t1" using claim_batch_ok [OF assms(1,2)] ..
  note o = claim_batch_outcome [OF assms(2)]
  have "claimed_news sc a clk k \<in> set t1"
    using assms(3) o by (auto simp: free_news_def)
  then obtain r where "r \<in> set (fold news_step ops t1)" "news_le (claimed_news sc a clk k) r"
    using news.run_le [OF ok, of ops] by (auto dest: table_leD)
  then have "(sc, k) \<in> news_key ` set (fold news_step ops t1)"
    by (force simp: news_le_def preserve_claim_def claimed_news_def news_key_def)
  then show ?thesis using claim_batch_outcome(5) [OF assms(4)] by simp
qed

text \<open>
  A completion that returns has every requested key COMPLETED under the attempt that
  claimed it; one that raises changes nothing, so a batch is completed whole or not at all.
\<close>

theorem complete_batch_whole:
  assumes "news_ok t" and "complete_batch sc ks a clk t = Inr (u, t')" and "k \<in> set ks"
  shows "\<exists>r. select_one (\<lambda>r. news_key r = (sc, k)) t' = Some r \<and>
    nw_attempt_id r = a \<and> nw_state r = NEWS_COMPLETED"
proof -
  have ok: "news_ok t'" using complete_batch_ok [OF assms(1,2)] ..
  obtain r where r: "r \<in> set t" "news_key r = (sc, k)" "nw_attempt_id r = a"
    using complete_batch_outcome(1) [OF assms(2)] assms(3) by auto
  let ?q = "if nw_state r = NEWS_CLAIMED then completed_news clk r else r"
  have "?q \<in> set t'"
    unfolding complete_batch_outcome(2) [OF assms(2)]
    using r assms(3) by (auto simp: set_update_where news_key_def)
  moreover have "news_key ?q = (sc, k)" "nw_attempt_id ?q = a" "nw_state ?q = NEWS_COMPLETED"
    using r by (cases "nw_state r"; simp add: completed_news_def news_key_def)+
  ultimately show ?thesis
    using ok select_one_unique [of news_key t' ?q] by (auto simp: news_ok_def)
qed

subsection \<open>Witnesses\<close>

definition digest_of :: "char \<Rightarrow> string" where
  "digest_of c = replicate 64 c"

lemma digest_of_hex:
  "sha256_hex (digest_of (CHR ''a''))" "sha256_hex (digest_of (CHR ''b''))"
  "sha256_hex (digest_of (CHR ''c''))" "sha256_hex (digest_of (CHR ''d''))"
  by (simp_all add: sha256_hex_def digest_of_def list_all_iff lower_hex_def)

theorem news_claimed_at_most_once_witness:
  "\<exists>got t1 got' t2.
     claim_batch (digest_of (CHR ''a'')) [digest_of (CHR ''b'')] (digest_of (CHR ''c'')) 7 [] = Inr (got, t1) \<and>
     digest_of (CHR ''b'') \<in> set got \<and>
     claim_batch (digest_of (CHR ''a'')) [digest_of (CHR ''b'')] (digest_of (CHR ''d'')) 9
       (fold news_step [CompleteNews (digest_of (CHR ''a'')) [digest_of (CHR ''b'')] (digest_of (CHR ''c'')) 8] t1)
       = Inr (got', t2) \<and>
     digest_of (CHR ''b'') \<notin> set got'"
proof -
  let ?claim = "claim_batch (digest_of (CHR ''a'')) [digest_of (CHR ''b'')] (digest_of (CHR ''c'')) 7 []"
  let ?ops = "[CompleteNews (digest_of (CHR ''a'')) [digest_of (CHR ''b'')] (digest_of (CHR ''c'')) 8]"
  let ?again = "\<lambda>t1. claim_batch (digest_of (CHR ''a'')) [digest_of (CHR ''b'')] (digest_of (CHR ''d'')) 9
       (fold news_step ?ops t1)"
  have "case ?claim of Inl e \<Rightarrow> False | Inr (got, t1) \<Rightarrow>
      digest_of (CHR ''b'') \<in> set got \<and> \<not> isl (?again t1)"
    by code_simp
  then obtain got t1 got' t2 where c: "?claim = Inr (got, t1)" "digest_of (CHR ''b'') \<in> set got"
      "?again t1 = Inr (got', t2)"
    by (auto split: sum.splits simp: isl_def) (metis old.prod.exhaust sum.exhaust_sel)
  have "news_ok []" by (simp add: news_ok_def)
  from news_claimed_at_most_once [OF this c] c show ?thesis by blast
qed

definition claimed_sample :: "news_row list" where
  "claimed_sample = [claimed_news (digest_of (CHR ''a'')) (digest_of (CHR ''c'')) 7 (digest_of (CHR ''b''))]"

theorem complete_batch_whole_witness:
  "\<exists>u t' r. complete_batch (digest_of (CHR ''a'')) [digest_of (CHR ''b'')] (digest_of (CHR ''c'')) 8
       claimed_sample = Inr (u, t') \<and>
     select_one (\<lambda>r. news_key r = (digest_of (CHR ''a''), digest_of (CHR ''b''))) t' = Some r \<and>
     nw_state r = NEWS_COMPLETED"
proof -
  let ?c = "complete_batch (digest_of (CHR ''a'')) [digest_of (CHR ''b'')] (digest_of (CHR ''c'')) 8 claimed_sample"
  have "\<not> isl ?c" by code_simp
  then obtain u t' where c: "?c = Inr (u, t')" by (cases ?c) auto
  have "news_ok claimed_sample"
    by (simp add: claimed_sample_def news_ok_def unique_by_def news_check_def claimed_news_def digest_of_hex)
  from complete_batch_whole [OF this c] c show ?thesis by auto
qed

end
