(* ===== verification/RuntimeHealth.thy ===== *)
theory RuntimeHealth
  imports SqlTable
begin

text \<open>
  \<open>kairos_persistence/runtime_health.py\<close> with the table of migrations 007 and 010: the latest
  execution health per environment, account and exchange. \<open>record_health\<close> is
  \<open>ExecutionRuntimeHealthRepository.record\<close> and \<open>latest_health\<close> is \<open>latest\<close>.
\<close>

record runtime_health =
  rh_environment :: string
  rh_account_id :: string
  rh_exchange :: string
  rh_observed_at :: pydatetime
  rh_auth_age_ms :: int
  rh_auth_expires_in_ms :: "int option"
  rh_local_mutation_reserve :: int
  rh_local_mutation_capacity :: int
  rh_local_mutation_compensation_reserve :: int
  rh_local_mutation_window_ms :: int
  rh_venue_rate_limit_observable :: bool
  rh_venue_rate_limit_reserve :: "int option"

text \<open>A row is the health with its timestamp as an instant, and \<open>updated_at\<close>.\<close>

record health_row =
  hr_health :: runtime_health
  hr_updated_at :: timestamp

definition health_scope :: "runtime_health \<Rightarrow> string \<times> string \<times> string" where
  "health_scope h = (rh_environment h, rh_account_id h, rh_exchange h)"

definition health_id :: "string \<Rightarrow> string res" where
  "health_id value =
     (if value = [] \<or> value \<noteq> strip value
      then Inl (ValueError '' must be a normalized non-empty string'') else Inr value)"

definition instant :: "pydatetime \<Rightarrow> timestamp" where
  "instant t = (case t of Naive n \<Rightarrow> n | Aware n \<Rightarrow> n)"

definition negative_option :: "int option \<Rightarrow> bool" where
  "negative_option v = (case v of None \<Rightarrow> False | Some n \<Rightarrow> n < 0)"

definition validate_health :: "runtime_health \<Rightarrow> unit res" where
  "validate_health h =
     rbind (health_id (rh_environment h)) (\<lambda>_.
     rbind (health_id (rh_account_id h)) (\<lambda>_.
     rbind (health_id (rh_exchange h)) (\<lambda>_.
     case rh_observed_at h of
       Naive t \<Rightarrow> Inl (ValueError ''observed_at must be timezone-aware'')
     | Aware t \<Rightarrow>
     if rh_auth_age_ms h < 0 \<or> rh_local_mutation_reserve h < 0
        \<or> rh_local_mutation_compensation_reserve h < 0
     then Inl (ValueError '' must be a non-negative integer'')
     else if rh_local_mutation_capacity h \<le> 0 \<or> rh_local_mutation_window_ms h \<le> 0
     then Inl (ValueError '' must be a positive integer'')
     else if rh_local_mutation_reserve h > rh_local_mutation_capacity h
     then Inl (ValueError ''local mutation reserve cannot exceed capacity'')
     else if rh_local_mutation_compensation_reserve h > rh_local_mutation_capacity h
     then Inl (ValueError ''local compensation reserve cannot exceed capacity'')
     else if negative_option (rh_auth_expires_in_ms h)
        \<or> negative_option (rh_venue_rate_limit_reserve h)
     then Inl (ValueError '' must be null or a non-negative integer'')
     else Inr ())))"

text \<open>BIGINT and INTEGER columns.\<close>

definition health_columns :: "runtime_health \<Rightarrow> bool" where
  "health_columns h \<longleftrightarrow>
     int8 (rh_auth_age_ms h) \<and> int8 (case rh_auth_expires_in_ms h of None \<Rightarrow> 0 | Some n \<Rightarrow> n) \<and>
     int4 (rh_local_mutation_reserve h) \<and> int4 (rh_local_mutation_capacity h) \<and>
     int4 (rh_local_mutation_compensation_reserve h) \<and> int8 (rh_local_mutation_window_ms h) \<and>
     int4 (case rh_venue_rate_limit_reserve h of None \<Rightarrow> 0 | Some n \<Rightarrow> n)"

definition health_key :: "health_row \<Rightarrow> string \<times> string \<times> string" where
  "health_key r = health_scope (hr_health r)"

definition observed :: "health_row \<Rightarrow> timestamp" where
  "observed r = instant (rh_observed_at (hr_health r))"

text \<open>
  \<open>INSERT .. ON CONFLICT DO UPDATE .. WHERE EXCLUDED.observed_at >= observed_at\<close>; the result is
  whether the command tag ends in \<open>" 1"\<close>, that is, whether a row was inserted or updated.
\<close>

definition record_health ::
  "runtime_health \<Rightarrow> timestamp \<Rightarrow> health_row list \<Rightarrow> (bool \<times> health_row list) res" where
  "record_health h now t =
     rbind (validate_health h) (\<lambda>_.
     if \<not> health_columns h then Inl (DataError ''value out of range'')
     else let row = \<lparr>hr_health = h, hr_updated_at = now\<rparr>;
              same = (\<lambda>r. health_key r = health_scope h)
          in case select_one same t of
               None \<Rightarrow> Inr (True, insert_row row t)
             | Some old \<Rightarrow>
                 if instant (rh_observed_at h) \<ge> observed old
                 then Inr (True, update_where same (\<lambda>r. row) t)
                 else Inr (False, t))"

definition latest_health ::
  "string \<Rightarrow> string \<Rightarrow> string \<Rightarrow> health_row list \<Rightarrow> runtime_health option res" where
  "latest_health environment account_id exchange t =
     rbind (health_id environment) (\<lambda>e.
     rbind (health_id account_id) (\<lambda>a.
     rbind (health_id exchange) (\<lambda>x.
       Inr (map_option hr_health (select_one (\<lambda>r. health_key r = (e, a, x)) t)))))"

type_synonym health_op = "runtime_health \<times> timestamp"

definition health_step :: "health_op \<Rightarrow> health_row list \<Rightarrow> health_row list" where
  "health_step op t = settle t (record_health (fst op) (snd op) t)"

definition health_ok :: "health_row list \<Rightarrow> bool" where
  "health_ok t \<longleftrightarrow> unique_by health_key t \<and>
     (\<forall>r\<in>set t. validate_health (hr_health r) = Inr () \<and> health_columns (hr_health r))"

definition health_le :: "health_row \<Rightarrow> health_row \<Rightarrow> bool" where
  "health_le r r' \<longleftrightarrow> health_key r' = health_key r \<and> observed r \<le> observed r'"

lemma health_le_refl [simp]: "health_le r r"
  by (simp add: health_le_def)

lemma health_le_trans: "health_le r s \<Longrightarrow> health_le s u \<Longrightarrow> health_le r u"
  by (auto simp: health_le_def)

lemma health_key_row [simp]: "health_key \<lparr>hr_health = h, hr_updated_at = now\<rparr> = health_scope h"
  by (simp add: health_key_def)

lemma record_health_outcome:
  assumes "record_health h now t = Inr (b, t')"
  obtains
    (fresh) "b" and "select_one (\<lambda>r. health_key r = health_scope h) t = None"
      and "t' = insert_row \<lparr>hr_health = h, hr_updated_at = now\<rparr> t"
      and "validate_health h = Inr ()" and "health_columns h"
  | (newer) old where "b" and "select_one (\<lambda>r. health_key r = health_scope h) t = Some old"
      and "observed old \<le> instant (rh_observed_at h)"
      and "t' = update_where (\<lambda>r. health_key r = health_scope h)
             (\<lambda>r. \<lparr>hr_health = h, hr_updated_at = now\<rparr>) t"
      and "validate_health h = Inr ()" and "health_columns h"
  | (stale) old where "\<not> b" and "t' = t"
      and "select_one (\<lambda>r. health_key r = health_scope h) t = Some old"
      and "instant (rh_observed_at h) < observed old"
proof -
  have v: "validate_health h = Inr ()" "health_columns h"
    using assms by (auto simp: record_health_def rbind_eq_Inr split: if_splits)
  show thesis
  proof (cases "select_one (\<lambda>r. health_key r = health_scope h) t")
    case None
    with assms v show thesis by (intro fresh) (auto simp: record_health_def)
  next
    case (Some old)
    with assms v show thesis
      by (cases "observed old \<le> instant (rh_observed_at h)")
        (auto simp: record_health_def Let_def intro: newer[of old] stale[of old])
  qed
qed

lemma record_health_progress:
  assumes "health_ok t" and "record_health h now t = Inr (b, t')"
  shows "health_ok t' \<and> table_le health_le t t'"
  using assms(2)
proof (cases rule: record_health_outcome)
  case fresh
  with assms(1) show ?thesis
    by (auto simp: health_ok_def select_one_None_iff intro: table_le_insert)
next
  case (newer old)
  have old: "old \<in> set t" "health_key old = health_scope h"
    using newer(2) by (auto dest: select_one_SomeD)
  have le: "health_le r \<lparr>hr_health = h, hr_updated_at = now\<rparr>"
    if "r \<in> set t" "health_key r = health_scope h" for r
  proof -
    have "r = old" using that old assms(1) by (auto simp: health_ok_def dest: unique_by_eq)
    with old newer(3) show ?thesis by (simp add: health_le_def observed_def)
  qed
  then have "table_le health_le t t'"
    unfolding newer(4) by (intro table_le_update) auto
  moreover have "unique_by health_key t'"
    unfolding newer(4) using assms(1) by (subst unique_by_update) (auto simp: health_ok_def)
  then have "health_ok t'"
    using assms(1) newer(4-6) by (auto simp: health_ok_def set_update_where)
  ultimately show ?thesis by blast
qed (use assms(1) in \<open>auto intro!: table_le_refl\<close>)

lemma health_step_progress: "health_ok t \<Longrightarrow> health_ok (health_step op t) \<and> table_le health_le t (health_step op t)"
  unfolding health_step_def
  by (rule settle_cases) (auto intro!: table_le_refl dest: record_health_progress)

interpretation health: monotone_system health_step health_ok "table_le health_le"
  using health_step_progress
  by unfold_locales (auto intro: table_le_refl table_le_trans [OF health_le_trans])

section \<open>Properties\<close>

text \<open>
  The stored health is the newest one seen: after \<open>record\<close> accepts a health, \<open>latest\<close> for its
  scope returns a valid health observed no earlier, whatever records follow in whatever order.
\<close>

theorem latest_health_monotone:
  assumes "health_ok t" and "record_health h now t = Inr (b, t1)"
  shows "\<exists>h'. latest_health (rh_environment h) (rh_account_id h) (rh_exchange h)
      (fold health_step ops t1) = Inr (Some h') \<and>
    instant (rh_observed_at h) \<le> instant (rh_observed_at h') \<and> validate_health h' = Inr ()"
proof -
  let ?u = "fold health_step ops t1"
  have ok: "health_ok t1" using record_health_progress [OF assms] ..
  have valid: "validate_health h = Inr ()"
    using assms(2) by (auto simp: record_health_def rbind_eq_Inr)
  obtain r where r: "r \<in> set t1" "health_key r = health_scope h"
      "instant (rh_observed_at h) \<le> observed r"
    using assms(2)
  proof (cases rule: record_health_outcome)
    case fresh
    with that [of "\<lparr>hr_health = h, hr_updated_at = now\<rparr>"] show ?thesis
      by (simp add: health_key_def observed_def)
  next
    case (newer old)
    then have "\<lparr>hr_health = h, hr_updated_at = now\<rparr> \<in> set t1"
      by (auto simp: set_update_where dest!: select_one_SomeD)
    with that [of "\<lparr>hr_health = h, hr_updated_at = now\<rparr>"] show ?thesis
      by (simp add: health_key_def observed_def)
  next
    case (stale old)
    with that [of old] show ?thesis by (auto dest: select_one_SomeD)
  qed
  obtain q where q: "q \<in> set ?u" "health_le r q"
    using health.run_le [OF ok, of ops] r(1) by (auto dest: table_leD)
  have okU: "health_ok ?u" using ok by (rule health.reach_inv)
  then have "select_one (\<lambda>p. health_key p = health_scope h) ?u = Some q"
    using select_one_unique [of health_key ?u q] q r(2) by (simp add: health_ok_def health_le_def)
  then have "latest_health (rh_environment h) (rh_account_id h) (rh_exchange h) ?u = Inr (Some (hr_health q))"
    using valid by (auto simp: latest_health_def validate_health_def rbind_eq_Inr health_scope_def
        health_id_def split: if_splits)
  with q r(3) okU show ?thesis
    by (auto simp: health_le_def observed_def health_ok_def)
qed

definition sample_health :: "int \<Rightarrow> runtime_health" where
  "sample_health t = \<lparr>rh_environment = ''PAPER'', rh_account_id = ''acct'', rh_exchange = ''evedex'',
     rh_observed_at = Aware t, rh_auth_age_ms = 5, rh_auth_expires_in_ms = None,
     rh_local_mutation_reserve = 3, rh_local_mutation_capacity = 30,
     rh_local_mutation_compensation_reserve = 4, rh_local_mutation_window_ms = 60000,
     rh_venue_rate_limit_observable = False, rh_venue_rate_limit_reserve = None\<rparr>"

theorem latest_health_monotone_witness:
  "\<exists>h'. latest_health ''PAPER'' ''acct'' ''evedex''
      (fold health_step [(sample_health 3, 8)] (health_step (sample_health 5, 7) [])) = Inr (Some h') \<and>
    5 \<le> instant (rh_observed_at h')"
proof -
  have "\<not> isl (record_health (sample_health 5) 7 [])" by code_simp
  then obtain b t1 where r: "record_health (sample_health 5) 7 [] = Inr (b, t1)"
    by (cases "record_health (sample_health 5) 7 []") auto
  have "health_ok []" by (simp add: health_ok_def)
  from latest_health_monotone [OF this r, of "[(sample_health 3, 8)]"] r show ?thesis
    by (auto simp: sample_health_def health_step_def instant_def)
qed

end
