(* ===== verification/Json.thy ===== *)
theory Json
  imports Prelude
begin

text \<open>
  The JSON the repositories exchange: values as \<open>json.loads\<close> returns them, the encoder
  \<open>json.dumps(.., separators=(",", ":"), ensure_ascii=False)\<close> with and without \<open>sort_keys\<close> and
  \<open>allow_nan\<close>, the decoder \<open>json.loads\<close>, and what a PostgreSQL \<open>JSONB\<close> column keeps of a document.
  The decoder reads back every document the encoder writes, so equal canonical texts are equal
  documents.

  A \<open>dict\<close> is the list of its items in insertion order, with distinct keys. A \<open>float\<close> is the
  literal that \<open>repr\<close> writes for it. Only code points below 256 occur in strings, so a \<open>\u\<close> escape
  above 255 is not decoded by the model.
\<close>

datatype json =
    JNull
  | JBool bool
  | JInt int
  | JFloat string
  | JStr string
  | JArr "json list"
  | JObj "(string \<times> json) list"

subsection \<open>Encoding\<close>

definition hex_digit :: "nat \<Rightarrow> char" where
  "hex_digit n = char_of (if n < 10 then 48 + n else 87 + n)"

definition json_escape :: "char \<Rightarrow> string" where
  "json_escape c =
     (if c = CHR 0x22 then [CHR 0x5C, CHR 0x22]
      else if c = CHR 0x5C then [CHR 0x5C, CHR 0x5C]
      else if c = CHR 0x0A then [CHR 0x5C, CHR ''n'']
      else if c = CHR 0x0D then [CHR 0x5C, CHR ''r'']
      else if c = CHR 0x09 then [CHR 0x5C, CHR ''t'']
      else if c = CHR 0x0C then [CHR 0x5C, CHR ''f'']
      else if c = CHR 0x08 then [CHR 0x5C, CHR ''b'']
      else let n = of_char c :: nat
           in if n < 32
              then [CHR 0x5C, CHR ''u'', CHR ''0'', CHR ''0'', hex_digit (n div 16), hex_digit (n mod 16)]
              else [c])"

lemma json_escape_code [code]:
  "json_escape c =
     (if c = CHR 0x22 then [CHR 0x5C, CHR 0x22]
      else if c = CHR 0x5C then [CHR 0x5C, CHR 0x5C]
      else if \<not> control_char c then [c]
      else if c = CHR 0x0A then [CHR 0x5C, CHR ''n'']
      else if c = CHR 0x0D then [CHR 0x5C, CHR ''r'']
      else if c = CHR 0x09 then [CHR 0x5C, CHR ''t'']
      else if c = CHR 0x0C then [CHR 0x5C, CHR ''f'']
      else if c = CHR 0x08 then [CHR 0x5C, CHR ''b'']
      else let n = of_char c :: nat
           in [CHR 0x5C, CHR ''u'', CHR ''0'', CHR ''0'', hex_digit (n div 16), hex_digit (n mod 16)])"
  by (auto simp: json_escape_def control_char_def)

definition json_quote :: "string \<Rightarrow> string" where
  "json_quote s = CHR 0x22 # concat (map json_escape s) @ [CHR 0x22]"

fun show_nat :: "nat \<Rightarrow> string" where
  "show_nat n = (if n < 10 then [char_of (48 + n)] else show_nat (n div 10) @ [char_of (48 + n mod 10)])"

declare show_nat.simps [simp del]

definition show_int :: "int \<Rightarrow> string" where
  "show_int n = (if n < 0 then CHR ''-'' # show_nat (nat (- n)) else show_nat (nat n))"

fun join_commas :: "string list \<Rightarrow> string" where
  "join_commas [] = []"
| "join_commas [x] = x"
| "join_commas (x # y # ys) = x @ CHR '','' # join_commas (y # ys)"

primrec json_dumps :: "json \<Rightarrow> string" where
  "json_dumps JNull = ''null''"
| "json_dumps (JBool b) = (if b then ''true'' else ''false'')"
| "json_dumps (JInt n) = show_int n"
| "json_dumps (JFloat t) = t"
| "json_dumps (JStr s) = json_quote s"
| "json_dumps (JArr xs) = CHR ''['' # join_commas (map json_dumps xs) @ '']''"
| "json_dumps (JObj kvs) =
     CHR ''{'' # join_commas (map (\<lambda>kv. json_quote (fst kv) @ CHR '':'' # snd kv) (map (map_prod id json_dumps) kvs)) @ ''}''"

text \<open>\<open>sort_keys=True\<close>: the items of every object in the order of their keys.\<close>

primrec sorted_json :: "json \<Rightarrow> json" where
  "sorted_json JNull = JNull"
| "sorted_json (JBool b) = JBool b"
| "sorted_json (JInt n) = JInt n"
| "sorted_json (JFloat t) = JFloat t"
| "sorted_json (JStr s) = JStr s"
| "sorted_json (JArr xs) = JArr (map sorted_json xs)"
| "sorted_json (JObj kvs) = JObj (sort_key fst (map (map_prod id sorted_json) kvs))"

definition non_finite :: "string list" where
  "non_finite = [''NaN'', ''Infinity'', ''-Infinity'']"

primrec json_finite :: "json \<Rightarrow> bool" where
  "json_finite JNull = True"
| "json_finite (JBool b) = True"
| "json_finite (JInt n) = True"
| "json_finite (JFloat t) = (t \<notin> set non_finite)"
| "json_finite (JStr s) = True"
| "json_finite (JArr xs) = list_all id (map json_finite xs)"
| "json_finite (JObj kvs) = list_all snd (map (map_prod id json_finite) kvs)"

text \<open>The canonical encoder, which refuses \<open>nan\<close> and the infinities.\<close>

definition canonical_json :: "json \<Rightarrow> string" where
  "canonical_json j = json_dumps (sorted_json j)"

definition canonical_dumps :: "json \<Rightarrow> string res" where
  "canonical_dumps j =
     (if json_finite j then Inr (canonical_json j)
      else Inl (ValueError ''Out of range float values are not JSON compliant''))"

subsection \<open>Decoding\<close>

definition json_space :: "char \<Rightarrow> bool" where
  "json_space c \<longleftrightarrow> c = CHR '' '' \<or> c = CHR 0x09 \<or> c = CHR 0x0A \<or> c = CHR 0x0D"

definition skip_space :: "string \<Rightarrow> string" where
  "skip_space s = dropWhile json_space s"

definition hex_value :: "char \<Rightarrow> nat option" where
  "hex_value c = (let n = of_char c :: nat in
     if 48 \<le> n \<and> n \<le> 57 then Some (n - 48)
     else if 97 \<le> n \<and> n \<le> 102 then Some (n - 87)
     else if 65 \<le> n \<and> n \<le> 70 then Some (n - 55) else None)"

definition hex4 :: "char \<Rightarrow> char \<Rightarrow> char \<Rightarrow> char \<Rightarrow> nat option" where
  "hex4 a b c d = (case (hex_value a, hex_value b, hex_value c, hex_value d) of
     (Some p, Some q, Some r, Some s) \<Rightarrow> Some (4096 * p + 256 * q + 16 * r + s) | _ \<Rightarrow> None)"

definition json_unescape :: "char \<Rightarrow> char option" where
  "json_unescape e =
     (if e = CHR 0x22 \<or> e = CHR 0x5C \<or> e = CHR ''/'' then Some e
      else if e = CHR ''n'' then Some (CHR 0x0A)
      else if e = CHR ''r'' then Some (CHR 0x0D)
      else if e = CHR ''t'' then Some (CHR 0x09)
      else if e = CHR ''f'' then Some (CHR 0x0C)
      else if e = CHR ''b'' then Some (CHR 0x08) else None)"

text \<open>The rest of a string literal after its opening quote, and what follows it.\<close>

fun read_string :: "string \<Rightarrow> (string \<times> string) option" where
  "read_string [] = None"
| "read_string (c # r) =
     (if c = CHR 0x22 then Some ([], r)
      else if c = CHR 0x5C then
        (case r of
           [] \<Rightarrow> None
         | e # q \<Rightarrow>
             if e = CHR ''u'' then
               (case q of
                  a # b # x # y # z \<Rightarrow>
                    (case hex4 a b x y of
                       None \<Rightarrow> None
                     | Some n \<Rightarrow> if n < 256 then map_option (apfst ((#) (char_of n))) (read_string z) else None)
                | _ \<Rightarrow> None)
             else (case json_unescape e of
                     None \<Rightarrow> None
                   | Some d \<Rightarrow> map_option (apfst ((#) d)) (read_string q)))
      else if (of_char c :: nat) < 32 then None
      else map_option (apfst ((#) c)) (read_string r))"

text \<open>The number syntax \<open>(-?(?:0|[1-9]\d*))(\.\d+)?([eE][-+]?\d+)?\<close>, piece by piece.\<close>

definition read_sign :: "char list \<Rightarrow> string \<Rightarrow> string \<times> string" where
  "read_sign signs s = (case s of [] \<Rightarrow> ([], []) | c # r \<Rightarrow> if c \<in> set signs then ([c], r) else ([], s))"

definition read_int :: "string \<Rightarrow> (string \<times> string) option" where
  "read_int s = (case read_sign ''-'' s of (sg, r) \<Rightarrow>
     (case r of
        [] \<Rightarrow> None
      | c # q \<Rightarrow> if c = CHR ''0'' then Some (sg @ ''0'', q)
          else if py_digit c then Some (sg @ takeWhile py_digit r, dropWhile py_digit r)
          else None))"

definition read_frac :: "string \<Rightarrow> string \<times> string" where
  "read_frac s = (case s of [] \<Rightarrow> ([], [])
     | c # r \<Rightarrow> if c = CHR ''.'' \<and> takeWhile py_digit r \<noteq> []
         then (c # takeWhile py_digit r, dropWhile py_digit r) else ([], s))"

definition read_exp :: "string \<Rightarrow> string \<times> string" where
  "read_exp s = (case s of [] \<Rightarrow> ([], [])
     | c # q \<Rightarrow>
         if c = CHR ''e'' \<or> c = CHR ''E''
         then (case read_sign ''+-'' q of (sg, r) \<Rightarrow>
                if takeWhile py_digit r \<noteq> []
                then (c # sg @ takeWhile py_digit r, dropWhile py_digit r) else ([], s))
         else ([], s))"

definition int_text :: "string \<Rightarrow> int" where
  "int_text t = (case t of [] \<Rightarrow> 0 | c # r \<Rightarrow> if c = CHR ''-'' then - decimal_value r else decimal_value t)"

definition read_number :: "string \<Rightarrow> (json \<times> string) option" where
  "read_number s = (case read_int s of
       None \<Rightarrow> None
     | Some (i, r) \<Rightarrow>
         (case read_frac r of (f, r1) \<Rightarrow> case read_exp r1 of (e, r2) \<Rightarrow>
            Some (if f = [] \<and> e = [] then JInt (int_text i) else JFloat (i @ f @ e), r2)))"

text \<open>\<open>dict(pairs)\<close>: a repeated key keeps its place and takes the last value.\<close>

primrec dict_put :: "string \<Rightarrow> 'v \<Rightarrow> (string \<times> 'v) list \<Rightarrow> (string \<times> 'v) list" where
  "dict_put k v [] = [(k, v)]"
| "dict_put k v (kv # d) = (if fst kv = k then (k, v) # d else kv # dict_put k v d)"

definition dict_of :: "(string \<times> 'v) list \<Rightarrow> (string \<times> 'v) list" where
  "dict_of kvs = fold (\<lambda>kv d. dict_put (fst kv) (snd kv) d) kvs []"

definition read_word :: "string \<Rightarrow> json option" where
  "read_word w = map_of [(''null'', JNull), (''true'', JBool True), (''false'', JBool False),
     (''NaN'', JFloat ''NaN''), (''Infinity'', JFloat ''Infinity''), (''-Infinity'', JFloat ''-Infinity'')] w"

definition json_words :: "string list" where
  "json_words = [''null'', ''true'', ''false'', ''NaN'', ''Infinity'', ''-Infinity'']"

definition word_at :: "string \<Rightarrow> string option" where
  "word_at s = List.find (\<lambda>w. take (length w) s = w) json_words"

text \<open>
  The recursive descent of \<open>json.loads\<close>, with fuel: a call on \<open>s\<close> with more than twice its length
  never runs out (\<open>read_value_fuel\<close>).
\<close>

fun read_value :: "nat \<Rightarrow> string \<Rightarrow> (json \<times> string) option"
  and read_items :: "nat \<Rightarrow> string \<Rightarrow> (json list \<times> string) option"
  and read_members :: "nat \<Rightarrow> string \<Rightarrow> ((string \<times> json) list \<times> string) option" where
  "read_value 0 s = None"
| "read_value (Suc n) s = (case s of
       [] \<Rightarrow> None
     | c # r \<Rightarrow>
         if c = CHR 0x22 then map_option (apfst JStr) (read_string r)
         else if c = CHR ''['' then
           (case skip_space r of
              [] \<Rightarrow> None
            | d # q \<Rightarrow> if d = CHR '']'' then Some (JArr [], q)
                else map_option (apfst JArr) (read_items n (d # q)))
         else if c = CHR ''{'' then
           (case skip_space r of
              [] \<Rightarrow> None
            | d # q \<Rightarrow> if d = CHR ''}'' then Some (JObj [], q)
                else map_option (apfst (\<lambda>kvs. JObj (dict_of kvs))) (read_members n (d # q)))
         else (case word_at s of
              Some w \<Rightarrow> map_option (\<lambda>j. (j, drop (length w) s)) (read_word w)
            | None \<Rightarrow> read_number s))"
| "read_items 0 s = None"
| "read_items (Suc n) s = (case read_value n s of
       None \<Rightarrow> None
     | Some (v, r) \<Rightarrow> (case skip_space r of
          [] \<Rightarrow> None
        | c # q \<Rightarrow> if c = CHR '']'' then Some ([v], q)
            else if c = CHR '','' then map_option (apfst ((#) v)) (read_items n (skip_space q))
            else None))"
| "read_members 0 s = None"
| "read_members (Suc n) s = (case s of
       [] \<Rightarrow> None
     | c # r \<Rightarrow> if c \<noteq> CHR 0x22 then None else (case read_string r of
          None \<Rightarrow> None
        | Some (k, r1) \<Rightarrow> (case skip_space r1 of
             [] \<Rightarrow> None
           | d # r2 \<Rightarrow> if d \<noteq> CHR '':'' then None else (case read_value n (skip_space r2) of
                None \<Rightarrow> None
              | Some (v, r3) \<Rightarrow> (case skip_space r3 of
                   [] \<Rightarrow> None
                 | e # r4 \<Rightarrow> if e = CHR ''}'' then Some ([(k, v)], r4)
                     else if e = CHR '','' then map_option (apfst ((#) (k, v))) (read_members n (skip_space r4))
                     else None)))))"

definition json_loads :: "string \<Rightarrow> json option" where
  "json_loads s = (case read_value (Suc (2 * length (skip_space s))) (skip_space s) of
       None \<Rightarrow> None
     | Some (j, r) \<Rightarrow> if skip_space r = [] then Some j else None)"

subsection \<open>The decoder reads back the encoder\<close>

lemma hex_digit_lower: "n < 16 \<Longrightarrow> lower_hex (hex_digit n)"
proof -
  have "list_all lower_hex (map hex_digit [0..<16])" by code_simp
  then show "n < 16 \<Longrightarrow> lower_hex (hex_digit n)" by (auto simp: list_all_iff)
qed

lemma hex_value_digit: "n < 16 \<Longrightarrow> hex_value (hex_digit n) = Some n"
  by (auto simp: hex_value_def hex_digit_def Let_def)

lemma hex4_control:
  assumes "n < 32"
  shows "hex4 (CHR ''0'') (CHR ''0'') (hex_digit (n div 16)) (hex_digit (n mod 16)) = Some n"
proof -
  have "hex_value (CHR ''0'') = Some 0" by code_simp
  then show ?thesis using assms by (simp add: hex4_def hex_value_digit)
qed

lemma json_unescape_letters [simp]:
  "json_unescape (CHR ''n'') = Some (CHR 0x0A)" "json_unescape (CHR ''r'') = Some (CHR 0x0D)"
  "json_unescape (CHR ''t'') = Some (CHR 0x09)" "json_unescape (CHR ''f'') = Some (CHR 0x0C)"
  "json_unescape (CHR ''b'') = Some (CHR 0x08)" "json_unescape (CHR 0x22) = Some (CHR 0x22)"
  "json_unescape (CHR 0x5C) = Some (CHR 0x5C)"
  by (simp_all add: json_unescape_def)

lemma read_string_escape:
  "read_string (json_escape c @ t) = map_option (apfst ((#) c)) (read_string t)"
proof -
  consider "c \<in> {CHR 0x22, CHR 0x5C, CHR 0x0A, CHR 0x0D, CHR 0x09, CHR 0x0C, CHR 0x08}"
    | (control) "c \<notin> {CHR 0x22, CHR 0x5C, CHR 0x0A, CHR 0x0D, CHR 0x09, CHR 0x0C, CHR 0x08}"
        and "(of_char c :: nat) < 32"
    | (plain) "c \<notin> {CHR 0x22, CHR 0x5C, CHR 0x0A, CHR 0x0D, CHR 0x09, CHR 0x0C, CHR 0x08}"
        and "\<not> (of_char c :: nat) < 32"
    by blast
  then show ?thesis
  proof cases
    case control
    then have "json_escape c = [CHR 0x5C, CHR ''u'', CHR ''0'', CHR ''0'',
        hex_digit (of_char c div 16), hex_digit (of_char c mod 16)]"
      by (simp add: json_escape_def Let_def)
    then show ?thesis using control(2) by (simp add: hex4_control)
  qed (auto simp: json_escape_def Let_def)
qed

lemma read_string_quote:
  "read_string (concat (map json_escape s) @ CHR 0x22 # rest) = Some (s, rest)"
  by (induction s) (simp_all add: read_string_escape)

text \<open>What may follow a number in an encoded document.\<close>

definition number_ends :: "string \<Rightarrow> bool" where
  "number_ends s \<longleftrightarrow> s = [] \<or> hd s \<in> {CHR '','', CHR '']'', CHR ''}''}"

lemma number_ends_digits:
  assumes "number_ends rest"
  shows "takeWhile py_digit (s @ rest) = takeWhile py_digit s"
    and "dropWhile py_digit (s @ rest) = dropWhile py_digit s @ rest"
proof -
  have "\<not> py_digit (hd rest)" if "rest \<noteq> []"
    using assms that by (auto simp: number_ends_def py_digit_def Let_def)
  then show "takeWhile py_digit (s @ rest) = takeWhile py_digit s"
    and "dropWhile py_digit (s @ rest) = dropWhile py_digit s @ rest"
    by (induction s) (cases rest; simp)+
qed

lemma number_ends_hd:
  assumes "number_ends rest" and "c \<notin> {CHR '','', CHR '']'', CHR ''}''}"
  shows "rest \<noteq> c # r"
  using assms by (auto simp: number_ends_def)

lemma read_sign_ends:
  assumes "number_ends rest" and "set signs \<subseteq> {CHR ''-'', CHR ''+''}"
  shows "read_sign signs (s @ rest) = (fst (read_sign signs s), snd (read_sign signs s) @ rest)"
proof (cases s)
  case Nil
  then show ?thesis using assms by (cases rest) (auto simp: read_sign_def number_ends_def)
qed (simp add: read_sign_def)

lemma read_int_ends:
  assumes "number_ends rest" and "read_int s = Some (i, r)"
  shows "read_int (s @ rest) = Some (i, r @ rest)"
proof -
  obtain sg q where sg: "read_sign ''-'' s = (sg, q)" by fastforce
  then have "q \<noteq> []" using assms(2) by (cases q) (auto simp: read_int_def)
  then obtain c q' where "q = c # q'" by (cases q) auto
  moreover have "read_sign ''-'' (s @ rest) = (sg, q @ rest)"
    using read_sign_ends [OF assms(1), of "''-''" s] sg by simp
  ultimately show ?thesis
    using assms(2) sg number_ends_digits [OF assms(1), of q']
    by (auto simp: read_int_def split: if_splits)
qed

lemma read_frac_ends:
  assumes "number_ends rest"
  shows "read_frac (s @ rest) = (fst (read_frac s), snd (read_frac s) @ rest)"
proof (cases s)
  case Nil
  then show ?thesis using assms by (cases rest) (auto simp: read_frac_def number_ends_def)
qed (simp add: read_frac_def number_ends_digits [OF assms])

lemma read_exp_ends:
  assumes "number_ends rest"
  shows "read_exp (s @ rest) = (fst (read_exp s), snd (read_exp s) @ rest)"
proof (cases s)
  case Nil
  then show ?thesis using assms by (cases rest) (auto simp: read_exp_def number_ends_def)
next
  case (Cons c q)
  obtain sg r where sg: "read_sign ''+-'' q = (sg, r)" by fastforce
  moreover have "read_sign ''+-'' (q @ rest) = (sg, r @ rest)"
    using read_sign_ends [OF assms, of "''+-''" q] sg by simp
  ultimately show ?thesis
    using Cons number_ends_digits [OF assms, of r] by (simp add: read_exp_def)
qed

lemma read_number_ends:
  assumes "number_ends rest" and "read_number s = Some (j, r)"
  shows "read_number (s @ rest) = Some (j, r @ rest)"
proof -
  obtain i q where i: "read_int s = Some (i, q)"
    using assms(2) by (auto simp: read_number_def split: option.splits)
  with assms(2) show ?thesis
    by (auto simp: read_number_def read_int_ends [OF assms(1) i] read_frac_ends [OF assms(1)]
        read_exp_ends [OF assms(1)] split: prod.splits)
qed

lemma digit_char:
  assumes "n < 10"
  shows "py_digit (char_of (48 + n))" and "digit_value (char_of (48 + n)) = int n"
  using assms by (auto simp: py_digit_def digit_value_def Let_def)

lemma show_nat_digits: "list_all py_digit (show_nat n) \<and> show_nat n \<noteq> []"
proof (induction n rule: show_nat.induct)
  case (1 n)
  then show ?case by (subst (1 2) show_nat.simps) (auto simp: digit_char)
qed

lemma decimal_show_nat: "decimal_value (show_nat n) = int n"
proof (induction n rule: show_nat.induct)
  case (1 n)
  have "10 * int (n div 10) + int (n mod 10) = int n" by presburger
  moreover have "decimal_value [char_of (48 + n)] = int n" if "n < 10"
    using that by (simp add: decimal_value_def digit_char)
  ultimately show ?case using 1
    by (subst show_nat.simps) (auto simp: decimal_value_snoc digit_char)
qed

lemma show_nat_head:
  "n = 0 \<and> show_nat n = ''0'' \<or> 0 < n \<and> (\<exists>c r. show_nat n = c # r \<and> c \<noteq> CHR ''0'' \<and> py_digit c)"
proof (induction n rule: show_nat.induct)
  case (1 n)
  show ?case
  proof (cases "n < 10")
    case True
    have "char_of (48 + n) \<noteq> CHR ''0''" if "0 < n"
    proof
      assume "char_of (48 + n) = CHR ''0''"
      moreover have "digit_value (CHR ''0'') = 0" by code_simp
      ultimately show False using digit_char(2) [OF True] that by simp
    qed
    moreover have "char_of (48 :: nat) = CHR ''0''" by code_simp
    ultimately show ?thesis
      using True by (subst (1 2) show_nat.simps) (auto simp: digit_char)
  next
    case False
    with 1 show ?thesis by (subst (1 2) show_nat.simps) auto
  qed
qed

lemma takeWhile_all: "list_all P s \<Longrightarrow> takeWhile P s = s \<and> dropWhile P s = []"
  by (induction s) auto

lemma read_int_show_nat:
  "read_sign ''-'' s = (sg, show_nat n) \<Longrightarrow> read_int s = Some (sg @ show_nat n, [])"
  using show_nat_head [of n] show_nat_digits [of n] takeWhile_all [of py_digit "show_nat n"]
  by (auto simp: read_int_def)

lemma read_number_show_int:
  assumes "number_ends rest"
  shows "read_number (show_int n @ rest) = Some (JInt n, rest)"
proof -
  have neg: "hd (show_nat m) \<noteq> CHR ''-''" for m
    using show_nat_head [of m] by (auto simp: py_digit_def Let_def)
  have "read_number (show_int n) = Some (JInt n, [])"
  proof (cases "n < 0")
    case True
    then have "read_int (show_int n) = Some (show_int n, [])"
      using read_int_show_nat [of "show_int n" "''-''" "nat (- n)"]
      by (simp add: show_int_def read_sign_def)
    moreover have "int_text (show_int n) = n"
      using True by (simp add: int_text_def show_int_def decimal_show_nat)
    ultimately show ?thesis by (simp add: read_number_def read_frac_def read_exp_def)
  next
    case False
    obtain c r where c: "show_nat (nat n) = c # r" "c \<noteq> CHR ''-''"
      using neg [of "nat n"] show_nat_digits [of "nat n"] by (cases "show_nat (nat n)") auto
    then have "read_sign ''-'' (show_int n) = ([], show_nat (nat n))"
      using False by (simp add: show_int_def read_sign_def)
    then have "read_int (show_int n) = Some (show_int n, [])"
      using read_int_show_nat False by (fastforce simp: show_int_def)
    moreover have "int_text (show_int n) = n"
      using False c decimal_show_nat [of "nat n"] by (simp add: int_text_def show_int_def)
    ultimately show ?thesis by (simp add: read_number_def read_frac_def read_exp_def)
  qed
  from read_number_ends [OF assms this] show ?thesis by simp
qed

text \<open>
  The documents Python can hold: a float is a literal the number syntax reads whole, or one of
  the three non-finite words, and the keys of an object are distinct.
\<close>

definition float_literal :: "string \<Rightarrow> bool" where
  "float_literal t \<longleftrightarrow> t \<in> set non_finite \<or> read_number t = Some (JFloat t, [])"

primrec json_wf :: "json \<Rightarrow> bool" where
  "json_wf JNull = True"
| "json_wf (JBool b) = True"
| "json_wf (JInt n) = True"
| "json_wf (JFloat t) = float_literal t"
| "json_wf (JStr s) = True"
| "json_wf (JArr xs) = list_all id (map json_wf xs)"
| "json_wf (JObj kvs) = (distinct (map fst kvs) \<and> list_all snd (map (map_prod id json_wf) kvs))"

lemma dict_put_fresh: "k \<notin> fst ` set d \<Longrightarrow> dict_put k v d = d @ [(k, v)]"
  by (induction d) auto

lemma dict_of_distinct: "distinct (map fst kvs) \<Longrightarrow> dict_of kvs = kvs"
proof (induction kvs rule: rev_induct)
  case (snoc kv kvs)
  then show ?case by (simp add: dict_of_def dict_put_fresh)
qed (simp add: dict_of_def)

text \<open>The first character of an encoded value decides which branch of the decoder reads it.\<close>

definition number_start :: "char \<Rightarrow> bool" where
  "number_start c \<longleftrightarrow> c = CHR ''-'' \<or> py_digit c"

lemma py_digit_zero [simp]: "py_digit (CHR ''0'')"
  by code_simp

lemma read_int_start: "read_int s = Some x \<Longrightarrow> \<exists>c r. s = c # r \<and> number_start c"
  by (cases s) (auto simp: read_int_def read_sign_def number_start_def split: if_splits)

lemma read_number_start: "read_number s = Some x \<Longrightarrow> \<exists>c r. s = c # r \<and> number_start c"
  unfolding read_number_def by (cases "read_int s") (auto dest: read_int_start)

lemma show_int_start: "\<exists>c r. show_int n = c # r \<and> number_start c"
  using read_number_start [of "show_int n"] read_number_show_int [of "[]" n]
  by (auto simp: number_ends_def)

lemma not_number_start [simp]:
  "\<not> number_start (CHR ''n'')" "\<not> number_start (CHR ''t'')" "\<not> number_start (CHR ''f'')"
  "\<not> number_start (CHR ''N'')" "\<not> number_start (CHR ''I'')" "\<not> number_start (CHR 0x22)"
  "\<not> number_start (CHR ''['')" "\<not> number_start (CHR ''{'')" "\<not> number_start (CHR '']'')"
  "\<not> number_start (CHR '' '')" "\<not> number_start (CHR 0x09)" "\<not> number_start (CHR 0x0A)"
  "\<not> number_start (CHR 0x0D)" "\<not> number_start (CHR '','')" "\<not> number_start (CHR ''}'')"
  by code_simp+

lemma number_start_letters:
  assumes "number_start c"
  shows "c \<noteq> CHR ''n''" "c \<noteq> CHR ''t''" "c \<noteq> CHR ''f''" "c \<noteq> CHR ''N''" "c \<noteq> CHR ''I''"
    and "c \<noteq> CHR 0x22" "c \<noteq> CHR ''[''" "c \<noteq> CHR ''{''" "\<not> json_space c" "c \<noteq> CHR '']''"
  using assms by (auto simp: json_space_def)

lemma word_at_hd:
  assumes "word_at (c # r) = Some w"
  shows "w \<in> set json_words \<and> take (length w) (c # r) = w"
  using assms by (simp add: word_at_def find_Some_iff) (metis nth_mem)

lemma word_at_number:
  assumes "number_start c" and "c = CHR ''-'' \<Longrightarrow> r = [] \<or> hd r \<noteq> CHR ''I''"
  shows "word_at (c # r) = None"
proof (rule ccontr)
  assume "word_at (c # r) \<noteq> None"
  then obtain w where w: "w \<in> set json_words" "take (length w) (c # r) = w"
    using word_at_hd by fastforce
  have "w = c # take (length w - 1) r" if "w \<noteq> []"
    using w(2) that by (cases w) auto
  moreover have "w \<noteq> []" using w(1) by (auto simp: json_words_def)
  ultimately have hd: "w = c # take (length w - 1) r" by blast
  then have "c = CHR ''-''"
    using w(1) assms(1) by (auto simp: json_words_def)
  with hd w(1) have "take 8 r = ''Infinity''" by (auto simp: json_words_def numeral_eq_Suc)
  then have "r \<noteq> [] \<and> hd r = CHR ''I''" by (cases r) auto
  with assms(2) \<open>c = CHR ''-''\<close> show False by blast
qed

lemma skip_space_skip [simp]: "\<not> json_space c \<Longrightarrow> skip_space (c # r) = c # r"
  by (simp add: skip_space_def)

lemma json_space_marks [simp]:
  "\<not> json_space (CHR ''['')" "\<not> json_space (CHR '']'')" "\<not> json_space (CHR ''{'')"
  "\<not> json_space (CHR ''}'')" "\<not> json_space (CHR '','')" "\<not> json_space (CHR '':'')"
  "\<not> json_space (CHR 0x22)" "\<not> json_space (CHR ''n'')" "\<not> json_space (CHR ''t'')"
  "\<not> json_space (CHR ''f'')" "\<not> json_space (CHR ''N'')" "\<not> json_space (CHR ''I'')"
  "\<not> json_space (CHR ''-'')"
  by code_simp+

text \<open>Where a number is to be read, the text does not look like \<open>-Infinity\<close>.\<close>

definition number_text :: "string \<Rightarrow> bool" where
  "number_text s \<longleftrightarrow> (\<exists>c r. s = c # r \<and> number_start c \<and> (c = CHR ''-'' \<longrightarrow> r \<noteq> [] \<and> hd r \<noteq> CHR ''I''))"

lemma not_digit_I [simp]: "\<not> py_digit (CHR ''I'')"
  by code_simp

lemma read_number_text:
  assumes "read_number s = Some x"
  shows "number_text s"
proof -
  obtain y where y: "read_int s = Some y"
    using assms unfolding read_number_def by (cases "read_int s") auto
  obtain c r where c: "s = c # r" "number_start c"
    using read_int_start [OF y] by blast
  have "r \<noteq> [] \<and> hd r \<noteq> CHR ''I''" if "c = CHR ''-''"
  proof (cases r)
    case Nil
    with y c that show ?thesis by (simp add: read_int_def read_sign_def)
  next
    case (Cons d q)
    with y c that have "d = CHR ''0'' \<or> py_digit d"
      by (auto simp: read_int_def read_sign_def split: if_splits)
    with Cons show ?thesis by auto
  qed
  with c show ?thesis by (auto simp: number_text_def)
qed

lemma read_value_number:
  assumes "read_number s = Some (j, [])" and "number_ends rest"
  shows "read_value (Suc n) (s @ rest) = Some (j, rest)"
proof -
  obtain c r where c: "s = c # r" "number_start c" "c = CHR ''-'' \<longrightarrow> r \<noteq> [] \<and> hd r \<noteq> CHR ''I''"
    using read_number_text [OF assms(1)] by (auto simp: number_text_def)
  have "word_at (c # r @ rest) = None"
    using c by (intro word_at_number) auto
  moreover have "read_number (c # r @ rest) = Some (j, rest)"
    using read_number_ends [OF assms(2,1)] c(1) by simp
  ultimately show ?thesis using c number_start_letters [OF c(2)] by simp
qed

lemma word_at_word:
  "word_at (''null'' @ rest) = Some ''null''" "word_at (''true'' @ rest) = Some ''true''"
  "word_at (''false'' @ rest) = Some ''false''" "word_at (''NaN'' @ rest) = Some ''NaN''"
  "word_at (''Infinity'' @ rest) = Some ''Infinity''"
  "word_at (''-Infinity'' @ rest) = Some ''-Infinity''"
  by (simp_all add: word_at_def json_words_def)

lemma read_value_word:
  assumes "w \<in> set json_words" and "read_word w = Some j"
  shows "read_value (Suc n) (w @ rest) = Some (j, rest)"
proof -
  have six: "w = ''null'' \<or> w = ''true'' \<or> w = ''false'' \<or> w = ''NaN'' \<or> w = ''Infinity'' \<or> w = ''-Infinity''"
    using assms(1) by (simp add: json_words_def)
  then have at: "word_at (w @ rest) = Some w"
    using word_at_word [of rest] by blast
  from six obtain c r where c: "w = c # r" "c \<noteq> CHR 0x22" "c \<noteq> CHR ''[''" "c \<noteq> CHR ''{''"
    by (elim disjE) simp_all
  have "read_value (Suc n) (w @ rest) =
      (case word_at (w @ rest) of
         Some w' \<Rightarrow> map_option (\<lambda>j. (j, drop (length w') (w @ rest))) (read_word w')
       | None \<Rightarrow> read_number (w @ rest))"
    using c(2-4) unfolding c(1) append_Cons by simp
  with at assms(2) show ?thesis by simp
qed

lemma float_literal_start:
  assumes "float_literal t"
  shows "\<exists>c r. t = c # r \<and> \<not> json_space c \<and> c \<noteq> CHR '']''"
proof (cases "t \<in> set non_finite")
  case True
  then have "t = ''NaN'' \<or> t = ''Infinity'' \<or> t = ''-Infinity''" by (simp add: non_finite_def)
  then show ?thesis by (elim disjE) simp_all
next
  case False
  with assms have "read_number t = Some (JFloat t, [])" by (simp add: float_literal_def)
  from read_number_start [OF this] show ?thesis using number_start_letters by metis
qed

lemma dumps_start:
  assumes "json_wf j"
  shows "\<exists>c r. json_dumps j = c # r \<and> \<not> json_space c \<and> c \<noteq> CHR '']''"
proof (cases j)
  case (JInt n)
  then show ?thesis using show_int_start [of n] number_start_letters by simp metis
next
  case (JFloat t)
  with assms float_literal_start [of t] show ?thesis by simp
next
  case (JBool b)
  then show ?thesis by (cases b) simp_all
qed (simp_all add: json_quote_def)

lemma read_items_dumps:
  assumes "\<And>x rest n. x \<in> set xs \<Longrightarrow> number_ends rest \<Longrightarrow> 2 * length (json_dumps x @ rest) < n
      \<Longrightarrow> read_value n (json_dumps x @ rest) = Some (x, rest)"
    and "\<forall>x\<in>set xs. json_wf x" and "xs \<noteq> []"
    and "2 * length (join_commas (map json_dumps xs) @ CHR '']'' # rest) + 1 < n"
  shows "read_items n (join_commas (map json_dumps xs) @ CHR '']'' # rest) = Some (xs, rest)"
  using assms
proof (induction xs arbitrary: n)
  case (Cons x xs)
  obtain m where n: "n = Suc m" using Cons.prems(4) by (cases n) auto
  show ?case
  proof (cases xs)
    case Nil
    have "read_value m (json_dumps x @ CHR '']'' # rest) = Some (x, CHR '']'' # rest)"
      using Cons.prems(4) n Nil by (intro Cons.prems(1)) (auto simp: number_ends_def)
    then show ?thesis by (simp add: n Nil)
  next
    case (Cons y ys)
    let ?t = "join_commas (map json_dumps xs) @ CHR '']'' # rest"
    have t: "join_commas (map json_dumps (x # xs)) @ CHR '']'' # rest = json_dumps x @ CHR '','' # ?t"
      by (simp add: Cons)
    have "read_value m (json_dumps x @ CHR '','' # ?t) = Some (x, CHR '','' # ?t)"
      using Cons.prems(4) unfolding t n by (intro Cons.prems(1)) (auto simp: number_ends_def)
    moreover have "read_items m ?t = Some (xs, rest)"
      using Cons.prems(2,4) Cons unfolding t n
      by (intro Cons.IH) (auto intro: Cons.prems(1))
    moreover obtain c r where "json_dumps y = c # r" "\<not> json_space c"
      using Cons.prems(2) Cons dumps_start [of y] by auto
    then have "skip_space ?t = ?t"
      by (cases ys) (auto simp: Cons)
    ultimately show ?thesis unfolding t n by simp
  qed
qed simp

definition member_text :: "string \<times> json \<Rightarrow> string" where
  "member_text kv = json_quote (fst kv) @ CHR '':'' # json_dumps (snd kv)"

lemma dumps_object: "json_dumps (JObj kvs) = CHR ''{'' # join_commas (map member_text kvs) @ ''}''"
  by (simp add: member_text_def comp_def cong: map_cong)

lemma read_string_key:
  "json_quote k @ t = CHR 0x22 # (concat (map json_escape k) @ CHR 0x22 # t)"
  by (simp add: json_quote_def)

lemma read_members_dumps:
  assumes "\<And>kv rest n. kv \<in> set kvs \<Longrightarrow> number_ends rest \<Longrightarrow> 2 * length (json_dumps (snd kv) @ rest) < n
      \<Longrightarrow> read_value n (json_dumps (snd kv) @ rest) = Some (snd kv, rest)"
    and "\<forall>kv\<in>set kvs. json_wf (snd kv)" and "kvs \<noteq> []"
    and "2 * length (join_commas (map member_text kvs) @ CHR ''}'' # rest) + 1 < n"
  shows "read_members n (join_commas (map member_text kvs) @ CHR ''}'' # rest) = Some (kvs, rest)"
  using assms
proof (induction kvs arbitrary: n)
  case (Cons kv kvs)
  obtain m where n: "n = Suc m" using Cons.prems(4) by (cases n) auto
  define t where "t = (if kvs = [] then CHR ''}'' # rest
      else CHR '','' # join_commas (map member_text kvs) @ CHR ''}'' # rest)"
  have all: "join_commas (map member_text (kv # kvs)) @ CHR ''}'' # rest = member_text kv @ t"
    by (cases kvs) (simp_all add: t_def)
  have start: "skip_space (json_dumps (snd kv) @ t) = json_dumps (snd kv) @ t"
    using dumps_start [of "snd kv"] Cons.prems(2) by auto
  have "number_ends t" by (simp add: t_def number_ends_def)
  moreover have "2 * length (json_dumps (snd kv) @ t) < m"
    using Cons.prems(4) unfolding all by (simp add: n member_text_def json_quote_def)
  ultimately have v: "read_value m (json_dumps (snd kv) @ t) = Some (snd kv, t)"
    by (intro Cons.prems(1)) simp_all
  have step: "read_members n (member_text kv @ t) =
      (case skip_space t of [] \<Rightarrow> None | e # r4 \<Rightarrow>
         if e = CHR ''}'' then Some ([(fst kv, snd kv)], r4)
         else if e = CHR '','' then map_option (apfst ((#) (fst kv, snd kv))) (read_members m (skip_space r4))
         else None)"
    using start v by (simp add: n member_text_def read_string_key read_string_quote)
  show ?case
  proof (cases kvs)
    case Nil
    then show ?thesis unfolding all step by (simp add: t_def)
  next
    case (Cons kv' kvs')
    let ?u = "join_commas (map member_text kvs) @ CHR ''}'' # rest"
    have "read_members m ?u = Some (kvs, rest)"
      using Cons.prems(2,4) Cons n all
      by (intro Cons.IH Cons.prems(1)) (auto simp: t_def)
    moreover have "skip_space ?u = ?u"
      by (cases kvs') (simp_all add: Cons member_text_def json_quote_def)
    ultimately show ?thesis unfolding all step using Cons by (simp add: t_def)
  qed
qed simp

lemma read_value_dumps:
  assumes "json_wf j" and "number_ends rest" and "2 * length (json_dumps j @ rest) < n"
  shows "read_value n (json_dumps j @ rest) = Some (j, rest)"
  using assms
proof (induction j arbitrary: rest n)
  case (JArr xs)
  obtain m where n: "n = Suc m" using JArr.prems(3) by (cases n) auto
  show ?case
  proof (cases xs)
    case Nil
    then show ?thesis by (simp add: n)
  next
    case (Cons y ys)
    let ?t = "join_commas (map json_dumps xs) @ CHR '']'' # rest"
    have wf: "\<forall>x\<in>set xs. json_wf x" using JArr.prems(1) by (simp add: list_all_iff)
    obtain c r where c: "?t = c # r" "\<not> json_space c" "c \<noteq> CHR '']''"
      using dumps_start [of y] wf Cons by (cases ys) auto
    have "read_items m ?t = Some (xs, rest)"
      using JArr.prems(3) Cons wf n by (intro read_items_dumps JArr.IH) auto
    then show ?thesis using c by (simp add: n)
  qed
next
  case (JObj kvs)
  obtain m where n: "n = Suc m" using JObj.prems(3) by (cases n) auto
  show ?case
  proof (cases kvs)
    case Nil
    then show ?thesis by (simp add: n)
  next
    case (Cons kv kvs')
    let ?t = "join_commas (map member_text kvs) @ CHR ''}'' # rest"
    have wf: "\<forall>kv\<in>set kvs. json_wf (snd kv)" "dict_of kvs = kvs"
      using JObj.prems(1) by (simp_all add: list_all_iff dict_of_distinct)
    obtain r where r: "?t = CHR 0x22 # r"
      using Cons by (cases kvs') (auto simp: member_text_def json_quote_def)
    have "read_members m ?t = Some (kvs, rest)"
    proof (rule read_members_dumps)
      fix kv rest n assume "kv \<in> set kvs" "number_ends rest" "2 * length (json_dumps (snd kv) @ rest) < n"
      with wf(1) show "read_value n (json_dumps (snd kv) @ rest) = Some (snd kv, rest)"
        by (intro JObj.IH [of kv]) (auto intro: snds.intros)
    qed (use JObj.prems(3) Cons wf n dumps_object [of kvs] in auto)
    then show ?thesis using r wf(2) unfolding dumps_object by (simp add: n)
  qed
next
  case (JFloat t)
  obtain m where n: "n = Suc m" using JFloat.prems(3) by (cases n) auto
  show ?case
  proof (cases "t \<in> set non_finite")
    case True
    then have "t \<in> set json_words \<and> read_word t = Some (JFloat t)"
      by (auto simp: non_finite_def json_words_def read_word_def)
    then show ?thesis unfolding n using read_value_word [of t "JFloat t" m rest] by simp
  next
    case False
    with JFloat.prems have "read_number t = Some (JFloat t, [])" by (simp add: float_literal_def)
    from read_value_number [OF this JFloat.prems(2)] show ?thesis by (simp add: n)
  qed
next
  case (JInt k)
  obtain m where n: "n = Suc m" using JInt.prems(3) by (cases n) auto
  have "read_number (show_int k) = Some (JInt k, [])"
    using read_number_show_int [of "[]" k] by (simp add: number_ends_def)
  from read_value_number [OF this JInt.prems(2)] show ?case by (simp add: n)
next
  case (JStr s)
  obtain m where n: "n = Suc m" using JStr.prems(3) by (cases n) auto
  show ?case by (simp add: n read_string_key read_string_quote)
next
  case JNull
  obtain m where n: "n = Suc m" using JNull.prems(3) by (cases n) auto
  show ?case unfolding n using read_value_word [of "''null''" JNull m rest]
    by (simp add: json_words_def read_word_def)
next
  case (JBool b)
  obtain m where n: "n = Suc m" using JBool.prems(3) by (cases n) auto
  show ?case unfolding n using read_value_word [of "if b then ''true'' else ''false''" "JBool b" m rest]
    by (cases b) (simp_all add: json_words_def read_word_def)
qed

subsection \<open>Round trip, and what it says of canonical documents\<close>

lemma json_wf_sorted: "json_wf j \<Longrightarrow> json_wf (sorted_json j)"
proof (induction j)
  case (JObj kvs)
  have keys: "map fst (map (map_prod id sorted_json) kvs) = map fst kvs" by simp
  have "distinct (map fst (sort_key fst (map (map_prod id sorted_json) kvs)))"
  proof -
    have "distinct (map fst (map (map_prod id sorted_json) kvs))"
      using JObj.prems unfolding keys by simp
    then have "inj_on fst (set (map (map_prod id sorted_json) kvs))"
      and "distinct (map (map_prod id sorted_json) kvs)"
      by (simp_all only: distinct_map)
    then show ?thesis by (simp only: distinct_map set_sort distinct_sort)
  qed
  moreover have "json_wf (sorted_json v)" if "(k, v) \<in> set kvs" for k v
    using that JObj.prems by (intro JObj.IH [of "(k, v)"]) (auto simp: list_all_iff)
  ultimately show ?case by (auto simp: list_all_iff)
qed (auto simp: list_all_iff)

lemma json_loads_dumps:
  assumes "json_wf j"
  shows "json_loads (json_dumps j) = Some j"
proof -
  have "skip_space (json_dumps j) = json_dumps j"
    using dumps_start [OF assms] by auto
  moreover have "read_value (Suc (2 * length (json_dumps j))) (json_dumps j) = Some (j, [])"
    using read_value_dumps [OF assms, of "[]" "Suc (2 * length (json_dumps j))"]
    by (simp add: number_ends_def del: read_value.simps)
  ultimately show ?thesis by (simp add: json_loads_def skip_space_def del: read_value.simps)
qed

lemma json_loads_canonical: "json_wf j \<Longrightarrow> json_loads (canonical_json j) = Some (sorted_json j)"
  by (simp add: canonical_json_def json_loads_dumps json_wf_sorted)

lemma canonical_json_inj:
  "json_wf a \<Longrightarrow> json_wf b \<Longrightarrow> canonical_json a = canonical_json b \<longleftrightarrow> sorted_json a = sorted_json b"
  by (metis json_loads_canonical canonical_json_def option.inject)

subsection \<open>The fuel is enough\<close>

lemma read_string_shorter: "read_string s = Some (x, r) \<Longrightarrow> length r < length s"
proof (induction s arbitrary: x r rule: read_string.induct)
  case (2 c s)
  then show ?case
    by (auto split: if_splits list.splits option.splits) (fastforce simp: less_Suc_eq)+
qed simp

lemma skip_space_length: "length (skip_space s) \<le> length s"
  by (simp add: skip_space_def length_dropWhile_le)

lemma read_int_shorter: "read_int s = Some (i, r) \<Longrightarrow> length r < length s"
proof (cases s)
  case (Cons c q)
  assume a: "read_int s = Some (i, r)"
  show ?thesis
  proof (cases "c = CHR ''-''")
    case True
    then have "read_sign ''-'' s = (''-'', q)" by (simp add: Cons read_sign_def)
    with a obtain d p where "q = d # p" by (cases q) (auto simp: read_int_def)
    with a True Cons length_dropWhile_le [of py_digit q] show ?thesis
      by (auto simp: read_int_def read_sign_def split: if_splits)
  next
    case False
    with a Cons length_dropWhile_le [of py_digit q] show ?thesis
      by (auto simp: read_int_def read_sign_def split: if_splits)
  qed
qed (simp add: read_int_def read_sign_def)

lemma read_frac_shorter: "length (snd (read_frac s)) \<le> length s"
proof (cases s)
  case (Cons c q)
  then show ?thesis
    using length_dropWhile_le [of py_digit q] by (auto simp: read_frac_def)
qed (simp add: read_frac_def)

lemma read_sign_shorter: "length (snd (read_sign g s)) \<le> length s"
  by (cases s) (simp_all add: read_sign_def)

lemma read_exp_shorter: "length (snd (read_exp s)) \<le> length s"
proof (cases s)
  case (Cons c q)
  obtain sg r where sg: "read_sign ''+-'' q = (sg, r)" by fastforce
  then have "length r \<le> length q" using read_sign_shorter [of "''+-''" q] by simp
  then show ?thesis
    using Cons sg length_dropWhile_le [of py_digit r] by (auto simp: read_exp_def)
qed (simp add: read_exp_def)

lemma read_number_shorter:
  assumes "read_number s = Some (j, r)"
  shows "length r < length s"
proof -
  obtain i q where i: "read_int s = Some (i, q)"
    using assms unfolding read_number_def by (cases "read_int s") auto
  then have "r = snd (read_exp (snd (read_frac q)))"
    using assms by (auto simp: read_number_def split: prod.splits)
  with read_int_shorter [OF i] read_exp_shorter [of "snd (read_frac q)"] read_frac_shorter [of q]
  show ?thesis by simp
qed

lemma word_at_length: "word_at s = Some w \<Longrightarrow> 0 < length w \<and> length w \<le> length s"
proof -
  assume "word_at s = Some w"
  then have w: "w \<in> set json_words" "take (length w) s = w"
    by (auto simp: word_at_def find_Some_iff)
  from w(1) have "w \<noteq> []" by (auto simp: json_words_def)
  moreover have "length w \<le> length s" using w(2) by (metis length_take min.cobounded1)
  ultimately show ?thesis by simp
qed

lemma read_shorter:
  "read_value n s = Some (j, r) \<Longrightarrow> length r < length s"
  "read_items n s = Some (js, r) \<Longrightarrow> length r < length s"
  "read_members n s = Some (kvs, r) \<Longrightarrow> length r < length s"
proof (induction n arbitrary: s j js kvs r)
  case (Suc n)
  note IH = Suc.IH and sk = skip_space_length
  { case 1
    then obtain c q where s: "s = c # q" by (cases s) auto
    have "length r < length s" if "read_items n (skip_space q) = Some (js, r)" for js
      using IH(2) [OF that] sk [of q] s by simp
    moreover have "length r < length s" if "read_members n (skip_space q) = Some (kvs, r)" for kvs
      using IH(3) [OF that] sk [of q] s by simp
    moreover have "length r < length s" if "skip_space q = d # r" for d
      using sk [of q] that s by simp
    moreover have "length r < length s" if "read_string q = Some (x, r)" for x
      using read_string_shorter [OF that] s by simp
    moreover have "length r < length s" if "read_number s = Some (x, r)" for x
      using read_number_shorter [OF that] .
    moreover have "length r < length s" if "word_at s = Some w" "r = drop (length w) s" for w
      using word_at_length [OF that(1)] that(2) by (cases w) auto
    ultimately show ?case
      using 1 s by (auto split: if_splits option.splits list.splits) }
  { case 2
    then obtain v q where v: "read_value n s = Some (v, q)"
      by (auto split: option.splits)
    from IH(1) [OF this] have q: "length q < length s" .
    from 2 v obtain c p where p: "skip_space q = c # p" by (auto split: list.splits)
    with sk [of q] q have "length p + 1 < length s" by simp
    moreover have "length r < length p" if "read_items n (skip_space p) = Some (ks, r)" for ks
      using IH(2) [OF that] sk [of p] by simp
    ultimately show ?case using 2 v p by (fastforce split: if_splits) }
  { case 3
    then obtain c s1 where s: "s = CHR 0x22 # s1" by (cases s) (auto split: if_splits)
    with 3 obtain k r1 where k: "read_string s1 = Some (k, r1)" by (auto split: option.splits)
    with 3 s obtain r2 where r2: "skip_space r1 = CHR '':'' # r2"
      by (auto split: list.splits if_splits)
    with 3 s k obtain v r3 where v: "read_value n (skip_space r2) = Some (v, r3)"
      by (auto split: option.splits)
    with 3 s k r2 obtain e r4 where e: "skip_space r3 = e # r4" by (auto split: list.splits)
    have "length r4 + 1 < length s"
      using read_string_shorter [OF k] IH(1) [OF v] sk [of r1] sk [of r2] sk [of r3] s r2 e by simp
    moreover have "length r < length r4" if "read_members n (skip_space r4) = Some (ms, r)" for ms
      using IH(3) [OF that] sk [of r4] by simp
    ultimately show ?case using 3 s k r2 v e by (fastforce split: if_splits) }
qed simp_all

text \<open>More fuel than twice the length changes nothing, so the decoder never fails for want of it.\<close>

lemma read_fuel:
  "2 * length s < n \<Longrightarrow> 2 * length s < m \<Longrightarrow> read_value n s = read_value m s"
  "2 * length s + 1 < n \<Longrightarrow> 2 * length s + 1 < m \<Longrightarrow> read_items n s = read_items m s"
  "2 * length s + 1 < n \<Longrightarrow> 2 * length s + 1 < m \<Longrightarrow> read_members n s = read_members m s"
proof (induction n arbitrary: m s)
  case (Suc n)
  note IH = Suc.IH and sk = skip_space_length
  { case 1
    then obtain k where m: "m = Suc k" by (cases m) auto
    show ?case
    proof (cases s)
      case (Cons c q)
      have "read_items n (skip_space q) = read_items k (skip_space q)"
        "read_members n (skip_space q) = read_members k (skip_space q)"
        using 1 sk [of q] unfolding m Cons by (intro IH; simp)+
      then show ?thesis unfolding m Cons by (auto split: list.split)
    qed (simp add: m)
  }
  { case 2
    then obtain k where m: "m = Suc k" by (cases m) auto
    have v: "read_value n s = read_value k s" using 2 unfolding m by (intro IH) simp_all
    have "read_items n (skip_space p) = read_items k (skip_space p)"
      if "read_value k s = Some (x, q)" "skip_space q = c # p" for x q c p
      using 2 sk [of q] sk [of p] read_shorter(1) [OF that(1)] that(2) unfolding m
      by (intro IH) simp_all
    with v show ?case unfolding m by (auto split: option.split list.split)
  }
  { case 3
    then obtain k where m: "m = Suc k" by (cases m) auto
    show ?case
    proof (cases s)
      case (Cons c s1)
      have v: "read_value n (skip_space r2) = read_value k (skip_space r2)"
        if "read_string s1 = Some (x, r1)" "skip_space r1 = d # r2" for x r1 d r2
        using 3 sk [of r1] sk [of r2] read_string_shorter [OF that(1)] that(2) unfolding m Cons
        by (intro IH) simp_all
      have "read_members n (skip_space r4) = read_members k (skip_space r4)"
        if "read_string s1 = Some (x, r1)" "skip_space r1 = d # r2"
          "read_value k (skip_space r2) = Some (y, r3)" "skip_space r3 = e # r4" for x r1 d r2 y r3 e r4
        using 3 sk [of r1] sk [of r2] sk [of r3] sk [of r4] read_string_shorter [OF that(1)]
          read_shorter(1) [OF that(3)] that(2,4) unfolding m Cons
        by (intro IH) simp_all
      with v show ?thesis unfolding m Cons by (auto split: option.split list.split)
    qed (simp add: m)
  }
qed simp_all

lemma read_value_fuel:
  "2 * length s < n \<Longrightarrow> read_value n s = read_value (Suc (2 * length s)) s"
  by (intro read_fuel(1)) simp_all

subsection \<open>Documents in the database and in Python\<close>

text \<open>
  A \<open>JSONB\<close> column keeps the document, not its text: keys are unordered, a number is a
  \<open>numeric\<close>, which is written back without an exponent and has no negative zero, and a string
  may not contain U+0000. A float literal with a positive exponent therefore comes back from the
  database as an integer; one with a negative exponent comes back as the same float.
\<close>

definition pg_float :: "string \<Rightarrow> json" where
  "pg_float t =
     (if t = ''-0.0'' then JFloat ''0.0'' else
      case read_int t of
        None \<Rightarrow> JFloat t
      | Some (i, r) \<Rightarrow>
          (case read_frac r of (f, r1) \<Rightarrow> case read_exp r1 of (e, r2) \<Rightarrow>
             if e = [] \<or> fst (read_sign ''-'' (tl e)) = ''-'' then JFloat t
             else let ex = nat (decimal_value (snd (read_sign ''+'' (tl e)))); fd = length (tl f)
                  in if ex < fd then JFloat t
                     else JInt (int_text (i @ tl f) * 10 ^ (ex - fd))))"

primrec jsonb_value :: "json \<Rightarrow> json" where
  "jsonb_value JNull = JNull"
| "jsonb_value (JBool b) = JBool b"
| "jsonb_value (JInt n) = JInt n"
| "jsonb_value (JFloat t) = pg_float t"
| "jsonb_value (JStr s) = JStr s"
| "jsonb_value (JArr xs) = JArr (map jsonb_value xs)"
| "jsonb_value (JObj kvs) = JObj (sort_key fst (map (map_prod id jsonb_value) kvs))"

primrec json_no_nul :: "json \<Rightarrow> bool" where
  "json_no_nul JNull = True"
| "json_no_nul (JBool b) = True"
| "json_no_nul (JInt n) = True"
| "json_no_nul (JFloat t) = True"
| "json_no_nul (JStr s) = (CHR 0x00 \<notin> set s)"
| "json_no_nul (JArr xs) = list_all id (map json_no_nul xs)"
| "json_no_nul (JObj kvs) = list_all (\<lambda>kv. CHR 0x00 \<notin> set (fst kv) \<and> snd kv) (map (map_prod id json_no_nul) kvs)"

definition to_jsonb :: "json \<Rightarrow> json res" where
  "to_jsonb j =
     (if \<not> json_finite j then Inl (DataError ''invalid input syntax for type json'')
      else if \<not> json_no_nul j then Inl (DataError ''unsupported Unicode escape sequence'')
      else Inr (jsonb_value j))"

text \<open>\<open>$1::jsonb\<close> of a text.\<close>

definition text_to_jsonb :: "string \<Rightarrow> json res" where
  "text_to_jsonb s = (case json_loads s of
       None \<Rightarrow> Inl (DataError ''invalid input syntax for type json'')
     | Some j \<Rightarrow> to_jsonb j)"

text \<open>Documents whose floats the column gives back as they were.\<close>

definition jsonb_exact :: "json \<Rightarrow> bool" where
  "jsonb_exact j \<longleftrightarrow> to_jsonb j = Inr (sorted_json j)"

text \<open>
  Python's \<open>==\<close> on decoded documents: dictionaries without regard to order, and
  \<open>True == 1 == 1.0\<close>. (Floats of magnitude \<open>10^16\<close> and more, which \<open>repr\<close> writes with an exponent,
  are compared by their literal.)
\<close>

primrec json_plain :: "json \<Rightarrow> json" where
  "json_plain JNull = JNull"
| "json_plain (JBool b) = JInt (if b then 1 else 0)"
| "json_plain (JInt n) = JInt n"
| "json_plain (JFloat t) = (case read_int t of
       None \<Rightarrow> JFloat t
     | Some (i, r) \<Rightarrow> (case read_frac r of (f, r1) \<Rightarrow>
          if f \<noteq> [] \<and> r1 = [] \<and> list_all (\<lambda>c. c = CHR ''0'') (tl f) then JInt (int_text i) else JFloat t))"
| "json_plain (JStr s) = JStr s"
| "json_plain (JArr xs) = JArr (map json_plain xs)"
| "json_plain (JObj kvs) = JObj (map (map_prod id json_plain) kvs)"

definition json_eq :: "json \<Rightarrow> json \<Rightarrow> bool" where
  "json_eq a b \<longleftrightarrow> json_plain (sorted_json a) = json_plain (sorted_json b)"

definition json_get :: "string \<Rightarrow> json \<Rightarrow> json option" where
  "json_get k j = (case j of JObj kvs \<Rightarrow> map_of kvs k | _ \<Rightarrow> None)"

definition is_object :: "json \<Rightarrow> bool" where
  "is_object j \<longleftrightarrow> (case j of JObj kvs \<Rightarrow> True | _ \<Rightarrow> False)"

lemma json_eq_refl [simp]: "json_eq j j"
  by (simp add: json_eq_def)

lemma json_finite_sorted [simp]: "json_finite (sorted_json j) = json_finite j"
  by (induction j) (auto simp: list_all_iff comp_def)

lemma sorted_json_idem [simp]: "sorted_json (sorted_json j) = sorted_json j"
proof (induction j)
  case (JObj kvs)
  let ?l = "sort_key fst (map (map_prod id sorted_json) kvs)"
  have "map (map_prod id sorted_json) ?l = ?l"
  proof (rule map_idI)
    fix kv assume "kv \<in> set ?l"
    then obtain k v where v: "(k, v) \<in> set kvs" "kv = (k, sorted_json v)" by auto
    have "sorted_json (sorted_json v) = sorted_json v"
      by (rule JObj.IH [OF v(1)]) (simp add: prod_set_simps)
    with v(2) show "map_prod id sorted_json kv = kv" by simp
  qed
  then show ?case by (simp add: sort_key_id_if_sorted)
qed simp_all

lemma canonical_json_sorted [simp]: "canonical_json (sorted_json j) = canonical_json j"
  by (simp add: canonical_json_def)

lemma canonical_dumps_Inr: "canonical_dumps j = Inr s \<longleftrightarrow> json_finite j \<and> s = canonical_json j"
  by (auto simp: canonical_dumps_def)

lemma insort_key_map:
  "(\<And>x. h (g x) = f x) \<Longrightarrow> map g (insort_key f x xs) = insort_key h (g x) (map g xs)"
  by (induction xs) auto

lemma sort_key_map: "(\<And>x. h (g x) = f x) \<Longrightarrow> map g (sort_key f xs) = sort_key h (map g xs)"
  by (induction xs) (simp_all add: insort_key_map [of h g f])

lemma sort_items_map:
  "map (map_prod id g) (sort_key fst xs) = sort_key fst (map (map_prod id g) xs)"
  by (rule sort_key_map) simp

lemma items_IH:
  assumes "\<And>kv v. kv \<in> set kvs \<Longrightarrow> v \<in> Basic_BNFs.snds kv \<Longrightarrow> g (h v) = g v"
  shows "map (map_prod id g) (map (map_prod id h) kvs) = map (map_prod id g) kvs"
  using assms by (auto simp: prod_set_simps)

lemma jsonb_value_sorted [simp]: "jsonb_value (sorted_json j) = jsonb_value j"
proof (induction j)
  case (JObj kvs)
  have "map (map_prod id jsonb_value) (map (map_prod id sorted_json) kvs) = map (map_prod id jsonb_value) kvs"
    by (rule items_IH) (rule JObj.IH)
  then have "map (map_prod id jsonb_value) (sort_key fst (map (map_prod id sorted_json) kvs))
      = sort_key fst (map (map_prod id jsonb_value) kvs)"
    by (simp only: sort_items_map)
  then show ?case by (simp add: sort_key_id_if_sorted)
qed simp_all

lemma json_no_nul_sorted [simp]: "json_no_nul (sorted_json j) = json_no_nul j"
  by (induction j) (auto simp: list_all_iff comp_def)

lemma map_of_sorted_items:
  assumes "distinct (map fst kvs)"
  shows "map_of (sort_key fst kvs) = map_of kvs"
proof -
  have "inj_on fst (set kvs)" "distinct kvs" using assms by (simp_all add: distinct_map)
  then have "distinct (map fst (sort_key fst kvs))" by (simp add: distinct_map)
  then show ?thesis using assms by (intro map_of_eqI) (auto simp: map_of_eq_Some_iff)
qed

lemma json_get_sorted:
  assumes "distinct (map fst kvs)"
  shows "json_get k (sorted_json (JObj kvs)) = map_option sorted_json (json_get k (JObj kvs))"
proof -
  have keys: "map fst (map (map_prod id sorted_json) kvs) = map fst kvs" by simp
  have "map_of (sort_key fst (map (map_prod id sorted_json) kvs)) = map_of (map (map_prod id sorted_json) kvs)"
    using assms unfolding keys [symmetric] by (rule map_of_sorted_items)
  moreover have "map_of (map (map_prod id sorted_json) kvs) k = map_option sorted_json (map_of kvs k)"
    by (induction kvs) auto
  ultimately show ?thesis by (simp add: json_get_def)
qed

lemma json_finite_jsonb: "json_finite j \<Longrightarrow> json_finite (jsonb_value j)"
proof (induction j)
  case (JFloat t)
  then show ?case by (auto simp: pg_float_def non_finite_def Let_def split: option.split prod.split)
qed (fastforce simp: list_all_iff comp_def prod_set_simps)+

lemma is_object_jsonb [simp]: "is_object (jsonb_value j) = is_object j"
  by (cases j) (auto simp: is_object_def pg_float_def Let_def split: option.split prod.split)

text \<open>A canonical text in a column is the document it encodes.\<close>

lemma text_to_jsonb_canonical: "json_wf j \<Longrightarrow> text_to_jsonb (canonical_json j) = to_jsonb j"
  by (simp add: text_to_jsonb_def json_loads_canonical to_jsonb_def)

text \<open>Evaluating it need not parse the text it has just written.\<close>

definition stored_canonical :: "json \<Rightarrow> json res" where
  [simp]: "stored_canonical j = text_to_jsonb (canonical_json j)"

lemma stored_canonical_code [code]:
  "stored_canonical j = (if json_wf j then to_jsonb j else text_to_jsonb (canonical_json j))"
  by (simp add: text_to_jsonb_canonical)

text \<open>
  When the column keeps the document's floats, its canonical text is the same after it was stored
  and read back.
\<close>

lemma canonical_stored:
  assumes "json_wf j" and "jsonb_exact j"
  shows "\<exists>d. text_to_jsonb (canonical_json j) = Inr d \<and> canonical_dumps d = Inr (canonical_json j)"
  using assms
  by (auto simp: text_to_jsonb_canonical jsonb_exact_def canonical_dumps_Inr to_jsonb_def split: if_splits)

end
