(* ===== verification/IsoTime.thy ===== *)
theory IsoTime
  imports Prelude
begin

text \<open>
  \<open>datetime.fromisoformat\<close> (Python 3.11 and 3.12) on the strings the repositories give it: calendar,
  basic and ISO week dates, a one-character separator, times down to microseconds, and offsets.
  The result is a naive datetime, or the instant of an aware one.
\<close>

definition slice :: "nat \<Rightarrow> nat \<Rightarrow> string \<Rightarrow> string" where
  "slice i j s = take (j - i) (drop i s)"

text \<open>\<open>int(s[i:j])\<close> of a field that is all digits.\<close>

definition field_at :: "nat \<Rightarrow> nat \<Rightarrow> string \<Rightarrow> int option" where
  "field_at i n s = (let t = slice i (i + n) s in
     if length t = n \<and> list_all py_digit t then Some (decimal_value t) else None)"

definition char_is :: "nat \<Rightarrow> char \<Rightarrow> string \<Rightarrow> bool" where
  "char_is i c s \<longleftrightarrow> slice i (Suc i) s = [c]"

definition digit_at :: "nat \<Rightarrow> string \<Rightarrow> bool" where
  "digit_at i s \<longleftrightarrow> (case slice i (Suc i) s of [c] \<Rightarrow> py_digit c | _ \<Rightarrow> False)"

subsection \<open>Dates\<close>

definition leap_year :: "int \<Rightarrow> bool" where
  "leap_year y \<longleftrightarrow> y mod 4 = 0 \<and> (y mod 100 \<noteq> 0 \<or> y mod 400 = 0)"

definition days_in_month :: "int \<Rightarrow> int \<Rightarrow> int" where
  "days_in_month y m =
     (if m = 2 then (if leap_year y then 29 else 28)
      else if m \<in> {4, 6, 9, 11} then 30 else 31)"

text \<open>The day number of a date, the inverse of \<open>civil\<close>.\<close>

definition day_number :: "int \<Rightarrow> int \<Rightarrow> int \<Rightarrow> int" where
  "day_number y0 m d =
     (let y = (if m \<le> 2 then y0 - 1 else y0);
          yoe = y mod 400;
          doy = (153 * (if m > 2 then m - 3 else m + 9) + 2) div 5 + d - 1
      in y div 400 * 146097 + yoe * 365 + yoe div 4 - yoe div 100 + doy - 719468)"

definition date_day :: "int \<Rightarrow> int \<Rightarrow> int \<Rightarrow> int option" where
  "date_day y m d =
     (if 1 \<le> y \<and> 1 \<le> m \<and> m \<le> 12 \<and> 1 \<le> d \<and> d \<le> days_in_month y m
      then Some (day_number y m d) else None)"

text \<open>Monday is 0; 1970-01-01 was a Thursday.\<close>

definition week_day :: "int \<Rightarrow> int" where
  "week_day n = (n + 3) mod 7"

text \<open>A year has a week 53 when its first day is a Thursday, or a Wednesday in a leap year.\<close>

definition week_date :: "int \<Rightarrow> int \<Rightarrow> int \<Rightarrow> int option" where
  "week_date y w d =
     (let first = day_number y 1 1;
          wd = week_day first;
          monday1 = first - wd + (if wd > 3 then 7 else 0);
          last_week = (if wd = 3 \<or> (wd = 2 \<and> leap_year y) then 53 else 52)
      in if 1 \<le> y \<and> 1 \<le> w \<and> w \<le> last_week \<and> 1 \<le> d \<and> d \<le> 7
         then Some (monday1 + (w - 1) * 7 + d - 1) else None)"

definition iso_separator :: "string \<Rightarrow> nat option" where
  "iso_separator s =
     (let n = length s in
      if n < 7 then None else if n = 7 then Some 7
      else if char_is 4 (CHR ''-'') s then
        (if char_is 5 (CHR ''W'') s then
           (if n > 8 \<and> char_is 8 (CHR ''-'') s then
              (if n = 9 then None
               else if n > 10 \<and> digit_at 10 s then Some 8 else Some 10)
            else Some 8)
         else Some 10)
      else if char_is 4 (CHR ''W'') s then
        (let idx = 7 + length (takeWhile py_digit (drop 7 s))
         in if idx < 9 then Some idx else if idx mod 2 = 0 then Some 7 else Some 8)
      else Some 8)"

definition iso_date :: "string \<Rightarrow> int option" where
  "iso_date s =
     (let sep = char_is 4 (CHR ''-'') s; pos = (if sep then 5 else 4); one = (if sep then 1 else 0)
      in case field_at 0 4 s of
           None \<Rightarrow> None
         | Some year \<Rightarrow>
        if length s \<notin> {7, 8, 10} then None
        else if char_is pos (CHR ''W'') s then
          (case field_at (pos + 1) 2 s of
             None \<Rightarrow> None
           | Some week \<Rightarrow>
               if length s = pos + 3 then week_date year week 1
               else if char_is (pos + 3) (CHR ''-'') s \<noteq> sep \<or> length s \<noteq> pos + 4 + one then None
               else (case field_at (pos + 3 + one) 1 s of
                       None \<Rightarrow> None | Some d \<Rightarrow> week_date year week d))
        else (case field_at pos 2 s of
                None \<Rightarrow> None
              | Some month \<Rightarrow>
                  if char_is (pos + 2) (CHR ''-'') s \<noteq> sep \<or> length s \<noteq> pos + 4 + one then None
                  else (case field_at (pos + 2 + one) 2 s of
                          None \<Rightarrow> None | Some d \<Rightarrow> date_day year month d)))"

subsection \<open>Times\<close>

text \<open>\<open>HH[:?MM[:?SS[{.,}fff[fff]]]]\<close> as hours, minutes, seconds and microseconds.\<close>

definition iso_fraction :: "string \<Rightarrow> int option" where
  "iso_fraction s =
     (if s = [] \<or> \<not> list_all py_digit s then None
      else Some (decimal_value (take 6 (s @ ''00000''))))"

definition iso_clock :: "string \<Rightarrow> (int \<times> int \<times> int \<times> int) option" where
  "iso_clock s =
     (let sep = char_is 2 (CHR '':'') s; one = (if sep then 1 else 0); n = length s;
          p1 = 2 + one; p2 = p1 + 2 + one
      in case field_at 0 2 s of
           None \<Rightarrow> None
         | Some h \<Rightarrow>
        if n = 2 then Some (h, 0, 0, 0)
        else (case field_at p1 2 s of
                None \<Rightarrow> None
              | Some m \<Rightarrow>
             if n = p1 + 2 then Some (h, m, 0, 0)
             else if sep \<and> \<not> char_is (p1 + 2) (CHR '':'') s then None
             else (case field_at p2 2 s of
                     None \<Rightarrow> None
                   | Some sec \<Rightarrow>
                  if n = p2 + 2 then Some (h, m, sec, 0)
                  else if char_is (p2 + 2) (CHR ''.'') s \<or> char_is (p2 + 2) (CHR '','') s
                  then map_option (\<lambda>us. (h, m, sec, us)) (iso_fraction (drop (p2 + 3) s))
                  else None)))"

definition clock_us :: "int \<times> int \<times> int \<times> int \<Rightarrow> int" where
  "clock_us c = (case c of (h, m, s, us) \<Rightarrow> ((h * 60 + m) * 60 + s) * 1000000 + us)"

definition zone_mark :: "char \<Rightarrow> bool" where
  "zone_mark c \<longleftrightarrow> c = CHR ''-'' \<or> c = CHR ''+'' \<or> c = CHR ''Z''"

text \<open>The microseconds of the day and the offset from UTC, if there is one.\<close>

definition iso_time :: "string \<Rightarrow> (int \<times> int option) option" where
  "iso_time s =
     (if length s < 2 then None
      else case iso_clock (takeWhile (\<lambda>c. \<not> zone_mark c) s) of
        None \<Rightarrow> None
      | Some (h, m, sec, us) \<Rightarrow>
          if h > 23 \<or> m > 59 \<or> sec > 59 then None
          else let t = clock_us (h, m, sec, us)
               in case dropWhile (\<lambda>c. \<not> zone_mark c) s of
                    [] \<Rightarrow> Some (t, None)
                  | z # r \<Rightarrow>
                      if z = CHR ''Z'' then (if r = [] then Some (t, Some 0) else None)
                      else if length r \<in> {0, 1, 3} then None
                      else (case iso_clock r of
                              None \<Rightarrow> None
                            | Some c \<Rightarrow> if clock_us c \<ge> us_per_day then None
                                else Some (t, Some (if z = CHR ''-'' then - clock_us c else clock_us c))))"

definition fromisoformat :: "string \<Rightarrow> pydatetime option" where
  "fromisoformat s =
     (case iso_separator s of
        None \<Rightarrow> None
      | Some p \<Rightarrow>
          (case iso_date (take p s) of
             None \<Rightarrow> None
           | Some day \<Rightarrow>
               if length s \<le> Suc p then Some (Naive (day * us_per_day))
               else (case iso_time (drop (Suc p) s) of
                       None \<Rightarrow> None
                     | Some (t, None) \<Rightarrow> Some (Naive (day * us_per_day + t))
                     | Some (t, Some off) \<Rightarrow> Some (Aware (day * us_per_day + t - off)))))"

text \<open>The years a \<open>datetime\<close> can hold after \<open>astimezone(UTC)\<close>.\<close>

definition datetime_range :: "timestamp \<Rightarrow> bool" where
  "datetime_range t \<longleftrightarrow> day_number 1 1 1 * us_per_day \<le> t \<and> t < day_number 10000 1 1 * us_per_day"

subsection \<open>Printing\<close>

text \<open>The last \<open>w\<close> decimal digits of a number, as \<open>%0wd\<close> prints one that fits.\<close>

primrec padded :: "nat \<Rightarrow> int \<Rightarrow> string" where
  "padded 0 n = []"
| "padded (Suc w) n = padded w (n div 10) @ [char_of (48 + n mod 10)]"

text \<open>\<open>astimezone(UTC).isoformat(timespec="microseconds")\<close> and \<open>isoformat()\<close> of an instant.\<close>

definition iso_seconds :: "timestamp \<Rightarrow> string" where
  "iso_seconds t = (case utc_date t of (y, m, d) \<Rightarrow>
     (let s = t mod us_per_day div 1000000 in
      padded 4 y @ ''-'' @ padded 2 m @ ''-'' @ padded 2 d @ ''T'' @ padded 2 (s div 3600) @ '':''
        @ padded 2 (s div 60 mod 60) @ '':'' @ padded 2 (s mod 60)))"

definition isoformat_us :: "timestamp \<Rightarrow> string" where
  "isoformat_us t = iso_seconds t @ ''.'' @ padded 6 (t mod 1000000) @ ''+00:00''"

definition isoformat_auto :: "timestamp \<Rightarrow> string" where
  "isoformat_auto t = (if t mod 1000000 = 0 then iso_seconds t @ ''+00:00'' else isoformat_us t)"

subsection \<open>Dates read back\<close>

text \<open>
  The year within a 400-year era. Within an era a day is \<open>36524 c + 1461 b + s\<close>: \<open>c\<close> centuries, then
  \<open>b\<close> blocks of four years, then day \<open>s\<close> of the block.
\<close>

definition era_year :: "int \<Rightarrow> int" where
  "era_year doe = (doe - doe div 1460 + doe div 36524 - doe div 146096) div 365"

definition year_start :: "int \<Rightarrow> int" where
  "year_start yoe = 365 * yoe + yoe div 4 - yoe div 100"

lemma era_year_block:
  assumes c: "0 \<le> c" "c \<le> 3" and b: "0 \<le> b" "b \<le> 24" and s: "0 \<le> s" "s \<le> 1460"
    and last: "b = 24 \<longrightarrow> s \<le> 1459"
  defines "a \<equiv> min (s div 365) 3"
  shows "era_year (36524 * c + 1461 * b + s) = 100 * c + 4 * b + a"
    and "36524 * c + 1461 * b + s - year_start (100 * c + 4 * b + a) = s - 365 * a"
    and "0 \<le> a" and "a \<le> 3"
proof -
  let ?doe = "36524 * c + 1461 * b + s"
  define e where "e = (if 1460 \<le> 24 * c + b + s then 1 else 0 :: int)"
  have lt: "1461 * b + s < 36524" using b s last by auto
  have d1: "?doe div 36524 = c"
  proof -
    have "?doe = c * 36524 + (1461 * b + s)" by simp
    moreover have "(1461 * b + s) div 36524 = 0" using lt b s by (intro div_pos_pos_trivial) auto
    ultimately show ?thesis by simp
  qed
  have d2: "?doe div 1460 = 25 * c + b + e"
  proof -
    have "?doe = (25 * c + b) * 1460 + (24 * c + b + s)" by simp
    moreover have "(24 * c + b + s) div 1460 = e"
      using c b s by (auto simp: e_def div_pos_pos_trivial intro: div_pos_geq[THEN trans])
    ultimately show ?thesis by simp
  qed
  have d3: "?doe div 146096 = 0" using c lt b s by (intro div_pos_pos_trivial) auto
  show a: "0 \<le> a" "a \<le> 3" using s by (simp_all add: a_def)
  have ae: "(s - e) div 365 = a"
    using s c b unfolding a_def e_def by (auto simp: min_def)
  have "?doe - ?doe div 1460 + ?doe div 36524 - ?doe div 146096 = (100 * c + 4 * b) * 365 + (s - e)"
    unfolding d1 d2 d3 by simp
  then have "era_year ?doe = ((100 * c + 4 * b) * 365 + (s - e)) div 365"
    unfolding era_year_def by simp
  also have "\<dots> = 100 * c + 4 * b + (s - e) div 365" by simp
  finally show "era_year ?doe = 100 * c + 4 * b + a" by (simp add: ae)
  have "100 * c + 4 * b + a = (25 * c + b) * 4 + a" "100 * c + 4 * b + a = c * 100 + (4 * b + a)" by simp_all
  moreover have "a div 4 = 0" "(4 * b + a) div 100 = 0" using a b by (intro div_pos_pos_trivial; simp)+
  ultimately have "(100 * c + 4 * b + a) div 4 = 25 * c + b" "(100 * c + 4 * b + a) div 100 = c" by simp_all
  then show "?doe - year_start (100 * c + 4 * b + a) = s - 365 * a" by (simp add: year_start_def)
qed

lemma era_blocks:
  assumes "0 \<le> doe" and "doe < 146096"
  obtains c b s where "doe = 36524 * c + 1461 * b + s" and "0 \<le> c" and "c \<le> (3::int)" and "0 \<le> b" and "b \<le> 24"
    and "0 \<le> s" and "s \<le> 1460" and "b = 24 \<longrightarrow> s \<le> 1459"
proof -
  define r where "r = doe mod 36524"
  have r: "0 \<le> r" "r < 36524" "doe = 36524 * (doe div 36524) + r" by (simp_all add: r_def)
  have c: "0 \<le> doe div 36524" "doe div 36524 \<le> 3"
    using assms zdiv_mono1 [of doe 146095 36524] by (simp_all add: pos_imp_zdiv_nonneg_iff)
  have b: "0 \<le> r div 1461" "r div 1461 \<le> 24"
    using r zdiv_mono1 [of r 36523 1461] by (simp_all add: pos_imp_zdiv_nonneg_iff)
  have s: "0 \<le> r mod 1461" "r mod 1461 \<le> 1460" by simp_all
  have eq: "r = 1461 * (r div 1461) + r mod 1461" by simp
  have "r div 1461 = 24 \<longrightarrow> r mod 1461 \<le> 1459" using r(2) eq by linarith
  with r(3) c b s eq show thesis by (intro that [of "doe div 36524" "r div 1461" "r mod 1461"]) linarith+
qed

lemma era_year_bounds:
  assumes "0 \<le> doe" and "doe < 146097"
  defines "y \<equiv> era_year doe"
  shows "0 \<le> y \<and> y < 400 \<and> 0 \<le> doe - year_start y \<and> doe - year_start y \<le> 365
    \<and> (doe - year_start y = 365 \<longrightarrow> leap_year (y + 1))"
proof (cases "doe = 146096")
  case True
  have "era_year 146096 = 399" "year_start 399 = 145731" by (simp_all add: era_year_def year_start_def)
  then show ?thesis by (simp add: y_def True leap_year_def)
next
  case False
  with assms have "doe < 146096" by simp
  with assms(1) obtain c b s where d: "doe = 36524 * c + 1461 * b + s" "0 \<le> c" "c \<le> (3::int)" "0 \<le> b" "b \<le> 24"
    "0 \<le> s" "s \<le> 1460" "b = 24 \<longrightarrow> s \<le> 1459" by (rule era_blocks)
  define a where "a = min (s div 365) 3"
  note blk = era_year_block [OF d(2-8), folded a_def]
  have y: "y = 100 * c + 4 * b + a" and doy: "doe - year_start y = s - 365 * a"
    using blk(1,2) by (simp_all add: y_def d(1))
  have sa: "0 \<le> s - 365 * a" "s - 365 * a \<le> 365" "s - 365 * a = 365 \<longrightarrow> s = 1460 \<and> a = 3"
    using d(6,7) unfolding a_def by (auto simp: min_def split: if_splits)
  have "leap_year (y + 1)" if "s = 1460" "a = 3"
  proof -
    have "b \<noteq> 24" using d(8) that by auto
    with d(4,5) have "(4 * b + 4) mod 100 = 4 * b + 4" by (intro mod_pos_pos_trivial) auto
    moreover have "y + 1 = c * 100 + (4 * b + 4)" "y + 1 = (25 * c + b + 1) * 4" by (simp_all add: y that)
    ultimately have "(y + 1) mod 100 = 4 * b + 4" "(y + 1) mod 4 = 0" by (metis mod_mult_self3, metis mod_mult_self2_is_0)
    then show ?thesis using d(4) by (simp add: leap_year_def)
  qed
  moreover have "0 \<le> y" "y < 400" using y blk(3,4) d(2-5) by linarith+
  ultimately show ?thesis unfolding doy using sa by blast
qed

lemma leap_year_era: "leap_year (x + k * 400) = leap_year x"
proof -
  have e: "x + k * 400 = x + k * 100 * 4" "x + k * 400 = x + k * 4 * 100" by simp_all
  have "(x + k * 400) mod 4 = x mod 4" unfolding e(1) by (rule mod_mult_self1)
  moreover have "(x + k * 400) mod 100 = x mod 100" unfolding e(2) by (rule mod_mult_self1)
  ultimately show ?thesis by (simp add: leap_year_def)
qed

lemma civil_parts:
  assumes "civil n = (y, m, d)"
  obtains z yoe doy mp q where "z = n + 719468" and "0 \<le> yoe" and "yoe < 400" and "0 \<le> doy" and "doy \<le> 365"
    and "doy = 365 \<longrightarrow> leap_year (yoe + 1)" and "z mod 146097 = year_start yoe + doy"
    and "0 \<le> mp" and "mp \<le> 11" and "153 * mp \<le> 5 * doy + 2" and "5 * doy + 2 < 153 * mp + 153"
    and "q = (153 * mp + 2) div 5" and "m = (if mp < 10 then mp + 3 else mp - 9)"
    and "y = yoe + z div 146097 * 400 + (if m \<le> 2 then 1 else 0)" and "d = doy - q + 1"
proof -
  define z where "z = n + 719468"
  define doe where "doe = z mod 146097"
  define yoe where "yoe = era_year doe"
  define doy where "doy = doe - year_start yoe"
  define mp where "mp = (5 * doy + 2) div 153"
  define q where "q = (153 * mp + 2) div 5"
  have b: "0 \<le> yoe" "yoe < 400" "0 \<le> doy" "doy \<le> 365" "doy = 365 \<longrightarrow> leap_year (yoe + 1)"
    using era_year_bounds [of doe] by (auto simp: doe_def doy_def yoe_def)
  have mp: "0 \<le> mp" "mp \<le> 11"
    using b zdiv_mono1 [of "5 * doy + 2" 1827 153] by (simp_all add: mp_def pos_imp_zdiv_nonneg_iff)
  have mq: "153 * mp \<le> 5 * doy + 2" "5 * doy + 2 < 153 * mp + 153" unfolding mp_def by linarith+
  define m' where "m' = (if mp < 10 then mp + 3 else mp - 9)"
  have "civil n = (yoe + z div 146097 * 400 + (if m' \<le> 2 then 1 else 0), m', doy - q + 1)"
    unfolding civil_def Let_def m'_def q_def mp_def doy_def year_start_def yoe_def era_year_def doe_def z_def ..
  with assms have m: "m = (if mp < 10 then mp + 3 else mp - 9)"
    and y: "y = yoe + z div 146097 * 400 + (if m \<le> 2 then 1 else 0)" and d: "d = doy - q + 1"
    by (auto simp: m'_def)
  have "z mod 146097 = year_start yoe + doy" by (simp add: doy_def doe_def)
  from that [OF z_def b this mp mq q_def m y d] show thesis .
qed

lemma civil_date:
  assumes "civil n = (y, m, d)"
  shows "day_number y m d = n" and "1 \<le> m" and "m \<le> 12" and "1 \<le> d" and "d \<le> days_in_month y m"
proof -
  obtain z yoe doy mp q where z: "z = n + 719468" and b: "0 \<le> yoe" "yoe < 400" "0 \<le> doy" "doy \<le> 365"
      "doy = 365 \<longrightarrow> leap_year (yoe + 1)" and doe: "z mod 146097 = year_start yoe + doy"
      and mp: "0 \<le> mp" "mp \<le> 11" and mq: "153 * mp \<le> 5 * doy + 2" "5 * doy + 2 < 153 * mp + 153"
      and q_def: "q = (153 * mp + 2) div 5" and m: "m = (if mp < 10 then mp + 3 else mp - 9)"
      and y: "y = yoe + z div 146097 * 400 + (if m \<le> 2 then 1 else 0)" and d: "d = doy - q + 1"
    by (rule civil_parts [OF assms])
  have q: "5 * q \<le> 153 * mp + 2" "153 * mp + 2 < 5 * q + 5" unfolding q_def by linarith+
  show "1 \<le> m" "m \<le> 12" using mp by (auto simp: m)
  show "1 \<le> d" using mq q by (simp add: d)
  have y1: "(if m \<le> 2 then y - 1 else y) = yoe + z div 146097 * 400" by (simp add: y)
  have "(if m > 2 then m - 3 else m + 9) = mp" using mp by (auto simp: m)
  moreover have "(yoe + z div 146097 * 400) mod 400 = yoe" "(yoe + z div 146097 * 400) div 400 = z div 146097"
    using b(1,2) by (simp_all add: mod_pos_pos_trivial div_pos_pos_trivial)
  ultimately have "day_number y m d = z div 146097 * 146097 + year_start yoe + (q + d - 1) - 719468"
    unfolding day_number_def Let_def y1 by (simp add: year_start_def q_def)
  also have "\<dots> = z div 146097 * 146097 + z mod 146097 - 719468" by (simp add: d doe)
  also have "\<dots> = n" by (simp add: z)
  finally show "day_number y m d = n" .
  have feb: "leap_year y" if "doy = 365" "mp = 11"
  proof -
    have "y = yoe + 1 + z div 146097 * 400" using that m y by simp
    moreover have "leap_year (yoe + 1)" using b(5) that by simp
    ultimately show ?thesis by (simp add: leap_year_era)
  qed
  have "mp \<in> {0,1,2,3,4,5,6,7,8,9,10,11}" using mp by (simp; presburger)
  moreover have "mp = 11 \<and> \<not> leap_year y \<longrightarrow> doy \<le> 364" using feb b(4) by force
  ultimately show "d \<le> days_in_month y m"
    using mq q b(4) unfolding d m days_in_month_def by auto
qed

text \<open>The instants a \<open>datetime\<close> can hold have a year from 1 to 9999.\<close>

lemma civil_year:
  assumes "civil n = (y, m, d)" and "day_number 1 1 1 \<le> n" and "n < day_number 10000 1 1"
  shows "1 \<le> y" and "y \<le> 9999"
proof -
  obtain z yoe doy mp q where z: "z = n + 719468" and b: "0 \<le> yoe" "yoe < 400" "0 \<le> doy" "doy \<le> 365"
      and doe: "z mod 146097 = year_start yoe + doy"
      and mp: "0 \<le> mp" "mp \<le> 11" and mq: "153 * mp \<le> 5 * doy + 2" "5 * doy + 2 < 153 * mp + 153"
      and m: "m = (if mp < 10 then mp + 3 else mp - 9)"
      and y: "y = yoe + z div 146097 * 400 + (if m \<le> 2 then 1 else 0)"
    by (rule civil_parts [OF assms(1)])
  have zb: "306 \<le> z" "z < 3652365" using assms(2,3) z by (simp_all add: day_number_def)
  then have era: "0 \<le> z div 146097" "z div 146097 \<le> 24"
    using zdiv_mono1 [of z 3652364 146097] by (simp_all add: pos_imp_zdiv_nonneg_iff)
  have zz: "z = z div 146097 * 146097 + (year_start yoe + doy)" by (simp flip: doe)
  show "1 \<le> y"
  proof (cases "yoe + z div 146097 * 400 = 0")
    case True
    then have "yoe = 0" "z div 146097 = 0" using b era by linarith+
    then have "306 \<le> doy" using zz zb by (simp add: year_start_def)
    then have "10 \<le> mp" using mq by linarith
    then show ?thesis using True mp by (simp add: y m)
  next
    case False
    then show ?thesis using b era by (simp add: y)
  qed
  show "y \<le> 9999"
  proof (cases "yoe + z div 146097 * 400 = 9999")
    case True
    then have "yoe = 399" "z div 146097 = 24" using b era by linarith+
    then have "doy \<le> 305" using zz zb by (simp add: year_start_def)
    then have "mp < 10" using mq by linarith
    then show ?thesis using True mp by (simp add: y m)
  next
    case False
    then show ?thesis using b era by (simp add: y)
  qed
qed

subsection \<open>Printed instants read back\<close>

lemma zone_mark_digit: "zone_mark c \<Longrightarrow> \<not> py_digit c"
  by (auto simp: zone_mark_def py_digit_def Let_def)

lemma digit_of_mod: "py_digit (char_of (48 + n mod 10))" "digit_value (char_of (48 + n mod 10)) = n mod (10::int)"
  "\<not> zone_mark (char_of (48 + n mod 10))"
proof -
  have r: "0 \<le> n mod 10" "n mod 10 < 10" by simp_all
  then obtain k :: nat where k: "n mod 10 = int k" "k < 10" by (metis nat_0_le of_nat_less_iff of_nat_numeral)
  have c: "char_of (48 + int k) = (char_of (48 + k) :: char)"
    by (simp add: char_of_def take_bit_eq_mod bit_simps char_of_eq_iff)
      (metis of_nat_add of_nat_numeral bit_of_nat_iff_bit)
  have o: "of_char (char_of (48 + k) :: char) = (48 + k :: nat)" using k(2) by simp
  show "py_digit (char_of (48 + n mod 10))" "digit_value (char_of (48 + n mod 10)) = n mod 10"
    using k o by (simp_all add: c py_digit_def digit_value_def Let_def)
  then show "\<not> zone_mark (char_of (48 + n mod 10))" by (auto dest: zone_mark_digit)
qed

lemma padded_digits: "list_all py_digit (padded w n)" "length (padded w n) = w"
  "list_all (\<lambda>c. \<not> zone_mark c) (padded w n)"
  by (induction w arbitrary: n) (simp_all add: digit_of_mod)

lemma padded_value: "decimal_value (padded w n) = n mod 10 ^ w"
proof (induction w arbitrary: n)
  case 0
  then show ?case by (simp add: decimal_value_def)
next
  case (Suc w)
  have "n mod (10 * 10 ^ w) = 10 * (n div 10 mod 10 ^ w) + n mod 10" by (simp add: zmod_zmult2_eq)
  with Suc show ?case by (simp add: decimal_value_snoc digit_of_mod)
qed

lemma padded_fits: "0 \<le> n \<Longrightarrow> n < 10 ^ w \<Longrightarrow> decimal_value (padded w n) = n"
  by (simp add: padded_value)

lemma digit_not_mark:
  assumes "py_digit c"
  shows "c \<noteq> CHR ''-''" "c \<noteq> CHR ''W''" "c \<noteq> CHR '':''" "c \<noteq> CHR ''.''" "c \<noteq> CHR '',''" "\<not> zone_mark c"
  using assms by (auto simp: py_digit_def Let_def dest: zone_mark_digit)

lemma padded_2:
  assumes "0 \<le> n" and "n < 100"
  obtains a b where "padded 2 n = [a, b]" and "py_digit a" and "py_digit b" and "decimal_value [a, b] = n"
proof -
  obtain a b where "padded 2 n = [a, b]"
    using padded_digits(2) [of 2 n] by (auto simp: numeral_2_eq_2 length_Suc_conv)
  with that [of a b] padded_digits(1) [of 2 n] padded_fits [of n 2] assms show thesis by simp
qed

lemma padded_4:
  assumes "0 \<le> n" and "n < 10000"
  obtains a b c d where "padded 4 n = [a, b, c, d]" and "py_digit a" and "py_digit b" and "py_digit c"
    and "py_digit d" and "decimal_value [a, b, c, d] = n"
proof -
  obtain a b c d where "padded 4 n = [a, b, c, d]"
    using padded_digits(2) [of 4 n] by (auto simp: numeral_eq_Suc length_Suc_conv)
  with that [of a b c d] padded_digits(1) [of 4 n] padded_fits [of n 4] assms show thesis by simp
qed

lemma padded_6:
  assumes "0 \<le> n" and "n < 1000000"
  obtains a b c d e f where "padded 6 n = [a, b, c, d, e, f]" and "list_all py_digit [a, b, c, d, e, f]"
    and "decimal_value [a, b, c, d, e, f] = n"
proof -
  obtain a b c d e f where "padded 6 n = [a, b, c, d, e, f]"
    using padded_digits(2) [of 6 n] by (auto simp: numeral_eq_Suc length_Suc_conv)
  with that [of a b c d e f] padded_digits(1) [of 6 n] padded_fits [of n 6] assms show thesis by simp
qed

lemma iso_date_digits:
  assumes "py_digit y1" "py_digit y2" "py_digit y3" "py_digit y4" "py_digit m1" "py_digit m2" "py_digit d1" "py_digit d2"
  shows "iso_date [y1, y2, y3, y4, CHR ''-'', m1, m2, CHR ''-'', d1, d2]
    = date_day (decimal_value [y1, y2, y3, y4]) (decimal_value [m1, m2]) (decimal_value [d1, d2])"
  using assms digit_not_mark [of m1]
  by (simp add: iso_date_def Let_def char_is_def slice_def field_at_def)

lemma iso_clock_seconds:
  assumes "py_digit h1" "py_digit h2" "py_digit m1" "py_digit m2" "py_digit s1" "py_digit s2"
  shows "iso_clock [h1, h2, CHR '':'', m1, m2, CHR '':'', s1, s2]
    = Some (decimal_value [h1, h2], decimal_value [m1, m2], decimal_value [s1, s2], 0)"
  using assms by (simp add: iso_clock_def Let_def char_is_def slice_def field_at_def)

lemma iso_clock_fraction:
  assumes "py_digit h1" "py_digit h2" "py_digit m1" "py_digit m2" "py_digit s1" "py_digit s2"
    and "list_all py_digit [a, b, c, d, e, f]"
  shows "iso_clock [h1, h2, CHR '':'', m1, m2, CHR '':'', s1, s2, CHR ''.'', a, b, c, d, e, f]
    = Some (decimal_value [h1, h2], decimal_value [m1, m2], decimal_value [s1, s2], decimal_value [a, b, c, d, e, f])"
  using assms by (simp add: iso_clock_def Let_def char_is_def slice_def field_at_def iso_fraction_def)

text \<open>The time of day as \<open>isoformat\<close> prints it, with its UTC offset.\<close>

definition clock_text :: "int \<Rightarrow> string" where
  "clock_text r = (let s = r div 1000000 in
     padded 2 (s div 3600) @ '':'' @ padded 2 (s div 60 mod 60) @ '':'' @ padded 2 (s mod 60)
       @ (if r mod 1000000 = 0 then [] else ''.'' @ padded 6 (r mod 1000000)) @ ''+00:00'')"

lemma clock_parts:
  assumes "0 \<le> r" and "r < us_per_day"
  defines "s \<equiv> r div 1000000"
  shows "0 \<le> s div 3600" "s div 3600 \<le> 23" "0 \<le> s div 60 mod 60" "s div 60 mod 60 \<le> 59" "0 \<le> s mod 60" "s mod 60 \<le> 59"
    and "clock_us (s div 3600, s div 60 mod 60, s mod 60, r mod 1000000) = r"
proof -
  have s: "0 \<le> s" "s \<le> 86399"
    using assms(1,2) zdiv_mono1 [of r 86399999999 1000000]
    by (simp_all add: s_def us_per_day_def pos_imp_zdiv_nonneg_iff)
  show "0 \<le> s div 3600" "s div 3600 \<le> 23"
    using s zdiv_mono1 [of s 86399 3600] by (simp_all add: pos_imp_zdiv_nonneg_iff)
  show "0 \<le> s div 60 mod 60" "s div 60 mod 60 \<le> 59" "0 \<le> s mod 60" "s mod 60 \<le> 59" by simp_all
  have "s div 3600 = s div 60 div 60" by (simp add: zdiv_zmult2_eq [of 60 s 60, simplified])
  then have "(s div 3600 * 60 + s div 60 mod 60) * 60 + s mod 60 = s" by simp
  then show "clock_us (s div 3600, s div 60 mod 60, s mod 60, r mod 1000000) = r"
    unfolding clock_us_def prod.case by (simp only:) (simp add: s_def)
qed

lemma iso_time_clock:
  assumes "0 \<le> r" and "r < us_per_day"
  shows "iso_time (clock_text r) = Some (r, Some 0)"
proof -
  define s where "s = r div 1000000"
  note p = clock_parts [OF assms, folded s_def]
  have lt: "s div 3600 < 100" "s div 60 mod 60 < 100" "s mod 60 < 100" "0 \<le> r mod 1000000" "r mod 1000000 < 1000000"
    using p(2,4,6) by simp_all
  obtain h1 h2 where h: "padded 2 (s div 3600) = [h1, h2]" "py_digit h1" "py_digit h2" "decimal_value [h1, h2] = s div 3600"
    by (rule padded_2 [OF p(1) lt(1)])
  obtain m1 m2 where m: "padded 2 (s div 60 mod 60) = [m1, m2]" "py_digit m1" "py_digit m2"
      "decimal_value [m1, m2] = s div 60 mod 60"
    by (rule padded_2 [OF p(3) lt(2)])
  obtain s1 s2 where se: "padded 2 (s mod 60) = [s1, s2]" "py_digit s1" "py_digit s2" "decimal_value [s1, s2] = s mod 60"
    by (rule padded_2 [OF p(5) lt(3)])
  obtain a b c d e f where u: "padded 6 (r mod 1000000) = [a, b, c, d, e, f]" "list_all py_digit [a, b, c, d, e, f]"
      "decimal_value [a, b, c, d, e, f] = r mod 1000000"
    by (rule padded_6 [OF lt(4,5)])
  have z: "zone_mark (CHR ''+'')" "\<not> zone_mark (CHR '':'')" "\<not> zone_mark (CHR ''.'')" by code_simp+
  have off: "iso_clock ''00:00'' = Some (0, 0, 0, 0)" by code_simp
  have nz: "list_all (\<lambda>c. \<not> zone_mark c) [h1, h2, m1, m2, s1, s2]"
      "list_all (\<lambda>c. \<not> zone_mark c) [a, b, c, d, e, f]"
    using h(2,3) m(2,3) se(2,3) u(2) by (simp_all add: digit_not_mark(6))
  have us: "\<not> us_per_day \<le> clock_us (0, 0, 0, 0)" "clock_us (0, 0, 0, 0) = 0" by code_simp+
  let ?H = "decimal_value [h1, h2]" and ?M = "decimal_value [m1, m2]" and ?S = "decimal_value [s1, s2]"
  have b: "\<not> (?H > 23 \<or> ?M > 59 \<or> ?S > 59)" using p(2,4,6) unfolding h(4) m(4) se(4) by simp
  have c: "clock_us (?H, ?M, ?S, r mod 1000000) = r" using p(7) unfolding h(4) m(4) se(4) .
  have read: "iso_time (l @ CHR ''+'' # ''00:00'') = Some (r, Some 0)"
    if l: "l = h1 # l'" "list_all (\<lambda>c. \<not> zone_mark c) l" and clk: "iso_clock l = Some (?H, ?M, ?S, r mod 1000000)" for l l'
  proof -
    have w: "takeWhile (\<lambda>c. \<not> zone_mark c) (l @ CHR ''+'' # ''00:00'') = l"
      "dropWhile (\<lambda>c. \<not> zone_mark c) (l @ CHR ''+'' # ''00:00'') = CHR ''+'' # ''00:00''"
      using l(2) z(1) by (induction l) simp_all
    have n: "\<not> length (l @ CHR ''+'' # ''00:00'') < 2" by (simp add: l(1))
    show ?thesis
      unfolding iso_time_def w clk option.case prod.case if_not_P [OF n] if_not_P [OF b] Let_def c
      by (simp add: off us us_per_day_def)
  qed
  show ?thesis
  proof (cases "r mod 1000000 = 0")
    case True
    have shape: "clock_text r = [h1, h2, CHR '':'', m1, m2, CHR '':'', s1, s2] @ CHR ''+'' # ''00:00''"
      unfolding clock_text_def Let_def s_def [symmetric] h(1) m(1) se(1) if_P [OF True] by simp
    show ?thesis unfolding shape
    proof (rule read [OF refl])
      show "list_all (\<lambda>c. \<not> zone_mark c) [h1, h2, CHR '':'', m1, m2, CHR '':'', s1, s2]" using nz(1) z by simp
    qed (simp only: iso_clock_seconds [OF h(2,3) m(2,3) se(2,3)] True)
  next
    case False
    have shape: "clock_text r = [h1, h2, CHR '':'', m1, m2, CHR '':'', s1, s2, CHR ''.'', a, b, c, d, e, f] @ CHR ''+'' # ''00:00''"
      unfolding clock_text_def Let_def s_def [symmetric] h(1) m(1) se(1) u(1) if_not_P [OF False] by simp
    show ?thesis unfolding shape
    proof (rule read [OF refl])
      show "list_all (\<lambda>c. \<not> zone_mark c) [h1, h2, CHR '':'', m1, m2, CHR '':'', s1, s2, CHR ''.'', a, b, c, d, e, f]"
        using nz z by simp
    qed (simp only: iso_clock_fraction [OF h(2,3) m(2,3) se(2,3) u(2)] u(3))
  qed
qed

text \<open>\<open>fromisoformat\<close> reads back every instant that \<open>isoformat\<close> prints.\<close>

lemma fromisoformat_isoformat:
  assumes "datetime_range t"
  shows "fromisoformat (isoformat_auto t) = Some (Aware t)"
proof -
  define n where "n = t div us_per_day"
  define r where "r = t mod us_per_day"
  have us: "us_per_day = 86400000000" by (simp add: us_per_day_def)
  have r: "0 \<le> r" "r < us_per_day" by (simp_all add: r_def us)
  obtain y m d where date: "civil n = (y, m, d)" by (cases "civil n") auto
  have "day_number 1 1 1 \<le> n" "n < day_number 10000 1 1"
    using assms zdiv_mono1 [of "- 62135596800000000" t 86400000000] zdiv_mono1 [of t 253402300799999999 86400000000]
    by (simp_all add: datetime_range_def n_def us day_number_def)
  then have yb: "1 \<le> y" "y \<le> 9999" using civil_year [OF date] by simp_all
  note cd = civil_date [OF date]
  have "days_in_month y m \<le> 31" by (simp add: days_in_month_def)
  then have db: "1 \<le> m" "m \<le> 12" "1 \<le> d" "d \<le> 31" "date_day y m d = Some n"
    using cd yb by (simp_all add: date_day_def)
  obtain y1 y2 y3 y4 where y: "padded 4 y = [y1, y2, y3, y4]" "py_digit y1" "py_digit y2" "py_digit y3" "py_digit y4"
      "decimal_value [y1, y2, y3, y4] = y"
    by (rule padded_4 [of y]) (use yb in auto)
  obtain m1 m2 where m: "padded 2 m = [m1, m2]" "py_digit m1" "py_digit m2" "decimal_value [m1, m2] = m"
    by (rule padded_2 [of m]) (use db in auto)
  obtain d1 d2 where d: "padded 2 d = [d1, d2]" "py_digit d1" "py_digit d2" "decimal_value [d1, d2] = d"
    by (rule padded_2 [of d]) (use db in auto)
  have rt: "t mod 1000000 = r mod 1000000"
    unfolding r_def us by (simp add: mod_mod_cancel)
  let ?date = "[y1, y2, y3, y4, CHR ''-'', m1, m2, CHR ''-'', d1, d2]"
  have shape: "isoformat_auto t = ?date @ CHR ''T'' # clock_text r"
    by (simp add: isoformat_auto_def isoformat_us_def iso_seconds_def utc_date_def n_def [symmetric] date rt
        r_def [symmetric] clock_text_def Let_def y m d)
  have len: "8 < length (clock_text r)" by (simp add: clock_text_def Let_def padded_digits(2))
  have "iso_separator (isoformat_auto t) = Some 10"
    using len digit_not_mark(2) [OF m(2)] unfolding shape by (simp add: iso_separator_def Let_def char_is_def slice_def)
  moreover have "iso_date ?date = Some n" using iso_date_digits y m d db(5) by simp
  moreover have "clock_text r \<noteq> []" using len by auto
  moreover have "n * us_per_day + r - 0 = t" by (simp add: n_def r_def)
  ultimately show ?thesis
    using len iso_time_clock [OF r] unfolding fromisoformat_def by (simp add: shape)
qed

end
