(* ===== verification/AuditLog.thy ===== *)
theory AuditLog
  imports SqlTable Json IsoTime
begin

text \<open>
  The audit log of \<open>kairos_persistence/repository.py\<close>: table \<open>event_audit\<close> of migration 001 and the
  methods of \<open>AuditRepository\<close> that append to it. \<open>sha\<close> stands for
  \<open>hashlib.sha256(text.encode("utf-8")).hexdigest()\<close> and a message of the external package
  \<open>kairos_core\<close> is the record of the fields the code reads.
\<close>

record kairos_message =
  km_message_id :: string
  km_source :: string
  km_schema_version :: string
  km_produced_at :: timestamp
  km_correlation_id :: "string option"
  km_causation_id :: "string option"
  km_dump_json :: string

record audit_row =
  ev_produced_at :: timestamp
  ev_message_id :: string
  ev_topic :: string
  ev_source :: string
  ev_schema_version :: string
  ev_correlation_id :: "string option"
  ev_causation_id :: "string option"
  ev_payload :: json

definition audit_key :: "audit_row \<Rightarrow> timestamp \<times> string" where
  "audit_key r = (ev_produced_at r, ev_message_id r)"

text \<open>\<open>INSERT .. ON CONFLICT (produced_at, message_id) DO NOTHING\<close>.\<close>

definition insert_audit :: "audit_row \<Rightarrow> audit_row list \<Rightarrow> bool \<times> audit_row list" where
  "insert_audit row t =
     (if audit_key row \<in> set (map audit_key t) then (False, t) else (True, insert_row row t))"

definition append_event ::
  "string \<Rightarrow> kairos_message \<Rightarrow> audit_row list \<Rightarrow> (bool \<times> audit_row list) res" where
  "append_event topic m t =
     rbind (text_to_jsonb (km_dump_json m)) (\<lambda>payload.
       Inr (insert_audit
         \<lparr>ev_produced_at = km_produced_at m, ev_message_id = km_message_id m, ev_topic = topic,
          ev_source = km_source m, ev_schema_version = km_schema_version m,
          ev_correlation_id = km_correlation_id m, ev_causation_id = km_causation_id m,
          ev_payload = payload\<rparr> t))"

text \<open>\<open>payload.get(k)\<close> as the checks and the driver see it.\<close>

definition str_field :: "string \<Rightarrow> json \<Rightarrow> string option" where
  "str_field k payload = (case json_get k payload of Some (JStr s) \<Rightarrow> Some s | _ \<Rightarrow> None)"

definition filled_field :: "string \<Rightarrow> json \<Rightarrow> string option" where
  "filled_field k payload =
     (case str_field k payload of None \<Rightarrow> None | Some s \<Rightarrow> if s = [] then None else Some s)"

definition text_param :: "string \<Rightarrow> json \<Rightarrow> string option res" where
  "text_param k payload = (case json_get k payload of
       None \<Rightarrow> Inr None
     | Some JNull \<Rightarrow> Inr None
     | Some (JStr s) \<Rightarrow> Inr (Some s)
     | Some _ \<Rightarrow> Inl (DataError ''expected str''))"

definition replace_Z :: "string \<Rightarrow> string" where
  "replace_Z s = concat (map (\<lambda>c. if c = CHR ''Z'' then ''+00:00'' else [c]) s)"

definition payload_produced_at :: "json \<Rightarrow> timestamp res" where
  "payload_produced_at payload = (case str_field ''produced_at'' payload of
       None \<Rightarrow> Inl (ValueError ''durable payload requires an ISO-8601 produced_at string'')
     | Some s \<Rightarrow> (case fromisoformat (replace_Z s) of
          None \<Rightarrow> Inl (ValueError ''durable payload produced_at is not valid ISO-8601'')
        | Some (Naive t) \<Rightarrow> Inl (ValueError ''durable payload produced_at must be timezone-aware'')
        | Some (Aware t) \<Rightarrow> if datetime_range t then Inr t
            else Inl (OverflowError ''date value out of range'')))"

definition append_payload ::
  "string \<Rightarrow> json \<Rightarrow> audit_row list \<Rightarrow> (bool \<times> audit_row list) res" where
  "append_payload topic payload t =
     (case (filled_field ''message_id'' payload, filled_field ''source'' payload,
            filled_field ''schema_version'' payload) of
        (Some message_id, Some source, Some schema_version) \<Rightarrow>
          rbind (payload_produced_at payload) (\<lambda>at.
          rbind (text_param ''correlation_id'' payload) (\<lambda>correlation.
          rbind (text_param ''causation_id'' payload) (\<lambda>causation.
          rbind (stored_canonical payload) (\<lambda>doc.
            Inr (insert_audit
              \<lparr>ev_produced_at = at, ev_message_id = message_id, ev_topic = topic, ev_source = source,
               ev_schema_version = schema_version, ev_correlation_id = correlation,
               ev_causation_id = causation, ev_payload = doc\<rparr> t)))))
      | _ \<Rightarrow> Inl (ValueError
             ''durable payload requires message_id, source and schema_version strings''))"

definition require_matching_audit_identity ::
  "audit_row list \<Rightarrow> string \<Rightarrow> string \<Rightarrow> unit res" where
  "require_matching_audit_identity rows topic canonical =
     (case rows of
        [row] \<Rightarrow> (case canonical_dumps (ev_payload row) of
            Inl e \<Rightarrow> Inl (MessageIdentityConflict ''event audit message_id has a non-canonical payload'')
          | Inr stored_json \<Rightarrow>
              if ev_topic row \<noteq> topic \<or> stored_json \<noteq> canonical
              then Inl (MessageIdentityConflict
                     ''event audit message_id was reused with different topic or payload'')
              else Inr ())
      | _ \<Rightarrow> Inl (MessageIdentityConflict
             ''event audit message_id does not identify exactly one immutable payload''))"

definition audit_rows :: "string \<Rightarrow> audit_row list \<Rightarrow> audit_row list" where
  "audit_rows message_id t = filter (\<lambda>r. ev_message_id r = message_id) t"

definition append_payload_strict ::
  "(string \<Rightarrow> string) \<Rightarrow> string \<Rightarrow> json \<Rightarrow> string \<Rightarrow> string \<Rightarrow> audit_row list
     \<Rightarrow> (bool \<times> audit_row list) res" where
  "append_payload_strict sha topic payload canonical payload_sha256 t =
     (case str_field ''message_id'' payload of
        None \<Rightarrow> Inl (ValueError ''durable payload requires a non-empty message_id'')
      | Some message_id \<Rightarrow>
          if blank message_id
          then Inl (ValueError ''durable payload requires a non-empty message_id'')
          else if sha canonical \<noteq> payload_sha256
          then Inl (ValueError ''durable payload canonical identity is invalid'')
          else if audit_rows message_id t \<noteq> []
          then rbind (require_matching_audit_identity (audit_rows message_id t) topic canonical) (\<lambda>_.
                 Inr (False, t))
          else rbind (append_payload topic payload t) (\<lambda>(inserted, t').
                 if inserted then Inr (True, t')
                 else rbind (require_matching_audit_identity (audit_rows message_id t') topic canonical)
                        (\<lambda>_. Inr (False, t'))))"

subsection \<open>Facts\<close>

lemma insert_audit_new:
  assumes "\<forall>r\<in>set t. ev_message_id r \<noteq> ev_message_id row"
  shows "insert_audit row t = (True, insert_row row t)"
  using assms by (auto simp: insert_audit_def audit_key_def)

lemma insert_audit_keys:
  "unique_by audit_key t \<Longrightarrow> unique_by audit_key (snd (insert_audit row t))"
  by (simp add: insert_audit_def)

text \<open>A successful \<open>append_payload\<close> wrote, or found, a row for the message of the payload.\<close>

lemma append_payload_outcome:
  assumes "append_payload topic payload t = Inr (b, t')"
  obtains row where "ev_topic row = topic" and "filled_field ''message_id'' payload = Some (ev_message_id row)"
    and "text_to_jsonb (canonical_json payload) = Inr (ev_payload row)"
    and "insert_audit row t = (b, t')"
proof -
  obtain mid source version where f: "filled_field ''message_id'' payload = Some mid"
      "filled_field ''source'' payload = Some source"
      "filled_field ''schema_version'' payload = Some version"
    using assms by (auto simp: append_payload_def split: option.splits prod.splits)
  with assms obtain at co ca doc where "text_to_jsonb (canonical_json payload) = Inr doc"
      "insert_audit \<lparr>ev_produced_at = at, ev_message_id = mid, ev_topic = topic, ev_source = source,
         ev_schema_version = version, ev_correlation_id = co, ev_causation_id = ca,
         ev_payload = doc\<rparr> t = (b, t')"
    unfolding append_payload_def by (auto simp: rbind_eq_Inr)
  with f show thesis by (intro that) auto
qed

lemma append_strict_outcome:
  assumes "append_payload_strict sha topic payload canonical digest t = Inr (b, t')"
  obtains
    (replay) row where "b = False" and "t' = t" and "audit_rows (ev_message_id row) t = [row]"
      and "str_field ''message_id'' payload = Some (ev_message_id row)" and "ev_topic row = topic"
      and "canonical_dumps (ev_payload row) = Inr canonical" and "sha canonical = digest"
  | (fresh) row where "b = True" and "t' = insert_row row t" and "audit_rows (ev_message_id row) t = []"
      and "str_field ''message_id'' payload = Some (ev_message_id row)" and "ev_topic row = topic"
      and "text_to_jsonb (canonical_json payload) = Inr (ev_payload row)" and "sha canonical = digest"
proof -
  obtain mid where mid: "str_field ''message_id'' payload = Some mid" "\<not> blank mid" "sha canonical = digest"
    using assms by (auto simp: append_payload_strict_def split: option.splits if_splits)
  show thesis
  proof (cases "audit_rows mid t = []")
    case False
    with assms mid have ok: "require_matching_audit_identity (audit_rows mid t) topic canonical = Inr ()"
      "b = False" "t' = t"
      by (auto simp: append_payload_strict_def rbind_eq_Inr)
    then obtain row where row: "audit_rows mid t = [row]"
      by (auto simp: require_matching_audit_identity_def split: list.splits)
    then have "row \<in> set (audit_rows mid t)" by simp
    then have "ev_message_id row = mid" by (simp add: audit_rows_def)
    with ok row mid show thesis
      by (intro replay[of row])
        (auto simp: require_matching_audit_identity_def split: sum.splits if_splits)
  next
    case True
    then obtain b1 t1 where ap: "append_payload topic payload t = Inr (b1, t1)"
      using assms mid by (auto simp: append_payload_strict_def rbind_eq_Inr)
    from ap show thesis
    proof (rule append_payload_outcome)
      fix row
      assume row: "ev_topic row = topic" "filled_field ''message_id'' payload = Some (ev_message_id row)"
        "text_to_jsonb (canonical_json payload) = Inr (ev_payload row)" "insert_audit row t = (b1, t1)"
      have m: "ev_message_id row = mid"
        using row(2) mid(1) by (auto simp: filled_field_def split: if_splits)
      have "insert_audit row t = (True, insert_row row t)"
        using True m by (intro insert_audit_new) (auto simp: audit_rows_def filter_empty_conv)
      with row ap mid True m assms show thesis
        by (intro fresh[of row]) (auto simp: append_payload_strict_def)
    qed
  qed
qed

subsection \<open>Runs of strict appends\<close>

type_synonym audit_op = "string \<times> json \<times> string \<times> string"

definition audit_step :: "(string \<Rightarrow> string) \<Rightarrow> audit_op \<Rightarrow> audit_row list \<Rightarrow> audit_row list" where
  "audit_step sha op t = (case op of (topic, payload, canonical, digest) \<Rightarrow>
     settle t (append_payload_strict sha topic payload canonical digest t))"

text \<open>A message that has rows keeps exactly those.\<close>

definition audit_le :: "audit_row list \<Rightarrow> audit_row list \<Rightarrow> bool" where
  "audit_le t u \<longleftrightarrow> (\<forall>m. audit_rows m t \<noteq> [] \<longrightarrow> audit_rows m u = audit_rows m t)"

lemma audit_rows_insert:
  "audit_rows m (insert_row row t) = audit_rows m t @ (if ev_message_id row = m then [row] else [])"
  by (simp add: audit_rows_def insert_row_def)

lemma audit_step_le: "audit_le t (audit_step sha op t)"
proof -
  obtain topic payload canonical digest where op: "op = (topic, payload, canonical, digest)"
    by (cases op) auto
  show ?thesis
    unfolding audit_step_def op prod.case
  proof (rule settle_cases)
    fix b t' assume "append_payload_strict sha topic payload canonical digest t = Inr (b, t')"
    then show "audit_le t t'"
      by (cases rule: append_strict_outcome) (auto simp: audit_le_def audit_rows_insert)
  qed (simp add: audit_le_def)
qed

interpretation strict_audit: monotone_system "audit_step sha" "\<lambda>_. True" audit_le for sha
  by unfold_locales (auto simp: audit_step_le, auto simp: audit_le_def)

lemma append_strict_row:
  assumes "append_payload_strict sha topic payload (canonical_json payload) digest t = Inr (b, t')"
    and "json_wf payload" and "jsonb_exact payload"
  obtains row where "audit_rows (ev_message_id row) t' = [row]"
    and "str_field ''message_id'' payload = Some (ev_message_id row)" and "ev_topic row = topic"
    and "canonical_dumps (ev_payload row) = Inr (canonical_json payload)"
    and "sha (canonical_json payload) = digest"
  using assms(1)
proof (cases rule: append_strict_outcome)
  case (replay row)
  then show thesis by (intro that[of row]) auto
next
  case (fresh row)
  with canonical_stored [OF assms(2,3)] show thesis
    by (intro that[of row]) (auto simp: audit_rows_insert)
qed

lemma append_strict_answer:
  assumes "audit_rows mid t = [row]" and "str_field ''message_id'' payload = Some mid" and "\<not> blank mid"
    and "sha canonical = digest"
  shows "append_payload_strict sha topic payload canonical digest t =
    rbind (require_matching_audit_identity [row] topic canonical) (\<lambda>_. Inr (False, t))"
  using assms by (simp add: append_payload_strict_def)

section \<open>Properties\<close>

text \<open>
  Strict append gives a message id one meaning: once a payload was appended under its canonical
  text, then after any further strict appends repeating it is answered \<open>False\<close> without a change, and
  an append of the same message id succeeds only with the same topic and the same canonical text.
  (The payload is one whose floats a JSONB column keeps.)
\<close>

theorem strict_append_one_meaning:
  assumes "append_payload_strict sha topic payload (canonical_json payload) digest t = Inr (b, t')"
    and "json_wf payload" and "jsonb_exact payload"
  shows "append_payload_strict sha topic payload (canonical_json payload) digest
           (fold (audit_step sha) ops t') = Inr (False, fold (audit_step sha) ops t') \<and>
    (\<forall>topic2 payload2 canonical2 digest2 b2 t2.
       append_payload_strict sha topic2 payload2 canonical2 digest2 (fold (audit_step sha) ops t') = Inr (b2, t2)
       \<longrightarrow> str_field ''message_id'' payload2 = str_field ''message_id'' payload
       \<longrightarrow> topic2 = topic \<and> canonical2 = canonical_json payload \<and> \<not> b2)"
proof -
  let ?u = "fold (audit_step sha) ops t'"
  obtain row where row: "audit_rows (ev_message_id row) t' = [row]"
      "str_field ''message_id'' payload = Some (ev_message_id row)" "ev_topic row = topic"
      "canonical_dumps (ev_payload row) = Inr (canonical_json payload)"
      "sha (canonical_json payload) = digest"
    using assms by (rule append_strict_row)
  have rows: "audit_rows (ev_message_id row) ?u = [row]"
    using strict_audit.run_le [of t' sha ops] row(1) by (simp add: audit_le_def)
  have nb: "\<not> blank (ev_message_id row)"
    using assms(1) row(2) by (auto simp: append_payload_strict_def)
  have "append_payload_strict sha topic payload (canonical_json payload) digest ?u = Inr (False, ?u)"
    using append_strict_answer [OF rows row(2) nb, of sha "canonical_json payload" digest topic] row(3-5)
    by (simp add: require_matching_audit_identity_def)
  moreover have "topic2 = topic \<and> canonical2 = canonical_json payload \<and> \<not> b2"
    if a: "append_payload_strict sha topic2 payload2 canonical2 digest2 ?u = Inr (b2, t2)"
      and s: "str_field ''message_id'' payload2 = str_field ''message_id'' payload"
    for topic2 payload2 canonical2 digest2 b2 t2
    using a
  proof (cases rule: append_strict_outcome)
    case (replay r)
    have "ev_message_id r = ev_message_id row" using replay(4) s row(2) by simp
    with replay(3) rows have "[r] = [row]" by (simp only: )
    then have "r = row" by simp
    then show ?thesis using replay(1,5,6) row(3,4) by simp
  next
    case (fresh r)
    have "ev_message_id r = ev_message_id row" using fresh(4) s row(2) by simp
    with fresh(3) rows have "[row] = []" by (simp only: )
    then show ?thesis by simp
  qed
  ultimately show ?thesis by blast
qed

text \<open>A message as the runtime publishes it, with a stand-in hash.\<close>

definition sample_payload :: json where
  "sample_payload = JObj [(''message_id'', JStr ''m-1''), (''source'', JStr ''svc''),
     (''schema_version'', JStr ''1''), (''produced_at'', JStr ''2024-01-02T03:04:05Z''),
     (''size'', JFloat ''0.25'')]"

definition sample_sha :: "string \<Rightarrow> string" where
  "sample_sha s = replicate 63 (CHR ''0'') @ (if length s mod 2 = 0 then ''a'' else ''b'')"

lemma sample_payload_ok: "json_wf sample_payload" "jsonb_exact sample_payload"
  by code_simp+

theorem strict_append_one_meaning_witness:
  "\<exists>t'. append_payload_strict sample_sha ''topic'' sample_payload (canonical_json sample_payload)
      (sample_sha (canonical_json sample_payload)) [] = Inr (True, t') \<and>
    append_payload_strict sample_sha ''topic'' sample_payload (canonical_json sample_payload)
      (sample_sha (canonical_json sample_payload)) t' = Inr (False, t')"
proof -
  let ?a = "append_payload_strict sample_sha ''topic'' sample_payload (canonical_json sample_payload)
      (sample_sha (canonical_json sample_payload))"
  have "map_sum id fst (?a []) = Inr True" by code_simp
  then obtain t' where "?a [] = Inr (True, t')"
    by (cases "?a []") auto
  from strict_append_one_meaning [OF this sample_payload_ok, of "[]"] this show ?thesis by auto
qed

end
