(* ===== verification/Outbox.thy ===== *)
theory Outbox
  imports AuditLog
begin

text \<open>
  The transactional outbox of \<open>kairos_persistence/repository.py\<close>: table \<open>message_outbox\<close> as migrations
  001, 002, 012 and 018 define it, and the methods of \<open>AuditRepository\<close> that enqueue a message and
  that the automatic dispatcher uses. \<open>nid\<close> is the value the id sequence yields for an insert;
  \<open>now\<close> is the transaction's \<open>now()\<close>.
\<close>

datatype reconciliation_state = NONE | PUBLISHING | PUBLISH_OUTCOME_UNKNOWN | ACKNOWLEDGED

text \<open>The states in the order a row can pass through them.\<close>

definition state_rank :: "reconciliation_state \<Rightarrow> nat" where
  "state_rank s = (case s of NONE \<Rightarrow> 0 | PUBLISHING \<Rightarrow> 1 | PUBLISH_OUTCOME_UNKNOWN \<Rightarrow> 2 | ACKNOWLEDGED \<Rightarrow> 3)"

instantiation reconciliation_state :: linorder
begin

definition less_eq_reconciliation_state :: "reconciliation_state \<Rightarrow> reconciliation_state \<Rightarrow> bool" where
  "less_eq_reconciliation_state a b \<longleftrightarrow> state_rank a \<le> state_rank b"

definition less_reconciliation_state :: "reconciliation_state \<Rightarrow> reconciliation_state \<Rightarrow> bool" where
  "less_reconciliation_state a b \<longleftrightarrow> state_rank a < state_rank b"

instance
proof
  fix a b c :: reconciliation_state
  show "a < b \<longleftrightarrow> a \<le> b \<and> \<not> b \<le> a" "a \<le> a" "a \<le> b \<or> b \<le> a"
    "a \<le> b \<Longrightarrow> b \<le> c \<Longrightarrow> a \<le> c"
    by (auto simp: less_eq_reconciliation_state_def less_reconciliation_state_def)
  show "a \<le> b \<Longrightarrow> b \<le> a \<Longrightarrow> a = b"
    by (cases a; cases b) (auto simp: less_eq_reconciliation_state_def state_rank_def)
qed

end

record outbox_row =
  ob_id :: int
  ob_producer :: string
  ob_message_id :: string
  ob_topic :: string
  ob_payload :: json
  ob_payload_sha256 :: "string option"
  ob_published_at :: "timestamp option"
  ob_publish_attempts :: int
  ob_last_error :: "string option"
  ob_available_at :: timestamp
  ob_lease_until :: "timestamp option"
  ob_lease_owner :: "string option"
  ob_dead_lettered_at :: "timestamp option"
  ob_state :: reconciliation_state
  ob_reconciliation_id :: "string option"
  ob_started_at :: "timestamp option"
  ob_outcome_at :: "timestamp option"

record outbox_record =
  or_id :: int
  or_producer :: string
  or_message_id :: string
  or_topic :: string
  or_payload :: json
  or_payload_sha256 :: "string option"
  or_publish_attempts :: int
  or_reconciliation_id :: string

subsection \<open>Enqueue\<close>

definition fresh_outbox ::
  "int \<Rightarrow> string \<Rightarrow> string \<Rightarrow> json \<Rightarrow> string \<Rightarrow> string \<Rightarrow> timestamp \<Rightarrow> outbox_row" where
  "fresh_outbox nid message_id topic doc payload_sha256 producer now =
     \<lparr>ob_id = nid, ob_producer = producer, ob_message_id = message_id, ob_topic = topic,
      ob_payload = doc, ob_payload_sha256 = Some payload_sha256, ob_published_at = None,
      ob_publish_attempts = 0, ob_last_error = None, ob_available_at = now, ob_lease_until = None,
      ob_lease_owner = None, ob_dead_lettered_at = None, ob_state = NONE,
      ob_reconciliation_id = None, ob_started_at = None, ob_outcome_at = None\<rparr>"

definition set_outbox_sha :: "string \<Rightarrow> outbox_row \<Rightarrow> outbox_row" where
  "set_outbox_sha payload_sha256 r = r\<lparr>ob_payload_sha256 := Some payload_sha256\<rparr>"

definition enqueue_outbox ::
  "int \<Rightarrow> string \<Rightarrow> string \<Rightarrow> string \<Rightarrow> string \<Rightarrow> string \<Rightarrow> timestamp \<Rightarrow> outbox_row list
     \<Rightarrow> (bool \<times> outbox_row list) res" where
  "enqueue_outbox nid message_id topic payload payload_sha256 producer now t =
     (if blank producer then Inl (ValueError ''outbox producer must not be empty'')
      else rbind (text_to_jsonb payload) (\<lambda>doc.
        if \<not> sha256_hex payload_sha256
        then Inl (IntegrityError ''message_outbox_payload_sha256_format'')
        else case select_one (\<lambda>r. ob_message_id r = message_id) t of
          None \<Rightarrow>
            if nid \<in> ob_id ` set t then Inl (IntegrityError ''message_outbox_pkey'')
            else Inr (True, insert_row
                   (fresh_outbox nid message_id topic doc payload_sha256 producer now) t)
        | Some existing \<Rightarrow>
            if ob_topic existing \<noteq> topic \<or> ob_producer existing \<noteq> producer
               \<or> canonical_json (ob_payload existing) \<noteq> payload
               \<or> ob_payload_sha256 existing \<notin> {None, Some payload_sha256}
            then Inl (MessageIdentityConflict
                   ''outbox message_id was reused with different topic, payload, or producer'')
            else if ob_payload_sha256 existing = None
            then Inr (False, update_where (\<lambda>r. ob_message_id r = message_id)
                   (set_outbox_sha payload_sha256) t)
            else Inr (False, t)))"

subsection \<open>The automatic dispatcher\<close>

text \<open>A row that has neither been published nor given up.\<close>

definition unsettled :: "outbox_row \<Rightarrow> bool" where
  "unsettled r \<longleftrightarrow> ob_published_at r = None \<and> ob_dead_lettered_at r = None"

definition unsettled_before :: "string \<Rightarrow> int \<Rightarrow> outbox_row list \<Rightarrow> bool" where
  "unsettled_before producer i t \<longleftrightarrow>
     list_ex (\<lambda>prior. ob_producer prior = producer \<and> ob_id prior < i \<and> unsettled prior) t"

definition dispatchable :: "string \<Rightarrow> timestamp \<Rightarrow> outbox_row list \<Rightarrow> outbox_row \<Rightarrow> bool" where
  "dispatchable producer now t r \<longleftrightarrow>
     ob_producer r = producer \<and> unsettled r \<and> ob_state r = NONE \<and> ob_publish_attempts r = 0 \<and>
     ob_available_at r \<le> now \<and> ob_lease_owner r = None \<and> ob_lease_until r = None \<and>
     \<not> unsettled_before (ob_producer r) (ob_id r) t"

text \<open>The \<open>SET\<close> list that the dispatcher and the exact offline claims share.\<close>

definition publishing_row ::
  "string \<Rightarrow> string \<Rightarrow> timestamp \<Rightarrow> int \<Rightarrow> outbox_row \<Rightarrow> outbox_row" where
  "publishing_row owner rid now lease r =
     r\<lparr>ob_lease_owner := Some owner, ob_lease_until := Some (now + lease),
       ob_publish_attempts := ob_publish_attempts r + 1, ob_state := PUBLISHING,
       ob_reconciliation_id := Some rid, ob_started_at := Some now, ob_outcome_at := None,
       ob_last_error := None\<rparr>"

definition record_of_row :: "string \<Rightarrow> outbox_row \<Rightarrow> outbox_record" where
  "record_of_row rid r = \<lparr>or_id = ob_id r, or_producer = ob_producer r, or_message_id = ob_message_id r,
     or_topic = ob_topic r, or_payload = ob_payload r, or_payload_sha256 = ob_payload_sha256 r,
     or_publish_attempts = ob_publish_attempts r, or_reconciliation_id = rid\<rparr>"

definition claim_outbox ::
  "string \<Rightarrow> string \<Rightarrow> int \<Rightarrow> int \<Rightarrow> string \<Rightarrow> timestamp \<Rightarrow> outbox_row list
     \<Rightarrow> (outbox_record list \<times> outbox_row list) res" where
  "claim_outbox worker_id producer limit lease uuid now t =
     (if blank producer then Inl (ValueError ''outbox producer must not be empty'')
      else if limit < 0 then Inl (DataError ''LIMIT must not be negative'')
      else let rid = ''dispatch:'' @ uuid;
               candidates = take (nat (min limit 1))
                 (sort_key ob_id (filter (dispatchable producer now t) t));
               hit = (\<lambda>r. ob_id r \<in> set (map ob_id candidates) \<and> ob_publish_attempts r = 0 \<and>
                        ob_lease_owner r = None \<and> ob_lease_until r = None)
           in Inr (map (\<lambda>r. record_of_row rid (publishing_row worker_id rid now lease r))
                     (sort_key ob_id (filter hit t)),
                   update_where hit (publishing_row worker_id rid now lease) t))"

text \<open>The \<open>WHERE\<close> clause with which a worker settles exactly the claim it holds.\<close>

definition held_claim :: "outbox_record \<Rightarrow> string \<Rightarrow> outbox_row \<Rightarrow> bool" where
  "held_claim rec worker_id r \<longleftrightarrow>
     ob_id r = or_id rec \<and> ob_producer r = or_producer rec \<and> ob_message_id r = or_message_id rec \<and>
     ob_topic r = or_topic rec \<and> ob_payload_sha256 r = or_payload_sha256 rec \<and>
     ob_publish_attempts r = or_publish_attempts rec \<and> ob_lease_owner r = Some worker_id \<and>
     ob_reconciliation_id r = Some (or_reconciliation_id rec) \<and> ob_state r = PUBLISHING \<and> unsettled r"

definition acknowledged_row :: "timestamp \<Rightarrow> outbox_row \<Rightarrow> outbox_row" where
  "acknowledged_row now r = r\<lparr>ob_published_at := Some now, ob_lease_until := None,
     ob_lease_owner := None, ob_last_error := None, ob_state := ACKNOWLEDGED,
     ob_outcome_at := Some now\<rparr>"

definition unknown_row :: "string \<Rightarrow> timestamp \<Rightarrow> outbox_row \<Rightarrow> outbox_row" where
  "unknown_row reason now r = r\<lparr>ob_lease_until := None, ob_lease_owner := None,
     ob_last_error := Some reason, ob_state := PUBLISH_OUTCOME_UNKNOWN, ob_outcome_at := Some now\<rparr>"

definition mark_published ::
  "outbox_record \<Rightarrow> string \<Rightarrow> timestamp \<Rightarrow> outbox_row list \<Rightarrow> (bool \<times> outbox_row list) res" where
  "mark_published rec worker_id now t =
     Inr (affected (held_claim rec worker_id) t = 1,
          update_where (held_claim rec worker_id) (acknowledged_row now) t)"

definition unknown_reasons :: "string list" where
  "unknown_reasons = [''PRE_PUBLISH_HASH_MISMATCH'', ''PUBLISH_EXCEPTION'', ''PUBLISH_CANCELLED'',
     ''ACK_NOT_APPLIED'', ''ACK_EXCEPTION'', ''ACK_CANCELLED'']"

definition mark_outbox_publish_outcome_unknown ::
  "outbox_record \<Rightarrow> string \<Rightarrow> string \<Rightarrow> timestamp \<Rightarrow> outbox_row list
     \<Rightarrow> (bool \<times> outbox_row list) res" where
  "mark_outbox_publish_outcome_unknown rec worker_id reason_code now t =
     (if reason_code \<notin> set unknown_reasons
      then Inl (ValueError ''unknown automatic outbox failure category'')
      else Inr (affected (held_claim rec worker_id) t = 1,
                update_where (held_claim rec worker_id)
                  (unknown_row (''automatic_dispatch:'' @ reason_code) now) t))"

definition failed_row :: "string \<Rightarrow> int \<Rightarrow> int \<Rightarrow> timestamp \<Rightarrow> outbox_row \<Rightarrow> outbox_row" where
  "failed_row error retry_after max_attempts now r =
     r\<lparr>ob_last_error := Some (take 4000 error), ob_lease_until := None, ob_lease_owner := None,
       ob_available_at := now + retry_after,
       ob_dead_lettered_at := (if ob_publish_attempts r \<ge> max_attempts then Some now else None)\<rparr>"

definition fail_outbox ::
  "int \<Rightarrow> string \<Rightarrow> string \<Rightarrow> int \<Rightarrow> int \<Rightarrow> timestamp \<Rightarrow> outbox_row list
     \<Rightarrow> (bool \<times> outbox_row list) res" where
  "fail_outbox row_id worker_id error retry_after max_attempts now t =
     (let hit = (\<lambda>r. ob_id r = row_id \<and> ob_lease_owner r = Some worker_id
                   \<and> ob_published_at r = None \<and> ob_state r = NONE)
      in Inr (affected hit t = 1, update_where hit (failed_row error retry_after max_attempts now) t))"

definition pending_outbox ::
  "int \<Rightarrow> outbox_row list \<Rightarrow> (int \<times> string \<times> string \<times> string \<times> json) list res" where
  "pending_outbox limit t =
     (if limit < 0 then Inl (DataError ''LIMIT must not be negative'')
      else Inr (map (\<lambda>r. (ob_id r, ob_producer r, ob_message_id r, ob_topic r, ob_payload r))
             (take (nat limit) (sort_key ob_id (filter (\<lambda>r. ob_published_at r = None) t)))))"

subsection \<open>What a row promises\<close>

text \<open>
  The CHECK constraints of migrations 002, 012 and 018, and what the operations add to them: a row
  being published holds a lease and is unsettled, an unknown outcome holds no lease and is
  unsettled, an acknowledged row is published, and only rows no claim has touched are dead letters.
  A row in state NONE may carry a lease of a deployment older than migration 018.
\<close>

definition outbox_check :: "outbox_row \<Rightarrow> bool" where
  "outbox_check r \<longleftrightarrow>
     \<not> blank (ob_producer r) \<and> 0 \<le> ob_publish_attempts r \<and>
     (ob_lease_until r = None \<longleftrightarrow> ob_lease_owner r = None) \<and>
     (case ob_payload_sha256 r of None \<Rightarrow> True | Some s \<Rightarrow> sha256_hex s) \<and>
     (ob_state r \<noteq> NONE \<longrightarrow> (\<exists>i. ob_reconciliation_id r = Some i \<and> \<not> blank i) \<and> ob_dead_lettered_at r = None) \<and>
     (ob_dead_lettered_at r \<noteq> None \<longrightarrow> ob_lease_owner r = None) \<and>
     (ob_state r = PUBLISHING \<longrightarrow> ob_published_at r = None \<and> ob_lease_owner r \<noteq> None \<and> 0 < ob_publish_attempts r) \<and>
     (ob_state r = PUBLISH_OUTCOME_UNKNOWN \<longrightarrow> ob_published_at r = None \<and> ob_lease_owner r = None) \<and>
     (ob_state r = ACKNOWLEDGED \<longrightarrow> ob_published_at r \<noteq> None \<and> ob_lease_owner r = None)"

definition outbox_ok :: "outbox_row list \<Rightarrow> bool" where
  "outbox_ok t \<longleftrightarrow> unique_by ob_id t \<and> unique_by ob_message_id t \<and> (\<forall>r\<in>set t. outbox_check r)"

text \<open>
  How a row may change: its identity never does, a fingerprint is only filled in, attempts only
  grow, the reconciliation state only advances, and what is published or unknown stays so.
\<close>

definition outbox_le :: "outbox_row \<Rightarrow> outbox_row \<Rightarrow> bool" where
  "outbox_le r r' \<longleftrightarrow>
     ob_id r' = ob_id r \<and> ob_producer r' = ob_producer r \<and> ob_message_id r' = ob_message_id r \<and>
     ob_topic r' = ob_topic r \<and> ob_payload r' = ob_payload r \<and>
     (ob_payload_sha256 r \<noteq> None \<longrightarrow> ob_payload_sha256 r' = ob_payload_sha256 r) \<and>
     ob_publish_attempts r \<le> ob_publish_attempts r' \<and> ob_state r \<le> ob_state r' \<and>
     (ob_published_at r \<noteq> None \<longrightarrow> ob_published_at r' = ob_published_at r) \<and>
     (ob_dead_lettered_at r \<noteq> None \<longrightarrow> ob_dead_lettered_at r' = ob_dead_lettered_at r) \<and>
     (ob_state r = ACKNOWLEDGED \<longrightarrow> ob_payload_sha256 r \<noteq> None \<longrightarrow> r' = r)"

subsection \<open>Every operation keeps the promises and advances the rows\<close>

lemma state_order [simp]:
  "NONE \<le> s" "PUBLISHING \<le> PUBLISH_OUTCOME_UNKNOWN" "PUBLISHING \<le> ACKNOWLEDGED"
  "PUBLISH_OUTCOME_UNKNOWN \<le> ACKNOWLEDGED" "s \<le> NONE \<longleftrightarrow> s = NONE" "ACKNOWLEDGED \<le> s \<longleftrightarrow> s = ACKNOWLEDGED"
  by (cases s; auto simp: less_eq_reconciliation_state_def state_rank_def)+

lemma outbox_le_refl [simp]: "outbox_le r r"
  by (simp add: outbox_le_def)

lemma outbox_le_trans:
  assumes "outbox_le a b" and "outbox_le b c"
  shows "outbox_le a c"
proof -
  have "ob_state a = ACKNOWLEDGED \<Longrightarrow> ob_state b = ACKNOWLEDGED"
    using assms(1) by (simp add: outbox_le_def)
  then show ?thesis using assms by (auto simp: outbox_le_def)
qed

definition row_progress :: "(outbox_row \<Rightarrow> bool) \<Rightarrow> (outbox_row \<Rightarrow> outbox_row) \<Rightarrow> bool" where
  "row_progress P f \<longleftrightarrow> (\<forall>r. P r \<longrightarrow> outbox_check r \<longrightarrow> outbox_check (f r) \<and> outbox_le r (f r))"

definition outbox_progress :: "outbox_row list \<Rightarrow> outbox_row list \<Rightarrow> bool" where
  "outbox_progress t u \<longleftrightarrow> outbox_ok u \<and> table_le outbox_le t u"

lemma outbox_progress_refl: "outbox_ok t \<Longrightarrow> outbox_progress t t"
  by (simp add: outbox_progress_def table_le_refl)

lemma update_progress:
  assumes "outbox_ok t" and "row_progress P f"
  shows "outbox_progress t (update_where P f t)"
proof -
  let ?P = "\<lambda>r. P r \<and> outbox_check r"
  have same: "update_where P f t = update_where ?P f t"
    using assms(1) by (auto simp: update_where_def outbox_ok_def)
  have le: "outbox_le r (f r)" "outbox_check (f r)" if "?P r" for r
    using assms(2) that by (auto simp: row_progress_def)
  have "unique_by ob_id (update_where ?P f t)" "unique_by ob_message_id (update_where ?P f t)"
    using assms(1) le by (auto simp: unique_by_update outbox_le_def outbox_ok_def)
  moreover have "\<forall>r\<in>set (update_where ?P f t). outbox_check r"
    using assms(1) le by (auto simp: set_update_where outbox_ok_def)
  moreover have "table_le outbox_le t (update_where ?P f t)"
    using le by (intro table_le_update) auto
  ultimately show ?thesis unfolding same by (simp add: outbox_progress_def outbox_ok_def)
qed

lemma insert_progress:
  assumes "outbox_ok t" and "outbox_check row" and "ob_id row \<notin> ob_id ` set t"
    and "ob_message_id row \<notin> ob_message_id ` set t"
  shows "outbox_progress t (insert_row row t)"
  using assms by (auto simp: outbox_progress_def outbox_ok_def intro: table_le_insert)

lemma set_outbox_sha_progress:
  "sha256_hex s \<Longrightarrow> row_progress (\<lambda>r. ob_payload_sha256 r = None) (set_outbox_sha s)"
  by (auto simp: row_progress_def outbox_check_def outbox_le_def set_outbox_sha_def)

lemma publishing_progress:
  assumes "\<not> blank rid"
  shows "row_progress (\<lambda>r. ob_state r = NONE \<and> unsettled r) (publishing_row owner rid now lease)"
  using assms by (auto simp: row_progress_def outbox_check_def outbox_le_def publishing_row_def unsettled_def)

lemma acknowledged_progress:
  "row_progress (\<lambda>r. ob_state r = PUBLISHING) (acknowledged_row now)"
  by (auto simp: row_progress_def outbox_check_def outbox_le_def acknowledged_row_def)

lemma unknown_progress:
  "row_progress (\<lambda>r. ob_state r = PUBLISHING) (unknown_row reason now)"
  by (auto simp: row_progress_def outbox_check_def outbox_le_def unknown_row_def)

lemma failed_progress:
  "row_progress (\<lambda>r. ob_lease_owner r = Some w \<and> ob_published_at r = None \<and> ob_state r = NONE)
     (failed_row error retry_after max_attempts now)"
  by (auto simp: row_progress_def outbox_check_def outbox_le_def failed_row_def)

lemma row_progress_mono: "row_progress P f \<Longrightarrow> (\<And>r. Q r \<Longrightarrow> P r) \<Longrightarrow> row_progress Q f"
  by (simp add: row_progress_def)

lemma not_blank_append: "\<not> blank s \<Longrightarrow> \<not> blank (s @ u)"
  by (simp add: blank_iff)

lemma enqueue_progress:
  assumes "outbox_ok t"
    and "enqueue_outbox nid message_id topic payload digest producer now t = Inr (b, t')"
  shows "outbox_progress t t'"
proof -
  obtain doc where doc: "\<not> blank producer" "text_to_jsonb payload = Inr doc" "sha256_hex digest"
    using assms(2) by (auto simp: enqueue_outbox_def rbind_eq_Inr split: if_splits)
  show ?thesis
  proof (cases "select_one (\<lambda>r. ob_message_id r = message_id) t")
    case None
    with assms(2) doc have t': "t' = insert_row (fresh_outbox nid message_id topic doc digest producer now) t"
      "nid \<notin> ob_id ` set t"
      by (auto simp: enqueue_outbox_def split: if_splits)
    have "outbox_check (fresh_outbox nid message_id topic doc digest producer now)"
      using doc by (simp add: fresh_outbox_def outbox_check_def)
    with assms(1) None t' show ?thesis
      by (auto simp: fresh_outbox_def select_one_None_iff intro!: insert_progress)
  next
    case (Some old)
    then have old: "old \<in> set t" "ob_message_id old = message_id" by (auto dest: select_one_SomeD)
    consider "t' = t" | "ob_payload_sha256 old = None"
        "t' = update_where (\<lambda>r. ob_message_id r = message_id) (set_outbox_sha digest) t"
      using assms(2) doc Some by (auto simp: enqueue_outbox_def split: if_splits)
    then show ?thesis
    proof cases
      case 1
      with assms(1) show ?thesis by (simp add: outbox_progress_refl)
    next
      case 2
      have "update_where (\<lambda>r. ob_message_id r = message_id) (set_outbox_sha digest) t =
          update_where (\<lambda>r. r = old) (set_outbox_sha digest) t"
        using assms(1) old by (auto simp: update_where_def outbox_ok_def dest: unique_by_eq)
      moreover have "row_progress (\<lambda>r. r = old) (set_outbox_sha digest)"
        by (rule row_progress_mono [OF set_outbox_sha_progress [OF doc(3)]]) (simp add: 2(1))
      ultimately show ?thesis using assms(1) 2(2) by (simp add: update_progress)
    qed
  qed
qed

lemma claim_outbox_outcome:
  assumes "outbox_ok t" and "claim_outbox w producer limit lease uuid now t = Inr (recs, t')"
  obtains (none) "recs = []" and "t' = t"
  | (one) r where "r \<in> set t" and "dispatchable producer now t r"
      and "recs = [record_of_row (''dispatch:'' @ uuid) (publishing_row w (''dispatch:'' @ uuid) now lease r)]"
      and "t' = update_where (\<lambda>q. ob_id q = ob_id r) (publishing_row w (''dispatch:'' @ uuid) now lease) t"
proof -
  let ?rid = "''dispatch:'' @ uuid"
  let ?all = "sort_key ob_id (filter (dispatchable producer now t) t)"
  let ?c = "take (nat (min limit 1)) ?all"
  define hit where "hit = (\<lambda>r::outbox_row. ob_id r \<in> set (map ob_id ?c) \<and> ob_publish_attempts r = 0 \<and>
      ob_lease_owner r = None \<and> ob_lease_until r = None)"
  have out: "recs = map (\<lambda>r. record_of_row ?rid (publishing_row w ?rid now lease r)) (sort_key ob_id (filter hit t))"
    "t' = update_where hit (publishing_row w ?rid now lease) t" "0 \<le> limit"
    using assms(2) by (auto simp: claim_outbox_def Let_def hit_def split: if_splits)
  show thesis
  proof (cases ?c)
    case Nil
    have "\<And>r. \<not> hit r" unfolding hit_def Nil by simp
    with out none show thesis by (simp add: update_where_def)
  next
    case (Cons r rs)
    have "length ?c \<le> 1" by simp
    with Cons have c: "?c = [r]" by (cases rs) auto
    then have "r \<in> set ?all" by (metis list.set_intros(1) in_set_takeD)
    then have r: "r \<in> set t" "dispatchable producer now t r" by auto
    have "hit q \<longleftrightarrow> ob_id q = ob_id r" if "q \<in> set t" for q
    proof
      assume "ob_id q = ob_id r"
      then have "q = r" using that r(1) assms(1) by (auto simp: outbox_ok_def dest: unique_by_eq)
      with r(2) c show "hit q" by (simp add: hit_def dispatchable_def)
    qed (simp add: hit_def c)
    then have "filter hit t = filter (\<lambda>q. ob_id q = ob_id r) t"
      and u: "update_where hit f t = update_where (\<lambda>q. ob_id q = ob_id r) f t" for f
      by (auto simp: update_where_def cong: filter_cong)
    then have "filter hit t = [r]"
      using filter_unique [of ob_id t r] assms(1) r(1) by (simp add: outbox_ok_def)
    with out u r show thesis by (intro one [of r]) simp_all
  qed
qed

lemma claim_progress:
  assumes "outbox_ok t" and "claim_outbox w producer limit lease uuid now t = Inr (recs, t')"
  shows "outbox_progress t t'"
  using assms
proof (cases rule: claim_outbox_outcome)
  case none
  with assms(1) show ?thesis by (simp add: outbox_progress_refl)
next
  case (one r)
  have "\<not> blank (''dispatch:'' @ uuid)" by (rule not_blank_append) code_simp
  note p = publishing_progress [OF this]
  have "update_where (\<lambda>q. ob_id q = ob_id r) f t = update_where (\<lambda>q. q = r) f t" for f
    using assms(1) one(1) by (auto simp: update_where_def outbox_ok_def dest: unique_by_eq)
  moreover have "row_progress (\<lambda>q. q = r) (publishing_row w (''dispatch:'' @ uuid) now lease)"
    by (rule row_progress_mono [OF p]) (use one(2) in \<open>simp add: dispatchable_def\<close>)
  ultimately show ?thesis using one(4) assms(1) by (simp add: update_progress)
qed

lemma dispatcher_progress:
  assumes "outbox_ok t"
  shows "mark_published rec w now t = Inr (b, t') \<Longrightarrow> outbox_progress t t'"
    and "mark_outbox_publish_outcome_unknown rec w reason now t = Inr (b, t') \<Longrightarrow> outbox_progress t t'"
    and "fail_outbox i w error retry_after max_attempts now t = Inr (b, t') \<Longrightarrow> outbox_progress t t'"
proof -
  have held: "row_progress (held_claim rec w) f" if "row_progress (\<lambda>r. ob_state r = PUBLISHING) f" for f
    by (rule row_progress_mono [OF that]) (simp add: held_claim_def)
  show "mark_published rec w now t = Inr (b, t') \<Longrightarrow> outbox_progress t t'"
    using update_progress [OF assms held [OF acknowledged_progress]]
    by (auto simp: mark_published_def)
  show "mark_outbox_publish_outcome_unknown rec w reason now t = Inr (b, t') \<Longrightarrow> outbox_progress t t'"
    using update_progress [OF assms held [OF unknown_progress]]
    by (auto simp: mark_outbox_publish_outcome_unknown_def)
  have "row_progress (\<lambda>r. ob_id r = i \<and> ob_lease_owner r = Some w \<and> ob_published_at r = None \<and> ob_state r = NONE)
      (failed_row error retry_after max_attempts now)"
    by (rule row_progress_mono [OF failed_progress]) simp
  then show "fail_outbox i w error retry_after max_attempts now t = Inr (b, t') \<Longrightarrow> outbox_progress t t'"
    using update_progress [OF assms] by (auto simp: fail_outbox_def Let_def)
qed

end
