(* ===== verification/OfflineRecovery.thy ===== *)
theory OfflineRecovery
  imports Outbox
begin

text \<open>
  The offline recovery operations of \<open>kairos_persistence/repository.py\<close> on the outbox, with
  \<open>redis_acceptance_evidence.py\<close>: exact claims of one row, the quarantine of an expired lease, and the
  resolution of an unknown outcome from Redis evidence. \<open>sha\<close> is SHA-256 of the UTF-8 text in
  lower-case hex; \<open>versions\<close> is the content of \<open>schema_migrations\<close>, or \<open>None\<close> if there is no such table.
\<close>

subsection \<open>Identities, leases and results\<close>

record offline_identity =
  oi_id :: int
  oi_producer :: string
  oi_message_id :: string
  oi_topic :: string
  oi_payload_sha256 :: string
  oi_publish_attempts :: int

definition offline_identity_check :: "offline_identity \<Rightarrow> unit res" where
  "offline_identity_check i =
     (if oi_id i \<le> 0 then Inl (ValueError ''offline outbox identity id must be a positive integer'')
      else if blank (oi_producer i) \<or> blank (oi_message_id i) \<or> blank (oi_topic i)
      then Inl (ValueError ''offline outbox identity fields must be non-empty strings'')
      else if \<not> sha256_hex (oi_payload_sha256 i)
      then Inl (ValueError ''offline outbox identity payload_sha256 must be a lowercase SHA-256'')
      else if oi_publish_attempts i < 0
      then Inl (ValueError ''offline outbox identity publish_attempts must be a non-negative integer'')
      else Inr ())"

record expired_lease =
  xl_owner :: string
  xl_until :: timestamp

definition make_expired_lease :: "string \<Rightarrow> pydatetime \<Rightarrow> expired_lease res" where
  "make_expired_lease owner until =
     (if blank owner then Inl (ValueError ''offline expired lease owner must be a non-empty string'')
      else case until of
        Naive t \<Rightarrow> Inl (ValueError ''offline expired lease until must be a timezone-aware datetime'')
      | Aware t \<Rightarrow> Inr \<lparr>xl_owner = owner, xl_until = t\<rparr>)"

text \<open>
  The values of \<open>OfflineOutboxClaimRejection\<close>, \<open>OfflineOutboxQuarantineRejection\<close> and
  \<open>OfflineOutboxTransportResolutionRejection\<close>; \<open>quarantine_rejections\<close> are those of the second.
\<close>

datatype rejection =
    NOT_FOUND | IDENTITY_MISMATCH | ALREADY_PUBLISHED | DEAD_LETTERED | LEASE_NOT_EXPIRED
  | LEASE_PRESENT | NOT_YET_AVAILABLE | RECONCILIATION_NOT_CLEAR | EARLIER_UNPUBLISHED_PREDECESSOR
  | PAYLOAD_HASH_MISMATCH | AUDIT_MISMATCH | RACE_LOST | MIGRATION_018_REQUIRED
  | LEASE_IDENTITY_MISMATCH | EVIDENCE_MISMATCH | RECONCILIATION_ID_MISMATCH
  | RECONCILIATION_NOT_UNKNOWN | INCONSISTENT_PUBLISHED_STATE | QUARANTINE_METADATA_INVALID
  | EVIDENCE_TOO_LARGE

definition quarantine_rejections :: "rejection list" where
  "quarantine_rejections = [MIGRATION_018_REQUIRED, NOT_FOUND, IDENTITY_MISMATCH, ALREADY_PUBLISHED,
     DEAD_LETTERED, LEASE_NOT_EXPIRED, LEASE_IDENTITY_MISMATCH, NOT_YET_AVAILABLE,
     RECONCILIATION_NOT_CLEAR, PAYLOAD_HASH_MISMATCH, AUDIT_MISMATCH, RACE_LOST]"

definition as_quarantine_rejection :: "rejection \<Rightarrow> rejection res" where
  "as_quarantine_rejection r =
     (if r \<in> set quarantine_rejections then Inr r else Inl (ValueError ''not a quarantine rejection''))"

record exact_claim =
  ec_identity :: offline_identity
  ec_payload :: json
  ec_reconciliation_id :: string
  ec_claimed_publish_attempts :: int

text \<open>A result holds a claim or a rejection, never both, as \<open>__post_init__\<close> demands.\<close>

datatype exact_claim_result = Claimed exact_claim | ClaimRejected rejection

record quarantine_receipt =
  qr_reconciliation_id :: string
  qr_reason :: string
  qr_legacy_lease :: expired_lease
  qr_started_at :: timestamp
  qr_outcome_at :: timestamp

datatype quarantine_result =
    Quarantined quarantine_receipt
  | AlreadyQuarantined quarantine_receipt
  | QuarantineRejected rejection

subsection \<open>Redis evidence\<close>

record redis_evidence =
  ra_redis_server_run_id :: string
  ra_probe_run_id :: string
  ra_probed_at :: timestamp
  ra_topic :: string
  ra_message_id :: string
  ra_payload_sha256 :: string
  ra_match_count :: int
  ra_stream_ids :: "string list"

definition max_stream_ids :: nat where
  "max_stream_ids = 16"

definition max_evidence_bytes :: nat where
  "max_evidence_bytes = 2048"

definition evidence_schema :: string where
  "evidence_schema = ''kairos.redis-acceptance-evidence.v1''"

definition resolution_schema :: string where
  "resolution_schema = ''kairos.redis-acceptance-resolution.v1''"

text \<open>The length of a string's UTF-8 encoding (code points below 256 only).\<close>

definition utf8_length :: "string \<Rightarrow> nat" where
  "utf8_length s = sum_list (map (\<lambda>c. if (of_char c :: nat) < 128 then 1 else 2) s)"

definition literal_char :: "char \<Rightarrow> bool" where
  "literal_char c \<longleftrightarrow> (let n = of_char c :: nat in
     (48 \<le> n \<and> n \<le> 57) \<or> (65 \<le> n \<and> n \<le> 90) \<or> (97 \<le> n \<and> n \<le> 122)
     \<or> c = CHR ''.'' \<or> c = CHR ''_'' \<or> c = CHR ''-'')"

definition stream_id_ok :: "string \<Rightarrow> bool" where
  "stream_id_ok s \<longleftrightarrow> (let a = takeWhile py_digit s; r = dropWhile py_digit s in
     1 \<le> length a \<and> length a \<le> 20 \<and> r \<noteq> [] \<and> hd r = CHR ''-'' \<and>
     1 \<le> length (tl r) \<and> length (tl r) \<le> 10 \<and> list_all py_digit (tl r))"

definition bounded_name :: "nat \<Rightarrow> string \<Rightarrow> bool" where
  "bounded_name maximum s \<longleftrightarrow> s \<noteq> [] \<and> length s \<le> maximum \<and> list_all (\<lambda>c. 32 \<le> (of_char c :: nat)) s"

text \<open>\<open>astimezone(UTC).isoformat().replace("+00:00", "Z")\<close>\<close>

definition iso_z :: "timestamp \<Rightarrow> string" where
  "iso_z t = (let s = isoformat_auto t in take (length s - 6) s @ ''Z'')"

definition evidence_document :: "redis_evidence \<Rightarrow> json" where
  "evidence_document e = JObj
     [(''schema'', JStr evidence_schema),
      (''redis_server_run_id'', JStr (ra_redis_server_run_id e)),
      (''probe_run_id'', JStr (ra_probe_run_id e)),
      (''probed_at_utc'', JStr (iso_z (ra_probed_at e))),
      (''topic'', JStr (ra_topic e)),
      (''message_id'', JStr (ra_message_id e)),
      (''canonical_payload_sha256'', JStr (ra_payload_sha256 e)),
      (''match_count'', JInt (ra_match_count e)),
      (''stream_ids'', JArr (map JStr (ra_stream_ids e)))]"

definition evidence_canonical_json :: "redis_evidence \<Rightarrow> string" where
  "evidence_canonical_json e = canonical_json (evidence_document e)"

definition evidence_sha256 :: "(string \<Rightarrow> string) \<Rightarrow> redis_evidence \<Rightarrow> string" where
  "evidence_sha256 sha e = sha (evidence_canonical_json e)"

text \<open>\<open>__post_init__\<close>; \<open>offset\<close> is the probe timestamp's UTC offset, \<open>None\<close> when it is naive.\<close>

definition evidence_check :: "int option \<Rightarrow> redis_evidence \<Rightarrow> unit res" where
  "evidence_check offset e =
     (let n = ra_match_count e; ids = ra_stream_ids e in
      if \<not> (length (ra_redis_server_run_id e) = 40 \<and> list_all lower_hex (ra_redis_server_run_id e))
      then Inl (ValueError ''Redis server run_id must be 40 lowercase hex characters'')
      else if \<not> (1 \<le> length (ra_probe_run_id e) \<and> length (ra_probe_run_id e) \<le> 128
             \<and> list_all literal_char (ra_probe_run_id e))
      then Inl (ValueError ''Redis probe run_id must be a bounded literal identifier'')
      else if offset \<noteq> Some 0 then Inl (ValueError ''Redis probe timestamp must be timezone-aware UTC'')
      else if \<not> bounded_name 250 (ra_topic e) \<or> \<not> bounded_name 512 (ra_message_id e)
      then Inl (ValueError ''Redis evidence field is invalid or oversized'')
      else if \<not> sha256_hex (ra_payload_sha256 e)
      then Inl (ValueError ''Redis evidence payload hash must be lowercase SHA-256'')
      else if n < 0 \<or> n > 10000 then Inl (ValueError ''Redis match_count must be between zero and 10000'')
      else if length ids > max_stream_ids
      then Inl (ValueError ''Redis stream ID evidence exceeds its bounded limit'')
      else if \<not> list_all stream_id_ok ids then Inl (ValueError ''Redis stream ID is malformed'')
      else if \<not> distinct ids then Inl (ValueError ''Redis stream IDs must be unique'')
      else if n = 0 \<and> ids \<noteq> [] then Inl (ValueError ''zero Redis matches cannot contain stream IDs'')
      else if n = 1 \<and> length ids \<noteq> 1 then Inl (ValueError ''one Redis match requires its exact stream ID'')
      else if n > 1 \<and> length ids < 2
      then Inl (ValueError ''multiple Redis matches require at least two stream IDs'')
      else if int (length ids) \<noteq> min n (int max_stream_ids)
      then Inl (ValueError ''Redis stream ID sample does not match its bounded count'')
      else if utf8_length (evidence_canonical_json e) > max_evidence_bytes
      then Inl (ValueError ''Redis acceptance evidence exceeds its byte limit'')
      else Inr ())"

record resolution_receipt =
  rr_identity :: offline_identity
  rr_reconciliation_id :: string
  rr_evidence :: redis_evidence
  rr_resolved_at :: timestamp

datatype resolution_result =
    Resolved resolution_receipt
  | AlreadyResolved resolution_receipt
  | NoMatchRemainsUnknown
  | MultipleMatchesConflict
  | ResolutionRejected rejection

subsection \<open>Validation of one exact row\<close>

definition canonical_outbox_payload :: "(string \<Rightarrow> string) \<Rightarrow> json \<Rightarrow> (json \<times> string) res" where
  "canonical_outbox_payload sha payload =
     (if \<not> is_object payload then Inl (ValueError ''outbox payload must be a JSON object'')
      else case canonical_dumps payload of
        Inl e \<Rightarrow> Inl (ValueError ''outbox payload is not canonicalizable'')
      | Inr canonical \<Rightarrow> (case json_loads canonical of
            None \<Rightarrow> Inl (ValueError ''Expecting value'')
          | Some doc \<Rightarrow> Inr (doc, sha canonical)))"

definition identity_matches :: "offline_identity \<Rightarrow> outbox_row \<Rightarrow> bool" where
  "identity_matches i r \<longleftrightarrow>
     ob_id r = oi_id i \<and> ob_producer r = oi_producer i \<and> ob_message_id r = oi_message_id i \<and>
     ob_topic r = oi_topic i \<and> ob_payload_sha256 r = Some (oi_payload_sha256 i) \<and>
     ob_publish_attempts r = oi_publish_attempts i"

definition lease_expired :: "timestamp \<Rightarrow> outbox_row \<Rightarrow> bool" where
  "lease_expired now r \<longleftrightarrow> (case ob_lease_until r of None \<Rightarrow> False | Some u \<Rightarrow> u < now)"

text \<open>The payload and audit checks that close \<open>_validate_exact_offline_outbox\<close>.\<close>

definition validate_documents ::
  "(string \<Rightarrow> string) \<Rightarrow> offline_identity \<Rightarrow> audit_row list \<Rightarrow> json \<Rightarrow> rejection option" where
  "validate_documents sha i audits stored =
     (case canonical_outbox_payload sha stored of
        Inl e \<Rightarrow> Some PAYLOAD_HASH_MISMATCH
      | Inr (payload, actual) \<Rightarrow>
          if actual \<noteq> oi_payload_sha256 i \<or> json_get ''message_id'' payload \<noteq> Some (JStr (oi_message_id i))
          then Some PAYLOAD_HASH_MISMATCH
          else (case audits of
             [audit] \<Rightarrow> (case canonical_outbox_payload sha (ev_payload audit) of
                 Inl e \<Rightarrow> Some AUDIT_MISMATCH
               | Inr (audit_payload, audit_sha) \<Rightarrow>
                   if ev_topic audit \<noteq> oi_topic i \<or> audit_sha \<noteq> oi_payload_sha256 i
                      \<or> \<not> json_eq audit_payload payload
                      \<or> json_get ''message_id'' audit_payload \<noteq> Some (JStr (oi_message_id i))
                   then Some AUDIT_MISMATCH else None)
           | _ \<Rightarrow> Some AUDIT_MISMATCH))"

definition validate_exact_offline_outbox ::
  "(string \<Rightarrow> string) \<Rightarrow> timestamp \<Rightarrow> outbox_row option \<Rightarrow> offline_identity \<Rightarrow> audit_row list \<Rightarrow> bool
     \<Rightarrow> string \<Rightarrow> bool \<Rightarrow> bool \<Rightarrow> bool \<Rightarrow> rejection option res" where
  "validate_exact_offline_outbox sha now row i audits has_predecessor lease_requirement
       require_clear require_no_predecessor require_available =
     (if lease_requirement \<notin> {''expired'', ''clear'', ''ignored''}
      then Inl (ValueError ''offline outbox lease requirement must be expired, clear, or ignored'')
      else Inr (case row of
        None \<Rightarrow> Some NOT_FOUND
      | Some r \<Rightarrow>
          if \<not> identity_matches i r then Some IDENTITY_MISMATCH
          else if ob_published_at r \<noteq> None then Some ALREADY_PUBLISHED
          else if ob_dead_lettered_at r \<noteq> None then Some DEAD_LETTERED
          else if lease_requirement = ''expired'' \<and> \<not> lease_expired now r then Some LEASE_NOT_EXPIRED
          else if lease_requirement = ''clear'' \<and> ob_lease_until r \<noteq> None then Some LEASE_PRESENT
          else if require_available \<and> \<not> ob_available_at r \<le> now then Some NOT_YET_AVAILABLE
          else if require_clear \<and> ob_state r \<noteq> NONE then Some RECONCILIATION_NOT_CLEAR
          else if require_no_predecessor \<and> has_predecessor then Some EARLIER_UNPUBLISHED_PREDECESSOR
          else validate_documents sha i audits (ob_payload r)))"

definition require_reconciliation_id :: "string \<Rightarrow> string res" where
  "require_reconciliation_id s =
     (if blank s \<or> length s > 200
      then Inl (ValueError ''offline reconciliation_id must be a non-empty string of at most 200 characters'')
      else Inr (strip s))"

definition require_quarantine_reason :: "string \<Rightarrow> string res" where
  "require_quarantine_reason s =
     (if blank s \<or> length (strip s) > 3500
      then Inl (ValueError ''offline quarantine reason must be a non-empty string of at most 3500 characters'')
      else Inr (strip s))"

definition quarantine_evidence :: "(string \<Rightarrow> string) \<Rightarrow> string \<Rightarrow> expired_lease \<Rightarrow> string res" where
  "quarantine_evidence sha reason lease =
     (let evidence = canonical_json (JObj
        [(''expired_lease_owner_sha256'', JStr (sha (xl_owner lease))),
         (''expired_lease_until'', JStr (isoformat_us (xl_until lease))),
         (''reason'', JStr reason)])
      in if length evidence > 4000
         then Inl (ValueError ''offline quarantine evidence exceeds the durable error limit'')
         else Inr evidence)"

definition quarantine_receipt_of ::
  "string \<Rightarrow> string \<Rightarrow> expired_lease \<Rightarrow> timestamp option \<Rightarrow> timestamp option \<Rightarrow> quarantine_receipt option" where
  "quarantine_receipt_of rid reason lease started outcome =
     (case (started, outcome) of
        (Some s, Some u) \<Rightarrow> if u < s then None
          else Some \<lparr>qr_reconciliation_id = rid, qr_reason = reason, qr_legacy_lease = lease,
                 qr_started_at = s, qr_outcome_at = u\<rparr>
      | _ \<Rightarrow> None)"

definition migration_018 :: string where
  "migration_018 = ''018_offline_outbox_reconciliation.sql''"

definition migration_applied :: "string list option \<Rightarrow> bool" where
  "migration_applied versions = (case versions of None \<Rightarrow> False | Some vs \<Rightarrow> migration_018 \<in> set vs)"

subsection \<open>Quarantine\<close>

definition quarantined_row :: "string \<Rightarrow> string \<Rightarrow> timestamp \<Rightarrow> outbox_row \<Rightarrow> outbox_row" where
  "quarantined_row evidence rid now r = r\<lparr>ob_lease_until := None, ob_lease_owner := None,
     ob_last_error := Some evidence, ob_state := PUBLISH_OUTCOME_UNKNOWN,
     ob_reconciliation_id := Some rid, ob_started_at := Some now, ob_outcome_at := Some now\<rparr>"

definition quarantine_where ::
  "offline_identity \<Rightarrow> expired_lease \<Rightarrow> timestamp \<Rightarrow> outbox_row \<Rightarrow> bool" where
  "quarantine_where i lease now r \<longleftrightarrow>
     identity_matches i r \<and> ob_lease_owner r = Some (xl_owner lease) \<and>
     ob_lease_until r = Some (xl_until lease) \<and> unsettled r \<and> ob_available_at r \<le> now \<and>
     lease_expired now r \<and> ob_state r = NONE"

text \<open>What the transaction decides about a row that passed validation.\<close>

definition quarantine_decision ::
  "offline_identity \<Rightarrow> expired_lease \<Rightarrow> string \<Rightarrow> string \<Rightarrow> string \<Rightarrow> timestamp \<Rightarrow> outbox_row
     \<Rightarrow> outbox_row list \<Rightarrow> (quarantine_result \<times> outbox_row list) res" where
  "quarantine_decision i lease rid reason evidence now row t =
     (if ob_state row = PUBLISH_OUTCOME_UNKNOWN then
        (case quarantine_receipt_of rid reason lease (ob_started_at row) (ob_outcome_at row) of
           Some receipt \<Rightarrow>
             if ob_reconciliation_id row = Some rid \<and> ob_last_error row = Some evidence
                \<and> ob_lease_owner row = None \<and> ob_lease_until row = None
             then Inr (AlreadyQuarantined receipt, t)
             else Inr (QuarantineRejected RECONCILIATION_NOT_CLEAR, t)
         | None \<Rightarrow> Inr (QuarantineRejected RECONCILIATION_NOT_CLEAR, t))
      else if ob_state row \<noteq> NONE then Inr (QuarantineRejected RECONCILIATION_NOT_CLEAR, t)
      else if \<not> ob_available_at row \<le> now then Inr (QuarantineRejected NOT_YET_AVAILABLE, t)
      else if \<not> lease_expired now row then Inr (QuarantineRejected LEASE_NOT_EXPIRED, t)
      else if ob_lease_owner row \<noteq> Some (xl_owner lease) \<or> ob_lease_until row \<noteq> Some (xl_until lease)
      then Inr (QuarantineRejected LEASE_IDENTITY_MISMATCH, t)
      else case select_one (quarantine_where i lease now) t of
             None \<Rightarrow> Inr (QuarantineRejected RACE_LOST, t)
           | Some hit \<Rightarrow>
               let done = quarantined_row evidence rid now hit
               in case quarantine_receipt_of rid reason lease (ob_started_at done) (ob_outcome_at done) of
                    None \<Rightarrow> Inl (RuntimeError ''quarantine update returned an incomplete durable receipt'')
                  | Some receipt \<Rightarrow>
                      if ob_reconciliation_id done \<noteq> Some rid \<or> ob_last_error done \<noteq> Some evidence
                      then Inl (RuntimeError ''quarantine update returned mismatched durable evidence'')
                      else Inr (Quarantined receipt,
                             update_where (quarantine_where i lease now) (quarantined_row evidence rid now) t))"

definition quarantine_expired_outbox_exact ::
  "(string \<Rightarrow> string) \<Rightarrow> string list option \<Rightarrow> offline_identity \<Rightarrow> expired_lease \<Rightarrow> string \<Rightarrow> string
     \<Rightarrow> timestamp \<Rightarrow> audit_row list \<Rightarrow> outbox_row list \<Rightarrow> (quarantine_result \<times> outbox_row list) res" where
  "quarantine_expired_outbox_exact sha versions i lease reconciliation_id reason0 now audit t =
     rbind (require_reconciliation_id reconciliation_id) (\<lambda>rid.
     rbind (require_quarantine_reason reason0) (\<lambda>reason.
     rbind (quarantine_evidence sha reason lease) (\<lambda>evidence.
     if \<not> migration_applied versions then Inr (QuarantineRejected MIGRATION_018_REQUIRED, t)
     else if \<not> int8 (oi_id i) then Inl (DataError ''value out of int64 range'')
     else let row = select_one (\<lambda>r. ob_id r = oi_id i) t
          in rbind (validate_exact_offline_outbox sha now row i (audit_rows (oi_message_id i) audit)
                      False ''ignored'' False False False) (\<lambda>rejected.
             case rejected of
               Some r \<Rightarrow> rbind (as_quarantine_rejection r) (\<lambda>q. Inr (QuarantineRejected q, t))
             | None \<Rightarrow>
                 (case row of
                    None \<Rightarrow> Inl (RuntimeError ''validated offline outbox row unexpectedly disappeared'')
                  | Some r \<Rightarrow> quarantine_decision i lease rid reason evidence now r t)))))"

subsection \<open>Resolution from Redis evidence\<close>

definition identity_document :: "offline_identity \<Rightarrow> json" where
  "identity_document i = JObj
     [(''id'', JInt (oi_id i)), (''producer'', JStr (oi_producer i)),
      (''message_id'', JStr (oi_message_id i)), (''topic'', JStr (oi_topic i)),
      (''payload_sha256'', JStr (oi_payload_sha256 i)),
      (''publish_attempts'', JInt (oi_publish_attempts i))]"

definition resolution_record ::
  "(string \<Rightarrow> string) \<Rightarrow> offline_identity \<Rightarrow> string \<Rightarrow> redis_evidence \<Rightarrow> string \<Rightarrow> json" where
  "resolution_record sha i rid e last_error = JObj
     [(''schema'', JStr resolution_schema), (''reconciliation_id'', JStr rid),
      (''identity'', identity_document i), (''evidence'', evidence_document e),
      (''evidence_sha256'', JStr (evidence_sha256 sha e)), (''legacy_last_error'', JStr last_error)]"

definition resolution_keys :: "string list" where
  "resolution_keys = [''schema'', ''reconciliation_id'', ''identity'', ''evidence'',
     ''evidence_sha256'', ''legacy_last_error'']"

text \<open>\<open>stored.get(k) != expected\<close> is false.\<close>

definition field_equals :: "string \<Rightarrow> json \<Rightarrow> json \<Rightarrow> bool" where
  "field_equals k expected stored = (case json_get k stored of None \<Rightarrow> False | Some v \<Rightarrow> json_eq v expected)"

definition stored_resolution_matches ::
  "(string \<Rightarrow> string) \<Rightarrow> offline_identity \<Rightarrow> string \<Rightarrow> redis_evidence \<Rightarrow> json \<Rightarrow> bool" where
  "stored_resolution_matches sha i rid e stored \<longleftrightarrow>
     (case stored of JObj kvs \<Rightarrow> set (map fst kvs) = set resolution_keys | _ \<Rightarrow> False) \<and>
     field_equals ''schema'' (JStr resolution_schema) stored \<and>
     field_equals ''reconciliation_id'' (JStr rid) stored \<and>
     field_equals ''identity'' (identity_document i) stored \<and>
     field_equals ''evidence'' (evidence_document e) stored \<and>
     field_equals ''evidence_sha256'' (JStr (evidence_sha256 sha e)) stored \<and>
     str_field ''legacy_last_error'' stored \<noteq> None"

definition resolution_receipt_of ::
  "offline_identity \<Rightarrow> string \<Rightarrow> redis_evidence \<Rightarrow> timestamp \<Rightarrow> resolution_receipt" where
  "resolution_receipt_of i rid e at =
     \<lparr>rr_identity = i, rr_reconciliation_id = rid, rr_evidence = e, rr_resolved_at = at\<rparr>"

text \<open>The answer for a row that is already acknowledged.\<close>

definition resolved_before ::
  "(string \<Rightarrow> string) \<Rightarrow> offline_identity \<Rightarrow> string \<Rightarrow> redis_evidence \<Rightarrow> outbox_row \<Rightarrow> resolution_result" where
  "resolved_before sha i rid e row =
     (case ob_published_at row of
        None \<Rightarrow> ResolutionRejected INCONSISTENT_PUBLISHED_STATE
      | Some published \<Rightarrow>
          if ob_dead_lettered_at row \<noteq> None \<or> ob_lease_owner row \<noteq> None \<or> ob_lease_until row \<noteq> None
          then ResolutionRejected INCONSISTENT_PUBLISHED_STATE
          else case (case ob_last_error row of None \<Rightarrow> None | Some s \<Rightarrow> json_loads s) of
                 None \<Rightarrow> ResolutionRejected EVIDENCE_MISMATCH
               | Some stored \<Rightarrow>
                   if stored_resolution_matches sha i rid e stored
                   then AlreadyResolved (resolution_receipt_of i rid e published)
                   else ResolutionRejected EVIDENCE_MISMATCH)"

definition resolved_row :: "string \<Rightarrow> timestamp \<Rightarrow> outbox_row \<Rightarrow> outbox_row" where
  "resolved_row evidence now r =
     r\<lparr>ob_published_at := Some now, ob_state := ACKNOWLEDGED, ob_last_error := Some evidence\<rparr>"

definition resolve_where ::
  "offline_identity \<Rightarrow> string \<Rightarrow> string \<Rightarrow> outbox_row \<Rightarrow> bool" where
  "resolve_where i rid last_error r \<longleftrightarrow>
     identity_matches i r \<and> ob_state r = PUBLISH_OUTCOME_UNKNOWN \<and> ob_reconciliation_id r = Some rid \<and>
     unsettled r \<and> ob_lease_owner r = None \<and> ob_lease_until r = None \<and> ob_last_error r = Some last_error"

text \<open>The answer for a row whose outcome is unknown.\<close>

definition resolve_unknown ::
  "(string \<Rightarrow> string) \<Rightarrow> offline_identity \<Rightarrow> string \<Rightarrow> redis_evidence \<Rightarrow> timestamp \<Rightarrow> outbox_row
     \<Rightarrow> outbox_row list \<Rightarrow> resolution_result \<times> outbox_row list" where
  "resolve_unknown sha i rid e now row t =
     (if ob_published_at row \<noteq> None \<or> ob_dead_lettered_at row \<noteq> None
         \<or> ob_lease_owner row \<noteq> None \<or> ob_lease_until row \<noteq> None
      then (ResolutionRejected INCONSISTENT_PUBLISHED_STATE, t)
      else case ob_last_error row of
        None \<Rightarrow> (ResolutionRejected QUARANTINE_METADATA_INVALID, t)
      | Some last_error \<Rightarrow>
          if last_error = [] \<or> ob_started_at row = None \<or> ob_outcome_at row = None
          then (ResolutionRejected QUARANTINE_METADATA_INVALID, t)
          else let evidence = canonical_json (resolution_record sha i rid e last_error)
               in if utf8_length evidence > 4000 then (ResolutionRejected EVIDENCE_TOO_LARGE, t)
                  else if affected (resolve_where i rid last_error) t = 0
                  then (ResolutionRejected RACE_LOST, t)
                  else (Resolved (resolution_receipt_of i rid e now),
                        update_where (resolve_where i rid last_error) (resolved_row evidence now) t))"

text \<open>The payload and audit checks, and the dispatch on the row's state.\<close>

definition resolve_row ::
  "(string \<Rightarrow> string) \<Rightarrow> offline_identity \<Rightarrow> string \<Rightarrow> redis_evidence \<Rightarrow> timestamp \<Rightarrow> audit_row list
     \<Rightarrow> outbox_row \<Rightarrow> outbox_row list \<Rightarrow> resolution_result \<times> outbox_row list" where
  "resolve_row sha i rid e now audit row t =
     (case validate_documents sha i (audit_rows (oi_message_id i) audit) (ob_payload row) of
        Some r \<Rightarrow> (ResolutionRejected r, t)
      | None \<Rightarrow>
          if ob_reconciliation_id row \<noteq> Some rid
          then (ResolutionRejected RECONCILIATION_ID_MISMATCH, t)
          else if ob_state row = ACKNOWLEDGED then (resolved_before sha i rid e row, t)
          else if ob_state row \<noteq> PUBLISH_OUTCOME_UNKNOWN
          then (ResolutionRejected RECONCILIATION_NOT_UNKNOWN, t)
          else resolve_unknown sha i rid e now row t)"

definition resolve_unknown_outbox_from_redis_evidence ::
  "(string \<Rightarrow> string) \<Rightarrow> string list option \<Rightarrow> offline_identity \<Rightarrow> string \<Rightarrow> redis_evidence \<Rightarrow> timestamp
     \<Rightarrow> audit_row list \<Rightarrow> outbox_row list \<Rightarrow> (resolution_result \<times> outbox_row list) res" where
  "resolve_unknown_outbox_from_redis_evidence sha versions i reconciliation_id e now audit t =
     rbind (require_reconciliation_id reconciliation_id) (\<lambda>rid.
     if ra_topic e \<noteq> oi_topic i \<or> ra_message_id e \<noteq> oi_message_id i
        \<or> ra_payload_sha256 e \<noteq> oi_payload_sha256 i
     then Inr (ResolutionRejected EVIDENCE_MISMATCH, t)
     else if ra_match_count e = 0 then Inr (NoMatchRemainsUnknown, t)
     else if ra_match_count e > 1 then Inr (MultipleMatchesConflict, t)
     else if \<not> migration_applied versions then Inr (ResolutionRejected MIGRATION_018_REQUIRED, t)
     else if \<not> int8 (oi_id i) then Inl (DataError ''value out of int64 range'')
     else case select_one (\<lambda>r. ob_id r = oi_id i) t of
            None \<Rightarrow> Inr (ResolutionRejected NOT_FOUND, t)
          | Some row \<Rightarrow>
              if \<not> identity_matches i row then Inr (ResolutionRejected IDENTITY_MISMATCH, t)
              else Inr (resolve_row sha i rid e now audit row t))"

subsection \<open>Exact claims\<close>

definition five_minutes :: int where
  "five_minutes = 300000000"

text \<open>
  The transaction that \<open>claim_expired_outbox_exact\<close> and \<open>claim_ready_outbox_exact\<close> share but for the
  lease they ask for.
\<close>

definition claim_exact ::
  "(string \<Rightarrow> string) \<Rightarrow> string \<Rightarrow> (outbox_row \<Rightarrow> bool) \<Rightarrow> offline_identity \<Rightarrow> string \<Rightarrow> int \<Rightarrow> timestamp
     \<Rightarrow> audit_row list \<Rightarrow> outbox_row list \<Rightarrow> (exact_claim_result \<times> outbox_row list) res" where
  "claim_exact sha lease_requirement lease_ok i rid lease now audit t =
     (if \<not> int8 (oi_id i) then Inl (DataError ''value out of int64 range'')
      else let row = select_one (\<lambda>r. ob_id r = oi_id i) t;
               predecessor = unsettled_before (oi_producer i) (oi_id i) t;
               hit = (\<lambda>r. identity_matches i r \<and> unsettled r \<and> ob_available_at r \<le> now
                        \<and> lease_ok r \<and> ob_state r = NONE)
           in rbind (validate_exact_offline_outbox sha now row i (audit_rows (oi_message_id i) audit)
                       predecessor lease_requirement True True True) (\<lambda>rejected.
              case rejected of
                Some r \<Rightarrow> Inr (ClaimRejected r, t)
              | None \<Rightarrow>
                  if \<not> int4 (oi_publish_attempts i + 1) then Inl (DataError ''integer out of range'')
                  else case select_one hit t of
                    None \<Rightarrow> Inr (ClaimRejected RACE_LOST, t)
                  | Some r \<Rightarrow>
                      rbind (canonical_outbox_payload sha (ob_payload r)) (\<lambda>(payload, digest).
                        Inr (Claimed \<lparr>ec_identity = i, ec_payload = payload, ec_reconciliation_id = rid,
                                ec_claimed_publish_attempts = ob_publish_attempts r + 1\<rparr>,
                             update_where hit (publishing_row rid rid now lease) t))))"

definition claim_expired_outbox_exact ::
  "(string \<Rightarrow> string) \<Rightarrow> offline_identity \<Rightarrow> string \<Rightarrow> int \<Rightarrow> timestamp \<Rightarrow> audit_row list
     \<Rightarrow> outbox_row list \<Rightarrow> (exact_claim_result \<times> outbox_row list) res" where
  "claim_expired_outbox_exact sha i reconciliation_id lease now audit t =
     rbind (require_reconciliation_id reconciliation_id) (\<lambda>rid.
     if \<not> (0 < lease \<and> lease \<le> five_minutes)
     then Inl (ValueError ''offline exact outbox lease must be greater than zero and at most five minutes'')
     else claim_exact sha ''expired'' (lease_expired now) i rid lease now audit t)"

definition claim_ready_outbox_exact ::
  "(string \<Rightarrow> string) \<Rightarrow> offline_identity \<Rightarrow> string \<Rightarrow> int \<Rightarrow> timestamp \<Rightarrow> audit_row list
     \<Rightarrow> outbox_row list \<Rightarrow> (exact_claim_result \<times> outbox_row list) res" where
  "claim_ready_outbox_exact sha i reconciliation_id lease now audit t =
     rbind (require_reconciliation_id reconciliation_id) (\<lambda>rid.
     if \<not> (0 < lease \<and> lease \<le> five_minutes)
     then Inl (ValueError ''offline exact outbox lease must be greater than zero and at most five minutes'')
     else claim_exact sha ''clear'' (\<lambda>r. ob_lease_until r = None) i rid lease now audit t)"

definition exact_held :: "offline_identity \<Rightarrow> string \<Rightarrow> outbox_row \<Rightarrow> bool" where
  "exact_held i rid r \<longleftrightarrow>
     identity_matches (i\<lparr>oi_publish_attempts := oi_publish_attempts i + 1\<rparr>) r \<and>
     ob_state r = PUBLISHING \<and> ob_reconciliation_id r = Some rid \<and> unsettled r"

definition acknowledge_exact_outbox_publish ::
  "offline_identity \<Rightarrow> string \<Rightarrow> timestamp \<Rightarrow> outbox_row list \<Rightarrow> (bool \<times> outbox_row list) res" where
  "acknowledge_exact_outbox_publish i reconciliation_id now t =
     rbind (require_reconciliation_id reconciliation_id) (\<lambda>rid.
     if \<not> int8 (oi_id i) \<or> \<not> int4 (oi_publish_attempts i + 1)
     then Inl (DataError ''value out of range'')
     else Inr (affected (exact_held i rid) t = 1,
               update_where (exact_held i rid) (acknowledged_row now) t))"

definition mark_exact_outbox_publish_outcome_unknown ::
  "offline_identity \<Rightarrow> string \<Rightarrow> string \<Rightarrow> timestamp \<Rightarrow> outbox_row list \<Rightarrow> (bool \<times> outbox_row list) res" where
  "mark_exact_outbox_publish_outcome_unknown i reconciliation_id reason now t =
     rbind (require_reconciliation_id reconciliation_id) (\<lambda>rid.
     if \<not> int8 (oi_id i) \<or> \<not> int4 (oi_publish_attempts i + 1)
     then Inl (DataError ''value out of range'')
     else Inr (affected (exact_held i rid) t = 1,
               update_where (exact_held i rid) (unknown_row (take 4000 reason) now) t))"

subsection \<open>Progress\<close>

lemma require_reconciliation_id_Inr:
  "require_reconciliation_id s = Inr rid \<longleftrightarrow> rid = strip s \<and> \<not> blank s \<and> length s \<le> 200"
  by (auto simp: require_reconciliation_id_def)

lemma quarantined_progress:
  assumes "\<not> blank rid"
  shows "row_progress (quarantine_where i lease now) (quarantined_row evidence rid now)"
  using assms
  by (auto simp: row_progress_def outbox_check_def outbox_le_def quarantined_row_def quarantine_where_def
      unsettled_def)

lemma resolved_progress: "row_progress (resolve_where i rid last_error) (resolved_row evidence now)"
  by (auto simp: row_progress_def outbox_check_def outbox_le_def resolved_row_def resolve_where_def
      unsettled_def)

text \<open>Every rejection and replay leaves the table alone; only a new quarantine changes it.\<close>

lemma quarantine_decision_outcome:
  assumes "quarantine_decision i lease rid reason evidence now row t = Inr (result, t')"
  obtains (kept) "t' = t" and "\<And>receipt. result \<noteq> Quarantined receipt"
  | (quarantined) hit where "select_one (quarantine_where i lease now) t = Some hit"
      and "t' = update_where (quarantine_where i lease now) (quarantined_row evidence rid now) t"
      and "result = Quarantined \<lparr>qr_reconciliation_id = rid, qr_reason = reason, qr_legacy_lease = lease,
             qr_started_at = now, qr_outcome_at = now\<rparr>"
proof (cases "ob_state row = PUBLISH_OUTCOME_UNKNOWN")
  case True
  with assms show thesis
    by (intro kept)
      (auto simp: quarantine_decision_def split: option.splits if_splits)
next
  case False
  show thesis
  proof (cases "select_one (quarantine_where i lease now) t")
    case None
    with assms False show thesis
      by (intro kept) (auto simp: quarantine_decision_def split: if_splits)
  next
    case (Some hit)
    with assms False show thesis
      by (auto simp: quarantine_decision_def Let_def quarantined_row_def quarantine_receipt_of_def
          split: if_splits intro: kept quarantined[of hit])
  qed
qed

lemma quarantine_outcome:
  assumes "quarantine_expired_outbox_exact sha versions i lease reconciliation_id reason0 now audit t = Inr (result, t')"
  obtains (kept) "t' = t" and "\<And>receipt. result \<noteq> Quarantined receipt"
  | (decided) row reason evidence where "select_one (\<lambda>r. ob_id r = oi_id i) t = Some row"
      and "identity_matches i row" and "unsettled row"
      and "validate_documents sha i (audit_rows (oi_message_id i) audit) (ob_payload row) = None"
      and "require_quarantine_reason reason0 = Inr reason"
      and "quarantine_evidence sha reason lease = Inr evidence" and "\<not> blank (strip reconciliation_id)"
      and "migration_applied versions"
      and "quarantine_decision i lease (strip reconciliation_id) reason evidence now row t = Inr (result, t')"
proof -
  let ?row = "select_one (\<lambda>r. ob_id r = oi_id i) t"
  let ?v = "validate_exact_offline_outbox sha now ?row i (audit_rows (oi_message_id i) audit)
      False ''ignored'' False False False"
  obtain reason evidence where pre: "\<not> blank reconciliation_id"
      "require_reconciliation_id reconciliation_id = Inr (strip reconciliation_id)"
      "require_quarantine_reason reason0 = Inr reason" "quarantine_evidence sha reason lease = Inr evidence"
    using assms
    by (auto simp: quarantine_expired_outbox_exact_def rbind_eq_Inr require_reconciliation_id_Inr)
  show thesis
  proof (cases "migration_applied versions \<and> int8 (oi_id i)")
    case False
    with assms pre show thesis
      by (intro kept) (auto simp: quarantine_expired_outbox_exact_def split: if_splits)
  next
    case True
    obtain rejected where v: "?v = Inr rejected" by (simp add: validate_exact_offline_outbox_def)
    show thesis
    proof (cases rejected)
      case (Some r)
      with assms pre True v show thesis
        by (intro kept) (auto simp: quarantine_expired_outbox_exact_def rbind_eq_Inr)
    next
      case None
      with v obtain row where row: "?row = Some row"
        by (auto simp: validate_exact_offline_outbox_def split: option.splits)
      with v None have "identity_matches i row" "unsettled row"
          "validate_documents sha i (audit_rows (oi_message_id i) audit) (ob_payload row) = None"
        by (auto simp: validate_exact_offline_outbox_def unsettled_def split: if_splits)
      moreover have "quarantine_decision i lease (strip reconciliation_id) reason evidence now row t = Inr (result, t')"
        using assms pre True v None row by (simp add: quarantine_expired_outbox_exact_def)
      ultimately show thesis using pre True row by (intro decided[of row reason evidence]) simp_all
    qed
  qed
qed

lemma quarantine_progress:
  assumes "outbox_ok t"
    and "quarantine_expired_outbox_exact sha versions i lease reconciliation_id reason0 now audit t = Inr (result, t')"
  shows "outbox_progress t t'"
  using assms(2)
proof (cases rule: quarantine_outcome)
  case kept
  with assms(1) show ?thesis by (simp add: outbox_progress_refl)
next
  case (decided row reason evidence)
  from decided(9) show ?thesis
  proof (cases rule: quarantine_decision_outcome)
    case kept
    with assms(1) show ?thesis by (simp add: outbox_progress_refl)
  next
    case (quarantined hit)
    with assms(1) decided(7) show ?thesis by (simp add: update_progress quarantined_progress)
  qed
qed

lemma resolve_outcome:
  assumes "resolve_unknown_outbox_from_redis_evidence sha versions i reconciliation_id e now audit t = Inr (result, t')"
  obtains (kept) "t' = t" and "\<And>receipt. result \<noteq> Resolved receipt"
  | (resolved) row last_error where "row \<in> set t" and "resolve_where i (strip reconciliation_id) last_error row"
      and "ra_topic e = oi_topic i" and "ra_message_id e = oi_message_id i"
      and "ra_payload_sha256 e = oi_payload_sha256 i" and "ra_match_count e \<noteq> 0" and "ra_match_count e \<le> 1"
      and "validate_documents sha i (audit_rows (oi_message_id i) audit) (ob_payload row) = None"
      and "\<not> blank reconciliation_id" and "length reconciliation_id \<le> 200"
      and "migration_applied versions" and "int8 (oi_id i)"
      and "result = Resolved (resolution_receipt_of i (strip reconciliation_id) e now)"
      and "t' = update_where (resolve_where i (strip reconciliation_id) last_error)
             (resolved_row (canonical_json (resolution_record sha i (strip reconciliation_id) e last_error)) now) t"
proof -
  let ?rid = "strip reconciliation_id"
  obtain rid where rid: "require_reconciliation_id reconciliation_id = Inr rid"
    using assms by (auto simp: resolve_unknown_outbox_from_redis_evidence_def rbind_eq_Inr)
  then have pre: "rid = ?rid" "\<not> blank reconciliation_id" "length reconciliation_id \<le> 200"
    by (simp_all add: require_reconciliation_id_Inr)
  note body = assms [unfolded resolve_unknown_outbox_from_redis_evidence_def rid rbind_Inr]
  show thesis
  proof (cases "ra_topic e = oi_topic i \<and> ra_message_id e = oi_message_id i \<and> ra_payload_sha256 e = oi_payload_sha256 i
      \<and> ra_match_count e \<noteq> 0 \<and> ra_match_count e \<le> 1 \<and> migration_applied versions \<and> int8 (oi_id i)")
    case False
    with body show thesis by (intro kept) (auto split: if_splits)
  next
    case True
    show thesis
    proof (cases "select_one (\<lambda>r. ob_id r = oi_id i) t")
      case None
      with body True show thesis by (intro kept) auto
    next
      case (Some row)
      show thesis
      proof (cases "identity_matches i row \<and>
          validate_documents sha i (audit_rows (oi_message_id i) audit) (ob_payload row) = None \<and>
          ob_reconciliation_id row = Some rid \<and> ob_state row = PUBLISH_OUTCOME_UNKNOWN")
        case False
        with body True Some show thesis
          by (intro kept)
            (auto simp: resolve_row_def resolved_before_def split: option.splits if_splits)
      next
        case m: True
        with body True Some have un: "resolve_unknown sha i rid e now row t = (result, t')"
          by (simp add: resolve_row_def)
        show thesis
        proof (cases "\<exists>receipt. result = Resolved receipt")
          case False
          with un show thesis
            by (intro kept) (auto simp: resolve_unknown_def Let_def split: option.splits if_splits)
        next
          case res: True
          with un obtain last_error where le: "ob_last_error row = Some last_error"
            by (auto simp: resolve_unknown_def split: option.splits if_splits)
          with un res m have "resolve_where i rid last_error row"
            "result = Resolved (resolution_receipt_of i rid e now)"
            "t' = update_where (resolve_where i rid last_error)
               (resolved_row (canonical_json (resolution_record sha i rid e last_error)) now) t"
            by (auto simp: resolve_unknown_def Let_def resolve_where_def unsettled_def split: if_splits)
          moreover have "row \<in> set t" using Some by (auto dest: select_one_SomeD)
          ultimately show thesis using True m pre by (intro resolved[of row last_error]) auto
        qed
      qed
    qed
  qed
qed

lemma resolve_progress:
  assumes "outbox_ok t"
    and "resolve_unknown_outbox_from_redis_evidence sha versions i reconciliation_id e now audit t = Inr (result, t')"
  shows "outbox_progress t t'"
  using assms(2)
proof (cases rule: resolve_outcome)
  case kept
  with assms(1) show ?thesis by (simp add: outbox_progress_refl)
next
  case (resolved row last_error)
  with assms(1) show ?thesis by (simp add: update_progress resolved_progress)
qed

text \<open>What an exact claim has established.\<close>

definition exactly_claimable ::
  "(string \<Rightarrow> string) \<Rightarrow> offline_identity \<Rightarrow> audit_row list \<Rightarrow> outbox_row list \<Rightarrow> outbox_row \<Rightarrow> bool" where
  "exactly_claimable sha i audit t r \<longleftrightarrow>
     r \<in> set t \<and> identity_matches i r \<and> unsettled r \<and> ob_state r = NONE \<and>
     \<not> unsettled_before (ob_producer r) (ob_id r) t \<and>
     validate_documents sha i (audit_rows (oi_message_id i) audit) (ob_payload r) = None"

lemma claim_exact_outcome:
  assumes "claim_exact sha req lease_ok i rid lease now audit t = Inr (result, t')"
  obtains (kept) "t' = t" and "\<And>c. result \<noteq> Claimed c"
  | (claimed) c r hit where "result = Claimed c" and "ec_identity c = i"
      and "exactly_claimable sha i audit t r"
      and "t' = update_where hit (publishing_row rid rid now lease) t"
      and "\<And>q. hit q \<Longrightarrow> ob_id q = oi_id i \<and> ob_state q = NONE \<and> unsettled q" and "\<exists>q\<in>set t. hit q"
proof -
  let ?row = "select_one (\<lambda>r. ob_id r = oi_id i) t"
  let ?v = "validate_exact_offline_outbox sha now ?row i (audit_rows (oi_message_id i) audit)
      (unsettled_before (oi_producer i) (oi_id i) t) req True True True"
  define hit where "hit = (\<lambda>r. identity_matches i r \<and> unsettled r \<and> ob_available_at r \<le> now
      \<and> lease_ok r \<and> ob_state r = NONE)"
  have i8: "int8 (oi_id i)" using assms by (simp add: claim_exact_def split: if_splits)
  obtain rejected where v: "?v = Inr rejected"
    using assms i8 by (auto simp: claim_exact_def Let_def rbind_eq_Inr)
  show thesis
  proof (cases rejected)
    case (Some r)
    with assms i8 v show thesis by (intro kept) (auto simp: claim_exact_def)
  next
    case None
    with v obtain row where row: "?row = Some row"
      by (auto simp: validate_exact_offline_outbox_def split: option.splits if_splits)
    then have row_in: "row \<in> set t" by (auto dest: select_one_SomeD)
    have ok: "exactly_claimable sha i audit t row"
      using v None row row_in
      by (auto simp: validate_exact_offline_outbox_def exactly_claimable_def unsettled_def identity_matches_def
          split: if_splits)
    show thesis
    proof (cases "select_one hit t")
      case none: None
      with assms i8 v None show thesis
        unfolding hit_def by (intro kept) (auto simp: claim_exact_def Let_def split: if_splits)
    next
      case some: (Some q)
      with assms i8 v None obtain c where "result = Claimed c" "ec_identity c = i"
          "t' = update_where hit (publishing_row rid rid now lease) t"
        unfolding hit_def by (auto simp: claim_exact_def Let_def rbind_eq_Inr split: if_splits)
      moreover have "\<exists>q\<in>set t. hit q" using some by (auto dest: select_one_SomeD)
      ultimately show thesis using ok
        by (intro claimed[of c row hit]) (auto simp: hit_def identity_matches_def)
    qed
  qed
qed

lemma claim_exact_progress:
  assumes "outbox_ok t" and "\<not> blank rid"
    and "claim_exact sha req lease_ok i rid lease now audit t = Inr (result, t')"
  shows "outbox_progress t t'"
  using assms(3)
proof (cases rule: claim_exact_outcome)
  case kept
  with assms(1) show ?thesis by (simp add: outbox_progress_refl)
next
  case (claimed c r hit)
  have "row_progress hit (publishing_row rid rid now lease)"
    by (rule row_progress_mono [OF publishing_progress [OF assms(2)]]) (use claimed(5) in blast)
  with assms(1) claimed(4) show ?thesis by (simp add: update_progress)
qed

lemma exact_settle_progress:
  assumes "outbox_ok t"
  shows "acknowledge_exact_outbox_publish i reconciliation_id now t = Inr (b, t') \<Longrightarrow> outbox_progress t t'"
    and "mark_exact_outbox_publish_outcome_unknown i reconciliation_id reason now t = Inr (b, t') \<Longrightarrow> outbox_progress t t'"
proof -
  have held: "row_progress (exact_held i rid) f" if "row_progress (\<lambda>r. ob_state r = PUBLISHING) f" for f rid
    by (rule row_progress_mono [OF that]) (simp add: exact_held_def)
  show "acknowledge_exact_outbox_publish i reconciliation_id now t = Inr (b, t') \<Longrightarrow> outbox_progress t t'"
    using update_progress [OF assms held [OF acknowledged_progress]]
    by (auto simp: acknowledge_exact_outbox_publish_def rbind_eq_Inr split: if_splits)
  show "mark_exact_outbox_publish_outcome_unknown i reconciliation_id reason now t = Inr (b, t') \<Longrightarrow> outbox_progress t t'"
    using update_progress [OF assms held [OF unknown_progress]]
    by (auto simp: mark_exact_outbox_publish_outcome_unknown_def rbind_eq_Inr split: if_splits)
qed

subsection \<open>Runs of the outbox\<close>

text \<open>
  Everything that writes the outbox. The operations that read the audit log carry the log as it is
  when they run, so a run may interleave them with any appends.
\<close>

datatype outbox_op =
    EnqueueOp int string string string string string timestamp
  | ClaimOp string string int int string timestamp
  | PublishedOp outbox_record string timestamp
  | UnknownOp outbox_record string string timestamp
  | FailOp int string string int int timestamp
  | QuarantineOp "string list option" offline_identity expired_lease string string timestamp "audit_row list"
  | ResolveOp "string list option" offline_identity string redis_evidence timestamp "audit_row list"
  | ClaimExpiredOp offline_identity string int timestamp "audit_row list"
  | ClaimReadyOp offline_identity string int timestamp "audit_row list"
  | AckExactOp offline_identity string timestamp
  | UnknownExactOp offline_identity string string timestamp

fun outbox_step :: "(string \<Rightarrow> string) \<Rightarrow> outbox_op \<Rightarrow> outbox_row list \<Rightarrow> outbox_row list" where
  "outbox_step sha (EnqueueOp nid mid topic payload digest producer now) t =
     settle t (enqueue_outbox nid mid topic payload digest producer now t)"
| "outbox_step sha (ClaimOp w producer limit lease uuid now) t =
     settle t (claim_outbox w producer limit lease uuid now t)"
| "outbox_step sha (PublishedOp rec w now) t = settle t (mark_published rec w now t)"
| "outbox_step sha (UnknownOp rec w reason now) t =
     settle t (mark_outbox_publish_outcome_unknown rec w reason now t)"
| "outbox_step sha (FailOp i w error retry_after max_attempts now) t =
     settle t (fail_outbox i w error retry_after max_attempts now t)"
| "outbox_step sha (QuarantineOp versions i lease rid reason now audit) t =
     settle t (quarantine_expired_outbox_exact sha versions i lease rid reason now audit t)"
| "outbox_step sha (ResolveOp versions i rid e now audit) t =
     settle t (resolve_unknown_outbox_from_redis_evidence sha versions i rid e now audit t)"
| "outbox_step sha (ClaimExpiredOp i rid lease now audit) t =
     settle t (claim_expired_outbox_exact sha i rid lease now audit t)"
| "outbox_step sha (ClaimReadyOp i rid lease now audit) t =
     settle t (claim_ready_outbox_exact sha i rid lease now audit t)"
| "outbox_step sha (AckExactOp i rid now) t = settle t (acknowledge_exact_outbox_publish i rid now t)"
| "outbox_step sha (UnknownExactOp i rid reason now) t =
     settle t (mark_exact_outbox_publish_outcome_unknown i rid reason now t)"

text \<open>The rows an operation hands to a caller for publishing on the transport.\<close>

definition claimed_ids :: "(exact_claim_result \<times> outbox_row list) res \<Rightarrow> int list" where
  "claimed_ids r = (case r of Inr (Claimed c, t') \<Rightarrow> [oi_id (ec_identity c)] | _ \<Rightarrow> [])"

fun handed_out :: "(string \<Rightarrow> string) \<Rightarrow> outbox_op \<Rightarrow> outbox_row list \<Rightarrow> int list" where
  "handed_out sha (ClaimOp w producer limit lease uuid now) t =
     (case claim_outbox w producer limit lease uuid now t of Inl e \<Rightarrow> [] | Inr (recs, t') \<Rightarrow> map or_id recs)"
| "handed_out sha (ClaimExpiredOp i rid lease now audit) t =
     claimed_ids (claim_expired_outbox_exact sha i rid lease now audit t)"
| "handed_out sha (ClaimReadyOp i rid lease now audit) t =
     claimed_ids (claim_ready_outbox_exact sha i rid lease now audit t)"
| "handed_out sha op t = []"

fun dispatch_trace :: "(string \<Rightarrow> string) \<Rightarrow> outbox_op list \<Rightarrow> outbox_row list \<Rightarrow> int list" where
  "dispatch_trace sha [] t = []"
| "dispatch_trace sha (op # ops) t = handed_out sha op t @ dispatch_trace sha ops (outbox_step sha op t)"

lemmas outbox_progress_intros =
  outbox_progress_refl enqueue_progress claim_progress dispatcher_progress quarantine_progress
  resolve_progress exact_settle_progress

lemma claim_expired_progress:
  "outbox_ok t \<Longrightarrow> claim_expired_outbox_exact sha i rid lease now audit t = Inr (r, t') \<Longrightarrow> outbox_progress t t'"
  by (auto simp: claim_expired_outbox_exact_def rbind_eq_Inr require_reconciliation_id_Inr
      intro!: claim_exact_progress [of t "strip rid"])

lemma claim_ready_progress:
  "outbox_ok t \<Longrightarrow> claim_ready_outbox_exact sha i rid lease now audit t = Inr (r, t') \<Longrightarrow> outbox_progress t t'"
  by (auto simp: claim_ready_outbox_exact_def rbind_eq_Inr require_reconciliation_id_Inr
      intro!: claim_exact_progress [of t "strip rid"])

lemma outbox_step_progress:
  assumes "outbox_ok t"
  shows "outbox_progress t (outbox_step sha op t)"
  by (cases op; simp only: outbox_step.simps;
      rule settle_cases [of "outbox_progress t"], rule outbox_progress_refl [OF assms];
      erule outbox_progress_intros [OF assms] claim_expired_progress [OF assms] claim_ready_progress [OF assms])

interpretation outbox: monotone_system "outbox_step sha" outbox_ok "table_le outbox_le" for sha
  using outbox_step_progress
  by unfold_locales
    (auto simp: outbox_progress_def intro: table_le_refl table_le_trans [OF outbox_le_trans])

text \<open>A row is handed out only while its state is NONE and no earlier row of its producer is open.\<close>

definition head_of_line :: "int \<Rightarrow> outbox_row list \<Rightarrow> outbox_row \<Rightarrow> bool" where
  "head_of_line i t r \<longleftrightarrow> r \<in> set t \<and> ob_id r = i \<and> ob_state r = NONE \<and> unsettled r \<and>
     \<not> unsettled_before (ob_producer r) i t"

definition in_publication :: "int \<Rightarrow> outbox_row list \<Rightarrow> bool" where
  "in_publication i t \<longleftrightarrow> (\<exists>r\<in>set t. ob_id r = i \<and> ob_state r \<noteq> NONE)"

lemma claim_exact_handed:
  assumes "claim_exact sha req lease_ok i rid lease now audit t = Inr (Claimed c, t')"
  shows "(\<exists>r. head_of_line (oi_id (ec_identity c)) t r) \<and> in_publication (oi_id (ec_identity c)) t'"
  using assms
proof (cases rule: claim_exact_outcome)
  case (claimed c' r hit)
  then obtain q where q: "q \<in> set t" "hit q" by blast
  then have "publishing_row rid rid now lease q \<in> set t'" "ob_id q = oi_id i"
    using claimed(4,5) by (auto simp: set_update_where)
  then have "in_publication (oi_id i) t'"
    by (auto simp: in_publication_def publishing_row_def intro!: bexI [of _ "publishing_row rid rid now lease q"])
  moreover have "head_of_line (oi_id i) t r"
    using claimed(3) by (auto simp: exactly_claimable_def head_of_line_def identity_matches_def)
  ultimately show ?thesis using claimed(1,2) by auto
qed auto

lemma claimed_ids_cases:
  "i \<in> set (claimed_ids res) \<Longrightarrow> \<exists>c t'. res = Inr (Claimed c, t') \<and> i = oi_id (ec_identity c)"
  by (auto simp: claimed_ids_def split: sum.splits prod.splits exact_claim_result.splits)

lemma claimed_ids_single: "claimed_ids res = [] \<or> (\<exists>i. claimed_ids res = [i])"
  by (auto simp: claimed_ids_def split: sum.splits prod.splits exact_claim_result.splits)

lemma handed_out_single:
  assumes "outbox_ok t"
  shows "handed_out sha op t = [] \<or> (\<exists>i. handed_out sha op t = [i])"
proof (cases op)
  case (ClaimOp w producer limit lease uuid now)
  show ?thesis
  proof (cases "claim_outbox w producer limit lease uuid now t")
    case (Inr res)
    obtain recs t' where res: "res = (recs, t')" by fastforce
    from assms Inr [unfolded res] show ?thesis
      by (cases rule: claim_outbox_outcome) (simp_all add: ClaimOp Inr res)
  qed (simp add: ClaimOp)
qed (use claimed_ids_single in simp_all)

lemma handed_out_head:
  assumes "outbox_ok t" and "i \<in> set (handed_out sha op t)"
  shows "(\<exists>r. head_of_line i t r) \<and> in_publication i (outbox_step sha op t)"
proof (cases op)
  case (ClaimOp w producer limit lease uuid now)
  show ?thesis
  proof (cases "claim_outbox w producer limit lease uuid now t")
    case (Inl e)
    with assms(2) show ?thesis by (simp add: ClaimOp)
  next
    case (Inr res)
    obtain recs t' where res: "res = (recs, t')" by fastforce
    let ?f = "publishing_row w (''dispatch:'' @ uuid) now lease"
    from assms(1) Inr [unfolded res] show ?thesis
    proof (cases rule: claim_outbox_outcome)
      case none
      with assms(2) show ?thesis by (simp add: ClaimOp Inr res)
    next
      case (one r)
      have i: "i = ob_id r"
        using assms(2) one(3) by (simp add: ClaimOp Inr res record_of_row_def publishing_row_def)
      have "?f r \<in> set t'" using one(1,4) by (auto simp: set_update_where)
      then have "in_publication i t'"
        unfolding in_publication_def i by (rule bexI [rotated]) (simp add: publishing_row_def)
      moreover have "head_of_line i t r"
        using one(1,2) i by (auto simp: head_of_line_def dispatchable_def)
      ultimately show ?thesis by (auto simp: ClaimOp Inr res)
    qed
  qed
next
  case (ClaimExpiredOp d rid lease now audit)
  with assms(2) obtain c t' where c: "claim_expired_outbox_exact sha d rid lease now audit t = Inr (Claimed c, t')"
      "i = oi_id (ec_identity c)"
    by (auto dest: claimed_ids_cases)
  then have "(\<exists>r. head_of_line i t r) \<and> in_publication i t'"
    by (auto simp: claim_expired_outbox_exact_def rbind_eq_Inr dest!: claim_exact_handed)
  with c show ?thesis by (simp add: ClaimExpiredOp)
next
  case (ClaimReadyOp d rid lease now audit)
  with assms(2) obtain c t' where c: "claim_ready_outbox_exact sha d rid lease now audit t = Inr (Claimed c, t')"
      "i = oi_id (ec_identity c)"
    by (auto dest: claimed_ids_cases)
  then have "(\<exists>r. head_of_line i t r) \<and> in_publication i t'"
    by (auto simp: claim_ready_outbox_exact_def rbind_eq_Inr dest!: claim_exact_handed)
  with c show ?thesis by (simp add: ClaimReadyOp)
qed (use assms(2) in simp_all)

lemma head_not_in_publication:
  "outbox_ok t \<Longrightarrow> head_of_line i t r \<Longrightarrow> \<not> in_publication i t"
  by (auto simp: head_of_line_def in_publication_def outbox_ok_def dest: unique_by_eq)

lemma in_publication_kept:
  assumes "in_publication i t" and "table_le outbox_le t u"
  shows "in_publication i u"
proof -
  obtain r where r: "r \<in> set t" "ob_id r = i" "ob_state r \<noteq> NONE"
    using assms(1) by (auto simp: in_publication_def)
  with assms(2) obtain q where q: "q \<in> set u" "outbox_le r q" by (auto dest: table_leD)
  then have "ob_state q \<noteq> NONE" using r(3) by (auto simp: outbox_le_def)
  with q r(2) show ?thesis by (auto simp: in_publication_def outbox_le_def)
qed

lemma dispatch_trace_open:
  assumes "outbox_ok t" and "i \<in> set (dispatch_trace sha ops t)"
  shows "\<not> in_publication i t"
  using assms
proof (induction ops arbitrary: t)
  case (Cons op ops)
  have p: "outbox_progress t (outbox_step sha op t)" using Cons.prems(1) by (rule outbox_step_progress)
  from Cons.prems(2) consider "i \<in> set (handed_out sha op t)"
    | "i \<in> set (dispatch_trace sha ops (outbox_step sha op t))" by auto
  then show ?case
  proof cases
    case 1
    with handed_out_head [OF Cons.prems(1)] head_not_in_publication [OF Cons.prems(1)] show ?thesis by blast
  next
    case 2
    with Cons.IH p have "\<not> in_publication i (outbox_step sha op t)" by (auto simp: outbox_progress_def)
    with p show ?thesis by (auto simp: outbox_progress_def dest: in_publication_kept)
  qed
qed simp

subsection \<open>Rows with an unknown outcome\<close>

text \<open>The evidence that can move a row on: one match in Redis for exactly this effect.\<close>

definition resolves :: "outbox_row \<Rightarrow> outbox_op \<Rightarrow> bool" where
  "resolves r op = (case op of
       ResolveOp versions i rid e now audit \<Rightarrow>
         identity_matches i r \<and> ra_topic e = ob_topic r \<and> ra_message_id e = ob_message_id r \<and>
         Some (ra_payload_sha256 e) = ob_payload_sha256 r \<and> ra_match_count e \<noteq> 0 \<and> ra_match_count e \<le> 1
     | _ \<Rightarrow> False)"

definition stuck_unknown :: "outbox_row \<Rightarrow> outbox_row list \<Rightarrow> bool" where
  "stuck_unknown r t \<longleftrightarrow> outbox_ok t \<and> r \<in> set t \<and> ob_state r = PUBLISH_OUTCOME_UNKNOWN \<and>
     ob_payload_sha256 r \<noteq> None"

lemma untouched: "r \<in> set t \<Longrightarrow> \<not> P r \<Longrightarrow> r \<in> set (update_where P f t)"
  by (auto simp: set_update_where)

text \<open>
  A row written before there were fingerprints gets one when the same message, with the same topic, document and producer,
  is enqueued again; nothing else of it changes.
\<close>

definition fills :: "outbox_row \<Rightarrow> outbox_op \<Rightarrow> outbox_row \<Rightarrow> bool" where
  "fills r op r' \<longleftrightarrow> ob_payload_sha256 r = None \<and> (case op of
       EnqueueOp nid mid topic payload digest producer now \<Rightarrow>
         mid = ob_message_id r \<and> topic = ob_topic r \<and> producer = ob_producer r \<and>
         payload = canonical_json (ob_payload r) \<and> r' = set_outbox_sha digest r
     | _ \<Rightarrow> False)"

definition same_but_filled :: "outbox_op list \<Rightarrow> outbox_row \<Rightarrow> outbox_row \<Rightarrow> bool" where
  "same_but_filled ops r r' \<longleftrightarrow> r' = r \<or> (\<exists>op\<in>set ops. fills r op r')"

lemma enqueue_keeps:
  assumes "outbox_ok t" and "r \<in> set t"
    and "enqueue_outbox nid mid topic payload digest producer now t = Inr (b, t')"
  shows "r \<in> set t' \<or> (\<exists>r'\<in>set t'. fills r (EnqueueOp nid mid topic payload digest producer now) r')"
proof -
  obtain doc where doc: "\<not> blank producer" "text_to_jsonb payload = Inr doc" "sha256_hex digest"
    using assms(3) by (auto simp: enqueue_outbox_def rbind_eq_Inr split: if_splits)
  show ?thesis
  proof (cases "select_one (\<lambda>r. ob_message_id r = mid) t")
    case None
    with assms(2,3) doc show ?thesis by (auto simp: enqueue_outbox_def split: if_splits)
  next
    case (Some old)
    then have old: "old \<in> set t" "ob_message_id old = mid" by (auto dest: select_one_SomeD)
    show ?thesis
    proof (cases "ob_message_id r = mid")
      case True
      then have "r = old" using assms(1,2) old by (auto simp: outbox_ok_def dest: unique_by_eq)
      consider "t' = t" | "ob_payload_sha256 r = None" "ob_topic r = topic" "ob_producer r = producer"
          "canonical_json (ob_payload r) = payload" "t' = update_where (\<lambda>r. ob_message_id r = mid) (set_outbox_sha digest) t"
        using assms(3) Some doc \<open>r = old\<close> by (auto simp: enqueue_outbox_def split: if_splits)
      then show ?thesis
      proof cases
        case 2
        then have "set_outbox_sha digest r \<in> set t'" using assms(2) True by (auto simp: set_update_where)
        with 2 True show ?thesis by (intro disjI2 bexI [of _ "set_outbox_sha digest r"]) (simp_all add: fills_def)
      qed (use assms(2) in simp)
    next
      case False
      with assms(2,3) doc Some show ?thesis
        by (auto simp: enqueue_outbox_def set_update_where split: if_splits)
    qed
  qed
qed

lemma claim_exact_keeps:
  assumes "claim_exact sha req lease_ok i rid lease now audit t = Inr (result, t')"
    and "r \<in> set t" and "ob_state r \<noteq> NONE"
  shows "r \<in> set t'"
  using assms(1)
proof (cases rule: claim_exact_outcome)
  case (claimed c q hit)
  then have "\<not> hit r" using assms(3) by blast
  with assms(2) claimed(4) show ?thesis by (simp add: untouched)
qed (use assms(2) in simp)

lemma claim_outbox_keeps:
  assumes "outbox_ok t" and "r \<in> set t" and "ob_state r \<noteq> NONE"
    and "claim_outbox w producer limit lease uuid now t = Inr (recs, t')"
  shows "r \<in> set t'"
  using assms(1,4)
proof (cases rule: claim_outbox_outcome)
  case (one q)
  then have "ob_id r \<noteq> ob_id q"
    using assms by (auto simp: dispatchable_def outbox_ok_def dest: unique_by_eq)
  with assms(2) one(4) show ?thesis by (simp add: untouched)
qed (use assms(2) in simp)

lemma claim_expired_keeps:
  "r \<in> set t \<Longrightarrow> ob_state r \<noteq> NONE \<Longrightarrow> claim_expired_outbox_exact sha i rid lease now audit t = Inr (c, t')
    \<Longrightarrow> r \<in> set t'"
  by (auto simp: claim_expired_outbox_exact_def rbind_eq_Inr dest!: claim_exact_keeps)

lemma claim_ready_keeps:
  "r \<in> set t \<Longrightarrow> ob_state r \<noteq> NONE \<Longrightarrow> claim_ready_outbox_exact sha i rid lease now audit t = Inr (c, t')
    \<Longrightarrow> r \<in> set t'"
  by (auto simp: claim_ready_outbox_exact_def rbind_eq_Inr dest!: claim_exact_keeps)

lemma quarantine_keeps:
  assumes "r \<in> set t" and "ob_state r \<noteq> NONE"
    and "quarantine_expired_outbox_exact sha versions i lease rid reason now audit t = Inr (result, t')"
  shows "r \<in> set t'"
  using assms(3)
proof (cases rule: quarantine_outcome)
  case (decided row reason' evidence)
  from decided(9) show ?thesis
  proof (cases rule: quarantine_decision_outcome)
    case (quarantined hit)
    have "\<not> quarantine_where i lease now r" using assms(2) by (simp add: quarantine_where_def)
    with assms(1) quarantined(2) show ?thesis by (simp add: untouched)
  qed (use assms(1) in simp)
qed (use assms(1) in simp)

lemma resolve_keeps:
  assumes "r \<in> set t" and "\<not> resolves r (ResolveOp versions i rid e now audit)"
    and "resolve_unknown_outbox_from_redis_evidence sha versions i rid e now audit t = Inr (result, t')"
  shows "r \<in> set t'"
  using assms(3)
proof (cases rule: resolve_outcome)
  case (resolved row last_error)
  have "\<not> resolve_where i (strip rid) last_error r"
    using assms(2) resolved(3-7) by (auto simp: resolves_def resolve_where_def identity_matches_def)
  with assms(1) resolved(14) show ?thesis by (simp add: untouched)
qed (use assms(1) in simp)

lemma settlement_keeps:
  assumes "r \<in> set t" and "ob_state r \<noteq> NONE" and "ob_state r \<noteq> PUBLISHING"
  shows "mark_published rec w now t = Inr (b, t') \<Longrightarrow> r \<in> set t'"
    and "mark_outbox_publish_outcome_unknown rec w reason now t = Inr (b, t') \<Longrightarrow> r \<in> set t'"
    and "fail_outbox j w error retry_after max_attempts now t = Inr (b, t') \<Longrightarrow> r \<in> set t'"
    and "acknowledge_exact_outbox_publish i rid now t = Inr (b, t') \<Longrightarrow> r \<in> set t'"
    and "mark_exact_outbox_publish_outcome_unknown i rid reason now t = Inr (b, t') \<Longrightarrow> r \<in> set t'"
  using assms
  by (auto simp: mark_published_def mark_outbox_publish_outcome_unknown_def fail_outbox_def Let_def
      acknowledge_exact_outbox_publish_def mark_exact_outbox_publish_outcome_unknown_def rbind_eq_Inr
      held_claim_def exact_held_def intro!: untouched split: if_splits)

lemma unknown_step:
  assumes "outbox_ok t" and "r \<in> set t" and "ob_state r = PUBLISH_OUTCOME_UNKNOWN" and "\<not> resolves r op"
  shows "r \<in> set (outbox_step sha op t) \<or> (\<exists>r'\<in>set (outbox_step sha op t). fills r op r')"
proof -
  have r: "outbox_ok t" "r \<in> set t" "ob_state r \<noteq> NONE" "ob_state r \<noteq> PUBLISHING"
    using assms by simp_all
  note keep = claim_outbox_keeps [OF r(1-3)] settlement_keeps [OF r(2-4)]
    quarantine_keeps [OF r(2,3)] claim_expired_keeps [OF r(2,3)] claim_ready_keeps [OF r(2,3)]
  show ?thesis
  proof (cases op)
    case (EnqueueOp nid mid topic payload digest producer now)
    show ?thesis unfolding EnqueueOp outbox_step.simps
      by (rule settle_cases [of "\<lambda>t. r \<in> set t \<or> (\<exists>r'\<in>set t. fills r _ r')"]) (use r(2) enqueue_keeps [OF r(1,2)] in blast)+
  next
    case (ResolveOp versions i rid e now audit)
    show ?thesis unfolding ResolveOp outbox_step.simps
      by (rule disjI1, rule settle_cases [of "\<lambda>t. r \<in> set t", OF r(2)])
        (erule resolve_keeps [OF r(2) assms(4) [unfolded ResolveOp]])
  qed (rule disjI1, simp only: outbox_step.simps, rule settle_cases [of "\<lambda>t. r \<in> set t", OF r(2)], erule keep)+
qed

lemma stuck_unknown_step:
  assumes "\<not> resolves r op" and s: "stuck_unknown r t"
  shows "stuck_unknown r (outbox_step sha op t)"
proof -
  have r: "outbox_ok t" "r \<in> set t" "ob_state r = PUBLISH_OUTCOME_UNKNOWN" "ob_payload_sha256 r \<noteq> None"
    using s by (simp_all add: stuck_unknown_def)
  have "r \<in> set (outbox_step sha op t)"
    using unknown_step [OF r(1-3) assms(1)] r(4) by (simp add: fills_def)
  moreover have "outbox_ok (outbox_step sha op t)"
    using outbox_step_progress [OF r(1)] by (simp add: outbox_progress_def)
  ultimately show ?thesis using r by (simp add: stuck_unknown_def)
qed

interpretation unknown: invariant_system "outbox_step sha" "\<lambda>op. \<not> resolves r op" "stuck_unknown r" for sha r
  by unfold_locales (rule stuck_unknown_step)

text \<open>Without a fingerprint it stays too, and may get the one of an identical enqueue.\<close>

lemma unknown_run:
  assumes "outbox_ok t" and "r \<in> set t" and "ob_state r = PUBLISH_OUTCOME_UNKNOWN"
    and "\<And>r'. same_but_filled ops r r' \<Longrightarrow> list_all (\<lambda>op. \<not> resolves r' op) ops"
  shows "\<exists>r'\<in>set (fold (outbox_step sha) ops t). same_but_filled ops r r'"
  using assms
proof (induction ops arbitrary: t)
  case (Cons op ops)
  let ?t = "outbox_step sha op t"
  have ok: "outbox_ok ?t" using outbox_step_progress [OF Cons.prems(1)] by (simp add: outbox_progress_def)
  have no: "\<not> resolves r op" using Cons.prems(4) [of r] by (simp add: same_but_filled_def)
  from unknown_step [OF Cons.prems(1-3) no, of sha] show ?case
  proof
    assume "r \<in> set ?t"
    then have "\<exists>r'\<in>set (fold (outbox_step sha) ops ?t). same_but_filled ops r r'"
      using Cons.prems(3,4) by (intro Cons.IH [OF ok]) (auto simp: same_but_filled_def)
    then show ?thesis by (auto simp: same_but_filled_def)
  next
    assume "\<exists>r'\<in>set ?t. fills r op r'"
    then obtain r' where r': "r' \<in> set ?t" "fills r op r'" by blast
    then have s: "same_but_filled (op # ops) r r'" by (auto simp: same_but_filled_def)
    have "ob_state r' = PUBLISH_OUTCOME_UNKNOWN" "ob_payload_sha256 r' \<noteq> None"
      using r'(2) Cons.prems(3) by (auto simp: fills_def set_outbox_sha_def split: outbox_op.splits)
    with ok r'(1) have "stuck_unknown r' ?t" by (simp add: stuck_unknown_def)
    moreover have "list_all (\<lambda>op. \<not> resolves r' op) ops" using Cons.prems(4) [OF s] by simp
    ultimately have "stuck_unknown r' (fold (outbox_step sha) ops ?t)" by (rule unknown.run_inv [rotated])
    with s show ?thesis by (auto simp: stuck_unknown_def)
  qed
qed (auto simp: same_but_filled_def)

subsection \<open>A stored resolution is recognised again\<close>

lemma resolution_record_wf: "json_wf (resolution_record sha i rid e last_error)"
  by (simp add: resolution_record_def identity_document_def evidence_document_def list_all_iff)

lemma json_eq_sorted [simp]: "json_eq (sorted_json j) j"
  by (simp add: json_eq_def)

lemma stored_resolution_recognised:
  "stored_resolution_matches sha i rid e (sorted_json (resolution_record sha i rid e last_error))"
proof -
  obtain kvs where kvs: "resolution_record sha i rid e last_error = JObj kvs"
    and items: "kvs = [(''schema'', JStr resolution_schema), (''reconciliation_id'', JStr rid),
      (''identity'', identity_document i), (''evidence'', evidence_document e),
      (''evidence_sha256'', JStr (evidence_sha256 sha e)), (''legacy_last_error'', JStr last_error)]"
    by (simp add: resolution_record_def)
  let ?s = "sorted_json (JObj kvs)"
  have distinct: "distinct (map fst kvs)" by (simp add: items)
  have get: "json_get k ?s = Some (sorted_json v)" if "(k, v) \<in> set kvs" for k v
    using json_get_sorted [OF distinct, of k] map_of_is_SomeI [OF distinct that] by (simp add: json_get_def)
  have eq: "field_equals k v ?s" if "(k, v) \<in> set kvs" for k v
    by (simp only: field_equals_def get [OF that] option.case json_eq_sorted)
  have "str_field ''legacy_last_error'' ?s = Some last_error"
    using get [of "''legacy_last_error''" "JStr last_error"] by (simp add: str_field_def items del: sorted_json.simps(7))
  moreover have "fst ` set kvs = set resolution_keys" by (auto simp: items resolution_keys_def)
  then have "case ?s of JObj l \<Rightarrow> set (map fst l) = set resolution_keys | _ \<Rightarrow> False"
    by (simp add: image_image)
  moreover have "field_equals ''schema'' (JStr resolution_schema) ?s" "field_equals ''reconciliation_id'' (JStr rid) ?s"
    "field_equals ''identity'' (identity_document i) ?s" "field_equals ''evidence'' (evidence_document e) ?s"
    "field_equals ''evidence_sha256'' (JStr (evidence_sha256 sha e)) ?s"
    by (rule eq, simp add: items)+
  ultimately show ?thesis unfolding stored_resolution_matches_def kvs by simp
qed

section \<open>Properties\<close>

text \<open>
  Dispatch is at most once: in any run of everything that writes the outbox, by any number of
  dispatchers and recovery tools, no row is handed out for publishing twice, whether by the
  automatic dispatcher or by an exact offline claim.
\<close>

theorem dispatch_at_most_once:
  assumes "outbox_ok t"
  shows "distinct (dispatch_trace sha ops t)"
  using assms
proof (induction ops arbitrary: t)
  case (Cons op ops)
  let ?u = "outbox_step sha op t"
  have p: "outbox_ok ?u" using outbox_step_progress [OF Cons.prems, of sha op] by (simp add: outbox_progress_def)
  have "distinct (handed_out sha op t)"
    using handed_out_single [OF Cons.prems, of sha op] by auto
  moreover have "i \<notin> set (dispatch_trace sha ops ?u)" if "i \<in> set (handed_out sha op t)" for i
    using handed_out_head [OF Cons.prems that] dispatch_trace_open [OF p] by blast
  ultimately show ?case using Cons.IH [OF p] by auto
qed simp

text \<open>
  C15. Causal order per producer: a row is handed out only after every earlier row of its producer
  that was handed out before has been acknowledged as published; a row whose publication is
  pending or whose outcome is unknown blocks every later row of its producer.
\<close>

theorem dispatch_in_producer_order:
  assumes "outbox_ok t" and "i \<in> set (handed_out sha op t)"
    and "r \<in> set t" and "ob_id r = i"
    and "u = fold (outbox_step sha) ops (outbox_step sha op t)"
    and "j \<in> set (handed_out sha op' u)" and "q \<in> set u" and "ob_id q = j"
    and "ob_producer q = ob_producer r" and "i < j"
  shows "\<exists>r'\<in>set u. ob_id r' = i \<and> ob_state r' = ACKNOWLEDGED \<and> ob_published_at r' \<noteq> None"
proof -
  let ?t1 = "outbox_step sha op t"
  have p: "outbox_progress t ?t1" using assms(1) by (rule outbox_step_progress)
  then have ok1: "outbox_ok ?t1" and le1: "table_le outbox_le t ?t1" by (simp_all add: outbox_progress_def)
  have oku: "outbox_ok u" unfolding assms(5) using ok1 by (rule outbox.reach_inv)
  have le: "table_le outbox_le ?t1 u" unfolding assms(5) using ok1 by (rule outbox.run_le)
  have pub: "in_publication i u"
    using handed_out_head [OF assms(1,2)] le by (auto intro: in_publication_kept)
  then obtain r' where r': "r' \<in> set u" "ob_id r' = i" "ob_state r' \<noteq> NONE"
    by (auto simp: in_publication_def)
  have "table_le outbox_le t u"
    using table_le_trans [of outbox_le t ?t1 u] outbox_le_trans le1 le by blast
  then obtain r2 where "r2 \<in> set u" "outbox_le r r2"
    using assms(3) by (auto dest: table_leD)
  then have "r2 = r'" "ob_producer r' = ob_producer r"
    using oku r' assms(4) by (auto simp: outbox_ok_def outbox_le_def dest: unique_by_eq)
  obtain h where h: "head_of_line j u h" using handed_out_head [OF oku assms(6)] by blast
  then have "h = q" using oku assms(7,8) by (auto simp: head_of_line_def outbox_ok_def dest: unique_by_eq)
  with h assms(9,10) r' \<open>ob_producer r' = ob_producer r\<close> have "\<not> unsettled r'"
    by (auto simp: head_of_line_def unsettled_before_def list_ex_iff)
  moreover have "outbox_check r'" using oku r'(1) by (simp add: outbox_ok_def)
  ultimately have "ob_state r' = ACKNOWLEDGED \<and> ob_published_at r' \<noteq> None"
    using r'(3) by (cases "ob_state r'") (auto simp: outbox_check_def unsettled_def)
  with r' show ?thesis by blast
qed

text \<open>
  C16. An unknown outcome is never retried: a row in PUBLISH_OUTCOME_UNKNOWN stays exactly as it is
  through any run of dispatchers, workers and recovery tools, until an operation brings Redis
  evidence of one match for exactly its topic, message and payload fingerprint. The one exception is a row
  that has no fingerprint: enqueueing the same message with the same topic, document and producer fills it in,
  and leaves everything else of the row, its unknown outcome included, as it is.
\<close>

theorem unknown_outcome_kept:
  assumes "outbox_ok t" and "r \<in> set t" and "ob_state r = PUBLISH_OUTCOME_UNKNOWN"
    and "\<And>r'. same_but_filled ops r r' \<Longrightarrow> list_all (\<lambda>op. \<not> resolves r' op) ops"
  shows "\<exists>r'\<in>set (fold (outbox_step sha) ops t). same_but_filled ops r r'"
  using assms by (rule unknown_run)

text \<open>
  Resolving an unknown outcome is idempotent: after a resolution, and whatever runs in between,
  repeating it with the same evidence reports ALREADY_RESOLVED with the receipt of the first, reading
  the evidence back from the text it was stored as.
\<close>

theorem resolution_replays:
  assumes "outbox_ok t"
    and "resolve_unknown_outbox_from_redis_evidence sha versions i rid e now audit t = Inr (Resolved receipt, t')"
  shows "resolve_unknown_outbox_from_redis_evidence sha versions i rid e now' audit
      (fold (outbox_step sha) ops t') = Inr (AlreadyResolved receipt, fold (outbox_step sha) ops t')"
  using assms(2)
proof (cases rule: resolve_outcome)
  case (resolved row last_error)
  let ?u = "fold (outbox_step sha) ops t'"
  let ?e = "canonical_json (resolution_record sha i (strip rid) e last_error)"
  let ?row = "resolved_row ?e now row"
  have w: "identity_matches i row" "ob_state row = PUBLISH_OUTCOME_UNKNOWN"
      "ob_reconciliation_id row = Some (strip rid)" "unsettled row" "ob_lease_owner row = None"
      "ob_lease_until row = None"
    using resolved(2) by (simp_all add: resolve_where_def)
  have ok': "outbox_ok t'" using resolve_progress [OF assms] by (simp add: outbox_progress_def)
  have "?row \<in> set t'" using resolved(1,2,14) by (auto simp: set_update_where)
  then obtain q where q: "q \<in> set ?u" "outbox_le ?row q"
    using outbox.run_le [OF ok', of sha ops] by (auto dest: table_leD)
  then have "q = ?row"
    using w(1) by (simp add: outbox_le_def resolved_row_def identity_matches_def)
  then have sel: "select_one (\<lambda>r. ob_id r = oi_id i) ?u = Some ?row"
    using select_one_unique [of ob_id ?u ?row] q(1) outbox.reach_inv [OF ok', of sha ops] w(1)
    by (simp add: outbox_ok_def resolved_row_def identity_matches_def)
  have m: "identity_matches i ?row" using w(1) by (simp add: identity_matches_def resolved_row_def)
  have "resolved_before sha i (strip rid) e ?row = AlreadyResolved (resolution_receipt_of i (strip rid) e now)"
    using w stored_resolution_recognised json_loads_canonical [OF resolution_record_wf]
    by (simp add: resolved_before_def resolved_row_def unsettled_def)
  then have "resolve_row sha i (strip rid) e now' audit ?row ?u =
      (AlreadyResolved (resolution_receipt_of i (strip rid) e now), ?u)"
    using resolved(8) w(3) by (simp add: resolve_row_def resolved_row_def)
  then show ?thesis
    using resolved(3-13) sel m
    by (simp add: resolve_unknown_outbox_from_redis_evidence_def require_reconciliation_id_def)
qed blast

lemma enqueued_row:
  assumes "enqueue_outbox nid mid topic (canonical_json j) digest producer now t = Inr (b, t')"
    and "json_wf j" and "jsonb_exact j"
  obtains row where "row \<in> set t'" and "ob_message_id row = mid" and "ob_topic row = topic"
    and "ob_producer row = producer" and "canonical_json (ob_payload row) = canonical_json j"
    and "ob_payload_sha256 row = Some digest"
proof -
  obtain doc where doc: "\<not> blank producer" "text_to_jsonb (canonical_json j) = Inr doc" "sha256_hex digest"
    using assms(1) by (auto simp: enqueue_outbox_def rbind_eq_Inr split: if_splits)
  have canon: "canonical_json doc = canonical_json j"
    using canonical_stored [OF assms(2,3)] doc(2) by (auto simp: canonical_dumps_Inr)
  show thesis
  proof (cases "select_one (\<lambda>r. ob_message_id r = mid) t")
    case None
    with assms(1) doc have "t' = insert_row (fresh_outbox nid mid topic doc digest producer now) t"
      by (auto simp: enqueue_outbox_def split: if_splits)
    with canon show thesis
      by (intro that[of "fresh_outbox nid mid topic doc digest producer now"]) (simp_all add: fresh_outbox_def)
  next
    case (Some old)
    then have old: "old \<in> set t" "ob_message_id old = mid" by (auto dest: select_one_SomeD)
    with assms(1) doc Some have same: "ob_topic old = topic" "ob_producer old = producer"
        "canonical_json (ob_payload old) = canonical_json j"
        "ob_payload_sha256 old = None \<or> ob_payload_sha256 old = Some digest"
      by (auto simp: enqueue_outbox_def split: if_splits)
    show thesis
    proof (cases "ob_payload_sha256 old")
      case None
      with assms(1) doc Some have "t' = update_where (\<lambda>r. ob_message_id r = mid) (set_outbox_sha digest) t"
        by (auto simp: enqueue_outbox_def split: if_splits)
      with old have "set_outbox_sha digest old \<in> set t'" by (auto simp: set_update_where)
      with old same show thesis
        by (intro that[of "set_outbox_sha digest old"]) (simp_all add: set_outbox_sha_def)
    next
      case (Some s)
      with assms(1) doc \<open>select_one _ t = Some old\<close> have "t' = t"
        by (auto simp: enqueue_outbox_def split: if_splits)
      with old same Some show thesis by (intro that[of old]) auto
    qed
  qed
qed

lemma enqueue_answer:
  assumes "select_one (\<lambda>r. ob_message_id r = mid) t = Some row" and "ob_payload_sha256 row \<noteq> None"
  shows "enqueue_outbox nid mid topic payload digest producer now t = Inr (b, t') \<longleftrightarrow>
    \<not> blank producer \<and> \<not> isl (text_to_jsonb payload) \<and> sha256_hex digest \<and> ob_topic row = topic \<and>
    ob_producer row = producer \<and> canonical_json (ob_payload row) = payload \<and>
    ob_payload_sha256 row = Some digest \<and> \<not> b \<and> t' = t"
  using assms
  by (cases "text_to_jsonb payload") (auto simp: enqueue_outbox_def)

text \<open>
  Enqueueing is idempotent and gives a message id one meaning: once a message was enqueued with
  its canonical payload, then after any run of the outbox repeating it is answered \<open>False\<close> without a
  change, and an enqueue of the same message id succeeds only with the same topic, producer and
  payload text. (The payload is one whose floats a JSONB column keeps.)
\<close>

theorem enqueue_one_meaning:
  assumes "outbox_ok t" and "json_wf j" and "jsonb_exact j"
    and "enqueue_outbox nid mid topic (canonical_json j) digest producer now t = Inr (b, t')"
  shows "enqueue_outbox nid2 mid topic (canonical_json j) digest producer now2
      (fold (outbox_step sha) ops t') = Inr (False, fold (outbox_step sha) ops t') \<and>
    (\<forall>topic2 payload2 digest2 producer2 b2 t2.
       enqueue_outbox nid2 mid topic2 payload2 digest2 producer2 now2 (fold (outbox_step sha) ops t') = Inr (b2, t2)
       \<longrightarrow> topic2 = topic \<and> payload2 = canonical_json j \<and> producer2 = producer \<and> digest2 = digest
           \<and> \<not> b2 \<and> t2 = fold (outbox_step sha) ops t')"
proof -
  let ?u = "fold (outbox_step sha) ops t'"
  have ok': "outbox_ok t'" using enqueue_progress [OF assms(1,4)] by (simp add: outbox_progress_def)
  obtain row where row: "row \<in> set t'" "ob_message_id row = mid" "ob_topic row = topic"
      "ob_producer row = producer" "canonical_json (ob_payload row) = canonical_json j"
      "ob_payload_sha256 row = Some digest"
    using assms(4,2,3) by (rule enqueued_row)
  obtain q where q: "q \<in> set ?u" "outbox_le row q"
    using outbox.run_le [OF ok', of sha ops] row(1) by (auto dest: table_leD)
  then have same: "ob_message_id q = mid" "ob_topic q = topic" "ob_producer q = producer"
      "canonical_json (ob_payload q) = canonical_json j" "ob_payload_sha256 q = Some digest"
    using row by (auto simp: outbox_le_def)
  have sel: "select_one (\<lambda>r. ob_message_id r = mid) ?u = Some q"
    using select_one_unique [of ob_message_id ?u q] q(1) outbox.reach_inv [OF ok', of sha ops] same(1)
    by (simp add: outbox_ok_def)
  have "\<not> blank producer" "\<not> isl (text_to_jsonb (canonical_json j))" "sha256_hex digest"
    using assms(4) by (auto simp: enqueue_outbox_def rbind_eq_Inr split: if_splits)
  with enqueue_answer [OF sel] same show ?thesis by auto
qed

text \<open>
  A quarantine is idempotent: after an expired lease was quarantined, and as long as no Redis
  evidence resolves the row, repeating the quarantine with the same identity, lease, reason and
  reconciliation id reports ALREADY_QUARANTINED with the receipt of the first and changes nothing.
\<close>

theorem quarantine_replays:
  assumes "outbox_ok t"
    and "quarantine_expired_outbox_exact sha versions i lease rid reason now audit t = Inr (Quarantined receipt, t')"
    and "\<forall>r\<in>set t'. ob_id r = oi_id i \<longrightarrow> list_all (\<lambda>op. \<not> resolves r op) ops"
  shows "quarantine_expired_outbox_exact sha versions i lease rid reason now' audit
      (fold (outbox_step sha) ops t') = Inr (AlreadyQuarantined receipt, fold (outbox_step sha) ops t')"
  using assms(2)
proof (cases rule: quarantine_outcome)
  case kept
  then show ?thesis by blast
next
  case (decided row reason1 evidence)
  let ?u = "fold (outbox_step sha) ops t'"
  let ?row = "quarantined_row evidence (strip rid) now row"
  have row: "row \<in> set t" "ob_id row = oi_id i" using decided(1) by (auto dest: select_one_SomeD)
  from decided(9) obtain hit where hit: "select_one (quarantine_where i lease now) t = Some hit"
      "t' = update_where (quarantine_where i lease now) (quarantined_row evidence (strip rid) now) t"
      "receipt = \<lparr>qr_reconciliation_id = strip rid, qr_reason = reason1, qr_legacy_lease = lease,
         qr_started_at = now, qr_outcome_at = now\<rparr>"
    by (cases rule: quarantine_decision_outcome) auto
  have "hit = row"
    using hit(1) row assms(1)
    by (auto simp: quarantine_where_def identity_matches_def outbox_ok_def dest!: select_one_SomeD
        dest: unique_by_eq)
  then have "quarantine_where i lease now row" using hit(1) by (auto dest: select_one_SomeD)
  then have in': "?row \<in> set t'" using row(1) hit(2) by (auto simp: set_update_where)
  have ok': "outbox_ok t'" using quarantine_progress [OF assms(1,2)] by (simp add: outbox_progress_def)
  have "stuck_unknown ?row t'"
    using in' ok' decided(2) by (simp add: stuck_unknown_def quarantined_row_def identity_matches_def)
  moreover have "list_all (\<lambda>op. \<not> resolves ?row op) ops"
    using assms(3) in' row(2) by (simp add: quarantined_row_def)
  ultimately have stuck: "stuck_unknown ?row ?u" by (rule unknown.run_inv [rotated])
  have sel: "select_one (\<lambda>r. ob_id r = oi_id i) ?u = Some ?row"
    using select_one_unique [of ob_id ?u ?row] stuck row(2)
    by (simp add: stuck_unknown_def outbox_ok_def quarantined_row_def)
  have "validate_exact_offline_outbox sha now' (Some ?row) i (audit_rows (oi_message_id i) audit)
      False ''ignored'' False False False = Inr None"
    using decided(2-4)
    by (simp add: validate_exact_offline_outbox_def quarantined_row_def identity_matches_def unsettled_def)
  moreover have "quarantine_decision i lease (strip rid) reason1 evidence now' ?row ?u
      = Inr (AlreadyQuarantined receipt, ?u)"
    by (simp add: quarantine_decision_def quarantined_row_def quarantine_receipt_of_def hit(3))
  moreover have "int8 (oi_id i)" "require_reconciliation_id rid = Inr (strip rid)"
    using assms(2) decided(1,8)
    by (auto simp: quarantine_expired_outbox_exact_def rbind_eq_Inr require_reconciliation_id_Inr)
  ultimately show ?thesis
    using decided(5,6,8) sel by (simp add: quarantine_expired_outbox_exact_def)
qed

subsection \<open>Witnesses\<close>

definition sample_doc :: "string \<Rightarrow> json" where
  "sample_doc m = JObj [(''message_id'', JStr m)]"

definition sample_digest :: "string \<Rightarrow> string" where
  "sample_digest m = sample_sha (canonical_json (sample_doc m))"

definition sample_row :: "int \<Rightarrow> string \<Rightarrow> outbox_row" where
  "sample_row n m = fresh_outbox n m ''topic'' (sample_doc m) (sample_digest m) ''svc'' 0"

definition sample_outbox :: "outbox_row list" where
  "sample_outbox = [sample_row 1 ''m-1'', sample_row 2 ''m-2'']"

definition first_claim :: outbox_op where
  "first_claim = ClaimOp ''w'' ''svc'' 10 30 ''u1'' 5"

definition first_record :: outbox_record where
  "first_record = record_of_row ''dispatch:u1'' (publishing_row ''w'' ''dispatch:u1'' 5 30 (sample_row 1 ''m-1''))"

definition second_claim :: outbox_op where
  "second_claim = ClaimOp ''w'' ''svc'' 1 30 ''u2'' 7"

lemma sample_digest_hex: "sha256_hex (sample_digest m)"
  by (simp add: sample_digest_def sample_sha_def sha256_hex_def list_all_iff lower_hex_def)

lemma sample_row_check: "outbox_check (sample_row n m)"
proof -
  have "\<not> blank ''svc''" by code_simp
  then show ?thesis by (simp add: sample_row_def fresh_outbox_def outbox_check_def sample_digest_hex)
qed

lemma sample_outbox_ok: "outbox_ok sample_outbox"
  by (simp add: outbox_ok_def sample_outbox_def sample_row_check unique_by_def)
    (simp add: sample_row_def fresh_outbox_def)

text \<open>The first row is claimed and published, then the second; a further claim finds nothing.\<close>

theorem dispatch_at_most_once_witness:
  "dispatch_trace sample_sha [first_claim, PublishedOp first_record ''w'' 6, second_claim, second_claim]
      sample_outbox = [1, 2] \<and>
    distinct (dispatch_trace sample_sha [first_claim, PublishedOp first_record ''w'' 6, second_claim, second_claim]
      sample_outbox)"
  using dispatch_at_most_once [OF sample_outbox_ok] by (intro conjI) code_simp+

definition after_first :: "outbox_row list" where
  "after_first = fold (outbox_step sample_sha) [PublishedOp first_record ''w'' 6]
     (outbox_step sample_sha first_claim sample_outbox)"

theorem dispatch_in_producer_order_witness:
  "\<exists>r'\<in>set after_first. ob_id r' = 1 \<and> ob_state r' = ACKNOWLEDGED \<and> ob_published_at r' \<noteq> None"
proof -
  have i: "1 \<in> set (handed_out sample_sha first_claim sample_outbox)"
    and j: "2 \<in> set (handed_out sample_sha second_claim after_first)"
    by code_simp+
  have r: "sample_row 1 ''m-1'' \<in> set sample_outbox" "ob_id (sample_row 1 ''m-1'') = 1"
    by (simp_all add: sample_outbox_def sample_row_def fresh_outbox_def)
  have "list_ex (\<lambda>q. q = sample_row 2 ''m-2'') after_first" by code_simp
  then have q: "sample_row 2 ''m-2'' \<in> set after_first" by (auto simp: list_ex_iff)
  have e: "ob_id (sample_row 2 ''m-2'') = 2" "ob_producer (sample_row 2 ''m-2'') = ob_producer (sample_row 1 ''m-1'')"
    by (simp_all add: sample_row_def fresh_outbox_def)
  show ?thesis
    by (rule dispatch_in_producer_order [OF sample_outbox_ok i r after_first_def j q e]) simp
qed

text \<open>A row quarantined from an expired lease, its audit row and the evidence that resolves it.\<close>

definition leased_row :: outbox_row where
  "leased_row = (sample_row 1 ''m-1'')\<lparr>ob_lease_owner := Some ''old'', ob_lease_until := Some 3, ob_publish_attempts := 1\<rparr>"

definition sample_identity :: offline_identity where
  "sample_identity = \<lparr>oi_id = 1, oi_producer = ''svc'', oi_message_id = ''m-1'', oi_topic = ''topic'',
     oi_payload_sha256 = sample_digest ''m-1'', oi_publish_attempts = 1\<rparr>"

definition sample_audit :: "audit_row list" where
  "sample_audit = [\<lparr>ev_produced_at = 0, ev_message_id = ''m-1'', ev_topic = ''topic'', ev_source = ''svc'',
     ev_schema_version = ''1'', ev_correlation_id = None, ev_causation_id = None,
     ev_payload = sample_doc ''m-1''\<rparr>]"

definition old_lease :: expired_lease where
  "old_lease = \<lparr>xl_owner = ''old'', xl_until = 3\<rparr>"

definition sample_evidence :: redis_evidence where
  "sample_evidence = \<lparr>ra_redis_server_run_id = replicate 40 (CHR ''a''), ra_probe_run_id = ''p'', ra_probed_at = 0,
     ra_topic = ''topic'', ra_message_id = ''m-1'', ra_payload_sha256 = sample_digest ''m-1'',
     ra_match_count = 1, ra_stream_ids = [''1-0'']\<rparr>"

definition quarantined_outbox :: "outbox_row list" where
  "quarantined_outbox = settle [leased_row] (quarantine_expired_outbox_exact sample_sha (Some [migration_018])
     sample_identity old_lease ''rec-1'' ''lost'' 10 sample_audit [leased_row])"

lemma leased_ok: "outbox_ok [leased_row]"
proof -
  have "\<not> blank ''svc''" by code_simp
  then show ?thesis
    by (simp add: outbox_ok_def unique_by_def leased_row_def outbox_check_def sample_row_def fresh_outbox_def
        sample_digest_hex)
qed

lemma quarantined_receipt:
  "\<exists>receipt. quarantine_expired_outbox_exact sample_sha (Some [migration_018]) sample_identity old_lease
     ''rec-1'' ''lost'' 10 sample_audit [leased_row] = Inr (Quarantined receipt, quarantined_outbox)"
proof -
  let ?r = "quarantine_expired_outbox_exact sample_sha (Some [migration_018]) sample_identity old_lease
     ''rec-1'' ''lost'' 10 sample_audit [leased_row]"
  have "case ?r of Inr (Quarantined c, t) \<Rightarrow> True | _ \<Rightarrow> False" by code_simp
  then show ?thesis
    by (auto simp: quarantined_outbox_def split: sum.splits prod.splits quarantine_result.splits)
qed

lemma quarantined_ok: "outbox_ok quarantined_outbox"
  using quarantined_receipt quarantine_progress [OF leased_ok] by (auto simp: outbox_progress_def)

theorem quarantine_replays_witness:
  "\<exists>receipt. quarantine_expired_outbox_exact sample_sha (Some [migration_018]) sample_identity old_lease
     ''rec-1'' ''lost'' 20 sample_audit (outbox_step sample_sha second_claim quarantined_outbox)
     = Inr (AlreadyQuarantined receipt, outbox_step sample_sha second_claim quarantined_outbox)"
proof -
  obtain receipt where r: "quarantine_expired_outbox_exact sample_sha (Some [migration_018]) sample_identity old_lease
      ''rec-1'' ''lost'' 10 sample_audit [leased_row] = Inr (Quarantined receipt, quarantined_outbox)"
    using quarantined_receipt by blast
  have g: "\<forall>r\<in>set quarantined_outbox. ob_id r = oi_id sample_identity \<longrightarrow>
      list_all (\<lambda>op. \<not> resolves r op) [second_claim]"
    by (simp add: resolves_def second_claim_def)
  from quarantine_replays [OF leased_ok r g, of 20] show ?thesis by auto
qed

definition unknown_sample :: outbox_row where
  "unknown_sample = hd quarantined_outbox"

text \<open>The row as a writer without fingerprints would have left it; the same message is then enqueued again.\<close>

definition unfingerprinted_sample :: outbox_row where
  "unfingerprinted_sample = unknown_sample\<lparr>ob_payload_sha256 := None\<rparr>"

definition same_enqueue :: outbox_op where
  "same_enqueue = EnqueueOp 9 (ob_message_id unknown_sample) (ob_topic unknown_sample)
     (canonical_json (ob_payload unknown_sample)) (replicate 64 (CHR ''a'')) (ob_producer unknown_sample) 11"

lemma unknown_sample_in: "unknown_sample \<in> set quarantined_outbox"
proof -
  have "quarantined_outbox \<noteq> []" by code_simp
  then show ?thesis by (simp add: unknown_sample_def)
qed

theorem unknown_outcome_kept_witness:
  "\<exists>r'\<in>set (fold (outbox_step sample_sha) [same_enqueue, second_claim, FailOp 1 ''old'' ''x'' 5 1 12] [unfingerprinted_sample]).
     r' = unfingerprinted_sample \<or> r' = set_outbox_sha (replicate 64 (CHR ''a'')) unfingerprinted_sample"
proof -
  let ?ops = "[same_enqueue, second_claim, FailOp 1 ''old'' ''x'' 5 1 12]"
  have "outbox_check unknown_sample" using quarantined_ok unknown_sample_in by (simp add: outbox_ok_def)
  then have ok: "outbox_ok [unfingerprinted_sample]"
    by (simp add: outbox_ok_def unfingerprinted_sample_def outbox_check_def unique_by_def)
  have "ob_state unknown_sample = PUBLISH_OUTCOME_UNKNOWN" by code_simp
  then have u: "ob_state unfingerprinted_sample = PUBLISH_OUTCOME_UNKNOWN" by (simp add: unfingerprinted_sample_def)
  have "list_all (\<lambda>op. \<not> resolves r' op) ?ops" for r'
    by (simp add: resolves_def same_enqueue_def second_claim_def)
  then have "\<exists>r'\<in>set (fold (outbox_step sample_sha) ?ops [unfingerprinted_sample]). same_but_filled ?ops unfingerprinted_sample r'"
    by (intro unknown_outcome_kept [OF ok _ u]) simp_all
  then show ?thesis by (auto simp: same_but_filled_def fills_def same_enqueue_def second_claim_def)
qed

theorem resolution_replays_witness:
  "\<exists>receipt t'. resolve_unknown_outbox_from_redis_evidence sample_sha (Some [migration_018]) sample_identity
      ''rec-1'' sample_evidence 30 sample_audit quarantined_outbox = Inr (Resolved receipt, t') \<and>
    resolve_unknown_outbox_from_redis_evidence sample_sha (Some [migration_018]) sample_identity
      ''rec-1'' sample_evidence 40 sample_audit t' = Inr (AlreadyResolved receipt, t')"
proof -
  let ?r = "resolve_unknown_outbox_from_redis_evidence sample_sha (Some [migration_018]) sample_identity
      ''rec-1'' sample_evidence 30 sample_audit quarantined_outbox"
  have "case ?r of Inr (Resolved c, t) \<Rightarrow> True | _ \<Rightarrow> False" by code_simp
  then obtain receipt t' where r: "?r = Inr (Resolved receipt, t')"
    by (auto split: sum.splits prod.splits resolution_result.splits)
  with resolution_replays [OF quarantined_ok r, of 40 "[]"] show ?thesis by auto
qed

theorem enqueue_one_meaning_witness:
  "\<exists>t'. enqueue_outbox 3 ''m-3'' ''topic'' (canonical_json (sample_doc ''m-3'')) (sample_digest ''m-3'') ''svc'' 1
      sample_outbox = Inr (True, t') \<and>
    enqueue_outbox 4 ''m-3'' ''topic'' (canonical_json (sample_doc ''m-3'')) (sample_digest ''m-3'') ''svc'' 2
      (outbox_step sample_sha first_claim t') = Inr (False, outbox_step sample_sha first_claim t')"
proof -
  let ?r = "enqueue_outbox 3 ''m-3'' ''topic'' (canonical_json (sample_doc ''m-3'')) (sample_digest ''m-3'') ''svc'' 1
      sample_outbox"
  have "map_sum id fst ?r = Inr True" by code_simp
  then obtain t' where r: "?r = Inr (True, t')" by (cases ?r) auto
  have "json_wf (sample_doc ''m-3'')" "jsonb_exact (sample_doc ''m-3'')" by code_simp+
  from enqueue_one_meaning [OF sample_outbox_ok this r, of 4 2 sample_sha "[first_claim]"] r show ?thesis
    by auto
qed

end
