(* ===== verification/Inbox.thy ===== *)
theory Inbox
  imports Outbox
begin

text \<open>
  The idempotent inbox of \<open>kairos_persistence/repository.py\<close>: table \<open>message_inbox\<close> of migrations 001
  and 002, the claim, completion and failure of a message, and \<open>message_transaction\<close>, which makes
  the inbox record, the business writes and the outbox inserts of one message a single transaction.
  The caller's body of that context manager is a list of actions: what \<open>InboxTransaction\<close> offers it,
  business writes through its connection (any function on the business tables), and raising.
\<close>

datatype inbox_status = PROCESSING | COMPLETED_MSG | FAILED

record inbox_row =
  ib_consumer :: string
  ib_message_id :: string
  ib_topic :: string
  ib_status :: inbox_status
  ib_attempts :: int
  ib_lease_until :: timestamp
  ib_payload_sha256 :: "string option"
  ib_result :: "json option"
  ib_error :: "string option"
  ib_updated_at :: timestamp

record inbox_claim =
  ic_claimed :: bool
  ic_duplicate_completed :: bool
  ic_attempts :: int

definition inbox_key :: "inbox_row \<Rightarrow> string \<times> string" where
  "inbox_key r = (ib_consumer r, ib_message_id r)"

subsection \<open>Claim, completion, failure\<close>

definition fresh_inbox ::
  "string \<Rightarrow> string \<Rightarrow> string \<Rightarrow> int \<Rightarrow> string option \<Rightarrow> timestamp \<Rightarrow> inbox_row" where
  "fresh_inbox consumer message_id topic lease payload_sha256 now =
     \<lparr>ib_consumer = consumer, ib_message_id = message_id, ib_topic = topic, ib_status = PROCESSING,
      ib_attempts = 1, ib_lease_until = now + lease, ib_payload_sha256 = payload_sha256,
      ib_result = None, ib_error = None, ib_updated_at = now\<rparr>"

definition reclaimed_row :: "int \<Rightarrow> timestamp \<Rightarrow> inbox_row \<Rightarrow> inbox_row" where
  "reclaimed_row lease now r = r\<lparr>ib_status := PROCESSING, ib_attempts := ib_attempts r + 1,
     ib_lease_until := now + lease, ib_updated_at := now, ib_error := None\<rparr>"

definition reclaimable :: "timestamp \<Rightarrow> inbox_row \<Rightarrow> bool" where
  "reclaimable now r \<longleftrightarrow> ib_status r = FAILED \<or> (ib_status r = PROCESSING \<and> ib_lease_until r < now)"

definition claim_message ::
  "string \<Rightarrow> string \<Rightarrow> string \<Rightarrow> int \<Rightarrow> string option \<Rightarrow> timestamp \<Rightarrow> inbox_row list
     \<Rightarrow> (inbox_claim \<times> inbox_row list) res" where
  "claim_message consumer message_id topic lease payload_sha256 now t =
     (if (case payload_sha256 of None \<Rightarrow> False | Some s \<Rightarrow> \<not> sha256_hex s)
      then Inl (IntegrityError ''message_inbox_payload_sha256_format'')
      else case select_one (\<lambda>r. inbox_key r = (consumer, message_id)) t of
        None \<Rightarrow> Inr (\<lparr>ic_claimed = True, ic_duplicate_completed = False, ic_attempts = 1\<rparr>,
                 insert_row (fresh_inbox consumer message_id topic lease payload_sha256 now) t)
      | Some r \<Rightarrow>
          if reclaimable now r then
            (if \<not> int4 (ib_attempts r + 1) then Inl (DataError ''integer out of range'')
             else if ib_topic r \<noteq> topic \<or> ib_payload_sha256 r \<noteq> payload_sha256
             then Inl (MessageIdentityConflict ''message_id was reused with different topic or payload'')
             else Inr (\<lparr>ic_claimed = True, ic_duplicate_completed = False, ic_attempts = ib_attempts r + 1\<rparr>,
                    update_where (\<lambda>r. inbox_key r = (consumer, message_id)) (reclaimed_row lease now) t))
          else if ib_topic r \<noteq> topic \<or> ib_payload_sha256 r \<noteq> payload_sha256
          then Inl (MessageIdentityConflict ''message_id was reused with different topic or payload'')
          else Inr (\<lparr>ic_claimed = False, ic_duplicate_completed = (ib_status r = COMPLETED_MSG),
                  ic_attempts = 0\<rparr>, t))"

definition in_process :: "string \<Rightarrow> string \<Rightarrow> inbox_row \<Rightarrow> bool" where
  "in_process consumer message_id r \<longleftrightarrow> inbox_key r = (consumer, message_id) \<and> ib_status r = PROCESSING"

definition completed_row :: "json option \<Rightarrow> timestamp \<Rightarrow> inbox_row \<Rightarrow> inbox_row" where
  "completed_row result now r = r\<lparr>ib_status := COMPLETED_MSG, ib_result := result, ib_updated_at := now\<rparr>"

definition failed_message_row :: "string \<Rightarrow> timestamp \<Rightarrow> inbox_row \<Rightarrow> inbox_row" where
  "failed_message_row error now r =
     r\<lparr>ib_status := FAILED, ib_error := Some (take 4000 error), ib_updated_at := now\<rparr>"

text \<open>A result is stored as \<open>JSONB\<close>, or NULL when there is none.\<close>

definition result_column :: "json option \<Rightarrow> json option res" where
  "result_column result = (case result of None \<Rightarrow> Inr None | Some j \<Rightarrow> rbind (to_jsonb j) (\<lambda>d. Inr (Some d)))"

definition complete_message ::
  "string \<Rightarrow> string \<Rightarrow> json option \<Rightarrow> timestamp \<Rightarrow> inbox_row list \<Rightarrow> (bool \<times> inbox_row list) res" where
  "complete_message consumer message_id result now t =
     rbind (result_column result) (\<lambda>column.
       Inr (affected (in_process consumer message_id) t = 1,
            update_where (in_process consumer message_id) (completed_row column now) t))"

definition fail_message ::
  "string \<Rightarrow> string \<Rightarrow> string \<Rightarrow> timestamp \<Rightarrow> inbox_row list \<Rightarrow> bool \<times> inbox_row list" where
  "fail_message consumer message_id error now t =
     (affected (in_process consumer message_id) t = 1,
      update_where (in_process consumer message_id) (failed_message_row error now) t)"

subsection \<open>The unit of work\<close>

record 'b store =
  st_audit :: "audit_row list"
  st_inbox :: "inbox_row list"
  st_outbox :: "outbox_row list"
  st_business :: 'b

datatype 'b tx_action =
    Business "'b \<Rightarrow> 'b res"
  | AppendEvent string kairos_message
  | AppendPayload string json
  | EnqueueOutbox int string string string string
  | Complete "json option"
  | Raise py_error

record tx_context =
  tx_claimed :: bool
  tx_consumer :: string
  tx_message_id :: string
  tx_producer :: string
  tx_now :: timestamp

definition require_claimed :: "tx_context \<Rightarrow> unit res" where
  "require_claimed c =
     (if tx_claimed c then Inr ()
      else Inl (RuntimeError ''cannot process a duplicate or currently leased inbox message''))"

text \<open>One action, on whether \<open>complete()\<close> was called and the store.\<close>

fun run_action :: "tx_context \<Rightarrow> 'b tx_action \<Rightarrow> bool \<times> 'b store \<Rightarrow> (bool \<times> 'b store) res" where
  "run_action c (Business f) (completed, st) =
     rbind (require_claimed c) (\<lambda>_.
     rbind (f (st_business st)) (\<lambda>b. Inr (completed, st\<lparr>st_business := b\<rparr>)))"
| "run_action c (AppendEvent topic m) (completed, st) =
     rbind (require_claimed c) (\<lambda>_.
     rbind (append_event topic m (st_audit st)) (\<lambda>(b, a). Inr (completed, st\<lparr>st_audit := a\<rparr>)))"
| "run_action c (AppendPayload topic payload) (completed, st) =
     rbind (require_claimed c) (\<lambda>_.
     rbind (append_payload topic payload (st_audit st)) (\<lambda>(b, a). Inr (completed, st\<lparr>st_audit := a\<rparr>)))"
| "run_action c (EnqueueOutbox nid message_id topic payload payload_sha256) (completed, st) =
     rbind (require_claimed c) (\<lambda>_.
     rbind (enqueue_outbox nid message_id topic payload payload_sha256 (tx_producer c) (tx_now c) (st_outbox st))
       (\<lambda>(b, t). Inr (completed, st\<lparr>st_outbox := t\<rparr>)))"
| "run_action c (Complete result) (completed, st) =
     rbind (require_claimed c) (\<lambda>_.
     if completed then Inl (RuntimeError ''inbox message is already completed'')
     else rbind (complete_message (tx_consumer c) (tx_message_id c) result (tx_now c) (st_inbox st)) (\<lambda>(updated, t).
       if \<not> updated then Inl (RuntimeError ''inbox claim was lost before completion'')
       else Inr (True, st\<lparr>st_inbox := t\<rparr>)))"
| "run_action c (Raise e) s = Inl e"

fun run_actions :: "tx_context \<Rightarrow> 'b tx_action list \<Rightarrow> bool \<times> 'b store \<Rightarrow> (bool \<times> 'b store) res" where
  "run_actions c [] s = Inr s"
| "run_actions c (a # acts) s = rbind (run_action c a s) (run_actions c acts)"

text \<open>The body inside the savepoint: leaving it without \<open>complete()\<close> is an error.\<close>

definition claimed_body :: "tx_context \<Rightarrow> 'b tx_action list \<Rightarrow> 'b store \<Rightarrow> 'b store res" where
  "claimed_body c acts st =
     rbind (run_actions c acts (False, st)) (\<lambda>(completed, st').
       if completed then Inr st'
       else Inl (RuntimeError ''claimed inbox message left transaction without complete()''))"

record 'b tx_request =
  tq_consumer :: string
  tq_message_id :: string
  tq_topic :: string
  tq_lease :: int
  tq_payload_sha256 :: "string option"
  tq_outbox_producer :: "string option"
  tq_actions :: "'b tx_action list"
  tq_now :: timestamp

definition tx_context_of :: "'b tx_request \<Rightarrow> bool \<Rightarrow> tx_context" where
  "tx_context_of q claimed = \<lparr>tx_claimed = claimed, tx_consumer = tq_consumer q,
     tx_message_id = tq_message_id q,
     tx_producer = (case tq_outbox_producer q of None \<Rightarrow> tq_consumer q
                    | Some p \<Rightarrow> if p = [] then tq_consumer q else p),
     tx_now = tq_now q\<rparr>"

text \<open>
  The result the caller sees and the store after the outer transaction: a failure inside the
  savepoint is raised after the FAILED record is committed; a cancellation, and every error outside
  the savepoint, rolls everything back.
\<close>

definition message_transaction :: "'b tx_request \<Rightarrow> 'b store \<Rightarrow> inbox_claim res \<times> 'b store" where
  "message_transaction q st =
     (case claim_message (tq_consumer q) (tq_message_id q) (tq_topic q) (tq_lease q) (tq_payload_sha256 q)
             (tq_now q) (st_inbox st) of
        Inl e \<Rightarrow> (Inl e, st)
      | Inr (claim, inbox) \<Rightarrow>
          let st1 = st\<lparr>st_inbox := inbox\<rparr> in
          if \<not> ic_claimed claim then
            (case run_actions (tx_context_of q False) (tq_actions q) (False, st1) of
               Inl e \<Rightarrow> (Inl e, st)
             | Inr (completed, st2) \<Rightarrow> (Inr claim, st2))
          else
            (case claimed_body (tx_context_of q True) (tq_actions q) st1 of
               Inr st2 \<Rightarrow> (Inr claim, st2)
             | Inl e \<Rightarrow>
                 if \<not> is_exception e then (Inl e, st)
                 else (case fail_message (tq_consumer q) (tq_message_id q) (error_text e) (tq_now q) inbox of
                         (failed, inbox2) \<Rightarrow>
                           if failed then (Inl e, st1\<lparr>st_inbox := inbox2\<rparr>)
                           else (Inl (RuntimeError ''inbox claim was lost while recording failure''), st))))"

subsection \<open>What the inbox promises\<close>

definition inbox_ok :: "inbox_row list \<Rightarrow> bool" where
  "inbox_ok t \<longleftrightarrow> unique_by inbox_key t \<and> (\<forall>r\<in>set t. 0 < ib_attempts r)"

text \<open>A message keeps its identity, its attempts grow, and a completed one is final.\<close>

definition inbox_le :: "inbox_row \<Rightarrow> inbox_row \<Rightarrow> bool" where
  "inbox_le r r' \<longleftrightarrow> inbox_key r' = inbox_key r \<and> ib_topic r' = ib_topic r \<and>
     ib_payload_sha256 r' = ib_payload_sha256 r \<and> ib_attempts r \<le> ib_attempts r' \<and>
     (ib_status r = COMPLETED_MSG \<longrightarrow> r' = r)"

lemma inbox_le_refl [simp]: "inbox_le r r"
  by (simp add: inbox_le_def)

lemma inbox_le_trans: "inbox_le a b \<Longrightarrow> inbox_le b c \<Longrightarrow> inbox_le a c"
  by (auto simp: inbox_le_def)

definition inbox_progress :: "inbox_row list \<Rightarrow> inbox_row list \<Rightarrow> bool" where
  "inbox_progress t u \<longleftrightarrow> inbox_ok u \<and> table_le inbox_le t u"

lemma inbox_progress_refl: "inbox_ok t \<Longrightarrow> inbox_progress t t"
  by (simp add: inbox_progress_def table_le_refl)

lemma inbox_progress_trans: "inbox_progress t u \<Longrightarrow> inbox_progress u v \<Longrightarrow> inbox_progress t v"
  using table_le_trans [of inbox_le t u v] inbox_le_trans by (auto simp: inbox_progress_def)

lemma inbox_update_progress:
  assumes "inbox_ok t" and "\<And>r. r \<in> set t \<Longrightarrow> P r \<Longrightarrow> inbox_le r (f r)" and "\<And>r. inbox_key (f r) = inbox_key r"
  shows "inbox_progress t (update_where P f t)"
proof -
  have "table_le inbox_le t (update_where P f t)" using assms(2) by (intro table_le_update) auto
  moreover have "unique_by inbox_key (update_where P f t)"
    using assms(1,3) by (simp add: unique_by_update inbox_ok_def)
  moreover have "0 < ib_attempts r" if "r \<in> set (update_where P f t)" for r
    using that assms(1,2) by (fastforce simp: set_update_where inbox_ok_def inbox_le_def)
  ultimately show ?thesis by (simp add: inbox_progress_def inbox_ok_def)
qed

lemma inbox_keys [simp]:
  "inbox_key (reclaimed_row lease now r) = inbox_key r" "inbox_key (completed_row j now r) = inbox_key r"
  "inbox_key (failed_message_row e now r) = inbox_key r"
  "inbox_key (fresh_inbox consumer mid topic lease digest now) = (consumer, mid)"
  by (simp_all add: inbox_key_def reclaimed_row_def completed_row_def failed_message_row_def fresh_inbox_def)

lemma claim_message_outcome:
  assumes "inbox_ok t" and "claim_message consumer mid topic lease digest now t = Inr (claim, t')"
  obtains (claimed) row where "ic_claimed claim" and "inbox_progress t t'" and "row \<in> set t'"
      and "in_process consumer mid row" and "ib_lease_until row = now + lease"
      and "\<forall>r\<in>set t. inbox_key r = (consumer, mid) \<longrightarrow> ib_status r \<noteq> COMPLETED_MSG"
  | (refused) row where "\<not> ic_claimed claim" and "t' = t" and "row \<in> set t"
      and "inbox_key row = (consumer, mid)" and "\<not> reclaimable now row"
      and "ic_duplicate_completed claim = (ib_status row = COMPLETED_MSG)"
proof (cases "select_one (\<lambda>r. inbox_key r = (consumer, mid)) t")
  case None
  let ?row = "fresh_inbox consumer mid topic lease digest now"
  have out: "ic_claimed claim" "t' = insert_row ?row t"
    using assms(2) None by (auto simp: claim_message_def split: if_splits)
  have free: "\<forall>r\<in>set t. inbox_key r \<noteq> (consumer, mid)" using None by (simp add: select_one_None_iff)
  moreover have "ib_attempts ?row = 1" by (simp add: fresh_inbox_def)
  ultimately have "inbox_ok t'" using assms(1) out(2) by (auto simp: inbox_ok_def)
  then have "inbox_progress t t'" using out(2) by (auto simp: inbox_progress_def intro: table_le_insert)
  with out free show thesis
    by (intro claimed[of ?row]) (auto simp: in_process_def, auto simp: fresh_inbox_def)
next
  case (Some r)
  then have r: "r \<in> set t" "inbox_key r = (consumer, mid)" by (auto dest: select_one_SomeD)
  have same: "q = r" if "q \<in> set t" "inbox_key q = (consumer, mid)" for q
    using that r assms(1) by (auto simp: inbox_ok_def dest: unique_by_eq)
  show thesis
  proof (cases "reclaimable now r")
    case True
    with assms(2) Some have out: "ic_claimed claim"
        "t' = update_where (\<lambda>r. inbox_key r = (consumer, mid)) (reclaimed_row lease now) t"
      by (auto simp: claim_message_def split: if_splits)
    have "inbox_le q (reclaimed_row lease now q)" if "q \<in> set t" "inbox_key q = (consumer, mid)" for q
      using same [OF that] True by (auto simp: inbox_le_def reclaimable_def reclaimed_row_def inbox_key_def)
    then have "inbox_progress t t'" unfolding out(2) using assms(1) by (intro inbox_update_progress) auto
    moreover have "reclaimed_row lease now r \<in> set t'" using r out(2) by (auto simp: set_update_where)
    moreover have "\<forall>q\<in>set t. inbox_key q = (consumer, mid) \<longrightarrow> ib_status q \<noteq> COMPLETED_MSG"
      using same True by (auto simp: reclaimable_def)
    ultimately show thesis using out(1) r(2)
      by (intro claimed[of "reclaimed_row lease now r"]) (auto simp: in_process_def, auto simp: reclaimed_row_def)
  next
    case False
    with assms(2) Some r show thesis
      by (intro refused[of r]) (auto simp: claim_message_def split: if_splits)
  qed
qed

lemma in_process_progress:
  assumes "inbox_ok t"
  shows "inbox_progress t (update_where (in_process consumer mid) (completed_row j now) t)"
    and "inbox_progress t (update_where (in_process consumer mid) (failed_message_row e now) t)"
  by (rule inbox_update_progress [OF assms];
      auto simp: in_process_def inbox_le_def completed_row_def failed_message_row_def inbox_key_def)+

subsection \<open>What a body does to the inbox\<close>

lemma run_action_inbox:
  assumes "run_action c a (completed, st) = Inr (b, st')"
  shows "(b = completed \<and> st_inbox st' = st_inbox st) \<or>
    (\<not> completed \<and> b \<and> affected (in_process (tx_consumer c) (tx_message_id c)) (st_inbox st) = 1 \<and>
     (\<exists>col. st_inbox st' = update_where (in_process (tx_consumer c) (tx_message_id c))
        (completed_row col (tx_now c)) (st_inbox st)))"
  using assms
  by (cases a) (auto simp: rbind_eq_Inr complete_message_def split: if_splits)

lemma run_actions_inbox:
  assumes "run_actions c acts (completed, st) = Inr (b, st')"
  shows "(b = completed \<and> st_inbox st' = st_inbox st) \<or>
    (\<not> completed \<and> b \<and> affected (in_process (tx_consumer c) (tx_message_id c)) (st_inbox st) = 1 \<and>
     (\<exists>col. st_inbox st' = update_where (in_process (tx_consumer c) (tx_message_id c))
        (completed_row col (tx_now c)) (st_inbox st)))"
  using assms
proof (induction acts arbitrary: completed st)
  case (Cons a acts)
  then obtain b1 st1 where a: "run_action c a (completed, st) = Inr (b1, st1)"
    and rest: "run_actions c acts (b1, st1) = Inr (b, st')"
    by (auto simp: rbind_eq_Inr)
  from Cons.IH [OF rest] run_action_inbox [OF a] show ?case by auto
qed auto

lemma unclaimed_body:
  assumes "\<not> tx_claimed c" and "run_actions c acts s = Inr s'"
  shows "s' = s"
  using assms
proof (cases acts)
  case (Cons a rest)
  with assms show ?thesis
    by (cases a; cases s) (auto simp: rbind_eq_Inr require_claimed_def)
qed simp

lemma claimed_body_inbox:
  assumes "claimed_body c acts st = Inr st'" and "inbox_ok (st_inbox st)"
  shows "inbox_progress (st_inbox st) (st_inbox st')"
    and "\<exists>r\<in>set (st_inbox st'). inbox_key r = (tx_consumer c, tx_message_id c) \<and> ib_status r = COMPLETED_MSG"
proof -
  let ?p = "in_process (tx_consumer c) (tx_message_id c)"
  obtain col where one: "affected ?p (st_inbox st) = 1"
    and st': "st_inbox st' = update_where ?p (completed_row col (tx_now c)) (st_inbox st)"
    using assms(1) run_actions_inbox [of c acts False st]
    by (fastforce simp: claimed_body_def rbind_eq_Inr split: if_splits)
  show "inbox_progress (st_inbox st) (st_inbox st')"
    unfolding st' by (rule in_process_progress [OF assms(2)])
  obtain r where "r \<in> set (st_inbox st)" "?p r"
    using one affected_zero [of ?p "st_inbox st"] by auto
  then have "completed_row col (tx_now c) r \<in> set (st_inbox st')" "inbox_key r = (tx_consumer c, tx_message_id c)"
    by (auto simp: st' set_update_where in_process_def)
  then show "\<exists>r\<in>set (st_inbox st'). inbox_key r = (tx_consumer c, tx_message_id c) \<and> ib_status r = COMPLETED_MSG"
    by (auto intro!: bexI [of _ "completed_row col (tx_now c) r"] simp: completed_row_def inbox_key_def)
qed

lemma message_transaction_outcome:
  assumes "inbox_ok (st_inbox st)" and "message_transaction q st = (result, st')"
  obtains (unchanged) "st' = st" and "\<And>claim. result = Inr claim \<Longrightarrow> \<not> ic_claimed claim"
  | (committed) claim inbox where "result = Inr claim" and "ic_claimed claim"
      and "claimed_body (tx_context_of q True) (tq_actions q) (st\<lparr>st_inbox := inbox\<rparr>) = Inr st'"
      and "inbox_progress (st_inbox st) inbox" and "inbox_progress inbox (st_inbox st')"
      and "\<exists>r\<in>set (st_inbox st'). inbox_key r = (tq_consumer q, tq_message_id q) \<and> ib_status r = COMPLETED_MSG"
      and "\<forall>r\<in>set (st_inbox st). inbox_key r = (tq_consumer q, tq_message_id q) \<longrightarrow> ib_status r \<noteq> COMPLETED_MSG"
  | (failed) e inbox where "result = Inl e" and "st' = st\<lparr>st_inbox := inbox\<rparr>"
      and "inbox_progress (st_inbox st) inbox"
      and "\<exists>r\<in>set inbox. inbox_key r = (tq_consumer q, tq_message_id q) \<and> ib_status r = FAILED
             \<and> ib_error r = Some (take 4000 (error_text e))"
proof (cases "claim_message (tq_consumer q) (tq_message_id q) (tq_topic q) (tq_lease q) (tq_payload_sha256 q)
    (tq_now q) (st_inbox st)")
  case (Inl e)
  with assms(2) show thesis by (intro unchanged) (auto simp: message_transaction_def)
next
  case (Inr res)
  obtain claim inbox where res: "res = (claim, inbox)" by fastforce
  note claim = Inr [unfolded res]
  let ?st1 = "st\<lparr>st_inbox := inbox\<rparr>"
  let ?p = "in_process (tq_consumer q) (tq_message_id q)"
  from assms(1) claim show thesis
  proof (cases rule: claim_message_outcome)
    case (refused row)
    then have "?st1 = st" by simp
    with assms(2) claim refused show thesis
      by (intro unchanged)
        (auto simp: message_transaction_def tx_context_of_def dest!: unclaimed_body [rotated] split: sum.splits prod.splits)
  next
    case (claimed row)
    show thesis
    proof (cases "claimed_body (tx_context_of q True) (tq_actions q) ?st1")
      case ok: (Inr st2)
      with assms(2) claim claimed have "result = Inr claim" "st2 = st'"
        by (auto simp: message_transaction_def)
      moreover have "inbox_ok (st_inbox ?st1)" using claimed(2) by (simp add: inbox_progress_def)
      ultimately show thesis using claimed_body_inbox [OF ok] ok claimed
        by (intro committed[of claim inbox]) (auto simp: tx_context_of_def)
    next
      case (Inl e)
      show thesis
      proof (cases "is_exception e \<and> affected ?p inbox = 1")
        case False
        with assms(2) claim claimed Inl show thesis
          by (intro unchanged) (auto simp: message_transaction_def fail_message_def Let_def split: if_splits)
      next
        case True
        let ?i = "update_where ?p (failed_message_row (error_text e) (tq_now q)) inbox"
        have out: "result = Inl e" "st' = st\<lparr>st_inbox := ?i\<rparr>"
          using True assms(2) claim claimed Inl by (auto simp: message_transaction_def fail_message_def Let_def)
        have "inbox_progress inbox ?i"
          using claimed(2) by (intro in_process_progress) (simp add: inbox_progress_def)
        then have pr: "inbox_progress (st_inbox st) ?i" using claimed(2) by (rule inbox_progress_trans [rotated])
        have in_i: "failed_message_row (error_text e) (tq_now q) row \<in> set ?i"
          using claimed(3,4) by (auto simp: set_update_where)
        show thesis
          by (rule failed [OF out pr], rule bexI [OF _ in_i])
            (use claimed(4) in \<open>auto simp: in_process_def failed_message_row_def inbox_key_def\<close>)
      qed
    qed
  qed
qed

definition store_step :: "'b tx_request \<Rightarrow> 'b store \<Rightarrow> 'b store" where
  "store_step q st = snd (message_transaction q st)"

definition store_le :: "'b store \<Rightarrow> 'b store \<Rightarrow> bool" where
  "store_le st st' \<longleftrightarrow> table_le inbox_le (st_inbox st) (st_inbox st')"

lemma store_step_progress:
  assumes "inbox_ok (st_inbox st)"
  shows "inbox_progress (st_inbox st) (st_inbox (store_step q st))"
proof -
  obtain result st' where m: "message_transaction q st = (result, st')" by fastforce
  have "inbox_progress (st_inbox st) (st_inbox st')"
    using assms m
    by (cases rule: message_transaction_outcome)
      (auto intro: inbox_progress_refl [OF assms] inbox_progress_trans)
  then show ?thesis by (simp add: store_step_def m)
qed

interpretation inbox: monotone_system store_step "\<lambda>st. inbox_ok (st_inbox st)" store_le
  using store_step_progress
  by unfold_locales
    (auto simp: store_le_def inbox_progress_def intro: table_le_refl table_le_trans [OF inbox_le_trans])

section \<open>Properties\<close>

text \<open>
  C17. Exactly-once effects: once a transaction of a consumer's message has returned as its claimed
  unit of work, no later delivery of that message to the consumer changes anything at all (audit,
  inbox, outbox or business tables), whatever other messages were processed in between; a
  redelivery that returns is reported as a completed duplicate.
\<close>

theorem message_effects_exactly_once:
  assumes "inbox_ok (st_inbox st)"
    and "message_transaction q st = (Inr claim, st1)" and "ic_claimed claim"
    and "tq_consumer q' = tq_consumer q" and "tq_message_id q' = tq_message_id q"
    and "message_transaction q' (fold store_step qs st1) = (result, st2)"
  shows "st2 = fold store_step qs st1 \<and>
    (\<forall>claim'. result = Inr claim' \<longrightarrow> \<not> ic_claimed claim' \<and> ic_duplicate_completed claim')"
proof -
  let ?u = "fold store_step qs st1" and ?k = "(tq_consumer q, tq_message_id q)"
  obtain r where r: "r \<in> set (st_inbox st1)" "inbox_key r = ?k" "ib_status r = COMPLETED_MSG"
    and ok1: "inbox_ok (st_inbox st1)"
    using assms(1,2)
  proof (cases rule: message_transaction_outcome)
    case (committed c inbox)
    then show ?thesis using that by (auto simp: inbox_progress_def)
  qed (use assms(3) in auto)
  obtain r' where "r' \<in> set (st_inbox ?u)" "inbox_le r r'"
    using inbox.run_le [OF ok1, of qs] r(1) by (auto simp: store_le_def dest: table_leD)
  then have r': "r \<in> set (st_inbox ?u)" using r(3) by (simp add: inbox_le_def)
  have oku: "inbox_ok (st_inbox ?u)" using ok1 by (rule inbox.reach_inv)
  have sel: "select_one (\<lambda>p. inbox_key p = ?k) (st_inbox ?u) = Some r"
    using select_one_unique [of inbox_key "st_inbox ?u" r] oku r' r(2) by (simp add: inbox_ok_def)
  have dup: "ic_duplicate_completed c \<and> \<not> ic_claimed c \<and> t = st_inbox ?u"
    if "claim_message (tq_consumer q) (tq_message_id q) topic lease digest now (st_inbox ?u) = Inr (c, t)"
    for c t topic lease digest now
    using that sel r(3) by (auto simp: claim_message_def reclaimable_def split: if_splits)
  from oku assms(6) show ?thesis
  proof (cases rule: message_transaction_outcome)
    case unchanged
    moreover have "ic_duplicate_completed c" if "result = Inr c" for c
      using that assms(4-6) dup
      by (auto simp: message_transaction_def Let_def split: sum.splits prod.splits if_splits)
    ultimately show ?thesis by blast
  next
    case (committed c inbox)
    with r' r(2,3) assms(4,5) show ?thesis by auto
  next
    case (failed e inbox)
    with assms(4-6) dup show ?thesis
      by (auto simp: message_transaction_def Let_def split: sum.splits prod.splits if_splits)
  qed
qed

text \<open>
  A unit of work is atomic: if the transaction raises, the audit log, the outbox and the
  business tables are as before, and the inbox is as before or records the failure; if it returns a
  claimed unit, every action of the body has taken effect, one of them \<open>complete()\<close>, and the
  message is completed.
\<close>

theorem message_transaction_atomic:
  assumes "inbox_ok (st_inbox st)" and "message_transaction q st = (result, st')"
  shows "case result of
      Inl e \<Rightarrow> st' = st \<or>
        (\<exists>inbox. st' = st\<lparr>st_inbox := inbox\<rparr> \<and>
           (\<exists>r\<in>set inbox. inbox_key r = (tq_consumer q, tq_message_id q) \<and> ib_status r = FAILED))
    | Inr claim \<Rightarrow>
        if ic_claimed claim
        then (\<exists>inbox. run_actions (tx_context_of q True) (tq_actions q) (False, st\<lparr>st_inbox := inbox\<rparr>) = Inr (True, st')) \<and>
          (\<exists>r\<in>set (st_inbox st'). inbox_key r = (tq_consumer q, tq_message_id q) \<and> ib_status r = COMPLETED_MSG)
        else st' = st"
  using assms
proof (cases rule: message_transaction_outcome)
  case unchanged
  then show ?thesis by (cases result) auto
next
  case (committed claim inbox)
  then have "run_actions (tx_context_of q True) (tq_actions q) (False, st\<lparr>st_inbox := inbox\<rparr>) = Inr (True, st')"
    by (auto simp: claimed_body_def rbind_eq_Inr split: if_splits)
  with committed show ?thesis by auto
next
  case (failed e inbox)
  then show ?thesis by auto
qed

definition leased_until :: "string \<Rightarrow> string \<Rightarrow> timestamp \<Rightarrow> inbox_row list \<Rightarrow> bool" where
  "leased_until consumer mid until t \<longleftrightarrow>
     inbox_ok t \<and> (\<exists>r\<in>set t. in_process consumer mid r \<and> ib_lease_until r = until)"

record claim_request =
  cq_consumer :: string
  cq_message_id :: string
  cq_topic :: string
  cq_lease :: int
  cq_payload_sha256 :: "string option"
  cq_now :: timestamp

definition claim_step :: "claim_request \<Rightarrow> inbox_row list \<Rightarrow> inbox_row list" where
  "claim_step c t = settle t (claim_message (cq_consumer c) (cq_message_id c) (cq_topic c) (cq_lease c)
     (cq_payload_sha256 c) (cq_now c) t)"

definition within_lease :: "timestamp \<Rightarrow> claim_request \<Rightarrow> bool" where
  "within_lease until c \<longleftrightarrow> cq_now c \<le> until"

lemma claim_other_keeps:
  assumes "inbox_ok t" and "r \<in> set t" and "inbox_key r \<noteq> (consumer, mid)"
    and "claim_message consumer mid topic lease digest now t = Inr (claim, t')"
  shows "r \<in> set t'"
proof (cases "select_one (\<lambda>r. inbox_key r = (consumer, mid)) t")
  case None
  with assms show ?thesis by (auto simp: claim_message_def split: if_splits)
next
  case (Some q)
  with assms show ?thesis by (auto simp: claim_message_def set_update_where split: if_splits)
qed

lemma claim_refused:
  assumes "inbox_ok t" and "r \<in> set t" and "in_process consumer mid r" and "now \<le> ib_lease_until r"
    and "claim_message consumer mid topic lease digest now t = Inr (claim, t')"
  shows "\<not> ic_claimed claim \<and> \<not> ic_duplicate_completed claim \<and> t' = t"
proof -
  have "inbox_key r = (consumer, mid)" using assms(3) by (simp add: in_process_def)
  then have sel: "select_one (\<lambda>r. inbox_key r = (consumer, mid)) t = Some r"
    using select_one_unique [of inbox_key t r] assms(1,2) by (simp add: inbox_ok_def)
  moreover have "\<not> reclaimable now r" using assms(3,4) by (simp add: in_process_def reclaimable_def)
  ultimately show ?thesis
    using assms(3,5) by (auto simp: claim_message_def in_process_def split: if_splits)
qed

lemma leased_until_step:
  assumes "within_lease until c" and "leased_until consumer mid until t"
  shows "leased_until consumer mid until (claim_step c t)"
proof -
  obtain r where r: "inbox_ok t" "r \<in> set t" "in_process consumer mid r" "ib_lease_until r = until"
    using assms(2) by (auto simp: leased_until_def)
  show ?thesis unfolding claim_step_def
  proof (rule settle_cases)
    fix claim t'
    assume c: "claim_message (cq_consumer c) (cq_message_id c) (cq_topic c) (cq_lease c)
        (cq_payload_sha256 c) (cq_now c) t = Inr (claim, t')"
    have ok: "inbox_ok t'"
      using r(1) c by (cases rule: claim_message_outcome) (use r(1) in \<open>auto simp: inbox_progress_def\<close>)
    show "leased_until consumer mid until t'"
    proof (cases "(cq_consumer c, cq_message_id c) = (consumer, mid)")
      case True
      then have "t' = t"
        using claim_refused [OF r(1,2,3), of "cq_now c"] r(4) assms(1) c by (auto simp: within_lease_def)
      with assms(2) show ?thesis by simp
    next
      case False
      then have "inbox_key r \<noteq> (cq_consumer c, cq_message_id c)" using r(3) by (auto simp: in_process_def)
      from claim_other_keeps [OF r(1,2) this c] ok r(3,4) show ?thesis by (auto simp: leased_until_def)
    qed
  qed (rule assms(2))
qed

interpretation live_lease: invariant_system claim_step "within_lease until" "leased_until consumer mid until"
  for until consumer mid
  by unfold_locales (rule leased_until_step)

text \<open>
  A live lease is exclusive: after a claim, every other claim of the message by the consumer at
  a time up to the end of the lease is refused, until the message is completed or failed, however
  many claims of this and of other messages arrive.
\<close>

theorem live_lease_exclusive:
  assumes "inbox_ok t" and "claim_message consumer mid topic lease digest now t = Inr (claim, t1)"
    and "ic_claimed claim" and "list_all (within_lease (now + lease)) cs" and "now' \<le> now + lease"
    and "claim_message consumer mid topic' lease' digest' now' (fold claim_step cs t1) = Inr (claim', t2)"
  shows "\<not> ic_claimed claim' \<and> \<not> ic_duplicate_completed claim' \<and> t2 = fold claim_step cs t1"
proof -
  have "leased_until consumer mid (now + lease) t1"
    using assms(1,2) by (cases rule: claim_message_outcome)
      (use assms(3) in \<open>auto simp: leased_until_def inbox_progress_def\<close>)
  then have "leased_until consumer mid (now + lease) (fold claim_step cs t1)"
    by (rule live_lease.run_inv [OF assms(4)])
  then obtain r where r: "inbox_ok (fold claim_step cs t1)" "r \<in> set (fold claim_step cs t1)"
      "in_process consumer mid r" "ib_lease_until r = now + lease"
    by (auto simp: leased_until_def)
  with assms(5) have "now' \<le> ib_lease_until r" by simp
  from claim_refused [OF r(1-3) this assms(6)] show ?thesis .
qed

subsection \<open>Witnesses\<close>

definition empty_store :: "int store" where
  "empty_store = \<lparr>st_audit = [], st_inbox = [], st_outbox = [], st_business = 0\<rparr>"

text \<open>A consumer that adds five to its balance, enqueues a reply and completes.\<close>

definition sample_tx :: "timestamp \<Rightarrow> int tx_request" where
  "sample_tx now = \<lparr>tq_consumer = ''risk'', tq_message_id = ''m-1'', tq_topic = ''signals'', tq_lease = 120,
     tq_payload_sha256 = None, tq_outbox_producer = None,
     tq_actions = [Business (\<lambda>b. Inr (b + 5)),
       EnqueueOutbox 1 ''r-1'' ''orders'' ''{}'' (replicate 64 (CHR ''a'')), Complete None],
     tq_now = now\<rparr>"

definition done_store :: "int store" where
  "done_store = snd (message_transaction (sample_tx 10) empty_store)"

definition sample_claim :: inbox_claim where
  "sample_claim = \<lparr>ic_claimed = True, ic_duplicate_completed = False, ic_attempts = 1\<rparr>"

lemma empty_store_ok: "inbox_ok (st_inbox empty_store)"
  by (simp add: empty_store_def inbox_ok_def)

lemma done_store_result: "message_transaction (sample_tx 10) empty_store = (Inr sample_claim, done_store)"
  by code_simp

theorem message_effects_exactly_once_witness:
  "st_business done_store = 5 \<and> snd (message_transaction (sample_tx 20) done_store) = done_store"
proof -
  obtain result st2 where m: "message_transaction (sample_tx 20) (fold store_step [] done_store) = (result, st2)"
    by fastforce
  have k: "tq_consumer (sample_tx 20) = tq_consumer (sample_tx 10)"
    "tq_message_id (sample_tx 20) = tq_message_id (sample_tx 10)" "ic_claimed sample_claim"
    by (simp_all add: sample_tx_def sample_claim_def)
  have "st_business done_store = 5" by code_simp
  with message_effects_exactly_once [OF empty_store_ok done_store_result k(3,1,2) m] m show ?thesis by simp
qed

theorem message_transaction_atomic_witness:
  "\<exists>r\<in>set (st_inbox done_store). inbox_key r = (''risk'', ''m-1'') \<and> ib_status r = COMPLETED_MSG"
  using message_transaction_atomic [OF empty_store_ok done_store_result]
  by (simp add: sample_claim_def sample_tx_def)

theorem live_lease_exclusive_witness:
  "\<exists>t1 claim'. claim_message ''risk'' ''m-2'' ''signals'' 120 None 10 [] = Inr (sample_claim, t1) \<and>
     claim_message ''risk'' ''m-2'' ''signals'' 120 None 100 t1 = Inr (claim', t1) \<and> \<not> ic_claimed claim'"
proof -
  have "map_sum id fst (claim_message ''risk'' ''m-2'' ''signals'' 120 None 10 []) = Inr sample_claim"
    by code_simp
  then obtain t1 where t1: "claim_message ''risk'' ''m-2'' ''signals'' 120 None 10 [] = Inr (sample_claim, t1)"
    by (cases "claim_message ''risk'' ''m-2'' ''signals'' 120 None 10 []") auto
  then have "t1 = settle [] (claim_message ''risk'' ''m-2'' ''signals'' 120 None 10 [])" by simp
  moreover have "\<not> isl (claim_message ''risk'' ''m-2'' ''signals'' 120 None 100
      (settle [] (claim_message ''risk'' ''m-2'' ''signals'' 120 None 10 [])))" by code_simp
  ultimately obtain claim' t2 where c: "claim_message ''risk'' ''m-2'' ''signals'' 120 None 100 (fold claim_step [] t1)
      = Inr (claim', t2)"
    by (cases "claim_message ''risk'' ''m-2'' ''signals'' 120 None 100 t1") auto
  have "inbox_ok []" "ic_claimed sample_claim" by (simp_all add: inbox_ok_def sample_claim_def)
  from live_lease_exclusive [OF this(1) t1 this(2) _ _ c] c t1 show ?thesis by auto
qed

end
