(* ===== verification/HashChain.thy ===== *)
theory HashChain
  imports SqlTable Json
begin

text \<open>
  The content identities the journals share: \<open>canonical_payload\<close> of
  \<open>kairos_persistence/runtime.py\<close>, documents written to a \<open>JSONB\<close> column as their canonical text,
  and the interface of a chain of events each of which records the digest of its predecessor.
  \<open>sha\<close> stands for \<open>hashlib.sha256(text.encode("utf-8")).hexdigest()\<close>.
\<close>

definition canonical_payload :: "(string \<Rightarrow> string) \<Rightarrow> json \<Rightarrow> (string \<times> string) res" where
  "canonical_payload sha payload = rbind (canonical_dumps payload) (\<lambda>encoded. Inr (encoded, sha encoded))"

text \<open>A document bound to a \<open>$n::jsonb\<close> parameter through the canonical encoder.\<close>

definition store_json :: "json \<Rightarrow> json res" where
  "store_json j = rbind (canonical_dumps j) text_to_jsonb"

text \<open>Documents that a \<open>JSONB\<close> column gives back with every number as it was.\<close>

definition numbers_kept :: "json \<Rightarrow> bool" where
  "numbers_kept j \<longleftrightarrow> jsonb_value j = sorted_json j"

subsection \<open>Stored documents\<close>

lemma canonical_payload_Inr:
  "canonical_payload sha j = Inr (s, d) \<longleftrightarrow> json_finite j \<and> s = canonical_json j \<and> d = sha (canonical_json j)"
  by (auto simp: canonical_payload_def rbind_eq_Inr canonical_dumps_Inr)

lemma canonical_payload_sorted [simp]: "canonical_payload sha (sorted_json j) = canonical_payload sha j"
  by (simp add: canonical_payload_def canonical_dumps_def)

lemma store_json_Inr:
  assumes "json_wf j"
  shows "store_json j = Inr d \<longleftrightarrow> json_finite j \<and> json_no_nul j \<and> d = jsonb_value j"
  using assms
  by (auto simp: store_json_def rbind_eq_Inr canonical_dumps_Inr text_to_jsonb_canonical to_jsonb_def)

text \<open>Evaluating \<open>store_json\<close> need not parse the text it has just written.\<close>

lemma store_json_code [code]:
  "store_json j = (if json_wf j
     then if json_finite j then to_jsonb j
          else Inl (ValueError ''Out of range float values are not JSON compliant'')
     else rbind (canonical_dumps j) text_to_jsonb)"
  by (simp add: store_json_def canonical_dumps_def text_to_jsonb_canonical)

lemma store_json_kept:
  "json_wf j \<Longrightarrow> numbers_kept j \<Longrightarrow> store_json j = Inr d \<Longrightarrow> d = sorted_json j"
  by (simp add: store_json_Inr numbers_kept_def)

lemma numbers_kept_sorted [simp]: "numbers_kept (sorted_json j) = numbers_kept j"
  by (simp add: numbers_kept_def)

lemma numbers_kept_scalar [simp]:
  "numbers_kept JNull" "numbers_kept (JBool b)" "numbers_kept (JInt n)" "numbers_kept (JStr s)"
  by (simp_all add: numbers_kept_def)

lemma numbers_kept_object:
  assumes "\<And>k v. (k, v) \<in> set kvs \<Longrightarrow> numbers_kept v"
  shows "numbers_kept (JObj kvs)"
proof -
  have "map (map_prod id jsonb_value) kvs = map (map_prod id sorted_json) kvs"
    using assms by (auto simp: numbers_kept_def)
  then show ?thesis unfolding numbers_kept_def jsonb_value.simps sorted_json.simps by (simp only: )
qed

lemma is_object_sorted [simp]: "is_object (sorted_json j) = is_object j"
  by (cases j) (simp_all add: is_object_def)

lemma jsonb_exact_kept: "jsonb_exact j \<Longrightarrow> numbers_kept j"
  by (auto simp: jsonb_exact_def numbers_kept_def to_jsonb_def split: if_splits)

text \<open>
  The documents the services hand over: JSON objects whose numbers a \<open>JSONB\<close> column keeps.
\<close>

definition document_ok :: "json \<Rightarrow> bool" where
  "document_ok p \<longleftrightarrow> json_wf p \<and> numbers_kept p \<and> is_object p"

lemma document_ok_sorted: "document_ok p \<Longrightarrow> document_ok (sorted_json p)"
  by (simp add: document_ok_def json_wf_sorted)

lemma store_document: "document_ok p \<Longrightarrow> store_json p = Inr d \<Longrightarrow> d = sorted_json p \<and> json_finite p"
  by (simp add: document_ok_def store_json_Inr numbers_kept_def)

text \<open>A value inside an object may be replaced by its key-sorted form without changing the text.\<close>

lemma sorted_object_cong:
  assumes "map fst kvs = map fst kvs'" and "map (sorted_json \<circ> snd) kvs = map (sorted_json \<circ> snd) kvs'"
  shows "sorted_json (JObj kvs) = sorted_json (JObj kvs')"
proof -
  have z: "map (map_prod id sorted_json) l = zip (map fst l) (map (sorted_json \<circ> snd) l)" for l
    by (induction l) auto
  show ?thesis unfolding sorted_json.simps z [of kvs] z [of kvs'] assms ..
qed

text \<open>The optional text columns of a journal, as the values of a document.\<close>

definition json_text :: "string option \<Rightarrow> json" where
  "json_text x = (case x of None \<Rightarrow> JNull | Some s \<Rightarrow> JStr s)"

lemma json_text_simps [simp]:
  "json_wf (json_text x)" "json_finite (json_text x)" "numbers_kept (json_text x)"
  "sorted_json (json_text x) = json_text x"
  "json_text x = json_text y \<longleftrightarrow> x = y"
  by (cases x; cases y; simp add: json_text_def)+

subsection \<open>Chains\<close>

text \<open>
  \<open>linked prev digest p es h\<close>: the events \<open>es\<close> continue a chain whose last digest is \<open>p\<close> and end with
  the digest \<open>h\<close>.
\<close>

fun linked :: "('e \<Rightarrow> 'h option) \<Rightarrow> ('e \<Rightarrow> 'h) \<Rightarrow> 'h option \<Rightarrow> 'e list \<Rightarrow> 'h option \<Rightarrow> bool" where
  "linked prev digest p [] h = (h = p)"
| "linked prev digest p (e # es) h = (prev e = p \<and> linked prev digest (Some (digest e)) es h)"

lemma linked_append:
  "linked prev digest p (es @ fs) h = (\<exists>q. linked prev digest p es q \<and> linked prev digest q fs h)"
  by (induction es arbitrary: p) auto

lemma linked_snoc:
  "linked prev digest p (es @ [e]) h \<longleftrightarrow> linked prev digest p es (prev e) \<and> h = Some (digest e)"
  by (auto simp: linked_append)

text \<open>
  What a journal must promise: two well-formed events that are hashed as the same text are the same
  event after the same predecessor. Two chains with the same head are then the same chain, or
  contain two different texts with the same hash.
\<close>

locale hash_chain =
  fixes prev :: "'e \<Rightarrow> 'h option"
    and content :: "'e \<Rightarrow> 't"
    and hash :: "'t \<Rightarrow> 'h"
    and wf :: "'e \<Rightarrow> bool"
    and same :: "'e \<Rightarrow> 'e \<Rightarrow> bool"
  assumes binding: "wf e \<Longrightarrow> wf e' \<Longrightarrow> content e = content e' \<Longrightarrow> same e e' \<and> prev e = prev e'"
begin

lemma head_determines:
  assumes "list_all wf es" and "list_all wf fs"
    and "linked prev (\<lambda>e. hash (content e)) None es h" and "linked prev (\<lambda>e. hash (content e)) None fs h"
  shows "list_all2 same es fs
    \<or> (\<exists>e\<in>set es. \<exists>f\<in>set fs. content e \<noteq> content f \<and> hash (content e) = hash (content f))"
  using assms
proof (induction es arbitrary: fs h rule: rev_induct)
  case Nil
  then show ?case by (cases fs rule: rev_cases) (auto simp: linked_snoc)
next
  case (snoc e es)
  then obtain g gs where fs: "fs = gs @ [g]"
    by (cases fs rule: rev_cases) (auto simp: linked_snoc)
  with snoc.prems have d: "hash (content e) = hash (content g)"
      and p: "linked prev (\<lambda>e. hash (content e)) None es (prev e)"
        "linked prev (\<lambda>e. hash (content e)) None gs (prev g)"
    by (simp_all add: linked_snoc)
  show ?case
  proof (cases "content e = content g")
    case True
    with snoc.prems fs have s: "same e g \<and> prev e = prev g" by (intro binding) simp_all
    with p snoc.prems fs have "list_all2 same es gs \<or>
        (\<exists>e\<in>set es. \<exists>f\<in>set gs. content e \<noteq> content f \<and> hash (content e) = hash (content f))"
      by (intro snoc.IH) simp_all
    with s show ?thesis by (auto simp: fs list_all2_appendI)
  next
    case False
    with d show ?thesis by (auto simp: fs)
  qed
qed

end

text \<open>A stand-in hash for concrete runs: 64 hexadecimal digits made from the length of the text.\<close>

definition length_sha :: "string \<Rightarrow> string" where
  "length_sha s = replicate 62 (CHR ''0'') @ [hex_digit (length s div 16 mod 16), hex_digit (length s mod 16)]"

lemma length_sha_hex: "sha256_hex (length_sha s)"
proof -
  have "lower_hex (CHR ''0'')" by code_simp
  then show ?thesis by (auto simp: sha256_hex_def length_sha_def list_all_iff hex_digit_lower)
qed

end
