(* ===== verification/RuntimeBus.thy ===== *)
theory RuntimeBus
  imports OfflineRecovery Inbox HashChain
begin

text \<open>
  The durable message bus, \<open>kairos_persistence/runtime.py\<close>, between a transport that delivers at least once and
  the inbox and outbox tables: \<open>publish\<close> stores the audit fact and the outbox row, \<open>_subscribe\<close> runs a handler
  inside the inbox transaction of its message and acknowledges the transport after the commit, and
  \<open>_dispatch_outbox\<close> sends claimed rows. The transport (\<open>kairos_core.bus\<close>) is outside: what it delivers, and how
  its \<open>publish\<close> and \<open>ack\<close> end, are arguments, and so are cancellations and failed database calls.
\<close>

subsection \<open>Messages\<close>

text \<open>A \<open>KairosMessage\<close> is given by its \<open>to_payload()\<close>; anything that is neither it nor a dict is refused.\<close>

datatype publishable = Message "(string \<times> json) list" | Document "(string \<times> json) list" | OtherValue string

definition publishable_payload :: "publishable \<Rightarrow> json res" where
  "publishable_payload m = (case m of
       Message kvs \<Rightarrow> Inr (JObj kvs)
     | Document kvs \<Rightarrow> Inr (JObj kvs)
     | OtherValue t \<Rightarrow> Inl (TypeError (''cannot publish object of type '' @ t)))"

definition message_identity :: "json \<Rightarrow> string res" where
  "message_identity payload = (case str_field ''message_id'' payload of
       None \<Rightarrow> Inl (ValueError ''durable messages require a non-empty message_id'')
     | Some s \<Rightarrow> if blank s then Inl (ValueError ''durable messages require a non-empty message_id'') else Inr s)"

record durable_bus =
  db_service :: string
  db_consumer_only :: bool
  db_worker :: string
  db_inbox_lease :: int
  db_outbox_lease :: int
  db_batch :: int

text \<open>\<open>service_name.strip()\<close>, and the worker's name \<open>hostname:service:uuid\<close>.\<close>

definition durable_bus_of ::
  "string \<Rightarrow> bool \<Rightarrow> string \<Rightarrow> string \<Rightarrow> int \<Rightarrow> int \<Rightarrow> int \<Rightarrow> durable_bus res" where
  "durable_bus_of service_name consumer_only hostname uuid inbox_lease outbox_lease batch =
     (if blank service_name then Inl (ValueError ''service_name must not be empty'')
      else Inr \<lparr>db_service = strip service_name, db_consumer_only = consumer_only,
             db_worker = hostname @ '':'' @ strip service_name @ '':'' @ uuid,
             db_inbox_lease = inbox_lease, db_outbox_lease = outbox_lease, db_batch = batch\<rparr>)"

text \<open>What is written for a message: its id, its document, the canonical text and its fingerprint.\<close>

record durable_message =
  dm_id :: string
  dm_payload :: json
  dm_text :: string
  dm_sha256 :: string

definition durable_message_of :: "(string \<Rightarrow> string) \<Rightarrow> publishable \<Rightarrow> durable_message res" where
  "durable_message_of sha m =
     rbind (publishable_payload m) (\<lambda>payload.
     rbind (message_identity payload) (\<lambda>message_id.
     rbind (canonical_payload sha payload) (\<lambda>(encoded, digest).
       Inr \<lparr>dm_id = message_id, dm_payload = payload, dm_text = encoded, dm_sha256 = digest\<rparr>)))"

subsection \<open>Publishing\<close>

definition publish_disabled :: py_error where
  "publish_disabled = RuntimeError ''publish is disabled in consumer-only mode''"

text \<open>Outside a delivery: audit fact and outbox row in one transaction of their own.\<close>

definition publish_tx ::
  "string \<Rightarrow> int \<Rightarrow> string \<Rightarrow> durable_message \<Rightarrow> timestamp \<Rightarrow> 'b store \<Rightarrow> (string \<times> 'b store) res" where
  "publish_tx service nid topic d now st =
     rbind (append_payload topic (dm_payload d) (st_audit st)) (\<lambda>(_, audit).
     rbind (enqueue_outbox nid (dm_id d) topic (dm_text d) (dm_sha256 d) service now (st_outbox st)) (\<lambda>(_, outbox).
       Inr (dm_id d, st\<lparr>st_audit := audit, st_outbox := outbox\<rparr>)))"

definition publish ::
  "(string \<Rightarrow> string) \<Rightarrow> durable_bus \<Rightarrow> int \<Rightarrow> string \<Rightarrow> publishable \<Rightarrow> timestamp \<Rightarrow> 'b store
     \<Rightarrow> (string \<times> 'b store) res" where
  "publish sha bus nid topic m now st =
     (if db_consumer_only bus then Inl publish_disabled
      else rbind (durable_message_of sha m) (\<lambda>d. publish_tx (db_service bus) nid topic d now st))"

text \<open>Inside a delivery: the same two writes through the connection of the message's transaction.\<close>

definition publish_actions ::
  "(string \<Rightarrow> string) \<Rightarrow> durable_bus \<Rightarrow> int \<Rightarrow> string \<Rightarrow> publishable \<Rightarrow> 'b tx_action list" where
  "publish_actions sha bus nid topic m =
     (if db_consumer_only bus then [Raise publish_disabled]
      else case durable_message_of sha m of
          Inl e \<Rightarrow> [Raise e]
        | Inr d \<Rightarrow> [AppendPayload topic (dm_payload d), EnqueueOutbox nid (dm_id d) topic (dm_text d) (dm_sha256 d)])"

subsection \<open>One delivery\<close>

record envelope =
  en_id :: string
  en_topic :: string
  en_payload :: json

text \<open>What a handler does before it asks for the next message; \<open>LeaveStep\<close> is any error it lets escape.\<close>

datatype handler_step =
    PublishStep int string publishable
  | AckStep string envelope "string option"
  | LeaveStep py_error

definition check_ack ::
  "envelope \<Rightarrow> string \<Rightarrow> bool \<Rightarrow> string \<Rightarrow> envelope \<Rightarrow> string option \<Rightarrow> unit res" where
  "check_ack delivered lg acked topic e requested =
     (let effective = (case requested of None \<Rightarrow> lg | Some g \<Rightarrow> if g = [] then lg else g) in
      if topic \<noteq> en_topic e \<or> en_id e \<noteq> en_id delivered \<or> effective \<noteq> lg
      then Inl (ValueError ''ACK does not match the active durable delivery'')
      else if acked then Inl (RuntimeError ''durable delivery was already acknowledged'')
      else Inr ())"

text \<open>The database work of a handler, and whether it asked for the acknowledgement.\<close>

fun handler_actions ::
  "(string \<Rightarrow> string) \<Rightarrow> durable_bus \<Rightarrow> envelope \<Rightarrow> string \<Rightarrow> bool \<Rightarrow> handler_step list
     \<Rightarrow> 'b tx_action list \<times> bool" where
  "handler_actions sha bus e lg acked [] = ([], acked)"
| "handler_actions sha bus e lg acked (PublishStep nid topic m # steps) =
     (case handler_actions sha bus e lg acked steps of
        (acts, acked') \<Rightarrow> (publish_actions sha bus nid topic m @ acts, acked'))"
| "handler_actions sha bus e lg acked (AckStep topic e' requested # steps) =
     (case check_ack e lg acked topic e' requested of
        Inl err \<Rightarrow> ([Raise err], acked)
      | Inr _ \<Rightarrow> handler_actions sha bus e lg True steps)"
| "handler_actions sha bus e lg acked (LeaveStep err # steps) = ([Raise err], acked)"

definition not_acked :: py_error where
  "not_acked = RuntimeError ''handler returned without requesting ACK''"

definition transport_result :: "envelope \<Rightarrow> json" where
  "transport_result e = JObj [(''transport_id'', JStr (en_id e))]"

text \<open>
  The body of the message's transaction. A handler that leaves the loop does not return into the generator: the
  generator is closed at its \<open>yield\<close>, and \<open>closing\<close> is what is raised there (\<open>GeneratorExit\<close> when it is closed
  explicitly, the error of resetting the context variable when the event loop closes it from another context).
\<close>

definition delivery_actions ::
  "(string \<Rightarrow> string) \<Rightarrow> durable_bus \<Rightarrow> string \<Rightarrow> string \<Rightarrow> envelope \<Rightarrow> handler_step list \<Rightarrow> py_error
     \<Rightarrow> tx_context \<Rightarrow> 'b store \<Rightarrow> 'b tx_action list" where
  "delivery_actions sha bus topic lg e steps closing c st =
     (case handler_actions sha bus e lg False steps of (acts, acked) \<Rightarrow>
        let arrived = AppendPayload topic (en_payload e) in
        case run_actions c (arrived # acts) (False, st) of
          Inl _ \<Rightarrow> [arrived, Raise closing]
        | Inr _ \<Rightarrow> arrived # acts @ [if acked then Complete (Some (transport_result e)) else Raise not_acked])"

definition logical_group :: "string option \<Rightarrow> string" where
  "logical_group g = (case g of None \<Rightarrow> ''default'' | Some s \<Rightarrow> if s = [] then ''default'' else s)"

definition durable_consumer :: "durable_bus \<Rightarrow> string option \<Rightarrow> string" where
  "durable_consumer bus g = db_service bus @ '':'' @ logical_group g"

definition delivery_request ::
  "(string \<Rightarrow> string) \<Rightarrow> durable_bus \<Rightarrow> string \<Rightarrow> string option \<Rightarrow> envelope \<Rightarrow> handler_step list \<Rightarrow> py_error
     \<Rightarrow> timestamp \<Rightarrow> string \<Rightarrow> string \<Rightarrow> 'b store \<Rightarrow> 'b tx_request" where
  "delivery_request sha bus topic g e steps closing now message_id digest st =
     (let q = \<lparr>tq_consumer = durable_consumer bus g, tq_message_id = message_id, tq_topic = topic,
          tq_lease = db_inbox_lease bus, tq_payload_sha256 = Some digest, tq_outbox_producer = Some (db_service bus),
          tq_actions = [], tq_now = now\<rparr> in
      case claim_message (tq_consumer q) message_id topic (tq_lease q) (Some digest) now (st_inbox st) of
        Inl _ \<Rightarrow> q
      | Inr (claim, inbox) \<Rightarrow>
          if ic_claimed claim
          then q\<lparr>tq_actions := delivery_actions sha bus topic (logical_group g) e steps closing (tx_context_of q True)
                   (st\<lparr>st_inbox := inbox\<rparr>)\<rparr>
          else q)"

datatype delivered = Acked | NotAcked | Stopped py_error

text \<open>
  One turn of \<open>_subscribe\<close>: whether the transport is asked to acknowledge, and how the turn ends; \<open>Stopped\<close> ends
  the subscription with an error. \<open>ack_answer\<close> is what \<open>transport.ack\<close> does when it is called.
\<close>

definition should_ack :: "inbox_claim res \<Rightarrow> bool" where
  "should_ack result = (case result of Inl _ \<Rightarrow> False | Inr c \<Rightarrow> ic_claimed c \<or> ic_duplicate_completed c)"

definition turn_end :: "inbox_claim res \<Rightarrow> unit res \<Rightarrow> delivered" where
  "turn_end result ack_answer = (case result of
       Inl e \<Rightarrow> if e = not_acked then NotAcked else Stopped e
     | Inr c \<Rightarrow> if \<not> should_ack result then NotAcked
               else case ack_answer of Inl e \<Rightarrow> Stopped e | Inr _ \<Rightarrow> Acked)"

definition deliver ::
  "(string \<Rightarrow> string) \<Rightarrow> durable_bus \<Rightarrow> string \<Rightarrow> string option \<Rightarrow> envelope \<Rightarrow> handler_step list \<Rightarrow> py_error
     \<Rightarrow> unit res \<Rightarrow> timestamp \<Rightarrow> 'b store \<Rightarrow> delivered \<times> bool \<times> 'b store" where
  "deliver sha bus topic g e steps closing ack_answer now st =
     (case message_identity (en_payload e) of
        Inl err \<Rightarrow> (Stopped err, False, st)
      | Inr message_id \<Rightarrow>
     (case canonical_payload sha (en_payload e) of
        Inl err \<Rightarrow> (Stopped err, False, st)
      | Inr (_, digest) \<Rightarrow>
     (case message_transaction (delivery_request sha bus topic g e steps closing now message_id digest st) st of
        (result, st') \<Rightarrow> (turn_end result ack_answer, should_ack result, st'))))"

subsection \<open>The dispatcher\<close>

text \<open>
  A database call that goes wrong: the error, and whether its statement was committed all the same (a lost reply,
  or a cancellation that \<open>asyncio.shield\<close> keeps from the statement).
\<close>

type_synonym fault = "(bool \<times> py_error) option"

definition attempted :: "fault \<Rightarrow> ('a \<times> 't) res \<Rightarrow> 't \<Rightarrow> 'a res \<times> 't" where
  "attempted f r t = (case f of
       Some (committed, e) \<Rightarrow> (Inl e, if committed then settle t r else t)
     | None \<Rightarrow> (case r of Inl e \<Rightarrow> (Inl e, t) | Inr (b, t') \<Rightarrow> (Inr b, t')))"

definition mark_outbox_unknown ::
  "durable_bus \<Rightarrow> outbox_record \<Rightarrow> string \<Rightarrow> fault \<Rightarrow> timestamp \<Rightarrow> outbox_row list \<Rightarrow> bool res \<times> outbox_row list" where
  "mark_outbox_unknown bus rec reason f now t =
     (case attempted f (mark_outbox_publish_outcome_unknown rec (db_worker bus) reason now t) t of
        (Inr b, t') \<Rightarrow> (Inr b, t')
      | (Inl e, t') \<Rightarrow> (if is_exception e then Inr False else Inl e, t'))"

text \<open>How the transport and the database answer while one record is dispatched.\<close>

record dispatch_env =
  de_publish :: "unit res"
  de_ack :: fault
  de_unknown :: fault
  de_now :: timestamp

text \<open>The error a failure branch ends with: \<open>continue\<close>, or \<open>raise\<close> after a cancellation.\<close>

definition given_up ::
  "durable_bus \<Rightarrow> outbox_record \<Rightarrow> string \<Rightarrow> py_error option \<Rightarrow> dispatch_env \<Rightarrow> outbox_row list
     \<Rightarrow> unit res \<times> outbox_row list" where
  "given_up bus rec reason cancelled env t =
     (case mark_outbox_unknown bus rec reason (de_unknown env) (de_now env) t of
        (Inl e, t') \<Rightarrow> (Inl e, t')
      | (Inr _, t') \<Rightarrow> (case cancelled of None \<Rightarrow> Inr () | Some e \<Rightarrow> Inl e, t'))"

definition raised_by :: "string \<Rightarrow> string \<Rightarrow> py_error \<Rightarrow> string \<times> py_error option" where
  "raised_by cancelled failed e = (if is_exception e then (failed, None) else (cancelled, Some e))"

definition sendable :: "(string \<Rightarrow> string) \<Rightarrow> outbox_record \<Rightarrow> bool" where
  "sendable sha rec = (case canonical_payload sha (or_payload rec) of
       Inl _ \<Rightarrow> False | Inr (_, actual) \<Rightarrow> or_payload_sha256 rec = Some actual)"

definition settle_sent ::
  "durable_bus \<Rightarrow> outbox_record \<Rightarrow> dispatch_env \<Rightarrow> outbox_row list \<Rightarrow> unit res \<times> outbox_row list" where
  "settle_sent bus rec env t =
     (case attempted (de_ack env) (mark_published rec (db_worker bus) (de_now env) t) t of
        (Inl e, t') \<Rightarrow> (case raised_by ''ACK_CANCELLED'' ''ACK_EXCEPTION'' e of
            (reason, cancelled) \<Rightarrow> given_up bus rec reason cancelled env t')
      | (Inr acknowledged, t') \<Rightarrow>
          if acknowledged then (Inr (), t') else given_up bus rec ''ACK_NOT_APPLIED'' None env t')"

text \<open>One record: how the turn ends, the table, and whether the transport was given the message.\<close>

definition dispatch_record ::
  "(string \<Rightarrow> string) \<Rightarrow> durable_bus \<Rightarrow> outbox_record \<Rightarrow> dispatch_env \<Rightarrow> outbox_row list
     \<Rightarrow> unit res \<times> outbox_row list \<times> bool" where
  "dispatch_record sha bus rec env t =
     (if \<not> sendable sha rec
      then (case given_up bus rec ''PRE_PUBLISH_HASH_MISMATCH'' None env t of (r, t') \<Rightarrow> (r, t', False))
      else case de_publish env of
          Inl e \<Rightarrow> (case raised_by ''PUBLISH_CANCELLED'' ''PUBLISH_EXCEPTION'' e of
              (reason, cancelled) \<Rightarrow> (case given_up bus rec reason cancelled env t of (r, t') \<Rightarrow> (r, t', True)))
        | Inr _ \<Rightarrow> (case settle_sent bus rec env t of (r, t') \<Rightarrow> (r, t', True)))"

fun dispatch_records ::
  "(string \<Rightarrow> string) \<Rightarrow> durable_bus \<Rightarrow> (outbox_record \<times> dispatch_env) list \<Rightarrow> outbox_row list
     \<Rightarrow> unit res \<times> outbox_row list \<times> outbox_record list" where
  "dispatch_records sha bus [] t = (Inr (), t, [])"
| "dispatch_records sha bus ((rec, env) # recs) t =
     (case dispatch_record sha bus rec env t of (r, t', gave) \<Rightarrow>
        let sent = (if gave then [rec] else []) in
        case r of
          Inl e \<Rightarrow> (Inl e, t', sent)
        | Inr _ \<Rightarrow> (case dispatch_records sha bus recs t' of (r', t'', later) \<Rightarrow> (r', t'', sent @ later)))"

text \<open>
  A turn of the loop: whether the bus is closing when it is looked at, the claim's uuid and clock or the error
  the claim raises, and the answers for the records it may return. A turn without records waits for a wake-up,
  which changes no table.
\<close>

record dispatch_turn =
  dt_closing :: bool
  dt_uuid :: string
  dt_now :: timestamp
  dt_fault :: fault
  dt_env :: "outbox_record \<Rightarrow> dispatch_env"

definition claim_turn ::
  "durable_bus \<Rightarrow> dispatch_turn \<Rightarrow> outbox_row list \<Rightarrow> outbox_record list res \<times> outbox_row list" where
  "claim_turn bus d t = attempted (dt_fault d)
     (claim_outbox (db_worker bus) (db_service bus) (db_batch bus) (db_outbox_lease bus) (dt_uuid d) (dt_now d) t) t"

fun dispatch_outbox ::
  "(string \<Rightarrow> string) \<Rightarrow> durable_bus \<Rightarrow> dispatch_turn list \<Rightarrow> outbox_row list
     \<Rightarrow> unit res \<times> outbox_row list \<times> outbox_record list" where
  "dispatch_outbox sha bus [] t = (Inr (), t, [])"
| "dispatch_outbox sha bus (d # ds) t =
     (if dt_closing d then (Inr (), t, [])
      else case claim_turn bus d t of
          (Inl e, t1) \<Rightarrow> (Inl e, t1, [])
        | (Inr recs, t1) \<Rightarrow>
            (case dispatch_records sha bus (map (\<lambda>rec. (rec, dt_env d rec)) recs) t1 of
               (Inl e, t2, sent) \<Rightarrow> (Inl e, t2, sent)
             | (Inr _, t2, sent) \<Rightarrow>
                 (case dispatch_outbox sha bus ds t2 of (r, t3, later) \<Rightarrow> (r, t3, sent @ later))))"
end
