(* ===== verification/OfflineTools.thy ===== *)
theory OfflineTools
  imports RuntimeBus
begin

text \<open>
  The operator tools of stopped producers: \<open>kairos_persistence/offline_writer.py\<close>, which appends audit facts
  and outbox rows under the producer's advisory lease without a transport, and the one-row publishers
  \<open>offline_outbox_drain.py\<close> and \<open>offline_outbox_reconciler.py\<close>, which claim one exact row, call the injected
  publisher once and settle the row or quarantine it.
\<close>

subsection \<open>One exact publish attempt\<close>

text \<open>\<open>type(exc).__name__\<close>.\<close>

primrec error_name :: "py_error \<Rightarrow> string" where
  "error_name (ValueError s) = ''ValueError''"
| "error_name (TypeError s) = ''TypeError''"
| "error_name (RuntimeError s) = ''RuntimeError''"
| "error_name (KeyError s) = ''KeyError''"
| "error_name (MessageIdentityConflict s) = ''MessageIdentityConflict''"
| "error_name (SourceBudgetExceeded s) = ''SourceBudgetExceeded''"
| "error_name (DataError s) = ''DataError''"
| "error_name (IntegrityError s) = ''IntegrityError''"
| "error_name (OverflowError s) = ''OverflowError''"
| "error_name (HandlerError s) = ''Exception''"
| "error_name (CancelledError s) = ''CancelledError''"
| "error_name (CanaryAdmissionError s) = ''CanaryAdmissionError''"
| "error_name (OperatorControlRefused s) = ''OperatorControlRefused''"
| "error_name (OperatorControlUnavailable s) = ''OperatorControlUnavailable''"
| "error_name (ArithmeticError s) = ''InvalidOperation''"

text \<open>
  The result object of both tools; its \<open>__post_init__\<close> demands exactly the fields each constructor carries: the
  rejection, nothing, or whether the row was quarantined and the kind of failure.
\<close>

datatype exact_result =
    ExactClaimRejected rejection
  | PublishAcknowledged
  | PublishUnknown bool string

text \<open>How the publisher and the database answer, and the clocks of the claim and of the settlement.\<close>

record tool_env =
  te_claim :: fault
  te_publish :: "unit res"
  te_ack :: fault
  te_unknown :: fault
  te_claimed_at :: timestamp
  te_settled_at :: timestamp

definition quarantine_unknown ::
  "string \<Rightarrow> exact_claim \<Rightarrow> string \<Rightarrow> tool_env \<Rightarrow> outbox_row list \<Rightarrow> bool res \<times> outbox_row list" where
  "quarantine_unknown tool c kind env t =
     (case attempted (te_unknown env) (mark_exact_outbox_publish_outcome_unknown (ec_identity c)
             (ec_reconciliation_id c) (tool @ kind) (te_settled_at env) t) t of
        (Inr b, t') \<Rightarrow> (Inr b, t')
      | (Inl e, t') \<Rightarrow> (if is_exception e then Inr False else Inl e, t'))"

definition unknown_result ::
  "string \<Rightarrow> exact_claim \<Rightarrow> string \<Rightarrow> tool_env \<Rightarrow> outbox_row list \<Rightarrow> exact_result res \<times> outbox_row list" where
  "unknown_result tool c kind env t =
     (case quarantine_unknown tool c kind env t of (r, t') \<Rightarrow> (rbind r (\<lambda>b. Inr (PublishUnknown b kind)), t'))"

text \<open>The two \<open>except\<close> clauses around a call: cancellation quarantines and raises, any other error is a result.\<close>

definition failed_call ::
  "string \<Rightarrow> exact_claim \<Rightarrow> string \<Rightarrow> string \<Rightarrow> py_error \<Rightarrow> tool_env \<Rightarrow> outbox_row list
     \<Rightarrow> exact_result res \<times> outbox_row list" where
  "failed_call tool c cancelled failed e env t =
     (if is_exception e then unknown_result tool c (failed @ error_name e) env t
      else case quarantine_unknown tool c cancelled env t of (r, t') \<Rightarrow> (rbind r (\<lambda>_. Inl e), t'))"

definition publish_claimed ::
  "string \<Rightarrow> offline_identity \<Rightarrow> string \<Rightarrow> exact_claim \<Rightarrow> tool_env \<Rightarrow> outbox_row list
     \<Rightarrow> exact_result res \<times> outbox_row list" where
  "publish_claimed tool i rid c env t =
     (case te_publish env of
        Inl e \<Rightarrow> failed_call tool c ''publisher_cancelled'' ''publisher_exception:'' e env t
      | Inr _ \<Rightarrow>
     (case attempted (te_ack env) (acknowledge_exact_outbox_publish i rid (te_settled_at env) t) t of
        (Inl e, t') \<Rightarrow> failed_call tool c ''database_ack_cancelled'' ''database_ack_exception:'' e env t'
      | (Inr acknowledged, t') \<Rightarrow>
          if acknowledged then (Inr PublishAcknowledged, t')
          else unknown_result tool c ''database_ack_not_applied'' env t'))"

text \<open>The result, the table, and the messages given to the publisher.\<close>

definition exact_publish ::
  "string \<Rightarrow> (exact_claim_result \<times> outbox_row list) res \<Rightarrow> offline_identity \<Rightarrow> string \<Rightarrow> tool_env
     \<Rightarrow> outbox_row list \<Rightarrow> exact_result res \<times> outbox_row list \<times> exact_claim list" where
  "exact_publish tool claim i rid env t =
     (case attempted (te_claim env) claim t of
        (Inl e, t') \<Rightarrow> (Inl e, t', [])
      | (Inr (ClaimRejected r), t') \<Rightarrow> (Inr (ExactClaimRejected r), t', [])
      | (Inr (Claimed c), t') \<Rightarrow>
          (case publish_claimed tool i rid c env t' of (r, t'') \<Rightarrow> (r, t'', [c])))"

definition drain_exact ::
  "(string \<Rightarrow> string) \<Rightarrow> offline_identity \<Rightarrow> string \<Rightarrow> tool_env \<Rightarrow> audit_row list \<Rightarrow> outbox_row list
     \<Rightarrow> exact_result res \<times> outbox_row list \<times> exact_claim list" where
  "drain_exact sha i drain_id env audit t =
     exact_publish ''offline prefix drain ''
       (claim_ready_outbox_exact sha i drain_id five_minutes (te_claimed_at env) audit t) i drain_id env t"

definition reconcile ::
  "(string \<Rightarrow> string) \<Rightarrow> offline_identity \<Rightarrow> string \<Rightarrow> tool_env \<Rightarrow> audit_row list \<Rightarrow> outbox_row list
     \<Rightarrow> exact_result res \<times> outbox_row list \<times> exact_claim list" where
  "reconcile sha i reconciliation_id env audit t =
     exact_publish ''offline reconciliation ''
       (claim_expired_outbox_exact sha i reconciliation_id five_minutes (te_claimed_at env) audit t) i reconciliation_id env t"

subsection \<open>The offline writer\<close>

record offline_writer =
  ow_service :: string
  ow_database :: string
  ow_versions :: "string list"
  ow_started :: bool
  ow_closing :: bool

definition offline_writer_of :: "string \<Rightarrow> string \<Rightarrow> string list \<Rightarrow> offline_writer res" where
  "offline_writer_of service_name database versions =
     (if blank service_name then Inl (ValueError ''service_name must not be empty'')
      else if versions = [] \<or> \<not> sorted versions
      then Inl (ValueError ''expected schema versions must be a non-empty sorted tuple'')
      else Inr \<lparr>ow_service = strip service_name, ow_database = database, ow_versions = versions,
             ow_started = False, ow_closing = False\<rparr>)"

definition offline_writer_error :: "string \<Rightarrow> py_error" where
  "offline_writer_error = RuntimeError"

text \<open>
  \<open>start()\<close>: how connecting to the verified database ends, whether the two advisory locks were free, and the
  versions the database lists are given. A failure releases everything, so the writer stays as it was.
\<close>

definition writer_start ::
  "unit res \<Rightarrow> bool \<Rightarrow> string list \<Rightarrow> bool \<Rightarrow> offline_writer \<Rightarrow> unit res \<times> offline_writer" where
  "writer_start connected guard_free versions lease_free w =
     (if ow_started w then (Inr (), w)
      else if ow_closing w then (Inl (offline_writer_error ''offline writer is closing''), w)
      else case connected of
          Inl e \<Rightarrow> (Inl e, w)
        | Inr _ \<Rightarrow>
            if \<not> guard_free then (Inl (offline_writer_error ''schema migration is already running''), w)
            else if versions \<noteq> ow_versions w
            then (Inl (offline_writer_error ''offline writer schema does not match its exact verified profile''), w)
            else if \<not> lease_free
            then (Inl (offline_writer_error ''closed-bar producer/recovery already running''), w)
            else (Inr (), w\<lparr>ow_started := True\<rparr>))"

definition writer_close :: "offline_writer \<Rightarrow> offline_writer" where
  "writer_close w = (if ow_closing w then w else w\<lparr>ow_closing := True, ow_started := False\<rparr>)"

definition writer_payload :: "publishable \<Rightarrow> json res" where
  "writer_payload m = (case m of
       Message kvs \<Rightarrow> Inr (JObj kvs)
     | Document kvs \<Rightarrow> Inr (JObj kvs)
     | OtherValue t \<Rightarrow> Inl (TypeError (''cannot append object of type '' @ t)))"

definition writer_append ::
  "(string \<Rightarrow> string) \<Rightarrow> offline_writer \<Rightarrow> int \<Rightarrow> string \<Rightarrow> publishable \<Rightarrow> timestamp \<Rightarrow> 'b store
     \<Rightarrow> (bool \<times> 'b store) res" where
  "writer_append sha w nid topic m now st =
     (if \<not> ow_started w then Inl (offline_writer_error ''offline writer is not started'')
      else rbind (writer_payload m) (\<lambda>payload.
           rbind (message_identity payload) (\<lambda>message_id.
           rbind (canonical_payload sha payload) (\<lambda>(encoded, digest).
           rbind (append_payload_strict sha topic payload encoded digest (st_audit st)) (\<lambda>(inserted, audit).
           rbind (enqueue_outbox nid message_id topic encoded digest (ow_service w) now (st_outbox st)) (\<lambda>(_, outbox).
             Inr (inserted, st\<lparr>st_audit := audit, st_outbox := outbox\<rparr>)))))))"
end
