(* ===== verification/BusRuns.thy ===== *)
theory BusRuns
  imports OfflineTools
begin

text \<open>
  Runs of the durable bus: publishers, subscriptions, dispatchers, offline tools and every other writer of the
  inbox and outbox in any order, with a record of the messages given to a transport and of the deliveries
  acknowledged to it.
\<close>

subsection \<open>Runs\<close>

text \<open>A message given to a transport: the outbox row it came from, its topic and its document.\<close>

record given_message =
  gm_id :: int
  gm_topic :: string
  gm_payload :: json

record acked_message =
  am_consumer :: string
  am_message_id :: string
  am_topic :: string
  am_sha256 :: string

text \<open>The tables, the records claimed by dispatchers and not yet dispatched, and the two transport logs.\<close>

record 'b bus_state =
  bs_store :: "'b store"
  bs_flight :: "(durable_bus \<times> outbox_record) list"
  bs_given :: "given_message list"
  bs_acked :: "acked_message list"

datatype 'b bus_op =
    PublishOp durable_bus int string publishable timestamp
  | DeliverOp durable_bus string "string option" envelope "handler_step list" py_error "unit res" timestamp
  | UnitOp "'b tx_request"
  | ClaimTurnOp durable_bus dispatch_turn
  | DispatchOp nat dispatch_env
  | DrainOp offline_identity string tool_env
  | ReconcileOp offline_identity string tool_env
  | WriterOp offline_writer int string publishable timestamp
  | TableOp outbox_op

definition given_record :: "outbox_record \<Rightarrow> given_message" where
  "given_record rec = \<lparr>gm_id = or_id rec, gm_topic = or_topic rec, gm_payload = or_payload rec\<rparr>"

definition given_claim :: "exact_claim \<Rightarrow> given_message" where
  "given_claim c = \<lparr>gm_id = oi_id (ec_identity c), gm_topic = oi_topic (ec_identity c), gm_payload = ec_payload c\<rparr>"

definition acked_by ::
  "(string \<Rightarrow> string) \<Rightarrow> durable_bus \<Rightarrow> string \<Rightarrow> string option \<Rightarrow> envelope \<Rightarrow> acked_message" where
  "acked_by sha bus topic g e = \<lparr>am_consumer = durable_consumer bus g,
     am_message_id = (case message_identity (en_payload e) of Inl _ \<Rightarrow> [] | Inr m \<Rightarrow> m),
     am_topic = topic, am_sha256 = sha (canonical_json (en_payload e))\<rparr>"

definition with_outbox :: "'b bus_state \<Rightarrow> outbox_row list \<Rightarrow> 'b bus_state" where
  "with_outbox s t = s\<lparr>bs_store := (bs_store s)\<lparr>st_outbox := t\<rparr>\<rparr>"

definition given_by_tool ::
  "'b bus_state \<Rightarrow> exact_result res \<times> outbox_row list \<times> exact_claim list \<Rightarrow> 'b bus_state" where
  "given_by_tool s r = (case r of (_, t, cs) \<Rightarrow>
     (with_outbox s t)\<lparr>bs_given := bs_given s @ map given_claim cs\<rparr>)"

fun bus_step :: "(string \<Rightarrow> string) \<Rightarrow> 'b bus_op \<Rightarrow> 'b bus_state \<Rightarrow> 'b bus_state" where
  "bus_step sha (PublishOp bus nid topic m now) s =
     s\<lparr>bs_store := settle (bs_store s) (publish sha bus nid topic m now (bs_store s))\<rparr>"
| "bus_step sha (DeliverOp bus topic g e steps closing answer now) s =
     (case deliver sha bus topic g e steps closing answer now (bs_store s) of (_, ack, st) \<Rightarrow>
        s\<lparr>bs_store := st, bs_acked := bs_acked s @ (if ack then [acked_by sha bus topic g e] else [])\<rparr>)"
| "bus_step sha (UnitOp q) s = s\<lparr>bs_store := store_step q (bs_store s)\<rparr>"
| "bus_step sha (ClaimTurnOp bus d) s =
     (case claim_turn bus d (st_outbox (bs_store s)) of
        (Inl _, t) \<Rightarrow> with_outbox s t
      | (Inr recs, t) \<Rightarrow> (with_outbox s t)\<lparr>bs_flight := bs_flight s @ map (Pair bus) recs\<rparr>)"
| "bus_step sha (DispatchOp n env) s =
     (if length (bs_flight s) \<le> n then s
      else case bs_flight s ! n of (bus, rec) \<Rightarrow>
        (case dispatch_record sha bus rec env (st_outbox (bs_store s)) of (_, t, gave) \<Rightarrow>
           (with_outbox s t)\<lparr>bs_flight := take n (bs_flight s) @ drop (Suc n) (bs_flight s),
             bs_given := bs_given s @ (if gave then [given_record rec] else [])\<rparr>))"
| "bus_step sha (DrainOp i rid env) s =
     given_by_tool s (drain_exact sha i rid env (st_audit (bs_store s)) (st_outbox (bs_store s)))"
| "bus_step sha (ReconcileOp i rid env) s =
     given_by_tool s (reconcile sha i rid env (st_audit (bs_store s)) (st_outbox (bs_store s)))"
| "bus_step sha (WriterOp w nid topic m now) s =
     s\<lparr>bs_store := settle (bs_store s) (writer_append sha w nid topic m now (bs_store s))\<rparr>"
| "bus_step sha (TableOp op) s = with_outbox s (outbox_step sha op (st_outbox (bs_store s)))"

definition quiet :: "'b store \<Rightarrow> 'b bus_state" where
  "quiet st = \<lparr>bs_store = st, bs_flight = [], bs_given = [], bs_acked = []\<rparr>"

subsection \<open>What each operation does to the outbox\<close>

lemma attempted_cases:
  assumes "attempted f r t = (x, u)" and "P t" and "\<And>b t'. r = Inr (b, t') \<Longrightarrow> P t'"
  shows "P u"
  using assms by (auto simp: attempted_def settle_def split: option.splits prod.splits sum.splits if_splits)

lemma mark_outbox_unknown_progress:
  assumes "outbox_ok t" and "mark_outbox_unknown bus rec reason f now t = (r, u)"
  shows "outbox_progress t u"
proof -
  obtain x where "attempted f (mark_outbox_publish_outcome_unknown rec (db_worker bus) reason now t) t = (x, u)"
    using assms(2) by (auto simp: mark_outbox_unknown_def split: prod.splits sum.splits)
  then show ?thesis
    by (rule attempted_cases) (use assms(1) outbox_progress_refl dispatcher_progress(2) in blast)+
qed

lemma given_up_progress:
  assumes "outbox_ok t" and "given_up bus rec reason c env t = (r, u)"
  shows "outbox_progress t u"
proof -
  obtain x where "mark_outbox_unknown bus rec reason (de_unknown env) (de_now env) t = (x, u)"
    using assms(2) by (auto simp: given_up_def split: prod.splits sum.splits)
  with assms(1) show ?thesis by (rule mark_outbox_unknown_progress)
qed

lemma outbox_progress_trans: "outbox_progress t u \<Longrightarrow> outbox_progress u v \<Longrightarrow> outbox_progress t v"
  using table_le_trans [of outbox_le t u v] outbox_le_trans by (auto simp: outbox_progress_def)

lemma outbox_progress_ok: "outbox_progress t u \<Longrightarrow> outbox_ok u"
  by (simp add: outbox_progress_def)

lemma settle_sent_progress:
  assumes "outbox_ok t" and "settle_sent bus rec env t = (r, u)"
  shows "outbox_progress t u"
proof -
  obtain x t1 where a: "attempted (de_ack env) (mark_published rec (db_worker bus) (de_now env) t) t = (x, t1)"
    by fastforce
  then have p: "outbox_progress t t1"
    by (rule attempted_cases) (use assms(1) outbox_progress_refl dispatcher_progress(1) in blast)+
  have "u = t1 \<or> (\<exists>reason c r'. given_up bus rec reason c env t1 = (r', u))"
    using assms(2) a by (auto simp: settle_sent_def split: sum.splits prod.splits if_splits)
  then show ?thesis using p by (auto dest!: given_up_progress [OF outbox_progress_ok [OF p]] intro: outbox_progress_trans)
qed

lemma dispatch_record_progress:
  assumes "outbox_ok t" and "dispatch_record sha bus rec env t = (r, u, gave)"
  shows "outbox_progress t u" and "gave \<longleftrightarrow> sendable sha rec"
proof -
  have "(\<exists>reason c r'. given_up bus rec reason c env t = (r', u)) \<or> (\<exists>r'. settle_sent bus rec env t = (r', u))"
    using assms(2) by (auto simp: dispatch_record_def split: sum.splits prod.splits if_splits)
  then show "outbox_progress t u"
    using given_up_progress [OF assms(1)] settle_sent_progress [OF assms(1)] by blast
  show "gave \<longleftrightarrow> sendable sha rec"
    using assms(2) by (auto simp: dispatch_record_def split: sum.splits prod.splits if_splits)
qed

lemma publish_claimed_progress:
  assumes "outbox_ok t" and "publish_claimed tool i rid c env t = (r, u)"
  shows "outbox_progress t u"
proof -
  have q: "outbox_progress v w" if v: "outbox_ok v" and w: "quarantine_unknown tool c kind env v = (x, w)" for kind v w x
  proof -
    obtain y where "attempted (te_unknown env) (mark_exact_outbox_publish_outcome_unknown (ec_identity c)
        (ec_reconciliation_id c) (tool @ kind) (te_settled_at env) v) v = (y, w)"
      using w by (auto simp: quarantine_unknown_def split: prod.splits sum.splits)
    then show ?thesis
      by (rule attempted_cases) (use v outbox_progress_refl exact_settle_progress(2) in blast)+
  qed
  have n: "outbox_progress v w" if "outbox_ok v" "unknown_result tool c kind env v = (x, w)" for kind v w x
    using that q by (auto simp: unknown_result_def split: prod.splits)
  have f: "outbox_progress v w" if "outbox_ok v" "failed_call tool c k k' e env v = (x, w)" for k k' e v w x
    using that q n by (auto simp: failed_call_def split: prod.splits if_splits)
  show ?thesis
  proof (cases "te_publish env")
    case (Inl e)
    with assms f show ?thesis by (auto simp: publish_claimed_def)
  next
    case (Inr a)
    obtain y v1 where a1: "attempted (te_ack env) (acknowledge_exact_outbox_publish i rid (te_settled_at env) t) t = (y, v1)"
      by fastforce
    then have p1: "outbox_progress t v1"
      by (rule attempted_cases) (use assms(1) outbox_progress_refl exact_settle_progress(1) in blast)+
    have "u = v1 \<or> (\<exists>kind x'. unknown_result tool c kind env v1 = (x', u)) \<or>
        (\<exists>k k' e x'. failed_call tool c k k' e env v1 = (x', u))"
      using assms(2) Inr a1 by (auto simp: publish_claimed_def split: sum.splits if_splits)
    with p1 n f show ?thesis by (blast intro: outbox_progress_trans outbox_progress_ok)
  qed
qed

lemma tool_progress:
  assumes "outbox_ok t" and "exact_publish tool claim i rid env t = (r, u, cs)"
    and "\<And>c t'. claim = Inr (c, t') \<Longrightarrow> outbox_progress t t'"
  shows "outbox_progress t u"
proof -
  obtain x t1 where a: "attempted (te_claim env) claim t = (x, t1)" by fastforce
  then have p1: "outbox_progress t t1"
    by (rule attempted_cases) (use assms(1,3) outbox_progress_refl in blast)+
  have "u = t1 \<or> (\<exists>c x'. publish_claimed tool i rid c env t1 = (x', u))"
    using assms(2) a by (auto simp: exact_publish_def split: sum.splits exact_claim_result.splits prod.splits)
  with p1 show ?thesis by (blast intro: publish_claimed_progress outbox_progress_trans outbox_progress_ok)
qed

lemma run_actions_outbox:
  assumes "run_actions c acts (b, st) = Inr (b', st')" and "outbox_ok (st_outbox st)"
  shows "outbox_progress (st_outbox st) (st_outbox st')"
  using assms
proof (induction acts arbitrary: b st)
  case Nil
  then show ?case by (simp add: outbox_progress_refl)
next
  case (Cons a acts)
  then obtain b1 st1 where a: "run_action c a (b, st) = Inr (b1, st1)"
    and rest: "run_actions c acts (b1, st1) = Inr (b', st')"
    by (auto simp: rbind_eq_Inr)
  have p: "outbox_progress (st_outbox st) (st_outbox st1)"
    using a Cons.prems(2)
    by (cases a) (auto simp: rbind_eq_Inr outbox_progress_refl dest: enqueue_progress split: if_splits)
  with Cons.IH [OF rest outbox_progress_ok [OF p]] show ?case by (blast intro: outbox_progress_trans)
qed

lemma message_transaction_outbox:
  assumes "inbox_ok (st_inbox st)" and "outbox_ok (st_outbox st)" and "message_transaction q st = (r, st')"
  shows "outbox_progress (st_outbox st) (st_outbox st')"
  using assms(1,3)
proof (cases rule: message_transaction_outcome)
  case (committed claim inbox)
  then obtain b where "run_actions (tx_context_of q True) (tq_actions q) (False, st\<lparr>st_inbox := inbox\<rparr>) = Inr (b, st')"
    by (auto simp: claimed_body_def rbind_eq_Inr split: if_splits)
  with assms(2) show ?thesis using run_actions_outbox by fastforce
qed (use assms(2) outbox_progress_refl in auto)

lemma publish_progress:
  assumes "outbox_ok (st_outbox st)" and "publish sha bus nid topic m now st = Inr (mid, st')"
  shows "outbox_progress (st_outbox st) (st_outbox st') \<and> st_inbox st' = st_inbox st"
  using assms
  by (auto simp: publish_def publish_tx_def rbind_eq_Inr dest: enqueue_progress split: if_splits)

lemma writer_progress:
  assumes "outbox_ok (st_outbox st)" and "writer_append sha w nid topic m now st = Inr (b, st')"
  shows "outbox_progress (st_outbox st) (st_outbox st') \<and> st_inbox st' = st_inbox st"
  using assms
  by (auto simp: writer_append_def rbind_eq_Inr dest: enqueue_progress split: if_splits)

lemma deliver_store:
  assumes "deliver sha bus topic g e steps closing answer now st = (d, ack, st')"
  obtains (refused) "st' = st" and "\<not> ack"
  | (unit) q result mid where "message_transaction q st = (result, st')" and "ack = should_ack result"
      and "message_identity (en_payload e) = Inr mid" and "d = turn_end result answer"
      and "tq_consumer q = durable_consumer bus g" and "tq_message_id q = mid" and "tq_topic q = topic"
      and "tq_payload_sha256 q = Some (sha (canonical_json (en_payload e)))"
proof -
  consider "st' = st \<and> \<not> ack"
    | mid enc digest where "message_identity (en_payload e) = Inr mid" "canonical_payload sha (en_payload e) = Inr (enc, digest)"
    using assms by (auto simp: deliver_def split: sum.splits)
  then show thesis
  proof cases
    case 2
    let ?q = "delivery_request sha bus topic g e steps closing now mid digest st"
    obtain result where m: "message_transaction ?q st = (result, st')" "ack = should_ack result" "d = turn_end result answer"
      using assms 2 by (auto simp: deliver_def split: prod.splits)
    have "digest = sha (canonical_json (en_payload e))" using 2(2) by (simp add: canonical_payload_Inr)
    with m 2(1) show thesis
      by (intro unit[of ?q result mid]) (auto simp: delivery_request_def Let_def split: sum.splits prod.splits)
  qed (use refused in blast)
qed

lemma deliver_progress:
  assumes "inbox_ok (st_inbox st)" and "outbox_ok (st_outbox st)"
    and "deliver sha bus topic g e steps closing answer now st = (d, ack, st')"
  shows "outbox_progress (st_outbox st) (st_outbox st') \<and> inbox_progress (st_inbox st) (st_inbox st')"
  using assms(3)
proof (cases rule: deliver_store)
  case refused
  with assms show ?thesis by (simp add: outbox_progress_refl inbox_progress_refl)
next
  case (unit q result mid)
  then show ?thesis
    using message_transaction_outbox [OF assms(1,2)] store_step_progress [OF assms(1), of q]
    by (auto simp: store_step_def)
qed

subsection \<open>Claims\<close>

lemma claim_turn_progress:
  assumes "outbox_ok t" and "claim_turn bus d t = (r, u)"
  shows "outbox_progress t u"
  using assms(2) unfolding claim_turn_def
  by (rule attempted_cases) (use assms(1) outbox_progress_refl claim_progress in blast)+

text \<open>The row a claimed record stands for.\<close>

definition record_row :: "outbox_record \<Rightarrow> outbox_row list \<Rightarrow> bool" where
  "record_row rec t \<longleftrightarrow> (\<exists>r\<in>set t. ob_id r = or_id rec \<and> ob_topic r = or_topic rec \<and> ob_payload r = or_payload rec \<and>
     (or_payload_sha256 rec \<noteq> None \<longrightarrow> ob_payload_sha256 r = or_payload_sha256 rec) \<and> ob_state r \<noteq> NONE)"

lemma claim_turn_records:
  assumes "outbox_ok t" and "claim_turn bus d t = (Inr recs, u)"
  shows "distinct (map or_id recs)" and "rec \<in> set recs \<Longrightarrow> record_row rec u \<and> \<not> in_publication (or_id rec) t"
proof -
  have c: "claim_outbox (db_worker bus) (db_service bus) (db_batch bus) (db_outbox_lease bus) (dt_uuid d) (dt_now d) t
      = Inr (recs, u)"
    using assms(2) by (auto simp: claim_turn_def attempted_def split: option.splits prod.splits sum.splits if_splits)
  from assms(1) c show "distinct (map or_id recs)" by (cases rule: claim_outbox_outcome) simp_all
  assume rec: "rec \<in> set recs"
  from assms(1) c show "record_row rec u \<and> \<not> in_publication (or_id rec) t"
  proof (cases rule: claim_outbox_outcome)
    case (one r)
    let ?p = "publishing_row (db_worker bus) (''dispatch:'' @ dt_uuid d) (dt_now d) (db_outbox_lease bus) r"
    have "?p \<in> set u" using one(1,4) by (auto simp: set_update_where)
    moreover have "rec = record_of_row (''dispatch:'' @ dt_uuid d) ?p" using rec one(3) by simp
    ultimately have "record_row rec u"
      unfolding record_row_def by (intro bexI [of _ ?p]) (simp_all add: record_of_row_def publishing_row_def)
    moreover have "or_id rec = ob_id r" using rec one(3) by (simp add: record_of_row_def publishing_row_def)
    moreover have "\<not> in_publication (ob_id r) t"
      using one(1,2) assms(1) by (auto simp: in_publication_def dispatchable_def outbox_ok_def dest: unique_by_eq)
    ultimately show ?thesis by simp
  qed (use rec in simp)
qed

text \<open>
  The row a message given to a transport comes from: same topic, its document or what the exact claim decoded
  from its canonical text, and a fingerprint that is right for the stored document.
\<close>

definition given_row :: "(string \<Rightarrow> string) \<Rightarrow> given_message \<Rightarrow> outbox_row \<Rightarrow> bool" where
  "given_row sha g r \<longleftrightarrow> ob_id r = gm_id g \<and> ob_topic r = gm_topic g \<and>
     (gm_payload g = ob_payload r \<or> json_loads (canonical_json (ob_payload r)) = Some (gm_payload g)) \<and>
     ob_payload_sha256 r = Some (sha (canonical_json (ob_payload r))) \<and> ob_state r \<noteq> NONE"

definition given_stored :: "(string \<Rightarrow> string) \<Rightarrow> outbox_row list \<Rightarrow> given_message \<Rightarrow> bool" where
  "given_stored sha t g \<longleftrightarrow> (\<exists>r\<in>set t. given_row sha g r)"

lemma given_stored_kept:
  assumes "given_stored sha t g" and "table_le outbox_le t u"
  shows "given_stored sha u g"
proof -
  obtain r where r: "r \<in> set t" "given_row sha g r" using assms(1) by (auto simp: given_stored_def)
  with assms(2) obtain q where q: "q \<in> set u" "outbox_le r q" by (auto dest: table_leD)
  then have "given_row sha g q" using r(2) by (auto simp: given_row_def outbox_le_def)
  with q(1) show ?thesis by (auto simp: given_stored_def)
qed

lemma record_row_kept:
  assumes "record_row rec t" and "table_le outbox_le t u"
  shows "record_row rec u"
proof -
  obtain r where r: "r \<in> set t" "ob_id r = or_id rec" "ob_topic r = or_topic rec" "ob_payload r = or_payload rec"
    "or_payload_sha256 rec \<noteq> None \<longrightarrow> ob_payload_sha256 r = or_payload_sha256 rec" "ob_state r \<noteq> NONE"
    using assms(1) by (auto simp: record_row_def)
  with assms(2) obtain q where q: "q \<in> set u" "outbox_le r q" by (auto dest: table_leD)
  then show ?thesis using r unfolding record_row_def by (intro bexI [of _ q]) (auto simp: outbox_le_def)
qed

lemma sendable_given:
  assumes "record_row rec t" and "sendable sha rec"
  shows "given_stored sha t (given_record rec)"
  using assms
  by (auto simp: record_row_def sendable_def given_stored_def given_row_def given_record_def canonical_payload_Inr
      split: sum.splits)

lemma given_in_publication: "given_stored sha t g \<Longrightarrow> in_publication (gm_id g) t"
  by (auto simp: given_stored_def given_row_def in_publication_def)

lemma record_in_publication: "record_row rec t \<Longrightarrow> in_publication (or_id rec) t"
  by (auto simp: record_row_def in_publication_def)

lemma claim_exact_given:
  assumes "outbox_ok t" and "claim_exact sha req lease_ok i rid lease now audit t = Inr (Claimed c, u)"
  shows "given_stored sha u (given_claim c) \<and> \<not> in_publication (gm_id (given_claim c)) t"
proof -
  define hit where "hit = (\<lambda>r. identity_matches i r \<and> unsettled r \<and> ob_available_at r \<le> now
      \<and> lease_ok r \<and> ob_state r = NONE)"
  obtain r payload digest where r: "select_one hit t = Some r"
      and doc: "canonical_outbox_payload sha (ob_payload r) = Inr (payload, digest)"
      and c: "ec_identity c = i" "ec_payload c = payload" and u: "u = update_where hit (publishing_row rid rid now lease) t"
    using assms(2) unfolding hit_def
    by (auto simp: claim_exact_def Let_def rbind_eq_Inr split: if_splits option.splits)
  have r': "r \<in> set t" "hit r" using r by (auto dest: select_one_SomeD)
  obtain q where q: "exactly_claimable sha i audit t q"
    using assms(2) by (cases rule: claim_exact_outcome) auto
  have "q = r"
    using q r' assms(1) by (auto simp: exactly_claimable_def hit_def identity_matches_def outbox_ok_def dest: unique_by_eq)
  with q doc have "digest = oi_payload_sha256 i"
    by (auto simp: exactly_claimable_def validate_documents_def split: if_splits)
  then have d: "ob_payload_sha256 r = Some (sha (canonical_json (ob_payload r)))"
      "json_loads (canonical_json (ob_payload r)) = Some payload"
    using doc r'(2)
    by (auto simp: hit_def identity_matches_def canonical_outbox_payload_def canonical_dumps_Inr
        split: if_splits sum.splits option.splits)
  have "publishing_row rid rid now lease r \<in> set u" using r' u by (auto simp: set_update_where)
  then have "given_stored sha u (given_claim c)"
    unfolding given_stored_def using d c r'(2)
    by (intro bexI [of _ "publishing_row rid rid now lease r"])
      (auto simp: given_row_def given_claim_def publishing_row_def hit_def identity_matches_def)
  moreover have "\<not> in_publication (oi_id i) t"
    using r' assms(1) by (auto simp: in_publication_def hit_def identity_matches_def outbox_ok_def dest: unique_by_eq)
  ultimately show ?thesis by (simp add: given_claim_def c)
qed

text \<open>What the two exact claims share, for the tools.\<close>

definition exact_claim_ok ::
  "(string \<Rightarrow> string) \<Rightarrow> (exact_claim_result \<times> outbox_row list) res \<Rightarrow> outbox_row list \<Rightarrow> bool" where
  "exact_claim_ok sha claim t \<longleftrightarrow>
     (\<forall>r u. claim = Inr (r, u) \<longrightarrow> outbox_progress t u \<and>
        (\<forall>c. r = Claimed c \<longrightarrow> given_stored sha u (given_claim c) \<and> \<not> in_publication (gm_id (given_claim c)) t))"

lemma exact_claims_ok:
  assumes "outbox_ok t"
  shows "exact_claim_ok sha (claim_ready_outbox_exact sha i rid lease now audit t) t"
    and "exact_claim_ok sha (claim_expired_outbox_exact sha i rid lease now audit t) t"
  unfolding exact_claim_ok_def
  using claim_ready_progress [OF assms] claim_expired_progress [OF assms] claim_exact_given [OF assms]
  by (auto simp: claim_ready_outbox_exact_def claim_expired_outbox_exact_def rbind_eq_Inr)

lemma exact_publish_given:
  assumes "outbox_ok t" and "exact_claim_ok sha claim t" and "exact_publish tool claim i rid env t = (r, u, cs)"
  shows "outbox_progress t u" and "distinct (map (gm_id \<circ> given_claim) cs)"
    and "c \<in> set cs \<Longrightarrow> given_stored sha u (given_claim c) \<and> \<not> in_publication (gm_id (given_claim c)) t"
proof -
  show p: "outbox_progress t u"
    using assms by (intro tool_progress [OF assms(1,3)]) (auto simp: exact_claim_ok_def)
  have cs: "cs = [] \<or> (\<exists>c' t1 x'. cs = [c'] \<and> attempted (te_claim env) claim t = (Inr (Claimed c'), t1) \<and>
      publish_claimed tool i rid c' env t1 = (x', u))"
    using assms(3) by (auto simp: exact_publish_def split: prod.splits sum.splits exact_claim_result.splits)
  then show "distinct (map (gm_id \<circ> given_claim) cs)" by auto
  assume c: "c \<in> set cs"
  with cs obtain t1 x' where 2: "attempted (te_claim env) claim t = (Inr (Claimed c), t1)"
      "publish_claimed tool i rid c env t1 = (x', u)"
    by auto
  then have claim: "claim = Inr (Claimed c, t1)"
    by (auto simp: attempted_def split: option.splits prod.splits sum.splits if_splits)
  have t1: "outbox_progress t t1" using claim assms(2) by (simp add: exact_claim_ok_def)
  have "outbox_progress t1 u" by (rule publish_claimed_progress [OF outbox_progress_ok [OF t1] 2(2)])
  then have le: "table_le outbox_le t1 u" by (simp add: outbox_progress_def)
  have "given_stored sha t1 (given_claim c)" "\<not> in_publication (gm_id (given_claim c)) t"
    using claim assms(2) by (simp_all add: exact_claim_ok_def)
  then show "given_stored sha u (given_claim c) \<and> \<not> in_publication (gm_id (given_claim c)) t"
    using given_stored_kept [OF _ le] by blast
qed

subsection \<open>The invariant of a run\<close>

text \<open>An acknowledged delivery is a completed inbox message of that consumer, topic and fingerprint.\<close>

definition ack_completed :: "inbox_row list \<Rightarrow> acked_message \<Rightarrow> bool" where
  "ack_completed t a \<longleftrightarrow> (\<exists>r\<in>set t. inbox_key r = (am_consumer a, am_message_id a) \<and> ib_status r = COMPLETED_MSG \<and>
     ib_topic r = am_topic a \<and> ib_payload_sha256 r = Some (am_sha256 a))"

lemma ack_completed_kept:
  assumes "ack_completed t a" and "table_le inbox_le t u"
  shows "ack_completed u a"
proof -
  obtain r where r: "r \<in> set t" "inbox_key r = (am_consumer a, am_message_id a)" "ib_status r = COMPLETED_MSG"
      "ib_topic r = am_topic a" "ib_payload_sha256 r = Some (am_sha256 a)"
    using assms(1) by (auto simp: ack_completed_def)
  with assms(2) obtain q where "q \<in> set u" "inbox_le r q" by (auto dest: table_leD)
  with r show ?thesis by (auto simp: ack_completed_def inbox_le_def)
qed

definition flight_ids :: "'b bus_state \<Rightarrow> int list" where
  "flight_ids s = map (or_id \<circ> snd) (bs_flight s)"

definition given_ids :: "'b bus_state \<Rightarrow> int list" where
  "given_ids s = map gm_id (bs_given s)"

definition bus_inv :: "(string \<Rightarrow> string) \<Rightarrow> 'b bus_state \<Rightarrow> bool" where
  "bus_inv sha s \<longleftrightarrow>
     outbox_ok (st_outbox (bs_store s)) \<and> inbox_ok (st_inbox (bs_store s)) \<and>
     distinct (given_ids s @ flight_ids s) \<and>
     (\<forall>g\<in>set (bs_given s). given_stored sha (st_outbox (bs_store s)) g) \<and>
     (\<forall>(b, rec)\<in>set (bs_flight s). record_row rec (st_outbox (bs_store s))) \<and>
     (\<forall>a\<in>set (bs_acked s). ack_completed (st_inbox (bs_store s)) a)"

lemma bus_inv_quiet: "outbox_ok (st_outbox st) \<Longrightarrow> inbox_ok (st_inbox st) \<Longrightarrow> bus_inv sha (quiet st)"
  by (simp add: bus_inv_def quiet_def given_ids_def flight_ids_def)

text \<open>A step that only lets the two tables progress keeps the invariant.\<close>

lemma bus_inv_progress:
  assumes inv: "bus_inv sha s"
    and p: "outbox_progress (st_outbox (bs_store s)) (st_outbox (bs_store s'))"
    and q: "inbox_progress (st_inbox (bs_store s)) (st_inbox (bs_store s'))"
    and same: "bs_flight s' = bs_flight s" "bs_given s' = bs_given s" "bs_acked s' = bs_acked s"
  shows "bus_inv sha s'"
proof -
  note P = p [unfolded outbox_progress_def] q [unfolded inbox_progress_def]
  have "given_stored sha (st_outbox (bs_store s')) g" if "g \<in> set (bs_given s')" for g
    using that inv P same given_stored_kept by (auto simp: bus_inv_def)
  moreover have "record_row rec (st_outbox (bs_store s'))" if "(b, rec) \<in> set (bs_flight s')" for b rec
    using that inv P same record_row_kept by (auto simp: bus_inv_def)
  moreover have "ack_completed (st_inbox (bs_store s')) a" if "a \<in> set (bs_acked s')" for a
    using that inv P same ack_completed_kept by (auto simp: bus_inv_def)
  ultimately show ?thesis using inv P same by (auto simp: bus_inv_def given_ids_def flight_ids_def)
qed

lemma bus_inv_outbox:
  "bus_inv sha s \<Longrightarrow> outbox_progress (st_outbox (bs_store s)) t \<Longrightarrow> bus_inv sha (with_outbox s t)"
  by (rule bus_inv_progress) (auto simp: with_outbox_def bus_inv_def intro: inbox_progress_refl)

lemma bus_inv_store:
  assumes "bus_inv sha s" and "outbox_progress (st_outbox (bs_store s)) (st_outbox st) \<and> st_inbox st = st_inbox (bs_store s)"
  shows "bus_inv sha (s\<lparr>bs_store := st\<rparr>)"
  using assms by (intro bus_inv_progress [OF assms(1)]) (auto simp: bus_inv_def intro: inbox_progress_refl)

text \<open>New messages given to a transport, taken from rows that were not in publication before.\<close>

lemma bus_inv_given:
  assumes inv: "bus_inv sha s" and p: "outbox_progress (st_outbox (bs_store s)) t"
    and "distinct (map gm_id gs)"
    and gs: "\<And>g. g \<in> set gs \<Longrightarrow> given_stored sha t g \<and> \<not> in_publication (gm_id g) (st_outbox (bs_store s))"
  shows "bus_inv sha ((with_outbox s t)\<lparr>bs_given := bs_given s @ gs\<rparr>)"
proof -
  have I: "bus_inv sha (with_outbox s t)" by (rule bus_inv_outbox [OF inv p])
  have "gm_id g \<notin> set (given_ids s @ flight_ids s)" if g: "g \<in> set gs" for g
  proof
    assume "gm_id g \<in> set (given_ids s @ flight_ids s)"
    then have "in_publication (gm_id g) (st_outbox (bs_store s))"
      using inv given_in_publication record_in_publication
      by (fastforce simp: given_ids_def flight_ids_def bus_inv_def)
    with gs [OF g] show False by simp
  qed
  then have "distinct (given_ids s @ map gm_id gs @ flight_ids s)"
    using inv assms(3) by (auto simp: bus_inv_def)
  with I gs show ?thesis
    by (auto simp: bus_inv_def with_outbox_def given_ids_def flight_ids_def)
qed

lemma bus_inv_tool:
  assumes "bus_inv sha s" and "exact_claim_ok sha claim (st_outbox (bs_store s))"
  shows "bus_inv sha (given_by_tool s (exact_publish tool claim i rid env (st_outbox (bs_store s))))"
proof -
  obtain r u cs where e: "exact_publish tool claim i rid env (st_outbox (bs_store s)) = (r, u, cs)"
    by (cases "exact_publish tool claim i rid env (st_outbox (bs_store s))") auto
  have ok: "outbox_ok (st_outbox (bs_store s))" using assms(1) by (simp add: bus_inv_def)
  note g = exact_publish_given [OF ok assms(2) e]
  have "bus_inv sha ((with_outbox s u)\<lparr>bs_given := bs_given s @ map given_claim cs\<rparr>)"
    by (rule bus_inv_given [OF assms(1) g(1)]) (use g(2,3) in auto)
  then show ?thesis by (simp add: given_by_tool_def e)
qed

lemma bus_inv_claim:
  assumes inv: "bus_inv sha s"
  shows "bus_inv sha (bus_step sha (ClaimTurnOp bus d) s)"
proof -
  let ?t = "st_outbox (bs_store s)"
  have ok: "outbox_ok ?t" using inv by (simp add: bus_inv_def)
  obtain r u where c: "claim_turn bus d ?t = (r, u)" by fastforce
  note p = claim_turn_progress [OF ok c]
  note I = bus_inv_outbox [OF inv p]
  show ?thesis
  proof (cases r)
    case (Inl e)
    with c I show ?thesis by simp
  next
    case (Inr recs)
    note k = claim_turn_records [OF ok c [unfolded Inr]]
    have "or_id rec \<notin> set (given_ids s @ flight_ids s)" if rec: "rec \<in> set recs" for rec
    proof
      assume "or_id rec \<in> set (given_ids s @ flight_ids s)"
      then have "in_publication (or_id rec) ?t"
        using inv given_in_publication record_in_publication
        by (fastforce simp: given_ids_def flight_ids_def bus_inv_def)
      with k(2) [OF rec] show False by simp
    qed
    then have "distinct (given_ids s @ flight_ids s @ map or_id recs)"
      using inv k(1) by (auto simp: bus_inv_def)
    moreover have "map (or_id \<circ> snd) (map (Pair bus) recs) = map or_id recs" by simp
    ultimately show ?thesis
      using I k(2) c Inr by (auto simp: bus_inv_def with_outbox_def given_ids_def flight_ids_def comp_def)
  qed
qed

lemma claim_message_identity:
  assumes "claim_message consumer mid topic lease digest now t = Inr (claim, t')"
  shows "\<exists>r\<in>set t'. inbox_key r = (consumer, mid) \<and> ib_topic r = topic \<and> ib_payload_sha256 r = digest \<and>
    (ic_duplicate_completed claim \<longrightarrow> ib_status r = COMPLETED_MSG)"
proof (cases "select_one (\<lambda>r. inbox_key r = (consumer, mid)) t")
  case None
  with assms have "t' = insert_row (fresh_inbox consumer mid topic lease digest now) t" "\<not> ic_duplicate_completed claim"
    by (auto simp: claim_message_def split: if_splits)
  then show ?thesis
    by (intro bexI [of _ "fresh_inbox consumer mid topic lease digest now"]) (auto simp: fresh_inbox_def inbox_key_def)
next
  case (Some r)
  then have r: "r \<in> set t" "inbox_key r = (consumer, mid)" by (auto dest: select_one_SomeD)
  show ?thesis
  proof (cases "reclaimable now r")
    case True
    with assms Some have "t' = update_where (\<lambda>r. inbox_key r = (consumer, mid)) (reclaimed_row lease now) t"
        "\<not> ic_duplicate_completed claim" "ib_topic r = topic" "ib_payload_sha256 r = digest"
      by (auto simp: claim_message_def split: if_splits)
    with r show ?thesis
      by (intro bexI [of _ "reclaimed_row lease now r"])
        (auto simp: set_update_where, auto simp: reclaimed_row_def inbox_key_def)
  next
    case False
    with assms Some r show ?thesis by (intro bexI [of _ r]) (auto simp: claim_message_def split: if_splits)
  qed
qed

lemma transaction_completed:
  assumes ok: "inbox_ok (st_inbox st)" and m: "message_transaction q st = (Inr claim, st')"
    and c: "ic_claimed claim \<or> ic_duplicate_completed claim"
  shows "\<exists>r\<in>set (st_inbox st'). inbox_key r = (tq_consumer q, tq_message_id q) \<and> ib_status r = COMPLETED_MSG \<and>
    ib_topic r = tq_topic q \<and> ib_payload_sha256 r = tq_payload_sha256 q"
proof -
  obtain inbox where claim: "claim_message (tq_consumer q) (tq_message_id q) (tq_topic q) (tq_lease q)
      (tq_payload_sha256 q) (tq_now q) (st_inbox st) = Inr (claim, inbox)"
    using m by (auto simp: message_transaction_def Let_def split: sum.splits prod.splits if_splits)
  obtain r where r: "r \<in> set inbox" "inbox_key r = (tq_consumer q, tq_message_id q)" "ib_topic r = tq_topic q"
      "ib_payload_sha256 r = tq_payload_sha256 q" "ic_duplicate_completed claim \<longrightarrow> ib_status r = COMPLETED_MSG"
    using claim_message_identity [OF claim] by blast
  show ?thesis
  proof (cases "ic_claimed claim")
    case False
    then have "inbox = st_inbox st" "st' = st"
      using claim m ok
      by (auto simp: message_transaction_def tx_context_of_def elim: claim_message_outcome
          dest!: unclaimed_body [rotated] split: sum.splits prod.splits)
    with r c False show ?thesis by blast
  next
    case True
    then have body: "claimed_body (tx_context_of q True) (tq_actions q) (st\<lparr>st_inbox := inbox\<rparr>) = Inr st'"
      using claim m by (auto simp: message_transaction_def fail_message_def Let_def split: sum.splits if_splits)
    have "inbox_ok inbox"
      using ok claim by (cases rule: claim_message_outcome) (use True in \<open>auto simp: inbox_progress_def\<close>)
    then have p: "inbox_progress inbox (st_inbox st')"
      and "\<exists>r\<in>set (st_inbox st'). inbox_key r = (tq_consumer q, tq_message_id q) \<and> ib_status r = COMPLETED_MSG"
      using claimed_body_inbox [OF body] by (simp_all add: tx_context_of_def)
    then obtain z where z: "z \<in> set (st_inbox st')" "inbox_key z = (tq_consumer q, tq_message_id q)"
        "ib_status z = COMPLETED_MSG"
      by blast
    obtain y where y: "y \<in> set (st_inbox st')" "inbox_le r y"
      using p r(1) by (auto simp: inbox_progress_def dest: table_leD)
    then have "inbox_key y = inbox_key z" using r(2) z(2) by (simp add: inbox_le_def)
    then have "y = z" using y(1) z(1) p by (auto simp: inbox_progress_def inbox_ok_def dest: unique_by_eq)
    with y z r show ?thesis by (intro bexI [of _ z]) (auto simp: inbox_le_def)
  qed
qed

lemma bus_inv_deliver:
  assumes inv: "bus_inv sha s"
  shows "bus_inv sha (bus_step sha (DeliverOp bus topic g e steps closing answer now) s)"
proof -
  let ?st = "bs_store s"
  have ok: "inbox_ok (st_inbox ?st)" "outbox_ok (st_outbox ?st)" using inv by (simp_all add: bus_inv_def)
  obtain d ack st' where del: "deliver sha bus topic g e steps closing answer now ?st = (d, ack, st')"
    by (cases "deliver sha bus topic g e steps closing answer now ?st") auto
  have I: "bus_inv sha (s\<lparr>bs_store := st'\<rparr>)"
    using deliver_progress [OF ok del] by (intro bus_inv_progress [OF inv]) simp_all
  have "ack_completed (st_inbox st') (acked_by sha bus topic g e)" if a: ack
    using del
  proof (cases rule: deliver_store)
    case (unit q result mid)
    then obtain claim where "message_transaction q ?st = (Inr claim, st')" "ic_claimed claim \<or> ic_duplicate_completed claim"
      using a by (auto simp: should_ack_def split: sum.splits)
    from transaction_completed [OF ok(1) this] unit(3-8) show ?thesis
      by (auto simp: ack_completed_def acked_by_def)
  qed (use a in simp)
  with I del show ?thesis by (auto simp: bus_inv_def given_ids_def flight_ids_def)
qed

lemma bus_inv_dispatch:
  assumes inv: "bus_inv sha s"
  shows "bus_inv sha (bus_step sha (DispatchOp n env) s)"
proof (cases "length (bs_flight s) \<le> n")
  case False
  let ?t = "st_outbox (bs_store s)"
  obtain bus rec where f: "bs_flight s ! n = (bus, rec)" by fastforce
  obtain r u gave where d: "dispatch_record sha bus rec env ?t = (r, u, gave)"
    by (cases "dispatch_record sha bus rec env ?t") auto
  have split: "bs_flight s = take n (bs_flight s) @ (bus, rec) # drop (Suc n) (bs_flight s)"
    using id_take_nth_drop [of n "bs_flight s"] False f by simp
  have ok: "outbox_ok ?t" using inv by (simp add: bus_inv_def)
  note p = dispatch_record_progress [OF ok d]
  have I: "bus_inv sha (with_outbox s u)" by (rule bus_inv_outbox [OF inv p(1)])
  have "record_row rec u"
    using I split by (auto simp: bus_inv_def with_outbox_def) (metis (no_types, lifting) case_prodD in_set_conv_decomp)
  then have g: "given_stored sha u (given_record rec)" if gave
    using that p(2) by (auto intro: sendable_given)
  have "flight_ids s = map (or_id \<circ> snd) (take n (bs_flight s)) @ or_id rec # map (or_id \<circ> snd) (drop (Suc n) (bs_flight s))"
    unfolding flight_ids_def by (subst split) simp
  moreover have "x \<in> set (bs_flight s)" if "x \<in> set (take n (bs_flight s) @ drop (Suc n) (bs_flight s))" for x
    using that by (auto dest: in_set_takeD in_set_dropD)
  ultimately show ?thesis
    using I f d False g
    by (fastforce simp: bus_inv_def with_outbox_def given_ids_def flight_ids_def given_record_def)
qed (use inv in simp)

lemma bus_step_inv:
  assumes inv: "bus_inv sha s"
  shows "bus_inv sha (bus_step sha op s)"
proof -
  have ok: "outbox_ok (st_outbox (bs_store s))" "inbox_ok (st_inbox (bs_store s))"
    using inv by (simp_all add: bus_inv_def)
  show ?thesis
  proof (cases op)
    case (PublishOp bus nid topic m now)
    show ?thesis unfolding PublishOp bus_step.simps
      by (rule settle_cases) (use inv ok publish_progress bus_inv_store in fastforce)+
  next
    case (WriterOp w nid topic m now)
    show ?thesis unfolding WriterOp bus_step.simps
      by (rule settle_cases) (use inv ok writer_progress bus_inv_store in fastforce)+
  next
    case (UnitOp q)
    obtain r st' where m: "message_transaction q (bs_store s) = (r, st')" by fastforce
    have "store_step q (bs_store s) = st'" by (simp add: store_step_def m)
    then show ?thesis
      using message_transaction_outbox [OF ok(2,1) m] store_step_progress [OF ok(2), of q] UnitOp
      by (auto intro!: bus_inv_progress [OF inv])
  next
    case (TableOp o1)
    with bus_inv_outbox [OF inv outbox_step_progress [OF ok(1)]] show ?thesis by simp
  next
    case (DrainOp i rid env)
    with bus_inv_tool [OF inv exact_claims_ok(1) [OF ok(1)]] show ?thesis by (simp add: drain_exact_def)
  next
    case (ReconcileOp i rid env)
    with bus_inv_tool [OF inv exact_claims_ok(2) [OF ok(1)]] show ?thesis by (simp add: reconcile_def)
  qed (simp_all only: bus_inv_deliver [OF inv] bus_inv_claim [OF inv] bus_inv_dispatch [OF inv])
qed

interpretation bus: invariant_system "bus_step sha" "\<lambda>_. True" "bus_inv sha" for sha
  by unfold_locales (rule bus_step_inv)

subsection \<open>The dispatcher's loop is a run\<close>

lemma run_from_quiet:
  assumes "outbox_ok (st_outbox st)" and "inbox_ok (st_inbox st)"
  shows "bus_inv sha (fold (bus_step sha) ops (quiet st))"
  by (rule bus.run_inv) (use bus_inv_quiet [OF assms] in \<open>simp_all add: list_all_iff\<close>)

lemma dispatch_records_run:
  assumes "dispatch_records sha bus (map (\<lambda>rec. (rec, envs rec)) recs) (st_outbox (bs_store s)) = (r, u, sent)"
    and "bs_flight s = before @ map (Pair bus) recs"
  shows "\<exists>ops left. fold (bus_step sha) ops s = (with_outbox s u)
    \<lparr>bs_flight := before @ left, bs_given := bs_given s @ map given_record sent\<rparr> \<and> (r = Inr () \<longrightarrow> left = [])"
  using assms
proof (induction recs arbitrary: s u sent r)
  case Nil
  then show ?case by (intro exI [of _ "[]"]) (auto simp: with_outbox_def)
next
  case (Cons rec recs)
  obtain r1 t1 gave where d: "dispatch_record sha bus rec (envs rec) (st_outbox (bs_store s)) = (r1, t1, gave)"
    by (cases "dispatch_record sha bus rec (envs rec) (st_outbox (bs_store s))") auto
  let ?g = "if gave then [rec] else []"
  let ?s1 = "(with_outbox s t1)\<lparr>bs_flight := before @ map (Pair bus) recs, bs_given := bs_given s @ map given_record ?g\<rparr>"
  have step: "bus_step sha (DispatchOp (length before) (envs rec)) s = ?s1"
    using Cons.prems(2) d by simp
  show ?case
  proof (cases r1)
    case (Inl e)
    with Cons.prems(1) d have "u = t1" "sent = ?g" "r = Inl e" by auto
    with step show ?thesis
      by (intro exI [of _ "[DispatchOp (length before) (envs rec)]"] exI [of _ "map (Pair bus) recs"]) simp
  next
    case (Inr a)
    then obtain sent' where rest: "dispatch_records sha bus (map (\<lambda>rec. (rec, envs rec)) recs) t1 = (r, u, sent')"
      and sent: "sent = ?g @ sent'"
      using Cons.prems(1) d by (auto split: prod.splits)
    have "dispatch_records sha bus (map (\<lambda>rec. (rec, envs rec)) recs) (st_outbox (bs_store ?s1)) = (r, u, sent')"
      using rest by (simp add: with_outbox_def)
    from Cons.IH [OF this] obtain ops left where "fold (bus_step sha) ops ?s1 = (with_outbox ?s1 u)
        \<lparr>bs_flight := before @ left, bs_given := bs_given ?s1 @ map given_record sent'\<rparr> \<and> (r = Inr () \<longrightarrow> left = [])"
      by auto
    with step sent show ?thesis
      by (intro exI [of _ "DispatchOp (length before) (envs rec) # ops"] exI [of _ left]) (simp add: with_outbox_def)
  qed
qed

subsection \<open>Redelivery\<close>

text \<open>What a transaction wrote is not taken back: audit rows stay, outbox and inbox rows only progress.\<close>

definition writes_kept :: "'b store \<Rightarrow> 'b store \<Rightarrow> bool" where
  "writes_kept st u \<longleftrightarrow> set (st_audit st) \<subseteq> set (st_audit u) \<and>
     table_le outbox_le (st_outbox st) (st_outbox u) \<and> table_le inbox_le (st_inbox st) (st_inbox u)"

lemma audit_grows:
  "insert_audit row t = (b, t') \<Longrightarrow> set t \<subseteq> set t'"
  "append_payload topic payload t = Inr (b, t') \<Longrightarrow> set t \<subseteq> set t'"
  "append_event topic m t = Inr (b, t') \<Longrightarrow> set t \<subseteq> set t'"
proof -
  show ins: "set t \<subseteq> set t'" if "insert_audit row t = (b, t')" for row b t'
    using that by (auto simp: insert_audit_def insert_row_def split: if_splits)
  show "set t \<subseteq> set t'" if "append_payload topic payload t = Inr (b, t')"
    using that by (rule append_payload_outcome) (erule ins)
  show "set t \<subseteq> set t'" if "append_event topic m t = Inr (b, t')"
    using that ins by (auto simp: append_event_def rbind_eq_Inr)
qed

lemmas audit_member = audit_grows [THEN subsetD]

lemma append_strict_grows: "append_payload_strict sha topic payload text digest t = Inr (b, t') \<Longrightarrow> set t \<subseteq> set t'"
  by (auto simp: append_payload_strict_def rbind_eq_Inr dest: audit_member(2) split: option.splits if_splits)

lemma run_actions_audit:
  "run_actions c acts (b, st) = Inr (b', st') \<Longrightarrow> set (st_audit st) \<subseteq> set (st_audit st')"
proof (induction acts arbitrary: b st)
  case (Cons a acts)
  then obtain b1 st1 where a: "run_action c a (b, st) = Inr (b1, st1)" and "run_actions c acts (b1, st1) = Inr (b', st')"
    by (auto simp: rbind_eq_Inr)
  with Cons.IH have "set (st_audit st1) \<subseteq> set (st_audit st')" by blast
  moreover have "set (st_audit st) \<subseteq> set (st_audit st1)"
    using a by (cases a) (auto simp: rbind_eq_Inr dest: audit_member split: if_splits)
  ultimately show ?case by blast
qed simp

lemma transaction_audit:
  assumes "inbox_ok (st_inbox st)" and "message_transaction q st = (r, st')"
  shows "set (st_audit st) \<subseteq> set (st_audit st')"
  using assms
proof (cases rule: message_transaction_outcome)
  case (committed claim inbox)
  then obtain b where "run_actions (tx_context_of q True) (tq_actions q) (False, st\<lparr>st_inbox := inbox\<rparr>) = Inr (b, st')"
    by (auto simp: claimed_body_def rbind_eq_Inr split: if_splits)
  from run_actions_audit [OF this] show ?thesis by simp
qed auto

lemma publish_audit: "publish sha bus nid topic m now st = Inr (x, st') \<Longrightarrow> set (st_audit st) \<subseteq> set (st_audit st')"
  by (auto simp: publish_def publish_tx_def rbind_eq_Inr dest: audit_member(2) split: if_splits)

lemma writer_audit: "writer_append sha w nid topic m now st = Inr (x, st') \<Longrightarrow> set (st_audit st) \<subseteq> set (st_audit st')"
  by (auto simp: writer_append_def rbind_eq_Inr dest: append_strict_grows [THEN subsetD] split: if_splits)

lemma kept_outbox:
  "inbox_ok (st_inbox (bs_store s)) \<Longrightarrow> outbox_progress (st_outbox (bs_store s)) t \<Longrightarrow>
    writes_kept (bs_store s) (bs_store (with_outbox s t))"
  by (simp add: writes_kept_def with_outbox_def outbox_progress_def table_le_refl)

lemma kept_store:
  "set (st_audit st) \<subseteq> set (st_audit st') \<Longrightarrow> outbox_progress (st_outbox st) (st_outbox st') \<Longrightarrow>
    inbox_progress (st_inbox st) (st_inbox st') \<Longrightarrow> writes_kept st st'"
  by (simp add: writes_kept_def outbox_progress_def inbox_progress_def)

lemma kept_refl: "writes_kept st st"
  by (simp add: writes_kept_def table_le_refl)

lemma kept_trans: "writes_kept a b \<Longrightarrow> writes_kept b c \<Longrightarrow> writes_kept a c"
  using table_le_trans [of outbox_le "st_outbox a" "st_outbox b" "st_outbox c"] outbox_le_trans
    table_le_trans [of inbox_le "st_inbox a" "st_inbox b" "st_inbox c"] inbox_le_trans
  by (auto simp: writes_kept_def)

lemma deliver_keeps:
  assumes "inbox_ok (st_inbox st)" and "outbox_ok (st_outbox st)"
    and "deliver sha bus topic g e steps closing answer now st = (d, ack, st')"
  shows "writes_kept st st'"
proof -
  have "set (st_audit st) \<subseteq> set (st_audit st')"
    using assms(3) by (cases rule: deliver_store) (auto dest: transaction_audit [OF assms(1)])
  with deliver_progress [OF assms] show ?thesis by (auto intro: kept_store)
qed

lemma tool_keeps:
  assumes "bus_inv sha s" and "exact_claim_ok sha claim (st_outbox (bs_store s))"
  shows "writes_kept (bs_store s) (bs_store (given_by_tool s (exact_publish tool claim i rid env (st_outbox (bs_store s)))))"
proof -
  obtain r u cs where e: "exact_publish tool claim i rid env (st_outbox (bs_store s)) = (r, u, cs)"
    by (cases "exact_publish tool claim i rid env (st_outbox (bs_store s))") auto
  have ok: "outbox_ok (st_outbox (bs_store s))" "inbox_ok (st_inbox (bs_store s))" using assms(1) by (simp_all add: bus_inv_def)
  from kept_outbox [OF ok(2) exact_publish_given(1) [OF ok(1) assms(2) e]] show ?thesis
    by (simp add: given_by_tool_def e)
qed

lemma bus_step_keeps:
  assumes inv: "bus_inv sha s"
  shows "writes_kept (bs_store s) (bs_store (bus_step sha op s))"
proof -
  have ok: "outbox_ok (st_outbox (bs_store s))" "inbox_ok (st_inbox (bs_store s))"
    using inv by (simp_all add: bus_inv_def)
  note inbox_same = inbox_progress_refl [OF ok(2)]
  show ?thesis
  proof (cases op)
    case (PublishOp bus nid topic m now)
    have "writes_kept (bs_store s) (settle (bs_store s) (publish sha bus nid topic m now (bs_store s)))"
      by (rule settle_cases, rule kept_refl)
        (use publish_audit publish_progress [OF ok(1)] inbox_same in \<open>fastforce intro: kept_store\<close>)
    then show ?thesis by (simp add: PublishOp)
  next
    case (WriterOp w nid topic m now)
    have "writes_kept (bs_store s) (settle (bs_store s) (writer_append sha w nid topic m now (bs_store s)))"
      by (rule settle_cases, rule kept_refl)
        (use writer_audit writer_progress [OF ok(1)] inbox_same in \<open>fastforce intro: kept_store\<close>)
    then show ?thesis by (simp add: WriterOp)
  next
    case (UnitOp q)
    obtain r st' where m: "message_transaction q (bs_store s) = (r, st')" by fastforce
    have "store_step q (bs_store s) = st'" by (simp add: store_step_def m)
    with message_transaction_outbox [OF ok(2,1) m] store_step_progress [OF ok(2), of q] transaction_audit [OF ok(2) m]
    show ?thesis by (simp add: UnitOp kept_store)
  next
    case (DeliverOp bus topic g e steps closing answer now)
    then show ?thesis using deliver_keeps [OF ok(2,1)] by (auto split: prod.splits)
  next
    case (ClaimTurnOp bus d)
    obtain r u where c: "claim_turn bus d (st_outbox (bs_store s)) = (r, u)" by fastforce
    with ClaimTurnOp kept_outbox [OF ok(2) claim_turn_progress [OF ok(1) c]] show ?thesis by (cases r) simp_all
  next
    case (DispatchOp n env)
    show ?thesis
    proof (cases "length (bs_flight s) \<le> n")
      case False
      obtain bus rec where f: "bs_flight s ! n = (bus, rec)" by fastforce
      obtain r u gave where d: "dispatch_record sha bus rec env (st_outbox (bs_store s)) = (r, u, gave)"
        by (cases "dispatch_record sha bus rec env (st_outbox (bs_store s))") auto
      from kept_outbox [OF ok(2) dispatch_record_progress(1) [OF ok(1) d]] False f d show ?thesis
        by (simp add: DispatchOp)
    qed (simp add: DispatchOp kept_refl)
  next
    case (TableOp o1)
    with kept_outbox [OF ok(2) outbox_step_progress [OF ok(1)]] show ?thesis by simp
  next
    case (DrainOp i rid env)
    with tool_keeps [OF inv exact_claims_ok(1) [OF ok(1)]] show ?thesis by (simp add: drain_exact_def)
  next
    case (ReconcileOp i rid env)
    with tool_keeps [OF inv exact_claims_ok(2) [OF ok(1)]] show ?thesis by (simp add: reconcile_def)
  qed
qed

interpretation durable: monotone_system "bus_step sha" "bus_inv sha" "\<lambda>s s'. writes_kept (bs_store s) (bs_store s')" for sha
  by unfold_locales (auto intro: bus_step_inv bus_step_keeps kept_refl kept_trans)

text \<open>How a turn ends whose transport is asked to acknowledge.\<close>

definition answered :: "unit res \<Rightarrow> delivered" where
  "answered answer = (case answer of Inl err \<Rightarrow> Stopped err | Inr _ \<Rightarrow> Acked)"

text \<open>
  A delivery of a completed message: acknowledged when it is the message that was completed, and refused when its id
  stands for another topic or document.
\<close>

lemma completed_delivery:
  assumes ok: "inbox_ok (st_inbox st)" and r: "r \<in> set (st_inbox st)" "ib_status r = COMPLETED_MSG"
    "inbox_key r = (durable_consumer bus g, mid)" and mid: "message_identity (en_payload e) = Inr mid"
    and hex: "\<And>x. sha256_hex (sha x)"
  shows "deliver sha bus topic g e steps closing answer now st =
    (case canonical_payload sha (en_payload e) of
       Inl err \<Rightarrow> (Stopped err, False, st)
     | Inr (enc, digest) \<Rightarrow>
         if topic = ib_topic r \<and> ib_payload_sha256 r = Some digest then (answered answer, True, st)
         else (Stopped (MessageIdentityConflict ''message_id was reused with different topic or payload''), False, st))"
proof (cases "canonical_payload sha (en_payload e)")
  case (Inl err)
  with mid show ?thesis by (simp add: deliver_def)
next
  case (Inr x)
  obtain enc digest where x: "x = (enc, digest)" by fastforce
  then have "sha256_hex digest" using Inr hex by (simp add: canonical_payload_Inr)
  moreover have "select_one (\<lambda>p. inbox_key p = (durable_consumer bus g, mid)) (st_inbox st) = Some r"
    using select_one_unique [of inbox_key "st_inbox st" r] ok r by (simp add: inbox_ok_def)
  moreover define same where "same \<longleftrightarrow> topic = ib_topic r \<and> ib_payload_sha256 r = Some digest"
  ultimately have claim: "claim_message (durable_consumer bus g) mid topic (db_inbox_lease bus) (Some digest) now (st_inbox st) =
    (if same
     then Inr (\<lparr>ic_claimed = False, ic_duplicate_completed = True, ic_attempts = 0\<rparr>, st_inbox st)
     else Inl (MessageIdentityConflict ''message_id was reused with different topic or payload''))"
    using r(2) by (auto simp: claim_message_def reclaimable_def)
  have "deliver sha bus topic g e steps closing answer now st = (if same then (answered answer, True, st)
      else (Stopped (MessageIdentityConflict ''message_id was reused with different topic or payload''), False, st))"
    using mid Inr x
    by (simp add: deliver_def delivery_request_def message_transaction_def Let_def claim should_ack_def turn_end_def not_acked_def
        answered_def)
  then show ?thesis by (simp add: Inr x same_def)
qed

subsection \<open>Rewritten documents\<close>

text \<open>The row of a new message: the document as JSONB keeps it, under the fingerprint of the text it was given.\<close>

lemma publish_new_row:
  assumes "publish sha bus nid topic (Document kvs) now st = Inr (mid, st1)" and "json_wf (JObj kvs)"
    and "mid \<notin> ob_message_id ` set (st_outbox st)"
  shows "st_outbox st1 = insert_row (fresh_outbox nid mid topic (jsonb_value (JObj kvs))
    (sha (canonical_json (JObj kvs))) (db_service bus) now) (st_outbox st)"
proof -
  let ?p = "JObj kvs"
  obtain b where enq: "enqueue_outbox nid mid topic (canonical_json ?p) (sha (canonical_json ?p)) (db_service bus) now
      (st_outbox st) = Inr (b, st_outbox st1)"
    using assms(1)
    by (auto simp: publish_def publish_tx_def durable_message_of_def publishable_payload_def canonical_payload_Inr
        rbind_eq_Inr split: if_splits)
  have "select_one (\<lambda>r. ob_message_id r = mid) (st_outbox st) = None"
    using assms(3) by (auto simp: select_one_None_iff)
  with enq assms(2) show ?thesis
    by (auto simp: enqueue_outbox_def rbind_eq_Inr text_to_jsonb_canonical to_jsonb_def split: if_splits)
qed

text \<open>A record just claimed whose fingerprint is wrong is not sent, and its row's outcome is unknown.\<close>

lemma mismatch_quarantined:
  assumes ok: "outbox_ok t" and claim: "claim_turn bus d t = (Inr [rec], t1)"
    and bad: "\<not> sendable sha rec" and env: "de_unknown env = None"
    and r: "r \<in> set t" "ob_id r = or_id rec" "ob_payload_sha256 r \<noteq> None"
  shows "\<exists>t2 r2. dispatch_record sha bus rec env t1 = (Inr (), t2, False) \<and> stuck_unknown r2 t2 \<and>
    ob_message_id r2 = ob_message_id r"
proof -
  let ?rid = "''dispatch:'' @ dt_uuid d"
  let ?pub = "publishing_row (db_worker bus) ?rid (dt_now d) (db_outbox_lease bus)"
  let ?held = "held_claim rec (db_worker bus)"
  let ?unknown = "unknown_row ''automatic_dispatch:PRE_PUBLISH_HASH_MISMATCH'' (de_now env)"
  have c: "claim_outbox (db_worker bus) (db_service bus) (db_batch bus) (db_outbox_lease bus) (dt_uuid d) (dt_now d) t
      = Inr ([rec], t1)"
    using claim by (auto simp: claim_turn_def attempted_def split: option.splits prod.splits sum.splits if_splits)
  from ok c obtain q where q: "q \<in> set t" "dispatchable (db_service bus) (dt_now d) t q"
      "rec = record_of_row ?rid (?pub q)" "t1 = update_where (\<lambda>p. ob_id p = ob_id q) ?pub t"
    by (cases rule: claim_outbox_outcome) auto
  have "q = r"
    using q(1,3) r(1,2) ok by (auto simp: record_of_row_def publishing_row_def outbox_ok_def dest: unique_by_eq)
  note q = q [unfolded this]
  have r1: "?pub r \<in> set t1" using q by (auto simp: set_update_where)
  have held: "?held (?pub r)"
    using q(2,3) by (simp add: held_claim_def record_of_row_def publishing_row_def unsettled_def dispatchable_def)
  have out: "dispatch_record sha bus rec env t1 = (Inr (), update_where ?held ?unknown t1, False)"
    using env bad by (simp add: dispatch_record_def given_up_def mark_outbox_unknown_def attempted_def
        mark_outbox_publish_outcome_unknown_def unknown_reasons_def)
  have "outbox_ok t1" by (rule outbox_progress_ok [OF claim_turn_progress [OF ok claim]])
  from outbox_progress_ok [OF dispatch_record_progress(1) [OF this out]]
  have "stuck_unknown (?unknown (?pub r)) (update_where ?held ?unknown t1)"
    using r(3) r1 held by (auto simp: stuck_unknown_def set_update_where, auto simp: unknown_row_def publishing_row_def)
  with out show ?thesis
    by (intro exI [of _ "update_where ?held ?unknown t1"] exI [of _ "?unknown (?pub r)"])
      (simp add: unknown_row_def publishing_row_def)
qed

lemma claimed_record_row:
  assumes ok: "outbox_ok t" and claim: "claim_turn bus d t = (Inr [rec], t1)"
    and r: "r \<in> set t" and "ob_message_id r = or_message_id rec"
  shows "or_id rec = ob_id r \<and> or_payload rec = ob_payload r \<and> or_payload_sha256 rec = ob_payload_sha256 r"
proof -
  have "claim_outbox (db_worker bus) (db_service bus) (db_batch bus) (db_outbox_lease bus) (dt_uuid d) (dt_now d) t
      = Inr ([rec], t1)"
    using claim by (auto simp: claim_turn_def attempted_def split: option.splits prod.splits sum.splits if_splits)
  with ok obtain q rid where q: "q \<in> set t"
      "rec = record_of_row rid (publishing_row (db_worker bus) rid (dt_now d) (db_outbox_lease bus) q)"
    by (cases rule: claim_outbox_outcome) auto
  then have "q = r" using ok r assms(4) by (auto simp: record_of_row_def publishing_row_def outbox_ok_def dest: unique_by_eq)
  with q show ?thesis by (simp add: record_of_row_def publishing_row_def)
qed

lemma stuck_blocks:
  assumes stuck: "stuck_unknown r t" and ops: "list_all (\<lambda>op. \<not> resolves r op) ops"
    and u: "u = fold (outbox_step sha) ops t" and j: "ob_id q \<in> set (handed_out sha op u)"
    and q: "q \<in> set u" "ob_producer q = ob_producer r"
  shows "ob_id q \<le> ob_id r"
proof -
  have "stuck_unknown r u" unfolding u by (rule unknown.run_inv [OF ops stuck])
  then have s: "outbox_ok u" "r \<in> set u" "ob_state r = PUBLISH_OUTCOME_UNKNOWN" by (simp_all add: stuck_unknown_def)
  then have "unsettled r" by (auto simp: unsettled_def outbox_ok_def outbox_check_def)
  moreover obtain z where z: "head_of_line (ob_id q) u z" using handed_out_head [OF s(1) j] by blast
  moreover have "z = q" using z q(1) s(1) by (auto simp: head_of_line_def outbox_ok_def dest: unique_by_eq)
  ultimately show ?thesis
    using s(2) q(2) by (fastforce simp: head_of_line_def unsettled_before_def list_ex_iff)
qed

section \<open>Properties\<close>

text \<open>
  C3. Every publication the code performs is of a row taken once: in any run of publishers, subscriptions,
  dispatchers, offline tools and recovery operations no outbox row is given to a transport twice, and each
  message given to it has the topic and the document of its row, whose stored fingerprint is the right one.
\<close>

theorem transport_given_once:
  assumes "outbox_ok (st_outbox st)" and "inbox_ok (st_inbox st)"
    and "s = fold (bus_step sha) ops (quiet st)"
  shows "distinct (map gm_id (bs_given s)) \<and>
    (\<forall>g\<in>set (bs_given s). \<exists>r\<in>set (st_outbox (bs_store s)). given_row sha g r)"
  using run_from_quiet [OF assms(1,2), of sha ops] assms(3)
  by (auto simp: bus_inv_def given_ids_def given_stored_def)

text \<open>
  The dispatcher's loop, with its early exits, cancellations and failed calls, is a run of claim and dispatch
  steps that gives the transport exactly what the loop gives it, so what holds of runs holds of the loop.
\<close>

theorem dispatch_loop_is_run:
  assumes "dispatch_outbox sha bus turns (st_outbox (bs_store s)) = (r, u, sent)"
  shows "\<exists>ops left. fold (bus_step sha) ops s = (with_outbox s u)
    \<lparr>bs_flight := bs_flight s @ left, bs_given := bs_given s @ map given_record sent\<rparr>"
  using assms
proof (induction turns arbitrary: s r u sent)
  case Nil
  then show ?case by (intro exI [of _ "[]"]) (auto simp: with_outbox_def)
next
  case (Cons d turns)
  obtain c t1 where c: "claim_turn bus d (st_outbox (bs_store s)) = (c, t1)" by fastforce
  show ?case
  proof (cases "dt_closing d")
    case True
    with Cons.prems show ?thesis by (intro exI [of _ "[]"]) (auto simp: with_outbox_def)
  next
    case False
    show ?thesis
    proof (cases c)
      case (Inl e)
      with Cons.prems c False show ?thesis
        by (intro exI [of _ "[ClaimTurnOp bus d]"] exI [of _ "[]"]) (auto simp: with_outbox_def)
    next
      case (Inr recs)
      let ?s1 = "(with_outbox s t1)\<lparr>bs_flight := bs_flight s @ map (Pair bus) recs\<rparr>"
      have step: "bus_step sha (ClaimTurnOp bus d) s = ?s1" using c Inr by simp
      obtain r2 t2 sent2 where
        d: "dispatch_records sha bus (map (\<lambda>rec. (rec, dt_env d rec)) recs) (st_outbox (bs_store ?s1)) = (r2, t2, sent2)"
        by (cases "dispatch_records sha bus (map (\<lambda>rec. (rec, dt_env d rec)) recs) (st_outbox (bs_store ?s1))") auto
      obtain ops left where run: "fold (bus_step sha) ops ?s1 = (with_outbox ?s1 t2)
          \<lparr>bs_flight := bs_flight s @ left, bs_given := bs_given ?s1 @ map given_record sent2\<rparr>"
        and left: "r2 = Inr () \<longrightarrow> left = []"
        using dispatch_records_run [OF d, of "bs_flight s"] by auto
      let ?s2 = "(with_outbox s t2)\<lparr>bs_flight := bs_flight s @ left, bs_given := bs_given s @ map given_record sent2\<rparr>"
      have two: "fold (bus_step sha) (ClaimTurnOp bus d # ops) s = ?s2"
        using step run by (simp add: with_outbox_def)
      show ?thesis
      proof (cases r2)
        case (Inl e)
        with Cons.prems c Inr d False have "u = t2" "sent = sent2" by (auto simp: with_outbox_def)
        with two show ?thesis by blast
      next
        case Inr2: (Inr a)
        then have none: "left = []" using left by simp
        obtain sent3 where rest: "dispatch_outbox sha bus turns (st_outbox (bs_store ?s2)) = (r, u, sent3)"
          and sent: "sent = sent2 @ sent3"
          using Cons.prems c Inr d False Inr2 by (auto simp: with_outbox_def split: prod.splits)
        from Cons.IH [OF rest] obtain ops3 left3 where "fold (bus_step sha) ops3 ?s2 = (with_outbox ?s2 u)
            \<lparr>bs_flight := bs_flight ?s2 @ left3, bs_given := bs_given ?s2 @ map given_record sent3\<rparr>"
          by blast
        with two none sent have "fold (bus_step sha) ((ClaimTurnOp bus d # ops) @ ops3) s = (with_outbox s u)
            \<lparr>bs_flight := bs_flight s @ left3, bs_given := bs_given s @ map given_record sent\<rparr>"
          unfolding fold_append comp_apply two by (simp add: with_outbox_def)
        then show ?thesis by blast
      qed
    qed
  qed
qed

text \<open>
  C4. The transport is asked to acknowledge a delivery only after its inbox record was committed as completed; from then
  on, whatever runs in between, the record stays completed and nothing the delivery wrote to the audit log or the
  outbox is taken back. A redelivery of the message to the consumer, under any transport id and with any handler,
  changes no table and the transport is asked to acknowledge it again; the turn ends as the transport answers. Any
  other document or topic under the same message id is refused as a reused identity and changes no table either. That
  \<open>hexdigest()\<close> is 64 lower-case hexadecimal digits is the hypothesis on \<open>sha\<close>.
\<close>

theorem acked_delivery_final:
  assumes "outbox_ok (st_outbox st)" and "inbox_ok (st_inbox st)" and "\<And>x. sha256_hex (sha x)"
    and "s = fold (bus_step sha) ops (quiet st)"
    and "deliver sha bus topic g e steps closing answer now (bs_store s) = (d, True, st1)"
    and "u = bs_store (fold (bus_step sha) ops' (bus_step sha (DeliverOp bus topic g e steps closing answer now) s))"
    and "durable_consumer bus' g' = durable_consumer bus g"
    and "message_identity (en_payload e') = message_identity (en_payload e)"
  shows "writes_kept st1 u \<and>
    (\<exists>r\<in>set (st_inbox u). ib_consumer r = durable_consumer bus g \<and> message_identity (en_payload e) = Inr (ib_message_id r) \<and>
       ib_status r = COMPLETED_MSG) \<and>
    deliver sha bus' topic g' (e\<lparr>en_id := tid\<rparr>) steps' closing' answer' now' u = (answered answer', True, u) \<and>
    deliver sha bus' topic' g' e' steps' closing' answer' now' u =
      (case canonical_payload sha (en_payload e') of
         Inl err \<Rightarrow> (Stopped err, False, u)
       | Inr (enc, digest) \<Rightarrow>
           if topic' = topic \<and> digest = sha (canonical_json (en_payload e)) then (answered answer', True, u)
           else (Stopped (MessageIdentityConflict ''message_id was reused with different topic or payload''), False, u))"
proof -
  let ?op = "DeliverOp bus topic g e steps closing answer now"
  let ?a = "acked_by sha bus topic g e"
  obtain mid enc digest where mid: "message_identity (en_payload e) = Inr mid" and c: "canonical_payload sha (en_payload e) = Inr (enc, digest)"
    using assms(5) by (auto simp: deliver_def split: sum.splits)
  have digest: "digest = sha (canonical_json (en_payload e))" using c by (simp add: canonical_payload_Inr)
  have inv: "bus_inv sha s" using run_from_quiet [OF assms(1,2)] assms(4) by simp
  then have inv1: "bus_inv sha (bus_step sha ?op s)" by (rule bus_step_inv)
  have st1: "bs_store (bus_step sha ?op s) = st1" "?a \<in> set (bs_acked (bus_step sha ?op s))" using assms(5) by simp_all
  have kept: "writes_kept st1 u" using durable.run_le [OF inv1] assms(6) st1(1) by simp
  have "bus_inv sha (fold (bus_step sha) ops' (bus_step sha ?op s))" using inv1 by (rule durable.reach_inv)
  then have ok: "inbox_ok (st_inbox u)" using assms(6) by (simp add: bus_inv_def)
  have "ack_completed (st_inbox st1) ?a" using inv1 st1 by (simp add: bus_inv_def)
  with kept have "ack_completed (st_inbox u) ?a" by (auto simp: writes_kept_def intro: ack_completed_kept)
  then obtain r where r: "r \<in> set (st_inbox u)" "inbox_key r = (durable_consumer bus g, mid)" "ib_status r = COMPLETED_MSG"
      "ib_topic r = topic" "ib_payload_sha256 r = Some digest"
    by (auto simp: ack_completed_def acked_by_def mid digest)
  have key: "inbox_key r = (durable_consumer bus' g', mid)" using r(2) assms(7) by simp
  note again = completed_delivery [OF ok r(1,3) key _ assms(3)]
  have "deliver sha bus' topic g' (e\<lparr>en_id := tid\<rparr>) steps' closing' answer' now' u = (answered answer', True, u)"
    by (subst again) (simp_all add: mid c r(4,5))
  moreover have "deliver sha bus' topic' g' e' steps' closing' answer' now' u =
      (case canonical_payload sha (en_payload e') of
         Inl err \<Rightarrow> (Stopped err, False, u)
       | Inr (enc, digest) \<Rightarrow>
           if topic' = topic \<and> digest = sha (canonical_json (en_payload e)) then (answered answer', True, u)
           else (Stopped (MessageIdentityConflict ''message_id was reused with different topic or payload''), False, u))"
    by (subst again) (use assms(8) mid r(4,5) digest in \<open>auto split: sum.splits\<close>)
  ultimately show ?thesis using kept r mid by (auto simp: inbox_key_def)
qed

text \<open>
  A delivery whose acknowledgement is not requested of the transport has published nothing and written
  nothing: audit log, outbox and business tables are as before, and the inbox is as before or records the failure,
  so the message can be delivered again; a first delivery that is acknowledged was committed with its inbox record.
\<close>

theorem unacked_delivery_leaves_nothing:
  assumes "inbox_ok (st_inbox st)"
    and "deliver sha bus topic g e steps closing answer now st = (d, ack, st')"
  shows "if ack then \<exists>r\<in>set (st_inbox st'). ib_consumer r = durable_consumer bus g \<and> ib_status r = COMPLETED_MSG \<and>
             message_identity (en_payload e) = Inr (ib_message_id r)
         else st' = st \<or> (\<exists>inbox. st' = st\<lparr>st_inbox := inbox\<rparr> \<and>
             (\<exists>r\<in>set inbox. ib_consumer r = durable_consumer bus g \<and> ib_status r = FAILED))"
  using assms(2)
proof (cases rule: deliver_store)
  case (unit q result mid)
  show ?thesis
  proof (cases ack)
    case True
    then obtain claim where "message_transaction q st = (Inr claim, st')" "ic_claimed claim \<or> ic_duplicate_completed claim"
      using unit(1,2) by (auto simp: should_ack_def split: sum.splits)
    from transaction_completed [OF assms(1) this] unit True show ?thesis by (auto simp: inbox_key_def)
  next
    case False
    from assms(1) unit(1) show ?thesis
    proof (cases rule: message_transaction_outcome)
      case (committed claim inbox)
      with False unit(2) show ?thesis by (simp add: should_ack_def)
    next
      case (failed err inbox)
      with False unit show ?thesis by (auto simp: inbox_key_def)
    qed (use False in simp)
  qed
qed simp

text \<open>
  C33. A number that JSONB rewrites stops its producer: \<open>publish\<close> stores the fingerprint of the text it was given
  and the row keeps the rewritten document, so the dispatcher that claims the row finds a wrong fingerprint, gives
  nothing to the transport and leaves the row with an unknown outcome; from then on, whatever operations on the outbox
  follow, unless one of them brings Redis evidence of that very message, the row stays exactly as it is, with its outcome
  unknown, and no later row of the producer is handed out to any dispatcher or tool.
\<close>

theorem rewritten_payload_blocks_producer:
  assumes "outbox_ok (st_outbox st)" and "json_wf (JObj kvs)"
    and "publish sha bus nid topic (Document kvs) now st = Inr (mid, st1)"
    and "mid \<notin> ob_message_id ` set (st_outbox st)"
    and rewritten: "sha (canonical_json (jsonb_value (JObj kvs))) \<noteq> sha (canonical_json (JObj kvs))"
    and t: "t = fold (outbox_step sha) before (st_outbox st1)"
    and claim: "claim_turn bus d t = (Inr [rec], t1)" and rec: "or_message_id rec = mid"
    and env: "de_unknown env = None"
  shows "\<exists>t2 r. dispatch_record sha bus rec env t1 = (Inr (), t2, False) \<and>
    r \<in> set t2 \<and> ob_message_id r = mid \<and> ob_state r = PUBLISH_OUTCOME_UNKNOWN \<and>
    (\<forall>ops. list_all (\<lambda>op. \<not> resolves r op) ops \<longrightarrow> r \<in> set (fold (outbox_step sha) ops t2) \<and>
       (\<forall>op q. q \<in> set (fold (outbox_step sha) ops t2) \<longrightarrow> ob_producer q = ob_producer r \<longrightarrow>
          ob_id q \<in> set (handed_out sha op (fold (outbox_step sha) ops t2)) \<longrightarrow> ob_id q \<le> ob_id r))"
proof -
  let ?p = "JObj kvs"
  let ?r0 = "fresh_outbox nid mid topic (jsonb_value ?p) (sha (canonical_json ?p)) (db_service bus) now"
  have new: "st_outbox st1 = insert_row ?r0 (st_outbox st)" by (rule publish_new_row [OF assms(3,2,4)])
  have ok0: "outbox_ok (st_outbox st1)"
    using publish_progress [OF assms(1,3)] by (simp add: outbox_progress_def)
  have ok: "outbox_ok t" and "table_le outbox_le (st_outbox st1) t"
    unfolding t by (rule outbox.reach_inv [OF ok0], rule outbox.run_le [OF ok0])
  then obtain r where r: "r \<in> set t" "outbox_le ?r0 r" using new by (auto dest!: table_leD [where r = ?r0])
  then have r': "ob_message_id r = mid" "ob_payload r = jsonb_value ?p" "ob_payload_sha256 r = Some (sha (canonical_json ?p))"
    by (simp_all add: outbox_le_def fresh_outbox_def)
  have row: "or_id rec = ob_id r \<and> or_payload rec = ob_payload r \<and> or_payload_sha256 rec = ob_payload_sha256 r"
    by (rule claimed_record_row [OF ok claim r(1)]) (simp add: rec r'(1))
  have "\<not> sendable sha rec"
    using row r' rewritten by (auto simp: sendable_def canonical_payload_Inr split: sum.splits)
  from mismatch_quarantined [OF ok claim this env r(1)] row r' obtain t2 r2 where
    d: "dispatch_record sha bus rec env t1 = (Inr (), t2, False)" "ob_message_id r2 = mid" and stuck: "stuck_unknown r2 t2"
    by auto
  have "r2 \<in> set (fold (outbox_step sha) ops t2)" if "list_all (\<lambda>op. \<not> resolves r2 op) ops" for ops
    using unknown.run_inv [OF that stuck] by (simp add: stuck_unknown_def)
  with d stuck stuck_blocks [OF stuck] show ?thesis unfolding stuck_unknown_def by blast
qed

subsection \<open>Witnesses\<close>

text \<open>A stand-in hash: the parity of the minus signs of a text.\<close>

definition minus_sha :: "string \<Rightarrow> string" where
  "minus_sha s = replicate 63 (CHR ''0'') @
     [if foldr (\<lambda>c b. (c = CHR ''-'') \<noteq> b) s False then CHR ''a'' else CHR ''b'']"

definition sample_bus :: durable_bus where
  "sample_bus = \<lparr>db_service = ''risk'', db_consumer_only = False, db_worker = ''host:risk:1'', db_inbox_lease = 180,
     db_outbox_lease = 30, db_batch = 100\<rparr>"

definition sample_message :: "string \<Rightarrow> json \<Rightarrow> (string \<times> json) list" where
  "sample_message mid x = [(''message_id'', JStr mid), (''produced_at'', JStr ''2026-01-01T00:00:00Z''),
     (''schema_version'', JStr ''1''), (''source'', JStr ''risk''), (''x'', x)]"

definition sample_env :: dispatch_env where
  "sample_env = \<lparr>de_publish = Inr (), de_ack = None, de_unknown = None, de_now = 30\<rparr>"

definition sample_turn :: dispatch_turn where
  "sample_turn = \<lparr>dt_closing = False, dt_uuid = ''u'', dt_now = 20, dt_fault = None, dt_env = (\<lambda>_. sample_env)\<rparr>"

definition sample_envelope :: envelope where
  "sample_envelope = \<lparr>en_id = ''t-1'', en_topic = ''signals'', en_payload = JObj (sample_message ''m-1'' (JInt 1))\<rparr>"

definition sample_delivery :: "int store \<Rightarrow> delivered \<times> bool \<times> int store" where
  "sample_delivery = deliver minus_sha sample_bus ''signals'' None sample_envelope
     [AckStep ''signals'' sample_envelope None] (CancelledError ''GeneratorExit'') (Inr ()) 10"

text \<open>An outbox with one row of the producer.\<close>

definition sample_document :: json where
  "sample_document = JObj [(''message_id'', JStr ''o-1'')]"

definition waiting_store :: "int store" where
  "waiting_store = empty_store\<lparr>st_outbox := [fresh_outbox 1 ''o-1'' ''orders'' sample_document
     (minus_sha (canonical_json sample_document)) ''risk'' 0]\<rparr>"

lemma minus_sha_hex: "sha256_hex (minus_sha s)"
proof -
  have "lower_hex (CHR ''0'')" "lower_hex (CHR ''a'')" "lower_hex (CHR ''b'')" by code_simp+
  then show ?thesis by (auto simp: sha256_hex_def minus_sha_def list_all_iff)
qed

lemma empty_tables_ok: "outbox_ok (st_outbox empty_store)" "inbox_ok (st_inbox empty_store)"
  by (simp_all add: empty_store_def outbox_ok_def inbox_ok_def)

lemma waiting_tables_ok: "outbox_ok (st_outbox waiting_store)" "inbox_ok (st_inbox waiting_store)"
proof -
  have "\<not> blank ''risk''" by code_simp
  then show "outbox_ok (st_outbox waiting_store)"
    using minus_sha_hex by (simp add: waiting_store_def outbox_ok_def fresh_outbox_def outbox_check_def unique_by_def)
  show "inbox_ok (st_inbox waiting_store)" by (simp add: waiting_store_def empty_store_def inbox_ok_def)
qed

lemma waiting_dispatched:
  "map gm_topic (bs_given (bus_step minus_sha (DispatchOp 0 sample_env)
     (bus_step minus_sha (ClaimTurnOp sample_bus sample_turn) (quiet waiting_store)))) = [''orders'']"
  by code_simp

theorem transport_given_once_witness:
  "\<exists>s. s = fold (bus_step minus_sha) [ClaimTurnOp sample_bus sample_turn, DispatchOp 0 sample_env] (quiet waiting_store) \<and>
     map gm_topic (bs_given s) = [''orders''] \<and> distinct (map gm_id (bs_given s))"
  using transport_given_once [OF waiting_tables_ok refl,
      of minus_sha "[ClaimTurnOp sample_bus sample_turn, DispatchOp 0 sample_env]"] waiting_dispatched
  by simp

lemma waiting_loop:
  "map or_topic (snd (snd (dispatch_outbox minus_sha sample_bus [sample_turn] (st_outbox waiting_store)))) = [''orders'']"
  by code_simp

theorem dispatch_loop_is_run_witness:
  "\<exists>ops. map gm_topic (bs_given (fold (bus_step minus_sha) ops (quiet waiting_store))) = [''orders'']"
proof -
  obtain r u sent where d: "dispatch_outbox minus_sha sample_bus [sample_turn] (st_outbox waiting_store) = (r, u, sent)"
    by (cases "dispatch_outbox minus_sha sample_bus [sample_turn] (st_outbox waiting_store)") auto
  have "dispatch_outbox minus_sha sample_bus [sample_turn] (st_outbox (bs_store (quiet waiting_store))) = (r, u, sent)"
    using d by (simp add: quiet_def)
  from dispatch_loop_is_run [OF this] obtain ops left where
    run: "fold (bus_step minus_sha) ops (quiet waiting_store) = (with_outbox (quiet waiting_store) u)
      \<lparr>bs_flight := bs_flight (quiet waiting_store) @ left, bs_given := bs_given (quiet waiting_store) @ map given_record sent\<rparr>"
    by blast
  have "bs_given (quiet waiting_store) = []" by (simp add: quiet_def)
  then have "map gm_topic (bs_given (fold (bus_step minus_sha) ops (quiet waiting_store))) = map or_topic sent"
    unfolding run by (simp add: given_record_def)
  moreover have "map or_topic sent = [''orders'']" using waiting_loop unfolding d snd_conv .
  ultimately show ?thesis by (intro exI [of _ ops]) (rule trans)
qed

lemma sample_acked: "fst (snd (sample_delivery empty_store))"
  by code_simp

theorem unacked_delivery_leaves_nothing_witness:
  "\<exists>r\<in>set (st_inbox (snd (snd (sample_delivery empty_store)))).
     ib_consumer r = ''risk:default'' \<and> ib_status r = COMPLETED_MSG"
proof -
  obtain d ack st' where del: "sample_delivery empty_store = (d, ack, st')" by (cases "sample_delivery empty_store") auto
  then have "ack" using sample_acked by simp
  moreover have "durable_consumer sample_bus None = ''risk:default''" by code_simp
  ultimately show ?thesis
    using unacked_delivery_leaves_nothing [OF empty_tables_ok(2) del [unfolded sample_delivery_def]] del by auto
qed

theorem acked_delivery_final_witness:
  "\<exists>st. st = snd (snd (sample_delivery empty_store)) \<and> sample_delivery st = (Acked, True, st) \<and>
     (\<exists>r\<in>set (st_inbox st). ib_status r = COMPLETED_MSG)"
proof -
  let ?op = "DeliverOp sample_bus ''signals'' None sample_envelope
    [AckStep ''signals'' sample_envelope None] (CancelledError ''GeneratorExit'') (Inr ()) 10"
  obtain d ack st where del: "sample_delivery empty_store = (d, ack, st)" by (cases "sample_delivery empty_store") auto
  then have "ack" using sample_acked by simp
  then have first: "deliver minus_sha sample_bus ''signals'' None sample_envelope
      [AckStep ''signals'' sample_envelope None] (CancelledError ''GeneratorExit'') (Inr ()) 10
      (bs_store (fold (bus_step minus_sha) [] (quiet empty_store))) = (d, True, st)"
    using del by (simp add: sample_delivery_def quiet_def)
  have st: "bs_store (fold (bus_step minus_sha) [] (bus_step minus_sha ?op (fold (bus_step minus_sha) [] (quiet empty_store)))) = st"
    using first by simp
  have e: "sample_envelope\<lparr>en_id := ''t-1''\<rparr> = sample_envelope" by (simp add: sample_envelope_def)
  note final = acked_delivery_final [OF empty_tables_ok minus_sha_hex refl first st [symmetric] refl refl, of "''t-1''", unfolded e]
  have "sample_delivery st = (answered (Inr ()), True, st)"
    unfolding sample_delivery_def by (rule final [THEN conjunct2, THEN conjunct2, THEN conjunct1])
  moreover from final have "\<exists>r\<in>set (st_inbox st). ib_status r = COMPLETED_MSG" by blast
  ultimately show ?thesis using del by (simp add: answered_def)
qed

definition rewritten_message :: "(string \<times> json) list" where
  "rewritten_message = sample_message ''m-1'' (JFloat ''-0.0'')"

definition rewritten_publish :: "(string \<times> int store) res" where
  "rewritten_publish = publish minus_sha sample_bus 1 ''orders'' (Document rewritten_message) 10 empty_store"

lemma rewritten_facts:
  "json_wf (JObj rewritten_message)"
  "minus_sha (canonical_json (jsonb_value (JObj rewritten_message))) \<noteq> minus_sha (canonical_json (JObj rewritten_message))"
  "case rewritten_publish of Inl e \<Rightarrow> False | Inr (m, st) \<Rightarrow> m = ''m-1''"
  by code_simp+

lemma rewritten_claim:
  "case claim_turn sample_bus sample_turn (st_outbox (settle empty_store rewritten_publish)) of
     (Inr recs, t1) \<Rightarrow> map or_message_id recs = [''m-1''] | _ \<Rightarrow> False"
  by code_simp

theorem rewritten_payload_blocks_producer_witness:
  "\<exists>st1 rec t1 t2 r. rewritten_publish = Inr (''m-1'', st1) \<and>
     claim_turn sample_bus sample_turn (st_outbox st1) = (Inr [rec], t1) \<and>
     dispatch_record minus_sha sample_bus rec sample_env t1 = (Inr (), t2, False) \<and>
     ob_message_id r = ''m-1'' \<and> ob_state r = PUBLISH_OUTCOME_UNKNOWN \<and> r \<in> set t2"
proof -
  obtain st1 where pub: "rewritten_publish = Inr (''m-1'', st1)"
    using rewritten_facts(3) by (auto split: sum.splits)
  then obtain rec t1 where claim: "claim_turn sample_bus sample_turn (st_outbox st1) = (Inr [rec], t1)"
      and rec: "or_message_id rec = ''m-1''"
    using rewritten_claim unfolding pub by (auto split: prod.splits sum.splits)
  have "''m-1'' \<notin> ob_message_id ` set (st_outbox empty_store)" by (simp add: empty_store_def)
  moreover have "st_outbox st1 = fold (outbox_step minus_sha) [] (st_outbox st1)" "de_unknown sample_env = None"
    by (simp_all add: sample_env_def)
  ultimately obtain t2 r where out: "dispatch_record minus_sha sample_bus rec sample_env t1 = (Inr (), t2, False)"
      and r: "r \<in> set t2" "ob_message_id r = ''m-1''" "ob_state r = PUBLISH_OUTCOME_UNKNOWN"
    using rewritten_payload_blocks_producer [OF empty_tables_ok(1) rewritten_facts(1) pub [unfolded rewritten_publish_def]
        _ rewritten_facts(2) _ claim rec]
    by blast
  with pub claim out show ?thesis by (intro exI conjI)
qed
end
