(* ===== verification/PyFloat.thy ===== *)
theory PyFloat
  imports Json
begin

text \<open>
  Python's \<open>float\<close>, an IEEE 754 double, as the trade lifecycle uses it: comparisons, \<open>math.isfinite\<close>,
  \<open>float.hex\<close> and \<open>float.fromhex\<close>. \<open>Finite neg m e\<close> is \<open>(-1)^neg * m * 2^(e - 52)\<close>. Of the texts that
  \<open>fromhex\<close> reads, the model decodes those of the form that \<open>hex\<close> writes, which need no rounding.
\<close>

datatype pyfloat = Finite bool nat int | Infinite bool | NotANumber

definition float_wf :: "pyfloat \<Rightarrow> bool" where
  "float_wf x = (case x of
       Finite s m e \<Rightarrow> m < 2 ^ 53 \<and> - 1022 \<le> e \<and> e \<le> 1023 \<and> (m < 2 ^ 52 \<longrightarrow> e = - 1022)
     | _ \<Rightarrow> True)"

definition is_finite :: "pyfloat \<Rightarrow> bool" where
  "is_finite x = (case x of Finite s m e \<Rightarrow> True | _ \<Rightarrow> False)"

text \<open>The value of a finite float in units of \<open>2^-1074\<close>.\<close>

definition float_units :: "pyfloat \<Rightarrow> int" where
  "float_units x = (case x of
       Finite s m e \<Rightarrow> (if s then - 1 else 1) * int m * 2 ^ nat (e + 1022)
     | _ \<Rightarrow> 0)"

definition float_le :: "pyfloat \<Rightarrow> pyfloat \<Rightarrow> bool" where
  "float_le a b =
     (if a = NotANumber \<or> b = NotANumber then False
      else case a of
        Infinite s \<Rightarrow> s \<or> b = Infinite False
      | _ \<Rightarrow> (case b of Infinite s \<Rightarrow> \<not> s | _ \<Rightarrow> float_units a \<le> float_units b))"

definition float_less :: "pyfloat \<Rightarrow> pyfloat \<Rightarrow> bool" where
  "float_less a b \<longleftrightarrow> float_le a b \<and> \<not> float_le b a"

definition float_eq :: "pyfloat \<Rightarrow> pyfloat \<Rightarrow> bool" where
  "float_eq a b \<longleftrightarrow> float_le a b \<and> float_le b a"

definition float_zero :: pyfloat where
  "float_zero = Finite False 0 (- 1022)"

definition float_one :: pyfloat where
  "float_one = Finite False (2 ^ 52) 0"

text \<open>The largest leverage, 125.\<close>

definition float_125 :: pyfloat where
  "float_125 = Finite False (125 * 2 ^ 46) 6"

subsection \<open>Hexadecimal texts\<close>

primrec hex_padded :: "nat \<Rightarrow> nat \<Rightarrow> string" where
  "hex_padded 0 n = []"
| "hex_padded (Suc w) n = hex_padded w (n div 16) @ [hex_digit (n mod 16)]"

definition float_hex :: "pyfloat \<Rightarrow> string" where
  "float_hex x = (case x of
       Finite s m e \<Rightarrow>
         (if s then ''-'' else []) @
         (if m = 0 then ''0x0.0p+0''
          else ''0x'' @ (if 2 ^ 52 \<le> m then ''1.'' else ''0.'') @ hex_padded 13 (m mod 2 ^ 52)
               @ ''p'' @ (if e < 0 then [] else ''+'') @ show_int e)
     | Infinite s \<Rightarrow> if s then ''-inf'' else ''inf''
     | NotANumber \<Rightarrow> ''nan'')"

primrec hex_number :: "nat \<Rightarrow> string \<Rightarrow> nat option" where
  "hex_number n [] = Some n"
| "hex_number n (c # s) = (case hex_value c of None \<Rightarrow> None | Some d \<Rightarrow> hex_number (16 * n + d) s)"

definition exponent_text :: "string \<Rightarrow> int option" where
  "exponent_text s = (case read_sign ''+-'' s of (sg, r) \<Rightarrow>
     if r = [] \<or> \<not> list_all py_digit r then None
     else Some (if sg = ''-'' then - decimal_value r else decimal_value r))"

definition float_fromhex :: "string \<Rightarrow> pyfloat option" where
  "float_fromhex s = (case read_sign ''-'' s of (sg, r) \<Rightarrow>
     (case r of
        z # x # lead # dot # q \<Rightarrow>
          if [z, x, dot] \<noteq> ''0x.'' \<or> lead \<notin> set ''01'' then None
          else let digits = takeWhile (\<lambda>c. c \<noteq> CHR ''p'') q
               in if digits = [] \<or> 13 < length digits then None
                  else (case (hex_number 0 digits, exponent_text (drop (Suc (length digits)) q)) of
                          (Some f, Some e) \<Rightarrow>
                            let m = f * 16 ^ (13 - length digits) + (if lead = CHR ''1'' then 2 ^ 52 else 0)
                            in if m = 0 then Some (Finite (sg = ''-'') 0 (- 1022))
                               else if (if lead = CHR ''1'' then - 1022 \<le> e \<and> e \<le> 1023 else e = - 1022)
                               then Some (Finite (sg = ''-'') m e) else None
                        | _ \<Rightarrow> None)
      | _ \<Rightarrow> None))"

subsection \<open>Order\<close>

lemma float_le_finite: "is_finite a \<Longrightarrow> is_finite b \<Longrightarrow> float_le a b \<longleftrightarrow> float_units a \<le> float_units b"
  by (auto simp: float_le_def is_finite_def split: pyfloat.splits)

lemma float_less_finite: "is_finite a \<Longrightarrow> is_finite b \<Longrightarrow> float_less a b \<longleftrightarrow> float_units a < float_units b"
  by (auto simp: float_less_def float_le_finite)

lemma float_constants [simp]:
  "is_finite float_zero" "is_finite float_one" "is_finite float_125" "float_units float_zero = 0"
  "float_wf float_zero"
  by (simp_all add: is_finite_def float_zero_def float_one_def float_125_def float_units_def float_wf_def)

lemma float_le_refl: "is_finite a \<Longrightarrow> float_le a a"
  by (simp add: float_le_finite)

subsection \<open>Reading back\<close>

lemma hex_padded_length [simp]: "length (hex_padded w n) = w"
  by (induction w arbitrary: n) simp_all

lemma hex_number_append:
  "hex_number n (s @ t) = (case hex_number n s of None \<Rightarrow> None | Some k \<Rightarrow> hex_number k t)"
  by (induction s arbitrary: n) (auto split: option.split)

lemma hex_number_padded: "n < 16 ^ w \<Longrightarrow> hex_number 0 (hex_padded w n) = Some n"
  by (induction w arbitrary: n) (simp_all add: hex_number_append hex_value_digit)

lemma hex_padded_digits: "list_all lower_hex (hex_padded w n)"
  by (induction w arbitrary: n) (simp_all add: hex_digit_lower)

lemma hex_padded_no_p: "c \<in> set (hex_padded w n) \<Longrightarrow> c \<noteq> CHR ''p''"
  using hex_padded_digits [of w n] by (auto simp: list_all_iff lower_hex_def)

lemma float_hex_no_nul: "CHR 0x00 \<notin> set (float_hex x)"
proof -
  have "CHR 0x00 \<notin> set (hex_padded w n)" for w n
    using hex_padded_digits [of w n] by (auto simp: list_all_iff lower_hex_def)
  moreover have "CHR 0x00 \<notin> set (show_int e)" for e
    using show_nat_digits [of "nat e"] show_nat_digits [of "nat (- e)"]
    by (auto simp: show_int_def list_all_iff py_digit_def)
  ultimately show ?thesis by (auto simp: float_hex_def split: pyfloat.split)
qed

lemma exponent_text_show:
  "exponent_text ((if e < 0 then [] else ''+'') @ show_int e) = Some e"
proof -
  have d: "list_all py_digit (show_nat n)" "show_nat n \<noteq> []" "decimal_value (show_nat n) = int n" for n
    using show_nat_digits [of n] decimal_show_nat [of n] by simp_all
  then show ?thesis
    by (auto simp: exponent_text_def show_int_def read_sign_def split: list.splits)
qed

lemma float_fromhex_hex:
  assumes "float_wf x" and "is_finite x"
  shows "float_fromhex (float_hex x) = Some x"
proof -
  obtain s m e where x: "x = Finite s m e" using assms(2) by (cases x) (auto simp: is_finite_def)
  have wf: "m < 2 ^ 53" "- 1022 \<le> e" "e \<le> 1023" "m < 2 ^ 52 \<Longrightarrow> e = - 1022"
    using assms(1) by (auto simp: x float_wf_def)
  have sign: "read_sign ''-'' ((if s then ''-'' else []) @ CHR ''0'' # r) = ((if s then ''-'' else []), CHR ''0'' # r)" for r
    by (simp add: read_sign_def)
  show ?thesis
  proof (cases "m = 0")
    case True
    have "exponent_text ''+0'' = Some 0" "hex_number 0 ''0'' = Some 0" by code_simp+
    with True wf show ?thesis
      by (simp add: x float_hex_def float_fromhex_def sign read_sign_def Let_def)
  next
    case False
    define ex where "ex = (if e < 0 then [] else ''+'') @ show_int e"
    define f where "f = m mod 2 ^ 52"
    define ds where "ds = hex_padded 13 f"
    define lead where "lead = (if 2 ^ 52 \<le> m then CHR ''1'' else CHR ''0'')"
    have tw: "takeWhile (\<lambda>c. c \<noteq> CHR ''p'') (ds @ CHR ''p'' # ex) = ds"
      unfolding ds_def using hex_padded_no_p by (subst takeWhile_append2) auto
    have num: "hex_number 0 ds = Some f" unfolding ds_def by (rule hex_number_padded) (simp add: f_def)
    have len: "length ds = 13" by (simp add: ds_def)
    have ext: "exponent_text ex = Some e" unfolding ex_def by (rule exponent_text_show)
    have shape: "float_hex x = (if s then ''-'' else []) @ CHR ''0'' # CHR ''x'' # lead # CHR ''.'' # ds @ CHR ''p'' # ex"
      using False unfolding x float_hex_def pyfloat.case ex_def f_def [symmetric] ds_def lead_def by simp
    have val: "f + (if lead = CHR ''1'' then 2 ^ 52 else 0) = m"
      using wf(1) by (auto simp: f_def lead_def mod_if [of m] not_le)
    have ok: "if lead = CHR ''1'' then - 1022 \<le> e \<and> e \<le> 1023 else e = - 1022"
      using wf by (auto simp: lead_def)
    have nil: "\<not> (ds = [] \<or> 13 < length ds)" using len by auto
    have mark: "\<not> ([CHR ''0'', CHR ''x'', CHR ''.''] \<noteq> ''0x.'' \<or> lead \<notin> set ''01'')" by (simp add: lead_def)
    have dr: "drop (Suc (length ds)) (ds @ CHR ''p'' # ex) = ex" by simp
    have val': "f * 16 ^ (13 - length ds) + (if lead = CHR ''1'' then 2 ^ 52 else 0) = m" using val len by simp
    show ?thesis
      unfolding shape float_fromhex_def sign prod.case list.case if_not_P [OF mark] Let_def tw if_not_P [OF nil] num dr ext
        option.case val' if_P [OF ok] using False by (simp add: x)
  qed
qed

end
