(* ===== verification/FloatText.thy ===== *)
theory FloatText
  imports PyFloat
begin

text \<open>
  Arithmetic and decimal texts of Python's \<open>float\<close>: correctly rounded quotients of integers, products,
  truncation, the shortest text that \<open>repr\<close> and \<open>json.dumps\<close> write, and the \<open>Decimal\<close> of such a text.
  \<open>millis\<close> and \<open>fromtimestamp\<close> are the conversions between instants and milliseconds that pass
  through a float.
\<close>

subsection \<open>Rounding\<close>

fun bit_length :: "nat \<Rightarrow> nat" where
  "bit_length n = (if n = 0 then 0 else Suc (bit_length (n div 2)))"

declare bit_length.simps [simp del]

definition half_even :: "nat \<Rightarrow> nat \<Rightarrow> nat" where
  "half_even n d = (let q = n div d; r = n mod d in
     if 2 * r < d \<or> (2 * r = d \<and> even q) then q else q + 1)"

text \<open>The double nearest to \<open>(-1)^neg * n / d\<close>, ties to even.\<close>

definition ratio_exponent :: "nat \<Rightarrow> nat \<Rightarrow> int" where
  "ratio_exponent n d = (let e = int (bit_length n) - int (bit_length d) in
     if d * 2 ^ nat e \<le> n * 2 ^ nat (- e) then e else e - 1)"

definition round_ratio :: "bool \<Rightarrow> nat \<Rightarrow> nat \<Rightarrow> pyfloat" where
  "round_ratio neg n d =
     (if n = 0 then Finite neg 0 (- 1022)
      else let e = max (ratio_exponent n d) (- 1022);
               m = half_even (n * 2 ^ nat (52 - e)) (d * 2 ^ nat (e - 52))
           in if 1023 < e \<or> (e = 1023 \<and> m = 2 ^ 53) then Infinite neg
              else if m = 2 ^ 53 then Finite neg (2 ^ 52) (e + 1) else Finite neg m e)"

definition float_of_ratio :: "int \<Rightarrow> int \<Rightarrow> pyfloat" where
  "float_of_ratio a b = round_ratio (a < 0) (nat \<bar>a\<bar>) (nat b)"

definition float_of_int :: "int \<Rightarrow> pyfloat" where
  "float_of_int a = float_of_ratio a 1"

definition float_times :: "pyfloat \<Rightarrow> pyfloat \<Rightarrow> pyfloat" where
  "float_times x y = (case (x, y) of
       (Finite s m e, Finite t k f) \<Rightarrow>
         round_ratio (s \<noteq> t) (m * k * 2 ^ nat (e + f - 104)) (2 ^ nat (104 - e - f))
     | _ \<Rightarrow> NotANumber)"

definition float_abs :: "pyfloat \<Rightarrow> pyfloat" where
  "float_abs x = (case x of Finite s m e \<Rightarrow> Finite False m e | Infinite s \<Rightarrow> Infinite False | NotANumber \<Rightarrow> NotANumber)"

text \<open>\<open>int(x)\<close>, \<open>math.ceil(x)\<close> and \<open>math.modf\<close> of a finite float.\<close>

definition float_trunc :: "pyfloat \<Rightarrow> int" where
  "float_trunc x = (case x of
       Finite s m e \<Rightarrow> (if s then - 1 else 1) * int (m * 2 ^ nat (e - 52) div 2 ^ nat (52 - e))
     | _ \<Rightarrow> 0)"

definition float_ceil :: "pyfloat \<Rightarrow> int" where
  "float_ceil x = (case x of
       Finite s m e \<Rightarrow> - ((if s then 1 else - 1) * int (m * 2 ^ nat (e - 52)) div 2 ^ nat (52 - e))
     | _ \<Rightarrow> 0)"

definition float_fraction :: "pyfloat \<Rightarrow> pyfloat" where
  "float_fraction x = (case x of
       Finite s m e \<Rightarrow> round_ratio s (m mod 2 ^ nat (52 - e)) (2 ^ nat (52 - e))
     | _ \<Rightarrow> NotANumber)"

definition float_round :: "pyfloat \<Rightarrow> int" where
  "float_round x = (case x of
       Finite s m e \<Rightarrow> (if s then - 1 else 1) * int (half_even (m * 2 ^ nat (e - 52)) (2 ^ nat (52 - e)))
     | _ \<Rightarrow> 0)"

subsection \<open>Instants\<close>

text \<open>\<open>int(value.timestamp() * 1_000)\<close>; \<open>timestamp()\<close> is the number of microseconds divided by \<open>10**6\<close>.\<close>

definition millis :: "timestamp \<Rightarrow> int" where
  "millis t = float_trunc (float_times (float_of_ratio t 1000000) (float_of_int 1000))"

text \<open>\<open>datetime.fromtimestamp(ms / 1_000, UTC)\<close>, which rounds to the nearest microsecond.\<close>

definition fromtimestamp_ms :: "int \<Rightarrow> timestamp" where
  "fromtimestamp_ms ms = (let x = float_of_ratio ms 1000 in
     float_trunc x * 1000000 + float_round (float_times (float_fraction x) (float_of_int 1000000)))"

subsection \<open>Decimal texts\<close>

text \<open>The exponent \<open>k\<close> with \<open>10^(k-1) <= n/d < 10^k\<close>.\<close>

definition decimal_point :: "nat \<Rightarrow> nat \<Rightarrow> int" where
  "decimal_point n d =
     (if d \<le> n then int (length (show_nat (n div d)))
      else let l = length (show_nat (d div n))
           in if d = n * 10 ^ (l - 1) then 2 - int l else 1 - int l)"

text \<open>
  \<open>nearest_decimal i\<close> looks for a decimal of at most \<open>i\<close> digits that reads back as the float, the
  nearer of the two neighbours if both do; \<open>shortest_digits\<close> takes the smallest such \<open>i\<close>. A decimal is
  a pair \<open>(c, p)\<close>, for \<open>c * 10^p\<close>.
\<close>

definition decimal_ratio :: "nat \<Rightarrow> int \<Rightarrow> nat \<times> nat" where
  "decimal_ratio c p = (c * 10 ^ nat p, 10 ^ nat (- p))"

definition reads_as :: "pyfloat \<Rightarrow> nat \<Rightarrow> int \<Rightarrow> bool" where
  "reads_as x c p = (case decimal_ratio c p of (n, d) \<Rightarrow> round_ratio False n d = x)"

definition nearest_decimal :: "pyfloat \<Rightarrow> nat \<Rightarrow> nat \<Rightarrow> nat \<Rightarrow> (nat \<times> int) option" where
  "nearest_decimal x n d i =
     (let p = decimal_point n d - int i;
          num = n * 10 ^ nat (- p); den = d * 10 ^ nat p;
          lo = num div den; r = num mod den
      in if reads_as x lo p \<and> (\<not> reads_as x (lo + 1) p \<or> 2 * r < den \<or> (2 * r = den \<and> even lo)) then Some (lo, p)
         else if reads_as x (lo + 1) p then Some (lo + 1, p) else None)"

fun first_some :: "('a \<Rightarrow> 'b option) \<Rightarrow> 'a list \<Rightarrow> 'b option" where
  "first_some f [] = None"
| "first_some f (x # xs) = (case f x of None \<Rightarrow> first_some f xs | Some y \<Rightarrow> Some y)"

fun strip_zeros :: "nat \<Rightarrow> int \<Rightarrow> nat \<times> int" where
  "strip_zeros c p = (if c = 0 then (0, 0) else if c mod 10 = 0 then strip_zeros (c div 10) (p + 1) else (c, p))"

declare strip_zeros.simps [simp del]

definition shortest_digits :: "pyfloat \<Rightarrow> nat \<times> int" where
  "shortest_digits x = (case x of
       Finite s m e \<Rightarrow>
         if m = 0 then (0, 0)
         else (case first_some (nearest_decimal (Finite False m e) (m * 2 ^ nat (e - 52)) (2 ^ nat (52 - e)))
                      [1..<18] of
                 None \<Rightarrow> (0, 0)
               | Some (c, p) \<Rightarrow> strip_zeros c p)
     | _ \<Rightarrow> (0, 0))"

definition decimal_text :: "nat \<Rightarrow> int \<Rightarrow> string" where
  "decimal_text c p =
     (let s = show_nat c; k = int (length s) + p
      in if c = 0 then ''0.0''
         else if - 4 < k \<and> k \<le> 0 then ''0.'' @ replicate (nat (- k)) (CHR ''0'') @ s
         else if 0 < k \<and> k < int (length s) then take (nat k) s @ ''.'' @ drop (nat k) s
         else if 0 < k \<and> k \<le> 16 then s @ replicate (nat p) (CHR ''0'') @ ''.0''
         else hd s # (if tl s = [] then [] else CHR ''.'' # tl s) @ CHR ''e'' #
              (if k - 1 < 0 then CHR ''-'' else CHR ''+'') #
              (if \<bar>k - 1\<bar> < 10 then ''0'' else []) @ show_nat (nat \<bar>k - 1\<bar>))"

definition float_repr :: "pyfloat \<Rightarrow> string" where
  "float_repr x = (case x of
       Finite s m e \<Rightarrow> (if s then ''-'' else []) @ (case shortest_digits x of (c, p) \<Rightarrow> decimal_text c p)
     | Infinite s \<Rightarrow> if s then ''-Infinity'' else ''Infinity''
     | NotANumber \<Rightarrow> ''NaN'')"

definition json_float :: "pyfloat \<Rightarrow> json" where
  "json_float x = JFloat (float_repr x)"

definition json_optional_float :: "pyfloat option \<Rightarrow> json" where
  "json_optional_float x = (case x of None \<Rightarrow> JNull | Some f \<Rightarrow> json_float f)"

subsection \<open>Float literals\<close>

definition int_part :: "string \<Rightarrow> bool" where
  "int_part i \<longleftrightarrow> i = ''0'' \<or> (i \<noteq> [] \<and> list_all py_digit i \<and> hd i \<noteq> CHR ''0'')"

definition digits_part :: "string \<Rightarrow> bool" where
  "digits_part s \<longleftrightarrow> s \<noteq> [] \<and> list_all py_digit s"

lemma not_digit_marks [simp]: "\<not> py_digit (CHR ''.'')" "\<not> py_digit (CHR ''e'')" "\<not> py_digit (CHR ''-'')" "\<not> py_digit (CHR ''+'')"
  by code_simp+

lemma take_digits:
  assumes "list_all py_digit s" and "r = [] \<or> \<not> py_digit (hd r)"
  shows "takeWhile py_digit (s @ r) = s \<and> dropWhile py_digit (s @ r) = r"
  using assms by (induction s) (cases r; simp)+

lemma read_exp_part:
  assumes "e = [] \<or> (\<exists>g ds. e = CHR ''e'' # g # ds \<and> g \<in> set ''+-'' \<and> digits_part ds)"
  shows "read_exp e = (e, [])"
  using assms by (auto simp: read_exp_def read_sign_def digits_part_def takeWhile_all)

lemma read_number_parts:
  assumes i: "int_part i" and f: "f = [] \<or> (\<exists>ds. f = CHR ''.'' # ds \<and> digits_part ds)"
    and e: "e = [] \<or> (\<exists>g ds. e = CHR ''e'' # g # ds \<and> g \<in> set ''+-'' \<and> digits_part ds)"
    and sg: "sg = [] \<or> sg = ''-''" and ne: "f \<noteq> [] \<or> e \<noteq> []"
  shows "read_number (sg @ i @ f @ e) = Some (JFloat (sg @ i @ f @ e), [])"
proof -
  have fe: "f @ e = [] \<or> \<not> py_digit (hd (f @ e))" using f e by auto
  have iv: "i \<noteq> []" "list_all py_digit i" "hd i \<noteq> CHR ''-''"
    using i by (cases i; auto simp: int_part_def)+
  have "read_sign ''-'' (sg @ i @ f @ e) = (sg, i @ f @ e)"
    using sg iv by (cases i) (auto simp: read_sign_def)
  moreover have "takeWhile py_digit (i @ f @ e) = i" "dropWhile py_digit (i @ f @ e) = f @ e"
    using take_digits [OF iv(2) fe] by simp_all
  ultimately have ri: "read_int (sg @ i @ f @ e) = Some (sg @ i, f @ e)"
    using i iv by (cases i) (auto simp: read_int_def int_part_def)
  have "e = [] \<or> \<not> py_digit (hd e)" using e by auto
  then have rf: "read_frac (f @ e) = (f, e)"
    using f e take_digits [of _ e] by (auto simp: read_frac_def digits_part_def takeWhile_all)
  show ?thesis using ne by (simp add: read_number_def ri rf read_exp_part [OF e])
qed

lemma show_nat_parts:
  assumes "0 < c"
  obtains a s where "show_nat c = a # s" and "a \<noteq> CHR ''0''" and "py_digit a" and "list_all py_digit s"
  using show_nat_head [of c] show_nat_digits [of c] assms by auto

lemma list_all_takedrop: "list_all P s \<Longrightarrow> list_all P (take n s) \<and> list_all P (drop n s)"
  by (auto simp: list_all_iff dest: in_set_takeD in_set_dropD)

lemma decimal_text_number:
  assumes "sg = [] \<or> sg = ''-''"
  shows "read_number (sg @ decimal_text c p) = Some (JFloat (sg @ decimal_text c p), [])"
proof (cases "c = 0")
  case True
  have "digits_part ''0''" by (simp add: digits_part_def)
  with read_number_parts [of "''0''" "''.0''" "[]" sg] assms True show ?thesis
    by (simp add: int_part_def decimal_text_def)
next
  case False
  then obtain a s where s: "show_nat c = a # s" "a \<noteq> CHR ''0''" "py_digit a" "list_all py_digit s"
    using show_nat_parts by blast
  define k where "k = int (length (show_nat c)) + p"
  have z: "list_all py_digit (replicate n (CHR ''0''))" for n by (simp add: list_all_iff)
  have d0: "digits_part ''0''" by (simp add: digits_part_def)
  have all: "list_all py_digit (show_nat c)" using s by simp
  consider (small) "- 4 < k" "k \<le> 0" | (mid) "0 < k" "k < int (length (show_nat c))"
    | (int) "0 < k" "\<not> k < int (length (show_nat c))" "k \<le> 16" | (exp) "k \<le> - 4 \<or> 16 < k \<and> \<not> k < int (length (show_nat c))"
    by linarith
  then show ?thesis
  proof cases
    case small
    have "digits_part (replicate (nat (- k)) (CHR ''0'') @ show_nat c)" using s z all by (simp add: digits_part_def)
    with read_number_parts [of "''0''" "CHR ''.'' # replicate (nat (- k)) (CHR ''0'') @ show_nat c" "[]" sg] assms small False
    show ?thesis by (simp add: int_part_def decimal_text_def Let_def k_def)
  next
    case mid
    have "int_part (take (nat k) (show_nat c))"
      using mid s all list_all_takedrop [OF all, of "nat k"] by (auto simp: int_part_def hd_take)
    moreover have "digits_part (drop (nat k) (show_nat c))"
      using mid list_all_takedrop [OF all, of "nat k"] by (auto simp: digits_part_def)
    ultimately show ?thesis
      using read_number_parts [of "take (nat k) (show_nat c)" "CHR ''.'' # drop (nat k) (show_nat c)" "[]" sg] assms mid False
      by (simp add: decimal_text_def Let_def k_def)
  next
    case int
    have "int_part (show_nat c @ replicate (nat p) (CHR ''0''))" using s z all by (simp add: int_part_def)
    with read_number_parts [of "show_nat c @ replicate (nat p) (CHR ''0'')" "''.0''" "[]" sg] assms int False d0
    show ?thesis by (simp add: decimal_text_def Let_def k_def)
  next
    case exp
    let ?e = "CHR ''e'' # (if k - 1 < 0 then CHR ''-'' else CHR ''+'') #
              (if \<bar>k - 1\<bar> < 10 then ''0'' else []) @ show_nat (nat \<bar>k - 1\<bar>)"
    let ?f = "if s = [] then [] else CHR ''.'' # s"
    have t: "decimal_text c p = [a] @ ?f @ ?e"
      using exp False s(1) unfolding decimal_text_def Let_def k_def [symmetric] by auto
    have "digits_part ((if \<bar>k - 1\<bar> < 10 then ''0'' else []) @ show_nat (nat \<bar>k - 1\<bar>))"
      using show_nat_digits by (simp add: digits_part_def)
    then have "\<exists>g ds. ?e = CHR ''e'' # g # ds \<and> g \<in> set ''+-'' \<and> digits_part ds" by auto
    moreover have "int_part [a]" using s by (simp add: int_part_def)
    moreover have "?f = [] \<or> (\<exists>ds. ?f = CHR ''.'' # ds \<and> digits_part ds)" using s by (auto simp: digits_part_def)
    ultimately show ?thesis unfolding t using read_number_parts [of "[a]" ?f ?e sg] assms by blast
  qed
qed

lemma json_float_wf [simp]: "json_wf (json_float x)"
proof (cases x)
  case (Finite s m e)
  obtain c p where "shortest_digits x = (c, p)" by fastforce
  then show ?thesis
    using decimal_text_number [of "if s then ''-'' else []" c p] Finite
    by (simp add: json_float_def float_repr_def float_literal_def)
qed (auto simp: json_float_def float_repr_def float_literal_def non_finite_def)

lemma json_float_finite [simp]: "json_finite (json_float x) = is_finite x"
proof (cases x)
  case (Finite s m e)
  obtain c p where "shortest_digits x = (c, p)" by fastforce
  then have "read_number (float_repr x) \<noteq> None"
    using decimal_text_number [of "if s then ''-'' else []" c p] Finite by (simp add: float_repr_def)
  moreover have n: "\<not> py_digit (CHR ''N'')" by code_simp
  then have "read_number t = None" if "t \<in> set non_finite" for t
    using that n by (auto simp: non_finite_def read_number_def read_int_def read_sign_def)
  ultimately show ?thesis using Finite by (auto simp: json_float_def is_finite_def)
qed (auto simp: json_float_def float_repr_def non_finite_def is_finite_def)

lemma json_optional_float_wf [simp]: "json_wf (json_optional_float x)"
  by (simp add: json_optional_float_def split: option.split)

end
