(* ===== verification/CanaryPlan.thy ===== *)
theory CanaryPlan
  imports FloatText HashChain AuditLog
begin

text \<open>
  The documents of the bounded DEV canary, \<open>kairos_persistence/canary_session.py\<close>: the deployment scope,
  the read-only observations, the frozen plan with its slots, and the exact comparison of a candidate
  review with its slot. A class of the source is a record with its validators as a predicate
  (\<open>scope_valid\<close>) and \<open>model_dump(mode="json")\<close> as a function (\<open>scope_dump\<close>); the decoder
  \<open>model_validate\<close> is pydantic's and a field of \<open>canary_models\<close>. The reviews, allocations and
  decisions of \<open>kairos_core\<close> are records of what the code reads of them, with their dump as a field.
\<close>

subsection \<open>Scope\<close>

definition canary_symbols :: "string list" where
  "canary_symbols = [''BTCUSDT'', ''ETHUSDT'', ''SOLUSDT'', ''BNBUSDT'', ''XRPUSDT'']"

definition readonly_duration_ms :: int where
  "readonly_duration_ms = 86400000"

definition max_receipt_age_ms :: int where
  "max_receipt_age_ms = 3600000"

definition zero_sha :: string where
  "zero_sha = replicate 64 (CHR ''0'')"

record canary_scope =
  cs_project :: string
  cs_environment :: string
  cs_account_id :: string
  cs_remote_account_id :: string
  cs_exchange_url :: string
  cs_auth_url :: string
  cs_chain_id :: int
  cs_sdk_version :: string
  cs_config_sha256 :: string
  cs_recorder_code_sha256 :: string

text \<open>\<open>str.casefold()\<close> as far as a comparison with words of lower-case ASCII letters can tell.\<close>

definition ascii_lower :: "char \<Rightarrow> char" where
  "ascii_lower c = (let n = of_char c :: nat in if 65 \<le> n \<and> n \<le> 90 then char_of (n + 32) else c)"

definition casefold_ascii :: "string \<Rightarrow> string" where
  "casefold_ascii s = map ascii_lower s"

text \<open>The patterns \<open>[a-z0-9][a-z0-9-]{0,63}\<close> and, behind its prefix, that of a DEV account.\<close>

definition slug_char :: "char \<Rightarrow> bool" where
  "slug_char c \<longleftrightarrow> py_digit c \<or> (let n = of_char c :: nat in 97 \<le> n \<and> n \<le> 122)"

definition slug :: "string \<Rightarrow> bool" where
  "slug s \<longleftrightarrow> (case s of [] \<Rightarrow> False
     | c # r \<Rightarrow> slug_char c \<and> length r \<le> 63 \<and> list_all (\<lambda>x. slug_char x \<or> x = CHR ''-'') r)"

definition dev_account :: "string \<Rightarrow> bool" where
  "dev_account s \<longleftrightarrow> take 17 s = ''kairos-paper-dev-'' \<and> slug (drop 17 s)"

definition scope_valid :: "canary_scope \<Rightarrow> bool" where
  "scope_valid s \<longleftrightarrow> cs_project s = ''kairos-paper-gate'' \<and> cs_environment s \<in> set [''paper'', ''paper-dev''] \<and>
     dev_account (cs_account_id s) \<and>
     1 \<le> length (cs_remote_account_id s) \<and> length (cs_remote_account_id s) \<le> 128 \<and>
     cs_remote_account_id s = strip (cs_remote_account_id s) \<and>
     casefold_ascii (cs_remote_account_id s) \<notin> set [''prod'', ''production'', ''live'', ''not_configured''] \<and>
     cs_exchange_url s = ''https://trading-api.evedex.tech'' \<and> cs_auth_url s = ''https://auth-api.evedex.tech'' \<and>
     cs_chain_id s = 16182 \<and> cs_sdk_version s = ''1.2.11'' \<and>
     sha256_hex (cs_config_sha256 s) \<and> sha256_hex (cs_recorder_code_sha256 s)"

definition scope_dump :: "canary_scope \<Rightarrow> json" where
  "scope_dump s = JObj
     [(''project'', JStr (cs_project s)), (''environment'', JStr (cs_environment s)),
      (''account_id'', JStr (cs_account_id s)), (''remote_account_id'', JStr (cs_remote_account_id s)),
      (''exchange_url'', JStr (cs_exchange_url s)), (''auth_url'', JStr (cs_auth_url s)),
      (''chain_id'', JInt (cs_chain_id s)), (''sdk_version'', JStr (cs_sdk_version s)),
      (''config_sha256'', JStr (cs_config_sha256 s)),
      (''recorder_code_sha256'', JStr (cs_recorder_code_sha256 s))]"

subsection \<open>Observations\<close>

record symbol_observation =
  so_symbol :: string
  so_available :: bool
  so_basis_bps :: "pyfloat option"
  so_spread_bps :: "pyfloat option"
  so_slippage_bps :: "pyfloat option"
  so_book_age_ms :: "int option"
  so_timestamp_skew_ms :: "int option"
  so_book_nonempty :: bool

record readonly_observation =
  ro_observed_at_ms :: int
  ro_symbols :: "symbol_observation list"
  ro_unresolved_bar_gaps :: int
  ro_reconciliation_drift :: bool
  ro_entry_mutations :: int

definition nonneg_float :: "pyfloat option \<Rightarrow> bool" where
  "nonneg_float x \<longleftrightarrow> (case x of None \<Rightarrow> True | Some f \<Rightarrow> is_finite f \<and> float_le float_zero f)"

definition nonneg_int :: "int option \<Rightarrow> bool" where
  "nonneg_int x \<longleftrightarrow> (case x of None \<Rightarrow> True | Some n \<Rightarrow> 0 \<le> n)"

definition symbol_valid :: "symbol_observation \<Rightarrow> bool" where
  "symbol_valid o' \<longleftrightarrow>
     (case so_basis_bps o' of None \<Rightarrow> True | Some f \<Rightarrow> is_finite f) \<and>
     nonneg_float (so_spread_bps o') \<and> nonneg_float (so_slippage_bps o') \<and>
     nonneg_int (so_book_age_ms o') \<and> nonneg_int (so_timestamp_skew_ms o') \<and>
     so_symbol o' \<in> set canary_symbols \<and>
     (so_available o' \<longrightarrow> so_basis_bps o' \<noteq> None \<and> so_spread_bps o' \<noteq> None \<and> so_slippage_bps o' \<noteq> None \<and>
        so_book_age_ms o' \<noteq> None \<and> so_timestamp_skew_ms o' \<noteq> None \<and> so_book_nonempty o')"

text \<open>The validator sorts the symbols, so a validated observation has them in order.\<close>

definition observation_valid :: "readonly_observation \<Rightarrow> bool" where
  "observation_valid r \<longleftrightarrow> 0 < ro_observed_at_ms r \<and> list_all symbol_valid (ro_symbols r) \<and>
     length (ro_symbols r) = 5 \<and> set (map so_symbol (ro_symbols r)) = set canary_symbols \<and>
     sorted (map so_symbol (ro_symbols r)) \<and>
     0 \<le> ro_unresolved_bar_gaps r \<and> 0 \<le> ro_entry_mutations r"

definition json_optional_int :: "int option \<Rightarrow> json" where
  "json_optional_int x = (case x of None \<Rightarrow> JNull | Some n \<Rightarrow> JInt n)"

definition symbol_dump :: "symbol_observation \<Rightarrow> json" where
  "symbol_dump o' = JObj
     [(''symbol'', JStr (so_symbol o')), (''available'', JBool (so_available o')),
      (''basis_bps'', json_optional_float (so_basis_bps o')),
      (''spread_bps'', json_optional_float (so_spread_bps o')),
      (''slippage_bps'', json_optional_float (so_slippage_bps o')),
      (''book_age_ms'', json_optional_int (so_book_age_ms o')),
      (''timestamp_skew_ms'', json_optional_int (so_timestamp_skew_ms o')),
      (''book_nonempty'', JBool (so_book_nonempty o'))]"

definition observation_dump :: "readonly_observation \<Rightarrow> json" where
  "observation_dump r = JObj
     [(''observed_at_ms'', JInt (ro_observed_at_ms r)), (''symbols'', JArr (map symbol_dump (ro_symbols r))),
      (''unresolved_bar_gaps'', JInt (ro_unresolved_bar_gaps r)),
      (''reconciliation_drift'', JBool (ro_reconciliation_drift r)),
      (''entry_mutations'', JInt (ro_entry_mutations r))]"

subsection \<open>Plan\<close>

record canary_slot =
  sl_slot_id :: string
  sl_symbol :: string
  sl_side :: string
  sl_scenario :: string
  sl_stop_distance_bps :: pyfloat
  sl_target_distance_bps :: pyfloat
  sl_max_holding_ms :: int
  sl_entry_window_ms :: int

record bounded_plan =
  bp_version :: string
  bp_slots :: "canary_slot list"
  bp_max_attempts :: int
  bp_duration_ms :: int

definition float_between :: "int \<Rightarrow> int \<Rightarrow> pyfloat \<Rightarrow> bool" where
  "float_between a b x \<longleftrightarrow> is_finite x \<and> float_le (float_of_int a) x \<and> float_le x (float_of_int b)"

definition slot_valid :: "canary_slot \<Rightarrow> bool" where
  "slot_valid s \<longleftrightarrow> slug (sl_slot_id s) \<and> sl_side s \<in> set [''LONG'', ''SHORT''] \<and>
     sl_scenario s \<in> set [''ROUND_TRIP'', ''STOP'', ''TARGET'', ''TIMEOUT'', ''RESTART'', ''ENTRY_CANCEL''] \<and>
     float_between 25 100 (sl_stop_distance_bps s) \<and> float_between 25 150 (sl_target_distance_bps s) \<and>
     60000 \<le> sl_max_holding_ms s \<and> sl_max_holding_ms s \<le> 900000 \<and>
     5000 \<le> sl_entry_window_ms s \<and> sl_entry_window_ms s \<le> 30000 \<and>
     sl_symbol s \<in> set canary_symbols \<and>
     \<not> float_less (float_times (float_of_int 2) (sl_stop_distance_bps s)) (sl_target_distance_bps s)"

definition intent_config :: "canary_slot \<Rightarrow> json" where
  "intent_config s = JObj
     [(''entry_window_ms'', JInt (sl_entry_window_ms s)), (''max_holding_ms'', JInt (sl_max_holding_ms s)),
      (''side'', JStr (sl_side s)), (''stop_distance_bps'', json_float (sl_stop_distance_bps s)),
      (''strategy_ref'', JStr ''technical-canary@1''), (''symbol'', JStr (sl_symbol s)),
      (''target_distance_bps'', json_float (sl_target_distance_bps s))]"

definition plan_valid :: "bounded_plan \<Rightarrow> bool" where
  "plan_valid p \<longleftrightarrow> bp_version p = ''bounded-canary-session.v1'' \<and> list_all slot_valid (bp_slots p) \<and>
     5 \<le> bp_max_attempts p \<and> bp_max_attempts p \<le> 10 \<and> 0 < bp_duration_ms p \<and> bp_duration_ms p \<le> 7200000 \<and>
     5 \<le> length (bp_slots p) \<and> int (length (bp_slots p)) \<le> bp_max_attempts p \<and>
     distinct (map sl_slot_id (bp_slots p)) \<and> set (map sl_symbol (bp_slots p)) = set canary_symbols \<and>
     set [''STOP'', ''TARGET'', ''TIMEOUT'', ''RESTART'', ''ENTRY_CANCEL''] \<subseteq> set (map sl_scenario (bp_slots p))"

definition slot_dump :: "canary_slot \<Rightarrow> json" where
  "slot_dump s = JObj
     [(''slot_id'', JStr (sl_slot_id s)), (''symbol'', JStr (sl_symbol s)), (''side'', JStr (sl_side s)),
      (''scenario'', JStr (sl_scenario s)), (''stop_distance_bps'', json_float (sl_stop_distance_bps s)),
      (''target_distance_bps'', json_float (sl_target_distance_bps s)),
      (''max_holding_ms'', JInt (sl_max_holding_ms s)), (''entry_window_ms'', JInt (sl_entry_window_ms s))]"

definition plan_dump :: "bounded_plan \<Rightarrow> json" where
  "plan_dump p = JObj
     [(''version'', JStr (bp_version p)), (''slots'', JArr (map slot_dump (bp_slots p))),
      (''max_attempts'', JInt (bp_max_attempts p)), (''duration_ms'', JInt (bp_duration_ms p))]"

text \<open>\<open>next((item for item in plan.slots if item.slot_id == slot_id), None)\<close>\<close>

definition slot_of :: "string \<Rightarrow> bounded_plan \<Rightarrow> canary_slot option" where
  "slot_of slot_id p = List.find (\<lambda>s. sl_slot_id s = slot_id) (bp_slots p)"

subsection \<open>Contracts of \<open>kairos_core\<close>\<close>

record canary_evidence =
  ce_kind :: string
  ce_content_sha256 :: string
  ce_reference :: string
  ce_observed_at_ms :: int

record canary_intent =
  ci_message :: kairos_message
  ci_intent_id :: string
  ci_symbol :: string
  ci_side :: string
  ci_strategy_id :: string
  ci_strategy_revision :: string
  ci_evidence :: "canary_evidence list"
  ci_signal_strength :: pyfloat
  ci_decision_ts_ms :: int
  ci_entry_eligible_ts_ms :: int
  ci_entry_expires_ts_ms :: int
  ci_metadata :: "(string \<times> string) list"
  ci_reference_price :: pyfloat
  ci_stop_price :: pyfloat
  ci_target_price :: pyfloat
  ci_max_holding_ms :: int
  ci_config_sha256 :: string
  ci_input_bar_sha256s :: "string list"
  ci_dump :: json

record canary_route =
  cr_message :: kairos_message
  cr_route_id :: string
  cr_intent :: canary_intent
  cr_review_tier :: string
  cr_requested_reasoning_effort :: string
  cr_conflict_rationale :: "string option"
  cr_routed_at_ms :: int
  cr_review_deadline_ms :: int
  cr_evidence_ids :: "string list"

record canary_review =
  rv_message :: kairos_message
  rv_review_id :: string
  rv_decision :: string
  rv_reviewer :: string
  rv_model_provenance :: "json option"
  rv_priority :: int
  rv_reason_codes :: "string list"
  rv_evidence :: "canary_evidence list"
  rv_reviewed_at_ms :: int
  rv_intent :: canary_intent
  rv_route :: canary_route
  rv_dump :: json

record canary_allocation =
  al_message :: kairos_message
  al_strategy_weights :: "(string \<times> pyfloat) list"
  al_stable_reserve_pct :: pyfloat
  al_max_gross_leverage :: pyfloat
  al_regime :: string
  al_triggered_by :: string
  al_rationale :: string
  al_dump :: json

text \<open>A \<open>RiskTradeDecisionV1\<close>; its quantity, leverage and price are finite floats.\<close>

record canary_decision =
  cd_decision_id :: "string option"
  cd_trade_id :: "string option"
  cd_approved :: bool
  cd_trading_mode :: string
  cd_profile :: string
  cd_account_id :: string
  cd_venue_symbol :: string
  cd_quantity :: pyfloat
  cd_leverage :: pyfloat
  cd_worst_entry_price :: pyfloat
  cd_decided_at_ms :: int
  cd_venue_expires_at_ms :: int
  cd_intent :: canary_intent
  cd_review :: canary_review
  cd_dump :: json

text \<open>The decoders \<open>model_validate\<close>, which are pydantic's.\<close>

record canary_models =
  decode_scope :: "json \<Rightarrow> canary_scope option"
  decode_observation :: "json \<Rightarrow> readonly_observation option"
  decode_plan :: "json \<Rightarrow> bounded_plan option"
  decode_decision :: "json \<Rightarrow> canary_decision option"
  decode_review :: "json \<Rightarrow> canary_review option"
  decode_allocation :: "json \<Rightarrow> canary_allocation option"

definition validated :: "(json \<Rightarrow> 'a option) \<Rightarrow> json \<Rightarrow> 'a res" where
  "validated decode j = (case decode j of None \<Rightarrow> Inl (ValueError ''validation error'') | Some x \<Rightarrow> Inr x)"

lemma validated_Inr [returned]: "validated decode j = Inr x \<longleftrightarrow> decode j = Some x"
  by (simp add: validated_def split: option.split)

definition digest :: "(string \<Rightarrow> string) \<Rightarrow> json \<Rightarrow> string res" where
  "digest sha value = rbind (canonical_payload sha value) (\<lambda>(encoded, d). Inr d)"

definition evidence_object :: "json \<Rightarrow> json res" where
  "evidence_object value = (if is_object value then Inr value
     else Inl (MessageIdentityConflict ''stored operational evidence is not an object''))"

lemma digest_Inr [returned]: "digest sha j = Inr d \<longleftrightarrow> json_finite j \<and> d = sha (canonical_json j)"
  by (auto simp: digest_def rbind_eq_Inr canonical_payload_Inr)

lemma digest_sorted [simp]: "digest sha (sorted_json j) = digest sha j"
  by (simp add: digest_def)

lemma evidence_object_Inr [returned]: "evidence_object j = Inr x \<longleftrightarrow> is_object j \<and> x = j"
  by (auto simp: evidence_object_def)

subsection \<open>Decimals\<close>

text \<open>
  \<open>(c, p)\<close> is the \<open>Decimal\<close> \<open>c * 10^p\<close>. Arithmetic rounds to the 28 digits of the default context,
  half to even, and \<open>quantize\<close> raises \<open>InvalidOperation\<close> when its result needs more.
\<close>

type_synonym pydecimal = "int \<times> int"

definition decimal_digits :: "int \<Rightarrow> nat" where
  "decimal_digits c = length (show_nat (nat \<bar>c\<bar>))"

definition decimal_scaled :: "int \<Rightarrow> nat \<Rightarrow> int" where
  "decimal_scaled c k = sgn c * int (half_even (nat \<bar>c\<bar>) (10 ^ k))"

definition decimal_fix :: "pydecimal \<Rightarrow> pydecimal" where
  "decimal_fix x = (case x of (c, p) \<Rightarrow>
     if decimal_digits c \<le> 28 then (c, p)
     else let k = decimal_digits c - 28; c' = decimal_scaled c k
          in if \<bar>c'\<bar> = 10 ^ 28 then (c' div 10, p + int k + 1) else (c', p + int k))"

definition decimal_of_float :: "pyfloat \<Rightarrow> pydecimal" where
  "decimal_of_float x = (case x of
       Finite s m e \<Rightarrow> (case shortest_digits x of (c, p) \<Rightarrow> ((if s then - 1 else 1) * int c, p))
     | _ \<Rightarrow> (0, 0))"

definition decimal_times :: "pydecimal \<Rightarrow> pydecimal \<Rightarrow> pydecimal" where
  "decimal_times x y = decimal_fix (fst x * fst y, snd x + snd y)"

definition decimal_plus :: "pydecimal \<Rightarrow> pydecimal \<Rightarrow> pydecimal" where
  "decimal_plus x y = (let p = min (snd x) (snd y) in
     decimal_fix (fst x * 10 ^ nat (snd x - p) + fst y * 10 ^ nat (snd y - p), p))"

definition decimal_per_10000 :: "pydecimal \<Rightarrow> pydecimal" where
  "decimal_per_10000 x = decimal_fix (fst x, snd x - 4)"

definition quantize8 :: "pydecimal \<Rightarrow> pydecimal res" where
  "quantize8 x =
     (let c = (if - 8 \<le> snd x then fst x * 10 ^ nat (snd x + 8) else decimal_scaled (fst x) (nat (- 8 - snd x)))
      in if 28 < decimal_digits c then Inl (ArithmeticError ''decimal.InvalidOperation'') else Inr (c, - 8))"

definition float_of_decimal :: "pydecimal \<Rightarrow> pyfloat" where
  "float_of_decimal x = round_ratio (fst x < 0) (nat \<bar>fst x\<bar> * 10 ^ nat (snd x)) (10 ^ nat (- snd x))"

definition decimal_eq :: "pydecimal \<Rightarrow> pydecimal \<Rightarrow> bool" where
  "decimal_eq x y \<longleftrightarrow> (let p = min (snd x) (snd y) in
     fst x * 10 ^ nat (snd x - p) = fst y * 10 ^ nat (snd y - p))"

definition decimal_le :: "pydecimal \<Rightarrow> pydecimal \<Rightarrow> bool" where
  "decimal_le x y \<longleftrightarrow> (let p = min (snd x) (snd y) in
     fst x * 10 ^ nat (snd x - p) \<le> fst y * 10 ^ nat (snd y - p))"

subsection \<open>A review and its slot\<close>

text \<open>\<open>reference * (1 + sign * distance / 10_000)\<close>, rounded to eight places and read as a float.\<close>

definition exit_price :: "int \<Rightarrow> pyfloat \<Rightarrow> pyfloat \<Rightarrow> pyfloat res" where
  "exit_price sign reference distance =
     rbind (quantize8 (decimal_times (decimal_of_float reference)
       (decimal_plus (1, 0) (decimal_per_10000 (decimal_times (sign, 0) (decimal_of_float distance)))))) (\<lambda>price.
     Inr (float_of_decimal price))"

definition validate_slot_review :: "(string \<Rightarrow> string) \<Rightarrow> canary_slot \<Rightarrow> canary_review \<Rightarrow> unit res" where
  "validate_slot_review sha slot review =
     (let intent = rv_intent review; mismatch = CanaryAdmissionError ''review does not match the exact frozen session slot'';
          changed = CanaryAdmissionError ''canary review changed the exact session exit/entry plan'';
          sign = (if sl_side slot = ''LONG'' then 1 else - 1)
      in if sl_symbol slot \<noteq> ci_symbol intent \<or> sl_side slot \<noteq> ci_side intent then Inl mismatch
         else rbind (digest sha (intent_config slot)) (\<lambda>config.
           if config \<noteq> ci_config_sha256 intent then Inl mismatch
           else rbind (exit_price (- sign) (ci_reference_price intent) (sl_stop_distance_bps slot)) (\<lambda>stop.
                if \<not> float_eq (ci_stop_price intent) stop then Inl changed
                else rbind (exit_price sign (ci_reference_price intent) (sl_target_distance_bps slot)) (\<lambda>target.
                     if \<not> float_eq (ci_target_price intent) target
                        \<or> ci_max_holding_ms intent \<noteq> sl_max_holding_ms slot
                        \<or> ci_entry_expires_ts_ms intent - ci_entry_eligible_ts_ms intent \<noteq> sl_entry_window_ms slot
                     then Inl changed else Inr ()))))"

end
