(* ===== verification/ExecutionJournal.thy ===== *)
theory ExecutionJournal
  imports HashChain
begin

text \<open>
  The tamper-evident journal of exchange mutations, \<open>kairos_persistence/execution_journal.py\<close>, over the
  tables \<open>execution_effects\<close> and \<open>execution_effect_events\<close> of migrations 003, 004 and 006. Each effect
  is prepared before the exchange is called and confirmed, failed or reconciled afterwards; every
  change appends an event whose digest covers the digest of the event before it.

  \<open>sha\<close> is the SHA-256 of a text in hexadecimal, \<open>roles\<close> the values of \<open>kairos_core.enums.OrderRole\<close>.
  \<open>now\<close> is the transaction's \<open>now()\<close>. An operation returns its result and the tables that commit: a
  value is decoded after the commit in two places, so an operation may raise and still have written.
\<close>

subsection \<open>Data\<close>

datatype effect_type =
    PLACE_ORDER | CLOSE_POSITION | PROTECTIVE_STOP | TAKE_PROFIT | CANCEL_ORDER | CANCEL_TPSL
  | TIMEOUT_CLOSE | EMERGENCY_CLOSE | SET_LEVERAGE

primrec effect_type_value :: "effect_type \<Rightarrow> string" where
  "effect_type_value PLACE_ORDER = ''PLACE_ORDER''"
| "effect_type_value CLOSE_POSITION = ''CLOSE_POSITION''"
| "effect_type_value PROTECTIVE_STOP = ''PROTECTIVE_STOP''"
| "effect_type_value TAKE_PROFIT = ''TAKE_PROFIT''"
| "effect_type_value CANCEL_ORDER = ''CANCEL_ORDER''"
| "effect_type_value CANCEL_TPSL = ''CANCEL_TPSL''"
| "effect_type_value TIMEOUT_CLOSE = ''TIMEOUT_CLOSE''"
| "effect_type_value EMERGENCY_CLOSE = ''EMERGENCY_CLOSE''"
| "effect_type_value SET_LEVERAGE = ''SET_LEVERAGE''"

datatype effect_status = PREPARED | CONFIRMED | RECONCILED | EFFECT_FAILED

primrec effect_status_value :: "effect_status \<Rightarrow> string" where
  "effect_status_value PREPARED = ''PREPARED''"
| "effect_status_value CONFIRMED = ''CONFIRMED''"
| "effect_status_value RECONCILED = ''RECONCILED''"
| "effect_status_value EFFECT_FAILED = ''FAILED''"

text \<open>The part of an effect that never changes: \<open>prepare\<close>'s arguments and its fingerprint.\<close>

record effect_identity =
  ei_type :: effect_type
  ei_exchange :: string
  ei_symbol :: string
  ei_client_order_id :: "string option"
  ei_request_sha256 :: string
  ei_environment :: "string option"
  ei_account_id :: "string option"
  ei_trade_id :: "string option"
  ei_order_role :: "string option"

record execution_effect =
  ex_effect_key :: string
  ex_identity :: effect_identity
  ex_request_payload :: json
  ex_status :: effect_status
  ex_exchange_effect_id :: "string option"
  ex_response_payload :: "json option"
  ex_error :: "string option"
  ex_journal_head_sha256 :: string

record effect_row = execution_effect +
  ef_prepared_at :: timestamp
  ef_updated_at :: timestamp
  ef_confirmed_at :: "timestamp option"
  ef_reconciled_at :: "timestamp option"
  ef_recovery_after :: timestamp

record effect_event =
  ee_effect_key :: string
  ee_phase :: effect_status
  ee_payload :: json
  ee_previous :: "string option"
  ee_sha256 :: string

text \<open>Events are listed in the order of their \<open>sequence\<close>.\<close>

record effect_journal =
  jn_effects :: "effect_row list"
  jn_events :: "effect_event list"

record effect_request =
  rq_effect_key :: string
  rq_type :: effect_type
  rq_exchange :: string
  rq_symbol :: string
  rq_client_order_id :: "string option"
  rq_payload :: json
  rq_environment :: "string option"
  rq_account_id :: "string option"
  rq_trade_id :: "string option"
  rq_order_role :: "string option"
  rq_recovery_delay :: int

subsection \<open>Validation\<close>

definition blank_option :: "string option \<Rightarrow> bool" where
  "blank_option x = (case x of None \<Rightarrow> False | Some s \<Rightarrow> blank s)"

definition validate_identity :: "string \<Rightarrow> string \<Rightarrow> string \<Rightarrow> string option \<Rightarrow> unit res" where
  "validate_identity effect_key exchange symbol client_order_id =
     (if blank effect_key \<or> blank exchange \<or> blank symbol
      then Inl (ValueError ''effect key, exchange and symbol must not be empty'')
      else if blank_option client_order_id
      then Inl (ValueError ''client_order_id must be absent or non-empty'')
      else Inr ())"

definition validate_lineage ::
  "string list \<Rightarrow> string option \<Rightarrow> string option \<Rightarrow> string option \<Rightarrow> string option \<Rightarrow> unit res" where
  "validate_lineage roles environment account_id trade_id order_role =
     (if list_all (\<lambda>v. v = None) [environment, account_id, trade_id, order_role] then Inr ()
      else if list_ex (\<lambda>v. v = None \<or> blank_option v) [environment, account_id, trade_id, order_role]
      then Inl (ValueError ''execution effect lineage must be complete or entirely absent'')
      else if \<not> sha256_hex (the trade_id)
      then Inl (ValueError ''execution effect trade_id must be a lowercase SHA-256'')
      else if the order_role \<notin> set roles
      then Inl (ValueError ''execution effect order_role is unknown'')
      else Inr ())"

definition allowed_effect_transitions :: "effect_status \<Rightarrow> effect_status list" where
  "allowed_effect_transitions current = (case current of
       PREPARED \<Rightarrow> [PREPARED, CONFIRMED, RECONCILED, EFFECT_FAILED]
     | CONFIRMED \<Rightarrow> [CONFIRMED, RECONCILED]
     | RECONCILED \<Rightarrow> [RECONCILED]
     | EFFECT_FAILED \<Rightarrow> [EFFECT_FAILED, RECONCILED])"

definition validate_transition :: "effect_status \<Rightarrow> effect_status \<Rightarrow> unit res" where
  "validate_transition current new =
     (if new \<notin> set (allowed_effect_transitions current)
      then Inl (RuntimeError (''invalid execution effect transition '' @ effect_status_value current
             @ ''->'' @ effect_status_value new))
      else Inr ())"

subsection \<open>Events and rows\<close>

text \<open>The document whose canonical text \<open>_event_sha\<close> hashes.\<close>

definition event_document :: "string \<Rightarrow> effect_status \<Rightarrow> json \<Rightarrow> string option \<Rightarrow> json" where
  "event_document effect_key phase payload previous = JObj
     [(''domain'', JStr ''kairos.execution-effect-event.v1''), (''effect_key'', JStr effect_key),
      (''phase'', JStr (effect_status_value phase)), (''payload'', payload),
      (''previous_event_sha256'', json_text previous)]"

definition event_sha ::
  "(string \<Rightarrow> string) \<Rightarrow> string \<Rightarrow> effect_status \<Rightarrow> json \<Rightarrow> string option \<Rightarrow> string res" where
  "event_sha sha effect_key phase payload previous =
     rbind (canonical_payload sha (event_document effect_key phase payload previous)) (\<lambda>(encoded, digest).
       Inr (sha encoded))"

text \<open>\<open>_object\<close> of a \<open>JSONB\<close> value.\<close>

definition effect_object :: "json \<Rightarrow> json res" where
  "effect_object value = (if is_object value then Inr value
     else Inl (ValueError ''execution journal payload is not an object''))"

text \<open>The columns of a row that \<open>ExecutionEffect\<close> carries; \<open>effect_of_row\<close> is \<open>_record\<close>.\<close>

definition effect_of_row :: "(string \<Rightarrow> string) \<Rightarrow> effect_row \<Rightarrow> execution_effect res" where
  "effect_of_row sha row =
     rbind (effect_object (ex_request_payload row)) (\<lambda>request_payload.
     rbind (canonical_payload sha request_payload) (\<lambda>(encoded, digest).
       if digest \<noteq> ei_request_sha256 (ex_identity row)
       then Inl (MessageIdentityConflict ''stored execution request fingerprint does not match'')
       else rbind (case ex_response_payload row of None \<Rightarrow> Inr None
                   | Some r \<Rightarrow> rbind (effect_object r) (\<lambda>o'. Inr (Some o'))) (\<lambda>response_payload.
         Inr \<lparr>ex_effect_key = ex_effect_key row, ex_identity = ex_identity row,
              ex_request_payload = request_payload, ex_status = ex_status row,
              ex_exchange_effect_id = ex_exchange_effect_id row, ex_response_payload = response_payload,
              ex_error = ex_error row, ex_journal_head_sha256 = ex_journal_head_sha256 row\<rparr>)))"

text \<open>The CHECK constraints of both tables, and \<open>UNIQUE (event_sha256)\<close>.\<close>

definition stored_roles :: "string list" where
  "stored_roles = [''ENTRY'', ''STOP_LOSS'', ''TAKE_PROFIT'', ''TIMEOUT_EXIT'', ''EMERGENCY_EXIT'']"

definition filled_text :: "string option \<Rightarrow> bool" where
  "filled_text x = (case x of None \<Rightarrow> False | Some s \<Rightarrow> s \<noteq> [])"

definition identity_check :: "effect_identity \<Rightarrow> bool" where
  "identity_check i \<longleftrightarrow> sha256_hex (ei_request_sha256 i) \<and>
     (case ei_order_role i of None \<Rightarrow> True | Some r \<Rightarrow> r \<in> set stored_roles) \<and>
     ((ei_environment i = None \<and> ei_account_id i = None \<and> ei_trade_id i = None \<and> ei_order_role i = None) \<or>
      (filled_text (ei_environment i) \<and> filled_text (ei_account_id i) \<and>
       (case ei_trade_id i of None \<Rightarrow> False | Some t \<Rightarrow> sha256_hex t) \<and> ei_order_role i \<noteq> None))"

definition effect_check :: "effect_row \<Rightarrow> bool" where
  "effect_check r \<longleftrightarrow> identity_check (ex_identity r) \<and> sha256_hex (ex_journal_head_sha256 r)"

definition event_check :: "effect_event \<Rightarrow> bool" where
  "event_check e \<longleftrightarrow> sha256_hex (ee_sha256 e) \<and>
     (case ee_previous e of None \<Rightarrow> True | Some p \<Rightarrow> sha256_hex p)"

definition timestamptz_max :: int where
  "timestamptz_max = 9224318015999999999"

definition insert_effect :: "effect_row \<Rightarrow> effect_journal \<Rightarrow> effect_journal res" where
  "insert_effect row j =
     (if timestamptz_max < ef_recovery_after row then Inl (DataError ''timestamp out of range'')
      else if \<not> effect_check row then Inl (IntegrityError ''execution_effects'')
      else if ex_effect_key row \<in> set (map ex_effect_key (jn_effects j))
      then Inl (IntegrityError ''execution_effects_pkey'')
      else Inr (j\<lparr>jn_effects := insert_row row (jn_effects j)\<rparr>))"

definition append_effect_event ::
  "string \<Rightarrow> effect_status \<Rightarrow> json \<Rightarrow> string option \<Rightarrow> string \<Rightarrow> effect_journal \<Rightarrow> effect_journal res" where
  "append_effect_event effect_key phase payload previous digest j =
     rbind (store_json payload) (\<lambda>doc.
       let event = \<lparr>ee_effect_key = effect_key, ee_phase = phase, ee_payload = doc,
                    ee_previous = previous, ee_sha256 = digest\<rparr>
       in if \<not> event_check event then Inl (IntegrityError ''execution_effect_events'')
          else if digest \<in> set (map ee_sha256 (jn_events j))
          then Inl (IntegrityError ''execution_effect_events_event_sha256_key'')
          else Inr (j\<lparr>jn_events := insert_row event (jn_events j)\<rparr>))"

definition effect_at :: "string \<Rightarrow> effect_journal \<Rightarrow> effect_row option" where
  "effect_at effect_key j = select_one (\<lambda>r. ex_effect_key r = effect_key) (jn_effects j)"

definition effect_events :: "string \<Rightarrow> effect_journal \<Rightarrow> effect_event list" where
  "effect_events effect_key j = filter (\<lambda>e. ee_effect_key e = effect_key) (jn_events j)"

subsection \<open>Preparing an effect\<close>

definition prepare_event :: "effect_identity \<Rightarrow> json" where
  "prepare_event i = JObj
     [(''effect_type'', JStr (effect_type_value (ei_type i))), (''exchange'', JStr (ei_exchange i)),
      (''symbol'', JStr (ei_symbol i)), (''client_order_id'', json_text (ei_client_order_id i)),
      (''request_sha256'', JStr (ei_request_sha256 i)), (''environment'', json_text (ei_environment i)),
      (''account_id'', json_text (ei_account_id i)), (''trade_id'', json_text (ei_trade_id i)),
      (''order_role'', json_text (ei_order_role i))]"

definition identity_of_request :: "effect_request \<Rightarrow> string \<Rightarrow> effect_identity" where
  "identity_of_request req digest =
     \<lparr>ei_type = rq_type req, ei_exchange = rq_exchange req, ei_symbol = rq_symbol req,
      ei_client_order_id = rq_client_order_id req, ei_request_sha256 = digest,
      ei_environment = rq_environment req, ei_account_id = rq_account_id req,
      ei_trade_id = rq_trade_id req, ei_order_role = rq_order_role req\<rparr>"

definition validate_request :: "string list \<Rightarrow> effect_request \<Rightarrow> unit res" where
  "validate_request roles req =
     rbind (validate_identity (rq_effect_key req) (rq_exchange req) (rq_symbol req) (rq_client_order_id req)) (\<lambda>_.
     rbind (validate_lineage roles (rq_environment req) (rq_account_id req) (rq_trade_id req) (rq_order_role req)) (\<lambda>_.
       if rq_recovery_delay req < 0 then Inl (ValueError ''recovery_delay must not be negative'') else Inr ()))"

text \<open>
  The transaction: an effect that is there already is compared and returned (\<open>Inl\<close>), a new one is
  written with its first event and the new row is kept for decoding (\<open>Inr\<close>).
\<close>

definition prepare_tx ::
  "(string \<Rightarrow> string) \<Rightarrow> effect_request \<Rightarrow> string \<Rightarrow> timestamp \<Rightarrow> effect_journal
     \<Rightarrow> ((execution_effect + effect_row) \<times> effect_journal) res" where
  "prepare_tx sha req digest now j =
     (let i = identity_of_request req digest in
      case effect_at (rq_effect_key req) j of
        Some existing \<Rightarrow>
          rbind (effect_of_row sha existing) (\<lambda>effect.
            if ex_identity effect \<noteq> i
            then Inl (MessageIdentityConflict
                   ''execution effect was reused with different immutable content'')
            else Inr (Inl effect, j))
      | None \<Rightarrow>
          rbind (event_sha sha (rq_effect_key req) PREPARED (prepare_event i) None) (\<lambda>head.
          rbind (store_json (rq_payload req)) (\<lambda>doc.
            let row = \<lparr>ex_effect_key = rq_effect_key req, ex_identity = i, ex_request_payload = doc,
                   ex_status = PREPARED, ex_exchange_effect_id = None, ex_response_payload = None,
                   ex_error = None, ex_journal_head_sha256 = head, ef_prepared_at = now,
                   ef_updated_at = now, ef_confirmed_at = None, ef_reconciled_at = None,
                   ef_recovery_after = now + rq_recovery_delay req\<rparr>
            in rbind (insert_effect row j) (\<lambda>j1.
               rbind (append_effect_event (rq_effect_key req) PREPARED (prepare_event i) None head j1) (\<lambda>j2.
                 Inr (Inr row, j2))))))"

text \<open>\<open>prepare\<close> itself: the new row is decoded after the transaction has committed.\<close>

definition prepare ::
  "(string \<Rightarrow> string) \<Rightarrow> string list \<Rightarrow> effect_request \<Rightarrow> timestamp \<Rightarrow> effect_journal
     \<Rightarrow> (execution_effect \<times> bool) res \<times> effect_journal" where
  "prepare sha roles req now j =
     (case rbind (validate_request roles req) (\<lambda>_.
           rbind (canonical_payload sha (rq_payload req)) (\<lambda>(encoded, digest).
             prepare_tx sha req digest now j)) of
        Inl e \<Rightarrow> (Inl e, j)
      | Inr (Inl effect, j') \<Rightarrow> (Inr (effect, False), j')
      | Inr (Inr row, j') \<Rightarrow> (rbind (effect_of_row sha row) (\<lambda>effect. Inr (effect, True)), j'))"

subsection \<open>Settling an effect\<close>

definition effect_event_payload :: "string option \<Rightarrow> json option \<Rightarrow> string option \<Rightarrow> json" where
  "effect_event_payload exchange_effect_id response error = JObj
     [(''exchange_effect_id'', json_text exchange_effect_id),
      (''response_payload'', case response of None \<Rightarrow> JNull | Some r \<Rightarrow> r),
      (''error'', json_text error)]"

definition or_else :: "string option \<Rightarrow> string option \<Rightarrow> string option" where
  "or_else x y = (case x of None \<Rightarrow> y | Some s \<Rightarrow> if s = [] then y else x)"

definition same_document :: "json option \<Rightarrow> json option \<Rightarrow> bool" where
  "same_document a b = (case (a, b) of (None, None) \<Rightarrow> True | (Some x, Some y) \<Rightarrow> json_eq x y | _ \<Rightarrow> False)"

definition settled_effect ::
  "effect_status \<Rightarrow> string option \<Rightarrow> json option \<Rightarrow> string option \<Rightarrow> string \<Rightarrow> timestamp \<Rightarrow> effect_row \<Rightarrow> effect_row" where
  "settled_effect new_status exchange_effect_id response error head now r =
     r\<lparr>ex_status := new_status, ex_exchange_effect_id := exchange_effect_id, ex_response_payload := response,
       ex_error := error, ex_journal_head_sha256 := head, ef_updated_at := now,
       ef_confirmed_at := (if new_status = CONFIRMED then Some now else ef_confirmed_at r),
       ef_reconciled_at := (if new_status = RECONCILED then Some now else ef_reconciled_at r)\<rparr>"

definition store_option :: "json option \<Rightarrow> json option res" where
  "store_option x = (case x of None \<Rightarrow> Inr None | Some j \<Rightarrow> rbind (store_json j) (\<lambda>d. Inr (Some d)))"

definition transition_tx ::
  "(string \<Rightarrow> string) \<Rightarrow> string \<Rightarrow> effect_status \<Rightarrow> string option \<Rightarrow> json option \<Rightarrow> string option
     \<Rightarrow> timestamp \<Rightarrow> effect_journal \<Rightarrow> ((execution_effect + effect_row) \<times> effect_journal) res" where
  "transition_tx sha effect_key new_status exchange_effect_id response_payload error now j =
     (case effect_at effect_key j of
        None \<Rightarrow> Inl (KeyError ''execution effect was not prepared'')
      | Some row \<Rightarrow>
          rbind (effect_of_row sha row) (\<lambda>current.
          rbind (validate_transition (ex_status current) new_status) (\<lambda>_.
            let eid = or_else exchange_effect_id (ex_exchange_effect_id current);
                response = (if response_payload \<noteq> None then response_payload else ex_response_payload current);
                payload = effect_event_payload eid response error
            in if ex_status current = new_status
               then if ex_exchange_effect_id current \<noteq> eid
                       \<or> \<not> same_document (ex_response_payload current) response \<or> ex_error current \<noteq> error
                    then Inl (MessageIdentityConflict ''execution effect transition payload changed'')
                    else Inr (Inl current, j)
               else
                 rbind (event_sha sha effect_key new_status payload (Some (ex_journal_head_sha256 current))) (\<lambda>head.
                 rbind (store_option response) (\<lambda>doc.
                   let updated = settled_effect new_status eid doc error head now row in
                   if \<not> effect_check updated then Inl (IntegrityError ''execution_effects'')
                   else rbind (append_effect_event effect_key new_status payload
                                 (Some (ex_journal_head_sha256 current)) head
                                 (j\<lparr>jn_effects := update_where (\<lambda>r. ex_effect_key r = effect_key)
                                      (settled_effect new_status eid doc error head now) (jn_effects j)\<rparr>)) (\<lambda>j'.
                          Inr (Inr updated, j')))))))"

definition effect_transition ::
  "(string \<Rightarrow> string) \<Rightarrow> string \<Rightarrow> effect_status \<Rightarrow> string option \<Rightarrow> json option \<Rightarrow> string option
     \<Rightarrow> timestamp \<Rightarrow> effect_journal \<Rightarrow> execution_effect res \<times> effect_journal" where
  "effect_transition sha effect_key new_status exchange_effect_id response_payload error now j =
     (case transition_tx sha effect_key new_status exchange_effect_id response_payload error now j of
        Inl e \<Rightarrow> (Inl e, j)
      | Inr (Inl current, j') \<Rightarrow> (Inr current, j')
      | Inr (Inr updated, j') \<Rightarrow> (effect_of_row sha updated, j'))"

definition confirm_effect ::
  "(string \<Rightarrow> string) \<Rightarrow> string \<Rightarrow> string \<Rightarrow> json \<Rightarrow> timestamp \<Rightarrow> effect_journal
     \<Rightarrow> execution_effect res \<times> effect_journal" where
  "confirm_effect sha effect_key exchange_effect_id response_payload now j =
     (if blank exchange_effect_id then (Inl (ValueError ''exchange_effect_id must not be empty''), j)
      else effect_transition sha effect_key CONFIRMED (Some exchange_effect_id) (Some response_payload) None now j)"

definition reconcile_effect ::
  "(string \<Rightarrow> string) \<Rightarrow> string \<Rightarrow> string option \<Rightarrow> json option \<Rightarrow> timestamp \<Rightarrow> effect_journal
     \<Rightarrow> execution_effect res \<times> effect_journal" where
  "reconcile_effect sha effect_key exchange_effect_id response_payload now j =
     effect_transition sha effect_key RECONCILED exchange_effect_id response_payload None now j"

definition fail_effect ::
  "(string \<Rightarrow> string) \<Rightarrow> string \<Rightarrow> string \<Rightarrow> timestamp \<Rightarrow> effect_journal
     \<Rightarrow> execution_effect res \<times> effect_journal" where
  "fail_effect sha effect_key error now j =
     (if blank error then (Inl (ValueError ''journal failure detail must not be empty''), j)
      else effect_transition sha effect_key EFFECT_FAILED None None (Some (take 4000 error)) now j)"

subsection \<open>Reading\<close>

definition get_effect :: "(string \<Rightarrow> string) \<Rightarrow> string \<Rightarrow> effect_journal \<Rightarrow> execution_effect option res" where
  "get_effect sha effect_key j = (case effect_at effect_key j of
       None \<Rightarrow> Inr None
     | Some row \<Rightarrow> rbind (effect_of_row sha row) (\<lambda>e. Inr (Some e)))"

primrec effects_of_rows :: "(string \<Rightarrow> string) \<Rightarrow> effect_row list \<Rightarrow> execution_effect list res" where
  "effects_of_rows sha [] = Inr []"
| "effects_of_rows sha (r # rs) =
     rbind (effect_of_row sha r) (\<lambda>e. rbind (effects_of_rows sha rs) (\<lambda>es. Inr (e # es)))"

text \<open>The four queries of \<open>recovery_required\<close> differ in which scope columns they constrain.\<close>

definition in_recovery_scope ::
  "string option \<Rightarrow> string option \<Rightarrow> string option \<Rightarrow> timestamp \<Rightarrow> effect_row \<Rightarrow> bool" where
  "in_recovery_scope exchange environment account_id now r \<longleftrightarrow>
     ex_status r \<in> {PREPARED, EFFECT_FAILED} \<and> ef_recovery_after r \<le> now \<and>
     (case exchange of None \<Rightarrow> True | Some x \<Rightarrow> ei_exchange (ex_identity r) = x) \<and>
     (if environment = None then True
      else ei_environment (ex_identity r) = environment \<and> ei_account_id (ex_identity r) = account_id)"

definition recovery_rows ::
  "string option \<Rightarrow> string option \<Rightarrow> string option \<Rightarrow> timestamp \<Rightarrow> effect_journal \<Rightarrow> effect_row list" where
  "recovery_rows exchange environment account_id now j =
     sort_key (\<lambda>r. ef_prepared_at r)
       (sort_key (\<lambda>r. ex_effect_key r) (filter (in_recovery_scope exchange environment account_id now) (jn_effects j)))"

definition recovery_required ::
  "(string \<Rightarrow> string) \<Rightarrow> string option \<Rightarrow> string option \<Rightarrow> string option \<Rightarrow> timestamp \<Rightarrow> effect_journal
     \<Rightarrow> execution_effect list res" where
  "recovery_required sha exchange environment account_id now j =
     (if (environment = None) \<noteq> (account_id = None)
      then Inl (ValueError ''recovery scope requires both environment and account_id'')
      else if blank_option exchange then Inl (ValueError ''exchange must be absent or non-empty'')
      else if environment \<noteq> None \<and> (blank_option environment \<or> blank_option account_id)
      then Inl (ValueError ''environment and account_id must not be empty'')
      else effects_of_rows sha (recovery_rows exchange environment account_id now j))"

text \<open>
  The loop of \<open>verify_chain\<close>: \<open>None\<close> when a link is wrong, otherwise the last digest.
\<close>

fun verify_events ::
  "(string \<Rightarrow> string) \<Rightarrow> string \<Rightarrow> string option \<Rightarrow> effect_event list \<Rightarrow> string option option res" where
  "verify_events sha effect_key previous [] = Inr (Some previous)"
| "verify_events sha effect_key previous (row # rows) =
     rbind (effect_object (ee_payload row)) (\<lambda>payload.
       if ee_previous row \<noteq> previous then Inr None
       else rbind (event_sha sha effect_key (ee_phase row) payload previous) (\<lambda>expected.
              if ee_sha256 row \<noteq> expected then Inr None
              else verify_events sha effect_key (Some expected) rows))"

definition verify_effect_chain :: "(string \<Rightarrow> string) \<Rightarrow> string \<Rightarrow> effect_journal \<Rightarrow> bool res" where
  "verify_effect_chain sha effect_key j =
     rbind (verify_events sha effect_key None (effect_events effect_key j)) (\<lambda>v.
       case v of
         None \<Rightarrow> Inr False
       | Some previous \<Rightarrow>
           rbind (get_effect sha effect_key j) (\<lambda>effect.
             Inr (case effect of None \<Rightarrow> False
                  | Some e \<Rightarrow> effect_events effect_key j \<noteq> [] \<and> Some (ex_journal_head_sha256 e) = previous)))"

subsection \<open>Facts about rows and events\<close>

definition effect_readable :: "(string \<Rightarrow> string) \<Rightarrow> effect_row \<Rightarrow> bool" where
  "effect_readable sha r \<longleftrightarrow> is_object (ex_request_payload r) \<and> json_finite (ex_request_payload r) \<and>
     sha (canonical_json (ex_request_payload r)) = ei_request_sha256 (ex_identity r) \<and>
     (case ex_response_payload r of None \<Rightarrow> True | Some d \<Rightarrow> is_object d)"

lemma effect_object_Inr: "effect_object p = Inr q \<longleftrightarrow> is_object p \<and> q = p"
  by (auto simp: effect_object_def)

lemma effect_of_row_Inr:
  "effect_of_row sha r = Inr e \<longleftrightarrow> effect_readable sha r \<and> e = execution_effect.truncate r"
  by (cases "ex_response_payload r")
    (auto simp: effect_of_row_def effect_readable_def rbind_eq_Inr effect_object_Inr canonical_payload_Inr
      execution_effect.defs)

lemma event_document_finite [simp]: "json_finite (event_document k ph p prev) = json_finite p"
  by (simp add: event_document_def)

lemma event_sha_Inr:
  "event_sha sha k ph p prev = Inr d \<longleftrightarrow> json_finite p \<and> d = sha (canonical_json (event_document k ph p prev))"
  by (auto simp: event_sha_def rbind_eq_Inr canonical_payload_Inr)

lemma event_document_sorted:
  "canonical_json (event_document k ph (sorted_json p) prev) = canonical_json (event_document k ph p prev)"
  unfolding canonical_json_def event_document_def
  by (rule arg_cong [where f = json_dumps], rule sorted_object_cong) simp_all

lemma event_document_wf [simp]: "json_wf (event_document k ph p prev) = json_wf p"
  by (simp add: event_document_def)

lemma prepare_event_ok [simp]:
  "json_wf (prepare_event i)" "json_finite (prepare_event i)" "numbers_kept (prepare_event i)"
  "is_object (prepare_event i)"
  by (auto simp: prepare_event_def is_object_def intro!: numbers_kept_object)

lemma effect_event_payload_ok:
  assumes "\<And>r. response = Some r \<Longrightarrow> json_wf r \<and> numbers_kept r"
  shows "json_wf (effect_event_payload eid response error)"
    and "numbers_kept (effect_event_payload eid response error)"
    and "is_object (effect_event_payload eid response error)"
  using assms
  by (auto simp: effect_event_payload_def is_object_def intro!: numbers_kept_object split: option.splits)

text \<open>The loop of \<open>verify_chain\<close> over one more event.\<close>

lemma verify_events_snoc:
  "verify_events sha k p (es @ [e]) = Inr (Some q) \<longleftrightarrow>
     verify_events sha k p es = Inr (Some (ee_previous e)) \<and> is_object (ee_payload e) \<and>
     json_finite (ee_payload e) \<and>
     ee_sha256 e = sha (canonical_json (event_document k (ee_phase e) (ee_payload e) (ee_previous e))) \<and>
     q = Some (ee_sha256 e)"
proof (induction es arbitrary: p)
  case Nil
  then show ?case by (auto simp: rbind_eq_Inr effect_object_Inr event_sha_Inr)
next
  case (Cons a es)
  then show ?case by (auto simp: rbind_eq_Inr)
qed

lemma effect_at_Some: "effect_at k j = Some r \<Longrightarrow> r \<in> set (jn_effects j) \<and> ex_effect_key r = k"
  unfolding effect_at_def by (drule select_one_SomeD) simp

lemma effect_at_unique:
  "unique_by ex_effect_key (jn_effects j) \<Longrightarrow> r \<in> set (jn_effects j) \<Longrightarrow> effect_at (ex_effect_key r) j = Some r"
  unfolding effect_at_def by (rule select_one_unique)

lemma append_effect_event_Inr:
  "append_effect_event k ph p prev d j = Inr j' \<longleftrightarrow>
     (\<exists>doc. store_json p = Inr doc \<and>
       (let e = \<lparr>ee_effect_key = k, ee_phase = ph, ee_payload = doc, ee_previous = prev, ee_sha256 = d\<rparr>
        in event_check e \<and> d \<notin> ee_sha256 ` set (jn_events j) \<and>
           j' = j\<lparr>jn_events := insert_row e (jn_events j)\<rparr>))"
  by (auto simp: append_effect_event_def rbind_eq_Inr Let_def)

subsection \<open>Outcomes\<close>

lemma prepare_tx_outcome:
  assumes "prepare_tx sha req digest now j = Inr (x, j')"
  obtains
    (found) row where "effect_at (rq_effect_key req) j = Some row" and "effect_readable sha row"
      and "ex_identity row = identity_of_request req digest"
      and "x = Inl (execution_effect.truncate row)" and "j' = j"
  | (fresh) row e where "effect_at (rq_effect_key req) j = None" and "x = Inr row"
      and "ex_effect_key row = rq_effect_key req" and "ex_identity row = identity_of_request req digest"
      and "store_json (rq_payload req) = Inr (ex_request_payload row)"
      and "ex_status row = PREPARED" and "ex_response_payload row = None"
      and "ex_exchange_effect_id row = None" and "ex_error row = None"
      and "effect_check row" and "ex_effect_key row \<notin> ex_effect_key ` set (jn_effects j)"
      and "ee_effect_key e = rq_effect_key req" and "ee_phase e = PREPARED" and "ee_previous e = None"
      and "ee_sha256 e = ex_journal_head_sha256 row"
      and "ee_sha256 e = sha (canonical_json (event_document (rq_effect_key req) PREPARED
             (prepare_event (ex_identity row)) None))"
      and "store_json (prepare_event (ex_identity row)) = Inr (ee_payload e)"
      and "event_check e" and "ee_sha256 e \<notin> ee_sha256 ` set (jn_events j)"
      and "j' = j\<lparr>jn_effects := insert_row row (jn_effects j), jn_events := insert_row e (jn_events j)\<rparr>"
proof (cases "effect_at (rq_effect_key req) j")
  case (Some row)
  with assms show thesis
    by (intro found [of row])
      (auto simp: prepare_tx_def Let_def rbind_eq_Inr effect_of_row_Inr execution_effect.defs)
next
  case None
  let ?i = "identity_of_request req digest"
  obtain head doc row j1 where h: "event_sha sha (rq_effect_key req) PREPARED (prepare_event ?i) None = Inr head"
      "store_json (rq_payload req) = Inr doc"
      "row = \<lparr>ex_effect_key = rq_effect_key req, ex_identity = ?i, ex_request_payload = doc,
         ex_status = PREPARED, ex_exchange_effect_id = None, ex_response_payload = None,
         ex_error = None, ex_journal_head_sha256 = head, ef_prepared_at = now,
         ef_updated_at = now, ef_confirmed_at = None, ef_reconciled_at = None,
         ef_recovery_after = now + rq_recovery_delay req\<rparr>"
      "insert_effect row j = Inr j1"
      "append_effect_event (rq_effect_key req) PREPARED (prepare_event ?i) None head j1 = Inr j'"
      "x = Inr row"
    using assms None by (auto simp: prepare_tx_def Let_def rbind_eq_Inr)
  have j1: "j1 = j\<lparr>jn_effects := insert_row row (jn_effects j)\<rparr>" "effect_check row"
      "ex_effect_key row \<notin> ex_effect_key ` set (jn_effects j)"
    using h(4) by (auto simp: insert_effect_def)
  from h(5) obtain d where d: "store_json (prepare_event ?i) = Inr d"
      "event_check \<lparr>ee_effect_key = rq_effect_key req, ee_phase = PREPARED, ee_payload = d, ee_previous = None, ee_sha256 = head\<rparr>"
      "head \<notin> ee_sha256 ` set (jn_events j1)"
      "j' = j1\<lparr>jn_events := insert_row \<lparr>ee_effect_key = rq_effect_key req, ee_phase = PREPARED,
         ee_payload = d, ee_previous = None, ee_sha256 = head\<rparr> (jn_events j1)\<rparr>"
    by (auto simp: append_effect_event_Inr Let_def)
  show thesis
    by (rule fresh [of row "\<lparr>ee_effect_key = rq_effect_key req, ee_phase = PREPARED,
          ee_payload = d, ee_previous = None, ee_sha256 = head\<rparr>"])
      (use None h d j1 in \<open>simp_all add: event_sha_Inr\<close>)
qed

lemma transition_tx_outcome:
  assumes "transition_tx sha k new eid0 response0 error now j = Inr (x, j')"
  obtains
    (same) row where "effect_at k j = Some row" and "effect_readable sha row" and "ex_status row = new"
      and "x = Inl (execution_effect.truncate row)" and "j' = j"
  | (moved) row eid response doc e where "effect_at k j = Some row" and "effect_readable sha row"
      and "new \<in> set (allowed_effect_transitions (ex_status row))" and "ex_status row \<noteq> new"
      and "response = (if response0 \<noteq> None then response0 else ex_response_payload row)"
      and "store_option response = Inr doc"
      and "x = Inr (settled_effect new eid doc error (ee_sha256 e) now row)"
      and "ee_effect_key e = k" and "ee_phase e = new"
      and "ee_previous e = Some (ex_journal_head_sha256 row)"
      and "store_json (effect_event_payload eid response error) = Inr (ee_payload e)"
      and "json_finite (effect_event_payload eid response error)"
      and "ee_sha256 e = sha (canonical_json (event_document k new (effect_event_payload eid response error)
             (ee_previous e)))"
      and "event_check e" and "ee_sha256 e \<notin> ee_sha256 ` set (jn_events j)"
      and "j' = j\<lparr>jn_effects := update_where (\<lambda>r. ex_effect_key r = k)
             (settled_effect new eid doc error (ee_sha256 e) now) (jn_effects j),
           jn_events := insert_row e (jn_events j)\<rparr>"
proof -
  obtain row where row: "effect_at k j = Some row"
    using assms by (auto simp: transition_tx_def split: option.splits)
  obtain cur where cur: "effect_of_row sha row = Inr cur"
      "validate_transition (ex_status cur) new = Inr ()"
    using assms row by (auto simp: transition_tx_def rbind_eq_Inr)
  then have rd: "effect_readable sha row" "cur = execution_effect.truncate row" by (simp_all add: effect_of_row_Inr)
  let ?eid = "or_else eid0 (ex_exchange_effect_id row)"
  let ?response = "if response0 \<noteq> None then response0 else ex_response_payload row"
  let ?p = "effect_event_payload ?eid ?response error"
  have c: "ex_status cur = ex_status row" "ex_exchange_effect_id cur = ex_exchange_effect_id row"
      "ex_response_payload cur = ex_response_payload row" "ex_journal_head_sha256 cur = ex_journal_head_sha256 row"
    using rd by (simp_all add: execution_effect.defs)
  show thesis
  proof (cases "ex_status row = new")
    case True
    have "x = Inl cur \<and> j' = j"
      using assms True unfolding transition_tx_def row option.case cur rbind_Inr Let_def c
      by (auto simp: rbind_eq_Inr split: if_splits)
    with True row rd show thesis by (intro same [of row]) simp_all
  next
    case False
    obtain head doc where h: "event_sha sha k new ?p (Some (ex_journal_head_sha256 row)) = Inr head"
        "store_option ?response = Inr doc"
        "append_effect_event k new ?p (Some (ex_journal_head_sha256 row)) head
           (j\<lparr>jn_effects := update_where (\<lambda>r. ex_effect_key r = k)
                (settled_effect new ?eid doc error head now) (jn_effects j)\<rparr>) = Inr j'"
        "x = Inr (settled_effect new ?eid doc error head now row)"
      using assms False unfolding transition_tx_def row option.case cur rbind_Inr Let_def c
      by (auto simp: rbind_eq_Inr)
    from h(3) obtain d where d: "store_json ?p = Inr d"
        "event_check \<lparr>ee_effect_key = k, ee_phase = new, ee_payload = d,
            ee_previous = Some (ex_journal_head_sha256 row), ee_sha256 = head\<rparr>"
        "head \<notin> ee_sha256 ` set (jn_events j)"
        "j' = j\<lparr>jn_effects := update_where (\<lambda>r. ex_effect_key r = k)
                (settled_effect new ?eid doc error head now) (jn_effects j),
              jn_events := insert_row \<lparr>ee_effect_key = k, ee_phase = new, ee_payload = d,
            ee_previous = Some (ex_journal_head_sha256 row), ee_sha256 = head\<rparr> (jn_events j)\<rparr>"
      by (auto simp: append_effect_event_Inr Let_def)
    have al: "new \<in> set (allowed_effect_transitions (ex_status row))"
      using cur(2) by (auto simp: validate_transition_def c)
    have fin: "json_finite ?p" "head = sha (canonical_json (event_document k new ?p (Some (ex_journal_head_sha256 row))))"
      using h(1) by (simp_all only: event_sha_Inr)
    show thesis
      by (rule moved [of row ?response doc ?eid "\<lparr>ee_effect_key = k, ee_phase = new, ee_payload = d,
            ee_previous = Some (ex_journal_head_sha256 row), ee_sha256 = head\<rparr>"])
        (unfold effect_event.simps, fact row, fact rd(1), fact al, fact False, rule refl, fact h(2),
          fact h(4), rule refl, rule refl, rule refl, fact d(1), fact fin(1), fact fin(2), fact d(2), fact d(3), fact d(4))
  qed
qed

subsection \<open>Runs\<close>

datatype effect_op =
    Prepare effect_request timestamp
  | Confirm string string json timestamp
  | Reconcile string "string option" "json option" timestamp
  | FailEffect string string timestamp

definition effect_step :: "(string \<Rightarrow> string) \<Rightarrow> string list \<Rightarrow> effect_op \<Rightarrow> effect_journal \<Rightarrow> effect_journal" where
  "effect_step sha roles op j = (case op of
       Prepare req now \<Rightarrow> snd (prepare sha roles req now j)
     | Confirm k eid response now \<Rightarrow> snd (confirm_effect sha k eid response now j)
     | Reconcile k eid response now \<Rightarrow> snd (reconcile_effect sha k eid response now j)
     | FailEffect k error now \<Rightarrow> snd (fail_effect sha k error now j))"

text \<open>Every operation is a prepare or a transition, or leaves the tables as they were.\<close>

lemma prepare_cases:
  assumes "P j" and "\<And>digest x j'. sha (canonical_json (rq_payload req)) = digest \<Longrightarrow>
      prepare_tx sha req digest now j = Inr (x, j') \<Longrightarrow> P j'"
  shows "P (snd (prepare sha roles req now j))"
  using assms
  by (auto simp: prepare_def rbind_eq_Inr canonical_payload_Inr split: sum.splits)

lemma effect_transition_cases:
  assumes "P j" and "\<And>x j'. transition_tx sha k new eid response error now j = Inr (x, j') \<Longrightarrow> P j'"
  shows "P (snd (effect_transition sha k new eid response error now j))"
  using assms by (auto simp: effect_transition_def split: sum.splits)

lemma effect_step_cases:
  assumes "P j"
    and "\<And>req now x j'. op = Prepare req now \<Longrightarrow>
       prepare_tx sha req (sha (canonical_json (rq_payload req))) now j = Inr (x, j') \<Longrightarrow> P j'"
    and "\<And>k new eid response error now x j'.
       (\<And>r. response = Some r \<Longrightarrow> (\<exists>i. op = Confirm k i r now) \<or> (\<exists>i. op = Reconcile k i (Some r) now)) \<Longrightarrow>
       transition_tx sha k new eid response error now j = Inr (x, j') \<Longrightarrow> P j'"
  shows "P (effect_step sha roles op j)"
proof (cases op)
  case (Prepare req now)
  then show ?thesis using assms(1,2) by (auto simp: effect_step_def intro: prepare_cases)
next
  case (Confirm k i r now)
  have "P (snd (effect_transition sha k CONFIRMED (Some i) (Some r) None now j))"
    by (rule effect_transition_cases [where P = P], rule assms(1), rule assms(3)) (auto simp: Confirm)
  with assms(1) show ?thesis by (simp add: effect_step_def confirm_effect_def Confirm)
next
  case (Reconcile k i r now)
  have "P (snd (effect_transition sha k RECONCILED i r None now j))"
    by (rule effect_transition_cases [where P = P], rule assms(1), rule assms(3)) (auto simp: Reconcile)
  then show ?thesis by (simp add: effect_step_def reconcile_effect_def Reconcile)
next
  case (FailEffect k e now)
  have "P (snd (effect_transition sha k EFFECT_FAILED None None (Some (take 4000 e)) now j))"
    by (rule effect_transition_cases [where P = P], rule assms(1), rule assms(3)) auto
  with assms(1) show ?thesis by (simp add: effect_step_def fail_effect_def FailEffect)
qed

subsection \<open>The chain invariant\<close>

definition effect_op_ok :: "effect_op \<Rightarrow> bool" where
  "effect_op_ok op = (case op of
       Prepare req now \<Rightarrow> document_ok (rq_payload req)
     | Confirm k eid response now \<Rightarrow> document_ok response
     | Reconcile k eid response now \<Rightarrow> (case response of None \<Rightarrow> True | Some r \<Rightarrow> document_ok r)
     | FailEffect k error now \<Rightarrow> True)"

definition effect_row_ok :: "(string \<Rightarrow> string) \<Rightarrow> effect_journal \<Rightarrow> effect_row \<Rightarrow> bool" where
  "effect_row_ok sha j r \<longleftrightarrow> effect_readable sha r \<and>
     verify_events sha (ex_effect_key r) None (effect_events (ex_effect_key r) j)
       = Inr (Some (Some (ex_journal_head_sha256 r))) \<and>
     (case ex_response_payload r of None \<Rightarrow> True | Some d \<Rightarrow> document_ok d)"

definition journal_ok :: "(string \<Rightarrow> string) \<Rightarrow> effect_journal \<Rightarrow> bool" where
  "journal_ok sha j \<longleftrightarrow> unique_by ex_effect_key (jn_effects j) \<and>
     (\<forall>e\<in>set (jn_events j). ee_effect_key e \<in> ex_effect_key ` set (jn_effects j)) \<and>
     (\<forall>r\<in>set (jn_effects j). effect_row_ok sha j r)"

lemma effect_events_insert:
  "jn_events j' = insert_row e (jn_events j) \<Longrightarrow>
   effect_events k j' = effect_events k j @ (if ee_effect_key e = k then [e] else [])"
  by (simp add: effect_events_def insert_row_def)

lemma effect_row_ok_other:
  assumes "effect_row_ok sha j r" and "effect_events (ex_effect_key r) j' = effect_events (ex_effect_key r) j"
  shows "effect_row_ok sha j' r"
  using assms by (simp add: effect_row_ok_def)

lemma prepare_ok:
  assumes ok: "journal_ok sha j" and "document_ok (rq_payload req)"
    and tx: "prepare_tx sha req (sha (canonical_json (rq_payload req))) now j = Inr (x, j')"
  shows "journal_ok sha j'"
  using tx
proof (cases rule: prepare_tx_outcome)
  case (found row)
  with ok show ?thesis by simp
next
  case (fresh row e)
  have d: "ex_request_payload row = sorted_json (rq_payload req)" "json_finite (rq_payload req)"
    using store_document [OF assms(2) fresh(5)] by simp_all
  have p: "ee_payload e = sorted_json (prepare_event (ex_identity row))"
    using fresh(17) by (intro store_json_kept) simp_all
  have rd: "effect_readable sha row"
    using d assms(2) fresh(4,7) by (simp add: effect_readable_def document_ok_def identity_of_request_def)
  have none: "effect_events (rq_effect_key req) j = []"
    using ok fresh(3,11) unfolding effect_events_def filter_empty_conv journal_ok_def by metis
  have ev: "effect_events k j' = effect_events k j @ (if ee_effect_key e = k then [e] else [])" for k
    using fresh(20) by (intro effect_events_insert) simp
  have "verify_events sha (rq_effect_key req) None ([] @ [e]) = Inr (Some (Some (ex_journal_head_sha256 row)))"
    unfolding verify_events_snoc using fresh(13-16) p by (simp add: event_document_sorted)
  then have row: "effect_row_ok sha j' row"
    using fresh(3,7,12) rd by (simp add: effect_row_ok_def ev none)
  have "effect_row_ok sha j' r" if "r \<in> set (jn_effects j)" for r
  proof (rule effect_row_ok_other)
    show "effect_row_ok sha j r" using ok that by (simp add: journal_ok_def)
    show "effect_events (ex_effect_key r) j' = effect_events (ex_effect_key r) j"
      using that fresh(3,11,12) by (auto simp: ev)
  qed
  with row ok fresh(3,11,12,20) show ?thesis by (auto simp: journal_ok_def)
qed

lemma settled_effect_simps [simp]:
  "ex_effect_key (settled_effect new eid doc error head now r) = ex_effect_key r"
  "ex_identity (settled_effect new eid doc error head now r) = ex_identity r"
  "ex_request_payload (settled_effect new eid doc error head now r) = ex_request_payload r"
  "ex_status (settled_effect new eid doc error head now r) = new"
  "ex_response_payload (settled_effect new eid doc error head now r) = doc"
  "ex_exchange_effect_id (settled_effect new eid doc error head now r) = eid"
  "ex_error (settled_effect new eid doc error head now r) = error"
  "ex_journal_head_sha256 (settled_effect new eid doc error head now r) = head"
  by (simp_all add: settled_effect_def)

lemma transition_ok:
  assumes ok: "journal_ok sha j" and r0: "\<And>r. response0 = Some r \<Longrightarrow> document_ok r"
    and tx: "transition_tx sha k new eid0 response0 error now j = Inr (x, j')"
  shows "journal_ok sha j'"
  using tx
proof (cases rule: transition_tx_outcome)
  case (same row)
  with ok show ?thesis by simp
next
  case (moved row eid response doc e)
  have row: "row \<in> set (jn_effects j)" "ex_effect_key row = k" "effect_row_ok sha j row"
    using effect_at_Some [OF moved(1)] ok by (simp_all add: journal_ok_def)
  have response: "document_ok r" if "response = Some r" for r
    using that r0 row(3) moved(5) by (auto simp: effect_row_ok_def split: if_splits)
  have doc: "case doc of None \<Rightarrow> True | Some d \<Rightarrow> document_ok d"
  proof (cases response)
    case None
    with moved(6) show ?thesis by (auto simp: store_option_def)
  next
    case (Some r)
    with moved(6) obtain d where d: "store_json r = Inr d" "doc = Some d"
      by (auto simp: store_option_def rbind_eq_Inr)
    with store_document [OF response [OF Some] d(1)] document_ok_sorted [OF response [OF Some]]
    show ?thesis by simp
  qed
  let ?p = "effect_event_payload eid response error"
  have p: "ee_payload e = sorted_json ?p" "is_object ?p"
    using moved(11) response effect_event_payload_ok [of response eid error]
    by (auto simp: document_ok_def intro: store_json_kept)
  have ev: "effect_events q j' = effect_events q j @ (if ee_effect_key e = q then [e] else [])" for q
    using moved(16) by (intro effect_events_insert) simp
  let ?r = "settled_effect new eid doc error (ee_sha256 e) now row"
  have "effect_readable sha ?r"
    using moved(2) doc by (auto simp: effect_readable_def document_ok_def split: option.splits)
  moreover have "verify_events sha k None (effect_events k j @ [e]) = Inr (Some (Some (ee_sha256 e)))"
    unfolding verify_events_snoc using row moved(9,10,12,13) p
    by (simp add: effect_row_ok_def event_document_sorted)
  ultimately have new: "effect_row_ok sha j' ?r"
    using moved(8) doc row(2) by (simp add: effect_row_ok_def ev)
  have "effect_row_ok sha j' r" if "r \<in> set (jn_effects j')" for r
  proof -
    from that moved(16) obtain q where q: "q \<in> set (jn_effects j)"
        "r = (if ex_effect_key q = k then settled_effect new eid doc error (ee_sha256 e) now q else q)"
      by (auto simp: set_update_where)
    show ?thesis
    proof (cases "ex_effect_key q = k")
      case True
      then have "q = row" using q(1) row ok by (auto simp: journal_ok_def dest: unique_by_eq)
      with q(2) True new show ?thesis by simp
    next
      case False
      with q ok moved(8) show ?thesis
        by (auto simp: journal_ok_def ev intro: effect_row_ok_other)
    qed
  qed
  moreover have "ex_effect_key ` set (jn_effects j') = ex_effect_key ` set (jn_effects j)"
    using moved(16) by (simp add: keys_update_where)
  moreover have "unique_by ex_effect_key (jn_effects j')"
    using ok moved(16) by (simp add: journal_ok_def unique_by_update)
  moreover have "ee_effect_key e \<in> ex_effect_key ` set (jn_effects j)"
    using row(1) moved(8) row(2) by (metis imageI)
  ultimately show ?thesis using ok moved(16) by (auto simp: journal_ok_def)
qed

lemma effect_step_ok: "effect_op_ok op \<Longrightarrow> journal_ok sha j \<Longrightarrow> journal_ok sha (effect_step sha roles op j)"
proof (rule effect_step_cases)
  fix req now x j'
  assume "effect_op_ok op" "journal_ok sha j" "op = Prepare req now"
    "prepare_tx sha req (sha (canonical_json (rq_payload req))) now j = Inr (x, j')"
  then show "journal_ok sha j'" by (auto simp: effect_op_ok_def intro: prepare_ok)
next
  fix k new eid response error now x j'
  assume a: "effect_op_ok op" "journal_ok sha j"
    "\<And>r. response = Some r \<Longrightarrow> (\<exists>i. op = Confirm k i r now) \<or> (\<exists>i. op = Reconcile k i (Some r) now)"
    "transition_tx sha k new eid response error now j = Inr (x, j')"
  show "journal_ok sha j'"
  proof (rule transition_ok [OF a(2) _ a(4)])
    fix r assume "response = Some r"
    from a(3) [OF this] a(1) show "document_ok r" by (auto simp: effect_op_ok_def)
  qed
qed

interpretation effect_runs: invariant_system "effect_step sha roles" effect_op_ok "journal_ok sha" for sha roles
  by unfold_locales (rule effect_step_ok)

subsection \<open>Progress\<close>

text \<open>\<open>a \<le> b\<close>: the transition table leads from \<open>a\<close> to \<open>b\<close>.\<close>

instantiation effect_status :: order
begin

definition less_eq_effect_status :: "effect_status \<Rightarrow> effect_status \<Rightarrow> bool" where
  "a \<le> b \<longleftrightarrow> b \<in> set (allowed_effect_transitions a)"

definition less_effect_status :: "effect_status \<Rightarrow> effect_status \<Rightarrow> bool" where
  "(a :: effect_status) < b \<longleftrightarrow> a \<le> b \<and> \<not> b \<le> a"

instance
proof
  fix x y z :: effect_status
  show "x < y \<longleftrightarrow> x \<le> y \<and> \<not> y \<le> x" by (simp add: less_effect_status_def)
  show "x \<le> x" by (cases x) (simp_all add: less_eq_effect_status_def allowed_effect_transitions_def)
  show "x \<le> y \<Longrightarrow> y \<le> z \<Longrightarrow> x \<le> z"
    by (cases x; cases y; cases z; simp add: less_eq_effect_status_def allowed_effect_transitions_def)
  show "x \<le> y \<Longrightarrow> y \<le> x \<Longrightarrow> x = y"
    by (cases x; cases y; simp add: less_eq_effect_status_def allowed_effect_transitions_def)
qed

end

text \<open>A later row of the same effect: what was asked is unchanged, and without a new status nothing changed.\<close>

definition effect_le :: "effect_row \<Rightarrow> effect_row \<Rightarrow> bool" where
  "effect_le r q \<longleftrightarrow> ex_effect_key q = ex_effect_key r \<and> ex_identity q = ex_identity r \<and>
     ex_request_payload q = ex_request_payload r \<and> ex_status r \<le> ex_status q \<and>
     (ex_status q = ex_status r \<longrightarrow> q = r)"

definition journal_le :: "effect_journal \<Rightarrow> effect_journal \<Rightarrow> bool" where
  "journal_le j u \<longleftrightarrow> table_le effect_le (jn_effects j) (jn_effects u) \<and>
     (\<exists>more. jn_events u = jn_events j @ more)"

definition effect_keys_ok :: "effect_journal \<Rightarrow> bool" where
  "effect_keys_ok j \<longleftrightarrow> unique_by ex_effect_key (jn_effects j)"

lemma effect_le_refl: "effect_le r r"
  by (simp add: effect_le_def)

lemma effect_le_trans: "effect_le a b \<Longrightarrow> effect_le b c \<Longrightarrow> effect_le a c"
  unfolding effect_le_def by (metis order.antisym order.trans)

lemma journal_le_refl: "journal_le j j"
  by (simp add: journal_le_def table_le_refl effect_le_refl)

lemma journal_le_trans: "journal_le j u \<Longrightarrow> journal_le u v \<Longrightarrow> journal_le j v"
  using table_le_trans [of effect_le "jn_effects j" "jn_effects u" "jn_effects v"] effect_le_trans
  unfolding journal_le_def by (metis append.assoc)

lemma transition_keys:
  "transition_tx sha k new eid response error now j = Inr (x, j') \<Longrightarrow> effect_keys_ok j' = effect_keys_ok j"
  by (erule transition_tx_outcome) (simp_all add: effect_keys_ok_def unique_by_update)

lemma prepare_keys: "prepare_tx sha req d now j = Inr (x, j') \<Longrightarrow> effect_keys_ok j \<Longrightarrow> effect_keys_ok j'"
  by (erule prepare_tx_outcome) (simp_all add: effect_keys_ok_def)

lemma prepare_journal_le: "prepare_tx sha req d now j = Inr (x, j') \<Longrightarrow> journal_le j j'"
  by (erule prepare_tx_outcome)
    (simp_all add: journal_le_refl journal_le_def table_le_insert effect_le_refl insert_row_def [of _ "jn_events j"])

lemma transition_journal_le:
  assumes "effect_keys_ok j" and "transition_tx sha k new eid0 response0 error now j = Inr (x, j')"
  shows "journal_le j j'"
  using assms(2)
proof (cases rule: transition_tx_outcome)
  case (same row)
  then show ?thesis by (simp add: journal_le_refl)
next
  case (moved row eid response doc e)
  have row: "row \<in> set (jn_effects j)" "ex_effect_key row = k" using effect_at_Some [OF moved(1)] by simp_all
  have "effect_le r (settled_effect new eid doc error (ee_sha256 e) now r)"
    if "r \<in> set (jn_effects j)" "ex_effect_key r = k" for r
  proof -
    have "r = row" using that row assms(1) unfolding effect_keys_ok_def by (metis unique_by_eq)
    with moved(3,4) show ?thesis by (auto simp: effect_le_def less_eq_effect_status_def)
  qed
  then have "table_le effect_le (jn_effects j) (jn_effects j')"
    using moved(16) by (simp add: table_le_update effect_le_refl)
  with moved(16) show ?thesis by (simp add: journal_le_def insert_row_def)
qed

lemma effect_step_keys: "effect_keys_ok j \<Longrightarrow> effect_keys_ok (effect_step sha roles op j)"
  by (rule effect_step_cases) (auto dest: transition_keys prepare_keys)

lemma effect_step_le: "effect_keys_ok j \<Longrightarrow> journal_le j (effect_step sha roles op j)"
  by (rule effect_step_cases) (auto simp: journal_le_refl dest: prepare_journal_le transition_journal_le)

interpretation effect_history: monotone_system "effect_step sha roles" effect_keys_ok journal_le for sha roles
  by unfold_locales
    (simp_all add: effect_step_keys effect_step_le journal_le_refl, erule journal_le_trans)

lemma journal_ok_keys: "journal_ok sha j \<Longrightarrow> effect_keys_ok j"
  by (simp add: journal_ok_def effect_keys_ok_def)

subsection \<open>The chain of one effect\<close>

definition event_text :: "string \<Rightarrow> effect_event \<Rightarrow> string" where
  "event_text k e = canonical_json (event_document k (ee_phase e) (ee_payload e) (ee_previous e))"

text \<open>The same event: phase, document and predecessor agree (a document's keys have no order).\<close>

definition same_event :: "effect_event \<Rightarrow> effect_event \<Rightarrow> bool" where
  "same_event e f \<longleftrightarrow> ee_phase e = ee_phase f \<and> sorted_json (ee_payload e) = sorted_json (ee_payload f)
     \<and> ee_previous e = ee_previous f"

lemma effect_status_value_inj: "effect_status_value a = effect_status_value b \<Longrightarrow> a = b"
  by (cases a; cases b; simp)

lemma event_text_binds:
  assumes "json_wf (ee_payload e)" and "json_wf (ee_payload f)" and "event_text k e = event_text k f"
  shows "same_event e f"
proof -
  let ?d = "\<lambda>e. event_document k (ee_phase e) (ee_payload e) (ee_previous e)"
  have "sorted_json (?d e) = sorted_json (?d f)"
    using assms by (simp add: event_text_def canonical_json_inj)
  then have g: "json_get q (sorted_json (?d e)) = json_get q (sorted_json (?d f))" for q by simp
  have get: "json_get q (sorted_json (?d e)) = map_option sorted_json (json_get q (?d e))" for q e
    unfolding event_document_def by (rule json_get_sorted) simp
  from g [of "''phase''"] have "effect_status_value (ee_phase e) = effect_status_value (ee_phase f)"
    unfolding get by (simp add: event_document_def json_get_def)
  moreover from g [of "''payload''"] have "sorted_json (ee_payload e) = sorted_json (ee_payload f)"
    unfolding get by (simp add: event_document_def json_get_def)
  moreover from g [of "''previous_event_sha256''"] have "ee_previous e = ee_previous f"
    unfolding get by (simp add: event_document_def json_get_def)
  ultimately show ?thesis by (auto simp: same_event_def dest: effect_status_value_inj)
qed

interpretation effect_chain: hash_chain ee_previous "event_text k" sha "\<lambda>e. json_wf (ee_payload e)" same_event for k sha
  by unfold_locales (auto simp: same_event_def dest: event_text_binds)

lemma verify_events_linked:
  "verify_events sha k p es = Inr (Some q) \<Longrightarrow> linked ee_previous (\<lambda>e. sha (event_text k e)) p es q"
  by (induction es arbitrary: p)
    (auto simp: rbind_eq_Inr effect_object_Inr event_sha_Inr event_text_def split: if_splits)

lemma verify_effect_chain_True:
  "verify_effect_chain sha k j = Inr True \<longleftrightarrow> (\<exists>row. effect_at k j = Some row \<and> effect_readable sha row \<and>
     effect_events k j \<noteq> [] \<and>
     verify_events sha k None (effect_events k j) = Inr (Some (Some (ex_journal_head_sha256 row))))"
  by (auto simp: verify_effect_chain_def get_effect_def rbind_eq_Inr effect_of_row_Inr execution_effect.defs
      split: option.splits)

section \<open>Properties\<close>

text \<open>
  C18. Whatever sequence of prepares, confirmations, failures and reconciliations runs, with documents
  whose numbers a JSONB column keeps, \<open>verify_chain\<close> answers \<open>True\<close> for every effect of the journal.
\<close>

theorem effect_chain_verifies:
  assumes "journal_ok sha j" and "list_all effect_op_ok ops"
    and "r \<in> set (jn_effects (fold (effect_step sha roles) ops j))"
  shows "verify_effect_chain sha (ex_effect_key r) (fold (effect_step sha roles) ops j) = Inr True"
proof -
  let ?u = "fold (effect_step sha roles) ops j"
  have ok: "journal_ok sha ?u" using assms(1,2) by (intro effect_runs.run_inv)
  then have r: "effect_row_ok sha ?u r" and at: "effect_at (ex_effect_key r) ?u = Some r"
    using assms(3) by (simp_all add: journal_ok_def effect_at_unique)
  from r have "effect_events (ex_effect_key r) ?u \<noteq> []" by (auto simp: effect_row_ok_def)
  with r at show ?thesis by (auto simp: verify_effect_chain_True effect_row_ok_def)
qed

text \<open>
  The chain is tamper evident: if two states of the journal both verify for an effect and its
  head digest is the same in both, then they record the same events (phase, document and
  predecessor, one by one), or two different event texts in them have the same SHA-256.
\<close>

theorem effect_journal_tamper_evident:
  assumes "verify_effect_chain sha k j = Inr True" and "verify_effect_chain sha k u = Inr True"
    and "map_option ex_journal_head_sha256 (effect_at k j) = map_option ex_journal_head_sha256 (effect_at k u)"
    and "list_all (\<lambda>e. json_wf (ee_payload e)) (effect_events k j)"
    and "list_all (\<lambda>e. json_wf (ee_payload e)) (effect_events k u)"
  shows "list_all2 same_event (effect_events k j) (effect_events k u) \<or>
    (\<exists>e\<in>set (effect_events k j). \<exists>f\<in>set (effect_events k u).
       event_text k e \<noteq> event_text k f \<and> sha (event_text k e) = sha (event_text k f))"
proof -
  obtain r q where r: "effect_at k j = Some r" "effect_at k u = Some q"
      "verify_events sha k None (effect_events k j) = Inr (Some (Some (ex_journal_head_sha256 r)))"
      "verify_events sha k None (effect_events k u) = Inr (Some (Some (ex_journal_head_sha256 q)))"
    using assms(1,2) by (auto simp: verify_effect_chain_True)
  have "ex_journal_head_sha256 r = ex_journal_head_sha256 q" using assms(3) r(1,2) by simp
  then show ?thesis
    using verify_events_linked [OF r(3)] verify_events_linked [OF r(4)] assms(4,5)
    by (intro effect_chain.head_determines [where h = "Some (ex_journal_head_sha256 q)"]) simp_all
qed

text \<open>
  An effect only advances: after any operations it is still there with the request it was
  prepared with, in a status the transition table leads to, and if the status is the same the whole
  row is; so a reconciled effect never changes again, and no event is ever removed or rewritten.
\<close>

theorem effects_only_advance:
  assumes "effect_keys_ok j" and "r \<in> set (jn_effects j)"
  shows "(\<exists>q\<in>set (jn_effects (fold (effect_step sha roles) ops j)).
       ex_effect_key q = ex_effect_key r \<and> ex_identity q = ex_identity r \<and>
       ex_request_payload q = ex_request_payload r \<and>
       ex_status q \<in> set (allowed_effect_transitions (ex_status r)) \<and>
       (ex_status q = ex_status r \<or> ex_status r = RECONCILED \<longrightarrow> q = r)) \<and>
    (\<exists>more. jn_events (fold (effect_step sha roles) ops j) = jn_events j @ more)"
proof -
  let ?u = "fold (effect_step sha roles) ops j"
  have le: "journal_le j ?u" by (rule effect_history.run_le [OF assms(1)])
  then obtain q where q: "q \<in> set (jn_effects ?u)" "effect_le r q"
    using assms(2) unfolding journal_le_def by (auto dest: table_leD)
  then have "ex_status r = RECONCILED \<longrightarrow> ex_status q = RECONCILED"
    by (auto simp: effect_le_def less_eq_effect_status_def allowed_effect_transitions_def)
  then have "ex_effect_key q = ex_effect_key r \<and> ex_identity q = ex_identity r \<and>
       ex_request_payload q = ex_request_payload r \<and>
       ex_status q \<in> set (allowed_effect_transitions (ex_status r)) \<and>
       (ex_status q = ex_status r \<or> ex_status r = RECONCILED \<longrightarrow> q = r)"
    using q(2) by (auto simp: effect_le_def less_eq_effect_status_def)
  with q(1) le show ?thesis unfolding journal_le_def by blast
qed

lemma prepare_result:
  assumes "prepare sha roles req now j = (Inr (e, b), j')"
  shows "validate_request roles req = Inr () \<and> json_finite (rq_payload req) \<and>
    (\<exists>x. prepare_tx sha req (sha (canonical_json (rq_payload req))) now j = Inr (x, j') \<and>
       (case x of Inl f \<Rightarrow> e = f \<and> \<not> b | Inr row \<Rightarrow> e = execution_effect.truncate row \<and> b))"
  using assms
  by (auto simp: prepare_def rbind_eq_Inr canonical_payload_Inr effect_of_row_Inr split: sum.splits)

lemma prepare_row:
  assumes "prepare sha roles req now j = (Inr (e, b), j')"
  obtains row where "row \<in> set (jn_effects j')" and "ex_effect_key row = rq_effect_key req"
    and "ex_identity row = identity_of_request req (sha (canonical_json (rq_payload req)))"
    and "e = execution_effect.truncate row"
proof -
  obtain x where x: "prepare_tx sha req (sha (canonical_json (rq_payload req))) now j = Inr (x, j')"
      "case x of Inl f \<Rightarrow> e = f \<and> \<not> b | Inr row \<Rightarrow> e = execution_effect.truncate row \<and> b"
    using prepare_result [OF assms] by blast
  from x(1) show thesis
  proof (cases rule: prepare_tx_outcome)
    case (found row)
    with x(2) effect_at_Some [OF found(1)] show thesis by (intro that [of row]) simp_all
  next
    case (fresh row ev)
    with x(2) show thesis by (intro that [of row]) simp_all
  qed
qed

lemma prepare_found:
  assumes "effect_at (rq_effect_key req) u = Some row" and "effect_readable sha row"
    and "ex_identity row = identity_of_request req (sha (canonical_json (rq_payload req)))"
    and "validate_request roles req = Inr ()" and "json_finite (rq_payload req)"
  shows "prepare sha roles req now u = (Inr (execution_effect.truncate row, False), u)"
proof -
  have "effect_of_row sha row = Inr (execution_effect.truncate row)" using assms(2) by (simp add: effect_of_row_Inr)
  moreover have "canonical_payload sha (rq_payload req)
      = Inr (canonical_json (rq_payload req), sha (canonical_json (rq_payload req)))"
    using assms(5) by (simp add: canonical_payload_Inr)
  ultimately show ?thesis
    using assms by (simp add: prepare_def prepare_tx_def execution_effect.defs)
qed

text \<open>
  \<open>prepare\<close> is idempotent and gives an effect key one meaning: once an effect was prepared, then
  after any further operations preparing it again returns the durable effect, marked as not
  created, without a change; and a prepare of the same key returns only if exchange, symbol, client
  order id, lineage, type and the fingerprint of the request are the same.
\<close>

theorem prepare_one_meaning:
  assumes "prepare sha roles req now j = (Inr (e, b), j')" and "journal_ok sha j"
    and "document_ok (rq_payload req)" and "list_all effect_op_ok ops"
  shows "(\<exists>e'. prepare sha roles req later (fold (effect_step sha roles) ops j')
           = (Inr (e', False), fold (effect_step sha roles) ops j') \<and>
         ex_identity e' = ex_identity e \<and> ex_request_payload e' = ex_request_payload e \<and>
         ex_status e \<le> ex_status e') \<and>
    (\<forall>req2 now2 e2 b2 u2.
       prepare sha roles req2 now2 (fold (effect_step sha roles) ops j') = (Inr (e2, b2), u2) \<longrightarrow>
       rq_effect_key req2 = rq_effect_key req \<longrightarrow>
       identity_of_request req2 (sha (canonical_json (rq_payload req2)))
         = identity_of_request req (sha (canonical_json (rq_payload req))) \<and> \<not> b2)"
proof -
  let ?u = "fold (effect_step sha roles) ops j'"
  let ?i = "identity_of_request req (sha (canonical_json (rq_payload req)))"
  note res = prepare_result [OF assms(1)]
  from res have "journal_ok sha j'" using prepare_ok [OF assms(2,3)] by blast
  then have ok: "journal_ok sha ?u" using assms(4) by (intro effect_runs.run_inv)
  obtain row where row: "row \<in> set (jn_effects j')" "ex_effect_key row = rq_effect_key req"
      "ex_identity row = ?i" "e = execution_effect.truncate row"
    by (rule prepare_row [OF assms(1)])
  have "journal_le j' ?u"
    by (rule effect_history.run_le [OF journal_ok_keys [OF \<open>journal_ok sha j'\<close>]])
  then obtain q where q: "q \<in> set (jn_effects ?u)" "effect_le row q"
    using row(1) unfolding journal_le_def by (auto dest: table_leD)
  then have k: "ex_effect_key q = rq_effect_key req" "ex_identity q = ?i"
    using row by (simp_all add: effect_le_def)
  have at: "effect_at (rq_effect_key req) ?u = Some q"
    using ok q(1) k(1) effect_at_unique [of ?u q] by (simp add: journal_ok_def)
  have rd: "effect_readable sha q" using ok q(1) by (simp add: journal_ok_def effect_row_ok_def)
  have "prepare sha roles req later ?u = (Inr (execution_effect.truncate q, False), ?u)"
    by (rule prepare_found [OF at rd k(2)]) (use res in auto)
  moreover have "ex_identity (execution_effect.truncate q) = ex_identity e \<and>
      ex_request_payload (execution_effect.truncate q) = ex_request_payload e \<and>
      ex_status e \<le> ex_status (execution_effect.truncate q)"
    using q(2) row(4) by (simp add: effect_le_def execution_effect.defs)
  moreover have "identity_of_request req2 (sha (canonical_json (rq_payload req2))) = ?i \<and> \<not> b2"
    if p: "prepare sha roles req2 now2 ?u = (Inr (e2, b2), u2)" and key: "rq_effect_key req2 = rq_effect_key req"
    for req2 now2 e2 b2 u2
  proof -
    obtain x where x: "prepare_tx sha req2 (sha (canonical_json (rq_payload req2))) now2 ?u = Inr (x, u2)"
      "case x of Inl f \<Rightarrow> e2 = f \<and> \<not> b2 | Inr row \<Rightarrow> e2 = execution_effect.truncate row \<and> b2"
      using prepare_result [OF p] by blast
    from x(1) show ?thesis
      by (cases rule: prepare_tx_outcome) (use x(2) at key k(2) in auto)
  qed
  ultimately show ?thesis by blast
qed

lemma effects_of_rows_ok:
  "(\<And>r. r \<in> set rs \<Longrightarrow> effect_readable sha r) \<Longrightarrow> effects_of_rows sha rs = Inr (map execution_effect.truncate rs)"
proof (induction rs)
  case (Cons r rs)
  then have "effect_of_row sha r = Inr (execution_effect.truncate r)" by (simp add: effect_of_row_Inr)
  with Cons show ?case by simp
qed simp

lemma effects_of_rows_readable:
  "effects_of_rows sha rs = Inr es \<Longrightarrow> r \<in> set rs \<Longrightarrow> effect_readable sha r"
  by (induction rs arbitrary: es) (auto simp: rbind_eq_Inr effect_of_row_Inr)

lemma set_recovery_rows:
  "set (recovery_rows x env acct now j) = {r \<in> set (jn_effects j). in_recovery_scope x env acct now r}"
  by (auto simp: recovery_rows_def)

lemma in_recovery_scope_iff:
  "in_recovery_scope exchange environment account_id now r \<longleftrightarrow>
     ex_status r \<in> {PREPARED, EFFECT_FAILED} \<and> ef_recovery_after r \<le> now \<and>
     (exchange = None \<or> exchange = Some (ei_exchange (ex_identity r))) \<and>
     (environment = None \<or> ei_environment (ex_identity r) = environment \<and> ei_account_id (ex_identity r) = account_id)"
  by (cases exchange) (auto simp: in_recovery_scope_def)

text \<open>
  C19. After any operations on well-formed documents, a recovery query with a valid scope returns
  exactly the effects of that scope that were prepared or failed and whose recovery delay has
  passed, oldest first: none is missed, and none that is confirmed or reconciled is reopened.
\<close>

theorem recovery_complete:
  assumes "journal_ok sha j" and "list_all effect_op_ok ops"
    and "(environment = None) = (account_id = None)"
    and "\<not> blank_option exchange" and "\<not> blank_option environment" and "\<not> blank_option account_id"
  shows "\<exists>rows. recovery_required sha exchange environment account_id now (fold (effect_step sha roles) ops j)
      = Inr (map execution_effect.truncate rows) \<and> sorted (map ef_prepared_at rows) \<and>
    set rows = {r \<in> set (jn_effects (fold (effect_step sha roles) ops j)).
      ex_status r \<in> {PREPARED, EFFECT_FAILED} \<and> ef_recovery_after r \<le> now \<and>
      (exchange = None \<or> exchange = Some (ei_exchange (ex_identity r))) \<and>
      (environment = None \<or> ei_environment (ex_identity r) = environment \<and> ei_account_id (ex_identity r) = account_id)}"
proof -
  let ?u = "fold (effect_step sha roles) ops j"
  let ?rows = "recovery_rows exchange environment account_id now ?u"
  have ok: "journal_ok sha ?u" using assms(1,2) by (intro effect_runs.run_inv)
  then have "effect_readable sha r" if "r \<in> set ?rows" for r
    using that by (auto simp: set_recovery_rows journal_ok_def effect_row_ok_def)
  then have "recovery_required sha exchange environment account_id now ?u
      = Inr (map execution_effect.truncate ?rows)"
    using assms(3-) by (simp add: recovery_required_def effects_of_rows_ok)
  moreover have "sorted (map ef_prepared_at ?rows)" by (simp add: recovery_rows_def)
  ultimately show ?thesis
    by (intro exI [of _ ?rows]) (simp add: set_recovery_rows in_recovery_scope_iff)
qed

definition fingerprint_conflict :: py_error where
  "fingerprint_conflict = MessageIdentityConflict ''stored execution request fingerprint does not match''"

text \<open>An effect whose stored request no longer has the fingerprint it was prepared with.\<close>

definition effect_poisoned :: "(string \<Rightarrow> string) \<Rightarrow> effect_row \<Rightarrow> bool" where
  "effect_poisoned sha r \<longleftrightarrow> is_object (ex_request_payload r) \<and> json_finite (ex_request_payload r) \<and>
     sha (canonical_json (ex_request_payload r)) \<noteq> ei_request_sha256 (ex_identity r)"

lemma poisoned_row:
  assumes "effect_poisoned sha r"
  shows "effect_of_row sha r = Inl fingerprint_conflict"
proof -
  have "canonical_payload sha (ex_request_payload r)
      = Inr (canonical_json (ex_request_payload r), sha (canonical_json (ex_request_payload r)))"
    using assms by (simp add: effect_poisoned_def canonical_payload_Inr)
  with assms show ?thesis
    by (simp add: effect_of_row_def effect_poisoned_def effect_object_def fingerprint_conflict_def)
qed

lemma poisoned_not_readable: "effect_poisoned sha r \<Longrightarrow> \<not> effect_readable sha r"
  by (simp add: effect_poisoned_def effect_readable_def)

text \<open>No operation touches a poisoned effect: every one of them decodes the row first.\<close>

lemma poisoned_step:
  assumes "effect_keys_ok j" and "r \<in> set (jn_effects j)" and "effect_poisoned sha r"
  shows "r \<in> set (jn_effects (effect_step sha roles op j))"
  using assms
proof (rule_tac effect_step_cases)
  fix req now x j'
  assume "prepare_tx sha req (sha (canonical_json (rq_payload req))) now j = Inr (x, j')"
  then show "r \<in> set (jn_effects j')"
    by (cases rule: prepare_tx_outcome) (use assms(2) in auto)
next
  fix k new eid response error now x j'
  assume "transition_tx sha k new eid response error now j = Inr (x, j')"
  then show "r \<in> set (jn_effects j')"
  proof (cases rule: transition_tx_outcome)
    case (same row)
    with assms(2) show ?thesis by simp
  next
    case (moved row eid response doc e)
    have "ex_effect_key r \<noteq> k"
    proof
      assume "ex_effect_key r = k"
      then have "row = r" using assms(1,2) moved(1) effect_at_unique [of j r] by (simp add: effect_keys_ok_def)
      with moved(2) poisoned_not_readable [OF assms(3)] show False by simp
    qed
    with assms(2) moved(16) show ?thesis by (auto simp: set_update_where intro!: bexI [of _ r])
  qed
qed

lemma poisoned_kept:
  assumes "effect_keys_ok j" and "r \<in> set (jn_effects j)" and "effect_poisoned sha r"
  shows "r \<in> set (jn_effects (fold (effect_step sha roles) ops j))"
  using assms
  by (induction ops arbitrary: j) (simp_all add: poisoned_step effect_step_keys)

lemma prepare_poisons:
  assumes "prepare sha roles req now j = (res, j')" and "j' \<noteq> j"
    and "json_wf (rq_payload req)" and "is_object (rq_payload req)"
    and "sha (canonical_json (jsonb_value (rq_payload req))) \<noteq> sha (canonical_json (rq_payload req))"
  obtains row where "row \<in> set (jn_effects j')" and "ex_effect_key row = rq_effect_key req"
    and "ex_status row = PREPARED" and "ef_recovery_after row = now + rq_recovery_delay req"
    and "effect_poisoned sha row" and "res = Inl fingerprint_conflict"
proof -
  have "snd (prepare sha roles req now j) = j \<or>
    (\<exists>x. prepare_tx sha req (sha (canonical_json (rq_payload req))) now j = Inr (x, snd (prepare sha roles req now j)) \<and>
      fst (prepare sha roles req now j) = (case x of Inl f \<Rightarrow> Inr (f, False)
        | Inr row \<Rightarrow> rbind (effect_of_row sha row) (\<lambda>f. Inr (f, True))))"
    by (auto simp: prepare_def rbind_eq_Inr canonical_payload_Inr split: sum.splits)
  then obtain x where tx: "prepare_tx sha req (sha (canonical_json (rq_payload req))) now j = Inr (x, j')"
      and res: "res = (case x of Inl f \<Rightarrow> Inr (f, False) | Inr row \<Rightarrow> rbind (effect_of_row sha row) (\<lambda>f. Inr (f, True)))"
    using assms(1,2) by auto
  from tx show thesis
  proof (cases rule: prepare_tx_outcome)
    case (found row)
    with assms(2) show thesis by simp
  next
    case (fresh row e)
    have d: "ex_request_payload row = jsonb_value (rq_payload req)" "json_finite (rq_payload req)"
      using fresh(5) assms(3) by (simp_all add: store_json_Inr)
    have po: "effect_poisoned sha row"
      using d assms(4,5) fresh(4) by (simp add: effect_poisoned_def json_finite_jsonb identity_of_request_def)
    have "ef_recovery_after row = now + rq_recovery_delay req"
      using tx fresh(1,2) by (auto simp: prepare_tx_def Let_def rbind_eq_Inr)
    with po fresh res poisoned_row [OF po] show thesis by (intro that [of row]) simp_all
  qed
qed

text \<open>
  C20. A request with a number that JSONB rewrites (\<open>-0.0\<close>, or a float of \<open>1e16\<close> and more) whose two
  texts hash differently: if \<open>prepare\<close> writes it at all, it raises after the commit, and then for ever
  the effect stays PREPARED, reading it raises, confirming, failing or reconciling it raises and
  changes nothing, and once its recovery delay has passed the unscoped recovery query raises too,
  for all effects.
\<close>

theorem rewritten_number_blocks_recovery:
  assumes "prepare sha roles req now j = (res, j')" and "j' \<noteq> j" and "effect_keys_ok j"
    and "json_wf (rq_payload req)" and "is_object (rq_payload req)"
    and "sha (canonical_json (jsonb_value (rq_payload req))) \<noteq> sha (canonical_json (rq_payload req))"
  shows "res = Inl fingerprint_conflict \<and>
    get_effect sha (rq_effect_key req) (fold (effect_step sha roles) ops j') = Inl fingerprint_conflict \<and>
    (\<forall>new eid response error t.
       effect_transition sha (rq_effect_key req) new eid response error t (fold (effect_step sha roles) ops j')
         = (Inl fingerprint_conflict, fold (effect_step sha roles) ops j')) \<and>
    (\<forall>t \<ge> now + rq_recovery_delay req.
       \<exists>e. recovery_required sha None None None t (fold (effect_step sha roles) ops j') = Inl e)"
proof -
  let ?u = "fold (effect_step sha roles) ops j'"
  have keys: "effect_keys_ok j'"
    using effect_step_keys [OF assms(3), of sha roles "Prepare req now"] assms(1) by (simp add: effect_step_def)
  obtain row where row: "row \<in> set (jn_effects j')" "ex_effect_key row = rq_effect_key req"
      "ex_status row = PREPARED" "ef_recovery_after row = now + rq_recovery_delay req"
      "effect_poisoned sha row" "res = Inl fingerprint_conflict"
    by (rule prepare_poisons [OF assms(1,2,4-6)])
  have kept: "row \<in> set (jn_effects ?u)" using keys row(1,5) by (rule poisoned_kept)
  have "effect_keys_ok ?u" using keys by (rule effect_history.reach_inv)
  then have at: "effect_at (rq_effect_key req) ?u = Some row"
    using kept effect_at_unique [of ?u row] by (simp add: effect_keys_ok_def row(2))
  note dec = poisoned_row [OF row(5)]
  have "\<exists>e. recovery_required sha None None None t ?u = Inl e" if t: "now + rq_recovery_delay req \<le> t" for t
  proof (cases "recovery_required sha None None None t ?u")
    case (Inr es)
    have "row \<in> set (recovery_rows None None None t ?u)"
      using kept row(3,4) t by (simp add: set_recovery_rows in_recovery_scope_def)
    moreover from Inr have "effects_of_rows sha (recovery_rows None None None t ?u) = Inr es"
      by (simp add: recovery_required_def blank_option_def)
    ultimately have "effect_readable sha row" by (metis effects_of_rows_readable)
    with poisoned_not_readable [OF row(5)] show ?thesis by simp
  qed simp
  with row(6) show ?thesis
    by (simp add: get_effect_def effect_transition_def transition_tx_def at dec)
qed

subsection \<open>Concrete runs\<close>

text \<open>A first prepare of a key is accepted when its texts can be stored.\<close>

lemma prepare_accepted:
  assumes "jn_effects j = []" and "jn_events j = []" and "\<And>s. sha256_hex (sha s)"
    and "json_wf (rq_payload req)" and "json_finite (rq_payload req)" and "json_no_nul (rq_payload req)"
    and "json_no_nul (prepare_event (identity_of_request req (sha (canonical_json (rq_payload req)))))"
    and "identity_check (identity_of_request req (sha (canonical_json (rq_payload req))))"
    and "now + rq_recovery_delay req \<le> timestamptz_max"
  shows "\<exists>x j'. prepare_tx sha req (sha (canonical_json (rq_payload req))) now j = Inr (x, j')"
proof -
  let ?i = "identity_of_request req (sha (canonical_json (rq_payload req)))"
  let ?t = "canonical_json (event_document (rq_effect_key req) PREPARED (prepare_event ?i) None)"
  have "event_sha sha (rq_effect_key req) PREPARED (prepare_event ?i) None = Inr (sha ?t)"
    by (simp add: event_sha_Inr)
  moreover have "store_json (rq_payload req) = Inr (jsonb_value (rq_payload req))"
    using assms(4-6) by (simp add: store_json_Inr)
  moreover have "store_json (prepare_event ?i) = Inr (jsonb_value (prepare_event ?i))"
    using assms(7) by (simp add: store_json_Inr)
  ultimately show ?thesis
    using assms(1-3,8,9)
    by (simp add: prepare_tx_def effect_at_def insert_effect_def append_effect_event_def effect_check_def
        event_check_def Let_def)
qed

definition sample_request :: effect_request where
  "sample_request = \<lparr>rq_effect_key = ''e1'', rq_type = PLACE_ORDER, rq_exchange = ''x'', rq_symbol = ''BTC'',
     rq_client_order_id = None, rq_payload = JObj [(''size'', JFloat ''0.25'')], rq_environment = None,
     rq_account_id = None, rq_trade_id = None, rq_order_role = None, rq_recovery_delay = 120\<rparr>"

definition poison_request :: effect_request where
  "poison_request = sample_request\<lparr>rq_payload := JObj [(''size'', JFloat ''-0.0'')]\<rparr>"

definition empty_journal :: effect_journal where
  "empty_journal = \<lparr>jn_effects = [], jn_events = []\<rparr>"

definition sample_ops :: "effect_op list" where
  "sample_ops = [Prepare sample_request 5, Confirm ''e1'' ''oid'' (JObj [(''ok'', JBool True)]) 7]"

lemma empty_journal_ok: "journal_ok sha empty_journal" "effect_keys_ok empty_journal"
  by (simp_all add: journal_ok_def effect_keys_ok_def empty_journal_def)

lemma sample_ops_ok:
  "list_all effect_op_ok sample_ops" "document_ok (rq_payload sample_request)"
  "list_all effect_op_ok [Prepare sample_request 5]"
  by code_simp+

lemma sample_requests_valid:
  "validate_request [] sample_request = Inr ()" "validate_request [] poison_request = Inr ()"
  "json_finite (rq_payload sample_request)" "json_finite (rq_payload poison_request)"
  by code_simp+

lemma request_accepted:
  assumes "req = sample_request \<or> req = poison_request"
  obtains row j' where "prepare_tx length_sha req (length_sha (canonical_json (rq_payload req))) 5 empty_journal
      = Inr (Inr row, j')"
    and "jn_effects j' = [row]" and "ex_effect_key row = ''e1''" and "ex_status row = PREPARED"
    and "snd (prepare length_sha [] req 5 empty_journal) = j'"
    and "fst (prepare length_sha [] req 5 empty_journal)
       = rbind (effect_of_row length_sha row) (\<lambda>effect. Inr (effect, True))"
    and "\<forall>e\<in>set (jn_events j'). json_wf (ee_payload e)"
    and "ef_recovery_after row = 125" and "ei_exchange (ex_identity row) = ''x''"
proof -
  let ?d = "length_sha (canonical_json (rq_payload req))"
  have hex0: "CHR 0x00 \<notin> set (length_sha s)" for s
    using length_sha_hex [of s] by (auto simp: sha256_hex_def list_all_iff lower_hex_def)
  have "\<exists>x j'. prepare_tx length_sha req ?d 5 empty_journal = Inr (x, j')"
  proof (rule prepare_accepted)
    show "json_wf (rq_payload req)" "json_finite (rq_payload req)" "json_no_nul (rq_payload req)"
      using assms by (elim disjE; simp only: ; code_simp)+
    show "json_no_nul (prepare_event (identity_of_request req ?d))"
      using assms hex0 by (auto simp: prepare_event_def identity_of_request_def sample_request_def
          poison_request_def json_text_def)
    show "identity_check (identity_of_request req ?d)"
      using assms length_sha_hex by (auto simp: identity_check_def identity_of_request_def sample_request_def
          poison_request_def)
  qed (use assms in \<open>auto simp: empty_journal_def length_sha_hex timestamptz_max_def sample_request_def
      poison_request_def\<close>)
  then obtain x j' where tx: "prepare_tx length_sha req ?d 5 empty_journal = Inr (x, j')" by blast
  from tx show thesis
  proof (cases rule: prepare_tx_outcome)
    case (found row)
    then show thesis by (simp add: effect_at_def empty_journal_def)
  next
    case (fresh row e)
    have key: "rq_effect_key req = ''e1''" using assms by (auto simp: sample_request_def poison_request_def)
    have v: "validate_request [] req = Inr ()" "json_finite (rq_payload req)"
      using assms sample_requests_valid by auto
    have p: "prepare length_sha [] req 5 empty_journal
        = (rbind (effect_of_row length_sha row) (\<lambda>effect. Inr (effect, True)), j')"
      using tx fresh(2) v
      by (auto simp: prepare_def canonical_payload_def canonical_dumps_def)
    have pe: "ee_payload e = sorted_json (prepare_event (ex_identity row))"
      using fresh(17) by (intro store_json_kept) simp_all
    have "ef_recovery_after row = 5 + rq_recovery_delay req"
      using tx fresh(1,2) by (auto simp: prepare_tx_def Let_def rbind_eq_Inr)
    then have "ef_recovery_after row = 125" using assms by (auto simp: sample_request_def poison_request_def)
    moreover have "ei_exchange (ex_identity row) = ''x''"
      using assms fresh(4) by (auto simp: sample_request_def poison_request_def identity_of_request_def)
    ultimately show thesis
      using tx fresh key p pe
      by (intro that [of row j']) (simp_all add: empty_journal_def insert_row_def json_wf_sorted)
  qed
qed

theorem effect_chain_verifies_witness:
  "verify_effect_chain length_sha ''e1'' (fold (effect_step length_sha []) [Prepare sample_request 5] empty_journal) = Inr True"
proof -
  obtain row j' where r: "jn_effects j' = [row]" "ex_effect_key row = ''e1''"
      "snd (prepare length_sha [] sample_request 5 empty_journal) = j'"
    using request_accepted [of sample_request] by metis
  then have "row \<in> set (jn_effects (fold (effect_step length_sha []) [Prepare sample_request 5] empty_journal))"
    by (simp add: effect_step_def)
  from effect_chain_verifies [OF empty_journal_ok(1) sample_ops_ok(3) this] r(2) show ?thesis by simp
qed

theorem effects_only_advance_witness:
  "\<exists>r. r \<in> set (jn_effects (snd (prepare length_sha [] sample_request 5 empty_journal))) \<and>
     ex_status r = PREPARED \<and>
     (\<exists>q\<in>set (jn_effects (fold (effect_step length_sha []) [Confirm ''e1'' ''oid'' (JObj [(''ok'', JBool True)]) 7]
        (snd (prepare length_sha [] sample_request 5 empty_journal)))).
      ex_identity q = ex_identity r)"
proof -
  let ?j = "snd (prepare length_sha [] sample_request 5 empty_journal)"
  obtain r where r: "r \<in> set (jn_effects ?j)" "ex_status r = PREPARED"
    using request_accepted [of sample_request] by (metis list.set_intros(1))
  have "effect_keys_ok ?j"
    using effect_step_keys [OF empty_journal_ok(2), of length_sha "[]" "Prepare sample_request 5"]
    by (simp add: effect_step_def)
  from effects_only_advance [OF this r(1), of length_sha "[]" "[Confirm ''e1'' ''oid'' (JObj [(''ok'', JBool True)]) 7]"] r
  show ?thesis by blast
qed

theorem effect_journal_tamper_evident_witness:
  "\<exists>u. effect_events ''e1'' u \<noteq> [] \<and> verify_effect_chain length_sha ''e1'' u = Inr True \<and>
     (list_all2 same_event (effect_events ''e1'' u) (effect_events ''e1'' u) \<or>
      (\<exists>e\<in>set (effect_events ''e1'' u). \<exists>f\<in>set (effect_events ''e1'' u). event_text ''e1'' e \<noteq> event_text ''e1'' f \<and>
         length_sha (event_text ''e1'' e) = length_sha (event_text ''e1'' f)))"
proof -
  let ?u = "effect_step length_sha [] (Prepare sample_request 5) empty_journal"
  obtain row j' where r: "jn_effects j' = [row]" "ex_effect_key row = ''e1''"
      "snd (prepare length_sha [] sample_request 5 empty_journal) = j'"
      "\<forall>e\<in>set (jn_events j'). json_wf (ee_payload e)"
    using request_accepted [of sample_request] by metis
  have j': "?u = j'" using r(3) by (simp add: effect_step_def)
  have "journal_ok length_sha ?u"
    by (rule effect_step_ok) (use sample_ops_ok(3) empty_journal_ok(1) in simp_all)
  then have ok: "effect_row_ok length_sha j' row" "effect_at ''e1'' j' = Some row"
    using r(1,2) by (simp_all add: journal_ok_def j' effect_at_def)
  then have ne: "effect_events ''e1'' j' \<noteq> []" using r(2) by (auto simp: effect_row_ok_def)
  with ok r(2) have v: "verify_effect_chain length_sha ''e1'' j' = Inr True"
    by (auto simp: verify_effect_chain_True effect_row_ok_def)
  have w: "list_all (\<lambda>e. json_wf (ee_payload e)) (effect_events ''e1'' j')"
    using r(4) by (simp add: list_all_iff effect_events_def)
  from effect_journal_tamper_evident [OF v v refl w w] ne v show ?thesis by blast
qed

theorem prepare_one_meaning_witness:
  "\<exists>e j' e'. prepare length_sha [] sample_request 5 empty_journal = (Inr (e, True), j') \<and>
     prepare length_sha [] sample_request 9 (fold (effect_step length_sha []) sample_ops j')
       = (Inr (e', False), fold (effect_step length_sha []) sample_ops j') \<and> ex_identity e' = ex_identity e"
proof -
  let ?p = "prepare length_sha [] sample_request 5 empty_journal"
  obtain row j' where r: "jn_effects j' = [row]" "snd ?p = j'"
      "fst ?p = rbind (effect_of_row length_sha row) (\<lambda>effect. Inr (effect, True))"
    using request_accepted [of sample_request] by metis
  have "journal_ok length_sha j'"
    using effect_step_ok [of "Prepare sample_request 5" length_sha empty_journal "[]"] sample_ops_ok(3)
      empty_journal_ok(1) r(2) by (simp add: effect_step_def)
  then have "effect_of_row length_sha row = Inr (execution_effect.truncate row)"
    using r(1) by (simp add: journal_ok_def effect_row_ok_def effect_of_row_Inr)
  then have p: "?p = (Inr (execution_effect.truncate row, True), j')" using r(2,3) by (metis prod.collapse rbind_Inr)
  from prepare_one_meaning [OF p empty_journal_ok(1) sample_ops_ok(2,1), of 9] p show ?thesis by blast
qed

theorem recovery_complete_witness:
  "\<exists>(row :: effect_row) rows. recovery_required length_sha (Some ''x'') None None 200
       (fold (effect_step length_sha []) [Prepare sample_request 5] empty_journal)
     = Inr (map execution_effect.truncate rows) \<and> row \<in> set rows \<and> ex_effect_key row = ''e1''"
proof -
  obtain row j' where r: "jn_effects j' = [row]" "ex_effect_key row = ''e1''" "ex_status row = PREPARED"
      "ef_recovery_after row = 125" "ei_exchange (ex_identity row) = ''x''"
      "snd (prepare length_sha [] sample_request 5 empty_journal) = j'"
    using request_accepted [of sample_request] by metis
  have "\<not> blank ''x''" by code_simp
  then obtain rows where rows: "recovery_required length_sha (Some ''x'') None None 200 j'
      = Inr (map execution_effect.truncate rows)"
      "set rows = {q \<in> set (jn_effects j'). ex_status q \<in> {PREPARED, EFFECT_FAILED} \<and> ef_recovery_after q \<le> 200 \<and>
        (Some ''x'' = None \<or> Some ''x'' = Some (ei_exchange (ex_identity q))) \<and> (None = None \<or> ei_environment (ex_identity q) = None \<and> ei_account_id (ex_identity q) = None)}"
    using recovery_complete [OF empty_journal_ok(1) sample_ops_ok(3), of None None "Some ''x''" length_sha 200 "[]"] r(6)
    by (auto simp: blank_option_def effect_step_def)
  then have "row \<in> set rows" using r by simp
  with rows(1) r(2,6) show ?thesis by (intro exI [of _ row] exI [of _ rows]) (simp add: effect_step_def)
qed

theorem rewritten_number_blocks_recovery_witness:
  "fst (prepare length_sha [] poison_request 5 empty_journal) = Inl fingerprint_conflict \<and>
   (\<exists>e. recovery_required length_sha None None None 200 (snd (prepare length_sha [] poison_request 5 empty_journal)) = Inl e)"
proof -
  let ?p = "prepare length_sha [] poison_request 5 empty_journal"
  have p: "?p = (fst ?p, snd ?p)" by simp
  obtain row j' where "jn_effects j' = [row]" "snd ?p = j'"
    using request_accepted [of poison_request] by metis
  then have ne: "snd ?p \<noteq> empty_journal" by (auto simp: empty_journal_def)
  have w: "json_wf (rq_payload poison_request)" "is_object (rq_payload poison_request)"
    "length_sha (canonical_json (jsonb_value (rq_payload poison_request))) \<noteq> length_sha (canonical_json (rq_payload poison_request))"
    "5 + rq_recovery_delay poison_request = 125"
    by code_simp+
  from rewritten_number_blocks_recovery [OF p ne empty_journal_ok(2) w(1-3), of "[]"] w(4) show ?thesis by auto
qed

end
