(* ===== verification/CanaryEvidence.thy ===== *)
theory CanaryEvidence
  imports CanaryPlan ExecutionJournal
begin

text \<open>
  The read-only recorder of \<open>kairos_persistence/canary_session.py\<close> over the tables of migration 014: runs at
  the database clock, a chain of samples, the verifier that a receipt is derived from, and the
  receipts themselves. \<open>models\<close> holds the decoders, \<open>nonce\<close> is \<open>secrets.token_hex(32)\<close> and \<open>now\<close>
  the value of \<open>clock_timestamp()\<close>.
\<close>

subsection \<open>Tables\<close>

datatype run_state = RECORDING | CERTIFIED

record readonly_run =
  rr_run_id :: string
  rr_scope :: json
  rr_scope_sha256 :: string
  rr_database_instance_id :: string
  rr_started_at :: timestamp
  rr_sample_period_ms :: int
  rr_sample_count :: int
  rr_head_sha256 :: string
  rr_state :: run_state

record readonly_sample =
  rs_run_id :: string
  rs_seq :: int
  rs_received_at :: timestamp
  rs_payload :: json
  rs_previous_sha256 :: string
  rs_sample_sha256 :: string

record readonly_receipt =
  rc_receipt_id :: string
  rc_run_id :: string
  rc_payload :: json
  rc_certified_at :: timestamp

record evidence_db =
  ed_instance_id :: string
  ed_runs :: "readonly_run list"
  ed_samples :: "readonly_sample list"
  ed_receipts :: "readonly_receipt list"
  ed_effects :: "effect_row list"

definition run_at :: "string \<Rightarrow> 'a evidence_db_scheme \<Rightarrow> readonly_run option" where
  "run_at run_id db = select_one (\<lambda>r. rr_run_id r = run_id) (ed_runs db)"

definition samples_of :: "string \<Rightarrow> 'a evidence_db_scheme \<Rightarrow> readonly_sample list" where
  "samples_of run_id db = sort_key rs_seq (filter (\<lambda>s. rs_run_id s = run_id) (ed_samples db))"

definition receipt_of_run :: "string \<Rightarrow> 'a evidence_db_scheme \<Rightarrow> readonly_receipt option" where
  "receipt_of_run run_id db = select_one (\<lambda>r. rc_run_id r = run_id) (ed_receipts db)"

text \<open>\<open>d[key]\<close> on a decoded object.\<close>

definition subscript :: "string \<Rightarrow> json \<Rightarrow> json res" where
  "subscript k j = (case json_get k j of None \<Rightarrow> Inl (KeyError k) | Some v \<Rightarrow> Inr v)"

subsection \<open>Recording\<close>

definition sample_document :: "string \<Rightarrow> int \<Rightarrow> timestamp \<Rightarrow> string \<Rightarrow> json \<Rightarrow> json" where
  "sample_document run_id seq received_at previous data = JObj
     [(''domain'', JStr ''kairos.readonly-sample.v1''), (''run_id'', JStr run_id), (''seq'', JInt seq),
      (''received_at'', JStr (isoformat_auto received_at)), (''previous'', JStr previous),
      (''observation'', data)]"

definition sample_identity ::
  "(string \<Rightarrow> string) \<Rightarrow> string \<Rightarrow> int \<Rightarrow> timestamp \<Rightarrow> string \<Rightarrow> json \<Rightarrow> string res" where
  "sample_identity sha run_id seq received_at previous data =
     digest sha (sample_document run_id seq received_at previous data)"

definition run_check :: "readonly_run \<Rightarrow> bool" where
  "run_check r \<longleftrightarrow> sha256_hex (rr_run_id r) \<and> sha256_hex (rr_scope_sha256 r) \<and> sha256_hex (rr_head_sha256 r) \<and>
     5000 \<le> rr_sample_period_ms r \<and> rr_sample_period_ms r \<le> 60000 \<and> 0 \<le> rr_sample_count r"

definition begin_readonly ::
  "canary_models \<Rightarrow> (string \<Rightarrow> string) \<Rightarrow> canary_scope \<Rightarrow> int \<Rightarrow> string \<Rightarrow> timestamp \<Rightarrow> 'a evidence_db_scheme
     \<Rightarrow> (string \<times> 'a evidence_db_scheme) res" where
  "begin_readonly models sha scope0 sample_period_ms nonce now db =
     rbind (validated (decode_scope models) (scope_dump scope0)) (\<lambda>scope.
       if \<not> (5000 \<le> sample_period_ms \<and> sample_period_ms \<le> 60000)
       then Inl (ValueError ''read-only cadence must be 5..60 seconds'')
       else let data = scope_dump scope in
         rbind (digest sha (JObj [(''domain'', JStr ''kairos.readonly-run.v1''), (''scope'', data),
                  (''nonce'', JStr nonce)])) (\<lambda>run_id.
         rbind (store_json data) (\<lambda>doc.
         rbind (digest sha data) (\<lambda>scope_sha256.
           let row = \<lparr>rr_run_id = run_id, rr_scope = doc, rr_scope_sha256 = scope_sha256,
                 rr_database_instance_id = ed_instance_id db, rr_started_at = now,
                 rr_sample_period_ms = sample_period_ms, rr_sample_count = 0, rr_head_sha256 = zero_sha,
                 rr_state = RECORDING\<rparr>
           in if \<not> run_check row \<or> run_id \<in> set (map rr_run_id (ed_runs db))
              then Inl (IntegrityError ''paper_readonly_runs'')
              else Inr (run_id, db\<lparr>ed_runs := insert_row row (ed_runs db)\<rparr>)))))"

definition sample_check :: "readonly_sample \<Rightarrow> bool" where
  "sample_check s \<longleftrightarrow> 0 < rs_seq s \<and> sha256_hex (rs_previous_sha256 s) \<and> sha256_hex (rs_sample_sha256 s)"

text \<open>The comparison with the sample before: \<open>Some seq\<close> when the observation is a repetition of it.\<close>

definition prior_sample ::
  "readonly_run \<Rightarrow> int \<Rightarrow> readonly_observation \<Rightarrow> json \<Rightarrow> timestamp \<Rightarrow> 'a evidence_db_scheme \<Rightarrow> int option res" where
  "prior_sample run seq observation data now db =
     (if seq \<le> 1 then Inr None
      else case select_one (\<lambda>s. rs_run_id s = rr_run_id run \<and> rs_seq s = seq - 1) (ed_samples db) of
          None \<Rightarrow> Inl (TypeError ''NoneType object is not subscriptable'')
        | Some prior \<Rightarrow>
            rbind (evidence_object (rs_payload prior)) (\<lambda>prior_data.
            rbind (subscript ''observed_at_ms'' prior_data) (\<lambda>observed.
              if json_eq observed (JInt (ro_observed_at_ms observation))
              then if \<not> json_eq prior_data data
                   then Inl (MessageIdentityConflict
                          ''read-only observation timestamp was reused with different bytes'')
                   else Inr (Some (seq - 1))
              else if millis now - millis (rs_received_at prior) < rr_sample_period_ms run - 2000
              then Inl (CanaryAdmissionError ''read-only samples cannot oversample the fixed cadence'')
              else Inr None)))"

definition sampled_run :: "int \<Rightarrow> string \<Rightarrow> readonly_run \<Rightarrow> readonly_run" where
  "sampled_run seq sha256 r = r\<lparr>rr_sample_count := seq, rr_head_sha256 := sha256\<rparr>"

definition append_observation ::
  "canary_models \<Rightarrow> (string \<Rightarrow> string) \<Rightarrow> string \<Rightarrow> readonly_observation \<Rightarrow> timestamp \<Rightarrow> 'a evidence_db_scheme
     \<Rightarrow> (int \<times> 'a evidence_db_scheme) res" where
  "append_observation models sha run_id observation0 now db =
     rbind (validated (decode_observation models) (observation_dump observation0)) (\<lambda>observation.
       let data = observation_dump observation in
       case run_at run_id db of
         None \<Rightarrow> Inl (CanaryAdmissionError ''read-only run is missing or sealed'')
       | Some run \<Rightarrow>
           if rr_state run \<noteq> RECORDING then Inl (CanaryAdmissionError ''read-only run is missing or sealed'')
           else let seq = rr_sample_count run + 1 in
             rbind (prior_sample run seq observation data now db) (\<lambda>repeated.
               case repeated of
                 Some n \<Rightarrow> Inr (n, db)
               | None \<Rightarrow>
                   if 2000 < \<bar>millis now - ro_observed_at_ms observation\<bar>
                   then Inl (CanaryAdmissionError ''cannot append a backdated read-only observation'')
                   else rbind (sample_identity sha run_id seq now (rr_head_sha256 run) data) (\<lambda>sha256.
                     rbind (store_json data) (\<lambda>doc.
                       let row = \<lparr>rs_run_id = run_id, rs_seq = seq, rs_received_at = now, rs_payload = doc,
                             rs_previous_sha256 = rr_head_sha256 run, rs_sample_sha256 = sha256\<rparr>
                       in if \<not> sample_check row \<or> (run_id, seq) \<in> set (map (\<lambda>s. (rs_run_id s, rs_seq s)) (ed_samples db))
                          then Inl (IntegrityError ''paper_readonly_samples'')
                          else Inr (seq, db\<lparr>ed_samples := insert_row row (ed_samples db),
                                 ed_runs := update_where (\<lambda>r. rr_run_id r = run_id) (sampled_run seq sha256)
                                   (ed_runs db)\<rparr>)))))"

subsection \<open>The verifier\<close>

text \<open>
  What the loop collects for a symbol: the milliseconds for which it counts as available and the
  absolute measures of the available samples. \<open>weight\<close> is the time a sample stands for.
\<close>

record symbol_tally =
  ty_available_ms :: int
  ty_basis :: "pyfloat list"
  ty_spread :: "pyfloat list"
  ty_slippage :: "pyfloat list"

type_synonym tally = "string \<Rightarrow> symbol_tally"

definition empty_tally :: tally where
  "empty_tally = (\<lambda>symbol. \<lparr>ty_available_ms = 0, ty_basis = [], ty_spread = [], ty_slippage = []\<rparr>)"

definition required :: "'a option \<Rightarrow> 'a res" where
  "required x = (case x of None \<Rightarrow> Inl (TypeError ''bad operand type for abs(): NoneType'') | Some f \<Rightarrow> Inr f)"

definition tally_symbol :: "int \<Rightarrow> symbol_observation \<Rightarrow> tally \<Rightarrow> tally res" where
  "tally_symbol weight item t =
     (if \<not> so_available item then Inr t
      else if (case so_book_age_ms item of None \<Rightarrow> True | Some n \<Rightarrow> 5000 < n)
      then Inl (CanaryAdmissionError ''read-only book age exceeds five seconds'')
      else if (case so_timestamp_skew_ms item of None \<Rightarrow> True | Some n \<Rightarrow> 2000 < n)
      then Inl (CanaryAdmissionError ''read-only timestamp skew exceeds two seconds'')
      else if so_symbol item \<notin> set canary_symbols then Inl (KeyError (so_symbol item))
      else rbind (required (so_basis_bps item)) (\<lambda>basis.
           rbind (required (so_spread_bps item)) (\<lambda>spread.
           rbind (required (so_slippage_bps item)) (\<lambda>slippage.
             let c = t (so_symbol item)
             in Inr (t(so_symbol item := \<lparr>ty_available_ms = ty_available_ms c + weight,
                   ty_basis = ty_basis c @ [float_abs basis], ty_spread = ty_spread c @ [float_abs spread],
                   ty_slippage = ty_slippage c @ [float_abs slippage]\<rparr>))))))"

fun tally_symbols :: "int \<Rightarrow> symbol_observation list \<Rightarrow> tally \<Rightarrow> tally res" where
  "tally_symbols weight [] t = Inr t"
| "tally_symbols weight (item # items) t = rbind (tally_symbol weight item t) (tally_symbols weight items)"

definition sample_weight :: "int \<Rightarrow> int \<Rightarrow> int \<Rightarrow> int" where
  "sample_weight period received_ms next_ms = max 0 (min period (next_ms - received_ms))"

text \<open>The bounds and the period of a run, and the state the loop carries from row to row.\<close>

record window =
  wn_start_ms :: int
  wn_end_ms :: int
  wn_period :: int

record verifier =
  vf_seq :: int
  vf_head :: string
  vf_previous_ms :: int
  vf_tally :: tally
  vf_sample :: "readonly_observation option"

definition verify_sample ::
  "canary_models \<Rightarrow> (string \<Rightarrow> string) \<Rightarrow> string \<Rightarrow> window \<Rightarrow> readonly_sample \<Rightarrow> readonly_sample list \<Rightarrow> verifier
     \<Rightarrow> verifier res" where
  "verify_sample models sha run_id w row rest v =
     (let seq = vf_seq v + 1; received_ms = millis (rs_received_at row) in
      rbind (evidence_object (rs_payload row)) (\<lambda>data.
      rbind (validated (decode_observation models) data) (\<lambda>sample.
      rbind (sample_identity sha run_id seq (rs_received_at row) (vf_head v) data) (\<lambda>expected.
        if rs_seq row \<noteq> seq \<or> rs_previous_sha256 row \<noteq> vf_head v \<or> rs_sample_sha256 row \<noteq> expected
        then Inl (MessageIdentityConflict ''read-only observation hash chain is invalid'')
        else if \<not> (wn_start_ms w \<le> received_ms \<and> received_ms \<le> wn_end_ms w) \<or> received_ms \<le> vf_previous_ms v
        then Inl (CanaryAdmissionError ''read-only observation timestamps are reordered or outside the run'')
        else if 2000 < \<bar>ro_observed_at_ms sample - received_ms\<bar>
        then Inl (CanaryAdmissionError ''read-only observation is backdated or clock-skewed'')
        else if ro_unresolved_bar_gaps sample \<noteq> 0 \<or> ro_reconciliation_drift sample \<or> ro_entry_mutations sample \<noteq> 0
        then Inl (CanaryAdmissionError ''read-only gap, reconciliation drift or mutation evidence'')
        else let next_ms = (case rest of [] \<Rightarrow> wn_end_ms w | r # rs \<Rightarrow> millis (rs_received_at r))
             in rbind (tally_symbols (sample_weight (wn_period w) received_ms next_ms) (ro_symbols sample) (vf_tally v))
                  (\<lambda>t. Inr \<lparr>vf_seq = seq, vf_head = expected, vf_previous_ms = received_ms, vf_tally = t,
                     vf_sample = Some sample\<rparr>)))))"

fun verify_samples ::
  "canary_models \<Rightarrow> (string \<Rightarrow> string) \<Rightarrow> string \<Rightarrow> window \<Rightarrow> readonly_sample list \<Rightarrow> verifier \<Rightarrow> verifier res" where
  "verify_samples models sha run_id w [] v = Inr v"
| "verify_samples models sha run_id w (row # rows) v =
     rbind (verify_sample models sha run_id w row rows v) (verify_samples models sha run_id w rows)"

definition first_verifier :: "window \<Rightarrow> verifier" where
  "first_verifier w = \<lparr>vf_seq = 0, vf_head = zero_sha, vf_previous_ms = wn_start_ms w - 1,
     vf_tally = empty_tally, vf_sample = None\<rparr>"

text \<open>\<open>sorted(values)[math.ceil(len(values) * 0.95) - 1]\<close>; a negative index counts from the end.\<close>

definition p95_index :: "nat \<Rightarrow> int" where
  "p95_index n = float_ceil (float_times (float_of_int (int n)) (float_of_ratio 95 100)) - 1"

definition p95 :: "pyfloat list \<Rightarrow> pyfloat res" where
  "p95 values = (let i = p95_index (length values); n = int (length values) in
     if 0 \<le> i \<and> i < n then Inr (sort_key float_units values ! nat i)
     else if - n \<le> i \<and> i < 0 then Inr (sort_key float_units values ! nat (n + i))
     else Inl (KeyError ''list index out of range''))"

definition bounded_p95 :: "pyfloat list \<Rightarrow> pyfloat res" where
  "bounded_p95 values = rbind (p95 values) (\<lambda>x.
     if float_less (float_of_int 25) x
     then Inl (CanaryAdmissionError ''read-only p95 basis/spread/slippage exceeds 25 bps'') else Inr x)"

definition symbol_metrics :: "int \<Rightarrow> symbol_tally \<Rightarrow> json res" where
  "symbol_metrics duration c =
     (let availability = float_of_ratio (ty_available_ms c) duration in
      if float_less availability (float_of_ratio 99 100)
      then Inl (CanaryAdmissionError ''read-only availability below 99% for a required symbol'')
      else rbind (bounded_p95 (ty_basis c)) (\<lambda>basis.
           rbind (bounded_p95 (ty_spread c)) (\<lambda>spread.
           rbind (bounded_p95 (ty_slippage c)) (\<lambda>slippage.
             Inr (JObj [(''availability'', json_float availability), (''p95_basis_bps'', json_float basis),
               (''p95_spread_bps'', json_float spread), (''p95_slippage_bps'', json_float slippage)])))))"

fun all_metrics :: "int \<Rightarrow> tally \<Rightarrow> string list \<Rightarrow> (string \<times> json) list res" where
  "all_metrics duration t [] = Inr []"
| "all_metrics duration t (symbol # symbols) =
     rbind (symbol_metrics duration (t symbol)) (\<lambda>m.
     rbind (all_metrics duration t symbols) (\<lambda>ms. Inr ((symbol, m) # ms)))"

definition receipt_document ::
  "readonly_run \<Rightarrow> timestamp \<Rightarrow> int \<Rightarrow> int \<Rightarrow> string \<Rightarrow> (string \<times> json) list \<Rightarrow> json" where
  "receipt_document run ended_at duration count head metrics = JObj
     [(''domain'', JStr ''kairos.readonly-receipt.v1''), (''run_id'', JStr (rr_run_id run)),
      (''scope_sha256'', JStr (rr_scope_sha256 run)),
      (''database_instance_id'', JStr (rr_database_instance_id run)),
      (''started_at'', JStr (isoformat_auto (rr_started_at run))), (''ended_at'', JStr (isoformat_auto ended_at)),
      (''duration_ms'', JInt duration), (''sample_count'', JInt count), (''head_sha256'', JStr head),
      (''sample_period_ms'', JInt (rr_sample_period_ms run)), (''metrics'', JObj metrics)]"

definition run_window :: "readonly_run \<Rightarrow> timestamp \<Rightarrow> window" where
  "run_window run ended_at = \<lparr>wn_start_ms = millis (rr_started_at run), wn_end_ms = millis ended_at,
     wn_period = rr_sample_period_ms run\<rparr>"

definition verify_readonly_evidence ::
  "canary_models \<Rightarrow> (string \<Rightarrow> string) \<Rightarrow> readonly_run \<Rightarrow> readonly_sample list \<Rightarrow> timestamp \<Rightarrow> json res" where
  "verify_readonly_evidence models sha run samples ended_at =
     (let w = run_window run ended_at; duration = wn_end_ms w - wn_start_ms w in
      rbind (evidence_object (rr_scope run)) (\<lambda>stored.
      rbind (validated (decode_scope models) stored) (\<lambda>scope.
      rbind (digest sha (scope_dump scope)) (\<lambda>scope_sha256.
        if scope_sha256 \<noteq> rr_scope_sha256 run
        then Inl (MessageIdentityConflict ''read-only scope fingerprint mismatch'')
        else if duration < readonly_duration_ms \<or> \<not> (5000 \<le> wn_period w \<and> wn_period w \<le> 60000)
        then Inl (CanaryAdmissionError ''a real complete 24-hour read-only window is required'')
        else if int (length samples) \<noteq> rr_sample_count run \<or> samples = []
        then Inl (MessageIdentityConflict ''read-only sample count mismatch or empty evidence'')
        else rbind (verify_samples models sha (rr_run_id run) w samples (first_verifier w)) (\<lambda>v.
          if vf_head v \<noteq> rr_head_sha256 run
          then Inl (MessageIdentityConflict ''read-only terminal chain fingerprint mismatch'')
          else if wn_period w < wn_end_ms w - vf_previous_ms v
             \<or> \<not> (case vf_sample v of None \<Rightarrow> True | Some sample \<Rightarrow> list_all so_available (ro_symbols sample))
          then Inl (CanaryAdmissionError
                 ''read-only window must end with fresh nonempty books for all five symbols'')
          else rbind (all_metrics duration (vf_tally v) canary_symbols) (\<lambda>metrics.
            Inr (receipt_document run ended_at duration (int (length samples)) (vf_head v) metrics)))))))"

subsection \<open>Receipts\<close>

definition assert_readonly_mutations ::
  "canary_scope \<Rightarrow> timestamp \<Rightarrow> timestamp \<Rightarrow> 'a evidence_db_scheme \<Rightarrow> unit res" where
  "assert_readonly_mutations scope started_at ended_at db =
     (if list_ex (\<lambda>e. ei_exchange (ex_identity e) = ''evedex'' \<and>
           ei_account_id (ex_identity e) \<in> {Some (cs_account_id scope), Some (cs_remote_account_id scope)} \<and>
           started_at \<le> ef_prepared_at e \<and> ef_prepared_at e \<le> ended_at) (ed_effects db)
      then Inl (CanaryAdmissionError ''read-only window contains an execution mutation attempt'')
      else Inr ())"

text \<open>
  \<open>datetime.fromisoformat(proof["ended_at"])\<close>. The texts were written by \<open>isoformat()\<close> of an aware
  instant, so a naive one counts as unreadable.
\<close>

definition ended_at_of :: "json \<Rightarrow> timestamp res" where
  "ended_at_of proof = rbind (subscript ''ended_at'' proof) (\<lambda>value.
     case value of
       JStr s \<Rightarrow> (case fromisoformat s of Some (Aware t) \<Rightarrow> Inr t
          | _ \<Rightarrow> Inl (ValueError ''Invalid isoformat string''))
     | _ \<Rightarrow> Inl (TypeError ''fromisoformat: argument must be str''))"

definition insert_receipt :: "readonly_receipt \<Rightarrow> 'a evidence_db_scheme \<Rightarrow> 'a evidence_db_scheme res" where
  "insert_receipt row db =
     (if rc_receipt_id row \<in> set (map rc_receipt_id (ed_receipts db)) then Inr db
      else if \<not> sha256_hex (rc_receipt_id row) \<or> rc_run_id row \<in> set (map rc_run_id (ed_receipts db))
      then Inl (IntegrityError ''paper_readonly_receipts'')
      else Inr (db\<lparr>ed_receipts := insert_row row (ed_receipts db)\<rparr>))"

definition certified_run :: "readonly_run \<Rightarrow> readonly_run" where
  "certified_run r = r\<lparr>rr_state := CERTIFIED\<rparr>"

definition certify_readonly ::
  "canary_models \<Rightarrow> (string \<Rightarrow> string) \<Rightarrow> string \<Rightarrow> canary_scope \<Rightarrow> timestamp \<Rightarrow> 'a evidence_db_scheme
     \<Rightarrow> (string \<times> 'a evidence_db_scheme) res" where
  "certify_readonly models sha run_id expected_scope now db =
     (let mismatch = CanaryAdmissionError ''read-only receipt scope/config/account mismatch'' in
      case run_at run_id db of
        None \<Rightarrow> Inl mismatch
      | Some run \<Rightarrow>
          rbind (digest sha (scope_dump expected_scope)) (\<lambda>scope_sha256.
          if rr_scope_sha256 run \<noteq> scope_sha256 then Inl mismatch
          else rbind (case receipt_of_run run_id db of
                  None \<Rightarrow> Inr (now, None)
                | Some existing \<Rightarrow>
                    rbind (evidence_object (rc_payload existing)) (\<lambda>stored.
                    rbind (ended_at_of stored) (\<lambda>ended. Inr (ended, Some existing)))) (\<lambda>(ended, existing).
            rbind (verify_readonly_evidence models sha run (samples_of run_id db) ended) (\<lambda>proof.
            rbind (assert_readonly_mutations expected_scope (rr_started_at run) ended db) (\<lambda>_.
            rbind (digest sha proof) (\<lambda>receipt_id.
              if (case existing of None \<Rightarrow> False
                  | Some e \<Rightarrow> receipt_id \<noteq> rc_receipt_id e \<or> \<not> json_eq (rc_payload e) proof)
              then Inl (MessageIdentityConflict ''stored read-only receipt differs from its evidence'')
              else rbind (store_json proof) (\<lambda>doc.
                   rbind (insert_receipt \<lparr>rc_receipt_id = receipt_id, rc_run_id = run_id, rc_payload = doc,
                       rc_certified_at = now\<rparr> db) (\<lambda>db'.
                     Inr (receipt_id, db'\<lparr>ed_runs :=
                       update_where (\<lambda>r. rr_run_id r = run_id) certified_run (ed_runs db')\<rparr>))))))))) "

subsection \<open>What the verifier accepts\<close>

text \<open>The evidence of a run without the loop: lists of times, of digests and of decoded observations.\<close>

definition sample_times :: "readonly_sample list \<Rightarrow> int list" where
  "sample_times samples = map (\<lambda>s. millis (rs_received_at s)) samples"

definition sample_weights :: "window \<Rightarrow> readonly_sample list \<Rightarrow> int list" where
  "sample_weights w samples = map2 (sample_weight (wn_period w)) (sample_times samples)
     (tl (sample_times samples) @ [wn_end_ms w])"

definition available_items :: "string \<Rightarrow> readonly_observation \<Rightarrow> symbol_observation list" where
  "available_items symbol r = filter (\<lambda>item. so_available item \<and> so_symbol item = symbol) (ro_symbols r)"

definition available_ms :: "int list \<Rightarrow> readonly_observation list \<Rightarrow> string \<Rightarrow> int" where
  "available_ms ks obs symbol = sum_list (map2 (\<lambda>k r. k * int (length (available_items symbol r))) ks obs)"

definition measures ::
  "(symbol_observation \<Rightarrow> pyfloat option) \<Rightarrow> readonly_observation list \<Rightarrow> string \<Rightarrow> pyfloat list" where
  "measures f obs symbol = concat (map (\<lambda>r. map (\<lambda>item. float_abs (the (f item))) (available_items symbol r)) obs)"

definition item_acceptable :: "symbol_observation \<Rightarrow> bool" where
  "item_acceptable item \<longleftrightarrow> so_available item \<longrightarrow>
     (\<exists>age. so_book_age_ms item = Some age \<and> age \<le> 5000) \<and>
     (\<exists>skew. so_timestamp_skew_ms item = Some skew \<and> skew \<le> 2000) \<and> so_symbol item \<in> set canary_symbols \<and>
     so_basis_bps item \<noteq> None \<and> so_spread_bps item \<noteq> None \<and> so_slippage_bps item \<noteq> None"

definition observation_clean :: "readonly_observation \<Rightarrow> bool" where
  "observation_clean r \<longleftrightarrow> ro_unresolved_bar_gaps r = 0 \<and> \<not> ro_reconciliation_drift r \<and>
     ro_entry_mutations r = 0 \<and> list_all item_acceptable (ro_symbols r)"

text \<open>A chain of samples from a sequence number and a head, later than a time.\<close>

definition chained ::
  "(string \<Rightarrow> string) \<Rightarrow> string \<Rightarrow> int \<Rightarrow> string \<Rightarrow> readonly_sample list \<Rightarrow> bool" where
  "chained sha run_id seq head samples \<longleftrightarrow>
     map rs_seq samples = map (\<lambda>i. seq + 1 + int i) [0..<length samples] \<and>
     map rs_previous_sha256 samples = butlast (head # map rs_sample_sha256 samples) \<and>
     list_all (\<lambda>s. sample_identity sha run_id (rs_seq s) (rs_received_at s) (rs_previous_sha256 s) (rs_payload s)
       = Inr (rs_sample_sha256 s)) samples"

definition timed :: "window \<Rightarrow> int \<Rightarrow> readonly_sample list \<Rightarrow> bool" where
  "timed w previous_ms samples \<longleftrightarrow> sorted_wrt (<) (previous_ms # sample_times samples) \<and>
     list_all (\<lambda>t. wn_start_ms w \<le> t \<and> t \<le> wn_end_ms w) (sample_times samples)"

definition observed ::
  "canary_models \<Rightarrow> readonly_sample list \<Rightarrow> readonly_observation list \<Rightarrow> bool" where
  "observed models samples obs \<longleftrightarrow>
     list_all2 (\<lambda>s r. is_object (rs_payload s) \<and> decode_observation models (rs_payload s) = Some r \<and>
       \<bar>ro_observed_at_ms r - millis (rs_received_at s)\<bar> \<le> 2000 \<and> observation_clean r) samples obs"

definition p95_bounded :: "pyfloat list \<Rightarrow> bool" where
  "p95_bounded values \<longleftrightarrow> (\<exists>x. p95 values = Inr x \<and> \<not> float_less (float_of_int 25) x)"

definition symbol_accepted :: "int \<Rightarrow> int list \<Rightarrow> readonly_observation list \<Rightarrow> string \<Rightarrow> bool" where
  "symbol_accepted duration ks obs symbol \<longleftrightarrow>
     \<not> float_less (float_of_ratio (available_ms ks obs symbol) duration) (float_of_ratio 99 100) \<and>
     p95_bounded (measures so_basis_bps obs symbol) \<and> p95_bounded (measures so_spread_bps obs symbol) \<and>
     p95_bounded (measures so_slippage_bps obs symbol)"

definition evidence_accepted ::
  "canary_models \<Rightarrow> (string \<Rightarrow> string) \<Rightarrow> readonly_run \<Rightarrow> readonly_sample list \<Rightarrow> timestamp \<Rightarrow> bool" where
  "evidence_accepted models sha run samples ended_at \<longleftrightarrow>
     (let w = run_window run ended_at; duration = millis ended_at - millis (rr_started_at run) in
      is_object (rr_scope run) \<and>
      (\<exists>scope. decode_scope models (rr_scope run) = Some scope \<and> digest sha (scope_dump scope) = Inr (rr_scope_sha256 run)) \<and>
      86400000 \<le> duration \<and> 5000 \<le> rr_sample_period_ms run \<and> rr_sample_period_ms run \<le> 60000 \<and>
      samples \<noteq> [] \<and> int (length samples) = rr_sample_count run \<and>
      chained sha (rr_run_id run) 0 zero_sha samples \<and> rs_sample_sha256 (last samples) = rr_head_sha256 run \<and>
      timed w (millis (rr_started_at run) - 1) samples \<and>
      millis ended_at - millis (rs_received_at (last samples)) \<le> rr_sample_period_ms run \<and>
      (\<exists>obs. observed models samples obs \<and> list_all so_available (ro_symbols (last obs)) \<and>
         list_all (symbol_accepted duration (sample_weights w samples) obs) canary_symbols))"

definition add_tally :: "int list \<Rightarrow> readonly_observation list \<Rightarrow> tally \<Rightarrow> tally" where
  "add_tally ks obs t = (\<lambda>symbol.
     \<lparr>ty_available_ms = ty_available_ms (t symbol) + available_ms ks obs symbol,
      ty_basis = ty_basis (t symbol) @ measures so_basis_bps obs symbol,
      ty_spread = ty_spread (t symbol) @ measures so_spread_bps obs symbol,
      ty_slippage = ty_slippage (t symbol) @ measures so_slippage_bps obs symbol\<rparr>)"

definition item_tally :: "int \<Rightarrow> symbol_observation list \<Rightarrow> tally \<Rightarrow> tally" where
  "item_tally k items t = add_tally [k] [\<lparr>ro_observed_at_ms = 0, ro_symbols = items, ro_unresolved_bar_gaps = 0,
     ro_reconciliation_drift = False, ro_entry_mutations = 0\<rparr>] t"

lemma item_tally_simps:
  "item_tally k [] t = t"
  "item_tally k (item # items) t =
     (if so_available item
      then item_tally k items (t(so_symbol item := \<lparr>ty_available_ms = ty_available_ms (t (so_symbol item)) + k,
        ty_basis = ty_basis (t (so_symbol item)) @ [float_abs (the (so_basis_bps item))],
        ty_spread = ty_spread (t (so_symbol item)) @ [float_abs (the (so_spread_bps item))],
        ty_slippage = ty_slippage (t (so_symbol item)) @ [float_abs (the (so_slippage_bps item))]\<rparr>))
      else item_tally k items t)"
  by (auto simp: item_tally_def add_tally_def available_ms_def measures_def available_items_def fun_eq_iff algebra_simps)

lemma tally_symbol_Inr:
  "tally_symbol k item t = Inr t' \<longleftrightarrow> item_acceptable item \<and> t' = item_tally k [item] t"
  by (cases "so_available item")
    (auto simp: tally_symbol_def item_acceptable_def item_tally_simps required_def Let_def rbind_eq_Inr
      split: option.splits)

lemma tally_symbols_Inr:
  "tally_symbols k items t = Inr t' \<longleftrightarrow> list_all item_acceptable items \<and> t' = item_tally k items t"
  by (induction items arbitrary: t) (auto simp: rbind_eq_Inr tally_symbol_Inr item_tally_simps)

lemma add_tally_Cons: "add_tally (k # ks) (r # rs) t = add_tally ks rs (item_tally k (ro_symbols r) t)"
  by (simp add: item_tally_def add_tally_def available_ms_def measures_def available_items_def fun_eq_iff algebra_simps)

lemma add_tally_Nil [simp]: "add_tally ks [] t = t"
  by (simp add: add_tally_def available_ms_def measures_def fun_eq_iff)

definition sample_accepted ::
  "canary_models \<Rightarrow> (string \<Rightarrow> string) \<Rightarrow> string \<Rightarrow> window \<Rightarrow> readonly_sample \<Rightarrow> verifier \<Rightarrow> readonly_observation \<Rightarrow> bool" where
  "sample_accepted models sha run_id w row v r \<longleftrightarrow>
     chained sha run_id (vf_seq v) (vf_head v) [row] \<and> timed w (vf_previous_ms v) [row] \<and> observed models [row] [r]"

lemma verify_sample_Inr:
  "verify_sample models sha run_id w row rest v = Inr v' \<longleftrightarrow>
     (\<exists>r. sample_accepted models sha run_id w row v r \<and>
        v' = \<lparr>vf_seq = rs_seq row, vf_head = rs_sample_sha256 row, vf_previous_ms = millis (rs_received_at row),
          vf_tally = item_tally (hd (sample_weights w (row # rest))) (ro_symbols r) (vf_tally v), vf_sample = Some r\<rparr>)"
proof -
  have k: "hd (sample_weights w (row # rest)) = sample_weight (wn_period w) (millis (rs_received_at row))
      (case rest of [] \<Rightarrow> wn_end_ms w | r # rs \<Rightarrow> millis (rs_received_at r))"
    by (cases rest) (simp_all add: sample_weights_def sample_times_def)
  show ?thesis
    unfolding verify_sample_def sample_accepted_def k Let_def
    by (auto simp: returned tally_symbols_Inr chained_def timed_def observed_def observation_clean_def
        sample_times_def sample_identity_def evidence_object_Inr validated_Inr not_le)
qed

lemma chained_Cons:
  "chained sha run_id seq head (row # rows) \<longleftrightarrow>
     chained sha run_id seq head [row] \<and> chained sha run_id (rs_seq row) (rs_sample_sha256 row) rows"
proof -
  have "map (\<lambda>i. seq + 1 + int i) [0..<length (row # rows)] = (seq + 1) # map (\<lambda>i. seq + 1 + 1 + int i) [0..<length rows]"
    by (simp add: upt_conv_Cons map_Suc_upt [symmetric] del: upt_Suc)
  then show ?thesis by (auto simp: chained_def)
qed

lemma timed_Cons:
  "timed w p (row # rows) \<longleftrightarrow> timed w p [row] \<and> timed w (millis (rs_received_at row)) rows"
  by (auto simp: timed_def sample_times_def)

lemma observed_Cons:
  "observed models (row # rows) obs \<longleftrightarrow> (\<exists>r rs. obs = r # rs \<and> observed models [row] [r] \<and> observed models rows rs)"
  by (auto simp: observed_def list_all2_Cons1)

lemma sample_weights_Cons:
  "sample_weights w (row # rows) = hd (sample_weights w (row # rows)) # sample_weights w rows"
  by (cases rows) (simp_all add: sample_weights_def sample_times_def)

lemma verify_samples_Inr:
  "verify_samples models sha run_id w rows v = Inr v' \<longleftrightarrow>
     (\<exists>obs. chained sha run_id (vf_seq v) (vf_head v) rows \<and> timed w (vf_previous_ms v) rows \<and> observed models rows obs \<and>
        v' = \<lparr>vf_seq = last (vf_seq v # map rs_seq rows), vf_head = last (vf_head v # map rs_sample_sha256 rows),
          vf_previous_ms = last (vf_previous_ms v # sample_times rows),
          vf_tally = add_tally (sample_weights w rows) obs (vf_tally v),
          vf_sample = last (vf_sample v # map Some obs)\<rparr>)"
proof (induction rows arbitrary: v)
  case Nil
  then show ?case
    by (cases v) (auto simp: chained_def timed_def observed_def sample_times_def)
next
  case (Cons row rows)
  let ?R = "\<lambda>v' obs. v' = \<lparr>vf_seq = last (vf_seq v # map rs_seq (row # rows)),
      vf_head = last (vf_head v # map rs_sample_sha256 (row # rows)),
      vf_previous_ms = last (vf_previous_ms v # sample_times (row # rows)),
      vf_tally = add_tally (sample_weights w (row # rows)) obs (vf_tally v), vf_sample = last (vf_sample v # map Some obs)\<rparr>"
  let ?next = "\<lambda>r. \<lparr>vf_seq = rs_seq row, vf_head = rs_sample_sha256 row, vf_previous_ms = millis (rs_received_at row),
      vf_tally = item_tally (hd (sample_weights w (row # rows))) (ro_symbols r) (vf_tally v), vf_sample = Some r\<rparr>"
  have tally: "add_tally (sample_weights w (row # rows)) (r # obs) t
      = add_tally (sample_weights w rows) obs (item_tally (hd (sample_weights w (row # rows))) (ro_symbols r) t)" for r obs t
    by (subst sample_weights_Cons) (rule add_tally_Cons)
  have "verify_samples models sha run_id w (row # rows) v = Inr v' \<longleftrightarrow>
      (\<exists>r. sample_accepted models sha run_id w row v r \<and> verify_samples models sha run_id w rows (?next r) = Inr v')"
    by (auto simp: rbind_eq_Inr verify_sample_Inr)
  also have "\<dots> \<longleftrightarrow> (\<exists>r obs. sample_accepted models sha run_id w row v r \<and>
      chained sha run_id (rs_seq row) (rs_sample_sha256 row) rows \<and> timed w (millis (rs_received_at row)) rows \<and>
      observed models rows obs \<and> ?R v' (r # obs))"
    unfolding Cons.IH by (simp add: tally sample_times_def)
  also have "\<dots> \<longleftrightarrow> (\<exists>obs. chained sha run_id (vf_seq v) (vf_head v) (row # rows) \<and>
      timed w (vf_previous_ms v) (row # rows) \<and> observed models (row # rows) obs \<and> ?R v' obs)"
    unfolding sample_accepted_def chained_Cons [of _ _ _ _ row rows] timed_Cons [of _ _ row rows] observed_Cons [of _ row rows]
    by metis
  finally show ?case .
qed

lemma bounded_p95_ok: "(\<exists>x. bounded_p95 values = Inr x) = p95_bounded values"
  by (auto simp: bounded_p95_def p95_bounded_def rbind_eq_Inr)

definition tally_accepted :: "int \<Rightarrow> symbol_tally \<Rightarrow> bool" where
  "tally_accepted duration c \<longleftrightarrow>
     \<not> float_less (float_of_ratio (ty_available_ms c) duration) (float_of_ratio 99 100) \<and>
     p95_bounded (ty_basis c) \<and> p95_bounded (ty_spread c) \<and> p95_bounded (ty_slippage c)"

lemma symbol_metrics_ok: "(\<exists>m. symbol_metrics duration c = Inr m) = tally_accepted duration c"
  unfolding symbol_metrics_def Let_def tally_accepted_def bounded_p95_ok [symmetric] by (auto simp: rbind_eq_Inr)

lemma all_metrics_ok: "(\<exists>ms. all_metrics duration t symbols = Inr ms) = list_all (\<lambda>s. tally_accepted duration (t s)) symbols"
  by (induction symbols) (auto simp: rbind_eq_Inr simp flip: symbol_metrics_ok)

lemma tally_accepted_empty:
  "tally_accepted duration (add_tally ks obs empty_tally symbol) = symbol_accepted duration ks obs symbol"
  by (simp add: tally_accepted_def symbol_accepted_def add_tally_def empty_tally_def)

lemma observed_length: "observed models samples obs \<Longrightarrow> length obs = length samples"
  by (auto simp: observed_def dest: list_all2_lengthD)

lemma ex_rbind: "(\<exists>y. rbind m k = Inr y) \<longleftrightarrow> (\<exists>x. m = Inr x \<and> (\<exists>y. k x = Inr y))"
  by (auto simp: rbind_eq_Inr)

lemma ex_if_Inl: "(\<exists>y. (if b then Inl e else m) = Inr y) \<longleftrightarrow> \<not> b \<and> (\<exists>y. m = Inr y)"
  by simp

lemma ex_Inr: "(\<exists>y. Inr a = Inr y) \<longleftrightarrow> True"
  by simp

lemma ex_digest: "(A \<and> (\<exists>x. B x \<and> (\<exists>y. C x y \<and> y = c \<and> R))) = (A \<and> (\<exists>x. B x \<and> C x c) \<and> R)"
  by auto

lemma last_Cons_map: "xs \<noteq> [] \<Longrightarrow> last (a # map f xs) = f (last xs)"
  by (cases xs rule: rev_cases) auto

text \<open>
  C32. The verifier of read-only evidence accepts a run exactly when: its scope document decodes and has the stored
  fingerprint; at least 24 hours passed at a period of 5 to 60 seconds; the samples are numbered from
  1, number what the run says and form the hash chain that ends in the run's head; their times
  increase, lie in the window and agree with the observed times to two seconds; no sample shows a gap,
  drift, mutation, old book or skewed clock; the last sample is fresh and has all books; and every
  symbol was available for 99% of the time with its 95th percentiles at most 25 basis points.
\<close>

theorem readonly_evidence_accepted:
  "(\<exists>proof. verify_readonly_evidence models sha run samples ended_at = Inr proof) =
     evidence_accepted models sha run samples ended_at"
proof -
  let ?w = "run_window run ended_at"
  let ?d = "millis ended_at - millis (rr_started_at run)"
  let ?v = "\<lambda>obs. \<lparr>vf_seq = last (0 # map rs_seq samples), vf_head = rs_sample_sha256 (last samples),
      vf_previous_ms = millis (rs_received_at (last samples)),
      vf_tally = add_tally (sample_weights ?w samples) obs empty_tally, vf_sample = Some (last obs)\<rparr>"
  let ?shape = "is_object (rr_scope run) \<and>
      (\<exists>scope. decode_scope models (rr_scope run) = Some scope \<and> digest sha (scope_dump scope) = Inr (rr_scope_sha256 run)) \<and>
      86400000 \<le> ?d \<and> 5000 \<le> rr_sample_period_ms run \<and> rr_sample_period_ms run \<le> 60000 \<and>
      int (length samples) = rr_sample_count run \<and> samples \<noteq> []"
  let ?tail = "\<lambda>v. vf_head v = rr_head_sha256 run \<and>
      millis ended_at - vf_previous_ms v \<le> rr_sample_period_ms run \<and>
      (case vf_sample v of None \<Rightarrow> True | Some sample \<Rightarrow> list_all so_available (ro_symbols sample)) \<and>
      list_all (\<lambda>s. tally_accepted ?d (vf_tally v s)) canary_symbols"
  have run: "verify_samples models sha (rr_run_id run) ?w samples (first_verifier ?w) = Inr v \<longleftrightarrow>
      (\<exists>obs. chained sha (rr_run_id run) 0 zero_sha samples \<and> timed ?w (millis (rr_started_at run) - 1) samples \<and>
         observed models samples obs \<and> v = ?v obs)" if "samples \<noteq> []" for v
  proof -
    have f: "vf_sample (first_verifier ?w) = None" "vf_tally (first_verifier ?w) = empty_tally"
      "vf_seq (first_verifier ?w) = 0" "vf_head (first_verifier ?w) = zero_sha"
      "vf_previous_ms (first_verifier ?w) = millis (rr_started_at run) - 1"
      by (simp_all add: first_verifier_def run_window_def)
    have m: "last (None # map Some obs) = Some (last obs)" if "observed models samples obs" for obs
    proof -
      from observed_length [OF that] \<open>samples \<noteq> []\<close> have "obs \<noteq> []" by auto
      then show ?thesis by (rule last_Cons_map)
    qed
    show ?thesis
      unfolding verify_samples_Inr f sample_times_def last_Cons_map [OF that]
      by (intro ex_cong1 conj_cong refl) (simp only: m)
  qed
  have "(\<exists>proof. verify_readonly_evidence models sha run samples ended_at = Inr proof) \<longleftrightarrow>
      ?shape \<and> (\<exists>v. verify_samples models sha (rr_run_id run) ?w samples (first_verifier ?w) = Inr v \<and> ?tail v)"
    unfolding verify_readonly_evidence_def Let_def all_metrics_ok [symmetric]
    by (simp only: ex_rbind ex_if_Inl ex_Inr evidence_object_Inr validated_Inr run_window_def window.simps
        readonly_duration_ms_def de_Morgan_disj not_less not_le not_not simp_thms ex_simps conj_assoc)
      (rule ex_digest)
  also have "\<dots> \<longleftrightarrow> ?shape \<and> (\<exists>obs. chained sha (rr_run_id run) 0 zero_sha samples \<and>
      timed ?w (millis (rr_started_at run) - 1) samples \<and> observed models samples obs \<and> ?tail (?v obs))"
  proof (cases "samples = []")
    case False
    show ?thesis unfolding run [OF False] by (intro conj_cong refl) blast
  qed simp
  also have "\<dots> \<longleftrightarrow> evidence_accepted models sha run samples ended_at"
    unfolding evidence_accepted_def Let_def
    by (simp only: verifier.simps option.case tally_accepted_empty ex_simps conj_assoc) (rule iffI; elim exE conjE; intro conjI exI; assumption)
  finally show ?thesis .
qed

end
