(* ===== verification/TradeLifecycle.thy ===== *)
theory TradeLifecycle
  imports HashChain PyFloat IsoTime
begin

text \<open>
  The durable trade lifecycle, \<open>kairos_persistence/trade_lifecycle.py\<close>, over the tables
  \<open>execution_trades\<close> and \<open>execution_trade_events\<close> of migration 006: the transition table, the validation
  of a new trade against its risk decision, creation, transitions, and the per-trade hash chain.

  \<open>sha\<close> is the SHA-256 of a text in hexadecimal, \<open>decode\<close> is \<open>RiskTradeDecisionV1.model_validate\<close> and
  \<open>profiles\<close> the values of \<open>EvedexProfile\<close>, both of the external package \<open>kairos_core\<close>. A timestamp
  column holds an instant. The advisory lock of a trade makes each transaction one function of the
  tables; a transaction that raises leaves them alone (\<open>Inl\<close>).
\<close>

subsection \<open>The state machine\<close>

datatype trade_state =
    RECEIVED | ENTRY_PENDING | PROTECTING | ACTIVE | EXITING_STOP | EXITING_TARGET | EXITING_TIMEOUT
  | EXITING_EMERGENCY | FLAT | CANCELLED | FAILED_BLOCKED

primrec trade_state_value :: "trade_state \<Rightarrow> string" where
  "trade_state_value RECEIVED = ''RECEIVED''"
| "trade_state_value ENTRY_PENDING = ''ENTRY_PENDING''"
| "trade_state_value PROTECTING = ''PROTECTING''"
| "trade_state_value ACTIVE = ''ACTIVE''"
| "trade_state_value EXITING_STOP = ''EXITING_STOP''"
| "trade_state_value EXITING_TARGET = ''EXITING_TARGET''"
| "trade_state_value EXITING_TIMEOUT = ''EXITING_TIMEOUT''"
| "trade_state_value EXITING_EMERGENCY = ''EXITING_EMERGENCY''"
| "trade_state_value FLAT = ''FLAT''"
| "trade_state_value CANCELLED = ''CANCELLED''"
| "trade_state_value FAILED_BLOCKED = ''FAILED_BLOCKED''"

definition terminal_trade_states :: "trade_state list" where
  "terminal_trade_states = [FLAT, CANCELLED]"

definition allowed_transitions :: "trade_state \<Rightarrow> trade_state list" where
  "allowed_transitions current = (case current of
       RECEIVED \<Rightarrow> [ENTRY_PENDING, CANCELLED, FAILED_BLOCKED]
     | ENTRY_PENDING \<Rightarrow> [ENTRY_PENDING, PROTECTING, CANCELLED, FAILED_BLOCKED]
     | PROTECTING \<Rightarrow> [PROTECTING, ACTIVE, EXITING_STOP, EXITING_TARGET, EXITING_EMERGENCY, FAILED_BLOCKED]
     | ACTIVE \<Rightarrow> [ACTIVE, EXITING_STOP, EXITING_TARGET, EXITING_TIMEOUT, EXITING_EMERGENCY, FAILED_BLOCKED]
     | EXITING_STOP \<Rightarrow> [FLAT, FAILED_BLOCKED]
     | EXITING_TARGET \<Rightarrow> [FLAT, FAILED_BLOCKED]
     | EXITING_TIMEOUT \<Rightarrow> [FLAT, FAILED_BLOCKED]
     | EXITING_EMERGENCY \<Rightarrow> [FLAT, FAILED_BLOCKED]
     | FAILED_BLOCKED \<Rightarrow> [EXITING_EMERGENCY, FLAT]
     | FLAT \<Rightarrow> []
     | CANCELLED \<Rightarrow> [])"

definition validate_trade_transition :: "trade_state \<Rightarrow> trade_state \<Rightarrow> unit res" where
  "validate_trade_transition current target =
     (if target \<notin> set (allowed_transitions current)
      then Inl (ValueError (''invalid trade transition '' @ trade_state_value current @ ''->'' @ trade_state_value target))
      else Inr ())"

text \<open>The states whose transition needs a fill.\<close>

definition exposure_states :: "trade_state list" where
  "exposure_states = [PROTECTING, ACTIVE, EXITING_STOP, EXITING_TARGET, EXITING_TIMEOUT, EXITING_EMERGENCY]"

subsection \<open>New trades\<close>

record new_trade =
  nt_trade_id :: string
  nt_strategy_intent_id :: string
  nt_risk_decision_id :: string
  nt_risk_decision_payload :: json
  nt_strategy_id :: string
  nt_strategy_revision :: string
  nt_trading_mode :: string
  nt_environment :: string
  nt_profile :: string
  nt_exchange :: string
  nt_account_id :: string
  nt_symbol :: string
  nt_venue_symbol :: string
  nt_side :: string
  nt_quantity :: pyfloat
  nt_leverage :: pyfloat
  nt_stop_price :: pyfloat
  nt_target_price :: pyfloat
  nt_entry_eligible_at :: pydatetime
  nt_entry_expires_at :: pydatetime
  nt_max_holding_ms :: int
  nt_entry_client_order_id :: string

text \<open>What the code reads of a \<open>RiskTradeDecisionV1\<close>; \<open>rd_long\<close> is \<open>intent.side is Side.LONG\<close>.\<close>

record risk_decision =
  rd_approved :: bool
  rd_trade_id :: string
  rd_intent_id :: string
  rd_decision_id :: string
  rd_strategy_id :: string
  rd_strategy_revision :: string
  rd_trading_mode :: string
  rd_profile :: string
  rd_account_id :: string
  rd_symbol :: string
  rd_venue_symbol :: string
  rd_long :: bool
  rd_quantity :: pyfloat
  rd_leverage :: pyfloat
  rd_stop_price :: pyfloat
  rd_target_price :: pyfloat
  rd_max_holding_ms :: int
  rd_entry_eligible_ts_ms :: int
  rd_entry_expires_ts_ms :: int

definition unix_ms :: "pydatetime \<Rightarrow> int res" where
  "unix_ms value = (case value of
       Naive t \<Rightarrow> Inl (ValueError ''entry timestamps must be timezone-aware'')
     | Aware t \<Rightarrow> if t mod 1000 \<noteq> 0
         then Inl (ValueError ''entry timestamps must have millisecond precision'')
         else Inr (t div 1000))"

definition validate_decision_lineage :: "new_trade \<Rightarrow> risk_decision \<Rightarrow> unit res" where
  "validate_decision_lineage t d =
     (if \<not> rd_approved d then Inl (ValueError ''a durable trade requires an approved risk decision'')
      else rbind (unix_ms (nt_entry_eligible_at t)) (\<lambda>eligible.
           rbind (unix_ms (nt_entry_expires_at t)) (\<lambda>expires.
      if \<not> (nt_trade_id t = rd_trade_id d \<and> nt_strategy_intent_id t = rd_intent_id d
         \<and> nt_risk_decision_id t = rd_decision_id d \<and> nt_strategy_id t = rd_strategy_id d
         \<and> nt_strategy_revision t = rd_strategy_revision d \<and> nt_trading_mode t = rd_trading_mode d
         \<and> nt_profile t = rd_profile d \<and> nt_account_id t = rd_account_id d \<and> nt_symbol t = rd_symbol d
         \<and> nt_venue_symbol t = rd_venue_symbol d \<and> nt_side t = (if rd_long d then ''BUY'' else ''SELL'')
         \<and> float_eq (nt_quantity t) (rd_quantity d) \<and> float_eq (nt_leverage t) (rd_leverage d)
         \<and> float_eq (nt_stop_price t) (rd_stop_price d) \<and> float_eq (nt_target_price t) (rd_target_price d)
         \<and> nt_max_holding_ms t = rd_max_holding_ms d \<and> eligible = rd_entry_eligible_ts_ms d
         \<and> expires = rd_entry_expires_ts_ms d)
      then Inl (ValueError ''risk decision payload does not match durable trade lineage'')
      else if nt_trading_mode t = ''PAPER'' \<and> (nt_profile t \<noteq> ''DEV'' \<or> nt_exchange t \<noteq> ''evedex''
                 \<or> drop (length (nt_venue_symbol t) - 4) (nt_venue_symbol t) \<noteq> '':DEV'')
      then Inl (ValueError ''PAPER persistence requires the exact EVEDEX DEV venue'')
      else if nt_trading_mode t = ''LIVE'' \<and> nt_profile t \<noteq> ''PROD''
      then Inl (ValueError ''LIVE persistence requires the EVEDEX PROD profile'')
      else Inr ())))"

definition positive_float :: "pyfloat \<Rightarrow> bool" where
  "positive_float x \<longleftrightarrow> is_finite x \<and> float_less float_zero x"

definition required_fields :: "new_trade \<Rightarrow> string list" where
  "required_fields t = [nt_trade_id t, nt_strategy_intent_id t, nt_risk_decision_id t, nt_strategy_id t,
     nt_strategy_revision t, nt_environment t, nt_exchange t, nt_account_id t, nt_symbol t,
     nt_venue_symbol t, nt_entry_client_order_id t]"

definition validate_new_trade ::
  "(json \<Rightarrow> risk_decision res) \<Rightarrow> string list \<Rightarrow> new_trade \<Rightarrow> unit res" where
  "validate_new_trade decode profiles t =
     (if list_ex blank (required_fields t) then Inl (ValueError ''trade lineage fields must not be empty'')
      else if nt_trading_mode t \<notin> set [''PAPER'', ''LIVE'']
      then Inl (ValueError ''durable trades are only valid for PAPER or LIVE'')
      else if nt_profile t \<notin> set profiles then Inl (ValueError ''unknown EVEDEX profile'')
      else if nt_side t \<notin> set [''BUY'', ''SELL''] then Inl (ValueError ''trade side must be BUY or SELL'')
      else if \<not> list_all positive_float [nt_quantity t, nt_leverage t, nt_stop_price t, nt_target_price t]
      then Inl (ValueError ''value must be finite and positive'')
      else if \<not> (float_le float_one (nt_leverage t) \<and> float_le (nt_leverage t) float_125)
      then Inl (ValueError ''leverage must be between 1 and 125'')
      else if nt_side t = ''BUY'' \<and> float_le (nt_target_price t) (nt_stop_price t)
      then Inl (ValueError ''BUY stop must be below target'')
      else if nt_side t = ''SELL'' \<and> float_le (nt_stop_price t) (nt_target_price t)
      then Inl (ValueError ''SELL stop must be above target'')
      else case (nt_entry_eligible_at t, nt_entry_expires_at t) of
        (Aware eligible, Aware expires) \<Rightarrow>
          if expires \<le> eligible then Inl (ValueError ''entry expiry must follow eligibility'')
          else if nt_max_holding_ms t \<le> 0 then Inl (ValueError ''max_holding_ms must be positive'')
          else rbind (decode (nt_risk_decision_payload t)) (validate_decision_lineage t)
      | _ \<Rightarrow> Inl (ValueError ''entry timestamps must be timezone-aware''))"

subsection \<open>Rows\<close>

record order_ids =
  oi_entry_exchange_order_id :: "string option"
  oi_stop_client_order_id :: "string option"
  oi_stop_exchange_order_id :: "string option"
  oi_target_client_order_id :: "string option"
  oi_target_exchange_order_id :: "string option"
  oi_close_client_order_id :: "string option"
  oi_close_exchange_order_id :: "string option"

text \<open>\<open>TradeRecord\<close>: the immutable terms of the trade, then what transitions change.\<close>

record trade_record =
  tr_terms :: new_trade
  tr_state :: trade_state
  tr_ids :: order_ids
  tr_filled_quantity :: pyfloat
  tr_first_fill_at :: "timestamp option"
  tr_timeout_at :: "timestamp option"
  tr_last_reconciled_at :: "timestamp option"
  tr_reconciliation_detail :: "string option"
  tr_state_version :: int
  tr_journal_head_sha256 :: string

record trade_row = trade_record +
  tw_risk_decision_sha256 :: string
  tw_next_execution_event_seq :: int
  tw_created_at :: timestamp
  tw_updated_at :: timestamp

record trade_event =
  te_trade_id :: string
  te_from_state :: "trade_state option"
  te_to_state :: trade_state
  te_event_type :: string
  te_payload :: json
  te_previous :: "string option"
  te_sha256 :: string

record trade_db =
  td_trades :: "trade_row list"
  td_events :: "trade_event list"

definition tw_trade_id :: "'a trade_record_scheme \<Rightarrow> string" where
  "tw_trade_id r = nt_trade_id (tr_terms r)"

definition no_ids :: order_ids where
  "no_ids = \<lparr>oi_entry_exchange_order_id = None, oi_stop_client_order_id = None,
     oi_stop_exchange_order_id = None, oi_target_client_order_id = None,
     oi_target_exchange_order_id = None, oi_close_client_order_id = None,
     oi_close_exchange_order_id = None\<rparr>"

text \<open>The CHECK constraints of \<open>execution_trades\<close> and its unique indexes, the partial ones included.\<close>

definition terms_check :: "new_trade \<Rightarrow> bool" where
  "terms_check t \<longleftrightarrow>
     sha256_hex (nt_trade_id t) \<and> sha256_hex (nt_strategy_intent_id t) \<and> sha256_hex (nt_risk_decision_id t) \<and>
     nt_trading_mode t \<in> set [''PAPER'', ''LIVE''] \<and> nt_profile t \<in> set [''DEV'', ''DEMO'', ''PROD''] \<and>
     nt_side t \<in> set [''BUY'', ''SELL''] \<and> positive_float (nt_quantity t) \<and>
     float_le float_one (nt_leverage t) \<and> float_le (nt_leverage t) float_125 \<and>
     positive_float (nt_stop_price t) \<and> positive_float (nt_target_price t) \<and>
     0 < nt_max_holding_ms t \<and>
     (case (nt_entry_eligible_at t, nt_entry_expires_at t) of (Aware a, Aware b) \<Rightarrow> a < b | _ \<Rightarrow> False) \<and>
     (nt_trading_mode t = ''PAPER'' \<longrightarrow> nt_profile t = ''DEV'' \<and> nt_exchange t = ''evedex'' \<and>
        (let v = nt_venue_symbol t; s = take (length v - 4) v
         in drop (length v - 4) v = '':DEV'' \<and> s \<noteq> [] \<and>
            list_all (\<lambda>c. py_digit c \<or> (65 \<le> (of_char c :: nat) \<and> (of_char c :: nat) \<le> 90)) s)) \<and>
     (nt_trading_mode t = ''LIVE'' \<longrightarrow> nt_profile t = ''PROD'') \<and>
     (nt_side t = ''BUY'' \<and> float_less (nt_stop_price t) (nt_target_price t) \<or>
      nt_side t = ''SELL'' \<and> float_less (nt_target_price t) (nt_stop_price t))"

definition trade_check :: "trade_row \<Rightarrow> bool" where
  "trade_check r \<longleftrightarrow> terms_check (tr_terms r) \<and> sha256_hex (tw_risk_decision_sha256 r) \<and>
     is_finite (tr_filled_quantity r) \<and> float_le float_zero (tr_filled_quantity r) \<and>
     float_le (tr_filled_quantity r) (nt_quantity (tr_terms r)) \<and>
     0 < tw_next_execution_event_seq r \<and> sha256_hex (tr_journal_head_sha256 r) \<and>
     (tr_first_fill_at r = None) = (tr_timeout_at r = None)"

definition open_trade :: "trade_row \<Rightarrow> bool" where
  "open_trade r \<longleftrightarrow> tr_state r \<notin> set terminal_trade_states"

definition symbol_slot :: "trade_row \<Rightarrow> string \<times> string \<times> string" where
  "symbol_slot r = (nt_environment (tr_terms r), nt_account_id (tr_terms r), nt_symbol (tr_terms r))"

definition account_slot :: "trade_row \<Rightarrow> string \<times> string \<times> string" where
  "account_slot r = (nt_environment (tr_terms r), nt_account_id (tr_terms r), nt_exchange (tr_terms r))"

definition unique_client_order :: "(order_ids \<Rightarrow> string option) \<Rightarrow> trade_row list \<Rightarrow> bool" where
  "unique_client_order f t \<longleftrightarrow>
     unique_by (\<lambda>r. (account_slot r, f (tr_ids r))) (filter (\<lambda>r. f (tr_ids r) \<noteq> None) t)"

definition trades_unique :: "trade_row list \<Rightarrow> bool" where
  "trades_unique t \<longleftrightarrow> unique_by tw_trade_id t \<and> unique_by (\<lambda>r. nt_risk_decision_id (tr_terms r)) t \<and>
     unique_by (\<lambda>r. nt_entry_client_order_id (tr_terms r)) t \<and> unique_by symbol_slot (filter open_trade t) \<and>
     unique_client_order oi_stop_client_order_id t \<and> unique_client_order oi_target_client_order_id t \<and>
     unique_client_order oi_close_client_order_id t"

definition trade_event_check :: "trade_event \<Rightarrow> bool" where
  "trade_event_check e \<longleftrightarrow> sha256_hex (te_sha256 e) \<and>
     (case te_previous e of None \<Rightarrow> True | Some p \<Rightarrow> sha256_hex p)"

definition trade_at :: "string \<Rightarrow> 'a trade_db_scheme \<Rightarrow> trade_row option" where
  "trade_at trade_id db = select_one (\<lambda>r. tw_trade_id r = trade_id) (td_trades db)"

definition trade_events :: "string \<Rightarrow> 'a trade_db_scheme \<Rightarrow> trade_event list" where
  "trade_events trade_id db = filter (\<lambda>e. te_trade_id e = trade_id) (td_events db)"

subsection \<open>The journal\<close>

definition trade_object :: "json \<Rightarrow> json res" where
  "trade_object value = (if is_object value then Inr value
     else Inl (ValueError ''trade event payload is not an object''))"

definition trade_event_document ::
  "string \<Rightarrow> trade_state option \<Rightarrow> trade_state \<Rightarrow> string \<Rightarrow> json \<Rightarrow> string option \<Rightarrow> json" where
  "trade_event_document trade_id from_state to_state event_type payload previous = JObj
     [(''domain'', JStr ''kairos.trade-lifecycle-event.v1''), (''trade_id'', JStr trade_id),
      (''from_state'', json_text (map_option trade_state_value from_state)),
      (''to_state'', JStr (trade_state_value to_state)), (''event_type'', JStr event_type),
      (''payload'', payload), (''previous_event_sha256'', json_text previous)]"

definition trade_event_sha ::
  "(string \<Rightarrow> string) \<Rightarrow> string \<Rightarrow> trade_state option \<Rightarrow> trade_state \<Rightarrow> string \<Rightarrow> json \<Rightarrow> string option \<Rightarrow> string res" where
  "trade_event_sha sha trade_id from_state to_state event_type payload previous =
     rbind (canonical_payload sha (trade_event_document trade_id from_state to_state event_type payload previous))
       (\<lambda>(encoded, digest). Inr (sha encoded))"

definition append_trade_event ::
  "string \<Rightarrow> trade_state option \<Rightarrow> trade_state \<Rightarrow> string \<Rightarrow> json \<Rightarrow> string option \<Rightarrow> string
     \<Rightarrow> 'a trade_db_scheme \<Rightarrow> 'a trade_db_scheme res" where
  "append_trade_event trade_id from_state to_state event_type payload previous digest db =
     rbind (store_json payload) (\<lambda>doc.
       let event = \<lparr>te_trade_id = trade_id, te_from_state = from_state, te_to_state = to_state,
             te_event_type = event_type, te_payload = doc, te_previous = previous, te_sha256 = digest\<rparr>
       in if \<not> trade_event_check event then Inl (IntegrityError ''execution_trade_events'')
          else if digest \<in> set (map te_sha256 (td_events db))
          then Inl (IntegrityError ''execution_trade_events_event_sha256_key'')
          else Inr (db\<lparr>td_events := insert_row event (td_events db)\<rparr>))"

text \<open>\<open>_record\<close>: a row is read only if its risk decision still has its fingerprint.\<close>

definition trade_of_row :: "(string \<Rightarrow> string) \<Rightarrow> trade_row \<Rightarrow> trade_record res" where
  "trade_of_row sha row =
     rbind (trade_object (nt_risk_decision_payload (tr_terms row))) (\<lambda>payload.
     rbind (canonical_payload sha payload) (\<lambda>(encoded, digest).
       if digest \<noteq> tw_risk_decision_sha256 row
       then Inl (MessageIdentityConflict ''stored risk decision payload fingerprint does not match'')
       else Inr (trade_record.truncate row)))"

definition get_trade :: "(string \<Rightarrow> string) \<Rightarrow> string \<Rightarrow> 'a trade_db_scheme \<Rightarrow> trade_record option res" where
  "get_trade sha trade_id db = (case trade_at trade_id db of
       None \<Rightarrow> Inr None
     | Some row \<Rightarrow> rbind (trade_of_row sha row) (\<lambda>t. Inr (Some t)))"

fun verify_trade_events ::
  "(string \<Rightarrow> string) \<Rightarrow> string \<Rightarrow> string option \<Rightarrow> trade_event list \<Rightarrow> string option option res" where
  "verify_trade_events sha trade_id previous [] = Inr (Some previous)"
| "verify_trade_events sha trade_id previous (row # rows) =
     rbind (trade_object (te_payload row)) (\<lambda>payload.
     rbind (trade_event_sha sha trade_id (te_from_state row) (te_to_state row) (te_event_type row) payload previous)
       (\<lambda>expected.
          if te_previous row \<noteq> previous \<or> te_sha256 row \<noteq> expected then Inr None
          else verify_trade_events sha trade_id (Some expected) rows))"

definition verify_trade_chain :: "(string \<Rightarrow> string) \<Rightarrow> string \<Rightarrow> 'a trade_db_scheme \<Rightarrow> bool res" where
  "verify_trade_chain sha trade_id db =
     rbind (verify_trade_events sha trade_id None (trade_events trade_id db)) (\<lambda>v.
       case v of
         None \<Rightarrow> Inr False
       | Some previous \<Rightarrow>
           rbind (get_trade sha trade_id db) (\<lambda>trade.
             Inr (case trade of None \<Rightarrow> False
                  | Some t \<Rightarrow> trade_events trade_id db \<noteq> [] \<and> Some (tr_journal_head_sha256 t) = previous)))"

subsection \<open>Creation\<close>

definition instant_text :: "pydatetime \<Rightarrow> json" where
  "instant_text x = (case x of Aware t \<Rightarrow> JStr (isoformat_auto t) | Naive t \<Rightarrow> JNull)"

definition new_trade_payload :: "new_trade \<Rightarrow> json" where
  "new_trade_payload t = JObj
     [(''trade_id'', JStr (nt_trade_id t)), (''strategy_intent_id'', JStr (nt_strategy_intent_id t)),
      (''risk_decision_id'', JStr (nt_risk_decision_id t)),
      (''risk_decision_payload'', nt_risk_decision_payload t), (''strategy_id'', JStr (nt_strategy_id t)),
      (''strategy_revision'', JStr (nt_strategy_revision t)), (''trading_mode'', JStr (nt_trading_mode t)),
      (''environment'', JStr (nt_environment t)), (''profile'', JStr (nt_profile t)),
      (''exchange'', JStr (nt_exchange t)), (''account_id'', JStr (nt_account_id t)),
      (''symbol'', JStr (nt_symbol t)), (''venue_symbol'', JStr (nt_venue_symbol t)),
      (''side'', JStr (nt_side t)), (''quantity_hex'', JStr (float_hex (nt_quantity t))),
      (''leverage_hex'', JStr (float_hex (nt_leverage t))),
      (''stop_price_hex'', JStr (float_hex (nt_stop_price t))),
      (''target_price_hex'', JStr (float_hex (nt_target_price t))),
      (''entry_eligible_at'', instant_text (nt_entry_eligible_at t)),
      (''entry_expires_at'', instant_text (nt_entry_expires_at t)),
      (''max_holding_ms'', JInt (nt_max_holding_ms t)),
      (''entry_client_order_id'', JStr (nt_entry_client_order_id t))]"

definition received_row :: "new_trade \<Rightarrow> json \<Rightarrow> string \<Rightarrow> string \<Rightarrow> timestamp \<Rightarrow> trade_row" where
  "received_row t doc digest head now =
     \<lparr>tr_terms = t\<lparr>nt_risk_decision_payload := doc\<rparr>, tr_state = RECEIVED, tr_ids = no_ids,
      tr_filled_quantity = float_zero, tr_first_fill_at = None, tr_timeout_at = None,
      tr_last_reconciled_at = None, tr_reconciliation_detail = None, tr_state_version = 0,
      tr_journal_head_sha256 = head, tw_risk_decision_sha256 = digest, tw_next_execution_event_seq = 1,
      tw_created_at = now, tw_updated_at = now\<rparr>"

definition insert_trade :: "trade_row \<Rightarrow> 'a trade_db_scheme \<Rightarrow> 'a trade_db_scheme res" where
  "insert_trade row db =
     (if \<not> int8 (nt_max_holding_ms (tr_terms row)) then Inl (DataError ''value out of int64 range'')
      else if \<not> trade_check row \<or> \<not> trades_unique (insert_row row (td_trades db))
      then Inl (IntegrityError ''execution_trades'')
      else Inr (db\<lparr>td_trades := insert_row row (td_trades db)\<rparr>))"

definition create_locked ::
  "(string \<Rightarrow> string) \<Rightarrow> new_trade \<Rightarrow> timestamp \<Rightarrow> 'a trade_db_scheme \<Rightarrow> (trade_record \<times> 'a trade_db_scheme) res" where
  "create_locked sha t now db =
     (case trade_at (nt_trade_id t) db of
        Some existing \<Rightarrow>
          rbind (trade_of_row sha existing) (\<lambda>record.
            if \<not> json_eq (new_trade_payload (tr_terms record)) (new_trade_payload t)
            then Inl (MessageIdentityConflict ''trade_id was reused with different immutable content'')
            else Inr (record, db))
      | None \<Rightarrow>
          let payload = JObj [(''trade'', new_trade_payload t)] in
          rbind (trade_event_sha sha (nt_trade_id t) None RECEIVED ''CREATED'' payload None) (\<lambda>head.
          rbind (canonical_payload sha (nt_risk_decision_payload t)) (\<lambda>(encoded, digest).
          rbind (store_json (nt_risk_decision_payload t)) (\<lambda>doc.
          let row = received_row t doc digest head now in
          rbind (insert_trade row db) (\<lambda>db1.
          rbind (append_trade_event (nt_trade_id t) None RECEIVED ''CREATED'' payload None head db1) (\<lambda>db2.
          rbind (trade_of_row sha row) (\<lambda>record. Inr (record, db2))))))))"

definition create_trade ::
  "(string \<Rightarrow> string) \<Rightarrow> (json \<Rightarrow> risk_decision res) \<Rightarrow> string list \<Rightarrow> new_trade \<Rightarrow> timestamp
     \<Rightarrow> 'a trade_db_scheme \<Rightarrow> (trade_record \<times> 'a trade_db_scheme) res" where
  "create_trade sha decode profiles t now db =
     rbind (validate_new_trade decode profiles t) (\<lambda>_. create_locked sha t now db)"

subsection \<open>Transitions\<close>

record transition_request =
  tt_target :: trade_state
  tt_event_type :: string
  tt_event_payload :: "json option"
  tt_filled_quantity :: "pyfloat option"
  tt_first_fill_at :: "pydatetime option"
  tt_ids :: order_ids

definition merge_identifier :: "string \<Rightarrow> string option \<Rightarrow> string option \<Rightarrow> string option res" where
  "merge_identifier name current supplied =
     (if (case supplied of None \<Rightarrow> False | Some s \<Rightarrow> blank s)
      then Inl (ValueError (name @ '' must be absent or non-empty''))
      else if current \<noteq> None \<and> supplied \<noteq> None \<and> current \<noteq> supplied
      then Inl (MessageIdentityConflict (name @ '' is immutable once recorded''))
      else Inr (case current of None \<Rightarrow> supplied | Some s \<Rightarrow> if s = [] then supplied else current))"

definition merge_ids :: "order_ids \<Rightarrow> order_ids \<Rightarrow> order_ids res" where
  "merge_ids c s =
     rbind (merge_identifier ''entry_exchange_order_id'' (oi_entry_exchange_order_id c) (oi_entry_exchange_order_id s)) (\<lambda>entry.
     rbind (merge_identifier ''stop_client_order_id'' (oi_stop_client_order_id c) (oi_stop_client_order_id s)) (\<lambda>stopc.
     rbind (merge_identifier ''stop_exchange_order_id'' (oi_stop_exchange_order_id c) (oi_stop_exchange_order_id s)) (\<lambda>stope.
     rbind (merge_identifier ''target_client_order_id'' (oi_target_client_order_id c) (oi_target_client_order_id s)) (\<lambda>targetc.
     rbind (merge_identifier ''target_exchange_order_id'' (oi_target_exchange_order_id c) (oi_target_exchange_order_id s)) (\<lambda>targete.
     rbind (merge_identifier ''close_client_order_id'' (oi_close_client_order_id c) (oi_close_client_order_id s)) (\<lambda>closec.
     rbind (merge_identifier ''close_exchange_order_id'' (oi_close_exchange_order_id c) (oi_close_exchange_order_id s)) (\<lambda>closee.
       Inr \<lparr>oi_entry_exchange_order_id = entry, oi_stop_client_order_id = stopc,
            oi_stop_exchange_order_id = stope, oi_target_client_order_id = targetc,
            oi_target_exchange_order_id = targete, oi_close_client_order_id = closec,
            oi_close_exchange_order_id = closee\<rparr>)))))))"

text \<open>\<open>first_fill_at.astimezone(UTC)\<close> of an optional argument.\<close>

definition supplied_fill :: "pydatetime option \<Rightarrow> timestamp option res" where
  "supplied_fill x = (case x of
       None \<Rightarrow> Inr None
     | Some (Naive t) \<Rightarrow> Inl (ValueError ''first_fill_at must be timezone-aware'')
     | Some (Aware t) \<Rightarrow> if datetime_range t then Inr (Some t) else Inl (OverflowError ''date value out of range''))"

definition first_fill :: "timestamp option \<Rightarrow> timestamp option \<Rightarrow> timestamp option res" where
  "first_fill current supplied =
     (if supplied \<noteq> None \<and> current \<noteq> None \<and> supplied \<noteq> current
      then Inl (MessageIdentityConflict ''first_fill_at is immutable once recorded'')
      else Inr (if current \<noteq> None then current else supplied))"

definition timeout_of :: "timestamp option \<Rightarrow> int \<Rightarrow> timestamp option res" where
  "timeout_of fill max_holding_ms = (case fill of
       None \<Rightarrow> Inr None
     | Some t \<Rightarrow> if datetime_range (t + max_holding_ms * 1000) then Inr (Some (t + max_holding_ms * 1000))
         else Inl (ValueError ''max_holding_ms exceeds the supported timestamp range''))"

definition transition_payload :: "json \<Rightarrow> pyfloat \<Rightarrow> timestamp option \<Rightarrow> order_ids \<Rightarrow> json" where
  "transition_payload event_payload filled fill ids = JObj
     [(''event'', event_payload), (''filled_quantity_hex'', JStr (float_hex filled)),
      (''first_fill_at'', json_text (map_option isoformat_auto fill)),
      (''entry_exchange_order_id'', json_text (oi_entry_exchange_order_id ids)),
      (''stop_client_order_id'', json_text (oi_stop_client_order_id ids)),
      (''stop_exchange_order_id'', json_text (oi_stop_exchange_order_id ids)),
      (''target_client_order_id'', json_text (oi_target_client_order_id ids)),
      (''target_exchange_order_id'', json_text (oi_target_exchange_order_id ids)),
      (''close_client_order_id'', json_text (oi_close_client_order_id ids)),
      (''close_exchange_order_id'', json_text (oi_close_exchange_order_id ids))]"

text \<open>What a transition makes of the mutable part of the trade, or why it is refused.\<close>

definition next_exposure ::
  "trade_record \<Rightarrow> transition_request \<Rightarrow> (pyfloat \<times> timestamp option \<times> timestamp option \<times> order_ids) res" where
  "next_exposure current q =
     rbind (validate_trade_transition (tr_state current) (tt_target q)) (\<lambda>_.
     let filled = (case tt_filled_quantity q of None \<Rightarrow> tr_filled_quantity current | Some f \<Rightarrow> f) in
     if \<not> is_finite filled \<or> \<not> (float_le float_zero filled \<and> float_le filled (nt_quantity (tr_terms current)))
     then Inl (ValueError ''filled_quantity is outside the trade quantity'')
     else if float_less filled (tr_filled_quantity current)
     then Inl (ValueError ''filled_quantity must be monotonic'')
     else rbind (supplied_fill (tt_first_fill_at q)) (\<lambda>supplied.
          rbind (first_fill (tr_first_fill_at current) supplied) (\<lambda>fill.
     if float_less float_zero filled \<and> fill = None
     then Inl (ValueError ''the first non-zero fill must record first_fill_at'')
     else if float_eq filled float_zero \<and> fill \<noteq> None
     then Inl (ValueError ''first_fill_at requires a non-zero fill'')
     else if tt_target q = CANCELLED \<and> float_less float_zero filled
     then Inl (ValueError ''a partially filled trade cannot be cancelled'')
     else if tt_target q \<in> set exposure_states \<and> float_le filled float_zero
     then Inl (ValueError (trade_state_value (tt_target q) @ '' requires a non-zero fill''))
     else rbind (timeout_of fill (nt_max_holding_ms (tr_terms current))) (\<lambda>timeout.
          rbind (merge_ids (tr_ids current) (tt_ids q)) (\<lambda>ids.
            Inr (filled, fill, timeout, ids))))))"

definition event_payload_of :: "transition_request \<Rightarrow> json" where
  "event_payload_of q = (case tt_event_payload q of None \<Rightarrow> JObj [] | Some p \<Rightarrow> if p = JObj [] then JObj [] else p)"

text \<open>\<open>COALESCE($n, column)\<close> for the identifier columns.\<close>

definition coalesce :: "'v option \<Rightarrow> 'v option \<Rightarrow> 'v option" where
  "coalesce x y = (case x of None \<Rightarrow> y | Some v \<Rightarrow> x)"

definition coalesce_ids :: "order_ids \<Rightarrow> order_ids \<Rightarrow> order_ids" where
  "coalesce_ids n c =
     \<lparr>oi_entry_exchange_order_id = coalesce (oi_entry_exchange_order_id n) (oi_entry_exchange_order_id c),
      oi_stop_client_order_id = coalesce (oi_stop_client_order_id n) (oi_stop_client_order_id c),
      oi_stop_exchange_order_id = coalesce (oi_stop_exchange_order_id n) (oi_stop_exchange_order_id c),
      oi_target_client_order_id = coalesce (oi_target_client_order_id n) (oi_target_client_order_id c),
      oi_target_exchange_order_id = coalesce (oi_target_exchange_order_id n) (oi_target_exchange_order_id c),
      oi_close_client_order_id = coalesce (oi_close_client_order_id n) (oi_close_client_order_id c),
      oi_close_exchange_order_id = coalesce (oi_close_exchange_order_id n) (oi_close_exchange_order_id c)\<rparr>"

definition moved_trade ::
  "trade_state \<Rightarrow> pyfloat \<Rightarrow> timestamp option \<Rightarrow> timestamp option \<Rightarrow> order_ids \<Rightarrow> string \<Rightarrow> timestamp
     \<Rightarrow> trade_row \<Rightarrow> trade_row" where
  "moved_trade target filled fill timeout ids head now r =
     r\<lparr>tr_state := target, tr_filled_quantity := filled, tr_first_fill_at := fill, tr_timeout_at := timeout,
       tr_ids := coalesce_ids ids (tr_ids r), tr_state_version := tr_state_version r + 1, tr_journal_head_sha256 := head,
       tw_updated_at := now\<rparr>"

definition transition_locked ::
  "(string \<Rightarrow> string) \<Rightarrow> trade_record \<Rightarrow> transition_request \<Rightarrow> timestamp \<Rightarrow> 'a trade_db_scheme
     \<Rightarrow> (trade_record \<times> 'a trade_db_scheme) res" where
  "transition_locked sha current q now db =
     rbind (next_exposure current q) (\<lambda>(filled, fill, timeout, ids).
     let payload = transition_payload (event_payload_of q) filled fill ids;
         trade_id = tw_trade_id current;
         same = (\<lambda>r. tw_trade_id r = trade_id \<and> tr_state_version r = tr_state_version current) in
     rbind (trade_event_sha sha trade_id (Some (tr_state current)) (tt_target q) (tt_event_type q) payload
              (Some (tr_journal_head_sha256 current))) (\<lambda>head.
     let move = moved_trade (tt_target q) filled fill timeout ids head now in
     case select_one same (td_trades db) of
       None \<Rightarrow> Inl (RuntimeError ''trade transition lost its serialized state version'')
     | Some row \<Rightarrow>
         let trades = update_where same move (td_trades db) in
         if \<not> int8 (tr_state_version row + 1) then Inl (DataError ''bigint out of range'')
         else if \<not> trade_check (move row) \<or> \<not> trades_unique trades
         then Inl (IntegrityError ''execution_trades'')
         else rbind (append_trade_event trade_id (Some (tr_state current)) (tt_target q) (tt_event_type q) payload
                       (Some (tr_journal_head_sha256 current)) head (db\<lparr>td_trades := trades\<rparr>)) (\<lambda>db1.
              rbind (trade_of_row sha (move row)) (\<lambda>record. Inr (record, db1)))))"

definition validate_transition_arguments :: "string \<Rightarrow> string \<Rightarrow> unit res" where
  "validate_transition_arguments trade_id event_type =
     (if blank trade_id then Inl (ValueError ''trade_id must not be empty'')
      else if blank event_type then Inl (ValueError ''event_type must not be empty'')
      else Inr ())"

definition transition_trade ::
  "(string \<Rightarrow> string) \<Rightarrow> string \<Rightarrow> transition_request \<Rightarrow> timestamp \<Rightarrow> 'a trade_db_scheme
     \<Rightarrow> (trade_record \<times> 'a trade_db_scheme) res" where
  "transition_trade sha trade_id q now db =
     rbind (validate_transition_arguments trade_id (tt_event_type q)) (\<lambda>_.
     case trade_at trade_id db of
       None \<Rightarrow> Inl (KeyError ''unknown trade'')
     | Some row \<Rightarrow> rbind (trade_of_row sha row) (\<lambda>current. transition_locked sha current q now db))"

subsection \<open>Reconciliation marks and queries\<close>

definition reconciled_trade :: "string \<Rightarrow> timestamp \<Rightarrow> trade_row \<Rightarrow> trade_row" where
  "reconciled_trade detail now r =
     r\<lparr>tr_last_reconciled_at := Some now, tr_reconciliation_detail := Some (take 4000 detail), tw_updated_at := now\<rparr>"

text \<open>The statement runs on its own, so it stays done when decoding the returned row raises.\<close>

definition mark_reconciled ::
  "(string \<Rightarrow> string) \<Rightarrow> string \<Rightarrow> string \<Rightarrow> timestamp \<Rightarrow> 'a trade_db_scheme \<Rightarrow> trade_record res \<times> 'a trade_db_scheme" where
  "mark_reconciled sha trade_id detail now db =
     (if blank trade_id then (Inl (ValueError ''trade_id must not be empty''), db)
      else if blank detail then (Inl (ValueError ''reconciliation detail must not be empty''), db)
      else case trade_at trade_id db of
        None \<Rightarrow> (Inl (KeyError ''unknown trade''), db)
      | Some row \<Rightarrow>
          (trade_of_row sha (reconciled_trade detail now row),
           db\<lparr>td_trades := update_where (\<lambda>r. tw_trade_id r = trade_id) (reconciled_trade detail now) (td_trades db)\<rparr>))"

definition next_event_sequence ::
  "string \<Rightarrow> timestamp \<Rightarrow> 'a trade_db_scheme \<Rightarrow> (int \<times> 'a trade_db_scheme) res" where
  "next_event_sequence trade_id now db =
     (if blank trade_id then Inl (ValueError ''trade_id must not be empty'')
      else case trade_at trade_id db of
        None \<Rightarrow> Inl (KeyError ''unknown trade'')
      | Some row \<Rightarrow>
          if \<not> int8 (tw_next_execution_event_seq row + 1) then Inl (DataError ''bigint out of range'')
          else Inr (tw_next_execution_event_seq row,
            db\<lparr>td_trades := update_where (\<lambda>r. tw_trade_id r = trade_id)
               (\<lambda>r. r\<lparr>tw_next_execution_event_seq := tw_next_execution_event_seq r + 1, tw_updated_at := now\<rparr>)
               (td_trades db)\<rparr>))"

primrec trades_of_rows :: "(string \<Rightarrow> string) \<Rightarrow> trade_row list \<Rightarrow> trade_record list res" where
  "trades_of_rows sha [] = Inr []"
| "trades_of_rows sha (r # rs) =
     rbind (trade_of_row sha r) (\<lambda>t. rbind (trades_of_rows sha rs) (\<lambda>ts. Inr (t # ts)))"

definition by_creation :: "trade_row list \<Rightarrow> trade_row list" where
  "by_creation t = sort_key tw_created_at (sort_key tw_trade_id t)"

definition trade_recovery_required ::
  "(string \<Rightarrow> string) \<Rightarrow> string \<Rightarrow> string \<Rightarrow> 'a trade_db_scheme \<Rightarrow> trade_record list res" where
  "trade_recovery_required sha environment account_id db =
     (if blank environment then Inl (ValueError ''environment must not be empty'')
      else if blank account_id then Inl (ValueError ''account_id must not be empty'')
      else trades_of_rows sha (by_creation (filter (\<lambda>r. nt_environment (tr_terms r) = environment
             \<and> nt_account_id (tr_terms r) = account_id \<and> open_trade r) (td_trades db))))"

definition list_trades_for_scope ::
  "(string \<Rightarrow> string) \<Rightarrow> string \<Rightarrow> string \<Rightarrow> string \<Rightarrow> bool \<Rightarrow> 'a trade_db_scheme \<Rightarrow> trade_record list res" where
  "list_trades_for_scope sha environment account_id exchange include_terminal db =
     (if blank environment then Inl (ValueError ''environment must not be empty'')
      else if blank account_id then Inl (ValueError ''account_id must not be empty'')
      else if blank exchange then Inl (ValueError ''exchange must not be empty'')
      else trades_of_rows sha (by_creation (filter (\<lambda>r. account_slot r = (environment, account_id, exchange)
             \<and> (include_terminal \<or> open_trade r)) (td_trades db))))"

subsection \<open>Facts about rows and events\<close>

definition trade_readable :: "(string \<Rightarrow> string) \<Rightarrow> trade_row \<Rightarrow> bool" where
  "trade_readable sha r \<longleftrightarrow> is_object (nt_risk_decision_payload (tr_terms r)) \<and>
     json_finite (nt_risk_decision_payload (tr_terms r)) \<and>
     sha (canonical_json (nt_risk_decision_payload (tr_terms r))) = tw_risk_decision_sha256 r"

lemma trade_object_Inr: "trade_object p = Inr q \<longleftrightarrow> is_object p \<and> q = p"
  by (auto simp: trade_object_def)

lemma trade_of_row_Inr:
  "trade_of_row sha r = Inr t \<longleftrightarrow> trade_readable sha r \<and> t = trade_record.truncate r"
  by (auto simp: trade_of_row_def trade_readable_def rbind_eq_Inr trade_object_Inr canonical_payload_Inr)

lemma truncate_trade [simp]:
  "tr_terms (trade_record.truncate r) = tr_terms r" "tr_state (trade_record.truncate r) = tr_state r"
  "tr_ids (trade_record.truncate r) = tr_ids r"
  "tr_filled_quantity (trade_record.truncate r) = tr_filled_quantity r"
  "tr_first_fill_at (trade_record.truncate r) = tr_first_fill_at r"
  "tr_timeout_at (trade_record.truncate r) = tr_timeout_at r"
  "tr_state_version (trade_record.truncate r) = tr_state_version r"
  "tr_journal_head_sha256 (trade_record.truncate r) = tr_journal_head_sha256 r"
  "tw_trade_id (trade_record.truncate r) = tw_trade_id r"
  by (simp_all add: trade_record.defs tw_trade_id_def)

lemma trade_event_sha_Inr:
  "trade_event_sha sha k f t ty p prev = Inr d \<longleftrightarrow>
     json_finite p \<and> d = sha (canonical_json (trade_event_document k f t ty p prev))"
  by (auto simp: trade_event_sha_def rbind_eq_Inr canonical_payload_Inr trade_event_document_def)

lemma trade_event_document_sorted:
  "canonical_json (trade_event_document k f t ty (sorted_json p) prev)
     = canonical_json (trade_event_document k f t ty p prev)"
  unfolding canonical_json_def trade_event_document_def
  by (rule arg_cong [where f = json_dumps], rule sorted_object_cong) simp_all

lemma trade_event_document_wf [simp]: "json_wf (trade_event_document k f t ty p prev) = json_wf p"
  by (simp add: trade_event_document_def)

lemma verify_trade_events_snoc:
  "verify_trade_events sha k p (es @ [e]) = Inr (Some q) \<longleftrightarrow>
     verify_trade_events sha k p es = Inr (Some (te_previous e)) \<and> is_object (te_payload e) \<and>
     json_finite (te_payload e) \<and>
     te_sha256 e = sha (canonical_json (trade_event_document k (te_from_state e) (te_to_state e) (te_event_type e)
       (te_payload e) (te_previous e))) \<and>
     q = Some (te_sha256 e)"
proof (induction es arbitrary: p)
  case Nil
  then show ?case by (auto simp: rbind_eq_Inr trade_object_Inr trade_event_sha_Inr)
next
  case (Cons a es)
  then show ?case by (auto simp: rbind_eq_Inr)
qed

lemma trade_at_Some: "trade_at k db = Some r \<Longrightarrow> r \<in> set (td_trades db) \<and> tw_trade_id r = k"
  unfolding trade_at_def by (drule select_one_SomeD) simp

lemma trade_at_unique:
  "trades_unique (td_trades db) \<Longrightarrow> r \<in> set (td_trades db) \<Longrightarrow> trade_at (tw_trade_id r) db = Some r"
  unfolding trade_at_def trades_unique_def by (rule select_one_unique) simp_all

lemma trade_row_eq:
  "trades_unique t \<Longrightarrow> r \<in> set t \<Longrightarrow> q \<in> set t \<Longrightarrow> tw_trade_id r = tw_trade_id q \<Longrightarrow> r = q"
  unfolding trades_unique_def by (blast intro: unique_by_eq)

lemma append_trade_event_Inr:
  "append_trade_event k f t ty p prev d db = Inr db' \<longleftrightarrow>
     (\<exists>doc. store_json p = Inr doc \<and>
       (let e = \<lparr>te_trade_id = k, te_from_state = f, te_to_state = t, te_event_type = ty, te_payload = doc,
                te_previous = prev, te_sha256 = d\<rparr>
        in trade_event_check e \<and> d \<notin> te_sha256 ` set (td_events db) \<and>
           db' = db\<lparr>td_events := insert_row e (td_events db)\<rparr>))"
  by (auto simp: append_trade_event_def rbind_eq_Inr Let_def)

lemma moved_trade_simps [simp]:
  "tr_terms (moved_trade s f a b ids h n r) = tr_terms r" "tr_state (moved_trade s f a b ids h n r) = s"
  "tr_filled_quantity (moved_trade s f a b ids h n r) = f" "tr_first_fill_at (moved_trade s f a b ids h n r) = a"
  "tr_timeout_at (moved_trade s f a b ids h n r) = b" "tr_ids (moved_trade s f a b ids h n r) = coalesce_ids ids (tr_ids r)"
  "tr_state_version (moved_trade s f a b ids h n r) = tr_state_version r + 1"
  "tr_journal_head_sha256 (moved_trade s f a b ids h n r) = h"
  "tw_risk_decision_sha256 (moved_trade s f a b ids h n r) = tw_risk_decision_sha256 r"
  "tw_trade_id (moved_trade s f a b ids h n r) = tw_trade_id r"
  "tw_next_execution_event_seq (moved_trade s f a b ids h n r) = tw_next_execution_event_seq r"
  by (simp_all add: moved_trade_def tw_trade_id_def)

lemma received_row_simps [simp]:
  "tw_trade_id (received_row t doc d h n) = nt_trade_id t" "tr_state (received_row t doc d h n) = RECEIVED"
  "tr_filled_quantity (received_row t doc d h n) = float_zero" "tr_first_fill_at (received_row t doc d h n) = None"
  "tr_timeout_at (received_row t doc d h n) = None" "tr_state_version (received_row t doc d h n) = 0"
  "tr_journal_head_sha256 (received_row t doc d h n) = h" "tr_ids (received_row t doc d h n) = no_ids"
  "tr_terms (received_row t doc d h n) = t\<lparr>nt_risk_decision_payload := doc\<rparr>"
  "tw_risk_decision_sha256 (received_row t doc d h n) = d"
  "tw_next_execution_event_seq (received_row t doc d h n) = 1"
  by (simp_all add: received_row_def tw_trade_id_def)

subsection \<open>Outcomes\<close>

lemma create_locked_outcome:
  assumes "create_locked sha t now db = Inr (record, db')"
  obtains
    (found) row where "trade_at (nt_trade_id t) db = Some row" and "trade_readable sha row"
      and "record = trade_record.truncate row" and "db' = db"
      and "json_eq (new_trade_payload (tr_terms row)) (new_trade_payload t)"
  | (fresh) row doc e where "trade_at (nt_trade_id t) db = None"
      and "row = received_row t doc (sha (canonical_json (nt_risk_decision_payload t))) (te_sha256 e) now"
      and "store_json (nt_risk_decision_payload t) = Inr doc" and "trade_readable sha row"
      and "record = trade_record.truncate row"
      and "trade_check row" and "trades_unique (insert_row row (td_trades db))"
      and "te_trade_id e = nt_trade_id t" and "te_from_state e = None" and "te_to_state e = RECEIVED"
      and "te_event_type e = ''CREATED''" and "te_previous e = None"
      and "store_json (JObj [(''trade'', new_trade_payload t)]) = Inr (te_payload e)"
      and "te_sha256 e = sha (canonical_json (trade_event_document (nt_trade_id t) None RECEIVED ''CREATED''
             (JObj [(''trade'', new_trade_payload t)]) None))"
      and "json_finite (JObj [(''trade'', new_trade_payload t)])"
      and "te_sha256 e \<notin> te_sha256 ` set (td_events db)"
      and "db' = db\<lparr>td_trades := insert_row row (td_trades db), td_events := insert_row e (td_events db)\<rparr>"
proof (cases "trade_at (nt_trade_id t) db")
  case (Some row)
  with assms show thesis
    by (intro found [of row]) (auto simp: create_locked_def rbind_eq_Inr trade_of_row_Inr)
next
  case None
  let ?p = "JObj [(''trade'', new_trade_payload t)]"
  let ?d = "sha (canonical_json (nt_risk_decision_payload t))"
  obtain head doc db1 where h: "trade_event_sha sha (nt_trade_id t) None RECEIVED ''CREATED'' ?p None = Inr head"
      "store_json (nt_risk_decision_payload t) = Inr doc"
      "insert_trade (received_row t doc ?d head now) db = Inr db1"
      "append_trade_event (nt_trade_id t) None RECEIVED ''CREATED'' ?p None head db1 = Inr db'"
      "trade_of_row sha (received_row t doc ?d head now) = Inr record"
    using assms None by (auto simp: create_locked_def Let_def rbind_eq_Inr canonical_payload_Inr)
  let ?row = "received_row t doc ?d head now"
  have db1: "db1 = db\<lparr>td_trades := insert_row ?row (td_trades db)\<rparr>" "trade_check ?row"
      "trades_unique (insert_row ?row (td_trades db))"
    using h(3) by (auto simp: insert_trade_def split: if_splits)
  from h(4) obtain d where d: "store_json ?p = Inr d" "head \<notin> te_sha256 ` set (td_events db1)"
      "db' = db1\<lparr>td_events := insert_row \<lparr>te_trade_id = nt_trade_id t, te_from_state = None, te_to_state = RECEIVED,
         te_event_type = ''CREATED'', te_payload = d, te_previous = None, te_sha256 = head\<rparr> (td_events db1)\<rparr>"
    by (auto simp: append_trade_event_Inr Let_def)
  have s: "json_finite ?p" "head = sha (canonical_json (trade_event_document (nt_trade_id t) None RECEIVED ''CREATED'' ?p None))"
    using h(1) by (simp_all only: trade_event_sha_Inr)
  show thesis
    by (rule fresh [of ?row doc "\<lparr>te_trade_id = nt_trade_id t, te_from_state = None, te_to_state = RECEIVED,
          te_event_type = ''CREATED'', te_payload = d, te_previous = None, te_sha256 = head\<rparr>"])
      (unfold trade_event.simps, fact None, rule refl, fact h(2), use h(5) db1 d s in \<open>simp_all add: trade_of_row_Inr\<close>)
qed

lemma transition_locked_outcome:
  assumes "transition_locked sha (trade_record.truncate row) q now db = Inr (record, db')"
    and "trades_unique (td_trades db)" and "row \<in> set (td_trades db)"
  obtains filled fill timeout ids e where
    "next_exposure (trade_record.truncate row) q = Inr (filled, fill, timeout, ids)"
    and "te_trade_id e = tw_trade_id row" and "te_from_state e = Some (tr_state row)"
    and "te_to_state e = tt_target q" and "te_event_type e = tt_event_type q"
    and "te_previous e = Some (tr_journal_head_sha256 row)"
    and "store_json (transition_payload (event_payload_of q) filled fill ids) = Inr (te_payload e)"
    and "json_finite (transition_payload (event_payload_of q) filled fill ids)"
    and "te_sha256 e = sha (canonical_json (trade_event_document (tw_trade_id row) (Some (tr_state row)) (tt_target q)
           (tt_event_type q) (transition_payload (event_payload_of q) filled fill ids) (te_previous e)))"
    and "te_sha256 e \<notin> te_sha256 ` set (td_events db)"
    and "trade_check (moved_trade (tt_target q) filled fill timeout ids (te_sha256 e) now row)"
    and "trade_readable sha (moved_trade (tt_target q) filled fill timeout ids (te_sha256 e) now row)"
    and "record = trade_record.truncate (moved_trade (tt_target q) filled fill timeout ids (te_sha256 e) now row)"
    and "db' = db\<lparr>td_trades := update_where (\<lambda>r. tw_trade_id r = tw_trade_id row)
             (moved_trade (tt_target q) filled fill timeout ids (te_sha256 e) now) (td_trades db),
           td_events := insert_row e (td_events db)\<rparr>"
    and "trades_unique (td_trades db')"
proof -
  let ?c = "trade_record.truncate row"
  let ?same = "\<lambda>r. tw_trade_id r = tw_trade_id row \<and> tr_state_version r = tr_state_version row"
  obtain filled fill timeout ids where n: "next_exposure ?c q = Inr (filled, fill, timeout, ids)"
    using assms(1) by (auto simp: transition_locked_def rbind_eq_Inr)
  let ?p = "transition_payload (event_payload_of q) filled fill ids"
  have same: "?same r \<longleftrightarrow> r = row" if "r \<in> set (td_trades db)" for r
    using trade_row_eq [OF assms(2) that assms(3)] by auto
  have "select_one ?same (td_trades db) = select_one (\<lambda>r. tw_trade_id r = tw_trade_id row) (td_trades db)"
    by (rule select_one_cong) (use same trade_row_eq [OF assms(2) _ assms(3)] in auto)
  then have sel: "select_one ?same (td_trades db) = Some row"
    using trade_at_unique [OF assms(2,3)] by (simp add: trade_at_def)
  have upd: "update_where ?same f (td_trades db) = update_where (\<lambda>r. tw_trade_id r = tw_trade_id row) f (td_trades db)" for f
    unfolding update_where_def using same trade_row_eq [OF assms(2) _ assms(3)] by (auto intro!: map_cong)
  obtain head where h: "trade_event_sha sha (tw_trade_id row) (Some (tr_state row)) (tt_target q) (tt_event_type q) ?p
         (Some (tr_journal_head_sha256 row)) = Inr head"
      "trade_check (moved_trade (tt_target q) filled fill timeout ids head now row)"
      "trades_unique (update_where ?same (moved_trade (tt_target q) filled fill timeout ids head now) (td_trades db))"
      "append_trade_event (tw_trade_id row) (Some (tr_state row)) (tt_target q) (tt_event_type q) ?p
         (Some (tr_journal_head_sha256 row)) head (db\<lparr>td_trades :=
            update_where ?same (moved_trade (tt_target q) filled fill timeout ids head now) (td_trades db)\<rparr>) = Inr db'"
      "trade_of_row sha (moved_trade (tt_target q) filled fill timeout ids head now row) = Inr record"
    using assms(1) unfolding transition_locked_def n rbind_Inr prod.case Let_def truncate_trade sel option.case
    by (auto simp: rbind_eq_Inr sel split: if_splits)
  from h(4) obtain d where d: "store_json ?p = Inr d" "head \<notin> te_sha256 ` set (td_events db)"
      "db' = db\<lparr>td_trades := update_where (\<lambda>r. tw_trade_id r = tw_trade_id row)
                (moved_trade (tt_target q) filled fill timeout ids head now) (td_trades db),
            td_events := insert_row \<lparr>te_trade_id = tw_trade_id row, te_from_state = Some (tr_state row),
         te_to_state = tt_target q, te_event_type = tt_event_type q, te_payload = d,
         te_previous = Some (tr_journal_head_sha256 row), te_sha256 = head\<rparr> (td_events db)\<rparr>"
    by (auto simp: append_trade_event_Inr Let_def upd)
  have s: "json_finite ?p" "head = sha (canonical_json (trade_event_document (tw_trade_id row) (Some (tr_state row))
      (tt_target q) (tt_event_type q) ?p (Some (tr_journal_head_sha256 row))))"
    using h(1) by (simp_all only: trade_event_sha_Inr)
  show thesis
    by (rule that [of filled fill timeout ids "\<lparr>te_trade_id = tw_trade_id row, te_from_state = Some (tr_state row),
         te_to_state = tt_target q, te_event_type = tt_event_type q, te_payload = d,
         te_previous = Some (tr_journal_head_sha256 row), te_sha256 = head\<rparr>"])
      (unfold trade_event.simps, use n h(2,3,5) d s upd in \<open>simp_all add: trade_of_row_Inr\<close>)
qed

subsection \<open>What a transition may change\<close>

lemma next_exposure_facts:
  assumes "next_exposure c q = Inr (filled, fill, timeout, ids)"
    and "is_finite (nt_quantity (tr_terms c))" and "is_finite (tr_filled_quantity c)"
  shows "tt_target q \<in> set (allowed_transitions (tr_state c))" and "is_finite filled"
    and "0 \<le> float_units filled" and "float_units filled \<le> float_units (nt_quantity (tr_terms c))"
    and "float_units (tr_filled_quantity c) \<le> float_units filled"
    and "(0 < float_units filled) = (fill \<noteq> None)"
    and "tr_first_fill_at c \<noteq> None \<longrightarrow> fill = tr_first_fill_at c"
    and "tt_target q = CANCELLED \<longrightarrow> float_units filled = 0"
    and "tt_target q \<in> set exposure_states \<longrightarrow> 0 < float_units filled"
    and "timeout = map_option (\<lambda>t. t + nt_max_holding_ms (tr_terms c) * 1000) fill"
    and "merge_ids (tr_ids c) (tt_ids q) = Inr ids"
proof -
  define g where "g = (case tt_filled_quantity q of None \<Rightarrow> tr_filled_quantity c | Some f \<Rightarrow> f)"
  obtain sup where a: "tt_target q \<in> set (allowed_transitions (tr_state c))"
      "is_finite g" "float_le float_zero g" "float_le g (nt_quantity (tr_terms c))" "\<not> float_less g (tr_filled_quantity c)"
      "first_fill (tr_first_fill_at c) sup = Inr fill" "\<not> (float_less float_zero g \<and> fill = None)"
      "\<not> (float_eq g float_zero \<and> fill \<noteq> None)" "\<not> (tt_target q = CANCELLED \<and> float_less float_zero g)"
      "\<not> (tt_target q \<in> set exposure_states \<and> float_le g float_zero)"
      "timeout_of fill (nt_max_holding_ms (tr_terms c)) = Inr timeout" "merge_ids (tr_ids c) (tt_ids q) = Inr ids" "filled = g"
    using assms(1) unfolding next_exposure_def g_def [symmetric] Let_def
    by (auto simp: rbind_eq_Inr validate_trade_transition_def split: if_splits)
  note le = float_le_finite and less = float_less_finite
  show "tt_target q \<in> set (allowed_transitions (tr_state c))" "merge_ids (tr_ids c) (tt_ids q) = Inr ids"
    "is_finite filled" using a by simp_all
  show n: "0 \<le> float_units filled" "float_units filled \<le> float_units (nt_quantity (tr_terms c))"
    "float_units (tr_filled_quantity c) \<le> float_units filled"
    using a(2-5,13) assms(2,3) by (simp_all add: le less)
  show "(0 < float_units filled) = (fill \<noteq> None)"
    using a(2,7,8,13) n(1) by (auto simp: less le float_eq_def)
  show "tt_target q = CANCELLED \<longrightarrow> float_units filled = 0"
    "tt_target q \<in> set exposure_states \<longrightarrow> 0 < float_units filled"
    using a(2,9,10,13) n(1) by (auto simp: less le)
  show "tr_first_fill_at c \<noteq> None \<longrightarrow> fill = tr_first_fill_at c"
    using a(6) by (auto simp: first_fill_def split: if_splits)
  show "timeout = map_option (\<lambda>t. t + nt_max_holding_ms (tr_terms c) * 1000) fill"
    using a(11) by (auto simp: timeout_of_def split: option.splits if_splits)
qed

subsection \<open>The abstract position\<close>

text \<open>
  What the lifecycle promises about the exposure of a trade, without journals, identifiers and
  constraints: it waits for a fill, is exposed, is being closed, and is closed; or it is blocked.
  The fill only grows up to the size, and the instant of the first fill and the deadline that
  follows from it are fixed once they are set.
\<close>

datatype phase = Waiting | Exposed | Closing | Closed | Blocked

record position =
  ps_phase :: phase
  ps_filled :: int
  ps_size :: int
  ps_opened :: "timestamp option"
  ps_deadline :: "timestamp option"

definition grows :: "position \<Rightarrow> position \<Rightarrow> bool" where
  "grows p p' \<longleftrightarrow> ps_size p' = ps_size p \<and> ps_filled p \<le> ps_filled p' \<and> ps_filled p' \<le> ps_size p \<and>
     (0 < ps_filled p') = (ps_opened p' \<noteq> None) \<and> (ps_deadline p' = None) = (ps_opened p' = None) \<and>
     (ps_opened p \<noteq> None \<longrightarrow> ps_opened p' = ps_opened p \<and> ps_deadline p' = ps_deadline p)"

inductive position_step :: "position option \<Rightarrow> position option \<Rightarrow> bool" where
  accept: "0 < quantity \<Longrightarrow> position_step None
     (Some \<lparr>ps_phase = Waiting, ps_filled = 0, ps_size = quantity, ps_opened = None, ps_deadline = None\<rparr>)"
| wait: "ps_phase p = Waiting \<Longrightarrow> ps_phase p' \<in> {Waiting, Blocked} \<Longrightarrow> grows p p' \<Longrightarrow> position_step (Some p) (Some p')"
| expose: "ps_phase p \<in> {Waiting, Exposed} \<Longrightarrow> ps_phase p' = Exposed \<Longrightarrow> 0 < ps_filled p' \<Longrightarrow> grows p p'
    \<Longrightarrow> position_step (Some p) (Some p')"
| abandon: "ps_phase p = Waiting \<Longrightarrow> ps_phase p' = Closed \<Longrightarrow> ps_filled p' = 0 \<Longrightarrow> grows p p'
    \<Longrightarrow> position_step (Some p) (Some p')"
| close: "ps_phase p \<in> {Exposed, Blocked} \<Longrightarrow> ps_phase p' = Closing \<Longrightarrow> 0 < ps_filled p' \<Longrightarrow> grows p p'
    \<Longrightarrow> position_step (Some p) (Some p')"
| block: "ps_phase p \<in> {Exposed, Closing} \<Longrightarrow> ps_phase p' = Blocked \<Longrightarrow> grows p p'
    \<Longrightarrow> position_step (Some p) (Some p')"
| finish: "ps_phase p \<in> {Closing, Blocked} \<Longrightarrow> ps_phase p' = Closed \<Longrightarrow> grows p p'
    \<Longrightarrow> position_step (Some p) (Some p')"

inductive_cases position_step_Some: "position_step (Some p) x"

definition position_ok :: "position option \<Rightarrow> bool" where
  "position_ok x = (case x of None \<Rightarrow> True
     | Some p \<Rightarrow> 0 \<le> ps_filled p \<and> ps_filled p \<le> ps_size p \<and> (0 < ps_filled p) = (ps_opened p \<noteq> None) \<and>
         (ps_deadline p = None) = (ps_opened p = None) \<and> (ps_phase p \<in> {Exposed, Closing} \<longrightarrow> 0 < ps_filled p))"

lemma position_step_ok: "position_step x y \<Longrightarrow> position_ok x \<Longrightarrow> position_ok y"
  by (induction rule: position_step.induct) (auto simp: position_ok_def grows_def)

lemma position_run_ok: "position_step\<^sup>*\<^sup>* x y \<Longrightarrow> position_ok x \<Longrightarrow> position_ok y"
  by (induction rule: rtranclp_induct) (auto intro: position_step_ok)

text \<open>A later position of the same trade.\<close>

definition position_le :: "position \<Rightarrow> position \<Rightarrow> bool" where
  "position_le p p' \<longleftrightarrow> ps_size p' = ps_size p \<and> ps_filled p \<le> ps_filled p' \<and>
     (ps_opened p \<noteq> None \<longrightarrow> ps_opened p' = ps_opened p \<and> ps_deadline p' = ps_deadline p) \<and>
     (ps_phase p = Closed \<longrightarrow> p' = p) \<and> (ps_phase p \<noteq> Waiting \<longrightarrow> ps_phase p' \<noteq> Waiting)"

lemma position_step_le: "position_step (Some p) y \<Longrightarrow> \<exists>p'. y = Some p' \<and> position_le p p'"
  by (elim position_step_Some) (auto simp: position_le_def grows_def)

lemma position_run_le:
  assumes "position_step\<^sup>*\<^sup>* (Some p) y"
  shows "\<exists>p'. y = Some p' \<and> position_le p p'"
  using assms
proof (induction rule: rtranclp_induct)
  case base
  then show ?case by (auto simp: position_le_def)
next
  case (step y z)
  then obtain p1 where p1: "y = Some p1" "position_le p p1" by blast
  with step.hyps(2) obtain p2 where "z = Some p2" "position_le p1 p2" using position_step_le by blast
  with p1(2) show ?case unfolding position_le_def by fastforce
qed

definition phase_of :: "trade_state \<Rightarrow> phase" where
  "phase_of s = (case s of
       RECEIVED \<Rightarrow> Waiting | ENTRY_PENDING \<Rightarrow> Waiting | PROTECTING \<Rightarrow> Exposed | ACTIVE \<Rightarrow> Exposed
     | EXITING_STOP \<Rightarrow> Closing | EXITING_TARGET \<Rightarrow> Closing | EXITING_TIMEOUT \<Rightarrow> Closing
     | EXITING_EMERGENCY \<Rightarrow> Closing | FLAT \<Rightarrow> Closed | CANCELLED \<Rightarrow> Closed | FAILED_BLOCKED \<Rightarrow> Blocked)"

definition position_of :: "'a trade_record_scheme \<Rightarrow> position" where
  "position_of r = \<lparr>ps_phase = phase_of (tr_state r), ps_filled = float_units (tr_filled_quantity r),
     ps_size = float_units (nt_quantity (tr_terms r)), ps_opened = tr_first_fill_at r, ps_deadline = tr_timeout_at r\<rparr>"

definition trade_position :: "string \<Rightarrow> 'a trade_db_scheme \<Rightarrow> position option" where
  "trade_position k db = map_option position_of (trade_at k db)"

subsection \<open>The invariant\<close>

definition trade_row_ok :: "trade_row \<Rightarrow> bool" where
  "trade_row_ok r \<longleftrightarrow> trade_check r \<and> (0 < float_units (tr_filled_quantity r)) = (tr_first_fill_at r \<noteq> None) \<and>
     tr_timeout_at r = map_option (\<lambda>t. t + nt_max_holding_ms (tr_terms r) * 1000) (tr_first_fill_at r) \<and>
     (tr_state r \<in> set exposure_states \<longrightarrow> 0 < float_units (tr_filled_quantity r)) \<and>
     (tr_state r \<in> {RECEIVED, CANCELLED} \<longrightarrow> float_units (tr_filled_quantity r) = 0)"

text \<open>The journal of a trade is a walk through the transition table from its creation to its state.\<close>

fun trade_path :: "trade_state option \<Rightarrow> trade_event list \<Rightarrow> trade_state \<Rightarrow> bool" where
  "trade_path from [] s = (from = Some s)"
| "trade_path from (e # es) s = (te_from_state e = from \<and>
     (case from of None \<Rightarrow> te_to_state e = RECEIVED | Some a \<Rightarrow> te_to_state e \<in> set (allowed_transitions a)) \<and>
     trade_path (Some (te_to_state e)) es s)"

definition trade_journal_ok :: "'a trade_db_scheme \<Rightarrow> trade_row \<Rightarrow> bool" where
  "trade_journal_ok db r \<longleftrightarrow> trade_path None (trade_events (tw_trade_id r) db) (tr_state r) \<and>
     int (length (trade_events (tw_trade_id r) db)) = tr_state_version r + 1"

definition trade_inv :: "'a trade_db_scheme \<Rightarrow> bool" where
  "trade_inv db \<longleftrightarrow> trades_unique (td_trades db) \<and> (\<forall>r\<in>set (td_trades db). trade_row_ok r \<and> trade_journal_ok db r) \<and>
     (\<forall>e\<in>set (td_events db). te_trade_id e \<in> tw_trade_id ` set (td_trades db))"

lemma trade_path_snoc:
  "trade_path from (es @ [e]) s \<longleftrightarrow> (\<exists>a. trade_path from es a \<and> te_from_state e = Some a \<and>
     te_to_state e \<in> set (allowed_transitions a) \<and> s = te_to_state e) \<or>
   (from = None \<and> es = [] \<and> te_from_state e = None \<and> te_to_state e = RECEIVED \<and> s = RECEIVED)"
proof (induction es arbitrary: "from")
  case Nil
  then show ?case by (cases "from") auto
next
  case (Cons x es)
  then show ?case by auto
qed

lemma trade_events_insert:
  "td_events db' = insert_row e (td_events db) \<Longrightarrow>
   trade_events k db' = trade_events k db @ (if te_trade_id e = k then [e] else [])"
  by (simp add: trade_events_def insert_row_def)

lemma trade_check_finite:
  "trade_check r \<Longrightarrow> is_finite (nt_quantity (tr_terms r)) \<and> is_finite (tr_filled_quantity r)"
  by (simp add: trade_check_def terms_check_def positive_float_def)

lemma create_trade_inv:
  assumes inv: "trade_inv db" and ok: "create_locked sha t now db = Inr (record, db')"
  shows "trade_inv db'"
  using ok
proof (cases rule: create_locked_outcome)
  case (found row)
  with inv show ?thesis by simp
next
  case (fresh row doc e)
  have ev: "trade_events k db' = trade_events k db @ (if te_trade_id e = k then [e] else [])" for k
    using fresh(17) by (intro trade_events_insert) simp
  have new: "nt_trade_id t \<notin> tw_trade_id ` set (td_trades db)"
    using fresh(1) by (auto simp: trade_at_def select_one_None_iff)
  then have none: "trade_events (nt_trade_id t) db = []"
    using inv unfolding trade_inv_def trade_events_def filter_empty_conv by metis
  have "trade_row_ok row" using fresh(6) by (simp add: trade_row_ok_def fresh(2) exposure_states_def)
  moreover have "trade_journal_ok db' row"
    using fresh(8-10) by (simp add: trade_journal_ok_def ev none fresh(2))
  moreover have "trade_journal_ok db' r" if "r \<in> set (td_trades db)" for r
  proof -
    have "tw_trade_id r \<noteq> nt_trade_id t" using new that by (metis imageI)
    with that inv fresh(8) show ?thesis by (simp add: trade_inv_def trade_journal_ok_def ev)
  qed
  ultimately show ?thesis
    using inv fresh(2,7,8,17) by (auto simp: trade_inv_def)
qed

lemma transition_trade_inv:
  assumes inv: "trade_inv db" and row: "row \<in> set (td_trades db)"
    and ok: "transition_locked sha (trade_record.truncate row) q now db = Inr (record, db')"
  shows "trade_inv db'"
proof -
  have u: "trades_unique (td_trades db)" and r: "trade_row_ok row" "trade_journal_ok db row"
    using inv row by (simp_all add: trade_inv_def)
  from ok u row show ?thesis
  proof (rule transition_locked_outcome)
    fix filled fill timeout ids and e :: trade_event
    let ?m = "moved_trade (tt_target q) filled fill timeout ids (te_sha256 e) now"
    assume n: "next_exposure (trade_record.truncate row) q = Inr (filled, fill, timeout, ids)"
      and e: "te_trade_id e = tw_trade_id row" "te_from_state e = Some (tr_state row)" "te_to_state e = tt_target q"
      and chk: "trade_check (?m row)" and uni: "trades_unique (td_trades db')"
      and db': "db' = db\<lparr>td_trades := update_where (\<lambda>r. tw_trade_id r = tw_trade_id row) ?m (td_trades db),
           td_events := insert_row e (td_events db)\<rparr>"
    have fin: "is_finite (nt_quantity (tr_terms row))" "is_finite (tr_filled_quantity row)"
      using r(1) trade_check_finite by (auto simp: trade_row_ok_def)
    note f = next_exposure_facts [OF n, unfolded truncate_trade, OF fin]
    have "tt_target q \<noteq> RECEIVED" using f(1) by (auto simp: allowed_transitions_def split: trade_state.splits)
    then have ok: "trade_row_ok (?m row)" using chk f(6,8-10) by (simp add: trade_row_ok_def)
    have ev: "trade_events k db' = trade_events k db @ (if te_trade_id e = k then [e] else [])" for k
      using db' by (intro trade_events_insert) simp
    have j: "trade_journal_ok db' (?m row)"
      using r(2) e f(1) by (auto simp: trade_journal_ok_def ev trade_path_snoc)
    have "trade_row_ok p \<and> trade_journal_ok db' p" if "p \<in> set (td_trades db')" for p
    proof -
      from that db' obtain o' where o': "o' \<in> set (td_trades db)" "p = (if tw_trade_id o' = tw_trade_id row then ?m o' else o')"
        by (auto simp: set_update_where)
      show ?thesis
      proof (cases "tw_trade_id o' = tw_trade_id row")
        case True
        with trade_row_eq [OF u o'(1) row] o'(2) ok j show ?thesis by simp
      next
        case False
        with o' inv e(1) show ?thesis by (auto simp: trade_inv_def trade_journal_ok_def ev)
      qed
    qed
    moreover have "tw_trade_id ` set (td_trades db') = tw_trade_id ` set (td_trades db)"
      using db' by (simp add: keys_update_where)
    ultimately show ?thesis
      using inv uni e(1) db' imageI [OF row, of tw_trade_id] by (auto simp: trade_inv_def)
  qed
qed

subsection \<open>Simulation\<close>

lemma trade_at_insert:
  assumes "td_trades db' = insert_row row (td_trades db)"
  shows "trade_at k db' = (case trade_at k db of None \<Rightarrow> if tw_trade_id row = k then Some row else None | Some r \<Rightarrow> Some r)"
  by (simp add: trade_at_def assms select_one_insert)

lemma trade_at_update:
  assumes "td_trades db' = update_where (\<lambda>r. tw_trade_id r = i) f (td_trades db)" and "\<And>r. tw_trade_id (f r) = tw_trade_id r"
  shows "trade_at k db' = map_option (\<lambda>r. if tw_trade_id r = i then f r else r) (trade_at k db)"
  unfolding trade_at_def assms(1) by (rule select_one_update) (simp add: assms(2))

lemma create_position:
  assumes "create_locked sha t now db = Inr (record, db')"
  shows "position_step\<^sup>*\<^sup>* (trade_position k db) (trade_position k db')"
  using assms
proof (cases rule: create_locked_outcome)
  case (found row)
  then show ?thesis by simp
next
  case (fresh row doc e)
  have at: "trade_at k db' = (case trade_at k db of None \<Rightarrow> if tw_trade_id row = k then Some row else None | Some r \<Rightarrow> Some r)"
    by (rule trade_at_insert) (simp add: fresh(17))
  show ?thesis
  proof (cases "tw_trade_id row = k")
    case True
    then have "trade_position k db = None" and "trade_position k db' = Some (position_of row)"
      using fresh(1,2) by (simp_all add: trade_position_def at)
    moreover have "0 < float_units (nt_quantity t)"
      using fresh(6) float_less_finite [of float_zero "nt_quantity t"]
      by (simp add: trade_check_def terms_check_def positive_float_def fresh(2))
    then have "position_step None (Some (position_of row))"
      using position_step.accept [of "float_units (nt_quantity t)"]
      by (simp add: position_of_def fresh(2) phase_of_def)
    ultimately show ?thesis by auto
  next
    case False
    then have "trade_position k db' = trade_position k db" by (simp add: trade_position_def at split: option.split)
    then show ?thesis by simp
  qed
qed

lemma allowed_phases:
  assumes "t \<in> set (allowed_transitions s)"
  shows "phase_of s = Waiting \<and> (phase_of t \<in> {Waiting, Blocked} \<or> phase_of t = Exposed \<and> t \<in> set exposure_states
         \<or> phase_of t = Closed \<and> t = CANCELLED) \<or>
    phase_of s = Exposed \<and> (phase_of t \<in> {Exposed, Closing} \<and> t \<in> set exposure_states \<or> phase_of t = Blocked) \<or>
    phase_of s = Closing \<and> phase_of t \<in> {Closed, Blocked} \<or>
    phase_of s = Blocked \<and> (phase_of t = Closing \<and> t \<in> set exposure_states \<or> phase_of t = Closed)"
  using assms
  by (cases s) (auto simp: allowed_transitions_def phase_of_def exposure_states_def)

lemma position_moves:
  assumes "tt_target q \<in> set (allowed_transitions (tr_state row))" and "grows (position_of row) p'"
    and "ps_phase p' = phase_of (tt_target q)" and "tt_target q \<in> set exposure_states \<longrightarrow> 0 < ps_filled p'"
    and "tt_target q = CANCELLED \<longrightarrow> ps_filled p' = 0"
  shows "position_step (Some (position_of row)) (Some p')"
proof -
  have ph: "ps_phase (position_of row) = phase_of (tr_state row)" by (simp add: position_of_def)
  note i = position_step.wait [OF _ _ assms(2)] position_step.expose [OF _ _ _ assms(2)]
    position_step.abandon [OF _ _ _ assms(2)] position_step.close [OF _ _ _ assms(2)]
    position_step.block [OF _ _ assms(2)] position_step.finish [OF _ _ assms(2)]
  show ?thesis
    using allowed_phases [OF assms(1)] assms(3-5) i unfolding ph assms(3) by blast
qed

lemma transition_position:
  assumes inv: "trade_inv db" and row: "row \<in> set (td_trades db)"
    and ok: "transition_locked sha (trade_record.truncate row) q now db = Inr (record, db')"
  shows "position_step\<^sup>*\<^sup>* (trade_position k db) (trade_position k db')"
proof -
  have u: "trades_unique (td_trades db)" and r: "trade_row_ok row"
    using inv row by (simp_all add: trade_inv_def)
  from ok u row show ?thesis
  proof (rule transition_locked_outcome)
    fix filled fill timeout ids and e :: trade_event
    let ?m = "moved_trade (tt_target q) filled fill timeout ids (te_sha256 e) now"
    assume n: "next_exposure (trade_record.truncate row) q = Inr (filled, fill, timeout, ids)"
      and db': "db' = db\<lparr>td_trades := update_where (\<lambda>r. tw_trade_id r = tw_trade_id row) ?m (td_trades db),
           td_events := insert_row e (td_events db)\<rparr>"
    have fin: "is_finite (nt_quantity (tr_terms row))" "is_finite (tr_filled_quantity row)"
      using r trade_check_finite by (auto simp: trade_row_ok_def)
    note f = next_exposure_facts [OF n, unfolded truncate_trade, OF fin]
    have at: "trade_at k db' = map_option (\<lambda>r. if tw_trade_id r = tw_trade_id row then ?m r else r) (trade_at k db)"
      by (rule trade_at_update) (simp_all add: db')
    show ?thesis
    proof (cases "k = tw_trade_id row")
      case True
      then have p: "trade_position k db = Some (position_of row)" "trade_position k db' = Some (position_of (?m row))"
        using trade_at_unique [OF u row] at by (simp_all add: trade_position_def)
      have "grows (position_of row) (position_of (?m row))"
        using f(3-7,10) r by (auto simp: grows_def position_of_def trade_row_ok_def)
      then have "position_step (Some (position_of row)) (Some (position_of (?m row)))"
        by (rule position_moves [OF f(1)]) (use f(8,9) in \<open>simp_all add: position_of_def\<close>)
      with p show ?thesis by simp
    next
      case False
      then have "trade_position k db' = trade_position k db"
        unfolding trade_position_def at by (cases "trade_at k db") (auto dest: trade_at_Some)
      then show ?thesis by simp
    qed
  qed
qed

subsection \<open>What is immutable\<close>

text \<open>Identifiers once recorded, and the terms of the trade, never change.\<close>

definition id_fields :: "(order_ids \<Rightarrow> string option) list" where
  "id_fields = [oi_entry_exchange_order_id, oi_stop_client_order_id, oi_stop_exchange_order_id,
     oi_target_client_order_id, oi_target_exchange_order_id, oi_close_client_order_id, oi_close_exchange_order_id]"

definition trade_le :: "trade_row \<Rightarrow> trade_row \<Rightarrow> bool" where
  "trade_le r q \<longleftrightarrow> tr_terms q = tr_terms r \<and> tw_risk_decision_sha256 q = tw_risk_decision_sha256 r \<and>
     tr_state_version r \<le> tr_state_version q \<and> tw_next_execution_event_seq r \<le> tw_next_execution_event_seq q \<and>
     (\<forall>f\<in>set id_fields. f (tr_ids r) \<noteq> None \<longrightarrow> f (tr_ids q) = f (tr_ids r))"

definition trades_le :: "'a trade_db_scheme \<Rightarrow> 'b trade_db_scheme \<Rightarrow> bool" where
  "trades_le db u \<longleftrightarrow> table_le trade_le (td_trades db) (td_trades u) \<and> (\<exists>more. td_events u = td_events db @ more)"

lemma trade_le_refl: "trade_le r r"
  by (simp add: trade_le_def)

lemma trade_le_trans: "trade_le a b \<Longrightarrow> trade_le b c \<Longrightarrow> trade_le a c"
  unfolding trade_le_def by fastforce

lemma trades_le_refl: "trades_le db db"
  by (simp add: trades_le_def table_le_refl trade_le_refl)

lemma trades_le_trans: "trades_le a b \<Longrightarrow> trades_le b c \<Longrightarrow> trades_le a c"
  using table_le_trans [of trade_le "td_trades a" "td_trades b" "td_trades c"] trade_le_trans
  unfolding trades_le_def by (metis append.assoc)

lemma merge_identifier_keeps:
  "merge_identifier n c s = Inr x \<Longrightarrow> c \<noteq> None \<Longrightarrow> coalesce x c = c"
  by (auto simp: merge_identifier_def coalesce_def blank_iff split: if_splits option.splits)

lemma merge_ids_keeps:
  assumes "merge_ids c s = Inr x"
  shows "\<forall>f\<in>set id_fields. f c \<noteq> None \<longrightarrow> f (coalesce_ids x c) = f c"
  using assms
  by (auto simp: merge_ids_def rbind_eq_Inr id_fields_def coalesce_ids_def merge_identifier_keeps)

lemma create_trades_le: "create_locked sha t now db = Inr (record, db') \<Longrightarrow> trades_le db db'"
  by (erule create_locked_outcome)
    (simp_all add: trades_le_refl trades_le_def table_le_insert trade_le_refl insert_row_def [of _ "td_events db"])

lemma transition_trades_le:
  assumes inv: "trade_inv db" and row: "row \<in> set (td_trades db)"
    and ok: "transition_locked sha (trade_record.truncate row) q now db = Inr (record, db')"
  shows "trades_le db db'"
proof -
  have u: "trades_unique (td_trades db)" and r: "trade_row_ok row"
    using inv row by (simp_all add: trade_inv_def)
  from ok u row show ?thesis
  proof (rule transition_locked_outcome)
    fix filled fill timeout ids and e :: trade_event
    let ?m = "moved_trade (tt_target q) filled fill timeout ids (te_sha256 e) now"
    assume n: "next_exposure (trade_record.truncate row) q = Inr (filled, fill, timeout, ids)"
      and db': "db' = db\<lparr>td_trades := update_where (\<lambda>r. tw_trade_id r = tw_trade_id row) ?m (td_trades db),
           td_events := insert_row e (td_events db)\<rparr>"
    have fin: "is_finite (nt_quantity (tr_terms row))" "is_finite (tr_filled_quantity row)"
      using r trade_check_finite by (auto simp: trade_row_ok_def)
    note f = next_exposure_facts [OF n, unfolded truncate_trade, OF fin]
    have "trade_le p (?m p)" if "p \<in> set (td_trades db)" "tw_trade_id p = tw_trade_id row" for p
    proof -
      have "p = row" using trade_row_eq [OF u that(1) row that(2)] .
      with merge_ids_keeps [OF f(11)] show ?thesis by (simp add: trade_le_def)
    qed
    then have "table_le trade_le (td_trades db) (td_trades db')"
      by (simp add: db' table_le_update trade_le_refl)
    then show ?thesis by (simp add: trades_le_def db' insert_row_def)
  qed
qed

subsection \<open>Updates that leave the lifecycle alone\<close>

definition bookkeeping :: "(trade_row \<Rightarrow> trade_row) \<Rightarrow> bool" where
  "bookkeeping f \<longleftrightarrow> (\<forall>r. tr_terms (f r) = tr_terms r \<and> tr_state (f r) = tr_state r \<and> tr_ids (f r) = tr_ids r \<and>
     tr_filled_quantity (f r) = tr_filled_quantity r \<and> tr_first_fill_at (f r) = tr_first_fill_at r \<and>
     tr_timeout_at (f r) = tr_timeout_at r \<and> tr_state_version (f r) = tr_state_version r \<and>
     tr_journal_head_sha256 (f r) = tr_journal_head_sha256 r \<and>
     tw_risk_decision_sha256 (f r) = tw_risk_decision_sha256 r \<and>
     tw_next_execution_event_seq r \<le> tw_next_execution_event_seq (f r))"

lemma filter_update_where:
  "(\<And>r. Q r \<Longrightarrow> P (f r) = P r) \<Longrightarrow> filter P (update_where Q f t) = update_where Q f (filter P t)"
  by (induction t) (auto simp: update_where_def)

lemma bookkeeping_unique:
  assumes "bookkeeping f"
  shows "trades_unique (update_where Q f t) = trades_unique t"
proof -
  have b: "tw_trade_id (f r) = tw_trade_id r" "open_trade (f r) = open_trade r" "symbol_slot (f r) = symbol_slot r"
    "account_slot (f r) = account_slot r" "tr_ids (f r) = tr_ids r" "tr_terms (f r) = tr_terms r" for r
    using assms by (simp_all add: bookkeeping_def tw_trade_id_def open_trade_def symbol_slot_def account_slot_def)
  show ?thesis
    unfolding trades_unique_def unique_client_order_def
    by (simp add: b filter_update_where unique_by_update)
qed

lemma bookkeeping_keeps:
  assumes f: "bookkeeping f" and db': "td_trades db' = update_where (\<lambda>r. tw_trade_id r = k) f (td_trades db)"
      "td_events db' = td_events db" and inv: "trade_inv db"
  shows "trade_inv db'" and "trade_position i db' = trade_position i db" and "trades_le db db'"
proof -
  have id: "tw_trade_id (f r) = tw_trade_id r" for r using f by (simp add: bookkeeping_def tw_trade_id_def)
  have ev: "trade_events k db' = trade_events k db" for k by (simp add: trade_events_def db'(2))
  have chk: "trade_check r \<Longrightarrow> trade_check (f r)" for r
    using f unfolding bookkeeping_def trade_check_def by (metis order_less_le_trans)
  have "trade_row_ok r \<Longrightarrow> trade_row_ok (f r)" for r
    using f chk [of r] unfolding bookkeeping_def trade_row_ok_def by metis
  moreover have "trade_journal_ok db r \<Longrightarrow> trade_journal_ok db' (f r)" "trade_journal_ok db r \<Longrightarrow> trade_journal_ok db' r" for r
    using f by (simp_all add: trade_journal_ok_def ev id) (simp add: bookkeeping_def)
  moreover have "tw_trade_id ` set (td_trades db') = tw_trade_id ` set (td_trades db)"
    unfolding db'(1) by (simp add: keys_update_where id)
  ultimately show "trade_inv db'"
    using inv bookkeeping_unique [OF f] unfolding trade_inv_def db' by (auto simp: set_update_where)
  have "trade_at i db' = map_option (\<lambda>r. if tw_trade_id r = k then f r else r) (trade_at i db)"
    using db'(1) id by (rule trade_at_update)
  then show "trade_position i db' = trade_position i db"
    using f by (cases "trade_at i db") (simp_all add: trade_position_def position_of_def bookkeeping_def)
  have "trade_le r (f r)" for r using f by (simp add: trade_le_def bookkeeping_def)
  then show "trades_le db db'" by (simp add: trades_le_def db' table_le_update trade_le_refl)
qed

subsection \<open>The chain of one trade\<close>

definition trade_chain_ok :: "(string \<Rightarrow> string) \<Rightarrow> 'a trade_db_scheme \<Rightarrow> bool" where
  "trade_chain_ok sha db \<longleftrightarrow> (\<forall>r\<in>set (td_trades db). trade_readable sha r \<and>
     verify_trade_events sha (tw_trade_id r) None (trade_events (tw_trade_id r) db)
       = Inr (Some (Some (tr_journal_head_sha256 r))))"

definition transition_document_ok :: "transition_request \<Rightarrow> bool" where
  "transition_document_ok q \<longleftrightarrow> (case tt_event_payload q of None \<Rightarrow> True | Some p \<Rightarrow> document_ok p)"

lemma transition_payload_ok:
  assumes "transition_document_ok q"
  shows "document_ok (transition_payload (event_payload_of q) filled fill ids)"
proof -
  have "document_ok (event_payload_of q)"
    using assms
    by (auto simp: transition_document_ok_def event_payload_of_def document_ok_def is_object_def numbers_kept_def
        split: option.splits)
  then show ?thesis
    by (auto simp: document_ok_def transition_payload_def is_object_def intro!: numbers_kept_object)
qed

lemma created_payload_ok:
  assumes "document_ok (nt_risk_decision_payload t)"
  shows "document_ok (JObj [(''trade'', new_trade_payload t)])"
proof -
  have i: "numbers_kept (instant_text x)" "json_wf (instant_text x)" for x
    by (cases x; simp add: instant_text_def)+
  have "numbers_kept (new_trade_payload t)"
    unfolding new_trade_payload_def
    by (rule numbers_kept_object) (use assms i in \<open>auto simp: document_ok_def\<close>)
  moreover have "json_wf (new_trade_payload t)"
    using assms i by (simp add: new_trade_payload_def document_ok_def)
  ultimately show ?thesis
    by (auto simp: document_ok_def is_object_def intro!: numbers_kept_object)
qed

lemma create_chain_ok:
  assumes ok: "trade_chain_ok sha db" and inv: "trade_inv db" and "document_ok (nt_risk_decision_payload t)"
    and "create_locked sha t now db = Inr (record, db')"
  shows "trade_chain_ok sha db'"
  using assms(4)
proof (cases rule: create_locked_outcome)
  case (found row)
  with ok show ?thesis by simp
next
  case (fresh row doc e)
  have ev: "trade_events k db' = trade_events k db @ (if te_trade_id e = k then [e] else [])" for k
    using fresh(17) by (intro trade_events_insert) simp
  have new: "nt_trade_id t \<notin> tw_trade_id ` set (td_trades db)"
    using fresh(1) by (auto simp: trade_at_def select_one_None_iff)
  then have none: "trade_events (nt_trade_id t) db = []"
    using inv unfolding trade_inv_def trade_events_def filter_empty_conv by metis
  have p: "te_payload e = sorted_json (JObj [(''trade'', new_trade_payload t)])"
    using store_document [OF created_payload_ok [OF assms(3)] fresh(13)] by simp
  have "verify_trade_events sha (nt_trade_id t) None ([] @ [e]) = Inr (Some (Some (te_sha256 e)))"
    unfolding verify_trade_events_snoc p
    using fresh(9-12,14,15) by (simp add: trade_event_document_sorted is_object_def del: sorted_json.simps)
      (simp add: is_object_def)
  then have row: "verify_trade_events sha (tw_trade_id row) None (trade_events (tw_trade_id row) db')
      = Inr (Some (Some (tr_journal_head_sha256 row)))"
    using fresh(8) by (simp add: ev none fresh(2))
  have "trade_events (tw_trade_id r) db' = trade_events (tw_trade_id r) db" if "r \<in> set (td_trades db)" for r
    using new that fresh(8) by (auto simp: ev)
  moreover have "set (td_trades db') = insert row (set (td_trades db))" by (simp add: fresh(17))
  ultimately show ?thesis using row ok fresh(4) by (auto simp: trade_chain_ok_def)
qed

lemma transition_chain_ok:
  assumes ok: "trade_chain_ok sha db" and inv: "trade_inv db" and row: "row \<in> set (td_trades db)"
    and doc: "transition_document_ok q"
    and tx: "transition_locked sha (trade_record.truncate row) q now db = Inr (record, db')"
  shows "trade_chain_ok sha db'"
proof -
  have u: "trades_unique (td_trades db)" using inv by (simp add: trade_inv_def)
  from tx u row show ?thesis
  proof (rule transition_locked_outcome)
    fix filled fill timeout ids and e :: trade_event
    let ?m = "moved_trade (tt_target q) filled fill timeout ids (te_sha256 e) now"
    let ?p = "transition_payload (event_payload_of q) filled fill ids"
    assume e: "te_trade_id e = tw_trade_id row" "te_from_state e = Some (tr_state row)" "te_to_state e = tt_target q"
        "te_event_type e = tt_event_type q" "te_previous e = Some (tr_journal_head_sha256 row)"
      and st: "store_json ?p = Inr (te_payload e)" "json_finite ?p"
      and h: "te_sha256 e = sha (canonical_json (trade_event_document (tw_trade_id row) (Some (tr_state row)) (tt_target q)
           (tt_event_type q) ?p (te_previous e)))"
      and rd: "trade_readable sha (?m row)"
      and db': "db' = db\<lparr>td_trades := update_where (\<lambda>r. tw_trade_id r = tw_trade_id row) ?m (td_trades db),
           td_events := insert_row e (td_events db)\<rparr>"
    have ev: "trade_events k db' = trade_events k db @ (if te_trade_id e = k then [e] else [])" for k
      using db' by (intro trade_events_insert) simp
    have pl: "te_payload e = sorted_json ?p" "is_object ?p"
      using store_document [OF transition_payload_ok [OF doc] st(1)] by (simp_all add: transition_payload_def is_object_def)
    have "verify_trade_events sha (tw_trade_id row) None (trade_events (tw_trade_id row) db @ [e])
        = Inr (Some (Some (te_sha256 e)))"
      unfolding verify_trade_events_snoc pl(1)
      using ok row e h st(2) pl(2) by (simp add: trade_event_document_sorted trade_chain_ok_def)
    then have new: "trade_readable sha (?m row) \<and> verify_trade_events sha (tw_trade_id (?m row)) None
        (trade_events (tw_trade_id (?m row)) db') = Inr (Some (Some (tr_journal_head_sha256 (?m row))))"
      using rd e(1) by (simp add: ev)
    show ?thesis unfolding trade_chain_ok_def
    proof
      fix p assume "p \<in> set (td_trades db')"
      with db' obtain o' where o': "o' \<in> set (td_trades db)" "p = (if tw_trade_id o' = tw_trade_id row then ?m o' else o')"
        by (auto simp: set_update_where)
      show "trade_readable sha p \<and> verify_trade_events sha (tw_trade_id p) None (trade_events (tw_trade_id p) db')
          = Inr (Some (Some (tr_journal_head_sha256 p)))"
      proof (cases "tw_trade_id o' = tw_trade_id row")
        case True
        with trade_row_eq [OF u o'(1) row] o'(2) new show ?thesis by simp
      next
        case False
        with o' ok e(1) show ?thesis by (auto simp: trade_chain_ok_def ev)
      qed
    qed
  qed
qed

lemma bookkeeping_chain:
  assumes f: "bookkeeping f" and db': "td_trades db' = update_where (\<lambda>r. tw_trade_id r = k) f (td_trades db)"
      "td_events db' = td_events db" and ok: "trade_chain_ok sha db"
  shows "trade_chain_ok sha db'"
proof -
  have id: "tw_trade_id (f r) = tw_trade_id r" for r using f by (simp add: bookkeeping_def tw_trade_id_def)
  have "trade_readable sha r \<Longrightarrow> trade_readable sha (f r)" for r
    using f by (simp add: trade_readable_def bookkeeping_def)
  moreover have "tr_journal_head_sha256 (f r) = tr_journal_head_sha256 r" for r using f by (simp add: bookkeeping_def)
  moreover have "trade_events k db' = trade_events k db" for k by (simp add: trade_events_def db'(2))
  ultimately show ?thesis using ok by (auto simp: trade_chain_ok_def db'(1) set_update_where id)
qed

definition trade_event_text :: "string \<Rightarrow> trade_event \<Rightarrow> string" where
  "trade_event_text k e = canonical_json (trade_event_document k (te_from_state e) (te_to_state e) (te_event_type e)
     (te_payload e) (te_previous e))"

definition same_trade_event :: "trade_event \<Rightarrow> trade_event \<Rightarrow> bool" where
  "same_trade_event e f \<longleftrightarrow> te_from_state e = te_from_state f \<and> te_to_state e = te_to_state f \<and>
     te_event_type e = te_event_type f \<and> sorted_json (te_payload e) = sorted_json (te_payload f) \<and>
     te_previous e = te_previous f"

lemma trade_state_value_inj: "trade_state_value a = trade_state_value b \<longleftrightarrow> a = b"
  by (cases a; cases b; simp)

lemma trade_event_text_binds:
  assumes "json_wf (te_payload e)" and "json_wf (te_payload f)" and "trade_event_text k e = trade_event_text k f"
  shows "same_trade_event e f"
proof -
  let ?d = "\<lambda>e. trade_event_document k (te_from_state e) (te_to_state e) (te_event_type e) (te_payload e) (te_previous e)"
  have "sorted_json (?d e) = sorted_json (?d f)"
    using assms by (simp add: trade_event_text_def canonical_json_inj)
  then have g: "json_get q (sorted_json (?d e)) = json_get q (sorted_json (?d f))" for q by simp
  have get: "json_get q (sorted_json (?d e)) = map_option sorted_json (json_get q (?d e))" for q e
    unfolding trade_event_document_def by (rule json_get_sorted) simp
  have inj: "map_option trade_state_value x = map_option trade_state_value y \<longleftrightarrow> x = y" for x y
    by (cases x; cases y; simp add: trade_state_value_inj)
  from g [of "''from_state''"] have "te_from_state e = te_from_state f"
    unfolding get by (simp add: trade_event_document_def json_get_def inj)
  moreover from g [of "''to_state''"] have "te_to_state e = te_to_state f"
    unfolding get by (simp add: trade_event_document_def json_get_def trade_state_value_inj)
  moreover from g [of "''event_type''"] have "te_event_type e = te_event_type f"
    unfolding get by (simp add: trade_event_document_def json_get_def)
  moreover from g [of "''payload''"] have "sorted_json (te_payload e) = sorted_json (te_payload f)"
    unfolding get by (simp add: trade_event_document_def json_get_def)
  moreover from g [of "''previous_event_sha256''"] have "te_previous e = te_previous f"
    unfolding get by (simp add: trade_event_document_def json_get_def)
  ultimately show ?thesis by (simp add: same_trade_event_def)
qed

interpretation trade_chain: hash_chain te_previous "trade_event_text k" sha "\<lambda>e. json_wf (te_payload e)" same_trade_event
  for k sha
  by unfold_locales (auto simp: same_trade_event_def dest: trade_event_text_binds)

lemma verify_trade_events_linked:
  "verify_trade_events sha k p es = Inr (Some q) \<Longrightarrow> linked te_previous (\<lambda>e. sha (trade_event_text k e)) p es q"
  by (induction es arbitrary: p)
    (auto simp: rbind_eq_Inr trade_object_Inr trade_event_sha_Inr trade_event_text_def split: if_splits)

lemma verify_trade_chain_True:
  "verify_trade_chain sha k db = Inr True \<longleftrightarrow> (\<exists>row. trade_at k db = Some row \<and> trade_readable sha row \<and>
     trade_events k db \<noteq> [] \<and>
     verify_trade_events sha k None (trade_events k db) = Inr (Some (Some (tr_journal_head_sha256 row))))"
  by (auto simp: verify_trade_chain_def get_trade_def rbind_eq_Inr trade_of_row_Inr split: option.splits)

end
