(* ===== verification/CanarySession.thy ===== *)
theory CanarySession
  imports CanaryEvidence TradeLifecycle Outbox
begin

text \<open>
  Bounded canary sessions, \<open>CanarySessionRepository\<close> of \<open>kairos_persistence/canary_session.py\<close> over the tables of
  migrations 014, 015 and 016: a verified receipt arms one session with a frozen plan, its slots are
  reserved one after the other, an entry is bound to its attempt and claimed for dispatch once.
  The arms of migration 009 and the tables of the other components (effects, trades, audit, outbox)
  are part of the state because the repository reads them.

  \<open>now\<close> is the reading of \<open>clock_timestamp()\<close> that decides; where a transaction reads the clock
  again, \<open>t1\<close> is the later reading. The advisory locks make each transaction one function.
\<close>

subsection \<open>Tables\<close>

datatype session_state = SESSION_ARMED | SESSION_RUNNING | SESSION_DRAINING | SESSION_INCOMPLETE | SESSION_ABORTED

datatype attempt_state = ATTEMPT_ARMED | ATTEMPT_CONSUMED | ATTEMPT_TERMINAL | ATTEMPT_BLOCKED

datatype arm_status = ARM_ARMED | ARM_CONSUMED | ARM_EXPIRED

record session_row =
  se_session_id :: string
  se_receipt_id :: string
  se_scope :: json
  se_scope_sha256 :: string
  se_remote_account_id :: string
  se_account_id :: string
  se_plan :: json
  se_plan_sha256 :: string
  se_operator_nonce :: string
  se_state :: session_state
  se_armed_at :: timestamp
  se_entry_deadline_at :: timestamp
  se_max_attempts :: int
  se_attempts_reserved :: int
  se_last_progress_at :: timestamp
  se_stop_reason :: "string option"

record attempt_row =
  at_attempt_id :: string
  at_session_id :: string
  at_ordinal :: int
  at_slot_id :: string
  at_arm_id :: string
  at_review_id :: string
  at_intent_id :: string
  at_symbol :: string
  at_state :: attempt_state
  at_reserved_at :: timestamp
  at_terminal_at :: "timestamp option"
  at_terminal_reason :: "string option"
  at_risk_decision_id :: "string option"
  at_trade_id :: "string option"
  at_entry_effect_id :: "string option"

record claim_row =
  cl_effect_id :: string
  cl_attempt_id :: string
  cl_session_id :: string
  cl_risk_decision_id :: string
  cl_trade_id :: string
  cl_scope_sha256 :: string
  cl_claimed_at :: timestamp

record arm_row =
  am_arm_id :: string
  am_review_id :: string
  am_intent_id :: string
  am_account_id :: string
  am_symbol :: string
  am_side :: string
  am_review_payload :: json
  am_review_sha256 :: string
  am_allocation_payload :: json
  am_allocation_sha256 :: string
  am_status :: arm_status
  am_expires_at :: timestamp
  am_created_at :: timestamp
  am_consumed_at :: "timestamp option"
  am_decided_at_ms :: "int option"

record canary_db = evidence_db +
  cb_sessions :: "session_row list"
  cb_attempts :: "attempt_row list"
  cb_claims :: "claim_row list"
  cb_arms :: "arm_row list"
  cb_trades :: "trade_row list"
  cb_audit :: "audit_row list"
  cb_outbox :: "outbox_row list"

record entry_binding =
  eb_session_id :: string
  eb_attempt_id :: string
  eb_effect_id :: string
  eb_risk_decision_id :: string
  eb_trade_id :: string
  eb_entry_deadline_at :: timestamp
  eb_dispatch_claimed :: bool

definition session_at :: "string \<Rightarrow> 'a canary_db_scheme \<Rightarrow> session_row option" where
  "session_at session_id db = select_one (\<lambda>s. se_session_id s = session_id) (cb_sessions db)"

definition receipt_at :: "string \<Rightarrow> 'a evidence_db_scheme \<Rightarrow> readonly_receipt option" where
  "receipt_at receipt_id db = select_one (\<lambda>r. rc_receipt_id r = receipt_id) (ed_receipts db)"

definition outstanding :: "attempt_row \<Rightarrow> bool" where
  "outstanding a \<longleftrightarrow> at_state a \<noteq> ATTEMPT_TERMINAL"

definition active_states :: "session_state list" where
  "active_states = [SESSION_ARMED, SESSION_RUNNING, SESSION_DRAINING]"

definition entry_states :: "session_state list" where
  "entry_states = [SESSION_ARMED, SESSION_RUNNING]"

text \<open>\<open>scope->>'project'\<close>\<close>

definition session_project :: "session_row \<Rightarrow> string option" where
  "session_project s = str_field ''project'' (se_scope s)"

text \<open>\<open>_session\<close>: a row is read only if its two documents have their fingerprints.\<close>

definition checked_document :: "(string \<Rightarrow> string) \<Rightarrow> json \<Rightarrow> string \<Rightarrow> unit res" where
  "checked_document sha document sha256 =
     rbind (evidence_object document) (\<lambda>data.
     rbind (digest sha data) (\<lambda>d.
       if d \<noteq> sha256 then Inl (MessageIdentityConflict ''stored canary session fingerprint mismatch'') else Inr ()))"

definition checked_session :: "(string \<Rightarrow> string) \<Rightarrow> session_row \<Rightarrow> session_row res" where
  "checked_session sha row =
     rbind (checked_document sha (se_scope row) (se_scope_sha256 row)) (\<lambda>_.
     rbind (checked_document sha (se_plan row) (se_plan_sha256 row)) (\<lambda>_. Inr row))"

subsection \<open>Arming a session\<close>

definition session_check :: "session_row \<Rightarrow> bool" where
  "session_check s \<longleftrightarrow> sha256_hex (se_session_id s) \<and> sha256_hex (se_scope_sha256 s) \<and> sha256_hex (se_plan_sha256 s) \<and>
     1 \<le> se_max_attempts s \<and> se_max_attempts s \<le> 10 \<and> 0 \<le> se_attempts_reserved s \<and>
     se_attempts_reserved s \<le> se_max_attempts s \<and>
     se_armed_at s < se_entry_deadline_at s \<and> se_entry_deadline_at s \<le> se_armed_at s + 7200000000"

definition active_session :: "session_row \<Rightarrow> bool" where
  "active_session s \<longleftrightarrow> se_state s \<in> set active_states"

definition sessions_unique :: "session_row list \<Rightarrow> bool" where
  "sessions_unique t \<longleftrightarrow> unique_by se_session_id t \<and> unique_by se_receipt_id t \<and>
     unique_by se_remote_account_id (filter active_session t) \<and>
     unique_by session_project (filter (\<lambda>s. active_session s \<and> session_project s \<noteq> None) t)"

definition insert_session :: "session_row \<Rightarrow> 'a canary_db_scheme \<Rightarrow> 'a canary_db_scheme res" where
  "insert_session row db =
     (if \<not> session_check row \<or> \<not> sessions_unique (insert_row row (cb_sessions db))
         \<or> se_receipt_id row \<notin> set (map rc_receipt_id (ed_receipts db))
      then Inl (IntegrityError ''paper_canary_sessions'')
      else Inr (db\<lparr>cb_sessions := insert_row row (cb_sessions db)\<rparr>))"

definition session_document :: "string \<Rightarrow> json \<Rightarrow> json \<Rightarrow> string \<Rightarrow> json" where
  "session_document receipt_id scope_data plan_data operator_nonce = JObj
     [(''domain'', JStr ''kairos.canary-session.v1''), (''receipt_id'', JStr receipt_id),
      (''scope'', scope_data), (''plan'', plan_data), (''operator_nonce'', JStr operator_nonce)]"

text \<open>The receipt's evidence is verified again, and its document compared.\<close>

definition reverified_receipt ::
  "canary_models \<Rightarrow> (string \<Rightarrow> string) \<Rightarrow> string \<Rightarrow> canary_scope \<Rightarrow> 'a canary_db_scheme \<Rightarrow> (json \<times> json \<times> timestamp) res" where
  "reverified_receipt models sha receipt_id scope db =
     (case receipt_at receipt_id db of
        None \<Rightarrow> Inl (CanaryAdmissionError ''a persisted verified read-only receipt is required'')
      | Some receipt \<Rightarrow>
          rbind (evidence_object (rc_payload receipt)) (\<lambda>proof.
          rbind (ended_at_of proof) (\<lambda>ended.
          case run_at (rc_run_id receipt) db of
            None \<Rightarrow> Inl (TypeError ''NoneType object is not subscriptable'')
          | Some run \<Rightarrow>
              rbind (verify_readonly_evidence models sha run (samples_of (rc_run_id receipt) db) ended) (\<lambda>verified.
              rbind (assert_readonly_mutations scope (rr_started_at run) ended db) (\<lambda>_.
                Inr (proof, verified, ended))))))"

definition open_dev_trade :: "trade_row \<Rightarrow> bool" where
  "open_dev_trade r \<longleftrightarrow> nt_trading_mode (tr_terms r) = ''PAPER'' \<and> nt_profile (tr_terms r) = ''DEV'' \<and>
     tr_state r \<notin> set [FLAT, CANCELLED]"

definition armed_session ::
  "string \<Rightarrow> string \<Rightarrow> canary_scope \<Rightarrow> bounded_plan \<Rightarrow> json \<Rightarrow> string \<Rightarrow> json \<Rightarrow> string \<Rightarrow> string \<Rightarrow> timestamp \<Rightarrow> session_row" where
  "armed_session session_id receipt_id scope plan scope_doc scope_sha256 plan_doc plan_sha256 nonce now =
     \<lparr>se_session_id = session_id, se_receipt_id = receipt_id, se_scope = scope_doc, se_scope_sha256 = scope_sha256,
      se_remote_account_id = cs_remote_account_id scope, se_account_id = cs_account_id scope, se_plan = plan_doc,
      se_plan_sha256 = plan_sha256, se_operator_nonce = nonce, se_state = SESSION_ARMED, se_armed_at = now,
      se_entry_deadline_at = now + bp_duration_ms plan * 1000, se_max_attempts = bp_max_attempts plan,
      se_attempts_reserved = 0, se_last_progress_at = now, se_stop_reason = None\<rparr>"

definition admit_session ::
  "(string \<Rightarrow> string) \<Rightarrow> string \<Rightarrow> string \<Rightarrow> canary_scope \<Rightarrow> bounded_plan \<Rightarrow> string \<Rightarrow> int \<Rightarrow> json \<times> json \<times> timestamp
     \<Rightarrow> timestamp \<Rightarrow> 'a canary_db_scheme \<Rightarrow> (session_row \<times> 'a canary_db_scheme) res" where
  "admit_session sha session_id receipt_id scope plan nonce max_age verification now db =
     (case verification of (proof, verified, ended) \<Rightarrow>
      rbind (digest sha verified) (\<lambda>verified_sha256.
      rbind (digest sha (scope_dump scope)) (\<lambda>scope_sha256.
      if verified_sha256 \<noteq> receipt_id \<or> \<not> json_eq proof verified
      then Inl (MessageIdentityConflict ''receipt does not match its persisted evidence'')
      else if json_get ''scope_sha256'' proof \<noteq> Some (JStr scope_sha256)
         \<or> json_get ''database_instance_id'' proof \<noteq> Some (JStr (ed_instance_id db))
         \<or> \<not> (0 \<le> millis now - millis ended \<and> millis now - millis ended \<le> max_age)
      then Inl (CanaryAdmissionError
             ''read-only receipt is stale or belongs to another deployment/account/config'')
      else if list_ex (\<lambda>s. session_project s = Some (cs_project scope) \<and> active_session s) (cb_sessions db)
      then Inl (CanaryAdmissionError ''another DEV session is active or still draining'')
      else if list_ex open_dev_trade (cb_trades db)
      then Inl (CanaryAdmissionError ''a nonterminal DEV trade globally blocks a new canary session'')
      else if list_ex (\<lambda>s. se_receipt_id s = receipt_id) (cb_sessions db)
      then Inl (CanaryAdmissionError ''read-only receipt already armed its one permitted session'')
      else rbind (store_json (scope_dump scope)) (\<lambda>scope_doc.
           rbind (store_json (plan_dump plan)) (\<lambda>plan_doc.
           rbind (digest sha (plan_dump plan)) (\<lambda>plan_sha256.
             let row = armed_session session_id receipt_id scope plan scope_doc scope_sha256 plan_doc plan_sha256 nonce now
             in rbind (insert_session row db) (\<lambda>db'.
                rbind (checked_session sha row) (\<lambda>s. Inr (s, db')))))))))"

definition arm_session ::
  "canary_models \<Rightarrow> (string \<Rightarrow> string) \<Rightarrow> string \<Rightarrow> canary_scope \<Rightarrow> bounded_plan \<Rightarrow> string \<Rightarrow> int \<Rightarrow> timestamp
     \<Rightarrow> 'a canary_db_scheme \<Rightarrow> (session_row \<times> 'a canary_db_scheme) res" where
  "arm_session models sha receipt_id scope0 plan0 nonce max_age now db =
     (if \<not> (0 < max_age \<and> max_age \<le> max_receipt_age_ms)
      then Inl (CanaryAdmissionError ''receipt freshness may only tighten the one-hour default'')
      else if nonce = [] \<or> nonce \<noteq> strip nonce \<or> 128 < length nonce
      then Inl (CanaryAdmissionError ''a normalized manual session nonce is required'')
      else rbind (validated (decode_scope models) (scope_dump scope0)) (\<lambda>scope.
           rbind (validated (decode_plan models) (plan_dump plan0)) (\<lambda>plan.
           rbind (digest sha (session_document receipt_id (scope_dump scope) (plan_dump plan) nonce)) (\<lambda>session_id.
             case session_at session_id db of
               Some existing \<Rightarrow> rbind (checked_session sha existing) (\<lambda>s. Inr (s, db))
             | None \<Rightarrow>
                 rbind (reverified_receipt models sha receipt_id scope db) (\<lambda>verification.
                   admit_session sha session_id receipt_id scope plan nonce max_age verification now db)))))"

subsection \<open>Settling attempts\<close>

definition terminal_attempt ::
  "timestamp \<Rightarrow> string \<Rightarrow> attempt_row \<Rightarrow> attempt_row" where
  "terminal_attempt t reason a =
     a\<lparr>at_state := ATTEMPT_TERMINAL, at_terminal_at := Some t, at_terminal_reason := Some reason\<rparr>"

definition settled_attempt ::
  "timestamp \<Rightarrow> string \<Rightarrow> string option \<Rightarrow> string option \<Rightarrow> attempt_row \<Rightarrow> attempt_row" where
  "settled_attempt t reason risk_decision_id trade_id a =
     (terminal_attempt t reason a)\<lparr>at_risk_decision_id := risk_decision_id, at_trade_id := trade_id\<rparr>"

definition expiring_arm :: "string \<Rightarrow> timestamp \<Rightarrow> arm_row \<Rightarrow> bool" where
  "expiring_arm arm_id t m \<longleftrightarrow> am_arm_id m = arm_id \<and> am_status m \<in> set [ARM_ARMED, ARM_EXPIRED] \<and> am_expires_at m < t"

definition expired_arm :: "arm_row \<Rightarrow> arm_row" where
  "expired_arm m = m\<lparr>am_status := ARM_EXPIRED\<rparr>"

definition progressed :: "timestamp \<Rightarrow> session_row \<Rightarrow> session_row" where
  "progressed t s = s\<lparr>se_last_progress_at := t\<rparr>"

definition risk_decision_topic :: string where
  "risk_decision_topic = ''kairos.risk.trade_decision.v1''"

definition review_of_payload :: "json \<Rightarrow> string option" where
  "review_of_payload p = (case json_get ''review'' p of None \<Rightarrow> None | Some r \<Rightarrow> str_field ''review_id'' r)"

definition recorded_decisions :: "string \<Rightarrow> 'a canary_db_scheme \<Rightarrow> audit_row list" where
  "recorded_decisions review_id db =
     filter (\<lambda>r. ev_topic r = risk_decision_topic \<and> review_of_payload (ev_payload r) = Some review_id) (cb_audit db)"

text \<open>\<open>{digest(payload(p)): payload(p) for p in decisions}\<close>\<close>

fun unique_payloads :: "(string \<Rightarrow> string) \<Rightarrow> audit_row list \<Rightarrow> (string \<times> json) list \<Rightarrow> (string \<times> json) list res" where
  "unique_payloads sha [] acc = Inr acc"
| "unique_payloads sha (r # rs) acc =
     rbind (evidence_object (ev_payload r)) (\<lambda>p.
     rbind (digest sha p) (\<lambda>d. unique_payloads sha rs (dict_put d p acc)))"

definition entry_environment :: "canary_scope \<Rightarrow> string" where
  "entry_environment scope = cs_environment scope @ '':EVEDEX:DEV:PAPER''"

definition decided_trade :: "canary_decision \<Rightarrow> canary_scope \<Rightarrow> 'a canary_db_scheme \<Rightarrow> trade_row option" where
  "decided_trade decision scope db = select_one (\<lambda>r. Some (nt_risk_decision_id (tr_terms r)) = cd_decision_id decision \<and>
     nt_environment (tr_terms r) = entry_environment scope \<and> nt_account_id (tr_terms r) = cs_account_id scope \<and>
     nt_exchange (tr_terms r) = ''evedex'') (cb_trades db)"

definition unresolved_effects :: "string \<Rightarrow> 'a canary_db_scheme \<Rightarrow> bool" where
  "unresolved_effects trade_id db = list_ex (\<lambda>e. ei_trade_id (ex_identity e) = Some trade_id \<and>
     ex_status e \<in> set [PREPARED, EFFECT_FAILED]) (ed_effects db)"

text \<open>The reason and the trade with which a decided attempt is closed, if it can be.\<close>

definition terminal_reason :: "canary_decision \<Rightarrow> canary_scope \<Rightarrow> 'a canary_db_scheme \<Rightarrow> (string \<times> string option) option" where
  "terminal_reason decision scope db =
     (if \<not> cd_approved decision then Some (''RISK_REJECTED'', None)
      else case decided_trade decision scope db of
          None \<Rightarrow> None
        | Some trade \<Rightarrow>
            if tr_state trade \<in> set [FLAT, CANCELLED] \<and> tr_last_reconciled_at trade \<noteq> None
               \<and> \<not> unresolved_effects (tw_trade_id trade) db
            then Some (trade_state_value (tr_state trade), Some (tw_trade_id trade)) else None)"

definition settle_decided ::
  "canary_models \<Rightarrow> string \<Rightarrow> canary_scope \<Rightarrow> timestamp \<Rightarrow> attempt_row \<Rightarrow> json \<Rightarrow> 'a canary_db_scheme
     \<Rightarrow> 'a canary_db_scheme res" where
  "settle_decided models session_id scope t row p db =
     rbind (validated (decode_decision models) p) (\<lambda>decision.
       if cd_account_id decision \<noteq> cs_account_id scope \<or> ci_intent_id (cd_intent decision) \<noteq> at_intent_id row
          \<or> cd_trading_mode decision \<noteq> ''PAPER'' \<or> cd_profile decision \<noteq> ''DEV''
       then Inl (MessageIdentityConflict ''canary Risk decision lineage mismatch'')
       else case terminal_reason decision scope db of
           None \<Rightarrow> Inr db
         | Some (reason, trade_id) \<Rightarrow>
             Inr (db\<lparr>cb_attempts := update_where (\<lambda>a. at_attempt_id a = at_attempt_id row)
                 (settled_attempt t reason (cd_decision_id decision) trade_id) (cb_attempts db),
               cb_sessions := update_where (\<lambda>s. se_session_id s = session_id) (progressed t) (cb_sessions db)\<rparr>))"

definition refresh_attempt ::
  "canary_models \<Rightarrow> (string \<Rightarrow> string) \<Rightarrow> string \<Rightarrow> canary_scope \<Rightarrow> timestamp \<Rightarrow> attempt_row
     \<Rightarrow> 'a canary_db_scheme \<Rightarrow> 'a canary_db_scheme res" where
  "refresh_attempt models sha session_id scope t row db =
     (if list_ex (expiring_arm (at_arm_id row) t) (cb_arms db)
      then Inr (db\<lparr>cb_arms := update_where (expiring_arm (at_arm_id row) t) expired_arm (cb_arms db),
             cb_attempts := update_where (\<lambda>a. at_attempt_id a = at_attempt_id row)
               (terminal_attempt t ''ENTRY_EXPIRED'') (cb_attempts db)\<rparr>)
      else rbind (unique_payloads sha (recorded_decisions (at_review_id row) db) []) (\<lambda>unique.
        case unique of [(d, p)] \<Rightarrow> settle_decided models session_id scope t row p db | _ \<Rightarrow> Inr db))"

fun refresh_rows ::
  "canary_models \<Rightarrow> (string \<Rightarrow> string) \<Rightarrow> string \<Rightarrow> canary_scope \<Rightarrow> timestamp \<Rightarrow> attempt_row list
     \<Rightarrow> 'a canary_db_scheme \<Rightarrow> 'a canary_db_scheme res" where
  "refresh_rows models sha session_id scope t [] db = Inr db"
| "refresh_rows models sha session_id scope t (row # rows) db =
     rbind (refresh_attempt models sha session_id scope t row db) (refresh_rows models sha session_id scope t rows)"

definition refresh_attempts ::
  "canary_models \<Rightarrow> (string \<Rightarrow> string) \<Rightarrow> string \<Rightarrow> canary_scope \<Rightarrow> timestamp \<Rightarrow> 'a canary_db_scheme
     \<Rightarrow> 'a canary_db_scheme res" where
  "refresh_attempts models sha session_id scope t db =
     refresh_rows models sha session_id scope t
       (filter (\<lambda>a. at_session_id a = session_id \<and> at_state a \<in> set [ATTEMPT_ARMED, ATTEMPT_CONSUMED]) (cb_attempts db)) db"

definition pending_attempt :: "string \<Rightarrow> 'a canary_db_scheme \<Rightarrow> bool" where
  "pending_attempt session_id db = list_ex (\<lambda>a. at_session_id a = session_id \<and> outstanding a) (cb_attempts db)"

subsection \<open>Status, refresh and stop\<close>

definition session_status ::
  "(string \<Rightarrow> string) \<Rightarrow> string \<Rightarrow> 'a canary_db_scheme \<Rightarrow> (session_row \<times> attempt_row list) res" where
  "session_status sha session_id db = (case session_at session_id db of
       None \<Rightarrow> Inl (CanaryAdmissionError ''canary session does not exist'')
     | Some row \<Rightarrow> rbind (checked_session sha row) (\<lambda>s.
         Inr (s, sort_key at_ordinal (filter (\<lambda>a. at_session_id a = session_id) (cb_attempts db)))))"

definition drained :: "string \<Rightarrow> timestamp \<Rightarrow> session_row \<Rightarrow> session_row" where
  "drained reason t s = s\<lparr>se_state := SESSION_DRAINING, se_stop_reason := Some reason, se_last_progress_at := t\<rparr>"

definition plan_slot_count :: "json \<Rightarrow> int option" where
  "plan_slot_count plan = (case json_get ''slots'' plan of Some (JArr xs) \<Rightarrow> Some (int (length xs)) | _ \<Rightarrow> None)"

definition closable :: "session_row \<Rightarrow> bool" where
  "closable s \<longleftrightarrow> se_state s = SESSION_DRAINING \<or> se_max_attempts s \<le> se_attempts_reserved s \<or>
     (case plan_slot_count (se_plan s) of None \<Rightarrow> False | Some n \<Rightarrow> n \<le> se_attempts_reserved s)"

definition closed :: "timestamp \<Rightarrow> session_row \<Rightarrow> session_row" where
  "closed t s = s\<lparr>se_state := (if se_stop_reason s = Some ''OPERATOR_STOP'' then SESSION_ABORTED else SESSION_INCOMPLETE),
     se_last_progress_at := t\<rparr>"

definition refresh_tx ::
  "canary_models \<Rightarrow> (string \<Rightarrow> string) \<Rightarrow> string \<Rightarrow> timestamp \<Rightarrow> timestamp \<Rightarrow> 'a canary_db_scheme
     \<Rightarrow> 'a canary_db_scheme res" where
  "refresh_tx models sha session_id now t1 db =
     (case session_at session_id db of
        None \<Rightarrow> Inl (CanaryAdmissionError ''canary session does not exist'')
      | Some row \<Rightarrow>
          rbind (checked_session sha row) (\<lambda>checked.
          rbind (validated (decode_scope models) (se_scope checked)) (\<lambda>scope.
          rbind (refresh_attempts models sha session_id scope now db) (\<lambda>db1.
            let db2 = (if se_state row \<in> set entry_states \<and> se_entry_deadline_at row \<le> t1
                  then db1\<lparr>cb_sessions := update_where (\<lambda>s. se_session_id s = session_id)
                         (drained ''SESSION_DEADLINE'' t1) (cb_sessions db1)\<rparr> else db1)
            in Inr (if pending_attempt session_id db2 then db2
                 else db2\<lparr>cb_sessions := update_where (\<lambda>s. se_session_id s = session_id \<and> closable s) (closed t1)
                        (cb_sessions db2)\<rparr>)))))"

text \<open>\<open>refresh\<close> reads the status after its transaction has committed.\<close>

definition refresh ::
  "canary_models \<Rightarrow> (string \<Rightarrow> string) \<Rightarrow> string \<Rightarrow> timestamp \<Rightarrow> timestamp \<Rightarrow> 'a canary_db_scheme
     \<Rightarrow> (session_row \<times> attempt_row list) res \<times> 'a canary_db_scheme" where
  "refresh models sha session_id now t1 db = (case refresh_tx models sha session_id now t1 db of
       Inl e \<Rightarrow> (Inl e, db) | Inr db' \<Rightarrow> (session_status sha session_id db', db'))"

definition stop_reasons :: "string list" where
  "stop_reasons = [''OPERATOR_STOP'', ''UNPROTECTED_EXPOSURE'', ''UNKNOWN_MUTATION'', ''RECONCILIATION_DRIFT'']"

definition stop_session ::
  "(string \<Rightarrow> string) \<Rightarrow> string \<Rightarrow> string \<Rightarrow> timestamp \<Rightarrow> 'a canary_db_scheme
     \<Rightarrow> (session_row \<times> 'a canary_db_scheme) res" where
  "stop_session sha session_id reason now db =
     (if reason \<notin> set stop_reasons then Inl (CanaryAdmissionError ''unsupported non-secret stop reason'')
      else case session_at session_id db of
          None \<Rightarrow> Inl (CanaryAdmissionError ''canary session does not exist'')
        | Some row \<Rightarrow>
            if se_state row \<in> set entry_states
            then rbind (checked_session sha (drained reason now row)) (\<lambda>s.
                   Inr (s, db\<lparr>cb_sessions := update_where (\<lambda>s. se_session_id s = session_id) (drained reason now)
                     (cb_sessions db)\<rparr>))
            else rbind (checked_session sha row) (\<lambda>s. Inr (s, db)))"

subsection \<open>Reserving an attempt\<close>

definition attempt_check :: "attempt_row \<Rightarrow> bool" where
  "attempt_check a \<longleftrightarrow> sha256_hex (at_attempt_id a) \<and> 1 \<le> at_ordinal a \<and> at_ordinal a \<le> 10 \<and>
     sha256_hex (at_review_id a) \<and> sha256_hex (at_intent_id a)"

definition attempts_unique :: "attempt_row list \<Rightarrow> bool" where
  "attempts_unique t \<longleftrightarrow> unique_by at_attempt_id t \<and> unique_by at_arm_id t \<and> unique_by at_review_id t \<and>
     unique_by (\<lambda>a. (at_session_id a, at_ordinal a)) t \<and> unique_by (\<lambda>a. (at_session_id a, at_slot_id a)) t \<and>
     unique_by at_session_id (filter outstanding t)"

definition insert_attempt :: "attempt_row \<Rightarrow> 'a canary_db_scheme \<Rightarrow> 'a canary_db_scheme res" where
  "insert_attempt row db =
     (if \<not> attempt_check row \<or> \<not> attempts_unique (insert_row row (cb_attempts db))
         \<or> at_session_id row \<notin> set (map se_session_id (cb_sessions db))
         \<or> at_arm_id row \<notin> set (map am_arm_id (cb_arms db))
      then Inl (IntegrityError ''paper_canary_attempts'')
      else Inr (db\<lparr>cb_attempts := insert_row row (cb_attempts db)\<rparr>))"

definition attempt_document :: "string \<Rightarrow> string \<Rightarrow> string \<Rightarrow> json" where
  "attempt_document session_id slot_id arm_id = JObj
     [(''domain'', JStr ''kairos.canary-attempt.v1''), (''session_id'', JStr session_id),
      (''slot_id'', JStr slot_id), (''arm_id'', JStr arm_id)]"

definition armed_attempt ::
  "string \<Rightarrow> string \<Rightarrow> int \<Rightarrow> canary_slot \<Rightarrow> string \<Rightarrow> canary_review \<Rightarrow> timestamp \<Rightarrow> attempt_row" where
  "armed_attempt attempt_id session_id ordinal slot arm_id review now =
     \<lparr>at_attempt_id = attempt_id, at_session_id = session_id, at_ordinal = ordinal, at_slot_id = sl_slot_id slot,
      at_arm_id = arm_id, at_review_id = rv_review_id review, at_intent_id = ci_intent_id (rv_intent review),
      at_symbol = sl_symbol slot, at_state = ATTEMPT_ARMED, at_reserved_at = now, at_terminal_at = None,
      at_terminal_reason = None, at_risk_decision_id = None, at_trade_id = None, at_entry_effect_id = None\<rparr>"

definition charged :: "int \<Rightarrow> timestamp \<Rightarrow> session_row \<Rightarrow> session_row" where
  "charged ordinal t s = s\<lparr>se_attempts_reserved := ordinal, se_state := SESSION_RUNNING, se_last_progress_at := t\<rparr>"

definition reserve_fresh ::
  "canary_models \<Rightarrow> (string \<Rightarrow> string) \<Rightarrow> session_row \<Rightarrow> canary_scope \<Rightarrow> bounded_plan \<Rightarrow> canary_slot \<Rightarrow> string \<Rightarrow> canary_review
     \<Rightarrow> timestamp \<Rightarrow> timestamp \<Rightarrow> 'a canary_db_scheme \<Rightarrow> (attempt_row \<times> 'a canary_db_scheme) res" where
  "reserve_fresh models sha session scope plan slot arm_id review now t1 db =
     (let session_id = se_session_id session; ordinal = se_attempts_reserved session + 1 in
      if se_state session \<notin> set entry_states \<or> se_entry_deadline_at session \<le> now
      then Inl (CanaryAdmissionError ''canary session stopped or expired; recovery remains permitted'')
      else if millis (se_entry_deadline_at session) < ci_entry_expires_ts_ms (rv_intent review)
      then Inl (CanaryAdmissionError ''candidate entry deadline exceeds the session deadline'')
      else rbind (refresh_attempts models sha session_id scope t1 db) (\<lambda>db1.
        if pending_attempt session_id db1
        then Inl (CanaryAdmissionError ''previous canary attempt is not authoritatively terminal'')
        else if se_max_attempts session < ordinal \<or> int (length (bp_slots plan)) < ordinal
        then Inl (CanaryAdmissionError ''canary session attempt cap exhausted'')
        else if sl_slot_id (bp_slots plan ! nat (ordinal - 1)) \<noteq> sl_slot_id slot
        then Inl (CanaryAdmissionError ''canary slots must run in their fixed order'')
        else rbind (digest sha (attempt_document session_id (sl_slot_id slot) arm_id)) (\<lambda>attempt_id.
          let row = armed_attempt attempt_id session_id ordinal slot arm_id review t1
          in rbind (insert_attempt row db1) (\<lambda>db2.
               Inr (row, db2\<lparr>cb_sessions := update_where (\<lambda>s. se_session_id s = session_id) (charged ordinal t1)
                 (cb_sessions db2)\<rparr>)))))"

definition reserve_attempt ::
  "canary_models \<Rightarrow> (string \<Rightarrow> string) \<Rightarrow> string \<Rightarrow> string \<Rightarrow> string \<Rightarrow> string \<Rightarrow> canary_review
     \<Rightarrow> timestamp \<Rightarrow> timestamp \<Rightarrow> 'a canary_db_scheme \<Rightarrow> (attempt_row \<times> 'a canary_db_scheme) res" where
  "reserve_attempt models sha session_id slot_id account_id arm_id review now t1 db =
     (case session_at session_id db of
        None \<Rightarrow> Inl (CanaryAdmissionError ''canary session/account binding is missing'')
      | Some session \<Rightarrow>
          if se_account_id session \<noteq> account_id
          then Inl (CanaryAdmissionError ''canary session/account binding is missing'')
          else rbind (checked_session sha session) (\<lambda>checked.
               rbind (validated (decode_scope models) (se_scope checked)) (\<lambda>scope.
               rbind (validated (decode_plan models) (se_plan checked)) (\<lambda>plan.
               case slot_of slot_id plan of
                 None \<Rightarrow> Inl (CanaryAdmissionError ''review does not match the exact frozen session slot'')
               | Some slot \<Rightarrow>
                   rbind (validate_slot_review sha slot review) (\<lambda>_.
                   case select_one (\<lambda>a. at_session_id a = session_id \<and> at_slot_id a = slot_id) (cb_attempts db) of
                     Some existing \<Rightarrow>
                       if at_arm_id existing \<noteq> arm_id \<or> at_review_id existing \<noteq> rv_review_id review
                       then Inl (MessageIdentityConflict ''canary slot was already reserved with different bytes'')
                       else Inr (existing, db)
                   | None \<Rightarrow> reserve_fresh models sha session scope plan slot arm_id review now t1 db)))))"

subsection \<open>Binding an entry\<close>

text \<open>\<open>Decimal(text)\<close> of a finite numeral; other texts count as malformed.\<close>

definition decimal_of_text :: "string \<Rightarrow> pydecimal option" where
  "decimal_of_text text =
     (let s = filter (\<lambda>c. c \<noteq> CHR ''_'') (strip text);
          sg = fst (read_sign ''+-'' s); r = snd (read_sign ''+-'' s);
          whole = takeWhile py_digit r; r1 = dropWhile py_digit r;
          dot = (r1 \<noteq> [] \<and> hd r1 = CHR ''.'');
          part = (if dot then takeWhile py_digit (tl r1) else []);
          r2 = (if dot then dropWhile py_digit (tl r1) else r1);
          ex = fst (read_exp r2)
      in if whole @ part = [] \<or> snd (read_exp r2) \<noteq> [] then None
         else case (if ex = [] then Some 0 else exponent_text (tl ex)) of
             None \<Rightarrow> None
           | Some e \<Rightarrow> Some ((if sg = ''-'' then - 1 else 1) * decimal_value (whole @ part), e - int (length part)))"

definition decimal_read :: "string \<Rightarrow> pydecimal res" where
  "decimal_read text = (case decimal_of_text text of
       None \<Rightarrow> Inl (ArithmeticError ''decimal.InvalidOperation'') | Some d \<Rightarrow> Inr d)"

definition differs :: "string \<Rightarrow> json \<Rightarrow> json \<Rightarrow> bool res" where
  "differs k v j = rbind (subscript k j) (\<lambda>x. Inr (\<not> json_eq x v))"

fun any_differs :: "(string \<times> json) list \<Rightarrow> json \<Rightarrow> bool res" where
  "any_differs [] j = Inr False"
| "any_differs ((k, v) # kvs) j = rbind (differs k v j) (\<lambda>b. if b then Inr True else any_differs kvs j)"

text \<open>What the decision itself must be, before the tables are read.\<close>

definition entry_quantity_ok :: "canary_decision \<Rightarrow> bool res" where
  "entry_quantity_ok decision =
     (if \<not> float_eq (cd_leverage decision) (float_of_int 1) then Inr False
      else case map_of (ci_metadata (cd_intent decision)) ''canary_quantity'' of
          None \<Rightarrow> Inr False
        | Some text \<Rightarrow> rbind (decimal_read text) (\<lambda>q. Inr (decimal_eq (decimal_of_float (cd_quantity decision)) q)))"

definition validate_entry :: "canary_decision \<Rightarrow> canary_scope \<Rightarrow> string \<Rightarrow> unit res" where
  "validate_entry decision scope effect_id =
     (if cd_decision_id decision = None \<or> cd_trade_id decision = None
      then Inl (CanaryAdmissionError ''entry decision has no canonical lineage'')
      else if effect_id = [] \<or> effect_id \<noteq> strip effect_id \<or> 512 < length effect_id
      then Inl (CanaryAdmissionError ''a normalized entry effect identity is required'')
      else if \<not> cd_approved decision \<or> cd_trading_mode decision \<noteq> ''PAPER'' \<or> cd_profile decision \<noteq> ''DEV''
         \<or> cd_account_id decision \<noteq> cs_account_id scope
      then Inl (CanaryAdmissionError ''entry binding requires a risk-approved exact DEV account decision'')
      else rbind (entry_quantity_ok decision) (\<lambda>ok'.
           if \<not> ok' then Inl (CanaryAdmissionError ''entry requires exactly 1x and the bound venue-minimum quantity'')
           else Inr ()))"

definition check_receipt :: "(string \<Rightarrow> string) \<Rightarrow> session_row \<Rightarrow> 'a canary_db_scheme \<Rightarrow> unit res" where
  "check_receipt sha session db =
     (let missing = CanaryAdmissionError ''entry session has no persisted read-only receipt'';
          bad = MessageIdentityConflict ''entry read-only receipt binding is inconsistent''
      in case receipt_at (se_receipt_id session) db of
        None \<Rightarrow> Inl missing
      | Some receipt \<Rightarrow>
          (case run_at (rc_run_id receipt) db of
             None \<Rightarrow> Inl missing
           | Some run \<Rightarrow>
               rbind (evidence_object (rc_payload receipt)) (\<lambda>proof.
               rbind (digest sha proof) (\<lambda>d.
                 if d \<noteq> se_receipt_id session then Inl bad
                 else rbind (any_differs [(''scope_sha256'', JStr (se_scope_sha256 session)),
                        (''database_instance_id'', JStr (ed_instance_id db)),
                        (''head_sha256'', JStr (rr_head_sha256 run)), (''sample_count'', JInt (rr_sample_count run))] proof)
                      (\<lambda>b. if b \<or> rr_state run \<noteq> CERTIFIED then Inl bad else Inr ())))))"

text \<open>The three identifiers that an attempt is bound to once.\<close>

definition binds_other :: "string option \<Rightarrow> string option \<Rightarrow> bool" where
  "binds_other stored expected \<longleftrightarrow> stored \<noteq> None \<and> stored \<noteq> expected"

fun check_bound :: "bool \<Rightarrow> (string option \<times> string option) list \<Rightarrow> unit res" where
  "check_bound active [] = Inr ()"
| "check_bound active ((stored, expected) # r) =
     (if binds_other stored expected
      then Inl (MessageIdentityConflict ''canary attempt already binds another decision/trade/effect'')
      else if \<not> active \<and> stored = None
      then Inl (CanaryAdmissionError ''recovery cannot create a missing entry binding'')
      else check_bound active r)"

definition bound_attempt :: "canary_decision \<Rightarrow> string \<Rightarrow> attempt_row \<Rightarrow> attempt_row" where
  "bound_attempt decision effect_id a = a\<lparr>at_risk_decision_id := cd_decision_id decision,
     at_trade_id := cd_trade_id decision, at_entry_effect_id := Some effect_id\<rparr>"

definition effect_exists :: "string \<Rightarrow> 'a evidence_db_scheme \<Rightarrow> bool" where
  "effect_exists effect_id db = list_ex (\<lambda>e. ex_effect_key e = effect_id) (ed_effects db)"

definition claim_of :: "string \<Rightarrow> 'a canary_db_scheme \<Rightarrow> claim_row option" where
  "claim_of attempt_id db = select_one (\<lambda>c. cl_attempt_id c = attempt_id) (cb_claims db)"

definition claim_matches :: "canary_decision \<Rightarrow> string \<Rightarrow> string \<Rightarrow> claim_row \<Rightarrow> bool" where
  "claim_matches decision effect_id scope_sha256 c \<longleftrightarrow> cl_effect_id c = effect_id \<and>
     Some (cl_risk_decision_id c) = cd_decision_id decision \<and> Some (cl_trade_id c) = cd_trade_id decision \<and>
     cl_scope_sha256 c = scope_sha256"

definition entry_deadline :: "session_row \<Rightarrow> canary_decision \<Rightarrow> timestamp" where
  "entry_deadline session decision =
     min (se_entry_deadline_at session) (fromtimestamp_ms (ci_entry_expires_ts_ms (cd_intent decision)))"

text \<open>The checks between the rows of the attempt, its session and its arm, up to the slot.\<close>

definition check_authorization ::
  "canary_models \<Rightarrow> (string \<Rightarrow> string) \<Rightarrow> canary_decision \<Rightarrow> canary_scope \<Rightarrow> attempt_row \<Rightarrow> session_row \<Rightarrow> arm_row
     \<Rightarrow> 'a canary_db_scheme \<Rightarrow> unit res" where
  "check_authorization models sha decision scope attempt session arm db =
     rbind (digest sha (scope_dump scope)) (\<lambda>scope_sha256.
     if se_scope_sha256 session \<noteq> scope_sha256
     then Inl (CanaryAdmissionError ''entry session scope/account/config is missing or mismatched'')
     else rbind (checked_session sha session) (\<lambda>checked.
     rbind (check_receipt sha session db) (\<lambda>_.
     if \<not> json_eq (se_scope checked) (scope_dump scope) \<or> at_intent_id attempt \<noteq> ci_intent_id (cd_intent decision)
        \<or> am_status arm \<noteq> ARM_CONSUMED \<or> am_decided_at_ms arm \<noteq> Some (cd_decided_at_ms decision)
     then Inl (CanaryAdmissionError ''entry decision is not the exact consumed canary authorization'')
     else rbind (evidence_object (am_review_payload arm)) (\<lambda>stored_review.
     rbind (digest sha stored_review) (\<lambda>review_sha256.
     if \<not> json_eq stored_review (rv_dump (cd_review decision)) \<or> review_sha256 \<noteq> am_review_sha256 arm
     then Inl (MessageIdentityConflict ''entry canary review payload differs from its arm'')
     else rbind (validated (decode_plan models) (se_plan checked)) (\<lambda>plan.
     case slot_of (at_slot_id attempt) plan of
       None \<Rightarrow> Inl (CanaryAdmissionError ''entry session slot is missing'')
     | Some slot \<Rightarrow> validate_slot_review sha slot (cd_review decision)))))))"

definition entry_eligible :: "session_row \<Rightarrow> attempt_row \<Rightarrow> canary_decision \<Rightarrow> timestamp \<Rightarrow> bool" where
  "entry_eligible session attempt decision now \<longleftrightarrow> se_state session = SESSION_RUNNING \<and>
     at_state attempt = ATTEMPT_CONSUMED \<and> now < entry_deadline session decision \<and>
     ci_entry_eligible_ts_ms (cd_intent decision) \<le> millis now \<and> millis now \<le> cd_venue_expires_at_ms decision"

definition bind_attempt ::
  "canary_decision \<Rightarrow> string \<Rightarrow> bool \<Rightarrow> attempt_row \<Rightarrow> session_row \<Rightarrow> timestamp \<Rightarrow> 'a canary_db_scheme
     \<Rightarrow> (entry_binding \<times> 'a canary_db_scheme) res" where
  "bind_attempt decision effect_id active attempt session now db =
     (if active \<and> \<not> entry_eligible session attempt decision now
      then Inl (CanaryAdmissionError ''entry session/attempt is stopped, expired or not currently eligible'')
      else rbind (check_bound active [(at_risk_decision_id attempt, cd_decision_id decision),
                (at_trade_id attempt, cd_trade_id decision), (at_entry_effect_id attempt, Some effect_id)]) (\<lambda>_.
        if active \<and> at_entry_effect_id attempt = None \<and> effect_exists effect_id db
        then Inl (CanaryAdmissionError ''entry must be bound before PREPARED; existing effects require recovery'')
        else let db' = (if active then db\<lparr>cb_attempts :=
                   update_where (\<lambda>a. at_attempt_id a = at_attempt_id attempt) (bound_attempt decision effect_id) (cb_attempts db)\<rparr>
                 else db)
          in if (case claim_of (at_attempt_id attempt) db' of None \<Rightarrow> False
                 | Some c \<Rightarrow> \<not> claim_matches decision effect_id (se_scope_sha256 session) c)
             then Inl (MessageIdentityConflict ''durable dispatch claim binding is inconsistent'')
             else Inr (\<lparr>eb_session_id = at_session_id attempt, eb_attempt_id = at_attempt_id attempt,
                    eb_effect_id = effect_id, eb_risk_decision_id = the (cd_decision_id decision),
                    eb_trade_id = the (cd_trade_id decision),
                    eb_entry_deadline_at = entry_deadline session decision,
                    eb_dispatch_claimed = (claim_of (at_attempt_id attempt) db' \<noteq> None)\<rparr>, db')))"

text \<open>The row of the join over the attempt of a review, its session and its arm.\<close>

definition entry_rows :: "string \<Rightarrow> 'a canary_db_scheme \<Rightarrow> (attempt_row \<times> session_row \<times> arm_row) option" where
  "entry_rows review_id db = (case select_one (\<lambda>a. at_review_id a = review_id) (cb_attempts db) of
       None \<Rightarrow> None
     | Some attempt \<Rightarrow>
         (case (session_at (at_session_id attempt) db, select_one (\<lambda>m. am_arm_id m = at_arm_id attempt) (cb_arms db)) of
            (Some session, Some arm) \<Rightarrow> Some (attempt, session, arm)
          | _ \<Rightarrow> None))"

text \<open>\<open>_entry_binding\<close>\<close>

definition entry_binding_tx ::
  "canary_models \<Rightarrow> (string \<Rightarrow> string) \<Rightarrow> canary_decision \<Rightarrow> canary_scope \<Rightarrow> string \<Rightarrow> bool \<Rightarrow> timestamp
     \<Rightarrow> 'a canary_db_scheme \<Rightarrow> (entry_binding \<times> 'a canary_db_scheme) res" where
  "entry_binding_tx models sha decision0 scope0 effect_id active now db =
     rbind (validated (decode_decision models) (cd_dump decision0)) (\<lambda>decision.
     rbind (validated (decode_scope models) (scope_dump scope0)) (\<lambda>scope.
     rbind (validate_entry decision scope effect_id) (\<lambda>_.
       case entry_rows (rv_review_id (cd_review decision)) db of
         None \<Rightarrow> Inl (CanaryAdmissionError ''entry session scope/account/config is missing or mismatched'')
       | Some (attempt, session, arm) \<Rightarrow>
           rbind (check_authorization models sha decision scope attempt session arm db) (\<lambda>_.
             bind_attempt decision effect_id active attempt session now db))))"

lemma entry_rows_Some:
  assumes "entry_rows review_id db = Some (attempt, session, arm)"
  shows "attempt \<in> set (cb_attempts db)" and "at_review_id attempt = review_id"
    and "session_at (at_session_id attempt) db = Some session" and "arm \<in> set (cb_arms db)" and "am_arm_id arm = at_arm_id attempt"
  using assms by (auto simp: entry_rows_def split: option.splits dest: select_one_SomeD)

definition bind_entry ::
  "canary_models \<Rightarrow> (string \<Rightarrow> string) \<Rightarrow> canary_decision \<Rightarrow> canary_scope \<Rightarrow> string \<Rightarrow> timestamp
     \<Rightarrow> 'a canary_db_scheme \<Rightarrow> (entry_binding \<times> 'a canary_db_scheme) res" where
  "bind_entry models sha decision scope effect_id now db =
     entry_binding_tx models sha decision scope effect_id True now db"

definition recovery_binding ::
  "canary_models \<Rightarrow> (string \<Rightarrow> string) \<Rightarrow> canary_decision \<Rightarrow> canary_scope \<Rightarrow> string \<Rightarrow> timestamp
     \<Rightarrow> 'a canary_db_scheme \<Rightarrow> entry_binding res" where
  "recovery_binding models sha decision scope effect_id now db =
     rbind (entry_binding_tx models sha decision scope effect_id False now db) (\<lambda>(binding, db'). Inr binding)"

subsection \<open>Dispatch\<close>

definition entry_request :: "canary_decision \<Rightarrow> string option \<Rightarrow> json" where
  "entry_request decision client_order_id = JObj
     [(''trade_id'', json_text (cd_trade_id decision)), (''intent_id'', JStr (ci_intent_id (cd_intent decision))),
      (''client_order_id'', json_text client_order_id), (''venue_symbol'', JStr (cd_venue_symbol decision)),
      (''side'', JStr (if ci_side (cd_intent decision) = ''LONG'' then ''BUY'' else ''SELL'')),
      (''quantity_hex'', JStr (float_hex (cd_quantity decision))),
      (''limit_price_hex'', JStr (float_hex (cd_worst_entry_price decision))),
      (''leverage_hex'', JStr (float_hex (cd_leverage decision)))]"

definition prepared_entry :: "canary_decision \<Rightarrow> canary_scope \<Rightarrow> effect_row \<Rightarrow> bool" where
  "prepared_entry decision scope e \<longleftrightarrow> (let i = ex_identity e in
     ex_status e = PREPARED \<and> ei_type i = PLACE_ORDER \<and> ei_environment i = Some (entry_environment scope) \<and>
     ei_account_id i = Some (cs_account_id scope) \<and> ei_trade_id i = cd_trade_id decision \<and>
     ei_exchange i = ''evedex'' \<and> ei_symbol i = ci_symbol (cd_intent decision) \<and> ei_order_role i = Some ''ENTRY'')"

definition assert_prepared_effect ::
  "(string \<Rightarrow> string) \<Rightarrow> canary_decision \<Rightarrow> canary_scope \<Rightarrow> string \<Rightarrow> 'a evidence_db_scheme \<Rightarrow> unit res" where
  "assert_prepared_effect sha decision scope effect_id db =
     (let wrong = CanaryAdmissionError ''final dispatch requires the exact durable PREPARED entry effect'';
          changed = MessageIdentityConflict ''prepared canary entry request differs from the immutable decision''
      in case select_one (\<lambda>e. ex_effect_key e = effect_id) (ed_effects db) of
        None \<Rightarrow> Inl wrong
      | Some effect \<Rightarrow>
          if \<not> prepared_entry decision scope effect then Inl wrong
          else rbind (evidence_object (ex_request_payload effect)) (\<lambda>request.
               if \<not> json_eq request (entry_request decision (ei_client_order_id (ex_identity effect))) then Inl changed
               else rbind (digest sha request) (\<lambda>d.
                 if d \<noteq> ei_request_sha256 (ex_identity effect) \<or> ei_client_order_id (ex_identity effect) \<in> {None, Some []}
                 then Inl changed else Inr ())))"

definition claim_check :: "claim_row \<Rightarrow> bool" where
  "claim_check c \<longleftrightarrow> list_ex (\<lambda>x. x \<noteq> CHR '' '') (cl_effect_id c) \<and> sha256_hex (cl_risk_decision_id c) \<and>
     sha256_hex (cl_trade_id c) \<and> sha256_hex (cl_scope_sha256 c)"

definition insert_claim :: "claim_row \<Rightarrow> 'a canary_db_scheme \<Rightarrow> 'a canary_db_scheme res" where
  "insert_claim row db =
     (if \<not> claim_check row \<or> cl_effect_id row \<in> set (map cl_effect_id (cb_claims db))
         \<or> cl_attempt_id row \<in> set (map cl_attempt_id (cb_claims db))
         \<or> cl_attempt_id row \<notin> set (map at_attempt_id (cb_attempts db))
         \<or> cl_session_id row \<notin> set (map se_session_id (cb_sessions db))
      then Inl (IntegrityError ''paper_canary_dispatch_claims'')
      else Inr (db\<lparr>cb_claims := insert_row row (cb_claims db)\<rparr>))"

definition claim_dispatch ::
  "canary_models \<Rightarrow> (string \<Rightarrow> string) \<Rightarrow> canary_decision \<Rightarrow> canary_scope \<Rightarrow> string \<Rightarrow> timestamp
     \<Rightarrow> 'a canary_db_scheme \<Rightarrow> (entry_binding \<times> 'a canary_db_scheme) res" where
  "claim_dispatch models sha decision scope effect_id now db =
     rbind (entry_binding_tx models sha decision scope effect_id True now db) (\<lambda>(binding, db1).
     if eb_dispatch_claimed binding
     then Inl (CanaryAdmissionError ''entry dispatch was already claimed; reconcile without resubmitting'')
     else rbind (assert_prepared_effect sha decision scope effect_id db1) (\<lambda>_.
          rbind (digest sha (scope_dump scope)) (\<lambda>scope_sha256.
          rbind (insert_claim \<lparr>cl_effect_id = effect_id, cl_attempt_id = eb_attempt_id binding,
                   cl_session_id = eb_session_id binding, cl_risk_decision_id = eb_risk_decision_id binding,
                   cl_trade_id = eb_trade_id binding, cl_scope_sha256 = scope_sha256, cl_claimed_at = now\<rparr> db1) (\<lambda>db2.
            Inr (binding, db2\<lparr>cb_sessions :=
              update_where (\<lambda>s. se_session_id s = eb_session_id binding) (progressed now) (cb_sessions db2)\<rparr>)))))"

text \<open>
  \<open>final_dispatch\<close> up to its \<open>yield\<close>: the claim commits, then the clock is read again as \<open>t1\<close>. A value is
  the binding handed to the caller, who then calls the venue; the claim stays when it is an error.
\<close>

definition final_dispatch ::
  "canary_models \<Rightarrow> (string \<Rightarrow> string) \<Rightarrow> canary_decision \<Rightarrow> canary_scope \<Rightarrow> string \<Rightarrow> pyfloat \<Rightarrow> timestamp \<Rightarrow> timestamp
     \<Rightarrow> 'a canary_db_scheme \<Rightarrow> entry_binding res \<times> 'a canary_db_scheme" where
  "final_dispatch models sha decision scope effect_id max_hold now t1 db =
     (if \<not> is_finite max_hold \<or> \<not> (float_less float_zero max_hold \<and> float_le max_hold (float_of_int 30))
      then (Inl (CanaryAdmissionError ''dispatch lock hold must be positive and at most 30 seconds''), db)
      else if \<not> list_ex (\<lambda>a. at_review_id a = rv_review_id (cd_review decision)) (cb_attempts db)
      then (Inl (CanaryAdmissionError ''entry has no bounded canary attempt''), db)
      else case claim_dispatch models sha decision scope effect_id now db of
          Inl e \<Rightarrow> (Inl e, db)
        | Inr (binding, db') \<Rightarrow>
            (if eb_entry_deadline_at binding \<le> t1 \<or> cd_venue_expires_at_ms decision < millis t1
             then Inl (CanaryAdmissionError ''entry expired during dispatch claim; reconcile without resubmitting'')
             else Inr (binding\<lparr>eb_dispatch_claimed := True\<rparr>), db'))"

end
