(* ===== verification/CanaryArm.thy ===== *)
theory CanaryArm
  imports CanarySession
begin

text \<open>
  Single-use manual authorizations, \<open>kairos_persistence/canary_arm.py\<close> over \<open>paper_canary_arms\<close> of migration 009:
  \<open>arm\<close> stores one exact review and allocation, charges a session slot and publishes the review in one
  transaction; \<open>consume\<close> spends the authorization once and answers repetitions from the stored row.

  \<open>bull\<close> and \<open>bear\<close> are the values of \<open>MarketRegime.BULL\<close> and \<open>.BEAR\<close>; the other enumerations are
  compared by name. \<open>t0\<close> is the transaction's \<open>now()\<close>, \<open>now\<close> and \<open>t1\<close> are readings of
  \<open>clock_timestamp()\<close>, \<open>nid\<close> is the value the outbox id sequence yields.
\<close>

subsection \<open>Policy\<close>

definition canary_review_topic :: string where
  "canary_review_topic = ''kairos.aggregator.review.v1''"

definition canary_source :: string where
  "canary_source = ''kairos-paper-canary''"

definition canary_outbox_producer :: string where
  "canary_outbox_producer = ''kairos-risk-manager''"

definition canary_strategy_id :: string where
  "canary_strategy_id = ''technical-canary''"

definition canary_weight :: pyfloat where
  "canary_weight = float_of_ratio 25 10000"

definition canary_rationale :: string where
  "canary_rationale = ''Manually armed EVEDEX DEV technical canary; no alpha or LLM claim.''"

definition canary_venue_symbols :: "(string \<times> string) list" where
  "canary_venue_symbols = [(''BTCUSDT'', ''BTCUSD:DEV''), (''ETHUSDT'', ''ETHUSD:DEV''), (''SOLUSDT'', ''SOLUSD:DEV''),
     (''BNBUSDT'', ''BNBUSD:DEV''), (''XRPUSDT'', ''XRPUSD:DEV'')]"

definition instrument_decimal_fields :: "string list" where
  "instrument_decimal_fields = [''venue_lot_size'', ''venue_price_increment'', ''venue_quantity_increment'',
     ''venue_multiplier'', ''venue_min_volume_usd'', ''venue_min_price'', ''venue_max_price'',
     ''venue_min_quantity'', ''venue_max_quantity'']"

definition canary_metadata_keys :: "string list" where
  "canary_metadata_keys = [''account_id'', ''alpha_claim'', ''canary_entry_order'', ''canary_quantity'', ''entry_policy'',
     ''instrument_rules_sha256'', ''purpose''] @ instrument_decimal_fields @ [''venue_market_state'', ''venue_symbol'',
     ''venue_trading'', ''venue_updated_at_ms'']"

record paper_arm =
  pa_arm_id :: string
  pa_account_id :: string
  pa_review :: canary_review
  pa_allocation :: canary_allocation
  pa_status :: arm_status
  pa_expires_at :: timestamp
  pa_decided_at_ms :: "int option"
  pa_session_id :: "string option"
  pa_attempt_id :: "string option"
  pa_session_expires_at :: "timestamp option"

subsection \<open>Numbers\<close>

text \<open>\<open>a - b\<close> and \<open>math.isclose(a, b, rel_tol=0, abs_tol=1e-12)\<close>\<close>

definition float_minus :: "pyfloat \<Rightarrow> pyfloat \<Rightarrow> pyfloat" where
  "float_minus x y = (case (x, y) of
       (Finite s m e, Finite t k f) \<Rightarrow>
         (let g = min e f;
              n = (if s then - 1 else 1) * int m * 2 ^ nat (e - g) - (if t then - 1 else 1) * int k * 2 ^ nat (f - g)
          in round_ratio (n < 0) (nat \<bar>n\<bar> * 2 ^ nat (g - 52)) (2 ^ nat (52 - g)))
     | _ \<Rightarrow> NotANumber)"

definition float_close :: "pyfloat \<Rightarrow> pyfloat \<Rightarrow> bool" where
  "float_close a b \<longleftrightarrow> float_eq a b \<or>
     (is_finite a \<and> is_finite b \<and> float_le (float_abs (float_minus b a)) (float_of_ratio 1 1000000000000))"

text \<open>\<open>(?:[1-9][0-9]*|0\.[0-9]*[1-9]|[1-9][0-9]*\.[0-9]*[1-9])\<close> and the \<open>Decimal\<close> of such a text.\<close>

definition positive_whole :: "string \<Rightarrow> bool" where
  "positive_whole s \<longleftrightarrow> s \<noteq> [] \<and> list_all py_digit s \<and> hd s \<noteq> CHR ''0''"

definition canonical_positive_decimal :: "string \<Rightarrow> bool" where
  "canonical_positive_decimal s \<longleftrightarrow>
     (let w = takeWhile py_digit s; r = dropWhile py_digit s in
      if r = [] then positive_whole w
      else hd r = CHR ''.'' \<and> (w = ''0'' \<or> positive_whole w) \<and> tl r \<noteq> [] \<and> list_all py_digit (tl r)
           \<and> List.last (tl r) \<noteq> CHR ''0'')"

definition positive_decimal :: "string \<Rightarrow> pydecimal res" where
  "positive_decimal value =
     (if \<not> canonical_positive_decimal value then Inl (ValueError ''field must be a canonical positive decimal string'')
      else let w = takeWhile py_digit value; part = tl (dropWhile py_digit value)
           in Inr (decimal_value (w @ part), - int (length part)))"

text \<open>\<open>x % y == 0\<close>; the remainder is undefined when the quotient needs more than 28 digits.\<close>

definition decimal_multiple :: "pydecimal \<Rightarrow> pydecimal \<Rightarrow> bool res" where
  "decimal_multiple x y =
     (let p = min (snd x) (snd y); a = fst x * 10 ^ nat (snd x - p); b = fst y * 10 ^ nat (snd y - p)
      in if 28 < decimal_digits (a div b) then Inl (ArithmeticError ''decimal.InvalidOperation'')
         else Inr (a mod b = 0))"

subsection \<open>Validation\<close>

definition validate_account :: "string \<Rightarrow> unit res" where
  "validate_account account_id =
     (if account_id = [] \<or> account_id \<noteq> strip account_id
      then Inl (ValueError ''account_id must be a normalized non-empty string'')
      else if casefold_ascii account_id \<in> set [''primary'', ''prod'', ''production'', ''live'']
      then Inl (ValueError ''technical canary requires a dedicated non-production account'')
      else Inr ())"

definition metadata_of :: "canary_intent \<Rightarrow> (string \<times> string) list" where
  "metadata_of intent = dict_of (ci_metadata intent)"

definition validate_account_binding :: "string \<Rightarrow> canary_review \<Rightarrow> unit res" where
  "validate_account_binding account_id review =
     (if map_of (metadata_of (rv_intent review)) ''account_id'' \<noteq> Some account_id
      then Inl (ValueError ''manual canary intent account does not match repository scope'') else Inr ())"

text \<open>\<open>metadata[key]\<close>, after its keys have been checked.\<close>

definition meta :: "(string \<times> string) list \<Rightarrow> string \<Rightarrow> string" where
  "meta m k = (case map_of m k of None \<Rightarrow> [] | Some v \<Rightarrow> v)"

definition check_that :: "bool \<Rightarrow> string \<Rightarrow> unit res" where
  "check_that b s = (if b then Inr () else Inl (ValueError s))"

lemma check_that_Inr [returned]: "check_that b s = Inr u \<longleftrightarrow> b"
  by (cases b) (simp_all add: check_that_def)

definition instrument_rule :: "(string \<times> string) list \<Rightarrow> int \<Rightarrow> json" where
  "instrument_rule m updated_at_ms = JObj
     ([(''domain'', JStr ''evedex-dev-instrument-rule.v1''), (''venue_symbol'', JStr (meta m ''venue_symbol'')),
       (''venue_trading'', JStr (meta m ''venue_trading'')), (''venue_market_state'', JStr (meta m ''venue_market_state'')),
       (''venue_updated_at_ms'', JInt updated_at_ms)] @
      map (\<lambda>f. (f, JStr (meta m f))) instrument_decimal_fields)"

fun positive_decimals :: "(string \<times> string) list \<Rightarrow> string list \<Rightarrow> (string \<times> pydecimal) list res" where
  "positive_decimals m [] = Inr []"
| "positive_decimals m (f # fs) =
     rbind (positive_decimal (meta m f)) (\<lambda>d. rbind (positive_decimals m fs) (\<lambda>ds. Inr ((f, d) # ds)))"

definition decimal_less :: "pydecimal \<Rightarrow> pydecimal \<Rightarrow> bool" where
  "decimal_less x y \<longleftrightarrow> \<not> decimal_le y x"

definition validate_instrument_numbers :: "(string \<times> string) list \<Rightarrow> unit res" where
  "validate_instrument_numbers m =
     rbind (positive_decimals m (instrument_decimal_fields @ [''canary_quantity''])) (\<lambda>ds.
       let d = (\<lambda>k. case map_of ds k of None \<Rightarrow> (0, 0) | Some x \<Rightarrow> x); quantity = d ''canary_quantity'' in
       rbind (check_that (meta m ''venue_lot_size'' = ''1'' \<and> meta m ''venue_multiplier'' = ''1'')
                ''manual canary instrument lot size and multiplier must both equal 1'') (\<lambda>_.
       rbind (check_that (decimal_less (d ''venue_min_price'') (d ''venue_max_price''))
                ''manual canary instrument price bounds are inconsistent'') (\<lambda>_.
       rbind (check_that (decimal_le (d ''venue_min_quantity'') (d ''venue_max_quantity''))
                ''manual canary instrument quantity bounds are inconsistent'') (\<lambda>_.
       rbind (decimal_multiple (d ''venue_min_price'') (d ''venue_price_increment'')) (\<lambda>low.
       rbind (if low then decimal_multiple (d ''venue_max_price'') (d ''venue_price_increment'') else Inr False) (\<lambda>exact.
       rbind (check_that exact ''manual canary instrument price bounds are not exact price increments'') (\<lambda>_.
       rbind (decimal_multiple (d ''venue_min_quantity'') (d ''venue_quantity_increment'')) (\<lambda>step.
       rbind (check_that step ''manual canary min quantity is not an exact quantity increment'') (\<lambda>_.
       rbind (check_that (decimal_le (d ''venue_min_quantity'') quantity \<and> decimal_le quantity (d ''venue_max_quantity''))
                ''manual canary quantity is outside venue min/max quantity'') (\<lambda>_.
       rbind (decimal_multiple quantity (d ''venue_quantity_increment'')) (\<lambda>fits.
         check_that fits ''manual canary quantity is not an exact venue quantity increment'')))))))))))"

definition validate_instrument_binding :: "(string \<Rightarrow> string) \<Rightarrow> canary_review \<Rightarrow> (string \<times> string) list \<Rightarrow> unit res" where
  "validate_instrument_binding sha review m =
     (let intent = rv_intent review; route = rv_route review; evidence = ci_evidence intent;
          kind = (\<lambda>k. List.find (\<lambda>e. ce_kind e = k) (rev evidence)) in
      case (kind ''closed_bar'', kind ''venue_instrument'') of
        (Some closed_bar, Some instrument) \<Rightarrow>
          rbind (check_that (length evidence = 2)
                   ''manual canary intent requires closed-bar and venue-instrument evidence'') (\<lambda>_.
          rbind (check_that (ci_input_bar_sha256s intent = [ce_content_sha256 closed_bar] \<and>
                     ce_reference closed_bar = ''BINANCE_UM:'' @ ci_symbol intent @ '':'' @ show_int (ci_decision_ts_ms intent - 59999) \<and>
                     ce_observed_at_ms closed_bar = ci_decision_ts_ms intent)
                   ''manual canary closed-bar evidence does not match intent provenance'') (\<lambda>_.
          rbind (validate_instrument_numbers m) (\<lambda>_.
          rbind (check_that (positive_whole (meta m ''venue_updated_at_ms''))
                   ''venue_updated_at_ms must be a canonical positive integer'') (\<lambda>_.
            let updated = decimal_value (meta m ''venue_updated_at_ms'') in
            rbind (digest sha (instrument_rule m updated)) (\<lambda>rule.
            rbind (check_that (meta m ''instrument_rules_sha256'' = rule)
                     ''manual canary instrument rule hash does not match its canonical payload'') (\<lambda>_.
            rbind (check_that (ce_content_sha256 instrument = rule \<and>
                       ce_reference instrument = ''EVEDEX_DEV:'' @ meta m ''venue_symbol'' @ '':'' @ meta m ''venue_updated_at_ms'' \<and>
                       ce_observed_at_ms instrument = updated)
                     ''manual canary venue-instrument evidence does not match the fixed DEV rule'') (\<lambda>_.
              check_that (cr_evidence_ids route = sort [ce_content_sha256 closed_bar, rule])
                ''manual canary route must preserve bar and instrument-rule lineage'')))))))
      | _ \<Rightarrow> Inl (ValueError ''manual canary intent requires closed-bar and venue-instrument evidence''))"

definition from_canary_source :: "kairos_message \<Rightarrow> bool" where
  "from_canary_source m \<longleftrightarrow> km_source m = canary_source"

definition lineage_ok :: "canary_review \<Rightarrow> bool" where
  "lineage_ok review \<longleftrightarrow>
     (let intent = rv_intent review; route = rv_route review; i = ci_message intent; r = cr_message route; v = rv_message review in
      km_message_id v = rv_review_id review \<and> km_correlation_id v = Some (ci_intent_id intent) \<and>
      km_causation_id v = Some (km_message_id r) \<and> km_message_id r = cr_route_id route \<and>
      km_correlation_id r = Some (ci_intent_id intent) \<and> km_causation_id r = Some (km_message_id i) \<and>
      km_message_id i = ci_intent_id intent \<and> km_correlation_id i = Some (ci_intent_id intent) \<and> km_causation_id i = None)"

definition route_ok :: "canary_review \<Rightarrow> bool" where
  "route_ok review \<longleftrightarrow>
     (let intent = rv_intent review; route = rv_route review in
      cr_intent route = intent \<and> rv_evidence review = ci_evidence intent \<and> cr_review_tier route = ''NORMAL'' \<and>
      cr_requested_reasoning_effort route = ''medium'' \<and> cr_conflict_rationale route = None \<and>
      cr_routed_at_ms route = ci_decision_ts_ms intent \<and> cr_review_deadline_ms route = ci_entry_expires_ts_ms intent \<and>
      rv_reviewed_at_ms review = ci_entry_eligible_ts_ms intent)"

definition metadata_ok :: "canary_intent \<Rightarrow> bool" where
  "metadata_ok intent \<longleftrightarrow>
     (let m = metadata_of intent in
      map_of canary_venue_symbols (ci_symbol intent) \<noteq> None \<and> set (map fst m) = set canary_metadata_keys \<and>
      meta m ''alpha_claim'' = ''false'' \<and> meta m ''canary_entry_order'' = ''MARKETABLE_IOC_LIMIT'' \<and>
      meta m ''entry_policy'' = ''NEXT_BAR_MARKET'' \<and> meta m ''purpose'' = ''technical_execution_canary'' \<and>
      meta m ''venue_market_state'' = ''OPEN'' \<and>
      Some (meta m ''venue_symbol'') = map_of canary_venue_symbols (ci_symbol intent) \<and> meta m ''venue_trading'' = ''all'')"

definition allocation_identity :: "string \<Rightarrow> canary_intent \<Rightarrow> json" where
  "allocation_identity regime intent = JObj
     [(''causation_id'', JStr (km_message_id (ci_message intent))),
      (''contract_version'', JStr ''technical-canary-allocation.v1''), (''correlation_id'', JStr (ci_intent_id intent)),
      (''max_gross_leverage'', json_float (float_of_int 1)), (''produced_at_ms'', JInt (ci_entry_eligible_ts_ms intent)),
      (''regime'', JStr regime), (''rationale'', JStr canary_rationale), (''schema_version'', JStr ''1.0''),
      (''source'', JStr canary_source), (''stable_reserve_pct'', json_float (float_minus (float_of_int 1) canary_weight)),
      (''strategy_weights'', JObj [(canary_strategy_id, json_float canary_weight)]), (''triggered_by'', JStr ''schedule'')]"

definition validate_allocation ::
  "string \<Rightarrow> string \<Rightarrow> (string \<Rightarrow> string) \<Rightarrow> canary_intent \<Rightarrow> canary_allocation \<Rightarrow> unit res" where
  "validate_allocation bull bear sha intent allocation =
     (let regime = (if ci_side intent = ''LONG'' then bull else bear) in
      rbind (check_that (set (map fst (al_strategy_weights allocation)) = {canary_strategy_id} \<and>
               (case map_of (al_strategy_weights allocation) canary_strategy_id of
                  None \<Rightarrow> False | Some w \<Rightarrow> float_close w canary_weight))
               ''manual canary allocation must reserve exactly 0.25% for the canary'') (\<lambda>_.
      rbind (check_that (float_close (al_stable_reserve_pct allocation) (float_minus (float_of_int 1) canary_weight))
               ''manual canary allocation must keep 99.75% in reserve'') (\<lambda>_.
      rbind (check_that (float_close (al_max_gross_leverage allocation) (float_of_int 1))
               ''manual canary allocation must be limited to 1x'') (\<lambda>_.
      rbind (check_that (ci_side intent \<in> set [''LONG'', ''SHORT''] \<and> al_regime allocation = regime)
               ''manual canary allocation must be direction-compatible'') (\<lambda>_.
      rbind (check_that (km_correlation_id (al_message allocation) = Some (ci_intent_id intent))
               ''manual canary allocation must be bound to the exact intent'') (\<lambda>_.
      rbind (check_that (km_causation_id (al_message allocation) = Some (km_message_id (ci_message intent)) \<and>
                 millis (km_produced_at (al_message allocation)) = ci_entry_eligible_ts_ms intent \<and>
                 al_triggered_by allocation = ''schedule'' \<and> al_rationale allocation = canary_rationale)
               ''manual canary allocation must preserve fixed lineage and policy'') (\<lambda>_.
      rbind (digest sha (allocation_identity regime intent)) (\<lambda>identity.
        check_that (km_message_id (al_message allocation) = identity)
          ''manual canary allocation message_id is not deterministic''))))))))"

definition validate_binding ::
  "string \<Rightarrow> string \<Rightarrow> (string \<Rightarrow> string) \<Rightarrow> canary_review \<Rightarrow> canary_allocation \<Rightarrow> unit res" where
  "validate_binding bull bear sha review allocation =
     (let intent = rv_intent review; route = rv_route review in
      rbind (check_that (from_canary_source (rv_message review) \<and> from_canary_source (cr_message route) \<and>
                 from_canary_source (ci_message intent) \<and> from_canary_source (al_message allocation))
               ''manual canary binding requires the fixed canary source'') (\<lambda>_.
      rbind (check_that (rv_decision review = ''ALLOW'' \<and> rv_reviewer review = ''DETERMINISTIC'' \<and>
                 rv_model_provenance review = None \<and> rv_priority review = 0 \<and>
                 rv_reason_codes review = [''TECHNICAL_CANARY_MANUAL_POLICY''])
               ''manual canary arm requires a deterministic ALLOW review'') (\<lambda>_.
      rbind (check_that (ci_strategy_id intent = canary_strategy_id \<and> ci_strategy_revision intent = ''1'')
               ''manual canary arm requires technical-canary@1'') (\<lambda>_.
      rbind (check_that (lineage_ok review)
               ''manual canary envelopes must preserve exact deterministic lineage'') (\<lambda>_.
      rbind (check_that (route_ok review) ''manual canary review must preserve the exact fixed route'') (\<lambda>_.
      rbind (check_that (float_eq (ci_signal_strength intent) float_zero \<and>
                 ci_entry_eligible_ts_ms intent = ci_decision_ts_ms intent + 1)
               ''manual canary intent must preserve the fixed signal policy'') (\<lambda>_.
      rbind (check_that (metadata_ok intent) ''manual canary intent metadata is not the fixed DEV policy'') (\<lambda>_.
      rbind (check_that (meta (metadata_of intent) ''account_id'' \<noteq> [])
               ''manual canary intent requires an account binding'') (\<lambda>_.
      rbind (validate_instrument_binding sha review (metadata_of intent)) (\<lambda>_.
        validate_allocation bull bear sha intent allocation))))))))))"

subsection \<open>Rows\<close>

definition arm_check :: "arm_row \<Rightarrow> bool" where
  "arm_check m \<longleftrightarrow> sha256_hex (am_arm_id m) \<and> sha256_hex (am_review_id m) \<and> sha256_hex (am_intent_id m) \<and>
     am_side m \<in> set [''LONG'', ''SHORT''] \<and> sha256_hex (am_review_sha256 m) \<and> sha256_hex (am_allocation_sha256 m) \<and>
     (case am_decided_at_ms m of None \<Rightarrow> True | Some d \<Rightarrow> 0 \<le> d) \<and>
     (am_status m = ARM_CONSUMED) = (am_consumed_at m \<noteq> None) \<and> (am_status m = ARM_CONSUMED) = (am_decided_at_ms m \<noteq> None)"

definition armed :: "arm_row \<Rightarrow> bool" where
  "armed m \<longleftrightarrow> am_status m = ARM_ARMED"

definition arms_unique :: "arm_row list \<Rightarrow> bool" where
  "arms_unique t \<longleftrightarrow> unique_by am_arm_id t \<and> unique_by am_review_id t \<and> unique_by am_account_id (filter armed t)"

definition insert_arm :: "arm_row \<Rightarrow> 'a canary_db_scheme \<Rightarrow> 'a canary_db_scheme res" where
  "insert_arm row db =
     (if \<not> arm_check row \<or> \<not> arms_unique (insert_row row (cb_arms db)) then Inl (IntegrityError ''paper_canary_arms'')
      else Inr (db\<lparr>cb_arms := insert_row row (cb_arms db)\<rparr>))"

definition arm_at :: "string \<Rightarrow> 'a canary_db_scheme \<Rightarrow> arm_row option" where
  "arm_at arm_id db = select_one (\<lambda>m. am_arm_id m = arm_id) (cb_arms db)"

definition arm_attempt :: "string \<Rightarrow> 'a canary_db_scheme \<Rightarrow> attempt_row option" where
  "arm_attempt arm_id db = select_one (\<lambda>a. at_arm_id a = arm_id) (cb_attempts db)"

text \<open>\<open>_bound_row\<close>, \<open>_object\<close> and \<open>_record\<close>: the arm with the attempt and session it is bound to.\<close>

definition arm_object :: "json \<Rightarrow> json res" where
  "arm_object value = (if is_object value then Inr value
     else Inl (MessageIdentityConflict ''stored canary payload is not a JSON object''))"

definition arm_record ::
  "canary_models \<Rightarrow> (string \<Rightarrow> string) \<Rightarrow> arm_row \<Rightarrow> attempt_row option \<Rightarrow> session_row option \<Rightarrow> paper_arm res" where
  "arm_record models sha m attempt session =
     rbind (arm_object (am_review_payload m)) (\<lambda>review_payload.
     rbind (arm_object (am_allocation_payload m)) (\<lambda>allocation_payload.
     rbind (digest sha review_payload) (\<lambda>review_sha256.
     if review_sha256 \<noteq> am_review_sha256 m
     then Inl (MessageIdentityConflict ''stored canary review fingerprint does not match'')
     else rbind (digest sha allocation_payload) (\<lambda>allocation_sha256.
     if allocation_sha256 \<noteq> am_allocation_sha256 m
     then Inl (MessageIdentityConflict ''stored canary allocation fingerprint does not match'')
     else rbind (validated (decode_review models) review_payload) (\<lambda>review.
          rbind (validated (decode_allocation models) allocation_payload) (\<lambda>allocation.
            Inr \<lparr>pa_arm_id = am_arm_id m, pa_account_id = am_account_id m, pa_review = review,
                 pa_allocation = allocation, pa_status = am_status m, pa_expires_at = am_expires_at m,
                 pa_decided_at_ms = am_decided_at_ms m, pa_session_id = map_option at_session_id attempt,
                 pa_attempt_id = map_option at_attempt_id attempt,
                 pa_session_expires_at = map_option se_entry_deadline_at session\<rparr>))))))"

definition bound_record ::
  "canary_models \<Rightarrow> (string \<Rightarrow> string) \<Rightarrow> string \<Rightarrow> 'a canary_db_scheme \<Rightarrow> paper_arm option res" where
  "bound_record models sha arm_id db = (case arm_at arm_id db of
       None \<Rightarrow> Inr None
     | Some m \<Rightarrow>
         let attempt = arm_attempt arm_id db;
             session = (case attempt of None \<Rightarrow> None | Some a \<Rightarrow> session_at (at_session_id a) db)
         in rbind (arm_record models sha m attempt session) (\<lambda>p. Inr (Some p)))"

definition get_arm ::
  "canary_models \<Rightarrow> (string \<Rightarrow> string) \<Rightarrow> string \<Rightarrow> 'a canary_db_scheme \<Rightarrow> paper_arm option res" where
  "get_arm models sha arm_id db =
     (if arm_id = [] \<or> arm_id \<noteq> strip arm_id then Inl (ValueError ''arm_id must be a normalized non-empty string'')
      else bound_record models sha arm_id db)"

subsection \<open>Arming\<close>

definition stale_arm :: "string \<Rightarrow> timestamp \<Rightarrow> arm_row \<Rightarrow> bool" where
  "stale_arm account_id t0 m \<longleftrightarrow> am_account_id m = account_id \<and> am_status m = ARM_ARMED \<and> am_expires_at m < t0"

definition expire_stale :: "string \<Rightarrow> timestamp \<Rightarrow> 'a canary_db_scheme \<Rightarrow> 'a canary_db_scheme" where
  "expire_stale account_id t0 db = db\<lparr>cb_arms := update_where (stale_arm account_id t0) expired_arm (cb_arms db)\<rparr>"

definition fresh_arm ::
  "string \<Rightarrow> string \<Rightarrow> canary_review \<Rightarrow> json \<Rightarrow> string \<Rightarrow> json \<Rightarrow> string \<Rightarrow> timestamp \<Rightarrow> timestamp \<Rightarrow> arm_row" where
  "fresh_arm arm_id account_id review review_doc review_sha256 allocation_doc allocation_sha256 expires_at t0 =
     \<lparr>am_arm_id = arm_id, am_review_id = rv_review_id review, am_intent_id = ci_intent_id (rv_intent review),
      am_account_id = account_id, am_symbol = ci_symbol (rv_intent review), am_side = ci_side (rv_intent review),
      am_review_payload = review_doc, am_review_sha256 = review_sha256, am_allocation_payload = allocation_doc,
      am_allocation_sha256 = allocation_sha256, am_status = ARM_ARMED, am_expires_at = expires_at,
      am_created_at = t0, am_consumed_at = None, am_decided_at_ms = None\<rparr>"

text \<open>The row of the arm: inserted, or found with its identity and a session attempt.\<close>

definition store_arm ::
  "string \<Rightarrow> string \<Rightarrow> canary_review \<Rightarrow> canary_allocation \<Rightarrow> string \<Rightarrow> string \<Rightarrow> timestamp
     \<Rightarrow> 'a canary_db_scheme \<Rightarrow> 'a canary_db_scheme res" where
  "store_arm arm_id account_id review allocation review_sha256 allocation_sha256 t0 db =
     (case arm_at arm_id db of
        None \<Rightarrow>
          (let expires_at = fromtimestamp_ms (ci_entry_expires_ts_ms (rv_intent review)) in
           rbind (store_json (rv_dump review)) (\<lambda>review_doc.
           rbind (store_json (al_dump allocation)) (\<lambda>allocation_doc.
             if expires_at < t0 then Inl (ValueError ''cannot arm an expired technical canary'')
             else insert_arm (fresh_arm arm_id account_id review review_doc review_sha256 allocation_doc
                    allocation_sha256 expires_at t0) db)))
      | Some existing \<Rightarrow>
          if am_account_id existing \<noteq> account_id \<or> am_review_sha256 existing \<noteq> review_sha256
             \<or> am_allocation_sha256 existing \<noteq> allocation_sha256
          then Inl (MessageIdentityConflict ''manual canary arm identity was reused with different content'')
          else if arm_attempt arm_id db = None
          then Inl (CanaryAdmissionError ''historical unbound arms cannot acquire session authority'')
          else Inr db)"

definition publish_review ::
  "canary_review \<Rightarrow> string \<Rightarrow> string \<Rightarrow> int \<Rightarrow> timestamp \<Rightarrow> 'a canary_db_scheme \<Rightarrow> 'a canary_db_scheme res" where
  "publish_review review review_json review_sha256 nid t0 db =
     rbind (append_event canary_review_topic (rv_message review) (cb_audit db)) (\<lambda>(appended, audit).
     rbind (enqueue_outbox nid (km_message_id (rv_message review)) canary_review_topic review_json review_sha256
              canary_outbox_producer t0 (cb_outbox db)) (\<lambda>(enqueued, outbox).
       Inr (db\<lparr>cb_audit := audit, cb_outbox := outbox\<rparr>)))"

definition other_armed :: "string \<Rightarrow> string \<Rightarrow> 'a canary_db_scheme \<Rightarrow> bool" where
  "other_armed account_id arm_id db =
     (case select_one (\<lambda>m. am_account_id m = account_id \<and> am_status m = ARM_ARMED) (cb_arms db) of
        None \<Rightarrow> False | Some active \<Rightarrow> am_arm_id active \<noteq> arm_id)"

definition arm_tx ::
  "canary_models \<Rightarrow> (string \<Rightarrow> string) \<Rightarrow> string \<Rightarrow> string \<Rightarrow> string \<Rightarrow> string \<Rightarrow> canary_review \<Rightarrow> canary_allocation
     \<Rightarrow> string \<Rightarrow> string \<Rightarrow> string \<Rightarrow> int \<Rightarrow> timestamp \<Rightarrow> timestamp \<Rightarrow> timestamp
     \<Rightarrow> 'a canary_db_scheme \<Rightarrow> 'a canary_db_scheme res" where
  "arm_tx models sha account_id session_id slot_id arm_id review allocation review_json review_sha256 allocation_sha256
       nid t0 now t1 db =
     (let db1 = expire_stale account_id t0 db in
      if other_armed account_id arm_id db1
      then Inl (ValueError ''another technical canary session is already armed for this account'')
      else rbind (store_arm arm_id account_id review allocation review_sha256 allocation_sha256 t0 db1) (\<lambda>db2.
           rbind (reserve_attempt models sha session_id slot_id account_id arm_id review now t1 db2) (\<lambda>(attempt, db3).
             publish_review review review_json review_sha256 nid t0 db3)))"

definition arm_document :: "string \<Rightarrow> canary_review \<Rightarrow> canary_allocation \<Rightarrow> json" where
  "arm_document account_id review allocation = JObj
     [(''account_id'', JStr account_id), (''allocation'', al_dump allocation),
      (''domain'', JStr ''kairos.paper-canary-arm.v1''), (''review'', rv_dump review)]"

text \<open>\<open>arm\<close>; the stored row is decoded after the transaction has committed.\<close>

definition arm_canary ::
  "canary_models \<Rightarrow> string \<Rightarrow> string \<Rightarrow> (string \<Rightarrow> string) \<Rightarrow> string \<Rightarrow> canary_review \<Rightarrow> canary_allocation
     \<Rightarrow> string option \<Rightarrow> string option \<Rightarrow> int \<Rightarrow> timestamp \<Rightarrow> timestamp \<Rightarrow> timestamp \<Rightarrow> 'a canary_db_scheme
     \<Rightarrow> paper_arm res \<times> 'a canary_db_scheme" where
  "arm_canary models bull bear sha account_id review allocation session_id slot_id nid t0 now t1 db =
     (if session_id \<in> {None, Some []} \<or> slot_id \<in> {None, Some []}
      then (Inl (CanaryAdmissionError ''a verified bounded canary session and slot are required''), db)
      else case rbind (validate_account account_id) (\<lambda>_.
           rbind (validate_binding bull bear sha review allocation) (\<lambda>_.
           rbind (validate_account_binding account_id review) (\<lambda>_.
           rbind (canonical_payload sha (rv_dump review)) (\<lambda>(review_json, review_sha256).
           rbind (canonical_payload sha (al_dump allocation)) (\<lambda>(allocation_json, allocation_sha256).
           rbind (canonical_payload sha (arm_document account_id review allocation)) (\<lambda>(arm_json, arm_digest).
           rbind (arm_tx models sha account_id (the session_id) (the slot_id) (sha arm_json) review allocation review_json
                    review_sha256 allocation_sha256 nid t0 now t1 db) (\<lambda>db'. Inr (sha arm_json, db')))))))) of
        Inl e \<Rightarrow> (Inl e, db)
      | Inr (arm_id, db') \<Rightarrow>
          (rbind (bound_record models sha arm_id db') (\<lambda>p. case p of
             None \<Rightarrow> Inl (TypeError ''NoneType object is not subscriptable'') | Some r \<Rightarrow> Inr r), db'))"

subsection \<open>Consuming\<close>

definition consumed_arm :: "timestamp \<Rightarrow> int \<Rightarrow> arm_row \<Rightarrow> arm_row" where
  "consumed_arm t0 decided_at_ms m =
     m\<lparr>am_status := ARM_CONSUMED, am_consumed_at := Some t0, am_decided_at_ms := Some decided_at_ms\<rparr>"

definition consumed_attempt :: "attempt_row \<Rightarrow> attempt_row" where
  "consumed_attempt a = a\<lparr>at_state := ATTEMPT_CONSUMED\<rparr>"

text \<open>The first consumption: the arm, its attempt and the session's progress.\<close>

definition spend_arm ::
  "arm_row \<Rightarrow> canary_review \<Rightarrow> string \<Rightarrow> timestamp \<Rightarrow> timestamp \<Rightarrow> timestamp \<Rightarrow> 'a canary_db_scheme
     \<Rightarrow> 'a canary_db_scheme res" where
  "spend_arm row review session_id t0 now t1 db =
     (let arm_id = am_arm_id row;
          decided_at_ms = max (rv_reviewed_at_ms review) (max (ci_entry_eligible_ts_ms (rv_intent review)) (millis now));
          fresh = (\<lambda>m. am_arm_id m = arm_id \<and> am_status m = ARM_ARMED)
      in if \<not> arm_check (consumed_arm t0 decided_at_ms row) then Inl (IntegrityError ''paper_canary_arms'')
         else if \<not> list_ex fresh (cb_arms db) then Inl (RuntimeError ''manual canary authorization lost its row lock'')
         else Inr (db\<lparr>cb_arms := update_where fresh (consumed_arm t0 decided_at_ms) (cb_arms db),
                cb_attempts := update_where (\<lambda>a. at_arm_id a = arm_id \<and> at_state a = ATTEMPT_ARMED) consumed_attempt
                  (cb_attempts db),
                cb_sessions := update_where (\<lambda>s. se_session_id s = session_id) (progressed t1) (cb_sessions db)\<rparr>))"

text \<open>The session an arm is bound to, and what is done with the locked row of the review.\<close>

definition arm_binding :: "string \<Rightarrow> 'a canary_db_scheme \<Rightarrow> session_row option" where
  "arm_binding arm_id db = (case arm_attempt arm_id db of
       None \<Rightarrow> None | Some attempt \<Rightarrow> session_at (at_session_id attempt) db)"

definition answer_arm ::
  "canary_models \<Rightarrow> (string \<Rightarrow> string) \<Rightarrow> string \<Rightarrow> 'a canary_db_scheme \<Rightarrow> (paper_arm option \<times> 'a canary_db_scheme) res" where
  "answer_arm models sha arm_id db = rbind (bound_record models sha arm_id db) (\<lambda>p. case p of
     None \<Rightarrow> Inl (TypeError ''NoneType object is not subscriptable'') | Some r \<Rightarrow> Inr (Some r, db))"

definition consume_row ::
  "canary_models \<Rightarrow> (string \<Rightarrow> string) \<Rightarrow> canary_review \<Rightarrow> arm_row \<Rightarrow> timestamp \<Rightarrow> timestamp \<Rightarrow> timestamp
     \<Rightarrow> 'a canary_db_scheme \<Rightarrow> (paper_arm option \<times> 'a canary_db_scheme) res" where
  "consume_row models sha review row t0 now t1 db =
     (case arm_binding (am_arm_id row) db of
        None \<Rightarrow> Inr (None, db)
      | Some session \<Rightarrow>
          if se_state session \<notin> set entry_states \<or> se_entry_deadline_at session \<le> now then Inr (None, db)
          else if am_status row = ARM_ARMED \<and> am_expires_at row < now
          then Inr (None, db\<lparr>cb_arms := update_where (\<lambda>m. am_arm_id m = am_arm_id row) expired_arm (cb_arms db)\<rparr>)
          else rbind (if am_status row = ARM_ARMED
                   then spend_arm row review (se_session_id session) t0 now t1 db else Inr db)
                 (answer_arm models sha (am_arm_id row)))"

definition consume_canary ::
  "canary_models \<Rightarrow> (string \<Rightarrow> string) \<Rightarrow> string \<Rightarrow> canary_review \<Rightarrow> timestamp \<Rightarrow> timestamp \<Rightarrow> timestamp
     \<Rightarrow> 'a canary_db_scheme \<Rightarrow> (paper_arm option \<times> 'a canary_db_scheme) res" where
  "consume_canary models sha account_id review t0 now t1 db =
     rbind (validate_account account_id) (\<lambda>_.
     rbind (validate_account_binding account_id review) (\<lambda>_.
     rbind (digest sha (rv_dump review)) (\<lambda>review_sha256.
     case select_one (\<lambda>m. am_account_id m = account_id \<and> am_review_id m = rv_review_id review) (cb_arms db) of
       None \<Rightarrow> Inr (None, db)
     | Some row \<Rightarrow>
         if am_review_sha256 row \<noteq> review_sha256
         then Inl (MessageIdentityConflict ''manual canary review_id was reused with different content'')
         else if am_status row = ARM_EXPIRED then Inr (None, db)
         else consume_row models sha review row t0 now t1 db)))"

end
