(* ===== verification/CanaryRuns.thy ===== *)
theory CanaryRuns
  imports CanaryArm "HOL-Library.Sublist"
begin

text \<open>
  Runs of the canary: every operation of \<open>CanarySessionRepository\<close> and \<open>PaperCanaryArmRepository\<close>, and
  steps in which the other components write their own tables. A step is a sequence of changes to the
  tables (\<open>canary_change\<close>); the invariants are proved for the changes and lifted to runs.
\<close>

subsection \<open>Operations\<close>

datatype canary_op =
    Begin_readonly canary_scope int string timestamp
  | Append_observation string readonly_observation timestamp
  | Certify string canary_scope timestamp
  | Arm_session string canary_scope bounded_plan string int timestamp
  | Refresh string timestamp timestamp
  | Stop string string timestamp
  | Bind_entry canary_decision canary_scope string timestamp
  | Dispatch canary_decision canary_scope string pyfloat timestamp timestamp
  | Arm string canary_review canary_allocation "string option" "string option" int timestamp timestamp timestamp
  | Consume string canary_review timestamp timestamp timestamp
  | Others "effect_row list" "trade_row list" "audit_row list" "outbox_row list"

definition others_wrote ::
  "effect_row list \<Rightarrow> trade_row list \<Rightarrow> audit_row list \<Rightarrow> outbox_row list \<Rightarrow> canary_db \<Rightarrow> canary_db" where
  "others_wrote effects trades audit outbox db =
     db\<lparr>ed_effects := effects, cb_trades := trades, cb_audit := audit, cb_outbox := outbox\<rparr>"

primrec canary_step ::
  "canary_models \<Rightarrow> string \<Rightarrow> string \<Rightarrow> (string \<Rightarrow> string) \<Rightarrow> canary_op \<Rightarrow> canary_db \<Rightarrow> canary_db" where
  "canary_step models bull bear sha (Begin_readonly scope period nonce now) db =
     settle db (begin_readonly models sha scope period nonce now db)"
| "canary_step models bull bear sha (Append_observation run_id observation now) db =
     settle db (append_observation models sha run_id observation now db)"
| "canary_step models bull bear sha (Certify run_id scope now) db = settle db (certify_readonly models sha run_id scope now db)"
| "canary_step models bull bear sha (Arm_session receipt_id scope plan nonce age now) db =
     settle db (arm_session models sha receipt_id scope plan nonce age now db)"
| "canary_step models bull bear sha (Refresh session_id now t1) db = snd (refresh models sha session_id now t1 db)"
| "canary_step models bull bear sha (Stop session_id reason now) db = settle db (stop_session sha session_id reason now db)"
| "canary_step models bull bear sha (Bind_entry decision scope effect_id now) db =
     settle db (bind_entry models sha decision scope effect_id now db)"
| "canary_step models bull bear sha (Dispatch decision scope effect_id hold now t1) db =
     snd (final_dispatch models sha decision scope effect_id hold now t1 db)"
| "canary_step models bull bear sha (Arm account review allocation session_id slot_id nid t0 now t1) db =
     snd (arm_canary models bull bear sha account review allocation session_id slot_id nid t0 now t1 db)"
| "canary_step models bull bear sha (Consume account review t0 now t1) db =
     settle db (consume_canary models sha account review t0 now t1 db)"
| "canary_step models bull bear sha (Others effects trades audit outbox) db = others_wrote effects trades audit outbox db"

text \<open>The entries a run hands to the venue: what \<open>final_dispatch\<close> yields, in order.\<close>

definition yielded ::
  "canary_models \<Rightarrow> (string \<Rightarrow> string) \<Rightarrow> canary_op \<Rightarrow> canary_db \<Rightarrow> entry_binding list" where
  "yielded models sha op db = (case op of
       Dispatch decision scope effect_id hold now t1 \<Rightarrow>
         (case fst (final_dispatch models sha decision scope effect_id hold now t1 db) of Inl e \<Rightarrow> [] | Inr b \<Rightarrow> [b])
     | _ \<Rightarrow> [])"

fun dispatched ::
  "canary_models \<Rightarrow> string \<Rightarrow> string \<Rightarrow> (string \<Rightarrow> string) \<Rightarrow> canary_op list \<Rightarrow> canary_db \<Rightarrow> entry_binding list" where
  "dispatched models bull bear sha [] db = []"
| "dispatched models bull bear sha (op # ops) db =
     yielded models sha op db @ dispatched models bull bear sha ops (canary_step models bull bear sha op db)"

definition empty_canary :: "string \<Rightarrow> canary_db" where
  "empty_canary instance_id = \<lparr>ed_instance_id = instance_id, ed_runs = [], ed_samples = [], ed_receipts = [],
     ed_effects = [], cb_sessions = [], cb_attempts = [], cb_claims = [], cb_arms = [], cb_trades = [],
     cb_audit = [], cb_outbox = []\<rparr>"

subsection \<open>Changes\<close>

definition attempts_of :: "string \<Rightarrow> 'a canary_db_scheme \<Rightarrow> attempt_row list" where
  "attempts_of session_id db = filter (\<lambda>a. at_session_id a = session_id) (cb_attempts db)"

text \<open>Columns of an attempt that no operation changes.\<close>

definition same_attempt :: "attempt_row \<Rightarrow> attempt_row \<Rightarrow> bool" where
  "same_attempt a b \<longleftrightarrow> at_attempt_id b = at_attempt_id a \<and> at_session_id b = at_session_id a \<and>
     at_ordinal b = at_ordinal a \<and> at_slot_id b = at_slot_id a \<and> at_arm_id b = at_arm_id a \<and>
     at_review_id b = at_review_id a \<and> at_intent_id b = at_intent_id a \<and> at_symbol b = at_symbol a \<and>
     at_reserved_at b = at_reserved_at a \<and> (outstanding b \<longrightarrow> outstanding a)"

text \<open>How an \<open>UPDATE\<close> of the arms may treat a row: an unspent authorization expires or is consumed.\<close>

definition arm_move :: "arm_row \<Rightarrow> arm_row \<Rightarrow> bool" where
  "arm_move m m' \<longleftrightarrow> (am_status m \<in> {ARM_ARMED, ARM_EXPIRED} \<and> m' = expired_arm m) \<or>
     (am_status m = ARM_ARMED \<and> (\<exists>t0 d. m' = consumed_arm t0 d m))"

inductive canary_change :: "canary_models \<Rightarrow> canary_db \<Rightarrow> canary_db \<Rightarrow> bool" for models :: canary_models where
  elsewhere: "\<lbrakk>cb_sessions db' = cb_sessions db; cb_attempts db' = cb_attempts db; cb_claims db' = cb_claims db;
      cb_arms db' = cb_arms db\<rbrakk> \<Longrightarrow> canary_change models db db'"
| opened: "\<lbrakk>insert_session row db = Inr db'; se_state row = SESSION_ARMED; se_attempts_reserved row = 0;
      se_stop_reason row = None\<rbrakk> \<Longrightarrow> canary_change models db db'"
| touched: "db' = db\<lparr>cb_sessions := update_where (\<lambda>s. se_session_id s = sid) (progressed t) (cb_sessions db)\<rparr>
      \<Longrightarrow> canary_change models db db'"
| drained_entry: "\<lbrakk>s \<in> set (cb_sessions db); se_state s \<in> set entry_states;
      db' = db\<lparr>cb_sessions := update_where (\<lambda>r. se_session_id r = se_session_id s) (drained reason t) (cb_sessions db)\<rparr>\<rbrakk>
      \<Longrightarrow> canary_change models db db'"
| closed_session: "\<lbrakk>\<not> pending_attempt sid db;
      db' = db\<lparr>cb_sessions := update_where (\<lambda>s. se_session_id s = sid \<and> closable s) (closed t) (cb_sessions db)\<rparr>\<rbrakk>
      \<Longrightarrow> canary_change models db db'"
| reserved: "\<lbrakk>s \<in> set (cb_sessions db); se_state s \<in> set entry_states; \<not> pending_attempt (se_session_id s) db;
      at_session_id row = se_session_id s; at_ordinal row = se_attempts_reserved s + 1; at_ordinal row \<le> se_max_attempts s;
      decode_plan models (se_plan s) = Some plan; at_ordinal row \<le> int (length (bp_slots plan));
      at_slot_id row = sl_slot_id (bp_slots plan ! nat (at_ordinal row - 1)); insert_attempt row db = Inr db1;
      db' = db1\<lparr>cb_sessions := update_where (\<lambda>r. se_session_id r = se_session_id s) (charged (at_ordinal row) t)
        (cb_sessions db1)\<rparr>\<rbrakk> \<Longrightarrow> canary_change models db db'"
| settled: "\<lbrakk>\<And>a. a \<in> set (cb_attempts db) \<Longrightarrow> P a \<Longrightarrow> same_attempt a (f a);
      db' = db\<lparr>cb_attempts := update_where P f (cb_attempts db)\<rparr>\<rbrakk> \<Longrightarrow> canary_change models db db'"
| stored_arm: "insert_arm row db = Inr db' \<Longrightarrow> am_status row = ARM_ARMED \<Longrightarrow> canary_change models db db'"
| moved_arm: "\<lbrakk>\<And>m. m \<in> set (cb_arms db) \<Longrightarrow> P m \<Longrightarrow> arm_move m (f m);
      db' = db\<lparr>cb_arms := update_where P f (cb_arms db)\<rparr>\<rbrakk> \<Longrightarrow> canary_change models db db'"
| claimed: "\<lbrakk>insert_claim c db = Inr db'; a \<in> set (cb_attempts db); at_attempt_id a = cl_attempt_id c;
      at_session_id a = cl_session_id c; s \<in> set (cb_sessions db); se_session_id s = cl_session_id c;
      se_state s = SESSION_RUNNING\<rbrakk> \<Longrightarrow> canary_change models db db'"

abbreviation "canary_changes models \<equiv> (canary_change models)\<^sup>*\<^sup>*"

lemmas one_change = r_into_rtranclp [where r = "canary_change models" for models]

lemma changes_step: "canary_changes models a b \<Longrightarrow> canary_change models b c \<Longrightarrow> canary_changes models a c"
  by (rule rtranclp.rtrancl_into_rtrancl)

lemma progressed_twice [simp]: "progressed t (progressed t' s) = progressed t s"
  by (simp add: progressed_def)

lemma progressed_simps [simp]:
  "se_session_id (progressed t s) = se_session_id s" "se_state (progressed t s) = se_state s"
  "se_attempts_reserved (progressed t s) = se_attempts_reserved s" "se_max_attempts (progressed t s) = se_max_attempts s"
  "se_plan (progressed t s) = se_plan s" "se_scope (progressed t s) = se_scope s"
  "se_stop_reason (progressed t s) = se_stop_reason s" "se_receipt_id (progressed t s) = se_receipt_id s"
  "se_remote_account_id (progressed t s) = se_remote_account_id s"
  by (simp_all add: progressed_def)

lemma refresh_attempt_cases:
  assumes "refresh_attempt models sha sid scope t row db = Inr db'"
  obtains (expired) "db' = db\<lparr>cb_arms := update_where (expiring_arm (at_arm_id row) t) expired_arm (cb_arms db),
        cb_attempts := update_where (\<lambda>a. at_attempt_id a = at_attempt_id row) (terminal_attempt t ''ENTRY_EXPIRED'') (cb_attempts db)\<rparr>"
  | (same) "db' = db"
  | (decided) reason d k where "db' = db\<lparr>cb_attempts := update_where (\<lambda>a. at_attempt_id a = at_attempt_id row)
        (settled_attempt t reason d k) (cb_attempts db),
      cb_sessions := update_where (\<lambda>s. se_session_id s = sid) (progressed t) (cb_sessions db)\<rparr>"
proof (cases "list_ex (expiring_arm (at_arm_id row) t) (cb_arms db)")
  case True
  with assms show ?thesis by (intro expired) (simp add: refresh_attempt_def)
next
  case False
  with assms obtain unique where "unique_payloads sha (recorded_decisions (at_review_id row) db) [] = Inr unique"
    by (cases "unique_payloads sha (recorded_decisions (at_review_id row) db) []") (simp_all add: refresh_attempt_def)
  with assms False have "db' = db \<or> (\<exists>p. settle_decided models sid scope t row p db = Inr db')"
    by (auto simp: refresh_attempt_def split: list.splits)
  then show ?thesis
    by (auto simp: settle_decided_def rbind_eq_Inr split: if_splits option.splits intro: same decided)
qed

lemma progressed_mem:
  assumes "s \<in> set (cb_sessions db)"
  shows "\<exists>t'. progressed t' s \<in> set (cb_sessions db)"
proof -
  have "progressed (se_last_progress_at s) s = s" by (simp add: progressed_def)
  with assms show ?thesis by metis
qed

lemma refresh_attempt_session:
  assumes "refresh_attempt models sha sid scope t row db = Inr db'" and s: "s \<in> set (cb_sessions db)"
  shows "\<exists>t'. progressed t' s \<in> set (cb_sessions db')"
  using assms(1)
proof (cases rule: refresh_attempt_cases)
  case (decided reason d k)
  then have "(if se_session_id s = sid then progressed t s else s) \<in> set (cb_sessions db')"
    using s by (auto simp: update_where_def)
  moreover have "\<exists>t'. progressed t' s = (if se_session_id s = sid then progressed t s else s)"
    using progressed_mem [of s db] s by (cases "se_session_id s = sid") (auto intro: exI [of _ "se_last_progress_at s"] simp: progressed_def)
  ultimately show ?thesis by metis
qed (use progressed_mem [of s db] s in simp_all)

lemma refresh_rows_session:
  "refresh_rows models sha sid scope t rows db = Inr db' \<Longrightarrow> s \<in> set (cb_sessions db) \<Longrightarrow>
     \<exists>t'. progressed t' s \<in> set (cb_sessions db')"
proof (induction rows arbitrary: db s)
  case Nil
  then show ?case by (auto intro!: exI [of _ "se_last_progress_at s"] simp: progressed_def)
next
  case (Cons row rows)
  then obtain db1 where db1: "refresh_attempt models sha sid scope t row db = Inr db1"
      "refresh_rows models sha sid scope t rows db1 = Inr db'" by (auto simp: rbind_eq_Inr)
  from refresh_attempt_session [OF db1(1) Cons.prems(2)] obtain t1 where "progressed t1 s \<in> set (cb_sessions db1)" ..
  from Cons.IH [OF db1(2) this] show ?case by simp
qed

lemma same_attempt_refl [simp]: "same_attempt a a"
  by (simp add: same_attempt_def)

lemma same_attempt_updates:
  "same_attempt a (terminal_attempt t reason a)" "same_attempt a (settled_attempt t reason d k a)"
  "same_attempt a (bound_attempt decision effect_id a)" "at_state a = ATTEMPT_ARMED \<Longrightarrow> same_attempt a (consumed_attempt a)"
  by (simp_all add: same_attempt_def terminal_attempt_def settled_attempt_def bound_attempt_def consumed_attempt_def
      outstanding_def)

lemma expiring_arm_move: "expiring_arm k t m \<Longrightarrow> arm_move m (expired_arm m)"
  by (auto simp: expiring_arm_def arm_move_def)

lemma refresh_attempt_changes:
  assumes "refresh_attempt models sha sid scope t row db = Inr db'"
  shows "canary_changes models db db'"
  using assms
proof (cases rule: refresh_attempt_cases)
  case expired
  let ?d = "db\<lparr>cb_arms := update_where (expiring_arm (at_arm_id row) t) expired_arm (cb_arms db)\<rparr>"
  have "canary_change models db ?d" by (rule moved_arm [OF _ refl]) (rule expiring_arm_move)
  moreover have "canary_change models ?d db'"
    by (rule settled [where P = "\<lambda>a. at_attempt_id a = at_attempt_id row" and f = "terminal_attempt t ''ENTRY_EXPIRED''"])
      (simp_all add: expired same_attempt_updates)
  ultimately show ?thesis by (meson one_change changes_step)
next
  case (decided reason d k)
  let ?d = "db\<lparr>cb_attempts := update_where (\<lambda>a. at_attempt_id a = at_attempt_id row) (settled_attempt t reason d k) (cb_attempts db)\<rparr>"
  have "canary_change models db ?d" by (rule settled [OF _ refl]) (rule same_attempt_updates)
  moreover have "canary_change models ?d db'" by (rule touched [where sid = sid and t = t]) (simp add: decided)
  ultimately show ?thesis by (meson one_change changes_step)
qed simp

lemma refresh_rows_changes:
  "refresh_rows models sha sid scope t rows db = Inr db' \<Longrightarrow> canary_changes models db db'"
proof (induction rows arbitrary: db)
  case (Cons row rows)
  then obtain db1 where "refresh_attempt models sha sid scope t row db = Inr db1"
      "refresh_rows models sha sid scope t rows db1 = Inr db'" by (auto simp: rbind_eq_Inr)
  then show ?case using refresh_attempt_changes Cons.IH by (meson rtranclp_trans)
qed simp

lemma session_at_mem: "session_at sid db = Some s \<Longrightarrow> s \<in> set (cb_sessions db) \<and> se_session_id s = sid"
  unfolding session_at_def by (rule select_one_SomeD)

lemma checked_session_Inr [returned]: "checked_session sha s = Inr r \<Longrightarrow> r = s"
  by (auto simp: checked_session_def rbind_eq_Inr)

subsection \<open>Every operation is a sequence of changes\<close>

lemma begin_readonly_elsewhere:
  "begin_readonly models sha scope period nonce now db = Inr (x, db') \<Longrightarrow> canary_changes models db db'"
  by (rule one_change, rule elsewhere)
    (auto simp: begin_readonly_def rbind_eq_Inr Let_def split: if_splits)

lemma append_observation_elsewhere:
  "append_observation models sha run_id obs now db = Inr (x, db') \<Longrightarrow> canary_changes models db db'"
  by (rule one_change, rule elsewhere)
    (auto simp: append_observation_def rbind_eq_Inr Let_def split: if_splits option.splits)

lemma insert_receipt_elsewhere:
  "insert_receipt row db = Inr db' \<Longrightarrow> cb_sessions db' = cb_sessions db \<and> cb_attempts db' = cb_attempts db \<and>
     cb_claims db' = cb_claims db \<and> cb_arms db' = cb_arms db"
  by (auto simp: insert_receipt_def split: if_splits)

lemma certify_elsewhere:
  assumes "certify_readonly models sha run_id scope now db = Inr (x, db')"
  shows "canary_changes models db db'"
proof -
  from assms obtain row db1 where "insert_receipt row db = Inr db1"
      "db' = db1\<lparr>ed_runs := update_where (\<lambda>r. rr_run_id r = run_id) certified_run (ed_runs db1)\<rparr>"
    unfolding certify_readonly_def Let_def by (auto simp: rbind_eq_Inr split: option.splits if_splits)
  then show ?thesis using insert_receipt_elsewhere [of row db db1] by (intro one_change elsewhere) simp_all
qed

lemma arm_session_changes:
  assumes "arm_session models sha receipt_id scope plan nonce age now db = Inr (x, db')"
  shows "canary_changes models db db'"
proof -
  have "db' = db \<or> (\<exists>row. insert_session row db = Inr db' \<and> se_state row = SESSION_ARMED \<and>
      se_attempts_reserved row = 0 \<and> se_stop_reason row = None)"
    using assms unfolding arm_session_def admit_session_def Let_def armed_session_def
    by (auto simp: rbind_eq_Inr split: option.splits if_splits prod.splits)
  then show ?thesis by (auto intro: one_change opened)
qed

lemma stop_changes:
  assumes "stop_session sha sid reason now db = Inr (x, db')"
  shows "canary_changes models db db'"
proof -
  obtain s where s: "session_at sid db = Some s"
    using assms by (auto simp: stop_session_def split: if_splits option.splits)
  note m = session_at_mem [OF s]
  show ?thesis
  proof (cases "se_state s \<in> set entry_states")
    case True
    with assms s have "db' = db\<lparr>cb_sessions := update_where (\<lambda>s. se_session_id s = sid) (drained reason now) (cb_sessions db)\<rparr>"
      by (auto simp: stop_session_def rbind_eq_Inr split: if_splits)
    with m True show ?thesis by (intro one_change drained_entry [of s]) auto
  next
    case False
    with assms s have "db' = db" by (auto simp: stop_session_def rbind_eq_Inr split: if_splits)
    then show ?thesis by simp
  qed
qed

lemma refresh_tx_changes:
  assumes "refresh_tx models sha sid now t1 db = Inr db'"
  shows "canary_changes models db db'"
proof -
  obtain s scope db1 where s: "session_at sid db = Some s"
      and r: "refresh_attempts models sha sid scope now db = Inr db1"
      and db': "db' = (let db2 = (if se_state s \<in> set entry_states \<and> se_entry_deadline_at s \<le> t1
                  then db1\<lparr>cb_sessions := update_where (\<lambda>s. se_session_id s = sid)
                         (drained ''SESSION_DEADLINE'' t1) (cb_sessions db1)\<rparr> else db1)
            in if pending_attempt sid db2 then db2
                 else db2\<lparr>cb_sessions := update_where (\<lambda>s. se_session_id s = sid \<and> closable s) (closed t1) (cb_sessions db2)\<rparr>)"
    using assms by (auto simp: refresh_tx_def rbind_eq_Inr Let_def split: option.splits)
  note m = session_at_mem [OF s]
  have c1: "canary_changes models db db1" using r unfolding refresh_attempts_def by (rule refresh_rows_changes)
  obtain t' where p: "progressed t' s \<in> set (cb_sessions db1)"
    using refresh_rows_session [OF r [unfolded refresh_attempts_def]] m by blast
  define db2 where "db2 = (if se_state s \<in> set entry_states \<and> se_entry_deadline_at s \<le> t1
      then db1\<lparr>cb_sessions := update_where (\<lambda>s. se_session_id s = sid) (drained ''SESSION_DEADLINE'' t1) (cb_sessions db1)\<rparr>
      else db1)"
  have c2: "canary_changes models db1 db2"
  proof (cases "se_state s \<in> set entry_states \<and> se_entry_deadline_at s \<le> t1")
    case True
    with p m have "canary_change models db1 db2"
      by (intro drained_entry [of "progressed t' s"]) (simp_all add: db2_def)
    then show ?thesis by (rule one_change)
  qed (auto simp: db2_def)
  have "canary_changes models db2 db'"
  proof (cases "pending_attempt sid db2")
    case False
    have "canary_change models db2 db'" by (rule closed_session [OF False]) (simp add: db' Let_def db2_def [symmetric] False)
    then show ?thesis by (rule one_change)
  qed (simp add: db' Let_def db2_def [symmetric])
  with c1 c2 show ?thesis by (meson rtranclp_trans)
qed

text \<open>What an active entry binding has found.\<close>

lemma entry_binding_active:
  assumes "entry_binding_tx models sha decision0 scope0 effect_id True now db = Inr (b, db')"
  obtains decision attempt session where "attempt \<in> set (cb_attempts db)" and "session \<in> set (cb_sessions db)"
    and "se_session_id session = at_session_id attempt" and "entry_eligible session attempt decision now"
    and "eb_attempt_id b = at_attempt_id attempt" and "eb_session_id b = at_session_id attempt" and "eb_effect_id b = effect_id"
    and "eb_entry_deadline_at b = entry_deadline session decision" and "eb_dispatch_claimed b = (claim_of (at_attempt_id attempt) db \<noteq> None)"
    and "db' = db\<lparr>cb_attempts := update_where (\<lambda>a. at_attempt_id a = at_attempt_id attempt) (bound_attempt decision effect_id)
           (cb_attempts db)\<rparr>"
proof -
  from assms obtain decision attempt session arm where
      e: "entry_rows (rv_review_id (cd_review decision)) db = Some (attempt, session, arm)"
      and b: "bind_attempt decision effect_id True attempt session now db = Inr (b, db')"
    unfolding entry_binding_tx_def by (auto simp: rbind_eq_Inr split: option.splits)
  note s = entry_rows_Some(3) [OF e]
  have "attempt \<in> set (cb_attempts db)" using entry_rows_Some(1) [OF e] .
  moreover have "claim_of k (db\<lparr>cb_attempts := t\<rparr>) = claim_of k db" for k t by (simp add: claim_of_def)
  ultimately show ?thesis
    using b session_at_mem [OF s]
    by (intro that [of attempt session decision])
      (auto simp: bind_attempt_def rbind_eq_Inr Let_def split: if_splits)
qed

lemma bound_change:
  "canary_change models db (db\<lparr>cb_attempts := update_where (\<lambda>a. at_attempt_id a = k) (bound_attempt decision effect_id) (cb_attempts db)\<rparr>)"
  by (rule settled [OF _ refl]) (rule same_attempt_updates)

lemma bind_entry_changes:
  assumes "bind_entry models sha decision scope effect_id now db = Inr (x, db')"
  shows "canary_changes models db db'"
  using assms unfolding bind_entry_def
  by (rule entry_binding_active) (use bound_change in blast)

lemma insert_claim_Inr:
  "insert_claim c db = Inr db' \<Longrightarrow> db' = db\<lparr>cb_claims := insert_row c (cb_claims db)\<rparr> \<and>
     cl_effect_id c \<notin> cl_effect_id ` set (cb_claims db) \<and> cl_attempt_id c \<notin> cl_attempt_id ` set (cb_claims db)"
  by (auto simp: insert_claim_def split: if_splits)

lemma claim_dispatch_claimed:
  assumes "claim_dispatch models sha decision0 scope0 effect_id now db = Inr (b, db')"
  obtains decision attempt session c db1 db2 where "attempt \<in> set (cb_attempts db)" and "session \<in> set (cb_sessions db)"
    and "se_session_id session = at_session_id attempt" and "entry_eligible session attempt decision now"
    and "eb_attempt_id b = at_attempt_id attempt" and "eb_session_id b = at_session_id attempt" and "eb_effect_id b = effect_id"
    and "eb_entry_deadline_at b = entry_deadline session decision"
    and "db1 = db\<lparr>cb_attempts := update_where (\<lambda>a. at_attempt_id a = at_attempt_id attempt) (bound_attempt decision effect_id)
           (cb_attempts db)\<rparr>"
    and "insert_claim c db1 = Inr db2" and "cl_attempt_id c = eb_attempt_id b" and "cl_session_id c = eb_session_id b"
    and "cl_effect_id c = eb_effect_id b" and "cl_claimed_at c = now"
    and "db' = db2\<lparr>cb_sessions := update_where (\<lambda>s. se_session_id s = eb_session_id b) (progressed now) (cb_sessions db2)\<rparr>"
proof -
  from assms obtain c db1 db2 where bind: "entry_binding_tx models sha decision0 scope0 effect_id True now db = Inr (b, db1)"
      and c: "insert_claim c db1 = Inr db2" "cl_attempt_id c = eb_attempt_id b" "cl_session_id c = eb_session_id b"
        "cl_effect_id c = effect_id" "cl_claimed_at c = now"
      and db': "db' = db2\<lparr>cb_sessions := update_where (\<lambda>s. se_session_id s = eb_session_id b) (progressed now) (cb_sessions db2)\<rparr>"
    unfolding claim_dispatch_def by (auto simp: rbind_eq_Inr split: if_splits)
  from bind show ?thesis
    by (rule entry_binding_active) (use that c db' in \<open>simp\<close>)
qed

lemma claim_dispatch_changes:
  assumes "claim_dispatch models sha decision0 scope0 effect_id now db = Inr (b, db')"
  shows "canary_changes models db db'"
  using assms
proof (rule claim_dispatch_claimed)
  fix decision attempt session c db1 db2
  assume f: "attempt \<in> set (cb_attempts db)" "session \<in> set (cb_sessions db)" "se_session_id session = at_session_id attempt"
    "entry_eligible session attempt decision now" "eb_attempt_id b = at_attempt_id attempt" "eb_session_id b = at_session_id attempt"
    "db1 = db\<lparr>cb_attempts := update_where (\<lambda>a. at_attempt_id a = at_attempt_id attempt) (bound_attempt decision effect_id) (cb_attempts db)\<rparr>"
    "insert_claim c db1 = Inr db2" "cl_attempt_id c = eb_attempt_id b" "cl_session_id c = eb_session_id b"
    "db' = db2\<lparr>cb_sessions := update_where (\<lambda>s. se_session_id s = eb_session_id b) (progressed now) (cb_sessions db2)\<rparr>"
  have "bound_attempt decision effect_id attempt \<in> set (cb_attempts db1)"
    unfolding f(7) by (simp add: updated_row_mem f(1))
  then have "canary_change models db1 db2"
    by (rule claimed [OF f(8), where s = session]) (use f in \<open>simp_all add: bound_attempt_def entry_eligible_def\<close>)
  moreover have "canary_change models db db1" unfolding f(7) by (rule bound_change)
  moreover have "canary_change models db2 db'" by (rule touched) (rule f(11))
  ultimately show ?thesis by (meson one_change changes_step)
qed

lemma final_dispatch_outcome:
  assumes "final_dispatch models sha decision scope effect_id hold now t1 db = (r, db')"
  shows "db' = db \<and> (\<exists>e. r = Inl e) \<or> (\<exists>b. claim_dispatch models sha decision scope effect_id now db = Inr (b, db') \<and>
      (\<forall>b'. r = Inr b' \<longrightarrow> b' = b\<lparr>eb_dispatch_claimed := True\<rparr> \<and> t1 < eb_entry_deadline_at b))"
  using assms unfolding final_dispatch_def by (auto split: if_splits sum.splits)

lemma final_dispatch_changes: "canary_changes models db (snd (final_dispatch models sha decision scope effect_id hold now t1 db))"
proof -
  obtain r db' where f: "final_dispatch models sha decision scope effect_id hold now t1 db = (r, db')" by fastforce
  from final_dispatch_outcome [OF f] show ?thesis using claim_dispatch_changes f by fastforce
qed

subsection \<open>The arms\<close>

lemma reserve_fresh_changes:
  assumes "reserve_fresh models sha session scope plan slot arm_id review now t1 db = Inr (row, db')"
    and s: "session \<in> set (cb_sessions db)" and plan: "decode_plan models (se_plan session) = Some plan"
  shows "canary_changes models db db'"
proof -
  from assms(1) obtain db1 db2 where entry: "se_state session \<in> set entry_states"
      and r: "refresh_attempts models sha (se_session_id session) scope t1 db = Inr db1"
      and pend: "\<not> pending_attempt (se_session_id session) db1"
      and cap: "se_attempts_reserved session + 1 \<le> se_max_attempts session" "se_attempts_reserved session + 1 \<le> int (length (bp_slots plan))"
      and slot: "sl_slot_id (bp_slots plan ! nat (se_attempts_reserved session)) = sl_slot_id slot"
      and row: "at_session_id row = se_session_id session" "at_ordinal row = se_attempts_reserved session + 1" "at_slot_id row = sl_slot_id slot"
      and ins: "insert_attempt row db1 = Inr db2"
      and db': "db' = db2\<lparr>cb_sessions := update_where (\<lambda>s. se_session_id s = se_session_id session)
            (charged (se_attempts_reserved session + 1) t1) (cb_sessions db2)\<rparr>"
    unfolding reserve_fresh_def Let_def by (auto simp: rbind_eq_Inr armed_attempt_def split: if_splits)
  have "canary_changes models db db1" using r unfolding refresh_attempts_def by (rule refresh_rows_changes)
  moreover obtain t' where "progressed t' session \<in> set (cb_sessions db1)"
    using refresh_rows_session [OF r [unfolded refresh_attempts_def] s] by blast
  then have "canary_change models db1 db'"
    by (rule reserved [where row = row and plan = plan and t = t1]) (use entry pend cap slot row ins db' plan in simp_all)
  ultimately show ?thesis by (rule changes_step)
qed

lemma reserve_attempt_changes:
  assumes "reserve_attempt models sha sid slot_id account arm_id review now t1 db = Inr (row, db')"
  shows "canary_changes models db db'"
proof -
  obtain s where s: "session_at sid db = Some s" using assms by (auto simp: reserve_attempt_def split: option.splits)
  with assms have "db' = db \<or> (\<exists>scope plan slot. decode_plan models (se_plan s) = Some plan \<and>
      reserve_fresh models sha s scope plan slot arm_id review now t1 db = Inr (row, db'))"
    unfolding reserve_attempt_def
    by (cases "select_one (\<lambda>a. at_session_id a = sid \<and> at_slot_id a = slot_id) (cb_attempts db)")
      (auto simp: returned dest: checked_session_Inr split: if_splits)
  then show ?thesis using reserve_fresh_changes session_at_mem [OF s] by blast
qed

lemma store_arm_changes:
  assumes "store_arm arm_id account review allocation rs as t0 db = Inr db'"
  shows "canary_changes models db db'"
proof -
  have "db' = db \<or> (\<exists>row. insert_arm row db = Inr db' \<and> am_status row = ARM_ARMED)"
    using assms unfolding store_arm_def Let_def fresh_arm_def by (auto simp: rbind_eq_Inr split: option.splits if_splits)
  then show ?thesis by (auto intro: one_change stored_arm)
qed

lemma expire_stale_changes: "canary_changes models db (expire_stale account t0 db)"
  unfolding expire_stale_def
  by (rule one_change, rule moved_arm [OF _ refl]) (auto simp: stale_arm_def arm_move_def)

lemma publish_review_elsewhere:
  "publish_review review j s nid t0 db = Inr db' \<Longrightarrow> canary_changes models db db'"
  by (rule one_change, rule elsewhere) (auto simp: publish_review_def rbind_eq_Inr)

lemma arm_tx_changes:
  assumes "arm_tx models sha account sid slot_id arm_id review allocation j rs as nid t0 now t1 db = Inr db'"
  shows "canary_changes models db db'"
proof -
  from assms obtain db2 row db3 where
      "store_arm arm_id account review allocation rs as t0 (expire_stale account t0 db) = Inr db2"
      "reserve_attempt models sha sid slot_id account arm_id review now t1 db2 = Inr (row, db3)"
      "publish_review review j rs nid t0 db3 = Inr db'"
    unfolding arm_tx_def Let_def by (auto simp: rbind_eq_Inr split: if_splits)
  then show ?thesis
    using expire_stale_changes store_arm_changes reserve_attempt_changes publish_review_elsewhere by (meson rtranclp_trans)
qed

lemma arm_canary_changes:
  "canary_changes models db (snd (arm_canary models bull bear sha account review allocation sid slot_id nid t0 now t1 db))"
  unfolding arm_canary_def
  by (auto simp: rbind_eq_Inr dest: arm_tx_changes split: sum.split)

lemma spend_arm_changes:
  assumes "spend_arm row review sid t0 now t1 db = Inr db'"
  shows "canary_changes models db db'"
proof -
  define d where "d = max (rv_reviewed_at_ms review) (max (ci_entry_eligible_ts_ms (rv_intent review)) (millis now))"
  define P where "P = (\<lambda>m :: arm_row. am_arm_id m = am_arm_id row \<and> am_status m = ARM_ARMED)"
  define Q where "Q = (\<lambda>a :: attempt_row. at_arm_id a = am_arm_id row \<and> at_state a = ATTEMPT_ARMED)"
  let ?d1 = "db\<lparr>cb_arms := update_where P (consumed_arm t0 d) (cb_arms db)\<rparr>"
  let ?d2 = "?d1\<lparr>cb_attempts := update_where Q consumed_attempt (cb_attempts ?d1)\<rparr>"
  have "canary_change models db ?d1" by (rule moved_arm [OF _ refl]) (auto simp: P_def arm_move_def)
  moreover have "canary_change models ?d1 ?d2"
    by (rule settled [OF _ refl]) (auto simp: Q_def same_attempt_updates)
  moreover have "canary_change models ?d2 db'"
    by (rule touched [where sid = sid and t = t1])
      (use assms in \<open>auto simp: spend_arm_def Let_def d_def P_def Q_def split: if_splits\<close>)
  ultimately show ?thesis by (meson one_change changes_step)
qed

lemma answer_arm_same: "answer_arm models sha k db = Inr (p, db') \<Longrightarrow> db' = db"
  by (auto simp: answer_arm_def returned split: option.splits)

lemma consume_row_changes:
  assumes c: "consume_row models sha review row t0 now t1 db = Inr (p, db')" and row: "row \<in> set (cb_arms db)"
    and u: "unique_by am_arm_id (cb_arms db)"
  shows "canary_changes models db db'"
proof -
  let ?e = "db\<lparr>cb_arms := update_where (\<lambda>m. am_arm_id m = am_arm_id row) expired_arm (cb_arms db)\<rparr>"
  have "db' = db \<or> (am_status row = ARM_ARMED \<and> db' = ?e) \<or> (\<exists>sid. spend_arm row review sid t0 now t1 db = Inr db')"
    using c unfolding consume_row_def
    by (cases "arm_binding (am_arm_id row) db") (auto simp: rbind_eq_Inr dest: answer_arm_same split: if_splits)
  moreover have "canary_changes models db ?e" if "am_status row = ARM_ARMED"
    by (rule one_change, rule moved_arm [OF _ refl]) (use unique_by_eq [OF u _ row] that in \<open>auto simp: arm_move_def\<close>)
  ultimately show ?thesis using spend_arm_changes by auto
qed

lemma consume_changes:
  assumes c: "consume_canary models sha account review t0 now t1 db = Inr (p, db')" and u: "unique_by am_arm_id (cb_arms db)"
  shows "canary_changes models db db'"
proof (cases "select_one (\<lambda>m. am_account_id m = account \<and> am_review_id m = rv_review_id review) (cb_arms db)")
  case None
  with c show ?thesis by (auto simp: consume_canary_def rbind_eq_Inr)
next
  case (Some row)
  with c have "db' = db \<or> consume_row models sha review row t0 now t1 db = Inr (p, db')"
    by (auto simp: consume_canary_def rbind_eq_Inr split: if_splits)
  then show ?thesis using consume_row_changes [OF _ _ u] select_one_SomeD [OF Some] by auto
qed

text \<open>Every step is a sequence of changes.\<close>

lemma canary_step_changes:
  assumes "unique_by am_arm_id (cb_arms db)"
  shows "canary_changes models db (canary_step models bull bear sha op db)"
proof -
  have s: "canary_changes models db (settle db r)"
    if "\<And>x db'. r = Inr (x, db') \<Longrightarrow> canary_changes models db db'" for r :: "('x \<times> canary_db) res"
    using that by (auto intro: settle_cases)
  show ?thesis
  proof (cases op)
    case (Refresh sid now t1)
    then show ?thesis by (auto simp: refresh_def dest: refresh_tx_changes split: sum.split)
  next
    case (Others effects trades audit outbox)
    then show ?thesis by (auto simp: others_wrote_def intro!: one_change elsewhere)
  qed (simp_all add: s begin_readonly_elsewhere append_observation_elsewhere certify_elsewhere arm_session_changes
      stop_changes bind_entry_changes final_dispatch_changes arm_canary_changes consume_changes assms)
qed

subsection \<open>The invariant\<close>

lemma unique_by_filter_update:
  assumes "\<And>r. r \<in> set t \<Longrightarrow> P r \<Longrightarrow> key (f r) = key r \<and> (Q (f r) \<longrightarrow> Q r)" and "unique_by key (filter Q t)"
  shows "unique_by key (filter Q (update_where P f t))"
proof -
  have "unique_by key (filter Q (update_where P f t)) \<and>
      key ` set (filter Q (update_where P f t)) \<subseteq> key ` set (filter Q t)"
    using assms
  proof (induction t)
    case (Cons a t)
    then have IH: "unique_by key (filter Q (update_where P f t))"
        "key ` set (filter Q (update_where P f t)) \<subseteq> key ` set (filter Q t)"
      by (auto simp: unique_by_def split: if_splits)
    have u: "update_where P f (a # t) = (if P a then f a else a) # update_where P f t" by (simp add: update_where_def)
    have a: "P a \<Longrightarrow> key (f a) = key a \<and> (Q (f a) \<longrightarrow> Q a)" using Cons.prems(1) by simp
    have "key a \<notin> key ` set (filter Q t)" if "Q a" using Cons.prems(2) that by (simp add: unique_by_def)
    with IH a show ?case unfolding u by (auto simp: unique_by_def)
  qed (simp add: update_where_def)
  then show ?thesis ..
qed

text \<open>The attempts of a session are the first slots of its plan, in order, and as many as were charged.\<close>

definition frozen_order :: "canary_models \<Rightarrow> canary_db \<Rightarrow> session_row \<Rightarrow> bool" where
  "frozen_order models db s \<longleftrightarrow> (let as = attempts_of (se_session_id s) db in
     se_attempts_reserved s = int (length as) \<and> map at_ordinal as = map (\<lambda>i. int i + 1) [0..<length as] \<and>
     (as = [] \<or> (case decode_plan models (se_plan s) of None \<Rightarrow> False
        | Some plan \<Rightarrow> length as \<le> length (bp_slots plan) \<and>
            map at_slot_id as = map sl_slot_id (take (length as) (bp_slots plan)))))"

definition claims_ok :: "canary_db \<Rightarrow> bool" where
  "claims_ok db \<longleftrightarrow> unique_by cl_effect_id (cb_claims db) \<and> unique_by cl_attempt_id (cb_claims db) \<and>
     list_all (\<lambda>c. list_ex (\<lambda>a. at_attempt_id a = cl_attempt_id c \<and> at_session_id a = cl_session_id c) (cb_attempts db))
       (cb_claims db)"

definition canary_inv :: "canary_models \<Rightarrow> canary_db \<Rightarrow> bool" where
  "canary_inv models db \<longleftrightarrow> sessions_unique (cb_sessions db) \<and> list_all session_check (cb_sessions db) \<and>
     attempts_unique (cb_attempts db) \<and> at_session_id ` set (cb_attempts db) \<subseteq> se_session_id ` set (cb_sessions db) \<and>
     arms_unique (cb_arms db) \<and> claims_ok db \<and> list_all (frozen_order models db) (cb_sessions db)"

text \<open>Updates of the session table: the identity stays, an inactive session stays inactive.\<close>

definition session_keeps :: "session_row \<Rightarrow> session_row \<Rightarrow> bool" where
  "session_keeps s s' \<longleftrightarrow> se_session_id s' = se_session_id s \<and> se_receipt_id s' = se_receipt_id s \<and>
     se_scope s' = se_scope s \<and> se_scope_sha256 s' = se_scope_sha256 s \<and> se_remote_account_id s' = se_remote_account_id s \<and>
     se_account_id s' = se_account_id s \<and> se_plan s' = se_plan s \<and> se_plan_sha256 s' = se_plan_sha256 s \<and>
     se_operator_nonce s' = se_operator_nonce s \<and> se_armed_at s' = se_armed_at s \<and>
     se_entry_deadline_at s' = se_entry_deadline_at s \<and> se_max_attempts s' = se_max_attempts s"

lemma session_keeps_updates:
  "session_keeps s (progressed t s)" "session_keeps s (drained reason t s)" "session_keeps s (closed t s)"
  "session_keeps s (charged n t s)"
  by (simp_all add: session_keeps_def progressed_def drained_def closed_def charged_def)

lemma sessions_unique_update:
  assumes k: "\<And>s. s \<in> set t \<Longrightarrow> P s \<Longrightarrow> session_keeps s (f s) \<and> (active_session (f s) \<longrightarrow> active_session s)"
    and u: "sessions_unique t"
  shows "sessions_unique (update_where P f t)"
proof -
  have p: "session_project (f s) = session_project s" if "s \<in> set t" "P s" for s
    using k [OF that] by (simp add: session_keeps_def session_project_def)
  have "unique_by se_session_id (filter (\<lambda>s. True) (update_where P f t))"
    "unique_by se_receipt_id (filter (\<lambda>s. True) (update_where P f t))"
    by (rule unique_by_filter_update; use k u in \<open>simp add: session_keeps_def sessions_unique_def\<close>)+
  moreover have "unique_by se_remote_account_id (filter active_session (update_where P f t))"
    by (rule unique_by_filter_update; use k u in \<open>simp add: session_keeps_def sessions_unique_def\<close>)
  moreover have "unique_by session_project (filter (\<lambda>s. active_session s \<and> session_project s \<noteq> None) (update_where P f t))"
    by (rule unique_by_filter_update; use k p u in \<open>simp add: sessions_unique_def\<close>)
  ultimately show ?thesis by (simp add: sessions_unique_def)
qed

lemma session_update_inv:
  assumes inv: "canary_inv models db"
    and k: "\<And>s. s \<in> set (cb_sessions db) \<Longrightarrow> P s \<Longrightarrow> session_keeps s (f s) \<and> (active_session (f s) \<longrightarrow> active_session s) \<and>
      se_attempts_reserved (f s) = se_attempts_reserved s"
    and db': "db' = db\<lparr>cb_sessions := update_where P f (cb_sessions db)\<rparr>"
  shows "canary_inv models db'"
proof -
  have row: "session_check (f s) \<and> frozen_order models db' (f s) \<and> se_session_id (f s) = se_session_id s"
    if "s \<in> set (cb_sessions db)" "P s" "session_check s" "frozen_order models db s" for s
    using k [OF that(1,2)] that(3,4) by (simp add: session_keeps_def session_check_def frozen_order_def db' attempts_of_def Let_def)
  have fo: "frozen_order models db' s = frozen_order models db s" for s
    by (simp add: frozen_order_def db' attempts_of_def)
  have se: "cb_sessions db' = update_where P f (cb_sessions db)" by (simp add: db')
  have "map se_session_id (cb_sessions db') = map se_session_id (cb_sessions db)"
    using k by (simp add: db' update_where_def session_keeps_def)
  then have "se_session_id ` set (cb_sessions db') = se_session_id ` set (cb_sessions db)" by (metis set_map)
  moreover have "\<forall>s\<in>set (cb_sessions db'). session_check s \<and> frozen_order models db s"
    unfolding se by (rule all_update_where) (use inv row fo in \<open>simp_all add: canary_inv_def list_all_iff\<close>)
  then have "list_all session_check (cb_sessions db') \<and> list_all (frozen_order models db') (cb_sessions db')"
    by (simp add: list_all_iff fo)
  moreover have "sessions_unique (cb_sessions db')"
    using inv k by (simp add: db' canary_inv_def sessions_unique_update)
  ultimately show ?thesis using inv by (simp add: canary_inv_def claims_ok_def db')
qed

lemma attempt_ids_inv:
  assumes "map at_session_id as' = map at_session_id as" and "map g as' = map g as"
  shows "map g (filter (\<lambda>a. at_session_id a = k) as') = map g (filter (\<lambda>a. at_session_id a = k) as)"
  using assms
proof (induction as arbitrary: as')
  case (Cons a as)
  then obtain b bs where b: "as' = b # bs" by (cases as') simp_all
  with Cons.prems have "at_session_id b = at_session_id a" "g b = g a" by simp_all
  moreover have "map at_session_id bs = map at_session_id as" "map g bs = map g as" using Cons.prems b by simp_all
  then have "map g (filter (\<lambda>a. at_session_id a = k) bs) = map g (filter (\<lambda>a. at_session_id a = k) as)" by (rule Cons.IH)
  ultimately show ?case unfolding b by (simp only: filter.simps list.map if_distrib [of "map g"])
qed simp

lemma attempt_update_inv:
  assumes inv: "canary_inv models db"
    and k: "\<And>a. a \<in> set (cb_attempts db) \<Longrightarrow> P a \<Longrightarrow> same_attempt a (f a)"
    and db': "db' = db\<lparr>cb_attempts := update_where P f (cb_attempts db)\<rparr>"
  shows "canary_inv models db'"
proof -
  let ?as = "cb_attempts db" and ?as' = "update_where P f (cb_attempts db)"
  have m: "map g ?as' = map g ?as" if "\<And>a b. same_attempt a b \<Longrightarrow> g b = g a" for g :: "attempt_row \<Rightarrow> 'z"
    using k that by (simp add: update_where_def)
  note ms = m [of at_session_id] m [of at_ordinal] m [of at_slot_id] m [of at_attempt_id] m [of at_arm_id] m [of at_review_id]
    m [of "\<lambda>a. (at_session_id a, at_ordinal a)"] m [of "\<lambda>a. (at_session_id a, at_slot_id a)"]
    m [of "\<lambda>a. (at_attempt_id a, at_session_id a)"]
  have out: "unique_by at_session_id (filter outstanding ?as')"
    by (rule unique_by_filter_update) (use k inv in \<open>auto simp: same_attempt_def canary_inv_def attempts_unique_def\<close>)
  have au: "attempts_unique ?as'"
    using inv out ms by (simp add: canary_inv_def attempts_unique_def unique_by_def same_attempt_def)
  have "map g (attempts_of sid db') = map g (attempts_of sid db)" if "\<And>a b. same_attempt a b \<Longrightarrow> g b = g a"
    for g :: "attempt_row \<Rightarrow> 'z" and sid
    unfolding attempts_of_def db' using attempt_ids_inv [of ?as' ?as g] m [of g] ms(1) that by (simp add: same_attempt_def)
  note mo = this
  have fo: "frozen_order models db' s = frozen_order models db s" for s
  proof -
    have "map at_ordinal (attempts_of (se_session_id s) db') = map at_ordinal (attempts_of (se_session_id s) db)"
      "map at_slot_id (attempts_of (se_session_id s) db') = map at_slot_id (attempts_of (se_session_id s) db)"
      by (rule mo; simp add: same_attempt_def)+
    moreover from this(1) have "length (attempts_of (se_session_id s) db') = length (attempts_of (se_session_id s) db)"
      by (metis length_map)
    moreover from this have "attempts_of (se_session_id s) db' = [] \<longleftrightarrow> attempts_of (se_session_id s) db = []"
      by (metis length_0_conv)
    ultimately show ?thesis unfolding db' by (simp add: frozen_order_def Let_def cong: option.case_cong)
  qed
  have "(\<lambda>a. (at_attempt_id a, at_session_id a)) ` set ?as' = (\<lambda>a. (at_attempt_id a, at_session_id a)) ` set ?as"
    using ms(9) by (metis (no_types, lifting) set_map same_attempt_def)
  moreover have "(\<exists>a\<in>S. at_attempt_id a = x \<and> at_session_id a = y) = ((x, y) \<in> (\<lambda>a. (at_attempt_id a, at_session_id a)) ` S)"
    for x y and S :: "attempt_row set" by auto
  ultimately have ex: "(\<exists>a\<in>set ?as'. at_attempt_id a = x \<and> at_session_id a = y) = (\<exists>a\<in>set ?as. at_attempt_id a = x \<and> at_session_id a = y)" for x y
    by (simp only:)
  have "at_session_id ` set ?as' = at_session_id ` set ?as" using ms(1) by (metis set_map same_attempt_def)
  with inv au fo ex show ?thesis by (simp add: canary_inv_def claims_ok_def db' list_all_iff list_ex_iff)
qed

lemma arm_update_inv:
  assumes inv: "canary_inv models db"
    and k: "\<And>m. m \<in> set (cb_arms db) \<Longrightarrow> P m \<Longrightarrow> arm_move m (f m)"
    and db': "db' = db\<lparr>cb_arms := update_where P f (cb_arms db)\<rparr>"
  shows "canary_inv models db'"
proof -
  have keep: "am_arm_id (f m) = am_arm_id m \<and> am_review_id (f m) = am_review_id m \<and> am_account_id (f m) = am_account_id m \<and>
      (armed (f m) \<longrightarrow> armed m)" if "m \<in> set (cb_arms db)" "P m" for m
    using k [OF that] by (auto simp: arm_move_def expired_arm_def consumed_arm_def armed_def)
  have "unique_by am_account_id (filter armed (update_where P f (cb_arms db)))"
    by (rule unique_by_filter_update) (use keep inv in \<open>auto simp: canary_inv_def arms_unique_def\<close>)
  moreover have "unique_by am_arm_id (filter (\<lambda>m. True) (update_where P f (cb_arms db)))"
    "unique_by am_review_id (filter (\<lambda>m. True) (update_where P f (cb_arms db)))"
    by (rule unique_by_filter_update; use keep inv in \<open>simp add: canary_inv_def arms_unique_def\<close>)+
  ultimately have "arms_unique (cb_arms db')" by (simp add: db' arms_unique_def)
  moreover have "frozen_order models db' s = frozen_order models db s" for s by (simp add: frozen_order_def attempts_of_def db')
  ultimately show ?thesis using inv by (simp add: canary_inv_def claims_ok_def db' list_all_iff)
qed

lemma pending_attempts: "pending_attempt sid db = list_ex outstanding (attempts_of sid db)"
  by (auto simp: pending_attempt_def attempts_of_def list_ex_iff)

lemma insert_attempt_Inr:
  "insert_attempt row db = Inr db' \<Longrightarrow> attempts_unique (insert_row row (cb_attempts db)) \<and>
     at_session_id row \<in> se_session_id ` set (cb_sessions db) \<and> db' = db\<lparr>cb_attempts := insert_row row (cb_attempts db)\<rparr>"
  by (auto simp: insert_attempt_def split: if_splits)

lemma reserved_inv:
  assumes inv: "canary_inv models db" and s: "s \<in> set (cb_sessions db)" and entry: "se_state s \<in> set entry_states"
    and row: "at_session_id row = se_session_id s" "at_ordinal row = se_attempts_reserved s + 1"
    and cap: "at_ordinal row \<le> se_max_attempts s" and plan: "decode_plan models (se_plan s) = Some plan"
    and len: "at_ordinal row \<le> int (length (bp_slots plan))"
    and slot: "at_slot_id row = sl_slot_id (bp_slots plan ! nat (at_ordinal row - 1))"
    and ins: "insert_attempt row db = Inr db1"
    and db': "db' = db1\<lparr>cb_sessions := update_where (\<lambda>r. se_session_id r = se_session_id s) (charged (at_ordinal row) t) (cb_sessions db1)\<rparr>"
  shows "canary_inv models db'"
proof -
  note i = insert_attempt_Inr [OF ins]
  have su: "unique_by se_session_id (cb_sessions db)" using inv by (simp add: canary_inv_def sessions_unique_def)
  have only: "r = s" if "r \<in> set (cb_sessions db)" "se_session_id r = se_session_id s" for r
    using unique_by_eq [OF su that(1) s that(2)] .
  have as: "attempts_of k db' = attempts_of k db @ (if k = se_session_id s then [row] else [])" for k
    using i row by (auto simp: attempts_of_def db' insert_row_def)
  have sess: "cb_sessions db' = update_where (\<lambda>r. se_session_id r = se_session_id s) (charged (at_ordinal row) t) (cb_sessions db)"
    using i by (simp add: db')
  have fs: "frozen_order models db s" "session_check s" using inv s by (simp_all add: canary_inv_def list_all_iff)
  define n where "n = length (attempts_of (se_session_id s) db)"
  have n: "se_attempts_reserved s = int n" "map at_ordinal (attempts_of (se_session_id s) db) = map (\<lambda>i. int i + 1) [0..<n]"
    using fs(1) by (simp_all add: frozen_order_def Let_def n_def)
  have pre: "map at_slot_id (attempts_of (se_session_id s) db) = map sl_slot_id (take n (bp_slots plan))"
    using fs(1) plan by (auto simp: frozen_order_def Let_def n_def)
  have lt: "n < length (bp_slots plan)" using len row n by simp
  have new: "frozen_order models db' (charged (at_ordinal row) t s)"
    using n pre lt slot plan row
    by (simp add: frozen_order_def Let_def as charged_def n_def [symmetric] take_Suc_conv_app_nth)
  have old: "frozen_order models db' r = frozen_order models db r" if "se_session_id r \<noteq> se_session_id s" for r
    using that by (simp add: frozen_order_def as)
  have "\<forall>r\<in>set (cb_sessions db'). session_check r \<and> frozen_order models db' r"
  proof
    fix r assume "r \<in> set (cb_sessions db')"
    then obtain q where q: "q \<in> set (cb_sessions db)" "r = (if se_session_id q = se_session_id s then charged (at_ordinal row) t q else q)"
      by (auto simp: sess set_update_where)
    show "session_check r \<and> frozen_order models db' r"
    proof (cases "se_session_id q = se_session_id s")
      case True
      with q only [OF q(1) True] have "r = charged (at_ordinal row) t s" by simp
      moreover have "session_check (charged (at_ordinal row) t s)"
        using fs(2) cap row n by (simp add: session_check_def charged_def)
      ultimately show ?thesis using new by simp
    next
      case False
      with q inv old show ?thesis by (simp add: canary_inv_def list_all_iff)
    qed
  qed
  moreover have "sessions_unique (cb_sessions db')"
    unfolding sess
    by (rule sessions_unique_update)
      (use only entry inv in \<open>auto simp: session_keeps_def canary_inv_def active_session_def charged_def entry_states_def active_states_def\<close>)
  moreover have "map se_session_id (cb_sessions db') = map se_session_id (cb_sessions db)"
    by (simp add: sess update_where_def charged_def)
  then have "se_session_id ` set (cb_sessions db') = se_session_id ` set (cb_sessions db)" by (metis set_map)
  moreover have "cb_attempts db' = insert_row row (cb_attempts db)" "cb_arms db' = cb_arms db" "cb_claims db' = cb_claims db"
    using i by (simp_all add: db')
  ultimately show ?thesis
    using inv i by (auto simp: canary_inv_def claims_ok_def list_all_iff list_ex_iff)
qed

lemma canary_change_inv: "canary_change models db db' \<Longrightarrow> canary_inv models db \<Longrightarrow> canary_inv models db'"
proof (induction rule: canary_change.induct)
  case (elsewhere db' db)
  then show ?case by (simp add: canary_inv_def claims_ok_def frozen_order_def attempts_of_def list_all_iff)
next
  case (opened row db db')
  then have i: "session_check row" "sessions_unique (insert_row row (cb_sessions db))"
      "db' = db\<lparr>cb_sessions := insert_row row (cb_sessions db)\<rparr>"
    by (auto simp: insert_session_def split: if_splits)
  have "se_session_id row \<notin> se_session_id ` set (cb_sessions db)" using i(2) by (simp add: sessions_unique_def)
  moreover have "at_session_id ` set (cb_attempts db) \<subseteq> se_session_id ` set (cb_sessions db)"
    using opened by (simp add: canary_inv_def)
  ultimately have "attempts_of (se_session_id row) db = []"
    unfolding attempts_of_def filter_empty_conv by (metis imageI subsetD)
  moreover have "attempts_of k db' = attempts_of k db" for k by (simp add: attempts_of_def i(3))
  ultimately have "frozen_order models db' row" "\<And>s. frozen_order models db' s = frozen_order models db s"
    using opened(3) by (simp_all add: frozen_order_def)
  with i opened show ?case by (auto simp: canary_inv_def claims_ok_def list_all_iff)
next
  case (touched db' sid t db)
  show ?case by (rule session_update_inv [OF touched(2) _ touched(1)])
      (simp add: session_keeps_updates active_session_def)
next
  case (drained_entry s db db' reason t)
  then have "r = s" if "r \<in> set (cb_sessions db)" "se_session_id r = se_session_id s" for r
    using unique_by_eq [OF _ that(1) drained_entry(1) that(2)] by (auto simp: canary_inv_def sessions_unique_def)
  with drained_entry(2) show ?case
    by (intro session_update_inv [OF drained_entry(4) _ drained_entry(3)])
      (auto simp: session_keeps_updates active_session_def active_states_def entry_states_def drained_def session_keeps_def)
next
  case (closed_session sid db db' t)
  show ?case by (rule session_update_inv [OF closed_session(3) _ closed_session(2)])
      (auto simp: session_keeps_updates active_session_def active_states_def closed_def session_keeps_def split: if_splits)
next
  case (reserved s db row plan db1 db' t)
  then show ?case using reserved_inv by blast
next
  case (settled db P f db')
  then show ?case using attempt_update_inv by blast
next
  case (stored_arm row db db')
  then have db': "arms_unique (insert_row row (cb_arms db))" "db' = db\<lparr>cb_arms := insert_row row (cb_arms db)\<rparr>"
    by (auto simp: insert_arm_def split: if_splits)
  have "frozen_order models db' s = frozen_order models db s" for s by (simp add: db'(2) frozen_order_def attempts_of_def)
  with stored_arm db' show ?case by (simp add: canary_inv_def claims_ok_def list_all_iff)
next
  case (moved_arm db P f db')
  then show ?case using arm_update_inv by blast
next
  case (claimed c db db' a s)
  then have db': "db' = db\<lparr>cb_claims := insert_row c (cb_claims db)\<rparr>" "unique_by cl_effect_id (insert_row c (cb_claims db))"
      "unique_by cl_attempt_id (insert_row c (cb_claims db))"
    using insert_claim_Inr [OF claimed(1)] claimed by (auto simp: canary_inv_def claims_ok_def)
  have "frozen_order models db' s = frozen_order models db s" for s by (simp add: db'(1) frozen_order_def attempts_of_def)
  with claimed db' show ?case by (auto simp: canary_inv_def claims_ok_def list_all_iff list_ex_iff insert_row_def)
qed

lemma canary_changes_inv: "canary_changes models db db' \<Longrightarrow> canary_inv models db \<Longrightarrow> canary_inv models db'"
  by (induction rule: rtranclp_induct) (auto intro: canary_change_inv)

lemma empty_canary_inv: "canary_inv models (empty_canary instance_id)"
  by (simp add: canary_inv_def empty_canary_def sessions_unique_def attempts_unique_def arms_unique_def claims_ok_def unique_by_def)

lemma inv_arms: "canary_inv models db \<Longrightarrow> unique_by am_arm_id (cb_arms db)"
  by (simp add: canary_inv_def arms_unique_def)

lemma canary_step_inv: "canary_inv models db \<Longrightarrow> canary_inv models (canary_step models bull bear sha op db)"
  using canary_changes_inv [OF canary_step_changes [OF inv_arms]] by blast

text \<open>What a session admits at most, read off the tables.\<close>

definition sessions_bounded :: "canary_models \<Rightarrow> canary_db \<Rightarrow> bool" where
  "sessions_bounded models db \<longleftrightarrow>
     distinct (map se_receipt_id (cb_sessions db)) \<and>
     distinct (map session_project (filter (\<lambda>s. active_session s \<and> session_project s \<noteq> None) (cb_sessions db))) \<and>
     list_all (\<lambda>s. frozen_order models db s \<and> se_attempts_reserved s \<le> se_max_attempts s \<and> se_max_attempts s \<le> 10 \<and>
       length (filter outstanding (attempts_of (se_session_id s) db)) \<le> 1) (cb_sessions db)"

lemma unique_filter_one: "unique_by key (filter Q t) \<Longrightarrow> length (filter Q (filter (\<lambda>r. key r = k) t)) \<le> 1"
proof (induction t)
  case (Cons a t)
  then have IH: "length (filter Q (filter (\<lambda>r. key r = k) t)) \<le> 1" by (auto simp: unique_by_def split: if_splits)
  have "filter Q (filter (\<lambda>r. key r = k) t) = []" if "Q a" "key a = k"
    using Cons.prems that by (force simp: unique_by_def filter_empty_conv image_iff)
  with IH show ?case by auto
qed simp

lemma canary_inv_bounded: "canary_inv models db \<Longrightarrow> sessions_bounded models db"
  using unique_filter_one [of at_session_id outstanding "cb_attempts db"]
  by (auto simp: canary_inv_def sessions_bounded_def sessions_unique_def attempts_unique_def unique_by_def
      attempts_of_def list_all_iff session_check_def)

text \<open>
  C29. Whatever operations run on an empty database, in whatever order, and whatever the other components write meanwhile:
  a receipt arms at most one session; at most one session of a project is active; a session never
  reserves more attempts than its cap, which is at most ten; the attempts charged to it are exactly
  the first slots of its frozen plan, in the plan's order; and at most one of them is not terminal.
\<close>

theorem canary_sessions_bounded:
  "sessions_bounded models (fold (canary_step models bull bear sha) ops (empty_canary instance_id))"
proof (rule canary_inv_bounded)
  have "canary_inv models db \<Longrightarrow> canary_inv models (fold (canary_step models bull bear sha) ops db)" for db
    by (induction ops arbitrary: db) (auto intro: canary_step_inv)
  then show "canary_inv models (fold (canary_step models bull bear sha) ops (empty_canary instance_id))"
    by (simp add: empty_canary_inv)
qed

subsection \<open>The session machine\<close>

text \<open>
  What a session promises: it is armed with a cap and no attempts, reserves one attempt at a time up to
  the cap while it admits entries, can be drained for a reason or finished, and never comes back.
\<close>

datatype stage = Entry | Drain | Done

type_synonym phase = "stage \<times> int \<times> int \<times> string option"

inductive session_spec :: "(string \<rightharpoonup> phase) \<Rightarrow> (string \<rightharpoonup> phase) \<Rightarrow> bool" where
  spec_arm: "m k = None \<Longrightarrow> 1 \<le> cap \<Longrightarrow> cap \<le> 10 \<Longrightarrow> session_spec m (m(k \<mapsto> (Entry, 0, cap, None)))"
| spec_reserve: "m k = Some (Entry, n, cap, r) \<Longrightarrow> n < cap \<Longrightarrow> session_spec m (m(k \<mapsto> (Entry, n + 1, cap, r)))"
| spec_drain: "m k = Some (Entry, n, cap, r) \<Longrightarrow> session_spec m (m(k \<mapsto> (Drain, n, cap, Some reason)))"
| spec_finish: "m k = Some (st, n, cap, r) \<Longrightarrow> st \<noteq> Done \<Longrightarrow> session_spec m (m(k \<mapsto> (Done, n, cap, r)))"

text \<open>What may become of a session: its cap stays, its stages go forward, and outside the entry stage nothing is charged.\<close>

fun phase_after :: "phase option \<Rightarrow> phase option \<Rightarrow> bool" where
  "phase_after None q = True"
| "phase_after (Some p) None = False"
| "phase_after (Some (Entry, n, cap, r)) (Some (st, n', cap', r')) = (cap' = cap \<and> n \<le> n' \<and> (st = Entry \<longrightarrow> r' = r))"
| "phase_after (Some (Drain, n, cap, r)) (Some (st, rest)) = (st \<noteq> Entry \<and> rest = (n, cap, r))"
| "phase_after (Some (Done, n, cap, r)) (Some q) = (q = (Done, n, cap, r))"

lemma phase_after_refl [simp]: "phase_after p p"
proof (cases p)
  case (Some q)
  then show ?thesis by (cases q; cases "fst q") auto
qed simp

lemma phase_after_step:
  assumes "session_spec m m'" and "phase_after p (m k)"
  shows "phase_after p (m' k)"
proof (cases p)
  case (Some q)
  obtain st n cap r where q: "q = (st, n, cap, r)" by (cases q)
  show ?thesis
    using assms unfolding Some q
    by (cases st; cases rule: session_spec.cases) (auto split: if_splits option.splits)
qed simp

lemma session_spec_after:
  assumes "session_spec\<^sup>*\<^sup>* m m'"
  shows "phase_after (m k) (m' k)"
  using assms by induction (simp, rule phase_after_step)

definition stage_of :: "session_state \<Rightarrow> stage" where
  "stage_of st = (if st \<in> set entry_states then Entry else if st = SESSION_DRAINING then Drain else Done)"

definition session_phase :: "session_row \<Rightarrow> phase" where
  "session_phase s = (stage_of (se_state s), se_attempts_reserved s, se_max_attempts s, se_stop_reason s)"

definition phases :: "canary_db \<Rightarrow> string \<rightharpoonup> phase" where
  "phases db k = map_option session_phase (session_at k db)"

lemma phases_cong: "cb_sessions db' = cb_sessions db \<Longrightarrow> phases db' = phases db"
  by (simp add: phases_def session_at_def fun_eq_iff)

lemma phases_update:
  assumes "\<And>s. se_session_id (f s) = se_session_id s" and "session_at k db = Some s"
  shows "phases (db\<lparr>cb_sessions := update_where (\<lambda>s. se_session_id s = k \<and> Q s) f (cb_sessions db)\<rparr>) =
     (if Q s then (phases db)(k \<mapsto> session_phase (f s)) else phases db)" (is "phases ?db = _")
proof -
  have "session_at k' ?db = map_option (\<lambda>s. if se_session_id s = k \<and> Q s then f s else s) (session_at k' db)" for k'
    using assms(1) by (simp add: session_at_def select_one_update)
  moreover have "session_at k' db = Some r \<Longrightarrow> se_session_id r = k'" for k' r
    by (auto simp: session_at_def dest: select_one_SomeD)
  ultimately have "phases ?db k' = (if Q s then (phases db)(k \<mapsto> session_phase (f s)) else phases db) k'" for k'
    using assms(2) by (cases "session_at k' db"; cases "k' = k") (simp_all add: phases_def)
  then show ?thesis by (rule ext)
qed

lemma phases_update_absent:
  assumes "session_at k db = None"
  shows "phases (db\<lparr>cb_sessions := update_where (\<lambda>s. se_session_id s = k \<and> Q s) f (cb_sessions db)\<rparr>) = phases db"
proof -
  have "update_where (\<lambda>s. se_session_id s = k \<and> Q s) f (cb_sessions db) = cb_sessions db"
    using assms by (auto simp: session_at_def select_one_None_iff update_where_def intro: map_idI)
  then show ?thesis by simp
qed

lemma phases_at: "session_at k db = Some s \<Longrightarrow> phases db k = Some (session_phase s)"
  by (simp add: phases_def)

lemma session_at_unique: "canary_inv models db \<Longrightarrow> s \<in> set (cb_sessions db) \<Longrightarrow> session_at (se_session_id s) db = Some s"
  using select_one_unique by (fastforce simp: canary_inv_def sessions_unique_def session_at_def)

lemma canary_change_refines:
  "canary_change models db db' \<Longrightarrow> canary_inv models db \<Longrightarrow> session_spec\<^sup>*\<^sup>* (phases db) (phases db')"
proof (induction rule: canary_change.induct)
  case (elsewhere db' db)
  from phases_cong [OF elsewhere(1)] show ?case by simp
next
  case (opened row db db')
  then have i: "session_check row" "sessions_unique (insert_row row (cb_sessions db))"
      "db' = db\<lparr>cb_sessions := insert_row row (cb_sessions db)\<rparr>"
    by (auto simp: insert_session_def split: if_splits)
  have none: "session_at (se_session_id row) db = None"
    using i(2) by (auto simp: session_at_def select_one_None_iff sessions_unique_def image_iff)
  have "session_at k db' = (case session_at k db of None \<Rightarrow> if se_session_id row = k then Some row else None | Some q \<Rightarrow> Some q)" for k
    unfolding i(3) session_at_def by (simp add: select_one_insert)
  with none have "phases db' k = ((phases db)(se_session_id row \<mapsto> session_phase row)) k" for k
    by (cases "k = se_session_id row"; cases "session_at k db") (simp_all add: phases_def)
  then have "phases db' = (phases db)(se_session_id row \<mapsto> session_phase row)" by (rule ext)
  moreover have "session_phase row = (Entry, 0, se_max_attempts row, None)"
    using opened by (simp add: session_phase_def stage_of_def entry_states_def)
  ultimately have "phases db' = (phases db)(se_session_id row \<mapsto> (Entry, 0, se_max_attempts row, None))" by simp
  moreover have "phases db (se_session_id row) = None" by (simp add: phases_def none)
  ultimately have "session_spec (phases db) (phases db')" using i(1) by (simp add: spec_arm session_check_def)
  then show ?case by (rule r_into_rtranclp [of session_spec])
next
  case (touched db' sid t db)
  have "phases db' = phases db"
  proof (cases "session_at sid db")
    case (Some s)
    have "session_phase (progressed t s) = session_phase s" by (simp add: session_phase_def progressed_def)
    with Some touched(1) phases_update [of "progressed t" sid db s "\<lambda>_. True"] phases_at [OF Some] show ?thesis
      by (simp add: fun_upd_idem)
  qed (use touched(1) phases_update_absent [of sid db "\<lambda>_. True"] in simp)
  then show ?case by simp
next
  case (drained_entry s db db' reason t)
  note at = session_at_unique [OF drained_entry(4,1)]
  have "phases db' = (phases db)(se_session_id s \<mapsto> session_phase (drained reason t s))"
    using drained_entry(3) phases_update [OF _ at, of "drained reason t" "\<lambda>_. True"] by (simp add: drained_def)
  moreover have "session_phase (drained reason t s) = (Drain, se_attempts_reserved s, se_max_attempts s, Some reason)"
    by (simp add: session_phase_def drained_def stage_of_def entry_states_def)
  moreover have "phases db (se_session_id s) = Some (Entry, se_attempts_reserved s, se_max_attempts s, se_stop_reason s)"
    using phases_at [OF at] drained_entry(2) by (simp add: session_phase_def stage_of_def)
  ultimately show ?case using spec_drain by (metis r_into_rtranclp)
next
  case (closed_session sid db db' t)
  show ?case
  proof (cases "session_at sid db")
    case None
    with closed_session(2) show ?thesis by (simp add: phases_update_absent)
  next
    case (Some s)
    have c: "session_phase (closed t s) = (Done, se_attempts_reserved s, se_max_attempts s, se_stop_reason s)"
      by (simp add: session_phase_def closed_def stage_of_def entry_states_def)
    have p: "phases db' = (if closable s then (phases db)(sid \<mapsto> session_phase (closed t s)) else phases db)"
      using closed_session(2) phases_update [OF _ Some, of "closed t" closable] by (simp add: closed_def)
    show ?thesis
    proof (cases "stage_of (se_state s) = Done")
      case True
      with c have "session_phase (closed t s) = session_phase s" by (simp add: session_phase_def)
      with p phases_at [OF Some] show ?thesis by (simp add: fun_upd_idem)
    next
      case False
      then have "session_spec (phases db) ((phases db)(sid \<mapsto> (Done, se_attempts_reserved s, se_max_attempts s, se_stop_reason s)))"
        by (intro spec_finish) (simp_all add: phases_at [OF Some] session_phase_def)
      with p c show ?thesis by (simp add: r_into_rtranclp)
    qed
  qed
next
  case (reserved s db row plan db1 db' t)
  note at = session_at_unique [OF reserved(12,1)]
  have d1: "cb_sessions db1 = cb_sessions db" using insert_attempt_Inr [OF reserved(10)] by simp
  then have "session_at (se_session_id s) db1 = Some s" "phases db1 = phases db"
    using at phases_cong [of db1 db] by (simp_all add: session_at_def)
  then have "phases db' = (phases db)(se_session_id s \<mapsto> session_phase (charged (at_ordinal row) t s))"
    using reserved(11) phases_update [of "charged (at_ordinal row) t" "se_session_id s" db1 s "\<lambda>_. True"] by (simp add: charged_def)
  moreover have "session_phase (charged (at_ordinal row) t s) = (Entry, se_attempts_reserved s + 1, se_max_attempts s, se_stop_reason s)"
    using reserved(5) by (simp add: session_phase_def charged_def stage_of_def entry_states_def)
  moreover have "phases db (se_session_id s) = Some (Entry, se_attempts_reserved s, se_max_attempts s, se_stop_reason s)"
    using phases_at [OF at] reserved(2) by (simp add: session_phase_def stage_of_def)
  moreover have "se_attempts_reserved s < se_max_attempts s" using reserved(5,6) by simp
  ultimately show ?case using spec_reserve by (metis r_into_rtranclp)
next
  case (settled db P f db')
  then show ?case using phases_cong [of db' db] by simp
next
  case (stored_arm row db db')
  then have "cb_sessions db' = cb_sessions db" by (auto simp: insert_arm_def split: if_splits)
  then show ?case using phases_cong [of db' db] by simp
next
  case (moved_arm db P f db')
  then show ?case using phases_cong [of db' db] by simp
next
  case (claimed c db db' a s)
  then show ?case using insert_claim_Inr [OF claimed(1)] phases_cong [of db' db] by simp
qed

subsection \<open>Nothing durable goes back\<close>

definition session_le :: "session_row \<Rightarrow> session_row \<Rightarrow> bool" where
  "session_le s s' \<longleftrightarrow> session_keeps s s' \<and> se_attempts_reserved s \<le> se_attempts_reserved s' \<and>
     (se_state s \<notin> set entry_states \<longrightarrow> se_state s' \<notin> set entry_states)"

definition canary_le :: "canary_db \<Rightarrow> canary_db \<Rightarrow> bool" where
  "canary_le db db' \<longleftrightarrow> prefix (cb_claims db) (cb_claims db') \<and>
     (\<forall>s\<in>set (cb_sessions db). \<exists>s'\<in>set (cb_sessions db'). session_le s s') \<and>
     (\<forall>m\<in>set (cb_arms db). am_status m = ARM_CONSUMED \<longrightarrow> m \<in> set (cb_arms db'))"

lemma session_le_refl: "session_le s s"
  by (simp add: session_le_def session_keeps_def)

lemma session_le_trans: "session_le s t \<Longrightarrow> session_le t u \<Longrightarrow> session_le s u"
  by (auto simp: session_le_def session_keeps_def)

lemma canary_le_refl: "canary_le db db"
  by (auto simp: canary_le_def intro: session_le_refl)

lemma canary_le_trans: "canary_le a b \<Longrightarrow> canary_le b c \<Longrightarrow> canary_le a c"
  unfolding canary_le_def by (metis prefix_order.trans session_le_trans)

lemma canary_le_sessions:
  assumes "\<And>s. s \<in> set (cb_sessions db) \<Longrightarrow> P s \<Longrightarrow> session_le s (f s)"
    and "cb_sessions db' = update_where P f (cb_sessions db)" and "cb_claims db' = cb_claims db" and "cb_arms db' = cb_arms db"
  shows "canary_le db db'"
proof -
  have "\<exists>s'\<in>set (cb_sessions db'). session_le s s'" if "s \<in> set (cb_sessions db)" for s
  proof (cases "P s")
    case True
    with assms(1) [OF that] that show ?thesis by (auto simp: assms(2) update_where_def image_iff)
  next
    case False
    with that have "s \<in> set (cb_sessions db')" by (auto simp: assms(2) update_where_def image_iff)
    then show ?thesis using session_le_refl by blast
  qed
  with assms(3,4) show ?thesis by (simp add: canary_le_def)
qed

lemma canary_le_grow:
  assumes "set (cb_sessions db) \<subseteq> set (cb_sessions db')" and "prefix (cb_claims db) (cb_claims db')"
    and "\<And>m. m \<in> set (cb_arms db) \<Longrightarrow> am_status m = ARM_CONSUMED \<Longrightarrow> m \<in> set (cb_arms db')"
  shows "canary_le db db'"
  using assms session_le_refl by (auto simp: canary_le_def)

lemma canary_change_le: "canary_change models db db' \<Longrightarrow> canary_inv models db \<Longrightarrow> canary_le db db'"
proof (induction rule: canary_change.induct)
  case (opened row db db')
  then have "db' = db\<lparr>cb_sessions := insert_row row (cb_sessions db)\<rparr>"
    by (auto simp: insert_session_def split: if_splits)
  then show ?case by (intro canary_le_grow) (auto simp: insert_row_def)
next
  case (touched db' sid t db)
  then show ?case by (intro canary_le_sessions) (auto simp: session_le_def session_keeps_updates)
next
  case (drained_entry s db db' reason t)
  then show ?case
    by (intro canary_le_sessions [where f = "drained reason t"])
      (auto simp: session_le_def session_keeps_updates drained_def entry_states_def session_keeps_def)
next
  case (closed_session sid db db' t)
  then show ?case
    by (intro canary_le_sessions [where f = "closed t"])
      (auto simp: session_le_def session_keeps_updates closed_def entry_states_def session_keeps_def)
next
  case (reserved s db row plan db1 db' t)
  have "session_le r (charged (at_ordinal row) t r)" if "r \<in> set (cb_sessions db)" "se_session_id r = se_session_id s" for r
  proof -
    have "r = s"
      using unique_by_eq [OF _ that(1) reserved(1) that(2)] reserved(12) by (simp add: canary_inv_def sessions_unique_def)
    with reserved(2,5) show ?thesis by (simp add: session_le_def session_keeps_updates) (simp add: charged_def)
  qed
  with reserved(11) insert_attempt_Inr [OF reserved(10)] show ?case
    by (intro canary_le_sessions [where f = "charged (at_ordinal row) t"]) simp_all
next
  case (stored_arm row db db')
  then show ?case by (intro canary_le_grow) (auto simp: insert_arm_def insert_row_def split: if_splits)
next
  case (moved_arm db P f db')
  have "m \<in> set (update_where P f (cb_arms db))" if "m \<in> set (cb_arms db)" "am_status m = ARM_CONSUMED" for m
    using moved_arm(1) [OF that(1)] that by (cases "P m") (auto simp: arm_move_def update_where_def image_iff)
  with moved_arm show ?case by (intro canary_le_grow) auto
next
  case (claimed c db db' a s)
  then show ?case using insert_claim_Inr [OF claimed(1)] by (intro canary_le_grow) (auto simp: insert_row_def)
qed (auto intro!: canary_le_grow)

lemma canary_changes_le: "canary_changes models db db' \<Longrightarrow> canary_inv models db \<Longrightarrow> canary_le db db'"
proof (induction rule: rtranclp_induct)
  case (step b c)
  then show ?case using canary_changes_inv canary_change_le canary_le_trans by blast
qed (simp add: canary_le_refl)

lemma canary_changes_refine:
  "canary_changes models db db' \<Longrightarrow> canary_inv models db \<Longrightarrow> session_spec\<^sup>*\<^sup>* (phases db) (phases db')"
proof (induction rule: rtranclp_induct)
  case (step b c)
  then show ?case using canary_changes_inv canary_change_refines rtranclp_trans by (metis (no_types))
qed simp

interpretation canary: monotone_system "canary_step models bull bear sha" "canary_inv models" canary_le
  for models bull bear sha
proof
  show "canary_le db (canary_step models bull bear sha op db)" if "canary_inv models db" for op db
    using canary_changes_le [OF canary_step_changes [OF inv_arms [OF that]] that] .
qed (auto intro: canary_step_inv canary_le_refl canary_le_trans)

interpretation session_machine: refinement "canary_step models bull bear sha" "\<lambda>_. True" "canary_inv models" phases session_spec
  for models bull bear sha
proof
  show "session_spec\<^sup>*\<^sup>* (phases db) (phases (canary_step models bull bear sha op db))" if "canary_inv models db" for op db
    using canary_changes_refine [OF canary_step_changes [OF inv_arms [OF that]] that] .
qed

subsection \<open>The dispatches of a run\<close>

lemma yielded_claim:
  assumes "yielded models sha op db = b # bs"
  shows "bs = []" and "\<exists>c. cb_claims (canary_step models bull bear sha op db) = cb_claims db @ [c] \<and>
    cl_attempt_id c = eb_attempt_id b \<and> cl_effect_id c = eb_effect_id b \<and> cl_session_id c = eb_session_id b"
    and "\<exists>s\<in>set (cb_sessions db). se_session_id s = eb_session_id b \<and> se_state s \<in> set entry_states"
proof -
  from assms obtain d sc e h n t where op: "op = Dispatch d sc e h n t" and bs: "bs = []"
      and r: "fst (final_dispatch models sha d sc e h n t db) = Inr b"
    by (cases op) (auto simp: yielded_def split: sum.splits)
  from final_dispatch_outcome [of models sha d sc e h n t db, OF surjective_pairing] r obtain b0 where
      b0: "claim_dispatch models sha d sc e n db = Inr (b0, snd (final_dispatch models sha d sc e h n t db))"
      and b: "b = b0\<lparr>eb_dispatch_claimed := True\<rparr>" by auto
  show "bs = []" by (rule bs)
  from b0 show "\<exists>c. cb_claims (canary_step models bull bear sha op db) = cb_claims db @ [c] \<and>
    cl_attempt_id c = eb_attempt_id b \<and> cl_effect_id c = eb_effect_id b \<and> cl_session_id c = eb_session_id b"
  proof (rule claim_dispatch_claimed)
    fix c db1 db2 a decision
    assume "db1 = db\<lparr>cb_attempts := update_where (\<lambda>x. at_attempt_id x = at_attempt_id a) (bound_attempt decision e) (cb_attempts db)\<rparr>"
      "insert_claim c db1 = Inr db2" "cl_attempt_id c = eb_attempt_id b0" "cl_session_id c = eb_session_id b0"
      "cl_effect_id c = eb_effect_id b0" "snd (final_dispatch models sha d sc e h n t db) =
        db2\<lparr>cb_sessions := update_where (\<lambda>s. se_session_id s = eb_session_id b0) (progressed n) (cb_sessions db2)\<rparr>"
    then show ?thesis using insert_claim_Inr [of c db1 db2] by (auto simp: op b insert_row_def)
  qed
  from b0 show "\<exists>s\<in>set (cb_sessions db). se_session_id s = eb_session_id b \<and> se_state s \<in> set entry_states"
    by (rule claim_dispatch_claimed) (auto simp: b entry_eligible_def entry_states_def)
qed

definition claim_key :: "claim_row \<Rightarrow> string \<times> string \<times> string" where
  "claim_key c = (cl_effect_id c, cl_attempt_id c, cl_session_id c)"

definition binding_key :: "entry_binding \<Rightarrow> string \<times> string \<times> string" where
  "binding_key b = (eb_effect_id b, eb_attempt_id b, eb_session_id b)"

lemma canary_step_claims:
  assumes "canary_inv models db"
  shows "\<exists>cs. cb_claims (canary_step models bull bear sha op db) = cb_claims db @ cs \<and>
    subseq (map binding_key (yielded models sha op db)) (map claim_key cs)"
proof (cases "yielded models sha op db")
  case Nil
  then show ?thesis using canary.step_le [OF assms, of bull bear sha op] by (auto simp: canary_le_def prefix_def)
next
  case (Cons b bs)
  from yielded_claim(1) [OF Cons] yielded_claim(2) [OF Cons, of bull bear] Cons show ?thesis by (auto simp: binding_key_def claim_key_def)
qed

lemma dispatched_claims:
  "canary_inv models db \<Longrightarrow> \<exists>cs. cb_claims (fold (canary_step models bull bear sha) ops db) = cb_claims db @ cs \<and>
    subseq (map binding_key (dispatched models bull bear sha ops db)) (map claim_key cs)"
proof (induction ops arbitrary: db)
  case (Cons op ops)
  let ?db = "canary_step models bull bear sha op db"
  obtain cs where cs: "cb_claims ?db = cb_claims db @ cs" "subseq (map binding_key (yielded models sha op db)) (map claim_key cs)"
    using canary_step_claims [OF Cons.prems] by blast
  obtain ds where "cb_claims (fold (canary_step models bull bear sha) ops ?db) = cb_claims ?db @ ds"
      "subseq (map binding_key (dispatched models bull bear sha ops ?db)) (map claim_key ds)"
    using Cons.IH [OF canary_step_inv [OF Cons.prems]] by blast
  with cs show ?case by (auto intro!: exI [where x = "cs @ ds"] list_emb_append_mono)
qed simp

lemma claims_of_session:
  assumes inv: "canary_inv models db" and s: "s \<in> set (cb_sessions db)"
  shows "int (length (filter (\<lambda>c. cl_session_id c = se_session_id s) (cb_claims db))) \<le> se_attempts_reserved s"
proof -
  let ?cs = "filter (\<lambda>c. cl_session_id c = se_session_id s) (cb_claims db)" and ?as = "attempts_of (se_session_id s) db"
  have "distinct (map cl_attempt_id ?cs)"
    using inv by (simp add: canary_inv_def claims_ok_def unique_by_def distinct_map_filter)
  then have "length ?cs = card (cl_attempt_id ` set ?cs)" by (metis distinct_card length_map set_map)
  also have "\<dots> \<le> card (at_attempt_id ` set ?as)"
    using inv by (intro card_mono) (force simp: canary_inv_def claims_ok_def attempts_of_def list_all_iff list_ex_iff)+
  also have "\<dots> \<le> length ?as" by (metis card_length length_map set_map)
  also have "int (length ?as) = se_attempts_reserved s" using inv s by (auto simp: canary_inv_def list_all_iff frozen_order_def Let_def)
  finally show ?thesis by simp
qed

definition log_bounded :: "entry_binding list \<Rightarrow> canary_db \<Rightarrow> bool" where
  "log_bounded log db \<longleftrightarrow> distinct (map eb_effect_id log) \<and> distinct (map eb_attempt_id log) \<and>
     list_all (\<lambda>s. int (length (filter (\<lambda>b. eb_session_id b = se_session_id s) log)) \<le> se_attempts_reserved s) (cb_sessions db)"

lemma subseq_length_filter: "subseq xs ys \<Longrightarrow> length (filter P xs) \<le> length (filter P ys)"
  by (induction rule: list_emb.induct) auto

lemma subseq_distinct: "subseq xs ys \<Longrightarrow> distinct ys \<Longrightarrow> distinct xs"
  by (induction rule: list_emb.induct) (auto dest: list_emb_set)

lemma dispatched_bounded:
  fixes models bull bear sha ops db
  defines "log \<equiv> dispatched models bull bear sha ops db" and "db' \<equiv> fold (canary_step models bull bear sha) ops db"
  assumes inv: "canary_inv models db" and none: "cb_claims db = []"
  shows "log_bounded log db'"
proof -
  have sub: "subseq (map binding_key log) (map claim_key (cb_claims db'))"
    using dispatched_claims [OF inv, of bull bear sha ops] none by (auto simp: log_def db'_def)
  have inv': "canary_inv models db'" unfolding db'_def using canary.reach_inv [OF inv] .
  have key: "map eb_effect_id log = map fst (map binding_key log)" "map eb_attempt_id log = map (fst \<circ> snd) (map binding_key log)"
    "map cl_effect_id (cb_claims db') = map fst (map claim_key (cb_claims db'))"
    "map cl_attempt_id (cb_claims db') = map (fst \<circ> snd) (map claim_key (cb_claims db'))"
    by (simp_all add: binding_key_def claim_key_def)
  have "distinct (map cl_effect_id (cb_claims db'))" "distinct (map cl_attempt_id (cb_claims db'))"
    using inv' by (simp_all add: canary_inv_def claims_ok_def unique_by_def)
  then have "distinct (map eb_effect_id log) \<and> distinct (map eb_attempt_id log)"
    unfolding key using subseq_map [OF sub] subseq_distinct by blast
  moreover have "length (filter (\<lambda>b. eb_session_id b = k) log) \<le> length (filter (\<lambda>c. cl_session_id c = k) (cb_claims db'))" for k
    using subseq_length_filter [OF sub, of "\<lambda>x. snd (snd x) = k"]
    by (simp add: filter_map binding_key_def claim_key_def comp_def)
  then have "int (length (filter (\<lambda>b. eb_session_id b = se_session_id s) log)) \<le> se_attempts_reserved s"
    if "s \<in> set (cb_sessions db')" for s
    using claims_of_session [OF inv' that] by (meson of_nat_mono order_trans)
  ultimately show ?thesis by (simp add: log_bounded_def list_all_iff)
qed

text \<open>
  C30. Whatever operations run on an empty database, in whatever order and with whatever retries, the entries handed to
  the venue have distinct effect identities and distinct attempts, and a session dispatches no more of
  them than the attempts charged to it (at most its cap): a claim that has been made is never made again, even when the
  dispatch it was made for failed.
\<close>

theorem canary_dispatches_once:
  "log_bounded (dispatched models bull bear sha ops (empty_canary instance_id))
     (fold (canary_step models bull bear sha) ops (empty_canary instance_id))"
  by (rule dispatched_bounded) (simp_all add: empty_canary_inv, simp add: empty_canary_def)

text \<open>
  C31. The session tables refine the session machine, from every point of a run to every later one: seen as the
  stage, charged attempts, cap and stop reason of each session, what the repositories do between the two points is a run
  in which sessions are armed with a cap of one to ten and no attempts, reserve one attempt at a time while they admit
  entries and are below the cap, may be drained once for a reason, and are finished. So a session is never forgotten
  and its cap never changes, a draining session never admits entries again and keeps its count and its reason, and a
  finished session never changes again, whatever is asked of it.
\<close>

theorem canary_refines_sessions:
  "session_spec\<^sup>*\<^sup>* (\<lambda>_. None) (phases (fold (canary_step models bull bear sha) ops (empty_canary instance_id))) \<and>
   session_spec\<^sup>*\<^sup>* (phases (fold (canary_step models bull bear sha) ops (empty_canary instance_id)))
     (phases (fold (canary_step models bull bear sha) (ops @ later) (empty_canary instance_id))) \<and>
   (\<forall>k. phase_after (phases (fold (canary_step models bull bear sha) ops (empty_canary instance_id)) k)
     (phases (fold (canary_step models bull bear sha) (ops @ later) (empty_canary instance_id)) k))"
proof -
  let ?run = "\<lambda>ops. fold (canary_step models bull bear sha) ops (empty_canary instance_id)"
  have "phases (empty_canary instance_id) = (\<lambda>_. None)" by (simp add: phases_def session_at_def empty_canary_def fun_eq_iff)
  moreover have "session_spec\<^sup>*\<^sup>* (phases (empty_canary instance_id)) (phases (?run ops))"
    by (rule session_machine.run_refines) (simp_all add: list_all_iff empty_canary_inv)
  moreover have run: "session_spec\<^sup>*\<^sup>* (phases (?run ops)) (phases (?run (ops @ later)))"
    unfolding fold_append comp_apply
    by (rule session_machine.run_refines) (simp_all add: list_all_iff canary.reach_inv [OF empty_canary_inv])
  ultimately show ?thesis using session_spec_after [OF run] by simp
qed

definition silent_when_closed :: "entry_binding list \<Rightarrow> canary_db \<Rightarrow> bool" where
  "silent_when_closed log db \<longleftrightarrow>
     list_all (\<lambda>s. se_state s \<in> set entry_states \<or> filter (\<lambda>b. eb_session_id b = se_session_id s) log = []) (cb_sessions db)"

lemma no_dispatch_closed:
  assumes "canary_inv models db" and "s \<in> set (cb_sessions db)" and "se_state s \<notin> set entry_states"
    and "b \<in> set (dispatched models bull bear sha ops db)"
  shows "eb_session_id b \<noteq> se_session_id s"
  using assms
proof (induction ops arbitrary: db s)
  case (Cons op ops)
  let ?db = "canary_step models bull bear sha op db"
  show ?case
  proof (cases "b \<in> set (yielded models sha op db)")
    case True
    then obtain bs where "yielded models sha op db = b # bs"
      using yielded_claim(1) by (cases "yielded models sha op db") fastforce+
    from yielded_claim(3) [OF this] obtain r where r: "r \<in> set (cb_sessions db)" "se_session_id r = eb_session_id b"
        "se_state r \<in> set entry_states" by blast
    with Cons.prems unique_by_eq [OF _ r(1) Cons.prems(2), of se_session_id] show ?thesis
      by (auto simp: canary_inv_def sessions_unique_def)
  next
    case False
    then have b: "b \<in> set (dispatched models bull bear sha ops ?db)" using Cons.prems(4) by simp
    obtain s' where s': "s' \<in> set (cb_sessions ?db)" "session_le s s'"
      using canary.step_le [OF Cons.prems(1)] Cons.prems(2) unfolding canary_le_def by blast
    with Cons.prems(3) have "se_state s' \<notin> set entry_states" by (simp add: session_le_def)
    from Cons.IH [OF canary_step_inv [OF Cons.prems(1)] s'(1) this b] s'(2)
    show ?thesis by (simp add: session_le_def session_keeps_def)
  qed
qed simp

text \<open>
  Once a session has left its entry states (an operator stopped it, its deadline was observed, or
  its slots are spent), nothing dispatches an entry of it again: whatever operations follow any
  run, their log holds no entry of any session that was closed at that point.
\<close>

theorem closed_session_silent:
  "silent_when_closed
     (dispatched models bull bear sha ops2 (fold (canary_step models bull bear sha) ops1 (empty_canary instance_id)))
     (fold (canary_step models bull bear sha) ops1 (empty_canary instance_id))"
proof -
  let ?db = "fold (canary_step models bull bear sha) ops1 (empty_canary instance_id)"
  have inv: "canary_inv models ?db" using canary.reach_inv [OF empty_canary_inv] .
  have "se_state s \<in> set entry_states \<or>
      filter (\<lambda>b. eb_session_id b = se_session_id s) (dispatched models bull bear sha ops2 ?db) = []"
    if "s \<in> set (cb_sessions ?db)" for s
    using no_dispatch_closed [OF inv that] by (auto simp: filter_empty_conv)
  then show ?thesis by (simp add: silent_when_closed_def list_all_iff)
qed

definition decisions_kept :: "canary_db \<Rightarrow> canary_db \<Rightarrow> bool" where
  "decisions_kept db1 db2 \<longleftrightarrow> prefix (cb_claims db1) (cb_claims db2) \<and>
     list_all (\<lambda>m. m \<in> set (cb_arms db2)) (filter (\<lambda>m. am_status m = ARM_CONSUMED) (cb_arms db1))"

text \<open>
  What has been decided stays: a claim for dispatch stays in the table, before the later ones, and
  the row of a consumed arm never changes again, so a repeated consumption answers from the same row.
\<close>

theorem canary_decisions_final:
  "decisions_kept (fold (canary_step models bull bear sha) ops1 (empty_canary instance_id))
     (fold (canary_step models bull bear sha) ops2 (fold (canary_step models bull bear sha) ops1 (empty_canary instance_id)))"
  using canary.run_le [OF canary.reach_inv [OF empty_canary_inv]]
  by (auto simp: decisions_kept_def canary_le_def list_all_iff)

end
