(* ===== verification/OperatorControl.thy ===== *)
theory OperatorControl
  imports CanaryRuns "HOL-Library.Code_Target_Nat"
begin

text \<open>
  The operator's entry latch, \<open>kairos_persistence/operator_control.py\<close> over the tables of migration 026: one
  latch row per remote account, an append-only log of commands, the admissions of risk decisions and the claims for
  dispatch. \<open>rt\<close> is the row of the catalogue query on the runtime role and \<open>role\<close> that on the
  operator's; \<open>now\<close>, \<open>t1\<close> and \<open>t2\<close> are the successive readings of the clock; \<open>locked\<close> says whether the
  advisory lock was granted within its five seconds.
\<close>

subsection \<open>Bounded documents\<close>

definition max_payload_bytes :: nat where
  "max_payload_bytes = 262144"

definition operator_role :: string where
  "operator_role = ''kairos_operator''"

text \<open>\<open>len(text.encode("utf-8"))\<close>\<close>

definition utf8_length :: "string \<Rightarrow> nat" where
  "utf8_length s = sum_list (map (\<lambda>c. if (of_char c :: nat) < 128 then 1 else 2) s)"

text \<open>
  The text of a \<open>JSONB\<close> value, which has a blank after every comma and colon; only its length
  is used, so the order of its members does not matter.
\<close>

fun join_spaced :: "string list \<Rightarrow> string" where
  "join_spaced [] = []"
| "join_spaced [x] = x"
| "join_spaced (x # y # ys) = x @ '', '' @ join_spaced (y # ys)"

primrec jsonb_text :: "json \<Rightarrow> string" where
  "jsonb_text JNull = ''null''"
| "jsonb_text (JBool b) = (if b then ''true'' else ''false'')"
| "jsonb_text (JInt n) = show_int n"
| "jsonb_text (JFloat t) = t"
| "jsonb_text (JStr s) = json_quote s"
| "jsonb_text (JArr xs) = ''['' @ join_spaced (map jsonb_text xs) @ '']''"
| "jsonb_text (JObj kvs) =
     ''{'' @ join_spaced (map (\<lambda>kv. json_quote (fst kv) @ '': '' @ snd kv) (map (map_prod id jsonb_text) kvs)) @ ''}''"

primrec json_nodes :: "json \<Rightarrow> nat" where
  "json_nodes JNull = 1"
| "json_nodes (JBool b) = 1"
| "json_nodes (JInt n) = 1"
| "json_nodes (JFloat t) = 1"
| "json_nodes (JStr s) = 1"
| "json_nodes (JArr xs) = Suc (sum_list (map json_nodes xs))"
| "json_nodes (JObj kvs) = Suc (sum_list (map snd (map (map_prod id json_nodes) kvs)))"

lemma json_nodes_pos: "0 < json_nodes j"
  by (cases j) simp_all

lemma sum_map_rev [simp]: "sum_list (map f (rev xs)) = sum_list (map f xs)" for f :: "'a \<Rightarrow> nat"
  by (metis rev_map sum_list_rev)

text \<open>
  The loop of \<open>_payload\<close> over \<open>pending\<close>, a stack: \<open>pop\<close> takes the last entry, so the head of the list
  is the last entry of the source's list and the children are put in front in reverse.
\<close>

definition too_structured :: "unit res" where
  "too_structured = Inl (MessageIdentityConflict ''operator evidence exceeds bounded structure'')"

function scan_payload :: "(json \<times> nat) list \<Rightarrow> nat \<Rightarrow> unit res" where
  "scan_payload [] nodes = Inr ()"
| "scan_payload ((item, depth) # pending) nodes =
     (if 10000 < nodes + 1 \<or> 32 < depth then too_structured
      else case item of
          JObj kvs \<Rightarrow>
            if 10000 < length kvs then Inl (MessageIdentityConflict ''operator evidence object is too large'')
            else scan_payload (rev (map (\<lambda>kv. (snd kv, depth + 1)) kvs) @ pending) (nodes + 1)
        | JArr xs \<Rightarrow>
            if 10000 < length xs then Inl (MessageIdentityConflict ''operator evidence array is too large'')
            else scan_payload (rev (map (\<lambda>x. (x, depth + 1)) xs) @ pending) (nodes + 1)
        | JStr s \<Rightarrow>
            if max_payload_bytes < utf8_length s
            then Inl (MessageIdentityConflict ''operator evidence text is too large'')
            else scan_payload pending (nodes + 1)
        | _ \<Rightarrow> scan_payload pending (nodes + 1))"
  by pat_completeness auto
termination
  by (relation "measure (\<lambda>(pending, n). sum_list (map (json_nodes \<circ> fst) pending))") (auto simp: comp_def json_nodes_pos)

text \<open>What the loop accepts, by recursion on the document: how deep it is and the texts it holds.\<close>

primrec json_depth :: "json \<Rightarrow> nat" where
  "json_depth JNull = 0"
| "json_depth (JBool b) = 0"
| "json_depth (JInt n) = 0"
| "json_depth (JFloat t) = 0"
| "json_depth (JStr s) = 0"
| "json_depth (JArr xs) = fold (\<lambda>d m. max (Suc d) m) (map json_depth xs) 0"
| "json_depth (JObj kvs) = fold (\<lambda>d m. max (Suc d) m) (map snd (map (map_prod id json_depth) kvs)) 0"

primrec json_texts :: "json \<Rightarrow> string list" where
  "json_texts JNull = []"
| "json_texts (JBool b) = []"
| "json_texts (JInt n) = []"
| "json_texts (JFloat t) = []"
| "json_texts (JStr s) = [s]"
| "json_texts (JArr xs) = concat (map json_texts xs)"
| "json_texts (JObj kvs) = concat (map snd (map (map_prod id json_texts) kvs))"

definition bounded_structure :: "json \<Rightarrow> bool" where
  "bounded_structure j \<longleftrightarrow> json_nodes j \<le> 10000 \<and> json_depth j \<le> 32 \<and>
     list_all (\<lambda>s. utf8_length s \<le> max_payload_bytes) (json_texts j)"

lemma fold_depth_le: "fold (\<lambda>d m. max (Suc d) m) ds k \<le> n \<longleftrightarrow> k \<le> n \<and> (\<forall>d\<in>set ds. Suc d \<le> n)"
  by (induction ds arbitrary: k) auto

lemma fold_depth_within:
  assumes "d \<le> 32"
  shows "d + fold (\<lambda>d m. max (Suc d) m) ds 0 \<le> 32 \<longleftrightarrow> (\<forall>x\<in>set ds. Suc d + x \<le> 32)"
proof -
  have "d + fold (\<lambda>d m. max (Suc d) m) ds 0 \<le> 32 \<longleftrightarrow> fold (\<lambda>d m. max (Suc d) m) ds 0 \<le> 32 - d"
    using assms by auto
  also have "\<dots> \<longleftrightarrow> (\<forall>x\<in>set ds. Suc x \<le> 32 - d)" by (simp add: fold_depth_le)
  also have "\<dots> \<longleftrightarrow> (\<forall>x\<in>set ds. Suc d + x \<le> 32)" using assms by auto
  finally show ?thesis .
qed

lemma length_le_nodes: "length xs \<le> sum_list (map json_nodes xs)"
proof (induction xs)
  case (Cons x xs)
  with json_nodes_pos [of x] show ?case by simp
qed simp

definition scan_ok :: "nat \<Rightarrow> (json \<times> nat) list \<Rightarrow> bool" where
  "scan_ok n pending \<longleftrightarrow> n + sum_list (map (json_nodes \<circ> fst) pending) \<le> 10000 \<and>
     list_all (\<lambda>p. snd p + json_depth (fst p) \<le> 32 \<and>
       list_all (\<lambda>s. utf8_length s \<le> max_payload_bytes) (json_texts (fst p))) pending"

lemma scan_payload_accepts: "n \<le> 10000 \<Longrightarrow> scan_payload pending n = Inr () \<longleftrightarrow> scan_ok n pending"
proof (induction pending n rule: scan_payload.induct)
  case (2 item depth pending n)
  show ?case
  proof (cases "10000 < n + 1 \<or> 32 < depth")
    case True
    with json_nodes_pos [of item] show ?thesis by (auto simp: too_structured_def scan_ok_def)
  next
    case False
    then show ?thesis
    proof (cases item)
      case (JArr xs)
      have d: "depth \<le> 32" using False by simp
      have "length xs \<le> sum_list (map json_nodes xs)" by (rule length_le_nodes)
      with False have "scan_payload ((item, depth) # pending) n = Inr () \<longleftrightarrow>
          length xs \<le> 10000 \<and> scan_payload (rev (map (\<lambda>x. (x, depth + 1)) xs) @ pending) (n + 1) = Inr ()"
        by (simp add: JArr not_less)
      also have "\<dots> \<longleftrightarrow> scan_ok n ((item, depth) # pending)"
        using 2(6) [OF False JArr] False \<open>length xs \<le> _\<close>
        by (auto simp: scan_ok_def JArr fold_depth_within [OF d] comp_def list_all_iff ball_Un) fastforce+
      finally show ?thesis .
    next
      case (JObj kvs)
      have d: "depth \<le> 32" using False by simp
      have "length kvs \<le> sum_list (map json_nodes (map snd kvs))" using length_le_nodes [of "map snd kvs"] by simp
      with False have "scan_payload ((item, depth) # pending) n = Inr () \<longleftrightarrow>
          length kvs \<le> 10000 \<and> scan_payload (rev (map (\<lambda>kv. (snd kv, depth + 1)) kvs) @ pending) (n + 1) = Inr ()"
        by (simp add: JObj not_less)
      also have "\<dots> \<longleftrightarrow> scan_ok n ((item, depth) # pending)"
        using 2(7) [OF False JObj] False \<open>length kvs \<le> _\<close>
        by (auto simp: scan_ok_def JObj fold_depth_within [OF d] comp_def list_all_iff ball_Un) fastforce+
      finally show ?thesis .
    qed (use False 2 in \<open>auto simp: not_le scan_ok_def\<close>)
  qed
qed (simp add: scan_ok_def)

text \<open>
  C27. The bounded scan of \<open>_payload\<close>, a loop over a stack with a node counter, ends on every document and accepts
  exactly the documents of at most 10,000 nodes, nested at most 32 deep, whose texts are at most
  262,144 bytes in UTF-8: its limits on the length of an object or an array never refuse more.
\<close>

theorem scan_payload_bounds: "scan_payload [(j, 0)] 0 = Inr () \<longleftrightarrow> bounded_structure j"
  using scan_payload_accepts [of 0 "[(j, 0)]"] by (simp add: bounded_structure_def scan_ok_def)

text \<open>\<open>_payload\<close> of a \<open>JSONB\<close> column, which arrives as its text.\<close>

definition bounded_payload :: "(string \<Rightarrow> string) \<Rightarrow> json \<Rightarrow> string \<Rightarrow> json res" where
  "bounded_payload sha value expected_sha =
     (if max_payload_bytes < utf8_length (jsonb_text value)
      then Inl (MessageIdentityConflict ''operator evidence exceeds its bounded size'')
      else if \<not> is_object value then Inl (MessageIdentityConflict ''operator evidence must be an object'')
      else rbind (scan_payload [(value, 0)] 0) (\<lambda>_.
           rbind (canonical_payload sha value) (\<lambda>(encoded, actual).
             if max_payload_bytes < utf8_length encoded \<or> actual \<noteq> expected_sha
             then Inl (MessageIdentityConflict ''operator evidence fingerprint differs'')
             else Inr value)))"

lemma bounded_payload_Inr [returned]:
  "bounded_payload sha value d = Inr x \<longleftrightarrow> x = value \<and> is_object value \<and> json_finite value \<and>
     d = sha (canonical_json value) \<and> bounded_structure value \<and>
     utf8_length (jsonb_text value) \<le> max_payload_bytes \<and> utf8_length (canonical_json value) \<le> max_payload_bytes"
  using scan_payload_accepts [of 0 "[(value, 0)]"]
  by (auto simp: bounded_payload_def rbind_eq_Inr canonical_payload_Inr bounded_structure_def scan_ok_def)

subsection \<open>Documents\<close>

datatype operator_action = ARM | DISARM | KILL

primrec action_text :: "operator_action \<Rightarrow> string" where
  "action_text ARM = ''ARM''"
| "action_text DISARM = ''DISARM''"
| "action_text KILL = ''KILL''"

datatype latch_state = LATCH_ARMED | LATCH_DISARMED | LATCH_KILLED

primrec state_after :: "operator_action \<Rightarrow> latch_state" where
  "state_after ARM = LATCH_ARMED"
| "state_after DISARM = LATCH_DISARMED"
| "state_after KILL = LATCH_KILLED"

record operator_command =
  oc_command_id :: string
  oc_scope :: canary_scope
  oc_action :: operator_action
  oc_expected_version :: int
  oc_operator_label :: string
  oc_session_id :: "string option"
  oc_expires_at_ms :: "int option"

record operator_snapshot =
  sn_scope :: canary_scope
  sn_version :: int
  sn_state :: latch_state
  sn_session_id :: "string option"
  sn_expires_at_ms :: "int option"
  sn_audit_head_sha256 :: string

record operator_admission =
  bd_scope_sha256 :: string
  bd_control_version :: int
  bd_session_id :: string
  bd_decision_id :: string
  bd_decision_sha256 :: string
  bd_trade_id :: string
  bd_expires_at_ms :: int

definition optional_sha :: "string option \<Rightarrow> bool" where
  "optional_sha x \<longleftrightarrow> (case x of None \<Rightarrow> True | Some s \<Rightarrow> sha256_hex s)"

definition optional_positive :: "int option \<Rightarrow> bool" where
  "optional_positive x \<longleftrightarrow> (case x of None \<Rightarrow> True | Some n \<Rightarrow> 0 < n)"

definition label_char :: "char \<Rightarrow> bool" where
  "label_char c \<longleftrightarrow> slug_char c \<or> slug_char (ascii_lower c) \<or> c \<in> set ''_.-''"

definition command_valid :: "operator_command \<Rightarrow> bool" where
  "command_valid c \<longleftrightarrow> sha256_hex (oc_command_id c) \<and> scope_valid (oc_scope c) \<and> 0 \<le> oc_expected_version c \<and>
     1 \<le> length (oc_operator_label c) \<and> length (oc_operator_label c) \<le> 64 \<and> list_all label_char (oc_operator_label c) \<and>
     optional_sha (oc_session_id c) \<and> optional_positive (oc_expires_at_ms c) \<and>
     (oc_action c = ARM) = (oc_session_id c \<noteq> None \<and> oc_expires_at_ms c \<noteq> None) \<and>
     \<not> (oc_action c \<noteq> ARM \<and> (oc_session_id c \<noteq> None \<or> oc_expires_at_ms c \<noteq> None))"

definition command_dump :: "operator_command \<Rightarrow> json" where
  "command_dump c = JObj
     [(''command_id'', JStr (oc_command_id c)), (''scope'', scope_dump (oc_scope c)),
      (''action'', JStr (action_text (oc_action c))), (''expected_version'', JInt (oc_expected_version c)),
      (''operator_label'', JStr (oc_operator_label c)), (''session_id'', json_text (oc_session_id c)),
      (''expires_at_ms'', json_optional_int (oc_expires_at_ms c))]"

definition snapshot_valid :: "operator_snapshot \<Rightarrow> bool" where
  "snapshot_valid s \<longleftrightarrow> 0 < sn_version s \<and> optional_sha (sn_session_id s) \<and> optional_positive (sn_expires_at_ms s) \<and>
     sha256_hex (sn_audit_head_sha256 s)"

definition admission_valid :: "operator_admission \<Rightarrow> bool" where
  "admission_valid b \<longleftrightarrow> sha256_hex (bd_scope_sha256 b) \<and> 0 < bd_control_version b \<and> sha256_hex (bd_session_id b) \<and>
     sha256_hex (bd_decision_id b) \<and> sha256_hex (bd_decision_sha256 b) \<and> sha256_hex (bd_trade_id b) \<and>
     0 < bd_expires_at_ms b"

definition admission_dump :: "operator_admission \<Rightarrow> json" where
  "admission_dump b = JObj
     [(''scope_sha256'', JStr (bd_scope_sha256 b)), (''control_version'', JInt (bd_control_version b)),
      (''session_id'', JStr (bd_session_id b)), (''decision_id'', JStr (bd_decision_id b)),
      (''decision_sha256'', JStr (bd_decision_sha256 b)), (''trade_id'', JStr (bd_trade_id b)),
      (''expires_at_ms'', JInt (bd_expires_at_ms b))]"

text \<open>The construction of a model, whose validators refuse a field out of its range.\<close>

definition constructed :: "('a \<Rightarrow> bool) \<Rightarrow> 'a \<Rightarrow> 'a res" where
  "constructed valid x = (if valid x then Inr x else Inl (ValueError ''validation error''))"

lemma constructed_Inr [returned]: "constructed valid x = Inr y \<longleftrightarrow> valid x \<and> y = x"
  by (auto simp: constructed_def)

record operator_models = canary_models +
  decode_command :: "json \<Rightarrow> operator_command option"
  decode_admission :: "json \<Rightarrow> operator_admission option"

subsection \<open>Tables\<close>

record control_row =
  ct_scope_key :: string
  ct_scope_payload :: json
  ct_scope_sha256 :: string
  ct_version :: int
  ct_state :: latch_state
  ct_session_id :: "string option"
  ct_expires_at_ms :: "int option"
  ct_audit_head_sha256 :: string

record command_row =
  cm_command_id :: string
  cm_scope_key :: string
  cm_version :: int
  cm_command_payload :: json
  cm_command_sha256 :: string
  cm_event_payload :: json
  cm_event_sha256 :: string
  cm_actor :: string

record admission_row =
  ad_decision_id :: string
  ad_scope_key :: string
  ad_version :: int
  ad_decision_sha256 :: string
  ad_payload :: json
  ad_payload_sha256 :: string

record operator_claim_row =
  oq_effect_id :: string
  oq_decision_id :: string
  oq_scope_key :: string
  oq_version :: int
  oq_payload :: json
  oq_payload_sha256 :: string

record operator_db = canary_db +
  od_controls :: "control_row list"
  od_commands :: "command_row list"
  od_admissions :: "admission_row list"
  od_claims :: "operator_claim_row list"

definition control_at :: "string \<Rightarrow> operator_db \<Rightarrow> control_row option" where
  "control_at key db = select_one (\<lambda>r. ct_scope_key r = key) (od_controls db)"

definition command_at :: "string \<Rightarrow> operator_db \<Rightarrow> command_row option" where
  "command_at command_id db = select_one (\<lambda>c. cm_command_id c = command_id) (od_commands db)"

definition head_command :: "string \<Rightarrow> int \<Rightarrow> operator_db \<Rightarrow> command_row option" where
  "head_command key version db = select_one (\<lambda>c. cm_scope_key c = key \<and> cm_version c = version) (od_commands db)"

definition admission_at :: "string \<Rightarrow> operator_db \<Rightarrow> admission_row option" where
  "admission_at decision_id db = select_one (\<lambda>a. ad_decision_id a = decision_id) (od_admissions db)"

subsection \<open>Roles\<close>

record operator_login =
  ol_actor :: string
  ol_rolsuper :: bool
  ol_rolbypassrls :: bool
  ol_rolcanlogin :: bool

definition command_role :: "operator_login option \<Rightarrow> bool" where
  "command_role role \<longleftrightarrow> (case role of None \<Rightarrow> False
     | Some r \<Rightarrow> ol_actor r = operator_role \<and> \<not> ol_rolsuper r \<and> \<not> ol_rolbypassrls r \<and> ol_rolcanlogin r)"

record runtime_role =
  rt_rolsuper :: bool
  rt_rolbypassrls :: bool
  rt_rolcreaterole :: bool
  rt_rolcreatedb :: bool
  rt_rolreplication :: bool
  rt_operator_member :: bool
  rt_schema_create :: bool
  rt_schema_usage :: bool
  rt_database_connect :: bool
  rt_owns_database :: bool
  rt_owns_control_functions :: bool
  rt_owns_runtime_tables :: bool
  rt_unsafe_control_write :: bool
  rt_table_count :: int
  rt_required_control_select :: bool
  rt_required_runtime_insert :: bool

definition assert_runtime_privileges :: "runtime_role option \<Rightarrow> unit res" where
  "assert_runtime_privileges role =
     (if (case role of None \<Rightarrow> True
          | Some r \<Rightarrow> rt_rolsuper r \<or> rt_rolbypassrls r \<or> rt_rolcreaterole r \<or> rt_rolcreatedb r \<or> rt_rolreplication r \<or>
              rt_operator_member r \<or> rt_schema_create r \<or> \<not> rt_schema_usage r \<or> \<not> rt_database_connect r \<or>
              rt_owns_database r \<or> rt_owns_control_functions r \<or> rt_owns_runtime_tables r \<or>
              rt_unsafe_control_write r \<or> rt_table_count r \<noteq> 4 \<or> \<not> rt_required_control_select r \<or>
              \<not> rt_required_runtime_insert r)
      then Inl (OperatorControlRefused ''runtime operator control requires independently separated database roles'')
      else Inr ())"

text \<open>\<open>except OperatorControlRefused: raise\<close>, \<open>except Exception: raise OperatorControlUnavailable(..)\<close>\<close>

definition sanitized :: "string \<Rightarrow> 'a res \<Rightarrow> 'a res" where
  "sanitized text m = (case m of
       Inr x \<Rightarrow> Inr x
     | Inl e \<Rightarrow> (case e of
           OperatorControlRefused s \<Rightarrow> Inl e
         | OperatorControlUnavailable s \<Rightarrow> Inl e
         | _ \<Rightarrow> if is_exception e then Inl (OperatorControlUnavailable text) else Inl e))"

lemma sanitized_Inr [returned, simp]: "sanitized text m = Inr x \<longleftrightarrow> m = Inr x"
  by (auto simp: sanitized_def split: sum.splits py_error.splits)

definition verify_runtime_access :: "runtime_role option \<Rightarrow> unit res" where
  "verify_runtime_access rt =
     sanitized ''runtime operator privileges cannot be verified'' (assert_runtime_privileges rt)"

subsection \<open>Reading the latch\<close>

definition scope_key :: "operator_models \<Rightarrow> (string \<Rightarrow> string) \<Rightarrow> canary_scope \<Rightarrow> string res" where
  "scope_key models sha scope =
     rbind (validated (decode_scope models) (scope_dump scope)) (\<lambda>checked.
       digest sha (JObj [(''domain'', JStr ''kairos.operator-account.v1''), (''profile'', JStr ''DEV''),
         (''exchange'', JStr ''evedex''), (''remote_account_id'', JStr (cs_remote_account_id checked))]))"

definition latch_differs :: "canary_scope \<Rightarrow> control_row \<Rightarrow> command_row \<Rightarrow> operator_command \<Rightarrow> json \<Rightarrow> bool" where
  "latch_differs scope row head command event \<longleftrightarrow>
     oc_scope command \<noteq> scope \<or> oc_expected_version command + 1 \<noteq> ct_version row \<or>
     ct_state row \<noteq> state_after (oc_action command) \<or> ct_session_id row \<noteq> oc_session_id command \<or>
     ct_expires_at_ms row \<noteq> oc_expires_at_ms command \<or>
     json_get ''actor'' event \<noteq> Some (JStr operator_role) \<or>
     json_get ''command_sha256'' event \<noteq> Some (JStr (cm_command_sha256 head)) \<or>
     (case json_get ''version'' event of None \<Rightarrow> True | Some v \<Rightarrow> \<not> json_eq v (JInt (ct_version row)))"

text \<open>\<open>_snapshot\<close> with \<open>active=False\<close>\<close>

definition latch_snapshot ::
  "operator_models \<Rightarrow> (string \<Rightarrow> string) \<Rightarrow> canary_scope \<Rightarrow> operator_db \<Rightarrow> operator_snapshot res" where
  "latch_snapshot models sha scope db =
     rbind (scope_key models sha scope) (\<lambda>key.
       case control_at key db of
         None \<Rightarrow> Inl (OperatorControlRefused ''operator control is missing'')
       | Some row \<Rightarrow>
           rbind (bounded_payload sha (ct_scope_payload row) (ct_scope_sha256 row)) (\<lambda>stored.
             if \<not> json_eq stored (scope_dump scope)
             then Inl (OperatorControlRefused ''operator control scope/config differs'')
             else case head_command key (ct_version row) db of
                 None \<Rightarrow> Inl (MessageIdentityConflict ''operator audit head is missing or inconsistent'')
               | Some head \<Rightarrow>
                   if cm_actor head \<noteq> operator_role \<or> cm_event_sha256 head \<noteq> ct_audit_head_sha256 row
                   then Inl (MessageIdentityConflict ''operator audit head is missing or inconsistent'')
                   else rbind (bounded_payload sha (cm_command_payload head) (cm_command_sha256 head)) (\<lambda>stored_command.
                        rbind (validated (decode_command models) stored_command) (\<lambda>command.
                        rbind (bounded_payload sha (cm_event_payload head) (cm_event_sha256 head)) (\<lambda>event.
                          if latch_differs scope row head command event
                          then Inl (MessageIdentityConflict ''operator latch differs from its authenticated command'')
                          else constructed snapshot_valid
                            \<lparr>sn_scope = scope, sn_version = ct_version row, sn_state = ct_state row,
                             sn_session_id = ct_session_id row, sn_expires_at_ms = ct_expires_at_ms row,
                             sn_audit_head_sha256 = ct_audit_head_sha256 row\<rparr>)))))"

text \<open>\<open>_session\<close>\<close>

definition leased_session ::
  "(string \<Rightarrow> string) \<Rightarrow> canary_scope \<Rightarrow> string option \<Rightarrow> int \<Rightarrow> int \<Rightarrow> operator_db \<Rightarrow> unit res" where
  "leased_session sha scope session_id expiry now_ms db =
     (let refused = Inl (OperatorControlRefused ''operator lease requires the exact active bounded canary session'') in
      case select_one (\<lambda>s. Some (se_session_id s) = session_id) (cb_sessions db) of
        None \<Rightarrow> refused
      | Some row \<Rightarrow>
          if se_state row \<notin> set entry_states then refused
          else rbind (digest sha (scope_dump scope)) (\<lambda>d.
               if se_scope_sha256 row \<noteq> d then refused
               else rbind (bounded_payload sha (se_scope row) (se_scope_sha256 row)) (\<lambda>stored.
                 if \<not> json_eq stored (scope_dump scope) \<or>
                    \<not> (now_ms < expiry \<and> expiry \<le> millis (se_entry_deadline_at row))
                 then refused else Inr ())))"

text \<open>\<open>_snapshot\<close> with \<open>active=True\<close>\<close>

definition active_snapshot ::
  "operator_models \<Rightarrow> (string \<Rightarrow> string) \<Rightarrow> runtime_role option \<Rightarrow> canary_scope \<Rightarrow> timestamp \<Rightarrow> operator_db
     \<Rightarrow> operator_snapshot res" where
  "active_snapshot models sha rt scope now db =
     rbind (assert_runtime_privileges rt) (\<lambda>_.
     rbind (latch_snapshot models sha scope db) (\<lambda>snapshot.
       case sn_expires_at_ms snapshot of
         None \<Rightarrow> Inl (OperatorControlRefused ''operator control is disarmed, killed or expired'')
       | Some expiry \<Rightarrow>
           if sn_state snapshot \<noteq> LATCH_ARMED \<or> expiry \<le> millis now
           then Inl (OperatorControlRefused ''operator control is disarmed, killed or expired'')
           else rbind (leased_session sha scope (sn_session_id snapshot) expiry (millis now) db) (\<lambda>_.
                Inr snapshot)))"

definition operator_snapshot_op ::
  "operator_models \<Rightarrow> (string \<Rightarrow> string) \<Rightarrow> runtime_role option \<Rightarrow> canary_scope \<Rightarrow> timestamp \<Rightarrow> operator_db
     \<Rightarrow> operator_snapshot res" where
  "operator_snapshot_op models sha rt scope now db =
     sanitized ''operator control cannot be independently verified'' (active_snapshot models sha rt scope now db)"

subsection \<open>Commands\<close>

definition command_check :: "command_row \<Rightarrow> bool" where
  "command_check c \<longleftrightarrow> sha256_hex (cm_command_id c) \<and> sha256_hex (cm_command_sha256 c) \<and>
     sha256_hex (cm_event_sha256 c) \<and> cm_actor c = operator_role"

definition insert_command :: "command_row \<Rightarrow> operator_db \<Rightarrow> operator_db res" where
  "insert_command row db =
     (if \<not> int8 (cm_version row) then Inl (DataError ''value out of int64 range'')
      else if \<not> command_check row \<or> cm_command_id row \<in> set (map cm_command_id (od_commands db)) \<or>
        (cm_scope_key row, cm_version row) \<in> set (map (\<lambda>c. (cm_scope_key c, cm_version c)) (od_commands db))
      then Inl (IntegrityError ''operator_control_commands'')
      else Inr (db\<lparr>od_commands := insert_row row (od_commands db)\<rparr>))"

definition control_check :: "control_row \<Rightarrow> bool" where
  "control_check r \<longleftrightarrow> sha256_hex (ct_scope_sha256 r) \<and> 0 < ct_version r \<and> sha256_hex (ct_audit_head_sha256 r) \<and>
     (if ct_state r = LATCH_ARMED
      then ct_session_id r \<noteq> None \<and> (case ct_expires_at_ms r of None \<Rightarrow> False | Some e \<Rightarrow> 0 < e)
      else ct_session_id r = None \<and> ct_expires_at_ms r = None)"

text \<open>The columns that \<open>ON CONFLICT(scope_key) DO UPDATE\<close> sets.\<close>

definition moved_latch :: "control_row \<Rightarrow> control_row \<Rightarrow> control_row" where
  "moved_latch new r = r\<lparr>ct_version := ct_version new, ct_state := ct_state new, ct_session_id := ct_session_id new,
     ct_expires_at_ms := ct_expires_at_ms new, ct_audit_head_sha256 := ct_audit_head_sha256 new\<rparr>"

definition known_session :: "string option \<Rightarrow> operator_db \<Rightarrow> bool" where
  "known_session session_id db \<longleftrightarrow>
     (case session_id of None \<Rightarrow> True | Some s \<Rightarrow> s \<in> set (map se_session_id (cb_sessions db)))"

definition upsert_control :: "control_row \<Rightarrow> operator_db \<Rightarrow> operator_db res" where
  "upsert_control row db =
     (if \<not> int8 (case ct_expires_at_ms row of None \<Rightarrow> 0 | Some e \<Rightarrow> e) then Inl (DataError ''value out of int64 range'')
      else if \<not> control_check row \<or> \<not> known_session (ct_session_id row) db then Inl (IntegrityError ''operator_controls'')
      else Inr (db\<lparr>od_controls := (case control_at (ct_scope_key row) db of
              None \<Rightarrow> insert_row row (od_controls db)
            | Some _ \<Rightarrow> update_where (\<lambda>r. ct_scope_key r = ct_scope_key row) (moved_latch row) (od_controls db))\<rparr>))"

definition command_event :: "string \<Rightarrow> string \<Rightarrow> int \<Rightarrow> string \<Rightarrow> int \<Rightarrow> json" where
  "command_event actor command_sha256 version previous_sha256 now_ms = JObj
     [(''domain'', JStr ''kairos.operator-command-event.v1''), (''actor'', JStr actor),
      (''command_sha256'', JStr command_sha256), (''version'', JInt version),
      (''previous_sha256'', JStr previous_sha256), (''observed_at_ms'', JInt now_ms)]"

text \<open>The writes of a command that passed its checks: the log, then the latch.\<close>

definition record_command ::
  "(string \<Rightarrow> string) \<Rightarrow> operator_command \<Rightarrow> string \<Rightarrow> string \<Rightarrow> control_row option \<Rightarrow> int \<Rightarrow> operator_db \<Rightarrow> operator_db res" where
  "record_command sha command key command_hash row now_ms db =
     (let version = (case row of None \<Rightarrow> 0 | Some r \<Rightarrow> ct_version r);
          previous = (case row of None \<Rightarrow> zero_sha | Some r \<Rightarrow> ct_audit_head_sha256 r);
          event = command_event operator_role command_hash (version + 1) previous now_ms;
          data = scope_dump (oc_scope command)
      in rbind (digest sha event) (\<lambda>event_hash.
         rbind (store_json (command_dump command)) (\<lambda>command_doc.
         rbind (store_json event) (\<lambda>event_doc.
         rbind (insert_command \<lparr>cm_command_id = oc_command_id command, cm_scope_key = key, cm_version = version + 1,
                  cm_command_payload = command_doc, cm_command_sha256 = command_hash, cm_event_payload = event_doc,
                  cm_event_sha256 = event_hash, cm_actor = operator_role\<rparr> db) (\<lambda>db1.
         rbind (store_json data) (\<lambda>scope_doc.
         rbind (digest sha data) (\<lambda>scope_sha256.
           upsert_control \<lparr>ct_scope_key = key, ct_scope_payload = scope_doc, ct_scope_sha256 = scope_sha256,
             ct_version = version + 1, ct_state = state_after (oc_action command), ct_session_id = oc_session_id command,
             ct_expires_at_ms = oc_expires_at_ms command, ct_audit_head_sha256 = event_hash\<rparr> db1)))))))"

text \<open>A new command: the fence, the present latch, the lease of an \<open>ARM\<close>.\<close>

definition new_command ::
  "operator_models \<Rightarrow> (string \<Rightarrow> string) \<Rightarrow> operator_command \<Rightarrow> string \<Rightarrow> string \<Rightarrow> timestamp \<Rightarrow> operator_db
     \<Rightarrow> operator_db res" where
  "new_command models sha command key command_hash now db =
     (let row = control_at key db in
      if (case row of None \<Rightarrow> 0 | Some r \<Rightarrow> ct_version r) \<noteq> oc_expected_version command
      then Inl (OperatorControlRefused ''operator command fencing version is stale'')
      else rbind (if row = None then Inr () else rbind (latch_snapshot models sha (oc_scope command) db) (\<lambda>_. Inr ())) (\<lambda>_.
           rbind (if oc_action command \<noteq> ARM then Inr ()
             else case oc_expires_at_ms command of
                 None \<Rightarrow> Inl (OperatorControlRefused ''operator ARM requires a fixed entry lease'')
               | Some expiry \<Rightarrow> leased_session sha (oc_scope command) (oc_session_id command) expiry (millis now) db) (\<lambda>_.
             record_command sha command key command_hash row (millis now) db)))"

definition apply_command ::
  "operator_models \<Rightarrow> (string \<Rightarrow> string) \<Rightarrow> operator_login option \<Rightarrow> operator_command \<Rightarrow> timestamp \<Rightarrow> operator_db
     \<Rightarrow> (operator_snapshot \<times> operator_db) res" where
  "apply_command models sha role command0 now db =
     rbind (validated (decode_command models) (command_dump command0)) (\<lambda>command.
     rbind (digest sha (command_dump command)) (\<lambda>command_hash.
       if \<not> command_role role
       then Inl (OperatorControlRefused ''manual command requires the separately reviewed operator database role'')
       else rbind (scope_key models sha (oc_scope command)) (\<lambda>key.
         case command_at (oc_command_id command) db of
           Some old \<Rightarrow>
             rbind (bounded_payload sha (cm_command_payload old) (cm_command_sha256 old)) (\<lambda>stored.
               if \<not> json_eq stored (command_dump command)
               then Inl (MessageIdentityConflict ''operator command identity was reused with different content'')
               else rbind (latch_snapshot models sha (oc_scope command) db) (\<lambda>snapshot. Inr (snapshot, db)))
         | None \<Rightarrow>
             rbind (new_command models sha command key command_hash now db) (\<lambda>db'.
             rbind (latch_snapshot models sha (oc_scope command) db') (\<lambda>snapshot. Inr (snapshot, db'))))))"

subsection \<open>Admissions\<close>

text \<open>\<open>_decision\<close>: the identity of a decision and its fingerprint.\<close>

definition admitted_decision ::
  "operator_models \<Rightarrow> (string \<Rightarrow> string) \<Rightarrow> canary_decision \<Rightarrow> canary_scope \<Rightarrow> (string \<times> string) res" where
  "admitted_decision models sha decision scope =
     rbind (validated (decode_decision models) (cd_dump decision)) (\<lambda>checked.
       if \<not> cd_approved checked \<or> cd_trading_mode checked \<noteq> ''PAPER'' \<or> cd_profile checked \<noteq> ''DEV'' \<or>
          cd_account_id checked \<noteq> cs_account_id scope
       then Inl (OperatorControlRefused ''operator admission requires exact risk-approved DEV account'')
       else case cd_decision_id checked of
           None \<Rightarrow> Inl (OperatorControlRefused ''operator admission requires canonical decision lineage'')
         | Some decision_id \<Rightarrow>
             if decision_id = [] \<or> cd_trade_id checked \<in> {None, Some []}
             then Inl (OperatorControlRefused ''operator admission requires canonical decision lineage'')
             else rbind (digest sha (cd_dump checked)) (\<lambda>d. Inr (decision_id, d)))"

text \<open>\<open>str(decision.trade_id)\<close>\<close>

definition trade_text :: "canary_decision \<Rightarrow> string" where
  "trade_text decision = (case cd_trade_id decision of None \<Rightarrow> ''None'' | Some t \<Rightarrow> t)"

definition admission_check :: "admission_row \<Rightarrow> bool" where
  "admission_check a \<longleftrightarrow> sha256_hex (ad_decision_id a) \<and> sha256_hex (ad_decision_sha256 a) \<and> sha256_hex (ad_payload_sha256 a)"

definition insert_admission :: "admission_row \<Rightarrow> operator_db \<Rightarrow> operator_db res" where
  "insert_admission row db =
     (if \<not> int8 (ad_version row) then Inl (DataError ''value out of int64 range'')
      else if \<not> admission_check row \<or> ad_decision_id row \<in> set (map ad_decision_id (od_admissions db)) \<or>
         ad_scope_key row \<notin> set (map ct_scope_key (od_controls db))
      then Inl (IntegrityError ''operator_control_admissions'')
      else Inr (db\<lparr>od_admissions := insert_row row (od_admissions db)\<rparr>))"

definition fresh_binding ::
  "canary_decision \<Rightarrow> string \<Rightarrow> string \<Rightarrow> string \<Rightarrow> operator_snapshot \<Rightarrow> operator_admission res" where
  "fresh_binding decision decision_id decision_hash scope_sha256 current =
     (case (sn_session_id current, sn_expires_at_ms current) of
        (Some session_id, Some expiry) \<Rightarrow>
          constructed admission_valid
            \<lparr>bd_scope_sha256 = scope_sha256, bd_control_version = sn_version current, bd_session_id = session_id,
             bd_decision_id = decision_id, bd_decision_sha256 = decision_hash, bd_trade_id = trade_text decision,
             bd_expires_at_ms = min expiry (min (ci_entry_expires_ts_ms (cd_intent decision)) (cd_venue_expires_at_ms decision))\<rparr>
      | _ \<Rightarrow> Inl (OperatorControlRefused ''operator admission requires a fixed session lease''))"

definition bind_tx ::
  "operator_models \<Rightarrow> (string \<Rightarrow> string) \<Rightarrow> runtime_role option \<Rightarrow> canary_decision \<Rightarrow> string \<Rightarrow> string \<Rightarrow> canary_scope
     \<Rightarrow> int \<Rightarrow> timestamp \<Rightarrow> operator_db \<Rightarrow> (operator_admission \<times> operator_db) res" where
  "bind_tx models sha rt decision decision_id decision_hash scope expected_version now db =
     rbind (scope_key models sha scope) (\<lambda>key.
     rbind (active_snapshot models sha rt scope now db) (\<lambda>current.
       if sn_version current \<noteq> expected_version
       then Inl (OperatorControlRefused ''operator authority changed before risk publication'')
       else rbind (digest sha (scope_dump scope)) (\<lambda>scope_sha256.
            rbind (fresh_binding decision decision_id decision_hash scope_sha256 current) (\<lambda>binding.
            rbind (digest sha (admission_dump binding)) (\<lambda>binding_hash.
              case admission_at decision_id db of
                Some old \<Rightarrow>
                  rbind (bounded_payload sha (ad_payload old) (ad_payload_sha256 old)) (\<lambda>stored.
                    if \<not> json_eq stored (admission_dump binding)
                    then Inl (OperatorControlRefused ''existing risk decision belongs to a different operator fence'')
                    else Inr (binding, db))
              | None \<Rightarrow>
                  rbind (store_json (admission_dump binding)) (\<lambda>doc.
                  rbind (insert_admission \<lparr>ad_decision_id = decision_id, ad_scope_key = key,
                           ad_version = sn_version current, ad_decision_sha256 = decision_hash, ad_payload = doc,
                           ad_payload_sha256 = binding_hash\<rparr> db) (\<lambda>db'. Inr (binding, db'))))))))"

definition bind_decision ::
  "operator_models \<Rightarrow> (string \<Rightarrow> string) \<Rightarrow> runtime_role option \<Rightarrow> canary_decision \<Rightarrow> canary_scope \<Rightarrow> int \<Rightarrow> timestamp
     \<Rightarrow> operator_db \<Rightarrow> (operator_admission \<times> operator_db) res" where
  "bind_decision models sha rt decision scope expected_version now db =
     rbind (admitted_decision models sha decision scope) (\<lambda>(decision_id, decision_hash).
       sanitized ''operator risk admission could not be persisted''
         (bind_tx models sha rt decision decision_id decision_hash scope expected_version now db))"

subsection \<open>Dispatch\<close>

definition digest_effect :: "(string \<Rightarrow> string) \<Rightarrow> string \<Rightarrow> string" where
  "digest_effect sha trade_id = sha (''paper.v1:'' @ trade_id @ '':ENTRY:place'')"

definition admission_stale ::
  "admission_row \<Rightarrow> operator_admission \<Rightarrow> string \<Rightarrow> operator_snapshot \<Rightarrow> string \<Rightarrow> string \<Rightarrow> string \<Rightarrow> canary_decision \<Rightarrow> int \<Rightarrow> bool" where
  "admission_stale row binding key current scope_sha256 decision_id decision_hash decision now_ms \<longleftrightarrow>
     ad_scope_key row \<noteq> key \<or> ad_version row \<noteq> bd_control_version binding \<or>
     ad_decision_sha256 row \<noteq> bd_decision_sha256 binding \<or> bd_control_version binding \<noteq> sn_version current \<or>
     Some (bd_session_id binding) \<noteq> sn_session_id current \<or> bd_scope_sha256 binding \<noteq> scope_sha256 \<or>
     bd_decision_id binding \<noteq> decision_id \<or> bd_decision_sha256 binding \<noteq> decision_hash \<or>
     Some (bd_trade_id binding) \<noteq> cd_trade_id decision \<or> bd_expires_at_ms binding \<le> now_ms"

text \<open>\<open>_check\<close>, which reads the clock for the latch (\<open>now\<close>) and for the admission (\<open>t1\<close>)\<close>

definition check_tx ::
  "operator_models \<Rightarrow> (string \<Rightarrow> string) \<Rightarrow> runtime_role option \<Rightarrow> canary_decision \<Rightarrow> canary_scope \<Rightarrow> string
     \<Rightarrow> timestamp \<Rightarrow> timestamp \<Rightarrow> operator_db \<Rightarrow> operator_admission res" where
  "check_tx models sha rt decision scope effect_id now t1 db =
     rbind (admitted_decision models sha decision scope) (\<lambda>(decision_id, decision_hash).
       if effect_id \<noteq> digest_effect sha (trade_text decision)
       then Inl (OperatorControlRefused ''operator entry effect lineage differs'')
       else rbind (active_snapshot models sha rt scope now db) (\<lambda>current.
         case admission_at decision_id db of
           None \<Rightarrow> Inl (OperatorControlRefused ''entry has no durable operator risk admission'')
         | Some row \<Rightarrow>
             rbind (bounded_payload sha (ad_payload row) (ad_payload_sha256 row)) (\<lambda>stored.
             rbind (validated (decode_admission models) stored) (\<lambda>binding.
             rbind (scope_key models sha scope) (\<lambda>key.
             rbind (digest sha (scope_dump scope)) (\<lambda>scope_sha256.
               if admission_stale row binding key current scope_sha256 decision_id decision_hash decision (millis t1)
               then Inl (OperatorControlRefused ''operator entry admission is stale or mismatched'')
               else Inr binding))))))"

definition check_entry ::
  "operator_models \<Rightarrow> (string \<Rightarrow> string) \<Rightarrow> runtime_role option \<Rightarrow> canary_decision \<Rightarrow> canary_scope \<Rightarrow> string
     \<Rightarrow> timestamp \<Rightarrow> timestamp \<Rightarrow> operator_db \<Rightarrow> operator_admission res" where
  "check_entry models sha rt decision scope effect_id now t1 db =
     sanitized ''operator entry admission cannot be verified'' (check_tx models sha rt decision scope effect_id now t1 db)"

definition insert_operator_claim :: "operator_claim_row \<Rightarrow> operator_db \<Rightarrow> operator_db res" where
  "insert_operator_claim row db =
     (if \<not> int8 (oq_version row) then Inl (DataError ''value out of int64 range'')
      else if \<not> sha256_hex (oq_payload_sha256 row) \<or> oq_effect_id row \<in> set (map oq_effect_id (od_claims db)) \<or>
         oq_decision_id row \<in> set (map oq_decision_id (od_claims db)) \<or>
         oq_decision_id row \<notin> set (map ad_decision_id (od_admissions db))
      then Inl (IntegrityError ''operator_control_dispatch_claims'')
      else Inr (db\<lparr>od_claims := insert_row row (od_claims db)\<rparr>))"

definition claim_document :: "string \<Rightarrow> operator_admission \<Rightarrow> json" where
  "claim_document effect_id binding = JObj
     [(''domain'', JStr ''kairos.operator-dispatch.v1''), (''effect_id'', JStr effect_id),
      (''admission'', admission_dump binding)]"

text \<open>The transaction of \<open>_final_dispatch_guard\<close>\<close>

definition claim_tx ::
  "operator_models \<Rightarrow> (string \<Rightarrow> string) \<Rightarrow> runtime_role option \<Rightarrow> canary_decision \<Rightarrow> canary_scope \<Rightarrow> string
     \<Rightarrow> timestamp \<Rightarrow> timestamp \<Rightarrow> operator_db \<Rightarrow> (operator_admission \<times> operator_db) res" where
  "claim_tx models sha rt decision scope effect_id now t1 db =
     rbind (check_tx models sha rt decision scope effect_id now t1 db) (\<lambda>binding.
     rbind (assert_prepared_effect sha decision scope effect_id db) (\<lambda>_.
       if list_ex (\<lambda>c. oq_effect_id c = effect_id \<or> oq_decision_id c = bd_decision_id binding) (od_claims db)
       then Inl (OperatorControlRefused ''operator dispatch already claimed; reconcile without resending'')
       else rbind (digest sha (claim_document effect_id binding)) (\<lambda>claim_hash.
            rbind (store_json (claim_document effect_id binding)) (\<lambda>doc.
            rbind (scope_key models sha scope) (\<lambda>key.
            rbind (insert_operator_claim \<lparr>oq_effect_id = effect_id, oq_decision_id = bd_decision_id binding,
                     oq_scope_key = key, oq_version = bd_control_version binding, oq_payload = doc,
                     oq_payload_sha256 = claim_hash\<rparr> db) (\<lambda>db'. Inr (binding, db')))))))"

text \<open>
  \<open>final_dispatch_guard\<close> up to its \<open>yield\<close>: the claim commits, then the clock is read once more as \<open>t2\<close>. A
  value is the admission under which the caller may go on to the guard of the canary; the claim stays when it is an error.
\<close>

definition final_dispatch_guard ::
  "operator_models \<Rightarrow> (string \<Rightarrow> string) \<Rightarrow> runtime_role option \<Rightarrow> canary_decision \<Rightarrow> canary_scope \<Rightarrow> string \<Rightarrow> pyfloat
     \<Rightarrow> bool \<Rightarrow> timestamp \<Rightarrow> timestamp \<Rightarrow> timestamp \<Rightarrow> operator_db \<Rightarrow> operator_admission res \<times> operator_db" where
  "final_dispatch_guard models sha rt decision scope effect_id max_hold locked now t1 t2 db =
     (let unavailable = sanitized ''operator dispatch authority cannot be verified'' in
      if \<not> is_finite max_hold \<or> \<not> (float_less float_zero max_hold \<and> float_le max_hold (float_of_int 30))
      then (unavailable (Inl (ValueError ''operator dispatch hold must be bounded by 30 seconds'')), db)
      else case scope_key models sha scope of
          Inl e \<Rightarrow> (unavailable (Inl e), db)
        | Inr key \<Rightarrow>
            if \<not> locked then (unavailable (Inl (RuntimeError ''TimeoutError'')), db)
            else case claim_tx models sha rt decision scope effect_id now t1 db of
                Inl e \<Rightarrow> (unavailable (Inl e), db)
              | Inr (binding, db') \<Rightarrow>
                  (if bd_expires_at_ms binding \<le> millis t2
                   then Inl (OperatorControlRefused ''operator entry expired during claim; no resend'')
                   else Inr binding, db'))"

subsection \<open>The log of commands\<close>

definition log_of :: "string \<Rightarrow> operator_db \<Rightarrow> command_row list" where
  "log_of key db = filter (\<lambda>c. cm_scope_key c = key) (od_commands db)"

definition event_previous :: "command_row \<Rightarrow> string option" where
  "event_previous c = str_field ''previous_sha256'' (cm_event_payload c)"

text \<open>
  The events of a latch carry the versions one, two, and so on, and each the fingerprint of the one
  before, the first one zeros; their own fingerprints are those of their documents.
\<close>

definition log_chained :: "(string \<Rightarrow> string) \<Rightarrow> command_row list \<Rightarrow> bool" where
  "log_chained sha cs \<longleftrightarrow> map cm_version cs = map (\<lambda>i. int i + 1) [0..<length cs] \<and>
     map event_previous cs = map Some (butlast (zero_sha # map cm_event_sha256 cs)) \<and>
     list_all (\<lambda>c. cm_event_sha256 c = sha (canonical_json (cm_event_payload c)) \<and> cm_actor c = operator_role) cs"

lemma log_chained_snoc:
  assumes "log_chained sha cs" and "cm_version c = int (length cs) + 1" and "cm_actor c = operator_role"
    and "cm_event_sha256 c = sha (canonical_json (cm_event_payload c))"
    and "event_previous c = Some (last (zero_sha # map cm_event_sha256 cs))"
  shows "log_chained sha (cs @ [c])"
proof -
  let ?hs = "zero_sha # map cm_event_sha256 cs"
  have "map event_previous (cs @ [c]) = map Some (butlast ?hs @ [last ?hs])" using assms by (simp add: log_chained_def del: last.simps)
  also have "butlast ?hs @ [last ?hs] = ?hs" by (rule append_butlast_last_id) simp
  also have "?hs = butlast (zero_sha # map cm_event_sha256 (cs @ [c]))" by (simp add: butlast_append)
  finally show ?thesis unfolding log_chained_def using assms(1-4) by (simp add: log_chained_def)
qed

definition latch_matches :: "(string \<Rightarrow> string) \<Rightarrow> operator_db \<Rightarrow> control_row \<Rightarrow> bool" where
  "latch_matches sha db r \<longleftrightarrow> (let cs = log_of (ct_scope_key r) db in
     cs \<noteq> [] \<and> log_chained sha cs \<and> ct_version r = int (length cs) \<and>
     ct_audit_head_sha256 r = last (map cm_event_sha256 cs))"

definition operator_inv :: "(string \<Rightarrow> string) \<Rightarrow> operator_db \<Rightarrow> bool" where
  "operator_inv sha db \<longleftrightarrow> unique_by ct_scope_key (od_controls db) \<and> unique_by cm_command_id (od_commands db) \<and>
     cm_scope_key ` set (od_commands db) \<subseteq> ct_scope_key ` set (od_controls db) \<and>
     unique_by ad_decision_id (od_admissions db) \<and>
     unique_by oq_effect_id (od_claims db) \<and> unique_by oq_decision_id (od_claims db) \<and>
     list_all (latch_matches sha db) (od_controls db)"

lemma event_previous_stored:
  assumes "store_json (command_event actor d v previous now) = Inr doc"
    and "cm_event_payload c = doc"
  shows "event_previous c = Some previous" and "canonical_json doc = canonical_json (command_event actor d v previous now)"
proof -
  let ?e = "command_event actor d v previous now"
  have "json_wf ?e" by (simp add: command_event_def list_all_iff)
  moreover have "numbers_kept ?e" unfolding command_event_def by (rule numbers_kept_object) auto
  ultimately have doc: "doc = sorted_json ?e" using assms(1) store_json_kept by blast
  have "json_get ''previous_sha256'' (sorted_json ?e) = Some (JStr previous)"
    unfolding command_event_def by (subst json_get_sorted) (simp_all add: json_get_def)
  with doc assms(2) show "event_previous c = Some previous" by (simp add: event_previous_def str_field_def)
  from doc show "canonical_json doc = canonical_json ?e" by simp
qed

text \<open>What a recorded command has written.\<close>

lemma record_command_Inr:
  assumes "record_command sha command key command_hash row now_ms db = Inr db'"
  obtains c new where "cm_scope_key c = key" and "cm_version c = (case row of None \<Rightarrow> 0 | Some r \<Rightarrow> ct_version r) + 1"
    and "cm_actor c = operator_role" and "cm_command_id c = oc_command_id command"
    and "event_previous c = Some (case row of None \<Rightarrow> zero_sha | Some r \<Rightarrow> ct_audit_head_sha256 r)"
    and "cm_event_sha256 c = sha (canonical_json (cm_event_payload c))"
    and "cm_command_id c \<notin> cm_command_id ` set (od_commands db)"
    and "ct_scope_key new = key" and "ct_version new = cm_version c" and "ct_audit_head_sha256 new = cm_event_sha256 c"
    and "ct_state new = state_after (oc_action command)"
    and "db' = db\<lparr>od_commands := od_commands db @ [c], od_controls := (case control_at key db of
           None \<Rightarrow> od_controls db @ [new]
         | Some _ \<Rightarrow> update_where (\<lambda>r. ct_scope_key r = key) (moved_latch new) (od_controls db))\<rparr>"
proof -
  define v where "v = (case row of None \<Rightarrow> 0 | Some r \<Rightarrow> ct_version r)"
  define previous where "previous = (case row of None \<Rightarrow> zero_sha | Some r \<Rightarrow> ct_audit_head_sha256 r)"
  let ?e = "command_event operator_role command_hash (v + 1) previous now_ms"
  from assms obtain h cdoc edoc db1 sdoc sh where h: "digest sha ?e = Inr h" and e: "store_json ?e = Inr edoc"
      and i: "insert_command \<lparr>cm_command_id = oc_command_id command, cm_scope_key = key, cm_version = v + 1,
                  cm_command_payload = cdoc, cm_command_sha256 = command_hash, cm_event_payload = edoc,
                  cm_event_sha256 = h, cm_actor = operator_role\<rparr> db = Inr db1" (is "insert_command ?c db = _")
      and u: "upsert_control \<lparr>ct_scope_key = key, ct_scope_payload = sdoc, ct_scope_sha256 = sh,
             ct_version = v + 1, ct_state = state_after (oc_action command), ct_session_id = oc_session_id command,
             ct_expires_at_ms = oc_expires_at_ms command, ct_audit_head_sha256 = h\<rparr> db1 = Inr db'" (is "upsert_control ?n db1 = _")
    unfolding record_command_def v_def previous_def Let_def by (auto simp: rbind_eq_Inr)
  have prev: "event_previous ?c = Some previous" by (rule event_previous_stored(1) [OF e]) simp
  have "canonical_json edoc = canonical_json ?e" by (rule event_previous_stored(2) [OF e, of ?c]) simp
  with h have sha: "h = sha (canonical_json edoc)" by (simp add: digest_Inr)
  have d1: "db1 = db\<lparr>od_commands := od_commands db @ [?c]\<rparr>" "oc_command_id command \<notin> cm_command_id ` set (od_commands db)"
    using i by (auto simp: insert_command_def insert_row_def split: if_splits)
  have "db' = db1\<lparr>od_controls := (case control_at key db1 of None \<Rightarrow> od_controls db1 @ [?n]
      | Some _ \<Rightarrow> update_where (\<lambda>r. ct_scope_key r = key) (moved_latch ?n) (od_controls db1))\<rparr>"
    using u by (simp add: upsert_control_def insert_row_def cong: option.case_cong split: if_splits)
  then have "db' = db\<lparr>od_commands := od_commands db @ [?c], od_controls := (case control_at key db of
      None \<Rightarrow> od_controls db @ [?n] | Some _ \<Rightarrow> update_where (\<lambda>r. ct_scope_key r = key) (moved_latch ?n) (od_controls db))\<rparr>"
    by (simp add: d1(1) control_at_def cong: option.case_cong)
  then show ?thesis
    by (rule that [of ?c ?n, rotated -1]) (use prev sha d1(2) in \<open>simp_all add: v_def previous_def\<close>)
qed

subsection \<open>Runs\<close>

datatype operator_op =
    Command "operator_login option" operator_command timestamp
  | Bind "runtime_role option" canary_decision canary_scope int timestamp
  | Guard "runtime_role option" canary_decision canary_scope string pyfloat bool timestamp timestamp timestamp
  | Canary canary_op

text \<open>A step of the canary leaves the operator's tables alone, and is the step of its own theory on the rest.\<close>

definition canary_part :: "operator_db \<Rightarrow> canary_db" where
  "canary_part db = canary_db.truncate db"

definition with_canary :: "canary_db \<Rightarrow> operator_db \<Rightarrow> operator_db" where
  "with_canary c db = canary_db.extend c (canary_db.more db)"

primrec operator_step ::
  "operator_models \<Rightarrow> string \<Rightarrow> string \<Rightarrow> (string \<Rightarrow> string) \<Rightarrow> operator_op \<Rightarrow> operator_db \<Rightarrow> operator_db" where
  "operator_step models bull bear sha (Command role command now) db = settle db (apply_command models sha role command now db)"
| "operator_step models bull bear sha (Bind rt decision scope version now) db =
     settle db (bind_decision models sha rt decision scope version now db)"
| "operator_step models bull bear sha (Guard rt decision scope effect_id hold locked now t1 t2) db =
     snd (final_dispatch_guard models sha rt decision scope effect_id hold locked now t1 t2 db)"
| "operator_step models bull bear sha (Canary op) db =
     with_canary (canary_step (canary_models.truncate models) bull bear sha op (canary_part db)) db"

text \<open>What a run lets through the guard: the account, the effect and the admission, in order.\<close>

record passed_entry =
  pe_scope_key :: string
  pe_effect_id :: string
  pe_admission :: operator_admission

definition passed ::
  "operator_models \<Rightarrow> (string \<Rightarrow> string) \<Rightarrow> operator_op \<Rightarrow> operator_db \<Rightarrow> passed_entry list" where
  "passed models sha op db = (case op of
       Guard rt decision scope effect_id hold locked now t1 t2 \<Rightarrow>
         (case (scope_key models sha scope, fst (final_dispatch_guard models sha rt decision scope effect_id hold locked now t1 t2 db)) of
            (Inr key, Inr b) \<Rightarrow> [\<lparr>pe_scope_key = key, pe_effect_id = effect_id, pe_admission = b\<rparr>]
          | _ \<Rightarrow> [])
     | _ \<Rightarrow> [])"

fun passed_log ::
  "operator_models \<Rightarrow> string \<Rightarrow> string \<Rightarrow> (string \<Rightarrow> string) \<Rightarrow> operator_op list \<Rightarrow> operator_db \<Rightarrow> passed_entry list" where
  "passed_log models bull bear sha [] db = []"
| "passed_log models bull bear sha (op # ops) db =
     passed models sha op db @ passed_log models bull bear sha ops (operator_step models bull bear sha op db)"

definition empty_operator :: "string \<Rightarrow> operator_db" where
  "empty_operator instance_id = canary_db.extend (empty_canary instance_id)
     \<lparr>od_controls = [], od_commands = [], od_admissions = [], od_claims = []\<rparr>"

subsection \<open>What each operation writes\<close>

lemma apply_command_new:
  assumes "apply_command models sha role command0 now db = Inr (s, db')"
  shows "\<exists>command key. decode_command models (command_dump command0) = Some command \<and>
      scope_key models sha (oc_scope command) = Inr key \<and> command_role role \<and>
      (db' = db \<and> command_at (oc_command_id command) db \<noteq> None \<or>
       command_at (oc_command_id command) db = None \<and>
       oc_expected_version command = (case control_at key db of None \<Rightarrow> 0 | Some r \<Rightarrow> ct_version r) \<and>
       (\<exists>h. record_command sha command key h (control_at key db) (millis now) db = Inr db'))"
proof -
  from assms obtain command h key where c: "decode_command models (command_dump command0) = Some command"
      "command_role role" "scope_key models sha (oc_scope command) = Inr key"
    and r: "db' = db \<and> command_at (oc_command_id command) db \<noteq> None \<or>
      command_at (oc_command_id command) db = None \<and> new_command models sha command key h now db = Inr db'"
    unfolding apply_command_def
    by (cases "decode_command models (command_dump command0)"; (cases "command_at (oc_command_id (the (decode_command models (command_dump command0)))) db")?)
      (auto simp: rbind_eq_Inr validated_Inr split: if_splits)
  have "oc_expected_version command = (case control_at key db of None \<Rightarrow> 0 | Some r \<Rightarrow> ct_version r) \<and>
      record_command sha command key h (control_at key db) (millis now) db = Inr db'"
    if "new_command models sha command key h now db = Inr db'"
    using that unfolding new_command_def Let_def by (auto simp: rbind_eq_Inr split: if_splits)
  with c r show ?thesis by blast
qed

lemma bind_decision_new:
  assumes "bind_decision models sha rt decision scope version now db = Inr (b, db')"
  shows "\<exists>key current. scope_key models sha scope = Inr key \<and> active_snapshot models sha rt scope now db = Inr current \<and>
    sn_version current = version \<and>
    (db' = db \<or> (\<exists>row. ad_scope_key row = key \<and> insert_admission row db = Inr db'))"
  using assms unfolding bind_decision_def bind_tx_def
  by (auto simp: rbind_eq_Inr split: option.splits if_splits)

lemma claim_tx_new:
  assumes "claim_tx models sha rt decision scope effect_id now t1 db = Inr (b, db')"
  shows "\<exists>row. oq_effect_id row = effect_id \<and> oq_decision_id row = bd_decision_id b \<and>
    insert_operator_claim row db = Inr db' \<and> check_tx models sha rt decision scope effect_id now t1 db = Inr b \<and>
    assert_prepared_effect sha decision scope effect_id db = Inr ()"
proof -
  from assms obtain h doc key where
      "insert_operator_claim \<lparr>oq_effect_id = effect_id, oq_decision_id = bd_decision_id b,
                     oq_scope_key = key, oq_version = bd_control_version b, oq_payload = doc,
                     oq_payload_sha256 = h\<rparr> db = Inr db'" (is "insert_operator_claim ?r db = _")
      "check_tx models sha rt decision scope effect_id now t1 db = Inr b"
      "assert_prepared_effect sha decision scope effect_id db = Inr ()"
    unfolding claim_tx_def by (auto simp: rbind_eq_Inr split: if_splits)
  then show ?thesis by (intro exI [of _ ?r]) simp
qed

lemma guard_outcome:
  assumes "final_dispatch_guard models sha rt decision scope effect_id hold locked now t1 t2 db = (r, db')"
  shows "db' = db \<and> (\<exists>e. r = Inl e) \<or>
    (\<exists>b. claim_tx models sha rt decision scope effect_id now t1 db = Inr (b, db') \<and> (\<forall>b'. r = Inr b' \<longrightarrow> b' = b \<and> millis t2 < bd_expires_at_ms b))"
  using assms unfolding final_dispatch_guard_def Let_def sanitized_def
  by (auto split: if_splits sum.splits py_error.splits)

lemma canary_part_with [simp]:
  "canary_part (with_canary c db) = c" "od_controls (with_canary c db) = od_controls db"
  "od_commands (with_canary c db) = od_commands db" "od_admissions (with_canary c db) = od_admissions db"
  "od_claims (with_canary c db) = od_claims db"
  by (cases db; cases c; simp add: canary_part_def with_canary_def canary_db.defs operator_db.defs)+

subsection \<open>The invariant\<close>

lemma operator_inv_cong:
  assumes "od_controls db' = od_controls db" "od_commands db' = od_commands db" "od_admissions db' = od_admissions db"
    "od_claims db' = od_claims db"
  shows "operator_inv sha db' = operator_inv sha db"
  using assms by (simp add: operator_inv_def latch_matches_def log_of_def list_all_iff)

lemma record_command_inv:
  assumes inv: "operator_inv sha db" and rec: "record_command sha command key h (control_at key db) now_ms db = Inr db'"
  shows "operator_inv sha db'"
  using rec
proof (rule record_command_Inr)
  fix c new
  assume c: "cm_scope_key c = key" "cm_version c = (case control_at key db of None \<Rightarrow> 0 | Some r \<Rightarrow> ct_version r) + 1"
      "cm_actor c = operator_role"
      "event_previous c = Some (case control_at key db of None \<Rightarrow> zero_sha | Some r \<Rightarrow> ct_audit_head_sha256 r)"
      "cm_event_sha256 c = sha (canonical_json (cm_event_payload c))"
      "cm_command_id c \<notin> cm_command_id ` set (od_commands db)"
    and new: "ct_scope_key new = key" "ct_version new = cm_version c" "ct_audit_head_sha256 new = cm_event_sha256 c"
    and db': "db' = db\<lparr>od_commands := od_commands db @ [c], od_controls := (case control_at key db of
           None \<Rightarrow> od_controls db @ [new]
         | Some _ \<Rightarrow> update_where (\<lambda>r. ct_scope_key r = key) (moved_latch new) (od_controls db))\<rparr>"
  have log: "log_of k db' = log_of k db @ (if k = key then [c] else [])" for k using c(1) by (simp add: db' log_of_def)
  have head: "(case control_at key db of None \<Rightarrow> 0 | Some r \<Rightarrow> ct_version r) = int (length (log_of key db)) \<and>
      (case control_at key db of None \<Rightarrow> zero_sha | Some r \<Rightarrow> ct_audit_head_sha256 r) =
         last (zero_sha # map cm_event_sha256 (log_of key db)) \<and> log_chained sha (log_of key db)"
  proof (cases "control_at key db")
    case None
    then have "key \<notin> ct_scope_key ` set (od_controls db)" by (auto simp: control_at_def select_one_None_iff)
    with inv have "log_of key db = []" by (auto simp: operator_inv_def log_of_def filter_empty_conv)
    with None show ?thesis by (simp add: log_chained_def)
  next
    case (Some r)
    then have "r \<in> set (od_controls db)" "ct_scope_key r = key" by (auto simp: control_at_def dest: select_one_SomeD)
    with inv have "latch_matches sha db r" by (simp add: operator_inv_def list_all_iff)
    with Some \<open>ct_scope_key r = key\<close> show ?thesis by (simp add: latch_matches_def Let_def)
  qed
  then have ch: "log_chained sha (log_of key db')"
    unfolding log using c by (auto intro: log_chained_snoc)
  have hit: "latch_matches sha db' r'" if "ct_scope_key r' = key" "ct_version r' = cm_version c" "ct_audit_head_sha256 r' = cm_event_sha256 c" for r'
    using ch head c that by (simp add: latch_matches_def Let_def log)
  have miss: "latch_matches sha db' r" if "r \<in> set (od_controls db)" "ct_scope_key r \<noteq> key" for r
  proof -
    have "latch_matches sha db r" using inv that(1) by (simp add: operator_inv_def list_all_iff)
    with that(2) show ?thesis by (simp add: latch_matches_def log)
  qed
  have "unique_by ct_scope_key (od_controls db') \<and> ct_scope_key ` set (od_controls db') = insert key (ct_scope_key ` set (od_controls db)) \<and>
      list_all (latch_matches sha db') (od_controls db')"
  proof (cases "control_at key db")
    case None
    then have "key \<notin> ct_scope_key ` set (od_controls db)" by (auto simp: control_at_def select_one_None_iff)
    moreover have d: "od_controls db' = od_controls db @ [new]" by (simp add: db' None)
    moreover have "latch_matches sha db' r" if "r \<in> set (od_controls db')" for r
    proof (cases "r = new")
      case False
      with that have r: "r \<in> set (od_controls db)" by (simp add: d)
      with \<open>key \<notin> _\<close> have "ct_scope_key r \<noteq> key" by blast
      with r show ?thesis by (rule miss)
    qed (use hit new in simp)
    ultimately show ?thesis using inv new(1) by (auto simp: operator_inv_def unique_by_def list_all_iff)
  next
    case (Some r)
    then have r: "r \<in> set (od_controls db)" "ct_scope_key r = key" by (auto simp: control_at_def dest: select_one_SomeD)
    have d: "od_controls db' = update_where (\<lambda>r. ct_scope_key r = key) (moved_latch new) (od_controls db)" by (simp add: db' Some)
    have keys: "map ct_scope_key (od_controls db') = map ct_scope_key (od_controls db)"
      by (simp add: d update_where_def moved_latch_def)
    moreover from keys have "ct_scope_key ` set (od_controls db') = ct_scope_key ` set (od_controls db)" by (metis set_map)
    moreover have "latch_matches sha db' r'" if "r' \<in> set (od_controls db')" for r'
    proof -
      from that obtain q where q: "q \<in> set (od_controls db)" "r' = (if ct_scope_key q = key then moved_latch new q else q)"
        by (auto simp: d update_where_def)
      show ?thesis
      proof (cases "ct_scope_key q = key")
        case True
        with q have "r' = moved_latch new q" by simp
        then show ?thesis using hit [of r'] new True by (simp add: moved_latch_def)
      qed (use q miss in simp)
    qed
    ultimately show ?thesis using inv r by (auto simp: operator_inv_def unique_by_def list_all_iff)
  qed
  moreover have "unique_by cm_command_id (od_commands db')" "set (od_commands db') = insert c (set (od_commands db))"
      "od_admissions db' = od_admissions db" "od_claims db' = od_claims db"
    using inv c(6) by (auto simp: db' operator_inv_def unique_by_def)
  ultimately show ?thesis using inv c(1) by (auto simp: operator_inv_def)
qed

lemma insert_admission_Inr:
  "insert_admission row db = Inr db' \<Longrightarrow> db' = db\<lparr>od_admissions := od_admissions db @ [row]\<rparr> \<and>
     ad_decision_id row \<notin> ad_decision_id ` set (od_admissions db)"
  by (auto simp: insert_admission_def insert_row_def split: if_splits)

lemma insert_operator_claim_Inr:
  "insert_operator_claim row db = Inr db' \<Longrightarrow> db' = db\<lparr>od_claims := od_claims db @ [row]\<rparr> \<and>
     oq_effect_id row \<notin> oq_effect_id ` set (od_claims db) \<and> oq_decision_id row \<notin> oq_decision_id ` set (od_claims db)"
  by (auto simp: insert_operator_claim_def insert_row_def split: if_splits)

lemma insert_admission_inv: "operator_inv sha db \<Longrightarrow> insert_admission row db = Inr db' \<Longrightarrow> operator_inv sha db'"
  by (drule insert_admission_Inr) (auto simp: operator_inv_def unique_by_def latch_matches_def log_of_def list_all_iff)

lemma insert_operator_claim_inv: "operator_inv sha db \<Longrightarrow> insert_operator_claim row db = Inr db' \<Longrightarrow> operator_inv sha db'"
  by (drule insert_operator_claim_Inr) (auto simp: operator_inv_def unique_by_def latch_matches_def log_of_def list_all_iff)

lemma guard_claims:
  assumes "final_dispatch_guard models sha rt decision scope effect_id hold locked now t1 t2 db = (r, db')"
  shows "db' = db \<and> (\<exists>e. r = Inl e) \<or> (\<exists>row b. insert_operator_claim row db = Inr db' \<and> oq_effect_id row = effect_id \<and>
     oq_decision_id row = bd_decision_id b \<and> check_tx models sha rt decision scope effect_id now t1 db = Inr b \<and>
     (\<forall>b'. r = Inr b' \<longrightarrow> b' = b \<and> millis t2 < bd_expires_at_ms b))"
  using guard_outcome [OF assms] claim_tx_new by fast

lemma operator_step_inv:
  assumes inv: "operator_inv sha db"
  shows "operator_inv sha (operator_step models bull bear sha op db)"
proof (cases op)
  case (Command role command now)
  then show ?thesis
  proof (cases "apply_command models sha role command now db")
    case (Inr p)
    obtain s db' where p: "p = (s, db')" by (cases p)
    show ?thesis using apply_command_new [of models sha role command now db s db'] record_command_inv [OF inv] inv
      by (auto simp: Command Inr p)
  qed (use inv in simp)
next
  case (Bind rt decision scope version now)
  then show ?thesis
  proof (cases "bind_decision models sha rt decision scope version now db")
    case (Inr p)
    obtain b db' where p: "p = (b, db')" by (cases p)
    show ?thesis using bind_decision_new [of models sha rt decision scope version now db b db']
        insert_admission_inv [OF inv] inv by (auto simp: Bind Inr p)
  qed (use inv in simp)
next
  case (Guard rt decision scope effect_id hold locked now t1 t2)
  then show ?thesis using guard_claims [OF surjective_pairing, of models sha rt decision scope effect_id hold locked now t1 t2 db]
      insert_operator_claim_inv [OF inv] inv by auto
next
  case (Canary c)
  then show ?thesis using inv by (subst operator_inv_cong [of _ db]) simp_all
qed

interpretation operator: invariant_system "operator_step models bull bear sha" "\<lambda>_. True" "operator_inv sha"
  for models bull bear sha
  by unfold_locales (rule operator_step_inv)

lemma empty_operator_simps [simp]:
  "od_controls (empty_operator i) = []" "od_commands (empty_operator i) = []" "od_admissions (empty_operator i) = []"
  "od_claims (empty_operator i) = []" "canary_part (empty_operator i) = empty_canary i"
  by (simp_all add: empty_operator_def empty_canary_def canary_part_def canary_db.defs operator_db.defs)

lemma empty_operator_inv: "operator_inv sha (empty_operator i)"
  by (simp add: operator_inv_def)

lemma operator_run_inv: "operator_inv sha (fold (operator_step models bull bear sha) ops (empty_operator i))"
  by (rule operator.run_inv) (simp_all add: list_all_iff empty_operator_inv)

text \<open>
  C9. In every run on an empty database the commands of an account carry the versions one, two, and so
  on without a gap, each event names the fingerprint of the event before it (zeros for the first one) and carries its
  own, and the latch of the account has the version and the head of the last of them: two commands written against
  the same version never both take effect, and none is lost or reordered.
\<close>

theorem operator_log_chained:
  "list_all (latch_matches sha (fold (operator_step models bull bear sha) ops (empty_operator i)))
     (od_controls (fold (operator_step models bull bear sha) ops (empty_operator i)))"
  using operator_run_inv by (simp add: operator_inv_def)

subsection \<open>The latch decides\<close>

text \<open>The latch of an account is shut: there is none, or its state is not \<open>ARMED\<close>.\<close>

definition shut :: "string \<Rightarrow> operator_db \<Rightarrow> bool" where
  "shut key db \<longleftrightarrow> (case control_at key db of None \<Rightarrow> True | Some r \<Rightarrow> ct_state r \<noteq> LATCH_ARMED)"

text \<open>The operation carries a command that arms the latch of the account.\<close>

definition arms_key :: "operator_models \<Rightarrow> (string \<Rightarrow> string) \<Rightarrow> string \<Rightarrow> operator_op \<Rightarrow> bool" where
  "arms_key models sha key op = (case op of
       Command role command now \<Rightarrow> (case decode_command models (command_dump command) of
           None \<Rightarrow> False
         | Some c \<Rightarrow> oc_action c = ARM \<and> scope_key models sha (oc_scope c) = Inr key)
     | _ \<Rightarrow> False)"

lemma record_command_latch:
  assumes "record_command sha command key h row now_ms db = Inr db'"
  shows "k \<noteq> key \<Longrightarrow> control_at k db' = control_at k db"
    and "\<exists>r. control_at key db' = Some r \<and> ct_state r = state_after (oc_action command)"
proof -
  obtain c new where new: "ct_scope_key new = key" "ct_state new = state_after (oc_action command)"
    and db': "db' = db\<lparr>od_commands := od_commands db @ [c], od_controls := (case control_at key db of
           None \<Rightarrow> od_controls db @ [new]
         | Some _ \<Rightarrow> update_where (\<lambda>r. ct_scope_key r = key) (moved_latch new) (od_controls db))\<rparr>"
    using assms by (rule record_command_Inr)
  show "control_at k db' = control_at k db" if "k \<noteq> key"
  proof (cases "control_at key db")
    case None
    with that new show ?thesis by (simp add: db' control_at_def select_one_append split: option.split)
  next
    case (Some r)
    then have "od_controls db' = update_where (\<lambda>r. ct_scope_key r = key) (moved_latch new) (od_controls db)" by (simp add: db')
    then have "control_at k db' = map_option (\<lambda>r. if ct_scope_key r = key then moved_latch new r else r) (control_at k db)"
      by (simp add: control_at_def select_one_update moved_latch_def)
    with that show ?thesis by (cases "control_at k db") (auto simp: control_at_def dest!: select_one_SomeD)
  qed
  show "\<exists>r. control_at key db' = Some r \<and> ct_state r = state_after (oc_action command)"
  proof (cases "control_at key db")
    case None
    with new show ?thesis by (simp add: db' control_at_def select_one_append)
  next
    case (Some r)
    then have "od_controls db' = update_where (\<lambda>r. ct_scope_key r = key) (moved_latch new) (od_controls db)" by (simp add: db')
    then have "control_at key db' = map_option (\<lambda>r. if ct_scope_key r = key then moved_latch new r else r) (control_at key db)"
      by (simp add: control_at_def select_one_update moved_latch_def)
    moreover have "ct_scope_key r = key" using Some by (auto simp: control_at_def dest: select_one_SomeD)
    ultimately show ?thesis using Some new by (simp add: moved_latch_def)
  qed
qed

lemma latch_snapshot_control:
  assumes "latch_snapshot models sha scope db = Inr s"
  shows "\<exists>key r. scope_key models sha scope = Inr key \<and> control_at key db = Some r \<and> ct_version r = sn_version s \<and>
    ct_state r = sn_state s \<and> ct_session_id r = sn_session_id s \<and> ct_expires_at_ms r = sn_expires_at_ms s"
  using assms unfolding latch_snapshot_def by (auto simp: returned)

lemma active_snapshot_armed:
  assumes "active_snapshot models sha rt scope now db = Inr s"
  shows "\<exists>key r. scope_key models sha scope = Inr key \<and> control_at key db = Some r \<and> ct_state r = LATCH_ARMED \<and>
    ct_version r = sn_version s"
proof -
  have "latch_snapshot models sha scope db = Inr s" "sn_state s = LATCH_ARMED"
    using assms unfolding active_snapshot_def by (auto simp: rbind_eq_Inr split: option.splits if_splits)
  then show ?thesis using latch_snapshot_control by fastforce
qed

lemma shut_refuses:
  assumes "shut key db" and "active_snapshot models sha rt scope now db = Inr s"
  shows "scope_key models sha scope \<noteq> Inr key"
  using active_snapshot_armed [OF assms(2)] assms(1) by (auto simp: shut_def)

lemma check_tx_active: "check_tx models sha rt decision scope effect_id now t1 db = Inr b \<Longrightarrow>
    \<exists>current. active_snapshot models sha rt scope now db = Inr current"
  by (auto simp: check_tx_def rbind_eq_Inr)

lemma passed_claim:
  assumes "passed models sha op db = e # es"
  shows "es = []"
    and "\<exists>row. od_claims (operator_step models bull bear sha op db) = od_claims db @ [row] \<and>
      oq_effect_id row = pe_effect_id e \<and> oq_decision_id row = bd_decision_id (pe_admission e)"
    and "\<not> shut (pe_scope_key e) db"
proof -
  from assms obtain rt d sc ef ho lo n t1 t2 key b where op: "op = Guard rt d sc ef ho lo n t1 t2"
      and k: "scope_key models sha sc = Inr key"
      and r: "fst (final_dispatch_guard models sha rt d sc ef ho lo n t1 t2 db) = Inr b"
      and e: "e = \<lparr>pe_scope_key = key, pe_effect_id = ef, pe_admission = b\<rparr>" and es: "es = []"
    by (cases op) (auto simp: passed_def split: sum.splits)
  from guard_claims [OF surjective_pairing, of models sha rt d sc ef ho lo n t1 t2 db] r
  obtain row where row: "insert_operator_claim row db = Inr (snd (final_dispatch_guard models sha rt d sc ef ho lo n t1 t2 db))"
      "oq_effect_id row = ef" "oq_decision_id row = bd_decision_id b" "check_tx models sha rt d sc ef n t1 db = Inr b" by auto
  show "es = []" by (rule es)
  show "\<exists>row. od_claims (operator_step models bull bear sha op db) = od_claims db @ [row] \<and>
      oq_effect_id row = pe_effect_id e \<and> oq_decision_id row = bd_decision_id (pe_admission e)"
    using insert_operator_claim_Inr [OF row(1)] row by (auto simp: op e)
  show "\<not> shut (pe_scope_key e) db" using check_tx_active [OF row(4)] shut_refuses k e by fastforce
qed

lemma shut_cong: "od_controls db' = od_controls db \<Longrightarrow> shut key db' = shut key db"
  by (simp add: shut_def control_at_def)

lemma record_command_admissions:
  "record_command sha command key h row now_ms db = Inr db' \<Longrightarrow> od_admissions db' = od_admissions db"
  by (erule record_command_Inr) simp

lemma shut_step:
  assumes shut: "shut key db" and no: "\<not> arms_key models sha key op"
  shows "shut key (operator_step models bull bear sha op db) \<and>
    filter (\<lambda>a. ad_scope_key a = key) (od_admissions (operator_step models bull bear sha op db)) =
      filter (\<lambda>a. ad_scope_key a = key) (od_admissions db)"
proof (cases op)
  case (Command role command0 now)
  show ?thesis
  proof (cases "apply_command models sha role command0 now db")
    case (Inr p)
    obtain s db' where p: "p = (s, db')" by (cases p)
    obtain command k where c: "decode_command models (command_dump command0) = Some command"
        "scope_key models sha (oc_scope command) = Inr k"
      and r: "db' = db \<or> (\<exists>h. record_command sha command k h (control_at k db) (millis now) db = Inr db')"
      using apply_command_new [of models sha role command0 now db s db'] Inr p by blast
    have "oc_action command \<noteq> ARM" if "k = key" using no c that by (simp add: Command arms_key_def)
    then have "state_after (oc_action command) \<noteq> LATCH_ARMED" if "k = key" using that by (cases "oc_action command") simp_all
    with r shut have "shut key db'"
      using record_command_latch(1) record_command_latch(2) by (cases "k = key") (fastforce simp: shut_def)+
    moreover have "od_admissions db' = od_admissions db" using r record_command_admissions by blast
    ultimately show ?thesis by (simp add: Command Inr p)
  qed (simp add: Command shut)
next
  case (Bind rt decision scope version now)
  show ?thesis
  proof (cases "bind_decision models sha rt decision scope version now db")
    case (Inr p)
    obtain b db' where p: "p = (b, db')" by (cases p)
    obtain k current where k: "scope_key models sha scope = Inr k" "active_snapshot models sha rt scope now db = Inr current"
      and r: "db' = db \<or> (\<exists>row. ad_scope_key row = k \<and> insert_admission row db = Inr db')"
      using bind_decision_new [of models sha rt decision scope version now db b db'] Inr p by blast
    have "k \<noteq> key" using shut_refuses [OF shut k(2)] k(1) by simp
    with r have "od_controls db' = od_controls db \<and>
        filter (\<lambda>a. ad_scope_key a = key) (od_admissions db') = filter (\<lambda>a. ad_scope_key a = key) (od_admissions db)"
      by (auto dest!: insert_admission_Inr)
    then show ?thesis using shut by (simp add: Bind Inr p shut_cong [of db' db])
  qed (simp add: Bind shut)
next
  case (Guard rt decision scope effect_id hold locked now t1 t2)
  let ?db = "snd (final_dispatch_guard models sha rt decision scope effect_id hold locked now t1 t2 db)"
  have "?db = db \<or> (\<exists>row. insert_operator_claim row db = Inr ?db)"
    using guard_claims [OF surjective_pairing, of models sha rt decision scope effect_id hold locked now t1 t2 db] by blast
  then have "od_controls ?db = od_controls db" "od_admissions ?db = od_admissions db"
    by (auto dest!: insert_operator_claim_Inr)
  then show ?thesis using shut by (simp add: Guard shut_cong [of ?db db])
next
  case (Canary c)
  then show ?thesis using shut by (simp add: shut_def control_at_def)
qed

lemma shut_run:
  "shut key db \<Longrightarrow> list_all (\<lambda>op. \<not> arms_key models sha key op) ops \<Longrightarrow>
     filter (\<lambda>e. pe_scope_key e = key) (passed_log models bull bear sha ops db) = [] \<and>
     filter (\<lambda>a. ad_scope_key a = key) (od_admissions (fold (operator_step models bull bear sha) ops db)) =
       filter (\<lambda>a. ad_scope_key a = key) (od_admissions db)"
proof (induction ops arbitrary: db)
  case (Cons op ops)
  have "filter (\<lambda>e. pe_scope_key e = key) (passed models sha op db) = []"
  proof (cases "passed models sha op db")
    case (Cons e es)
    from passed_claim(1) [OF Cons] passed_claim(3) [OF Cons] Cons.prems(1) Cons show ?thesis by auto
  qed simp
  with Cons.IH [of "operator_step models bull bear sha op db"] shut_step [of key db models sha op] Cons.prems
  show ?case by simp
qed simp

text \<open>
  C1. A \<open>KILL\<close> or a \<open>DISARM\<close> holds: once a new command of that kind has been applied to the account of a scope, no risk
  decision is admitted for the account and nothing of it passes the dispatch guard, whatever is tried
  and whoever else runs, under whatever local alias of the account, until a command arms it again.
\<close>

theorem shut_latch_holds:
  assumes "apply_command models sha role command now db = Inr (snapshot, db1)"
    and "decode_command models (command_dump command) = Some c" and "oc_action c \<noteq> ARM"
    and "command_at (oc_command_id c) db = None" and "scope_key models sha (oc_scope c) = Inr key"
    and "list_all (\<lambda>op. \<not> arms_key models sha key op) ops"
  shows "filter (\<lambda>e. pe_scope_key e = key) (passed_log models bull bear sha ops db1) = [] \<and>
     filter (\<lambda>a. ad_scope_key a = key) (od_admissions (fold (operator_step models bull bear sha) ops db1)) =
       filter (\<lambda>a. ad_scope_key a = key) (od_admissions db1)"
proof (rule shut_run)
  obtain h where "record_command sha c key h (control_at key db) (millis now) db = Inr db1"
    using apply_command_new [OF assms(1)] assms(2,4,5) by auto
  then obtain r where "control_at key db1 = Some r" "ct_state r = state_after (oc_action c)"
    using record_command_latch(2) by blast
  with assms(3) show "shut key db1" by (cases "oc_action c") (simp_all add: shut_def)
qed (rule assms(6))

subsection \<open>A concrete account\<close>

definition sample_scope :: canary_scope where
  "sample_scope = \<lparr>cs_project = ''kairos-paper-gate'', cs_environment = ''paper-dev'',
     cs_account_id = ''kairos-paper-dev-unit'', cs_remote_account_id = ''synthetic-unit'',
     cs_exchange_url = ''https://trading-api.evedex.tech'', cs_auth_url = ''https://auth-api.evedex.tech'',
     cs_chain_id = 16182, cs_sdk_version = ''1.2.11'', cs_config_sha256 = zero_sha, cs_recorder_code_sha256 = zero_sha\<rparr>"

definition sample_kill :: operator_command where
  "sample_kill = \<lparr>oc_command_id = zero_sha, oc_scope = sample_scope, oc_action = KILL, oc_expected_version = 0,
     oc_operator_label = ''unit'', oc_session_id = None, oc_expires_at_ms = None\<rparr>"

definition sample_models :: operator_models where
  "sample_models = \<lparr>decode_scope = \<lambda>j. Some sample_scope, decode_observation = \<lambda>j. None, decode_plan = \<lambda>j. None,
     decode_decision = \<lambda>j. None, decode_review = \<lambda>j. None, decode_allocation = \<lambda>j. None,
     decode_command = \<lambda>j. Some sample_kill, decode_admission = \<lambda>j. None\<rparr>"

definition sample_login :: operator_login where
  "sample_login = \<lparr>ol_actor = operator_role, ol_rolsuper = False, ol_rolbypassrls = False, ol_rolcanlogin = True\<rparr>"

definition zeros :: "string \<Rightarrow> string" where
  "zeros s = zero_sha"

definition killed_db :: operator_db where
  "killed_db = settle (empty_operator ''db'') (apply_command sample_models zeros (Some sample_login) sample_kill 0 (empty_operator ''db''))"

lemma sample_killed: "case apply_command sample_models zeros (Some sample_login) sample_kill 0 (empty_operator ''db'') of
    Inl e \<Rightarrow> False | Inr p \<Rightarrow> True"
  by code_simp

theorem shut_latch_holds_witness:
  "filter (\<lambda>e. pe_scope_key e = zero_sha)
     (passed_log sample_models [] [] zeros [Command None sample_kill 0, Canary (Stop [] [] 0)] killed_db) = []"
proof -
  obtain p where p: "apply_command sample_models zeros (Some sample_login) sample_kill 0 (empty_operator ''db'') = Inr p"
    using sample_killed by (auto split: sum.splits)
  then have "apply_command sample_models zeros (Some sample_login) sample_kill 0 (empty_operator ''db'') = Inr (fst p, killed_db)"
    by (cases p) (simp add: killed_db_def)
  from shut_latch_holds [OF this, of sample_kill zero_sha "[Command None sample_kill 0, Canary (Stop [] [] 0)]"] show ?thesis
    by (simp add: sample_models_def sample_kill_def command_at_def scope_key_def validated_def digest_def
        canonical_payload_def canonical_dumps_def arms_key_def zeros_def)
qed

text \<open>
  C28. A latch belongs to the scope that first wrote it, not to the account: a command for the same remote account under
  any other scope (another local alias, a new configuration fingerprint) is refused and changes
  nothing, a \<open>KILL\<close> as well as an \<open>ARM\<close>.
\<close>

theorem other_scope_refused:
  assumes "decode_command models (command_dump command) = Some c" and "scope_key models sha (oc_scope c) = Inr key"
    and "control_at key db = Some r" and "\<not> json_eq (ct_scope_payload r) (scope_dump (oc_scope c))"
  shows "settle db (apply_command models sha role command now db) = db \<and>
    (case apply_command models sha role command now db of Inl e \<Rightarrow> True | Inr p \<Rightarrow> False)"
proof -
  have no: "latch_snapshot models sha (oc_scope c) db \<noteq> Inr s" for s
    using assms(2-4) by (auto simp: latch_snapshot_def returned)
  have "apply_command models sha role command now db \<noteq> Inr (s, db')" for s db'
    using no assms(1-3) by (auto simp: apply_command_def new_command_def Let_def returned split: option.split)
  then show ?thesis by (cases "apply_command models sha role command now db") auto
qed

definition alias_kill :: operator_command where
  "alias_kill = sample_kill\<lparr>oc_command_id := replicate 64 (CHR ''1''), oc_expected_version := 1,
     oc_scope := sample_scope\<lparr>cs_account_id := ''kairos-paper-dev-alias''\<rparr>\<rparr>"

lemma alias_differs: "case control_at zero_sha killed_db of None \<Rightarrow> False
    | Some r \<Rightarrow> \<not> json_eq (ct_scope_payload r) (scope_dump (oc_scope alias_kill))"
  by code_simp

theorem other_scope_refused_witness:
  "settle killed_db (apply_command (sample_models\<lparr>decode_command := \<lambda>j. Some alias_kill\<rparr>) zeros (Some sample_login) alias_kill 0 killed_db) = killed_db"
proof -
  let ?models = "sample_models\<lparr>decode_command := \<lambda>j. Some alias_kill\<rparr>"
  obtain r where r: "control_at zero_sha killed_db = Some r" "\<not> json_eq (ct_scope_payload r) (scope_dump (oc_scope alias_kill))"
    using alias_differs by (auto split: option.splits)
  have "decode_command ?models (command_dump alias_kill) = Some alias_kill" by simp
  moreover have "scope_key ?models zeros (oc_scope alias_kill) = Inr zero_sha"
    by (simp add: sample_models_def scope_key_def validated_def digest_def canonical_payload_def canonical_dumps_def zeros_def)
  ultimately show ?thesis
    using other_scope_refused [of ?models alias_kill alias_kill zeros zero_sha killed_db r "Some sample_login" 0] r by simp
qed

subsection \<open>One dispatch per decision\<close>

definition claim_ids :: "operator_claim_row \<Rightarrow> string \<times> string" where
  "claim_ids c = (oq_effect_id c, oq_decision_id c)"

definition entry_ids :: "passed_entry \<Rightarrow> string \<times> string" where
  "entry_ids e = (pe_effect_id e, bd_decision_id (pe_admission e))"

lemma operator_step_claims:
  "\<exists>cs. od_claims (operator_step models bull bear sha op db) = od_claims db @ cs \<and>
     subseq (map entry_ids (passed models sha op db)) (map claim_ids cs)"
proof (cases "passed models sha op db")
  case (Cons e es)
  from passed_claim(1) [OF Cons] passed_claim(2) [OF Cons, of bull bear] Cons show ?thesis by (auto simp: entry_ids_def claim_ids_def)
next
  case Nil
  have "\<exists>cs. od_claims (operator_step models bull bear sha op db) = od_claims db @ cs"
  proof (cases op)
    case (Command role command now)
    show ?thesis
    proof (cases "apply_command models sha role command now db")
      case (Inr p)
      obtain s db' where p: "p = (s, db')" by (cases p)
      have "od_claims db' = od_claims db"
        using apply_command_new [of models sha role command now db s db'] Inr p by (auto elim: record_command_Inr)
      then show ?thesis by (simp add: Command Inr p)
    qed (simp add: Command)
  next
    case (Bind rt decision scope version now)
    show ?thesis
    proof (cases "bind_decision models sha rt decision scope version now db")
      case (Inr p)
      obtain b db' where p: "p = (b, db')" by (cases p)
      have "od_claims db' = od_claims db"
        using bind_decision_new [of models sha rt decision scope version now db b db'] Inr p by (auto dest!: insert_admission_Inr)
      then show ?thesis by (simp add: Bind Inr p)
    qed (simp add: Bind)
  next
    case (Guard rt decision scope effect_id hold locked now t1 t2)
    then show ?thesis using guard_claims [OF surjective_pairing, of models sha rt decision scope effect_id hold locked now t1 t2 db]
      by (auto dest!: insert_operator_claim_Inr)
  qed simp
  with Nil show ?thesis by auto
qed

lemma passed_claims:
  "\<exists>cs. od_claims (fold (operator_step models bull bear sha) ops db) = od_claims db @ cs \<and>
     subseq (map entry_ids (passed_log models bull bear sha ops db)) (map claim_ids cs)"
proof (induction ops arbitrary: db)
  case (Cons op ops)
  let ?db = "operator_step models bull bear sha op db"
  obtain cs where cs: "od_claims ?db = od_claims db @ cs" "subseq (map entry_ids (passed models sha op db)) (map claim_ids cs)"
    using operator_step_claims by blast
  obtain ds where "od_claims (fold (operator_step models bull bear sha) ops ?db) = od_claims ?db @ ds"
      "subseq (map entry_ids (passed_log models bull bear sha ops ?db)) (map claim_ids ds)"
    using Cons.IH by blast
  with cs show ?case by (auto intro!: exI [where x = "cs @ ds"] list_emb_append_mono)
qed simp

text \<open>
  C2. In every run on an empty database, retries and crashes between the claim and the send included,
  what passes the operator's dispatch guard has distinct effects and distinct risk decisions.
\<close>

theorem guard_passes_once:
  "distinct (map pe_effect_id (passed_log models bull bear sha ops (empty_operator i))) \<and>
   distinct (map (\<lambda>e. bd_decision_id (pe_admission e)) (passed_log models bull bear sha ops (empty_operator i)))"
proof -
  let ?log = "passed_log models bull bear sha ops (empty_operator i)"
  let ?db = "fold (operator_step models bull bear sha) ops (empty_operator i)"
  have sub: "subseq (map entry_ids ?log) (map claim_ids (od_claims ?db))"
    using passed_claims [of models bull bear sha ops "empty_operator i"] by auto
  have "map pe_effect_id ?log = map fst (map entry_ids ?log)"
    "map (\<lambda>e. bd_decision_id (pe_admission e)) ?log = map snd (map entry_ids ?log)"
    by (simp_all add: entry_ids_def)
  moreover have "distinct (map fst (map claim_ids (od_claims ?db)))" "distinct (map snd (map claim_ids (od_claims ?db)))"
    using operator_run_inv [of sha models bull bear ops i] by (simp_all add: operator_inv_def unique_by_def claim_ids_def comp_def)
  ultimately show ?thesis using subseq_map [OF sub] subseq_distinct by metis
qed

subsection \<open>The canary underneath\<close>

primrec canary_ops :: "operator_op list \<Rightarrow> canary_op list" where
  "canary_ops [] = []"
| "canary_ops (op # ops) = (case op of Canary c \<Rightarrow> [c] | _ \<Rightarrow> []) @ canary_ops ops"

lemma record_command_canary: "record_command sha command key h row now_ms db = Inr db' \<Longrightarrow> canary_part db' = canary_part db"
  by (erule record_command_Inr) (simp add: canary_part_def canary_db.defs)

lemma insert_canary:
  "insert_admission row1 db = Inr db' \<Longrightarrow> canary_part db' = canary_part db"
  "insert_operator_claim row2 db = Inr db' \<Longrightarrow> canary_part db' = canary_part db"
  by (auto dest!: insert_admission_Inr insert_operator_claim_Inr simp: canary_part_def canary_db.defs)

lemma operator_step_canary:
  "canary_part (operator_step models bull bear sha op db) =
     fold (canary_step (canary_models.truncate models) bull bear sha) (canary_ops [op]) (canary_part db)"
proof (cases op)
  case (Command role command now)
  show ?thesis
  proof (cases "apply_command models sha role command now db")
    case (Inr p)
    obtain s db' where p: "p = (s, db')" by (cases p)
    show ?thesis
      using apply_command_new [of models sha role command now db s db'] Inr p record_command_canary by (auto simp: Command)
  qed (simp add: Command)
next
  case (Bind rt decision scope version now)
  show ?thesis
  proof (cases "bind_decision models sha rt decision scope version now db")
    case (Inr p)
    obtain b db' where p: "p = (b, db')" by (cases p)
    show ?thesis
      using bind_decision_new [of models sha rt decision scope version now db b db'] Inr p insert_canary(1) by (auto simp: Bind)
  qed (simp add: Bind)
next
  case (Guard rt decision scope effect_id hold locked now t1 t2)
  then show ?thesis using guard_claims [OF surjective_pairing, of models sha rt decision scope effect_id hold locked now t1 t2 db]
      insert_canary(2) by auto
qed simp

lemma operator_run_canary:
  "canary_part (fold (operator_step models bull bear sha) ops db) =
     fold (canary_step (canary_models.truncate models) bull bear sha) (canary_ops ops) (canary_part db)"
proof (induction ops arbitrary: db)
  case (Cons op ops)
  then show ?case using operator_step_canary [of models bull bear sha op db] by simp
qed simp

text \<open>
  C10. The latch and the canary compose: seen through the tables of the canary, a run of both is a run
  of the canary alone with the operator's commands, admissions and guards left out, so every property of a
  canary's run, such as its bounds on sessions, holds of their composition.
\<close>

theorem operator_projects_canary:
  "canary_part (fold (operator_step models bull bear sha) ops (empty_operator i)) =
     fold (canary_step (canary_models.truncate models) bull bear sha) (canary_ops ops) (empty_canary i) \<and>
   sessions_bounded (canary_models.truncate models)
     (canary_part (fold (operator_step models bull bear sha) ops (empty_operator i)))"
proof -
  have e: "canary_part (fold (operator_step models bull bear sha) ops (empty_operator i)) =
     fold (canary_step (canary_models.truncate models) bull bear sha) (canary_ops ops) (empty_canary i)"
    using operator_run_canary [of models bull bear sha ops "empty_operator i"] by simp
  then show ?thesis unfolding e using canary_inv_bounded [OF canary.reach_inv [OF empty_canary_inv]] by simp
qed

end
