(* ===== verification/Migrations.thy ===== *)
theory Migrations
  imports Prelude
begin

text \<open>
  The database lifecycle of \<open>kairos_persistence/database.py\<close>: the migration profiles and their manifests, which
  database names a profile may use, and \<open>migrate\<close> and \<open>verify_schema\<close> over \<open>schema_migrations\<close>. What a migration
  script does to the database is a parameter (\<open>apply_script\<close>, the SQL of the file, which may fail); the versions are
  compared in string order, which for these names any collation agrees with.
\<close>

subsection \<open>Profiles\<close>

datatype migration_profile = RUNTIME | SIMULATOR | CONTROLLED_RUNTIME | RESEARCH_CAMPAIGN

definition migration_profile_value :: "migration_profile \<Rightarrow> string" where
  "migration_profile_value p = (case p of
       RUNTIME \<Rightarrow> ''runtime''
     | SIMULATOR \<Rightarrow> ''simulator''
     | CONTROLLED_RUNTIME \<Rightarrow> ''controlled-runtime''
     | RESEARCH_CAMPAIGN \<Rightarrow> ''research-campaign'')"

definition runtime_migrations :: "string list" where
  "runtime_migrations =
    [''001_audit_and_idempotency.sql'',
     ''002_durable_runtime.sql'',
     ''003_execution_effect_journal.sql'',
     ''004_execution_recovery_delay.sql'',
     ''005_source_state_and_usage.sql'',
     ''006_paper_trade_lifecycle.sql'',
     ''007_execution_runtime_health.sql'',
     ''008_public_execution_events.sql'',
     ''009_paper_canary_arms.sql'',
     ''010_runtime_compensation_reserve.sql'',
     ''011_execution_mutation_budget.sql'',
     ''012_outbox_producer_order.sql'',
     ''013_campaign_source_budgets.sql'',
     ''014_bounded_canary_sessions.sql'',
     ''015_canary_dispatch_claims.sql'',
     ''016_global_canary_session_guard.sql'',
     ''018_offline_outbox_reconciliation.sql'']"

definition simulator_migrations :: "string list" where
  "simulator_migrations = butlast runtime_migrations @
    [''017_simulator_journal.sql'',
     last runtime_migrations,
     ''019_simulator_book_frame_v2.sql'',
     ''020_simulator_llm_proposals.sql'',
     ''021_simulator_research_decision_samples.sql'',
     ''022_simulator_research_observation_schedule.sql'',
     ''023_simulator_research_baseline_lineage.sql'',
     ''024_simulator_adaptive_candidate_protocol.sql'',
     ''025_simulator_research_evidence.sql'']"

definition migration_manifest :: "migration_profile \<Rightarrow> string list" where
  "migration_manifest p = (case p of
       RUNTIME \<Rightarrow> runtime_migrations
     | SIMULATOR \<Rightarrow> simulator_migrations
     | CONTROLLED_RUNTIME \<Rightarrow> runtime_migrations @ [''026_operator_control.sql'', ''028_news_processing.sql'']
     | RESEARCH_CAMPAIGN \<Rightarrow> simulator_migrations @ [''027_simulator_adaptive_campaign.sql''])"

definition known_migrations :: "string list" where
  "known_migrations = simulator_migrations @
    [''026_operator_control.sql'', ''027_simulator_adaptive_campaign.sql'', ''028_news_processing.sql'']"

subsection \<open>Database names\<close>

definition name_start :: "char \<Rightarrow> bool" where
  "name_start c \<longleftrightarrow> (CHR ''A'' \<le> c \<and> c \<le> CHR ''Z'') \<or> (CHR ''a'' \<le> c \<and> c \<le> CHR ''z'') \<or> c = CHR ''_''"

definition name_char :: "char \<Rightarrow> bool" where
  "name_char c \<longleftrightarrow> name_start c \<or> py_digit c \<or> c = CHR ''-''"

text \<open>\<open>[A-Za-z_][A-Za-z0-9_-]{0,62}\<close>\<close>

definition database_name :: "string \<Rightarrow> bool" where
  "database_name s = (case s of [] \<Rightarrow> False | c # cs \<Rightarrow> name_start c \<and> list_all name_char cs \<and> length cs \<le> 62)"

text \<open>\<open>kairos_sim(?:_[A-Za-z0-9][A-Za-z0-9_-]{0,52})?\<close>\<close>

definition simulator_database_name :: "string \<Rightarrow> bool" where
  "simulator_database_name s \<longleftrightarrow> take 10 s = ''kairos_sim'' \<and>
     (case drop 10 s of
        [] \<Rightarrow> True
      | [u] \<Rightarrow> False
      | u # c # cs \<Rightarrow> u = CHR ''_'' \<and> name_char c \<and> c \<noteq> CHR ''_'' \<and> c \<noteq> CHR ''-'' \<and> list_all name_char cs \<and> length cs \<le> 52)"

definition simulator_profile :: "migration_profile \<Rightarrow> bool" where
  "simulator_profile p \<longleftrightarrow> p = SIMULATOR \<or> p = RESEARCH_CAMPAIGN"

definition require_profile_database_name :: "migration_profile \<Rightarrow> string \<Rightarrow> string res" where
  "require_profile_database_name p name =
     (if \<not> database_name name then Inl (ValueError ''database migration target must be a simple explicit database name'')
      else if simulator_profile p \<and> \<not> simulator_database_name name
      then Inl (ValueError ''simulator migration_profile requires an explicit kairos_sim database'')
      else if \<not> simulator_profile p \<and> simulator_database_name name
      then Inl (ValueError ''runtime migration_profile cannot target an isolated kairos_sim database'')
      else Inr name)"

subsection \<open>Migrating\<close>

text \<open>A database: the versions it lists, once the table exists, and everything else.\<close>

record 'd schema_db =
  sd_versions :: "string list option"
  sd_data :: 'd

definition applied_versions :: "'d schema_db \<Rightarrow> string list" where
  "applied_versions db = (case sd_versions db of None \<Rightarrow> [] | Some vs \<Rightarrow> sort vs)"

definition record_version :: "string \<Rightarrow> 'd schema_db \<Rightarrow> 'd schema_db" where
  "record_version v db = db\<lparr>sd_versions := Some (case sd_versions db of None \<Rightarrow> [v] | Some vs \<Rightarrow> vs @ [v])\<rparr>"

definition ensure_versions :: "'d schema_db \<Rightarrow> 'd schema_db" where
  "ensure_versions db = (case sd_versions db of None \<Rightarrow> db\<lparr>sd_versions := Some []\<rparr> | Some _ \<Rightarrow> db)"

fun apply_missing ::
  "(string \<Rightarrow> 'd \<Rightarrow> 'd res) \<Rightarrow> string list \<Rightarrow> string list \<Rightarrow> 'd schema_db \<Rightarrow> 'd schema_db res" where
  "apply_missing apply_script applied [] db = Inr db"
| "apply_missing apply_script applied (v # vs) db =
     (if v \<in> set applied then apply_missing apply_script applied vs db
      else rbind (apply_script v (sd_data db)) (\<lambda>d.
           apply_missing apply_script applied vs (record_version v (db\<lparr>sd_data := d\<rparr>))))"

text \<open>The transaction of \<open>migrate\<close>, under the advisory lock.\<close>

definition migrate_tx ::
  "(string \<Rightarrow> 'd \<Rightarrow> 'd res) \<Rightarrow> migration_profile \<Rightarrow> 'd schema_db \<Rightarrow> 'd schema_db res" where
  "migrate_tx apply_script p db =
     (let expected = migration_manifest p; db0 = ensure_versions db; applied = applied_versions db0 in
      if applied \<noteq> take (length applied) expected
      then Inl (RuntimeError (''database migration history is incompatible with the '' @ migration_profile_value p @ '' profile''))
      else rbind (apply_missing apply_script applied expected db0) (\<lambda>db1.
           if applied_versions db1 \<noteq> expected
           then Inl (RuntimeError (''database migration history changed outside the selected '' @
                  migration_profile_value p @ '' profile''))
           else Inr db1))"

text \<open>\<open>inventory\<close>: the migration files of the installed package.\<close>

definition migrate ::
  "(string \<Rightarrow> 'd \<Rightarrow> 'd res) \<Rightarrow> bool \<Rightarrow> string list \<Rightarrow> migration_profile \<Rightarrow> 'd schema_db \<Rightarrow> 'd schema_db res" where
  "migrate apply_script read_only inventory p db =
     (if read_only then Inl (RuntimeError ''read-only database connections cannot apply migrations'')
      else if set inventory \<noteq> set known_migrations
      then Inl (RuntimeError ''persistence migration inventory is not assigned to an explicit profile'')
      else migrate_tx apply_script p db)"

definition verify_schema :: "migration_profile \<Rightarrow> 'd schema_db \<Rightarrow> unit res" where
  "verify_schema p db = (case sd_versions db of
       None \<Rightarrow> Inl (DataError ''relation schema_migrations does not exist'')
     | Some vs \<Rightarrow>
         if sort vs \<noteq> migration_manifest p
         then Inl (RuntimeError (''database migration history does not match the exact '' @
                migration_profile_value p @ '' profile''))
         else Inr ())"

text \<open>\<open>connect\<close>: the name the server reports must be the one the URL named.\<close>

definition connect_database :: "string \<Rightarrow> string res \<Rightarrow> unit res" where
  "connect_database expected server = rbind server (\<lambda>name.
     if name \<noteq> expected then Inl (RuntimeError ''connected database does not match the explicit migration target'')
     else Inr ())"

subsection \<open>Manifests\<close>

lemmas manifest_defs = migration_manifest_def runtime_migrations_def simulator_migrations_def

lemma manifest_sorted: "sorted (migration_manifest p) \<and> distinct (migration_manifest p)"
proof (cases p)
  case RUNTIME
  show ?thesis unfolding RUNTIME by code_simp
next
  case SIMULATOR
  show ?thesis unfolding SIMULATOR by code_simp
next
  case CONTROLLED_RUNTIME
  show ?thesis unfolding CONTROLLED_RUNTIME by code_simp
next
  case RESEARCH_CAMPAIGN
  show ?thesis unfolding RESEARCH_CAMPAIGN by code_simp
qed

text \<open>The histories one profile accepts from another: its own, and the upgrades that append migrations.\<close>

definition upgrades :: "migration_profile \<Rightarrow> migration_profile \<Rightarrow> bool" where
  "upgrades p q \<longleftrightarrow> p = q \<or> (p = RUNTIME \<and> q = CONTROLLED_RUNTIME) \<or> (p = SIMULATOR \<and> q = RESEARCH_CAMPAIGN)"

definition extends :: "migration_profile \<Rightarrow> migration_profile \<Rightarrow> bool" where
  "extends q p \<longleftrightarrow> take (length (migration_manifest p)) (migration_manifest q) = migration_manifest p"

lemma extends_iff: "extends q p \<longleftrightarrow> upgrades p q"
proof -
  have "map (\<lambda>q. extends q RUNTIME) [RUNTIME, SIMULATOR, CONTROLLED_RUNTIME, RESEARCH_CAMPAIGN] = [True, False, True, False]"
    "map (\<lambda>q. extends q SIMULATOR) [RUNTIME, SIMULATOR, CONTROLLED_RUNTIME, RESEARCH_CAMPAIGN] = [False, True, False, True]"
    "map (\<lambda>q. extends q CONTROLLED_RUNTIME) [RUNTIME, SIMULATOR, CONTROLLED_RUNTIME, RESEARCH_CAMPAIGN] = [False, False, True, False]"
    "map (\<lambda>q. extends q RESEARCH_CAMPAIGN) [RUNTIME, SIMULATOR, CONTROLLED_RUNTIME, RESEARCH_CAMPAIGN] = [False, False, False, True]"
    by code_simp+
  then show ?thesis by (cases p; cases q) (simp_all add: upgrades_def)
qed

subsection \<open>Runs of migrations\<close>

text \<open>A script that is also written to a log of the scripts that ran.\<close>

definition logged :: "(string \<Rightarrow> 'd \<Rightarrow> 'd res) \<Rightarrow> string \<Rightarrow> string list \<times> 'd \<Rightarrow> (string list \<times> 'd) res" where
  "logged f v s = rbind (f v (snd s)) (\<lambda>d. Inr (fst s @ [v], d))"

definition after_migrate :: "'d schema_db \<Rightarrow> 'd schema_db res \<Rightarrow> 'd schema_db" where
  "after_migrate db r = (case r of Inl _ \<Rightarrow> db | Inr db' \<Rightarrow> db')"

type_synonym 'd migrate_op = "(string \<Rightarrow> 'd \<Rightarrow> 'd res) \<times> bool \<times> string list \<times> migration_profile"

fun migrate_step :: "'d migrate_op \<Rightarrow> (string list \<times> 'd) schema_db \<Rightarrow> (string list \<times> 'd) schema_db" where
  "migrate_step (f, read_only, inventory, p) db = after_migrate db (migrate (logged f) read_only inventory p db)"

definition history_of :: "migration_profile option \<Rightarrow> (string list \<times> 'd) schema_db \<Rightarrow> bool" where
  "history_of h db \<longleftrightarrow> (case h of
       None \<Rightarrow> sd_versions db = None \<and> fst (sd_data db) = []
     | Some p \<Rightarrow> sd_versions db = Some (migration_manifest p) \<and> fst (sd_data db) = migration_manifest p)"

lemma apply_missing_skip:
  "set us \<subseteq> set applied \<Longrightarrow> apply_missing f applied (us @ vs) db = apply_missing f applied vs db"
  by (induction us) auto

lemma apply_missing_logged:
  assumes "apply_missing (logged f) applied vs db = Inr db'" and "set vs \<inter> set applied = {}" and "sd_versions db = Some ws"
  shows "sd_versions db' = Some (ws @ vs) \<and> fst (sd_data db') = fst (sd_data db) @ vs"
  using assms
proof (induction vs arbitrary: db ws)
  case (Cons v vs)
  then obtain d where d: "logged f v (sd_data db) = Inr d"
    and rest: "apply_missing (logged f) applied vs (record_version v (db\<lparr>sd_data := d\<rparr>)) = Inr db'"
    by (auto simp: rbind_eq_Inr)
  have "fst d = fst (sd_data db) @ [v]" using d by (auto simp: logged_def rbind_eq_Inr)
  with Cons.IH [OF rest, of "ws @ [v]"] Cons.prems show ?case by (simp add: record_version_def)
qed simp

lemma migrate_history:
  assumes h: "history_of h db" and m: "migrate (logged f) read_only inventory p db = Inr db'"
  shows "history_of (Some p) db' \<and> (case h of None \<Rightarrow> True | Some q \<Rightarrow> upgrades q p)"
proof -
  define ws where "ws = (case h of None \<Rightarrow> [] | Some q \<Rightarrow> migration_manifest q)"
  let ?e = "migration_manifest p"
  have db: "sd_versions (ensure_versions db) = Some ws" "fst (sd_data (ensure_versions db)) = ws"
    using h by (auto simp: history_of_def ws_def ensure_versions_def split: option.splits)
  have "sorted ws" using manifest_sorted by (auto simp: ws_def split: option.splits)
  then have applied: "applied_versions (ensure_versions db) = ws"
    using db(1) by (simp add: applied_versions_def sorted_sort_id)
  have pre: "ws = take (length ws) ?e" and run: "apply_missing (logged f) ws ?e (ensure_versions db) = Inr db'"
    using m applied by (auto simp: migrate_def migrate_tx_def Let_def rbind_eq_Inr split: if_splits)
  let ?rest = "drop (length ws) ?e"
  have split: "?e = ws @ ?rest" using pre append_take_drop_id [of "length ws" ?e] by simp
  have "set ?rest \<inter> set ws = {}" using manifest_sorted [of p] split by (metis Int_commute distinct_append)
  moreover have "apply_missing (logged f) ws ?rest (ensure_versions db) = Inr db'"
    using run split apply_missing_skip [of ws ws "logged f" ?rest] by (metis order_refl)
  ultimately have "sd_versions db' = Some (ws @ ?rest) \<and> fst (sd_data db') = ws @ ?rest"
    using apply_missing_logged db by fastforce
  then have "history_of (Some p) db'" using split by (simp add: history_of_def)
  moreover have "case h of None \<Rightarrow> True | Some q \<Rightarrow> upgrades q p"
    using pre by (auto simp: ws_def extends_iff [symmetric] extends_def split: option.splits)
  ultimately show ?thesis by blast
qed

definition history_ok :: "(string list \<times> 'd) schema_db \<Rightarrow> bool" where
  "history_ok db \<longleftrightarrow> (\<exists>h. history_of h db)"

lemma migrate_step_ok: "history_ok db \<Longrightarrow> history_ok (migrate_step op db)"
  by (cases op) (auto simp: history_ok_def after_migrate_def dest: migrate_history split: sum.splits)

interpretation schema: invariant_system migrate_step "\<lambda>_. True" history_ok
  by unfold_locales (rule migrate_step_ok)

definition new_database :: "'d \<Rightarrow> (string list \<times> 'd) schema_db" where
  "new_database d = \<lparr>sd_versions = None, sd_data = ([], d)\<rparr>"

section \<open>Properties\<close>

text \<open>
  C34. Whatever services migrate a database, under any profiles and with scripts that may fail, each script that
  took effect ran once, in the order of one manifest: the database lists either nothing or exactly the manifest of
  one profile, and after \<open>migrate\<close> of a profile succeeds it lists that profile's and passes its \<open>verify_schema\<close>.
\<close>

theorem migrations_once_in_order:
  assumes "db = fold migrate_step ops (new_database d)"
  shows "(sd_versions db = None \<and> fst (sd_data db) = [] \<or>
      (\<exists>p. sd_versions db = Some (migration_manifest p) \<and> fst (sd_data db) = migration_manifest p)) \<and>
    (\<forall>f read_only inventory p db'. migrate (logged f) read_only inventory p db = Inr db' \<longrightarrow>
       fst (sd_data db') = migration_manifest p \<and> verify_schema p db' = Inr ())"
proof -
  have "history_of None (new_database d)" by (simp add: new_database_def history_of_def)
  then have "history_ok (new_database d)" by (auto simp: history_ok_def)
  then have "history_ok db" unfolding assms by (rule schema.run_inv [rotated]) (simp add: list_all_iff)
  then obtain h where h: "history_of h db" by (auto simp: history_ok_def)
  have "fst (sd_data db') = migration_manifest p \<and> verify_schema p db' = Inr ()"
    if "migrate (logged f) read_only inventory p db = Inr db'" for f read_only inventory p db'
    using migrate_history [OF h that] manifest_sorted [of p]
    by (simp add: history_of_def verify_schema_def sorted_sort_id)
  with h show ?thesis by (cases h) (auto simp: history_of_def)
qed

text \<open>
  Topologies do not mix: a database that lists the manifest of one profile can only be migrated by that
  profile or by the one that appends to it (runtime to controlled runtime, simulator to research campaign), every
  other attempt is refused and changes nothing; and no database name is accepted for profiles of both topologies.
\<close>

theorem topologies_stay_apart:
  assumes "sd_versions db = Some (migration_manifest p)" and "\<not> upgrades p q"
  shows "(\<exists>e. migrate f read_only inventory q db = Inl e) \<and>
    (require_profile_database_name p name = Inr name \<longrightarrow> simulator_profile p \<noteq> simulator_profile q \<longrightarrow>
      (\<exists>e. require_profile_database_name q name = Inl e))"
proof
  have "applied_versions (ensure_versions db) = migration_manifest p"
    using assms(1) manifest_sorted [of p] by (simp add: applied_versions_def ensure_versions_def sorted_sort_id)
  moreover have "take (length (migration_manifest p)) (migration_manifest q) \<noteq> migration_manifest p"
    using assms(2) extends_iff [of q p] by (simp add: extends_def)
  ultimately show "\<exists>e. migrate f read_only inventory q db = Inl e"
    by (auto simp: migrate_def migrate_tx_def Let_def)
qed (auto simp: require_profile_database_name_def split: if_splits)

subsection \<open>Witnesses\<close>

theorem migrations_once_in_order_witness:
  "\<exists>db. db = fold migrate_step [(\<lambda>_. Inr, False, known_migrations, RUNTIME)] (new_database ()) \<and>
    (sd_versions db = None \<and> fst (sd_data db) = [] \<or>
      (\<exists>p. sd_versions db = Some (migration_manifest p) \<and> fst (sd_data db) = migration_manifest p))"
  using migrations_once_in_order [OF refl, of "[(\<lambda>_. Inr, False, known_migrations, RUNTIME)]" "()"] by blast

definition runtime_database :: "unit schema_db" where
  "runtime_database = \<lparr>sd_versions = Some (migration_manifest RUNTIME), sd_data = ()\<rparr>"

theorem topologies_stay_apart_witness:
  "(\<exists>e. migrate (\<lambda>_. Inr) False known_migrations SIMULATOR runtime_database = Inl e) \<and>
   require_profile_database_name RUNTIME ''kairos'' = Inr ''kairos'' \<and>
   (\<exists>e. require_profile_database_name SIMULATOR ''kairos'' = Inl e)"
proof -
  have "sd_versions runtime_database = Some (migration_manifest RUNTIME)" by (simp add: runtime_database_def)
  moreover have "\<not> upgrades RUNTIME SIMULATOR" "simulator_profile RUNTIME \<noteq> simulator_profile SIMULATOR"
    by (simp_all add: upgrades_def simulator_profile_def)
  moreover have "require_profile_database_name RUNTIME ''kairos'' = Inr ''kairos''" by code_simp
  ultimately show ?thesis
    using topologies_stay_apart [of runtime_database RUNTIME SIMULATOR "\<lambda>_. Inr" False known_migrations "''kairos''"]
    by blast
qed
end
