(* ===== verification/BusStart.thy ===== *)
theory BusStart
  imports OperatorControl Migrations RuntimeBus
begin

text \<open>
  Starting and closing the durable bus, \<open>DurableMessageBus\<close> of \<open>kairos_persistence/runtime.py\<close>: which schema
  profile it insists on, whether it migrates or only verifies, and the database role it accepts. What the catalog
  queries return, how connecting ends and what the migration scripts do are arguments.
\<close>

text \<open>The row of \<open>_verify_consumer_access\<close>.\<close>

record consumer_role =
  cn_rolsuper :: bool
  cn_rolbypassrls :: bool
  cn_rolcreaterole :: bool
  cn_rolcreatedb :: bool
  cn_rolreplication :: bool
  cn_schema_create :: bool
  cn_schema_usage :: bool
  cn_database_connect :: bool
  cn_owns_database :: bool
  cn_owns_runtime_tables :: bool
  cn_schema_history_select :: bool
  cn_audit_access :: bool
  cn_inbox_access :: bool
  cn_outbox_write_access :: bool

definition elevated_role :: "consumer_role \<Rightarrow> bool" where
  "elevated_role r \<longleftrightarrow> cn_rolsuper r \<or> cn_rolbypassrls r \<or> cn_rolcreaterole r \<or> cn_rolcreatedb r \<or> cn_rolreplication r"

definition required_access :: "consumer_role \<Rightarrow> bool" where
  "required_access r \<longleftrightarrow> cn_schema_usage r \<and> cn_database_connect r \<and> cn_schema_history_select r \<and>
     cn_audit_access r \<and> cn_inbox_access r"

definition verify_consumer_access :: "consumer_role option \<Rightarrow> unit res" where
  "verify_consumer_access role =
     (if (case role of None \<Rightarrow> True
          | Some r \<Rightarrow> elevated_role r \<or> cn_schema_create r \<or> cn_owns_database r \<or> cn_owns_runtime_tables r \<or>
              cn_outbox_write_access r \<or> \<not> required_access r)
      then Inl (HandlerError ''consumer-only database role does not satisfy isolated least-privilege grants'')
      else Inr ())"

text \<open>The settings of a bus that matter here, and its flags; \<open>bt_dispatching\<close> is the dispatcher task.\<close>

record bus_process =
  bt_consumer_only :: bool
  bt_verify_schema_only :: bool
  bt_required_profile :: "migration_profile option"
  bt_profile :: migration_profile
  bt_read_only :: bool
  bt_started :: bool
  bt_closing :: bool
  bt_dispatching :: bool

definition new_bus ::
  "bool \<Rightarrow> bool \<Rightarrow> migration_profile option \<Rightarrow> migration_profile \<Rightarrow> bool \<Rightarrow> bus_process" where
  "new_bus consumer_only verify_only demanded profile read_only =
     \<lparr>bt_consumer_only = consumer_only, bt_verify_schema_only = verify_only, bt_required_profile = demanded,
      bt_profile = profile, bt_read_only = read_only, bt_started = False, bt_closing = False, bt_dispatching = False\<rparr>"

definition profile_check :: "bus_process \<Rightarrow> unit res" where
  "profile_check b =
     (if bt_required_profile b \<noteq> None \<and> bt_required_profile b \<noteq> Some (bt_profile b)
      then Inl (RuntimeError ''PAPER requires explicit, independently prepared controlled-runtime schema'')
      else if bt_consumer_only b \<and> bt_profile b \<notin> {RUNTIME, CONTROLLED_RUNTIME}
      then Inl (RuntimeError ''consumer-only mode requires a runtime or controlled-runtime schema profile'')
      else Inr ())"

definition verifies_only :: "bus_process \<Rightarrow> bool" where
  "verifies_only b \<longleftrightarrow> bt_consumer_only b \<or> bt_verify_schema_only b \<or> bt_profile b = CONTROLLED_RUNTIME"

definition prepare_schema ::
  "(string \<Rightarrow> 'd \<Rightarrow> 'd res) \<Rightarrow> string list \<Rightarrow> bus_process \<Rightarrow> 'd schema_db \<Rightarrow> 'd schema_db res" where
  "prepare_schema apply_script inventory b db =
     (if verifies_only b then rbind (verify_schema (bt_profile b) db) (\<lambda>_. Inr db)
      else migrate apply_script (bt_read_only b) inventory (bt_profile b) db)"

definition verify_access :: "consumer_role option \<Rightarrow> runtime_role option \<Rightarrow> bus_process \<Rightarrow> unit res" where
  "verify_access consumer rt b =
     (if bt_consumer_only b then verify_consumer_access consumer
      else if bt_profile b = CONTROLLED_RUNTIME then verify_runtime_access rt
      else Inr ())"

text \<open>
  \<open>_ensure_started\<close>: the answer, the bus and the database. A migration that committed stays when a later check
  fails.
\<close>

definition ensure_started ::
  "(string \<Rightarrow> 'd \<Rightarrow> 'd res) \<Rightarrow> string list \<Rightarrow> unit res \<Rightarrow> consumer_role option \<Rightarrow> runtime_role option
     \<Rightarrow> bus_process \<Rightarrow> 'd schema_db \<Rightarrow> unit res \<times> bus_process \<times> 'd schema_db" where
  "ensure_started apply_script inventory connected consumer rt b db =
     (if bt_started b then (Inr (), b, db)
      else if bt_closing b then (Inl (RuntimeError ''durable bus is closing''), b, db)
      else case rbind (profile_check b) (\<lambda>_. rbind connected (\<lambda>_. prepare_schema apply_script inventory b db)) of
          Inl e \<Rightarrow> (Inl e, b, db)
        | Inr db' \<Rightarrow>
            (case verify_access consumer rt b of
               Inl e \<Rightarrow> (Inl e, b, db')
             | Inr _ \<Rightarrow> (Inr (), b\<lparr>bt_started := True, bt_dispatching := \<not> bt_consumer_only b\<rparr>, db')))"

definition close_bus :: "bus_process \<Rightarrow> bus_process" where
  "close_bus b = (if bt_closing b then b else b\<lparr>bt_closing := True, bt_dispatching := False\<rparr>)"

section \<open>Properties\<close>

text \<open>
  What a started bus has verified: a consumer-only, verify-only or controlled-runtime bus has changed nothing
  and its database lists exactly the manifest of its profile, the demanded one if one was demanded; a
  consumer-only bus runs no dispatcher and its role is not elevated, owns nothing and cannot write the outbox; and
  a controlled-runtime bus that publishes has the separated runtime role of the operator latch.
\<close>

theorem started_bus_verified:
  assumes "ensure_started apply_script inventory connected consumer rt (new_bus co vo demanded profile ro) db = (Inr (), b, db')"
    and "co \<or> vo \<or> profile = CONTROLLED_RUNTIME"
  shows "db' = db \<and> verify_schema profile db = Inr () \<and> (demanded = None \<or> demanded = Some profile) \<and>
    bt_dispatching b = (\<not> co) \<and>
    (if co then profile \<in> {RUNTIME, CONTROLLED_RUNTIME} \<and>
         (\<exists>r. consumer = Some r \<and> \<not> elevated_role r \<and> required_access r \<and> \<not> cn_schema_create r \<and>
            \<not> cn_owns_database r \<and> \<not> cn_owns_runtime_tables r \<and> \<not> cn_outbox_write_access r)
     else profile = CONTROLLED_RUNTIME \<longrightarrow> assert_runtime_privileges rt = Inr ())"
  using assms
  by (auto simp: ensure_started_def new_bus_def profile_check_def prepare_schema_def verifies_only_def verify_access_def
      verify_consumer_access_def verify_runtime_access_def rbind_eq_Inr split: sum.splits option.splits if_splits)

definition sample_consumer :: consumer_role where
  "sample_consumer = \<lparr>cn_rolsuper = False, cn_rolbypassrls = False, cn_rolcreaterole = False, cn_rolcreatedb = False,
     cn_rolreplication = False, cn_schema_create = False, cn_schema_usage = True, cn_database_connect = True,
     cn_owns_database = False, cn_owns_runtime_tables = False, cn_schema_history_select = True, cn_audit_access = True,
     cn_inbox_access = True, cn_outbox_write_access = False\<rparr>"

theorem started_bus_verified_witness:
  "\<exists>b. ensure_started (\<lambda>_. Inr) [] (Inr ()) (Some sample_consumer) None (new_bus True False None RUNTIME False)
      runtime_database = (Inr (), b, runtime_database) \<and> \<not> bt_dispatching b"
proof -
  have "verify_schema RUNTIME runtime_database = Inr ()" by code_simp
  then have "\<exists>b. ensure_started (\<lambda>_. Inr) [] (Inr ()) (Some sample_consumer) None (new_bus True False None RUNTIME False)
      runtime_database = (Inr (), b, runtime_database)"
    by (simp add: ensure_started_def new_bus_def profile_check_def prepare_schema_def verifies_only_def verify_access_def
        verify_consumer_access_def sample_consumer_def elevated_role_def required_access_def)
  then obtain b where "ensure_started (\<lambda>_. Inr) [] (Inr ()) (Some sample_consumer) None (new_bus True False None RUNTIME False)
      runtime_database = (Inr (), b, runtime_database)" ..
  with started_bus_verified [OF this] show ?thesis by auto
qed

end
