(* ===== verification/TradeFacts.thy ===== *)
theory TradeFacts
  imports TradeLifecycle OfflineRecovery
begin

text \<open>
  The public execution facts of a trade, \<open>kairos_persistence/trade_lifecycle.py\<close> over
  \<open>public_execution_events\<close> of migration 008: a lifecycle mutation, its fact, the audit row and the
  outbox row commit in one transaction, and a repeated request is checked against the journal.

  \<open>decode_event\<close> stands for \<open>TradeExecutionEventV1.model_validate\<close> of the external package, and an
  \<open>execution_event\<close> is the record of what the code reads of such an event; \<open>xe_dump\<close> is its
  \<open>model_dump(mode="json")\<close>. \<open>build\<close> is the caller's callback and \<open>nid\<close> the value the outbox id
  sequence yields.
\<close>

subsection \<open>Data\<close>

definition trade_execution_event_topic :: string where
  "trade_execution_event_topic = ''kairos.execution.trade_event.v1''"

definition execution_outbox_producer :: string where
  "execution_outbox_producer = ''kairos-execution-engine''"

record execution_event =
  xe_message :: kairos_message
  xe_event_id :: string
  xe_event_seq :: int
  xe_trade_id :: string
  xe_intent_id :: string
  xe_risk_decision_id :: string
  xe_strategy_id :: string
  xe_strategy_revision :: string
  xe_account_id :: string
  xe_venue_symbol :: string
  xe_trading_mode :: string
  xe_profile :: string
  xe_lifecycle_state :: trade_state
  xe_dump :: json

record fact_row =
  pf_trade_id :: string
  pf_fact_key :: string
  pf_event_seq :: int
  pf_state_version :: int
  pf_event_id :: string
  pf_payload :: json
  pf_payload_sha256 :: string
  pf_created_at :: timestamp

record fact_db = trade_db +
  fd_facts :: "fact_row list"
  fd_audit :: "audit_row list"
  fd_outbox :: "outbox_row list"

record trade_mutation_result =
  mr_trade :: trade_record
  mr_event :: execution_event

type_synonym event_builder = "int \<Rightarrow> execution_event res"

subsection \<open>Validation\<close>

definition validate_fact_arguments :: "string \<Rightarrow> int option \<Rightarrow> unit res" where
  "validate_fact_arguments fact_key expected_state_version =
     (if fact_key = [] \<or> fact_key \<noteq> strip fact_key \<or> 512 < length fact_key
      then Inl (ValueError ''fact_key must be normalized and at most 512 characters'')
      else if (case expected_state_version of None \<Rightarrow> False | Some v \<Rightarrow> v < 0)
      then Inl (ValueError ''expected_state_version must be a non-negative integer'')
      else Inr ())"

definition validate_execution_event :: "execution_event \<Rightarrow> trade_record \<Rightarrow> bool \<Rightarrow> unit res" where
  "validate_execution_event event trade require_current_state =
     (let t = tr_terms trade in
      if km_message_id (xe_message event) \<noteq> xe_event_id event
      then Inl (ValueError ''public execution event message_id must equal its event_id'')
      else if \<not> (xe_trade_id event = nt_trade_id t \<and> xe_intent_id event = nt_strategy_intent_id t \<and>
           xe_risk_decision_id event = nt_risk_decision_id t \<and> xe_strategy_id event = nt_strategy_id t \<and>
           xe_strategy_revision event = nt_strategy_revision t \<and> xe_account_id event = nt_account_id t \<and>
           xe_venue_symbol event = nt_venue_symbol t \<and> xe_trading_mode event = nt_trading_mode t \<and>
           xe_profile event = nt_profile t \<and>
           (require_current_state \<longrightarrow> xe_lifecycle_state event = tr_state trade))
      then Inl (MessageIdentityConflict ''public execution event differs from durable trade lineage'')
      else Inr ())"

definition execution_event_of ::
  "(string \<Rightarrow> string) \<Rightarrow> (json \<Rightarrow> execution_event res) \<Rightarrow> json \<Rightarrow> string \<Rightarrow> execution_event res" where
  "execution_event_of sha decode_event payload expected_sha256 =
     rbind (trade_object payload) (\<lambda>data.
     rbind (canonical_payload sha data) (\<lambda>(encoded, digest).
       if digest \<noteq> expected_sha256
       then Inl (MessageIdentityConflict ''stored public execution event fingerprint does not match'')
       else decode_event data))"

subsection \<open>Appending a fact\<close>

definition fact_at :: "string \<Rightarrow> string \<Rightarrow> 'a fact_db_scheme \<Rightarrow> fact_row option" where
  "fact_at trade_id fact_key db =
     select_one (\<lambda>r. pf_trade_id r = trade_id \<and> pf_fact_key r = fact_key) (fd_facts db)"

definition fact_check :: "fact_row \<Rightarrow> bool" where
  "fact_check r \<longleftrightarrow> 1 \<le> length (pf_fact_key r) \<and> length (pf_fact_key r) \<le> 512 \<and> 0 < pf_event_seq r \<and>
     0 \<le> pf_state_version r \<and> sha256_hex (pf_event_id r) \<and> sha256_hex (pf_payload_sha256 r)"

definition facts_unique :: "fact_row list \<Rightarrow> bool" where
  "facts_unique t \<longleftrightarrow> unique_by (\<lambda>r. (pf_trade_id r, pf_fact_key r)) t \<and> unique_by pf_event_id t \<and>
     unique_by (\<lambda>r. (pf_trade_id r, pf_event_seq r)) t"

definition insert_fact :: "fact_row \<Rightarrow> fact_db \<Rightarrow> fact_db res" where
  "insert_fact row db =
     (if \<not> fact_check row \<or> \<not> facts_unique (insert_row row (fd_facts db))
         \<or> pf_trade_id row \<notin> tw_trade_id ` set (td_trades db)
      then Inl (IntegrityError ''public_execution_events'')
      else Inr (db\<lparr>fd_facts := insert_row row (fd_facts db)\<rparr>))"

definition next_sequence :: "timestamp \<Rightarrow> trade_row \<Rightarrow> trade_row" where
  "next_sequence now r =
     r\<lparr>tw_next_execution_event_seq := tw_next_execution_event_seq r + 1, tw_updated_at := now\<rparr>"

text \<open>The audit row and the outbox row of an event.\<close>

definition publish_event ::
  "execution_event \<Rightarrow> string \<Rightarrow> string \<Rightarrow> int \<Rightarrow> timestamp \<Rightarrow> fact_db \<Rightarrow> fact_db res" where
  "publish_event event encoded fingerprint nid now db =
     rbind (append_event trade_execution_event_topic (xe_message event) (fd_audit db)) (\<lambda>(inserted, audit).
     rbind (enqueue_outbox nid (km_message_id (xe_message event)) trade_execution_event_topic encoded fingerprint
              execution_outbox_producer now (fd_outbox db)) (\<lambda>(enqueued, outbox).
       Inr (db\<lparr>fd_audit := audit, fd_outbox := outbox\<rparr>)))"

definition replay_fact ::
  "(string \<Rightarrow> string) \<Rightarrow> (json \<Rightarrow> execution_event res) \<Rightarrow> trade_record \<Rightarrow> fact_row \<Rightarrow> int \<Rightarrow> event_builder
     \<Rightarrow> int \<Rightarrow> timestamp \<Rightarrow> fact_db \<Rightarrow> (execution_event \<times> fact_db) res" where
  "replay_fact sha decode_event trade existing expected_state_version build nid now db =
     (if pf_state_version existing \<noteq> expected_state_version
      then Inl (MessageIdentityConflict ''execution fact was replayed against a different trade state version'')
      else rbind (execution_event_of sha decode_event (pf_payload existing) (pf_payload_sha256 existing)) (\<lambda>event.
           rbind (validate_execution_event event trade False) (\<lambda>_.
           rbind (build (pf_event_seq existing)) (\<lambda>rebuilt.
           if xe_event_seq rebuilt \<noteq> pf_event_seq existing
           then Inl (ValueError ''public execution event builder returned the wrong sequence'')
           else rbind (validate_execution_event rebuilt trade False) (\<lambda>_.
                rbind (canonical_payload sha (xe_dump rebuilt)) (\<lambda>(text, digest).
                if digest \<noteq> pf_payload_sha256 existing
                then Inl (MessageIdentityConflict ''execution fact_key was reused with different content'')
                else rbind (canonical_payload sha (xe_dump event)) (\<lambda>(encoded, fingerprint).
                     rbind (publish_event event encoded fingerprint nid now db) (\<lambda>db1. Inr (event, db1)))))))))"

definition fresh_fact ::
  "(string \<Rightarrow> string) \<Rightarrow> trade_record \<Rightarrow> string \<Rightarrow> int \<Rightarrow> event_builder \<Rightarrow> int \<Rightarrow> timestamp \<Rightarrow> fact_db
     \<Rightarrow> (execution_event \<times> fact_db) res" where
  "fresh_fact sha trade fact_key expected_state_version build nid now db =
     (if tr_state_version trade \<noteq> expected_state_version
      then Inl (RuntimeError ''trade state changed before its public execution fact was appended'')
      else case trade_at (tw_trade_id trade) db of
        None \<Rightarrow> Inl (KeyError ''unknown trade'')
      | Some row \<Rightarrow>
          let sequence = tw_next_execution_event_seq row in
          rbind (build sequence) (\<lambda>event.
          if xe_event_seq event \<noteq> sequence
          then Inl (ValueError ''public execution event builder returned the wrong sequence'')
          else rbind (validate_execution_event event trade True) (\<lambda>_.
               rbind (canonical_payload sha (xe_dump event)) (\<lambda>(encoded, fingerprint).
               rbind (text_to_jsonb encoded) (\<lambda>doc.
               rbind (insert_fact \<lparr>pf_trade_id = tw_trade_id trade, pf_fact_key = fact_key,
                        pf_event_seq = sequence, pf_state_version = expected_state_version,
                        pf_event_id = xe_event_id event, pf_payload = doc, pf_payload_sha256 = fingerprint,
                        pf_created_at = now\<rparr> db) (\<lambda>db1.
               if \<not> int8 (sequence + 1) then Inl (DataError ''bigint out of range'')
               else rbind (publish_event event encoded fingerprint nid now
                            (db1\<lparr>td_trades := update_where (\<lambda>r. tw_trade_id r = tw_trade_id trade
                                 \<and> tw_next_execution_event_seq r = sequence) (next_sequence now) (td_trades db1)\<rparr>))
                      (\<lambda>db2. Inr (event, db2))))))))"

definition append_execution_event_locked ::
  "(string \<Rightarrow> string) \<Rightarrow> (json \<Rightarrow> execution_event res) \<Rightarrow> trade_record \<Rightarrow> string \<Rightarrow> int \<Rightarrow> event_builder
     \<Rightarrow> int \<Rightarrow> timestamp \<Rightarrow> fact_db \<Rightarrow> (execution_event \<times> fact_db) res" where
  "append_execution_event_locked sha decode_event trade fact_key expected_state_version build nid now db =
     (case fact_at (tw_trade_id trade) fact_key db of
        Some existing \<Rightarrow> replay_fact sha decode_event trade existing expected_state_version build nid now db
      | None \<Rightarrow> fresh_fact sha trade fact_key expected_state_version build nid now db)"

definition append_execution_event ::
  "(string \<Rightarrow> string) \<Rightarrow> (json \<Rightarrow> execution_event res) \<Rightarrow> string \<Rightarrow> string \<Rightarrow> int \<Rightarrow> event_builder \<Rightarrow> int
     \<Rightarrow> timestamp \<Rightarrow> fact_db \<Rightarrow> (execution_event \<times> fact_db) res" where
  "append_execution_event sha decode_event trade_id fact_key expected_state_version build nid now db =
     (if blank trade_id then Inl (ValueError ''trade_id must not be empty'')
      else rbind (validate_fact_arguments fact_key (Some expected_state_version)) (\<lambda>_.
        case trade_at trade_id db of
          None \<Rightarrow> Inl (KeyError ''unknown trade'')
        | Some row \<Rightarrow> rbind (trade_of_row sha row) (\<lambda>trade.
            append_execution_event_locked sha decode_event trade fact_key expected_state_version build nid now db)))"

subsection \<open>Mutations with a fact\<close>

definition create_with_execution_event ::
  "(string \<Rightarrow> string) \<Rightarrow> (json \<Rightarrow> risk_decision res) \<Rightarrow> string list \<Rightarrow> (json \<Rightarrow> execution_event res) \<Rightarrow> new_trade
     \<Rightarrow> string \<Rightarrow> event_builder \<Rightarrow> int \<Rightarrow> timestamp \<Rightarrow> fact_db \<Rightarrow> (trade_mutation_result \<times> fact_db) res" where
  "create_with_execution_event sha decode profiles decode_event trade fact_key build nid now db =
     rbind (validate_new_trade decode profiles trade) (\<lambda>_.
     rbind (validate_fact_arguments fact_key None) (\<lambda>_.
     rbind (create_locked sha trade now db) (\<lambda>(record, db1).
       if fact_at (nt_trade_id trade) fact_key db1 = None \<and> tr_state_version record \<noteq> 0
       then Inl (RuntimeError ''trade creation fact is missing after the lifecycle has already advanced'')
       else rbind (append_execution_event_locked sha decode_event record fact_key 0 build nid now db1) (\<lambda>(event, db2).
              Inr (\<lparr>mr_trade = record, mr_event = event\<rparr>, db2)))))"

text \<open>\<open>_parse_optional_timestamp\<close> and the other fields of a stored transition.\<close>

definition parse_optional_timestamp :: "json \<Rightarrow> timestamp option res" where
  "parse_optional_timestamp value = (case value of
       JNull \<Rightarrow> Inr None
     | JStr s \<Rightarrow> (case fromisoformat (replace_Z s) of
          None \<Rightarrow> Inl (ValueError ''Invalid isoformat string'')
        | Some (Naive t) \<Rightarrow> Inl (MessageIdentityConflict ''stored lifecycle timestamp is not timezone-aware'')
        | Some (Aware t) \<Rightarrow> if datetime_range t then Inr (Some t) else Inl (OverflowError ''date value out of range''))
     | _ \<Rightarrow> Inl (MessageIdentityConflict ''stored lifecycle timestamp is not a string''))"

definition stored_field :: "string \<Rightarrow> json \<Rightarrow> json res" where
  "stored_field name payload = (case json_get name payload of None \<Rightarrow> Inl (KeyError name) | Some v \<Rightarrow> Inr v)"

text \<open>An identifier of the journal is a string or absent; other values are never stored.\<close>

definition stored_identifier :: "string \<Rightarrow> json \<Rightarrow> string option res" where
  "stored_identifier name payload = rbind (stored_field name payload) (\<lambda>v. case v of
       JNull \<Rightarrow> Inr None | JStr s \<Rightarrow> Inr (Some s) | _ \<Rightarrow> Inl (TypeError ''stored identifier is not a string''))"

definition stored_filled :: "json \<Rightarrow> pyfloat res" where
  "stored_filled payload = rbind (stored_field ''filled_quantity_hex'' payload) (\<lambda>v. case v of
       JStr s \<Rightarrow> (case float_fromhex s of None \<Rightarrow> Inl (ValueError ''invalid hexadecimal floating-point string'')
                 | Some x \<Rightarrow> Inr x)
     | _ \<Rightarrow> Inl (ValueError ''invalid hexadecimal floating-point string''))"

definition stored_ids :: "json \<Rightarrow> order_ids res" where
  "stored_ids p =
     rbind (stored_identifier ''entry_exchange_order_id'' p) (\<lambda>entry.
     rbind (stored_identifier ''stop_client_order_id'' p) (\<lambda>stopc.
     rbind (stored_identifier ''stop_exchange_order_id'' p) (\<lambda>stope.
     rbind (stored_identifier ''target_client_order_id'' p) (\<lambda>targetc.
     rbind (stored_identifier ''target_exchange_order_id'' p) (\<lambda>targete.
     rbind (stored_identifier ''close_client_order_id'' p) (\<lambda>closec.
     rbind (stored_identifier ''close_exchange_order_id'' p) (\<lambda>closee.
       Inr \<lparr>oi_entry_exchange_order_id = entry, oi_stop_client_order_id = stopc,
            oi_stop_exchange_order_id = stope, oi_target_client_order_id = targetc,
            oi_target_exchange_order_id = targete, oi_close_client_order_id = closec,
            oi_close_exchange_order_id = closee\<rparr>)))))))"

definition prior_exposure :: "trade_event \<Rightarrow> (pyfloat \<times> timestamp option \<times> order_ids) res" where
  "prior_exposure previous =
     rbind (trade_object (te_payload previous)) (\<lambda>payload.
     if te_event_type previous = ''CREATED'' then Inr (float_zero, None, no_ids)
     else rbind (stored_filled payload) (\<lambda>filled.
          rbind (stored_field ''first_fill_at'' payload) (\<lambda>at.
          rbind (parse_optional_timestamp at) (\<lambda>fill.
          rbind (stored_ids payload) (\<lambda>ids. Inr (filled, fill, ids))))))"

definition validate_transition_replay ::
  "(string \<Rightarrow> string) \<Rightarrow> string \<Rightarrow> int \<Rightarrow> transition_request \<Rightarrow> 'a trade_db_scheme \<Rightarrow> unit res" where
  "validate_transition_replay sha trade_id state_version q db =
     (if state_version \<le> 0
      then Inl (MessageIdentityConflict ''transition fact must reference a positive state version'')
      else case take 2 (drop (nat (state_version - 1)) (trade_events trade_id db)) of
        [previous, transition] \<Rightarrow>
          if te_from_state transition \<noteq> Some (te_to_state previous) \<or> te_to_state transition \<noteq> tt_target q
             \<or> te_event_type transition \<noteq> tt_event_type q
          then Inl (MessageIdentityConflict ''execution fact_key belongs to a different lifecycle transition'')
          else rbind (trade_object (te_payload previous)) (\<lambda>previous_payload.
               rbind (trade_object (te_payload transition)) (\<lambda>stored_payload.
               rbind (prior_exposure previous) (\<lambda>(prior_filled, prior_fill, prior_ids).
               rbind (supplied_fill (tt_first_fill_at q)) (\<lambda>supplied.
               rbind (first_fill prior_fill supplied) (\<lambda>fill.
               rbind (merge_ids prior_ids (tt_ids q)) (\<lambda>ids.
               let filled = (case tt_filled_quantity q of None \<Rightarrow> prior_filled | Some f \<Rightarrow> f);
                   expected = transition_payload (event_payload_of q) filled fill ids in
               rbind (canonical_payload sha expected) (\<lambda>(text, digest).
               rbind (canonical_payload sha stored_payload) (\<lambda>(stored_text, stored_digest).
                 if digest \<noteq> stored_digest
                 then Inl (MessageIdentityConflict ''execution fact_key was reused for a different transition request'')
                 else Inr ()))))))))
      | _ \<Rightarrow> Inl (MessageIdentityConflict ''transition fact has no matching lifecycle journal entry''))"

definition transition_with_execution_event ::
  "(string \<Rightarrow> string) \<Rightarrow> (json \<Rightarrow> execution_event res) \<Rightarrow> string \<Rightarrow> transition_request \<Rightarrow> string \<Rightarrow> event_builder
     \<Rightarrow> int \<Rightarrow> timestamp \<Rightarrow> fact_db \<Rightarrow> (trade_mutation_result \<times> fact_db) res" where
  "transition_with_execution_event sha decode_event trade_id q fact_key build nid now db =
     rbind (validate_transition_arguments trade_id (tt_event_type q)) (\<lambda>_.
     rbind (validate_fact_arguments fact_key None) (\<lambda>_.
     case trade_at trade_id db of
       None \<Rightarrow> Inl (KeyError ''unknown trade'')
     | Some row \<Rightarrow>
         rbind (trade_of_row sha row) (\<lambda>current.
         case fact_at trade_id fact_key db of
           Some existing \<Rightarrow>
             rbind (execution_event_of sha decode_event (pf_payload existing) (pf_payload_sha256 existing)) (\<lambda>existing_event.
             if xe_lifecycle_state existing_event \<noteq> tt_target q
             then Inl (MessageIdentityConflict ''execution fact_key belongs to a different lifecycle state'')
             else rbind (validate_transition_replay sha trade_id (pf_state_version existing) q db) (\<lambda>_.
                  rbind (append_execution_event_locked sha decode_event current fact_key (pf_state_version existing)
                           build nid now db) (\<lambda>(event, db1).
                    Inr (\<lparr>mr_trade = current, mr_event = event\<rparr>, db1))))
         | None \<Rightarrow>
             rbind (transition_locked sha current q now db) (\<lambda>(updated, db1).
             rbind (append_execution_event_locked sha decode_event updated fact_key (tr_state_version updated)
                      build nid now db1) (\<lambda>(event, db2).
               Inr (\<lparr>mr_trade = updated, mr_event = event\<rparr>, db2))))))"

subsection \<open>Queries\<close>

primrec events_of_rows ::
  "(string \<Rightarrow> string) \<Rightarrow> (json \<Rightarrow> execution_event res) \<Rightarrow> fact_row list \<Rightarrow> execution_event list res" where
  "events_of_rows sha decode_event [] = Inr []"
| "events_of_rows sha decode_event (r # rs) =
     rbind (execution_event_of sha decode_event (pf_payload r) (pf_payload_sha256 r)) (\<lambda>e.
     rbind (events_of_rows sha decode_event rs) (\<lambda>es. Inr (e # es)))"

definition list_execution_events ::
  "(string \<Rightarrow> string) \<Rightarrow> (json \<Rightarrow> execution_event res) \<Rightarrow> string \<Rightarrow> fact_db \<Rightarrow> execution_event list res" where
  "list_execution_events sha decode_event trade_id db =
     (if blank trade_id then Inl (ValueError ''trade_id must not be empty'')
      else events_of_rows sha decode_event
             (sort_key pf_event_seq (filter (\<lambda>r. pf_trade_id r = trade_id) (fd_facts db))))"

definition get_execution_event ::
  "(string \<Rightarrow> string) \<Rightarrow> (json \<Rightarrow> execution_event res) \<Rightarrow> string \<Rightarrow> string \<Rightarrow> fact_db \<Rightarrow> execution_event option res" where
  "get_execution_event sha decode_event trade_id fact_key db =
     (if blank trade_id then Inl (ValueError ''trade_id must not be empty'')
      else if fact_key = [] \<or> fact_key \<noteq> strip fact_key \<or> 512 < length fact_key
      then Inl (ValueError ''fact_key must be normalized and at most 512 characters'')
      else case fact_at trade_id fact_key db of
        None \<Rightarrow> Inr None
      | Some r \<Rightarrow> rbind (execution_event_of sha decode_event (pf_payload r) (pf_payload_sha256 r)) (\<lambda>e. Inr (Some e)))"

definition list_execution_events_for_scope ::
  "(string \<Rightarrow> string) \<Rightarrow> (json \<Rightarrow> execution_event res) \<Rightarrow> string \<Rightarrow> string \<Rightarrow> string \<Rightarrow> pydatetime option \<Rightarrow> fact_db
     \<Rightarrow> execution_event list res" where
  "list_execution_events_for_scope sha decode_event environment account_id exchange since db =
     (if blank environment then Inl (ValueError ''environment must not be empty'')
      else if blank account_id then Inl (ValueError ''account_id must not be empty'')
      else if blank exchange then Inl (ValueError ''exchange must not be empty'')
      else if (case since of Some (Naive t) \<Rightarrow> True | _ \<Rightarrow> False) then Inl (ValueError ''since must be timezone-aware'')
      else let scoped = map tw_trade_id (filter (\<lambda>r. account_slot r = (environment, account_id, exchange)) (td_trades db));
               recent = (\<lambda>r. case since of Some (Aware t) \<Rightarrow> t \<le> pf_created_at r | _ \<Rightarrow> True)
           in events_of_rows sha decode_event
                (sort_key pf_created_at (sort_key pf_trade_id (sort_key pf_event_seq
                   (filter (\<lambda>r. pf_trade_id r \<in> set scoped \<and> recent r) (fd_facts db))))))"

subsection \<open>What a fact changes\<close>

lemma bookkeeping_sequence: "bookkeeping (next_sequence now)"
  by (simp add: bookkeeping_def next_sequence_def)

lemma bookkeeping_reconciled: "bookkeeping (reconciled_trade detail now)"
  by (simp add: bookkeeping_def reconciled_trade_def)

text \<open>A fact is published when the bus and the audit log hold its message.\<close>

definition published :: "string \<Rightarrow> string \<Rightarrow> fact_db \<Rightarrow> bool" where
  "published event_id fingerprint db \<longleftrightarrow>
     (\<exists>w\<in>set (fd_outbox db). ob_message_id w = event_id \<and> ob_topic w = trade_execution_event_topic \<and>
        ob_producer w = execution_outbox_producer \<and> ob_payload_sha256 w = Some fingerprint) \<and>
     (\<exists>a\<in>set (fd_audit db). ev_message_id a = event_id)"

lemma insert_audit_present: "insert_audit row t = (b, t') \<Longrightarrow> \<exists>a\<in>set t'. audit_key a = audit_key row"
  by (auto simp: insert_audit_def image_iff split: if_splits)

lemma insert_audit_grows: "insert_audit row t = (b, t') \<Longrightarrow> set t \<subseteq> set t'"
  by (auto simp: insert_audit_def split: if_splits)

lemma enqueue_fingerprint:
  assumes "enqueue_outbox nid mid topic payload digest producer now t = Inr (b, t')"
  shows "\<exists>w\<in>set t'. ob_message_id w = mid \<and> ob_topic w = topic \<and> ob_producer w = producer
     \<and> ob_payload_sha256 w = Some digest"
proof (cases "select_one (\<lambda>r. ob_message_id r = mid) t")
  case None
  with assms show ?thesis
    by (auto simp: enqueue_outbox_def rbind_eq_Inr fresh_outbox_def split: if_splits)
next
  case (Some old)
  then have old: "old \<in> set t" "ob_message_id old = mid" by (auto dest: select_one_SomeD)
  then have new: "set_outbox_sha digest old \<in> set (update_where (\<lambda>r. ob_message_id r = mid) (set_outbox_sha digest) t)"
    by (simp add: updated_row_mem)
  have same: "ob_topic old = topic" "ob_producer old = producer"
      "ob_payload_sha256 old = None \<and> t' = update_where (\<lambda>r. ob_message_id r = mid) (set_outbox_sha digest) t \<or>
       ob_payload_sha256 old = Some digest \<and> t' = t"
    using assms Some by (auto simp: enqueue_outbox_def rbind_eq_Inr split: if_splits)
  show ?thesis
  proof (cases "ob_payload_sha256 old")
    case None
    with new same old show ?thesis
      by (intro bexI [of _ "set_outbox_sha digest old"]) (simp_all add: set_outbox_sha_def)
  next
    case (Some d)
    with same old show ?thesis by (intro bexI [of _ old]) simp_all
  qed
qed

lemma publish_event_outcome:
  assumes "publish_event event encoded fingerprint nid now db = Inr db'"
  obtains audit outbox b where "db' = db\<lparr>fd_audit := audit, fd_outbox := outbox\<rparr>" and "set (fd_audit db) \<subseteq> set audit"
    and "enqueue_outbox nid (km_message_id (xe_message event)) trade_execution_event_topic encoded fingerprint
           execution_outbox_producer now (fd_outbox db) = Inr (b, outbox)"
    and "published (km_message_id (xe_message event)) fingerprint db'"
    and "\<exists>a\<in>set audit. audit_key a = (km_produced_at (xe_message event), km_message_id (xe_message event))"
    and "\<exists>doc. text_to_jsonb (km_dump_json (xe_message event)) = Inr doc"
proof -
  obtain doc a b1 b outbox where h: "insert_audit \<lparr>ev_produced_at = km_produced_at (xe_message event),
        ev_message_id = km_message_id (xe_message event), ev_topic = trade_execution_event_topic,
        ev_source = km_source (xe_message event), ev_schema_version = km_schema_version (xe_message event),
        ev_correlation_id = km_correlation_id (xe_message event),
        ev_causation_id = km_causation_id (xe_message event), ev_payload = doc\<rparr> (fd_audit db) = (b1, a)"
      "enqueue_outbox nid (km_message_id (xe_message event)) trade_execution_event_topic encoded fingerprint
           execution_outbox_producer now (fd_outbox db) = Inr (b, outbox)"
      "db' = db\<lparr>fd_audit := a, fd_outbox := outbox\<rparr>" "text_to_jsonb (km_dump_json (xe_message event)) = Inr doc"
    using assms by (auto simp: publish_event_def append_event_def rbind_eq_Inr)
  show thesis
    using insert_audit_present [OF h(1)] insert_audit_grows [OF h(1)] enqueue_fingerprint [OF h(2)]
    by (intro that [OF h(3) _ h(2)]) (auto simp: published_def h(3,4) audit_key_def)
qed

lemma replay_fact_outcome:
  assumes "replay_fact sha decode_event trade existing version build nid now db = Inr (event, db')"
  obtains encoded fingerprint where
    "execution_event_of sha decode_event (pf_payload existing) (pf_payload_sha256 existing) = Inr event"
    and "publish_event event encoded fingerprint nid now db = Inr db'"
  using assms
  by (auto simp: replay_fact_def rbind_eq_Inr split: if_splits)

lemma fresh_fact_outcome:
  assumes "fresh_fact sha (trade_record.truncate row) fact_key version build nid now db = Inr (event, db')"
    and "trades_unique (td_trades db)" and "row \<in> set (td_trades db)"
  obtains doc fact db1 where
    "tr_state_version row = version" and "build (tw_next_execution_event_seq row) = Inr event"
    and "xe_event_seq event = tw_next_execution_event_seq row"
    and "validate_execution_event event (trade_record.truncate row) True = Inr ()"
    and "text_to_jsonb (canonical_json (xe_dump event)) = Inr doc" and "json_finite (xe_dump event)"
    and "fact = \<lparr>pf_trade_id = tw_trade_id row, pf_fact_key = fact_key,
           pf_event_seq = tw_next_execution_event_seq row, pf_state_version = version,
           pf_event_id = xe_event_id event, pf_payload = doc,
           pf_payload_sha256 = sha (canonical_json (xe_dump event)), pf_created_at = now\<rparr>"
    and "fact_check fact" and "facts_unique (insert_row fact (fd_facts db))"
    and "db1 = db\<lparr>fd_facts := insert_row fact (fd_facts db),
           td_trades := update_where (\<lambda>r. tw_trade_id r = tw_trade_id row) (next_sequence now) (td_trades db)\<rparr>"
    and "publish_event event (canonical_json (xe_dump event)) (sha (canonical_json (xe_dump event))) nid now db1 = Inr db'"
proof -
  have at: "trade_at (tw_trade_id row) db = Some row" using assms(2,3) by (rule trade_at_unique)
  let ?same = "\<lambda>r. tw_trade_id r = tw_trade_id row \<and> tw_next_execution_event_seq r = tw_next_execution_event_seq row"
  have upd: "update_where ?same f (td_trades db) = update_where (\<lambda>r. tw_trade_id r = tw_trade_id row) f (td_trades db)" for f
    unfolding update_where_def using trade_row_eq [OF assms(2) _ assms(3)] by (auto intro!: map_cong)
  obtain e doc db1 where h: "tr_state_version row = version" "build (tw_next_execution_event_seq row) = Inr e"
      "xe_event_seq e = tw_next_execution_event_seq row"
      "validate_execution_event e (trade_record.truncate row) True = Inr ()"
      "json_finite (xe_dump e)" "text_to_jsonb (canonical_json (xe_dump e)) = Inr doc"
      "insert_fact \<lparr>pf_trade_id = tw_trade_id row, pf_fact_key = fact_key,
           pf_event_seq = tw_next_execution_event_seq row, pf_state_version = version,
           pf_event_id = xe_event_id e, pf_payload = doc,
           pf_payload_sha256 = sha (canonical_json (xe_dump e)), pf_created_at = now\<rparr> db = Inr db1"
      "publish_event e (canonical_json (xe_dump e)) (sha (canonical_json (xe_dump e))) nid now
         (db1\<lparr>td_trades := update_where ?same (next_sequence now) (td_trades db1)\<rparr>) = Inr db'" "event = e"
    using assms(1)
    by (auto simp: fresh_fact_def at rbind_eq_Inr canonical_payload_Inr Let_def split: if_splits)
  let ?fact = "\<lparr>pf_trade_id = tw_trade_id row, pf_fact_key = fact_key,
           pf_event_seq = tw_next_execution_event_seq row, pf_state_version = version,
           pf_event_id = xe_event_id e, pf_payload = doc,
           pf_payload_sha256 = sha (canonical_json (xe_dump e)), pf_created_at = now\<rparr>"
  have f: "fact_check ?fact" "facts_unique (insert_row ?fact (fd_facts db))"
      "db1 = db\<lparr>fd_facts := insert_row ?fact (fd_facts db)\<rparr>"
    using h(7) unfolding insert_fact_def by (simp_all only: if_Inl_eq_Inr de_Morgan_disj not_not sum.inject)
  show thesis
    by (rule that [OF h(1) _ _ _ _ _ refl _ _ refl]) (use h(2-6,8) f in \<open>simp_all add: h(9) upd\<close>)
qed

subsection \<open>Runs\<close>

text \<open>
  The operations of the repository, with the dispatcher's and other writers' work on the bus and the
  audit log between them.
\<close>

datatype trade_op =
    CreateOp new_trade timestamp
  | CreateFactOp new_trade string event_builder int timestamp
  | MoveOp string transition_request timestamp
  | MoveFactOp string transition_request string event_builder int timestamp
  | FactOp string string int event_builder int timestamp
  | ReconcileOp string string timestamp
  | SequenceOp string timestamp
  | BusOp outbox_op
  | AuditOp string kairos_message

fun trade_step ::
  "(string \<Rightarrow> string) \<Rightarrow> (json \<Rightarrow> risk_decision res) \<Rightarrow> string list \<Rightarrow> (json \<Rightarrow> execution_event res) \<Rightarrow> trade_op
     \<Rightarrow> fact_db \<Rightarrow> fact_db" where
  "trade_step sha decode profiles decode_event (CreateOp t now) db = settle db (create_trade sha decode profiles t now db)"
| "trade_step sha decode profiles decode_event (CreateFactOp t key build nid now) db =
     settle db (create_with_execution_event sha decode profiles decode_event t key build nid now db)"
| "trade_step sha decode profiles decode_event (MoveOp k q now) db = settle db (transition_trade sha k q now db)"
| "trade_step sha decode profiles decode_event (MoveFactOp k q key build nid now) db =
     settle db (transition_with_execution_event sha decode_event k q key build nid now db)"
| "trade_step sha decode profiles decode_event (FactOp k key version build nid now) db =
     settle db (append_execution_event sha decode_event k key version build nid now db)"
| "trade_step sha decode profiles decode_event (ReconcileOp k detail now) db = snd (mark_reconciled sha k detail now db)"
| "trade_step sha decode profiles decode_event (SequenceOp k now) db = settle db (next_event_sequence k now db)"
| "trade_step sha decode profiles decode_event (BusOp op) db = db\<lparr>fd_outbox := outbox_step sha op (fd_outbox db)\<rparr>"
| "trade_step sha decode profiles decode_event (AuditOp topic m) db =
     db\<lparr>fd_audit := settle (fd_audit db) (append_event topic m (fd_audit db))\<rparr>"

text \<open>
  What those operations are made of. \<open>C\<close> and \<open>T\<close> are conditions on the trades created and the
  transitions requested, \<open>L\<close> tells whether the older \<open>next_event_sequence\<close> is in use.
\<close>

inductive fact_change ::
  "(string \<Rightarrow> string) \<Rightarrow> (new_trade \<Rightarrow> bool) \<Rightarrow> (transition_request \<Rightarrow> bool) \<Rightarrow> bool \<Rightarrow> fact_db \<Rightarrow> fact_db \<Rightarrow> bool"
  for sha C T L where
  created: "C t \<Longrightarrow> create_locked sha t now db = Inr (record, db') \<Longrightarrow> fact_change sha C T L db db'"
| moved: "T q \<Longrightarrow> row \<in> set (td_trades db) \<Longrightarrow> transition_locked sha (trade_record.truncate row) q now db = Inr (record, db')
    \<Longrightarrow> fact_change sha C T L db db'"
| told: "row \<in> set (td_trades db) \<Longrightarrow>
    fresh_fact sha (trade_record.truncate row) key version build nid now db = Inr (event, db') \<Longrightarrow> fact_change sha C T L db db'"
| retold: "publish_event event encoded fingerprint nid now db = Inr db' \<Longrightarrow> fact_change sha C T L db db'"
| marked: "fact_change sha C T L db
    (db\<lparr>td_trades := update_where (\<lambda>r. tw_trade_id r = k) (reconciled_trade detail now) (td_trades db)\<rparr>)"
| skipped: "L \<Longrightarrow> fact_change sha C T L db
    (db\<lparr>td_trades := update_where (\<lambda>r. tw_trade_id r = k) (next_sequence now) (td_trades db)\<rparr>)"
| bussed: "fact_change sha C T L db (db\<lparr>fd_outbox := outbox_step sha op (fd_outbox db)\<rparr>)"
| audited: "set (fd_audit db) \<subseteq> set audit \<Longrightarrow> fact_change sha C T L db (db\<lparr>fd_audit := audit\<rparr>)"

fun op_ok :: "(new_trade \<Rightarrow> bool) \<Rightarrow> (transition_request \<Rightarrow> bool) \<Rightarrow> bool \<Rightarrow> trade_op \<Rightarrow> bool" where
  "op_ok C T L (CreateOp t now) = C t"
| "op_ok C T L (CreateFactOp t key build nid now) = C t"
| "op_ok C T L (MoveOp k q now) = T q"
| "op_ok C T L (MoveFactOp k q key build nid now) = T q"
| "op_ok C T L (SequenceOp k now) = L"
| "op_ok C T L op = True"

lemma frame_inv:
  assumes "td_trades db' = td_trades db" and "td_events db' = td_events db"
  shows "trade_inv db' = trade_inv db" and "trade_position k db' = trade_position k db" and "trades_le db db'"
    and "trade_chain_ok sha db' = trade_chain_ok sha db"
  using assms
  by (simp_all add: trade_inv_def trade_journal_ok_def trade_events_def trade_position_def trade_at_def
      trades_le_def table_le_refl trade_le_refl trade_chain_ok_def)

lemma create_row: "create_locked sha t now db = Inr (record, db') \<Longrightarrow> \<exists>row\<in>set (td_trades db'). record = trade_record.truncate row"
  by (erule create_locked_outcome) (auto dest: trade_at_Some)

lemma transition_row:
  assumes "trade_inv db" and "row \<in> set (td_trades db)"
    and "transition_locked sha (trade_record.truncate row) q now db = Inr (record, db')"
  shows "\<exists>r\<in>set (td_trades db'). record = trade_record.truncate r"
proof -
  have u: "trades_unique (td_trades db)" using assms(1) by (simp add: trade_inv_def)
  from assms(3) u assms(2) show ?thesis
  proof (rule transition_locked_outcome)
    fix filled fill timeout ids and e :: trade_event
    let ?m = "moved_trade (tt_target q) filled fill timeout ids (te_sha256 e) now"
    assume rec: "record = trade_record.truncate (?m row)"
      and db': "db' = db\<lparr>td_trades := update_where (\<lambda>r. tw_trade_id r = tw_trade_id row) ?m (td_trades db),
           td_events := insert_row e (td_events db)\<rparr>"
    have "?m row \<in> set (td_trades db')" using assms(2) by (simp add: db' updated_row_mem)
    with rec show ?thesis by blast
  qed
qed

lemma append_locked_changes:
  assumes "append_execution_event_locked sha decode_event (trade_record.truncate row) key version build nid now db = Inr (event, db')"
    and "row \<in> set (td_trades db)"
  shows "fact_change sha C T L db db'"
proof (cases "fact_at (tw_trade_id row) key db")
  case None
  with assms show ?thesis by (auto simp: append_execution_event_locked_def intro: told)
next
  case (Some x)
  with assms(1) have "replay_fact sha decode_event (trade_record.truncate row) x version build nid now db = Inr (event, db')"
    by (simp add: append_execution_event_locked_def)
  then show ?thesis by (rule replay_fact_outcome) (rule retold)
qed

lemma trade_step_changes:
  assumes inv: "trade_inv db" and ok: "op_ok C T L op"
  shows "(fact_change sha C T L)\<^sup>*\<^sup>* db (trade_step sha decode profiles decode_event op db)"
proof (cases op)
  case (CreateOp t now)
  show ?thesis unfolding CreateOp trade_step.simps
  proof (rule settle_cases)
    fix rec db' assume "create_trade sha decode profiles t now db = Inr (rec, db')"
    then have "create_locked sha t now db = Inr (rec, db')" by (auto simp: create_trade_def rbind_eq_Inr)
    with ok CreateOp show "(fact_change sha C T L)\<^sup>*\<^sup>* db db'" by (auto intro: created)
  qed simp
next
  case (CreateFactOp t key build nid now)
  show ?thesis unfolding CreateFactOp trade_step.simps
  proof (rule settle_cases)
    fix result db' assume "create_with_execution_event sha decode profiles decode_event t key build nid now db = Inr (result, db')"
    then obtain rec db1 event where c: "create_locked sha t now db = Inr (rec, db1)"
        and a: "append_execution_event_locked sha decode_event rec key 0 build nid now db1 = Inr (event, db')"
      by (auto simp: create_with_execution_event_def rbind_eq_Inr split: if_splits)
    from create_row [OF c] a have "fact_change sha C T L db1 db'" by (auto intro: append_locked_changes)
    moreover have "fact_change sha C T L db db1" using ok CreateFactOp c by (auto intro: created)
    ultimately show "(fact_change sha C T L)\<^sup>*\<^sup>* db db'" by (meson r_into_rtranclp rtranclp_trans)
  qed simp
next
  case (MoveOp k q now)
  show ?thesis unfolding MoveOp trade_step.simps
  proof (rule settle_cases)
    fix rec db' assume "transition_trade sha k q now db = Inr (rec, db')"
    then obtain row where "trade_at k db = Some row"
        "transition_locked sha (trade_record.truncate row) q now db = Inr (rec, db')"
      by (auto simp: transition_trade_def rbind_eq_Inr trade_of_row_Inr case_option_eq_Inr)
    with ok MoveOp show "(fact_change sha C T L)\<^sup>*\<^sup>* db db'" by (auto dest: trade_at_Some intro: moved)
  qed simp
next
  case (MoveFactOp k q key build nid now)
  show ?thesis unfolding MoveFactOp trade_step.simps
  proof (rule settle_cases)
    fix result db' assume h: "transition_with_execution_event sha decode_event k q key build nid now db = Inr (result, db')"
    then obtain row where row: "trade_at k db = Some row"
      by (auto simp: transition_with_execution_event_def rbind_eq_Inr case_option_eq_Inr)
    then have mem: "row \<in> set (td_trades db)" by (auto dest: trade_at_Some)
    show "(fact_change sha C T L)\<^sup>*\<^sup>* db db'"
    proof (cases "fact_at k key db")
      case (Some x)
      with h row obtain event where "append_execution_event_locked sha decode_event (trade_record.truncate row) key
          (pf_state_version x) build nid now db = Inr (event, db')"
        by (auto simp: transition_with_execution_event_def rbind_eq_Inr trade_of_row_Inr split: if_splits)
      with mem show ?thesis by (auto intro: append_locked_changes)
    next
      case None
      with h row obtain rec db1 event where c: "transition_locked sha (trade_record.truncate row) q now db = Inr (rec, db1)"
          and a: "append_execution_event_locked sha decode_event rec key (tr_state_version rec) build nid now db1
              = Inr (event, db')"
        by (auto simp: transition_with_execution_event_def rbind_eq_Inr trade_of_row_Inr)
      from transition_row [OF inv mem c] a have "fact_change sha C T L db1 db'" by (auto intro: append_locked_changes)
      moreover have "fact_change sha C T L db db1" using ok MoveFactOp mem c by (auto intro: moved)
      ultimately show ?thesis by (meson r_into_rtranclp rtranclp_trans)
    qed
  qed simp
next
  case (FactOp k key version build nid now)
  show ?thesis unfolding FactOp trade_step.simps
  proof (rule settle_cases)
    fix event db' assume "append_execution_event sha decode_event k key version build nid now db = Inr (event, db')"
    then obtain row where "trade_at k db = Some row"
        "append_execution_event_locked sha decode_event (trade_record.truncate row) key version build nid now db = Inr (event, db')"
      by (auto simp: append_execution_event_def rbind_eq_Inr trade_of_row_Inr case_option_eq_Inr)
    then show "(fact_change sha C T L)\<^sup>*\<^sup>* db db'" by (auto dest: trade_at_Some intro: append_locked_changes)
  qed simp
next
  case (ReconcileOp k detail now)
  then show ?thesis by (auto simp: mark_reconciled_def split: option.split intro: marked)
next
  case (SequenceOp k now)
  have "trade_step sha decode profiles decode_event op db \<in>
      {db, db\<lparr>td_trades := update_where (\<lambda>r. tw_trade_id r = k) (next_sequence now) (td_trades db)\<rparr>}"
    by (auto simp: SequenceOp next_event_sequence_def next_sequence_def [abs_def] split: option.split)
  moreover have "fact_change sha C T L db (db\<lparr>td_trades := update_where (\<lambda>r. tw_trade_id r = k) (next_sequence now) (td_trades db)\<rparr>)"
    using ok SequenceOp by (intro skipped) simp
  ultimately show ?thesis by (elim insertE) simp_all
next
  case (BusOp x)
  then show ?thesis by (auto intro: bussed)
next
  case (AuditOp topic m)
  have "set (fd_audit db) \<subseteq> set (settle (fd_audit db) (append_event topic m (fd_audit db)))"
    by (rule settle_cases) (auto simp: append_event_def rbind_eq_Inr dest: insert_audit_grows)
  then show ?thesis using AuditOp by (auto intro: audited)
qed

subsection \<open>The invariant of the facts\<close>

text \<open>Each primitive change keeps the trades' invariant, follows the position machine and loses nothing.\<close>

definition fact_le :: "fact_db \<Rightarrow> fact_db \<Rightarrow> bool" where
  "fact_le db db' \<longleftrightarrow> trades_le db db' \<and> (\<exists>more. fd_facts db' = fd_facts db @ more) \<and>
     table_le outbox_le (fd_outbox db) (fd_outbox db') \<and> set (fd_audit db) \<subseteq> set (fd_audit db')"

lemma fact_le_refl: "fact_le db db"
  by (simp add: fact_le_def trades_le_refl table_le_refl)

lemma fact_le_trans: "fact_le a b \<Longrightarrow> fact_le b c \<Longrightarrow> fact_le a c"
  using trades_le_trans [of a b c] table_le_trans [of outbox_le "fd_outbox a" "fd_outbox b" "fd_outbox c"] outbox_le_trans
  unfolding fact_le_def by (metis append_assoc subset_trans)

lemma published_le: "published i f db \<Longrightarrow> fact_le db db' \<Longrightarrow> published i f db'"
  unfolding published_def fact_le_def
  by (auto dest!: table_leD simp: outbox_le_def)

definition fact_ok :: "fact_db \<Rightarrow> fact_row \<Rightarrow> bool" where
  "fact_ok db f \<longleftrightarrow> fact_check f \<and> published (pf_event_id f) (pf_payload_sha256 f) db \<and>
     (\<exists>r\<in>set (td_trades db). tw_trade_id r = pf_trade_id f \<and> pf_state_version f \<le> tr_state_version r \<and>
        pf_event_seq f < tw_next_execution_event_seq r)"

definition fact_inv :: "fact_db \<Rightarrow> bool" where
  "fact_inv db \<longleftrightarrow> trade_inv db \<and> outbox_ok (fd_outbox db) \<and> facts_unique (fd_facts db) \<and>
     (\<forall>f\<in>set (fd_facts db). fact_ok db f)"

lemma fact_ok_le:
  assumes "fact_ok db f" and "fact_le db db'"
  shows "fact_ok db' f"
proof -
  obtain r where r: "r \<in> set (td_trades db)" "tw_trade_id r = pf_trade_id f" "pf_state_version f \<le> tr_state_version r"
      "pf_event_seq f < tw_next_execution_event_seq r"
    using assms(1) by (auto simp: fact_ok_def)
  then obtain q where "q \<in> set (td_trades db')" "trade_le r q"
    using assms(2) by (auto simp: fact_le_def trades_le_def dest: table_leD)
  with r have "q \<in> set (td_trades db') \<and> tw_trade_id q = pf_trade_id f \<and> pf_state_version f \<le> tr_state_version q \<and>
      pf_event_seq f < tw_next_execution_event_seq q"
    by (auto simp: trade_le_def tw_trade_id_def)
  moreover have "published (pf_event_id f) (pf_payload_sha256 f) db'"
    using assms by (auto simp: fact_ok_def intro: published_le)
  ultimately show ?thesis using assms(1) by (auto simp: fact_ok_def)
qed

lemma frame_le:
  assumes "td_trades db' = td_trades db" and "td_events db' = td_events db" and "fd_facts db' = fd_facts db"
    and "table_le outbox_le (fd_outbox db) (fd_outbox db')" and "set (fd_audit db) \<subseteq> set (fd_audit db')"
  shows "fact_le db db'"
  using assms frame_inv(3) [OF assms(1,2)] by (simp add: fact_le_def)

lemma publish_keeps:
  assumes "publish_event event encoded fingerprint nid now db = Inr db'" and "outbox_ok (fd_outbox db)"
  shows "fact_le db db'" and "outbox_ok (fd_outbox db')" and "td_trades db' = td_trades db"
    and "td_events db' = td_events db" and "fd_facts db' = fd_facts db"
    and "published (km_message_id (xe_message event)) fingerprint db'"
proof -
  obtain audit outbox b where h: "db' = db\<lparr>fd_audit := audit, fd_outbox := outbox\<rparr>" "set (fd_audit db) \<subseteq> set audit"
      "enqueue_outbox nid (km_message_id (xe_message event)) trade_execution_event_topic encoded fingerprint
           execution_outbox_producer now (fd_outbox db) = Inr (b, outbox)"
      "published (km_message_id (xe_message event)) fingerprint db'"
    using assms(1) by (rule publish_event_outcome)
  have p: "outbox_progress (fd_outbox db) outbox" using enqueue_progress [OF assms(2) h(3)] .
  show "fact_le db db'" by (rule frame_le) (use h(2) p in \<open>simp_all add: h(1) outbox_progress_def\<close>)
  show "outbox_ok (fd_outbox db')" using p by (simp add: h(1) outbox_progress_def)
  show "td_trades db' = td_trades db" "td_events db' = td_events db" "fd_facts db' = fd_facts db"
    "published (km_message_id (xe_message event)) fingerprint db'"
    using h(1,4) by simp_all
qed

lemma frame_create:
  "create_locked sha t now (db :: fact_db) = Inr (rec, db') \<Longrightarrow>
   fd_facts db' = fd_facts db \<and> fd_audit db' = fd_audit db \<and> fd_outbox db' = fd_outbox db"
  by (erule create_locked_outcome) simp_all

lemma frame_transition:
  assumes "trade_inv (db :: fact_db)" and "row \<in> set (td_trades db)"
    and "transition_locked sha (trade_record.truncate row) q now db = Inr (rec, db')"
  shows "fd_facts db' = fd_facts db \<and> fd_audit db' = fd_audit db \<and> fd_outbox db' = fd_outbox db"
proof -
  have u: "trades_unique (td_trades db)" using assms(1) by (simp add: trade_inv_def)
  from assms(3) u assms(2) show ?thesis by (rule transition_locked_outcome) simp
qed

lemma next_sequence_keeps:
  assumes "trade_inv db" and "td_trades db' = update_where (\<lambda>r. tw_trade_id r = k) (next_sequence now) (td_trades db)"
    and "td_events db' = td_events db"
  shows "trade_inv db'" and "trade_position i db' = trade_position i db" and "trades_le db db'"
  using bookkeeping_keeps [OF bookkeeping_sequence assms(2,3,1)] by simp_all

text \<open>The new fact of \<open>fresh_fact\<close> and the state around it.\<close>

lemma told_keeps:
  assumes tx: "fresh_fact sha (trade_record.truncate row) key version build nid now db = Inr (event, db')"
    and inv: "trade_inv db" and ob: "outbox_ok (fd_outbox db)" and row: "row \<in> set (td_trades db)"
  obtains fact where "fd_facts db' = insert_row fact (fd_facts db)" and "fact_check fact"
    and "facts_unique (fd_facts db')" and "pf_trade_id fact = tw_trade_id row"
    and "pf_event_seq fact = tw_next_execution_event_seq row" and "pf_state_version fact = tr_state_version row"
    and "published (pf_event_id fact) (pf_payload_sha256 fact) db'"
    and "td_trades db' = update_where (\<lambda>r. tw_trade_id r = tw_trade_id row) (next_sequence now) (td_trades db)"
    and "td_events db' = td_events db" and "fact_le db db'" and "outbox_ok (fd_outbox db')"
proof -
  have u: "trades_unique (td_trades db)" using inv by (simp add: trade_inv_def)
  obtain doc fact db1 where h: "tr_state_version row = version"
      "validate_execution_event event (trade_record.truncate row) True = Inr ()"
      "fact = \<lparr>pf_trade_id = tw_trade_id row, pf_fact_key = key, pf_event_seq = tw_next_execution_event_seq row,
         pf_state_version = version, pf_event_id = xe_event_id event, pf_payload = doc,
         pf_payload_sha256 = sha (canonical_json (xe_dump event)), pf_created_at = now\<rparr>"
      "fact_check fact" "facts_unique (insert_row fact (fd_facts db))"
      "db1 = db\<lparr>fd_facts := insert_row fact (fd_facts db),
         td_trades := update_where (\<lambda>r. tw_trade_id r = tw_trade_id row) (next_sequence now) (td_trades db)\<rparr>"
      "publish_event event (canonical_json (xe_dump event)) (sha (canonical_json (xe_dump event))) nid now db1 = Inr db'"
    using tx u row by (rule fresh_fact_outcome)
  have id: "km_message_id (xe_message event) = xe_event_id event"
    using h(2) by (auto simp: validate_execution_event_def Let_def split: if_splits)
  have ob1: "outbox_ok (fd_outbox db1)" using ob by (simp add: h(6))
  note p = publish_keeps [OF h(7) ob1]
  have "trades_le db db1" by (rule next_sequence_keeps(3) [OF inv]) (simp_all add: h(6))
  then have "fact_le db db1" by (simp add: fact_le_def h(6) insert_row_def table_le_refl)
  with p(1) have le: "fact_le db db'" by (rule fact_le_trans [rotated])
  show thesis
    by (rule that [OF _ h(4) _ _ _ _ _ _ _ le p(2)]) (use p h(1,3,5,6) id in simp_all)
qed

lemma fact_change_core:
  assumes "fact_change sha C T L db db'" and "trade_inv db" and "outbox_ok (fd_outbox db)"
  shows "trade_inv db' \<and> outbox_ok (fd_outbox db') \<and> fact_le db db' \<and>
    position_step\<^sup>*\<^sup>* (trade_position k db) (trade_position k db')"
  using assms
proof (induction rule: fact_change.induct)
  case (created t now db rec db')
  with create_trade_inv [OF created(3,2)] create_position [OF created(2)] create_trades_le [OF created(2)] frame_create [OF created(2)]
  show ?case by (auto simp: fact_le_def table_le_refl)
next
  case (moved q row db now rec db')
  with transition_trade_inv [OF moved(4,2,3)] transition_position [OF moved(4,2,3)] transition_trades_le [OF moved(4,2,3)]
    frame_transition [OF moved(4,2,3)]
  show ?case by (auto simp: fact_le_def table_le_refl)
next
  case (told row db key version build nid now event db')
  from told(2,3,4,1) show ?case
  proof (rule told_keeps)
    assume e: "td_trades db' = update_where (\<lambda>r. tw_trade_id r = tw_trade_id row) (next_sequence now) (td_trades db)"
        "td_events db' = td_events db" and "fact_le db db'" and "outbox_ok (fd_outbox db')"
    with next_sequence_keeps [OF told(3) e] show ?thesis by simp
  qed
next
  case (retold event encoded fingerprint nid now db db')
  note p = publish_keeps [OF retold(1,3)]
  from frame_inv [OF p(3,4)] p retold show ?case by simp
next
  case (marked db i detail now)
  let ?db = "db\<lparr>td_trades := update_where (\<lambda>r. tw_trade_id r = i) (reconciled_trade detail now) (td_trades db)\<rparr>"
  have "td_trades ?db = update_where (\<lambda>r. tw_trade_id r = i) (reconciled_trade detail now) (td_trades db)"
    "td_events ?db = td_events db" by simp_all
  note k = bookkeeping_keeps [OF bookkeeping_reconciled this marked(1)]
  from k marked(2) show ?case by (simp add: fact_le_def table_le_refl)
next
  case (skipped db i now)
  let ?db = "db\<lparr>td_trades := update_where (\<lambda>r. tw_trade_id r = i) (next_sequence now) (td_trades db)\<rparr>"
  have "td_trades ?db = update_where (\<lambda>r. tw_trade_id r = i) (next_sequence now) (td_trades db)"
    "td_events ?db = td_events db" by simp_all
  note k = next_sequence_keeps [OF skipped(2) this]
  from k skipped(3) show ?case by (simp add: fact_le_def table_le_refl)
next
  case (bussed db op)
  let ?db = "db\<lparr>fd_outbox := outbox_step sha op (fd_outbox db)\<rparr>"
  have "outbox_progress (fd_outbox db) (fd_outbox ?db)" using outbox_step_progress [OF bussed(2)] by simp
  with bussed frame_inv [of ?db db] frame_le [of ?db db] show ?case by (simp add: outbox_progress_def)
next
  case (audited db audit)
  let ?db = "db\<lparr>fd_audit := audit\<rparr>"
  from audited frame_inv [of ?db db] frame_le [of ?db db] show ?case by (simp add: table_le_refl)
qed

lemma fact_change_inv:
  assumes "fact_change sha C T L db db'" and inv: "fact_inv db"
  shows "fact_inv db'"
proof -
  have core: "trade_inv db'" "outbox_ok (fd_outbox db')" "fact_le db db'"
    using fact_change_core [OF assms(1)] inv by (auto simp: fact_inv_def)
  then have old: "\<forall>f\<in>set (fd_facts db). fact_ok db' f"
    using inv fact_ok_le by (auto simp: fact_inv_def)
  have "fd_facts db' = fd_facts db \<or>
      (\<exists>f. fd_facts db' = insert_row f (fd_facts db) \<and> facts_unique (fd_facts db') \<and> fact_ok db' f)"
    using assms
  proof (induction rule: fact_change.induct)
    case (created t now db rec db')
    then show ?case using frame_create by blast
  next
    case (moved q row db now rec db')
    then show ?case using frame_transition unfolding fact_inv_def by blast
  next
    case (told row db key version build nid now event db')
    have i: "trade_inv db" "outbox_ok (fd_outbox db)" using told(3) by (simp_all add: fact_inv_def)
    from told(2) i told(1) show ?case
    proof (rule told_keeps)
      fix f assume f: "fd_facts db' = insert_row f (fd_facts db)" "facts_unique (fd_facts db')" "fact_check f"
        "pf_trade_id f = tw_trade_id row" "pf_event_seq f = tw_next_execution_event_seq row"
        "pf_state_version f = tr_state_version row" "published (pf_event_id f) (pf_payload_sha256 f) db'"
        and t: "td_trades db' = update_where (\<lambda>r. tw_trade_id r = tw_trade_id row) (next_sequence now) (td_trades db)"
      have "next_sequence now row \<in> set (td_trades db')" using told(1) by (simp add: t updated_row_mem)
      then have "fact_ok db' f"
        using f(3-7) by (auto simp: fact_ok_def next_sequence_def tw_trade_id_def intro!: bexI [of _ "next_sequence now row"])
      with f show ?thesis by blast
    qed
  next
    case (retold event encoded fingerprint nid now db db')
    then show ?case using publish_keeps(5) by (auto simp: fact_inv_def)
  qed simp_all
  with core old inv show ?thesis by (auto simp: fact_inv_def)
qed

text \<open>The sequence numbers of the facts of each trade, in the order they were stored.\<close>

definition counters :: "fact_db \<Rightarrow> (string \<times> int) set" where
  "counters db = (\<lambda>r. (tw_trade_id r, tw_next_execution_event_seq r)) ` set (td_trades db)"

definition fact_sequence :: "string \<Rightarrow> fact_db \<Rightarrow> int list" where
  "fact_sequence k db = map pf_event_seq (filter (\<lambda>f. pf_trade_id f = k) (fd_facts db))"

definition gapless :: "fact_db \<Rightarrow> bool" where
  "gapless db \<longleftrightarrow> (\<forall>(k, n)\<in>counters db. fact_sequence k db = [1..n - 1])"

lemma counters_update:
  assumes "\<And>r. tw_trade_id (f r) = tw_trade_id r \<and> tw_next_execution_event_seq (f r) = tw_next_execution_event_seq r"
  shows "(\<lambda>r. (tw_trade_id r, tw_next_execution_event_seq r)) ` set (update_where P f t)
     = (\<lambda>r. (tw_trade_id r, tw_next_execution_event_seq r)) ` set t"
  by (rule keys_update_where) (simp add: assms)

lemma fact_change_gapless:
  assumes "fact_change sha C T False db db'" and "fact_inv db" and "gapless db"
  shows "gapless db'"
  using assms
proof (induction rule: fact_change.induct)
  case (created t now db rec db')
  note fr = frame_create [OF created(2)]
  from created(2) show ?case
  proof (cases rule: create_locked_outcome)
    case (found row)
    with created show ?thesis by simp
  next
    case (fresh row doc e)
    have "nt_trade_id t \<notin> tw_trade_id ` set (td_trades db)"
      using fresh(1) by (auto simp: trade_at_def select_one_None_iff)
    then have "fact_sequence (nt_trade_id t) db = []"
      using created(3) by (force simp: fact_sequence_def fact_inv_def fact_ok_def filter_empty_conv)
    moreover have "counters db' = insert (nt_trade_id t, 1) (counters db)"
      by (simp add: counters_def fresh(17)) (simp add: fresh(2))
    ultimately show ?thesis using created(4) fr by (auto simp: gapless_def fact_sequence_def)
  qed
next
  case (moved q row db now rec db')
  have i: "trade_inv db" "trades_unique (td_trades db)" using moved(4) by (simp_all add: fact_inv_def trade_inv_def)
  note fr = frame_transition [OF i(1) moved(2,3)]
  from moved(3) i(2) moved(2) have "counters db' = counters db"
    by (rule transition_locked_outcome) (simp add: counters_def counters_update)
  with moved(5) fr show ?case by (simp add: gapless_def fact_sequence_def)
next
  case (told row db key version build nid now event db')
  have i: "trade_inv db" "outbox_ok (fd_outbox db)" "trades_unique (td_trades db)"
    using told(3) by (simp_all add: fact_inv_def trade_inv_def)
  from told(2) i(1,2) told(1) show ?case
  proof (rule told_keeps)
    fix f assume f: "fd_facts db' = insert_row f (fd_facts db)" "fact_check f" "pf_trade_id f = tw_trade_id row"
        "pf_event_seq f = tw_next_execution_event_seq row"
      and t: "td_trades db' = update_where (\<lambda>r. tw_trade_id r = tw_trade_id row) (next_sequence now) (td_trades db)"
    have "fact_sequence (tw_trade_id p) db' = [1..tw_next_execution_event_seq p - 1]" if "p \<in> set (td_trades db')" for p
    proof -
      from that t obtain o' where o': "o' \<in> set (td_trades db)"
          "p = (if tw_trade_id o' = tw_trade_id row then next_sequence now o' else o')"
        by (auto simp: set_update_where)
      have s: "fact_sequence (tw_trade_id o') db = [1..tw_next_execution_event_seq o' - 1]"
        using told(4) o'(1) by (auto simp: gapless_def counters_def)
      show ?thesis
      proof (cases "tw_trade_id o' = tw_trade_id row")
        case True
        with trade_row_eq [OF i(3) o'(1) told(1)] have "o' = row" by simp
        with s o'(2) f upto_rec2 [of 1 "tw_next_execution_event_seq row"] show ?thesis
          by (simp add: fact_sequence_def insert_row_def next_sequence_def tw_trade_id_def fact_check_def)
      next
        case False
        with s o'(2) f show ?thesis by (simp add: fact_sequence_def insert_row_def)
      qed
    qed
    then show ?thesis by (auto simp: gapless_def counters_def)
  qed
next
  case (retold event encoded fingerprint nid now db db')
  then have "outbox_ok (fd_outbox db)" by (simp add: fact_inv_def)
  from publish_keeps [OF retold(1) this] retold(3) show ?case by (simp add: gapless_def counters_def fact_sequence_def)
next
  case (marked db k detail now)
  let ?db = "db\<lparr>td_trades := update_where (\<lambda>r. tw_trade_id r = k) (reconciled_trade detail now) (td_trades db)\<rparr>"
  have "counters ?db = counters db"
    unfolding counters_def trade_db.simps
    by (simp, rule counters_update) (simp add: reconciled_trade_def tw_trade_id_def)
  with marked(2) show ?case by (simp add: gapless_def fact_sequence_def)
qed (simp_all add: gapless_def counters_def fact_sequence_def)

lemma fact_change_chain:
  assumes "fact_change sha (\<lambda>t. document_ok (nt_risk_decision_payload t)) transition_document_ok L db db'"
    and "fact_inv db" and "trade_chain_ok sha db"
  shows "trade_chain_ok sha db'"
  using assms
proof (induction rule: fact_change.induct)
  case (created t now db rec db')
  then show ?case using create_chain_ok by (auto simp: fact_inv_def)
next
  case (moved q row db now rec db')
  then show ?case using transition_chain_ok by (auto simp: fact_inv_def)
next
  case (told row db key version build nid now event db')
  have i: "trade_inv db" "outbox_ok (fd_outbox db)" using told(3) by (simp_all add: fact_inv_def)
  from told(2) i told(1) show ?case
    by (rule told_keeps) (use bookkeeping_chain [OF bookkeeping_sequence _ _ told(4)] in blast)
next
  case (retold event encoded fingerprint nid now db db')
  then have "outbox_ok (fd_outbox db)" by (simp add: fact_inv_def)
  from publish_keeps [OF retold(1) this] frame_inv(4) retold(3) show ?case by metis
next
  case (marked db k detail now)
  show ?case by (rule bookkeeping_chain [OF bookkeeping_reconciled _ _ marked(2)]) simp_all
next
  case (skipped db k now)
  show ?case by (rule bookkeeping_chain [OF bookkeeping_sequence _ _ skipped(3)]) simp_all
next
  case (bussed db op)
  then show ?case by (simp add: trade_chain_ok_def trade_events_def)
next
  case (audited db audit)
  then show ?case by (simp add: trade_chain_ok_def trade_events_def)
qed

subsection \<open>The repository as a component\<close>

lemma fact_changes_inv:
  assumes "(fact_change sha C T L)\<^sup>*\<^sup>* db db'" and "fact_inv db"
  shows "fact_inv db'"
  using assms by (induction rule: rtranclp_induct) (auto intro: fact_change_inv)

lemma fact_changes_core:
  assumes "(fact_change sha C T L)\<^sup>*\<^sup>* db db'" and "fact_inv db"
  shows "fact_le db db' \<and> position_step\<^sup>*\<^sup>* (trade_position k db) (trade_position k db')"
  using assms(1)
proof (induction rule: rtranclp_induct)
  case base
  then show ?case by (simp add: fact_le_refl)
next
  case (step y z)
  have "fact_inv y" using fact_changes_inv [OF step(1) assms(2)] .
  with fact_change_core [OF step(2), of k] have "fact_le y z \<and> position_step\<^sup>*\<^sup>* (trade_position k y) (trade_position k z)"
    by (simp add: fact_inv_def)
  with step.IH show ?case by (auto intro: fact_le_trans)
qed

lemma step_changes:
  "fact_inv db \<Longrightarrow> op_ok C T L op \<Longrightarrow> (fact_change sha C T L)\<^sup>*\<^sup>* db (trade_step sha decode profiles decode_event op db)"
  by (rule trade_step_changes) (simp_all add: fact_inv_def)

lemma any_op_ok: "op_ok (\<lambda>_. True) (\<lambda>_. True) True op"
  by (cases op) simp_all

lemmas free_step = step_changes [OF _ any_op_ok]

interpretation facts: monotone_system "trade_step sha decode profiles decode_event" fact_inv fact_le
  for sha decode profiles decode_event
  by unfold_locales
    (auto intro: fact_le_refl fact_le_trans dest: fact_changes_inv [OF free_step] fact_changes_core [OF free_step])

interpretation position: refinement "trade_step sha decode profiles decode_event" "\<lambda>_. True" fact_inv
    "trade_position k" position_step
  for sha decode profiles decode_event k
  by unfold_locales (use fact_changes_core [OF free_step] in blast)

interpretation sequences: invariant_system "trade_step sha decode profiles decode_event"
    "op_ok (\<lambda>_. True) (\<lambda>_. True) False" "\<lambda>db. fact_inv db \<and> gapless db"
  for sha decode profiles decode_event
proof unfold_locales
  fix op db assume ok: "op_ok (\<lambda>_. True) (\<lambda>_. True) False op" and i: "fact_inv db \<and> gapless db"
  have "(fact_change sha (\<lambda>_. True) (\<lambda>_. True) False)\<^sup>*\<^sup>* db (trade_step sha decode profiles decode_event op db)"
    using i ok by (simp add: step_changes)
  then show "fact_inv (trade_step sha decode profiles decode_event op db) \<and> gapless (trade_step sha decode profiles decode_event op db)"
    using i by (induction rule: rtranclp_induct) (auto intro: fact_change_inv fact_change_gapless)
qed

abbreviation kept_documents :: "trade_op \<Rightarrow> bool" where
  "kept_documents \<equiv> op_ok (\<lambda>t. document_ok (nt_risk_decision_payload t)) transition_document_ok True"

interpretation chains: invariant_system "trade_step sha decode profiles decode_event"
    kept_documents "\<lambda>db. fact_inv db \<and> trade_chain_ok sha db"
  for sha decode profiles decode_event
proof unfold_locales
  fix op db assume ok: "kept_documents op" and i: "fact_inv db \<and> trade_chain_ok sha db"
  have "(fact_change sha (\<lambda>t. document_ok (nt_risk_decision_payload t)) transition_document_ok True)\<^sup>*\<^sup>* db
      (trade_step sha decode profiles decode_event op db)"
    using i ok by (simp add: step_changes)
  then show "fact_inv (trade_step sha decode profiles decode_event op db) \<and>
      trade_chain_ok sha (trade_step sha decode profiles decode_event op db)"
    using i by (induction rule: rtranclp_induct) (auto intro: fact_change_inv fact_change_chain)
qed

lemma verify_trade_chain_ok:
  assumes "fact_inv db" and "trade_chain_ok sha db" and "row \<in> set (td_trades db)"
  shows "verify_trade_chain sha (tw_trade_id row) db = Inr True"
proof -
  have u: "trades_unique (td_trades db)" and j: "trade_journal_ok db row"
    using assms by (auto simp: fact_inv_def trade_inv_def)
  have "trade_events (tw_trade_id row) db \<noteq> []" using j by (auto simp: trade_journal_ok_def)
  with assms(2,3) trade_at_unique [OF u assms(3)] show ?thesis
    by (auto simp: verify_trade_chain_True trade_chain_ok_def)
qed

subsection \<open>A concrete run\<close>

definition empty_facts :: fact_db where
  "empty_facts = \<lparr>td_trades = [], td_events = [], fd_facts = [], fd_audit = [], fd_outbox = []\<rparr>"

definition hex_id :: "char \<Rightarrow> string" where
  "hex_id c = replicate 64 c"

definition sample_trade :: new_trade where
  "sample_trade = \<lparr>nt_trade_id = hex_id (CHR ''a''), nt_strategy_intent_id = hex_id (CHR ''b''),
     nt_risk_decision_id = hex_id (CHR ''c''), nt_risk_decision_payload = JObj [(''approved'', JBool True)],
     nt_strategy_id = ''s'', nt_strategy_revision = ''r'', nt_trading_mode = ''LIVE'', nt_environment = ''e'',
     nt_profile = ''PROD'', nt_exchange = ''x'', nt_account_id = ''acc'', nt_symbol = ''BTC'', nt_venue_symbol = ''BTC'',
     nt_side = ''BUY'', nt_quantity = float_125, nt_leverage = float_one, nt_stop_price = float_one,
     nt_target_price = float_125, nt_entry_eligible_at = Aware 0, nt_entry_expires_at = Aware 1000,
     nt_max_holding_ms = 60000, nt_entry_client_order_id = ''o1''\<rparr>"

definition sample_decision :: risk_decision where
  "sample_decision = \<lparr>rd_approved = True, rd_trade_id = hex_id (CHR ''a''), rd_intent_id = hex_id (CHR ''b''),
     rd_decision_id = hex_id (CHR ''c''), rd_strategy_id = ''s'', rd_strategy_revision = ''r'', rd_trading_mode = ''LIVE'',
     rd_profile = ''PROD'', rd_account_id = ''acc'', rd_symbol = ''BTC'', rd_venue_symbol = ''BTC'', rd_long = True,
     rd_quantity = float_125, rd_leverage = float_one, rd_stop_price = float_one, rd_target_price = float_125,
     rd_max_holding_ms = 60000, rd_entry_eligible_ts_ms = 0, rd_entry_expires_ts_ms = 1\<rparr>"

definition sample_move :: "trade_state \<Rightarrow> pyfloat option \<Rightarrow> pydatetime option \<Rightarrow> transition_request" where
  "sample_move target filled at = \<lparr>tt_target = target, tt_event_type = ''MOVED'', tt_event_payload = None,
     tt_filled_quantity = filled, tt_first_fill_at = at, tt_ids = no_ids\<rparr>"

definition sample_event :: "trade_state \<Rightarrow> string \<Rightarrow> int \<Rightarrow> execution_event" where
  "sample_event state i n = \<lparr>xe_message = \<lparr>km_message_id = i, km_source = ''s'', km_schema_version = ''1'',
       km_produced_at = 7, km_correlation_id = None, km_causation_id = None, km_dump_json = ''{}''\<rparr>,
     xe_event_id = i, xe_event_seq = n, xe_trade_id = hex_id (CHR ''a''), xe_intent_id = hex_id (CHR ''b''),
     xe_risk_decision_id = hex_id (CHR ''c''), xe_strategy_id = ''s'', xe_strategy_revision = ''r'',
     xe_account_id = ''acc'', xe_venue_symbol = ''BTC'', xe_trading_mode = ''LIVE'', xe_profile = ''PROD'',
     xe_lifecycle_state = state, xe_dump = JObj [(''event_seq'', JInt n)]\<rparr>"

definition sample_run :: "trade_op list" where
  "sample_run =
     [CreateFactOp sample_trade ''created'' (\<lambda>n. Inr (sample_event RECEIVED (hex_id (CHR ''d'')) n)) 1 5,
      MoveOp (hex_id (CHR ''a'')) (sample_move ENTRY_PENDING None None) 6,
      BusOp (ClaimOp ''w'' execution_outbox_producer 10 60 ''uuid'' 7),
      MoveFactOp (hex_id (CHR ''a'')) (sample_move PROTECTING (Some float_one) (Some (Aware 7)))
        ''filled'' (\<lambda>n. Inr (sample_event PROTECTING (hex_id (CHR ''e'')) n)) 2 8]"

abbreviation sample_step :: "trade_op \<Rightarrow> fact_db \<Rightarrow> fact_db" where
  "sample_step \<equiv> trade_step length_sha (\<lambda>_. Inr sample_decision) [''PROD''] (\<lambda>_. Inr (sample_event RECEIVED [] 0))"

lemma sample_floats:
  "positive_float float_one" "positive_float float_125" "float_le float_one float_one" "float_le float_one float_125"
  "float_le float_125 float_125" "\<not> float_le float_125 float_one" "float_less float_one float_125"
  "float_le float_zero float_125" "float_le float_zero float_zero" "float_eq float_one float_one" "float_eq float_125 float_125"
proof -
  have f: "is_finite float_one" "is_finite float_125" "float_units float_one = 2 ^ 1074" "float_units float_125 = 125 * 2 ^ 1074"
    by (simp_all add: is_finite_def float_one_def float_125_def float_units_def)
  show "positive_float float_one" "positive_float float_125" "float_le float_one float_one" "float_le float_one float_125"
    "float_le float_125 float_125" "\<not> float_le float_125 float_one" "float_less float_one float_125"
    "float_le float_zero float_125" "float_le float_zero float_zero" "float_eq float_one float_one" "float_eq float_125 float_125"
    by (simp_all add: f positive_float_def float_le_finite float_less_finite float_eq_def)
qed

lemma sample_texts:
  "sha256_hex (hex_id (CHR ''a''))" "sha256_hex (hex_id (CHR ''b''))" "sha256_hex (hex_id (CHR ''c''))"
  "sha256_hex (hex_id (CHR ''d''))" "sha256_hex (hex_id (CHR ''e''))"
  "\<not> blank (hex_id (CHR ''a''))" "\<not> blank (hex_id (CHR ''b''))" "\<not> blank (hex_id (CHR ''c''))"
  "CHR 0x00 \<notin> set (hex_id (CHR ''a''))" "CHR 0x00 \<notin> set (hex_id (CHR ''b''))" "CHR 0x00 \<notin> set (hex_id (CHR ''c''))"
  "text_to_jsonb ''{}'' = Inr (JObj [])" "\<not> blank ''LIVE''" "\<not> blank execution_outbox_producer"
  by code_simp+

lemma sample_valid: "validate_new_trade (\<lambda>_. Inr sample_decision) [''PROD''] sample_trade = Inr ()"
proof -
  have "\<not> list_ex blank (required_fields sample_trade)"
    by (simp add: required_fields_def sample_trade_def sample_texts) (code_simp)
  then show ?thesis
    by (simp add: validate_new_trade_def sample_trade_def sample_floats validate_decision_lineage_def sample_decision_def unix_ms_def)
qed

definition sample_row :: "(string \<Rightarrow> string) \<Rightarrow> string \<Rightarrow> trade_row" where
  "sample_row sha head = received_row sample_trade (JObj [(''approved'', JBool True)])
     (sha (canonical_json (JObj [(''approved'', JBool True)]))) head 5"

definition sample_head :: "(string \<Rightarrow> string) \<Rightarrow> string" where
  "sample_head sha = sha (canonical_json (trade_event_document (hex_id (CHR ''a'')) None RECEIVED ''CREATED''
     (JObj [(''trade'', new_trade_payload sample_trade)]) None))"

lemma sample_row_simps [simp]:
  "tw_trade_id (sample_row sha h) = hex_id (CHR ''a'')" "tr_state (sample_row sha h) = RECEIVED"
  "tr_state_version (sample_row sha h) = 0" "tw_next_execution_event_seq (sample_row sha h) = 1"
  "tr_terms (sample_row sha h) = sample_trade" "tr_filled_quantity (sample_row sha h) = float_zero"
  "tr_first_fill_at (sample_row sha h) = None" "tr_ids (sample_row sha h) = no_ids" "tr_journal_head_sha256 (sample_row sha h) = h"
  by (simp_all add: sample_row_def, simp_all add: sample_trade_def)

lemma sample_row_ok:
  assumes "\<And>s. sha256_hex (sha s)" and "sha256_hex h"
  shows "trade_check (sample_row sha h)" and "trade_readable sha (sample_row sha h)"
proof -
  show "trade_check (sample_row sha h)"
    unfolding trade_check_def sample_row_simps
    by (simp add: terms_check_def sample_trade_def sample_texts sample_floats sample_row_def assms is_finite_def float_zero_def)
      (simp add: float_zero_def [symmetric] sample_floats received_row_def)
  show "trade_readable sha (sample_row sha h)"
    by (simp add: trade_readable_def) (simp add: sample_trade_def is_object_def sample_row_def)
qed

lemma sample_created:
  assumes "\<And>s. sha256_hex (sha s)"
  obtains doc where "create_locked sha sample_trade 5 empty_facts = Inr (trade_record.truncate (sample_row sha (sample_head sha)),
      empty_facts\<lparr>td_trades := [sample_row sha (sample_head sha)],
        td_events := [\<lparr>te_trade_id = hex_id (CHR ''a''), te_from_state = None, te_to_state = RECEIVED,
          te_event_type = ''CREATED'', te_payload = doc, te_previous = None, te_sha256 = sample_head sha\<rparr>]\<rparr>)"
    and "json_wf doc"
proof -
  let ?p = "JObj [(''trade'', new_trade_payload sample_trade)]"
  let ?a = "JObj [(''approved'', JBool True)]"
  let ?row = "sample_row sha (sample_head sha)"
  have pd: "nt_risk_decision_payload sample_trade = ?a" and id: "nt_trade_id sample_trade = hex_id (CHR ''a'')"
    by (simp_all add: sample_trade_def)
  have dates: "CHR 0x00 \<notin> set (isoformat_auto 0)" "CHR 0x00 \<notin> set (isoformat_auto 1000)"
    by code_simp+
  have wf: "json_wf ?p" "json_finite ?p" "json_no_nul ?p"
    using dates by (simp_all add: float_hex_no_nul new_trade_payload_def sample_trade_def instant_text_def sample_texts)
  have sa: "store_json ?a = Inr ?a" by code_simp
  have head: "trade_event_sha sha (hex_id (CHR ''a'')) None RECEIVED ''CREATED'' ?p None = Inr (sample_head sha)"
    using wf(2) by (simp add: trade_event_sha_Inr sample_head_def del: json_finite.simps)
  have hx: "sha256_hex (sample_head sha)" using assms by (simp add: sample_head_def)
  have cp: "canonical_payload sha ?a = Inr (canonical_json ?a, sha (canonical_json ?a))"
    by (simp add: canonical_payload_def canonical_dumps_def)
  note ok = sample_row_ok [OF assms hx]
  have ins: "insert_trade ?row empty_facts = Inr (empty_facts\<lparr>td_trades := [?row]\<rparr>)"
    using ok(1) by (simp add: insert_trade_def empty_facts_def insert_row_def int8_def trades_unique_def
        unique_by_def unique_client_order_def no_ids_def) (simp add: sample_trade_def)
  obtain doc where doc: "store_json ?p = Inr doc" using wf by (simp add: store_json_Inr)
  have "document_ok ?a" by code_simp
  then have dok: "json_wf doc"
    using store_document [OF created_payload_ok doc] wf(1) by (simp add: pd json_wf_sorted)
  let ?e = "\<lparr>te_trade_id = hex_id (CHR ''a''), te_from_state = None, te_to_state = RECEIVED, te_event_type = ''CREATED'',
      te_payload = doc, te_previous = None, te_sha256 = sample_head sha\<rparr>"
  have app: "append_trade_event (hex_id (CHR ''a'')) None RECEIVED ''CREATED'' ?p None (sample_head sha) (empty_facts\<lparr>td_trades := [?row]\<rparr>)
      = Inr (empty_facts\<lparr>td_trades := [?row], td_events := [?e]\<rparr>)"
    using hx by (simp add: append_trade_event_def doc trade_event_check_def empty_facts_def insert_row_def)
  have tr: "trade_of_row sha ?row = Inr (trade_record.truncate ?row)"
    using ok(2) by (simp add: trade_of_row_Inr)
  have at: "trade_at (hex_id (CHR ''a'')) empty_facts = None" by (simp add: trade_at_def empty_facts_def)
  have "create_locked sha sample_trade 5 empty_facts
      = Inr (trade_record.truncate ?row, empty_facts\<lparr>td_trades := [?row], td_events := [?e]\<rparr>)"
    unfolding create_locked_def pd id Let_def
    by (simp add: at head cp sa) (simp add: sample_row_def [symmetric] ins app tr)
  with dok show thesis by (intro that)
qed

lemma sample_fact:
  assumes sha: "\<And>s. sha256_hex (sha s)" and row: "td_trades db = [row]" "tw_trade_id row = hex_id (CHR ''a'')"
      "tr_terms row = sample_trade" "tw_next_execution_event_seq row = 1" "0 \<le> tr_state_version row"
    and emp: "fd_facts db = []" "fd_audit db = []" "fd_outbox db = []" and key: "fact_key \<noteq> []" "length fact_key \<le> 512"
    and i: "sha256_hex i"
  obtains db2 where "fresh_fact sha (trade_record.truncate row) fact_key (tr_state_version row)
      (\<lambda>n. Inr (sample_event (tr_state row) i n)) 1 now db = Inr (sample_event (tr_state row) i 1, db2)"
    and "td_trades db2 = [next_sequence now row]" and "td_events db2 = td_events db" and "map pf_event_seq (fd_facts db2) = [1]"
proof -
  let ?ev = "sample_event (tr_state row) i 1"
  let ?dump = "JObj [(''event_seq'', JInt 1)]"
  have v: "validate_execution_event ?ev (trade_record.truncate row) True = Inr ()"
    by (simp add: validate_execution_event_def sample_event_def row(3)) (simp add: sample_trade_def)
  have d: "canonical_payload sha ?dump = Inr (canonical_json ?dump, sha (canonical_json ?dump))"
    by (simp add: canonical_payload_def canonical_dumps_def)
  have t: "text_to_jsonb (canonical_json ?dump) = Inr ?dump" by code_simp
  let ?f = "\<lparr>pf_trade_id = hex_id (CHR ''a''), pf_fact_key = fact_key, pf_event_seq = 1, pf_state_version = tr_state_version row,
      pf_event_id = i, pf_payload = ?dump, pf_payload_sha256 = sha (canonical_json ?dump), pf_created_at = now\<rparr>"
  have "0 < length fact_key" using key(1) by simp
  then have ins: "insert_fact ?f db = Inr (db\<lparr>fd_facts := [?f]\<rparr>)"
    using row(1,2,5) key i sha by (simp add: insert_fact_def fact_check_def facts_unique_def unique_by_def insert_row_def emp
        Suc_leI)
  have "\<exists>db2. publish_event ?ev (canonical_json ?dump) (sha (canonical_json ?dump)) 1 now
      (db\<lparr>fd_facts := [?f], td_trades := [next_sequence now row]\<rparr>) = Inr db2"
    by (simp add: publish_event_def append_event_def sample_event_def sample_texts insert_audit_def emp enqueue_outbox_def t sha)
  then obtain db2 where p: "publish_event ?ev (canonical_json ?dump) (sha (canonical_json ?dump)) 1 now
      (db\<lparr>fd_facts := [?f], td_trades := [next_sequence now row]\<rparr>) = Inr db2" ..
  have td: "td_trades db2 = [next_sequence now row]" "fd_facts db2 = [?f]" "td_events db2 = td_events db"
    using p by (rule publish_event_outcome, simp)+
  have "fresh_fact sha (trade_record.truncate row) fact_key (tr_state_version row)
      (\<lambda>n. Inr (sample_event (tr_state row) i n)) 1 now db = Inr (?ev, db2)"
    using row v d t ins p by (simp add: fresh_fact_def trade_at_def sample_event_def int8_def update_where_def)
  then show thesis by (rule that) (simp_all add: td)
qed

lemma sample_told:
  obtains r db row where
    "create_with_execution_event length_sha (\<lambda>_. Inr sample_decision) [''PROD''] decode_event sample_trade ''created''
       (\<lambda>n. Inr (sample_event RECEIVED (hex_id (CHR ''d'')) n)) 1 5 empty_facts = Inr (r, db)"
    and "td_trades db = [row]" and "tw_trade_id row = hex_id (CHR ''a'')" and "tr_state row = RECEIVED"
    and "map pf_event_seq (fd_facts db) = [1]" and "\<forall>e\<in>set (td_events db). json_wf (te_payload e)"
proof -
  let ?row = "sample_row length_sha (sample_head length_sha)"
  obtain doc where c: "create_locked length_sha sample_trade 5 empty_facts = Inr (trade_record.truncate ?row,
      empty_facts\<lparr>td_trades := [?row],
        td_events := [\<lparr>te_trade_id = hex_id (CHR ''a''), te_from_state = None, te_to_state = RECEIVED,
          te_event_type = ''CREATED'', te_payload = doc, te_previous = None, te_sha256 = sample_head length_sha\<rparr>]\<rparr>)"
      (is "_ = Inr (_, ?db)") and doc: "json_wf doc"
    using length_sha_hex by (rule sample_created)
  obtain db2 where f: "fresh_fact length_sha (trade_record.truncate ?row) ''created'' (tr_state_version ?row)
      (\<lambda>n. Inr (sample_event (tr_state ?row) (hex_id (CHR ''d'')) n)) 1 5 ?db
        = Inr (sample_event (tr_state ?row) (hex_id (CHR ''d'')) 1, db2)"
      "td_trades db2 = [next_sequence 5 ?row]" "td_events db2 = td_events ?db" "map pf_event_seq (fd_facts db2) = [1]"
    by (rule sample_fact [where sha = length_sha and db = ?db and row = ?row and fact_key = "''created''"
        and i = "hex_id (CHR ''d'')" and now = 5])
      (simp_all add: sample_texts length_sha_hex, simp_all add: empty_facts_def)
  have "create_with_execution_event length_sha (\<lambda>_. Inr sample_decision) [''PROD''] decode_event sample_trade ''created''
       (\<lambda>n. Inr (sample_event RECEIVED (hex_id (CHR ''d'')) n)) 1 5 empty_facts
     = Inr (\<lparr>mr_trade = trade_record.truncate ?row, mr_event = sample_event RECEIVED (hex_id (CHR ''d'')) 1\<rparr>, db2)"
    using c f(1) by (simp add: create_with_execution_event_def sample_valid validate_fact_arguments_def strip_def lstrip_def
        py_space_def Let_def append_execution_event_locked_def fact_at_def) (simp add: empty_facts_def)
  then show thesis
    by (rule that [of _ _ "next_sequence 5 ?row"])
      (use f doc in \<open>simp_all add: next_sequence_def tw_trade_id_def [abs_def]\<close>,
       simp add: sample_trade_def)
qed

lemma empty_facts_ok: "fact_inv empty_facts" "gapless empty_facts" "trade_chain_ok sha empty_facts"
  by (simp_all add: empty_facts_def fact_inv_def trade_inv_def outbox_ok_def facts_unique_def gapless_def counters_def
      trade_chain_ok_def trades_unique_def unique_client_order_def)

lemma sample_run_ok: "list_all (op_ok (\<lambda>_. True) (\<lambda>_. True) False) sample_run" "list_all kept_documents sample_run"
proof -
  have "document_ok (JObj [(''approved'', JBool True)])" by code_simp
  then have "document_ok (nt_risk_decision_payload sample_trade)" by (simp add: sample_trade_def)
  then show "list_all (op_ok (\<lambda>_. True) (\<lambda>_. True) False) sample_run" "list_all kept_documents sample_run"
    by (simp_all add: sample_run_def sample_move_def transition_document_ok_def)
qed

lemma sample_start:
  obtains row where "td_trades (sample_step (hd sample_run) empty_facts) = [row]" and "tw_trade_id row = hex_id (CHR ''a'')"
    and "tr_state row = RECEIVED" and "map pf_event_seq (fd_facts (sample_step (hd sample_run) empty_facts)) = [1]"
    and "\<forall>e\<in>set (td_events (sample_step (hd sample_run) empty_facts)). json_wf (te_payload e)"
  by (rule sample_told [of "\<lambda>_. Inr (sample_event RECEIVED [] 0)"]) (simp add: sample_run_def)

lemma sample_end:
  obtains row where "row \<in> set (td_trades (fold sample_step sample_run empty_facts))"
    and "tw_trade_id row = hex_id (CHR ''a'')" and "trade_at (hex_id (CHR ''a'')) (fold sample_step sample_run empty_facts) = Some row"
    and "fd_facts (fold sample_step sample_run empty_facts) \<noteq> []"
proof -
  let ?d = "sample_step (hd sample_run) empty_facts"
  let ?e = "fold sample_step sample_run empty_facts"
  have inv: "fact_inv ?d" "fact_inv ?e" by (rule facts.step_inv facts.reach_inv; simp add: empty_facts_ok)+
  have e: "?e = fold sample_step (tl sample_run) ?d" by (simp add: sample_run_def)
  have le: "fact_le ?d ?e" unfolding e using inv(1) by (rule facts.run_le)
  obtain row where row: "td_trades ?d = [row]" "tw_trade_id row = hex_id (CHR ''a'')" "map pf_event_seq (fd_facts ?d) = [1]"
    by (rule sample_start)
  have "table_le trade_le (td_trades ?d) (td_trades ?e)" using le by (simp add: fact_le_def trades_le_def)
  then obtain q where q: "q \<in> set (td_trades ?e)" "trade_le row q" using table_leD row(1) by fastforce
  then have id: "tw_trade_id q = hex_id (CHR ''a'')" using row(2) by (simp add: trade_le_def tw_trade_id_def)
  have "trade_at (tw_trade_id q) ?e = Some q"
    using inv(2) q(1) by (intro trade_at_unique) (simp_all add: fact_inv_def trade_inv_def)
  moreover have "fd_facts ?e \<noteq> []" using le row(3) by (auto simp: fact_le_def)
  ultimately show thesis using that q(1) id by simp
qed

section \<open>Properties\<close>

text \<open>
  C21. The repository refines the position machine: in any run of lifecycle operations, facts,
  dispatcher steps and audit appends, what the table says about a trade moves only as the abstract
  machine allows. So the size is fixed, the fill only grows and stays within the size, the instant
  of the first fill and the deadline \<open>max_holding_ms\<close> after it never change once set, a closed trade
  stays as it is, and a trade that is exposed or being closed has a fill.
\<close>

theorem trade_refines_position:
  assumes "fact_inv db" and "db' = fold (trade_step sha decode profiles decode_event) ops db"
  shows "position_step\<^sup>*\<^sup>* (trade_position k db) (trade_position k db') \<and>
    (position_ok (trade_position k db) \<longrightarrow> position_ok (trade_position k db')) \<and>
    (\<forall>p. trade_position k db = Some p \<longrightarrow> (\<exists>p'. trade_position k db' = Some p' \<and> position_le p p'))"
proof -
  have run: "position_step\<^sup>*\<^sup>* (trade_position k db) (trade_position k db')"
    unfolding assms(2) by (rule position.run_refines) (simp_all add: assms(1) list_all_iff)
  then show ?thesis using position_run_ok position_run_le by metis
qed

theorem trade_refines_position_witness:
  "\<exists>p. trade_position (hex_id (CHR ''a'')) (fold sample_step sample_run empty_facts) = Some p \<and>
     position_step\<^sup>*\<^sup>* None (Some p) \<and> position_ok (Some p)"
proof -
  let ?e = "fold sample_step sample_run empty_facts"
  have n: "trade_position (hex_id (CHR ''a'')) empty_facts = None"
    by (simp add: trade_position_def trade_at_def empty_facts_def)
  obtain row where "trade_at (hex_id (CHR ''a'')) ?e = Some row" by (rule sample_end)
  with trade_refines_position [OF empty_facts_ok(1) refl, of "hex_id (CHR ''a'')" length_sha "\<lambda>_. Inr sample_decision"
      "[''PROD'']" "\<lambda>_. Inr (sample_event RECEIVED [] 0)" sample_run] n
  show ?thesis by (simp add: position_ok_def [of None]) (simp add: trade_position_def)
qed

text \<open>
  C24. After any run the journal of every trade is a walk through the transition table from
  \<open>RECEIVED\<close> to the state of the row, one event per state version; the terms of a trade and the
  identifiers it has recorded are those of every earlier moment, its journal only grew, and no
  account has two open trades in one symbol of an environment.
\<close>

theorem trade_journal_is_history:
  assumes "fact_inv db" and "db' = fold (trade_step sha decode profiles decode_event) ops db"
  shows "(\<forall>r\<in>set (td_trades db'). trade_path None (trade_events (tw_trade_id r) db') (tr_state r) \<and>
      int (length (trade_events (tw_trade_id r) db')) = tr_state_version r + 1) \<and>
    (\<forall>r\<in>set (td_trades db). \<exists>q. trade_at (tw_trade_id r) db' = Some q \<and> trade_le r q \<and>
      (\<exists>more. trade_events (tw_trade_id r) db' = trade_events (tw_trade_id r) db @ more)) \<and>
    (\<forall>r\<in>set (td_trades db'). \<forall>q\<in>set (td_trades db').
      open_trade r \<longrightarrow> open_trade q \<longrightarrow> symbol_slot r = symbol_slot q \<longrightarrow> r = q)"
proof -
  have inv: "trade_inv db'" using facts.reach_inv [OF assms(1)] unfolding assms(2) by (simp add: fact_inv_def)
  have le: "trades_le db db'" using facts.run_le [OF assms(1)] unfolding assms(2) by (simp add: fact_le_def)
  have u: "trades_unique (td_trades db')" using inv by (simp add: trade_inv_def)
  have "\<exists>q. trade_at (tw_trade_id r) db' = Some q \<and> trade_le r q \<and>
      (\<exists>more. trade_events (tw_trade_id r) db' = trade_events (tw_trade_id r) db @ more)" if "r \<in> set (td_trades db)" for r
  proof -
    have "table_le trade_le (td_trades db) (td_trades db')" using le by (simp add: trades_le_def)
    from table_leD [OF this that] obtain q where q: "q \<in> set (td_trades db')" "trade_le r q" by blast
    then have "trade_at (tw_trade_id r) db' = Some q"
      using trade_at_unique [OF u q(1)] by (simp add: trade_le_def tw_trade_id_def)
    with q(2) le show ?thesis by (auto simp: trades_le_def trade_events_def)
  qed
  moreover have "r = q" if "r \<in> set (td_trades db')" "q \<in> set (td_trades db')" "open_trade r" "open_trade q"
      "symbol_slot r = symbol_slot q" for r q
    using u that unique_by_eq [of symbol_slot "filter open_trade (td_trades db')" r q] by (simp add: trades_unique_def)
  ultimately show ?thesis using inv by (simp add: trade_inv_def trade_journal_ok_def)
qed

theorem trade_journal_is_history_witness:
  "\<exists>row. trade_at (hex_id (CHR ''a'')) (fold sample_step sample_run empty_facts) = Some row \<and>
     trade_path None (trade_events (hex_id (CHR ''a'')) (fold sample_step sample_run empty_facts)) (tr_state row)"
proof -
  let ?e = "fold sample_step sample_run empty_facts"
  obtain row where row: "row \<in> set (td_trades ?e)" "tw_trade_id row = hex_id (CHR ''a'')"
      "trade_at (hex_id (CHR ''a'')) ?e = Some row" by (rule sample_end)
  from trade_journal_is_history [OF empty_facts_ok(1) refl, of length_sha "\<lambda>_. Inr sample_decision"
      "[''PROD'']" "\<lambda>_. Inr (sample_event RECEIVED [] 0)" sample_run, THEN conjunct1, rule_format, OF row(1)] row(2,3)
  show ?thesis by simp
qed

text \<open>
  After any run on documents that JSONB keeps, \<open>verify_chain\<close> answers \<open>True\<close> for every trade.
\<close>

theorem trade_chain_verifies:
  assumes "fact_inv db" and "trade_chain_ok sha db" and "list_all kept_documents ops"
    and "db' = fold (trade_step sha decode profiles decode_event) ops db" and "row \<in> set (td_trades db')"
  shows "verify_trade_chain sha (tw_trade_id row) db' = Inr True"
proof -
  have i: "fact_inv db' \<and> trade_chain_ok sha db'"
    unfolding assms(4) using assms(1-3) by (intro chains.run_inv) simp_all
  with assms(5) show ?thesis by (auto intro: verify_trade_chain_ok)
qed

theorem trade_chain_verifies_witness:
  "verify_trade_chain length_sha (hex_id (CHR ''a'')) (fold sample_step sample_run empty_facts) = Inr True"
proof -
  let ?e = "fold sample_step sample_run empty_facts"
  obtain row where row: "row \<in> set (td_trades ?e)" "tw_trade_id row = hex_id (CHR ''a'')" by (rule sample_end)
  from trade_chain_verifies [OF empty_facts_ok(1,3) sample_run_ok(2) refl row(1)] row(2) show ?thesis by simp
qed

text \<open>
  C25. The journal of a trade is tamper evident: if two databases both pass \<open>verify_chain\<close> for a trade
  and agree on its journal head, their events of the trade are the same, up to the key order of
  payloads, or two different event texts have the same SHA-256.
\<close>

theorem trade_journal_tamper_evident:
  assumes "verify_trade_chain sha k db = Inr True" and "verify_trade_chain sha k db2 = Inr True"
    and "\<forall>e\<in>set (trade_events k db) \<union> set (trade_events k db2). json_wf (te_payload e)"
    and "map_option tr_journal_head_sha256 (trade_at k db) = map_option tr_journal_head_sha256 (trade_at k db2)"
  shows "list_all2 same_trade_event (trade_events k db) (trade_events k db2) \<or>
    (\<exists>e\<in>set (trade_events k db). \<exists>f\<in>set (trade_events k db2).
       trade_event_text k e \<noteq> trade_event_text k f \<and> sha (trade_event_text k e) = sha (trade_event_text k f))"
proof -
  obtain row where row: "trade_at k db = Some row"
      "verify_trade_events sha k None (trade_events k db) = Inr (Some (Some (tr_journal_head_sha256 row)))"
    using assms(1) by (auto simp: verify_trade_chain_True)
  obtain row2 where row2: "trade_at k db2 = Some row2"
      "verify_trade_events sha k None (trade_events k db2) = Inr (Some (Some (tr_journal_head_sha256 row2)))"
    using assms(2) by (auto simp: verify_trade_chain_True)
  have "tr_journal_head_sha256 row2 = tr_journal_head_sha256 row" using assms(4) row(1) row2(1) by simp
  with row2 have "linked te_previous (\<lambda>e. sha (trade_event_text k e)) None (trade_events k db2) (Some (tr_journal_head_sha256 row))"
    using verify_trade_events_linked by fastforce
  with verify_trade_events_linked [OF row(2)] show ?thesis
    using assms(3) by (intro trade_chain.head_determines) (auto simp: list_all_iff)
qed

theorem trade_journal_tamper_evident_witness:
  "let k = hex_id (CHR ''a''); db = sample_step (hd sample_run) empty_facts;
       db2 = sample_step (ReconcileOp k ''seen'' 9) db
   in trade_events k db \<noteq> [] \<and> (list_all2 same_trade_event (trade_events k db) (trade_events k db2) \<or>
     (\<exists>e\<in>set (trade_events k db). \<exists>f\<in>set (trade_events k db2).
        trade_event_text k e \<noteq> trade_event_text k f \<and> length_sha (trade_event_text k e) = length_sha (trade_event_text k f)))"
proof -
  let ?k = "hex_id (CHR ''a'')"
  let ?d = "sample_step (hd sample_run) empty_facts"
  let ?d2 = "sample_step (ReconcileOp ?k ''seen'' 9) ?d"
  obtain row where row: "td_trades ?d = [row]" "tw_trade_id row = ?k" "\<forall>e\<in>set (td_events ?d). json_wf (te_payload e)"
    by (rule sample_start)
  have "fact_inv ?d \<and> trade_chain_ok length_sha ?d" "fact_inv ?d2 \<and> trade_chain_ok length_sha ?d2"
    using sample_run_ok(2) empty_facts_ok
    by (auto intro!: chains.step_inv simp: sample_run_def simp del: trade_step.simps)
  moreover have d2: "td_trades ?d2 = [reconciled_trade ''seen'' 9 row]" "td_events ?d2 = td_events ?d"
    using row(1,2) sample_texts by (auto simp: mark_reconciled_def trade_at_def update_where_def blank_iff py_space_def)
  moreover have id: "tw_trade_id (reconciled_trade ''seen'' 9 row) = ?k" using row(2) by (simp add: reconciled_trade_def tw_trade_id_def)
  ultimately have v: "verify_trade_chain length_sha ?k ?d = Inr True" "verify_trade_chain length_sha ?k ?d2 = Inr True"
    using verify_trade_chain_ok [of ?d length_sha row] verify_trade_chain_ok [of ?d2 length_sha "reconciled_trade ''seen'' 9 row"]
      row(1,2) by simp_all
  have ne: "trade_events ?k ?d \<noteq> []" using v(1) by (auto simp: verify_trade_chain_True)
  have w: "\<forall>e\<in>set (trade_events ?k ?d) \<union> set (trade_events ?k ?d2). json_wf (te_payload e)"
    using row(3) d2(2) by (auto simp: trade_events_def)
  have h: "map_option tr_journal_head_sha256 (trade_at ?k ?d) = map_option tr_journal_head_sha256 (trade_at ?k ?d2)"
    using row(1,2) d2(1) id by (simp add: trade_at_def reconciled_trade_def)
  show ?thesis using trade_journal_tamper_evident [OF v w h] ne unfolding Let_def by (rule conjI [rotated])
qed

text \<open>
  Public facts of a trade are numbered without gaps: if numbers are handed out only with the facts
  themselves (nobody calls the older \<open>next_event_sequence\<close>), then after any run the facts of a trade
  carry, in the order they were stored, the numbers 1, 2, .. up to one less than the counter of its row.
\<close>

theorem execution_facts_gapless:
  assumes "fact_inv db" and "gapless db" and "list_all (op_ok (\<lambda>_. True) (\<lambda>_. True) False) ops"
    and "db' = fold (trade_step sha decode profiles decode_event) ops db" and "row \<in> set (td_trades db')"
  shows "map pf_event_seq (filter (\<lambda>f. pf_trade_id f = tw_trade_id row) (fd_facts db'))
    = [1..tw_next_execution_event_seq row - 1]"
proof -
  have "fact_inv db' \<and> gapless db'"
    unfolding assms(4) using assms(1-3) by (intro sequences.run_inv) simp_all
  with assms(5) show ?thesis by (auto simp: gapless_def counters_def fact_sequence_def)
qed

theorem execution_facts_gapless_witness:
  "\<exists>row\<in>set (td_trades (fold sample_step sample_run empty_facts)).
     map pf_event_seq (filter (\<lambda>f. pf_trade_id f = tw_trade_id row) (fd_facts (fold sample_step sample_run empty_facts)))
       = [1..tw_next_execution_event_seq row - 1] \<and> fd_facts (fold sample_step sample_run empty_facts) \<noteq> []"
proof -
  let ?e = "fold sample_step sample_run empty_facts"
  obtain row where row: "row \<in> set (td_trades ?e)" "fd_facts ?e \<noteq> []" by (rule sample_end)
  from execution_facts_gapless [OF empty_facts_ok(1,2) sample_run_ok(1) refl row(1)] row show ?thesis by blast
qed

text \<open>
  C23. A fact commits with its message: after any run of the repository, the dispatcher and the recovery
  tools, every public fact names an existing trade at a state version it has reached, its event id is
  the id of one outbox row of the execution topic and producer with the fact's fingerprint, and the
  audit log has a row for it.
\<close>

theorem execution_facts_published:
  assumes "fact_inv db" and "db' = fold (trade_step sha decode profiles decode_event) ops db"
    and "pf \<in> set (fd_facts db')"
  shows "(\<exists>row. trade_at (pf_trade_id pf) db' = Some row \<and> 0 \<le> pf_state_version pf \<and>
      pf_state_version pf \<le> tr_state_version row \<and> pf_event_seq pf < tw_next_execution_event_seq row) \<and>
    (\<exists>w. filter (\<lambda>w. ob_message_id w = pf_event_id pf) (fd_outbox db') = [w] \<and>
      ob_topic w = trade_execution_event_topic \<and> ob_producer w = execution_outbox_producer \<and>
      ob_payload_sha256 w = Some (pf_payload_sha256 pf)) \<and>
    (\<exists>a\<in>set (fd_audit db'). ev_message_id a = pf_event_id pf) \<and>
    (\<forall>other\<in>set (fd_facts db'). pf_event_id other = pf_event_id pf \<longrightarrow> other = pf)"
proof -
  have inv: "fact_inv db'" unfolding assms(2) using assms(1) by (rule facts.reach_inv)
  then have ok: "fact_ok db' pf" and u: "trades_unique (td_trades db')" and o': "unique_by ob_message_id (fd_outbox db')"
      and f: "unique_by pf_event_id (fd_facts db')"
    using assms(3) by (auto simp: fact_inv_def trade_inv_def outbox_ok_def facts_unique_def)
  from ok obtain r w a where r: "r \<in> set (td_trades db')" "tw_trade_id r = pf_trade_id pf"
      "pf_state_version pf \<le> tr_state_version r" "pf_event_seq pf < tw_next_execution_event_seq r"
      and w: "w \<in> set (fd_outbox db')" "ob_message_id w = pf_event_id pf" "ob_topic w = trade_execution_event_topic"
      "ob_producer w = execution_outbox_producer" "ob_payload_sha256 w = Some (pf_payload_sha256 pf)"
      and a: "a \<in> set (fd_audit db')" "ev_message_id a = pf_event_id pf"
    by (auto simp: fact_ok_def published_def)
  have "filter (\<lambda>x. ob_message_id x = ob_message_id w) (fd_outbox db') = [w]"
    using filter_unique [OF o' w(1)] by simp
  moreover have "trade_at (pf_trade_id pf) db' = Some r" using trade_at_unique [OF u r(1)] r(2) by simp
  moreover have "0 \<le> pf_state_version pf" using ok by (simp add: fact_ok_def fact_check_def)
  moreover have "other = pf" if "other \<in> set (fd_facts db')" "pf_event_id other = pf_event_id pf" for other
    using unique_by_eq [OF f that(1) assms(3) that(2)] .
  ultimately show ?thesis using r(3,4) w a by auto
qed

theorem execution_facts_published_witness:
  "\<exists>pf\<in>set (fd_facts (fold sample_step sample_run empty_facts)).
     \<exists>w. filter (\<lambda>w. ob_message_id w = pf_event_id pf) (fd_outbox (fold sample_step sample_run empty_facts)) = [w] \<and>
       ob_payload_sha256 w = Some (pf_payload_sha256 pf)"
proof -
  let ?e = "fold sample_step sample_run empty_facts"
  have "fd_facts ?e \<noteq> []" by (rule sample_end)
  then obtain pf where pf: "pf \<in> set (fd_facts ?e)" by (cases "fd_facts ?e") auto
  from execution_facts_published [OF empty_facts_ok(1) refl pf] pf show ?thesis by blast
qed

end
