(* ===== verification/TradeRetry.thy ===== *)
theory TradeRetry
  imports TradeFacts
begin

text \<open>
  Retries of \<open>transition_with_execution_event\<close> in \<open>kairos_persistence/trade_lifecycle.py\<close>: a request whose
  transition and fact are already durable is compared with what the journal says was requested, and
  answered with the stored event without another change.
\<close>

subsection \<open>What a journal entry says about the exposure\<close>

lemma replace_Z_id: "CHR ''Z'' \<notin> set s \<Longrightarrow> replace_Z s = s"
  by (induction s) (auto simp: replace_Z_def)

lemma isoformat_no_Z: "CHR ''Z'' \<notin> set (isoformat_auto t)"
proof -
  have "CHR ''Z'' \<notin> set (padded w n)" for w n
    using padded_digits(1) [of w n] by (auto simp: list_all_iff py_digit_def)
  then show ?thesis by (simp add: isoformat_auto_def isoformat_us_def iso_seconds_def Let_def split: prod.split)
qed

lemma parse_optional_isoformat:
  assumes "\<And>t. fill = Some t \<Longrightarrow> datetime_range t"
  shows "parse_optional_timestamp (json_text (map_option isoformat_auto fill)) = Inr fill"
  using assms
  by (cases fill) (simp_all add: parse_optional_timestamp_def json_text_def replace_Z_id isoformat_no_Z fromisoformat_isoformat)

definition ids_recorded :: "order_ids \<Rightarrow> bool" where
  "ids_recorded i \<longleftrightarrow> (\<forall>f\<in>set id_fields. f i \<noteq> Some [])"

definition exposure_ok :: "pyfloat \<Rightarrow> timestamp option \<Rightarrow> order_ids \<Rightarrow> bool" where
  "exposure_ok filled fill ids \<longleftrightarrow> is_finite filled \<and> float_wf filled \<and> (\<forall>t. fill = Some t \<longrightarrow> datetime_range t) \<and>
     ids_recorded ids"

lemma transition_payload_get:
  fixes ids :: order_ids and filled :: pyfloat and fill :: "timestamp option" and ev :: json
  defines "p \<equiv> sorted_json (transition_payload ev filled fill ids)"
  shows "json_get ''filled_quantity_hex'' p = Some (JStr (float_hex filled))"
    and "json_get ''first_fill_at'' p = Some (json_text (map_option isoformat_auto fill))"
    and "json_get ''entry_exchange_order_id'' p = Some (json_text (oi_entry_exchange_order_id ids))"
    and "json_get ''stop_client_order_id'' p = Some (json_text (oi_stop_client_order_id ids))"
    and "json_get ''stop_exchange_order_id'' p = Some (json_text (oi_stop_exchange_order_id ids))"
    and "json_get ''target_client_order_id'' p = Some (json_text (oi_target_client_order_id ids))"
    and "json_get ''target_exchange_order_id'' p = Some (json_text (oi_target_exchange_order_id ids))"
    and "json_get ''close_client_order_id'' p = Some (json_text (oi_close_client_order_id ids))"
    and "json_get ''close_exchange_order_id'' p = Some (json_text (oi_close_exchange_order_id ids))"
proof -
  have get: "json_get k p = map_option sorted_json (json_get k (transition_payload ev filled fill ids))" for k
    unfolding p_def transition_payload_def by (rule json_get_sorted) simp
  show "json_get ''filled_quantity_hex'' p = Some (JStr (float_hex filled))"
    "json_get ''first_fill_at'' p = Some (json_text (map_option isoformat_auto fill))"
    "json_get ''entry_exchange_order_id'' p = Some (json_text (oi_entry_exchange_order_id ids))"
    "json_get ''stop_client_order_id'' p = Some (json_text (oi_stop_client_order_id ids))"
    "json_get ''stop_exchange_order_id'' p = Some (json_text (oi_stop_exchange_order_id ids))"
    "json_get ''target_client_order_id'' p = Some (json_text (oi_target_client_order_id ids))"
    "json_get ''target_exchange_order_id'' p = Some (json_text (oi_target_exchange_order_id ids))"
    "json_get ''close_client_order_id'' p = Some (json_text (oi_close_client_order_id ids))"
    "json_get ''close_exchange_order_id'' p = Some (json_text (oi_close_exchange_order_id ids))"
    unfolding get by (simp_all add: transition_payload_def json_get_def)
qed

lemma stored_identifier_text:
  "json_get name p = Some (json_text x) \<Longrightarrow> stored_identifier name p = Inr x"
  by (cases x) (simp_all add: stored_identifier_def stored_field_def json_text_def)

lemma stored_transition_exposure:
  assumes "te_payload e = sorted_json (transition_payload ev filled fill ids)" and "te_event_type e \<noteq> ''CREATED''"
    and "exposure_ok filled fill ids"
  shows "prior_exposure e = Inr (filled, fill, ids)"
proof -
  let ?p = "sorted_json (transition_payload ev filled fill ids)"
  note g = transition_payload_get [of ev filled fill ids]
  have o': "trade_object ?p = Inr ?p" by (simp add: trade_object_Inr transition_payload_def is_object_def)
  have "stored_filled ?p = Inr filled"
    using assms(3) g(1) by (simp add: stored_filled_def stored_field_def float_fromhex_hex exposure_ok_def)
  moreover have "stored_field ''first_fill_at'' ?p = Inr (json_text (map_option isoformat_auto fill))"
    using g(2) by (simp add: stored_field_def)
  moreover have "parse_optional_timestamp (json_text (map_option isoformat_auto fill)) = Inr fill"
    using assms(3) by (intro parse_optional_isoformat) (simp add: exposure_ok_def)
  moreover have "stored_ids ?p = Inr ids"
    by (simp add: stored_ids_def g(3-9) stored_identifier_text)
  ultimately show ?thesis
    using assms(2) o' by (simp only: prior_exposure_def assms(1) rbind_Inr if_False)
qed

subsection \<open>The journal records the exposure of its row\<close>

definition replayable :: "transition_request \<Rightarrow> bool" where
  "replayable q \<longleftrightarrow> transition_document_ok q \<and> tt_event_type q \<noteq> ''CREATED'' \<and>
     (\<forall>f. tt_filled_quantity q = Some f \<longrightarrow> float_wf f)"

lemma next_exposure_parts:
  assumes "next_exposure c q = Inr (filled, fill, timeout, ids)"
  obtains supplied where "supplied_fill (tt_first_fill_at q) = Inr supplied" and "first_fill (tr_first_fill_at c) supplied = Inr fill"
    and "filled = (case tt_filled_quantity q of None \<Rightarrow> tr_filled_quantity c | Some f \<Rightarrow> f)"
    and "merge_ids (tr_ids c) (tt_ids q) = Inr ids" and "is_finite filled"
  using assms unfolding next_exposure_def Let_def
  by (auto simp: rbind_eq_Inr split: if_splits)

lemma merge_identifier_recorded:
  "merge_identifier n c s = Inr x \<Longrightarrow> c \<noteq> Some [] \<Longrightarrow> x \<noteq> Some [] \<and> coalesce x c = x"
  by (auto simp: merge_identifier_def coalesce_def blank_iff split: if_splits option.splits)

lemma merge_ids_recorded:
  assumes "merge_ids c s = Inr x" and "ids_recorded c"
  shows "ids_recorded x \<and> coalesce_ids x c = x"
  using assms
  by (auto simp: merge_ids_def rbind_eq_Inr ids_recorded_def id_fields_def coalesce_ids_def
      dest: merge_identifier_recorded)

lemma next_exposure_recorded:
  assumes "next_exposure c q = Inr (filled, fill, timeout, ids)" and "replayable q"
    and "exposure_ok (tr_filled_quantity c) (tr_first_fill_at c) (tr_ids c)"
  shows "exposure_ok filled fill ids" and "coalesce_ids ids (tr_ids c) = ids"
proof -
  obtain supplied where s: "supplied_fill (tt_first_fill_at q) = Inr supplied" "first_fill (tr_first_fill_at c) supplied = Inr fill"
      "filled = (case tt_filled_quantity q of None \<Rightarrow> tr_filled_quantity c | Some f \<Rightarrow> f)"
      "merge_ids (tr_ids c) (tt_ids q) = Inr ids" "is_finite filled"
    using assms(1) by (rule next_exposure_parts)
  have m: "ids_recorded ids \<and> coalesce_ids ids (tr_ids c) = ids"
    using merge_ids_recorded [OF s(4)] assms(3) by (simp add: exposure_ok_def)
  then show "coalesce_ids ids (tr_ids c) = ids" ..
  have "float_wf filled" using s(3) assms(2,3) by (auto simp: replayable_def exposure_ok_def split: option.splits)
  moreover have "datetime_range t" if "fill = Some t" for t
    using that s(1,2) assms(3)
    by (auto simp: first_fill_def supplied_fill_def exposure_ok_def split: option.splits pydatetime.splits if_splits)
  ultimately show "exposure_ok filled fill ids" using s(5) m by (simp add: exposure_ok_def)
qed

definition recorded :: "'a trade_db_scheme \<Rightarrow> trade_row \<Rightarrow> bool" where
  "recorded db r \<longleftrightarrow> exposure_ok (tr_filled_quantity r) (tr_first_fill_at r) (tr_ids r) \<and>
     trade_events (tw_trade_id r) db \<noteq> [] \<and>
     prior_exposure (last (trade_events (tw_trade_id r) db)) = Inr (tr_filled_quantity r, tr_first_fill_at r, tr_ids r)"

definition all_recorded :: "'a trade_db_scheme \<Rightarrow> bool" where
  "all_recorded db \<longleftrightarrow> (\<forall>r\<in>set (td_trades db). recorded db r)"

lemma recorded_cong:
  assumes "trade_events (tw_trade_id r) db' = trade_events (tw_trade_id r) db" and "tw_trade_id r' = tw_trade_id r"
    and "tr_filled_quantity r' = tr_filled_quantity r" and "tr_first_fill_at r' = tr_first_fill_at r" and "tr_ids r' = tr_ids r"
  shows "recorded db' r' = recorded db r"
  using assms by (simp add: recorded_def)

lemma bookkeeping_recorded:
  assumes f: "bookkeeping f" and db': "td_trades db' = update_where (\<lambda>r. tw_trade_id r = k) f (td_trades db)"
      "td_events db' = td_events db" and ok: "all_recorded db"
  shows "all_recorded db'"
proof -
  have "recorded db' (f r) = recorded db r" "recorded db' r = recorded db r" for r
    using f by (intro recorded_cong; simp add: bookkeeping_def tw_trade_id_def trade_events_def db'(2))+
  with ok show ?thesis by (auto simp: all_recorded_def db'(1) set_update_where)
qed

lemma create_recorded:
  assumes "create_locked sha t now db = Inr (rec, db')" and "trade_inv db" and "all_recorded db"
    and "document_ok (nt_risk_decision_payload t)"
  shows "all_recorded db'"
  using assms(1)
proof (cases rule: create_locked_outcome)
  case (found row)
  with assms show ?thesis by simp
next
  case (fresh row doc e)
  have ev: "trade_events k db' = trade_events k db @ (if te_trade_id e = k then [e] else [])" for k
    using fresh(17) by (intro trade_events_insert) simp
  have new: "nt_trade_id t \<notin> tw_trade_id ` set (td_trades db)"
    using fresh(1) by (auto simp: trade_at_def select_one_None_iff)
  have "te_payload e = sorted_json (JObj [(''trade'', new_trade_payload t)])"
    using store_document [OF created_payload_ok [OF assms(4)] fresh(13)] by simp
  then have "prior_exposure e = Inr (float_zero, None, no_ids)"
    by (simp add: prior_exposure_def fresh(11) trade_object_def is_object_def)
  then have "recorded db' row"
    using fresh(8)
    by (simp add: recorded_def ev fresh(2) exposure_ok_def ids_recorded_def id_fields_def no_ids_def
        float_zero_def float_wf_def is_finite_def)
  moreover have "recorded db' r" if "r \<in> set (td_trades db)" for r
  proof -
    have "tw_trade_id r \<noteq> nt_trade_id t" using new that by (metis imageI)
    with assms(3) that fresh(8) show ?thesis by (auto simp: all_recorded_def recorded_def ev)
  qed
  ultimately show ?thesis by (auto simp: all_recorded_def fresh(17))
qed

lemma transition_recorded:
  assumes tx: "transition_locked sha (trade_record.truncate row) q now db = Inr (rec, db')" and inv: "trade_inv db"
    and row: "row \<in> set (td_trades db)" and ok: "all_recorded db" and q: "replayable q"
  shows "all_recorded db'"
proof -
  have u: "trades_unique (td_trades db)" using inv by (simp add: trade_inv_def)
  from tx u row show ?thesis
  proof (rule transition_locked_outcome)
    fix filled fill timeout ids and e :: trade_event
    let ?m = "moved_trade (tt_target q) filled fill timeout ids (te_sha256 e) now"
    let ?p = "transition_payload (event_payload_of q) filled fill ids"
    assume n: "next_exposure (trade_record.truncate row) q = Inr (filled, fill, timeout, ids)"
      and e: "te_trade_id e = tw_trade_id row" "te_event_type e = tt_event_type q" and st: "store_json ?p = Inr (te_payload e)"
      and db': "db' = db\<lparr>td_trades := update_where (\<lambda>r. tw_trade_id r = tw_trade_id row) ?m (td_trades db),
           td_events := insert_row e (td_events db)\<rparr>"
    have ev: "trade_events k db' = trade_events k db @ (if te_trade_id e = k then [e] else [])" for k
      using db' by (intro trade_events_insert) simp
    have "exposure_ok (tr_filled_quantity row) (tr_first_fill_at row) (tr_ids row)"
      using ok row by (simp add: all_recorded_def recorded_def)
    then have x: "exposure_ok filled fill ids" "coalesce_ids ids (tr_ids row) = ids"
      using next_exposure_recorded [OF n q] by simp_all
    have "te_payload e = sorted_json ?p"
      using store_document [OF transition_payload_ok st] q by (simp add: replayable_def)
    then have "prior_exposure e = Inr (filled, fill, ids)"
      by (rule stored_transition_exposure) (use q e(2) x(1) in \<open>simp_all add: replayable_def\<close>)
    with x e(1) have m: "recorded db' (?m row)" by (simp add: recorded_def ev)
    have "recorded db' p" if "p \<in> set (td_trades db')" for p
    proof -
      from that db' obtain p0 where p0: "p0 \<in> set (td_trades db)" "p = (if tw_trade_id p0 = tw_trade_id row then ?m p0 else p0)"
        by (auto simp: set_update_where)
      show ?thesis
      proof (cases "tw_trade_id p0 = tw_trade_id row")
        case True
        with trade_row_eq [OF u p0(1) row] p0(2) m show ?thesis by simp
      next
        case False
        with p0 ok e(1) show ?thesis by (auto simp: all_recorded_def recorded_def ev)
      qed
    qed
    then show ?thesis by (simp add: all_recorded_def)
  qed
qed

lemma frame_recorded: "td_trades db' = td_trades db \<Longrightarrow> td_events db' = td_events db \<Longrightarrow> all_recorded db' = all_recorded db"
  by (simp add: all_recorded_def recorded_def trade_events_def)

lemma fact_change_recorded:
  assumes "fact_change sha (\<lambda>t. document_ok (nt_risk_decision_payload t)) replayable L db db'"
    and "fact_inv db" and "all_recorded db"
  shows "all_recorded db'"
  using assms
proof (induction rule: fact_change.induct)
  case (created t now db rec db')
  then show ?case using create_recorded by (auto simp: fact_inv_def)
next
  case (moved q row db now rec db')
  then show ?case using transition_recorded by (auto simp: fact_inv_def)
next
  case (told row db key version build nid now event db')
  have i: "trade_inv db" "outbox_ok (fd_outbox db)" using told(3) by (simp_all add: fact_inv_def)
  from told(2) i told(1) show ?case
    by (rule told_keeps) (use bookkeeping_recorded [OF bookkeeping_sequence _ _ told(4)] in blast)
next
  case (retold event encoded fingerprint nid now db db')
  then have "outbox_ok (fd_outbox db)" by (simp add: fact_inv_def)
  from publish_keeps [OF retold(1) this] frame_recorded retold(3) show ?case by metis
next
  case (marked db k detail now)
  show ?case by (rule bookkeeping_recorded [OF bookkeeping_reconciled _ _ marked(2)]) simp_all
next
  case (skipped db k now)
  show ?case by (rule bookkeeping_recorded [OF bookkeeping_sequence _ _ skipped(3)]) simp_all
next
  case (bussed db op)
  then show ?case by (simp add: all_recorded_def recorded_def trade_events_def)
next
  case (audited db audit)
  then show ?case by (simp add: all_recorded_def recorded_def trade_events_def)
qed

abbreviation replayable_op :: "trade_op \<Rightarrow> bool" where
  "replayable_op \<equiv> op_ok (\<lambda>t. document_ok (nt_risk_decision_payload t)) replayable True"

interpretation recordings: invariant_system "trade_step sha decode profiles decode_event"
    replayable_op "\<lambda>db. fact_inv db \<and> all_recorded db"
  for sha decode profiles decode_event
proof unfold_locales
  fix op db assume ok: "replayable_op op" and i: "fact_inv db \<and> all_recorded db"
  have "(fact_change sha (\<lambda>t. document_ok (nt_risk_decision_payload t)) replayable True)\<^sup>*\<^sup>* db
      (trade_step sha decode profiles decode_event op db)"
    using i ok by (simp add: step_changes)
  then show "fact_inv (trade_step sha decode profiles decode_event op db) \<and>
      all_recorded (trade_step sha decode profiles decode_event op db)"
    using i by (induction rule: rtranclp_induct) (auto intro: fact_change_inv fact_change_recorded)
qed

subsection \<open>What a committed request leaves behind\<close>

text \<open>
  A fact \<open>f\<close> with its event, the journal entries \<open>prev\<close> and \<open>e\<close> around its state version, and its message
  on the bus and in the audit log.
\<close>

definition durable_request ::
  "(string \<Rightarrow> string) \<Rightarrow> string \<Rightarrow> execution_event \<Rightarrow> fact_row \<Rightarrow> trade_event \<Rightarrow> trade_event \<Rightarrow> fact_db \<Rightarrow> bool" where
  "durable_request sha k event f prev e db \<longleftrightarrow> f \<in> set (fd_facts db) \<and>
     take 2 (drop (nat (pf_state_version f - 1)) (trade_events k db)) = [prev, e] \<and>
     (\<exists>w\<in>set (fd_outbox db). ob_message_id w = km_message_id (xe_message event) \<and>
        ob_topic w = trade_execution_event_topic \<and> ob_producer w = execution_outbox_producer \<and>
        canonical_json (ob_payload w) = canonical_json (xe_dump event) \<and>
        ob_payload_sha256 w = Some (sha (canonical_json (xe_dump event)))) \<and>
     (\<exists>a\<in>set (fd_audit db). audit_key a = (km_produced_at (xe_message event), km_message_id (xe_message event)))"

lemma take_two_append: "take 2 (drop n xs) = [a, b] \<Longrightarrow> take 2 (drop n (xs @ ys)) = [a, b]"
proof -
  assume h: "take 2 (drop n xs) = [a, b]"
  then have "2 \<le> length (drop n xs)" by (metis One_nat_def Suc_1 length_Cons length_take list.size(3) min.cobounded1)
  with h show ?thesis by simp
qed

lemma durable_request_le:
  assumes "durable_request sha k event f prev e db" and "fact_le db db'"
  shows "durable_request sha k event f prev e db'"
proof -
  obtain more where "td_events db' = td_events db @ more" using assms(2) by (auto simp: fact_le_def trades_le_def)
  from this have more: "trade_events k db' = trade_events k db @ filter (\<lambda>e. te_trade_id e = k) more"
    by (simp add: trade_events_def)
  have "take 2 (drop (nat (pf_state_version f - 1)) (trade_events k db')) = [prev, e]"
    unfolding more by (rule take_two_append) (use assms(1) in \<open>simp add: durable_request_def\<close>)
  moreover obtain w where w: "w \<in> set (fd_outbox db)" "ob_message_id w = km_message_id (xe_message event)"
      "ob_topic w = trade_execution_event_topic" "ob_producer w = execution_outbox_producer"
      "canonical_json (ob_payload w) = canonical_json (xe_dump event)"
      "ob_payload_sha256 w = Some (sha (canonical_json (xe_dump event)))"
    using assms(1) by (auto simp: durable_request_def)
  moreover obtain w' where "w' \<in> set (fd_outbox db')" "outbox_le w w'"
    using assms(2) w(1) by (auto simp: fact_le_def dest: table_leD)
  ultimately show ?thesis
    using assms by (auto simp: durable_request_def fact_le_def outbox_le_def intro!: bexI [of _ w'])
qed

lemma republish_nothing:
  assumes "durable_request sha k event f prev e db" and "outbox_ok (fd_outbox db)"
    and "text_to_jsonb (km_dump_json (xe_message event)) = Inr doc"
    and "text_to_jsonb (canonical_json (xe_dump event)) = Inr doc2" and "sha256_hex (sha (canonical_json (xe_dump event)))"
  shows "publish_event event (canonical_json (xe_dump event)) (sha (canonical_json (xe_dump event))) nid now db = Inr db"
proof -
  obtain w where w: "w \<in> set (fd_outbox db)" "ob_message_id w = km_message_id (xe_message event)"
      "ob_topic w = trade_execution_event_topic" "ob_producer w = execution_outbox_producer"
      "canonical_json (ob_payload w) = canonical_json (xe_dump event)"
      "ob_payload_sha256 w = Some (sha (canonical_json (xe_dump event)))"
    using assms(1) by (auto simp: durable_request_def)
  have "select_one (\<lambda>r. ob_message_id r = km_message_id (xe_message event)) (fd_outbox db) = Some w"
    using select_one_unique [of ob_message_id "fd_outbox db" w] assms(2) w(1,2) by (simp add: outbox_ok_def)
  then have q: "enqueue_outbox nid (km_message_id (xe_message event)) trade_execution_event_topic
      (canonical_json (xe_dump event)) (sha (canonical_json (xe_dump event))) execution_outbox_producer now (fd_outbox db)
      = Inr (False, fd_outbox db)"
    using w assms(4,5) sample_texts(14) by (simp add: enqueue_answer)
  have "(km_produced_at (xe_message event), km_message_id (xe_message event)) \<in> audit_key ` set (fd_audit db)"
    using assms(1) by (force simp: durable_request_def)
  then have "append_event trade_execution_event_topic (xe_message event) (fd_audit db) = Inr (False, fd_audit db)"
    using assms(3) by (simp add: append_event_def insert_audit_def audit_key_def)
  with q show ?thesis by (simp add: publish_event_def)
qed

lemma validate_event_terms:
  "tr_terms t' = tr_terms t \<Longrightarrow> validate_execution_event event t' False = validate_execution_event event t False"
  by (simp add: validate_execution_event_def Let_def)

lemma validate_replay_cong:
  "take 2 (drop (nat (v - 1)) (trade_events k db)) = take 2 (drop (nat (v - 1)) (trade_events k db')) \<Longrightarrow>
   validate_transition_replay sha k v q db = validate_transition_replay sha k v q db'"
  by (simp add: validate_transition_replay_def)

lemma durable_request_answer:
  assumes d: "durable_request sha k event f prev e db" and inv: "fact_inv db"
    and row: "trade_at k db = Some row" "trade_readable sha row"
    and args: "validate_transition_arguments k (tt_event_type q) = Inr ()" "validate_fact_arguments key None = Inr ()"
    and f: "pf_trade_id f = k" "pf_fact_key f = key" "pf_payload_sha256 f = sha (canonical_json (xe_dump event))"
    and dec: "execution_event_of sha decode_event (pf_payload f) (pf_payload_sha256 f) = Inr event"
    and st: "xe_lifecycle_state event = tt_target q" "validate_transition_replay sha k (pf_state_version f) q db = Inr ()"
    and b: "build (pf_event_seq f) = Inr event" "xe_event_seq event = pf_event_seq f"
    and v: "validate_execution_event event (trade_record.truncate row) False = Inr ()"
    and texts: "text_to_jsonb (km_dump_json (xe_message event)) = Inr doc" "json_finite (xe_dump event)"
      "text_to_jsonb (canonical_json (xe_dump event)) = Inr doc2" "sha256_hex (sha (canonical_json (xe_dump event)))"
  shows "transition_with_execution_event sha decode_event k q key build nid now db
    = Inr (\<lparr>mr_trade = trade_record.truncate row, mr_event = event\<rparr>, db)"
proof -
  have u: "unique_by (\<lambda>r. (pf_trade_id r, pf_fact_key r)) (fd_facts db)" and ob: "outbox_ok (fd_outbox db)"
    using inv by (simp_all add: fact_inv_def facts_unique_def)
  have "fact_at k key db = Some f"
    using select_one_unique [OF u, of f] d f(1,2) by (simp add: fact_at_def durable_request_def)
  moreover have "canonical_payload sha (xe_dump event) = Inr (canonical_json (xe_dump event), sha (canonical_json (xe_dump event)))"
    using texts(2) by (simp add: canonical_payload_def canonical_dumps_def)
  moreover have "trade_of_row sha row = Inr (trade_record.truncate row)" using row(2) by (simp add: trade_of_row_Inr)
  moreover have "tw_trade_id row = k" using trade_at_Some [OF row(1)] by simp
  ultimately show ?thesis
    using republish_nothing [OF d ob texts(1,3,4), of nid now] row args f dec st b v
    by (simp add: transition_with_execution_event_def append_execution_event_locked_def replay_fact_def)
qed

text \<open>The journal entry of a transition accepts the request that made it.\<close>

lemma own_request_replays:
  assumes inv: "trade_inv db" and ok: "all_recorded db" and row: "row \<in> set (td_trades db)" and q: "replayable q"
    and tx: "transition_locked sha (trade_record.truncate row) q now db = Inr (rec, db')"
  obtains prev e where "take 2 (drop (nat (tr_state_version row)) (trade_events (tw_trade_id row) db')) = [prev, e]"
    and "validate_transition_replay sha (tw_trade_id row) (tr_state_version row + 1) q db' = Inr ()"
    and "tr_state_version rec = tr_state_version row + 1" and "0 \<le> tr_state_version row" and "tr_state rec = tt_target q"
    and "tw_trade_id rec = tw_trade_id row" and "tr_terms rec = tr_terms row"
proof -
  have u: "trades_unique (td_trades db)" and j: "trade_journal_ok db row" using inv row by (simp_all add: trade_inv_def)
  let ?k = "tw_trade_id row"
  have rd: "recorded db row" using ok row by (simp add: all_recorded_def)
  define prev where "prev = last (trade_events ?k db)"
  have es: "trade_events ?k db = butlast (trade_events ?k db) @ [prev]" using rd by (simp add: recorded_def prev_def)
  have len: "int (length (trade_events ?k db)) = tr_state_version row + 1" using j by (simp add: trade_journal_ok_def)
  have to: "te_to_state prev = tr_state row"
  proof -
    have "trade_path None (butlast (trade_events ?k db) @ [prev]) (tr_state row)"
      using j es by (simp add: trade_journal_ok_def)
    then show ?thesis by (auto simp: trade_path_snoc)
  qed
  have n0: "0 \<le> tr_state_version row" using len rd by (cases "trade_events ?k db") (simp_all add: recorded_def)
  from tx u row show thesis
  proof (rule transition_locked_outcome)
    fix filled fill timeout ids and e :: trade_event
    let ?m = "moved_trade (tt_target q) filled fill timeout ids (te_sha256 e) now"
    let ?p = "transition_payload (event_payload_of q) filled fill ids"
    assume n: "next_exposure (trade_record.truncate row) q = Inr (filled, fill, timeout, ids)"
      and e: "te_trade_id e = ?k" "te_from_state e = Some (tr_state row)" "te_to_state e = tt_target q"
        "te_event_type e = tt_event_type q" and st: "store_json ?p = Inr (te_payload e)" and fin: "json_finite ?p"
      and rec: "rec = trade_record.truncate (?m row)"
      and db': "db' = db\<lparr>td_trades := update_where (\<lambda>r. tw_trade_id r = ?k) ?m (td_trades db),
           td_events := insert_row e (td_events db)\<rparr>"
    have ev: "trade_events ?k db' = butlast (trade_events ?k db) @ [prev, e]"
      using trade_events_insert [of db' e db ?k] db' e(1) es by simp
    have "nat (tr_state_version row) = length (butlast (trade_events ?k db))" using len n0 by simp
    then have two: "take 2 (drop (nat (tr_state_version row)) (trade_events ?k db')) = [prev, e]"
      by (simp add: ev)
    obtain supplied where s: "supplied_fill (tt_first_fill_at q) = Inr supplied"
        "first_fill (tr_first_fill_at row) supplied = Inr fill"
        "(case tt_filled_quantity q of None \<Rightarrow> tr_filled_quantity row | Some f \<Rightarrow> f) = filled"
        "merge_ids (tr_ids row) (tt_ids q) = Inr ids"
      using n by (rule next_exposure_parts) (auto split: option.splits)
    have pr: "prior_exposure prev = Inr (tr_filled_quantity row, tr_first_fill_at row, tr_ids row)"
      using rd by (simp add: recorded_def prev_def)
    then have obp: "trade_object (te_payload prev) = Inr (te_payload prev)"
      by (auto simp: prior_exposure_def rbind_eq_Inr trade_object_Inr)
    have pl: "te_payload e = sorted_json ?p"
      using store_document [OF transition_payload_ok st] q by (simp add: replayable_def)
    have ob: "trade_object (te_payload e) = Inr (te_payload e)"
      by (simp add: trade_object_Inr pl) (simp add: transition_payload_def is_object_def)
    have cp: "canonical_payload sha ?p = Inr (canonical_json ?p, sha (canonical_json ?p))"
      using fin by (simp add: canonical_payload_def canonical_dumps_def)
    have "validate_transition_replay sha ?k (tr_state_version row + 1) q db' = Inr ()"
      unfolding validate_transition_replay_def
      using n0 two e(2-4) to obp pr ob s cp pl by simp
    with two n0 show thesis by (intro that) (simp_all add: rec)
  qed
qed

lemma first_request_outcome:
  assumes "transition_with_execution_event sha decode_event k q key build nid now db = Inr (r, db')"
    and "fact_at k key db = None"
  obtains row rec db0 where "trade_at k db = Some row" and "trade_readable sha row"
    and "validate_transition_arguments k (tt_event_type q) = Inr ()" and "validate_fact_arguments key None = Inr ()"
    and "transition_locked sha (trade_record.truncate row) q now db = Inr (rec, db0)"
    and "append_execution_event_locked sha decode_event rec key (tr_state_version rec) build nid now db0 = Inr (mr_event r, db')"
    and "mr_trade r = rec"
  using assms
  by (auto simp: transition_with_execution_event_def rbind_eq_Inr case_option_eq_Inr trade_of_row_Inr)

section \<open>Properties\<close>

text \<open>
  C22. A lifecycle transition with its public fact is idempotent: once it committed, then after any further
  operations of the repository, the dispatcher and the recovery tools (a crash and restart included)
  repeating the request is answered with the stored event and the trade as it is by then, and changes
  nothing. (Trades and requests carry documents JSONB keeps, requests do not call themselves
  \<open>CREATED\<close>, and the external decoder reads the event back from its own dump.)
\<close>

theorem transition_retry_replays:
  assumes "list_all replayable_op before" and "db = fold (trade_step sha decode profiles decode_event) before empty_facts"
    and "fact_at k key db = None" and "replayable q"
    and "transition_with_execution_event sha decode_event k q key build nid now db = Inr (r, db1)"
    and "json_wf (xe_dump (mr_event r))" and "jsonb_exact (xe_dump (mr_event r))" and "is_object (xe_dump (mr_event r))"
    and "decode_event (sorted_json (xe_dump (mr_event r))) = Inr (mr_event r)"
    and "db2 = fold (trade_step sha decode profiles decode_event) after db1"
  shows "\<exists>t. get_trade sha k db2 = Inr (Some t) \<and>
    transition_with_execution_event sha decode_event k q key build nid2 now2 db2
      = Inr (\<lparr>mr_trade = t, mr_event = mr_event r\<rparr>, db2)"
proof -
  let ?ev = "mr_event r"
  let ?text = "canonical_json (xe_dump ?ev)"
  have i: "fact_inv db" "all_recorded db"
    using recordings.run_inv [of before empty_facts sha decode profiles decode_event] assms(1,2) empty_facts_ok(1)
    by (simp_all add: all_recorded_def empty_facts_def)
  obtain row rec db0 where h: "trade_at k db = Some row" "trade_readable sha row"
      "validate_transition_arguments k (tt_event_type q) = Inr ()" "validate_fact_arguments key None = Inr ()"
      "transition_locked sha (trade_record.truncate row) q now db = Inr (rec, db0)"
      "append_execution_event_locked sha decode_event rec key (tr_state_version rec) build nid now db0 = Inr (?ev, db1)"
    using assms(5,3) by (rule first_request_outcome)
  have row: "row \<in> set (td_trades db)" "tw_trade_id row = k" using trade_at_Some [OF h(1)] by simp_all
  have ti: "trade_inv db" using i(1) by (simp add: fact_inv_def)
  obtain prev e where own: "take 2 (drop (nat (tr_state_version row)) (trade_events k db0)) = [prev, e]"
      "validate_transition_replay sha k (tr_state_version row + 1) q db0 = Inr ()"
      "tr_state_version rec = tr_state_version row + 1" "tr_state rec = tt_target q" "tw_trade_id rec = k"
      "tr_terms rec = tr_terms row"
    using ti i(2) row(1) assms(4) h(5) unfolding row(2) [symmetric] by (rule own_request_replays)
  obtain row1 where row1: "row1 \<in> set (td_trades db0)" "rec = trade_record.truncate row1"
    using transition_row [OF ti row(1) h(5)] by blast
  have ch: "fact_change sha (\<lambda>_. True) (\<lambda>_. True) True db db0" using row(1) h(5) by (auto intro: moved)
  have i0: "fact_inv db0" using ch i(1) by (rule fact_change_inv)
  have le0: "fact_le db db0" using fact_change_core [OF ch ti] i(1) by (simp add: fact_inv_def)
  have none: "fact_at k key db0 = None" using frame_transition [OF ti row(1) h(5)] assms(3) by (simp add: fact_at_def)
  have tx: "fresh_fact sha (trade_record.truncate row1) key (tr_state_version rec) build nid now db0 = Inr (?ev, db1)"
    using h(6) none own(5) by (simp add: append_execution_event_locked_def row1(2))
  have u0: "trades_unique (td_trades db0)" and ob0: "outbox_ok (fd_outbox db0)"
    using i0 by (simp_all add: fact_inv_def trade_inv_def)
  obtain doc f dbm where f: "build (tw_next_execution_event_seq row1) = Inr ?ev"
      "xe_event_seq ?ev = tw_next_execution_event_seq row1"
      "validate_execution_event ?ev (trade_record.truncate row1) True = Inr ()"
      "text_to_jsonb ?text = Inr doc" "json_finite (xe_dump ?ev)"
      "f = \<lparr>pf_trade_id = tw_trade_id row1, pf_fact_key = key, pf_event_seq = tw_next_execution_event_seq row1,
         pf_state_version = tr_state_version rec, pf_event_id = xe_event_id ?ev, pf_payload = doc,
         pf_payload_sha256 = sha ?text, pf_created_at = now\<rparr>"
      "dbm = db0\<lparr>fd_facts := insert_row f (fd_facts db0),
         td_trades := update_where (\<lambda>r. tw_trade_id r = tw_trade_id row1) (next_sequence now) (td_trades db0)\<rparr>"
      "publish_event ?ev ?text (sha ?text) nid now dbm = Inr db1"
    using tx u0 row1(1) by (rule fresh_fact_outcome)
  have k1: "tw_trade_id row1 = k" using own(5) row1(2) by simp
  obtain audit outbox b d0 where p: "db1 = dbm\<lparr>fd_audit := audit, fd_outbox := outbox\<rparr>"
      "enqueue_outbox nid (km_message_id (xe_message ?ev)) trade_execution_event_topic ?text (sha ?text)
         execution_outbox_producer now (fd_outbox dbm) = Inr (b, outbox)"
      "\<exists>a\<in>set audit. audit_key a = (km_produced_at (xe_message ?ev), km_message_id (xe_message ?ev))"
      "text_to_jsonb (km_dump_json (xe_message ?ev)) = Inr d0"
    using publish_event_outcome [OF f(8)] by metis
  have d: "durable_request sha k ?ev f prev e db1"
  proof -
    obtain w where "w \<in> set outbox" "ob_message_id w = km_message_id (xe_message ?ev)" "ob_topic w = trade_execution_event_topic"
        "ob_producer w = execution_outbox_producer" "canonical_json (ob_payload w) = ?text" "ob_payload_sha256 w = Some (sha ?text)"
      using p(2) assms(6,7) by (rule enqueued_row)
    then show ?thesis
      using own(1,3) p(3) by (auto simp: durable_request_def p(1) f(6,7) trade_events_def)
  qed
  have ch1: "fact_change sha (\<lambda>_. True) (\<lambda>_. True) True db0 db1" using row1(1) tx by (rule told)
  then have i1: "fact_inv db1" using i0 by (rule fact_change_inv)
  have le1: "fact_le db0 db1" using fact_change_core [OF ch1] i0 by (simp add: fact_inv_def)
  have i2: "fact_inv db2" and le2: "fact_le db1 db2"
    unfolding assms(10) using i1 by (rule facts.reach_inv, rule facts.run_le)
  have d2: "durable_request sha k ?ev f prev e db2" using d le2 by (rule durable_request_le)
  have "fact_le db db2" using le0 le1 le2 by (blast intro: fact_le_trans)
  then have "table_le trade_le (td_trades db) (td_trades db2)" by (simp add: fact_le_def trades_le_def)
  from table_leD [OF this row(1)] obtain row2 where row2: "row2 \<in> set (td_trades db2)" "trade_le row row2" by blast
  then have t2: "tr_terms row2 = tr_terms row" "tw_trade_id row2 = k" "trade_readable sha row2"
    using row(2) h(2) by (simp_all add: trade_le_def tw_trade_id_def trade_readable_def)
  have at2: "trade_at k db2 = Some row2"
    using trade_at_unique [of db2 row2] i2 row2(1) t2(2) by (simp add: fact_inv_def trade_inv_def)
  have "store_json (xe_dump ?ev) = Inr doc" using f(4,5) by (simp add: store_json_def canonical_dumps_def)
  then have doc: "doc = sorted_json (xe_dump ?ev)"
    using store_document [of "xe_dump ?ev" doc] assms(6-8) by (simp add: document_ok_def jsonb_exact_kept)
  have dec: "execution_event_of sha decode_event (pf_payload f) (pf_payload_sha256 f) = Inr ?ev"
    using assms(8,9) f(5)
    by (simp add: execution_event_of_def f(6) doc trade_object_def canonical_payload_def canonical_dumps_def)
  have replay: "validate_transition_replay sha k (pf_state_version f) q db2 = Inr ()"
    using own(1-3) d2 validate_replay_cong [of "tr_state_version row + 1" k db2 db0 sha q]
    by (simp add: durable_request_def f(6))
  have v: "validate_execution_event ?ev (trade_record.truncate row2) False = Inr ()" "xe_lifecycle_state ?ev = tt_target q"
    using f(3) own(4,6) row1(2) t2(1) by (auto simp: validate_execution_event_def Let_def split: if_splits)
  have hex: "sha256_hex (sha ?text)" using p(2) by (auto simp: enqueue_outbox_def rbind_eq_Inr split: if_splits)
  have "transition_with_execution_event sha decode_event k q key build nid2 now2 db2
      = Inr (\<lparr>mr_trade = trade_record.truncate row2, mr_event = ?ev\<rparr>, db2)"
    by (rule durable_request_answer [OF d2 i2 at2 t2(3) h(3,4) _ _ _ dec v(2) replay _ _ v(1) p(4) f(5,4) hex])
      (use f(1,2) k1 in \<open>simp_all add: f(6)\<close>)
  moreover have "get_trade sha k db2 = Inr (Some (trade_record.truncate row2))"
    using at2 trade_of_row_Inr [of sha row2, THEN iffD2, OF conjI [OF t2(3) refl]] by (simp add: get_trade_def)
  ultimately show ?thesis by blast
qed

text \<open>A stand-in hash that tells the text of one transition from every other text.\<close>

definition retry_payload :: json where
  "retry_payload = transition_payload (JObj []) float_zero None no_ids"

definition retry_text :: string where
  "retry_text = canonical_json (trade_event_document (hex_id (CHR ''a'')) (Some RECEIVED) ENTRY_PENDING ''MOVED''
     retry_payload (Some (hex_id (CHR ''0''))))"

definition retry_sha :: "string \<Rightarrow> string" where
  "retry_sha s = hex_id (if s = retry_text then CHR ''1'' else CHR ''0'')"

lemma retry_sha_hex: "sha256_hex (retry_sha s)"
proof -
  have "sha256_hex (hex_id (CHR ''1''))" "sha256_hex (hex_id (CHR ''0''))" by code_simp+
  then show ?thesis by (simp add: retry_sha_def)
qed

lemma retry_payload_ok: "json_wf retry_payload" "json_finite retry_payload" "json_no_nul retry_payload"
  by (simp_all add: retry_payload_def transition_payload_def no_ids_def json_text_def float_hex_no_nul)

lemma retry_head: "sample_head retry_sha = hex_id (CHR ''0'')"
proof -
  have wf: "json_wf (new_trade_payload sample_trade)"
    by (simp add: new_trade_payload_def sample_trade_def instant_text_def)
  have "canonical_json (trade_event_document k None RECEIVED ty (JObj [(''trade'', new_trade_payload sample_trade)]) p)
      \<noteq> canonical_json (trade_event_document k (Some RECEIVED) ENTRY_PENDING ty2 retry_payload p2)" for k ty ty2 p p2
  proof
    assume h: "canonical_json (trade_event_document k None RECEIVED ty (JObj [(''trade'', new_trade_payload sample_trade)]) p)
      = canonical_json (trade_event_document k (Some RECEIVED) ENTRY_PENDING ty2 retry_payload p2)"
    let ?a = "trade_event_document k None RECEIVED ty (JObj [(''trade'', new_trade_payload sample_trade)]) p"
    let ?b = "trade_event_document k (Some RECEIVED) ENTRY_PENDING ty2 retry_payload p2"
    have "sorted_json ?a = sorted_json ?b" using h wf retry_payload_ok(1) by (simp add: canonical_json_inj)
    then have "json_get ''from_state'' (sorted_json ?a) = json_get ''from_state'' (sorted_json ?b)" by simp
    then show False
      unfolding trade_event_document_def
      by (subst (asm) (1 2) json_get_sorted) (simp_all add: json_get_def json_text_def)
  qed
  then show ?thesis by (simp add: sample_head_def retry_sha_def retry_text_def)
qed

abbreviation retry_row :: trade_row where
  "retry_row \<equiv> sample_row retry_sha (sample_head retry_sha)"

lemma retry_exposure:
  "next_exposure (trade_record.truncate retry_row) (sample_move ENTRY_PENDING None None) = Inr (float_zero, None, None, no_ids)"
proof -
  have "merge_ids no_ids no_ids = Inr no_ids" by (simp add: merge_ids_def merge_identifier_def no_ids_def)
  moreover have "float_le float_zero (nt_quantity sample_trade)" by (simp add: sample_trade_def sample_floats)
  moreover have "is_finite float_zero" by (simp add: is_finite_def float_zero_def)
  ultimately show ?thesis
    by (simp add: next_exposure_def sample_move_def validate_trade_transition_def allowed_transitions_def
        sample_floats(9) float_less_def supplied_fill_def first_fill_def exposure_states_def timeout_of_def Let_def)
qed

lemma retry_moved:
  assumes db: "td_trades db = [retry_row]" "map te_sha256 (td_events db) = [sample_head retry_sha]"
  obtains row db0 where "transition_locked retry_sha (trade_record.truncate retry_row) (sample_move ENTRY_PENDING None None) 6 db
      = Inr (trade_record.truncate row, db0)"
    and "td_trades db0 = [row]" and "tw_trade_id row = hex_id (CHR ''a'')" and "tr_terms row = sample_trade"
    and "tw_next_execution_event_seq row = 1" and "tr_state_version row = 1" and "tr_state row = ENTRY_PENDING"
proof -
  let ?q = "sample_move ENTRY_PENDING None None"
  let ?row = "moved_trade ENTRY_PENDING float_zero None None no_ids (hex_id (CHR ''1'')) 6 retry_row"
  have q: "event_payload_of ?q = JObj []" "tt_target ?q = ENTRY_PENDING" "tt_event_type ?q = ''MOVED''"
    by (simp_all add: event_payload_of_def sample_move_def)
  have h: "trade_event_sha retry_sha (hex_id (CHR ''a'')) (Some RECEIVED) ENTRY_PENDING ''MOVED'' retry_payload
      (Some (sample_head retry_sha)) = Inr (hex_id (CHR ''1''))"
    using retry_payload_ok(2) by (simp add: trade_event_sha_Inr retry_head) (simp add: retry_text_def retry_sha_def)
  have hex: "sha256_hex (hex_id (CHR ''1''))" "sha256_hex (hex_id (CHR ''0''))" "hex_id (CHR ''1'') \<noteq> hex_id (CHR ''0'')"
    by code_simp+
  have ids: "coalesce_ids no_ids no_ids = no_ids" by (simp add: coalesce_ids_def coalesce_def no_ids_def)
  have hx: "sha256_hex (sample_head retry_sha)" using hex(2) by (simp add: retry_head)
  note ok = sample_row_ok [where sha = retry_sha, OF retry_sha_hex hx]
  have chk: "trade_check ?row" using ok(1) hex(1) by (simp add: trade_check_def)
  have uni: "trades_unique [?row]" by (simp add: trades_unique_def unique_by_def unique_client_order_def)
  obtain doc where doc: "store_json retry_payload = Inr doc" using retry_payload_ok by (simp add: store_json_Inr)
  have rd: "trade_of_row retry_sha ?row = Inr (trade_record.truncate ?row)"
    using ok(2) by (simp add: trade_of_row_Inr trade_readable_def)
  have "sample_head retry_sha \<in> set (map te_sha256 (td_events db))" "set (map te_sha256 (td_events db)) = {hex_id (CHR ''0'')}"
    unfolding db(2) by (simp_all add: retry_head)
  then have new: "hex_id (CHR ''1'') \<notin> set (map te_sha256 (td_events db))" using hex(3) by (simp del: set_map)
  obtain db0 where app: "append_trade_event (hex_id (CHR ''a'')) (Some RECEIVED) ENTRY_PENDING ''MOVED'' retry_payload
      (Some (sample_head retry_sha)) (hex_id (CHR ''1'')) (db\<lparr>td_trades := [?row]\<rparr>) = Inr db0" and db0: "td_trades db0 = [?row]"
    using new hex(1,2) by (simp add: append_trade_event_def doc trade_event_check_def retry_head)
  have "transition_locked retry_sha (trade_record.truncate retry_row) ?q 6 db = Inr (trade_record.truncate ?row, db0)"
    unfolding transition_locked_def retry_exposure rbind_Inr prod.case Let_def q truncate_trade sample_row_simps
      retry_payload_def [symmetric] h db(1)
    by (simp add: int8_def update_where_def chk uni app rd)
  then show thesis by (rule that) (simp_all add: db0)
qed

theorem transition_retry_replays_witness:
  "\<exists>r db1 t. let k = hex_id (CHR ''a''); q = sample_move ENTRY_PENDING None None; i = hex_id (CHR ''d'');
       dec = (\<lambda>_. Inr (sample_event ENTRY_PENDING i 1)); build = (\<lambda>n. Inr (sample_event ENTRY_PENDING i n));
       step = trade_step retry_sha (\<lambda>_. Inr sample_decision) [''PROD''] dec;
       db2 = fold step [BusOp (ClaimOp ''w'' execution_outbox_producer 10 60 ''uuid'' 7), ReconcileOp k ''seen'' 9] db1
     in transition_with_execution_event retry_sha dec k q ''moved'' build 1 6 (fold step [CreateOp sample_trade 5] empty_facts)
          = Inr (r, db1) \<and>
        transition_with_execution_event retry_sha dec k q ''moved'' build 2 10 db2
          = Inr (\<lparr>mr_trade = t, mr_event = mr_event r\<rparr>, db2)"
proof -
  let ?i = "hex_id (CHR ''d'')"
  let ?dec = "\<lambda>_. Inr (sample_event ENTRY_PENDING ?i 1) :: execution_event res"
  let ?build = "\<lambda>n. Inr (sample_event ENTRY_PENDING ?i n) :: execution_event res"
  let ?step = "trade_step retry_sha (\<lambda>_. Inr sample_decision) [''PROD''] ?dec"
  let ?db = "fold ?step [CreateOp sample_trade 5] empty_facts"
  let ?q = "sample_move ENTRY_PENDING None None"
  let ?k = "hex_id (CHR ''a'')"
  obtain doc where c: "create_locked retry_sha sample_trade 5 empty_facts = Inr (trade_record.truncate retry_row,
      empty_facts\<lparr>td_trades := [retry_row],
        td_events := [\<lparr>te_trade_id = ?k, te_from_state = None, te_to_state = RECEIVED,
          te_event_type = ''CREATED'', te_payload = doc, te_previous = None, te_sha256 = sample_head retry_sha\<rparr>]\<rparr>)"
    using retry_sha_hex by (rule sample_created)
  then have db: "?db = empty_facts\<lparr>td_trades := [retry_row],
        td_events := [\<lparr>te_trade_id = ?k, te_from_state = None, te_to_state = RECEIVED,
          te_event_type = ''CREATED'', te_payload = doc, te_previous = None, te_sha256 = sample_head retry_sha\<rparr>]\<rparr>"
    by (simp add: create_trade_def sample_valid)
  then have dbs: "td_trades ?db = [retry_row]" "map te_sha256 (td_events ?db) = [sample_head retry_sha]"
      "fd_facts ?db = []" "fd_audit ?db = []" "fd_outbox ?db = []"
    by (simp_all add: empty_facts_def)
  obtain row db0 where m: "transition_locked retry_sha (trade_record.truncate retry_row) ?q 6 ?db = Inr (trade_record.truncate row, db0)"
      "td_trades db0 = [row]" "tw_trade_id row = ?k" "tr_terms row = sample_trade" "tw_next_execution_event_seq row = 1"
      "tr_state_version row = 1" "tr_state row = ENTRY_PENDING"
    using dbs(1,2) by (rule retry_moved)
  have inv: "trade_inv ?db" using facts.reach_inv [OF empty_facts_ok(1)] by (simp only: fact_inv_def)
  have fr: "fd_facts db0 = []" "fd_audit db0 = []" "fd_outbox db0 = []"
    using frame_transition [OF inv _ m(1)] dbs by (simp_all del: fold.simps trade_step.simps)
  obtain db1 where f: "fresh_fact retry_sha (trade_record.truncate row) ''moved'' (tr_state_version row)
      (\<lambda>n. Inr (sample_event (tr_state row) ?i n)) 1 6 db0 = Inr (sample_event (tr_state row) ?i 1, db1)"
    by (rule sample_fact [where sha = retry_sha and db = db0 and row = row and fact_key = "''moved''" and i = ?i and now = 6])
      (simp_all add: retry_sha_hex m fr sample_texts)
  have hx: "sha256_hex (sample_head retry_sha)" using retry_sha_hex by (simp add: sample_head_def)
  have tr: "trade_of_row retry_sha retry_row = Inr (trade_record.truncate retry_row)"
    using sample_row_ok(2) [where sha = retry_sha, OF retry_sha_hex hx] by (simp add: trade_of_row_Inr)
  have args: "validate_transition_arguments ?k (tt_event_type ?q) = Inr ()" "validate_fact_arguments ''moved'' None = Inr ()"
    using sample_texts(6) by (simp add: validate_transition_arguments_def sample_move_def blank_iff py_space_def)
      (simp add: validate_fact_arguments_def strip_def lstrip_def py_space_def Let_def)
  have at: "trade_at ?k ?db = Some retry_row" "fact_at ?k ''moved'' ?db = None" "fact_at ?k ''moved'' db0 = None"
    unfolding trade_at_def fact_at_def dbs fr by simp_all
  have first: "transition_with_execution_event retry_sha ?dec ?k ?q ''moved'' ?build 1 6 ?db
      = Inr (\<lparr>mr_trade = trade_record.truncate row, mr_event = sample_event ENTRY_PENDING ?i 1\<rparr>, db1)"
    unfolding transition_with_execution_event_def args at tr rbind_Inr option.case
    using m(1) f at(3) by (simp add: append_execution_event_locked_def m(3,6,7) del: fold.simps)
  have doc: "document_ok (JObj [(''approved'', JBool True)])" by code_simp
  have b: "list_all replayable_op [CreateOp sample_trade 5]" using doc by (simp add: sample_trade_def)
  have q: "replayable ?q" by (simp add: replayable_def sample_move_def transition_document_ok_def)
  let ?dump = "JObj [(''event_seq'', JInt 1)]"
  have d: "json_wf ?dump" "jsonb_exact ?dump" "is_object ?dump" by code_simp+
  have "mr_event \<lparr>mr_trade = trade_record.truncate row, mr_event = sample_event ENTRY_PENDING ?i 1\<rparr> = sample_event ENTRY_PENDING ?i 1"
    and dump: "xe_dump (sample_event ENTRY_PENDING ?i 1) = ?dump"
    by (simp_all add: sample_event_def)
  note ev = this(1)
  from transition_retry_replays [OF b refl at(2) q first, unfolded ev dump, OF d refl refl,
      of "[BusOp (ClaimOp ''w'' execution_outbox_producer 10 60 ''uuid'' 7), ReconcileOp ?k ''seen'' 9]" 2 10]
  obtain t where "transition_with_execution_event retry_sha ?dec ?k ?q ''moved'' ?build 2 10
      (fold ?step [BusOp (ClaimOp ''w'' execution_outbox_producer 10 60 ''uuid'' 7), ReconcileOp ?k ''seen'' 9] db1)
    = Inr (\<lparr>mr_trade = t, mr_event = sample_event ENTRY_PENDING ?i 1\<rparr>,
       fold ?step [BusOp (ClaimOp ''w'' execution_outbox_producer 10 60 ''uuid'' 7), ReconcileOp ?k ''seen'' 9] db1)"
    by blast
  with first ev show ?thesis unfolding Let_def by (metis (no_types, lifting))
qed

end
