(* ===== verification/AccountState.thy ===== *)
theory AccountState
  imports SqlTable PyFloat IsoTime
begin

text \<open>
  The account state of \<open>kairos_persistence/trade_lifecycle.py\<close> over \<open>execution_recovery_state\<close> and
  \<open>account_equity_state\<close> of migration 006: the recovery barrier that blocks entries until the latest
  startup reconciliation has completed, and the daily equity summary.

  A scope is \<open>(environment, account_id, exchange)\<close>. Every operation is one SQL statement, so the
  operations of concurrent callers are applied one after the other.
\<close>

subsection \<open>Data\<close>

type_synonym account_scope = "string \<times> string \<times> string"

record recovery_row =
  rv_scope :: account_scope
  rv_entries_blocked :: bool
  rv_recovery_epoch :: int
  rv_started_at :: timestamp
  rv_completed_at :: "timestamp option"
  rv_detail :: string

record equity_row =
  eq_scope :: account_scope
  eq_trading_day :: date
  eq_day_start_equity_usd :: pyfloat
  eq_peak_equity_usd :: pyfloat
  eq_last_equity_usd :: pyfloat
  eq_first_captured_at :: timestamp
  eq_last_captured_at :: timestamp
  eq_reconciliation_seq :: int
  eq_updated_at :: timestamp

record account_db =
  ac_recovery :: "recovery_row list"
  ac_equity :: "equity_row list"

definition validate_scope :: "account_scope \<Rightarrow> unit res" where
  "validate_scope sc = (case sc of (environment, account_id, exchange) \<Rightarrow>
     if blank environment then Inl (ValueError ''environment must not be empty'')
     else if blank account_id then Inl (ValueError ''account_id must not be empty'')
     else if blank exchange then Inl (ValueError ''exchange must not be empty'')
     else Inr ())"

subsection \<open>The recovery barrier\<close>

definition barrier_detail :: string where
  "barrier_detail = ''authoritative startup reconciliation required''"

definition recovery_at :: "account_scope \<Rightarrow> account_db \<Rightarrow> recovery_row option" where
  "recovery_at sc db = select_one (\<lambda>r. rv_scope r = sc) (ac_recovery db)"

definition raised_barrier :: "timestamp \<Rightarrow> recovery_row \<Rightarrow> recovery_row" where
  "raised_barrier now r = r\<lparr>rv_entries_blocked := True, rv_recovery_epoch := rv_recovery_epoch r + 1,
     rv_started_at := now, rv_completed_at := None, rv_detail := barrier_detail\<rparr>"

definition begin_recovery :: "account_scope \<Rightarrow> timestamp \<Rightarrow> account_db \<Rightarrow> (recovery_row \<times> account_db) res" where
  "begin_recovery sc now db = rbind (validate_scope sc) (\<lambda>_.
     case recovery_at sc db of
       None \<Rightarrow>
         let row = \<lparr>rv_scope = sc, rv_entries_blocked = True, rv_recovery_epoch = 1, rv_started_at = now,
                    rv_completed_at = None, rv_detail = barrier_detail\<rparr>
         in Inr (row, db\<lparr>ac_recovery := insert_row row (ac_recovery db)\<rparr>)
     | Some r \<Rightarrow>
         if \<not> int8 (rv_recovery_epoch r + 1) then Inl (DataError ''bigint out of range'')
         else Inr (raised_barrier now r,
                db\<lparr>ac_recovery := update_where (\<lambda>r. rv_scope r = sc) (raised_barrier now) (ac_recovery db)\<rparr>))"

definition lowered_barrier :: "string \<Rightarrow> timestamp \<Rightarrow> recovery_row \<Rightarrow> recovery_row" where
  "lowered_barrier detail now r =
     r\<lparr>rv_entries_blocked := False, rv_completed_at := Some now, rv_detail := take 4000 detail\<rparr>"

definition complete_recovery ::
  "account_scope \<Rightarrow> int \<Rightarrow> string \<Rightarrow> timestamp \<Rightarrow> account_db \<Rightarrow> (recovery_row \<times> account_db) res" where
  "complete_recovery sc expected_epoch detail now db = rbind (validate_scope sc) (\<lambda>_.
     if blank detail then Inl (ValueError ''recovery detail must not be empty'')
     else if expected_epoch \<le> 0 then Inl (ValueError ''expected_epoch must be positive'')
     else if \<not> int8 expected_epoch then Inl (DataError ''value out of int64 range'')
     else let current = (\<lambda>r. rv_scope r = sc \<and> rv_recovery_epoch r = expected_epoch)
          in case select_one current (ac_recovery db) of
               None \<Rightarrow> Inl (RuntimeError ''recovery epoch is stale or recovery did not begin'')
             | Some r \<Rightarrow> Inr (lowered_barrier detail now r,
                 db\<lparr>ac_recovery := update_where current (lowered_barrier detail now) (ac_recovery db)\<rparr>))"

definition recovery_state :: "account_scope \<Rightarrow> account_db \<Rightarrow> recovery_row option res" where
  "recovery_state sc db = rbind (validate_scope sc) (\<lambda>_. Inr (recovery_at sc db))"

definition entries_allowed :: "account_scope \<Rightarrow> account_db \<Rightarrow> bool res" where
  "entries_allowed sc db = rbind (recovery_state sc db) (\<lambda>state.
     Inr (case state of None \<Rightarrow> False | Some r \<Rightarrow> \<not> rv_entries_blocked r))"

subsection \<open>The equity summary\<close>

definition positive_equity :: "pyfloat \<Rightarrow> bool" where
  "positive_equity x \<longleftrightarrow> is_finite x \<and> float_less float_zero x"

definition equity_check :: "equity_row \<Rightarrow> bool" where
  "equity_check r \<longleftrightarrow> positive_equity (eq_day_start_equity_usd r) \<and> positive_equity (eq_peak_equity_usd r) \<and>
     positive_equity (eq_last_equity_usd r) \<and> 0 < eq_reconciliation_seq r \<and>
     eq_first_captured_at r \<le> eq_last_captured_at r \<and>
     float_le (eq_day_start_equity_usd r) (eq_peak_equity_usd r) \<and>
     float_le (eq_last_equity_usd r) (eq_peak_equity_usd r)"

definition equity_at :: "account_scope \<Rightarrow> date \<Rightarrow> account_db \<Rightarrow> equity_row option" where
  "equity_at sc day db = select_one (\<lambda>r. eq_scope r = sc \<and> eq_trading_day r = day) (ac_equity db)"

text \<open>\<open>GREATEST\<close> of two columns.\<close>

definition float_greatest :: "pyfloat \<Rightarrow> pyfloat \<Rightarrow> pyfloat" where
  "float_greatest a b = (if float_less a b then b else a)"

definition first_equity :: "account_scope \<Rightarrow> date \<Rightarrow> timestamp \<Rightarrow> pyfloat \<Rightarrow> timestamp \<Rightarrow> equity_row" where
  "first_equity sc day captured equity now =
     \<lparr>eq_scope = sc, eq_trading_day = day, eq_day_start_equity_usd = equity, eq_peak_equity_usd = equity,
      eq_last_equity_usd = equity, eq_first_captured_at = captured, eq_last_captured_at = captured,
      eq_reconciliation_seq = 1, eq_updated_at = now\<rparr>"

definition merged_equity :: "timestamp \<Rightarrow> pyfloat \<Rightarrow> timestamp \<Rightarrow> equity_row \<Rightarrow> equity_row" where
  "merged_equity captured equity now r =
     r\<lparr>eq_day_start_equity_usd := (if captured < eq_first_captured_at r then equity else eq_day_start_equity_usd r),
       eq_peak_equity_usd := float_greatest (eq_peak_equity_usd r) equity,
       eq_last_equity_usd := (if eq_last_captured_at r \<le> captured then equity else eq_last_equity_usd r),
       eq_first_captured_at := min (eq_first_captured_at r) captured,
       eq_last_captured_at := max (eq_last_captured_at r) captured,
       eq_reconciliation_seq := eq_reconciliation_seq r + 1, eq_updated_at := now\<rparr>"

definition store_equity ::
  "account_scope \<Rightarrow> timestamp \<Rightarrow> pyfloat \<Rightarrow> timestamp \<Rightarrow> account_db \<Rightarrow> (equity_row \<times> account_db) res" where
  "store_equity sc captured equity now db =
     (let day = utc_date captured; same = (\<lambda>r. eq_scope r = sc \<and> eq_trading_day r = day)
      in case equity_at sc day db of
           None \<Rightarrow>
             let row = first_equity sc day captured equity now
             in if \<not> equity_check row then Inl (IntegrityError ''account_equity_state'')
                else Inr (row, db\<lparr>ac_equity := insert_row row (ac_equity db)\<rparr>)
         | Some r \<Rightarrow>
             if \<not> int8 (eq_reconciliation_seq r + 1) then Inl (DataError ''bigint out of range'')
             else if \<not> equity_check (merged_equity captured equity now r)
             then Inl (IntegrityError ''account_equity_state'')
             else Inr (merged_equity captured equity now r,
                    db\<lparr>ac_equity := update_where same (merged_equity captured equity now) (ac_equity db)\<rparr>))"

definition record_equity ::
  "account_scope \<Rightarrow> pydatetime \<Rightarrow> pyfloat \<Rightarrow> timestamp \<Rightarrow> account_db \<Rightarrow> (equity_row \<times> account_db) res" where
  "record_equity sc captured_at equity now db = rbind (validate_scope sc) (\<lambda>_.
     case captured_at of
       Naive t \<Rightarrow> Inl (ValueError ''captured_at must be timezone-aware'')
     | Aware t \<Rightarrow>
         if \<not> positive_equity equity then Inl (ValueError ''equity_usd must be finite and positive'')
         else if \<not> datetime_range t then Inl (OverflowError ''date value out of range'')
         else store_equity sc t equity now db)"

subsection \<open>Runs\<close>

datatype account_op =
    BeginOp account_scope timestamp
  | CompleteOp account_scope int string timestamp
  | EquityOp account_scope pydatetime pyfloat timestamp

fun account_step :: "account_op \<Rightarrow> account_db \<Rightarrow> account_db" where
  "account_step (BeginOp sc now) db = settle db (begin_recovery sc now db)"
| "account_step (CompleteOp sc epoch detail now) db = settle db (complete_recovery sc epoch detail now db)"
| "account_step (EquityOp sc at equity now) db = settle db (record_equity sc at equity now db)"

definition account_ok :: "account_db \<Rightarrow> bool" where
  "account_ok db \<longleftrightarrow> unique_by rv_scope (ac_recovery db) \<and>
     unique_by (\<lambda>r. (eq_scope r, eq_trading_day r)) (ac_equity db) \<and> (\<forall>r\<in>set (ac_equity db). equity_check r) \<and>
     (\<forall>r\<in>set (ac_recovery db). 0 < rv_recovery_epoch r)"

definition recovery_le :: "recovery_row \<Rightarrow> recovery_row \<Rightarrow> bool" where
  "recovery_le r q \<longleftrightarrow> rv_scope q = rv_scope r \<and> rv_recovery_epoch r \<le> rv_recovery_epoch q \<and>
     (rv_entries_blocked q \<or> rv_entries_blocked r \<or> rv_recovery_epoch q = rv_recovery_epoch r)"

lemma recovery_le_refl: "recovery_le r r"
  by (simp add: recovery_le_def)

subsection \<open>Outcomes\<close>

lemma begin_recovery_outcome:
  assumes "begin_recovery sc now db = Inr (row, db')"
  obtains (fresh) "recovery_at sc db = None" and "rv_scope row = sc" and "rv_recovery_epoch row = 1" and "rv_entries_blocked row"
      and "db' = db\<lparr>ac_recovery := insert_row row (ac_recovery db)\<rparr>"
  | (raised) r where "recovery_at sc db = Some r" and "row = raised_barrier now r"
      and "db' = db\<lparr>ac_recovery := update_where (\<lambda>r. rv_scope r = sc) (raised_barrier now) (ac_recovery db)\<rparr>"
  using assms
  by (auto simp: begin_recovery_def rbind_eq_Inr Let_def split: option.splits if_splits)

lemma complete_recovery_outcome:
  assumes "complete_recovery sc epoch detail now db = Inr (row, db')"
  obtains r where "r \<in> set (ac_recovery db)" and "rv_scope r = sc" and "rv_recovery_epoch r = epoch"
    and "row = lowered_barrier detail now r"
    and "db' = db\<lparr>ac_recovery := update_where (\<lambda>r. rv_scope r = sc \<and> rv_recovery_epoch r = epoch)
           (lowered_barrier detail now) (ac_recovery db)\<rparr>"
  using assms
  by (auto simp: complete_recovery_def rbind_eq_Inr Let_def split: option.splits if_splits dest: select_one_SomeD)

lemma barrier_simps [simp]:
  "rv_scope (raised_barrier now r) = rv_scope r" "rv_recovery_epoch (raised_barrier now r) = rv_recovery_epoch r + 1"
  "rv_entries_blocked (raised_barrier now r)"
  "rv_scope (lowered_barrier detail now r) = rv_scope r"
  "rv_recovery_epoch (lowered_barrier detail now r) = rv_recovery_epoch r"
  "\<not> rv_entries_blocked (lowered_barrier detail now r)"
  by (simp_all add: raised_barrier_def lowered_barrier_def)

subsection \<open>The invariant\<close>

lemma begin_ok:
  assumes "account_ok db" and "begin_recovery sc now db = Inr (row, db')"
  shows "account_ok db'"
  using assms(2)
proof (cases rule: begin_recovery_outcome)
  case fresh
  with assms(1) show ?thesis by (auto simp: account_ok_def recovery_at_def select_one_None_iff)
next
  case (raised r)
  then show ?thesis
    using assms(1) by (auto simp: account_ok_def set_update_where unique_by_update) (metis less_imp_le)
qed

lemma complete_ok:
  assumes "account_ok db" and "complete_recovery sc epoch detail now db = Inr (row, db')"
  shows "account_ok db'"
  using assms(2)
  by (rule complete_recovery_outcome) (use assms(1) in \<open>auto simp: account_ok_def set_update_where unique_by_update\<close>)

lemma float_greatest_upper:
  assumes "is_finite a" and "is_finite b"
  shows "float_le a (float_greatest a b)" and "float_le b (float_greatest a b)" and "is_finite (float_greatest a b)"
    and "float_greatest a b \<in> {a, b}"
  using assms by (auto simp: float_greatest_def float_le_finite float_less_finite)

lemma float_le_trans: "is_finite a \<Longrightarrow> is_finite b \<Longrightarrow> is_finite c \<Longrightarrow> float_le a b \<Longrightarrow> float_le b c \<Longrightarrow> float_le a c"
  by (simp add: float_le_finite)

lemma merged_equity_check:
  assumes "equity_check r" and "positive_equity x"
  shows "equity_check (merged_equity t x now r)"
proof -
  let ?g = "float_greatest (eq_peak_equity_usd r) x"
  have f: "is_finite (eq_peak_equity_usd r)" "is_finite x" "is_finite (eq_day_start_equity_usd r)" "is_finite (eq_last_equity_usd r)"
    using assms by (auto simp: equity_check_def positive_equity_def)
  note g = float_greatest_upper [OF f(1,2)]
  have "float_le (eq_day_start_equity_usd r) ?g" "float_le (eq_last_equity_usd r) ?g"
    using assms(1) f g(1,3) by (auto simp: equity_check_def intro: float_le_trans)
  with assms g show ?thesis by (auto simp: equity_check_def merged_equity_def)
qed

lemma first_equity_check: "positive_equity x \<Longrightarrow> equity_check (first_equity sc day t x now)"
  by (simp add: equity_check_def first_equity_def positive_equity_def float_le_refl)

lemma equity_at_Some: "equity_at sc day db = Some r \<Longrightarrow> r \<in> set (ac_equity db) \<and> eq_scope r = sc \<and> eq_trading_day r = day"
  unfolding equity_at_def by (drule select_one_SomeD) simp

lemma merged_equity_simps [simp]:
  "eq_scope (merged_equity t x now r) = eq_scope r" "eq_trading_day (merged_equity t x now r) = eq_trading_day r"
  by (simp_all add: merged_equity_def)

lemma record_equity_outcome:
  assumes "record_equity sc at x now db = Inr (row, db')"
  obtains t where "at = Aware t" and "positive_equity x"
    and "equity_at sc (utc_date t) db = None \<Longrightarrow> row = first_equity sc (utc_date t) t x now \<and>
           db' = db\<lparr>ac_equity := insert_row row (ac_equity db)\<rparr>"
    and "\<And>r. equity_at sc (utc_date t) db = Some r \<Longrightarrow> row = merged_equity t x now r \<and>
           db' = db\<lparr>ac_equity := update_where (\<lambda>r. eq_scope r = sc \<and> eq_trading_day r = utc_date t)
             (merged_equity t x now) (ac_equity db)\<rparr>"
  using assms
  by (auto simp: record_equity_def store_equity_def rbind_eq_Inr Let_def split: pydatetime.splits if_splits option.splits)

lemma equity_ok:
  assumes "account_ok db" and "record_equity sc at x now db = Inr (row, db')"
  shows "account_ok db'"
  using assms(2)
proof (rule record_equity_outcome)
  fix t assume h: "positive_equity x"
    "equity_at sc (utc_date t) db = None \<Longrightarrow> row = first_equity sc (utc_date t) t x now \<and>
           db' = db\<lparr>ac_equity := insert_row row (ac_equity db)\<rparr>"
    "\<And>r. equity_at sc (utc_date t) db = Some r \<Longrightarrow> row = merged_equity t x now r \<and>
           db' = db\<lparr>ac_equity := update_where (\<lambda>r. eq_scope r = sc \<and> eq_trading_day r = utc_date t)
             (merged_equity t x now) (ac_equity db)\<rparr>"
  show ?thesis
  proof (cases "equity_at sc (utc_date t) db")
    case None
    then have "(sc, utc_date t) \<notin> (\<lambda>r. (eq_scope r, eq_trading_day r)) ` set (ac_equity db)"
      by (auto simp: equity_at_def select_one_None_iff)
    moreover have "eq_scope (first_equity sc (utc_date t) t x now) = sc" "eq_trading_day (first_equity sc (utc_date t) t x now) = utc_date t"
      by (simp_all add: first_equity_def)
    ultimately show ?thesis using h(2) [OF None] assms(1) first_equity_check [OF h(1)] by (auto simp: account_ok_def)
  next
    case (Some r)
    then show ?thesis
      using h(3) [OF Some] assms(1) merged_equity_check [OF _ h(1)]
      by (auto simp: account_ok_def set_update_where unique_by_update)
  qed
qed

lemma account_step_ok: "account_ok db \<Longrightarrow> account_ok (account_step op db)"
  by (cases op; simp only: account_step.simps; rule settle_cases; (assumption | erule begin_ok complete_ok equity_ok))

interpretation account: invariant_system account_step "\<lambda>_. True" account_ok
  by unfold_locales (rule account_step_ok)

subsection \<open>Blocked since an epoch\<close>

definition older_completion :: "account_scope \<Rightarrow> int \<Rightarrow> account_op \<Rightarrow> bool" where
  "older_completion sc e op = (case op of CompleteOp sc' e' detail now \<Rightarrow> sc' \<noteq> sc \<or> e' < e | _ \<Rightarrow> True)"

definition restarts :: "account_scope \<Rightarrow> account_op \<Rightarrow> bool" where
  "restarts sc op = (case op of BeginOp sc' now \<Rightarrow> sc' = sc | _ \<Rightarrow> False)"

definition blocked_since :: "account_scope \<Rightarrow> int \<Rightarrow> account_db \<Rightarrow> bool" where
  "blocked_since sc e db \<longleftrightarrow> account_ok db \<and>
     (\<exists>r. recovery_at sc db = Some r \<and> e \<le> rv_recovery_epoch r \<and> rv_entries_blocked r)"

definition blocked_at :: "account_scope \<Rightarrow> int \<Rightarrow> account_db \<Rightarrow> bool" where
  "blocked_at sc e db \<longleftrightarrow> account_ok db \<and>
     (\<exists>r. recovery_at sc db = Some r \<and> rv_recovery_epoch r = e \<and> rv_entries_blocked r)"

lemma recovery_at_unique: "account_ok db \<Longrightarrow> r \<in> set (ac_recovery db) \<Longrightarrow> recovery_at (rv_scope r) db = Some r"
  unfolding recovery_at_def account_ok_def by (rule select_one_unique) simp_all

lemma recovery_at_scope: "recovery_at sc db = Some r \<Longrightarrow> rv_scope r = sc"
  unfolding recovery_at_def by (drule select_one_SomeD) simp

lemma recovery_at_update:
  assumes "\<And>r. rv_scope (f r) = rv_scope r"
  shows "recovery_at sc (db\<lparr>ac_recovery := update_where P f (ac_recovery db)\<rparr>)
    = map_option (\<lambda>r. if P r then f r else r) (recovery_at sc db)"
  unfolding recovery_at_def by (simp add: select_one_update assms)

lemma recovery_at_begin:
  assumes "begin_recovery sc' now db = Inr (row, db')" and "recovery_at sc db = Some r"
  shows "recovery_at sc db' = Some (if sc' = sc then raised_barrier now r else r)"
  using assms(1)
proof (cases rule: begin_recovery_outcome)
  case fresh
  then show ?thesis using assms(2) by (auto simp: recovery_at_def select_one_insert)
next
  case (raised q)
  then show ?thesis
    using assms(2) recovery_at_scope [OF assms(2)] by (simp add: recovery_at_update)
qed

lemma recovery_at_complete:
  assumes "complete_recovery sc' e detail now db = Inr (row, db')" and "recovery_at sc db = Some r"
  shows "recovery_at sc db' = Some (if sc' = sc \<and> rv_recovery_epoch r = e then lowered_barrier detail now r else r)"
  using assms(1)
proof (rule complete_recovery_outcome)
  assume "db' = db\<lparr>ac_recovery := update_where (\<lambda>r. rv_scope r = sc' \<and> rv_recovery_epoch r = e)
           (lowered_barrier detail now) (ac_recovery db)\<rparr>"
  then show ?thesis
    using assms(2) recovery_at_scope [OF assms(2)] by (simp add: recovery_at_update)
qed

lemma recovery_at_equity: "record_equity sc' at x now db = Inr (row, db') \<Longrightarrow> recovery_at sc db' = recovery_at sc db"
  by (auto simp: record_equity_def store_equity_def rbind_eq_Inr Let_def recovery_at_def
      split: pydatetime.splits if_splits option.splits)

interpretation barrier: invariant_system account_step "older_completion sc e" "blocked_since sc e" for sc e
proof unfold_locales
  fix op db assume g: "older_completion sc e op" and b: "blocked_since sc e db"
  then obtain r where r: "recovery_at sc db = Some r" "e \<le> rv_recovery_epoch r" "rv_entries_blocked r" and ok: "account_ok db"
    by (auto simp: blocked_since_def)
  have "\<exists>q. recovery_at sc (account_step op db) = Some q \<and> e \<le> rv_recovery_epoch q \<and> rv_entries_blocked q"
  proof (cases op)
    case (BeginOp sc' now)
    show ?thesis unfolding BeginOp account_step.simps
      by (rule settle_cases) (use r recovery_at_begin [OF _ r(1)] in auto)
  next
    case (CompleteOp sc' e' detail now)
    show ?thesis unfolding CompleteOp account_step.simps
      by (rule settle_cases) (use r g CompleteOp recovery_at_complete [OF _ r(1)] in \<open>auto simp: older_completion_def\<close>)
  next
    case (EquityOp sc' at x now)
    show ?thesis unfolding EquityOp account_step.simps
      by (rule settle_cases) (use r recovery_at_equity in auto)
  qed
  with account_step_ok [OF ok] show "blocked_since sc e (account_step op db)" by (simp add: blocked_since_def)
qed

interpretation waiting: invariant_system account_step "\<lambda>op. older_completion sc e op \<and> \<not> restarts sc op" "blocked_at sc e" for sc e
proof unfold_locales
  fix op db assume g: "older_completion sc e op \<and> \<not> restarts sc op" and b: "blocked_at sc e db"
  then obtain r where r: "recovery_at sc db = Some r" "rv_recovery_epoch r = e" "rv_entries_blocked r" and ok: "account_ok db"
    by (auto simp: blocked_at_def)
  have "\<exists>q. recovery_at sc (account_step op db) = Some q \<and> rv_recovery_epoch q = e \<and> rv_entries_blocked q"
  proof (cases op)
    case (BeginOp sc' now)
    show ?thesis unfolding BeginOp account_step.simps
      by (rule settle_cases) (use r g BeginOp recovery_at_begin [OF _ r(1)] in \<open>auto simp: restarts_def\<close>)
  next
    case (CompleteOp sc' e' detail now)
    show ?thesis unfolding CompleteOp account_step.simps
      by (rule settle_cases) (use r g CompleteOp recovery_at_complete [OF _ r(1)] in \<open>auto simp: older_completion_def\<close>)
  next
    case (EquityOp sc' at x now)
    show ?thesis unfolding EquityOp account_step.simps
      by (rule settle_cases) (use r recovery_at_equity in auto)
  qed
  with account_step_ok [OF ok] show "blocked_at sc e (account_step op db)" by (simp add: blocked_at_def)
qed

lemma begin_blocks:
  assumes "account_ok db" and "begin_recovery sc now db = Inr (state, db1)"
  shows "blocked_at sc (rv_recovery_epoch state) db1" and "0 < rv_recovery_epoch state" and "int8 (rv_recovery_epoch state)"
    and "validate_scope sc = Inr ()"
proof -
  have ok: "account_ok db1" using assms by (rule begin_ok)
  have "recovery_at sc db1 = Some state \<and> rv_entries_blocked state"
    using assms(2)
  proof (cases rule: begin_recovery_outcome)
    case fresh
    then show ?thesis by (simp add: recovery_at_def select_one_insert)
  next
    case (raised r)
    then show ?thesis
      using recovery_at_begin [OF assms(2) raised(1)] by simp
  qed
  with ok show "blocked_at sc (rv_recovery_epoch state) db1" by (simp add: blocked_at_def)
  have "state \<in> set (ac_recovery db1)" using \<open>_ \<and> _\<close> by (auto simp: recovery_at_def dest: select_one_SomeD)
  with ok show "0 < rv_recovery_epoch state" by (simp add: account_ok_def)
  show "int8 (rv_recovery_epoch state)" "validate_scope sc = Inr ()"
    using assms(2) by (auto simp: begin_recovery_def rbind_eq_Inr Let_def int8_def split: option.splits if_splits)
qed

subsection \<open>What a day's row summarises\<close>

type_synonym observation = "timestamp \<times> pyfloat"

text \<open>The first to arrive of the earliest observations, and the last to arrive of the latest.\<close>

definition earliest :: "observation list \<Rightarrow> observation \<Rightarrow> bool" where
  "earliest obs p \<longleftrightarrow> (\<exists>i<length obs. obs ! i = p \<and>
     (\<forall>j<length obs. fst p \<le> fst (obs ! j) \<and> (j < i \<longrightarrow> fst p < fst (obs ! j))))"

definition latest :: "observation list \<Rightarrow> observation \<Rightarrow> bool" where
  "latest obs p \<longleftrightarrow> (\<exists>i<length obs. obs ! i = p \<and>
     (\<forall>j<length obs. fst (obs ! j) \<le> fst p \<and> (i < j \<longrightarrow> fst (obs ! j) < fst p)))"

definition summarises :: "equity_row option \<Rightarrow> observation list \<Rightarrow> bool" where
  "summarises x obs \<longleftrightarrow> (case x of
       None \<Rightarrow> obs = []
     | Some r \<Rightarrow> earliest obs (eq_first_captured_at r, eq_day_start_equity_usd r) \<and>
         latest obs (eq_last_captured_at r, eq_last_equity_usd r) \<and>
         eq_peak_equity_usd r \<in> snd ` set obs \<and> (\<forall>q\<in>set obs. float_le (snd q) (eq_peak_equity_usd r)) \<and>
         eq_reconciliation_seq r = int (length obs))"

lemma earliest_snoc: "earliest obs p \<Longrightarrow> earliest (obs @ [q]) (if fst q < fst p then q else p)"
proof -
  assume "earliest obs p"
  then obtain i where i: "i < length obs" "obs ! i = p" "\<forall>j<length obs. fst p \<le> fst (obs ! j) \<and> (j < i \<longrightarrow> fst p < fst (obs ! j))"
    by (auto simp: earliest_def)
  show ?thesis
  proof (cases "fst q < fst p")
    case True
    then have "fst q < fst (obs ! j)" if "j < length obs" for j using i(3) that by (blast intro: order.strict_trans2)
    with True show ?thesis
      unfolding earliest_def
      by (intro exI [of _ "length obs"]) (auto simp: nth_append less_Suc_eq intro: less_imp_le)
  next
    case False
    then show ?thesis
      using i unfolding earliest_def by (intro exI [of _ i]) (auto simp: nth_append less_Suc_eq)
  qed
qed

lemma latest_snoc: "latest obs p \<Longrightarrow> latest (obs @ [q]) (if fst p \<le> fst q then q else p)"
proof -
  assume "latest obs p"
  then obtain i where i: "i < length obs" "obs ! i = p" "\<forall>j<length obs. fst (obs ! j) \<le> fst p \<and> (i < j \<longrightarrow> fst (obs ! j) < fst p)"
    by (auto simp: latest_def)
  show ?thesis
  proof (cases "fst p \<le> fst q")
    case True
    then have "fst (obs ! j) \<le> fst q" if "j < length obs" for j using i(3) that by (blast intro: order_trans)
    with True show ?thesis
      unfolding latest_def by (intro exI [of _ "length obs"]) (auto simp: nth_append less_Suc_eq)
  next
    case False
    then show ?thesis
      using i unfolding latest_def by (intro exI [of _ i]) (auto simp: nth_append less_Suc_eq)
  qed
qed

lemma first_equity_summarises: "positive_equity x \<Longrightarrow> summarises (Some (first_equity sc day t x now)) [(t, x)]"
  by (simp add: summarises_def first_equity_def earliest_def latest_def positive_equity_def float_le_refl)

lemma merged_equity_summarises:
  assumes "summarises (Some r) obs" and "equity_check r" and "positive_equity x" and "\<forall>q\<in>set obs. is_finite (snd q)"
  shows "summarises (Some (merged_equity t x now r)) (obs @ [(t, x)])"
proof -
  let ?g = "float_greatest (eq_peak_equity_usd r) x"
  have f: "is_finite (eq_peak_equity_usd r)" "is_finite x" using assms(2,3) by (auto simp: equity_check_def positive_equity_def)
  note g = float_greatest_upper [OF f]
  have s: "earliest obs (eq_first_captured_at r, eq_day_start_equity_usd r)"
      "latest obs (eq_last_captured_at r, eq_last_equity_usd r)" "eq_peak_equity_usd r \<in> snd ` set obs"
      "\<forall>q\<in>set obs. float_le (snd q) (eq_peak_equity_usd r)" "eq_reconciliation_seq r = int (length obs)"
    using assms(1) by (simp_all add: summarises_def)
  have "earliest (obs @ [(t, x)]) (eq_first_captured_at (merged_equity t x now r), eq_day_start_equity_usd (merged_equity t x now r))"
    using earliest_snoc [OF s(1), of "(t, x)"] by (auto simp: merged_equity_def min_def split: if_splits)
  moreover have "latest (obs @ [(t, x)]) (eq_last_captured_at (merged_equity t x now r), eq_last_equity_usd (merged_equity t x now r))"
    using latest_snoc [OF s(2), of "(t, x)"] by (auto simp: merged_equity_def max_def split: if_splits)
  moreover have "?g = eq_peak_equity_usd r \<or> ?g = x" using g(4) by simp
  then have "?g \<in> snd ` set (obs @ [(t, x)])" using s(3) by (elim disjE) simp_all
  moreover have "\<forall>q\<in>set (obs @ [(t, x)]). float_le (snd q) ?g"
    using s(4) g(1-3) f assms(4) by (auto intro: float_le_trans)
  ultimately show ?thesis using s(5) unfolding summarises_def by (simp add: merged_equity_def)
qed

text \<open>The observations of a scope and day that were accepted, in the order they arrived.\<close>

fun accepted :: "account_scope \<Rightarrow> date \<Rightarrow> account_op \<Rightarrow> account_db \<Rightarrow> observation list" where
  "accepted sc day (EquityOp sc' (Aware t) x now) db =
     (if sc' = sc \<and> utc_date t = day \<and> \<not> isl (record_equity sc' (Aware t) x now db) then [(t, x)] else [])"
| "accepted sc day op db = []"

fun equity_trace :: "account_scope \<Rightarrow> date \<Rightarrow> account_op list \<Rightarrow> account_db \<Rightarrow> observation list" where
  "equity_trace sc day [] db = []"
| "equity_trace sc day (op # ops) db = accepted sc day op db @ equity_trace sc day ops (account_step op db)"

lemma equity_at_update:
  assumes "\<And>r. eq_scope (f r) = eq_scope r \<and> eq_trading_day (f r) = eq_trading_day r"
  shows "equity_at sc day (db\<lparr>ac_equity := update_where P f (ac_equity db)\<rparr>)
    = map_option (\<lambda>r. if P r then f r else r) (equity_at sc day db)"
  unfolding equity_at_def by (simp add: select_one_update assms)

lemma record_equity_at:
  assumes "record_equity sc' (Aware t) x now db = Inr (row, db')"
  shows "equity_at sc day db' = (if sc' = sc \<and> utc_date t = day
      then Some (case equity_at sc day db of None \<Rightarrow> first_equity sc day t x now | Some r \<Rightarrow> merged_equity t x now r)
      else equity_at sc day db)" and "positive_equity x"
proof -
  have h: "positive_equity x"
    "equity_at sc' (utc_date t) db = None \<Longrightarrow> db' = db\<lparr>ac_equity := insert_row (first_equity sc' (utc_date t) t x now) (ac_equity db)\<rparr>"
    "\<And>r. equity_at sc' (utc_date t) db = Some r \<Longrightarrow>
       db' = db\<lparr>ac_equity := update_where (\<lambda>r. eq_scope r = sc' \<and> eq_trading_day r = utc_date t)
             (merged_equity t x now) (ac_equity db)\<rparr>"
    using record_equity_outcome [OF assms] by auto
  show "positive_equity x" by (rule h(1))
  have fe: "eq_scope (first_equity sc' d t x now) = sc'" "eq_trading_day (first_equity sc' d t x now) = d" for d
    by (simp_all add: first_equity_def)
  show "equity_at sc day db' = (if sc' = sc \<and> utc_date t = day
      then Some (case equity_at sc day db of None \<Rightarrow> first_equity sc day t x now | Some r \<Rightarrow> merged_equity t x now r)
      else equity_at sc day db)"
  proof (cases "equity_at sc' (utc_date t) db")
    case None
    from h(2) [OF None] have "db' = db\<lparr>ac_equity := insert_row (first_equity sc' (utc_date t) t x now) (ac_equity db)\<rparr>" .
    with None show ?thesis by (auto simp: equity_at_def select_one_insert fe split: option.split)
  next
    case (Some r)
    from h(3) [OF Some] have "db' = db\<lparr>ac_equity := update_where (\<lambda>r. eq_scope r = sc' \<and> eq_trading_day r = utc_date t)
             (merged_equity t x now) (ac_equity db)\<rparr>" .
    with Some show ?thesis
      by (auto simp: equity_at_update dest: equity_at_Some split: option.split)
  qed
qed

definition day_summarised :: "account_scope \<Rightarrow> date \<Rightarrow> account_db \<Rightarrow> observation list \<Rightarrow> bool" where
  "day_summarised sc day db obs \<longleftrightarrow> account_ok db \<and> summarises (equity_at sc day db) obs \<and> (\<forall>q\<in>set obs. is_finite (snd q))"

lemma no_equity_change:
  "begin_recovery sc' now db = Inr (row, db') \<Longrightarrow> equity_at sc day db' = equity_at sc day db"
  "complete_recovery sc' e detail now db = Inr (row, db') \<Longrightarrow> equity_at sc day db' = equity_at sc day db"
  by (auto simp: equity_at_def elim!: begin_recovery_outcome complete_recovery_outcome)

lemma step_summarised:
  assumes "day_summarised sc day db obs"
  shows "day_summarised sc day (account_step op db) (obs @ accepted sc day op db)"
proof -
  have ok: "account_ok (account_step op db)" using assms account_step_ok by (simp add: day_summarised_def)
  have s: "summarises (equity_at sc day db) obs" "\<forall>q\<in>set obs. is_finite (snd q)" and okd: "account_ok db"
    using assms by (simp_all add: day_summarised_def)
  have "summarises (equity_at sc day (account_step op db)) (obs @ accepted sc day op db) \<and>
      (\<forall>q\<in>set (obs @ accepted sc day op db). is_finite (snd q))"
  proof (cases op)
    case (BeginOp sc' now)
    show ?thesis unfolding BeginOp account_step.simps accepted.simps
      by (rule settle_cases) (use s no_equity_change(1) in auto)
  next
    case (CompleteOp sc' e detail now)
    show ?thesis unfolding CompleteOp account_step.simps accepted.simps
      by (rule settle_cases) (use s no_equity_change(2) in auto)
  next
    case (EquityOp sc' at x now)
    show ?thesis
    proof (cases "record_equity sc' at x now db")
      case (Inl err)
      have "accepted sc day op db = []" using Inl by (cases at) (simp_all add: EquityOp)
      with s Inl show ?thesis by (simp add: EquityOp)
    next
      case (Inr v)
      then obtain row db' where r: "record_equity sc' at x now db = Inr (row, db')" by (cases v) simp
      then obtain t where t: "at = Aware t" by (rule record_equity_outcome)
      have r': "record_equity sc' (Aware t) x now db = Inr (row, db')" using r t by simp
      note e = record_equity_at(1) [OF r', of sc day] record_equity_at(2) [OF r']
      have step: "account_step op db = db'" using r by (simp add: EquityOp)
      show ?thesis
      proof (cases "sc' = sc \<and> utc_date t = day")
        case False
        then have "accepted sc day op db = []" by (auto simp: EquityOp t)
        moreover have "equity_at sc day db' = equity_at sc day db" using e(1) False by (simp only: if_False)
        ultimately show ?thesis using s step by simp
      next
        case True
        then have a: "accepted sc day op db = [(t, x)]" using r by (simp add: EquityOp t)
        have fin: "is_finite x" using e(2) by (simp add: positive_equity_def)
        have "summarises (equity_at sc day db') (obs @ [(t, x)])"
        proof (cases "equity_at sc day db")
          case None
          with s(1) have "obs = []" by (simp add: summarises_def)
          with None True e first_equity_summarises show ?thesis by simp
        next
          case (Some q)
          then have "equity_check q" using okd equity_at_Some [OF Some] by (simp add: account_ok_def)
          with Some s True e show ?thesis by (simp add: merged_equity_summarises)
        qed
        with a s(2) fin step show ?thesis by simp
      qed
    qed
  qed
  with ok show ?thesis by (simp add: day_summarised_def)
qed

lemma run_summarised:
  "day_summarised sc day db obs \<Longrightarrow> day_summarised sc day (fold account_step ops db) (obs @ equity_trace sc day ops db)"
proof (induction ops arbitrary: db obs)
  case (Cons op ops)
  from Cons.IH [OF step_summarised [OF Cons.prems]] show ?case by simp
qed simp

section \<open>Properties\<close>

text \<open>
  C26. The recovery barrier holds: after \<open>begin_recovery\<close> returned an epoch, entries of the account are not
  allowed, whatever else happens, until a completion names that epoch or a later one; completions of
  an earlier recovery are refused; and as long as no other recovery begins, completing with the
  returned epoch succeeds and allows entries.
\<close>

theorem entries_blocked_until_recovered:
  assumes "account_ok db" and "begin_recovery sc now db = Inr (state, db1)"
    and "list_all (older_completion sc (rv_recovery_epoch state)) ops" and "db2 = fold account_step ops db1"
  shows "entries_allowed sc db2 = Inr False \<and>
    (\<forall>e detail now2 row db3. complete_recovery sc e detail now2 db2 = Inr (row, db3) \<longrightarrow>
       rv_recovery_epoch state \<le> e \<and> entries_allowed sc db3 = Inr True) \<and>
    (list_all (\<lambda>op. \<not> restarts sc op) ops \<longrightarrow> (\<forall>detail now2. \<not> blank detail \<longrightarrow>
       (\<exists>row db3. complete_recovery sc (rv_recovery_epoch state) detail now2 db2 = Inr (row, db3))))"
proof -
  let ?e = "rv_recovery_epoch state"
  note b = begin_blocks [OF assms(1,2)]
  have v: "validate_scope sc = Inr ()" by (rule b(4))
  have "blocked_since sc ?e db1" using b(1) by (auto simp: blocked_at_def blocked_since_def)
  then have "blocked_since sc ?e db2" unfolding assms(4) using assms(3) by (intro barrier.run_inv)
  then obtain r where r: "recovery_at sc db2 = Some r" "?e \<le> rv_recovery_epoch r" "rv_entries_blocked r" and ok: "account_ok db2"
    by (auto simp: blocked_since_def)
  have "entries_allowed sc db2 = Inr False" using r v by (simp add: entries_allowed_def recovery_state_def)
  moreover have "?e \<le> e \<and> entries_allowed sc db3 = Inr True"
    if c: "complete_recovery sc e detail now2 db2 = Inr (row, db3)" for e detail now2 row db3
  proof -
    from c obtain q where "q \<in> set (ac_recovery db2)" "rv_scope q = sc" "rv_recovery_epoch q = e"
      by (rule complete_recovery_outcome)
    with recovery_at_unique [OF ok] r(1) have e: "rv_recovery_epoch r = e" by fastforce
    with recovery_at_complete [OF c r(1)] have "recovery_at sc db3 = Some (lowered_barrier detail now2 r)" by simp
    with e r(2) v show ?thesis by (simp add: entries_allowed_def recovery_state_def)
  qed
  moreover have "\<exists>row db3. complete_recovery sc ?e detail now2 db2 = Inr (row, db3)"
    if "list_all (\<lambda>op. \<not> restarts sc op) ops" "\<not> blank detail" for detail now2
  proof -
    have "blocked_at sc ?e db2" unfolding assms(4)
      by (rule waiting.run_inv [OF _ b(1)]) (use that(1) assms(3) in \<open>simp add: list_all_iff\<close>)
    then obtain q where q: "recovery_at sc db2 = Some q" "rv_recovery_epoch q = ?e" by (auto simp: blocked_at_def)
    have "select_one (\<lambda>r. rv_scope r = sc \<and> rv_recovery_epoch r = ?e) (ac_recovery db2) \<noteq> None"
      using q recovery_at_scope [OF q(1)] by (auto simp: select_one_None_iff recovery_at_def dest!: select_one_SomeD)
    with that(2) b(2,3) v show ?thesis by (auto simp: complete_recovery_def Let_def)
  qed
  ultimately show ?thesis by blast
qed

definition no_accounts :: account_db where
  "no_accounts = \<lparr>ac_recovery = [], ac_equity = []\<rparr>"

lemma no_accounts_ok: "account_ok no_accounts"
  by (simp add: account_ok_def no_accounts_def)

theorem entries_blocked_until_recovered_witness:
  "\<exists>state db1. begin_recovery (''e'', ''a'', ''x'') 5 no_accounts = Inr (state, db1) \<and>
     entries_allowed (''e'', ''a'', ''x'') (fold account_step [EquityOp (''e'', ''a'', ''x'') (Aware 6) float_one 6,
       CompleteOp (''e'', ''a'', ''x'') 0 ''old'' 7, CompleteOp (''e'', ''b'', ''x'') 1 ''other'' 8] db1) = Inr False"
proof -
  have "\<not> isl (begin_recovery (''e'', ''a'', ''x'') 5 no_accounts)" by code_simp
  then obtain state db1 where b: "begin_recovery (''e'', ''a'', ''x'') 5 no_accounts = Inr (state, db1)"
    by (cases "begin_recovery (''e'', ''a'', ''x'') 5 no_accounts") auto
  have "rv_recovery_epoch state = 1"
    using b by (rule begin_recovery_outcome) (simp_all add: recovery_at_def no_accounts_def)
  then have "list_all (older_completion (''e'', ''a'', ''x'') (rv_recovery_epoch state))
      [EquityOp (''e'', ''a'', ''x'') (Aware 6) float_one 6, CompleteOp (''e'', ''a'', ''x'') 0 ''old'' 7,
       CompleteOp (''e'', ''b'', ''x'') 1 ''other'' 8]"
    by (simp add: older_completion_def)
  from entries_blocked_until_recovered [OF no_accounts_ok b this refl] b show ?thesis by blast
qed

text \<open>
  The equity row of an account and day is the summary of the observations accepted for it, in
  whatever order they arrived: it starts with the earliest, ends with the latest, its peak is the
  greatest and its sequence counts them. The CHECK constraints of the table never refuse one.
\<close>

theorem equity_summarises_observations:
  "summarises (equity_at sc day (fold account_step ops no_accounts)) (equity_trace sc day ops no_accounts) \<and>
   record_equity sc2 at x now (fold account_step ops no_accounts) \<noteq> Inl (IntegrityError ''account_equity_state'')"
proof
  have "day_summarised sc day no_accounts []"
    by (simp add: day_summarised_def no_accounts_ok) (simp add: no_accounts_def equity_at_def summarises_def)
  from run_summarised [OF this, of ops]
  show "summarises (equity_at sc day (fold account_step ops no_accounts)) (equity_trace sc day ops no_accounts)"
    by (simp add: day_summarised_def)
  let ?db = "fold account_step ops no_accounts"
  have ok: "account_ok ?db" using no_accounts_ok by (intro account.run_inv) (simp_all add: list_all_iff)
  have "equity_check r" if "equity_at s d ?db = Some r" for s d r
    using equity_at_Some [OF that] ok by (simp add: account_ok_def)
  then show "record_equity sc2 at x now ?db \<noteq> Inl (IntegrityError ''account_equity_state'')"
    by (auto simp: record_equity_def store_equity_def validate_scope_def rbind_def Let_def first_equity_check merged_equity_check
        split: pydatetime.splits option.splits sum.splits prod.splits if_splits)
qed

end
