(* ===== verification/SimulatorProposals.thy ===== *)
theory SimulatorProposals
  imports HashChain AuditLog "HOL-Library.Product_Lexorder"
begin

text \<open>
  The advisory LLM proposals of the isolated simulator: \<open>kairos_persistence/simulator_proposals.py\<close> over
  \<open>sim_llm_trade_proposals\<close> of migrations 020 and 021, and the consumer of
  \<open>simulator_proposal_consumer.py\<close>. The contract \<open>LLMTradeProposalV1\<close> is outside (\<open>kairos_core\<close>): a proposal is
  the record of what the code reads of it, \<open>model_validate\<close> is the parameter \<open>decode\<close>, and \<open>csha\<close> stands for
  \<open>canonical_sha256\<close>.
\<close>

record proposal =
  pr_proposal_id :: "string option"
  pr_campaign_id :: string
  pr_arm_id :: string
  pr_sample_id :: string
  pr_symbol :: string
  pr_timeframe :: string
  pr_market_as_of :: int
  pr_expires_at :: int
  pr_snapshot_sha256 :: string
  pr_action :: string
  pr_identity :: json
  pr_payload :: json

record proposal_row =
  pw_proposal_id :: string
  pw_campaign_id :: string
  pw_arm_id :: string
  pw_sample_id :: string
  pw_symbol :: string
  pw_timeframe :: string
  pw_market_as_of :: int
  pw_expires_at :: int
  pw_snapshot_sha256 :: string
  pw_action :: string
  pw_payload :: json
  pw_payload_sha256 :: string

subsection \<open>The table\<close>

definition proposal_actions :: "string list" where
  "proposal_actions = [''LONG_BIAS'', ''SHORT_BIAS'', ''VOLATILITY_ALERT'', ''NO_PROPOSAL'', ''DEFER'']"

definition proposal_check :: "proposal_row \<Rightarrow> bool" where
  "proposal_check r \<longleftrightarrow> sha256_hex (pw_proposal_id r) \<and> 0 \<le> pw_market_as_of r \<and> pw_market_as_of r \<le> pw_expires_at r \<and>
     sha256_hex (pw_snapshot_sha256 r) \<and> pw_action r \<in> set proposal_actions \<and> is_object (pw_payload r) \<and>
     sha256_hex (pw_payload_sha256 r)"

definition proposal_key :: "proposal_row \<Rightarrow> string \<times> string \<times> string" where
  "proposal_key r = (pw_campaign_id r, pw_arm_id r, pw_sample_id r)"

definition proposals_unique :: "proposal_row list \<Rightarrow> bool" where
  "proposals_unique t \<longleftrightarrow> unique_by pw_proposal_id t \<and> unique_by proposal_key t"

text \<open>\<open>INSERT .. ON CONFLICT DO NOTHING RETURNING\<close>; the CHECK constraints are tested before the conflict.\<close>

definition insert_proposal :: "proposal_row \<Rightarrow> proposal_row list \<Rightarrow> (bool \<times> proposal_row list) res" where
  "insert_proposal r t =
     (if \<not> int8 (pw_market_as_of r) \<or> \<not> int8 (pw_expires_at r) then Inl (DataError ''value out of int64 range'')
      else if \<not> proposal_check r then Inl (IntegrityError ''sim_llm_trade_proposals_check'')
      else if list_ex (\<lambda>q. pw_proposal_id q = pw_proposal_id r \<or> proposal_key q = proposal_key r) t then Inr (False, t)
      else Inr (True, insert_row r t))"

subsection \<open>Recording\<close>

definition decode_payload :: "json \<Rightarrow> json res" where
  "decode_payload j = (if is_object j then Inr j
     else Inl (MessageIdentityConflict ''stored simulator LLM proposal payload must be a JSON object''))"

definition row_matches ::
  "(string \<Rightarrow> string) \<Rightarrow> proposal_row \<Rightarrow> proposal \<Rightarrow> string \<Rightarrow> string \<Rightarrow> bool res" where
  "row_matches sha r p encoded digest =
     rbind (decode_payload (pw_payload r)) (\<lambda>stored.
       case canonical_payload sha stored of
         Inl _ \<Rightarrow> Inr False
       | Inr (stored_encoded, stored_sha256) \<Rightarrow>
           Inr (Some (pw_proposal_id r) = pr_proposal_id p \<and> pw_campaign_id r = pr_campaign_id p \<and>
             pw_arm_id r = pr_arm_id p \<and> pw_sample_id r = pr_sample_id p \<and> pw_symbol r = pr_symbol p \<and>
             pw_timeframe r = pr_timeframe p \<and> pw_market_as_of r = pr_market_as_of p \<and>
             pw_expires_at r = pr_expires_at p \<and> pw_snapshot_sha256 r = pr_snapshot_sha256 p \<and>
             pw_action r = pr_action p \<and> pw_payload_sha256 r = digest \<and> digest = stored_sha256 \<and>
             stored_encoded = encoded))"

definition proposal_row_of :: "string \<Rightarrow> proposal \<Rightarrow> json \<Rightarrow> string \<Rightarrow> proposal_row" where
  "proposal_row_of i p doc digest = \<lparr>pw_proposal_id = i, pw_campaign_id = pr_campaign_id p, pw_arm_id = pr_arm_id p,
     pw_sample_id = pr_sample_id p, pw_symbol = pr_symbol p, pw_timeframe = pr_timeframe p,
     pw_market_as_of = pr_market_as_of p, pw_expires_at = pr_expires_at p, pw_snapshot_sha256 = pr_snapshot_sha256 p,
     pw_action = pr_action p, pw_payload = doc, pw_payload_sha256 = digest\<rparr>"

definition proposal_conflicts :: "string \<Rightarrow> proposal \<Rightarrow> proposal_row \<Rightarrow> bool" where
  "proposal_conflicts i p r \<longleftrightarrow> pw_proposal_id r = i \<or>
     proposal_key r = (pr_campaign_id p, pr_arm_id p, pr_sample_id p)"

definition record_proposal ::
  "(string \<Rightarrow> string) \<Rightarrow> (json \<Rightarrow> string) \<Rightarrow> proposal \<Rightarrow> proposal_row list \<Rightarrow> (bool \<times> proposal_row list) res" where
  "record_proposal sha csha p t =
     (case pr_proposal_id p of
        None \<Rightarrow> Inl (ValueError ''LLM proposal is missing its canonical ID'')
      | Some i \<Rightarrow>
          if i \<noteq> csha (pr_identity p) then Inl (ValueError ''LLM proposal ID does not match its canonical payload'')
          else rbind (canonical_payload sha (pr_payload p)) (\<lambda>(encoded, digest).
               rbind (text_to_jsonb encoded) (\<lambda>doc.
               rbind (insert_proposal (proposal_row_of i p doc digest) t) (\<lambda>(inserted, t').
               if inserted then Inr (True, t')
               else case filter (proposal_conflicts i p) t' of
                   [r] \<Rightarrow> rbind (row_matches sha r p encoded digest) (\<lambda>same.
                       if same then Inr (False, t')
                       else Inl (MessageIdentityConflict
                              ''campaign/arm/sample already contains a different immutable LLM proposal''))
                 | _ \<Rightarrow> Inl (MessageIdentityConflict ''simulator proposal identity is ambiguous or missing'')))))"

subsection \<open>Reading a page\<close>

definition require_identifier :: "string \<Rightarrow> string \<Rightarrow> unit res" where
  "require_identifier name value =
     (if value = [] \<or> value \<noteq> strip value then Inl (ValueError (name @ '' must be a non-empty normalized identifier''))
      else Inr ())"

definition page_key :: "proposal_row \<Rightarrow> int \<times> string" where
  "page_key r = (pw_market_as_of r, pw_sample_id r)"

definition page_rows ::
  "string \<Rightarrow> string \<Rightarrow> (int \<times> string) option \<Rightarrow> int \<Rightarrow> proposal_row list \<Rightarrow> proposal_row list" where
  "page_rows campaign arm cursor limit t =
     take (nat limit) (sort_key page_key (filter (\<lambda>r. pw_campaign_id r = campaign \<and> pw_arm_id r = arm \<and>
       (case cursor of None \<Rightarrow> True | Some c \<Rightarrow> c < page_key r)) t))"

definition proposal_from_row :: "(json \<Rightarrow> proposal res) \<Rightarrow> proposal_row \<Rightarrow> proposal res" where
  "proposal_from_row decode r =
     rbind (decode_payload (pw_payload r)) (\<lambda>j. rbind (decode j) (\<lambda>p.
       if pr_proposal_id p \<noteq> Some (pw_proposal_id r)
       then Inl (MessageIdentityConflict ''stored simulator LLM proposal ID does not match its payload'')
       else Inr p))"

definition verified_proposal ::
  "(string \<Rightarrow> string) \<Rightarrow> (json \<Rightarrow> proposal res) \<Rightarrow> proposal_row \<Rightarrow> proposal res" where
  "verified_proposal sha decode r =
     rbind (proposal_from_row decode r) (\<lambda>p.
     rbind (canonical_payload sha (pr_payload p)) (\<lambda>(encoded, digest).
     rbind (row_matches sha r p encoded digest) (\<lambda>same.
       if same then Inr p
       else Inl (MessageIdentityConflict ''stored simulator LLM proposal failed integrity verification''))))"

fun verified_proposals ::
  "(string \<Rightarrow> string) \<Rightarrow> (json \<Rightarrow> proposal res) \<Rightarrow> proposal_row list \<Rightarrow> proposal list res" where
  "verified_proposals sha decode [] = Inr []"
| "verified_proposals sha decode (r # rs) =
     rbind (verified_proposal sha decode r) (\<lambda>p. rbind (verified_proposals sha decode rs) (\<lambda>ps. Inr (p # ps)))"

definition page_check ::
  "string \<Rightarrow> string \<Rightarrow> int option \<Rightarrow> string option \<Rightarrow> int \<Rightarrow> (int \<times> string) option res" where
  "page_check campaign arm after_ts after_sample limit =
     rbind (require_identifier ''campaign_id'' campaign) (\<lambda>_.
     rbind (require_identifier ''arm_id'' arm) (\<lambda>_.
     if (after_ts = None) \<noteq> (after_sample = None)
     then Inl (ValueError ''both proposal page cursor fields must be set together'')
     else if (case after_ts of None \<Rightarrow> False | Some n \<Rightarrow> n < 0)
     then Inl (ValueError ''proposal page cursor timestamp must be a non-negative integer'')
     else rbind (case after_sample of None \<Rightarrow> Inr () | Some s \<Rightarrow> require_identifier ''after_sample_id'' s) (\<lambda>_.
     if \<not> (1 \<le> limit \<and> limit \<le> 1000) then Inl (ValueError ''proposal page limit must be an integer from 1 through 1000'')
     else if (case after_ts of None \<Rightarrow> False | Some n \<Rightarrow> \<not> int8 n) then Inl (DataError ''value out of int64 range'')
     else Inr (case (after_ts, after_sample) of (Some n, Some s) \<Rightarrow> Some (n, s) | _ \<Rightarrow> None))))"

definition load_page ::
  "(string \<Rightarrow> string) \<Rightarrow> (json \<Rightarrow> proposal res) \<Rightarrow> string \<Rightarrow> string \<Rightarrow> int option \<Rightarrow> string option \<Rightarrow> int
     \<Rightarrow> proposal_row list \<Rightarrow> proposal list res" where
  "load_page sha decode campaign arm after_ts after_sample limit t =
     rbind (page_check campaign arm after_ts after_sample limit) (\<lambda>cursor.
       verified_proposals sha decode (page_rows campaign arm cursor limit t))"

subsection \<open>The consumer\<close>

definition consumer_char :: "char \<Rightarrow> bool" where
  "consumer_char c \<longleftrightarrow> (CHR ''A'' \<le> c \<and> c \<le> CHR ''Z'') \<or> (CHR ''a'' \<le> c \<and> c \<le> CHR ''z'') \<or> py_digit c"

text \<open>\<open>[A-Za-z0-9][A-Za-z0-9._:-]{0,127}\<close>\<close>

definition consumer_name :: "string \<Rightarrow> bool" where
  "consumer_name s = (case s of [] \<Rightarrow> False
     | c # cs \<Rightarrow> consumer_char c \<and> length cs \<le> 127 \<and>
         list_all (\<lambda>d. consumer_char d \<or> d \<in> {CHR ''.'', CHR ''_'', CHR '':'', CHR ''-''}) cs)"

record proposal_message =
  pm_id :: string
  pm_topic :: string
  pm_payload :: json

text \<open>One message: its proposal is recorded before the transport is asked to acknowledge it.\<close>

definition consume_message ::
  "(string \<Rightarrow> string) \<Rightarrow> (json \<Rightarrow> string) \<Rightarrow> (json \<Rightarrow> proposal res) \<Rightarrow> string \<Rightarrow> proposal_message
     \<Rightarrow> proposal_row list \<Rightarrow> (bool \<times> proposal_row list) res" where
  "consume_message sha csha decode topic m t =
     (if pm_topic m \<noteq> topic then Inl (ValueError ''proposal bus yielded a message from a different topic'')
      else if \<not> is_object (pm_payload m) then Inl (TypeError ''proposal message payload must be a JSON object'')
      else rbind (decode (pm_payload m)) (\<lambda>p. record_proposal sha csha p t))"

text \<open>
  \<open>consume_simulator_proposals\<close>: the messages the bus yields with what each \<open>ack\<close> does, until one raises; the
  result, the table and the ids of the messages the transport was asked to acknowledge.
\<close>

fun consume_messages ::
  "(string \<Rightarrow> string) \<Rightarrow> (json \<Rightarrow> string) \<Rightarrow> (json \<Rightarrow> proposal res) \<Rightarrow> string \<Rightarrow> (proposal_message \<times> unit res) list
     \<Rightarrow> proposal_row list \<Rightarrow> unit res \<times> proposal_row list \<times> proposal_message list" where
  "consume_messages sha csha decode topic [] t = (Inr (), t, [])"
| "consume_messages sha csha decode topic ((m, answer) # ms) t =
     (case consume_message sha csha decode topic m t of
        Inl e \<Rightarrow> (Inl e, t, [])
      | Inr (_, t') \<Rightarrow>
          (case answer of
             Inl e \<Rightarrow> (Inl e, t', [m])
           | Inr _ \<Rightarrow> (case consume_messages sha csha decode topic ms t' of (r, t'', acked) \<Rightarrow> (r, t'', m # acked))))"

definition consume_simulator_proposals ::
  "(string \<Rightarrow> string) \<Rightarrow> (json \<Rightarrow> string) \<Rightarrow> (json \<Rightarrow> proposal res) \<Rightarrow> string \<Rightarrow> string
     \<Rightarrow> (proposal_message \<times> unit res) list \<Rightarrow> proposal_row list \<Rightarrow> unit res \<times> proposal_row list \<times> proposal_message list" where
  "consume_simulator_proposals sha csha decode topic consumer ms t =
     (if \<not> consumer_name consumer then (Inl (ValueError ''consumer must be a normalized non-empty identifier''), t, [])
      else consume_messages sha csha decode topic ms t)"

subsection \<open>What the table keeps\<close>

lemma row_matches_True:
  assumes "row_matches sha r p encoded digest = Inr True"
  shows "pr_proposal_id p = Some (pw_proposal_id r)"
    and "proposal_key r = (pr_campaign_id p, pr_arm_id p, pr_sample_id p)" and "pw_payload_sha256 r = digest"
proof -
  obtain j where j: "decode_payload (pw_payload r) = Inr j" using assms by (auto simp: row_matches_def rbind_eq_Inr)
  with assms obtain a d where "canonical_payload sha j = Inr (a, d)"
    by (cases "canonical_payload sha j") (auto simp: row_matches_def)
  with assms j show "pr_proposal_id p = Some (pw_proposal_id r)"
    "proposal_key r = (pr_campaign_id p, pr_arm_id p, pr_sample_id p)" "pw_payload_sha256 r = digest"
    by (auto simp: row_matches_def proposal_key_def)
qed

lemma record_proposal_outcome:
  assumes "proposals_unique t" and "record_proposal sha csha p t = Inr (b, t')"
  obtains (recorded) i doc where "b" and "pr_proposal_id p = Some i" and "i = csha (pr_identity p)"
      and "text_to_jsonb (canonical_json (pr_payload p)) = Inr doc" and "json_finite (pr_payload p)"
      and "t' = insert_row (proposal_row_of i p doc (sha (canonical_json (pr_payload p)))) t"
      and "proposal_check (proposal_row_of i p doc (sha (canonical_json (pr_payload p))))"
      and "int8 (pr_market_as_of p)" and "\<forall>r\<in>set t. \<not> proposal_conflicts i p r"
  | (replayed) r where "\<not> b" and "t' = t" and "r \<in> set t" and "pr_proposal_id p = Some (pw_proposal_id r)"
      and "proposal_key r = (pr_campaign_id p, pr_arm_id p, pr_sample_id p)"
      and "pw_payload_sha256 r = sha (canonical_json (pr_payload p))"
proof -
  obtain i where i: "pr_proposal_id p = Some i" "i = csha (pr_identity p)"
    using assms(2) by (auto simp: record_proposal_def split: option.splits if_splits)
  then obtain doc inserted t1 where fin: "json_finite (pr_payload p)"
      and doc: "text_to_jsonb (canonical_json (pr_payload p)) = Inr doc"
      and ins: "insert_proposal (proposal_row_of i p doc (sha (canonical_json (pr_payload p)))) t = Inr (inserted, t1)"
      and rest: "if inserted then b \<and> t' = t1
        else \<exists>r. filter (proposal_conflicts i p) t1 = [r] \<and>
          row_matches sha r p (canonical_json (pr_payload p)) (sha (canonical_json (pr_payload p))) = Inr True \<and>
          \<not> b \<and> t' = t1"
    using assms(2)
    by (auto simp: record_proposal_def rbind_eq_Inr canonical_payload_Inr split: if_splits list.splits)
  show thesis
  proof (cases inserted)
    case True
    with i fin doc ins rest show thesis
      by (intro recorded[of i doc])
        (auto simp: insert_proposal_def list_ex_iff proposal_conflicts_def proposal_row_of_def proposal_key_def
          split: if_splits)
  next
    case False
    with ins have t1: "t1 = t" by (auto simp: insert_proposal_def split: if_splits)
    from False rest obtain r where r: "filter (proposal_conflicts i p) t1 = [r]"
        "row_matches sha r p (canonical_json (pr_payload p)) (sha (canonical_json (pr_payload p))) = Inr True"
        "\<not> b" "t' = t1"
      by auto
    then have "r \<in> set (filter (proposal_conflicts i p) t)" using t1 by simp
    then have "r \<in> set t" by simp
    with r t1 row_matches_True [OF r(2)] show thesis by (intro replayed[of r]) simp_all
  qed
qed

definition proposal_step :: "(string \<Rightarrow> string) \<Rightarrow> (json \<Rightarrow> string) \<Rightarrow> proposal \<Rightarrow> proposal_row list \<Rightarrow> proposal_row list" where
  "proposal_step sha csha p t = settle t (record_proposal sha csha p t)"

text \<open>Every row was written for one of the proposals, whose payload a JSONB column keeps.\<close>

definition stored_for :: "(string \<Rightarrow> string) \<Rightarrow> proposal \<Rightarrow> proposal_row \<Rightarrow> bool" where
  "stored_for sha p r \<longleftrightarrow> (\<exists>i. pr_proposal_id p = Some i \<and>
     r = proposal_row_of i p (sorted_json (pr_payload p)) (sha (canonical_json (pr_payload p))) \<and>
     json_finite (pr_payload p) \<and> is_object (pr_payload p) \<and> proposal_check r \<and> int8 (pw_market_as_of r))"

definition proposals_inv :: "(string \<Rightarrow> string) \<Rightarrow> (proposal \<Rightarrow> bool) \<Rightarrow> proposal_row list \<Rightarrow> bool" where
  "proposals_inv sha G t \<longleftrightarrow> proposals_unique t \<and> (\<forall>r\<in>set t. \<exists>p. G p \<and> stored_for sha p r)"

lemma proposal_step_outcome:
  assumes "proposals_unique t"
  shows "proposal_step sha csha p t = t \<or> (\<exists>r. proposal_step sha csha p t = insert_row r t \<and>
    (document_ok (pr_payload p) \<longrightarrow> stored_for sha p r) \<and> proposals_unique (insert_row r t))"
  unfolding proposal_step_def
proof (rule settle_cases)
  fix b t' assume "record_proposal sha csha p t = Inr (b, t')"
  with assms show "t' = t \<or> (\<exists>r. t' = insert_row r t \<and> (document_ok (pr_payload p) \<longrightarrow> stored_for sha p r) \<and>
      proposals_unique (insert_row r t))"
  proof (cases rule: record_proposal_outcome)
    case (recorded i doc)
    let ?r = "proposal_row_of i p doc (sha (canonical_json (pr_payload p)))"
    have "doc = sorted_json (pr_payload p) \<and> is_object (pr_payload p)" if "document_ok (pr_payload p)"
      using that recorded(4,5)
      by (auto simp: document_ok_def numbers_kept_def text_to_jsonb_canonical to_jsonb_def split: if_splits)
    then have "document_ok (pr_payload p) \<longrightarrow> stored_for sha p ?r"
      using recorded by (auto simp: stored_for_def proposal_row_of_def)
    moreover have "proposals_unique (insert_row ?r t)"
      using assms recorded(9)
      by (auto simp: proposals_unique_def proposal_conflicts_def proposal_row_of_def proposal_key_def)
    ultimately show ?thesis using recorded(6) by blast
  qed simp
qed simp

lemma proposal_step_inv:
  assumes "G p \<and> document_ok (pr_payload p)" and "proposals_inv sha G t"
  shows "proposals_inv sha G (proposal_step sha csha p t)"
  using proposal_step_outcome [of t sha csha p] assms by (auto simp: proposals_inv_def)

interpretation proposals: invariant_system "proposal_step sha csha" "\<lambda>p. G p \<and> document_ok (pr_payload p)"
  "proposals_inv sha G" for sha csha G
  by unfold_locales (rule proposal_step_inv)

lemma stored_for_matches:
  assumes "stored_for sha p r"
  shows "row_matches sha r p (canonical_json (pr_payload p)) (sha (canonical_json (pr_payload p))) = Inr True"
  using assms
  by (auto simp: stored_for_def row_matches_def decode_payload_def proposal_row_of_def canonical_payload_Inr
      canonical_payload_def canonical_dumps_def rbind_def)

lemma stored_for_verified:
  assumes "stored_for sha p r" and "decode (sorted_json (pr_payload p)) = Inr p"
  shows "verified_proposal sha decode r = Inr p"
proof -
  obtain i where i: "pr_proposal_id p = Some i" "pw_proposal_id r = i" "pw_payload r = sorted_json (pr_payload p)"
      "json_finite (pr_payload p)" "is_object (pr_payload p)"
    using assms(1) by (auto simp: stored_for_def proposal_row_of_def)
  then have "proposal_from_row decode r = Inr p"
    using assms(2) by (simp add: proposal_from_row_def decode_payload_def)
  moreover have "canonical_payload sha (pr_payload p) = Inr (canonical_json (pr_payload p), sha (canonical_json (pr_payload p)))"
    using i(4) by (simp add: canonical_payload_Inr)
  ultimately show ?thesis using stored_for_matches [OF assms(1)] by (simp add: verified_proposal_def)
qed

subsection \<open>Paging\<close>

lemma stored_for_fields:
  assumes "stored_for sha p r"
  shows "pw_market_as_of r = pr_market_as_of p \<and> pw_sample_id r = pr_sample_id p \<and>
    pr_proposal_id p = Some (pw_proposal_id r) \<and> 0 \<le> pw_market_as_of r \<and> int8 (pw_market_as_of r)"
proof -
  obtain i d where r: "r = proposal_row_of i p (sorted_json (pr_payload p)) d" and i: "pr_proposal_id p = Some i"
      and c: "proposal_check r" "int8 (pw_market_as_of r)"
    using assms unfolding stored_for_def by blast
  then have "pw_market_as_of r = pr_market_as_of p \<and> pw_sample_id r = pr_sample_id p \<and> pw_proposal_id r = i"
    by (simp add: proposal_row_of_def)
  with i c show ?thesis by (simp add: proposal_check_def)
qed

text \<open>A reader that asks for page after page, each from the last proposal of the one before.\<close>

fun load_all ::
  "(string \<Rightarrow> string) \<Rightarrow> (json \<Rightarrow> proposal res) \<Rightarrow> string \<Rightarrow> string \<Rightarrow> int \<Rightarrow> nat \<Rightarrow> int option \<Rightarrow> string option
     \<Rightarrow> proposal_row list \<Rightarrow> proposal list res" where
  "load_all sha decode campaign arm limit 0 after_ts after_sample t = Inr []"
| "load_all sha decode campaign arm limit (Suc n) after_ts after_sample t =
     rbind (load_page sha decode campaign arm after_ts after_sample limit t) (\<lambda>ps.
       if ps = [] then Inr []
       else rbind (load_all sha decode campaign arm limit n (Some (pr_market_as_of (last ps)))
              (Some (pr_sample_id (last ps))) t) (\<lambda>qs. Inr (ps @ qs)))"

definition all_rows :: "string \<Rightarrow> string \<Rightarrow> proposal_row list \<Rightarrow> proposal_row list" where
  "all_rows campaign arm t = sort_key page_key (filter (\<lambda>r. pw_campaign_id r = campaign \<and> pw_arm_id r = arm) t)"

definition after_cursor :: "(int \<times> string) option \<Rightarrow> proposal_row \<Rightarrow> bool" where
  "after_cursor cursor r \<longleftrightarrow> (case cursor of None \<Rightarrow> True | Some c \<Rightarrow> c < page_key r)"

lemma page_rows_all: "page_rows campaign arm cursor limit t = take (nat limit) (filter (after_cursor cursor) (all_rows campaign arm t))"
proof -
  have "filter (\<lambda>r. pw_campaign_id r = campaign \<and> pw_arm_id r = arm \<and>
      (case cursor of None \<Rightarrow> True | Some c \<Rightarrow> c < page_key r)) t =
    filter (after_cursor cursor) (filter (\<lambda>r. pw_campaign_id r = campaign \<and> pw_arm_id r = arm) t)"
    by (auto simp: after_cursor_def intro!: filter_cong)
  then show ?thesis by (simp add: page_rows_def all_rows_def filter_sort)
qed

lemma all_rows_strict:
  assumes "proposals_unique t"
  shows "sorted_wrt (\<lambda>a b. page_key a < page_key b) (all_rows campaign arm t)"
proof -
  let ?f = "filter (\<lambda>r. pw_campaign_id r = campaign \<and> pw_arm_id r = arm) t"
  have "distinct (map proposal_key t)" using assms by (simp add: proposals_unique_def unique_by_def)
  then have "distinct (map proposal_key ?f)" by (rule distinct_map_filter)
  then have "distinct (map page_key ?f)"
    by (auto simp: distinct_map inj_on_def proposal_key_def page_key_def)
  then have "distinct (map page_key (all_rows campaign arm t))" by (simp add: all_rows_def distinct_map)
  moreover have "sorted (map page_key (all_rows campaign arm t))" by (simp add: all_rows_def)
  ultimately have "sorted_wrt (<) (map page_key (all_rows campaign arm t))"
    by (simp add: strict_sorted_iff)
  then show ?thesis by (simp add: sorted_wrt_map)
qed

lemma after_last:
  assumes "sorted_wrt (\<lambda>a b. page_key a < page_key b) (xs @ ys)" and "xs \<noteq> []"
  shows "filter (after_cursor (Some (page_key (last xs)))) (xs @ ys) = ys"
proof -
  have "\<not> page_key (last xs) < page_key x" if "x \<in> set xs" for x
  proof -
    obtain zs where xs: "xs = zs @ [last xs]" using assms(2) by (metis append_butlast_last_id)
    have "sorted_wrt (\<lambda>a b. page_key a < page_key b) (zs @ [last xs])" using assms(1) xs by (metis sorted_wrt_append)
    moreover have "x \<in> set (zs @ [last xs])" using that xs by metis
    ultimately show ?thesis by (auto simp: sorted_wrt_append)
  qed
  moreover have "page_key (last xs) < page_key y" if "y \<in> set ys" for y
    using assms that by (auto simp: sorted_wrt_append)
  ultimately show ?thesis by (auto simp: after_cursor_def filter_empty_conv filter_id_conv)
qed

definition normalized :: "string \<Rightarrow> bool" where
  "normalized s \<longleftrightarrow> s \<noteq> [] \<and> s = strip s"

lemma require_identifier_ok: "normalized s \<Longrightarrow> require_identifier name s = Inr ()"
  by (auto simp: require_identifier_def normalized_def)

lemma verified_all: "(\<And>r. r \<in> set rs \<Longrightarrow> verified_proposal sha decode r = Inr (f r)) \<Longrightarrow>
    verified_proposals sha decode rs = Inr (map f rs)"
  by (induction rs) simp_all

text \<open>A row whose proposal can be read back, and can be the end of a page.\<close>

definition readable_row :: "(string \<Rightarrow> string) \<Rightarrow> (json \<Rightarrow> proposal res) \<Rightarrow> (proposal_row \<Rightarrow> proposal) \<Rightarrow> proposal_row \<Rightarrow> bool" where
  "readable_row sha decode f r \<longleftrightarrow> verified_proposal sha decode r = Inr (f r) \<and>
     pr_market_as_of (f r) = pw_market_as_of r \<and> pr_sample_id (f r) = pw_sample_id r \<and>
     pr_proposal_id (f r) = Some (pw_proposal_id r) \<and> normalized (pw_sample_id r) \<and>
     0 \<le> pw_market_as_of r \<and> int8 (pw_market_as_of r)"

lemma load_all_rows:
  assumes "proposals_unique t" and "\<And>r. r \<in> set t \<Longrightarrow> readable_row sha decode f r"
    and "normalized campaign" and "normalized arm" and "1 \<le> limit" and "limit \<le> 1000"
    and "all_rows campaign arm t = xs @ ys" and "length ys < fuel"
  shows "load_all sha decode campaign arm limit fuel (if xs = [] then None else Some (pw_market_as_of (last xs)))
      (if xs = [] then None else Some (pw_sample_id (last xs))) t = Inr (map f ys)"
  using assms(7,8)
proof (induction fuel arbitrary: xs ys)
  case (Suc fuel)
  let ?cursor = "if xs = [] then None else Some (page_key (last xs))"
  let ?page = "take (nat limit) ys"
  have all: "set (all_rows campaign arm t) \<subseteq> set t" by (auto simp: all_rows_def)
  have readable: "readable_row sha decode f r" if "r \<in> set xs \<union> set ys" for r
    using that all assms(2) Suc.prems(1) by auto
  have check: "page_check campaign arm (if xs = [] then None else Some (pw_market_as_of (last xs)))
      (if xs = [] then None else Some (pw_sample_id (last xs))) limit = Inr ?cursor"
    using assms(3-6) readable [of "last xs"]
    by (auto simp: page_check_def require_identifier_ok readable_row_def page_key_def)
  have "sorted_wrt (\<lambda>a b. page_key a < page_key b) (xs @ ys)"
    using all_rows_strict [OF assms(1)] Suc.prems(1) by metis
  then have "page_rows campaign arm ?cursor limit t = ?page"
    using after_last [of xs ys] Suc.prems(1) by (cases "xs = []") (simp_all add: page_rows_all after_cursor_def)
  moreover have "verified_proposals sha decode ?page = Inr (map f ?page)"
    using readable by (intro verified_all) (auto simp: readable_row_def dest: in_set_takeD)
  ultimately have page: "load_page sha decode campaign arm (if xs = [] then None else Some (pw_market_as_of (last xs)))
      (if xs = [] then None else Some (pw_sample_id (last xs))) limit t = Inr (map f ?page)"
    using check by (simp add: load_page_def)
  show ?case
  proof (cases "ys = []")
    case True
    with page show ?thesis by simp
  next
    case False
    then have ne: "?page \<noteq> []" using assms(5) by simp
    have l: "last ?page \<in> set ys" using ne by (metis in_set_takeD last_in_set)
    have "all_rows campaign arm t = (xs @ ?page) @ drop (nat limit) ys" using Suc.prems(1) by simp
    moreover have "length (drop (nat limit) ys) < fuel" using Suc.prems(2) assms(5) False by (cases ys) auto
    ultimately have "load_all sha decode campaign arm limit fuel (Some (pw_market_as_of (last ?page)))
        (Some (pw_sample_id (last ?page))) t = Inr (map f (drop (nat limit) ys))"
      using Suc.IH [of "xs @ ?page" "drop (nat limit) ys"] ne by (simp del: take_eq_Nil)
    moreover have "pr_market_as_of (f (last ?page)) = pw_market_as_of (last ?page)"
        "pr_sample_id (f (last ?page)) = pw_sample_id (last ?page)"
      using readable l by (auto simp: readable_row_def)
    moreover have "map f ?page @ map f (drop (nat limit) ys) = map f ys"
      unfolding map_append [symmetric] append_take_drop_id ..
    ultimately show ?thesis using page ne by (simp add: last_map del: take_eq_Nil)
  qed
qed simp

subsection \<open>Replays\<close>

lemma proposal_step_grows:
  assumes "proposals_unique t"
  shows "set t \<subseteq> set (proposal_step sha csha p t) \<and> proposals_unique (proposal_step sha csha p t)"
  using proposal_step_outcome [OF assms, of sha csha p] assms by auto

lemma proposal_run_grows:
  assumes "proposals_unique t"
  shows "set t \<subseteq> set (fold (proposal_step sha csha) ps t) \<and> proposals_unique (fold (proposal_step sha csha) ps t)"
  using assms
proof (induction ps arbitrary: t)
  case (Cons p ps)
  from proposal_step_grows [OF Cons.prems, of sha csha p] Cons.IH [of "proposal_step sha csha p t"] show ?case by auto
qed simp

text \<open>The row that answers for a recorded proposal.\<close>

lemma recorded_row:
  assumes t: "proposals_unique t" and r: "record_proposal sha csha p t = Inr (b, t')" and ok: "document_ok (pr_payload p)"
  shows "\<exists>r\<in>set t'. row_matches sha r p (canonical_json (pr_payload p)) (sha (canonical_json (pr_payload p))) = Inr True"
  using t r
proof (cases rule: record_proposal_outcome)
  case (recorded i doc)
  let ?r = "proposal_row_of i p doc (sha (canonical_json (pr_payload p)))"
  have "doc = sorted_json (pr_payload p) \<and> is_object (pr_payload p)"
    using ok recorded(4,5)
    by (auto simp: document_ok_def numbers_kept_def text_to_jsonb_canonical to_jsonb_def split: if_splits)
  then have "stored_for sha p ?r" using recorded by (auto simp: stored_for_def proposal_row_of_def)
  then show ?thesis using stored_for_matches recorded(6) by (intro bexI [of _ ?r]) auto
next
  case (replayed r')
  obtain i where i: "pr_proposal_id p = Some i" using replayed(4) by simp
  with r replayed(1,2) obtain q where q: "filter (proposal_conflicts i p) t = [q]"
      "row_matches sha q p (canonical_json (pr_payload p)) (sha (canonical_json (pr_payload p))) = Inr True"
    by (auto simp: record_proposal_def rbind_eq_Inr canonical_payload_Inr split: if_splits list.splits)
  have "q \<in> set (filter (proposal_conflicts i p) t)" by (simp add: q(1))
  then have "q \<in> set t" by simp
  with q(2) replayed(2) show ?thesis by blast
qed

lemma record_again:
  assumes r: "record_proposal sha csha p t = Inr (b, t')" and u: "proposals_unique u" and q: "q \<in> set u"
    and m: "row_matches sha q p (canonical_json (pr_payload p)) (sha (canonical_json (pr_payload p))) = Inr True"
  shows "record_proposal sha csha p u = Inr (False, u)"
proof -
  obtain i doc where i: "pr_proposal_id p = Some i" "i = csha (pr_identity p)" and fin: "json_finite (pr_payload p)"
    and doc: "text_to_jsonb (canonical_json (pr_payload p)) = Inr doc"
    and ok: "proposal_check (proposal_row_of i p doc (sha (canonical_json (pr_payload p))))"
      "int8 (pr_market_as_of p)" "int8 (pr_expires_at p)"
    using r by (auto simp: record_proposal_def rbind_eq_Inr canonical_payload_Inr insert_proposal_def proposal_row_of_def
        split: option.splits if_splits)
  note key = row_matches_True [OF m]
  have "proposal_conflicts i p x \<longleftrightarrow> pw_proposal_id x = pw_proposal_id q" if "x \<in> set u" for x
    using that q key i(1) u by (auto simp: proposal_conflicts_def proposals_unique_def dest: unique_by_eq)
  then have "filter (proposal_conflicts i p) u = filter (\<lambda>x. pw_proposal_id x = pw_proposal_id q) u"
    by (intro filter_cong) simp_all
  also have "\<dots> = [q]" using u q by (intro filter_unique) (simp_all add: proposals_unique_def)
  finally have one: "filter (proposal_conflicts i p) u = [q]" .
  have "\<exists>x\<in>set u. pw_proposal_id x = i \<or> proposal_key x = (pr_campaign_id p, pr_arm_id p, pr_sample_id p)"
    using q key by auto
  then have "insert_proposal (proposal_row_of i p doc (sha (canonical_json (pr_payload p)))) u = Inr (False, u)"
    using ok by (auto simp: insert_proposal_def list_ex_iff proposal_row_of_def proposal_key_def)
  with i fin doc one m show ?thesis by (simp add: record_proposal_def canonical_payload_def canonical_dumps_def)
qed

subsection \<open>The consumer's table\<close>

definition row_of_proposal :: "(string \<Rightarrow> string) \<Rightarrow> proposal \<Rightarrow> proposal_row \<Rightarrow> bool" where
  "row_of_proposal sha p r \<longleftrightarrow> pr_proposal_id p = Some (pw_proposal_id r) \<and>
     proposal_key r = (pr_campaign_id p, pr_arm_id p, pr_sample_id p) \<and> pw_payload_sha256 r = sha (canonical_json (pr_payload p))"

lemma recorded_identity:
  assumes "proposals_unique t" and "record_proposal sha csha p t = Inr (b, t')"
  shows "set t \<subseteq> set t' \<and> proposals_unique t' \<and> (\<exists>r\<in>set t'. row_of_proposal sha p r)"
proof -
  have "t' = proposal_step sha csha p t" using assms(2) by (simp add: proposal_step_def)
  then have "set t \<subseteq> set t' \<and> proposals_unique t'" using proposal_step_grows [OF assms(1)] by simp
  moreover from assms have "\<exists>r\<in>set t'. row_of_proposal sha p r"
    by (cases rule: record_proposal_outcome)
      (auto simp: row_of_proposal_def proposal_row_of_def proposal_key_def)
  ultimately show ?thesis by blast
qed

lemma consume_messages_recorded:
  assumes "proposals_unique t" and "consume_messages sha csha decode topic ms t = (r, u, acked)"
  shows "set t \<subseteq> set u \<and> proposals_unique u \<and> acked = map fst (take (length acked) ms) \<and>
    (\<forall>m\<in>set acked. \<exists>p. decode (pm_payload m) = Inr p \<and> (\<exists>row\<in>set u. row_of_proposal sha p row))"
  using assms
proof (induction ms arbitrary: t r u acked)
  case (Cons mm ms)
  obtain m answer where mm: "mm = (m, answer)" by fastforce
  show ?case
  proof (cases "consume_message sha csha decode topic m t")
    case (Inl e)
    with Cons.prems mm show ?thesis by auto
  next
    case (Inr x)
    then obtain b t' p where x: "x = (b, t')" "decode (pm_payload m) = Inr p" "record_proposal sha csha p t = Inr (b, t')"
      by (cases x) (auto simp: consume_message_def rbind_eq_Inr split: if_splits)
    note k = recorded_identity [OF Cons.prems(1) x(3)]
    show ?thesis
    proof (cases answer)
      case (Inl e)
      with Cons.prems mm Inr x k show ?thesis by auto
    next
      case A: (Inr y)
      obtain r' u' acked' where rest: "consume_messages sha csha decode topic ms t' = (r', u', acked')"
        by (cases "consume_messages sha csha decode topic ms t'") auto
      with Cons.prems(2) mm Inr A x(1) have out: "u = u'" "acked = m # acked'" by auto
      from Cons.IH [of t', OF _ rest] k have
        "set t' \<subseteq> set u' \<and> proposals_unique u' \<and> acked' = map fst (take (length acked') ms) \<and>
         (\<forall>m\<in>set acked'. \<exists>p. decode (pm_payload m) = Inr p \<and> (\<exists>row\<in>set u'. row_of_proposal sha p row))"
        by blast
      with k out mm x(2) show ?thesis by fastforce
    qed
  qed
qed simp

section \<open>Properties\<close>

text \<open>
  C35. What was recorded is read back: after any sequence of recordings of well-formed proposals, a reader that
  pages through a campaign and arm with any page size gets every stored proposal of it exactly once, as it was
  recorded, in the order of market time and sample.
\<close>

theorem proposals_page_through:
  assumes good: "\<And>p. p \<in> set ps \<Longrightarrow>
      document_ok (pr_payload p) \<and> decode (sorted_json (pr_payload p)) = Inr p \<and> normalized (pr_sample_id p)"
    and t: "t = fold (proposal_step sha csha) ps []"
    and names: "normalized campaign" "normalized arm" and limit: "1 \<le> limit" "limit \<le> 1000" and fuel: "length t < fuel"
  shows "\<exists>L. load_all sha decode campaign arm limit fuel None None t = Inr L \<and> set L \<subseteq> set ps \<and>
    map pr_proposal_id L = map (Some \<circ> pw_proposal_id) (all_rows campaign arm t) \<and>
    sorted_wrt (\<lambda>p q. (pr_market_as_of p, pr_sample_id p) < (pr_market_as_of q, pr_sample_id q)) L"
proof -
  let ?G = "\<lambda>p. p \<in> set ps"
  have inv: "proposals_inv sha ?G t"
    unfolding t by (rule proposals.run_inv) (use good in \<open>auto simp: list_all_iff proposals_inv_def proposals_unique_def\<close>)
  have "\<exists>f. \<forall>r\<in>set t. f r \<in> set ps \<and> stored_for sha (f r) r"
    using inv by (intro bchoice) (auto simp: proposals_inv_def)
  then obtain f where f: "\<And>r. r \<in> set t \<Longrightarrow> f r \<in> set ps \<and> stored_for sha (f r) r" by blast
  have readable: "readable_row sha decode f r" if r: "r \<in> set t" for r
  proof -
    have "verified_proposal sha decode r = Inr (f r)"
      using f [OF r] good by (blast intro: stored_for_verified)
    moreover have "normalized (pr_sample_id (f r))" using f [OF r] good by blast
    moreover have "stored_for sha (f r) r" using f [OF r] ..
    ultimately show ?thesis using stored_for_fields unfolding readable_row_def by metis
  qed
  let ?rows = "all_rows campaign arm t"
  have u: "proposals_unique t" using inv by (simp add: proposals_inv_def)
  have "length ?rows < fuel" using fuel by (simp add: all_rows_def le_less_trans [OF length_filter_le])
  then have "load_all sha decode campaign arm limit fuel None None t = Inr (map f ?rows)"
    using load_all_rows [OF u readable names limit, of "[]" ?rows] by simp
  moreover have in_t: "set ?rows \<subseteq> set t" by (auto simp: all_rows_def)
  moreover have "map pr_proposal_id (map f ?rows) = map (Some \<circ> pw_proposal_id) ?rows"
    using in_t readable by (auto simp: readable_row_def)
  moreover have keys: "(pr_market_as_of (f r), pr_sample_id (f r)) = page_key r" if "r \<in> set ?rows" for r
    using that in_t readable [of r] by (auto simp: readable_row_def page_key_def)
  then have "sorted_wrt (\<lambda>p q. (pr_market_as_of p, pr_sample_id p) < (pr_market_as_of q, pr_sample_id q)) (map f ?rows)"
    unfolding sorted_wrt_map by (intro sorted_wrt_mono_rel [OF _ all_rows_strict [OF u]]) simp
  moreover have "set (map f ?rows) \<subseteq> set ps" using in_t f by auto
  ultimately show ?thesis by blast
qed

text \<open>
  A proposal is immutable: after it was recorded, and whatever is recorded later, recording it again answers
  \<open>False\<close> and changes nothing, and a proposal of the same campaign, arm and sample is only accepted as that same
  proposal, with its id and fingerprint, and never stored.
\<close>

theorem proposal_identity_immutable:
  assumes "proposals_unique t" and "record_proposal sha csha p t = Inr (b, t1)" and "document_ok (pr_payload p)"
    and u: "u = fold (proposal_step sha csha) ps t1"
  shows "record_proposal sha csha p u = Inr (False, u) \<and>
    (\<forall>q b' u'. (pr_campaign_id q, pr_arm_id q, pr_sample_id q) = (pr_campaign_id p, pr_arm_id p, pr_sample_id p) \<longrightarrow>
       record_proposal sha csha q u = Inr (b', u') \<longrightarrow>
       \<not> b' \<and> u' = u \<and> pr_proposal_id q = pr_proposal_id p \<and>
       sha (canonical_json (pr_payload q)) = sha (canonical_json (pr_payload p)))"
proof -
  obtain r where r: "r \<in> set t1"
      "row_matches sha r p (canonical_json (pr_payload p)) (sha (canonical_json (pr_payload p))) = Inr True"
    using recorded_row [OF assms(1-3)] by blast
  have "proposals_unique t1" using recorded_identity [OF assms(1,2)] by blast
  then have g: "r \<in> set u" "proposals_unique u" using proposal_run_grows r(1) u by blast+
  note key = row_matches_True [OF r(2)]
  have "\<not> b' \<and> u' = u \<and> pr_proposal_id q = pr_proposal_id p \<and>
      sha (canonical_json (pr_payload q)) = sha (canonical_json (pr_payload p))"
    if k: "(pr_campaign_id q, pr_arm_id q, pr_sample_id q) = (pr_campaign_id p, pr_arm_id p, pr_sample_id p)"
      and q: "record_proposal sha csha q u = Inr (b', u')" for q b' u'
    using g(2) q
  proof (cases rule: record_proposal_outcome)
    case (recorded i doc)
    with g(1) key(2) k show ?thesis by (auto simp: proposal_conflicts_def)
  next
    case (replayed r')
    then have "r' = r" using g key(2) k by (auto simp: proposals_unique_def dest: unique_by_eq)
    with replayed key show ?thesis by auto
  qed
  with record_again [OF assms(2) g(2,1) r(2)] show ?thesis by blast
qed

text \<open>
  The consumer acknowledges only what it stored: whatever messages the bus yields and however their
  acknowledgements end, the messages it asked the transport to acknowledge are the first it was given, and each
  decodes to a proposal that has its row in the table.
\<close>

theorem consumer_stores_before_ack:
  assumes "proposals_unique t" and "consume_simulator_proposals sha csha decode topic consumer ms t = (r, u, acked)"
  shows "acked = map fst (take (length acked) ms) \<and>
    (\<forall>m\<in>set acked. \<exists>p. decode (pm_payload m) = Inr p \<and> (\<exists>row\<in>set u. row_of_proposal sha p row))"
  using consume_messages_recorded [OF assms(1)] assms(2)
  by (auto simp: consume_simulator_proposals_def split: if_splits)

section \<open>Witnesses\<close>

definition sample_csha :: "json \<Rightarrow> string" where
  "sample_csha j = (case j of JStr (c # cs) \<Rightarrow> replicate 64 c | _ \<Rightarrow> [])"

definition sample_sha :: "string \<Rightarrow> string" where
  "sample_sha s = replicate 64 (if list_ex (\<lambda>c. c = CHR ''x'') s then CHR ''e'' else CHR ''f'')"

definition sample_proposal :: "char \<Rightarrow> int \<Rightarrow> string \<Rightarrow> string \<Rightarrow> proposal" where
  "sample_proposal c at sample v = \<lparr>pr_proposal_id = Some (replicate 64 c), pr_campaign_id = ''camp'', pr_arm_id = ''arm'',
     pr_sample_id = sample, pr_symbol = ''BTC'', pr_timeframe = ''1h'', pr_market_as_of = at, pr_expires_at = at,
     pr_snapshot_sha256 = replicate 64 (CHR ''0''), pr_action = ''DEFER'', pr_identity = JStr [c],
     pr_payload = JObj [(''v'', JStr v)]\<rparr>"

definition sample_decode :: "json \<Rightarrow> proposal res" where
  "sample_decode j = (if j = JObj [(''v'', JStr ''x'')] then Inr (sample_proposal (CHR ''a'') 7 ''s2'' ''x'')
     else if j = JObj [(''v'', JStr ''y'')] then Inr (sample_proposal (CHR ''b'') 5 ''s1'' ''y'')
     else Inl (ValueError ''LLMTradeProposalV1''))"

definition sample_proposals :: "proposal list" where
  "sample_proposals = [sample_proposal (CHR ''a'') 7 ''s2'' ''x'', sample_proposal (CHR ''b'') 5 ''s1'' ''y'']"

definition sample_table :: "proposal_row list" where
  "sample_table = fold (proposal_step sample_sha sample_csha) sample_proposals []"

lemma sample_facts:
  "list_all (\<lambda>p. document_ok (pr_payload p) \<and> sample_decode (sorted_json (pr_payload p)) = Inr p \<and>
     normalized (pr_sample_id p)) sample_proposals"
  "normalized ''camp''" "normalized ''arm''" "map pw_sample_id (all_rows ''camp'' ''arm'' sample_table) = [''s1'', ''s2'']"
  by code_simp+

theorem proposals_page_through_witness:
  "\<exists>L. load_all sample_sha sample_decode ''camp'' ''arm'' 1 3 None None sample_table = Inr L \<and> length L = 2"
proof -
  have good: "document_ok (pr_payload p) \<and> sample_decode (sorted_json (pr_payload p)) = Inr p \<and> normalized (pr_sample_id p)"
    if "p \<in> set sample_proposals" for p
    using sample_facts(1) that unfolding list_all_iff by blast
  have "length sample_table < 3" by code_simp
  from proposals_page_through [OF good sample_table_def sample_facts(2,3) _ _ this, of 1] obtain L
    where "load_all sample_sha sample_decode ''camp'' ''arm'' 1 3 None None sample_table = Inr L"
      "map pr_proposal_id L = map (Some \<circ> pw_proposal_id) (all_rows ''camp'' ''arm'' sample_table)"
    by auto
  moreover from this(2) have "length L = length (map pw_sample_id (all_rows ''camp'' ''arm'' sample_table))"
    by (metis length_map)
  ultimately show ?thesis using sample_facts(4) by simp
qed

theorem proposal_identity_immutable_witness:
  "\<exists>t1. record_proposal sample_sha sample_csha (sample_proposal (CHR ''a'') 7 ''s2'' ''x'') [] = Inr (True, t1) \<and>
     record_proposal sample_sha sample_csha (sample_proposal (CHR ''a'') 7 ''s2'' ''x'') t1 = Inr (False, t1)"
proof -
  let ?p = "sample_proposal (CHR ''a'') 7 ''s2'' ''x''"
  have "map_sum id fst (record_proposal sample_sha sample_csha ?p []) = Inr True" "document_ok (pr_payload ?p)"
    by code_simp+
  then obtain t1 where "record_proposal sample_sha sample_csha ?p [] = Inr (True, t1)"
    by (cases "record_proposal sample_sha sample_csha ?p []") auto
  moreover have "proposals_unique []" by (simp add: proposals_unique_def)
  ultimately show ?thesis
    using proposal_identity_immutable [of "[]" sample_sha sample_csha ?p True t1 t1 "[]"] \<open>document_ok (pr_payload ?p)\<close>
    by auto
qed

definition sample_messages :: "(proposal_message \<times> unit res) list" where
  "sample_messages = [(\<lparr>pm_id = ''1'', pm_topic = ''p'', pm_payload = JObj [(''v'', JStr ''y'')]\<rparr>, Inr ()),
     (\<lparr>pm_id = ''2'', pm_topic = ''p'', pm_payload = JNull\<rparr>, Inr ())]"

definition sample_run :: "unit res \<times> proposal_row list \<times> proposal_message list" where
  "sample_run = consume_simulator_proposals sample_sha sample_csha sample_decode ''p'' ''sim'' sample_messages []"

theorem consumer_stores_before_ack_witness:
  "map pm_id (snd (snd sample_run)) = [''1''] \<and> fst (snd sample_run) \<noteq> []"
proof -
  obtain r u acked where run: "sample_run = (r, u, acked)" by (cases sample_run) auto
  have ids: "map pm_id (snd (snd sample_run)) = [''1'']" by code_simp
  have "map pm_id acked \<noteq> []" using ids unfolding run snd_conv by (metis list.distinct(1))
  then have "acked \<noteq> []" by blast
  moreover have "proposals_unique []" by (simp add: proposals_unique_def)
  ultimately have "u \<noteq> []"
    using consumer_stores_before_ack [of "[]" sample_sha sample_csha sample_decode "''p''" "''sim''" sample_messages r u acked]
      run unfolding sample_run_def by (cases acked) auto
  then show ?thesis using ids unfolding run fst_conv snd_conv by blast
qed

end
