(* ===== verification/SimulatorTape.thy ===== *)
theory SimulatorTape
  imports HashChain AuditLog Outbox "HOL-Library.AList" "HOL-Library.Product_Lexorder"
begin

text \<open>
  The input tapes of the isolated market simulator: \<open>SimulationRepository\<close> of
  \<open>kairos_persistence/simulation_repository.py\<close> over \<open>sim_tapes\<close>, \<open>sim_closed_bars\<close> and \<open>sim_book_frames\<close> of
  migrations 017 and 019. The public contracts are outside (\<open>kairos_core\<close>): a bar, a frame and a seal are the
  records of what the code reads of them, with \<open>to_payload()\<close>; \<open>model_validate\<close>, the equality of two frames and the
  constructor of the seal are fields of \<open>tape_models\<close>.
\<close>

record closed_bar =
  mb_symbol :: string
  mb_venue :: string
  mb_open_time :: int
  mb_close_time :: int
  mb_sha256 :: "string option"
  mb_message_id :: string
  mb_payload :: json

text \<open>\<open>mf_evidence\<close> is the pair \<open>source_reason\<close>, \<open>raw_payload\<close> that only the second version of a frame has.\<close>

record book_frame =
  mf_tape_id :: string
  mf_sequence :: int
  mf_symbol :: string
  mf_epoch :: string
  mf_update_id :: int
  mf_exchange_at :: int
  mf_received_at :: int
  mf_persisted_at :: int
  mf_continuity :: string
  mf_sha256 :: "string option"
  mf_previous :: "string option"
  mf_raw_sha256 :: string
  mf_version :: string
  mf_evidence :: "(string \<times> string) option"
  mf_message_id :: string
  mf_payload :: json

type_synonym chain_head = "string \<times> int \<times> string"

text \<open>\<open>sv_payload\<close> is \<open>to_payload()\<close>, \<open>sv_dump\<close> is \<open>model_dump(mode="json")\<close>.\<close>

record tape_seal =
  sv_tape_sha256 :: "string option"
  sv_bar_chains :: "chain_head list"
  sv_book_chain :: "int \<times> string"
  sv_payload :: json
  sv_dump :: json

record tape_models =
  decode_bar :: "json \<Rightarrow> closed_bar option"
  decode_frame_v1 :: "json \<Rightarrow> book_frame option"
  decode_frame_v2 :: "json \<Rightarrow> book_frame option"
  equal_frames :: "book_frame \<Rightarrow> book_frame \<Rightarrow> bool"
  make_seal :: "string \<Rightarrow> string \<Rightarrow> int \<Rightarrow> chain_head list \<Rightarrow> int \<times> string \<Rightarrow> tape_seal res"
  decode_seal :: "json \<Rightarrow> tape_seal option"

subsection \<open>Tables\<close>

datatype tape_state = TAPE_OPEN | TAPE_SEALED | TAPE_BLOCKED

record tape_row =
  tp_tape_id :: string
  tp_state :: tape_state
  tp_sealed_at :: "timestamp option"
  tp_blocked_at :: "timestamp option"
  tp_blocked_reason :: "string option"
  tp_tape_sha256 :: "string option"
  tp_seal_sha256 :: "string option"
  tp_seal_payload :: "json option"
  tp_frame_count :: int
  tp_chain_head :: "string option"

record bar_row =
  br_tape_id :: string
  br_symbol :: string
  br_open_time :: int
  br_close_time :: int
  br_sha256 :: string
  br_previous :: "string option"
  br_chain :: string
  br_payload_sha256 :: string
  br_payload :: json

record frame_row =
  fr_tape_id :: string
  fr_sequence :: int
  fr_symbol :: string
  fr_epoch :: string
  fr_update_id :: int
  fr_exchange_at :: int
  fr_received_at :: int
  fr_persisted_at :: int
  fr_continuity :: string
  fr_sha256 :: string
  fr_previous :: "string option"
  fr_chain :: string
  fr_raw_sha256 :: string
  fr_version :: string
  fr_evidence :: "string option \<times> string option"
  fr_payload_sha256 :: string
  fr_payload :: json

record tape_db =
  tdb_tapes :: "tape_row list"
  tdb_bars :: "bar_row list"
  tdb_frames :: "frame_row list"
  tdb_audit :: "audit_row list"
  tdb_outbox :: "outbox_row list"

definition sim_symbols :: "string list" where
  "sim_symbols = [''BTCUSDT'', ''ETHUSDT'', ''SOLUSDT'', ''BNBUSDT'', ''XRPUSDT'']"

definition continuities :: "string list" where
  "continuities = [''ADMITTED'', ''GAP'', ''RECONNECT'', ''UNKNOWN'', ''UNAVAILABLE'']"

definition optional_hex :: "string option \<Rightarrow> bool" where
  "optional_hex x = (case x of None \<Rightarrow> True | Some s \<Rightarrow> sha256_hex s)"

definition tape_check :: "tape_row \<Rightarrow> bool" where
  "tape_check r \<longleftrightarrow> \<not> spaces_only (tp_tape_id r) \<and> optional_hex (tp_tape_sha256 r) \<and> optional_hex (tp_seal_sha256 r) \<and>
     0 \<le> tp_frame_count r \<and> optional_hex (tp_chain_head r) \<and>
     (tp_state r = TAPE_SEALED) = (tp_sealed_at r \<noteq> None \<and> tp_tape_sha256 r \<noteq> None \<and> tp_seal_sha256 r \<noteq> None \<and>
        tp_seal_payload r \<noteq> None) \<and>
     (tp_state r = TAPE_BLOCKED \<longrightarrow> tp_blocked_at r \<noteq> None)"

definition bar_check :: "bar_row \<Rightarrow> bool" where
  "bar_check r \<longleftrightarrow> br_symbol r \<in> set sim_symbols \<and> 0 \<le> br_open_time r \<and> br_open_time r mod 60000 = 0 \<and>
     br_close_time r = br_open_time r + 59999 \<and> sha256_hex (br_sha256 r) \<and> optional_hex (br_previous r) \<and>
     sha256_hex (br_chain r) \<and> sha256_hex (br_payload_sha256 r)"

text \<open>\<open>^[A-Z][A-Z0-9]*(?:_[A-Z0-9]+)*$\<close>\<close>

definition reason_char :: "char \<Rightarrow> bool" where
  "reason_char c \<longleftrightarrow> (CHR ''A'' \<le> c \<and> c \<le> CHR ''Z'') \<or> py_digit c"

fun reason_tail :: "string \<Rightarrow> bool" where
  "reason_tail [] = True"
| "reason_tail (c # cs) = (if c = CHR ''_'' then (case cs of [] \<Rightarrow> False | d # ds \<Rightarrow> reason_char d \<and> reason_tail ds)
     else reason_char c \<and> reason_tail cs)"

definition reason_code :: "string \<Rightarrow> bool" where
  "reason_code s = (case s of [] \<Rightarrow> False | c # cs \<Rightarrow> reason_char c \<and> \<not> py_digit c \<and> reason_tail cs)"

definition frame_check :: "frame_row \<Rightarrow> bool" where
  "frame_check r \<longleftrightarrow> 0 < fr_sequence r \<and> fr_symbol r \<in> set sim_symbols \<and> \<not> spaces_only (fr_epoch r) \<and> 0 < fr_update_id r \<and>
     0 \<le> fr_exchange_at r \<and> fr_exchange_at r \<le> fr_received_at r \<and> fr_received_at r \<le> fr_persisted_at r \<and>
     fr_continuity r \<in> set continuities \<and> sha256_hex (fr_sha256 r) \<and> optional_hex (fr_previous r) \<and>
     sha256_hex (fr_chain r) \<and> sha256_hex (fr_raw_sha256 r) \<and> sha256_hex (fr_payload_sha256 r) \<and>
     (fr_version r = ''sim-book-frame.v1'' \<and> fr_evidence r = (None, None) \<or>
      fr_version r = ''sim-book-frame.v2'' \<and>
        (case fr_evidence r of (Some reason, Some raw) \<Rightarrow> reason_code reason \<and> raw \<noteq> [] | _ \<Rightarrow> False))"

definition bar_key :: "bar_row \<Rightarrow> string \<times> string \<times> int" where
  "bar_key r = (br_tape_id r, br_symbol r, br_open_time r)"

definition frame_key :: "frame_row \<Rightarrow> string \<times> int" where
  "frame_key r = (fr_tape_id r, fr_sequence r)"

definition insert_bar :: "bar_row \<Rightarrow> bar_row list \<Rightarrow> bar_row list res" where
  "insert_bar r t =
     (if \<not> int8 (br_open_time r) \<or> \<not> int8 (br_close_time r) then Inl (DataError ''value out of int64 range'')
      else if \<not> bar_check r then Inl (IntegrityError ''sim_closed_bars_check'')
      else if bar_key r \<in> bar_key ` set t \<or>
        list_ex (\<lambda>q. br_tape_id q = br_tape_id r \<and> br_symbol q = br_symbol r \<and>
          (br_sha256 q = br_sha256 r \<or> br_chain q = br_chain r)) t
      then Inl (IntegrityError ''sim_closed_bars_key'')
      else Inr (insert_row r t))"

definition insert_frame :: "frame_row \<Rightarrow> frame_row list \<Rightarrow> frame_row list res" where
  "insert_frame r t =
     (if \<not> list_all int8 [fr_sequence r, fr_update_id r, fr_exchange_at r, fr_received_at r, fr_persisted_at r]
      then Inl (DataError ''value out of int64 range'')
      else if \<not> frame_check r then Inl (IntegrityError ''sim_book_frames_check'')
      else if frame_key r \<in> frame_key ` set t \<or>
        list_ex (\<lambda>q. fr_tape_id q = fr_tape_id r \<and> (fr_sha256 q = fr_sha256 r \<or> fr_chain q = fr_chain r)) t
      then Inl (IntegrityError ''sim_book_frames_key'')
      else Inr (insert_row r t))"

text \<open>An \<open>UPDATE\<close> of the one row of a tape; its constraints are tested on the new row.\<close>

definition update_tape :: "string \<Rightarrow> (tape_row \<Rightarrow> bool) \<Rightarrow> (tape_row \<Rightarrow> tape_row) \<Rightarrow> tape_row list \<Rightarrow> tape_row list res" where
  "update_tape tape P f t =
     (if list_all (\<lambda>r. tp_tape_id r = tape \<and> P r \<longrightarrow> tape_check (f r)) t
      then Inr (update_where (\<lambda>r. tp_tape_id r = tape \<and> P r) f t)
      else Inl (IntegrityError ''sim_tapes_check''))"

subsection \<open>Stored documents\<close>

definition validate_text :: "string \<Rightarrow> string \<Rightarrow> unit res" where
  "validate_text name value =
     (if value = [] \<or> value \<noteq> strip value \<or> 128 < length value
      then Inl (ValueError (name @ '' must be a normalized non-empty string no longer than 128 characters''))
      else Inr ())"

definition validate_timestamp :: "string \<Rightarrow> int \<Rightarrow> unit res" where
  "validate_timestamp name value =
     (if value < 0 then Inl (ValueError (name @ '' must be a non-negative integer Unix timestamp in milliseconds''))
      else Inr ())"

definition stored_object :: "json \<Rightarrow> json res" where
  "stored_object j = (if is_object j then Inr j
     else Inl (MessageIdentityConflict ''durable simulator payload is not a JSON object''))"

text \<open>\<open>_assert_payload_identity\<close>; the identifier is the stored one with the expected one.\<close>

definition assert_payload_identity ::
  "(string \<Rightarrow> string) \<Rightarrow> string \<Rightarrow> json \<Rightarrow> string \<Rightarrow> string \<Rightarrow> (string \<times> string) option \<Rightarrow> unit res" where
  "assert_payload_identity sha entity payload stored expected identifier =
     rbind (stored_object payload) (\<lambda>j.
     rbind (canonical_payload sha j) (\<lambda>(_, actual).
       if stored \<noteq> actual
       then Inl (MessageIdentityConflict (entity @ '' stored payload hash does not match its durable JSON''))
       else if actual \<noteq> expected
       then Inl (MessageIdentityConflict (entity @ '' stable ID was reused with a different immutable payload''))
       else case identifier of
           None \<Rightarrow> Inr ()
         | Some (found, wanted) \<Rightarrow>
             if found \<noteq> wanted
             then Inl (MessageIdentityConflict (entity @ '' stable identifier was reused with a different value''))
             else Inr ()))"

definition stored_model ::
  "(string \<Rightarrow> string) \<Rightarrow> (json \<Rightarrow> 'm option) \<Rightarrow> string \<Rightarrow> json \<Rightarrow> string \<Rightarrow> 'm res" where
  "stored_model sha decode entity payload stored =
     rbind (stored_object payload) (\<lambda>j.
     rbind (canonical_payload sha j) (\<lambda>(_, actual).
       if actual \<noteq> stored
       then Inl (MessageIdentityConflict (entity @ '' stored payload hash does not match its durable JSON''))
       else case decode j of
           None \<Rightarrow> Inl (MessageIdentityConflict (entity @ '' stored payload no longer satisfies its public contract''))
         | Some m \<Rightarrow> Inr m))"

definition raw_evidence :: "book_frame \<Rightarrow> string option \<times> string option" where
  "raw_evidence f = (case mf_evidence f of None \<Rightarrow> (None, None) | Some (reason, raw) \<Rightarrow> (Some reason, Some raw))"

definition frame_decoder :: "tape_models \<Rightarrow> json \<Rightarrow> (json \<Rightarrow> book_frame option) option" where
  "frame_decoder M payload = (case str_field ''contract_version'' payload of
       None \<Rightarrow> None
     | Some v \<Rightarrow> if v = ''sim-book-frame.v1'' then Some (decode_frame_v1 M)
               else if v = ''sim-book-frame.v2'' then Some (decode_frame_v2 M) else None)"

definition stored_frame :: "(string \<Rightarrow> string) \<Rightarrow> tape_models \<Rightarrow> frame_row \<Rightarrow> book_frame res" where
  "stored_frame sha M r =
     rbind (stored_object (fr_payload r)) (\<lambda>j.
     rbind (canonical_payload sha j) (\<lambda>(_, actual).
       if actual \<noteq> fr_payload_sha256 r
       then Inl (MessageIdentityConflict ''simulation book frame stored payload hash does not match its durable JSON'')
       else case frame_decoder M j of
           None \<Rightarrow> Inl (MessageIdentityConflict ''simulation book frame has an unknown contract version'')
         | Some decode \<Rightarrow> (case decode j of
             None \<Rightarrow> Inl (MessageIdentityConflict
               ''simulation book frame stored payload no longer satisfies its public contract'')
           | Some f \<Rightarrow>
               if mf_sha256 f \<noteq> Some (fr_sha256 r)
               then Inl (MessageIdentityConflict ''simulation book frame identifier does not match durable payload'')
               else if fr_raw_sha256 r \<noteq> mf_raw_sha256 f
               then Inl (MessageIdentityConflict ''simulation book raw payload hash does not match durable payload'')
               else if fr_version r \<noteq> mf_version f
               then Inl (MessageIdentityConflict ''simulation book contract version does not match durable payload'')
               else if fr_evidence r \<noteq> raw_evidence f
               then Inl (MessageIdentityConflict ''simulation book raw evidence columns do not match durable payload'')
               else Inr f)))"

definition assert_frame_storage ::
  "(string \<Rightarrow> string) \<Rightarrow> tape_models \<Rightarrow> frame_row \<Rightarrow> book_frame \<Rightarrow> unit res" where
  "assert_frame_storage sha M r expected =
     rbind (stored_frame sha M r) (\<lambda>actual.
       if \<not> equal_frames M actual expected
       then Inl (MessageIdentityConflict ''simulation book frame stable ID was reused with different evidence'')
       else Inr ())"

definition chain_document :: "string \<Rightarrow> string \<Rightarrow> string option \<Rightarrow> string option \<Rightarrow> string \<Rightarrow> json" where
  "chain_document domain tape symbol previous leaf = JObj
     [(''domain'', JStr domain), (''leaf_sha256'', JStr leaf), (''previous_chain_sha256'', json_text previous),
      (''symbol'', json_text symbol), (''tape_id'', JStr tape)]"

definition chain_sha256 ::
  "(string \<Rightarrow> string) \<Rightarrow> string \<Rightarrow> string \<Rightarrow> string option \<Rightarrow> string option \<Rightarrow> string \<Rightarrow> string" where
  "chain_sha256 sha domain tape symbol previous leaf = sha (canonical_json (chain_document domain tape symbol previous leaf))"

definition bar_chain_sha256 :: "(string \<Rightarrow> string) \<Rightarrow> string \<Rightarrow> string \<Rightarrow> string option \<Rightarrow> string \<Rightarrow> string" where
  "bar_chain_sha256 sha tape symbol = chain_sha256 sha ''kairos.sim.closed-bar-chain.v1'' tape (Some symbol)"

definition frame_chain_sha256 :: "(string \<Rightarrow> string) \<Rightarrow> string \<Rightarrow> string option \<Rightarrow> string \<Rightarrow> string" where
  "frame_chain_sha256 sha tape = chain_sha256 sha ''kairos.sim.book-frame-chain.v1'' tape None"

text \<open>The row of a query with \<open>ORDER BY key DESC LIMIT 1\<close>.\<close>

definition latest_by :: "('r \<Rightarrow> int) \<Rightarrow> 'r list \<Rightarrow> 'r option" where
  "latest_by key rows = (case rev (sort_key key rows) of [] \<Rightarrow> None | r # rs \<Rightarrow> Some r)"

subsection \<open>Recording\<close>

definition open_tape :: "string \<Rightarrow> tape_row" where
  "open_tape tape = \<lparr>tp_tape_id = tape, tp_state = TAPE_OPEN, tp_sealed_at = None, tp_blocked_at = None,
     tp_blocked_reason = None, tp_tape_sha256 = None, tp_seal_sha256 = None, tp_seal_payload = None,
     tp_frame_count = 0, tp_chain_head = None\<rparr>"

definition tape_at :: "string \<Rightarrow> tape_db \<Rightarrow> tape_row option" where
  "tape_at tape db = select_one (\<lambda>r. tp_tape_id r = tape) (tdb_tapes db)"

definition ensure_open_tape :: "string \<Rightarrow> tape_db \<Rightarrow> tape_db res" where
  "ensure_open_tape tape db =
     (if \<not> tape_check (open_tape tape) then Inl (IntegrityError ''sim_tapes_check'')
      else let db' = (case tape_at tape db of
             None \<Rightarrow> db\<lparr>tdb_tapes := insert_row (open_tape tape) (tdb_tapes db)\<rparr> | Some _ \<Rightarrow> db) in
        case tape_at tape db' of
          None \<Rightarrow> Inl (ValueError ''simulation tape is not open for another immutable input'')
        | Some r \<Rightarrow> if tp_state r \<noteq> TAPE_OPEN
            then Inl (ValueError ''simulation tape is not open for another immutable input'')
            else Inr db')"

definition bars_of :: "string \<Rightarrow> string \<Rightarrow> tape_db \<Rightarrow> bar_row list" where
  "bars_of tape symbol db = filter (\<lambda>r. br_tape_id r = tape \<and> br_symbol r = symbol) (tdb_bars db)"

definition frames_of :: "string \<Rightarrow> tape_db \<Rightarrow> frame_row list" where
  "frames_of tape db = filter (\<lambda>r. fr_tape_id r = tape) (tdb_frames db)"

definition bar_row_of ::
  "(string \<Rightarrow> string) \<Rightarrow> string \<Rightarrow> closed_bar \<Rightarrow> string \<Rightarrow> bar_row option \<Rightarrow> json \<Rightarrow> string \<Rightarrow> bar_row" where
  "bar_row_of sha tape bar leaf previous doc digest = \<lparr>br_tape_id = tape, br_symbol = mb_symbol bar,
     br_open_time = mb_open_time bar, br_close_time = mb_close_time bar, br_sha256 = leaf,
     br_previous = map_option br_sha256 previous,
     br_chain = bar_chain_sha256 sha tape (mb_symbol bar) (map_option br_chain previous) leaf,
     br_payload_sha256 = digest, br_payload = doc\<rparr>"

definition record_closed_bar ::
  "(string \<Rightarrow> string) \<Rightarrow> string \<Rightarrow> closed_bar \<Rightarrow> tape_db \<Rightarrow> (bool \<times> tape_db) res" where
  "record_closed_bar sha tape bar db =
     rbind (validate_text ''tape_id'' tape) (\<lambda>_.
     case mb_sha256 bar of
       None \<Rightarrow> Inl (ValueError ''simulator accepts only canonical five-symbol Binance UM closed bars'')
     | Some leaf \<Rightarrow>
       if mb_symbol bar \<notin> set sim_symbols \<or> mb_venue bar \<noteq> ''BINANCE_UM''
       then Inl (ValueError ''simulator accepts only canonical five-symbol Binance UM closed bars'')
       else if mb_message_id bar \<noteq> leaf
       then Inl (ValueError ''simulator closed bar message_id must equal its immutable bar hash'')
       else rbind (canonical_payload sha (mb_payload bar)) (\<lambda>(encoded, digest).
         rbind (ensure_open_tape tape db) (\<lambda>db1.
         case select_one (\<lambda>r. bar_key r = (tape, mb_symbol bar, mb_open_time bar)) (tdb_bars db1) of
           Some r \<Rightarrow> rbind (assert_payload_identity sha ''simulation closed bar'' (br_payload r) (br_payload_sha256 r)
               digest (Some (br_sha256 r, leaf))) (\<lambda>_. Inr (False, db1))
         | None \<Rightarrow>
           let previous = latest_by br_open_time (bars_of tape (mb_symbol bar) db1) in
           if (case previous of None \<Rightarrow> False | Some p \<Rightarrow> mb_open_time bar \<noteq> br_close_time p + 1)
           then Inl (ValueError ''simulation tape closed bars must be a contiguous prefix'')
           else rbind (stored_canonical (mb_payload bar)) (\<lambda>doc.
             rbind (insert_bar (bar_row_of sha tape bar leaf previous doc digest) (tdb_bars db1)) (\<lambda>bars.
               Inr (True, db1\<lparr>tdb_bars := bars\<rparr>))))))"

text \<open>The checks of a frame against the last one of its tape, and against the last one of its symbol.\<close>

definition frame_follows :: "frame_row option \<Rightarrow> book_frame \<Rightarrow> unit res" where
  "frame_follows previous f = (case previous of
       None \<Rightarrow> if mf_sequence f \<noteq> 1 \<or> mf_previous f \<noteq> None
         then Inl (ValueError ''a simulation book tape must start at global sequence one'') else Inr ()
     | Some p \<Rightarrow> if mf_sequence f \<noteq> fr_sequence p + 1
         then Inl (ValueError ''simulation book frames must have contiguous global tape sequences'')
         else if mf_previous f \<noteq> Some (fr_sha256 p)
         then Inl (MessageIdentityConflict ''simulation book predecessor does not match the durable tape'')
         else Inr ())"

definition clocks_regress :: "frame_row \<Rightarrow> book_frame \<Rightarrow> bool" where
  "clocks_regress q f \<longleftrightarrow> mf_update_id f \<le> fr_update_id q \<or> mf_exchange_at f < fr_exchange_at q \<or>
     mf_received_at f < fr_received_at q \<or> mf_persisted_at f < fr_persisted_at q"

definition symbol_follows :: "frame_row option \<Rightarrow> book_frame \<Rightarrow> unit res" where
  "symbol_follows same f = (case same of
       None \<Rightarrow> Inr ()
     | Some q \<Rightarrow> if mf_epoch f = fr_epoch q
         then (if clocks_regress q f
               then Inl (ValueError ''simulation frame clocks or update IDs regressed for its symbol'') else Inr ())
         else if mf_continuity f \<noteq> ''RECONNECT''
         then Inl (ValueError ''a simulation stream epoch change must be recorded as a reconnect barrier'')
         else Inr ())"

definition frame_row_of ::
  "(string \<Rightarrow> string) \<Rightarrow> book_frame \<Rightarrow> string \<Rightarrow> frame_row option \<Rightarrow> json \<Rightarrow> string \<Rightarrow> frame_row" where
  "frame_row_of sha f leaf previous doc digest = \<lparr>fr_tape_id = mf_tape_id f, fr_sequence = mf_sequence f,
     fr_symbol = mf_symbol f, fr_epoch = mf_epoch f, fr_update_id = mf_update_id f, fr_exchange_at = mf_exchange_at f,
     fr_received_at = mf_received_at f, fr_persisted_at = mf_persisted_at f, fr_continuity = mf_continuity f,
     fr_sha256 = leaf, fr_previous = mf_previous f,
     fr_chain = frame_chain_sha256 sha (mf_tape_id f) (map_option fr_chain previous) leaf,
     fr_raw_sha256 = mf_raw_sha256 f, fr_version = mf_version f, fr_evidence = raw_evidence f,
     fr_payload_sha256 = digest, fr_payload = doc\<rparr>"

definition counted_frame :: "book_frame \<Rightarrow> string \<Rightarrow> timestamp \<Rightarrow> tape_row \<Rightarrow> tape_row" where
  "counted_frame f head now r =
     (let r' = r\<lparr>tp_frame_count := tp_frame_count r + 1, tp_chain_head := Some head\<rparr> in
      if mf_continuity f = ''ADMITTED'' then r'
      else r'\<lparr>tp_state := TAPE_BLOCKED, tp_blocked_at := Some now,
             tp_blocked_reason := Some (''SOURCE_'' @ mf_continuity f)\<rparr>)"

definition replayed_frame ::
  "(string \<Rightarrow> string) \<Rightarrow> tape_models \<Rightarrow> frame_row \<Rightarrow> string \<Rightarrow> string \<Rightarrow> book_frame \<Rightarrow> unit res" where
  "replayed_frame sha M r digest leaf f =
     rbind (assert_payload_identity sha ''simulation book frame'' (fr_payload r) (fr_payload_sha256 r) digest
              (Some (fr_sha256 r, leaf))) (\<lambda>_. assert_frame_storage sha M r f)"

definition record_book_frame ::
  "(string \<Rightarrow> string) \<Rightarrow> tape_models \<Rightarrow> book_frame \<Rightarrow> timestamp \<Rightarrow> tape_db \<Rightarrow> (bool \<times> tape_db) res" where
  "record_book_frame sha M f now db =
     (case mf_sha256 f of
        None \<Rightarrow> Inl (ValueError ''simulation book frame requires its canonical message and frame identity'')
      | Some leaf \<Rightarrow>
        if mf_message_id f \<noteq> leaf
        then Inl (ValueError ''simulation book frame requires its canonical message and frame identity'')
        else rbind (canonical_payload sha (mf_payload f)) (\<lambda>(encoded, digest).
          rbind (ensure_open_tape (mf_tape_id f) db) (\<lambda>db1.
          case select_one (\<lambda>r. frame_key r = (mf_tape_id f, mf_sequence f)) (tdb_frames db1) of
            Some r \<Rightarrow> rbind (replayed_frame sha M r digest leaf f) (\<lambda>_. Inr (False, db1))
          | None \<Rightarrow> (case select_one (\<lambda>r. fr_tape_id r = mf_tape_id f \<and> fr_sha256 r = leaf) (tdb_frames db1) of
            Some r \<Rightarrow> rbind (replayed_frame sha M r digest leaf f) (\<lambda>_.
              Inl (MessageIdentityConflict ''simulation book frame was replayed at a different tape sequence''))
          | None \<Rightarrow>
            let frames = frames_of (mf_tape_id f) db1;
                previous = latest_by fr_sequence frames;
                row = frame_row_of sha f leaf previous in
            rbind (frame_follows previous f) (\<lambda>_.
            rbind (symbol_follows (latest_by fr_sequence (filter (\<lambda>r. fr_symbol r = mf_symbol f) frames)) f) (\<lambda>_.
            rbind (stored_canonical (mf_payload f)) (\<lambda>doc.
            rbind (insert_frame (row doc digest) (tdb_frames db1)) (\<lambda>stored.
            rbind (update_tape (mf_tape_id f) (\<lambda>_. True) (counted_frame f (fr_chain (row doc digest)) now) (tdb_tapes db1)) (\<lambda>tapes.
              Inr (True, db1\<lparr>tdb_frames := stored, tdb_tapes := tapes\<rparr>))))))))))"

subsection \<open>Sealing\<close>

definition simulator_outbox_producer :: string where
  "simulator_outbox_producer = ''kairos-market-simulator''"

text \<open>\<open>_append_artifact\<close>: the audit fact and the outbox row of a public artifact; \<open>dump\<close> is its \<open>model_dump\<close>.\<close>

definition append_artifact ::
  "(string \<Rightarrow> string) \<Rightarrow> int \<Rightarrow> string \<Rightarrow> json \<Rightarrow> timestamp \<Rightarrow> audit_row list \<times> outbox_row list
     \<Rightarrow> (audit_row list \<times> outbox_row list) res" where
  "append_artifact sha nid topic dump now tables =
     (if \<not> is_object dump then Inl (TypeError ''simulation public model did not produce an object payload'')
      else case filled_field ''message_id'' dump of
          None \<Rightarrow> Inl (ValueError ''simulation public artifact requires a stable message_id'')
        | Some message_id \<Rightarrow>
            rbind (canonical_payload sha dump) (\<lambda>(encoded, digest).
            rbind (append_payload_strict sha topic dump encoded digest (fst tables)) (\<lambda>(_, audit).
            rbind (enqueue_outbox nid message_id topic encoded digest simulator_outbox_producer now (snd tables)) (\<lambda>(_, outbox).
              Inr (audit, outbox)))))"

text \<open>One row per symbol with bars, in the order of the symbols: the number of its bars and the newest chain digest.\<close>

definition tape_symbols :: "string \<Rightarrow> tape_db \<Rightarrow> string list" where
  "tape_symbols tape db = sort (remdups (map br_symbol (filter (\<lambda>r. br_tape_id r = tape) (tdb_bars db))))"

definition chain_head_of :: "bar_row list \<Rightarrow> int \<times> string" where
  "chain_head_of rows = (int (length rows),
     case latest_by br_open_time rows of None \<Rightarrow> [] | Some r \<Rightarrow> br_chain r)"

definition bar_heads :: "string \<Rightarrow> tape_db \<Rightarrow> chain_head list" where
  "bar_heads tape db = map (\<lambda>s. (s, chain_head_of (bars_of tape s db))) (tape_symbols tape db)"

definition admitted_symbols :: "string \<Rightarrow> tape_db \<Rightarrow> string set" where
  "admitted_symbols tape db = fr_symbol ` {r \<in> set (frames_of tape db). fr_continuity r = ''ADMITTED''}"

definition book_tail :: "string \<Rightarrow> tape_db \<Rightarrow> int \<times> string option" where
  "book_tail tape db = (int (length (frames_of tape db)), map_option fr_chain (latest_by fr_sequence (frames_of tape db)))"

definition sealed_row :: "tape_seal \<Rightarrow> string \<Rightarrow> json \<Rightarrow> timestamp \<Rightarrow> tape_row \<Rightarrow> tape_row" where
  "sealed_row seal digest doc now r = r\<lparr>tp_state := TAPE_SEALED, tp_sealed_at := Some now,
     tp_tape_sha256 := sv_tape_sha256 seal, tp_seal_sha256 := Some digest, tp_seal_payload := Some doc\<rparr>"

definition stored_seal :: "(string \<Rightarrow> string) \<Rightarrow> tape_models \<Rightarrow> tape_row \<Rightarrow> tape_seal res" where
  "stored_seal sha M r = (case (tp_seal_payload r, tp_seal_sha256 r) of
       (Some payload, Some digest) \<Rightarrow> stored_model sha (decode_seal M) ''simulation tape seal'' payload digest
     | _ \<Rightarrow> Inl (MessageIdentityConflict ''durable simulator payload is not a JSON object''))"

definition seal_new ::
  "(string \<Rightarrow> string) \<Rightarrow> tape_models \<Rightarrow> int \<Rightarrow> string \<Rightarrow> string \<Rightarrow> int \<Rightarrow> timestamp \<Rightarrow> tape_db \<Rightarrow> (tape_seal \<times> tape_db) res" where
  "seal_new sha M nid tape source at now db =
     (if set (map fst (bar_heads tape db)) \<noteq> set sim_symbols
      then Inl (ValueError ''a simulation tape requires a closed-bar chain for all five symbols'')
      else if admitted_symbols tape db \<noteq> set sim_symbols
      then Inl (ValueError ''a simulation tape requires admitted books for all five symbols'')
      else case book_tail tape db of
          (_, None) \<Rightarrow> Inl (ValueError ''a simulation tape requires recorded top-N book frames'')
        | (count, Some head) \<Rightarrow>
            rbind (make_seal M source tape at (bar_heads tape db) (count, head)) (\<lambda>seal.
            rbind (canonical_payload sha (sv_payload seal)) (\<lambda>(encoded, digest).
            rbind (stored_canonical (sv_payload seal)) (\<lambda>doc.
            rbind (update_tape tape (\<lambda>r. tp_state r = TAPE_OPEN) (sealed_row seal digest doc now) (tdb_tapes db)) (\<lambda>tapes.
            rbind (append_artifact sha nid ''kairos.simulation.tape_seal.v1'' (sv_dump seal) now (tdb_audit db, tdb_outbox db))
              (\<lambda>(audit, outbox).
                Inr (seal, db\<lparr>tdb_tapes := tapes, tdb_audit := audit, tdb_outbox := outbox\<rparr>)))))))"

definition seal_tape ::
  "(string \<Rightarrow> string) \<Rightarrow> tape_models \<Rightarrow> int \<Rightarrow> string \<Rightarrow> int \<Rightarrow> string \<Rightarrow> timestamp \<Rightarrow> tape_db \<Rightarrow> (tape_seal \<times> tape_db) res" where
  "seal_tape sha M nid tape at source now db =
     rbind (validate_text ''tape_id'' tape) (\<lambda>_.
     rbind (validate_timestamp ''sealed_at_ms'' at) (\<lambda>_.
     rbind (validate_text ''source'' source) (\<lambda>_.
     case tape_at tape db of
       None \<Rightarrow> Inl (KeyError (''unknown simulation tape '' @ tape))
     | Some r \<Rightarrow> (case tp_state r of
         TAPE_BLOCKED \<Rightarrow> Inl (ValueError ''a simulation tape with a gap or reconnect barrier cannot seal'')
       | TAPE_SEALED \<Rightarrow> rbind (stored_seal sha M r) (\<lambda>seal. Inr (seal, db))
       | TAPE_OPEN \<Rightarrow> seal_new sha M nid tape source at now db))))"

subsection \<open>Verification\<close>

text \<open>
  The loops of \<open>verify_tape\<close>; \<open>None\<close> is its answer \<open>False\<close>. The dictionaries are association lists: by symbol the
  last closing time, identity and chain digest, and the number of bars with the newest digest.
\<close>

type_synonym bar_cursors = "(string \<times> int \<times> string \<times> string) list"

definition bar_matches :: "bar_row \<Rightarrow> closed_bar \<Rightarrow> bool" where
  "bar_matches r bar \<longleftrightarrow> mb_sha256 bar = Some (br_sha256 r) \<and> mb_symbol bar = br_symbol r \<and>
     mb_open_time bar = br_open_time r \<and> mb_close_time bar = br_close_time r"

definition bar_step ::
  "(string \<Rightarrow> string) \<Rightarrow> string \<Rightarrow> (int \<times> string \<times> string) option \<Rightarrow> closed_bar \<Rightarrow> bar_row \<Rightarrow> string option" where
  "bar_step sha tape previous bar r =
     (let chain = bar_chain_sha256 sha tape (br_symbol r) (map_option (snd \<circ> snd) previous) (br_sha256 r) in
      if \<not> bar_matches r bar \<or> (case previous of None \<Rightarrow> False | Some (closed, _) \<Rightarrow> mb_open_time bar \<noteq> closed + 1) \<or>
         br_previous r \<noteq> map_option (fst \<circ> snd) previous \<or> br_chain r \<noteq> chain
      then None else Some chain)"

fun verify_bars ::
  "(string \<Rightarrow> string) \<Rightarrow> tape_models \<Rightarrow> string \<Rightarrow> bar_cursors \<Rightarrow> (string \<times> int \<times> string) list \<Rightarrow> bar_row list
     \<Rightarrow> (string \<times> int \<times> string) list option res" where
  "verify_bars sha M tape previous heads [] = Inr (Some heads)"
| "verify_bars sha M tape previous heads (r # rs) =
     rbind (stored_model sha (decode_bar M) ''simulation closed bar'' (br_payload r) (br_payload_sha256 r)) (\<lambda>bar.
       case bar_step sha tape (map_of previous (br_symbol r)) bar r of
         None \<Rightarrow> Inr None
       | Some chain \<Rightarrow>
           let count = (case map_of heads (br_symbol r) of None \<Rightarrow> 0 | Some (n, _) \<Rightarrow> n) in
           verify_bars sha M tape (AList.update (br_symbol r) (mb_close_time bar, br_sha256 r, chain) previous)
             (AList.update (br_symbol r) (count + 1, chain) heads) rs)"

type_synonym clocks = "string \<times> int \<times> int \<times> int \<times> int"

definition frame_clocks :: "book_frame \<Rightarrow> clocks" where
  "frame_clocks f = (mf_epoch f, mf_update_id f, mf_exchange_at f, mf_received_at f, mf_persisted_at f)"

definition clocks_follow :: "clocks option \<Rightarrow> book_frame \<Rightarrow> bool" where
  "clocks_follow prior f = (case prior of
       None \<Rightarrow> True
     | Some (epoch, update_id, exchange_at, received_at, persisted_at) \<Rightarrow>
         \<not> (mf_epoch f = epoch \<and> (mf_update_id f \<le> update_id \<or> mf_exchange_at f < exchange_at \<or>
              mf_received_at f < received_at \<or> mf_persisted_at f < persisted_at)) \<and>
         \<not> (mf_epoch f \<noteq> epoch \<and> mf_continuity f \<noteq> ''RECONNECT''))"

text \<open>The sequence, identity and chain digest after the last frame, and the clocks by symbol.\<close>

fun verify_frames ::
  "(string \<Rightarrow> string) \<Rightarrow> tape_models \<Rightarrow> string \<Rightarrow> int \<Rightarrow> string option \<Rightarrow> string option \<Rightarrow> (string \<times> clocks) list
     \<Rightarrow> frame_row list \<Rightarrow> string option option res" where
  "verify_frames sha M tape sequence leaf chain clocks [] = Inr (Some chain)"
| "verify_frames sha M tape sequence leaf chain clocks (r # rs) =
     rbind (stored_frame sha M r) (\<lambda>f.
       let expected = frame_chain_sha256 sha tape chain (fr_sha256 r) in
       if mf_sha256 f \<noteq> Some (fr_sha256 r) \<or> mf_sequence f \<noteq> sequence + 1 \<or> mf_previous f \<noteq> leaf \<or>
          fr_chain r \<noteq> expected \<or> \<not> clocks_follow (map_of clocks (mf_symbol f)) f
       then Inr None
       else verify_frames sha M tape (mf_sequence f) (Some (fr_sha256 r)) (Some expected)
              (AList.update (mf_symbol f) (frame_clocks f) clocks) rs)"

definition verify_seal ::
  "(string \<Rightarrow> string) \<Rightarrow> tape_models \<Rightarrow> tape_row \<Rightarrow> (string \<times> int \<times> string) list \<Rightarrow> nat \<Rightarrow> string option \<Rightarrow> bool res" where
  "verify_seal sha M r heads count chain =
     (if tp_frame_count r \<noteq> int count \<or> tp_chain_head r \<noteq> chain then Inr False
      else if tp_state r \<noteq> TAPE_SEALED then Inr True
      else rbind (stored_seal sha M r) (\<lambda>seal.
        if sv_tape_sha256 seal \<noteq> tp_tape_sha256 r then Inr False
        else case chain of
            None \<Rightarrow> Inl (ValueError ''SimulationBookChainHeadV1'')
          | Some c \<Rightarrow> Inr (sv_bar_chains seal = sort_key fst heads \<and> sv_book_chain seal = (int count, c))))"

definition bars_in_order :: "string \<Rightarrow> tape_db \<Rightarrow> bar_row list" where
  "bars_in_order tape db =
     sort_key (\<lambda>r. (br_symbol r, br_open_time r)) (filter (\<lambda>r. br_tape_id r = tape) (tdb_bars db))"

definition verify_tape :: "(string \<Rightarrow> string) \<Rightarrow> tape_models \<Rightarrow> string \<Rightarrow> tape_db \<Rightarrow> bool res" where
  "verify_tape sha M tape db =
     rbind (validate_text ''tape_id'' tape) (\<lambda>_.
     case tape_at tape db of
       None \<Rightarrow> Inr False
     | Some r \<Rightarrow>
         rbind (verify_bars sha M tape [] [] (bars_in_order tape db)) (\<lambda>heads.
         case heads of None \<Rightarrow> Inr False | Some hs \<Rightarrow>
         rbind (verify_frames sha M tape 0 None None [] (sort_key fr_sequence (frames_of tape db))) (\<lambda>chain.
         case chain of None \<Rightarrow> Inr False | Some c \<Rightarrow> verify_seal sha M r hs (length (frames_of tape db)) c)))"

subsection \<open>Reading\<close>

record symbol_cursor =
  sc_symbol :: string
  sc_epoch :: string
  sc_update_id :: int
  sc_exchange_at :: int
  sc_received_at :: int
  sc_persisted_at :: int

record recording_cursor =
  rc_tape_id :: string
  rc_next_sequence :: int
  rc_previous :: "string option"
  rc_symbols :: "symbol_cursor list"

definition symbol_cursor_of :: "book_frame \<Rightarrow> symbol_cursor" where
  "symbol_cursor_of f = \<lparr>sc_symbol = mf_symbol f, sc_epoch = mf_epoch f, sc_update_id = mf_update_id f,
     sc_exchange_at = mf_exchange_at f, sc_received_at = mf_received_at f, sc_persisted_at = mf_persisted_at f\<rparr>"

text \<open>\<open>SELECT DISTINCT ON (symbol) .. ORDER BY symbol, tape_sequence DESC\<close>\<close>

definition symbol_tails :: "frame_row list \<Rightarrow> frame_row list" where
  "symbol_tails rows = List.map_filter (\<lambda>s. latest_by fr_sequence (filter (\<lambda>r. fr_symbol r = s) rows))
     (sort (remdups (map fr_symbol rows)))"

fun stored_frames :: "(string \<Rightarrow> string) \<Rightarrow> tape_models \<Rightarrow> frame_row list \<Rightarrow> book_frame list res" where
  "stored_frames sha M [] = Inr []"
| "stored_frames sha M (r # rs) =
     rbind (stored_frame sha M r) (\<lambda>f. rbind (stored_frames sha M rs) (\<lambda>fs. Inr (f # fs)))"

definition load_open_book_recording_cursor ::
  "(string \<Rightarrow> string) \<Rightarrow> tape_models \<Rightarrow> string \<Rightarrow> tape_db \<Rightarrow> recording_cursor option res" where
  "load_open_book_recording_cursor sha M tape db =
     rbind (validate_text ''tape_id'' tape) (\<lambda>_.
     case tape_at tape db of
       None \<Rightarrow> Inr None
     | Some t \<Rightarrow>
         if tp_state t \<noteq> TAPE_OPEN then Inl (ValueError ''simulation book recording cursor requires an open tape'')
         else rbind (stored_frames sha M (symbol_tails (frames_of tape db))) (\<lambda>fs.
           case latest_by fr_sequence (frames_of tape db) of
             None \<Rightarrow> Inr (Some \<lparr>rc_tape_id = tape, rc_next_sequence = 1, rc_previous = None, rc_symbols = []\<rparr>)
           | Some r \<Rightarrow> rbind (stored_frame sha M r) (\<lambda>f.
               if mf_sha256 f = None
               then Inl (MessageIdentityConflict ''simulation book tail has no immutable frame identity'')
               else Inr (Some \<lparr>rc_tape_id = tape, rc_next_sequence = mf_sequence f + 1, rc_previous = mf_sha256 f,
                 rc_symbols = sort_key sc_symbol (map symbol_cursor_of fs)\<rparr>))))"

definition load_latest_book_frame ::
  "(string \<Rightarrow> string) \<Rightarrow> tape_models \<Rightarrow> string \<Rightarrow> string \<Rightarrow> int \<Rightarrow> tape_db \<Rightarrow> book_frame option res" where
  "load_latest_book_frame sha M tape symbol as_of db =
     rbind (validate_text ''tape_id'' tape) (\<lambda>_.
     if symbol \<notin> set sim_symbols then Inl (ValueError ''simulation symbol is outside the fixed five-symbol universe'')
     else rbind (validate_timestamp ''as_of_ms'' as_of) (\<lambda>_.
     case tape_at tape db of
       None \<Rightarrow> Inl (KeyError (''unknown simulation tape '' @ tape))
     | Some t \<Rightarrow>
         if tp_state t \<noteq> TAPE_SEALED then Inl (ValueError ''simulation book selection requires an immutable sealed tape'')
         else if \<not> int8 as_of then Inl (DataError ''value out of int64 range'')
         else (case rev (sort_key (\<lambda>r. (fr_persisted_at r, fr_sequence r)) (filter (\<lambda>r. fr_symbol r = symbol \<and>
                  fr_continuity r = ''ADMITTED'' \<and> fr_persisted_at r \<le> as_of) (frames_of tape db))) of
             [] \<Rightarrow> Inr None
           | r # rs \<Rightarrow> rbind (stored_frame sha M r) (\<lambda>f. Inr (Some f)))))"

fun page_bars ::
  "(string \<Rightarrow> string) \<Rightarrow> tape_models \<Rightarrow> string \<Rightarrow> bar_row list \<Rightarrow> closed_bar list res" where
  "page_bars sha M entity [] = Inr []"
| "page_bars sha M entity (r # rs) =
     rbind (stored_model sha (decode_bar M) entity (br_payload r) (br_payload_sha256 r)) (\<lambda>bar.
     rbind (page_bars sha M entity rs) (\<lambda>bars. Inr (bar # bars)))"

fun check_page :: "string \<Rightarrow> int option \<Rightarrow> (closed_bar \<times> bar_row) list \<Rightarrow> unit res" where
  "check_page symbol closed [] = Inr ()"
| "check_page symbol closed ((bar, r) # rest) =
     (if mb_symbol bar \<noteq> symbol \<or> \<not> bar_matches r bar
      then Inl (MessageIdentityConflict ''simulation closed bar identity does not match its tape row'')
      else if (case closed of None \<Rightarrow> False | Some c \<Rightarrow> mb_open_time bar \<noteq> c + 1)
      then Inl (MessageIdentityConflict ''simulation closed bar page is not a contiguous tape prefix'')
      else check_page symbol (Some (mb_close_time bar)) rest)"

definition page_start ::
  "(string \<Rightarrow> string) \<Rightarrow> tape_models \<Rightarrow> string \<Rightarrow> string \<Rightarrow> int option \<Rightarrow> tape_db \<Rightarrow> int option res" where
  "page_start sha M tape symbol after db = (case after of
       None \<Rightarrow> Inr None
     | Some n \<Rightarrow>
       if \<not> int8 n then Inl (DataError ''value out of int64 range'')
       else (case select_one (\<lambda>r. bar_key r = (tape, symbol, n)) (tdb_bars db) of
         None \<Rightarrow> Inl (ValueError ''simulation bar page cursor is not a stored bar boundary'')
       | Some r \<Rightarrow> rbind (stored_model sha (decode_bar M) ''simulation closed bar cursor'' (br_payload r) (br_payload_sha256 r))
           (\<lambda>bar. if mb_symbol bar \<noteq> symbol \<or> \<not> bar_matches r bar
              then Inl (MessageIdentityConflict ''simulation bar page cursor identity does not match its row'')
              else Inr (Some (mb_close_time bar)))))"

definition load_closed_bar_page ::
  "(string \<Rightarrow> string) \<Rightarrow> tape_models \<Rightarrow> string \<Rightarrow> string \<Rightarrow> int option \<Rightarrow> int \<Rightarrow> tape_db \<Rightarrow> closed_bar list res" where
  "load_closed_bar_page sha M tape symbol after limit db =
     rbind (validate_text ''tape_id'' tape) (\<lambda>_.
     if symbol \<notin> set sim_symbols
     then Inl (ValueError ''simulation bar selection is outside the fixed five-symbol universe'')
     else rbind (case after of None \<Rightarrow> Inr () | Some n \<Rightarrow> validate_timestamp ''after_open_time_ms'' n) (\<lambda>_.
     if \<not> (1 \<le> limit \<and> limit \<le> 10000)
     then Inl (ValueError ''simulation bar page limit must be an integer from 1 through 10000'')
     else case tape_at tape db of
       None \<Rightarrow> Inl (KeyError (''unknown simulation tape '' @ tape))
     | Some t \<Rightarrow>
         if tp_state t \<noteq> TAPE_SEALED \<or> tp_tape_sha256 t = None
         then Inl (ValueError ''simulation bar replay requires an immutable sealed tape'')
         else rbind (page_start sha M tape symbol after db) (\<lambda>closed.
           let rows = take (nat limit) (sort_key br_open_time (filter (\<lambda>r. case after of None \<Rightarrow> True
                 | Some n \<Rightarrow> n < br_open_time r) (bars_of tape symbol db))) in
           rbind (page_bars sha M ''simulation closed bar'' rows) (\<lambda>bars.
           rbind (check_page symbol closed (zip bars rows)) (\<lambda>_. Inr bars)))))"

end
