(* ===== verification/SimulatorJournal.thy ===== *)
theory SimulatorJournal
  imports SimulatorTape PyFloat
begin

text \<open>
  The lifecycle journal of the isolated market simulator: \<open>SimulationRepository\<close> of
  \<open>kairos_persistence/simulation_repository.py\<close> over the tables of migration 017 from \<open>sim_sessions\<close> on. A session rests
  on a sealed tape, a risk decision on its session and the tape's inputs, an admission on a decision, a trade on an
  admission; commands are prepared, and completed with a receipt, the liquidity snapshot and the events of the trade.

  The contracts are outside (\<open>kairos_core\<close>): an artifact is the record of what the code reads of it, with \<open>to_payload()\<close> and
  \<open>model_dump(mode="json")\<close>; \<open>model_validate\<close> is a field of \<open>journal_models\<close>. \<open>nid\<close> is the value the outbox id
  sequence yields, \<open>now\<close> the transaction's \<open>now()\<close>. The advisory locks of a session and of its trades make each
  transaction one function of the tables.
\<close>

datatype sim_state = SIM_PENDING | SIM_ACTIVE | SIM_FLAT | SIM_UNRESOLVED | SIM_NO_FILL | SIM_BLOCKED

definition terminal_states :: "sim_state list" where
  "terminal_states = [SIM_FLAT, SIM_UNRESOLVED, SIM_NO_FILL, SIM_BLOCKED]"

datatype sim_session_state = SESSION_OPEN | SESSION_COMPLETED | SESSION_BLOCKED

datatype command_status = COMMAND_PREPARED | COMMAND_COMPLETED | COMMAND_FAILED

subsection \<open>Contracts\<close>

record artifact =
  af_payload :: json
  af_dump :: json

record sim_session = artifact +
  sn_session_id :: "string option"
  sn_assumptions :: "string option"
  sn_tape_id :: string
  sn_tape_sha256 :: string
  sn_started_at :: int
  sn_ends_at :: int

record sim_intent =
  it_symbol :: string
  it_side :: string
  it_input_bars :: "string list"

record sim_decision = artifact +
  dc_decision_id :: "string option"
  dc_session_id :: "string option"
  dc_intent_id :: "string option"
  dc_review_id :: "string option"
  dc_session :: sim_session
  dc_intent :: sim_intent
  dc_book_frame :: "book_frame option"
  dc_book_sha256 :: "string option"
  dc_approved :: bool
  dc_reasons :: "string list"
  dc_quantity :: pyfloat
  dc_price_cap :: "pyfloat option"
  dc_decided_at :: int

record sim_admission = artifact +
  ad_admission_id :: "string option"
  ad_decision_id :: "string option"
  ad_session_id :: "string option"
  ad_intent_sha256 :: "string option"
  ad_review_id :: "string option"
  ad_book_sha256 :: "string option"
  ad_decision :: sim_decision
  ad_intent :: "sim_intent option"
  ad_quantity :: "pyfloat option"
  ad_price_cap :: "pyfloat option"
  ad_admitted_at :: int

text \<open>\<open>mt_admission\<close> is \<open>None\<close> for an admission that is no \<open>SimulationAdmissionV2\<close>.\<close>

record sim_trade = artifact +
  mt_trade_id :: "string option"
  mt_session_id :: "string option"
  mt_admission_id :: "string option"
  mt_intent_id :: "string option"
  mt_symbol :: "string option"
  mt_side :: "string option"
  mt_admission :: "sim_admission option"
  mt_created_at :: int

record sim_event = artifact +
  ev_event_id :: "string option"
  ev_trade_id :: string
  ev_session_id :: string
  ev_admission_id :: string
  ev_intent_id :: string
  ev_symbol :: string
  ev_side :: string
  ev_seq :: int
  ev_previous :: "string option"
  ev_from :: "sim_state option"
  ev_to :: sim_state
  ev_type :: string
  ev_occurred_at :: int
  ev_command_id :: "string option"
  ev_receipt_id :: "string option"

record sim_command = artifact +
  mc_command_id :: "string option"
  mc_session_id :: "string option"
  mc_admission_id :: "string option"
  mc_intent_id :: "string option"
  mc_trade_id :: "string option"
  mc_symbol :: "string option"
  mc_side :: "string option"
  mc_trade :: sim_trade
  mc_order_side :: string
  mc_kind :: string

record sim_receipt = artifact +
  mr_receipt_id :: "string option"
  mr_command_id :: "string option"
  mr_command :: sim_command
  mr_session_id :: string
  mr_admission_id :: string
  mr_intent_id :: string
  mr_trade_id :: string
  mr_status :: string

record sim_result = artifact +
  rs_result_id :: "string option"
  rs_session_id :: string
  rs_admission_id :: string
  rs_intent_id :: string
  rs_trade_id :: string
  rs_terminal_event :: string
  rs_final_state :: sim_state
  rs_completed_at :: int

record journal_head =
  jh_trade_id :: string
  jh_state :: sim_state
  jh_count :: int
  jh_head :: "string option"

record sim_session_receipt = artifact +
  ss_receipt_id :: "string option"
  ss_session_id :: "string option"
  ss_tape_id :: "string option"
  ss_tape_sha256 :: "string option"
  ss_session :: sim_session
  ss_journals :: "journal_head list"
  ss_state :: string
  ss_completed_at :: int

text \<open>\<open>valid_head\<close> says which arguments the constructor \<open>SimulationTradeJournalHeadV1\<close> accepts.\<close>

record journal_models =
  decode_sim_trade :: "json \<Rightarrow> sim_trade option"
  decode_sim_event :: "json \<Rightarrow> sim_event option"
  decode_sim_command :: "json \<Rightarrow> sim_command option"
  decode_sim_receipt :: "json \<Rightarrow> sim_receipt option"
  valid_head :: "journal_head \<Rightarrow> bool"

subsection \<open>Tables\<close>

record stored_row =
  sp_sha256 :: string
  sp_payload :: json

record sim_session_row = stored_row +
  sr_session_id :: string
  sr_tape_id :: string
  sr_tape_sha256 :: string
  sr_assumptions :: string
  sr_state :: sim_session_state
  sr_started_at :: int
  sr_ends_at :: int

record decision_row = stored_row +
  dr_decision_id :: string
  dr_session_id :: string
  dr_intent_id :: string
  dr_review_id :: string
  dr_book_sha256 :: "string option"
  dr_symbol :: string
  dr_side :: string
  dr_approved :: bool
  dr_reasons :: "string list"
  dr_quantity :: pyfloat
  dr_price_cap :: "pyfloat option"
  dr_decided_at :: int

record sim_admission_row = stored_row +
  ar_admission_id :: string
  ar_decision_id :: string
  ar_session_id :: string
  ar_intent_id :: string
  ar_review_id :: string
  ar_book_sha256 :: string
  ar_symbol :: string
  ar_side :: string
  ar_quantity :: pyfloat
  ar_price_cap :: pyfloat
  ar_admitted_at :: int

record sim_trade_row = stored_row +
  tr_trade_id :: string
  tr_session_id :: string
  tr_admission_id :: string
  tr_intent_id :: string
  tr_symbol :: string
  tr_side :: string
  tr_state :: sim_state
  tr_version :: int
  tr_next_seq :: int
  tr_head :: "string option"
  tr_count :: int
  tr_created_at :: int

record sim_event_row = stored_row +
  er_event_id :: string
  er_trade_id :: string
  er_seq :: int
  er_previous :: "string option"
  er_sha256 :: string
  er_from :: "sim_state option"
  er_to :: sim_state
  er_type :: string
  er_occurred_at :: int
  er_command_id :: "string option"
  er_receipt_id :: "string option"

record sim_command_row = stored_row +
  cr_command_id :: string
  cr_session_id :: string
  cr_admission_id :: string
  cr_intent_id :: string
  cr_trade_id :: string
  cr_symbol :: string
  cr_side :: string
  cr_order_side :: string
  cr_kind :: string
  cr_status :: command_status
  cr_prepared_at :: timestamp
  cr_completed_at :: "timestamp option"

record receipt_row = stored_row +
  rr_receipt_id :: string
  rr_command_id :: string
  rr_session_id :: string
  rr_admission_id :: string
  rr_intent_id :: string
  rr_trade_id :: string
  rr_status :: string

record liquidity_row = stored_row +
  lr_session_id :: string
  lr_symbol :: string
  lr_version :: string
  lr_updated_at :: timestamp

record result_row = stored_row +
  xr_result_id :: string
  xr_session_id :: string
  xr_admission_id :: string
  xr_intent_id :: string
  xr_trade_id :: string
  xr_terminal_event :: string
  xr_final_state :: sim_state
  xr_completed_at :: int

record session_receipt_row = stored_row +
  yr_receipt_id :: string
  yr_session_id :: string
  yr_tape_id :: string
  yr_tape_sha256 :: string
  yr_state :: string
  yr_completed_at :: int

record sim_db =
  sj_tape :: tape_db
  sj_sessions :: "sim_session_row list"
  sj_decisions :: "decision_row list"
  sj_admissions :: "sim_admission_row list"
  sj_trades :: "sim_trade_row list"
  sj_events :: "sim_event_row list"
  sj_commands :: "sim_command_row list"
  sj_receipts :: "receipt_row list"
  sj_liquidity :: "liquidity_row list"
  sj_results :: "result_row list"
  sj_session_receipts :: "session_receipt_row list"

text \<open>\<open>DOUBLE PRECISION\<close> is ordered with \<open>NaN\<close> above every number.\<close>

definition pg_less :: "pyfloat \<Rightarrow> pyfloat \<Rightarrow> bool" where
  "pg_less a b \<longleftrightarrow> a \<noteq> NotANumber \<and> (b = NotANumber \<or> float_less a b)"

definition sim_sides :: "string list" where
  "sim_sides = [''LONG'', ''SHORT'']"

definition sim_session_check :: "sim_session_row \<Rightarrow> bool" where
  "sim_session_check r \<longleftrightarrow> list_all sha256_hex [sr_session_id r, sr_tape_sha256 r, sr_assumptions r, sp_sha256 r] \<and>
     0 \<le> sr_started_at r \<and> sr_started_at r < sr_ends_at r"

definition decision_check :: "decision_row \<Rightarrow> bool" where
  "decision_check r \<longleftrightarrow> list_all sha256_hex [dr_decision_id r, dr_intent_id r, dr_review_id r, sp_sha256 r] \<and>
     optional_hex (dr_book_sha256 r) \<and> dr_symbol r \<in> set sim_symbols \<and> dr_side r \<in> set sim_sides \<and>
     \<not> pg_less (dr_quantity r) float_zero \<and> 0 \<le> dr_decided_at r \<and>
     (if dr_approved r then pg_less float_zero (dr_quantity r) \<and> dr_price_cap r \<noteq> None \<and> dr_reasons r = []
      else float_eq (dr_quantity r) float_zero \<and> dr_price_cap r = None \<and> dr_reasons r \<noteq> [])"

definition sim_admission_check :: "sim_admission_row \<Rightarrow> bool" where
  "sim_admission_check r \<longleftrightarrow>
     list_all sha256_hex [ar_admission_id r, ar_intent_id r, ar_review_id r, ar_book_sha256 r, sp_sha256 r] \<and>
     ar_symbol r \<in> set sim_symbols \<and> ar_side r \<in> set sim_sides \<and> pg_less float_zero (ar_quantity r) \<and>
     pg_less float_zero (ar_price_cap r) \<and> 0 \<le> ar_admitted_at r"

definition sim_trade_check :: "sim_trade_row \<Rightarrow> bool" where
  "sim_trade_check r \<longleftrightarrow> list_all sha256_hex [tr_trade_id r, tr_intent_id r, sp_sha256 r] \<and> tr_symbol r \<in> set sim_symbols \<and>
     tr_side r \<in> set sim_sides \<and> 0 \<le> tr_version r \<and> 0 < tr_next_seq r \<and> optional_hex (tr_head r) \<and> 0 \<le> tr_count r \<and>
     0 \<le> tr_created_at r"

definition sim_event_check :: "sim_event_row \<Rightarrow> bool" where
  "sim_event_check r \<longleftrightarrow> list_all sha256_hex [er_event_id r, er_sha256 r, sp_sha256 r] \<and> 0 < er_seq r \<and>
     list_all optional_hex [er_previous r, er_command_id r, er_receipt_id r] \<and> 0 \<le> er_occurred_at r"

definition order_sides :: "string list" where
  "order_sides = [''BUY'', ''SELL'']"

definition command_kinds :: "string list" where
  "command_kinds = [''ENTRY_IOC'', ''STOP_EXIT_IOC'', ''TARGET_EXIT_IOC'', ''TIMEOUT_EXIT_IOC'']"

definition sim_command_check :: "sim_command_row \<Rightarrow> bool" where
  "sim_command_check r \<longleftrightarrow> list_all sha256_hex [cr_command_id r, cr_intent_id r, sp_sha256 r] \<and> cr_symbol r \<in> set sim_symbols \<and>
     cr_side r \<in> set sim_sides \<and> cr_order_side r \<in> set order_sides \<and> cr_kind r \<in> set command_kinds \<and>
     (cr_status r = COMMAND_COMPLETED) = (cr_completed_at r \<noteq> None)"

definition receipt_statuses :: "string list" where
  "receipt_statuses = [''FILLED'', ''PARTIAL'', ''NO_FILL'', ''BLOCKED'']"

definition receipt_check :: "receipt_row \<Rightarrow> bool" where
  "receipt_check r \<longleftrightarrow> list_all sha256_hex [rr_receipt_id r, rr_intent_id r, sp_sha256 r] \<and> rr_status r \<in> set receipt_statuses"

definition liquidity_check :: "liquidity_row \<Rightarrow> bool" where
  "liquidity_check r \<longleftrightarrow> lr_symbol r \<in> set sim_symbols \<and> \<not> spaces_only (lr_version r) \<and> sha256_hex (sp_sha256 r)"

definition result_check :: "result_row \<Rightarrow> bool" where
  "result_check r \<longleftrightarrow> list_all sha256_hex [xr_result_id r, xr_intent_id r, sp_sha256 r] \<and>
     xr_final_state r \<in> set terminal_states \<and> 0 \<le> xr_completed_at r"

definition session_receipt_check :: "session_receipt_row \<Rightarrow> bool" where
  "session_receipt_check r \<longleftrightarrow> list_all sha256_hex [yr_receipt_id r, yr_tape_sha256 r, sp_sha256 r] \<and>
     yr_state r \<in> set [''COMPLETED'', ''BLOCKED''] \<and> 0 \<le> yr_completed_at r"

text \<open>
  An \<open>INSERT\<close>: its \<open>BIGINT\<close> parameters, whether the row satisfies the \<open>CHECK\<close> constraints, repeats a key, and
  refers to rows that exist.
\<close>

definition insert_checked :: "string \<Rightarrow> int list \<Rightarrow> bool \<Rightarrow> bool \<Rightarrow> bool \<Rightarrow> 'r \<Rightarrow> 'r list \<Rightarrow> 'r list res" where
  "insert_checked table bigints check repeats refers r t =
     (if \<not> list_all int8 bigints then Inl (DataError ''value out of int64 range'')
      else if \<not> check then Inl (IntegrityError (table @ ''_check''))
      else if repeats then Inl (IntegrityError (table @ ''_key''))
      else if \<not> refers then Inl (IntegrityError (table @ ''_fkey''))
      else Inr (insert_row r t))"

definition known_tape :: "string \<Rightarrow> sim_db \<Rightarrow> bool" where
  "known_tape t db \<longleftrightarrow> list_ex (\<lambda>r. tp_tape_id r = t) (tdb_tapes (sj_tape db))"

definition known_sim_session :: "string \<Rightarrow> sim_db \<Rightarrow> bool" where
  "known_sim_session s db \<longleftrightarrow> list_ex (\<lambda>r. sr_session_id r = s) (sj_sessions db)"

definition known_trade :: "string \<Rightarrow> string \<Rightarrow> string \<Rightarrow> sim_db \<Rightarrow> bool" where
  "known_trade s a t db \<longleftrightarrow>
     list_ex (\<lambda>r. tr_session_id r = s \<and> tr_admission_id r = a \<and> tr_trade_id r = t) (sj_trades db)"

definition insert_sim_session :: "sim_session_row \<Rightarrow> sim_db \<Rightarrow> sim_db res" where
  "insert_sim_session r db = rbind (insert_checked ''sim_sessions'' [sr_started_at r, sr_ends_at r] (sim_session_check r)
     (list_ex (\<lambda>q. sr_session_id q = sr_session_id r) (sj_sessions db)) (known_tape (sr_tape_id r) db) r (sj_sessions db))
     (\<lambda>t. Inr (db\<lparr>sj_sessions := t\<rparr>))"

definition insert_decision :: "decision_row \<Rightarrow> sim_db \<Rightarrow> sim_db res" where
  "insert_decision r db = rbind (insert_checked ''sim_risk_decisions'' [dr_decided_at r] (decision_check r)
     (list_ex (\<lambda>q. dr_decision_id q = dr_decision_id r) (sj_decisions db)) (known_sim_session (dr_session_id r) db) r
     (sj_decisions db)) (\<lambda>t. Inr (db\<lparr>sj_decisions := t\<rparr>))"

definition insert_sim_admission :: "sim_admission_row \<Rightarrow> sim_db \<Rightarrow> sim_db res" where
  "insert_sim_admission r db = rbind (insert_checked ''sim_admissions'' [ar_admitted_at r] (sim_admission_check r)
     (list_ex (\<lambda>q. ar_admission_id q = ar_admission_id r \<or>
        ar_session_id q = ar_session_id r \<and> ar_intent_id q = ar_intent_id r) (sj_admissions db))
     (known_sim_session (ar_session_id r) db \<and>
        list_ex (\<lambda>d. dr_decision_id d = ar_decision_id r \<and> dr_session_id d = ar_session_id r) (sj_decisions db))
     r (sj_admissions db)) (\<lambda>t. Inr (db\<lparr>sj_admissions := t\<rparr>))"

definition insert_sim_trade :: "sim_trade_row \<Rightarrow> sim_db \<Rightarrow> sim_db res" where
  "insert_sim_trade r db = rbind (insert_checked ''sim_trades'' [tr_created_at r] (sim_trade_check r)
     (list_ex (\<lambda>q. tr_trade_id q = tr_trade_id r \<or>
        tr_session_id q = tr_session_id r \<and> tr_admission_id q = tr_admission_id r) (sj_trades db))
     (known_sim_session (tr_session_id r) db \<and>
        list_ex (\<lambda>a. ar_session_id a = tr_session_id r \<and> ar_admission_id a = tr_admission_id r) (sj_admissions db))
     r (sj_trades db)) (\<lambda>t. Inr (db\<lparr>sj_trades := t\<rparr>))"

definition insert_event :: "sim_event_row \<Rightarrow> sim_db \<Rightarrow> sim_db res" where
  "insert_event r db = rbind (insert_checked ''sim_trade_events'' [er_seq r, er_occurred_at r] (sim_event_check r)
     (list_ex (\<lambda>q. er_event_id q = er_event_id r \<or>
        er_trade_id q = er_trade_id r \<and> (er_seq q = er_seq r \<or> er_sha256 q = er_sha256 r)) (sj_events db))
     (list_ex (\<lambda>t. tr_trade_id t = er_trade_id r) (sj_trades db)) r (sj_events db)) (\<lambda>t. Inr (db\<lparr>sj_events := t\<rparr>))"

definition insert_sim_command :: "sim_command_row \<Rightarrow> sim_db \<Rightarrow> sim_db res" where
  "insert_sim_command r db = rbind (insert_checked ''sim_commands'' [] (sim_command_check r)
     (list_ex (\<lambda>q. cr_command_id q = cr_command_id r) (sj_commands db))
     (known_trade (cr_session_id r) (cr_admission_id r) (cr_trade_id r) db) r (sj_commands db))
     (\<lambda>t. Inr (db\<lparr>sj_commands := t\<rparr>))"

definition insert_command_receipt :: "receipt_row \<Rightarrow> sim_db \<Rightarrow> sim_db res" where
  "insert_command_receipt r db = rbind (insert_checked ''sim_command_receipts'' [] (receipt_check r)
     (list_ex (\<lambda>q. rr_receipt_id q = rr_receipt_id r \<or> rr_command_id q = rr_command_id r) (sj_receipts db))
     (known_trade (rr_session_id r) (rr_admission_id r) (rr_trade_id r) db \<and>
        list_ex (\<lambda>c. cr_command_id c = rr_command_id r \<and> cr_session_id c = rr_session_id r \<and>
          cr_admission_id c = rr_admission_id r \<and> cr_intent_id c = rr_intent_id r \<and> cr_trade_id c = rr_trade_id r)
          (sj_commands db)) r (sj_receipts db)) (\<lambda>t. Inr (db\<lparr>sj_receipts := t\<rparr>))"

text \<open>\<open>INSERT .. ON CONFLICT (session_id, symbol) DO UPDATE\<close>\<close>

definition upsert_liquidity :: "liquidity_row \<Rightarrow> sim_db \<Rightarrow> sim_db res" where
  "upsert_liquidity r db =
     (if \<not> liquidity_check r then Inl (IntegrityError ''sim_liquidity_states_check'')
      else if \<not> known_sim_session (lr_session_id r) db then Inl (IntegrityError ''sim_liquidity_states_fkey'')
      else let same = (\<lambda>q. lr_session_id q = lr_session_id r \<and> lr_symbol q = lr_symbol r) in
        Inr (db\<lparr>sj_liquidity := if list_ex same (sj_liquidity db) then update_where same (\<lambda>_. r) (sj_liquidity db)
               else insert_row r (sj_liquidity db)\<rparr>))"

definition insert_result :: "result_row \<Rightarrow> sim_db \<Rightarrow> sim_db res" where
  "insert_result r db = rbind (insert_checked ''sim_results'' [xr_completed_at r] (result_check r)
     (list_ex (\<lambda>q. xr_result_id q = xr_result_id r \<or> xr_trade_id q = xr_trade_id r) (sj_results db))
     (known_trade (xr_session_id r) (xr_admission_id r) (xr_trade_id r) db \<and>
        list_ex (\<lambda>e. er_trade_id e = xr_trade_id r \<and> er_event_id e = xr_terminal_event r) (sj_events db))
     r (sj_results db)) (\<lambda>t. Inr (db\<lparr>sj_results := t\<rparr>))"

definition insert_session_receipt :: "session_receipt_row \<Rightarrow> sim_db \<Rightarrow> sim_db res" where
  "insert_session_receipt r db = rbind (insert_checked ''sim_session_receipts'' [yr_completed_at r] (session_receipt_check r)
     (list_ex (\<lambda>q. yr_receipt_id q = yr_receipt_id r \<or> yr_session_id q = yr_session_id r) (sj_session_receipts db))
     (known_sim_session (yr_session_id r) db \<and> known_tape (yr_tape_id r) db) r (sj_session_receipts db))
     (\<lambda>t. Inr (db\<lparr>sj_session_receipts := t\<rparr>))"

subsection \<open>Stored artifacts\<close>

definition model_payload :: "json \<Rightarrow> json res" where
  "model_payload dump = (if is_object dump then Inr dump
     else Inl (TypeError ''simulation public model did not produce an object payload''))"

definition same_payload :: "(string \<Rightarrow> string) \<Rightarrow> string \<Rightarrow> 'z stored_row_scheme \<Rightarrow> string \<Rightarrow> unit res" where
  "same_payload sha entity r expected = assert_payload_identity sha entity (sp_payload r) (sp_sha256 r) expected None"

definition assert_exact_model :: "(string \<Rightarrow> string) \<Rightarrow> string \<Rightarrow> 'z stored_row_scheme \<Rightarrow> json \<Rightarrow> unit res" where
  "assert_exact_model sha entity r dump =
     rbind (model_payload dump) (\<lambda>payload.
     rbind (canonical_payload sha payload) (\<lambda>(_, expected). same_payload sha entity r expected))"

definition assert_exact_book_frame ::
  "(string \<Rightarrow> string) \<Rightarrow> tape_models \<Rightarrow> frame_row \<Rightarrow> book_frame \<Rightarrow> string \<Rightarrow> unit res" where
  "assert_exact_book_frame sha M r expected entity =
     rbind (stored_frame sha M r) (\<lambda>actual.
       if \<not> equal_frames M actual expected
       then Inl (MessageIdentityConflict (entity @ '' stable ID was reused with a different immutable payload''))
       else Inr ())"

text \<open>\<open>_append_artifact\<close> on the audit and outbox tables of the database.\<close>

definition publish_artifact ::
  "(string \<Rightarrow> string) \<Rightarrow> int \<Rightarrow> string \<Rightarrow> 'z artifact_scheme \<Rightarrow> timestamp \<Rightarrow> sim_db \<Rightarrow> sim_db res" where
  "publish_artifact sha nid topic a now db =
     rbind (append_artifact sha nid topic (af_dump a) now (tdb_audit (sj_tape db), tdb_outbox (sj_tape db))) (\<lambda>(audit, outbox).
       Inr (db\<lparr>sj_tape := (sj_tape db)\<lparr>tdb_audit := audit, tdb_outbox := outbox\<rparr>\<rparr>))"

definition assert_trade_lineage :: "sim_trade_row \<Rightarrow> string \<Rightarrow> string \<Rightarrow> string \<Rightarrow> unit res" where
  "assert_trade_lineage r session admission intent =
     (if tr_session_id r \<noteq> session \<or> tr_admission_id r \<noteq> admission \<or> tr_intent_id r \<noteq> intent
      then Inl (MessageIdentityConflict ''simulation artifact differs from durable trade lineage: '') else Inr ())"

definition sim_trade_at :: "string \<Rightarrow> sim_db \<Rightarrow> sim_trade_row option" where
  "sim_trade_at t db = select_one (\<lambda>r. tr_trade_id r = t) (sj_trades db)"

definition assert_exact_trade ::
  "(string \<Rightarrow> string) \<Rightarrow> sim_trade \<Rightarrow> string \<Rightarrow> string \<Rightarrow> sim_db \<Rightarrow> unit res" where
  "assert_exact_trade sha trade session t db = (case sim_trade_at t db of
       None \<Rightarrow> Inl (KeyError ''simulation command references an unknown trade'')
     | Some r \<Rightarrow> if tr_session_id r \<noteq> session
         then Inl (MessageIdentityConflict ''simulation trade session differs from command lineage'')
         else assert_exact_model sha ''simulation command trade'' r (af_dump trade))"

subsection \<open>Sessions, decisions and admissions\<close>

definition session_row_of :: "sim_session \<Rightarrow> string \<Rightarrow> string \<Rightarrow> json \<Rightarrow> string \<Rightarrow> sim_session_row" where
  "session_row_of s sid assumptions doc digest = \<lparr>sp_sha256 = digest, sp_payload = doc, sr_session_id = sid,
     sr_tape_id = sn_tape_id s, sr_tape_sha256 = sn_tape_sha256 s, sr_assumptions = assumptions,
     sr_state = SESSION_OPEN, sr_started_at = sn_started_at s, sr_ends_at = sn_ends_at s\<rparr>"

definition sim_session_at :: "string \<Rightarrow> sim_db \<Rightarrow> sim_session_row option" where
  "sim_session_at s db = select_one (\<lambda>r. sr_session_id r = s) (sj_sessions db)"

text \<open>\<open>str(tape["tape_sha256"])\<close>\<close>

definition digest_text :: "string option \<Rightarrow> string" where
  "digest_text x = (case x of None \<Rightarrow> ''None'' | Some s \<Rightarrow> s)"

definition exact_sealed_tape :: "sim_session \<Rightarrow> sim_db \<Rightarrow> bool" where
  "exact_sealed_tape s db \<longleftrightarrow> (case tape_at (sn_tape_id s) (sj_tape db) of
       None \<Rightarrow> False
     | Some t \<Rightarrow> tp_state t = TAPE_SEALED \<and> digest_text (tp_tape_sha256 t) = sn_tape_sha256 s)"

definition create_session ::
  "(string \<Rightarrow> string) \<Rightarrow> int \<Rightarrow> sim_session \<Rightarrow> timestamp \<Rightarrow> sim_db \<Rightarrow> (bool \<times> sim_db) res" where
  "create_session sha nid s now db = (case (sn_session_id s, sn_assumptions s) of
       (Some sid, Some assumptions) \<Rightarrow>
         rbind (canonical_payload sha (af_payload s)) (\<lambda>(encoded, digest).
         if \<not> exact_sealed_tape s db
         then Inl (ValueError ''simulation session requires the exact sealed simulation tape'')
         else (case sim_session_at sid db of
             Some r \<Rightarrow> rbind (same_payload sha ''simulation session'' r digest) (\<lambda>_. Inr (False, db))
           | None \<Rightarrow>
               rbind (stored_canonical (af_payload s)) (\<lambda>doc.
               rbind (insert_sim_session (session_row_of s sid assumptions doc digest) db) (\<lambda>db1.
               rbind (publish_artifact sha nid ''kairos.simulation.session.v1'' s now db1) (\<lambda>db2. Inr (True, db2))))))
     | _ \<Rightarrow> Inl (ValueError ''simulation session requires canonical identities''))"

text \<open>The bars of a tape that a decision names as its inputs.\<close>

definition stored_inputs :: "string \<Rightarrow> string list \<Rightarrow> sim_db \<Rightarrow> string list" where
  "stored_inputs tape hashes db =
     map br_sha256 (filter (\<lambda>r. br_tape_id r = tape \<and> br_sha256 r \<in> set hashes) (tdb_bars (sj_tape db)))"

definition decision_inputs_recorded ::
  "(string \<Rightarrow> string) \<Rightarrow> tape_models \<Rightarrow> sim_decision \<Rightarrow> sim_db \<Rightarrow> unit res" where
  "decision_inputs_recorded sha M d db =
     (let tape = sn_tape_id (dc_session d); hashes = it_input_bars (dc_intent d) in
      if set (stored_inputs tape hashes db) \<noteq> set hashes
      then Inl (ValueError ''simulation risk decision intent provenance is not fully recorded in its sealed tape'')
      else case dc_book_frame d of
          None \<Rightarrow> Inr ()
        | Some f \<Rightarrow> (case select_one (\<lambda>r. fr_tape_id r = tape \<and> Some (fr_sha256 r) = mf_sha256 f) (tdb_frames (sj_tape db)) of
              None \<Rightarrow> Inl (ValueError ''simulation decision selected book frame is not durably recorded'')
            | Some r \<Rightarrow> assert_exact_book_frame sha M r f ''simulation risk decision book frame''))"

definition decision_row_of :: "sim_decision \<Rightarrow> string \<Rightarrow> string \<Rightarrow> string \<Rightarrow> string \<Rightarrow> json \<Rightarrow> string \<Rightarrow> decision_row" where
  "decision_row_of d did sid intent review doc digest = \<lparr>sp_sha256 = digest, sp_payload = doc, dr_decision_id = did,
     dr_session_id = sid, dr_intent_id = intent, dr_review_id = review, dr_book_sha256 = dc_book_sha256 d,
     dr_symbol = it_symbol (dc_intent d), dr_side = it_side (dc_intent d), dr_approved = dc_approved d,
     dr_reasons = dc_reasons d, dr_quantity = dc_quantity d, dr_price_cap = dc_price_cap d, dr_decided_at = dc_decided_at d\<rparr>"

definition decision_at :: "string \<Rightarrow> sim_db \<Rightarrow> decision_row option" where
  "decision_at d db = select_one (\<lambda>r. dr_decision_id r = d) (sj_decisions db)"

definition record_risk_decision ::
  "(string \<Rightarrow> string) \<Rightarrow> tape_models \<Rightarrow> int \<Rightarrow> sim_decision \<Rightarrow> timestamp \<Rightarrow> sim_db \<Rightarrow> (bool \<times> sim_db) res" where
  "record_risk_decision sha M nid d now db = (case (dc_decision_id d, dc_session_id d, dc_intent_id d, dc_review_id d) of
       (Some did, Some sid, Some intent, Some review) \<Rightarrow>
         rbind (canonical_payload sha (af_payload d)) (\<lambda>(encoded, digest).
         case sim_session_at sid db of
           None \<Rightarrow> Inl (KeyError ''simulation risk decision references an unknown session'')
         | Some s \<Rightarrow>
             rbind (assert_exact_model sha ''simulation risk decision session'' s (af_dump (dc_session d))) (\<lambda>_.
             rbind (decision_inputs_recorded sha M d db) (\<lambda>_.
             case decision_at did db of
               Some r \<Rightarrow> rbind (same_payload sha ''simulation risk decision'' r digest) (\<lambda>_. Inr (False, db))
             | None \<Rightarrow>
                 rbind (stored_canonical (af_payload d)) (\<lambda>doc.
                 rbind (insert_decision (decision_row_of d did sid intent review doc digest) db) (\<lambda>db1.
                 rbind (publish_artifact sha nid ''kairos.simulation.risk_decision.v1'' d now db1) (\<lambda>db2. Inr (True, db2)))))))
     | _ \<Rightarrow> Inl (ValueError ''simulation risk decision requires canonical identities''))"

definition sim_admission_at :: "string \<Rightarrow> sim_db \<Rightarrow> sim_admission_row option" where
  "sim_admission_at a db = select_one (\<lambda>r. ar_admission_id r = a) (sj_admissions db)"

text \<open>The lineage of an admission that has all of it: identities, intent, quantity and price cap.\<close>

definition admission_lineage ::
  "sim_admission \<Rightarrow> ((string \<times> string \<times> string) \<times> (string \<times> string \<times> string) \<times> sim_intent \<times> pyfloat \<times> pyfloat) option" where
  "admission_lineage a =
     (case (ad_admission_id a, ad_decision_id a, ad_session_id a, ad_intent_sha256 a, ad_review_id a, ad_book_sha256 a) of
        (Some aid, Some did, Some sid, Some intent, Some review, Some book) \<Rightarrow>
          (case (ad_intent a, ad_quantity a, ad_price_cap a) of
             (Some i, Some quantity, Some cap) \<Rightarrow> Some ((aid, did, sid), (intent, review, book), i, quantity, cap)
           | _ \<Rightarrow> None)
      | _ \<Rightarrow> None)"

definition create_admission ::
  "(string \<Rightarrow> string) \<Rightarrow> int \<Rightarrow> sim_admission \<Rightarrow> timestamp \<Rightarrow> sim_db \<Rightarrow> (bool \<times> sim_db) res" where
  "create_admission sha nid a now db = (case admission_lineage a of
       None \<Rightarrow> Inl (ValueError ''simulation admission requires complete canonical decision lineage'')
     | Some ((aid, did, sid), (intent, review, book), i, quantity, cap) \<Rightarrow>
         rbind (canonical_payload sha (af_payload a)) (\<lambda>(encoded, digest).
         case decision_at did db of
           None \<Rightarrow> Inl (KeyError ''simulation admission references an unknown simulation risk decision'')
         | Some d \<Rightarrow>
             rbind (assert_exact_model sha ''simulation admission decision'' d (af_dump (ad_decision a))) (\<lambda>_.
             case sim_admission_at aid db of
               Some r \<Rightarrow> rbind (same_payload sha ''simulation admission'' r digest) (\<lambda>_. Inr (False, db))
             | None \<Rightarrow>
                 rbind (stored_canonical (af_payload a)) (\<lambda>doc.
                 rbind (insert_sim_admission \<lparr>sp_sha256 = digest, sp_payload = doc, ar_admission_id = aid, ar_decision_id = did,
                   ar_session_id = sid, ar_intent_id = intent, ar_review_id = review, ar_book_sha256 = book,
                   ar_symbol = it_symbol i, ar_side = it_side i, ar_quantity = quantity, ar_price_cap = cap,
                   ar_admitted_at = ad_admitted_at a\<rparr> db) (\<lambda>db1.
                 rbind (publish_artifact sha nid ''kairos.simulation.admission.v2'' a now db1) (\<lambda>db2. Inr (True, db2)))))))"

subsection \<open>Trades and their events\<close>

definition trade_lineage :: "sim_trade \<Rightarrow> ((string \<times> string \<times> string \<times> string) \<times> string \<times> string) option" where
  "trade_lineage t =
     (case (mt_trade_id t, mt_session_id t, mt_admission_id t, mt_intent_id t, mt_symbol t, mt_side t) of
        (Some tid, Some sid, Some aid, Some intent, Some symbol, Some side) \<Rightarrow> Some ((tid, sid, aid, intent), symbol, side)
      | _ \<Rightarrow> None)"

definition pending_trade ::
  "string \<times> string \<times> string \<times> string \<Rightarrow> string \<Rightarrow> string \<Rightarrow> int \<Rightarrow> json \<Rightarrow> string \<Rightarrow> sim_trade_row" where
  "pending_trade ids symbol side created_at doc digest = (case ids of (tid, sid, aid, intent) \<Rightarrow>
     \<lparr>sp_sha256 = digest, sp_payload = doc, tr_trade_id = tid, tr_session_id = sid, tr_admission_id = aid, tr_intent_id = intent,
      tr_symbol = symbol, tr_side = side, tr_state = SIM_PENDING, tr_version = 0, tr_next_seq = 1, tr_head = None,
      tr_count = 0, tr_created_at = created_at\<rparr>)"

definition create_sim_trade :: "(string \<Rightarrow> string) \<Rightarrow> int \<Rightarrow> sim_trade \<Rightarrow> timestamp \<Rightarrow> sim_db \<Rightarrow> (bool \<times> sim_db) res" where
  "create_sim_trade sha nid t now db = (case mt_admission t of
       None \<Rightarrow> Inl (ValueError ''durable simulator trades require a decision-bound simulation admission.v2'')
     | Some admission \<Rightarrow> (case trade_lineage t of
           None \<Rightarrow> Inl (ValueError ''simulation trade requires complete canonical lineage'')
         | Some ((tid, sid, aid, intent), symbol, side) \<Rightarrow>
             rbind (canonical_payload sha (af_payload t)) (\<lambda>(encoded, digest).
             case select_one (\<lambda>r. ar_session_id r = sid \<and> ar_admission_id r = aid) (sj_admissions db) of
               None \<Rightarrow> Inl (KeyError ''simulation trade references an unknown admission'')
             | Some a \<Rightarrow>
                 rbind (assert_exact_model sha ''simulation trade admission'' a (af_dump admission)) (\<lambda>_.
                 case sim_trade_at tid db of
                   Some r \<Rightarrow> rbind (same_payload sha ''simulation trade'' r digest) (\<lambda>_. Inr (False, db))
                 | None \<Rightarrow>
                     rbind (stored_canonical (af_payload t)) (\<lambda>doc.
                     rbind (insert_sim_trade (pending_trade (tid, sid, aid, intent) symbol side (mt_created_at t) doc digest) db) (\<lambda>db1.
                     rbind (publish_artifact sha nid ''kairos.simulation.trade.v1'' t now db1) (\<lambda>db2. Inr (True, db2))))))))"

text \<open>The checks of \<open>_append_trade_event_locked\<close> against the row of the trade.\<close>

definition event_follows :: "sim_event \<Rightarrow> sim_trade_row \<Rightarrow> unit res" where
  "event_follows e r =
     rbind (assert_trade_lineage r (ev_session_id e) (ev_admission_id e) (ev_intent_id e)) (\<lambda>_.
     if ev_symbol e \<noteq> tr_symbol r \<or> ev_side e \<noteq> tr_side r
     then Inl (MessageIdentityConflict ''simulation event symbol or side differs from its durable trade'')
     else if ev_seq e \<noteq> tr_next_seq r
     then Inl (MessageIdentityConflict ''simulation event sequence is not the next durable lifecycle sequence'')
     else if ev_previous e \<noteq> tr_head r
     then Inl (MessageIdentityConflict ''simulation event predecessor does not match the durable journal head'')
     else if ev_seq e = 1
     then (if ev_from e \<noteq> None \<or> ev_to e \<noteq> tr_state r
           then Inl (MessageIdentityConflict ''simulation admission event does not match the initial trade state'')
           else Inr ())
     else if ev_from e \<noteq> Some (tr_state r)
     then Inl (MessageIdentityConflict ''simulation event prior state does not match durable lifecycle state'')
     else Inr ())"

definition event_receipt_known :: "sim_event \<Rightarrow> sim_db \<Rightarrow> unit res" where
  "event_receipt_known e db = (case (ev_command_id e, ev_receipt_id e) of
       (None, None) \<Rightarrow> Inr ()
     | (Some c, Some x) \<Rightarrow> (case select_one (\<lambda>r. rr_receipt_id r = x) (sj_receipts db) of
           None \<Rightarrow> Inl (MessageIdentityConflict ''simulation event command receipt lineage is not durable'')
         | Some r \<Rightarrow> if rr_command_id r \<noteq> c \<or> rr_trade_id r \<noteq> ev_trade_id e
             then Inl (MessageIdentityConflict ''simulation event command receipt lineage is not durable'') else Inr ())
     | _ \<Rightarrow> Inl (MessageIdentityConflict ''simulation model events require both command and receipt lineage''))"

definition advanced_trade :: "sim_event \<Rightarrow> string \<Rightarrow> sim_trade_row \<Rightarrow> sim_trade_row" where
  "advanced_trade e eid r = r\<lparr>tr_state := ev_to e, tr_version := tr_version r + 1, tr_next_seq := tr_next_seq r + 1,
     tr_head := Some eid, tr_count := tr_count r + 1\<rparr>"

definition advance_trade :: "sim_event \<Rightarrow> string \<Rightarrow> int \<Rightarrow> sim_db \<Rightarrow> sim_db res" where
  "advance_trade e eid version db =
     (let P = (\<lambda>r. tr_trade_id r = ev_trade_id e \<and> tr_version r = version) in
      if list_ex (\<lambda>r. P r \<and> \<not> sim_trade_check (advanced_trade e eid r)) (sj_trades db)
      then Inl (IntegrityError ''sim_trades_check'')
      else if affected P (sj_trades db) \<noteq> 1
      then Inl (RuntimeError ''simulation lifecycle transition lost its serialized state version'')
      else Inr (db\<lparr>sj_trades := update_where P (advanced_trade e eid) (sj_trades db)\<rparr>))"

definition event_row_of :: "sim_event \<Rightarrow> string \<Rightarrow> json \<Rightarrow> string \<Rightarrow> sim_event_row" where
  "event_row_of e eid doc digest = \<lparr>sp_sha256 = digest, sp_payload = doc, er_event_id = eid, er_trade_id = ev_trade_id e,
     er_seq = ev_seq e, er_previous = ev_previous e, er_sha256 = eid, er_from = ev_from e, er_to = ev_to e,
     er_type = ev_type e, er_occurred_at = ev_occurred_at e, er_command_id = ev_command_id e, er_receipt_id = ev_receipt_id e\<rparr>"

definition append_sim_trade_event_locked ::
  "(string \<Rightarrow> string) \<Rightarrow> int \<Rightarrow> sim_event \<Rightarrow> timestamp \<Rightarrow> sim_db \<Rightarrow> (bool \<times> sim_db) res" where
  "append_sim_trade_event_locked sha nid e now db = (case ev_event_id e of
       None \<Rightarrow> Inl (ValueError ''simulation trade event requires its canonical identity'')
     | Some eid \<Rightarrow>
         rbind (canonical_payload sha (af_payload e)) (\<lambda>(encoded, digest).
         case select_one (\<lambda>r. er_event_id r = eid) (sj_events db) of
           Some r \<Rightarrow>
             if er_trade_id r \<noteq> ev_trade_id e
             then Inl (MessageIdentityConflict ''simulation event ID was reused by a different trade'')
             else rbind (same_payload sha ''simulation trade event'' r digest) (\<lambda>_. Inr (False, db))
         | None \<Rightarrow> (case sim_trade_at (ev_trade_id e) db of
             None \<Rightarrow> Inl (KeyError ''simulation event references an unknown trade'')
           | Some t \<Rightarrow>
               rbind (event_follows e t) (\<lambda>_.
               rbind (event_receipt_known e db) (\<lambda>_.
               rbind (advance_trade e eid (tr_version t) db) (\<lambda>db1.
               rbind (stored_canonical (af_payload e)) (\<lambda>doc.
               rbind (insert_event (event_row_of e eid doc digest) db1) (\<lambda>db2.
               rbind (publish_artifact sha nid ''kairos.simulation.trade_event.v2'' e now db2) (\<lambda>db3. Inr (True, db3))))))))))"

definition append_sim_trade_event ::
  "(string \<Rightarrow> string) \<Rightarrow> int \<Rightarrow> sim_event \<Rightarrow> timestamp \<Rightarrow> sim_db \<Rightarrow> (bool \<times> sim_db) res" where
  "append_sim_trade_event sha nid e now db = append_sim_trade_event_locked sha nid e now db"

subsection \<open>Commands\<close>

definition command_lineage :: "sim_command \<Rightarrow> ((string \<times> string \<times> string \<times> string \<times> string) \<times> string) option" where
  "command_lineage c =
     (case (mc_command_id c, mc_session_id c, mc_admission_id c, mc_intent_id c, mc_trade_id c, mc_symbol c) of
        (Some cid, Some sid, Some aid, Some intent, Some tid, Some symbol) \<Rightarrow> Some ((cid, sid, aid, intent, tid), symbol)
      | _ \<Rightarrow> None)"

definition command_row_of ::
  "sim_command \<Rightarrow> string \<times> string \<times> string \<times> string \<times> string \<Rightarrow> string \<Rightarrow> string \<Rightarrow> timestamp \<Rightarrow> json \<Rightarrow> string \<Rightarrow> sim_command_row" where
  "command_row_of c ids symbol side now doc digest = (case ids of (cid, sid, aid, intent, tid) \<Rightarrow>
     \<lparr>sp_sha256 = digest, sp_payload = doc, cr_command_id = cid, cr_session_id = sid, cr_admission_id = aid,
      cr_intent_id = intent, cr_trade_id = tid, cr_symbol = symbol, cr_side = side, cr_order_side = mc_order_side c,
      cr_kind = mc_kind c, cr_status = COMMAND_PREPARED, cr_prepared_at = now, cr_completed_at = None\<rparr>)"

definition sim_command_at :: "string \<Rightarrow> sim_db \<Rightarrow> sim_command_row option" where
  "sim_command_at c db = select_one (\<lambda>r. cr_command_id r = c) (sj_commands db)"

record command_preparation =
  cp_command :: sim_command
  cp_created :: bool
  cp_status :: command_status

definition prepare_command ::
  "(string \<Rightarrow> string) \<Rightarrow> journal_models \<Rightarrow> int \<Rightarrow> sim_command \<Rightarrow> timestamp \<Rightarrow> sim_db \<Rightarrow> (command_preparation \<times> sim_db) res" where
  "prepare_command sha J nid c now db = (case (command_lineage c, mc_side c) of
       (Some ((cid, sid, aid, intent, tid), symbol), Some side) \<Rightarrow>
         rbind (canonical_payload sha (af_payload c)) (\<lambda>(encoded, digest).
         rbind (assert_exact_trade sha (mc_trade c) sid tid db) (\<lambda>_.
         case sim_command_at cid db of
           Some r \<Rightarrow>
             rbind (same_payload sha ''simulation command'' r digest) (\<lambda>_.
             rbind (stored_model sha (decode_sim_command J) ''simulation command'' (sp_payload r) (sp_sha256 r)) (\<lambda>stored.
               Inr (\<lparr>cp_command = stored, cp_created = False, cp_status = cr_status r\<rparr>, db)))
         | None \<Rightarrow>
             rbind (stored_canonical (af_payload c)) (\<lambda>doc.
             rbind (insert_sim_command (command_row_of c (cid, sid, aid, intent, tid) symbol side now doc digest) db) (\<lambda>db1.
             rbind (publish_artifact sha nid ''kairos.simulation.command.v1'' c now db1) (\<lambda>db2.
               Inr (\<lparr>cp_command = c, cp_created = True, cp_status = COMMAND_PREPARED\<rparr>, db2))))))
     | _ \<Rightarrow> Inl (ValueError ''simulation command requires complete canonical trade lineage''))"

definition receipt_row_of :: "sim_receipt \<Rightarrow> string \<Rightarrow> string \<Rightarrow> json \<Rightarrow> string \<Rightarrow> receipt_row" where
  "receipt_row_of x xid cid doc digest = \<lparr>sp_sha256 = digest, sp_payload = doc, rr_receipt_id = xid, rr_command_id = cid,
     rr_session_id = mr_session_id x, rr_admission_id = mr_admission_id x, rr_intent_id = mr_intent_id x,
     rr_trade_id = mr_trade_id x, rr_status = mr_status x\<rparr>"

definition receipt_for :: "string \<Rightarrow> sim_db \<Rightarrow> receipt_row option" where
  "receipt_for c db = select_one (\<lambda>r. rr_command_id r = c) (sj_receipts db)"

text \<open>The loop over the events of a completion; \<open>nids\<close> yields the outbox ids.\<close>

fun complete_events ::
  "(string \<Rightarrow> string) \<Rightarrow> (nat \<Rightarrow> int) \<Rightarrow> string \<Rightarrow> string \<Rightarrow> sim_event list \<Rightarrow> timestamp \<Rightarrow> sim_db \<Rightarrow> sim_db res" where
  "complete_events sha nids cid xid [] now db = Inr db"
| "complete_events sha nids cid xid (e # es) now db =
     (if ev_command_id e \<noteq> Some cid \<or> ev_receipt_id e \<noteq> Some xid
      then Inl (MessageIdentityConflict ''command completion event must reference this command and receipt'')
      else rbind (append_sim_trade_event_locked sha (nids (length es + 1)) e now db) (\<lambda>(_, db1).
        complete_events sha nids cid xid es now db1))"

definition completed_command :: "timestamp \<Rightarrow> sim_command_row \<Rightarrow> sim_command_row" where
  "completed_command now r = r\<lparr>cr_status := COMMAND_COMPLETED, cr_completed_at := Some now\<rparr>"

definition mark_completed :: "string \<Rightarrow> timestamp \<Rightarrow> sim_db \<Rightarrow> sim_db res" where
  "mark_completed cid now db =
     (let P = (\<lambda>r. cr_command_id r = cid \<and> cr_status r = COMMAND_PREPARED) in
      if affected P (sj_commands db) \<noteq> 1
      then Inl (RuntimeError ''simulation command completion lost its prepared state'')
      else Inr (db\<lparr>sj_commands := update_where P (completed_command now) (sj_commands db)\<rparr>))"

text \<open>What a completion writes once the command is known to be prepared and to have no receipt.\<close>

definition complete_prepared ::
  "(string \<Rightarrow> string) \<Rightarrow> (nat \<Rightarrow> int) \<Rightarrow> string \<Rightarrow> string \<Rightarrow> sim_receipt \<Rightarrow> string \<Rightarrow> liquidity_row \<Rightarrow> sim_event list
     \<Rightarrow> timestamp \<Rightarrow> sim_db \<Rightarrow> sim_db res" where
  "complete_prepared sha nids cid xid receipt digest liquidity events now db =
     rbind (stored_canonical (af_payload receipt)) (\<lambda>doc.
     rbind (insert_command_receipt (receipt_row_of receipt xid cid doc digest) db) (\<lambda>db1.
     rbind (stored_canonical (sp_payload liquidity)) (\<lambda>state.
     rbind (upsert_liquidity (liquidity\<lparr>sp_payload := state\<rparr>) db1) (\<lambda>db2.
     rbind (complete_events sha nids cid xid events now db2) (\<lambda>db3.
     rbind (mark_completed cid now db3) (\<lambda>db4.
       publish_artifact sha (nids 0) ''kairos.simulation.command_receipt.v1'' receipt now db4))))))"

text \<open>\<open>state\<close> are the items of the mapping \<open>model_state_payload\<close>.\<close>

definition snapshot_matches :: "(string \<times> json) list \<Rightarrow> string \<Rightarrow> string \<Rightarrow> bool" where
  "snapshot_matches state sid symbol \<longleftrightarrow>
     map_of state ''session_id'' = Some (JStr sid) \<and> map_of state ''symbol'' = Some (JStr symbol)"

definition complete_command ::
  "(string \<Rightarrow> string) \<Rightarrow> journal_models \<Rightarrow> (nat \<Rightarrow> int) \<Rightarrow> sim_command \<Rightarrow> sim_receipt \<Rightarrow> string \<Rightarrow> (string \<times> json) list
     \<Rightarrow> sim_event list \<Rightarrow> timestamp \<Rightarrow> sim_db \<Rightarrow> ((sim_receipt \<times> bool) \<times> sim_db) res" where
  "complete_command sha J nids c receipt version state events now db = (case command_lineage c of
       None \<Rightarrow> Inl (ValueError ''simulation command requires complete canonical trade lineage'')
     | Some ((cid, sid, aid, intent, tid), symbol) \<Rightarrow>
       if mr_command_id receipt \<noteq> Some cid \<or> mc_command_id (mr_command receipt) \<noteq> Some cid
       then Inl (MessageIdentityConflict ''simulation receipt does not belong to the prepared command'')
       else rbind (model_payload (af_dump (mr_command receipt))) (\<lambda>received.
       rbind (model_payload (af_dump c)) (\<lambda>prepared.
       if \<not> json_eq received prepared
       then Inl (MessageIdentityConflict ''simulation receipt command differs from the prepared command payload'')
       else case mr_receipt_id receipt of
         None \<Rightarrow> Inl (ValueError ''simulation receipt requires its canonical identity'')
       | Some xid \<Rightarrow>
         rbind (validate_text ''model_state_schema_version'' version) (\<lambda>_.
         if \<not> snapshot_matches state sid symbol
         then Inl (ValueError ''private simulator liquidity snapshot does not match the command session and symbol'')
         else
         rbind (canonical_payload sha (JObj state)) (\<lambda>(_, state_digest).
         rbind (canonical_payload sha (af_payload c)) (\<lambda>(_, command_digest).
         rbind (canonical_payload sha (af_payload receipt)) (\<lambda>(_, receipt_digest).
         case sim_command_at cid db of
           None \<Rightarrow> Inl (KeyError ''simulation command was not prepared'')
         | Some r \<Rightarrow>
           rbind (same_payload sha ''simulation command'' r command_digest) (\<lambda>_.
           case receipt_for cid db of
             Some x \<Rightarrow>
               rbind (same_payload sha ''simulation command receipt'' x receipt_digest) (\<lambda>_.
               if cr_status r \<noteq> COMMAND_COMPLETED
               then Inl (MessageIdentityConflict ''a simulator command receipt exists without a completed command'')
               else rbind (stored_model sha (decode_sim_receipt J) ''simulation command receipt'' (sp_payload x) (sp_sha256 x))
                 (\<lambda>stored. Inr ((stored, False), db)))
           | None \<Rightarrow>
               if cr_status r \<noteq> COMMAND_PREPARED
               then Inl (MessageIdentityConflict ''simulation command is not available for terminal completion'')
               else rbind (assert_exact_trade sha (mc_trade c) sid tid db) (\<lambda>_.
                 rbind (complete_prepared sha nids cid xid receipt receipt_digest
                   \<lparr>sp_sha256 = state_digest, sp_payload = JObj state, lr_session_id = sid, lr_symbol = symbol,
                    lr_version = version, lr_updated_at = now\<rparr> events now db) (\<lambda>db1.
                   Inr ((receipt, True), db1)))))))))))"

subsection \<open>Results and session receipts\<close>

definition result_row_of :: "sim_result \<Rightarrow> string \<Rightarrow> json \<Rightarrow> string \<Rightarrow> result_row" where
  "result_row_of x rid doc digest = \<lparr>sp_sha256 = digest, sp_payload = doc, xr_result_id = rid,
     xr_session_id = rs_session_id x, xr_admission_id = rs_admission_id x, xr_intent_id = rs_intent_id x,
     xr_trade_id = rs_trade_id x, xr_terminal_event = rs_terminal_event x, xr_final_state = rs_final_state x,
     xr_completed_at = rs_completed_at x\<rparr>"

definition result_terminal :: "sim_result \<Rightarrow> sim_db \<Rightarrow> unit res" where
  "result_terminal x db = (case sim_trade_at (rs_trade_id x) db of
       None \<Rightarrow> Inl (KeyError ''simulation result references an unknown trade'')
     | Some t \<Rightarrow>
         rbind (assert_trade_lineage t (rs_session_id x) (rs_admission_id x) (rs_intent_id x)) (\<lambda>_.
         if tr_state t \<noteq> rs_final_state x
         then Inl (ValueError ''simulation result final state does not match the durable trade state'')
         else (case select_one (\<lambda>r. er_trade_id r = rs_trade_id x \<and> er_event_id r = rs_terminal_event x) (sj_events db) of
             None \<Rightarrow> Inl (ValueError ''simulation result must reference its trade's terminal lifecycle event'')
           | Some r \<Rightarrow> if er_to r \<noteq> rs_final_state x
               then Inl (ValueError ''simulation result must reference its trade's terminal lifecycle event'') else Inr ())))"

definition record_result :: "(string \<Rightarrow> string) \<Rightarrow> int \<Rightarrow> sim_result \<Rightarrow> timestamp \<Rightarrow> sim_db \<Rightarrow> (bool \<times> sim_db) res" where
  "record_result sha nid x now db = (case rs_result_id x of
       None \<Rightarrow> Inl (ValueError ''simulation result requires its canonical identity'')
     | Some rid \<Rightarrow>
         rbind (canonical_payload sha (af_payload x)) (\<lambda>(encoded, digest).
         rbind (result_terminal x db) (\<lambda>_.
         case select_one (\<lambda>r. xr_result_id r = rid) (sj_results db) of
           Some r \<Rightarrow> rbind (same_payload sha ''simulation result'' r digest) (\<lambda>_. Inr (False, db))
         | None \<Rightarrow>
             if list_ex (\<lambda>r. xr_trade_id r = rs_trade_id x) (sj_results db)
             then Inl (MessageIdentityConflict ''a simulation trade already has a different terminal result'')
             else rbind (stored_canonical (af_payload x)) (\<lambda>doc.
               rbind (insert_result (result_row_of x rid doc digest) db) (\<lambda>db1.
               rbind (publish_artifact sha nid ''kairos.simulation.result.v1'' x now db1) (\<lambda>db2. Inr (True, db2)))))))"

definition trades_of :: "string \<Rightarrow> sim_db \<Rightarrow> sim_trade_row list" where
  "trades_of session db = sort_key tr_trade_id (filter (\<lambda>r. tr_session_id r = session) (sj_trades db))"

definition head_of_trade :: "sim_trade_row \<Rightarrow> journal_head" where
  "head_of_trade r = \<lparr>jh_trade_id = tr_trade_id r, jh_state = tr_state r, jh_count = tr_count r, jh_head = tr_head r\<rparr>"

definition session_receipt_row_of ::
  "sim_session_receipt \<Rightarrow> string \<times> string \<times> string \<times> string \<Rightarrow> json \<Rightarrow> string \<Rightarrow> session_receipt_row" where
  "session_receipt_row_of x ids doc digest = (case ids of (rid, sid, tape, tape_sha) \<Rightarrow>
     \<lparr>sp_sha256 = digest, sp_payload = doc, yr_receipt_id = rid, yr_session_id = sid, yr_tape_id = tape,
      yr_tape_sha256 = tape_sha, yr_state = ss_state x, yr_completed_at = ss_completed_at x\<rparr>)"

definition close_session :: "string \<Rightarrow> string \<Rightarrow> sim_db \<Rightarrow> sim_db" where
  "close_session sid receipt_state db = db\<lparr>sj_sessions := update_where (\<lambda>r. sr_session_id r = sid)
     (\<lambda>r. r\<lparr>sr_state := if receipt_state = ''COMPLETED'' then SESSION_COMPLETED else SESSION_BLOCKED\<rparr>) (sj_sessions db)\<rparr>"

text \<open>The comparison of a receipt with its session and the journal heads.\<close>

definition receipt_matches_session ::
  "(string \<Rightarrow> string) \<Rightarrow> journal_models \<Rightarrow> sim_session_receipt \<Rightarrow> string \<times> string \<times> string \<times> string \<Rightarrow> sim_db \<Rightarrow> unit res" where
  "receipt_matches_session sha J x ids db = (case ids of (rid, sid, tape, tape_sha) \<Rightarrow>
     case sim_session_at sid db of
       None \<Rightarrow> Inl (KeyError ''simulation session receipt references an unknown session'')
     | Some s \<Rightarrow>
         rbind (assert_exact_model sha ''simulation session receipt session'' s (af_dump (ss_session x))) (\<lambda>_.
         if sr_tape_id s \<noteq> tape \<or> sr_tape_sha256 s \<noteq> tape_sha
         then Inl (MessageIdentityConflict ''simulation session receipt tape lineage does not match its session'')
         else let rows = trades_of sid db; heads = map head_of_trade rows in
           if \<not> list_all (valid_head J) heads then Inl (ValueError ''SimulationTradeJournalHeadV1'')
           else if ss_journals x \<noteq> heads
           then Inl (MessageIdentityConflict ''simulation session receipt journal heads do not match durable state'')
           else if ss_state x = ''COMPLETED'' \<and> list_ex (\<lambda>r. tr_state r \<notin> set terminal_states) rows
           then Inl (ValueError ''a completed simulation session still has a non-terminal trade'')
           else Inr ()))"

definition session_receipt_ids :: "sim_session_receipt \<Rightarrow> (string \<times> string \<times> string \<times> string) option" where
  "session_receipt_ids x = (case (ss_receipt_id x, ss_session_id x, ss_tape_id x, ss_tape_sha256 x) of
       (Some rid, Some sid, Some tape, Some tape_sha) \<Rightarrow> Some (rid, sid, tape, tape_sha) | _ \<Rightarrow> None)"

definition record_session_receipt ::
  "(string \<Rightarrow> string) \<Rightarrow> journal_models \<Rightarrow> int \<Rightarrow> sim_session_receipt \<Rightarrow> timestamp \<Rightarrow> sim_db \<Rightarrow> (bool \<times> sim_db) res" where
  "record_session_receipt sha J nid x now db = (case session_receipt_ids x of
       None \<Rightarrow> Inl (ValueError ''simulation session receipt requires canonical session lineage'')
     | Some (rid, sid, tape, tape_sha) \<Rightarrow>
         rbind (canonical_payload sha (af_payload x)) (\<lambda>(encoded, digest).
         rbind (receipt_matches_session sha J x (rid, sid, tape, tape_sha) db) (\<lambda>_.
         case select_one (\<lambda>r. yr_receipt_id r = rid) (sj_session_receipts db) of
           Some r \<Rightarrow> rbind (same_payload sha ''simulation session receipt'' r digest) (\<lambda>_. Inr (False, db))
         | None \<Rightarrow>
             if list_ex (\<lambda>r. yr_session_id r = sid) (sj_session_receipts db)
             then Inl (MessageIdentityConflict ''simulation session already has a different terminal receipt'')
             else rbind (stored_canonical (af_payload x)) (\<lambda>doc.
               rbind (insert_session_receipt (session_receipt_row_of x (rid, sid, tape, tape_sha) doc digest) db) (\<lambda>db1.
               rbind (publish_artifact sha nid ''kairos.simulation.session_receipt.v1'' x now (close_session sid (ss_state x) db1))
                 (\<lambda>db2. Inr (True, db2)))))))"

subsection \<open>Verification and reading\<close>

definition validate_sha256 :: "string \<Rightarrow> string \<Rightarrow> unit res" where
  "validate_sha256 name value =
     (if \<not> sha256_hex value then Inl (ValueError (name @ '' must be a lowercase SHA-256 hex string'')) else Inr ())"

definition sim_trade_events :: "string \<Rightarrow> sim_db \<Rightarrow> sim_event_row list" where
  "sim_trade_events t db = sort_key er_seq (filter (\<lambda>r. er_trade_id r = t) (sj_events db))"

text \<open>The loop of \<open>verify_trade_chain\<close>; \<open>None\<close> is its answer \<open>False\<close>.\<close>

fun verify_sim_trade_events ::
  "(string \<Rightarrow> string) \<Rightarrow> journal_models \<Rightarrow> string \<Rightarrow> string \<Rightarrow> int \<Rightarrow> string option \<Rightarrow> sim_state \<Rightarrow> sim_event_row list
     \<Rightarrow> (int \<times> string option \<times> sim_state) option res" where
  "verify_sim_trade_events sha J trade session seq previous state [] = Inr (Some (seq, previous, state))"
| "verify_sim_trade_events sha J trade session seq previous state (r # rs) =
     rbind (stored_model sha (decode_sim_event J) ''simulation trade event'' (sp_payload r) (sp_sha256 r)) (\<lambda>e.
       if ev_seq e \<noteq> seq \<or> ev_previous e \<noteq> previous \<or>
          ev_event_id e \<noteq> Some (er_event_id r) \<or> ev_event_id e \<noteq> Some (er_sha256 r) \<or>
          ev_trade_id e \<noteq> trade \<or> ev_session_id e \<noteq> session \<or>
          (if seq = 1 then ev_from e \<noteq> None \<or> ev_to e \<noteq> state else ev_from e \<noteq> Some state)
       then Inr None
       else verify_sim_trade_events sha J trade session (seq + 1) (ev_event_id e) (ev_to e) rs)"

definition verify_sim_trade_chain :: "(string \<Rightarrow> string) \<Rightarrow> journal_models \<Rightarrow> string \<Rightarrow> sim_db \<Rightarrow> bool res" where
  "verify_sim_trade_chain sha J t db =
     rbind (validate_sha256 ''trade_id'' t) (\<lambda>_.
     case sim_trade_at t db of
       None \<Rightarrow> Inr False
     | Some r \<Rightarrow>
         rbind (verify_sim_trade_events sha J t (tr_session_id r) 1 None SIM_PENDING (sim_trade_events t db)) (\<lambda>verified.
         case verified of
           None \<Rightarrow> Inr False
         | Some (seq, previous, state) \<Rightarrow>
             Inr (tr_state r = state \<and> tr_next_seq r = seq \<and> tr_head r = previous \<and>
               tr_count r = int (length (sim_trade_events t db)))))"

record trade_journal =
  tj_trade :: sim_trade
  tj_state :: sim_state
  tj_next_seq :: int
  tj_head :: "string option"
  tj_events :: "sim_event list"

definition trade_matches_row :: "sim_trade \<Rightarrow> sim_trade_row \<Rightarrow> bool" where
  "trade_matches_row t r \<longleftrightarrow> mt_trade_id t = Some (tr_trade_id r) \<and> mt_session_id t = Some (tr_session_id r) \<and>
     mt_admission_id t = Some (tr_admission_id r) \<and> mt_intent_id t = Some (tr_intent_id r) \<and>
     mt_symbol t = Some (tr_symbol r) \<and> mt_side t = Some (tr_side r)"

definition event_of_trade :: "sim_event \<Rightarrow> sim_trade \<Rightarrow> bool" where
  "event_of_trade e t \<longleftrightarrow> Some (ev_trade_id e) = mt_trade_id t \<and> Some (ev_session_id e) = mt_session_id t \<and>
     Some (ev_admission_id e) = mt_admission_id t \<and> Some (ev_intent_id e) = mt_intent_id t \<and>
     Some (ev_symbol e) = mt_symbol t \<and> Some (ev_side e) = mt_side t"

text \<open>The loop of \<open>_materialize_trade_journal\<close>: the next sequence, the head, the state and the events.\<close>

fun materialize_events ::
  "(string \<Rightarrow> string) \<Rightarrow> journal_models \<Rightarrow> sim_trade \<Rightarrow> int \<Rightarrow> string option \<Rightarrow> sim_state \<Rightarrow> sim_event_row list
     \<Rightarrow> (int \<times> string option \<times> sim_state \<times> sim_event list) res" where
  "materialize_events sha J t seq previous state [] = Inr (seq, previous, state, [])"
| "materialize_events sha J t seq previous state (r # rs) =
     rbind (stored_model sha (decode_sim_event J) ''simulation trade event'' (sp_payload r) (sp_sha256 r)) (\<lambda>e.
       if \<not> event_of_trade e t \<or> ev_event_id e \<noteq> Some (er_event_id r) \<or> ev_event_id e \<noteq> Some (er_sha256 r) \<or>
          ev_seq e \<noteq> seq \<or> ev_previous e \<noteq> previous
       then Inl (MessageIdentityConflict ''simulation trade event chain differs from durable lifecycle'')
       else if ev_from e \<noteq> (if seq = 1 then None else Some state)
       then Inl (MessageIdentityConflict ''simulation event prior state differs from durable lifecycle'')
       else rbind (materialize_events sha J t (seq + 1) (ev_event_id e) (ev_to e) rs) (\<lambda>(n, head, final, es).
         Inr (n, head, final, e # es)))"

definition materialize_trade_journal ::
  "(string \<Rightarrow> string) \<Rightarrow> journal_models \<Rightarrow> sim_trade_row \<Rightarrow> sim_event_row list \<Rightarrow> trade_journal res" where
  "materialize_trade_journal sha J r rows =
     rbind (stored_model sha (decode_sim_trade J) ''simulation trade'' (sp_payload r) (sp_sha256 r)) (\<lambda>t.
     if \<not> trade_matches_row t r
     then Inl (MessageIdentityConflict ''simulation trade table lineage differs from its public payload'')
     else rbind (materialize_events sha J t 1 None SIM_PENDING rows) (\<lambda>(n, head, state, events).
       if tr_state r \<noteq> state \<or> tr_next_seq r \<noteq> n \<or> tr_head r \<noteq> head \<or> tr_count r \<noteq> int (length events)
       then Inl (MessageIdentityConflict ''simulation trade materialization does not match its event chain'')
       else Inr \<lparr>tj_trade = t, tj_state = tr_state r, tj_next_seq = n, tj_head = head, tj_events = events\<rparr>))"

definition load_trade_journal ::
  "(string \<Rightarrow> string) \<Rightarrow> journal_models \<Rightarrow> string \<Rightarrow> sim_db \<Rightarrow> trade_journal option res" where
  "load_trade_journal sha J t db =
     rbind (validate_sha256 ''trade_id'' t) (\<lambda>_.
     case sim_trade_at t db of
       None \<Rightarrow> Inr None
     | Some r \<Rightarrow> rbind (materialize_trade_journal sha J r (sim_trade_events t db)) (\<lambda>j. Inr (Some j)))"

definition load_liquidity_state ::
  "(string \<Rightarrow> string) \<Rightarrow> string \<Rightarrow> string \<Rightarrow> sim_db \<Rightarrow> (string \<times> json) option res" where
  "load_liquidity_state sha session symbol db =
     rbind (validate_sha256 ''session_id'' session) (\<lambda>_.
     if symbol \<notin> set sim_symbols then Inl (ValueError ''simulation symbol is outside the fixed five-symbol universe'')
     else case select_one (\<lambda>r. lr_session_id r = session \<and> lr_symbol r = symbol) (sj_liquidity db) of
       None \<Rightarrow> Inr None
     | Some r \<Rightarrow>
         rbind (stored_object (sp_payload r)) (\<lambda>payload.
         rbind (canonical_payload sha payload) (\<lambda>(_, actual).
         if actual \<noteq> sp_sha256 r
         then Inl (MessageIdentityConflict ''simulation private liquidity state payload hash does not match'')
         else Inr (Some (lr_version r, payload)))))"

definition load_command_receipt ::
  "(string \<Rightarrow> string) \<Rightarrow> journal_models \<Rightarrow> string \<Rightarrow> sim_db \<Rightarrow> sim_receipt option res" where
  "load_command_receipt sha J c db =
     rbind (validate_sha256 ''command_id'' c) (\<lambda>_.
     case receipt_for c db of
       None \<Rightarrow> Inr None
     | Some r \<Rightarrow> rbind (stored_model sha (decode_sim_receipt J) ''simulation command receipt'' (sp_payload r) (sp_sha256 r)) (\<lambda>x.
         if mr_command_id x \<noteq> Some c
         then Inl (MessageIdentityConflict ''simulation command receipt does not match its durable command'')
         else Inr (Some x)))"

fun stored_models ::
  "(string \<Rightarrow> string) \<Rightarrow> (json \<Rightarrow> 'm option) \<Rightarrow> string \<Rightarrow> 'z stored_row_scheme list \<Rightarrow> 'm list res" where
  "stored_models sha decode entity [] = Inr []"
| "stored_models sha decode entity (r # rs) =
     rbind (stored_model sha decode entity (sp_payload r) (sp_sha256 r)) (\<lambda>m.
     rbind (stored_models sha decode entity rs) (\<lambda>ms. Inr (m # ms)))"

definition prepared_commands :: "string \<Rightarrow> sim_db \<Rightarrow> sim_command_row list" where
  "prepared_commands session db = sort_key (\<lambda>r. (cr_prepared_at r, cr_command_id r))
     (filter (\<lambda>r. cr_session_id r = session \<and> cr_status r = COMMAND_PREPARED) (sj_commands db))"

definition list_prepared_commands ::
  "(string \<Rightarrow> string) \<Rightarrow> journal_models \<Rightarrow> string \<Rightarrow> sim_db \<Rightarrow> sim_command list res" where
  "list_prepared_commands sha J session db =
     rbind (validate_sha256 ''session_id'' session) (\<lambda>_.
     rbind (stored_models sha (decode_sim_command J) ''simulation command'' (prepared_commands session db)) (\<lambda>cs.
     if list_ex (\<lambda>c. mc_session_id c \<noteq> Some session) cs
     then Inl (MessageIdentityConflict ''prepared simulation command differs from requested session'')
     else Inr cs))"

text \<open>The \<open>LEFT JOIN\<close> with \<open>sim_results\<close> whose right side is null.\<close>

definition unsettled_trades :: "string \<Rightarrow> sim_db \<Rightarrow> sim_trade_row list" where
  "unsettled_trades session db = sort_key tr_trade_id (filter (\<lambda>r. tr_session_id r = session \<and>
     tr_state r \<in> set terminal_states \<and> \<not> list_ex (\<lambda>x. xr_trade_id x = tr_trade_id r) (sj_results db)) (sj_trades db))"

definition list_terminal_trades_without_result ::
  "(string \<Rightarrow> string) \<Rightarrow> journal_models \<Rightarrow> string \<Rightarrow> sim_db \<Rightarrow> sim_trade list res" where
  "list_terminal_trades_without_result sha J session db =
     rbind (validate_sha256 ''session_id'' session) (\<lambda>_.
     rbind (stored_models sha (decode_sim_trade J) ''simulation trade'' (unsettled_trades session db)) (\<lambda>ts.
     if list_ex (\<lambda>t. mt_session_id t \<noteq> Some session) ts
     then Inl (MessageIdentityConflict ''terminal simulation trade differs from requested session'')
     else Inr ts))"
end
