(* ===== verification/TapeRuns.thy ===== *)
theory TapeRuns
  imports SimulatorTape "HOL-Library.Sublist"
begin

text \<open>
  Runs of the tape operations of \<open>SimulatorTape\<close>: what \<open>verify_tape\<close> accepts, what a sealed tape promises, and that
  nothing of a tape changes once it is sealed or blocked.
\<close>

subsection \<open>Lists that grow at the end\<close>

definition last_opt :: "'r list \<Rightarrow> 'r option" where
  "last_opt rs = (if rs = [] then None else Some (last rs))"

lemma last_opt_simps [simp]: "last_opt [] = None" "last_opt (rs @ [r]) = Some r"
  by (simp_all add: last_opt_def)

lemma last_opt_None [simp]: "last_opt rs = None \<longleftrightarrow> rs = []"
  by (simp add: last_opt_def)

lemma last_opt_Some: "last_opt rs = Some r \<Longrightarrow> r \<in> set rs"
  by (auto simp: last_opt_def split: if_splits)

text \<open>Each element is related to the list before it.\<close>

fun grown :: "('r list \<Rightarrow> 'r \<Rightarrow> bool) \<Rightarrow> 'r list \<Rightarrow> 'r list \<Rightarrow> bool" where
  "grown L xs [] = True"
| "grown L xs (r # rs) = (L xs r \<and> grown L (xs @ [r]) rs)"

lemma grown_snoc: "grown L xs (rs @ [r]) \<longleftrightarrow> grown L xs rs \<and> L (xs @ rs) r"
  by (induction rs arbitrary: xs) auto

lemma grown_all: "grown L xs rs \<Longrightarrow> r \<in> set rs \<Longrightarrow> \<exists>ys. L ys r"
  by (induction rs arbitrary: xs) auto

lemma grown_append: "grown L xs (rs @ qs) \<longleftrightarrow> grown L xs rs \<and> grown L (xs @ rs) qs"
  by (induction rs arbitrary: xs) auto

text \<open>Where each element exceeds the last one before it the list is strictly sorted.\<close>

lemma grown_sorted:
  fixes key :: "'r \<Rightarrow> int"
  assumes "grown L [] rs" and "\<And>xs r q. L xs r \<Longrightarrow> last_opt xs = Some q \<Longrightarrow> key q < key r"
  shows "sorted_wrt (\<lambda>a b. key a < key b) rs"
  using assms(1)
proof (induction rs rule: rev_induct)
  case (snoc r rs)
  then have s: "sorted_wrt (\<lambda>a b. key a < key b) rs" and L: "L rs r" by (simp_all add: grown_snoc)
  have "key x < key r" if "x \<in> set rs" for x
  proof -
    obtain ys y where rs: "rs = ys @ [y]" using \<open>x \<in> set rs\<close> by (cases rs rule: rev_exhaust) auto
    then have "key y < key r" using assms(2) [OF L, of y] by simp
    moreover have "key x \<le> key y" using s that rs by (auto simp: sorted_wrt_append)
    ultimately show ?thesis by simp
  qed
  with s show ?case by (simp add: sorted_wrt_append)
qed simp

lemma strictly_sorted_key:
  fixes key :: "'r \<Rightarrow> int"
  assumes "sorted_wrt (\<lambda>a b. key a < key b) rs"
  shows "sort_key key rs = rs"
proof -
  have "sorted (map key rs)"
    unfolding sorted_map using assms by (rule sorted_wrt_mono_rel [rotated]) simp
  then show ?thesis by (rule sort_key_id_if_sorted)
qed

lemma latest_by_last:
  assumes "sorted_wrt (\<lambda>a b. key a < key b) rs"
  shows "latest_by key rs = last_opt rs"
  unfolding latest_by_def strictly_sorted_key [OF assms] by (cases rs rule: rev_cases) auto

lemma sorted_wrt_filter_key: "sorted_wrt P rs \<Longrightarrow> sorted_wrt P (filter Q rs)"
  by (rule sorted_wrt_filter)

subsection \<open>Chains of bars and frames\<close>

definition good_bar :: "tape_models \<Rightarrow> closed_bar \<Rightarrow> bool" where
  "good_bar M bar \<longleftrightarrow> document_ok (mb_payload bar) \<and> decode_bar M (sorted_json (mb_payload bar)) = Some bar"

definition good_frame :: "tape_models \<Rightarrow> book_frame \<Rightarrow> bool" where
  "good_frame M f \<longleftrightarrow> document_ok (mf_payload f) \<and> str_field ''contract_version'' (mf_payload f) = Some (mf_version f) \<and>
     (if mf_version f = ''sim-book-frame.v1'' then decode_frame_v1 M else decode_frame_v2 M) (sorted_json (mf_payload f)) = Some f"

definition stored_bar :: "(string \<Rightarrow> string) \<Rightarrow> tape_models \<Rightarrow> bar_row \<Rightarrow> closed_bar \<Rightarrow> bool" where
  "stored_bar sha M r bar \<longleftrightarrow> good_bar M bar \<and> json_finite (mb_payload bar) \<and> br_payload r = sorted_json (mb_payload bar) \<and>
     br_payload_sha256 r = sha (canonical_json (mb_payload bar)) \<and> bar_matches r bar"

definition frame_matches :: "frame_row \<Rightarrow> book_frame \<Rightarrow> bool" where
  "frame_matches r f \<longleftrightarrow> fr_tape_id r = mf_tape_id f \<and> fr_sequence r = mf_sequence f \<and> fr_symbol r = mf_symbol f \<and>
     fr_epoch r = mf_epoch f \<and> fr_update_id r = mf_update_id f \<and> fr_exchange_at r = mf_exchange_at f \<and>
     fr_received_at r = mf_received_at f \<and> fr_persisted_at r = mf_persisted_at f \<and> fr_continuity r = mf_continuity f \<and>
     Some (fr_sha256 r) = mf_sha256 f \<and> fr_previous r = mf_previous f \<and> fr_raw_sha256 r = mf_raw_sha256 f \<and>
     fr_version r = mf_version f \<and> fr_evidence r = raw_evidence f"

definition stored_book :: "(string \<Rightarrow> string) \<Rightarrow> tape_models \<Rightarrow> frame_row \<Rightarrow> book_frame \<Rightarrow> bool" where
  "stored_book sha M r f \<longleftrightarrow> good_frame M f \<and> json_finite (mf_payload f) \<and> fr_payload r = sorted_json (mf_payload f) \<and>
     fr_payload_sha256 r = sha (canonical_json (mf_payload f)) \<and> frame_matches r f \<and>
     mf_version f \<in> {''sim-book-frame.v1'', ''sim-book-frame.v2''}"

definition bar_link :: "(string \<Rightarrow> string) \<Rightarrow> tape_models \<Rightarrow> string \<Rightarrow> string \<Rightarrow> bar_row list \<Rightarrow> bar_row \<Rightarrow> bool" where
  "bar_link sha M tape symbol xs r \<longleftrightarrow> br_symbol r = symbol \<and> br_previous r = map_option br_sha256 (last_opt xs) \<and>
     br_chain r = bar_chain_sha256 sha tape symbol (map_option br_chain (last_opt xs)) (br_sha256 r) \<and>
     (\<forall>q. last_opt xs = Some q \<longrightarrow> br_open_time r = br_close_time q + 1) \<and> br_close_time r = br_open_time r + 59999 \<and>
     (\<exists>bar. stored_bar sha M r bar)"

text \<open>The clocks of a symbol advance within an epoch, and only a reconnection changes it.\<close>

definition clock_order :: "frame_row \<Rightarrow> frame_row \<Rightarrow> bool" where
  "clock_order q r \<longleftrightarrow> (if fr_epoch r = fr_epoch q
     then fr_update_id q < fr_update_id r \<and> fr_exchange_at q \<le> fr_exchange_at r \<and> fr_received_at q \<le> fr_received_at r \<and>
       fr_persisted_at q \<le> fr_persisted_at r
     else fr_continuity r = ''RECONNECT'')"

definition last_of_symbol :: "string \<Rightarrow> frame_row list \<Rightarrow> frame_row option" where
  "last_of_symbol s xs = last_opt (filter (\<lambda>r. fr_symbol r = s) xs)"

definition frame_link :: "(string \<Rightarrow> string) \<Rightarrow> tape_models \<Rightarrow> string \<Rightarrow> frame_row list \<Rightarrow> frame_row \<Rightarrow> bool" where
  "frame_link sha M tape xs r \<longleftrightarrow> fr_sequence r = int (length xs) + 1 \<and> fr_previous r = map_option fr_sha256 (last_opt xs) \<and>
     fr_chain r = frame_chain_sha256 sha tape (map_option fr_chain (last_opt xs)) (fr_sha256 r) \<and>
     (\<forall>q. last_of_symbol (fr_symbol r) xs = Some q \<longrightarrow> clock_order q r) \<and> (\<exists>f. stored_book sha M r f)"

definition bars_linked :: "(string \<Rightarrow> string) \<Rightarrow> tape_models \<Rightarrow> string \<Rightarrow> string \<Rightarrow> bar_row list \<Rightarrow> bool" where
  "bars_linked sha M tape symbol rows \<longleftrightarrow> grown (bar_link sha M tape symbol) [] rows"

definition frames_linked :: "(string \<Rightarrow> string) \<Rightarrow> tape_models \<Rightarrow> string \<Rightarrow> frame_row list \<Rightarrow> bool" where
  "frames_linked sha M tape rows \<longleftrightarrow> grown (frame_link sha M tape) [] rows"

lemma bars_sorted:
  assumes "bars_linked sha M tape symbol rows"
  shows "sorted_wrt (\<lambda>a b. br_open_time a < br_open_time b) rows"
proof -
  have "grown (\<lambda>xs r. bar_link sha M tape symbol xs r \<and> (\<forall>q. last_opt xs = Some q \<longrightarrow> br_close_time q = br_open_time q + 59999))
      [] rows"
    using assms unfolding bars_linked_def
  proof (induction rows rule: rev_induct)
    case (snoc r rows)
    then have "grown (bar_link sha M tape symbol) [] rows" "bar_link sha M tape symbol rows r" by (simp_all add: grown_snoc)
    moreover have "br_close_time q = br_open_time q + 59999" if "last_opt rows = Some q" for q
      using grown_all [OF calculation(1) last_opt_Some [OF that]] by (auto simp: bar_link_def)
    ultimately show ?case using snoc.IH by (simp add: grown_snoc)
  qed simp
  then show ?thesis by (rule grown_sorted) (auto simp: bar_link_def)
qed

lemma frames_numbered:
  assumes "frames_linked sha M tape rows"
  shows "map fr_sequence rows = map (\<lambda>i. int i + 1) [0..<length rows]"
  using assms unfolding frames_linked_def
  by (induction rows rule: rev_induct) (auto simp: grown_snoc frame_link_def)

lemma frames_sorted:
  assumes "frames_linked sha M tape rows"
  shows "sorted_wrt (\<lambda>a b. fr_sequence a < fr_sequence b) rows"
proof -
  have "sorted_wrt (<) (map fr_sequence rows)"
    unfolding frames_numbered [OF assms] by (simp add: sorted_wrt_iff_nth_less)
  then show ?thesis by (simp add: sorted_wrt_map)
qed

lemma latest_bar: "bars_linked sha M tape symbol rows \<Longrightarrow> latest_by br_open_time rows = last_opt rows"
  by (intro latest_by_last bars_sorted)

lemma latest_frame: "frames_linked sha M tape rows \<Longrightarrow> latest_by fr_sequence rows = last_opt rows"
  by (intro latest_by_last frames_sorted)

lemma latest_of_symbol:
  "frames_linked sha M tape rows \<Longrightarrow> latest_by fr_sequence (filter (\<lambda>r. fr_symbol r = s) rows) = last_of_symbol s rows"
  unfolding last_of_symbol_def by (intro latest_by_last sorted_wrt_filter_key frames_sorted)

subsection \<open>The verifier accepts what was recorded\<close>

lemma stored_bar_model:
  assumes "stored_bar sha M r bar"
  shows "stored_model sha (decode_bar M) entity (br_payload r) (br_payload_sha256 r) = Inr bar"
  using assms
  by (auto simp: stored_bar_def good_bar_def document_ok_def stored_model_def stored_object_def canonical_payload_Inr
      canonical_payload_def canonical_dumps_def rbind_def)

lemma str_field_sorted:
  assumes "document_ok p"
  shows "str_field k (sorted_json p) = str_field k p"
proof -
  obtain kvs where p: "p = JObj kvs" using assms by (cases p) (auto simp: document_ok_def is_object_def)
  then have "json_get k (sorted_json p) = map_option sorted_json (json_get k p)"
    using assms json_get_sorted by (auto simp: document_ok_def)
  then show ?thesis by (auto simp: str_field_def split: option.splits json.splits)
qed

lemma frame_decoder_good:
  assumes "good_frame M f" and "mf_version f \<in> {''sim-book-frame.v1'', ''sim-book-frame.v2''}"
  shows "\<exists>decode. frame_decoder M (sorted_json (mf_payload f)) = Some decode \<and> decode (sorted_json (mf_payload f)) = Some f"
proof -
  have "str_field ''contract_version'' (sorted_json (mf_payload f)) = Some (mf_version f)"
    using assms(1) by (simp add: good_frame_def str_field_sorted)
  with assms show ?thesis by (auto simp: frame_decoder_def good_frame_def)
qed

lemma stored_book_frame:
  assumes "stored_book sha M r f"
  shows "stored_frame sha M r = Inr f"
proof -
  obtain decode where "frame_decoder M (sorted_json (mf_payload f)) = Some decode" "decode (sorted_json (mf_payload f)) = Some f"
    using assms frame_decoder_good by (auto simp: stored_book_def)
  with assms show ?thesis
    by (auto simp: stored_book_def good_frame_def document_ok_def stored_frame_def stored_object_def frame_matches_def
        canonical_payload_def canonical_dumps_def rbind_def)
qed

text \<open>Rows of several symbols, each linked within its own symbol.\<close>

lemma grown_interleaved:
  assumes "\<And>s. grown (L s) (filter (\<lambda>r. key r = s) xs) (filter (\<lambda>r. key r = s) rs)"
  shows "grown (\<lambda>xs r. L (key r) (filter (\<lambda>q. key q = key r) xs) r) xs rs"
  using assms
proof (induction rs arbitrary: xs)
  case (Cons r rs)
  have "grown (L s) (filter (\<lambda>r. key r = s) (xs @ [r])) (filter (\<lambda>r. key r = s) rs)" for s
    using Cons.prems [of s] by (cases "key r = s") auto
  then have "grown (\<lambda>xs r. L (key r) (filter (\<lambda>q. key q = key r) xs) r) (xs @ [r]) rs" by (rule Cons.IH)
  moreover have "L (key r) (filter (\<lambda>q. key q = key r) xs) r" using Cons.prems [of "key r"] by simp
  ultimately show ?case by simp
qed simp

definition bar_cursor :: "bar_row \<Rightarrow> int \<times> string \<times> string" where
  "bar_cursor r = (br_close_time r, br_sha256 r, br_chain r)"

definition head_of :: "bar_row list \<Rightarrow> (int \<times> string) option" where
  "head_of rows = map_option (\<lambda>r. (int (length rows), br_chain r)) (last_opt rows)"

definition of_symbol :: "string \<Rightarrow> bar_row list \<Rightarrow> bar_row list" where
  "of_symbol s rows = filter (\<lambda>r. br_symbol r = s) rows"

lemma of_symbol_snoc: "of_symbol s (xs @ [r]) = (if br_symbol r = s then of_symbol s xs @ [r] else of_symbol s xs)"
  by (simp add: of_symbol_def)

lemma bar_step_linked:
  assumes "bar_link sha M tape (br_symbol r) xs r" and "stored_bar sha M r bar"
  shows "bar_step sha tape (map_option bar_cursor (last_opt xs)) bar r = Some (br_chain r)"
  using assms
  by (auto simp: bar_step_def bar_link_def stored_bar_def bar_matches_def bar_cursor_def option.map_comp comp_def Let_def
      split: option.splits)

lemma verify_bars_linked:
  assumes "grown (\<lambda>xs r. bar_link sha M tape (br_symbol r) (of_symbol (br_symbol r) xs) r) xs rs"
    and "\<And>s. map_of previous s = map_option bar_cursor (last_opt (of_symbol s xs))"
    and "\<And>s. map_of heads s = head_of (of_symbol s xs)" and "distinct (map fst heads)"
  shows "\<exists>hs. verify_bars sha M tape previous heads rs = Inr (Some hs) \<and> distinct (map fst hs) \<and>
    (\<forall>s. map_of hs s = head_of (of_symbol s (xs @ rs)))"
  using assms
proof (induction rs arbitrary: xs previous heads)
  case (Cons r rs)
  let ?s = "br_symbol r"
  from Cons.prems(1) obtain bar where link: "bar_link sha M tape ?s (of_symbol ?s xs) r" and bar: "stored_bar sha M r bar"
    by (auto simp: bar_link_def)
  let ?count = "case map_of heads ?s of None \<Rightarrow> 0 | Some (n, _) \<Rightarrow> n"
  have count: "?count = int (length (of_symbol ?s xs))"
    using Cons.prems(3) [of ?s] by (auto simp: head_of_def split: option.splits)
  have step: "bar_step sha tape (map_of previous ?s) bar r = Some (br_chain r)"
    using bar_step_linked [OF link bar] Cons.prems(2) by simp
  have closed: "mb_close_time bar = br_close_time r" using bar by (simp add: stored_bar_def bar_matches_def)
  let ?previous = "AList.update ?s (bar_cursor r) previous"
  let ?heads = "AList.update ?s (?count + 1, br_chain r) heads"
  have "map_of ?previous s = map_option bar_cursor (last_opt (of_symbol s (xs @ [r])))" for s
    using Cons.prems(2) by (simp add: update_conv of_symbol_snoc)
  moreover have "map_of ?heads s = head_of (of_symbol s (xs @ [r]))" for s
    using Cons.prems(3) count by (simp add: update_conv of_symbol_snoc head_of_def)
  moreover have "distinct (map fst ?heads)" using Cons.prems(4) by (rule distinct_update)
  moreover have "grown (\<lambda>xs r. bar_link sha M tape (br_symbol r) (of_symbol (br_symbol r) xs) r) (xs @ [r]) rs"
    using Cons.prems(1) by simp
  ultimately obtain hs where "verify_bars sha M tape ?previous ?heads rs = Inr (Some hs)" "distinct (map fst hs)"
      "\<forall>s. map_of hs s = head_of (of_symbol s ((xs @ [r]) @ rs))"
    using Cons.IH [of "xs @ [r]" ?previous ?heads] by blast
  moreover have "verify_bars sha M tape previous heads (r # rs) = verify_bars sha M tape ?previous ?heads rs"
    by (simp add: stored_bar_model [OF bar] step closed bar_cursor_def Let_def)
  ultimately show ?case by simp
qed simp

definition row_clocks :: "frame_row \<Rightarrow> clocks" where
  "row_clocks r = (fr_epoch r, fr_update_id r, fr_exchange_at r, fr_received_at r, fr_persisted_at r)"

lemma last_of_symbol_snoc:
  "last_of_symbol s (xs @ [r]) = (if fr_symbol r = s then Some r else last_of_symbol s xs)"
  by (simp add: last_of_symbol_def)

lemma clocks_follow_order:
  assumes "frame_matches r f"
  shows "clocks_follow (map_option row_clocks q) f \<longleftrightarrow> (\<forall>p. q = Some p \<longrightarrow> clock_order p r)"
  using assms by (cases q) (auto simp: clocks_follow_def row_clocks_def clock_order_def frame_matches_def)

lemma verify_frames_linked:
  assumes "grown (frame_link sha M tape) xs rs"
    and "\<And>s. map_of clocks s = map_option row_clocks (last_of_symbol s xs)"
  shows "verify_frames sha M tape (int (length xs)) (map_option fr_sha256 (last_opt xs)) (map_option fr_chain (last_opt xs))
    clocks rs = Inr (Some (map_option fr_chain (last_opt (xs @ rs))))"
  using assms
proof (induction rs arbitrary: xs clocks)
  case (Cons r rs)
  from Cons.prems(1) obtain f where link: "frame_link sha M tape xs r" and f: "stored_book sha M r f"
    by (auto simp: frame_link_def)
  have m: "frame_matches r f" using f by (simp add: stored_book_def)
  then have eq: "mf_symbol f = fr_symbol r" "mf_sha256 f = Some (fr_sha256 r)" "mf_sequence f = fr_sequence r"
      "mf_previous f = fr_previous r" "frame_clocks f = row_clocks r"
    by (simp_all add: frame_matches_def frame_clocks_def row_clocks_def)
  have clocks: "clocks_follow (map_of clocks (fr_symbol r)) f"
    using link clocks_follow_order [OF m, of "last_of_symbol (fr_symbol r) xs"] Cons.prems(2) by (simp add: frame_link_def)
  let ?clocks = "AList.update (fr_symbol r) (row_clocks r) clocks"
  have "map_of ?clocks s = map_option row_clocks (last_of_symbol s (xs @ [r]))" for s
    using Cons.prems(2) by (simp add: update_conv last_of_symbol_snoc)
  then have "verify_frames sha M tape (int (length (xs @ [r]))) (Some (fr_sha256 r)) (Some (fr_chain r)) ?clocks rs =
      Inr (Some (map_option fr_chain (last_opt ((xs @ [r]) @ rs))))"
    using Cons.IH [of "xs @ [r]" ?clocks] Cons.prems(1) by simp
  with link show ?case
    by (simp add: stored_book_frame [OF f] eq clocks frame_link_def Let_def algebra_simps)
qed simp

text \<open>An association list with distinct keys, sorted by them.\<close>

lemma sorted_assoc:
  assumes "distinct (map fst hs)"
  shows "sort_key fst hs = map (\<lambda>k. (k, the (map_of hs k))) (sort (map fst hs))"
proof -
  have keys: "map fst (sort_key fst hs) = sort (map fst hs)"
    by (rule sorted_distinct_set_unique) (use assms in \<open>auto simp: distinct_map\<close>)
  have "map (\<lambda>kv. (fst kv, the (map_of hs (fst kv)))) (sort_key fst hs) = sort_key fst hs"
    using assms by (intro map_idI) auto
  then show ?thesis unfolding keys [symmetric] map_map comp_def by simp
qed

subsection \<open>What the operations do\<close>

lemma update_tape_Inr:
  "update_tape tape P f t = Inr t' \<longleftrightarrow> t' = update_where (\<lambda>r. tp_tape_id r = tape \<and> P r) f t \<and>
     (\<forall>r\<in>set t. tp_tape_id r = tape \<and> P r \<longrightarrow> tape_check (f r))"
  by (auto simp: update_tape_def list_all_iff)

lemma insert_bar_Inr: "insert_bar r t = Inr t' \<Longrightarrow> t' = insert_row r t \<and> bar_check r"
  by (auto simp: insert_bar_def split: if_splits)

lemma insert_frame_Inr: "insert_frame r t = Inr t' \<Longrightarrow> t' = insert_row r t \<and> frame_check r"
  by (auto simp: insert_frame_def split: if_splits)

lemma ensure_open_tape_outcome:
  assumes "ensure_open_tape tape db = Inr db1"
  obtains (known) r where "tape_at tape db = Some r" "tp_state r = TAPE_OPEN" "db1 = db"
  | (new) "tape_at tape db = None" "db1 = db\<lparr>tdb_tapes := insert_row (open_tape tape) (tdb_tapes db)\<rparr>"
  using assms by (cases "tape_at tape db") (auto simp: ensure_open_tape_def Let_def split: if_splits option.splits)

lemma ensure_open_tape_open:
  assumes "ensure_open_tape tape db = Inr db1"
  shows "\<exists>r. tape_at tape db1 = Some r \<and> tp_state r = TAPE_OPEN"
  using assms by (auto simp: ensure_open_tape_def Let_def split: if_splits option.splits)

lemma record_closed_bar_outcome:
  assumes "record_closed_bar sha tape bar db = Inr (b, db')"
  obtains db1 leaf where "ensure_open_tape tape db = Inr db1" "mb_sha256 bar = Some leaf" "\<not> b" "db' = db1"
  | db1 leaf doc row where "ensure_open_tape tape db = Inr db1" "mb_sha256 bar = Some leaf" "b"
      "json_finite (mb_payload bar)" "stored_canonical (mb_payload bar) = Inr doc"
      "row = bar_row_of sha tape bar leaf (latest_by br_open_time (bars_of tape (mb_symbol bar) db1)) doc
         (sha (canonical_json (mb_payload bar)))"
      "\<And>p. latest_by br_open_time (bars_of tape (mb_symbol bar) db1) = Some p \<Longrightarrow> mb_open_time bar = br_close_time p + 1"
      "bar_check row" "db' = db1\<lparr>tdb_bars := insert_row row (tdb_bars db1)\<rparr>"
proof -
  obtain leaf db1 where leaf: "mb_sha256 bar = Some leaf" and db1: "ensure_open_tape tape db = Inr db1"
      and fin: "json_finite (mb_payload bar)"
    using assms by (auto simp: record_closed_bar_def rbind_eq_Inr canonical_payload_Inr split: option.splits if_splits)
  let ?latest = "latest_by br_open_time (bars_of tape (mb_symbol bar) db1)"
  show thesis
  proof (cases "select_one (\<lambda>r. bar_key r = (tape, mb_symbol bar, mb_open_time bar)) (tdb_bars db1)")
    case (Some r)
    with assms leaf db1 fin have "\<not> b \<and> db' = db1"
      by (auto simp: record_closed_bar_def rbind_eq_Inr canonical_payload_Inr split: if_splits)
    with that(1) leaf db1 show thesis by blast
  next
    case None
    with assms leaf db1 obtain doc bars where doc: "stored_canonical (mb_payload bar) = Inr doc"
        and ins: "insert_bar (bar_row_of sha tape bar leaf ?latest doc (sha (canonical_json (mb_payload bar)))) (tdb_bars db1)
          = Inr bars"
        and b: "b" and db': "db' = db1\<lparr>tdb_bars := bars\<rparr>" and follows: "\<not> (case ?latest of None \<Rightarrow> False | Some p \<Rightarrow> mb_open_time bar \<noteq> br_close_time p + 1)"
      by (auto simp: record_closed_bar_def rbind_eq_Inr canonical_payload_Inr Let_def simp del: stored_canonical_def
          split: if_splits)
    from insert_bar_Inr [OF ins] follows db' show thesis
      by (intro that(2) [OF db1 leaf b fin doc refl]) (auto split: option.splits)
  qed
qed

lemma record_book_frame_outcome:
  assumes "record_book_frame sha M f now db = Inr (b, db')"
  obtains db1 leaf where "ensure_open_tape (mf_tape_id f) db = Inr db1" "mf_sha256 f = Some leaf" "\<not> b" "db' = db1"
  | db1 leaf doc row where "ensure_open_tape (mf_tape_id f) db = Inr db1" "mf_sha256 f = Some leaf" "b"
      "json_finite (mf_payload f)" "stored_canonical (mf_payload f) = Inr doc"
      "row = frame_row_of sha f leaf (latest_by fr_sequence (frames_of (mf_tape_id f) db1)) doc
         (sha (canonical_json (mf_payload f)))"
      "frame_follows (latest_by fr_sequence (frames_of (mf_tape_id f) db1)) f = Inr ()"
      "symbol_follows (latest_by fr_sequence (filter (\<lambda>r. fr_symbol r = mf_symbol f) (frames_of (mf_tape_id f) db1))) f = Inr ()"
      "frame_check row"
      "db' = db1\<lparr>tdb_frames := insert_row row (tdb_frames db1),
         tdb_tapes := update_where (\<lambda>r. tp_tape_id r = mf_tape_id f) (counted_frame f (fr_chain row) now) (tdb_tapes db1)\<rparr>"
proof -
  obtain leaf db1 where leaf: "mf_sha256 f = Some leaf" and db1: "ensure_open_tape (mf_tape_id f) db = Inr db1"
      and fin: "json_finite (mf_payload f)"
    using assms by (auto simp: record_book_frame_def rbind_eq_Inr canonical_payload_Inr split: option.splits if_splits)
  show thesis
  proof (cases "select_one (\<lambda>r. frame_key r = (mf_tape_id f, mf_sequence f)) (tdb_frames db1)")
    case (Some r)
    with assms leaf db1 fin have "\<not> b \<and> db' = db1"
      by (auto simp: record_book_frame_def rbind_eq_Inr canonical_payload_Inr split: if_splits)
    with that(1) leaf db1 show thesis by blast
  next
    case None
    with assms leaf db1 fin have "select_one (\<lambda>r. fr_tape_id r = mf_tape_id f \<and> fr_sha256 r = leaf) (tdb_frames db1) = None"
      by (auto simp: record_book_frame_def rbind_eq_Inr canonical_payload_Inr split: if_splits option.splits)
    with None assms leaf db1 obtain doc row stored where doc: "stored_canonical (mf_payload f) = Inr doc"
        and row: "row = frame_row_of sha f leaf (latest_by fr_sequence (frames_of (mf_tape_id f) db1)) doc
          (sha (canonical_json (mf_payload f)))"
        and follows: "frame_follows (latest_by fr_sequence (frames_of (mf_tape_id f) db1)) f = Inr ()"
        and symbol: "symbol_follows (latest_by fr_sequence (filter (\<lambda>r. fr_symbol r = mf_symbol f) (frames_of (mf_tape_id f) db1))) f = Inr ()"
        and ins: "insert_frame row (tdb_frames db1) = Inr stored" and b: "b"
        and db': "db' = db1\<lparr>tdb_frames := stored,
          tdb_tapes := update_where (\<lambda>r. tp_tape_id r = mf_tape_id f) (counted_frame f (fr_chain row) now) (tdb_tapes db1)\<rparr>"
      by (auto simp: record_book_frame_def rbind_eq_Inr canonical_payload_Inr update_tape_Inr Let_def
          simp del: stored_canonical_def split: if_splits)
    from insert_frame_Inr [OF ins] db' show thesis by (intro that(2) [OF db1 leaf b fin doc row follows symbol]) simp_all
  qed
qed

lemma seal_tape_outcome:
  assumes "seal_tape sha M nid tape at source now db = Inr (seal, db')"
  obtains r where "tape_at tape db = Some r" "tp_state r = TAPE_SEALED" "stored_seal sha M r = Inr seal" "db' = db"
  | r doc head audit outbox where "tape_at tape db = Some r" "tp_state r = TAPE_OPEN"
      "make_seal M source tape at (bar_heads tape db) (fst (book_tail tape db), head) = Inr seal"
      "book_tail tape db = (fst (book_tail tape db), Some head)"
      "set (map fst (bar_heads tape db)) = set sim_symbols" "admitted_symbols tape db = set sim_symbols"
      "json_finite (sv_payload seal)" "stored_canonical (sv_payload seal) = Inr doc"
      "db' = db\<lparr>tdb_tapes := update_where (\<lambda>r. tp_tape_id r = tape \<and> tp_state r = TAPE_OPEN)
           (sealed_row seal (sha (canonical_json (sv_payload seal))) doc now) (tdb_tapes db),
         tdb_audit := audit, tdb_outbox := outbox\<rparr>"
proof -
  obtain r where r: "tape_at tape db = Some r"
    using assms by (auto simp: seal_tape_def rbind_eq_Inr split: option.splits)
  show thesis
  proof (cases "tp_state r")
    case TAPE_OPEN
    with assms r have "seal_new sha M nid tape source at now db = Inr (seal, db')"
      by (auto simp: seal_tape_def rbind_eq_Inr)
    moreover obtain count head where tail: "book_tail tape db = (count, head)" by fastforce
    moreover obtain h where "head = Some h" using calculation by (cases head) (auto simp: seal_new_def split: if_splits)
    ultimately obtain doc audit outbox where "make_seal M source tape at (bar_heads tape db) (count, h) = Inr seal"
        "set (map fst (bar_heads tape db)) = set sim_symbols" "admitted_symbols tape db = set sim_symbols"
        "json_finite (sv_payload seal)" "stored_canonical (sv_payload seal) = Inr doc"
        "db' = db\<lparr>tdb_tapes := update_where (\<lambda>r. tp_tape_id r = tape \<and> tp_state r = TAPE_OPEN)
           (sealed_row seal (sha (canonical_json (sv_payload seal))) doc now) (tdb_tapes db),
         tdb_audit := audit, tdb_outbox := outbox\<rparr>"
      by (auto simp: seal_new_def rbind_eq_Inr canonical_payload_Inr update_tape_Inr simp del: stored_canonical_def
          split: if_splits prod.splits)
    with tail \<open>head = Some h\<close> show thesis by (intro that(2) [OF r TAPE_OPEN]) simp_all
  next
    case TAPE_SEALED
    with assms r show thesis by (intro that(1) [OF r]) (auto simp: seal_tape_def rbind_eq_Inr)
  next
    case TAPE_BLOCKED
    with assms r show thesis by (auto simp: seal_tape_def rbind_eq_Inr)
  qed
qed

subsection \<open>The invariant of the tapes\<close>

definition tape_bars :: "string \<Rightarrow> tape_db \<Rightarrow> bar_row list" where
  "tape_bars tape db = filter (\<lambda>r. br_tape_id r = tape) (tdb_bars db)"

lemma bars_of_tape: "bars_of tape s db = of_symbol s (tape_bars tape db)"
  by (simp add: bars_of_def of_symbol_def tape_bars_def conj_commute)

definition same_rows :: "string \<Rightarrow> tape_db \<Rightarrow> tape_db \<Rightarrow> bool" where
  "same_rows tape db db' \<longleftrightarrow> tape_bars tape db' = tape_bars tape db \<and> frames_of tape db' = frames_of tape db"

text \<open>What the seal of a tape says of its rows.\<close>

definition sealed_ok :: "(string \<Rightarrow> string) \<Rightarrow> tape_models \<Rightarrow> tape_db \<Rightarrow> tape_row \<Rightarrow> bool" where
  "sealed_ok sha M db r \<longleftrightarrow> (let tape = tp_tape_id r in
     (\<exists>seal head. stored_seal sha M r = Inr seal \<and> sv_tape_sha256 seal = tp_tape_sha256 r \<and>
        sv_bar_chains seal = bar_heads tape db \<and> sv_book_chain seal = (int (length (frames_of tape db)), head) \<and>
        map_option fr_chain (last_opt (frames_of tape db)) = Some head) \<and>
     set (map fst (bar_heads tape db)) = set sim_symbols \<and> admitted_symbols tape db = set sim_symbols)"

definition tape_row_ok :: "(string \<Rightarrow> string) \<Rightarrow> tape_models \<Rightarrow> tape_db \<Rightarrow> tape_row \<Rightarrow> bool" where
  "tape_row_ok sha M db r \<longleftrightarrow> (let frames = frames_of (tp_tape_id r) db in
     tp_frame_count r = int (length frames) \<and> tp_chain_head r = map_option fr_chain (last_opt frames) \<and>
     (tp_state r \<noteq> TAPE_BLOCKED \<longrightarrow> (\<forall>q\<in>set frames. fr_continuity q = ''ADMITTED'')) \<and>
     (tp_state r = TAPE_SEALED \<longrightarrow> sealed_ok sha M db r))"

definition tape_inv :: "(string \<Rightarrow> string) \<Rightarrow> tape_models \<Rightarrow> tape_db \<Rightarrow> bool" where
  "tape_inv sha M db \<longleftrightarrow> (\<forall>t s. bars_linked sha M t s (bars_of t s db)) \<and> (\<forall>t. frames_linked sha M t (frames_of t db)) \<and>
     (\<forall>t. tape_at t db = None \<longrightarrow> tape_bars t db = [] \<and> frames_of t db = []) \<and>
     (\<forall>t r. tape_at t db = Some r \<longrightarrow> tape_row_ok sha M db r)"

lemma tape_at_id: "tape_at t db = Some r \<Longrightarrow> tp_tape_id r = t"
  by (auto simp: tape_at_def dest: select_one_SomeD)

lemma tape_at_insert:
  "tape_at tape db = None \<Longrightarrow> tape_at t (db\<lparr>tdb_tapes := insert_row (open_tape tape) (tdb_tapes db)\<rparr>) =
     (if t = tape then Some (open_tape tape) else tape_at t db)"
  by (auto simp: tape_at_def select_one_insert open_tape_def split: option.split)

lemma tape_at_update:
  assumes "\<And>r. tp_tape_id (f r) = tp_tape_id r"
  shows "tape_at t (db\<lparr>tdb_tapes := update_where (\<lambda>r. tp_tape_id r = tape \<and> P r) f (tdb_tapes db)\<rparr>) =
    (if t = tape then map_option (\<lambda>r. if P r then f r else r) (tape_at t db) else tape_at t db)"
proof -
  have "tape_at t (db\<lparr>tdb_tapes := update_where (\<lambda>r. tp_tape_id r = tape \<and> P r) f (tdb_tapes db)\<rparr>) =
      map_option (\<lambda>r. if tp_tape_id r = tape \<and> P r then f r else r) (tape_at t db)"
    by (simp add: tape_at_def select_one_update assms)
  then show ?thesis by (cases "tape_at t db") (auto dest: tape_at_id)
qed

lemma tape_at_other_tables [simp]:
  "tape_at t (db\<lparr>tdb_bars := b\<rparr>) = tape_at t db" "tape_at t (db\<lparr>tdb_frames := f\<rparr>) = tape_at t db"
  "tape_at t (db\<lparr>tdb_tapes := x, tdb_audit := a, tdb_outbox := ob\<rparr>) = tape_at t (db\<lparr>tdb_tapes := x\<rparr>)"
  "tape_at t (db\<lparr>tdb_frames := f, tdb_tapes := x\<rparr>) = tape_at t (db\<lparr>tdb_tapes := x\<rparr>)"
  by (simp_all add: tape_at_def)

lemma rows_other_tables [simp]:
  "tape_bars t (db\<lparr>tdb_tapes := x\<rparr>) = tape_bars t db" "frames_of t (db\<lparr>tdb_tapes := x\<rparr>) = frames_of t db"
  "tape_bars t (db\<lparr>tdb_tapes := x, tdb_audit := a, tdb_outbox := ob\<rparr>) = tape_bars t db"
  "frames_of t (db\<lparr>tdb_tapes := x, tdb_audit := a, tdb_outbox := ob\<rparr>) = frames_of t db"
  "tape_bars t (db\<lparr>tdb_frames := f, tdb_tapes := x\<rparr>) = tape_bars t db"
  "frames_of t (db\<lparr>tdb_bars := b\<rparr>) = frames_of t db" "tape_bars t (db\<lparr>tdb_frames := f\<rparr>) = tape_bars t db"
  by (simp_all add: tape_bars_def frames_of_def)

lemma tape_bars_insert:
  "tape_bars t (db\<lparr>tdb_bars := insert_row row (tdb_bars db)\<rparr>) =
     (if t = br_tape_id row then tape_bars t db @ [row] else tape_bars t db)"
  by (simp add: tape_bars_def insert_row_def)

lemma frames_of_insert:
  "frames_of t (db\<lparr>tdb_frames := insert_row row (tdb_frames db)\<rparr>) =
     (if t = fr_tape_id row then frames_of t db @ [row] else frames_of t db)"
  by (simp add: frames_of_def insert_row_def)

lemma bar_heads_tape: "bar_heads tape db = (let bars = tape_bars tape db in
    map (\<lambda>s. (s, chain_head_of (of_symbol s bars))) (sort (remdups (map br_symbol bars))))"
  by (simp add: bar_heads_def tape_symbols_def tape_bars_def [symmetric] bars_of_tape Let_def)

lemma tape_row_ok_cong:
  assumes "same_rows (tp_tape_id r) db db'"
  shows "tape_row_ok sha M db' r = tape_row_ok sha M db r"
  using assms
  by (simp add: same_rows_def tape_row_ok_def sealed_ok_def bar_heads_tape admitted_symbols_def)

lemma bars_linked_nil [simp]: "bars_linked sha M t s []"
  by (simp add: bars_linked_def)

lemma ensure_open_inv:
  assumes "ensure_open_tape tape db = Inr db1" and inv: "tape_inv sha M db"
  shows "tape_inv sha M db1"
  using assms(1)
proof (cases rule: ensure_open_tape_outcome)
  case known
  with inv show ?thesis by simp
next
  case new
  have "frames_of tape db = []" using inv new(1) by (simp add: tape_inv_def)
  then have "tape_row_ok sha M db1 (open_tape tape)" by (simp add: new(2) tape_row_ok_def open_tape_def)
  moreover have "tape_row_ok sha M db1 r = tape_row_ok sha M db r" for r
    by (rule tape_row_ok_cong) (simp add: same_rows_def new(2))
  ultimately show ?thesis
    using inv tape_at_insert [OF new(1)] by (simp add: tape_inv_def new(2) bars_of_tape)
qed

lemma record_closed_bar_inv:
  assumes "record_closed_bar sha tape bar db = Inr (b, db')" and good: "good_bar M bar" and inv: "tape_inv sha M db"
  shows "tape_inv sha M db'"
  using assms(1)
proof (cases rule: record_closed_bar_outcome)
  case (1 db1 leaf)
  with inv ensure_open_inv show ?thesis by blast
next
  case (2 db1 leaf doc row)
  have inv1: "tape_inv sha M db1" using 2(1) inv by (rule ensure_open_inv)
  obtain r1 where r1: "tape_at tape db1 = Some r1" "tp_state r1 = TAPE_OPEN" using ensure_open_tape_open [OF 2(1)] by blast
  let ?s = "mb_symbol bar" and ?rows = "bars_of tape (mb_symbol bar) db1"
  have linked: "bars_linked sha M tape ?s ?rows" using inv1 by (simp add: tape_inv_def)
  note last = latest_bar [OF linked]
  have row: "br_tape_id row = tape" "br_symbol row = ?s" by (simp_all add: 2(6) bar_row_of_def)
  have "doc = sorted_json (mb_payload bar)"
    using good 2(4,5) by (auto simp: good_bar_def document_ok_def numbers_kept_def text_to_jsonb_canonical to_jsonb_def
        split: if_splits)
  then have "stored_bar sha M row bar"
    using good 2(2,4) by (simp add: stored_bar_def 2(6) bar_row_of_def bar_matches_def)
  then have link: "bar_link sha M tape ?s ?rows row"
    using 2(7,8) last by (auto simp: bar_link_def 2(6) bar_row_of_def bar_check_def)
  have bars: "tape_bars t db' = (if t = tape then tape_bars t db1 @ [row] else tape_bars t db1)" for t
    using row by (simp add: 2(9) tape_bars_insert)
  have frames: "frames_of t db' = frames_of t db1" for t by (simp add: 2(9))
  have "bars_linked sha M t s (bars_of t s db')" for t s
  proof (cases "t = tape \<and> s = ?s")
    case True
    then have "bars_of t s db' = ?rows @ [row]" using row by (simp add: bars_of_tape bars of_symbol_def)
    with True linked link show ?thesis by (simp add: bars_linked_def grown_snoc)
  next
    case False
    then have "bars_of t s db' = bars_of t s db1" using row by (auto simp: bars_of_tape bars of_symbol_def)
    with inv1 show ?thesis by (simp add: tape_inv_def)
  qed
  moreover have "tape_row_ok sha M db' r" if r: "tape_at t db' = Some r" for t r
  proof -
    have at: "tape_at t db1 = Some r" using r by (simp add: 2(9))
    then have ok: "tape_row_ok sha M db1 r" using inv1 by (auto simp: tape_inv_def)
    show ?thesis
    proof (cases "t = tape")
      case True
      then have "tp_state r = TAPE_OPEN" using at r1 by simp
      with ok show ?thesis by (simp add: tape_row_ok_def frames)
    next
      case False
      have "tape_row_ok sha M db' r = tape_row_ok sha M db1 r"
        by (rule tape_row_ok_cong) (use False tape_at_id [OF at] in \<open>simp add: same_rows_def bars frames\<close>)
      with ok show ?thesis by simp
    qed
  qed
  moreover have "tape_bars t db' = [] \<and> frames_of t db' = []" if n: "tape_at t db' = None" for t
  proof -
    have "tape_at t db1 = None" using n by (simp add: 2(9))
    moreover from this have "t \<noteq> tape" using r1(1) by auto
    ultimately show ?thesis using inv1 by (simp add: tape_inv_def bars frames)
  qed
  ultimately show ?thesis using inv1 by (simp add: tape_inv_def frames)
qed

lemma clock_order_follows:
  assumes "symbol_follows q f = Inr ()" and "frame_matches row f"
  shows "\<forall>p. q = Some p \<longrightarrow> clock_order p row"
  using assms by (auto simp: symbol_follows_def clocks_regress_def clock_order_def frame_matches_def split: if_splits)

lemma counted_frame_simps [simp]:
  "tp_tape_id (counted_frame f head now r) = tp_tape_id r"
  "tp_frame_count (counted_frame f head now r) = tp_frame_count r + 1"
  "tp_chain_head (counted_frame f head now r) = Some head"
  "tp_state (counted_frame f head now r) = (if mf_continuity f = ''ADMITTED'' then tp_state r else TAPE_BLOCKED)"
  by (simp_all add: counted_frame_def Let_def)

lemma record_book_frame_inv:
  assumes "record_book_frame sha M f now db = Inr (b, db')" and good: "good_frame M f" and inv: "tape_inv sha M db"
  shows "tape_inv sha M db'"
  using assms(1)
proof (cases rule: record_book_frame_outcome)
  case (1 db1 leaf)
  with inv ensure_open_inv show ?thesis by blast
next
  case (2 db1 leaf doc row)
  have inv1: "tape_inv sha M db1" using 2(1) inv by (rule ensure_open_inv)
  let ?tape = "mf_tape_id f"
  let ?rows = "frames_of ?tape db1"
  obtain r1 where r1: "tape_at ?tape db1 = Some r1" "tp_state r1 = TAPE_OPEN" using ensure_open_tape_open [OF 2(1)] by blast
  have ok1: "tape_row_ok sha M db1 r1" using inv1 r1(1) by (simp add: tape_inv_def)
  have linked: "frames_linked sha M ?tape ?rows" using inv1 by (simp add: tape_inv_def)
  note last = latest_frame [OF linked] latest_of_symbol [OF linked]
  have m: "frame_matches row f" using 2(2) by (simp add: frame_matches_def 2(6) frame_row_of_def)
  have tape: "fr_tape_id row = ?tape" by (simp add: 2(6) frame_row_of_def)
  have "doc = sorted_json (mf_payload f)"
    using good 2(4,5) by (auto simp: good_frame_def document_ok_def numbers_kept_def text_to_jsonb_canonical to_jsonb_def
        split: if_splits)
  moreover have "mf_version f \<in> {''sim-book-frame.v1'', ''sim-book-frame.v2''}"
    using 2(9) m by (auto simp: frame_check_def frame_matches_def)
  ultimately have "stored_book sha M row f"
    using good 2(4) m by (simp add: stored_book_def 2(6) frame_row_of_def)
  moreover have "fr_sequence row = int (length ?rows) + 1 \<and> fr_previous row = map_option fr_sha256 (last_opt ?rows)"
  proof (cases "?rows" rule: rev_cases)
    case Nil
    then show ?thesis using 2(7) last(1) m by (auto simp: frame_follows_def frame_matches_def split: if_splits)
  next
    case (snoc ys y)
    have "frame_link sha M ?tape ys y" using linked snoc by (simp add: frames_linked_def grown_snoc)
    then have "fr_sequence y = int (length ys) + 1" by (simp add: frame_link_def)
    with snoc show ?thesis using 2(7) last(1) m by (auto simp: frame_follows_def frame_matches_def split: if_splits)
  qed
  moreover have "\<forall>q. last_of_symbol (fr_symbol row) ?rows = Some q \<longrightarrow> clock_order q row"
    using clock_order_follows [OF 2(8) m] last(2) m by (simp add: frame_matches_def)
  ultimately have link: "frame_link sha M ?tape ?rows row"
    using last(1) by (auto simp: frame_link_def) (simp add: 2(6) frame_row_of_def)
  have frames: "frames_of t db' = (if t = ?tape then frames_of t db1 @ [row] else frames_of t db1)" for t
    using tape by (simp add: 2(10) frames_of_insert)
  have bars: "tape_bars t db' = tape_bars t db1" for t by (simp add: 2(10))
  have at: "tape_at t db' = (if t = ?tape then map_option (counted_frame f (fr_chain row) now) (tape_at t db1) else tape_at t db1)" for t
    using tape_at_update [where f = "counted_frame f (fr_chain row) now" and t = t and db = db1 and tape = ?tape and P = "\<lambda>_. True"] by (simp add: 2(10))
  have "frames_linked sha M t (frames_of t db')" for t
    using inv1 linked link by (auto simp: frames frames_linked_def grown_snoc tape_inv_def)
  moreover have "tape_row_ok sha M db' r" if r: "tape_at t db' = Some r" for t r
  proof (cases "t = ?tape")
    case True
    then have r: "r = counted_frame f (fr_chain row) now r1" using r r1(1) by (simp add: at)
    have "tp_tape_id r1 = ?tape" using r1(1) by (rule tape_at_id)
    moreover have "fr_continuity row = mf_continuity f" using m by (simp add: frame_matches_def)
    ultimately show ?thesis using ok1 r1(2) by (auto simp: tape_row_ok_def r frames Let_def)
  next
    case False
    then have at1: "tape_at t db1 = Some r" using r by (simp add: at)
    have "tape_row_ok sha M db' r = tape_row_ok sha M db1 r"
      by (rule tape_row_ok_cong) (use False tape_at_id [OF at1] in \<open>simp add: same_rows_def bars frames\<close>)
    with at1 inv1 show ?thesis by (simp add: tape_inv_def)
  qed
  moreover have "tape_bars t db' = [] \<and> frames_of t db' = []" if n: "tape_at t db' = None" for t
  proof -
    have "tape_at t db1 = None" "t \<noteq> ?tape" using n r1(1) by (auto simp: at split: if_splits)
    then show ?thesis using inv1 by (simp add: tape_inv_def bars frames)
  qed
  ultimately show ?thesis using inv1 by (simp add: tape_inv_def bars bars_of_tape)
qed

text \<open>What is asked of the contract of the seal: a stored one is read back, with the heads it was made of.\<close>

definition seal_contract :: "tape_models \<Rightarrow> bool" where
  "seal_contract M \<longleftrightarrow> (\<forall>source tape at bars book seal. make_seal M source tape at bars book = Inr seal \<longrightarrow>
     document_ok (sv_payload seal) \<and> decode_seal M (sorted_json (sv_payload seal)) = Some seal \<and>
     sv_bar_chains seal = bars \<and> sv_book_chain seal = book)"

lemma sealed_row_simps [simp]:
  "tp_tape_id (sealed_row seal d doc now r) = tp_tape_id r" "tp_state (sealed_row seal d doc now r) = TAPE_SEALED"
  "tp_frame_count (sealed_row seal d doc now r) = tp_frame_count r"
  "tp_chain_head (sealed_row seal d doc now r) = tp_chain_head r"
  "tp_tape_sha256 (sealed_row seal d doc now r) = sv_tape_sha256 seal"
  by (simp_all add: sealed_row_def)

lemma stored_model_sorted:
  assumes "document_ok p" and "json_finite p" and "decode (sorted_json p) = Some m"
  shows "stored_model sha decode entity (sorted_json p) (sha (canonical_json p)) = Inr m"
  using assms by (simp add: document_ok_def stored_model_def stored_object_def canonical_payload_def canonical_dumps_def rbind_def)

lemma book_tail_frames:
  "frames_linked sha M tape (frames_of tape db) \<Longrightarrow>
     book_tail tape db = (int (length (frames_of tape db)), map_option fr_chain (last_opt (frames_of tape db)))"
  by (simp add: book_tail_def latest_frame)

lemma seal_tape_inv:
  assumes "seal_tape sha M nid tape at source now db = Inr (seal, db')" and contract: "seal_contract M"
    and inv: "tape_inv sha M db"
  shows "tape_inv sha M db'"
  using assms(1)
proof (cases rule: seal_tape_outcome)
  case (1 r)
  with inv show ?thesis by simp
next
  case (2 r doc head audit outbox)
  let ?new = "sealed_row seal (sha (canonical_json (sv_payload seal))) doc now"
  have c: "document_ok (sv_payload seal)" "decode_seal M (sorted_json (sv_payload seal)) = Some seal"
      "sv_bar_chains seal = bar_heads tape db" "sv_book_chain seal = (fst (book_tail tape db), head)"
    using contract 2(3) unfolding seal_contract_def by blast+
  have "doc = sorted_json (sv_payload seal)"
    using c(1) 2(7,8) by (auto simp: document_ok_def numbers_kept_def text_to_jsonb_canonical to_jsonb_def split: if_splits)
  then have stored: "stored_seal sha M (?new r) = Inr seal"
    using stored_model_sorted [where decode = "decode_seal M", OF c(1) 2(7) c(2)] by (simp add: stored_seal_def sealed_row_def)
  have bars: "tape_bars t db' = tape_bars t db" and frames: "frames_of t db' = frames_of t db" for t
    by (simp_all add: 2(9))
  have heads: "bar_heads t db' = bar_heads t db" and admitted: "admitted_symbols t db' = admitted_symbols t db" for t
    by (simp_all add: bar_heads_tape bars admitted_symbols_def frames)
  have at: "tape_at t db' = (if t = tape then Some (?new r) else tape_at t db)" for t
    using tape_at_update [where f = ?new and t = t and db = db and tape = tape and P = "\<lambda>r. tp_state r = TAPE_OPEN"] 2(1,2) by (simp add: 2(9))
  have linked: "frames_linked sha M tape (frames_of tape db)" using inv by (simp add: tape_inv_def)
  have "tape_row_ok sha M db r" using inv 2(1) by (simp add: tape_inv_def)
  then have new: "tape_row_ok sha M db' (?new r)"
    using 2(2,4,5,6) c stored tape_at_id [OF 2(1)] book_tail_frames [OF linked]
    by (simp add: tape_row_ok_def sealed_ok_def frames heads admitted Let_def)
  have "tape_row_ok sha M db' q" if q: "tape_at t db' = Some q" for t q
  proof (cases "t = tape")
    case True
    with q new show ?thesis by (simp add: at)
  next
    case False
    then have "tape_at t db = Some q" using q by (simp add: at)
    moreover have "tape_row_ok sha M db' q = tape_row_ok sha M db q"
      by (rule tape_row_ok_cong) (simp add: same_rows_def bars frames)
    ultimately show ?thesis using inv by (simp add: tape_inv_def)
  qed
  moreover have "tape_at t db = None" if "tape_at t db' = None" for t using that by (simp add: at split: if_splits)
  ultimately show ?thesis using inv by (simp add: tape_inv_def bars frames bars_of_tape)
qed

lemma bars_in_order_symbol:
  assumes "\<And>s. bars_linked sha M tape s (bars_of tape s db)"
  shows "of_symbol s (bars_in_order tape db) = bars_of tape s db"
proof -
  let ?rows = "bars_of tape s db"
  have "sorted (map (\<lambda>r. (br_symbol r, br_open_time r)) ?rows)"
    unfolding sorted_map
    by (rule sorted_wrt_mono_rel [OF _ bars_sorted [OF assms]]) (auto simp: bars_of_def less_imp_le)
  then have "sort_key (\<lambda>r. (br_symbol r, br_open_time r)) ?rows = ?rows" by (rule sort_key_id_if_sorted)
  then show ?thesis
    unfolding of_symbol_def bars_in_order_def filter_sort filter_filter by (simp add: bars_of_def conj_commute)
qed

lemma head_of_linked:
  assumes "bars_linked sha M tape s rows"
  shows "head_of rows = (if rows = [] then None else Some (chain_head_of rows))"
  using latest_bar [OF assms] by (cases rows rule: rev_cases) (simp_all add: head_of_def chain_head_of_def)

lemma verify_bars_accepts:
  assumes "\<And>s. bars_linked sha M tape s (bars_of tape s db)"
  shows "\<exists>hs. verify_bars sha M tape [] [] (bars_in_order tape db) = Inr (Some hs) \<and> sort_key fst hs = bar_heads tape db"
proof -
  let ?L = "bars_in_order tape db"
  note sym = bars_in_order_symbol [OF assms]
  have "grown (\<lambda>xs r. bar_link sha M tape (br_symbol r) (filter (\<lambda>q. br_symbol q = br_symbol r) xs) r) [] ?L"
    by (rule grown_interleaved) (use assms sym in \<open>simp add: bars_linked_def of_symbol_def\<close>)
  then have "grown (\<lambda>xs r. bar_link sha M tape (br_symbol r) (of_symbol (br_symbol r) xs) r) [] ?L"
    by (simp add: of_symbol_def)
  then obtain hs where hs: "verify_bars sha M tape [] [] ?L = Inr (Some hs)" "distinct (map fst hs)"
      "\<And>s. map_of hs s = head_of (bars_of tape s db)"
    using verify_bars_linked [of sha M tape "[]" ?L "[]" "[]"] sym by (auto simp: of_symbol_def head_of_def)
  have keys: "set (map fst hs) = br_symbol ` set (tape_bars tape db)"
  proof -
    have "s \<in> set (map fst hs) \<longleftrightarrow> bars_of tape s db \<noteq> []" for s
    proof -
      have "s \<in> set (map fst hs) \<longleftrightarrow> map_of hs s \<noteq> None" by (simp add: map_of_eq_None_iff)
      then show ?thesis by (simp add: hs(3) head_of_def)
    qed
    moreover have "bars_of tape s db \<noteq> [] \<longleftrightarrow> s \<in> br_symbol ` set (tape_bars tape db)" for s
      by (auto simp: bars_of_tape of_symbol_def filter_empty_conv)
    ultimately show ?thesis by blast
  qed
  have "sort (map fst hs) = tape_symbols tape db"
    by (rule sorted_distinct_set_unique) (use hs(2) keys in \<open>simp_all add: tape_symbols_def tape_bars_def\<close>)
  then have "sort_key fst hs = map (\<lambda>s. (s, the (map_of hs s))) (tape_symbols tape db)"
    using sorted_assoc [OF hs(2)] by simp
  also have "\<dots> = bar_heads tape db"
    unfolding bar_heads_def
  proof (rule map_cong [OF refl])
    fix s assume "s \<in> set (tape_symbols tape db)"
    then have "bars_of tape s db \<noteq> []"
      by (auto simp: tape_symbols_def bars_of_def filter_empty_conv)
    then show "(s, the (map_of hs s)) = (s, chain_head_of (bars_of tape s db))"
      using hs(3) head_of_linked [OF assms] by simp
  qed
  finally show ?thesis using hs(1) by blast
qed

lemma verify_frames_accepts:
  assumes "frames_linked sha M tape (frames_of tape db)"
  shows "verify_frames sha M tape 0 None None [] (sort_key fr_sequence (frames_of tape db)) =
    Inr (Some (map_option fr_chain (last_opt (frames_of tape db))))"
  using verify_frames_linked [of sha M tape "[]" "frames_of tape db" "[]"] assms
  unfolding strictly_sorted_key [OF frames_sorted [OF assms]]
  by (simp add: frames_linked_def last_of_symbol_def)

lemma inv_verifies:
  assumes inv: "tape_inv sha M db" and tape: "validate_text ''tape_id'' tape = Inr ()" and r: "tape_at tape db = Some r"
  shows "verify_tape sha M tape db = Inr True"
proof -
  have linked: "\<And>s. bars_linked sha M tape s (bars_of tape s db)" "frames_linked sha M tape (frames_of tape db)"
    using inv by (simp_all add: tape_inv_def)
  obtain hs where hs: "verify_bars sha M tape [] [] (bars_in_order tape db) = Inr (Some hs)"
      "sort_key fst hs = bar_heads tape db"
    using verify_bars_accepts [OF linked(1)] by blast
  have "tape_row_ok sha M db r" using inv r by (simp add: tape_inv_def)
  then have "verify_seal sha M r hs (length (frames_of tape db)) (map_option fr_chain (last_opt (frames_of tape db))) = Inr True"
    using hs(2) tape_at_id [OF r] by (auto simp: tape_row_ok_def verify_seal_def sealed_ok_def Let_def)
  with hs(1) verify_frames_accepts [OF linked(2)] tape r show ?thesis by (simp add: verify_tape_def)
qed

subsection \<open>Runs\<close>

datatype tape_op =
    BarOp string closed_bar
  | FrameOp book_frame timestamp
  | SealOp int string int string timestamp

fun tape_step :: "(string \<Rightarrow> string) \<Rightarrow> tape_models \<Rightarrow> tape_op \<Rightarrow> tape_db \<Rightarrow> tape_db" where
  "tape_step sha M (BarOp tape bar) db = settle db (record_closed_bar sha tape bar db)"
| "tape_step sha M (FrameOp f now) db = settle db (record_book_frame sha M f now db)"
| "tape_step sha M (SealOp nid tape at source now) db = settle db (seal_tape sha M nid tape at source now db)"

text \<open>The payloads are what their contracts read back, and a \<open>JSONB\<close> column keeps them.\<close>

fun good_tape_op :: "tape_models \<Rightarrow> tape_op \<Rightarrow> bool" where
  "good_tape_op M (BarOp tape bar) = good_bar M bar"
| "good_tape_op M (FrameOp f now) = good_frame M f"
| "good_tape_op M (SealOp nid tape at source now) = True"

lemma tape_step_inv:
  assumes "good_tape_op M op \<and> seal_contract M" and "tape_inv sha M db"
  shows "tape_inv sha M (tape_step sha M op db)"
proof (cases op)
  case (BarOp tape bar)
  show ?thesis unfolding BarOp tape_step.simps
    by (rule settle_cases) (use assms BarOp record_closed_bar_inv in auto)
next
  case (FrameOp f now)
  show ?thesis unfolding FrameOp tape_step.simps
    by (rule settle_cases) (use assms FrameOp record_book_frame_inv in auto)
next
  case (SealOp nid tape at source now)
  show ?thesis unfolding SealOp tape_step.simps
    by (rule settle_cases) (use assms seal_tape_inv in auto)
qed

interpretation tapes: invariant_system "tape_step sha M" "\<lambda>op. good_tape_op M op \<and> seal_contract M" "tape_inv sha M" for sha M
  by unfold_locales (rule tape_step_inv)

definition no_tapes :: tape_db where
  "no_tapes = \<lparr>tdb_tapes = [], tdb_bars = [], tdb_frames = [], tdb_audit = [], tdb_outbox = []\<rparr>"

lemma no_tapes_inv: "tape_inv sha M no_tapes"
  by (simp add: tape_inv_def no_tapes_def bars_of_def frames_of_def tape_bars_def tape_at_def bars_linked_def frames_linked_def)

lemma tape_run_inv:
  "list_all (good_tape_op M) ops \<Longrightarrow> seal_contract M \<Longrightarrow> tape_inv sha M (fold (tape_step sha M) ops no_tapes)"
  by (rule tapes.run_inv [OF _ no_tapes_inv]) (simp add: list_all_iff)

text \<open>Rows are only added, and those of a sealed or blocked tape are fixed.\<close>

definition tape_kept :: "string \<Rightarrow> tape_db \<Rightarrow> tape_db \<Rightarrow> bool" where
  "tape_kept t db db' \<longleftrightarrow> prefix (tape_bars t db) (tape_bars t db') \<and> prefix (frames_of t db) (frames_of t db') \<and>
     (\<forall>r. tape_at t db = Some r \<longrightarrow> (\<exists>r'. tape_at t db' = Some r' \<and>
        (tp_state r \<noteq> TAPE_OPEN \<longrightarrow> r' = r \<and> same_rows t db db')))"

lemma tape_kept_refl: "tape_kept t db db"
  by (simp add: tape_kept_def same_rows_def)

lemma tape_kept_trans: "tape_kept t a b \<Longrightarrow> tape_kept t b c \<Longrightarrow> tape_kept t a c"
  unfolding tape_kept_def same_rows_def by (metis prefix_order.trans option.inject)

lemma ensure_open_kept:
  assumes "ensure_open_tape tape db = Inr db1"
  shows "tape_kept t db db1"
  using assms
proof (cases rule: ensure_open_tape_outcome)
  case new
  then show ?thesis by (auto simp: tape_kept_def same_rows_def tape_at_insert)
qed (simp add: tape_kept_refl)

lemma record_closed_bar_kept:
  assumes "record_closed_bar sha tape bar db = Inr (b, db')"
  shows "tape_kept t db db'"
  using assms
proof (cases rule: record_closed_bar_outcome)
  case (1 db1 leaf)
  then show ?thesis by (simp add: ensure_open_kept)
next
  case (2 db1 leaf doc row)
  have "tape_kept t db1 db'"
    using ensure_open_tape_open [OF 2(1)] by (auto simp: 2(9) tape_kept_def same_rows_def tape_bars_insert 2(6) bar_row_of_def)
  with ensure_open_kept [OF 2(1)] show ?thesis by (rule tape_kept_trans)
qed

lemma record_book_frame_kept:
  assumes "record_book_frame sha M f now db = Inr (b, db')"
  shows "tape_kept t db db'"
  using assms
proof (cases rule: record_book_frame_outcome)
  case (1 db1 leaf)
  then show ?thesis by (simp add: ensure_open_kept)
next
  case (2 db1 leaf doc row)
  obtain r1 where r1: "tape_at (mf_tape_id f) db1 = Some r1" "tp_state r1 = TAPE_OPEN"
    using ensure_open_tape_open [OF 2(1)] by blast
  have tape: "fr_tape_id row = mf_tape_id f" by (simp add: 2(6) frame_row_of_def)
  have at: "tape_at t db' = (if t = mf_tape_id f then map_option (counted_frame f (fr_chain row) now) (tape_at t db1) else tape_at t db1)" for t
    using tape_at_update [where f = "counted_frame f (fr_chain row) now" and t = t and db = db1 and tape = "mf_tape_id f"
      and P = "\<lambda>_. True"] by (simp add: 2(10))
  have rows: "frames_of t db' = (if t = mf_tape_id f then frames_of t db1 @ [row] else frames_of t db1)"
    "tape_bars t db' = tape_bars t db1" for t
    using tape by (simp_all add: 2(10) frames_of_insert)
  have "tape_kept t db1 db'" using r1 by (auto simp: tape_kept_def same_rows_def at rows)
  with ensure_open_kept [OF 2(1)] show ?thesis by (rule tape_kept_trans)
qed

lemma seal_tape_kept:
  assumes "seal_tape sha M nid tape at source now db = Inr (seal, db')"
  shows "tape_kept t db db'"
  using assms
proof (cases rule: seal_tape_outcome)
  case (1 r)
  then show ?thesis by (simp add: tape_kept_refl)
next
  case (2 r doc head audit outbox)
  let ?new = "sealed_row seal (sha (canonical_json (sv_payload seal))) doc now"
  have "tape_at t db' = (if t = tape then Some (?new r) else tape_at t db)" for t
    using tape_at_update [where f = ?new and t = t and db = db and tape = tape and P = "\<lambda>r. tp_state r = TAPE_OPEN"] 2(1,2)
    by (simp add: 2(9))
  moreover have "tape_bars t db' = tape_bars t db" "frames_of t db' = frames_of t db" for t by (simp_all add: 2(9))
  ultimately show ?thesis using 2(1,2) by (auto simp: tape_kept_def same_rows_def)
qed

lemma tape_step_kept: "tape_kept t db (tape_step sha M op db)"
proof (cases op)
  case (BarOp tape bar)
  show ?thesis unfolding BarOp tape_step.simps
    by (rule settle_cases) (simp_all add: tape_kept_refl record_closed_bar_kept)
next
  case (FrameOp f now)
  show ?thesis unfolding FrameOp tape_step.simps
    by (rule settle_cases) (simp_all add: tape_kept_refl record_book_frame_kept)
next
  case (SealOp nid tape at source now)
  show ?thesis unfolding SealOp tape_step.simps
    by (rule settle_cases) (simp_all add: tape_kept_refl seal_tape_kept)
qed

interpretation frozen: monotone_system "tape_step sha M" "\<lambda>_. True" "\<lambda>a b. \<forall>t. tape_kept t a b" for sha M
  by unfold_locales (auto intro: tape_kept_refl tape_kept_trans tape_step_kept)

subsection \<open>Sealed tapes\<close>

text \<open>The bars of a symbol are one per minute from the first.\<close>

lemma bars_minutes:
  assumes "bars_linked sha M tape s rows" and "rows \<noteq> []"
  shows "map br_open_time rows = map (\<lambda>i. br_open_time (hd rows) + 60000 * int i) [0..<length rows]"
  using assms
proof (induction rows rule: rev_induct)
  case (snoc r rows)
  then have linked: "bars_linked sha M tape s rows" and link: "bar_link sha M tape s rows r"
    by (simp_all add: bars_linked_def grown_snoc)
  show ?case
  proof (cases "rows = []")
    case False
    then obtain ys y where rows: "rows = ys @ [y]" by (cases rows rule: rev_exhaust) auto
    let ?t = "\<lambda>i. br_open_time (hd rows) + 60000 * int i"
    have "bar_link sha M tape s ys y" using linked rows by (simp add: bars_linked_def grown_snoc)
    then have r: "br_open_time r = br_open_time y + 60000" using link rows by (auto simp: bar_link_def)
    have all: "map br_open_time rows = map ?t [0..<length rows]" using snoc.IH linked False by blast
    then have "last (map br_open_time rows) = last (map ?t [0..<length rows])" by (rule arg_cong)
    then have "br_open_time y = ?t (length ys)" unfolding rows by simp
    then have "br_open_time r = ?t (length rows)" using r rows by simp
    with all have "map br_open_time (rows @ [r]) = map ?t [0..<length (rows @ [r])]" by simp
    moreover have "hd (rows @ [r]) = hd rows" using False by simp
    ultimately show ?thesis by (simp only: )
  qed simp
qed simp

text \<open>Frames of one symbol that are all admitted: one epoch, whose update ids and clocks advance.\<close>

definition clocks_advance :: "frame_row \<Rightarrow> frame_row \<Rightarrow> bool" where
  "clocks_advance q r \<longleftrightarrow> fr_epoch r = fr_epoch q \<and> fr_update_id q < fr_update_id r \<and> fr_exchange_at q \<le> fr_exchange_at r \<and>
     fr_received_at q \<le> fr_received_at r \<and> fr_persisted_at q \<le> fr_persisted_at r"

lemma admitted_advance:
  assumes "frames_linked sha M tape rows" and "\<forall>r\<in>set rows. fr_continuity r = ''ADMITTED''"
  shows "sorted_wrt clocks_advance (filter (\<lambda>r. fr_symbol r = s) rows)"
  using assms
proof (induction rows rule: rev_induct)
  case (snoc r rows)
  then have IH: "sorted_wrt clocks_advance (filter (\<lambda>r. fr_symbol r = s) rows)" and link: "frame_link sha M tape rows r"
    by (simp_all add: frames_linked_def grown_snoc)
  have "clocks_advance q r" if q: "q \<in> set rows" "fr_symbol q = s" "fr_symbol r = s" for q
  proof -
    let ?own = "filter (\<lambda>r. fr_symbol r = s) rows"
    have "q \<in> set ?own" using q by simp
    then obtain ys y where own: "?own = ys @ [y]" by (cases "?own" rule: rev_exhaust) auto
    then have "last_of_symbol (fr_symbol r) rows = Some y" using q(3) by (simp add: last_of_symbol_def)
    then have "clock_order y r" using link by (simp add: frame_link_def)
    moreover have "fr_continuity r = ''ADMITTED''" using snoc.prems(2) by simp
    ultimately have y: "clocks_advance y r" by (auto simp: clock_order_def clocks_advance_def split: if_splits)
    have "q = y \<or> clocks_advance q y" using IH \<open>q \<in> set ?own\<close> by (auto simp: own sorted_wrt_append)
    with y show ?thesis by (auto simp: clocks_advance_def)
  qed
  with IH show ?case by (auto simp: sorted_wrt_append)
qed simp

subsection \<open>Tampering\<close>

text \<open>The texts a chain hashes, one for each of its leaves, and the digest it ends with.\<close>

definition link_text :: "string \<Rightarrow> string \<Rightarrow> string option \<Rightarrow> string option \<times> string \<Rightarrow> string" where
  "link_text domain tape symbol e = canonical_json (chain_document domain tape symbol (fst e) (snd e))"

fun chain_events :: "(string option \<times> string \<Rightarrow> string) \<Rightarrow> string option \<Rightarrow> string list \<Rightarrow> (string option \<times> string) list" where
  "chain_events C p [] = []"
| "chain_events C p (l # ls) = (p, l) # chain_events C (Some (C (p, l))) ls"

fun chain_end :: "(string option \<times> string \<Rightarrow> string) \<Rightarrow> string option \<Rightarrow> string list \<Rightarrow> string option" where
  "chain_end C p [] = p"
| "chain_end C p (l # ls) = chain_end C (Some (C (p, l))) ls"

lemma chain_events_linked: "linked fst C p (chain_events C p ls) (chain_end C p ls)"
  by (induction ls arbitrary: p) auto

lemma chain_events_leaves: "map snd (chain_events C p ls) = ls"
  by (induction ls arbitrary: p) auto

lemma chain_end_snoc: "chain_end C p (ls @ [l]) = Some (C (chain_end C p ls, l))"
  by (induction ls arbitrary: p) auto

lemma link_text_binds:
  assumes "link_text d tape s e = link_text d tape s f"
  shows "e = f"
proof -
  let ?d = "\<lambda>e. chain_document d tape s (fst e) (snd e)"
  have "json_wf (?d e)" for e by (simp add: chain_document_def)
  then have "sorted_json (?d e) = sorted_json (?d f)"
    using assms by (simp add: link_text_def canonical_json_inj)
  then have g: "json_get q (sorted_json (?d e)) = json_get q (sorted_json (?d f))" for q by simp
  have get: "json_get q (sorted_json (?d e)) = map_option sorted_json (json_get q (?d e))" for q e
    unfolding chain_document_def by (rule json_get_sorted) simp
  from g [of "''leaf_sha256''"] have "snd e = snd f" unfolding get by (simp add: chain_document_def json_get_def)
  moreover from g [of "''previous_chain_sha256''"] have "fst e = fst f"
    unfolding get by (simp add: chain_document_def json_get_def)
  ultimately show ?thesis by (simp add: prod_eq_iff)
qed

interpretation tape_chain: hash_chain fst "link_text d tape s" sha "\<lambda>e. True" "(=)" for d tape s sha
  by unfold_locales (auto dest: link_text_binds)

text \<open>Two chains with one end have the same leaves, or hash two different texts to the same digest.\<close>

lemma chains_determined:
  fixes sha d tape s
  defines "C \<equiv> \<lambda>e. sha (link_text d tape s e)"
  assumes "chain_end C None ls = chain_end C None ks"
  shows "ls = ks \<or> (\<exists>x\<in>link_text d tape s ` set (chain_events C None ls).
    \<exists>y\<in>link_text d tape s ` set (chain_events C None ks). x \<noteq> y \<and> sha x = sha y)"
proof -
  have "linked fst C None (chain_events C None ls) (chain_end C None ls)" by (rule chain_events_linked)
  moreover have "linked fst C None (chain_events C None ks) (chain_end C None ls)"
    unfolding assms(2) by (rule chain_events_linked)
  ultimately have "list_all2 (=) (chain_events C None ls) (chain_events C None ks) \<or>
      (\<exists>e\<in>set (chain_events C None ls). \<exists>f\<in>set (chain_events C None ks).
         link_text d tape s e \<noteq> link_text d tape s f \<and> sha (link_text d tape s e) = sha (link_text d tape s f))"
    unfolding C_def by (intro tape_chain.head_determines) (simp_all add: list_all_iff)
  moreover have "ls = ks" if "chain_events C None ls = chain_events C None ks"
    using that by (metis chain_events_leaves)
  ultimately show ?thesis by (auto simp: list.rel_eq)
qed

definition bar_link_text :: "string \<Rightarrow> string \<Rightarrow> string option \<times> string \<Rightarrow> string" where
  "bar_link_text tape s = link_text ''kairos.sim.closed-bar-chain.v1'' tape (Some s)"

definition frame_link_text :: "string \<Rightarrow> string option \<times> string \<Rightarrow> string" where
  "frame_link_text tape = link_text ''kairos.sim.book-frame-chain.v1'' tape None"

lemma chain_sha256_text:
  "bar_chain_sha256 sha tape s p l = sha (bar_link_text tape s (p, l))"
  "frame_chain_sha256 sha tape p l = sha (frame_link_text tape (p, l))"
  by (simp_all add: bar_chain_sha256_def frame_chain_sha256_def chain_sha256_def bar_link_text_def frame_link_text_def link_text_def)

definition bar_identities :: "string \<Rightarrow> string \<Rightarrow> tape_db \<Rightarrow> string list" where
  "bar_identities tape s db = map br_sha256 (of_symbol s (bars_in_order tape db))"

definition frame_identities :: "string \<Rightarrow> tape_db \<Rightarrow> string list" where
  "frame_identities tape db = map fr_sha256 (sort_key fr_sequence (frames_of tape db))"

text \<open>All texts whose digests are chained in a tape.\<close>

definition chained_texts :: "(string \<Rightarrow> string) \<Rightarrow> string \<Rightarrow> tape_db \<Rightarrow> string set" where
  "chained_texts sha tape db =
     (\<Union>s. bar_link_text tape s ` set (chain_events (\<lambda>e. sha (bar_link_text tape s e)) None (bar_identities tape s db))) \<union>
     frame_link_text tape ` set (chain_events (\<lambda>e. sha (frame_link_text tape e)) None (frame_identities tape db))"

lemma verify_frames_end:
  assumes "verify_frames sha M tape n leaf chain clocks rs = Inr (Some c)"
  shows "c = chain_end (\<lambda>e. sha (frame_link_text tape e)) chain (map fr_sha256 rs)"
  using assms
proof (induction rs arbitrary: n leaf chain clocks)
  case (Cons r rs)
  then show ?case by (auto simp: rbind_eq_Inr Let_def chain_sha256_text split: if_splits)
qed simp

lemma verify_bars_end:
  fixes sha tape
  defines "C \<equiv> \<lambda>s e. sha (bar_link_text tape s e)"
  assumes "verify_bars sha M tape previous heads rs = Inr (Some hs)"
    and "\<And>s. map_option (snd \<circ> snd) (map_of previous s) = chain_end (C s) None (map br_sha256 (of_symbol s xs))"
    and "\<And>s. map_option snd (map_of heads s) = chain_end (C s) None (map br_sha256 (of_symbol s xs))"
    and "distinct (map fst heads)"
  shows "distinct (map fst hs) \<and> (\<forall>s. map_option snd (map_of hs s) = chain_end (C s) None (map br_sha256 (of_symbol s (xs @ rs))))"
  using assms(2-)
proof (induction rs arbitrary: xs previous heads)
  case (Cons r rs)
  let ?s = "br_symbol r"
  from Cons.prems(1) obtain bar chain where
      step: "bar_step sha tape (map_of previous ?s) bar r = Some chain"
    and rest: "verify_bars sha M tape (AList.update ?s (mb_close_time bar, br_sha256 r, chain) previous)
        (AList.update ?s ((case map_of heads ?s of None \<Rightarrow> 0 | Some (n, _) \<Rightarrow> n) + 1, chain) heads) rs = Inr (Some hs)"
    by (auto simp: rbind_eq_Inr Let_def split: option.splits)
  have "chain = C ?s (chain_end (C ?s) None (map br_sha256 (of_symbol ?s xs)), br_sha256 r)"
    using step Cons.prems(2) by (simp add: bar_step_def Let_def chain_sha256_text C_def split: if_splits)
  then have "chain_end (C s) None (map br_sha256 (of_symbol s (xs @ [r]))) =
      (if s = ?s then Some chain else chain_end (C s) None (map br_sha256 (of_symbol s xs)))" for s
    by (simp add: of_symbol_snoc chain_end_snoc)
  with Cons.prems have "distinct (map fst hs) \<and>
      (\<forall>s. map_option snd (map_of hs s) = chain_end (C s) None (map br_sha256 (of_symbol s ((xs @ [r]) @ rs))))"
    by (intro Cons.IH [OF rest]) (auto simp: update_conv intro: distinct_update)
  then show ?case by simp
qed simp

text \<open>The heads a verified seal states are the ends of the chains of the stored identities.\<close>

lemma verified_heads:
  assumes "verify_tape sha M tape db = Inr True" and "tape_at tape db = Some r" and "tp_state r = TAPE_SEALED"
    and "stored_seal sha M r = Inr seal"
  shows "(\<forall>s. map_option snd (map_of (sv_bar_chains seal) s) =
      chain_end (\<lambda>e. sha (bar_link_text tape s e)) None (bar_identities tape s db)) \<and>
    Some (snd (sv_book_chain seal)) = chain_end (\<lambda>e. sha (frame_link_text tape e)) None (frame_identities tape db)"
proof -
  obtain hs c where hs: "verify_bars sha M tape [] [] (bars_in_order tape db) = Inr (Some hs)"
      and c: "verify_frames sha M tape 0 None None [] (sort_key fr_sequence (frames_of tape db)) = Inr (Some c)"
      and seal: "verify_seal sha M r hs (length (frames_of tape db)) c = Inr True"
    using assms(1,2) by (auto simp: verify_tape_def rbind_eq_Inr split: option.splits)
  have "sv_bar_chains seal = sort_key fst hs" "Some (snd (sv_book_chain seal)) = c"
    using seal assms(3,4) by (auto simp: verify_seal_def split: if_splits option.splits)
  moreover have "distinct (map fst hs) \<and> (\<forall>s. map_option snd (map_of hs s) =
      chain_end (\<lambda>e. sha (bar_link_text tape s e)) None (bar_identities tape s db))"
    using verify_bars_end [OF hs, of "[]"] by (simp add: of_symbol_def bar_identities_def)
  moreover have "map_of (sort_key fst hs) = map_of hs" if "distinct (map fst hs)"
    using that by (rule map_of_sorted_items)
  ultimately show ?thesis using verify_frames_end [OF c] by (simp add: frame_identities_def)
qed

section \<open>Properties\<close>

text \<open>
  C6. The tapes verify: after any sequence of recordings and seals, refused ones included, of payloads that their
  contracts read back, \<open>verify_tape\<close> answers \<open>True\<close> for every tape there is.
\<close>

theorem recorded_tape_verifies:
  assumes "list_all (good_tape_op M) ops" and "seal_contract M" and "db = fold (tape_step sha M) ops no_tapes"
    and "validate_text ''tape_id'' tape = Inr ()" and "tape_at tape db \<noteq> None"
  shows "verify_tape sha M tape db = Inr True"
  using inv_verifies [OF _ assms(4)] tape_run_inv [OF assms(1,2)] assms(3,5) by blast

text \<open>
  C5. A sealed tape has no gap: each of the five symbols has bars, one for every minute from its first to its last,
  and frames; the frames are numbered from one, all of them admitted, and those of a symbol are of one epoch with
  strictly increasing update ids and clocks that do not go back; and the seal that is stored states the heads of
  just these bars and frames.
\<close>

theorem sealed_tape_complete:
  assumes "list_all (good_tape_op M) ops" and "seal_contract M" and "db = fold (tape_step sha M) ops no_tapes"
    and "tape_at tape db = Some r" and "tp_state r = TAPE_SEALED"
  shows "(\<forall>s\<in>set sim_symbols. bars_of tape s db \<noteq> [] \<and> map br_open_time (bars_of tape s db) =
        map (\<lambda>i. br_open_time (hd (bars_of tape s db)) + 60000 * int i) [0..<length (bars_of tape s db)] \<and>
      (\<exists>q\<in>set (frames_of tape db). fr_symbol q = s) \<and>
      sorted_wrt clocks_advance (filter (\<lambda>q. fr_symbol q = s) (frames_of tape db))) \<and>
    map fr_sequence (frames_of tape db) = map (\<lambda>i. int i + 1) [0..<length (frames_of tape db)] \<and>
    (\<forall>q\<in>set (frames_of tape db). fr_continuity q = ''ADMITTED'') \<and>
    (\<exists>seal. stored_seal sha M r = Inr seal \<and> sv_bar_chains seal = bar_heads tape db \<and>
      sv_book_chain seal = (int (length (frames_of tape db)), fr_chain (last (frames_of tape db))))"
proof -
  have inv: "tape_inv sha M db" using tape_run_inv [OF assms(1,2)] assms(3) by simp
  then have linked: "\<And>s. bars_linked sha M tape s (bars_of tape s db)" "frames_linked sha M tape (frames_of tape db)"
    and row: "tape_row_ok sha M db r" using assms(4) by (simp_all add: tape_inv_def)
  have id: "tp_tape_id r = tape" using assms(4) by (rule tape_at_id)
  have admitted: "\<forall>q\<in>set (frames_of tape db). fr_continuity q = ''ADMITTED''" and ok: "sealed_ok sha M db r"
    using row assms(5) by (simp_all add: tape_row_ok_def id Let_def)
  have symbols: "set (tape_symbols tape db) = set sim_symbols" "admitted_symbols tape db = set sim_symbols"
    using ok by (simp_all add: sealed_ok_def id Let_def bar_heads_def comp_def)
  have bars: "bars_of tape s db \<noteq> []" if "s \<in> set sim_symbols" for s
    using that unfolding symbols(1) [symmetric] by (auto simp: tape_symbols_def bars_of_def filter_empty_conv)
  have frames: "\<exists>q\<in>set (frames_of tape db). fr_symbol q = s" if "s \<in> set sim_symbols" for s
    using that unfolding symbols(2) [symmetric] by (auto simp: admitted_symbols_def)
  have "\<exists>seal. stored_seal sha M r = Inr seal \<and> sv_bar_chains seal = bar_heads tape db \<and>
      sv_book_chain seal = (int (length (frames_of tape db)), fr_chain (last (frames_of tape db)))"
    using ok by (auto simp: sealed_ok_def id Let_def last_opt_def split: if_splits)
  with bars frames bars_minutes [OF linked(1)] admitted_advance [OF linked(2) admitted] frames_numbered [OF linked(2)] admitted
  show ?thesis by simp
qed

text \<open>
  C36. A sealed or blocked tape is final: whatever is recorded and sealed afterwards, its row, its bars and its
  frames stay as they are, and every bar and frame offered to it is refused.
\<close>

theorem closed_tape_frozen:
  assumes "tape_at tape db = Some r" and "tp_state r \<noteq> TAPE_OPEN" and "u = fold (tape_step sha M) ops db"
  shows "tape_at tape u = Some r \<and> (\<forall>s. bars_of tape s u = bars_of tape s db) \<and> frames_of tape u = frames_of tape db \<and>
    (\<forall>bar. isl (record_closed_bar sha tape bar u)) \<and>
    (\<forall>f now. mf_tape_id f = tape \<longrightarrow> isl (record_book_frame sha M f now u))"
proof -
  have "tape_kept tape db u" using frozen.run_le [where s = db and ops = ops and sha = sha and M = M] assms(3) by simp
  then have u: "tape_at tape u = Some r" and rows: "same_rows tape db u" using assms(1,2) by (auto simp: tape_kept_def)
  have closed: "ensure_open_tape tape u \<noteq> Inr x" for x
    using u assms(2) by (auto simp: ensure_open_tape_def Let_def)
  have "isl (record_closed_bar sha tape bar u)" for bar
  proof (cases "record_closed_bar sha tape bar u")
    case (Inr x)
    then obtain b db' where "record_closed_bar sha tape bar u = Inr (b, db')" by (cases x) auto
    then show ?thesis by (cases rule: record_closed_bar_outcome) (simp_all add: closed)
  qed simp
  moreover have "isl (record_book_frame sha M f now u)" if "mf_tape_id f = tape" for f now
  proof (cases "record_book_frame sha M f now u")
    case (Inr x)
    then obtain b db' where "record_book_frame sha M f now u = Inr (b, db')" by (cases x) auto
    then show ?thesis by (cases rule: record_book_frame_outcome) (simp_all add: closed that)
  qed simp
  ultimately show ?thesis using u rows by (simp add: same_rows_def bars_of_tape)
qed

text \<open>
  A seal commits to its tape: if two databases both verify a sealed tape and their stored seals state the same
  heads, then the tape has the same bars for every symbol and the same frames in both, by identity and order, or
  two different texts that were chained have the same SHA-256.
\<close>

theorem tape_seal_commits:
  assumes "verify_tape sha M tape db = Inr True" and "tape_at tape db = Some r" and "tp_state r = TAPE_SEALED"
    and "stored_seal sha M r = Inr seal"
    and "verify_tape sha M tape db2 = Inr True" and "tape_at tape db2 = Some r2" and "tp_state r2 = TAPE_SEALED"
    and "stored_seal sha M r2 = Inr seal2"
    and "sv_bar_chains seal = sv_bar_chains seal2" and "sv_book_chain seal = sv_book_chain seal2"
  shows "(\<forall>s. bar_identities tape s db = bar_identities tape s db2) \<and> frame_identities tape db = frame_identities tape db2 \<or>
    (\<exists>x\<in>chained_texts sha tape db. \<exists>y\<in>chained_texts sha tape db2. x \<noteq> y \<and> sha x = sha y)"
proof -
  note heads = verified_heads [OF assms(1-4)] verified_heads [OF assms(5-8)]
  have "chain_end (\<lambda>e. sha (bar_link_text tape s e)) None (bar_identities tape s db) =
      chain_end (\<lambda>e. sha (bar_link_text tape s e)) None (bar_identities tape s db2)" for s
    using heads assms(9) by metis
  then have bars: "bar_identities tape s db = bar_identities tape s db2 \<or>
      (\<exists>x\<in>chained_texts sha tape db. \<exists>y\<in>chained_texts sha tape db2. x \<noteq> y \<and> sha x = sha y)" for s
    using chains_determined [of sha "''kairos.sim.closed-bar-chain.v1''" tape "Some s" "bar_identities tape s db" "bar_identities tape s db2"]
    unfolding chained_texts_def bar_link_text_def by blast
  have "chain_end (\<lambda>e. sha (frame_link_text tape e)) None (frame_identities tape db) =
      chain_end (\<lambda>e. sha (frame_link_text tape e)) None (frame_identities tape db2)"
    using heads assms(10) by metis
  then have frames: "frame_identities tape db = frame_identities tape db2 \<or>
      (\<exists>x\<in>chained_texts sha tape db. \<exists>y\<in>chained_texts sha tape db2. x \<noteq> y \<and> sha x = sha y)"
    using chains_determined [of sha "''kairos.sim.book-frame-chain.v1''" tape None "frame_identities tape db" "frame_identities tape db2"]
    unfolding chained_texts_def frame_link_text_def by blast
  from bars frames show ?thesis by blast
qed

section \<open>Witnesses\<close>

text \<open>A stand-in hash: the digit of the leaf in a chain text, sixty-four times.\<close>

definition leaf_sha :: "string \<Rightarrow> string" where
  "leaf_sha s = replicate 64 (case drop 62 s of [] \<Rightarrow> CHR ''0'' | c # cs \<Rightarrow> if lower_hex c then c else CHR ''0'')"

definition sample_bar :: "char \<Rightarrow> string \<Rightarrow> closed_bar" where
  "sample_bar c symbol = \<lparr>mb_symbol = symbol, mb_venue = ''BINANCE_UM'', mb_open_time = 60000, mb_close_time = 119999,
     mb_sha256 = Some (replicate 64 c), mb_message_id = replicate 64 c, mb_payload = JObj [(''s'', JStr symbol)]\<rparr>"

definition sample_frame :: "int \<Rightarrow> char \<Rightarrow> char option \<Rightarrow> string \<Rightarrow> string \<Rightarrow> book_frame" where
  "sample_frame n c p symbol continuity = \<lparr>mf_tape_id = ''t'', mf_sequence = n, mf_symbol = symbol, mf_epoch = ''e'',
     mf_update_id = 1, mf_exchange_at = 0, mf_received_at = 0, mf_persisted_at = 0, mf_continuity = continuity,
     mf_sha256 = Some (replicate 64 c), mf_previous = map_option (replicate 64) p, mf_raw_sha256 = replicate 64 (CHR ''0''),
     mf_version = ''sim-book-frame.v1'', mf_evidence = None, mf_message_id = replicate 64 c,
     mf_payload = JObj [(''contract_version'', JStr ''sim-book-frame.v1''), (''s'', JStr symbol)]\<rparr>"

definition sample_bars :: "closed_bar list" where
  "sample_bars = map (\<lambda>(c, s). sample_bar c s) (zip ''12345'' sim_symbols)"

definition sample_frames :: "book_frame list" where
  "sample_frames = map (\<lambda>(n, c, p, s). sample_frame n c p s ''ADMITTED'')
     (zip [1, 2, 3, 4, 5] (zip ''12345'' (zip [None, Some (CHR ''1''), Some (CHR ''2''), Some (CHR ''3''), Some (CHR ''4'')] sim_symbols)))"

definition sample_heads :: "chain_head list" where
  "sample_heads = [(''BNBUSDT'', 1, replicate 64 (CHR ''4'')), (''BTCUSDT'', 1, replicate 64 (CHR ''1'')),
     (''ETHUSDT'', 1, replicate 64 (CHR ''2'')), (''SOLUSDT'', 1, replicate 64 (CHR ''3'')), (''XRPUSDT'', 1, replicate 64 (CHR ''5''))]"

definition sample_document :: json where
  "sample_document = JObj [(''message_id'', JStr ''seal''), (''produced_at'', JStr ''2024-01-01T00:00:00+00:00''),
     (''schema_version'', JStr ''1''), (''source'', JStr ''sim'')]"

definition sample_seal :: tape_seal where
  "sample_seal = \<lparr>sv_tape_sha256 = Some (replicate 64 (CHR ''9'')), sv_bar_chains = sample_heads,
     sv_book_chain = (5, replicate 64 (CHR ''5'')), sv_payload = sample_document, sv_dump = sample_document\<rparr>"

definition sample_tape_models :: tape_models where
  "sample_tape_models = \<lparr>decode_bar = (\<lambda>j. List.find (\<lambda>b. mb_payload b = j) sample_bars),
     decode_frame_v1 = (\<lambda>j. List.find (\<lambda>f. mf_payload f = j) sample_frames), decode_frame_v2 = (\<lambda>j. None),
     equal_frames = (=),
     make_seal = (\<lambda>source tape at bars book. if bars = sample_heads \<and> book = (5, replicate 64 (CHR ''5'')) then Inr sample_seal
       else Inl (ValueError ''SimulationTapeSealV1'')),
     decode_seal = (\<lambda>j. if j = sample_document then Some sample_seal else None)\<rparr>"

definition sample_ops :: "tape_op list" where
  "sample_ops = map (BarOp ''t'') sample_bars @ map (\<lambda>f. FrameOp f 10) sample_frames @ [SealOp 1 ''t'' 100 ''sim'' 20]"

definition sample_tapes :: tape_db where
  "sample_tapes = fold (tape_step leaf_sha sample_tape_models) sample_ops no_tapes"

lemma sample_good: "list_all (good_tape_op sample_tape_models) sample_ops"
  by code_simp

lemma sample_contract: "seal_contract sample_tape_models"
proof -
  have "document_ok sample_document" "sorted_json sample_document = sample_document" by code_simp+
  then show ?thesis by (auto simp: seal_contract_def sample_tape_models_def sample_seal_def split: if_splits)
qed

lemma sample_sealed: "map (\<lambda>r. (tp_tape_id r, tp_state r)) (tdb_tapes sample_tapes) = [(''t'', TAPE_SEALED)]"
  by code_simp

lemma sample_tape_at: "\<exists>r. tape_at ''t'' sample_tapes = Some r \<and> tp_state r = TAPE_SEALED"
proof -
  obtain r where "tdb_tapes sample_tapes = [r]" "tp_tape_id r = ''t''" "tp_state r = TAPE_SEALED" using sample_sealed by auto
  then show ?thesis by (simp add: tape_at_def)
qed

lemma sample_tape_id: "validate_text ''tape_id'' ''t'' = Inr ()"
  by code_simp

theorem recorded_tape_verifies_witness:
  "verify_tape leaf_sha sample_tape_models ''t'' sample_tapes = Inr True"
proof -
  have "tape_at ''t'' sample_tapes \<noteq> None" using sample_tape_at by auto
  then show ?thesis by (rule recorded_tape_verifies [OF sample_good sample_contract sample_tapes_def sample_tape_id])
qed

theorem sealed_tape_complete_witness:
  "map fr_sequence (frames_of ''t'' sample_tapes) = map (\<lambda>i. int i + 1) [0..<length (frames_of ''t'' sample_tapes)] \<and>
     frames_of ''t'' sample_tapes \<noteq> [] \<and> bars_of ''t'' ''ETHUSDT'' sample_tapes \<noteq> []"
proof -
  obtain r where r: "tape_at ''t'' sample_tapes = Some r" "tp_state r = TAPE_SEALED" using sample_tape_at by blast
  have eth: "''ETHUSDT'' \<in> set sim_symbols" by code_simp
  note complete = sealed_tape_complete [OF sample_good sample_contract sample_tapes_def r]
  from bspec [OF conjunct1 [OF complete] eth] complete show ?thesis by auto
qed

text \<open>A tape that a gap has blocked.\<close>

definition blocked_tapes :: tape_db where
  "blocked_tapes = tape_step leaf_sha sample_tape_models (FrameOp (sample_frame 1 (CHR ''1'') None ''BTCUSDT'' ''GAP'') 10) no_tapes"

lemma blocked_tape_at: "map (\<lambda>r. (tp_tape_id r, tp_state r)) (tdb_tapes blocked_tapes) = [(''t'', TAPE_BLOCKED)]"
  by code_simp

theorem closed_tape_frozen_witness:
  "\<exists>r. tape_at ''t'' (fold (tape_step leaf_sha sample_tape_models) sample_ops blocked_tapes) = Some r \<and> tp_state r = TAPE_BLOCKED"
proof -
  obtain r where "tdb_tapes blocked_tapes = [r]" "tp_tape_id r = ''t''" "tp_state r = TAPE_BLOCKED" using blocked_tape_at by auto
  then have "tape_at ''t'' blocked_tapes = Some r" "tp_state r \<noteq> TAPE_OPEN" "tp_state r = TAPE_BLOCKED" by (simp_all add: tape_at_def)
  with closed_tape_frozen [OF _ _ refl, of "''t''" blocked_tapes r leaf_sha sample_tape_models sample_ops] show ?thesis by blast
qed

theorem tape_seal_commits_witness:
  "frame_identities ''t'' sample_tapes = frame_identities ''t'' sample_tapes \<and>
     (\<exists>r. tape_at ''t'' sample_tapes = Some r \<and> \<not> isl (stored_seal leaf_sha sample_tape_models r))"
proof -
  obtain r where r: "tape_at ''t'' sample_tapes = Some r" "tp_state r = TAPE_SEALED" using sample_tape_at by blast
  have inv: "tape_inv leaf_sha sample_tape_models sample_tapes"
    unfolding sample_tapes_def by (rule tape_run_inv [OF sample_good sample_contract])
  then have verified: "verify_tape leaf_sha sample_tape_models ''t'' sample_tapes = Inr True"
    using sample_tape_id r(1) by (rule inv_verifies)
  have "sealed_ok leaf_sha sample_tape_models sample_tapes r" using inv r by (simp add: tape_inv_def tape_row_ok_def Let_def)
  then obtain seal where seal: "stored_seal leaf_sha sample_tape_models r = Inr seal" by (auto simp: sealed_ok_def Let_def)
  from tape_seal_commits [OF verified r seal verified r seal refl refl] r(1) seal show ?thesis by auto
qed

end
