(* ===== verification/JournalRuns.thy ===== *)
theory JournalRuns
  imports SimulatorJournal TapeRuns
begin

text \<open>
  Runs of the simulator's journal together with its tapes: what a trade's journal says, what a trade rests on, and what a
  completed command, a result and a session receipt promise. An operation is a sequence of changes to the tables
  (\<open>sim_change\<close>); the invariants are proved for the changes and lifted to runs.
\<close>

subsection \<open>Changes\<close>

lemma insert_checked_Inr [returned]:
  "insert_checked table bigints check repeats refers r t = Inr t' \<longleftrightarrow>
     list_all int8 bigints \<and> check \<and> \<not> repeats \<and> refers \<and> t' = insert_row r t"
  by (auto simp: insert_checked_def)

lemmas insert_defs = insert_sim_session_def insert_decision_def insert_sim_admission_def insert_sim_trade_def insert_event_def
  insert_sim_command_def insert_command_receipt_def insert_result_def insert_session_receipt_def

text \<open>\<open>D\<close>, \<open>E\<close> and \<open>T\<close> say which decisions, events and trades are handed in.\<close>

inductive sim_change ::
  "(string \<Rightarrow> string) \<Rightarrow> tape_models \<Rightarrow> (sim_decision \<Rightarrow> bool) \<Rightarrow> (sim_event \<Rightarrow> bool) \<Rightarrow> (sim_trade \<Rightarrow> bool)
     \<Rightarrow> sim_db \<Rightarrow> sim_db \<Rightarrow> bool"
  for sha M D E T where
  published: "sim_change sha M D E T db (db\<lparr>sj_tape := (sj_tape db)\<lparr>tdb_audit := a, tdb_outbox := x\<rparr>\<rparr>)"
| input: "sim_change sha M D E T db (db\<lparr>sj_tape := tape_step sha M op (sj_tape db)\<rparr>)"
| session: "exact_sealed_tape s db \<Longrightarrow> insert_sim_session (session_row_of s sid assumptions doc digest) db = Inr db' \<Longrightarrow>
    sim_change sha M D E T db db'"
| decision: "D d \<Longrightarrow> dc_decision_id d = Some did \<Longrightarrow> sim_session_at sid db = Some s \<Longrightarrow>
    assert_exact_model sha entity s (af_dump (dc_session d)) = Inr () \<Longrightarrow> decision_inputs_recorded sha M d db = Inr () \<Longrightarrow>
    insert_decision (decision_row_of d did sid intent review doc (sha (canonical_json (af_payload d)))) db = Inr db' \<Longrightarrow>
    sim_change sha M D E T db db'"
| admission: "insert_sim_admission r db = Inr db' \<Longrightarrow> sim_change sha M D E T db db'"
| trade: "T t \<Longrightarrow> trade_lineage t = Some (ids, symbol, side) \<Longrightarrow> json_finite (af_payload t) \<Longrightarrow>
    stored_canonical (af_payload t) = Inr doc \<Longrightarrow>
    insert_sim_trade (pending_trade ids symbol side created_at doc (sha (canonical_json (af_payload t)))) db = Inr db' \<Longrightarrow>
    sim_change sha M D E T db db'"
| event: "E e \<Longrightarrow> ev_event_id e = Some eid \<Longrightarrow> sim_trade_at (ev_trade_id e) db = Some t \<Longrightarrow> event_follows e t = Inr () \<Longrightarrow>
    advance_trade e eid (tr_version t) db = Inr db1 \<Longrightarrow> json_finite (af_payload e) \<Longrightarrow>
    stored_canonical (af_payload e) = Inr doc \<Longrightarrow>
    insert_event (event_row_of e eid doc (sha (canonical_json (af_payload e)))) db1 = Inr db' \<Longrightarrow> sim_change sha M D E T db db'"
| command: "insert_sim_command r db = Inr db' \<Longrightarrow> sim_change sha M D E T db db'"
| receipt: "insert_command_receipt r db = Inr db' \<Longrightarrow> sim_change sha M D E T db db'"
| liquidity: "upsert_liquidity r db = Inr db' \<Longrightarrow> sim_change sha M D E T db db'"
| marked: "mark_completed cid now db = Inr db' \<Longrightarrow> sim_change sha M D E T db db'"
| result: "result_terminal x db = Inr () \<Longrightarrow> insert_result (result_row_of x rid doc digest) db = Inr db' \<Longrightarrow>
    sim_change sha M D E T db db'"
| session_receipt: "insert_session_receipt r db = Inr db' \<Longrightarrow> sim_change sha M D E T db db'"
| closed: "sim_change sha M D E T db (close_session sid receipt_state db)"

abbreviation sim_changes where
  "sim_changes sha M D E T \<equiv> (sim_change sha M D E T)\<^sup>*\<^sup>*"

lemma changes_2: "sim_change sha M D E T a b \<Longrightarrow> sim_change sha M D E T b c \<Longrightarrow> sim_changes sha M D E T a c"
  by (rule rtranclp.rtrancl_into_rtrancl [OF r_into_rtranclp])

lemma publish_change: "publish_artifact sha nid topic a now db = Inr db' \<Longrightarrow> sim_change sha M D E T db db'"
  unfolding publish_artifact_def by (auto simp: returned intro: published)

lemma canonical_fst: "canonical_payload sha j = Inr p \<longleftrightarrow> json_finite j \<and> p = (canonical_json j, sha (canonical_json j))"
  by (cases p) (simp add: canonical_payload_Inr)

lemma create_session_changes:
  assumes "create_session sha nid s now db = Inr (b, db')"
  shows "sim_changes sha M D E T db db'"
proof (cases b)
  case False
  with assms have "db' = db" by (auto simp: create_session_def returned split: option.splits)
  then show ?thesis by simp
next
  case True
  with assms obtain sid assumptions doc digest db1 where "exact_sealed_tape s db"
      and "insert_sim_session (session_row_of s sid assumptions doc digest) db = Inr db1"
      and "publish_artifact sha nid ''kairos.simulation.session.v1'' s now db1 = Inr db'"
    by (auto simp: create_session_def returned split: option.splits)
  then show ?thesis by (intro changes_2 [OF sim_change.session publish_change])
qed

lemma record_risk_decision_changes:
  assumes "record_risk_decision sha M nid d now db = Inr (b, db')" and "D d"
  shows "sim_changes sha M D E T db db'"
proof (cases b)
  case False
  with assms have "db' = db" by (auto simp: record_risk_decision_def returned split: option.splits)
  then show ?thesis by simp
next
  case True
  with assms(1) obtain did sid intent review s doc db1 where "dc_decision_id d = Some did" and "sim_session_at sid db = Some s"
      and "assert_exact_model sha ''simulation risk decision session'' s (af_dump (dc_session d)) = Inr ()"
      and "decision_inputs_recorded sha M d db = Inr ()"
      and "insert_decision (decision_row_of d did sid intent review doc (sha (canonical_json (af_payload d)))) db = Inr db1"
      and "publish_artifact sha nid ''kairos.simulation.risk_decision.v1'' d now db1 = Inr db'"
    by (auto simp: record_risk_decision_def returned canonical_fst split: option.splits)
  with assms(2) show ?thesis by (intro changes_2 [OF sim_change.decision publish_change])
qed

lemma create_admission_changes:
  assumes "create_admission sha nid a now db = Inr (b, db')"
  shows "sim_changes sha M D E T db db'"
proof (cases b)
  case False
  with assms have "db' = db" by (auto simp: create_admission_def returned split: option.splits)
  then show ?thesis by simp
next
  case True
  with assms obtain r db1 where "insert_sim_admission r db = Inr db1"
      and "publish_artifact sha nid ''kairos.simulation.admission.v2'' a now db1 = Inr db'"
    by (auto simp: create_admission_def returned split: option.splits)
  then show ?thesis by (intro changes_2 [OF sim_change.admission publish_change])
qed

lemma create_sim_trade_changes:
  assumes "create_sim_trade sha nid t now db = Inr (b, db')" and "T t"
  shows "sim_changes sha M D E T db db'"
proof (cases b)
  case False
  with assms have "db' = db" by (auto simp: create_sim_trade_def returned split: option.splits)
  then show ?thesis by simp
next
  case True
  with assms(1) obtain ids symbol side doc db1 where "trade_lineage t = Some (ids, symbol, side)"
      and "json_finite (af_payload t)" and "stored_canonical (af_payload t) = Inr doc"
      and "insert_sim_trade (pending_trade ids symbol side (mt_created_at t) doc (sha (canonical_json (af_payload t)))) db = Inr db1"
      and "publish_artifact sha nid ''kairos.simulation.trade.v1'' t now db1 = Inr db'"
    by (auto simp: create_sim_trade_def returned canonical_fst simp del: stored_canonical_def split: option.splits)
  with assms(2) show ?thesis by (intro changes_2 [OF sim_change.trade publish_change])
qed

lemma append_event_changes:
  assumes "append_sim_trade_event_locked sha nid e now db = Inr (b, db')" and "E e"
  shows "sim_changes sha M D E T db db'"
proof (cases b)
  case False
  with assms have "db' = db" by (auto simp: append_sim_trade_event_locked_def returned split: option.splits)
  then show ?thesis by simp
next
  case True
  with assms(1) obtain eid t db1 doc db2 where "ev_event_id e = Some eid" and "sim_trade_at (ev_trade_id e) db = Some t"
      and "event_follows e t = Inr ()" and "advance_trade e eid (tr_version t) db = Inr db1"
      and "json_finite (af_payload e)" and "stored_canonical (af_payload e) = Inr doc"
      and "insert_event (event_row_of e eid doc (sha (canonical_json (af_payload e)))) db1 = Inr db2"
      and "publish_artifact sha nid ''kairos.simulation.trade_event.v2'' e now db2 = Inr db'"
    by (auto simp: append_sim_trade_event_locked_def returned canonical_fst simp del: stored_canonical_def split: option.splits)
  with assms(2) show ?thesis by (intro changes_2 [OF sim_change.event publish_change])
qed

lemma prepare_command_changes:
  assumes "prepare_command sha J nid c now db = Inr (p, db')"
  shows "sim_changes sha M D E T db db'"
proof -
  from assms consider "db' = db" | r db1 where "insert_sim_command r db = Inr db1"
      "publish_artifact sha nid ''kairos.simulation.command.v1'' c now db1 = Inr db'"
    by (auto simp: prepare_command_def returned split: option.splits)
  then show ?thesis
  proof cases
    case 2
    then show ?thesis by (intro changes_2 [OF sim_change.command publish_change])
  qed simp
qed

lemma complete_events_changes:
  assumes "complete_events sha nids cid xid es now db = Inr db'" and "list_all E es"
  shows "sim_changes sha M D E T db db'"
  using assms
proof (induction es arbitrary: db)
  case (Cons e es)
  then obtain b db1 where "append_sim_trade_event_locked sha (nids (length es + 1)) e now db = Inr (b, db1)"
      and "complete_events sha nids cid xid es now db1 = Inr db'"
    by (auto simp: returned)
  with Cons show ?case by (auto intro: rtranclp_trans append_event_changes)
qed simp

lemma complete_prepared_changes:
  assumes "complete_prepared sha nids cid xid receipt digest liquidity events now db = Inr db'" and "list_all E events"
  shows "sim_changes sha M D E T db db'"
proof -
  obtain r db1 q db2 db3 db4 where "insert_command_receipt r db = Inr db1" "upsert_liquidity q db1 = Inr db2"
      "complete_events sha nids cid xid events now db2 = Inr db3" "mark_completed cid now db3 = Inr db4"
      "publish_artifact sha (nids 0) ''kairos.simulation.command_receipt.v1'' receipt now db4 = Inr db'"
    using assms(1) by (auto simp: complete_prepared_def returned)
  then show ?thesis using assms(2)
    by (meson changes_2 complete_events_changes publish_change sim_change.liquidity sim_change.marked sim_change.receipt
        rtranclp_trans)
qed

lemma complete_command_cases:
  assumes "complete_command sha J nids c receipt version state events now db = Inr ((x, b), db')"
  obtains (replayed) "\<not> b" "db' = db" | (completed) cid xid digest q where "b" "x = receipt"
      "mr_receipt_id receipt = Some xid" "mr_command_id receipt = Some cid"
      "complete_prepared sha nids cid xid receipt digest q events now db = Inr db'"
proof (cases b)
  case False
  with assms have "db' = db" by (auto simp: complete_command_def returned split: option.splits)
  with False that(1) show thesis by blast
next
  case True
  with assms obtain cid xid digest q where "x = receipt" "mr_receipt_id receipt = Some xid" "mr_command_id receipt = Some cid"
      "complete_prepared sha nids cid xid receipt digest q events now db = Inr db'"
    by (auto simp: complete_command_def returned split: option.splits)
  with True that(2) show thesis by blast
qed

lemma record_result_changes:
  assumes "record_result sha nid x now db = Inr (b, db')"
  shows "sim_changes sha M D E T db db'"
proof (cases b)
  case False
  with assms have "db' = db" by (auto simp: record_result_def returned split: option.splits)
  then show ?thesis by simp
next
  case True
  with assms obtain rid doc digest db1 where "result_terminal x db = Inr ()"
      and "insert_result (result_row_of x rid doc digest) db = Inr db1"
      and "publish_artifact sha nid ''kairos.simulation.result.v1'' x now db1 = Inr db'"
    by (auto simp: record_result_def returned split: option.splits)
  then show ?thesis by (intro changes_2 [OF sim_change.result publish_change])
qed

lemma record_session_receipt_cases:
  assumes "record_session_receipt sha J nid x now db = Inr (b, db')"
  obtains (replayed) "\<not> b" "db' = db" | (recorded) ids doc db1 where "b" "session_receipt_ids x = Some ids"
      "receipt_matches_session sha J x ids db = Inr ()"
      "insert_session_receipt (session_receipt_row_of x ids doc (sha (canonical_json (af_payload x)))) db = Inr db1"
      "publish_artifact sha nid ''kairos.simulation.session_receipt.v1'' x now (close_session (fst (snd ids)) (ss_state x) db1)
         = Inr db'"
proof (cases b)
  case False
  with assms have "db' = db" by (auto simp: record_session_receipt_def returned split: option.splits)
  with False that(1) show thesis by blast
next
  case True
  with assms obtain ids doc db1 where "session_receipt_ids x = Some ids"
      "receipt_matches_session sha J x ids db = Inr ()"
      "insert_session_receipt (session_receipt_row_of x ids doc (sha (canonical_json (af_payload x)))) db = Inr db1"
      "publish_artifact sha nid ''kairos.simulation.session_receipt.v1'' x now (close_session (fst (snd ids)) (ss_state x) db1)
         = Inr db'"
    by (auto simp: record_session_receipt_def returned canonical_fst simp del: stored_canonical_def split: option.splits)
  with True that(2) show thesis by blast
qed

lemma record_session_receipt_changes:
  assumes "record_session_receipt sha J nid x now db = Inr (b, db')"
  shows "sim_changes sha M D E T db db'"
  using assms
proof (cases rule: record_session_receipt_cases)
  case (recorded ids doc db1)
  then show ?thesis
    by (meson changes_2 publish_change sim_change.closed sim_change.session_receipt converse_rtranclp_into_rtranclp)
qed simp

subsection \<open>Operations\<close>

datatype journal_op =
    InputOp tape_op
  | SessionOp int sim_session timestamp
  | DecisionOp int sim_decision timestamp
  | AdmissionOp int sim_admission timestamp
  | TradeOp int sim_trade timestamp
  | EventOp int sim_event timestamp
  | PrepareOp int sim_command timestamp
  | CompleteOp "nat \<Rightarrow> int" sim_command sim_receipt string "(string \<times> json) list" "sim_event list" timestamp
  | ResultOp int sim_result timestamp
  | SessionReceiptOp int sim_session_receipt timestamp

fun journal_step ::
  "(string \<Rightarrow> string) \<Rightarrow> tape_models \<Rightarrow> journal_models \<Rightarrow> journal_op \<Rightarrow> sim_db \<Rightarrow> sim_db" where
  "journal_step sha M J (InputOp op) db = db\<lparr>sj_tape := tape_step sha M op (sj_tape db)\<rparr>"
| "journal_step sha M J (SessionOp nid s now) db = settle db (create_session sha nid s now db)"
| "journal_step sha M J (DecisionOp nid d now) db = settle db (record_risk_decision sha M nid d now db)"
| "journal_step sha M J (AdmissionOp nid a now) db = settle db (create_admission sha nid a now db)"
| "journal_step sha M J (TradeOp nid t now) db = settle db (create_sim_trade sha nid t now db)"
| "journal_step sha M J (EventOp nid e now) db = settle db (append_sim_trade_event sha nid e now db)"
| "journal_step sha M J (PrepareOp nid c now) db = settle db (prepare_command sha J nid c now db)"
| "journal_step sha M J (CompleteOp nids c x version state events now) db =
     settle db (complete_command sha J nids c x version state events now db)"
| "journal_step sha M J (ResultOp nid x now) db = settle db (record_result sha nid x now db)"
| "journal_step sha M J (SessionReceiptOp nid x now) db = settle db (record_session_receipt sha J nid x now db)"

text \<open>The trades and events an operation hands in.\<close>

fun hands_in :: "(sim_event \<Rightarrow> bool) \<Rightarrow> (sim_trade \<Rightarrow> bool) \<Rightarrow> journal_op \<Rightarrow> bool" where
  "hands_in E T (TradeOp nid t now) = T t"
| "hands_in E T (EventOp nid e now) = E e"
| "hands_in E T (CompleteOp nids c x version state events now) = list_all E events"
| "hands_in E T op = True"

text \<open>The decision it hands in.\<close>

definition decides :: "(sim_decision \<Rightarrow> bool) \<Rightarrow> journal_op \<Rightarrow> bool" where
  "decides D op = (case op of DecisionOp nid d now \<Rightarrow> D d | _ \<Rightarrow> True)"

lemma complete_command_changes:
  assumes "complete_command sha J nids c receipt version state events now db = Inr (p, db')" and "list_all E events"
  shows "sim_changes sha M D E T db db'"
proof -
  obtain x b where "complete_command sha J nids c receipt version state events now db = Inr ((x, b), db')"
    using assms(1) by (cases p) simp
  then show ?thesis
  proof (cases rule: complete_command_cases)
    case (completed cid xid digest q)
    then show ?thesis using assms(2) by (intro complete_prepared_changes)
  qed simp
qed

lemma journal_step_changes:
  assumes "hands_in E T op" and "decides D op"
  shows "sim_changes sha M D E T db (journal_step sha M J op db)"
proof (cases op)
  case (InputOp op)
  then show ?thesis by (simp add: r_into_rtranclp sim_change.input)
next
  case (SessionOp nid s now)
  show ?thesis unfolding SessionOp journal_step.simps by (rule settle_cases) (auto intro: create_session_changes)
next
  case (DecisionOp nid d now)
  show ?thesis unfolding DecisionOp journal_step.simps 
    by (rule settle_cases) (use assms(2) in \<open>auto simp: DecisionOp decides_def intro: record_risk_decision_changes\<close>)
next
  case (AdmissionOp nid a now)
  show ?thesis unfolding AdmissionOp journal_step.simps by (rule settle_cases) (auto intro: create_admission_changes)
next
  case (TradeOp nid t now)
  show ?thesis unfolding TradeOp journal_step.simps
    by (rule settle_cases) (use assms in \<open>auto simp: TradeOp intro: create_sim_trade_changes\<close>)
next
  case (EventOp nid e now)
  show ?thesis unfolding EventOp journal_step.simps append_sim_trade_event_def
    by (rule settle_cases) (use assms in \<open>auto simp: EventOp intro: append_event_changes\<close>)
next
  case (PrepareOp nid c now)
  show ?thesis unfolding PrepareOp journal_step.simps by (rule settle_cases) (auto intro: prepare_command_changes)
next
  case (CompleteOp nids c x version state events now)
  show ?thesis unfolding CompleteOp journal_step.simps
    by (rule settle_cases) (use assms in \<open>auto simp: CompleteOp intro: complete_command_changes\<close>)
next
  case (ResultOp nid x now)
  show ?thesis unfolding ResultOp journal_step.simps by (rule settle_cases) (auto intro: record_result_changes)
next
  case (SessionReceiptOp nid x now)
  show ?thesis unfolding SessionReceiptOp journal_step.simps
    by (rule settle_cases) (auto intro: record_session_receipt_changes)
qed

lemma decides_any: "decides (\<lambda>_. True) op"
  by (simp add: decides_def split: journal_op.split)

text \<open>What every change keeps, every operation keeps.\<close>

lemma changes_keep:
  assumes "sim_changes sha M D E T db db'" and "I db" and "\<And>a b. sim_change sha M D E T a b \<Longrightarrow> I a \<Longrightarrow> I b"
  shows "I db'"
  using assms(1,2) by induction (auto intro: assms(3))

lemma changes_relate:
  assumes "sim_changes sha M D E T db db'" and "\<And>a. R a a" and "\<And>a b c. R a b \<Longrightarrow> R b c \<Longrightarrow> R a c"
    and "\<And>a b. sim_change sha M D E T a b \<Longrightarrow> R a b"
  shows "R db db'"
  using assms(1) by induction (auto intro: assms(2-))

subsection \<open>The journal of a trade\<close>

definition good_event :: "journal_models \<Rightarrow> sim_event \<Rightarrow> bool" where
  "good_event J e \<longleftrightarrow> document_ok (af_payload e) \<and> decode_sim_event J (sorted_json (af_payload e)) = Some e"

definition good_trade :: "journal_models \<Rightarrow> sim_trade \<Rightarrow> bool" where
  "good_trade J t \<longleftrightarrow> document_ok (af_payload t) \<and> decode_sim_trade J (sorted_json (af_payload t)) = Some t"

text \<open>The row holds the artifact as its canonical document.\<close>

definition holds_document :: "(string \<Rightarrow> string) \<Rightarrow> 'z stored_row_scheme \<Rightarrow> json \<Rightarrow> bool" where
  "holds_document sha r p \<longleftrightarrow> document_ok p \<and> json_finite p \<and> sp_payload r = sorted_json p \<and> sp_sha256 r = sha (canonical_json p)"

lemma holds_model:
  "holds_document sha r p \<Longrightarrow> decode (sorted_json p) = Some m \<Longrightarrow>
    stored_model sha decode entity (sp_payload r) (sp_sha256 r) = Inr m"
  by (simp add: holds_document_def stored_model_sorted)

lemma document_stored: "document_ok p \<Longrightarrow> stored_canonical p = Inr doc \<Longrightarrow> doc = sorted_json p"
  by (auto simp: document_ok_def numbers_kept_def text_to_jsonb_canonical to_jsonb_def split: if_splits)

definition events_in :: "string \<Rightarrow> sim_event_row list \<Rightarrow> sim_event_row list" where
  "events_in t rows = filter (\<lambda>q. er_trade_id q = t) rows"

definition event_of_row :: "sim_event \<Rightarrow> sim_trade_row \<Rightarrow> bool" where
  "event_of_row e r \<longleftrightarrow> ev_trade_id e = tr_trade_id r \<and> ev_session_id e = tr_session_id r \<and>
     ev_admission_id e = tr_admission_id r \<and> ev_intent_id e = tr_intent_id r \<and> ev_symbol e = tr_symbol r \<and> ev_side e = tr_side r"

definition sim_state_after :: "sim_event_row list \<Rightarrow> sim_state" where
  "sim_state_after xs = (case last_opt xs of None \<Rightarrow> SIM_PENDING | Some q \<Rightarrow> er_to q)"

definition event_link ::
  "(string \<Rightarrow> string) \<Rightarrow> journal_models \<Rightarrow> sim_trade_row \<Rightarrow> sim_event_row list \<Rightarrow> sim_event_row \<Rightarrow> bool" where
  "event_link sha J r xs q \<longleftrightarrow> (\<exists>e. good_event J e \<and> holds_document sha q (af_payload e) \<and> event_of_row e r \<and>
     ev_event_id e = Some (er_event_id q) \<and> er_sha256 q = er_event_id q \<and> ev_seq e = er_seq q \<and> ev_to e = er_to q \<and>
     er_seq q = int (length xs) + 1 \<and> ev_previous e = map_option er_event_id (last_opt xs) \<and>
     (if xs = [] then ev_from e = None \<and> ev_to e = SIM_PENDING else ev_from e = Some (sim_state_after xs)))"

definition trade_ok :: "(string \<Rightarrow> string) \<Rightarrow> journal_models \<Rightarrow> sim_event_row list \<Rightarrow> sim_trade_row \<Rightarrow> bool" where
  "trade_ok sha J rows r \<longleftrightarrow> (let es = events_in (tr_trade_id r) rows in grown (event_link sha J r) [] es \<and>
     tr_state r = sim_state_after es \<and> tr_next_seq r = int (length es) + 1 \<and> tr_head r = map_option er_event_id (last_opt es) \<and>
     tr_count r = int (length es) \<and> sha256_hex (tr_trade_id r) \<and>
     (\<exists>t. good_trade J t \<and> holds_document sha r (af_payload t) \<and> trade_matches_row t r))"

definition sim_journal_ok :: "(string \<Rightarrow> string) \<Rightarrow> journal_models \<Rightarrow> sim_trade_row list \<Rightarrow> sim_event_row list \<Rightarrow> bool" where
  "sim_journal_ok sha J trades rows \<longleftrightarrow> unique_by tr_trade_id trades \<and> (\<forall>r\<in>set trades. trade_ok sha J rows r) \<and>
     er_trade_id ` set rows \<subseteq> tr_trade_id ` set trades"

lemma events_in_snoc:
  "events_in t (rows @ [q]) = (if er_trade_id q = t then events_in t rows @ [q] else events_in t rows)"
  by (simp add: events_in_def)

lemma pending_trade_simps [simp]:
  "tr_trade_id (pending_trade (tid, sid, aid, intent) symbol side at doc digest) = tid"
  "tr_session_id (pending_trade (tid, sid, aid, intent) symbol side at doc digest) = sid"
  "tr_admission_id (pending_trade (tid, sid, aid, intent) symbol side at doc digest) = aid"
  by (simp_all add: pending_trade_def)

lemma trade_lineage_Some:
  "trade_lineage t = Some ((tid, sid, aid, intent), symbol, side) \<longleftrightarrow> mt_trade_id t = Some tid \<and> mt_session_id t = Some sid \<and>
     mt_admission_id t = Some aid \<and> mt_intent_id t = Some intent \<and> mt_symbol t = Some symbol \<and> mt_side t = Some side"
  by (auto simp: trade_lineage_def split: option.splits)

lemma new_trade_ok:
  assumes "good_trade J t" and "trade_lineage t = Some ((tid, sid, aid, intent), symbol, side)"
    and "json_finite (af_payload t)" and "stored_canonical (af_payload t) = Inr doc" and "events_in tid rows = []" and "sha256_hex tid"
  shows "trade_ok sha J rows (pending_trade (tid, sid, aid, intent) symbol side at doc (sha (canonical_json (af_payload t))))"
proof -
  have "doc = sorted_json (af_payload t)" using assms(1,4) by (auto simp: good_trade_def document_stored)
  then show ?thesis
    unfolding trade_ok_def Let_def pending_trade_simps assms(5)
    using assms(1-3,6)
    by (auto simp: pending_trade_def sim_state_after_def good_trade_def holds_document_def trade_matches_row_def
        trade_lineage_Some intro!: exI [of _ t])
qed

lemma advanced_trade_simps [simp]:
  "tr_trade_id (advanced_trade e eid r) = tr_trade_id r" "event_of_row x (advanced_trade e eid r) = event_of_row x r"
  "trade_matches_row t (advanced_trade e eid r) = trade_matches_row t r"
  "holds_document sha (advanced_trade e eid r) p = holds_document sha r p"
  by (simp_all add: advanced_trade_def event_of_row_def trade_matches_row_def holds_document_def)

lemma event_link_advanced [simp]: "event_link sha J (advanced_trade e eid r) = event_link sha J r"
  by (intro ext) (simp add: event_link_def)

lemma event_follows_link:
  assumes "event_follows e r = Inr ()" and "good_event J e" and "ev_event_id e = Some eid" and "ev_trade_id e = tr_trade_id r"
    and "json_finite (af_payload e)" and "stored_canonical (af_payload e) = Inr doc" and ok: "trade_ok sha J rows r"
  shows "event_link sha J r (events_in (tr_trade_id r) rows) (event_row_of e eid doc (sha (canonical_json (af_payload e))))"
proof -
  let ?es = "events_in (tr_trade_id r) rows"
  have r: "tr_state r = sim_state_after ?es" "tr_next_seq r = int (length ?es) + 1" "tr_head r = map_option er_event_id (last_opt ?es)"
    using ok by (simp_all add: trade_ok_def Let_def)
  have e: "event_of_row e r" "ev_seq e = int (length ?es) + 1" "ev_previous e = map_option er_event_id (last_opt ?es)"
      "if ev_seq e = 1 then ev_from e = None \<and> ev_to e = sim_state_after ?es else ev_from e = Some (sim_state_after ?es)"
    using assms(1,4) r
    by (auto simp: event_follows_def assert_trade_lineage_def event_of_row_def split: if_splits)
  have "doc = sorted_json (af_payload e)" using assms(2,6) by (auto simp: good_event_def document_stored)
  then have "holds_document sha (event_row_of e eid doc (sha (canonical_json (af_payload e)))) (af_payload e)"
    using assms(2,5) by (simp add: holds_document_def event_row_of_def good_event_def)
  then show ?thesis
    unfolding event_link_def using e assms(2,3)
    by (intro exI [of _ e]) (auto simp: event_row_of_def sim_state_after_def split: if_splits)
qed

lemma advance_trade_Inr:
  "advance_trade e eid v db = Inr db1 \<Longrightarrow>
    db1 = db\<lparr>sj_trades := update_where (\<lambda>r. tr_trade_id r = ev_trade_id e \<and> tr_version r = v) (advanced_trade e eid) (sj_trades db)\<rparr>"
  by (auto simp: advance_trade_def Let_def split: if_splits)

lemma sim_trade_at_Some:
  "sim_trade_at t db = Some r \<Longrightarrow> r \<in> set (sj_trades db) \<and> tr_trade_id r = t"
  by (auto simp: sim_trade_at_def dest: select_one_SomeD)

lemma event_journal_ok:
  assumes E: "good_event J e" "ev_event_id e = Some eid" and t: "sim_trade_at (ev_trade_id e) db = Some t"
    and "event_follows e t = Inr ()" and adv: "advance_trade e eid (tr_version t) db = Inr db1"
    and "json_finite (af_payload e)" "stored_canonical (af_payload e) = Inr doc"
    and ins: "insert_event (event_row_of e eid doc (sha (canonical_json (af_payload e)))) db1 = Inr db'"
    and ok: "sim_journal_ok sha J (sj_trades db) (sj_events db)"
  shows "sim_journal_ok sha J (sj_trades db') (sj_events db')"
proof -
  let ?row = "event_row_of e eid doc (sha (canonical_json (af_payload e)))"
  let ?P = "\<lambda>r. tr_trade_id r = ev_trade_id e \<and> tr_version r = tr_version t"
  have t': "t \<in> set (sj_trades db)" "tr_trade_id t = ev_trade_id e" using sim_trade_at_Some [OF t] by simp_all
  have trades: "sj_trades db' = update_where ?P (advanced_trade e eid) (sj_trades db)"
    and rows: "sj_events db' = sj_events db @ [?row]"
    using advance_trade_Inr [OF adv] ins by (auto simp: insert_event_def returned insert_row_def)
  have u: "unique_by tr_trade_id (sj_trades db)" using ok by (simp add: sim_journal_ok_def)
  have row: "er_trade_id ?row = ev_trade_id e" by (simp add: event_row_of_def)
  have "trade_ok sha J (sj_events db) t" using ok t' by (simp add: sim_journal_ok_def)
  note link = event_follows_link [OF assms(4) E t'(2) [symmetric] assms(6,7) this]
  have "trade_ok sha J (sj_events db') r'" if "r' \<in> set (sj_trades db')" for r'
  proof -
    from that obtain r where r: "r \<in> set (sj_trades db)" "r' = (if ?P r then advanced_trade e eid r else r)"
      by (auto simp: trades set_update_where)
    have r_ok: "trade_ok sha J (sj_events db) r" using ok r(1) by (simp add: sim_journal_ok_def)
    show ?thesis
    proof (cases "tr_trade_id r = ev_trade_id e")
      case True
      then have "r = t" using unique_by_eq [OF u r(1) t'(1)] t'(2) by simp
      then have r': "r' = advanced_trade e eid t" using r(2) t'(2) by simp
      show ?thesis
        using r_ok link True
        by (simp add: r' \<open>r = t\<close> trade_ok_def Let_def rows events_in_snoc row t'(2) grown_snoc sim_state_after_def)
          (simp add: advanced_trade_def event_row_of_def)
    next
      case False
      then have "r' = r" using r(2) by simp
      with r_ok False row show ?thesis by (simp add: trade_ok_def rows events_in_snoc)
    qed
  qed
  moreover have "unique_by tr_trade_id (sj_trades db')" using u by (simp add: trades unique_by_update)
  moreover have "er_trade_id ` set (sj_events db') \<subseteq> tr_trade_id ` set (sj_trades db')"
    using ok row imageI [OF t'(1), of tr_trade_id] t'(2) by (auto simp: sim_journal_ok_def trades rows keys_update_where)
  ultimately show ?thesis by (simp add: sim_journal_ok_def)
qed

lemma new_trade_journal_ok:
  assumes T: "good_trade J t" "trade_lineage t = Some (ids, symbol, side)" "json_finite (af_payload t)"
      "stored_canonical (af_payload t) = Inr doc"
    and ins: "insert_sim_trade (pending_trade ids symbol side at doc (sha (canonical_json (af_payload t)))) db = Inr db'"
    and ok: "sim_journal_ok sha J (sj_trades db) (sj_events db)"
  shows "sim_journal_ok sha J (sj_trades db') (sj_events db')"
proof -
  obtain tid sid aid intent where ids: "ids = (tid, sid, aid, intent)" by (cases ids)
  let ?row = "pending_trade (tid, sid, aid, intent) symbol side at doc (sha (canonical_json (af_payload t)))"
  have db': "sj_trades db' = insert_row ?row (sj_trades db)" "sj_events db' = sj_events db"
    and new: "tid \<notin> tr_trade_id ` set (sj_trades db)" and hex: "sha256_hex tid"
    using ins by (auto simp: ids insert_sim_trade_def returned list_ex_iff sim_trade_check_def)
  then have "events_in tid (sj_events db) = []"
    using ok by (auto simp: sim_journal_ok_def events_in_def filter_empty_conv)
  then have "trade_ok sha J (sj_events db) ?row" using T hex by (intro new_trade_ok) (simp_all add: ids)
  with ok new show ?thesis by (auto simp: sim_journal_ok_def db')
qed

lemma other_tables:
  "upsert_liquidity q db = Inr db' \<Longrightarrow> sj_trades db' = sj_trades db \<and> sj_events db' = sj_events db"
  "mark_completed cid now db = Inr db' \<Longrightarrow> sj_trades db' = sj_trades db \<and> sj_events db' = sj_events db"
  by (auto simp: upsert_liquidity_def mark_completed_def Let_def split: if_splits)

lemma change_journal_ok:
  assumes "sim_change sha M (\<lambda>_. True) (good_event J) (good_trade J) db db'" and "sim_journal_ok sha J (sj_trades db) (sj_events db)"
  shows "sim_journal_ok sha J (sj_trades db') (sj_events db')"
  using assms(1)
proof cases
  case (event e eid t db1 doc)
  show ?thesis by (rule event_journal_ok [OF event assms(2)])
next
  case (trade t ids symbol side doc created_at)
  show ?thesis by (rule new_trade_journal_ok [OF trade assms(2)])
next
  case (liquidity r)
  then show ?thesis using assms(2) other_tables by metis
next
  case (marked cid now)
  then show ?thesis using assms(2) other_tables by metis
qed (use assms(2) in \<open>auto simp: insert_defs returned close_session_def\<close>)

interpretation journal: invariant_system "journal_step sha M J" "hands_in (good_event J) (good_trade J)"
  "\<lambda>db. sim_journal_ok sha J (sj_trades db) (sj_events db)" for sha M J
proof
  fix op and s :: sim_db
  assume "hands_in (good_event J) (good_trade J) op" and "sim_journal_ok sha J (sj_trades s) (sj_events s)"
  then show "sim_journal_ok sha J (sj_trades (journal_step sha M J op s)) (sj_events (journal_step sha M J op s))"
    by (rule changes_keep [OF journal_step_changes [OF _ decides_any]]) (rule change_journal_ok)
qed

subsection \<open>The verifiers accept what was recorded\<close>

lemma events_in_order:
  assumes "grown (event_link sha J r) [] es"
  shows "sort_key er_seq es = es"
proof -
  have "map er_seq es = map (\<lambda>i. int i + 1) [0..<length es]"
    using assms by (induction es rule: rev_induct) (auto simp: grown_snoc event_link_def)
  then have "sorted_wrt (<) (map er_seq es)" by (simp add: sorted_wrt_iff_nth_less)
  then show ?thesis by (intro strictly_sorted_key) (simp add: sorted_wrt_map)
qed

lemma sim_trade_events_in: "sim_trade_events t db = sort_key er_seq (events_in t (sj_events db))"
  by (simp add: sim_trade_events_def events_in_def)

lemma sim_state_after_snoc [simp]: "sim_state_after (xs @ [q]) = er_to q" "sim_state_after [] = SIM_PENDING" "sim_state_after [q] = er_to q"
    "last_opt [q] = Some q"
  by (simp_all add: sim_state_after_def last_opt_def)

lemma event_linkE:
  assumes "event_link sha J r xs q"
  obtains e where "stored_model sha (decode_sim_event J) entity (sp_payload q) (sp_sha256 q) = Inr e"
    "event_of_row e r" "ev_event_id e = Some (er_event_id q)" "er_sha256 q = er_event_id q" "ev_seq e = er_seq q"
    "ev_to e = er_to q" "er_seq q = int (length xs) + 1" "ev_previous e = map_option er_event_id (last_opt xs)"
    "ev_from e = (if xs = [] then None else Some (sim_state_after xs))" "xs = [] \<longrightarrow> er_to q = SIM_PENDING"
proof -
  obtain e where e: "good_event J e" "holds_document sha q (af_payload e)" "event_of_row e r"
      "ev_event_id e = Some (er_event_id q)" "er_sha256 q = er_event_id q" "ev_seq e = er_seq q" "ev_to e = er_to q"
      "er_seq q = int (length xs) + 1" "ev_previous e = map_option er_event_id (last_opt xs)"
      "if xs = [] then ev_from e = None \<and> ev_to e = SIM_PENDING else ev_from e = Some (sim_state_after xs)"
    using assms unfolding event_link_def by blast
  have "stored_model sha (decode_sim_event J) entity (sp_payload q) (sp_sha256 q) = Inr e"
    using e(1,2) by (auto simp: good_event_def intro: holds_model)
  from that [OF this e(3-9)] e(7,10) show thesis by (cases "xs = []") simp_all
qed

lemma verify_sim_trade_events_linked:
  assumes "grown (event_link sha J r) xs es"
  shows "verify_sim_trade_events sha J (tr_trade_id r) (tr_session_id r) (int (length xs) + 1)
    (map_option er_event_id (last_opt xs)) (sim_state_after xs) es =
    Inr (Some (int (length (xs @ es)) + 1, map_option er_event_id (last_opt (xs @ es)), sim_state_after (xs @ es)))"
  using assms
proof (induction es arbitrary: xs)
  case (Cons q es)
  then have "event_link sha J r xs q" by simp
  then obtain e where m: "stored_model sha (decode_sim_event J) ''simulation trade event'' (sp_payload q) (sp_sha256 q) = Inr e"
    and e: "event_of_row e r" "ev_event_id e = Some (er_event_id q)" "er_sha256 q = er_event_id q" "ev_seq e = er_seq q"
      "ev_to e = er_to q" "er_seq q = int (length xs) + 1" "ev_previous e = map_option er_event_id (last_opt xs)"
      "ev_from e = (if xs = [] then None else Some (sim_state_after xs))" "xs = [] \<longrightarrow> er_to q = SIM_PENDING"
    by (rule event_linkE)
  have "verify_sim_trade_events sha J (tr_trade_id r) (tr_session_id r) (int (length xs) + 1)
      (map_option er_event_id (last_opt xs)) (sim_state_after xs) (q # es) =
    verify_sim_trade_events sha J (tr_trade_id r) (tr_session_id r) (int (length (xs @ [q])) + 1)
      (map_option er_event_id (last_opt (xs @ [q]))) (sim_state_after (xs @ [q])) es"
    using e by (cases "xs = []") (simp_all add: m event_of_row_def add.commute)
  with Cons.IH [of "xs @ [q]"] Cons.prems show ?case by simp
qed simp

lemma materialize_events_linked:
  assumes "grown (event_link sha J r) xs es" and "trade_matches_row t r"
  shows "\<exists>evs. materialize_events sha J t (int (length xs) + 1) (map_option er_event_id (last_opt xs)) (sim_state_after xs) es =
      Inr (int (length (xs @ es)) + 1, map_option er_event_id (last_opt (xs @ es)), sim_state_after (xs @ es), evs) \<and>
    map ev_event_id evs = map (Some \<circ> er_event_id) es"
  using assms(1)
proof (induction es arbitrary: xs)
  case (Cons q es)
  then have "event_link sha J r xs q" by simp
  then obtain e where m: "stored_model sha (decode_sim_event J) ''simulation trade event'' (sp_payload q) (sp_sha256 q) = Inr e"
    and e: "event_of_row e r" "ev_event_id e = Some (er_event_id q)" "er_sha256 q = er_event_id q" "ev_seq e = er_seq q"
      "ev_to e = er_to q" "er_seq q = int (length xs) + 1" "ev_previous e = map_option er_event_id (last_opt xs)"
      "ev_from e = (if xs = [] then None else Some (sim_state_after xs))" "xs = [] \<longrightarrow> er_to q = SIM_PENDING"
    by (rule event_linkE)
  have of: "event_of_trade e t" using e(1) assms(2) by (simp add: event_of_trade_def event_of_row_def trade_matches_row_def)
  obtain evs where "materialize_events sha J t (int (length (xs @ [q])) + 1)
      (map_option er_event_id (last_opt (xs @ [q]))) (sim_state_after (xs @ [q])) es =
      Inr (int (length ((xs @ [q]) @ es)) + 1, map_option er_event_id (last_opt ((xs @ [q]) @ es)), sim_state_after ((xs @ [q]) @ es), evs)"
    and "map ev_event_id evs = map (Some \<circ> er_event_id) es"
    using Cons.IH [of "xs @ [q]"] Cons.prems by auto
  with e(2-) show ?case
    by (intro exI [of _ "e # evs"]) (cases "xs = []"; simp add: m of add.commute)
qed simp

lemma journal_verifies:
  assumes "sim_journal_ok sha J (sj_trades db) (sj_events db)" and "r \<in> set (sj_trades db)"
  shows "verify_sim_trade_chain sha J (tr_trade_id r) db = Inr True"
    and "\<exists>j. load_trade_journal sha J (tr_trade_id r) db = Inr (Some j) \<and> tj_state j = tr_state r \<and>
      map ev_event_id (tj_events j) = map (Some \<circ> er_event_id) (sim_trade_events (tr_trade_id r) db)"
proof -
  let ?es = "events_in (tr_trade_id r) (sj_events db)"
  have ok: "trade_ok sha J (sj_events db) r" and u: "unique_by tr_trade_id (sj_trades db)"
    using assms by (simp_all add: sim_journal_ok_def)
  then have g: "grown (event_link sha J r) [] ?es" by (simp add: trade_ok_def Let_def)
  have at: "sim_trade_at (tr_trade_id r) db = Some r"
    unfolding sim_trade_at_def using u assms(2) by (rule select_one_unique)
  have es: "sim_trade_events (tr_trade_id r) db = ?es" by (simp add: sim_trade_events_in events_in_order [OF g])
  have hex: "validate_sha256 ''trade_id'' (tr_trade_id r) = Inr ()"
    using ok by (simp add: trade_ok_def Let_def validate_sha256_def)
  show "verify_sim_trade_chain sha J (tr_trade_id r) db = Inr True"
    using verify_sim_trade_events_linked [OF g] ok
    by (simp add: verify_sim_trade_chain_def hex at es trade_ok_def Let_def)
  obtain t where t: "good_trade J t" "holds_document sha r (af_payload t)" "trade_matches_row t r"
    using ok by (auto simp: trade_ok_def Let_def)
  then have m: "stored_model sha (decode_sim_trade J) ''simulation trade'' (sp_payload r) (sp_sha256 r) = Inr t"
    by (auto simp: good_trade_def intro: holds_model)
  obtain evs where evs: "materialize_events sha J t 1 None SIM_PENDING ?es =
      Inr (int (length ?es) + 1, map_option er_event_id (last_opt ?es), sim_state_after ?es, evs)"
    "map ev_event_id evs = map (Some \<circ> er_event_id) ?es"
    using materialize_events_linked [OF g t(3)] by auto
  have "length evs = length ?es" using arg_cong [OF evs(2), of length] by simp
  then show "\<exists>j. load_trade_journal sha J (tr_trade_id r) db = Inr (Some j) \<and> tj_state j = tr_state r \<and>
      map ev_event_id (tj_events j) = map (Some \<circ> er_event_id) (sim_trade_events (tr_trade_id r) db)"
    using ok evs t(3)
    by (simp add: load_trade_journal_def hex at es materialize_trade_journal_def m trade_ok_def Let_def)
qed

subsection \<open>What a trade rests on\<close>

definition same_session :: "sim_session_row \<Rightarrow> sim_session_row \<Rightarrow> bool" where
  "same_session s s' \<longleftrightarrow> sr_session_id s' = sr_session_id s \<and> sr_tape_id s' = sr_tape_id s \<and>
     sr_tape_sha256 s' = sr_tape_sha256 s \<and> sp_sha256 s' = sp_sha256 s"

definition same_trade :: "sim_trade_row \<Rightarrow> sim_trade_row \<Rightarrow> bool" where
  "same_trade r r' \<longleftrightarrow> tr_trade_id r' = tr_trade_id r \<and> tr_session_id r' = tr_session_id r \<and>
     tr_admission_id r' = tr_admission_id r"

text \<open>Journals only grow, and no recorded fact is rewritten.\<close>

definition sim_le :: "sim_db \<Rightarrow> sim_db \<Rightarrow> bool" where
  "sim_le a b \<longleftrightarrow> (\<forall>t. tape_kept t (sj_tape a) (sj_tape b)) \<and> table_le same_session (sj_sessions a) (sj_sessions b) \<and>
     table_le same_trade (sj_trades a) (sj_trades b) \<and> prefix (sj_decisions a) (sj_decisions b) \<and>
     prefix (sj_admissions a) (sj_admissions b) \<and> prefix (sj_events a) (sj_events b) \<and>
     prefix (sj_receipts a) (sj_receipts b) \<and> prefix (sj_results a) (sj_results b) \<and>
     prefix (sj_session_receipts a) (sj_session_receipts b)"

lemma same_rules: "same_session s s" "same_trade r r"
    "same_session s s' \<Longrightarrow> same_session s' s'' \<Longrightarrow> same_session s s''"
    "same_trade r r' \<Longrightarrow> same_trade r' r'' \<Longrightarrow> same_trade r r''"
  by (simp_all add: same_session_def same_trade_def)

lemma sim_le_refl: "sim_le a a"
  by (simp add: sim_le_def tape_kept_refl table_le_refl same_rules)

lemma sim_le_trans:
  assumes "sim_le a b" and "sim_le b c"
  shows "sim_le a c"
proof -
  note parts = assms [unfolded sim_le_def]
  have "table_le same_session (sj_sessions a) (sj_sessions c)" "table_le same_trade (sj_trades a) (sj_trades c)"
    using parts by (blast intro: table_le_trans [where le = same_session] table_le_trans [where le = same_trade] same_rules)+
  moreover have "\<forall>t. tape_kept t (sj_tape a) (sj_tape c)" using parts tape_kept_trans by blast
  ultimately show ?thesis using parts by (auto simp: sim_le_def intro: prefix_order.trans)
qed

lemma tape_kept_published [simp]: "tape_kept t T (T\<lparr>tdb_audit := a, tdb_outbox := x\<rparr>)"
  by (auto simp: tape_kept_def same_rows_def tape_bars_def frames_of_def tape_at_def)

lemmas le_rules = tape_kept_refl table_le_refl table_le_insert same_rules

lemma insert_le:
  "insert_sim_session r1 db = Inr db' \<Longrightarrow> sim_le db db'" "insert_decision r2 db = Inr db' \<Longrightarrow> sim_le db db'"
  "insert_sim_admission r3 db = Inr db' \<Longrightarrow> sim_le db db'" "insert_sim_trade r4 db = Inr db' \<Longrightarrow> sim_le db db'"
  "insert_event r5 db = Inr db' \<Longrightarrow> sim_le db db'" "insert_sim_command r6 db = Inr db' \<Longrightarrow> sim_le db db'"
  "insert_command_receipt r7 db = Inr db' \<Longrightarrow> sim_le db db'" "insert_result r8 db = Inr db' \<Longrightarrow> sim_le db db'"
  "insert_session_receipt r9 db = Inr db' \<Longrightarrow> sim_le db db'"
  by (auto simp: insert_defs returned sim_le_def le_rules) (simp_all add: insert_row_def)

lemma advance_le: "advance_trade e eid v db = Inr db1 \<Longrightarrow> sim_le db db1"
  by (auto dest!: advance_trade_Inr simp: sim_le_def le_rules
      intro!: table_le_update simp: same_trade_def advanced_trade_def)

lemma upsert_le: "upsert_liquidity q db = Inr db' \<Longrightarrow> sim_le db db'"
  by (auto simp: upsert_liquidity_def Let_def sim_le_def le_rules split: if_splits)

lemma marked_le: "mark_completed cid now db = Inr db' \<Longrightarrow> sim_le db db'"
  by (auto simp: mark_completed_def Let_def sim_le_def le_rules)

lemma closed_le: "sim_le db (close_session sid receipt_state db)"
  by (auto simp: close_session_def sim_le_def le_rules intro!: table_le_update simp: same_session_def)

lemma change_le:
  assumes "sim_change sha M D E T db db'"
  shows "sim_le db db'"
  using assms
proof cases
  case (published a x)
  then show ?thesis by (simp add: sim_le_def le_rules)
next
  case (input op)
  then show ?thesis by (simp add: sim_le_def le_rules tape_step_kept)
next
  case (event e eid t db1 doc)
  then show ?thesis using advance_le insert_le(5) sim_le_trans by blast
qed (auto intro: insert_le upsert_le marked_le closed_le)

lemma changes_le: "sim_changes sha M D E T db db' \<Longrightarrow> sim_le db db'"
  by (rule changes_relate) (auto intro: sim_le_refl change_le sim_le_trans)

text \<open>
  The inputs of a decision: the bars its intent names are bars of its tape, and the book frame it selected is a frame of
  the tape that is equal to the stored one, as \<open>_assert_exact_book_frame\<close> compares them.
\<close>

definition inputs_on_tape :: "(string \<Rightarrow> string) \<Rightarrow> tape_models \<Rightarrow> tape_db \<Rightarrow> sim_decision \<Rightarrow> bool" where
  "inputs_on_tape sha M T d \<longleftrightarrow> (let tape = sn_tape_id (dc_session d) in
     set (it_input_bars (dc_intent d)) \<subseteq> br_sha256 ` set (tape_bars tape T) \<and>
     (\<forall>f. dc_book_frame d = Some f \<longrightarrow> (\<exists>q\<in>set (frames_of tape T). Some (fr_sha256 q) = mf_sha256 f \<and>
        assert_exact_book_frame sha M q f ''simulation risk decision book frame'' = Inr ())))"

text \<open>A row is that of a decision handed in: its identity and the fingerprint of its document.\<close>

definition row_of_decision :: "(string \<Rightarrow> string) \<Rightarrow> sim_decision \<Rightarrow> decision_row \<Rightarrow> bool" where
  "row_of_decision sha d r \<longleftrightarrow> dc_decision_id d = Some (dr_decision_id r) \<and> sp_sha256 r = sha (canonical_json (af_payload d))"

text \<open>The session a decision was made in is the stored one, by its fingerprint.\<close>

definition in_session :: "(string \<Rightarrow> string) \<Rightarrow> sim_session_row list \<Rightarrow> sim_decision \<Rightarrow> decision_row \<Rightarrow> bool" where
  "in_session sha sessions d r \<longleftrightarrow> (\<exists>s\<in>set sessions. sr_session_id s = dr_session_id r \<and>
     sp_sha256 s = sha (canonical_json (af_dump (dc_session d))))"

definition decision_grounded ::
  "(string \<Rightarrow> string) \<Rightarrow> tape_models \<Rightarrow> (sim_decision \<Rightarrow> bool) \<Rightarrow> sim_db \<Rightarrow> decision_row \<Rightarrow> bool" where
  "decision_grounded sha M D db r \<longleftrightarrow> (\<exists>d. D d \<and> row_of_decision sha d r \<and> inputs_on_tape sha M (sj_tape db) d \<and>
     in_session sha (sj_sessions db) d r)"

definition rests_on_tape :: "tape_db \<Rightarrow> sim_session_row \<Rightarrow> bool" where
  "rests_on_tape T s \<longleftrightarrow> (\<exists>t. tape_at (sr_tape_id s) T = Some t \<and> tp_state t = TAPE_SEALED \<and>
     digest_text (tp_tape_sha256 t) = sr_tape_sha256 s)"

definition sim_lineage_ok :: "(string \<Rightarrow> string) \<Rightarrow> tape_models \<Rightarrow> (sim_decision \<Rightarrow> bool) \<Rightarrow> sim_db \<Rightarrow> bool" where
  "sim_lineage_ok sha M D db \<longleftrightarrow>
     (\<forall>r\<in>set (sj_trades db). \<exists>a\<in>set (sj_admissions db). ar_admission_id a = tr_admission_id r \<and> ar_session_id a = tr_session_id r) \<and>
     (\<forall>a\<in>set (sj_admissions db). \<exists>d\<in>set (sj_decisions db). dr_decision_id d = ar_decision_id a \<and> dr_session_id d = ar_session_id a) \<and>
     (\<forall>d\<in>set (sj_decisions db). decision_grounded sha M D db d) \<and>
     (\<forall>s\<in>set (sj_sessions db). rests_on_tape (sj_tape db) s)"

lemma inputs_on_tape_mono:
  assumes "inputs_on_tape sha M T d" and "\<forall>t. tape_kept t T T'"
  shows "inputs_on_tape sha M T' d"
proof -
  have s: "set (tape_bars t T) \<subseteq> set (tape_bars t T')" "set (frames_of t T) \<subseteq> set (frames_of t T')" for t
    using assms(2) by (simp_all add: tape_kept_def set_mono_prefix)
  have "br_sha256 ` set (tape_bars t T) \<subseteq> br_sha256 ` set (tape_bars t T')" for t using s(1) by (rule image_mono)
  then show ?thesis using assms(1) s(2) unfolding inputs_on_tape_def Let_def by blast
qed

lemma grounded_mono:
  assumes "decision_grounded sha M D db r" and "sim_le db db'"
  shows "decision_grounded sha M D db' r"
proof -
  have "in_session sha (sj_sessions db') d r" if "in_session sha (sj_sessions db) d r" for d
    using that assms(2) unfolding sim_le_def table_le_def same_session_def in_session_def by metis
  then show ?thesis
    using assms inputs_on_tape_mono unfolding decision_grounded_def sim_le_def by blast
qed

lemma rests_on_tape_mono: "rests_on_tape T s \<Longrightarrow> \<forall>t. tape_kept t T T' \<Longrightarrow> rests_on_tape T' s"
  unfolding rests_on_tape_def tape_kept_def by (metis tape_state.distinct(1))

lemma rests_on_tape_same: "rests_on_tape T s \<Longrightarrow> same_session s s' \<Longrightarrow> rests_on_tape T s'"
  by (simp add: rests_on_tape_def same_session_def)

text \<open>A change that grows the tables keeps the lineage if the rows it adds have theirs.\<close>

lemma lineage_grow:
  assumes ok: "sim_lineage_ok sha M D db" and le: "sim_le db db'"
    and trades: "\<And>r. r \<in> set (sj_trades db') \<Longrightarrow> (\<exists>q\<in>set (sj_trades db). same_trade q r) \<or>
      (\<exists>a\<in>set (sj_admissions db). ar_admission_id a = tr_admission_id r \<and> ar_session_id a = tr_session_id r)"
    and admissions: "\<And>a. a \<in> set (sj_admissions db') \<Longrightarrow> a \<in> set (sj_admissions db) \<or>
      (\<exists>d\<in>set (sj_decisions db). dr_decision_id d = ar_decision_id a \<and> dr_session_id d = ar_session_id a)"
    and decisions: "\<And>d. d \<in> set (sj_decisions db') \<Longrightarrow> d \<in> set (sj_decisions db) \<or> decision_grounded sha M D db d"
    and sessions: "\<And>s. s \<in> set (sj_sessions db') \<Longrightarrow> (\<exists>q\<in>set (sj_sessions db). same_session q s) \<or> rests_on_tape (sj_tape db) s"
  shows "sim_lineage_ok sha M D db'"
  unfolding sim_lineage_ok_def
proof (intro conjI ballI)
  fix r assume "r \<in> set (sj_trades db')"
  then have "\<exists>a\<in>set (sj_admissions db). ar_admission_id a = tr_admission_id r \<and> ar_session_id a = tr_session_id r"
    using trades ok unfolding sim_lineage_ok_def same_trade_def by metis
  then show "\<exists>a\<in>set (sj_admissions db'). ar_admission_id a = tr_admission_id r \<and> ar_session_id a = tr_session_id r"
    using le set_mono_prefix unfolding sim_le_def by blast
next
  fix a assume "a \<in> set (sj_admissions db')"
  then have "\<exists>d\<in>set (sj_decisions db). dr_decision_id d = ar_decision_id a \<and> dr_session_id d = ar_session_id a"
    using admissions ok unfolding sim_lineage_ok_def by blast
  then show "\<exists>d\<in>set (sj_decisions db'). dr_decision_id d = ar_decision_id a \<and> dr_session_id d = ar_session_id a"
    using le set_mono_prefix unfolding sim_le_def by blast
next
  fix d assume "d \<in> set (sj_decisions db')"
  then have "decision_grounded sha M D db d"
    using decisions ok unfolding sim_lineage_ok_def by blast
  then show "decision_grounded sha M D db' d" using le by (rule grounded_mono)
next
  fix s assume "s \<in> set (sj_sessions db')"
  then have "rests_on_tape (sj_tape db) s"
    using sessions ok rests_on_tape_same unfolding sim_lineage_ok_def by blast
  then show "rests_on_tape (sj_tape db') s" using le by (auto simp: sim_le_def intro: rests_on_tape_mono)
qed

lemma recorded_inputs:
  assumes "decision_inputs_recorded sha M d db = Inr ()"
  shows "inputs_on_tape sha M (sj_tape db) d"
proof -
  let ?tape = "sn_tape_id (dc_session d)"
  have "set (stored_inputs ?tape (it_input_bars (dc_intent d)) db) = set (it_input_bars (dc_intent d))"
    using assms by (auto simp: decision_inputs_recorded_def Let_def split: if_splits)
  then have "set (it_input_bars (dc_intent d)) \<subseteq> br_sha256 ` set (tape_bars ?tape (sj_tape db))"
    by (auto simp: stored_inputs_def tape_bars_def)
  moreover have "\<exists>q\<in>set (frames_of ?tape (sj_tape db)). Some (fr_sha256 q) = mf_sha256 f \<and>
      assert_exact_book_frame sha M q f ''simulation risk decision book frame'' = Inr ()" if f: "dc_book_frame d = Some f" for f
  proof -
    obtain q where "select_one (\<lambda>r. fr_tape_id r = ?tape \<and> Some (fr_sha256 r) = mf_sha256 f) (tdb_frames (sj_tape db)) = Some q"
        and "assert_exact_book_frame sha M q f ''simulation risk decision book frame'' = Inr ()"
      using assms f by (auto simp: decision_inputs_recorded_def Let_def split: if_splits option.splits)
    with select_one_SomeD [OF this(1)] show ?thesis by (auto simp: frames_of_def)
  qed
  ultimately show ?thesis by (simp add: inputs_on_tape_def Let_def)
qed

lemma change_lineage:
  assumes c: "sim_change sha M D E T db db'" and ok: "sim_lineage_ok sha M D db"
  shows "sim_lineage_ok sha M D db'"
proof -
  have grow: "sim_lineage_ok sha M D db'" if "\<And>r. r \<in> set (sj_trades db') \<Longrightarrow> (\<exists>q\<in>set (sj_trades db). same_trade q r) \<or>
      (\<exists>a\<in>set (sj_admissions db). ar_admission_id a = tr_admission_id r \<and> ar_session_id a = tr_session_id r)"
    "\<And>a. a \<in> set (sj_admissions db') \<Longrightarrow> a \<in> set (sj_admissions db) \<or>
      (\<exists>d\<in>set (sj_decisions db). dr_decision_id d = ar_decision_id a \<and> dr_session_id d = ar_session_id a)"
    "\<And>d. d \<in> set (sj_decisions db') \<Longrightarrow> d \<in> set (sj_decisions db) \<or> decision_grounded sha M D db d"
    "\<And>s. s \<in> set (sj_sessions db') \<Longrightarrow> (\<exists>q\<in>set (sj_sessions db). same_session q s) \<or> rests_on_tape (sj_tape db) s"
    using lineage_grow [OF ok change_le [OF c]] that by blast
  have "same_trade q (advanced_trade e eid q)" "same_session s (s\<lparr>sr_state := x\<rparr>)" for q e eid s x
    by (simp_all add: same_trade_def advanced_trade_def same_session_def)
  note same = same_rules(1,2) this
  have in_update: "r \<in> set (update_where P (advanced_trade e eid) l) \<Longrightarrow> \<exists>q\<in>set l. same_trade q r"
    "s \<in> set (update_where Q (sr_state_update f) k) \<Longrightarrow> \<exists>q\<in>set k. same_session q s" for r P e eid l s Q f k
    unfolding set_update_where by (metis same) (auto simp: same_session_def)
  show ?thesis
    using c
  proof cases
    case (session s sid assumptions doc digest)
    then have "rests_on_tape (sj_tape db) (session_row_of s sid assumptions doc digest)"
      by (auto simp: exact_sealed_tape_def rests_on_tape_def session_row_of_def split: option.splits)
    with session(2) show ?thesis by (intro grow) (auto simp: insert_sim_session_def returned intro: same)
  next
    case (decision d did sid s entity intent review doc)
    let ?row = "decision_row_of d did sid intent review doc (sha (canonical_json (af_payload d)))"
    have "sp_sha256 s = sha (canonical_json (af_dump (dc_session d)))"
      using decision(4) by (auto simp: assert_exact_model_def model_payload_def same_payload_def assert_payload_identity_def
          returned canonical_fst split: if_splits)
    with decision(3) have "in_session sha (sj_sessions db) d ?row"
      by (auto simp: in_session_def sim_session_at_def decision_row_of_def dest: select_one_SomeD)
    moreover have "row_of_decision sha d ?row" using decision(2) by (simp add: row_of_decision_def decision_row_of_def)
    ultimately have "decision_grounded sha M D db ?row"
      using decision(1) recorded_inputs [OF decision(5)] unfolding decision_grounded_def by blast
    with decision(6) show ?thesis
      by (intro grow) (auto simp: insert_decision_def returned intro: same)
  next
    case (admission r)
    then show ?thesis by (intro grow) (auto simp: insert_sim_admission_def returned list_ex_iff intro: same)
  next
    case (trade t ids symbol side doc created_at)
    let ?row = "pending_trade ids symbol side created_at doc (sha (canonical_json (af_payload t)))"
    have "\<exists>a\<in>set (sj_admissions db). ar_admission_id a = tr_admission_id ?row \<and> ar_session_id a = tr_session_id ?row"
        "db' = db\<lparr>sj_trades := insert_row ?row (sj_trades db)\<rparr>"
      using trade(5) by (auto simp: insert_sim_trade_def returned list_ex_iff)
    then show ?thesis by (intro grow) (auto intro: same)
  next
    case (event e eid t db1 doc)
    from event(8) have "sj_trades db' = sj_trades db1 \<and> sj_admissions db' = sj_admissions db1 \<and>
        sj_decisions db' = sj_decisions db1 \<and> sj_sessions db' = sj_sessions db1"
      by (auto simp: insert_event_def returned)
    with advance_trade_Inr [OF event(5)] show ?thesis
      by (intro grow) (auto dest: in_update intro: same)
  next
    case (liquidity r)
    then show ?thesis by (intro grow) (auto simp: upsert_liquidity_def Let_def split: if_splits intro: same)
  next
    case (marked cid now)
    then show ?thesis by (intro grow) (auto simp: mark_completed_def Let_def intro: same)
  next
    case (closed sid receipt_state)
    then show ?thesis by (intro grow) (auto simp: close_session_def dest: in_update intro: same)
  qed (intro grow; auto simp: insert_defs returned intro: same)+
qed

text \<open>The three terminal facts: a receipt for a command, a result for a trade, a receipt for a session.\<close>

definition terminal_ok :: "sim_db \<Rightarrow> bool" where
  "terminal_ok db \<longleftrightarrow> unique_by rr_command_id (sj_receipts db) \<and> unique_by xr_trade_id (sj_results db) \<and>
     unique_by yr_session_id (sj_session_receipts db) \<and>
     (\<forall>x\<in>set (sj_results db). xr_final_state x \<in> set terminal_states \<and>
        (\<exists>q\<in>set (sj_events db). er_trade_id q = xr_trade_id x \<and> er_event_id q = xr_terminal_event x \<and> er_to q = xr_final_state x))"

lemma terminal_events_grow:
  "terminal_ok db \<Longrightarrow> sj_receipts db' = sj_receipts db \<Longrightarrow> sj_results db' = sj_results db \<Longrightarrow>
    sj_session_receipts db' = sj_session_receipts db \<Longrightarrow> set (sj_events db) \<subseteq> set (sj_events db') \<Longrightarrow> terminal_ok db'"
  by (simp add: terminal_ok_def) blast

lemma result_terminal_event:
  assumes "result_terminal x db = Inr ()"
  shows "\<exists>q\<in>set (sj_events db). er_trade_id q = rs_trade_id x \<and> er_event_id q = rs_terminal_event x \<and> er_to q = rs_final_state x"
proof -
  obtain q where "select_one (\<lambda>r. er_trade_id r = rs_trade_id x \<and> er_event_id r = rs_terminal_event x) (sj_events db) = Some q"
    and "er_to q = rs_final_state x"
    using assms by (auto simp: result_terminal_def returned split: if_splits)
  with select_one_SomeD [OF this(1)] show ?thesis by blast
qed

lemma change_terminal:
  assumes "sim_change sha M D E T db db'" and ok: "terminal_ok db"
  shows "terminal_ok db'"
  using assms(1)
proof cases
  case (receipt r)
  then have "sj_receipts db' = insert_row r (sj_receipts db)" "sj_results db' = sj_results db" "sj_events db' = sj_events db"
      "sj_session_receipts db' = sj_session_receipts db" "\<forall>q\<in>set (sj_receipts db). rr_command_id q \<noteq> rr_command_id r"
    by (auto simp: insert_command_receipt_def returned list_ex_iff)
  with ok show ?thesis by (simp add: terminal_ok_def) force
next
  case (result x rid doc digest)
  let ?row = "result_row_of x rid doc digest"
  have "sj_receipts db' = sj_receipts db" "sj_results db' = insert_row ?row (sj_results db)" "sj_events db' = sj_events db"
      "sj_session_receipts db' = sj_session_receipts db" "\<forall>q\<in>set (sj_results db). xr_trade_id q \<noteq> xr_trade_id ?row"
      "xr_final_state ?row \<in> set terminal_states"
    using result(2) by (auto simp: insert_result_def returned list_ex_iff result_check_def)
  with ok result_terminal_event [OF result(1)] show ?thesis
    by (simp add: terminal_ok_def result_row_of_def) force
next
  case (session_receipt r)
  then have "sj_receipts db' = sj_receipts db" "sj_results db' = sj_results db" "sj_events db' = sj_events db"
      "sj_session_receipts db' = insert_row r (sj_session_receipts db)"
      "\<forall>q\<in>set (sj_session_receipts db). yr_session_id q \<noteq> yr_session_id r"
    by (auto simp: insert_session_receipt_def returned list_ex_iff)
  with ok show ?thesis by (simp add: terminal_ok_def) force
next
  case (event e eid t db1 doc)
  from event(8) advance_trade_Inr [OF event(5)] show ?thesis
    by (intro terminal_events_grow [OF ok]) (auto simp: insert_event_def returned)
next
  case (liquidity r)
  then show ?thesis by (intro terminal_events_grow [OF ok]) (auto simp: upsert_liquidity_def Let_def split: if_splits)
next
  case (marked cid now)
  then show ?thesis by (intro terminal_events_grow [OF ok]) (auto simp: mark_completed_def Let_def)
qed (intro terminal_events_grow [OF ok]; auto simp: insert_defs returned close_session_def)+

lemma hands_anything: "hands_in (\<lambda>_. True) (\<lambda>_. True) op"
  by (cases op) (simp_all add: list_all_iff)

lemma sim_run_le: "sim_le db (fold (journal_step sha M J) ops db)"
proof (induction ops arbitrary: db)
  case (Cons op ops)
  have "sim_le db (journal_step sha M J op db)" by (rule changes_le [OF journal_step_changes [OF hands_anything decides_any]])
  with Cons.IH show ?case by (auto intro: sim_le_trans)
qed (simp add: sim_le_refl)

interpretation sim_facts: monotone_system "journal_step sha M J" terminal_ok sim_le for sha M J
proof
  fix op and s :: sim_db
  assume "terminal_ok s"
  then show "terminal_ok (journal_step sha M J op s)"
    by (rule changes_keep [OF journal_step_changes [OF hands_anything decides_any]]) (rule change_terminal)
next
  fix op and s :: sim_db
  show "sim_le s (journal_step sha M J op s)"
    by (rule changes_le [OF journal_step_changes [OF hands_anything decides_any]])
qed (auto intro: sim_le_refl sim_le_trans)

interpretation sim_lineage: invariant_system "journal_step sha M J" "decides D" "sim_lineage_ok sha M D" for sha M J D
proof
  fix op and s :: sim_db
  assume "decides D op" and "sim_lineage_ok sha M D s"
  then show "sim_lineage_ok sha M D (journal_step sha M J op s)"
    by (rule changes_keep [OF journal_step_changes [OF hands_anything]]) (rule change_lineage)
qed

subsection \<open>Properties\<close>

definition only_tapes :: "tape_db \<Rightarrow> sim_db" where
  "only_tapes T = \<lparr>sj_tape = T, sj_sessions = [], sj_decisions = [], sj_admissions = [], sj_trades = [], sj_events = [],
     sj_commands = [], sj_receipts = [], sj_liquidity = [], sj_results = [], sj_session_receipts = []\<rparr>"

lemma only_tapes_ok: "terminal_ok (only_tapes T)" "sim_lineage_ok sha M D (only_tapes T)" "sim_journal_ok sha J (sj_trades (only_tapes T)) (sj_events (only_tapes T))"
  by (simp_all add: only_tapes_def sim_lineage_ok_def terminal_ok_def sim_journal_ok_def)

lemma run_facts: "terminal_ok (fold (journal_step sha M J) ops (only_tapes T))"
  by (rule sim_facts.reach_inv [OF only_tapes_ok(1)])

lemma run_journal:
  assumes "list_all (hands_in (good_event J) (good_trade J)) ops" and "db = fold (journal_step sha M J) ops (only_tapes T)"
  shows "sim_journal_ok sha J (sj_trades db) (sj_events db)"
  using journal.run_inv [OF assms(1), of sha "only_tapes T" M] only_tapes_ok(3) by (simp add: assms(2))

text \<open>
  C8. In every run of the simulator's operations whose trades and events are what their contracts read back,
  \<open>verify_trade_chain\<close> answers \<open>True\<close> for each stored trade, and \<open>load_trade_journal\<close> returns its state with the events of
  its journal in order.
\<close>

theorem sim_trades_verify:
  assumes "list_all (hands_in (good_event J) (good_trade J)) ops"
    and "db = fold (journal_step sha M J) ops (only_tapes T)" and "r \<in> set (sj_trades db)"
  shows "verify_sim_trade_chain sha J (tr_trade_id r) db = Inr True \<and>
    (\<exists>j. load_trade_journal sha J (tr_trade_id r) db = Inr (Some j) \<and> tj_state j = tr_state r \<and>
      map ev_event_id (tj_events j) = map (Some \<circ> er_event_id) (sim_trade_events (tr_trade_id r) db))"
  using journal_verifies [OF run_journal [OF assms(1,2)] assms(3)] by blast

text \<open>
  C37. In every run a stored trade rests on an admission of its session, and the admission on a risk decision of the
  session that was handed in during the run: the stored row has the decision's identity and the fingerprint of its
  document, the bars its intent names are recorded on the tape of the session it carries, the book frame it selected, if
  any, is recorded there and equal to the stored one, and that session has the fingerprint of the stored session.
  The stored session runs on a tape that is sealed with the digest the session names. Nothing later takes this away.
\<close>

theorem sim_trade_lineage:
  assumes "db = fold (journal_step sha M J) ops (only_tapes T)" and "r \<in> set (sj_trades db)"
  shows "\<exists>a\<in>set (sj_admissions db). \<exists>q\<in>set (sj_decisions db). \<exists>s\<in>set (sj_sessions db). \<exists>t nid d now.
    ar_admission_id a = tr_admission_id r \<and> ar_session_id a = tr_session_id r \<and>
    dr_decision_id q = ar_decision_id a \<and> dr_session_id q = tr_session_id r \<and>
    DecisionOp nid d now \<in> set ops \<and> row_of_decision sha d q \<and> inputs_on_tape sha M (sj_tape db) d \<and>
    sr_session_id s = tr_session_id r \<and> sp_sha256 s = sha (canonical_json (af_dump (dc_session d))) \<and>
    tape_at (sr_tape_id s) (sj_tape db) = Some t \<and> tp_state t = TAPE_SEALED \<and>
    digest_text (tp_tape_sha256 t) = sr_tape_sha256 s"
proof -
  let ?D = "\<lambda>d. \<exists>nid now. DecisionOp nid d now \<in> set ops"
  have "list_all (decides ?D) ops" by (auto simp: list_all_iff decides_def split: journal_op.splits)
  then have ok: "sim_lineage_ok sha M ?D db"
    unfolding assms(1) by (rule sim_lineage.run_inv [OF _ only_tapes_ok(2)])
  obtain a where a: "a \<in> set (sj_admissions db)" "ar_admission_id a = tr_admission_id r" "ar_session_id a = tr_session_id r"
    using ok assms(2) by (auto simp: sim_lineage_ok_def)
  obtain q where q: "q \<in> set (sj_decisions db)" "dr_decision_id q = ar_decision_id a" "dr_session_id q = tr_session_id r"
    using ok a by (auto simp: sim_lineage_ok_def)
  obtain d nid now where d: "DecisionOp nid d now \<in> set ops" "row_of_decision sha d q" "inputs_on_tape sha M (sj_tape db) d"
      "in_session sha (sj_sessions db) d q"
    using ok q(1) by (auto simp: sim_lineage_ok_def decision_grounded_def)
  obtain s where s: "s \<in> set (sj_sessions db)" "sr_session_id s = tr_session_id r"
      "sp_sha256 s = sha (canonical_json (af_dump (dc_session d)))"
    using d(4) q(3) by (auto simp: in_session_def)
  have "rests_on_tape (sj_tape db) s" using ok s(1) by (simp add: sim_lineage_ok_def)
  with a q d s show ?thesis unfolding rests_on_tape_def by blast
qed

text \<open>
  C38. In every run a command has at most one receipt, a trade at most one result and a session at most one receipt, and a
  result names a terminal state together with an event of the trade's journal that ends in it.
\<close>

theorem sim_terminal_facts:
  assumes "db = fold (journal_step sha M J) ops (only_tapes T)"
  shows "distinct (map rr_command_id (sj_receipts db)) \<and> distinct (map xr_trade_id (sj_results db)) \<and>
    distinct (map yr_session_id (sj_session_receipts db)) \<and>
    (\<forall>x\<in>set (sj_results db). xr_final_state x \<in> set terminal_states \<and>
       (\<exists>q\<in>set (sj_events db). er_trade_id q = xr_trade_id x \<and> er_event_id q = xr_terminal_event x \<and> er_to q = xr_final_state x))"
  using run_facts [of sha M J ops T] assms by (simp add: terminal_ok_def unique_by_def)

lemma complete_command_receipt:
  assumes "complete_command sha J nids c receipt version state events now db = Inr ((x, True), db')"
    and "mc_command_id c = Some cid"
  obtains row doc xid where "receipt_for cid db' = Some row" "row = receipt_row_of receipt xid cid doc (sha (canonical_json (af_payload receipt)))"
    "json_finite (af_payload receipt)" "stored_canonical (af_payload receipt) = Inr doc" "x = receipt"
proof -
  from assms obtain xid q where new: "receipt_for cid db = None" and fin: "json_finite (af_payload receipt)" and x: "x = receipt"
      and wrote: "complete_prepared sha nids cid xid receipt (sha (canonical_json (af_payload receipt))) q events now db = Inr db'"
    by (auto simp: complete_command_def command_lineage_def returned canonical_fst split: option.splits)
  let ?row = "\<lambda>doc. receipt_row_of receipt xid cid doc (sha (canonical_json (af_payload receipt)))"
  from wrote obtain doc db1 state db2 db3 db4 where doc: "stored_canonical (af_payload receipt) = Inr doc"
      and ins: "insert_command_receipt (?row doc) db = Inr db1" and rest: "upsert_liquidity state db1 = Inr db2"
        "complete_events sha nids cid xid events now db2 = Inr db3" "mark_completed cid now db3 = Inr db4"
        "publish_artifact sha (nids 0) ''kairos.simulation.command_receipt.v1'' receipt now db4 = Inr db'"
    by (auto simp: complete_prepared_def returned simp del: stored_canonical_def)
  have "sim_le db2 db3"
    by (rule changes_le [OF complete_events_changes [OF rest(2), of "\<lambda>_. True"]]) (simp add: list_all_iff)
  moreover have "sim_le db4 db'" using rest(4) by (rule change_le [OF publish_change])
  ultimately have "sim_le db1 db'" using upsert_le [OF rest(1)] marked_le [OF rest(3)] sim_le_trans by blast
  then obtain more where "sj_receipts db' = sj_receipts db1 @ more" by (auto simp: sim_le_def prefix_def)
  moreover have "sj_receipts db1 = sj_receipts db @ [?row doc]"
    using ins by (auto simp: insert_command_receipt_def returned insert_row_def)
  ultimately have "receipt_for cid db' = Some (?row doc)"
    using new by (simp add: receipt_for_def select_one_append receipt_row_of_def)
  with doc fin x that show thesis by blast
qed

text \<open>
  C7. Once a completion of a command has been stored, a repetition for the same command in any later state changes
  nothing, consumes no depth and can only return the stored receipt: it never calculates another.
\<close>

theorem completed_command_final:
  assumes first: "complete_command sha J nids c receipt version state events now db = Inr ((x, True), db1)"
    and c: "mc_command_id c = Some cid" "mc_command_id c' = Some cid"
    and contract: "document_ok (af_payload receipt)" "decode_sim_receipt J (sorted_json (af_payload receipt)) = Some receipt"
    and later: "db2 = fold (journal_step sha M J) ops db1"
    and again: "complete_command sha J nids' c' receipt' version' state' events' now' db2 = Inr ((y, b), db3)"
  shows "x = receipt \<and> \<not> b \<and> y = receipt \<and> db3 = db2"
proof -
  obtain row doc xid where row: "receipt_for cid db1 = Some row"
      "row = receipt_row_of receipt xid cid doc (sha (canonical_json (af_payload receipt)))"
      "json_finite (af_payload receipt)" "stored_canonical (af_payload receipt) = Inr doc" "x = receipt"
    using complete_command_receipt [OF first c(1)] .
  have "sim_le db1 db2"
    unfolding later
    by (rule sim_run_le)
  then have at: "receipt_for cid db2 = Some row"
    using row(1) by (auto simp: sim_le_def prefix_def receipt_for_def select_one_append)
  have "doc = sorted_json (af_payload receipt)" using contract(1) row(4) by (rule document_stored)
  then have "stored_model sha (decode_sim_receipt J) ''simulation command receipt'' (sp_payload row) (sp_sha256 row) = Inr receipt"
    using contract row(3) by (simp add: row(2) receipt_row_of_def stored_model_sorted)
  with again at c(2) row(5) show ?thesis
    by (auto simp: complete_command_def command_lineage_def returned split: option.splits)
qed

text \<open>The head of a trade as its stored events give it.\<close>

definition head_of_events :: "sim_db \<Rightarrow> string \<Rightarrow> journal_head" where
  "head_of_events db t = (let es = sim_trade_events t db in
     \<lparr>jh_trade_id = t, jh_state = sim_state_after es, jh_count = int (length es), jh_head = map_option er_event_id (last_opt es)\<rparr>)"

lemma head_of_trade_events:
  assumes "sim_journal_ok sha J (sj_trades db) (sj_events db)" and "r \<in> set (sj_trades db)"
  shows "head_of_trade r = head_of_events db (tr_trade_id r)"
proof -
  have ok: "trade_ok sha J (sj_events db) r" using assms by (simp add: sim_journal_ok_def)
  then have "grown (event_link sha J r) [] (events_in (tr_trade_id r) (sj_events db))" by (simp add: trade_ok_def Let_def)
  from events_in_order [OF this] ok show ?thesis by (simp add: head_of_trade_def head_of_events_def sim_trade_events_in trade_ok_def Let_def)
qed

text \<open>
  C39. A session receipt that is stored states, for the trades of the session in order, the state, the number of events
  and the last event of each journal; one that says COMPLETED has only terminal trades. In every later state it is
  the one receipt of its session.
\<close>

theorem session_receipt_states_journals:
  assumes good: "list_all (hands_in (good_event J) (good_trade J)) ops"
    and db: "db = fold (journal_step sha M J) ops (only_tapes T)"
    and stored: "record_session_receipt sha J nid x now db = Inr (True, db')" and sid: "ss_session_id x = Some sid"
  shows "ss_journals x = map (head_of_events db) (map tr_trade_id (trades_of sid db)) \<and>
    (ss_state x = ''COMPLETED'' \<longrightarrow> (\<forall>h\<in>set (ss_journals x). jh_state h \<in> set terminal_states)) \<and>
    (\<exists>row. Some (yr_receipt_id row) = ss_receipt_id x \<and> sp_sha256 row = sha (canonical_json (af_payload x)) \<and>
       (\<forall>later. filter (\<lambda>r. yr_session_id r = sid) (sj_session_receipts (fold (journal_step sha M J) later db')) = [row]))"
  using stored
proof (cases rule: record_session_receipt_cases)
  case (recorded ids doc db1)
  obtain rid tape tape_sha where ids: "ids = (rid, sid, tape, tape_sha)" "ss_receipt_id x = Some rid"
    using recorded(2) sid by (auto simp: session_receipt_ids_def split: option.splits)
  have heads: "ss_journals x = map head_of_trade (trades_of sid db)"
    and terminal: "ss_state x = ''COMPLETED'' \<longrightarrow> (\<forall>r\<in>set (trades_of sid db). tr_state r \<in> set terminal_states)"
    using recorded(3) by (auto simp: receipt_matches_session_def ids(1) returned Let_def list_ex_iff split: if_splits)
  have "head_of_trade r = head_of_events db (tr_trade_id r)" if "r \<in> set (trades_of sid db)" for r
    using that by (intro head_of_trade_events [OF run_journal [OF good db]]) (simp add: trades_of_def)
  then have "ss_journals x = map (head_of_events db) (map tr_trade_id (trades_of sid db))" using heads by simp
  moreover have "ss_state x = ''COMPLETED'' \<longrightarrow> (\<forall>h\<in>set (ss_journals x). jh_state h \<in> set terminal_states)"
    using heads terminal by (auto simp: head_of_trade_def)
  moreover have "\<exists>row. Some (yr_receipt_id row) = ss_receipt_id x \<and> sp_sha256 row = sha (canonical_json (af_payload x)) \<and>
       (\<forall>later. filter (\<lambda>r. yr_session_id r = sid) (sj_session_receipts (fold (journal_step sha M J) later db')) = [row])"
  proof -
    let ?row = "session_receipt_row_of x ids doc (sha (canonical_json (af_payload x)))"
    have row: "?row \<in> set (sj_session_receipts db')"
      using recorded(4,5) by (auto simp: insert_session_receipt_def publish_artifact_def close_session_def returned)
    have "filter (\<lambda>r. yr_session_id r = sid) (sj_session_receipts (fold (journal_step sha M J) later db')) = [?row]" for later
    proof -
      let ?last = "fold (journal_step sha M J) later db'"
      have "db' = journal_step sha M J (SessionReceiptOp nid x now) db" using stored by simp
      then have "?last = fold (journal_step sha M J) (ops @ SessionReceiptOp nid x now # later) (only_tapes T)" by (simp add: db)
      then have "unique_by yr_session_id (sj_session_receipts ?last)"
        using run_facts [of sha M J "ops @ SessionReceiptOp nid x now # later" T] by (simp only: terminal_ok_def)
      moreover have "?row \<in> set (sj_session_receipts ?last)"
        using row sim_run_le [of db' sha M J later] set_mono_prefix unfolding sim_le_def by blast
      ultimately have "filter (\<lambda>q. yr_session_id q = yr_session_id ?row) (sj_session_receipts ?last) = [?row]"
        by (rule filter_unique)
      then show ?thesis by (simp add: session_receipt_row_of_def ids(1))
    qed
    then show ?thesis by (intro exI [of _ ?row]) (simp add: session_receipt_row_of_def ids)
  qed
  ultimately show ?thesis by blast
qed simp

subsection \<open>A closed session\<close>

lemma close_session_tables [simp]:
  "sj_tape (close_session sid st db) = sj_tape db" "sj_trades (close_session sid st db) = sj_trades db"
  "sj_events (close_session sid st db) = sj_events db" "sj_receipts (close_session sid st db) = sj_receipts db"
  by (simp_all add: close_session_def)

lemma close_session_updates:
  "(close_session sid st db)\<lparr>sj_tape := x\<rparr> = close_session sid st (db\<lparr>sj_tape := x\<rparr>)"
  "(close_session sid st db)\<lparr>sj_trades := t\<rparr> = close_session sid st (db\<lparr>sj_trades := t\<rparr>)"
  "(close_session sid st db)\<lparr>sj_events := e\<rparr> = close_session sid st (db\<lparr>sj_events := e\<rparr>)"
  by (simp_all add: close_session_def)

definition closing_session :: "string \<Rightarrow> string \<Rightarrow> sim_db res \<Rightarrow> sim_db res" where
  "closing_session sid st m = rbind m (\<lambda>db. Inr (close_session sid st db))"

lemma closed_steps:
  "advance_trade e eid v (close_session sid st db) = closing_session sid st (advance_trade e eid v db)"
  "insert_event row (close_session sid st db) = closing_session sid st (insert_event row db)"
  "publish_artifact sha nid topic a now (close_session sid st db) = closing_session sid st (publish_artifact sha nid topic a now db)"
  by (auto simp: advance_trade_def insert_event_def publish_artifact_def closing_session_def Let_def close_session_updates
      rbind_def insert_checked_def split: sum.splits)

lemma rbind_assoc: "rbind (rbind m f) g = rbind m (\<lambda>x. rbind (f x) g)"
  by (cases m) simp_all

text \<open>
  C40. The state that a session receipt gives its session bars no event: in a closed session an event is accepted or refused
  as in an open one, with the same effects, so a journal can go on after the receipt that states its head.
\<close>

theorem closed_session_takes_events:
  "append_sim_trade_event sha nid e now (close_session sid st db) =
    rbind (append_sim_trade_event sha nid e now db) (\<lambda>(b, db'). Inr (b, close_session sid st db'))"
proof -
  have "event_receipt_known e (close_session sid st db) = event_receipt_known e db"
    "sim_trade_at t (close_session sid st db) = sim_trade_at t db" for t
    unfolding event_receipt_known_def sim_trade_at_def close_session_tables by (rule refl)+
  note same = this
  show ?thesis
  proof (cases "ev_event_id e")
    case eid: (Some eid)
    show ?thesis
    proof (cases "canonical_payload sha (af_payload e)")
      case (Inr p)
      obtain encoded digest where p: "p = (encoded, digest)" by (cases p)
      show ?thesis
        unfolding append_sim_trade_event_def append_sim_trade_event_locked_def eid option.case Inr p rbind_Inr prod.case close_session_tables same
        by (cases "select_one (\<lambda>r. er_event_id r = eid) (sj_events db)"; cases "sim_trade_at (ev_trade_id e) db")
          (simp_all add: closed_steps closing_session_def rbind_assoc)
    qed (simp add: append_sim_trade_event_def append_sim_trade_event_locked_def eid)
  qed (simp add: append_sim_trade_event_def append_sim_trade_event_locked_def)
qed

subsection \<open>A concrete run\<close>

definition sim_document :: "string \<Rightarrow> json" where
  "sim_document name = JObj [(''message_id'', JStr name), (''produced_at'', JStr ''2024-01-01T00:00:00+00:00''),
     (''schema_version'', JStr ''1''), (''source'', JStr ''sim'')]"

definition demo_id :: "char \<Rightarrow> string" where
  "demo_id c = replicate 64 c"

text \<open>The bar the decision of the run rests on.\<close>

definition demo_bar :: bar_row where
  "demo_bar = \<lparr>br_tape_id = ''t'', br_symbol = ''BTCUSDT'', br_open_time = 0, br_close_time = 59999, br_sha256 = demo_id (CHR ''d''),
     br_previous = None, br_chain = demo_id (CHR ''e''), br_payload_sha256 = demo_id (CHR ''f''), br_payload = sim_document ''bar''\<rparr>"

definition one_sealed_tape :: tape_db where
  "one_sealed_tape = \<lparr>tdb_tapes = [(open_tape ''t'')\<lparr>tp_state := TAPE_SEALED, tp_sealed_at := Some 1,
       tp_tape_sha256 := Some (demo_id (CHR ''9'')), tp_seal_sha256 := Some (demo_id (CHR ''8'')),
       tp_seal_payload := Some (sim_document ''seal'')\<rparr>], tdb_bars = [demo_bar], tdb_frames = [], tdb_audit = [], tdb_outbox = []\<rparr>"

definition demo_session :: sim_session where
  "demo_session = \<lparr>af_payload = sim_document ''session'', af_dump = sim_document ''session'',
     sn_session_id = Some (demo_id (CHR ''1'')), sn_assumptions = Some (demo_id (CHR ''0'')), sn_tape_id = ''t'',
     sn_tape_sha256 = demo_id (CHR ''9''), sn_started_at = 0, sn_ends_at = 10\<rparr>"

definition demo_intent :: sim_intent where
  "demo_intent = \<lparr>it_symbol = ''BTCUSDT'', it_side = ''LONG'', it_input_bars = [demo_id (CHR ''d'')]\<rparr>"

text \<open>The least positive double.\<close>

definition demo_size :: pyfloat where
  "demo_size = Finite False 1 (- 1022)"

definition demo_decision :: sim_decision where
  "demo_decision = \<lparr>af_payload = sim_document ''decision'', af_dump = sim_document ''decision'',
     dc_decision_id = Some (demo_id (CHR ''2'')), dc_session_id = Some (demo_id (CHR ''1'')),
     dc_intent_id = Some (demo_id (CHR ''3'')), dc_review_id = Some (demo_id (CHR ''4'')), dc_session = demo_session,
     dc_intent = demo_intent, dc_book_frame = None, dc_book_sha256 = None, dc_approved = True, dc_reasons = [],
     dc_quantity = demo_size, dc_price_cap = Some demo_size, dc_decided_at = 1\<rparr>"

definition demo_admission :: sim_admission where
  "demo_admission = \<lparr>af_payload = sim_document ''admission'', af_dump = sim_document ''admission'',
     ad_admission_id = Some (demo_id (CHR ''5'')), ad_decision_id = Some (demo_id (CHR ''2'')),
     ad_session_id = Some (demo_id (CHR ''1'')), ad_intent_sha256 = Some (demo_id (CHR ''3'')),
     ad_review_id = Some (demo_id (CHR ''4'')), ad_book_sha256 = Some (demo_id (CHR ''6'')), ad_decision = demo_decision,
     ad_intent = Some demo_intent, ad_quantity = Some demo_size, ad_price_cap = Some demo_size, ad_admitted_at = 2\<rparr>"

definition demo_trade :: sim_trade where
  "demo_trade = \<lparr>af_payload = sim_document ''trade'', af_dump = sim_document ''trade'',
     mt_trade_id = Some (demo_id (CHR ''7'')), mt_session_id = Some (demo_id (CHR ''1'')),
     mt_admission_id = Some (demo_id (CHR ''5'')), mt_intent_id = Some (demo_id (CHR ''3'')), mt_symbol = Some ''BTCUSDT'',
     mt_side = Some ''LONG'', mt_admission = Some demo_admission, mt_created_at = 3\<rparr>"

definition demo_event :: "string \<Rightarrow> char \<Rightarrow> int \<Rightarrow> string option \<Rightarrow> sim_state option \<Rightarrow> sim_state \<Rightarrow> sim_event" where
  "demo_event name c n previous from to = \<lparr>af_payload = sim_document name, af_dump = sim_document name,
     ev_event_id = Some (demo_id c), ev_trade_id = demo_id (CHR ''7''), ev_session_id = demo_id (CHR ''1''),
     ev_admission_id = demo_id (CHR ''5''), ev_intent_id = demo_id (CHR ''3''), ev_symbol = ''BTCUSDT'', ev_side = ''LONG'',
     ev_seq = n, ev_previous = previous, ev_from = from, ev_to = to, ev_type = ''STATE'', ev_occurred_at = n,
     ev_command_id = None, ev_receipt_id = None\<rparr>"

definition demo_admitted :: sim_event where
  "demo_admitted = demo_event ''admitted'' (CHR ''a'') 1 None None SIM_PENDING"

definition demo_unfilled :: sim_event where
  "demo_unfilled = demo_event ''unfilled'' (CHR ''b'') 2 (Some (demo_id (CHR ''a''))) (Some SIM_PENDING) SIM_NO_FILL"

definition demo_command :: sim_command where
  "demo_command = \<lparr>af_payload = sim_document ''command'', af_dump = sim_document ''command'',
     mc_command_id = Some (demo_id (CHR ''c'')), mc_session_id = Some (demo_id (CHR ''1'')),
     mc_admission_id = Some (demo_id (CHR ''5'')), mc_intent_id = Some (demo_id (CHR ''3'')), mc_trade_id = Some (demo_id (CHR ''7'')),
     mc_symbol = Some ''BTCUSDT'', mc_side = Some ''LONG'', mc_trade = demo_trade, mc_order_side = ''BUY'', mc_kind = ''ENTRY_IOC''\<rparr>"

definition demo_receipt :: sim_receipt where
  "demo_receipt = \<lparr>af_payload = sim_document ''receipt'', af_dump = sim_document ''receipt'',
     mr_receipt_id = Some (demo_id (CHR ''d'')), mr_command_id = Some (demo_id (CHR ''c'')), mr_command = demo_command,
     mr_session_id = demo_id (CHR ''1''), mr_admission_id = demo_id (CHR ''5''), mr_intent_id = demo_id (CHR ''3''),
     mr_trade_id = demo_id (CHR ''7''), mr_status = ''NO_FILL''\<rparr>"

definition demo_result :: sim_result where
  "demo_result = \<lparr>af_payload = sim_document ''result'', af_dump = sim_document ''result'',
     rs_result_id = Some (demo_id (CHR ''e'')), rs_session_id = demo_id (CHR ''1''), rs_admission_id = demo_id (CHR ''5''),
     rs_intent_id = demo_id (CHR ''3''), rs_trade_id = demo_id (CHR ''7''), rs_terminal_event = demo_id (CHR ''b''),
     rs_final_state = SIM_NO_FILL, rs_completed_at = 4\<rparr>"

definition demo_session_receipt :: sim_session_receipt where
  "demo_session_receipt = \<lparr>af_payload = sim_document ''session receipt'', af_dump = sim_document ''session receipt'',
     ss_receipt_id = Some (demo_id (CHR ''f'')), ss_session_id = Some (demo_id (CHR ''1'')), ss_tape_id = Some ''t'',
     ss_tape_sha256 = Some (demo_id (CHR ''9'')), ss_session = demo_session,
     ss_journals = [\<lparr>jh_trade_id = demo_id (CHR ''7''), jh_state = SIM_NO_FILL, jh_count = 2, jh_head = Some (demo_id (CHR ''b''))\<rparr>],
     ss_state = ''COMPLETED'', ss_completed_at = 5\<rparr>"

definition demo_models :: journal_models where
  "demo_models = \<lparr>decode_sim_trade = (\<lambda>j. if j = sim_document ''trade'' then Some demo_trade else None),
     decode_sim_event = (\<lambda>j. if j = sim_document ''admitted'' then Some demo_admitted
       else if j = sim_document ''unfilled'' then Some demo_unfilled else None),
     decode_sim_command = (\<lambda>j. if j = sim_document ''command'' then Some demo_command else None),
     decode_sim_receipt = (\<lambda>j. if j = sim_document ''receipt'' then Some demo_receipt else None),
     valid_head = (\<lambda>h. True)\<rparr>"

definition demo_ops :: "journal_op list" where
  "demo_ops = [SessionOp 1 demo_session 1, DecisionOp 2 demo_decision 2, AdmissionOp 3 demo_admission 3,
     TradeOp 4 demo_trade 4, EventOp 5 demo_admitted 5, EventOp 6 demo_unfilled 6, ResultOp 7 demo_result 7]"

definition demo_state :: "(string \<times> json) list" where
  "demo_state = [(''session_id'', JStr (demo_id (CHR ''1''))), (''symbol'', JStr ''BTCUSDT'')]"

definition demo_db :: sim_db where
  "demo_db = fold (journal_step sample_sha sample_tape_models demo_models) demo_ops (only_tapes one_sealed_tape)"

text \<open>A command that is prepared.\<close>

definition prepared_db :: sim_db where
  "prepared_db = (only_tapes one_sealed_tape)\<lparr>
     sj_sessions := [session_row_of demo_session (demo_id (CHR ''1'')) (demo_id (CHR ''0'')) (sim_document ''session'') (demo_id (CHR ''0''))],
     sj_trades := [pending_trade (demo_id (CHR ''7''), demo_id (CHR ''1''), demo_id (CHR ''5''), demo_id (CHR ''3'')) ''BTCUSDT'' ''LONG'' 3
       (sim_document ''trade'') (sample_sha (canonical_json (sim_document ''trade'')))],
     sj_commands := [command_row_of demo_command (demo_id (CHR ''c''), demo_id (CHR ''1''), demo_id (CHR ''5''), demo_id (CHR ''3''), demo_id (CHR ''7''))
       ''BTCUSDT'' ''LONG'' 6 (sim_document ''command'') (sample_sha (canonical_json (sim_document ''command'')))]\<rparr>"

definition demo_completion :: "sim_db \<Rightarrow> ((sim_receipt \<times> bool) \<times> sim_db) res" where
  "demo_completion db = complete_command sample_sha demo_models (\<lambda>n. 8) demo_command demo_receipt ''v1'' demo_state [] 8 db"

text \<open>The databases after each operation, written out.\<close>

definition demo_digest :: "char \<Rightarrow> string" where
  "demo_digest c = replicate 63 (CHR ''0'') @ [c]"

definition demo_published :: "string \<Rightarrow> char \<Rightarrow> string \<Rightarrow> int \<Rightarrow> sim_db \<Rightarrow> sim_db" where
  "demo_published name c topic n db = db\<lparr>sj_tape := (sj_tape db)\<lparr>
     tdb_audit := tdb_audit (sj_tape db) @ [\<lparr>ev_produced_at = 1704067200000000, ev_message_id = name, ev_topic = topic,
       ev_source = ''sim'', ev_schema_version = ''1'', ev_correlation_id = None, ev_causation_id = None,
       ev_payload = sim_document name\<rparr>],
     tdb_outbox := tdb_outbox (sj_tape db) @ [fresh_outbox n name topic (sim_document name) (demo_digest c)
       simulator_outbox_producer n]\<rparr>\<rparr>"

definition demo_1 :: sim_db where
  "demo_1 = demo_published ''session'' (CHR ''a'') ''kairos.simulation.session.v1'' 1 ((only_tapes one_sealed_tape)\<lparr>
     sj_sessions := [session_row_of demo_session (demo_id (CHR ''1'')) (demo_id (CHR ''0'')) (sim_document ''session'') (demo_digest (CHR ''a''))]\<rparr>)"

definition demo_2 :: sim_db where
  "demo_2 = demo_published ''decision'' (CHR ''b'') ''kairos.simulation.risk_decision.v1'' 2 ((demo_1)\<lparr>
     sj_decisions := [decision_row_of demo_decision (demo_id (CHR ''2'')) (demo_id (CHR ''1'')) (demo_id (CHR ''3'')) (demo_id (CHR ''4'')) (sim_document ''decision'') (demo_digest (CHR ''b''))]\<rparr>)"

definition demo_3 :: sim_db where
  "demo_3 = demo_published ''admission'' (CHR ''a'') ''kairos.simulation.admission.v2'' 3 ((demo_2)\<lparr>
     sj_admissions := [\<lparr>sp_sha256 = demo_digest (CHR ''a''), sp_payload = sim_document ''admission'',
       ar_admission_id = demo_id (CHR ''5''), ar_decision_id = demo_id (CHR ''2''), ar_session_id = demo_id (CHR ''1''),
       ar_intent_id = demo_id (CHR ''3''), ar_review_id = demo_id (CHR ''4''), ar_book_sha256 = demo_id (CHR ''6''),
       ar_symbol = ''BTCUSDT'', ar_side = ''LONG'', ar_quantity = demo_size, ar_price_cap = demo_size, ar_admitted_at = 2\<rparr>]\<rparr>)"

definition demo_4 :: sim_db where
  "demo_4 = demo_published ''trade'' (CHR ''a'') ''kairos.simulation.trade.v1'' 4 ((demo_3)\<lparr>
     sj_trades := [pending_trade ((demo_id (CHR ''7'')), (demo_id (CHR ''1'')), (demo_id (CHR ''5'')), (demo_id (CHR ''3''))) ''BTCUSDT'' ''LONG'' 3
       (sim_document ''trade'') (demo_digest (CHR ''a''))]\<rparr>)"

definition demo_5 :: sim_db where
  "demo_5 = demo_published ''admitted'' (CHR ''b'') ''kairos.simulation.trade_event.v2'' 5 ((demo_4)\<lparr>
     sj_trades := map (advanced_trade demo_admitted (demo_id (CHR ''a''))) (sj_trades demo_4),
     sj_events := [event_row_of demo_admitted (demo_id (CHR ''a'')) (sim_document ''admitted'') (demo_digest (CHR ''b''))]\<rparr>)"

definition demo_6 :: sim_db where
  "demo_6 = demo_published ''unfilled'' (CHR ''b'') ''kairos.simulation.trade_event.v2'' 6 ((demo_5)\<lparr>
     sj_trades := map (advanced_trade demo_unfilled (demo_id (CHR ''b''))) (sj_trades demo_5),
     sj_events := sj_events demo_5 @ [event_row_of demo_unfilled (demo_id (CHR ''b'')) (sim_document ''unfilled'') (demo_digest (CHR ''b''))]\<rparr>)"

definition demo_7 :: sim_db where
  "demo_7 = demo_published ''result'' (CHR ''b'') ''kairos.simulation.result.v1'' 7 ((demo_6)\<lparr>
     sj_results := [result_row_of demo_result (demo_id (CHR ''e'')) (sim_document ''result'') (demo_digest (CHR ''b''))]\<rparr>)"

lemma demo_step_1: "journal_step sample_sha sample_tape_models demo_models (SessionOp 1 demo_session 1) (only_tapes one_sealed_tape) = demo_1"
  by code_simp

lemma demo_step_2: "journal_step sample_sha sample_tape_models demo_models (DecisionOp 2 demo_decision 2) demo_1 = demo_2"
  by code_simp

lemma demo_step_3: "journal_step sample_sha sample_tape_models demo_models (AdmissionOp 3 demo_admission 3) demo_2 = demo_3"
  by code_simp

lemma demo_step_4: "journal_step sample_sha sample_tape_models demo_models (TradeOp 4 demo_trade 4) demo_3 = demo_4"
  by code_simp

lemma demo_step_5: "journal_step sample_sha sample_tape_models demo_models (EventOp 5 demo_admitted 5) demo_4 = demo_5"
  by code_simp

lemma demo_step_6: "journal_step sample_sha sample_tape_models demo_models (EventOp 6 demo_unfilled 6) demo_5 = demo_6"
  by code_simp

lemma demo_step_7: "journal_step sample_sha sample_tape_models demo_models (ResultOp 7 demo_result 7) demo_6 = demo_7"
  by code_simp

lemma demo_db_rows: "demo_db = demo_7"
  by (simp only: demo_db_def demo_ops_def fold_simps demo_step_1 demo_step_2 demo_step_3 demo_step_4 demo_step_5 demo_step_6
      demo_step_7)

lemma demo_stored:
  "map tr_trade_id (sj_trades demo_7) = [demo_id (CHR ''7'')] \<and> map xr_trade_id (sj_results demo_7) = [demo_id (CHR ''7'')]"
  by code_simp

lemma demo_closes:
  "case record_session_receipt sample_sha demo_models 9 demo_session_receipt 9 demo_7 of Inl e \<Rightarrow> False | Inr (b, db) \<Rightarrow> b"
  by code_simp

lemma demo_completes:
  "case demo_completion prepared_db of Inl e \<Rightarrow> False
   | Inr ((x, b), db) \<Rightarrow> b \<and> (case demo_completion db of Inl e \<Rightarrow> False | Inr (y, db') \<Rightarrow> True)"
  by code_simp

lemma demo_good: "list_all (hands_in (good_event demo_models) (good_trade demo_models)) demo_ops"
  by code_simp

lemma demo_trade_stored: "\<exists>r. r \<in> set (sj_trades demo_db) \<and> tr_trade_id r = demo_id (CHR ''7'')"
  using demo_stored by (cases "sj_trades demo_7") (auto simp: demo_db_rows)

theorem sim_trades_verify_witness:
  "verify_sim_trade_chain sample_sha demo_models (demo_id (CHR ''7'')) demo_db = Inr True \<and>
    (\<exists>j. load_trade_journal sample_sha demo_models (demo_id (CHR ''7'')) demo_db = Inr (Some j))"
proof -
  obtain r where r: "r \<in> set (sj_trades demo_db)" "tr_trade_id r = demo_id (CHR ''7'')" using demo_trade_stored by blast
  from sim_trades_verify [OF demo_good demo_db_def r(1)] r(2) show ?thesis by auto
qed

theorem sim_trade_lineage_witness:
  "\<exists>s\<in>set (sj_sessions demo_db). \<exists>q\<in>set (sj_decisions demo_db). \<exists>t.
     row_of_decision sample_sha demo_decision q \<and> inputs_on_tape sample_sha sample_tape_models (sj_tape demo_db) demo_decision \<and>
     it_input_bars (dc_intent demo_decision) = [demo_id (CHR ''d'')] \<and>
     tape_at (sr_tape_id s) (sj_tape demo_db) = Some t \<and> tp_state t = TAPE_SEALED"
proof -
  obtain r where r: "r \<in> set (sj_trades demo_db)" using demo_trade_stored by blast
  have "d = demo_decision" if "DecisionOp nid d now \<in> set demo_ops" for nid d now
    using that by (simp add: demo_ops_def)
  moreover have "it_input_bars (dc_intent demo_decision) = [demo_id (CHR ''d'')]"
    by (simp add: demo_decision_def demo_intent_def)
  ultimately show ?thesis using sim_trade_lineage [OF demo_db_def r] by blast
qed

theorem sim_terminal_facts_witness:
  "\<exists>x\<in>set (sj_results demo_db). \<exists>q\<in>set (sj_events demo_db). er_event_id q = xr_terminal_event x \<and> er_to q = xr_final_state x"
proof -
  obtain x where x: "x \<in> set (sj_results demo_db)" using demo_stored by (cases "sj_results demo_7") (auto simp: demo_db_rows)
  from sim_terminal_facts [OF demo_db_def] x show ?thesis by blast
qed

theorem completed_command_final_witness:
  "\<exists>db1 db3. demo_completion prepared_db = Inr ((demo_receipt, True), db1) \<and> demo_completion db1 = Inr ((demo_receipt, False), db3) \<and> db3 = db1"
proof -
  obtain x db1 where first: "demo_completion prepared_db = Inr ((x, True), db1)"
      and more: "case demo_completion db1 of Inl e \<Rightarrow> False | Inr (y, db') \<Rightarrow> True"
    using demo_completes by (cases "demo_completion prepared_db") auto
  obtain y b db3 where again: "demo_completion db1 = Inr ((y, b), db3)"
    using more by (cases "demo_completion db1") auto
  have contract: "document_ok (af_payload demo_receipt)" "decode_sim_receipt demo_models (sorted_json (af_payload demo_receipt)) = Some demo_receipt"
    by code_simp+
  have "mc_command_id demo_command = Some (demo_id (CHR ''c''))" by (simp add: demo_command_def)
  from completed_command_final [OF first [unfolded demo_completion_def] this this contract _ again [unfolded demo_completion_def],
      of sample_tape_models "[]"]
  show ?thesis using first again by simp
qed

theorem session_receipt_states_journals_witness:
  "\<exists>db'. record_session_receipt sample_sha demo_models 9 demo_session_receipt 9 demo_db = Inr (True, db') \<and>
    ss_journals demo_session_receipt = map (head_of_events demo_db) (map tr_trade_id (trades_of (demo_id (CHR ''1'')) demo_db)) \<and>
    length (filter (\<lambda>r. yr_session_id r = demo_id (CHR ''1'')) (sj_session_receipts db')) = 1"
proof -
  obtain db' where stored: "record_session_receipt sample_sha demo_models 9 demo_session_receipt 9 demo_db = Inr (True, db')"
    using demo_closes by (auto simp: demo_db_rows split: sum.splits)
  have "ss_session_id demo_session_receipt = Some (demo_id (CHR ''1''))" by (simp add: demo_session_receipt_def)
  note states = session_receipt_states_journals [OF demo_good demo_db_def stored this]
  then obtain row where "\<forall>later. filter (\<lambda>r. yr_session_id r = demo_id (CHR ''1''))
      (sj_session_receipts (fold (journal_step sample_sha sample_tape_models demo_models) later db')) = [row]" by blast
  from this [rule_format, of "[]"] have "filter (\<lambda>r. yr_session_id r = demo_id (CHR ''1'')) (sj_session_receipts db') = [row]" by simp
  with stored states show ?thesis by auto
qed

end
