(* ===== verification/Spec2Isabelle.thy ===== *)
theory Spec2Isabelle
  imports UsageBudget MutationBudget NewsProcessing RuntimeHealth BusRuns BusStart ExecutionJournal TradeRetry AccountState OperatorControl SimulatorProposals JournalRuns
begin

text \<open>
  A verification development for \<open>kairos-persistence\<close>, the PostgreSQL persistence of the Kairos trading
  runtime: the repositories under \<open>src/kairos_persistence/\<close> together with the tables, constraints and triggers
  of the SQL files under \<open>src/kairos_persistence/migrations/\<close> they work on.

  \<^bold>\<open>The program.\<close> Services exchange messages through a durable bus. A publisher stores an audit fact and an
  outbox row in one transaction; a dispatcher gives the rows of a producer to the transport in order; a
  subscriber runs its handler inside the inbox transaction of the message and acknowledges the transport
  after the commit. The executor records every exchange mutation in a hash-chained journal before it calls
  the exchange, keeps the lifecycle of its trades in a second hash-chained journal, and publishes trade facts in the
  transaction of the transition. Entries are held back by an account recovery barrier, by a mutation
  budget, by bounded canary sessions with single-use arms, and by the operator's latch. Collectors
  keep cursors and a ledger of paid calls. An isolated simulator keeps its input tapes, the lifecycle journal of its
  sessions and the LLM's advisory proposals in its own database.

  \<^bold>\<open>How the code becomes definitions.\<close> A table is the list of its rows (\<open>SqlTable\<close>), a row a record with the
  columns as fields; the state of a component is a record of its tables. A repository method is one function
  from its arguments and the tables to \<open>Inl\<close> of the error raised or \<open>Inr\<close> of the result and the tables that
  commit; a transaction that raises leaves the tables alone. Where a method decodes after the commit, or holds
  several transactions, it returns the tables beside its result also on error. One method is one function because
  the code takes row locks or transaction-scoped advisory locks; an interleaving of callers is a list of
  operations, folded with the component's step function. What the code reads from outside is an
  argument: \<open>now\<close> (the transaction's \<open>now()\<close>), \<open>clk\<close>, \<open>t1\<close>, \<open>t2\<close> (readings of \<open>clock_timestamp()\<close>), \<open>nid\<close>
  (a sequence value), nonces, \<open>sha\<close> (SHA-256 of a text, in hexadecimal), outcomes of the transport, of a
  lost connection, of an advisory lock's timeout and of the catalogue queries. The package \<open>kairos_core\<close> and pydantic are outside: their contracts are records of what the
  code reads, \<open>model_validate\<close> is a decoder argument (\<open>decode\<close>, \<open>canary_models\<close>, \<open>operator_models\<close>, \<open>tape_models\<close>,
  \<open>journal_models\<close>), and
  what the code relies on of them is a named hypothesis with a witness.

  \<^bold>\<open>Theories, and the code they model\<close> (file names under \<open>src/kairos_persistence/\<close>).
  \<^item> \<open>Prelude\<close>: errors, results, string predicates of the validators, datetimes, and the interfaces
    \<open>invariant_system\<close>, \<open>monotone_system\<close> and \<open>refinement\<close> that lift facts of a step to runs. Every component interprets
    them on its own step function. \<open>SqlTable\<close>: tables and the statements used on them.
  \<^item> \<open>Json\<close>: \<open>json.dumps\<close>, \<open>json.loads\<close>, \<open>JSONB\<close>. The encoder is injective because the decoder reads back
    what it writes. \<open>IsoTime\<close>: \<open>datetime.fromisoformat\<close>. \<open>PyFloat\<close>, \<open>FloatText\<close>: doubles, \<open>float.hex\<close>, \<open>repr\<close>,
    rounded quotients and products. \<open>HashChain\<close>: \<open>canonical_payload\<close> and the interface \<open>hash_chain\<close>: two chains of the same length that end in
    the same digest are equal, unless SHA-256 collides on two texts the proof names.
  \<^item> \<open>SourceState\<close> (\<open>source_state.py\<close>, migrations 005 and 013), \<open>UsageBudget\<close> (\<open>usage_budget.py\<close>): cursors, paid
    reservations and the campaign budgets; the CHECK constraints are kept, with the widths of their columns, and a campaign never spends more than
    its cap. The interface \<open>cost_repository\<close> is the protocol \<open>_CostRepository\<close>.
  \<^item> \<open>MutationBudget\<close> (\<open>mutation_budget.py\<close>), \<open>NewsProcessing\<close> (\<open>news_processing.py\<close>), \<open>RuntimeHealth\<close>
    (\<open>runtime_health.py\<close>): at most \<open>limit\<close> mutations in any window, one claim per news event for ever, and the
    latest health never goes back in time.
  \<^item> \<open>AuditLog\<close>, \<open>Outbox\<close>, \<open>OfflineRecovery\<close>, \<open>Inbox\<close> (\<open>repository.py\<close>, \<open>redis_acceptance_evidence.py\<close>): the audit
    log, every status change of an outbox row, offline claims, quarantine and resolution by Redis evidence, the
    inbox, and \<open>message_transaction\<close> with its savepoint. Rows of a producer are given out in order, an unknown
    outcome stays until evidence resolves it (a missing fingerprint is all an enqueue may still fill in), and the effects of a message commit exactly once.
  \<^item> \<open>RuntimeBus\<close> (\<open>runtime.py\<close>), \<open>OfflineTools\<close> (\<open>offline_writer.py\<close>, \<open>offline_outbox_drain.py\<close>,
    \<open>offline_outbox_reconciler.py\<close>), \<open>BusRuns\<close>, \<open>BusStart\<close>: publish, subscribe, the dispatcher loop with each
    failure branch, start and close; \<open>BusRuns\<close> composes them with every other writer of the tables and proves
    that a message is given to a transport at most once, and that an acknowledged delivery keeps its writes and is
    acknowledged again without effect when it is redelivered.
  \<^item> \<open>ExecutionJournal\<close> (\<open>execution_journal.py\<close>): prepare, confirm, fail, reconcile and the verification of the
    chain; the chain verifies in every reachable state, rewriting it needs a collision, and recovery returns every
    effect without an outcome.
  \<^item> \<open>TradeLifecycle\<close>, \<open>TradeFacts\<close>, \<open>TradeRetry\<close>, \<open>AccountState\<close> (\<open>trade_lifecycle.py\<close>): the transition table, creation and
    transitions with their journal, the public facts and their audit and outbox rows, the validation of
    retried requests, the recovery barrier and the daily equity. A trade refines an abstract position.
  \<^item> \<open>CanaryPlan\<close>, \<open>CanaryEvidence\<close>, \<open>CanarySession\<close> (\<open>canary_session.py\<close>), \<open>CanaryArm\<close> (\<open>canary_arm.py\<close>), \<open>CanaryRuns\<close>: the plan and its
    exact comparison with a review, the read-only evidence, sessions with attempts and dispatch, single-use
    arms, and the runs of all of them, which refine a small session machine from every point of a run to every later one.
  \<^item> \<open>OperatorControl\<close> (\<open>operator_control.py\<close>): the account-wide entry latch, its hash-chained command log, admissions
    and dispatch claims, composed with the canary: no entry passes a latch that is shut.
  \<^item> \<open>Migrations\<close> (\<open>database.py\<close>): profiles, manifests, \<open>migrate\<close> and \<open>verify_schema\<close>.
  \<^item> \<open>SimulatorProposals\<close> (\<open>simulator_proposals.py\<close>, \<open>simulator_proposal_consumer.py\<close>): paging through the proposals returns each stored one
    once; the consumer stores before it acknowledges.
  \<^item> \<open>SimulatorTape\<close>, \<open>TapeRuns\<close> (\<open>simulation_repository.py\<close>, migrations 017 and 019): recording closed
    bars and book frames, the barrier a discontinuous frame puts up, sealing, verifying and reading an input tape. A recorded tape verifies, a sealed one has every frame of
    its interval in order, and a closed one never changes.
  \<^item> \<open>SimulatorJournal\<close>, \<open>JournalRuns\<close> (\<open>simulation_repository.py\<close> from \<open>create_session\<close> on, migration 017 from
    \<open>sim_sessions\<close> on): sessions, risk decisions, admissions, trades with their hash-chained events, prepared and
    completed commands with the liquidity snapshot, trade results and session receipts. In every reachable state
    each trade's journal verifies, and the trade rests on a decision that was handed in, its inputs recorded, and on a
    sealed tape; a completed command, a trade result and a
    session receipt are final, and the receipt states the journals it closes. Closing a session does not bar
    later events of its trades (\<open>closed_session_takes_events\<close>).

  \<^bold>\<open>Bounds and fuel.\<close> The JSON decoder takes fuel; a call with more than twice the length of its text never
  runs out (\<open>read_value_fuel\<close>), and \<open>json_loads\<close> gives it that. The operator's scan of a payload needs no fuel: it is
  shown to stop within its own limits of depth and items (\<open>scan_payload_bounds\<close>). \<open>load_all\<close>, the client of the
  proposal pages, is shown to be complete with more fuel than there are rows. The dispatcher's endless loop is the
  iteration of its turn, any number of times. Nothing else is bounded. The \<open>BIGINT\<close> and \<open>INTEGER\<close> columns hold
  unbounded integers: the code's own range checks are modelled, an overflow in the server is not.

  \<^bold>\<open>Limits of the model.\<close> Strings hold code points below 256 and are ordered as in the C collation; \<open>TEXT\<close> with
  U+0000, which PostgreSQL refuses, is excluded by hypotheses where it matters. A \<open>float\<close> inside a JSON document is its literal; \<open>JSONB\<close> rewrites some literals, which is modelled
  and is what the error properties on rewritten numbers are about. A waiting lock has no state: a lock that times out is
  an argument.

  \<^bold>\<open>Not modelled.\<close>
  \<^item> \<open>require_profile_database_url\<close> and \<open>database_target.py\<close> (URL parsing with \<open>urlsplit\<close> and a check of the connected
    server), the connection pool, and the text of the migrations other than the tables and triggers above.
  \<^item> The research part: \<open>research_campaign.py\<close>, \<open>research_evidence.py\<close>, \<open>research_decision_samples.py\<close>,
    \<open>research_observation_schedule.py\<close>, \<open>campaign_inputs.py\<close>, \<open>causal_campaign.py\<close>, \<open>campaign_adoption.py\<close> and
    \<open>adaptive_candidate_protocols.py\<close>. They keep research evidence in the simulator's database, no trading operation reads their tables,
    and they are mostly field-by-field validation of contracts of \<open>kairos_core\<close> that are not in the repository.
  \<^item> \<open>metrics_exporter.py\<close>, \<open>cockpit_api.py\<close> and \<open>cockpit_snapshot.py\<close>: read-only queries formatted for Prometheus and
    the cockpit. \<open>config.py\<close> and \<open>__init__.py\<close>: settings and re-exports.
  \<^item> Blocking locks (\<open>recovery_lock\<close>, \<open>trade_lock\<close>, \<open>account_lock\<close>), sleeping, wake-up events and task scheduling have no table state; what
    they guarantee is the serial order of the operations.
\<close>

end
